(* ===== verification/Prelude.thy ===== *)
theory Prelude
  imports Complex_Main "HOL-Library.Sublist"
begin

text \<open>
  What every component shares: the names of the model's scalar types, the Go standard
  library functions on strings and 64-bit integers that the source calls, the relational
  operations on a table kept as a list of rows, and the lemma collections
  \<open>table_simps\<close> (facts about the table operations) and \<open>string_simps\<close>
  (facts about trimming and case folding).

  Conventions of the whole development:
  \<^item> an \<open>int64\<close> id is an \<open>int\<close>, with \<open>0\<close> for Go's zero value where the
    code tests it; a nillable column or a Go pointer is an \<open>option\<close>;
  \<^item> a time is the number of nanoseconds since the epoch and a duration a number of
    nanoseconds, both \<open>int\<close>; where an \<open>int64\<close> product can overflow the model applies
    \<open>wrap64\<close>;
  \<^item> a string is a list of bytes. \<open>strings.ToLower\<close> and \<open>strings.TrimSpace\<close>
    are modelled on the ASCII range: bytes above 127 are left as they are;
  \<^item> a fallible function returns \<open>error + result\<close>.
\<close>

section \<open>Lemma collections\<close>

named_theorems table_simps
named_theorems string_simps

section \<open>Scalars\<close>

type_synonym id = int
type_synonym time = int
type_synonym duration = int

abbreviation millisecond :: duration where "millisecond \<equiv> 1000000"
abbreviation second :: duration where "second \<equiv> 1000000000"
abbreviation minute :: duration where "minute \<equiv> 60000000000"
abbreviation hour :: duration where "hour \<equiv> 3600000000000"
abbreviation day :: duration where "day \<equiv> 86400000000000"

text \<open>Two's complement reading of an integer in 64 bits, which is what Go's \<open>int64\<close>
  arithmetic yields.\<close>

definition wrap64 :: "int \<Rightarrow> int" where
  "wrap64 x = (x + 2 ^ 63) mod 2 ^ 64 - 2 ^ 63"

lemma wrap64_id: "- (2 ^ 63) \<le> x \<Longrightarrow> x < 2 ^ 63 \<Longrightarrow> wrap64 x = x"
  by (simp add: wrap64_def)

lemma wrap64_range: "- (2 ^ 63) \<le> wrap64 x \<and> wrap64 x < 2 ^ 63"
  by (simp add: wrap64_def)

lemma wrap64_add_multiple: "wrap64 (x + 2 ^ 64 * k) = wrap64 x"
proof -
  have "x + 2 ^ 64 * k + 2 ^ 63 = (x + 2 ^ 63) + 2 ^ 64 * k" by (rule add.commute [THEN trans]) simp
  then show ?thesis by (simp only: wrap64_def mod_mult_self2)
qed

text \<open>\<open>t.Truncate(time.Microsecond)\<close>: the precision Postgres keeps.\<close>

definition truncate_micro :: "time \<Rightarrow> time" where
  "truncate_micro t = t - t mod 1000"

lemma truncate_micro_idem: "truncate_micro (truncate_micro t) = truncate_micro t"
proof -
  have "(t - t mod 1000) mod 1000 = (0 :: int)" by (simp add: mod_diff_right_eq)
  then show ?thesis by (simp add: truncate_micro_def)
qed

lemma truncate_micro_bounds: "truncate_micro t \<le> t \<and> t < truncate_micro t + 1000"
  using pos_mod_bound [of 1000 t] pos_mod_sign [of 1000 t]
  by (simp add: truncate_micro_def)

lemma truncate_micro_mono: "s \<le> t \<Longrightarrow> truncate_micro s \<le> truncate_micro t"
proof -
  assume "s \<le> t"
  then have "s div 1000 \<le> t div 1000" by (simp add: zdiv_mono1)
  then show ?thesis by (simp add: truncate_micro_def minus_mod_eq_mult_div)
qed

section \<open>Strings\<close>

text \<open>\<open>strings.ToLower\<close> on bytes: the upper-case letters 65 to 90 move up by 32.\<close>

definition lower_char :: "char \<Rightarrow> char" where
  "lower_char c = (let n = of_char c :: nat in if 65 \<le> n \<and> n \<le> 90 then char_of (n + 32) else c)"

definition to_lower :: "string \<Rightarrow> string" where
  "to_lower s = map lower_char s"

text \<open>\<open>strings.TrimSpace\<close>: tab, line feed, vertical tab, form feed, carriage return
  and space.\<close>

definition is_space :: "char \<Rightarrow> bool" where
  "is_space c \<longleftrightarrow> (let n = of_char c :: nat in (9 \<le> n \<and> n \<le> 13) \<or> n = 32)"

definition trim_left :: "string \<Rightarrow> string" where
  "trim_left s = dropWhile is_space s"

definition trim_right :: "string \<Rightarrow> string" where
  "trim_right s = rev (dropWhile is_space (rev s))"

definition trim_space :: "string \<Rightarrow> string" where
  "trim_space s = trim_right (trim_left s)"

lemma of_char_lower_char:
  "(of_char (lower_char c) :: nat) =
     (let n = of_char c in if 65 \<le> n \<and> n \<le> 90 then n + 32 else n)"
  by (simp add: lower_char_def Let_def)

lemma lower_char_idem [string_simps]: "lower_char (lower_char c) = lower_char c"
  by (simp add: lower_char_def Let_def)

lemma is_space_lower_char [string_simps]: "is_space (lower_char c) = is_space c"
  by (simp add: is_space_def of_char_lower_char Let_def)

lemma to_lower_idem [string_simps]: "to_lower (to_lower s) = to_lower s"
  by (simp add: to_lower_def string_simps)

lemma to_lower_append [string_simps]: "to_lower (s @ t) = to_lower s @ to_lower t"
  by (simp add: to_lower_def)

lemma to_lower_Nil_iff [string_simps]: "to_lower s = [] \<longleftrightarrow> s = []"
  by (simp add: to_lower_def)

lemma dropWhile_to_lower [string_simps]:
  "dropWhile is_space (to_lower s) = to_lower (dropWhile is_space s)"
  by (induction s) (simp_all add: to_lower_def string_simps)

lemma trim_space_to_lower [string_simps]: "trim_space (to_lower s) = to_lower (trim_space s)"
  by (simp add: trim_space_def trim_left_def trim_right_def string_simps
      flip: to_lower_def rev_map)
     (metis dropWhile_to_lower rev_map to_lower_def)

lemma dropWhile_idem: "dropWhile P (dropWhile P xs) = dropWhile P xs"
  by (induction xs) simp_all

lemma trim_right_idem: "trim_right (trim_right s) = trim_right s"
  by (simp add: trim_right_def dropWhile_idem)

lemma trim_left_stable: "s = [] \<or> \<not> is_space (hd s) \<longleftrightarrow> trim_left s = s"
  by (simp add: trim_left_def dropWhile_eq_self_iff)

lemma prefix_trim_right: "prefix (trim_right s) s"
  by (metis trim_right_def rev_rev_ident suffix_dropWhile suffix_to_prefix)

lemma trim_left_trim_right: "trim_left (trim_right (trim_left s)) = trim_right (trim_left s)"
proof -
  have "trim_right (trim_left s) = [] \<or> \<not> is_space (hd (trim_right (trim_left s)))"
  proof (cases "trim_right (trim_left s)")
    case (Cons c cs)
    then have "hd (trim_left s) = c" and "trim_left s \<noteq> []"
      using prefix_trim_right [of "trim_left s"] by (auto simp: prefix_def)
    then show ?thesis
      using Cons hd_dropWhile [of is_space s] by (auto simp: trim_left_def)
  qed simp
  then show ?thesis by (simp add: trim_left_stable)
qed

lemma trim_space_idem [string_simps]: "trim_space (trim_space s) = trim_space s"
  by (simp add: trim_space_def trim_left_trim_right trim_right_idem)

section \<open>Decimal numbers\<close>

text \<open>\<open>%d\<close> of \<open>fmt.Sprintf\<close>, and \<open>strconv.ParseInt(s, 10, 64)\<close>: an optional
  sign, at least one digit, nothing else, and a value in the \<open>int64\<close> range; \<open>None\<close> is
  the error return.\<close>

definition digit_char :: "nat \<Rightarrow> char" where
  "digit_char d = char_of (48 + d)"

definition digit_val :: "char \<Rightarrow> nat option" where
  "digit_val c = (let n = of_char c :: nat in if 48 \<le> n \<and> n \<le> 57 then Some (n - 48) else None)"

fun show_nat :: "nat \<Rightarrow> string" where
  "show_nat n = (if n < 10 then [digit_char n] else show_nat (n div 10) @ [digit_char (n mod 10)])"

declare show_nat.simps [simp del]

definition show_int :: "int \<Rightarrow> string" where
  "show_int i = (if i < 0 then CHR ''-'' # show_nat (nat (- i)) else show_nat (nat i))"

fun parse_digits :: "nat \<Rightarrow> string \<Rightarrow> nat option" where
  "parse_digits acc [] = Some acc"
| "parse_digits acc (c # cs) =
     (case digit_val c of None \<Rightarrow> None | Some d \<Rightarrow> parse_digits (10 * acc + d) cs)"

definition parse_uint :: "string \<Rightarrow> nat option" where
  "parse_uint s = (if s = [] then None else parse_digits 0 s)"

definition parse_int64 :: "string \<Rightarrow> int option" where
  "parse_int64 s =
     (let neg = (s \<noteq> [] \<and> hd s = CHR ''-'');
          body = (if s \<noteq> [] \<and> (hd s = CHR ''-'' \<or> hd s = CHR ''+'') then tl s else s)
      in case parse_uint body of
           None \<Rightarrow> None
         | Some n \<Rightarrow>
             if neg then (if int n \<le> 2 ^ 63 then Some (- int n) else None)
             else (if int n < 2 ^ 63 then Some (int n) else None))"

lemma digit_val_digit_char [simp]: "d < 10 \<Longrightarrow> digit_val (digit_char d) = Some d"
  by (simp add: digit_val_def digit_char_def)

lemma digit_char_not_sign: "d < 10 \<Longrightarrow> digit_char d \<noteq> CHR ''-'' \<and> digit_char d \<noteq> CHR ''+''"
proof -
  assume d: "d < 10"
  then have n: "(of_char (digit_char d) :: nat) = 48 + d" by (simp add: digit_char_def)
  show ?thesis
  proof (intro conjI notI)
    assume "digit_char d = CHR ''-''"
    with n show False by simp
  next
    assume "digit_char d = CHR ''+''"
    with n show False by simp
  qed
qed

lemma show_nat_ne [simp]: "show_nat n \<noteq> []"
  by (subst show_nat.simps) simp

lemma hd_show_nat: "\<exists>d < 10. hd (show_nat n) = digit_char d"
proof (induction n rule: show_nat.induct)
  case (1 n)
  show ?case
  proof (cases "n < 10")
    case True
    then show ?thesis by (subst show_nat.simps) auto
  next
    case False
    with 1 show ?thesis by (subst show_nat.simps) simp
  qed
qed

lemma parse_digits_append:
  "parse_digits acc (xs @ ys) = (case parse_digits acc xs of None \<Rightarrow> None | Some a \<Rightarrow> parse_digits a ys)"
  by (induction acc xs rule: parse_digits.induct) (simp_all split: option.split)

lemma parse_digits_show_nat: "parse_digits 0 (show_nat n) = Some n"
proof (induction n rule: show_nat.induct)
  case (1 n)
  show ?case
  proof (cases "n < 10")
    case True
    then show ?thesis by (subst show_nat.simps) simp
  next
    case False
    with 1 show ?thesis by (subst show_nat.simps) (simp add: parse_digits_append)
  qed
qed

lemma parse_uint_show_nat [simp]: "parse_uint (show_nat n) = Some n"
  by (simp add: parse_uint_def parse_digits_show_nat)

lemma parse_int64_show_int:
  assumes "- (2 ^ 63) \<le> i" and "i < 2 ^ 63"
  shows "parse_int64 (show_int i) = Some i"
proof (cases "i < 0")
  case True
  with assms show ?thesis by (simp add: parse_int64_def show_int_def)
next
  case False
  obtain d where "d < 10" and "hd (show_nat (nat i)) = digit_char d" using hd_show_nat by blast
  then have "hd (show_nat (nat i)) \<noteq> CHR ''-'' \<and> hd (show_nat (nat i)) \<noteq> CHR ''+''"
    by (simp add: digit_char_not_sign)
  with False assms show ?thesis by (simp add: parse_int64_def show_int_def)
qed

lemma parse_int64_range: "parse_int64 s = Some i \<Longrightarrow> - (2 ^ 63) \<le> i \<and> i < 2 ^ 63"
  by (auto simp: parse_int64_def Let_def split: option.splits if_splits)

lemma show_int_inj: "show_int i = show_int j \<Longrightarrow> i = j"
proof -
  assume eq: "show_int i = show_int j"
  have hd: "hd (show_nat n) \<noteq> CHR ''-''" for n
    using hd_show_nat [of n] digit_char_not_sign by metis
  have neg: "k < 0 \<longleftrightarrow> hd (show_int k) = CHR ''-''" for k
    by (simp add: show_int_def hd)
  have inj: "show_nat m = show_nat n \<Longrightarrow> m = n" for m n
    by (metis parse_digits_show_nat option.inject)
  from eq neg have "i < 0 \<longleftrightarrow> j < 0" by metis
  with eq show ?thesis by (auto simp: show_int_def dest: inj split: if_splits)
qed

section \<open>Tables\<close>

text \<open>
  A table is the list of its rows. \<open>update_where\<close> is an UPDATE with its WHERE clause,
  \<open>delete_where\<close> a DELETE, \<open>count_where\<close> the number of rows either affects (or a
  SELECT COUNT), \<open>exists_where\<close> an EXISTS and \<open>List.find\<close> the first matching row.
\<close>

definition update_where :: "('r \<Rightarrow> bool) \<Rightarrow> ('r \<Rightarrow> 'r) \<Rightarrow> 'r list \<Rightarrow> 'r list" where
  "update_where p f rows = map (\<lambda>r. if p r then f r else r) rows"

definition delete_where :: "('r \<Rightarrow> bool) \<Rightarrow> 'r list \<Rightarrow> 'r list" where
  "delete_where p rows = filter (\<lambda>r. \<not> p r) rows"

definition count_where :: "('r \<Rightarrow> bool) \<Rightarrow> 'r list \<Rightarrow> nat" where
  "count_where p rows = length (filter p rows)"

definition exists_where :: "('r \<Rightarrow> bool) \<Rightarrow> 'r list \<Rightarrow> bool" where
  "exists_where p rows = list_ex p rows"

definition find_where :: "('r \<Rightarrow> bool) \<Rightarrow> 'r list \<Rightarrow> 'r option" where
  "find_where p rows = List.find p rows"

lemma exists_where_iff [table_simps]: "exists_where p rows \<longleftrightarrow> (\<exists>r \<in> set rows. p r)"
  by (simp add: exists_where_def list_ex_iff)

lemma count_where_0_iff [table_simps]: "count_where p rows = 0 \<longleftrightarrow> (\<forall>r \<in> set rows. \<not> p r)"
  by (simp add: count_where_def filter_empty_conv)

lemma count_where_pos_iff: "0 < count_where p rows \<longleftrightarrow> (\<exists>r \<in> set rows. p r)"
  using count_where_0_iff [of p rows] by auto

lemma set_update_where [table_simps]:
  "set (update_where p f rows) = (\<lambda>r. if p r then f r else r) ` set rows"
  by (simp add: update_where_def)

lemma set_delete_where [table_simps]: "set (delete_where p rows) = {r \<in> set rows. \<not> p r}"
  by (auto simp: delete_where_def)

lemma length_update_where [table_simps]: "length (update_where p f rows) = length rows"
  by (simp add: update_where_def)

lemma map_update_where:
  "(\<And>r. r \<in> set rows \<Longrightarrow> p r \<Longrightarrow> k (f r) = k r) \<Longrightarrow> map k (update_where p f rows) = map k rows"
  by (simp add: update_where_def)

lemma find_where_SomeD:
  "find_where p rows = Some r \<Longrightarrow> r \<in> set rows \<and> p r"
  by (auto simp: find_where_def find_Some_iff in_set_conv_nth)

lemma find_where_None_iff [table_simps]: "find_where p rows = None \<longleftrightarrow> (\<forall>r \<in> set rows. \<not> p r)"
  by (auto simp: find_where_def find_None_iff)

lemma find_where_unique:
  assumes "r \<in> set rows" and "p r" and "\<And>r'. r' \<in> set rows \<Longrightarrow> p r' \<Longrightarrow> r' = r"
  shows "find_where p rows = Some r"
proof -
  have "find_where p rows \<noteq> None"
    using assms(1,2) by (auto simp: find_where_None_iff)
  then obtain r' where r': "find_where p rows = Some r'" by blast
  then have "r' \<in> set rows" and "p r'" by (simp_all add: find_where_SomeD)
  then have "r' = r" by (rule assms(3))
  with r' show ?thesis by simp
qed

lemma update_where_no_match [table_simps]:
  "(\<And>r. r \<in> set rows \<Longrightarrow> \<not> p r) \<Longrightarrow> update_where p f rows = rows"
  by (induction rows) (simp_all add: update_where_def)

lemma delete_where_no_match [table_simps]:
  "(\<And>r. r \<in> set rows \<Longrightarrow> \<not> p r) \<Longrightarrow> delete_where p rows = rows"
  by (simp add: delete_where_def)

lemma find_where_update:
  "(\<And>r. q (f r) = q r) \<Longrightarrow>
     find_where q (update_where p f rows) = map_option (\<lambda>r. if p r then f r else r) (find_where q rows)"
  by (induction rows) (auto simp: find_where_def update_where_def)

lemma find_where_append: "find_where q rows = None \<Longrightarrow> q r \<Longrightarrow> find_where q (rows @ [r]) = Some r"
  by (induction rows) (auto simp: find_where_def split: if_splits)

text \<open>Under a primary key the row found is the only one.\<close>

lemma find_where_eq:
  assumes "distinct (map g rows)" and "r \<in> set rows" and "q r"
    and "\<And>x. x \<in> set rows \<Longrightarrow> q x \<Longrightarrow> g x = g r"
  shows "find_where q rows = Some r"
proof (cases "find_where q rows")
  case None
  then show ?thesis using assms(2,3) by (auto simp: table_simps)
next
  case (Some x)
  then have "x \<in> set rows \<and> q x" by (auto dest: find_where_SomeD)
  then have "x = r" using assms(1,2) assms(4) [of x] by (auto simp: distinct_map inj_on_def)
  with Some show ?thesis by simp
qed

lemma find_where_delete:
  "(\<And>r. q r \<Longrightarrow> \<not> p r) \<Longrightarrow> find_where q (delete_where p rows) = find_where q rows"
  by (induction rows) (auto simp: find_where_def delete_where_def)

lemma find_where_deleted: "(\<And>r. q r \<Longrightarrow> p r) \<Longrightarrow> find_where q (delete_where p rows) = None"
  by (induction rows) (auto simp: find_where_def delete_where_def)

lemma filter_update_where_disjoint:
  "(\<And>r. p r \<Longrightarrow> \<not> q r) \<Longrightarrow> (\<And>r. p r \<Longrightarrow> \<not> q (f r)) \<Longrightarrow> filter q (update_where p f rows) = filter q rows"
  by (induction rows) (auto simp: update_where_def)

lemma filter_delete_where_disjoint:
  "(\<And>r. p r \<Longrightarrow> \<not> q r) \<Longrightarrow> filter q (delete_where p rows) = filter q rows"
  by (induction rows) (auto simp: delete_where_def)

end
