(* ===== verification/Events.thy ===== *)
theory Events
  imports Prelude
begin

text \<open>
  The typed domain events (\<open>internal/events/events.go\<close>, \<open>audit.go\<close>): one
  constructor per event struct, its bus name, its projection onto the Event log and the
  deduplication key of the identifiable ones. A Go zero time is \<open>None\<close>; the JSON
  \<open>map[string]any\<close> of a projection is a map to \<open>json\<close> values.
\<close>

section \<open>JSON values and actors\<close>

datatype json = JNull | JBool bool | JNum rat | JStr string | JArr "json list" | JObj "(string \<times> json) list"

text \<open>A text column that holds JSON: empty, the value \<open>encoding/json\<close> reads from it, or a text
  that is not JSON.\<close>

datatype json_text = EmptyText | JsonText json | MalformedText

type_synonym properties = "string \<rightharpoonup> json"

datatype actor_kind = ActorNone | ActorUser | ActorAPIToken | ActorOperator | ActorSystem | ActorIngest

record actor =
  actor_kind :: actor_kind
  actor_id :: string
  actor_name :: string

definition operator_label :: string where
  "operator_label = ''sphericon staff''"

section \<open>Event structs\<close>

record email_engagement =
  eng_action :: string
  eng_workspace :: id
  eng_contact :: id
  eng_email :: string
  eng_broadcast :: id
  eng_url :: string
  eng_dedup :: string
  eng_surface :: string
  eng_source :: string
  eng_domain :: string
  eng_automation :: id
  eng_message :: id
  eng_provider_message :: string

record delivery_failure =
  df_action :: string
  df_workspace :: id
  df_contact :: id
  df_email :: string
  df_bounce_kind :: string
  df_provider :: string
  df_domain :: string
  df_dedup :: string

record marketing_confirmed =
  mc_workspace :: id
  mc_contact :: id
  mc_email :: string
  mc_provenance :: string
  mc_ip :: string

record collected_event =
  ce_workspace :: id
  ce_contact :: id
  ce_visitor :: string
  ce_subject :: string
  ce_action :: string
  ce_email :: string
  ce_phone :: string
  ce_properties :: properties
  ce_occurred :: "time option"

record audit_entry =
  ae_workspace :: id
  ae_actor :: actor
  ae_action :: string
  ae_target_type :: string
  ae_target_id :: string
  ae_target_name :: string
  ae_diff :: json

datatype domain_event =
    ContactCreated id id string
  | ContactErased id string string string id
  | EmailEngagement email_engagement
  | EmailDeliveryFailure delivery_failure
  | MarketingConfirmed marketing_confirmed
  | CollectedEvent collected_event
  | AuditEntry audit_entry

record projection =
  p_subject :: string
  p_action :: string
  p_email :: string
  p_phone :: string
  p_properties :: properties
  p_occurred :: "time option"
  p_contact :: id
  p_visitor :: string

section \<open>Names and projections\<close>

definition name_contact_created :: string where "name_contact_created = ''contact.created''"
definition name_contact_erased :: string where "name_contact_erased = ''contact.erased''"
definition name_email_sent :: string where "name_email_sent = ''email.sent''"
definition name_email_opened :: string where "name_email_opened = ''email.opened''"
definition name_email_clicked :: string where "name_email_clicked = ''email.clicked''"
definition name_email_unsubscribed :: string where "name_email_unsubscribed = ''email.unsubscribed''"
definition name_email_bounced :: string where "name_email_bounced = ''email.bounced''"
definition name_email_complained :: string where "name_email_complained = ''email.complained''"
definition name_marketing_confirmed :: string where "name_marketing_confirmed = ''marketing.confirmed''"
definition name_collected :: string where "name_collected = ''event.collected''"
definition name_audit_entry :: string where "name_audit_entry = ''audit.entry''"
definition bounce_kind_permanent :: string where "bounce_kind_permanent = ''permanent''"
definition bounce_kind_transient :: string where "bounce_kind_transient = ''transient''"

lemmas event_names =
  name_contact_created_def name_contact_erased_def name_email_sent_def name_email_opened_def
  name_email_clicked_def name_email_unsubscribed_def name_email_bounced_def
  name_email_complained_def name_marketing_confirmed_def name_collected_def
  name_audit_entry_def bounce_kind_permanent_def bounce_kind_transient_def

fun event_name :: "domain_event \<Rightarrow> string" where
  "event_name (ContactCreated _ _ _) = name_contact_created"
| "event_name (ContactErased _ _ _ _ _) = name_contact_erased"
| "event_name (EmailEngagement e) = eng_action e"
| "event_name (EmailDeliveryFailure e) = df_action e"
| "event_name (MarketingConfirmed _) = name_marketing_confirmed"
| "event_name (CollectedEvent _) = name_collected"
| "event_name (AuditEntry _) = name_audit_entry"

fun event_workspace :: "domain_event \<Rightarrow> id" where
  "event_workspace (ContactCreated ws _ _) = ws"
| "event_workspace (ContactErased ws _ _ _ _) = ws"
| "event_workspace (EmailEngagement e) = eng_workspace e"
| "event_workspace (EmailDeliveryFailure e) = df_workspace e"
| "event_workspace (MarketingConfirmed e) = mc_workspace e"
| "event_workspace (CollectedEvent e) = ce_workspace e"
| "event_workspace (AuditEntry e) = ae_workspace e"

text \<open>\<open>identifiable.EventID\<close>: empty for an event without a natural upstream id.\<close>

fun event_id :: "domain_event \<Rightarrow> string" where
  "event_id (EmailEngagement e) = eng_dedup e"
| "event_id (EmailDeliveryFailure e) = df_dedup e"
| "event_id _ = ''''"

fun unprojected :: "domain_event \<Rightarrow> bool" where
  "unprojected (AuditEntry _) = True"
| "unprojected _ = False"

definition put_str :: "string \<Rightarrow> string \<Rightarrow> properties \<Rightarrow> properties" where
  "put_str k v m = (if v = '''' then m else m(k \<mapsto> JStr v))"

definition put_id :: "string \<Rightarrow> id \<Rightarrow> properties \<Rightarrow> properties" where
  "put_id k v m = (if v = 0 then m else m(k \<mapsto> JNum (of_int v)))"

definition no_projection :: projection where
  "no_projection = \<lparr>p_subject = '''', p_action = '''', p_email = '''', p_phone = '''',
     p_properties = Map.empty, p_occurred = None, p_contact = 0, p_visitor = ''''\<rparr>"

definition engagement_properties :: "email_engagement \<Rightarrow> properties" where
  "engagement_properties e =
     put_id ''outboundMessageId'' (eng_message e)
      (put_id ''automationId'' (eng_automation e)
      (put_str ''providerMessageId'' (eng_provider_message e)
      (put_str ''sendingDomain'' (eng_domain e)
      (put_str ''sendingSource'' (eng_source e)
      (put_str ''surface'' (eng_surface e)
      (put_str ''url'' (eng_url e)
      (put_id ''broadcastId'' (eng_broadcast e) Map.empty)))))))"

fun project :: "domain_event \<Rightarrow> projection" where
  "project (ContactCreated ws cid email) =
     no_projection\<lparr>p_subject := email, p_action := name_contact_created, p_email := email, p_contact := cid\<rparr>"
| "project (ContactErased ws subject kind op_kind op_id) =
     no_projection\<lparr>p_action := name_contact_erased,
       p_properties := [''identifierKind'' \<mapsto> JStr kind, ''operatorKind'' \<mapsto> JStr op_kind,
                        ''operatorId'' \<mapsto> JNum (of_int op_id)]\<rparr>"
| "project (EmailEngagement e) =
     no_projection\<lparr>p_subject := eng_email e, p_action := eng_action e, p_email := eng_email e,
       p_properties := engagement_properties e, p_contact := eng_contact e\<rparr>"
| "project (EmailDeliveryFailure e) =
     no_projection\<lparr>p_subject := df_email e, p_action := df_action e, p_email := df_email e,
       p_properties := put_str ''sendingDomain'' (df_domain e)
         (put_str ''provider'' (df_provider e) (put_str ''bounceKind'' (df_bounce_kind e) Map.empty)),
       p_contact := df_contact e\<rparr>"
| "project (MarketingConfirmed e) =
     no_projection\<lparr>p_subject := mc_email e, p_action := name_marketing_confirmed, p_email := mc_email e,
       p_properties := put_str ''ip'' (mc_ip e) (put_str ''provenance'' (mc_provenance e) Map.empty),
       p_contact := mc_contact e\<rparr>"
| "project (CollectedEvent e) =
     no_projection\<lparr>p_subject := ce_subject e, p_action := ce_action e, p_email := ce_email e,
       p_phone := ce_phone e, p_properties := ce_properties e, p_occurred := ce_occurred e,
       p_contact := ce_contact e, p_visitor := ce_visitor e\<rparr>"
| "project (AuditEntry e) = no_projection\<lparr>p_action := ae_action e\<rparr>"

text \<open>The masking of a platform Operator on every surface a customer reads.\<close>

definition mask_operator :: "audit_entry \<Rightarrow> audit_entry" where
  "mask_operator e =
     (if actor_kind (ae_actor e) = ActorOperator
      then e\<lparr>ae_actor := \<lparr>actor_kind = ActorOperator, actor_id = '''', actor_name = operator_label\<rparr>\<rparr>
      else e)"

text \<open>\<open>RecordAudit\<close> drops an entry without an actor or with the ingest actor; the
  request id, address and user agent it stamps from the context are left out.\<close>

definition audit_event :: "audit_entry \<Rightarrow> domain_event option" where
  "audit_event e =
     (if actor_kind (ae_actor e) = ActorNone \<or> actor_kind (ae_actor e) = ActorIngest then None
      else Some (AuditEntry e))"

section \<open>The published envelope\<close>

text \<open>
  \<open>txPublisher.Publish\<close>: an envelope carries the event, the publish time where the event
  has no time of its own, and the dedup key. The ULID of the envelope is a fresh number.
\<close>

record envelope =
  env_id :: id
  env_name :: string
  env_version :: int
  env_workspace :: id
  env_occurred :: time
  env_event :: domain_event
  env_dedup :: string

definition make_envelope :: "id \<Rightarrow> time \<Rightarrow> domain_event \<Rightarrow> envelope" where
  "make_envelope ulid now ev =
     \<lparr>env_id = ulid, env_name = event_name ev, env_version = 1, env_workspace = event_workspace ev,
      env_occurred = (case p_occurred (project ev) of None \<Rightarrow> now | Some t \<Rightarrow> t),
      env_event = ev, env_dedup = event_id ev\<rparr>"

lemma make_envelope_simps [simp]:
  "env_event (make_envelope u t ev) = ev"
  "env_workspace (make_envelope u t ev) = event_workspace ev"
  "env_dedup (make_envelope u t ev) = event_id ev"
  "env_name (make_envelope u t ev) = event_name ev"
  by (simp_all add: make_envelope_def)

end
