(* ===== verification/Schema.thy ===== *)
theory Schema
  imports Events
begin

text \<open>
  The database: one record per entity of \<open>ent/schema\<close> that the modelled code reads or
  writes, and \<open>db\<close>, the tables. A row keeps its \<open>id\<close>, the \<open>workspace_id\<close> of the
  workspace mixin and the fields of its schema; the \<open>created_at\<close>/\<open>updated_at\<close> stamps
  are kept on Events only, where the code reads them.

  Every access of the modelled code goes through the generated scoped client, which adds
  \<open>workspace_id = ws\<close> to each query, update and delete. \<open>in_ws\<close> is that predicate;
  \<open>foreign_rows\<close> is what a scope must never change.

  Ids come from one counter (\<open>next_id\<close>) instead of one sequence per table: what the code
  relies on is that a new id is fresh.
\<close>

section \<open>Row types\<close>

datatype channel = ChEmail | ChSms
datatype suppression_reason = ReasonBounce | ReasonComplaint | ReasonManual
datatype provenance = DoubleOptIn | Grandfathered | Imported
datatype message_kind = KindBroadcast | KindAutomation | KindTransactional
datatype message_status = MsgPending | MsgSent | MsgSkipped | MsgFailed
datatype broadcast_status = BcDraft | BcScheduled | BcSending | BcSent | BcFailed
datatype recipient_status = RecPending | RecSent | RecSkipped | RecFailed
datatype automation_status = AutoDraft | AutoActive
datatype run_status = RunActive | RunCompleted | RunFailed | RunExited
datatype provider = Smtp | Ses

record workspace =
  ws_id :: id
  ws_name :: string
  ws_require_confirmed :: bool
  ws_postal_address :: string
  ws_second_factor_required_at :: "time option"
  ws_suspended_at :: "time option"
  ws_suspended_by :: "string option"
  ws_suspension_reason :: "string option"

record contact =
  con_id :: id
  con_workspace :: id
  con_subject :: "string option"
  con_email :: "string option"
  con_phone :: "string option"
  con_first_name :: "string option"
  con_last_name :: "string option"
  con_time_zone :: "string option"
  con_fields :: properties

record suppression =
  sup_id :: id
  sup_workspace :: id
  sup_channel :: channel
  sup_destination :: string
  sup_reason :: suppression_reason
  sup_contact :: "id option"

record unsubscribe =
  uns_id :: id
  uns_workspace :: id
  uns_channel :: channel
  uns_destination :: string
  uns_source :: string
  uns_contact :: "id option"

record confirmation =
  cnf_id :: id
  cnf_workspace :: id
  cnf_channel :: channel
  cnf_destination :: string
  cnf_provenance :: provenance
  cnf_contact :: "id option"

record sending_domain =
  sd_id :: id
  sd_workspace :: id
  sd_domain :: string
  sd_verified :: bool
  sd_last_checked_at :: "time option"
  sd_verified_at :: "time option"

record integration =
  int_id :: id
  int_workspace :: id
  int_name :: string
  int_channel :: channel
  int_provider :: provider
  int_config :: string
  int_enabled :: bool
  int_is_default :: bool
  int_max_per_second :: "int option"
  int_max_per_day :: "int option"
  int_provider_max_per_second :: "int option"
  int_provider_max_per_day :: "int option"
  int_quota_checked_at :: "time option"
  int_quota_unavailable :: bool

record send_limiter =
  sl_id :: id
  sl_workspace :: id
  sl_integration :: id
  sl_second_fill :: rat
  sl_day_fill :: rat
  sl_refilled_at :: time

record outbound_message =
  msg_id :: id
  msg_workspace :: id
  msg_kind :: message_kind
  msg_key :: string
  msg_channel :: channel
  msg_destination :: string
  msg_contact :: "id option"
  msg_source :: "string option"
  msg_domain :: "string option"
  msg_provider_id :: "string option"
  msg_status :: message_status
  msg_reason :: "string option"
  msg_claimed_at :: time
  msg_sent_at :: "time option"
  msg_broadcast :: "id option"
  msg_recipient :: "id option"
  msg_automation :: "id option"
  msg_run :: "id option"
  msg_step :: "int option"
  msg_integration :: "id option"
  msg_template :: "id option"

record broadcast =
  bc_id :: id
  bc_workspace :: id
  bc_name :: string
  bc_subject :: string
  bc_from_name :: "string option"
  bc_from_email :: "string option"
  bc_body :: string
  bc_segment :: "id option"
  bc_integration :: "id option"
  bc_status :: broadcast_status
  bc_scheduled_at :: "time option"
  bc_sent_at :: "time option"
  bc_recipients_total :: int
  bc_sent_count :: int
  bc_opened_count :: int
  bc_clicked_count :: int
  bc_unsubscribed_count :: int
  bc_failed_count :: int
  bc_skipped_count :: int
  bc_hold_reason :: "string option"
  bc_last_scheduled_at :: "time option"

record recipient =
  rec_id :: id
  rec_workspace :: id
  rec_broadcast :: id
  rec_contact :: "id option"
  rec_status :: recipient_status
  rec_message :: "id option"
  rec_error :: "string option"
  rec_deferred_until :: "time option"
  rec_sent_at :: "time option"
  rec_opened_at :: "time option"
  rec_clicked_at :: "time option"

record segment =
  seg_id :: id
  seg_workspace :: id
  seg_name :: string
  seg_definition :: json_text

record automation =
  au_id :: id
  au_workspace :: id
  au_name :: string
  au_status :: automation_status
  au_trigger :: string
  au_definition :: json_text

record automation_run =
  run_id :: id
  run_workspace :: id
  run_automation :: id
  run_contact :: id
  run_status :: run_status
  run_current_step :: int
  run_resume_at :: "time option"

record tag =
  tag_id :: id
  tag_workspace :: id
  tag_name :: string

record visitor =
  vis_id :: id
  vis_workspace :: id
  vis_visitor :: string
  vis_contact :: "id option"
  vis_last_seen_at :: time

datatype field_type = FieldString | FieldNumber | FieldBool | FieldDatetime

record custom_field =
  cf_id :: id
  cf_workspace :: id
  cf_key :: string
  cf_name :: string
  cf_type :: field_type

record webhook_endpoint =
  wh_id :: id
  wh_workspace :: id
  wh_url :: string
  wh_secret :: string
  wh_event_types :: "string list"
  wh_enabled :: bool

text \<open>\<open>source_id\<close> of an Event: the dedup key of the envelope where it has one, else its
  ULID; the two never coincide.\<close>

datatype source_id = SrcUlid id | SrcKey string

record event_row =
  ev_id :: id
  ev_workspace :: id
  ev_source :: source_id
  ev_contact :: "id option"
  ev_visitor :: "string option"
  ev_subject :: string
  ev_email :: "string option"
  ev_phone :: "string option"
  ev_action :: string
  ev_properties :: properties
  ev_occurred_at :: "time option"
  ev_created_at :: time

section \<open>The database\<close>

record db =
  workspaces :: "workspace list"
  contacts :: "contact list"
  suppressions :: "suppression list"
  unsubscribes :: "unsubscribe list"
  confirmations :: "confirmation list"
  sending_domains :: "sending_domain list"
  integrations :: "integration list"
  send_limiters :: "send_limiter list"
  messages :: "outbound_message list"
  broadcasts :: "broadcast list"
  recipients :: "recipient list"
  segments :: "segment list"
  automations :: "automation list"
  runs :: "automation_run list"
  tags :: "tag list"
  contact_tags :: "(id \<times> id) list"
  visitors :: "visitor list"
  events :: "event_row list"
  outbox :: "envelope list"
  custom_fields :: "custom_field list"
  webhook_endpoints :: "webhook_endpoint list"
  next_id :: id

definition empty_db :: db where
  "empty_db = \<lparr>workspaces = [], contacts = [], suppressions = [], unsubscribes = [],
     confirmations = [], sending_domains = [], integrations = [], send_limiters = [],
     messages = [], broadcasts = [], recipients = [], segments = [], automations = [],
     runs = [], tags = [], contact_tags = [], visitors = [], events = [], outbox = [],
     custom_fields = [], webhook_endpoints = [], next_id = 1\<rparr>"

lemma empty_db_simps [simp]:
  "workspaces empty_db = []"
  "contacts empty_db = []"
  "suppressions empty_db = []"
  "unsubscribes empty_db = []"
  "confirmations empty_db = []"
  "sending_domains empty_db = []"
  "integrations empty_db = []"
  "send_limiters empty_db = []"
  "messages empty_db = []"
  "broadcasts empty_db = []"
  "recipients empty_db = []"
  "segments empty_db = []"
  "automations empty_db = []"
  "runs empty_db = []"
  "tags empty_db = []"
  "contact_tags empty_db = []"
  "visitors empty_db = []"
  "events empty_db = []"
  "outbox empty_db = []"
  "custom_fields empty_db = []"
  "webhook_endpoints empty_db = []"
  "next_id empty_db = 1"
  by (simp_all add: empty_db_def)

text \<open>The scoped client's confinement, and the rows it must not reach.\<close>

definition in_ws :: "('r \<Rightarrow> id) \<Rightarrow> id \<Rightarrow> ('r \<Rightarrow> bool) \<Rightarrow> 'r \<Rightarrow> bool" where
  "in_ws row_ws ws p r \<longleftrightarrow> row_ws r = ws \<and> p r"

definition foreign_rows :: "('r \<Rightarrow> id) \<Rightarrow> id \<Rightarrow> 'r list \<Rightarrow> 'r list" where
  "foreign_rows row_ws ws rows = filter (\<lambda>r. row_ws r \<noteq> ws) rows"

lemma in_ws_iff [table_simps]: "in_ws row_ws ws p r \<longleftrightarrow> row_ws r = ws \<and> p r"
  by (simp add: in_ws_def)

lemma foreign_update [table_simps]:
  "(\<And>r. row_ws (f r) = row_ws r) \<Longrightarrow>
     foreign_rows row_ws ws (update_where (in_ws row_ws ws p) f rows) = foreign_rows row_ws ws rows"
  unfolding foreign_rows_def by (rule filter_update_where_disjoint) (simp_all add: in_ws_def)

lemma foreign_delete [table_simps]:
  "foreign_rows row_ws ws (delete_where (in_ws row_ws ws p) rows) = foreign_rows row_ws ws rows"
  unfolding foreign_rows_def by (rule filter_delete_where_disjoint) (simp add: in_ws_def)

lemma foreign_insert [table_simps]:
  "row_ws r = ws \<Longrightarrow> foreign_rows row_ws ws (rows @ [r]) = foreign_rows row_ws ws rows"
  by (simp add: foreign_rows_def)

text \<open>
  The view of the database a scope of \<open>ws\<close> must leave alone: the rows of every other
  Workspace in every Workspace-owned table, and the published events of every other
  Workspace.
\<close>

definition foreign_view :: "id \<Rightarrow> db \<Rightarrow> db" where
  "foreign_view ws d = empty_db
     \<lparr>workspaces := filter (\<lambda>w. ws_id w \<noteq> ws) (workspaces d),
      contacts := foreign_rows con_workspace ws (contacts d),
      suppressions := foreign_rows sup_workspace ws (suppressions d),
      unsubscribes := foreign_rows uns_workspace ws (unsubscribes d),
      confirmations := foreign_rows cnf_workspace ws (confirmations d),
      sending_domains := foreign_rows sd_workspace ws (sending_domains d),
      integrations := foreign_rows int_workspace ws (integrations d),
      send_limiters := foreign_rows sl_workspace ws (send_limiters d),
      messages := foreign_rows msg_workspace ws (messages d),
      broadcasts := foreign_rows bc_workspace ws (broadcasts d),
      recipients := foreign_rows rec_workspace ws (recipients d),
      segments := foreign_rows seg_workspace ws (segments d),
      automations := foreign_rows au_workspace ws (automations d),
      runs := foreign_rows run_workspace ws (runs d),
      tags := foreign_rows tag_workspace ws (tags d),
      visitors := foreign_rows vis_workspace ws (visitors d),
      events := foreign_rows ev_workspace ws (events d),
      outbox := foreign_rows env_workspace ws (outbox d),
      custom_fields := foreign_rows cf_workspace ws (custom_fields d),
      webhook_endpoints := foreign_rows wh_workspace ws (webhook_endpoints d)\<rparr>"

text \<open>What every entry point that holds a scope promises: it is confined to its Workspace.\<close>

locale workspace_confined =
  fixes run :: "id \<Rightarrow> 'a \<Rightarrow> db \<Rightarrow> db"
  assumes confined: "foreign_view ws (run ws a d) = foreign_view ws d"
begin

lemma confined_fold: "foreign_view ws (fold (run ws) xs d) = foreign_view ws d"
  by (induction xs arbitrary: d) (simp_all add: confined)

lemma confined_foreign_message:
  assumes "msg_workspace m \<noteq> ws"
  shows "m \<in> set (messages (run ws a d)) \<longleftrightarrow> m \<in> set (messages d)"
proof -
  have "foreign_rows msg_workspace ws (messages (run ws a d)) = foreign_rows msg_workspace ws (messages d)"
    using confined [of ws a d] by (simp add: foreign_view_def empty_db_def)
  then have "set (filter (\<lambda>r. msg_workspace r \<noteq> ws) (messages (run ws a d))) =
             set (filter (\<lambda>r. msg_workspace r \<noteq> ws) (messages d))"
    by (simp add: foreign_rows_def)
  with assms show ?thesis by auto
qed

lemma confined_foreign_unsubscribe:
  assumes "uns_workspace u \<noteq> ws"
  shows "u \<in> set (unsubscribes (run ws a d)) \<longleftrightarrow> u \<in> set (unsubscribes d)"
proof -
  have "foreign_rows uns_workspace ws (unsubscribes (run ws a d)) = foreign_rows uns_workspace ws (unsubscribes d)"
    using confined [of ws a d] by (simp add: foreign_view_def empty_db_def)
  then have "set (filter (\<lambda>r. uns_workspace r \<noteq> ws) (unsubscribes (run ws a d))) =
             set (filter (\<lambda>r. uns_workspace r \<noteq> ws) (unsubscribes d))"
    by (simp add: foreign_rows_def)
  with assms show ?thesis by auto
qed

end

section \<open>Publishing and loading\<close>

definition publish :: "time \<Rightarrow> domain_event \<Rightarrow> db \<Rightarrow> db" where
  "publish now ev d =
     d\<lparr>outbox := outbox d @ [make_envelope (next_id d) now ev], next_id := next_id d + 1\<rparr>"

definition record_audit :: "time \<Rightarrow> audit_entry \<Rightarrow> db \<Rightarrow> db" where
  "record_audit now e d = (case audit_event e of None \<Rightarrow> d | Some ev \<Rightarrow> publish now ev d)"

text \<open>\<open>Scoped.Workspace\<close>: the Workspace row a scope is confined to.\<close>

definition load_workspace :: "id \<Rightarrow> db \<Rightarrow> workspace option" where
  "load_workspace ws d = find_where (\<lambda>w. ws_id w = ws) (workspaces d)"

text \<open>\<open>Scoped.Contact().Get\<close> and its siblings: a row of another Workspace is not found.\<close>

definition get_contact :: "id \<Rightarrow> id \<Rightarrow> db \<Rightarrow> contact option" where
  "get_contact ws cid d = find_where (in_ws con_workspace ws (\<lambda>c. con_id c = cid)) (contacts d)"

lemma publish_tables [simp]:
  "workspaces (publish now ev d) = workspaces d"
  "contacts (publish now ev d) = contacts d"
  "suppressions (publish now ev d) = suppressions d"
  "unsubscribes (publish now ev d) = unsubscribes d"
  "confirmations (publish now ev d) = confirmations d"
  "sending_domains (publish now ev d) = sending_domains d"
  "integrations (publish now ev d) = integrations d"
  "send_limiters (publish now ev d) = send_limiters d"
  "messages (publish now ev d) = messages d"
  "broadcasts (publish now ev d) = broadcasts d"
  "recipients (publish now ev d) = recipients d"
  "segments (publish now ev d) = segments d"
  "automations (publish now ev d) = automations d"
  "runs (publish now ev d) = runs d"
  "tags (publish now ev d) = tags d"
  "contact_tags (publish now ev d) = contact_tags d"
  "visitors (publish now ev d) = visitors d"
  "events (publish now ev d) = events d"
  "custom_fields (publish now ev d) = custom_fields d"
  "webhook_endpoints (publish now ev d) = webhook_endpoints d"
  "outbox (publish now ev d) = outbox d @ [make_envelope (next_id d) now ev]"
  by (simp_all add: publish_def)

lemma foreign_view_publish [simp]:
  "event_workspace ev = ws \<Longrightarrow> foreign_view ws (publish now ev d) = foreign_view ws d"
  by (simp add: foreign_view_def table_simps)

lemma get_contact_SomeD:
  "get_contact ws cid d = Some c \<Longrightarrow> c \<in> set (contacts d) \<and> con_workspace c = ws \<and> con_id c = cid"
  by (auto simp: get_contact_def table_simps dest: find_where_SomeD)

lemma load_workspace_SomeD:
  "load_workspace ws d = Some w \<Longrightarrow> w \<in> set (workspaces d) \<and> ws_id w = ws"
  by (auto simp: load_workspace_def dest: find_where_SomeD)

section \<open>Rows the witnesses use\<close>

definition sample_workspace :: "id \<Rightarrow> workspace" where
  "sample_workspace ws = \<lparr>ws_id = ws, ws_name = ''Acme'', ws_require_confirmed = False,
     ws_postal_address = '''', ws_second_factor_required_at = None, ws_suspended_at = None,
     ws_suspended_by = None, ws_suspension_reason = None\<rparr>"

definition sample_contact :: "id \<Rightarrow> id \<Rightarrow> string \<Rightarrow> contact" where
  "sample_contact cid ws email = \<lparr>con_id = cid, con_workspace = ws, con_subject = None,
     con_email = Some email, con_phone = None, con_first_name = None, con_last_name = None,
     con_time_zone = None, con_fields = Map.empty\<rparr>"

end
