(* ===== verification/SendLimit.thy ===== *)
theory SendLimit
  imports Schema
begin

text \<open>
  \<open>internal/sendlimit\<close>: the two token buckets of an Integration. A fill is a fraction of the
  bucket's capacity; the \<open>float8\<close> columns and \<open>float64\<close> values are rationals, so the
  rounding of floating point is left out. Capacities are positive: the schema validates the
  operator's values and \<open>quotaValue\<close> the provider's. Postgres keeps a time to the microsecond, so a time
  bound to a statement is truncated; the Go side of \<open>wait_for\<close> is not.
\<close>

section \<open>Limits and buckets\<close>

record limits =
  lim_per_second :: "int option"
  lim_per_day :: "int option"

definition limits_any :: "limits \<Rightarrow> bool" where
  "limits_any l \<longleftrightarrow> lim_per_second l \<noteq> None \<or> lim_per_day l \<noteq> None"

text \<open>Go's integer division truncates; both operands are positive here.\<close>

definition interval :: "limits \<Rightarrow> duration" where
  "interval l =
     (let step = (case lim_per_second l of Some n \<Rightarrow> if n > 0 then second div n else 0 | None \<Rightarrow> 0) in
      case lim_per_day l of Some n \<Rightarrow> if n > 0 then max step (86400 * second div n) else step | None \<Rightarrow> step)"

definition epsilon :: rat where "epsilon = 1 / 1000000000"

datatype fill_column = SecondFill | DayFill

record bucket =
  bk_column :: fill_column
  bk_capacity :: "int option"
  bk_fill_per_sec :: rat

definition buckets :: "limits \<Rightarrow> bucket list" where
  "buckets l =
     [\<lparr>bk_column = SecondFill, bk_capacity = lim_per_second l, bk_fill_per_sec = 1\<rparr>,
      \<lparr>bk_column = DayFill, bk_capacity = lim_per_day l, bk_fill_per_sec = 1 / 86400\<rparr>]"

fun fill_of :: "fill_column \<Rightarrow> send_limiter \<Rightarrow> rat" where
  "fill_of SecondFill r = sl_second_fill r"
| "fill_of DayFill r = sl_day_fill r"

fun set_fill :: "fill_column \<Rightarrow> rat \<Rightarrow> send_limiter \<Rightarrow> send_limiter" where
  "set_fill SecondFill v r = r\<lparr>sl_second_fill := v\<rparr>"
| "set_fill DayFill v r = r\<lparr>sl_day_fill := v\<rparr>"

definition seconds_of :: "duration \<Rightarrow> rat" where
  "seconds_of t = of_int t / 1000000000"

definition refilled :: "bucket \<Rightarrow> time \<Rightarrow> send_limiter \<Rightarrow> rat" where
  "refilled b now r =
     min 1 (fill_of (bk_column b) r + max 0 (seconds_of (truncate_micro now - sl_refilled_at r)) * bk_fill_per_sec b)"

definition threshold :: "int \<Rightarrow> rat" where
  "threshold cap = 1 / of_int cap"

definition bucket_enough :: "time \<Rightarrow> send_limiter \<Rightarrow> bucket \<Rightarrow> bool" where
  "bucket_enough now r b =
     (case bk_capacity b of None \<Rightarrow> True | Some cap \<Rightarrow> refilled b now r \<ge> threshold cap - epsilon)"

definition enough :: "limits \<Rightarrow> time \<Rightarrow> send_limiter \<Rightarrow> bool" where
  "enough l now r = list_all (bucket_enough now r) (buckets l)"

definition spend_bucket :: "time \<Rightarrow> send_limiter \<Rightarrow> bucket \<Rightarrow> send_limiter \<Rightarrow> send_limiter" where
  "spend_bucket now old b r =
     set_fill (bk_column b) (case bk_capacity b of None \<Rightarrow> 1 | Some cap \<Rightarrow> refilled b now old - threshold cap) r"

text \<open>The assignments of one UPDATE all read the row as it was before it.\<close>

definition spend_token :: "limits \<Rightarrow> time \<Rightarrow> send_limiter \<Rightarrow> send_limiter" where
  "spend_token l now r =
     (fold (spend_bucket now r) (buckets l) r)\<lparr>sl_refilled_at := max (sl_refilled_at r) (truncate_micro now)\<rparr>"

section \<open>Reserve and Spend\<close>

datatype limit_error = LimiterIntegrationNotInWorkspace | LimiterNotFound

definition limiter_row :: "id \<Rightarrow> id \<Rightarrow> send_limiter \<Rightarrow> bool" where
  "limiter_row ws iid = in_ws sl_workspace ws (\<lambda>r. sl_integration r = iid)"

definition take_token :: "id \<Rightarrow> id \<Rightarrow> limits \<Rightarrow> time \<Rightarrow> bool \<Rightarrow> db \<Rightarrow> nat \<times> db" where
  "take_token ws iid l now guarded d =
     (let p = (\<lambda>r. limiter_row ws iid r \<and> (guarded \<longrightarrow> enough l now r)) in
      (count_where p (send_limiters d),
       d\<lparr>send_limiters := update_where p (spend_token l now) (send_limiters d)\<rparr>))"

definition verify_integration :: "id \<Rightarrow> id \<Rightarrow> db \<Rightarrow> bool" where
  "verify_integration ws iid d = exists_where (in_ws int_workspace ws (\<lambda>i. int_id i = iid)) (integrations d)"

definition ensure_limiter :: "id \<Rightarrow> id \<Rightarrow> time \<Rightarrow> db \<Rightarrow> limit_error option \<times> db" where
  "ensure_limiter ws iid now d =
     (if \<not> verify_integration ws iid d then (Some LimiterIntegrationNotInWorkspace, d)
      else if exists_where (\<lambda>r. sl_integration r = iid) (send_limiters d) then (None, d)
      else (None, d\<lparr>send_limiters := send_limiters d @ [\<lparr>sl_id = next_id d, sl_workspace = ws,
                sl_integration = iid, sl_second_fill = 1, sl_day_fill = 1, sl_refilled_at = truncate_micro now\<rparr>],
              next_id := next_id d + 1\<rparr>))"

definition bucket_wait :: "time \<Rightarrow> send_limiter \<Rightarrow> bucket \<Rightarrow> rat" where
  "bucket_wait now r b =
     (case bk_capacity b of
        None \<Rightarrow> 0
      | Some cap \<Rightarrow>
         (let elapsed = max 0 (seconds_of (now - sl_refilled_at r));
              fill = min 1 (fill_of (bk_column b) r + elapsed * bk_fill_per_sec b);
              deficit = threshold cap - epsilon - fill
          in if deficit > 0 then deficit / bk_fill_per_sec b else 0))"

definition row_wait :: "limits \<Rightarrow> time \<Rightarrow> send_limiter \<Rightarrow> duration" where
  "row_wait l now r =
     (let wait = fold (\<lambda>b w. max w (bucket_wait now r b)) (buckets l) 0
      in max millisecond (\<lceil>wait * 1000\<rceil> * millisecond))"

definition wait_for :: "id \<Rightarrow> id \<Rightarrow> limits \<Rightarrow> time \<Rightarrow> db \<Rightarrow> limit_error + duration" where
  "wait_for ws iid l now d =
     (case filter (limiter_row ws iid) (send_limiters d) of
        [r] \<Rightarrow> Inr (row_wait l now r)
      | _ \<Rightarrow> Inl LimiterNotFound)"

definition reserve_token :: "id \<Rightarrow> id \<Rightarrow> limits \<Rightarrow> time \<Rightarrow> db \<Rightarrow> (limit_error + duration) \<times> db" where
  "reserve_token ws iid l now d =
     (if \<not> limits_any l then (Inr 0, d)
      else case take_token ws iid l now True d of
        (n, d1) \<Rightarrow>
          if n = 0
          then (case ensure_limiter ws iid now d1 of
                  (Some e, d2) \<Rightarrow> (Inl e, d2)
                | (None, d2) \<Rightarrow>
                   (case take_token ws iid l now True d2 of
                      (m, d3) \<Rightarrow> if m = 1 then (Inr 0, d3) else (wait_for ws iid l now d3, d3)))
          else if n = 1 then (Inr 0, d1) else (wait_for ws iid l now d1, d1))"

definition spend :: "id \<Rightarrow> id \<Rightarrow> limits \<Rightarrow> time \<Rightarrow> db \<Rightarrow> limit_error option \<times> db" where
  "spend ws iid l now d =
     (if \<not> limits_any l then (None, d)
      else case take_token ws iid l now False d of
        (n, d1) \<Rightarrow>
          if n > 0 then (None, d1)
          else (case ensure_limiter ws iid now d1 of
                  (Some e, d2) \<Rightarrow> (Some e, d2)
                | (None, d2) \<Rightarrow> (None, snd (take_token ws iid l now False d2))))"

section \<open>Effective ceilings\<close>

datatype limit_source = SourceNone | SourceManual | SourceProvider

record limit_value =
  lv_limit :: "int option"
  lv_source :: limit_source

record effective =
  eff_per_second :: limit_value
  eff_per_day :: limit_value
  eff_quota_unavailable :: bool

definition lowest :: "int option \<Rightarrow> int option \<Rightarrow> limit_value" where
  "lowest manual provider =
     (case (manual, provider) of
        (None, None) \<Rightarrow> \<lparr>lv_limit = None, lv_source = SourceNone\<rparr>
      | (Some m, None) \<Rightarrow> \<lparr>lv_limit = Some m, lv_source = SourceManual\<rparr>
      | (None, Some p) \<Rightarrow> \<lparr>lv_limit = Some p, lv_source = SourceProvider\<rparr>
      | (Some m, Some p) \<Rightarrow>
          if m \<le> p then \<lparr>lv_limit = Some m, lv_source = SourceManual\<rparr>
          else \<lparr>lv_limit = Some p, lv_source = SourceProvider\<rparr>)"

definition effective_of :: "integration \<Rightarrow> effective" where
  "effective_of i =
     \<lparr>eff_per_second = lowest (int_max_per_second i) (int_provider_max_per_second i),
      eff_per_day = lowest (int_max_per_day i) (int_provider_max_per_day i),
      eff_quota_unavailable = int_quota_unavailable i\<rparr>"

definition effective_limits :: "effective \<Rightarrow> limits" where
  "effective_limits e = \<lparr>lim_per_second = lv_limit (eff_per_second e), lim_per_day = lv_limit (eff_per_day e)\<rparr>"

definition unlimited :: "effective \<Rightarrow> bool" where
  "unlimited e \<longleftrightarrow> \<not> limits_any (effective_limits e)"

datatype warning = WarningUnlimited | WarningQuotaUnavailable

definition warnings :: "effective \<Rightarrow> warning list" where
  "warnings e = (if unlimited e then [WarningUnlimited] else [])
     @ (if eff_quota_unavailable e then [WarningQuotaUnavailable] else [])"

text \<open>\<open>Usage\<close>: messages per Integration over the 24 hours before now.\<close>

definition used_in_window :: "id \<Rightarrow> time \<Rightarrow> outbound_message \<Rightarrow> bool" where
  "used_in_window ws now = in_ws msg_workspace ws
     (\<lambda>m. msg_status m = MsgSent \<and> (case msg_sent_at m of None \<Rightarrow> False | Some t \<Rightarrow> t > truncate_micro (now - day)) \<and>
          msg_integration m \<noteq> None)"

definition usage :: "id \<Rightarrow> time \<Rightarrow> db \<Rightarrow> id \<Rightarrow> nat option" where
  "usage ws now d iid =
     (let n = count_where (\<lambda>m. used_in_window ws now m \<and> msg_integration m = Some iid) (messages d)
      in if n = 0 then None else Some n)"

text \<open>\<open>RefreshQuota\<close>: the answer of the provider is a parameter, an error when the
  stored configuration cannot be read or no sender can be built from it, \<open>None\<close> for a provider that
  cannot report a quota, \<open>Some None\<close> for a failed lookup.\<close>

record quota =
  q_per_second :: "int option"
  q_per_day :: "int option"

definition store_quota :: "time \<Rightarrow> quota option \<Rightarrow> integration \<Rightarrow> integration" where
  "store_quota now answer i =
     (case answer of
        None \<Rightarrow> i\<lparr>int_quota_checked_at := Some now, int_quota_unavailable := True\<rparr>
      | Some q \<Rightarrow> i\<lparr>int_quota_checked_at := Some now, int_quota_unavailable := False,
                  int_provider_max_per_second := q_per_second q, int_provider_max_per_day := q_per_day q\<rparr>)"

datatype quota_error = QuotaConfigUnreadable | QuotaSenderRefused | QuotaIntegrationNotFound

definition refresh_quota ::
  "id \<Rightarrow> id \<Rightarrow> time \<Rightarrow> quota_error + quota option option \<Rightarrow> db \<Rightarrow> quota_error option \<times> db" where
  "refresh_quota ws iid now built d =
     (case built of
        Inl e \<Rightarrow> (Some e, d)
      | Inr None \<Rightarrow> (None, d)
      | Inr (Some answer) \<Rightarrow>
         if \<not> verify_integration ws iid d then (Some QuotaIntegrationNotFound, d)
         else (None, d\<lparr>integrations :=
           update_where (in_ws int_workspace ws (\<lambda>i. int_id i = iid)) (store_quota now answer) (integrations d)\<rparr>))"

text \<open>The provider's figure: not limited at zero or less, else whole and at least one.\<close>

definition quota_value :: "rat \<Rightarrow> int option" where
  "quota_value v = (if v \<le> 0 then None else Some (max 1 \<lfloor>v\<rfloor>))"

section \<open>A token bucket, abstractly\<close>

text \<open>
  A sequence of operations on a bucket: \<open>True\<close> asks for a token, \<open>False\<close> takes one whether
  or not it fits. The result is the number of requests that were granted, and the state.
\<close>

fun run_ops :: "('s \<Rightarrow> 't \<Rightarrow> 's) \<Rightarrow> ('s \<Rightarrow> 't \<Rightarrow> bool) \<Rightarrow> (bool \<times> 't) list \<Rightarrow> 's \<Rightarrow> nat \<times> 's" where
  "run_ops grant fits [] s = (0, s)"
| "run_ops grant fits ((asks, t) # ops) s =
     (if asks then
        (if fits s t then (case run_ops grant fits ops (grant s t) of (n, s') \<Rightarrow> (Suc n, s'))
         else run_ops grant fits ops s)
      else run_ops grant fits ops (grant s t))"

locale token_bucket =
  fixes level :: "'s \<Rightarrow> rat" and clock :: "'s \<Rightarrow> rat" and tick :: "'t \<Rightarrow> rat"
    and grant :: "'s \<Rightarrow> 't \<Rightarrow> 's" and fits :: "'s \<Rightarrow> 't \<Rightarrow> bool"
    and rate :: rat and cost :: rat and slack :: rat
  assumes rate_nonneg: "0 \<le> rate" and cost_pos: "0 < cost"
    and clock_grant: "clock (grant s t) = max (clock s) (tick t)"
    and level_grant: "level (grant s t) \<le> level s + rate * (max (clock s) (tick t) - clock s) - cost"
    and fits_level: "fits s t \<Longrightarrow> cost \<le> level s + rate * (max (clock s) (tick t) - clock s) + slack"
begin

lemma level_after:
  assumes "tick t \<le> e" and "clock s \<le> e"
  shows "level (grant s t) + rate * (e - clock (grant s t)) \<le> level s + rate * (e - clock s) - cost"
  using level_grant [of s t] by (simp add: clock_grant algebra_simps)

lemma granted_bound:
  assumes "run_ops grant fits ops s = (n, s')" and "\<forall>(asks, t) \<in> set ops. tick t \<le> e" and "clock s \<le> e"
    and "0 < n"
  shows "of_nat n * cost \<le> level s + rate * (e - clock s) + slack"
  using assms
proof (induction ops arbitrary: s n)
  case Nil
  then show ?case by simp
next
  case (Cons op ops)
  obtain asks t where op: "op = (asks, t)" by (cases op)
  have t: "tick t \<le> e" and later: "\<forall>(asks, t) \<in> set ops. tick t \<le> e" using Cons.prems op by auto
  have clk: "clock (grant s t) \<le> e" using t Cons.prems(3) by (simp add: clock_grant)
  note after = level_after [OF t Cons.prems(3)]
  show ?case
  proof (cases "asks \<and> fits s t")
    case True
    then obtain m where m: "run_ops grant fits ops (grant s t) = (m, s')" "n = Suc m"
      using Cons.prems(1) op by (auto split: prod.splits)
    show ?thesis
    proof (cases "m = 0")
      case False
      with Cons.IH [OF m(1) later clk] after m(2) show ?thesis by (simp add: algebra_simps)
    next
      case True': True
      have "rate * (max (clock s) (tick t) - clock s) \<le> rate * (e - clock s)"
        using t Cons.prems(3) rate_nonneg by (intro mult_left_mono) simp_all
      with fits_level [of s t] True True' m(2) show ?thesis by simp
    qed
  next
    case False
    then consider "run_ops grant fits ops s = (n, s')" | "run_ops grant fits ops (grant s t) = (n, s')"
      using Cons.prems(1) op by (cases asks) auto
    then show ?thesis
    proof cases
      case 1
      then show ?thesis by (rule Cons.IH [OF _ later Cons.prems(3,4)])
    next
      case 2
      from Cons.IH [OF 2 later clk Cons.prems(4)] after cost_pos show ?thesis by simp
    qed
  qed
qed

end

section \<open>The limiter row is two token buckets\<close>

lemma spend_token_fields [simp]:
  "sl_refilled_at (spend_token l now r) = max (sl_refilled_at r) (truncate_micro now)"
  "sl_workspace (spend_token l now r) = sl_workspace r"
  "sl_integration (spend_token l now r) = sl_integration r"
  "sl_second_fill (spend_token l now r) = (case lim_per_second l of None \<Rightarrow> 1
     | Some cap \<Rightarrow> refilled \<lparr>bk_column = SecondFill, bk_capacity = Some cap, bk_fill_per_sec = 1\<rparr> now r - threshold cap)"
  "sl_day_fill (spend_token l now r) = (case lim_per_day l of None \<Rightarrow> 1
     | Some cap \<Rightarrow> refilled \<lparr>bk_column = DayFill, bk_capacity = Some cap, bk_fill_per_sec = 1 / 86400\<rparr> now r - threshold cap)"
  by (simp_all add: spend_token_def buckets_def spend_bucket_def split: option.split)

lemma seconds_of_max: "max 0 (seconds_of (a - b)) = max (seconds_of b) (seconds_of a) - seconds_of b"
  by (simp add: seconds_of_def max_def diff_divide_distrib divide_right_mono)

lemma refilled_le:
  "refilled b now r \<le> fill_of (bk_column b) r +
     bk_fill_per_sec b * (max (seconds_of (sl_refilled_at r)) (seconds_of (truncate_micro now)) - seconds_of (sl_refilled_at r))"
  unfolding refilled_def seconds_of_max by (simp add: mult.commute)

lemma enough_refilled:
  "enough l now r \<Longrightarrow> b \<in> set (buckets l) \<Longrightarrow> bk_capacity b = Some cap \<Longrightarrow> threshold cap - epsilon \<le> refilled b now r"
  by (auto simp: enough_def list_all_iff bucket_enough_def)

interpretation sec: token_bucket "fill_of SecondFill" "\<lambda>r. seconds_of (sl_refilled_at r)"
  "\<lambda>t. seconds_of (truncate_micro t)" "\<lambda>r t. spend_token \<lparr>lim_per_second = Some (1 + int k), lim_per_day = q\<rparr> t r"
  "\<lambda>r t. enough \<lparr>lim_per_second = Some (1 + int k), lim_per_day = q\<rparr> t r" 1 "threshold (1 + int k)" epsilon for k q
proof unfold_locales
  let ?l = "\<lparr>lim_per_second = Some (1 + int k), lim_per_day = q\<rparr>"
  let ?b = "\<lparr>bk_column = SecondFill, bk_capacity = Some (1 + int k), bk_fill_per_sec = 1\<rparr>"
  fix r t
  show "0 < threshold (1 + int k)" by (simp add: threshold_def)
  show "seconds_of (sl_refilled_at (spend_token ?l t r)) =
      max (seconds_of (sl_refilled_at r)) (seconds_of (truncate_micro t))"
    by (simp add: seconds_of_def max_def divide_right_mono)
  show "fill_of SecondFill (spend_token ?l t r) \<le> fill_of SecondFill r +
      1 * (max (seconds_of (sl_refilled_at r)) (seconds_of (truncate_micro t)) - seconds_of (sl_refilled_at r)) - threshold (1 + int k)"
    using refilled_le [of ?b t r] by simp
  assume "enough ?l t r"
  then have "threshold (1 + int k) - epsilon \<le> refilled ?b t r"
    by (rule enough_refilled) (simp_all add: buckets_def)
  then show "threshold (1 + int k) \<le> fill_of SecondFill r +
      1 * (max (seconds_of (sl_refilled_at r)) (seconds_of (truncate_micro t)) - seconds_of (sl_refilled_at r)) + epsilon"
    using refilled_le [of ?b t r] by simp
qed simp

interpretation dayb: token_bucket "fill_of DayFill" "\<lambda>r. seconds_of (sl_refilled_at r)"
  "\<lambda>t. seconds_of (truncate_micro t)" "\<lambda>r t. spend_token \<lparr>lim_per_second = p, lim_per_day = Some (1 + int k)\<rparr> t r"
  "\<lambda>r t. enough \<lparr>lim_per_second = p, lim_per_day = Some (1 + int k)\<rparr> t r" "1 / 86400" "threshold (1 + int k)" epsilon for k p
proof unfold_locales
  let ?l = "\<lparr>lim_per_second = p, lim_per_day = Some (1 + int k)\<rparr>"
  let ?b = "\<lparr>bk_column = DayFill, bk_capacity = Some (1 + int k), bk_fill_per_sec = 1 / 86400\<rparr>"
  fix r t
  show "0 < threshold (1 + int k)" by (simp add: threshold_def)
  show "seconds_of (sl_refilled_at (spend_token ?l t r)) =
      max (seconds_of (sl_refilled_at r)) (seconds_of (truncate_micro t))"
    by (simp add: seconds_of_def max_def divide_right_mono)
  show "fill_of DayFill (spend_token ?l t r) \<le> fill_of DayFill r +
      1 / 86400 * (max (seconds_of (sl_refilled_at r)) (seconds_of (truncate_micro t)) - seconds_of (sl_refilled_at r)) - threshold (1 + int k)"
    using refilled_le [of ?b t r] by simp
  assume "enough ?l t r"
  then have "threshold (1 + int k) - epsilon \<le> refilled ?b t r"
    by (rule enough_refilled) (simp_all add: buckets_def)
  then show "threshold (1 + int k) \<le> fill_of DayFill r +
      1 / 86400 * (max (seconds_of (sl_refilled_at r)) (seconds_of (truncate_micro t)) - seconds_of (sl_refilled_at r)) + epsilon"
    using refilled_le [of ?b t r] by simp
qed simp

section \<open>From the database to the row\<close>

definition sole_limiter :: "id \<Rightarrow> id \<Rightarrow> db \<Rightarrow> send_limiter \<Rightarrow> bool" where
  "sole_limiter ws iid d r \<longleftrightarrow> filter (limiter_row ws iid) (send_limiters d) = [r]"

lemma filter_update_where:
  "(\<And>x. q (f x) = q x) \<Longrightarrow> filter q (update_where p f rows) = update_where p f (filter q rows)"
  by (induction rows) (simp_all add: update_where_def)

lemma take_token_sole:
  assumes "sole_limiter ws iid d r"
  shows "fst (take_token ws iid l now g d) = (if g \<and> \<not> enough l now r then 0 else 1)"
    and "sole_limiter ws iid (snd (take_token ws iid l now g d)) (if g \<and> \<not> enough l now r then r else spend_token l now r)"
    and "g \<and> \<not> enough l now r \<Longrightarrow> snd (take_token ws iid l now g d) = d"
    and "integrations (snd (take_token ws iid l now g d)) = integrations d"
proof -
  let ?p = "\<lambda>r. limiter_row ws iid r \<and> (g \<longrightarrow> enough l now r)"
  let ?q = "\<lambda>r. g \<longrightarrow> enough l now r"
  have row: "limiter_row ws iid r"
    using assms [unfolded sole_limiter_def] by (metis filter_eq_Cons_iff)
  have "filter ?p (send_limiters d) = filter ?q (filter (limiter_row ws iid) (send_limiters d))"
    by (simp add: conj_commute)
  also have "\<dots> = (if g \<and> \<not> enough l now r then [] else [r])"
    using assms by (simp add: sole_limiter_def)
  finally have f: "filter ?p (send_limiters d) = (if g \<and> \<not> enough l now r then [] else [r])" .
  show "fst (take_token ws iid l now g d) = (if g \<and> \<not> enough l now r then 0 else 1)"
    by (simp add: take_token_def Let_def count_where_def f)
  have keep: "limiter_row ws iid (spend_token l now x) = limiter_row ws iid x" for x
    by (simp add: limiter_row_def in_ws_def)
  have "filter (limiter_row ws iid) (update_where ?p (spend_token l now) (send_limiters d)) =
        update_where ?p (spend_token l now) (filter (limiter_row ws iid) (send_limiters d))"
    by (rule filter_update_where) (simp add: keep)
  also have "\<dots> = [if g \<and> \<not> enough l now r then r else spend_token l now r]"
    using assms row by (simp add: sole_limiter_def update_where_def)
  finally show "sole_limiter ws iid (snd (take_token ws iid l now g d)) (if g \<and> \<not> enough l now r then r else spend_token l now r)"
    by (simp add: sole_limiter_def take_token_def Let_def)
  show "snd (take_token ws iid l now g d) = d" if "g \<and> \<not> enough l now r"
  proof -
    have "\<forall>x \<in> set (send_limiters d). \<not> ?p x" using f that by (simp add: filter_empty_conv)
    then show ?thesis by (simp add: take_token_def Let_def update_where_no_match)
  qed
  show "integrations (snd (take_token ws iid l now g d)) = integrations d"
    by (simp add: take_token_def Let_def)
qed

lemma sole_limiter_mem: "sole_limiter ws iid d r \<Longrightarrow> r \<in> set (send_limiters d) \<and> limiter_row ws iid r"
proof -
  assume "sole_limiter ws iid d r"
  then have "r \<in> set (filter (limiter_row ws iid) (send_limiters d))" by (simp add: sole_limiter_def)
  then show ?thesis by simp
qed

lemma sole_limiter_exists: "sole_limiter ws iid d r \<Longrightarrow> exists_where (\<lambda>x. sl_integration x = iid) (send_limiters d)"
  using sole_limiter_mem [of ws iid d r] by (auto simp: exists_where_iff limiter_row_def in_ws_def)

lemma ensure_sole:
  "sole_limiter ws iid d r \<Longrightarrow> verify_integration ws iid d \<Longrightarrow> ensure_limiter ws iid now d = (None, d)"
  by (simp add: ensure_limiter_def sole_limiter_exists)

lemma reserve_sole:
  assumes "sole_limiter ws iid d r" and "verify_integration ws iid d" and "limits_any l"
  shows "enough l now r \<Longrightarrow> reserve_token ws iid l now d = (Inr 0, snd (take_token ws iid l now True d))"
    and "\<not> enough l now r \<Longrightarrow> reserve_token ws iid l now d = (Inr (row_wait l now r), d)"
proof -
  note take = take_token_sole [OF assms(1), where l = l and now = now and g = True]
  obtain n d1 where n: "take_token ws iid l now True d = (n, d1)" by (cases "take_token ws iid l now True d")
  show "reserve_token ws iid l now d = (Inr 0, snd (take_token ws iid l now True d))" if "enough l now r"
    using that take(1) n assms(3) by (simp add: reserve_token_def)
  show "reserve_token ws iid l now d = (Inr (row_wait l now r), d)" if "\<not> enough l now r"
  proof -
    have "take_token ws iid l now True d = (0, d)" using that take(1,3) n by simp
    then show ?thesis
      using ensure_sole [OF assms(1,2)] assms(1,3) by (simp add: reserve_token_def wait_for_def sole_limiter_def)
  qed
qed

lemma row_wait_pos: "0 < row_wait l now r"
  by (simp add: row_wait_def Let_def max_def)

lemma spend_sole:
  assumes "sole_limiter ws iid d r" and "limits_any l"
  shows "spend ws iid l now d = (None, snd (take_token ws iid l now False d))"
  using take_token_sole(1) [OF assms(1), where l = l and now = now and g = False] assms(2)
  by (cases "take_token ws iid l now False d") (simp add: spend_def)

text \<open>A sequence of reservations (\<open>True\<close>) and unconditional spends (\<open>False\<close>) and how many
  reservations were granted.\<close>

fun limiter_run :: "id \<Rightarrow> id \<Rightarrow> limits \<Rightarrow> (bool \<times> time) list \<Rightarrow> db \<Rightarrow> nat \<times> db" where
  "limiter_run ws iid l [] d = (0, d)"
| "limiter_run ws iid l ((True, t) # ops) d =
     (case reserve_token ws iid l t d of (res, d1) \<Rightarrow>
       (case limiter_run ws iid l ops d1 of (n, d2) \<Rightarrow> (if res = Inr 0 then Suc n else n, d2)))"
| "limiter_run ws iid l ((False, t) # ops) d = limiter_run ws iid l ops (snd (spend ws iid l t d))"

lemma limiter_run_refines:
  assumes "sole_limiter ws iid d r" and "verify_integration ws iid d" and "limits_any l"
  shows "\<exists>r'. run_ops (\<lambda>r t. spend_token l t r) (\<lambda>r t. enough l t r) ops r = (fst (limiter_run ws iid l ops d), r') \<and>
     sole_limiter ws iid (snd (limiter_run ws iid l ops d)) r'"
  using assms(1,2)
proof (induction ops arbitrary: d r)
  case Nil
  then show ?case by simp
next
  case (Cons op ops)
  obtain asks t where op: "op = (asks, t)" by (cases op)
  have vi: "verify_integration ws iid d' = verify_integration ws iid d" if "integrations d' = integrations d" for d'
    using that by (simp add: verify_integration_def)
  note take = take_token_sole [OF Cons.prems(1), where l = l and now = t and g = asks]
  show ?case
  proof (cases asks)
    case True
    show ?thesis
    proof (cases "enough l t r")
      case fits: True
      let ?d1 = "snd (take_token ws iid l t True d)"
      have "sole_limiter ws iid ?d1 (spend_token l t r)" "verify_integration ws iid ?d1"
        using take(2) vi [OF take(4)] True fits Cons.prems(2) by simp_all
      from Cons.IH [OF this] obtain r' where
        "run_ops (\<lambda>r t. spend_token l t r) (\<lambda>r t. enough l t r) ops (spend_token l t r) = (fst (limiter_run ws iid l ops ?d1), r')"
        "sole_limiter ws iid (snd (limiter_run ws iid l ops ?d1)) r'" by blast
      then show ?thesis
        by (intro exI [of _ r']) (simp add: op True fits reserve_sole(1) [OF Cons.prems assms(3) fits] case_prod_beta)
    next
      case False
      from Cons.IH [OF Cons.prems] obtain r' where
        "run_ops (\<lambda>r t. spend_token l t r) (\<lambda>r t. enough l t r) ops r = (fst (limiter_run ws iid l ops d), r')"
        "sole_limiter ws iid (snd (limiter_run ws iid l ops d)) r'" by blast
      then show ?thesis using row_wait_pos [of l t r]
        by (intro exI [of _ r']) (simp add: op True False reserve_sole(2) [OF Cons.prems assms(3) False] case_prod_beta)
    qed
  next
    case False
    let ?d1 = "snd (take_token ws iid l t False d)"
    have "sole_limiter ws iid ?d1 (spend_token l t r)" "verify_integration ws iid ?d1"
      using take(2) vi [OF take(4)] False Cons.prems(2) by simp_all
    from Cons.IH [OF this] spend_sole [OF Cons.prems(1) assms(3)] show ?thesis
      by (simp add: op False)
  qed
qed

section \<open>Properties\<close>

definition positive_limits :: "limits \<Rightarrow> bool" where
  "positive_limits l \<longleftrightarrow> (\<forall>c. lim_per_second l = Some c \<longrightarrow> 0 < c) \<and> (\<forall>c. lim_per_day l = Some c \<longrightarrow> 0 < c)"

lemma seconds_of_mono: "a \<le> b \<Longrightarrow> seconds_of a \<le> seconds_of b"
  by (simp add: seconds_of_def divide_right_mono)

lemma seconds_of_diff: "seconds_of (a - b) = seconds_of a - seconds_of b"
  by (simp add: seconds_of_def diff_divide_distrib)

lemma scale_bound:
  assumes "of_nat n * threshold c \<le> f + w + epsilon" and "f \<le> 1" and "0 < c"
  shows "of_nat n \<le> of_int c * (1 + epsilon + w)"
proof -
  have "of_nat n * threshold c \<le> 1 + epsilon + w" using assms(1,2) by simp
  then have "of_int c * (of_nat n * threshold c) \<le> of_int c * (1 + epsilon + w)"
    using assms(3) by (intro mult_left_mono) simp_all
  then show ?thesis using assms(3) by (simp add: threshold_def)
qed

lemma window_nonneg: "a \<le> e \<Longrightarrow> 0 \<le> seconds_of (e - a)"
  by (simp add: seconds_of_def)

lemma epsilon_pos: "0 < epsilon"
  by (simp add: epsilon_def)

text \<open>C30: the limiter cannot be overspent. Over any sequence of reservations and unconditional
  Transactional spends on one Integration, in any order of clock readings, the reservations
  granted up to time e stay within one bucketful plus what refills until e: at most c per
  second after an initial burst of c, and at most c per 24 hours after a burst of c.\<close>

theorem send_rate_bound:
  assumes "sole_limiter ws iid d r" and "verify_integration ws iid d" and "positive_limits l"
    and "sl_second_fill r \<le> 1" and "sl_day_fill r \<le> 1"
    and "\<forall>(asks, t) \<in> set ops. truncate_micro t \<le> e" and "sl_refilled_at r \<le> e"
    and "granted = fst (limiter_run ws iid l ops d)"
  shows "(\<forall>c. lim_per_second l = Some c \<longrightarrow>
            of_nat granted \<le> of_int c * (1 + epsilon + seconds_of (e - sl_refilled_at r))) \<and>
         (\<forall>c. lim_per_day l = Some c \<longrightarrow>
            of_nat granted \<le> of_int c * (1 + epsilon + seconds_of (e - sl_refilled_at r) / 86400))"
proof -
  have ticks: "\<forall>(asks, t) \<in> set ops. seconds_of (truncate_micro t) \<le> seconds_of e"
    using assms(6) by (auto intro: seconds_of_mono)
  note clk = seconds_of_mono [OF assms(7)] and w0 = window_nonneg [OF assms(7)]
  have second: "of_nat granted \<le> of_int c * (1 + epsilon + seconds_of (e - sl_refilled_at r))"
    if c: "lim_per_second l = Some c" for c
  proof (cases "granted = 0")
    case True
    have "0 < c" using c assms(3) by (simp add: positive_limits_def)
    then show ?thesis using True w0 epsilon_pos by simp
  next
    case False
    have "0 < c" using c assms(3) by (simp add: positive_limits_def)
    then obtain k q where l: "l = \<lparr>lim_per_second = Some (1 + int k), lim_per_day = q\<rparr>" and k: "c = 1 + int k"
      using c by (cases l) (auto dest: zero_less_imp_eq_int simp: algebra_simps intro: that [of "nat (c - 1)"])
    have "limits_any l" using c by (simp add: limits_any_def)
    from limiter_run_refines [OF assms(1,2) this, of ops] assms(8) obtain r' where
      "run_ops (\<lambda>r t. spend_token l t r) (\<lambda>r t. enough l t r) ops r = (granted, r')" by auto
    from sec.granted_bound [OF this [unfolded l] ticks clk] False \<open>0 < c\<close>
    show ?thesis using assms(4) by (intro scale_bound [where f = "sl_second_fill r"]) (simp_all add: seconds_of_diff k)
  qed
  have daily: "of_nat granted \<le> of_int c * (1 + epsilon + seconds_of (e - sl_refilled_at r) / 86400)"
    if c: "lim_per_day l = Some c" for c
  proof (cases "granted = 0")
    case True
    have "0 < c" using c assms(3) by (simp add: positive_limits_def)
    then show ?thesis using True w0 epsilon_pos by simp
  next
    case False
    have "0 < c" using c assms(3) by (simp add: positive_limits_def)
    then obtain k p where l: "l = \<lparr>lim_per_second = p, lim_per_day = Some (1 + int k)\<rparr>" and k: "c = 1 + int k"
      using c by (cases l) (auto dest: zero_less_imp_eq_int simp: algebra_simps intro: that [of _ "nat (c - 1)"])
    have "limits_any l" using c by (simp add: limits_any_def)
    from limiter_run_refines [OF assms(1,2) this, of ops] assms(8) obtain r' where
      "run_ops (\<lambda>r t. spend_token l t r) (\<lambda>r t. enough l t r) ops r = (granted, r')" by auto
    from dayb.granted_bound [OF this [unfolded l] ticks clk] False \<open>0 < c\<close>
    show ?thesis using assms(5) by (intro scale_bound [where f = "sl_day_fill r"]) (simp_all add: seconds_of_diff k)
  qed
  from second daily show ?thesis by blast
qed

definition sample_limiter_db :: "rat \<Rightarrow> db" where
  "sample_limiter_db fill = empty_db\<lparr>
     integrations := [\<lparr>int_id = 3, int_workspace = 1, int_name = ''ses'', int_channel = ChEmail, int_provider = Ses,
       int_config = '''', int_enabled = True, int_is_default = True, int_max_per_second = Some 2, int_max_per_day = None,
       int_provider_max_per_second = None, int_provider_max_per_day = None, int_quota_checked_at = None,
       int_quota_unavailable = False\<rparr>],
     send_limiters := [\<lparr>sl_id = 4, sl_workspace = 1, sl_integration = 3, sl_second_fill = fill, sl_day_fill = 1,
       sl_refilled_at = 0\<rparr>]\<rparr>"

lemma sample_limiter_facts:
  "sole_limiter 1 3 (sample_limiter_db f) \<lparr>sl_id = 4, sl_workspace = 1, sl_integration = 3, sl_second_fill = f,
     sl_day_fill = 1, sl_refilled_at = 0\<rparr>"
  "verify_integration 1 3 (sample_limiter_db f)"
  by (simp_all add: sample_limiter_db_def sole_limiter_def limiter_row_def in_ws_def verify_integration_def
      exists_where_def)

theorem send_rate_bound_witness:
  "of_nat (fst (limiter_run 1 3 \<lparr>lim_per_second = Some 2, lim_per_day = None\<rparr>
      [(True, 0), (True, 0), (True, 0), (False, 5), (True, second)] (sample_limiter_db 1)))
     \<le> (2 :: rat) * (1 + epsilon + seconds_of second)"
proof -
  let ?l = "\<lparr>lim_per_second = Some 2, lim_per_day = None\<rparr>"
  let ?ops = "[(True, 0), (True, 0), (True, 0), (False, 5), (True, second)]"
  have ticks: "\<forall>(asks, t) \<in> set ?ops. truncate_micro t \<le> second" by (simp add: truncate_micro_def)
  have "positive_limits ?l" by (simp add: positive_limits_def)
  from send_rate_bound [OF sample_limiter_facts [of 1] this _ _ ticks _ refl]
  show ?thesis by simp
qed

lemma fold_max_ge: "(w :: rat) \<le> fold (\<lambda>b w. max w (f b)) bs w"
  by (induction bs arbitrary: w) (auto intro: order_trans [OF max.cobounded1])

lemma fold_max_mem: "b \<in> set bs \<Longrightarrow> f b \<le> fold (\<lambda>b w. max w (f b)) bs (w :: rat)"
proof (induction bs arbitrary: w)
  case (Cons x xs)
  then show ?case using fold_max_ge [of "max w (f x)" f xs] by auto
qed simp

lemma row_wait_covers:
  assumes "b \<in> set (buckets l)"
  shows "bucket_wait now r b \<le> seconds_of (row_wait l now r)" and "row_wait l now r mod 1000 = 0"
proof -
  let ?w = "fold (\<lambda>b w. max w (bucket_wait now r b)) (buckets l) 0"
  have "bucket_wait now r b \<le> ?w" by (rule fold_max_mem [OF assms])
  also have "?w \<le> of_int \<lceil>?w * 1000\<rceil> / 1000" using le_of_int_ceiling [of "?w * 1000"] by simp
  also have "\<dots> = seconds_of (\<lceil>?w * 1000\<rceil> * millisecond)" by (simp add: seconds_of_def)
  also have "\<dots> \<le> seconds_of (row_wait l now r)" by (rule seconds_of_mono) (simp add: row_wait_def Let_def)
  finally show "bucket_wait now r b \<le> seconds_of (row_wait l now r)" .
  have "\<lceil>?w * 1000\<rceil> * millisecond mod 1000 = 0" by (simp add: mod_mult_right_eq flip: mod_mult_eq)
  then show "row_wait l now r mod 1000 = 0" by (simp add: row_wait_def Let_def max_def)
qed

lemma wait_is_enough:
  assumes "positive_limits l" and "truncate_micro now = now" and "sl_refilled_at r \<le> now"
    and "now + row_wait l now r \<le> t"
  shows "enough l t r"
proof -
  have "bucket_enough t r b" if b: "b \<in> set (buckets l)" for b
  proof (cases "bk_capacity b")
    case None
    then show ?thesis by (simp add: bucket_enough_def)
  next
    case (Some cap)
    have cap: "0 < cap" and rate: "0 < bk_fill_per_sec b"
      using b Some assms(1) by (auto simp: buckets_def positive_limits_def)
    then have thr: "threshold cap \<le> 1" by (simp add: threshold_def)
    let ?f = "fill_of (bk_column b) r" and ?k = "bk_fill_per_sec b"
    let ?e = "seconds_of (now - sl_refilled_at r)" and ?w = "seconds_of (row_wait l now r)"
    have "now mod 1000 = 0" using assms(2) by (simp add: truncate_micro_def)
    with row_wait_covers(2) [OF b] have "(now + row_wait l now r) mod 1000 = 0"
      by (simp add: mod_add_eq [symmetric])
    then have "now + row_wait l now r \<le> truncate_micro t"
      using truncate_micro_mono [OF assms(4)] by (simp add: truncate_micro_def)
    then have later: "?e + ?w \<le> seconds_of (truncate_micro t - sl_refilled_at r)"
      by (simp add: seconds_of_def flip: add_divide_distrib of_int_add)
    have e0: "0 \<le> ?e" and w0: "0 \<le> ?w"
      using assms(3) row_wait_pos [of l now r] by (simp_all add: seconds_of_def)
    have "threshold cap - epsilon \<le> ?f + (?e + ?w) * ?k"
    proof (cases "threshold cap - epsilon - min 1 (?f + ?e * ?k) > 0")
      case True
      then have "(threshold cap - epsilon - min 1 (?f + ?e * ?k)) / ?k \<le> ?w"
        using row_wait_covers(1) [OF b, of now r] Some e0 by (simp add: bucket_wait_def Let_def)
      then have "threshold cap - epsilon - min 1 (?f + ?e * ?k) \<le> ?w * ?k"
        using rate by (simp add: pos_divide_le_eq)
      then show ?thesis by (simp add: distrib_right min_def split: if_splits)
    next
      case False
      have "0 \<le> ?w * ?k" using w0 rate by simp
      with False show ?thesis by (simp add: distrib_right min_def split: if_splits)
    qed
    also have "\<dots> \<le> ?f + max 0 (seconds_of (truncate_micro t - sl_refilled_at r)) * ?k"
      using later rate by (intro add_left_mono mult_right_mono) simp_all
    finally show ?thesis using Some thr epsilon_pos by (simp add: bucket_enough_def refilled_def)
  qed
  then show ?thesis by (simp add: enough_def list_all_iff)
qed

text \<open>A denied reservation reports a wait that works. The denial takes nothing, and with no
  other use of the Integration in between, reserving again at any time from the reported wait on
  is granted; the clock reading of the denial is one the database can hold (whole microseconds)
  and not behind the row.\<close>

theorem reported_wait_suffices:
  assumes "sole_limiter ws iid d r" and "verify_integration ws iid d" and "positive_limits l"
    and "truncate_micro now = now" and "sl_refilled_at r \<le> now"
    and "reserve_token ws iid l now d = (Inr w, d1)" and "w \<noteq> 0" and "now + w \<le> t"
  shows "d1 = d \<and> 0 < w \<and> fst (reserve_token ws iid l t d1) = Inr 0"
proof -
  have any: "limits_any l" using assms(6,7) by (cases "limits_any l") (auto simp: reserve_token_def)
  have "\<not> enough l now r" using reserve_sole(1) [OF assms(1,2) any] assms(6,7) by auto
  from reserve_sole(2) [OF assms(1,2) any this] assms(6) have w: "w = row_wait l now r" "d1 = d" by simp_all
  from wait_is_enough [OF assms(3-5)] assms(8) w have "enough l t r" by simp
  from reserve_sole(1) [OF assms(1,2) any this] w row_wait_pos [of l now r] show ?thesis by simp
qed

theorem reported_wait_suffices_witness:
  "\<exists>w d1. reserve_token 1 3 \<lparr>lim_per_second = Some 2, lim_per_day = None\<rparr> 0 (sample_limiter_db 0) = (Inr w, d1) \<and>
     w \<noteq> 0 \<and> fst (reserve_token 1 3 \<lparr>lim_per_second = Some 2, lim_per_day = None\<rparr> w d1) = Inr 0"
proof -
  let ?l = "\<lparr>lim_per_second = Some 2, lim_per_day = None\<rparr>"
  let ?r = "\<lparr>sl_id = 4, sl_workspace = 1, sl_integration = 3, sl_second_fill = 0, sl_day_fill = 1, sl_refilled_at = 0\<rparr>"
  have "\<not> enough ?l 0 ?r"
    by (simp add: enough_def buckets_def bucket_enough_def refilled_def truncate_micro_def seconds_of_def
        threshold_def epsilon_def)
  from reserve_sole(2) [OF sample_limiter_facts _ this]
  have r: "reserve_token 1 3 ?l 0 (sample_limiter_db 0) = (Inr (row_wait ?l 0 ?r), sample_limiter_db 0)"
    by (simp add: limits_any_def)
  from reported_wait_suffices [OF sample_limiter_facts _ _ _ r, of "row_wait ?l 0 ?r"] row_wait_pos [of ?l 0 ?r] r
  show ?thesis by (auto simp: positive_limits_def truncate_micro_def)
qed

text \<open>The effective ceiling is the minimum rule. An Integration is held to the lower of the
  operator's and the provider's figure, the operator's on a tie, to the only one there is, and
  to none when neither is set; a failed quota lookup leaves every ceiling as it was and a
  successful one replaces the provider's.\<close>

theorem effective_minimum_rule:
  "lv_limit (lowest m p) = (case (m, p) of (Some a, Some b) \<Rightarrow> Some (min a b) | (Some a, None) \<Rightarrow> Some a | (None, q) \<Rightarrow> q) \<and>
   (lv_source (lowest m p) = SourceManual \<longleftrightarrow> (\<exists>a. m = Some a \<and> (p = None \<or> a \<le> the p))) \<and>
   effective_limits (effective_of (store_quota now None i)) = effective_limits (effective_of i) \<and>
   lim_per_second (effective_limits (effective_of (store_quota now (Some q) i))) =
     lv_limit (lowest (int_max_per_second i) (q_per_second q)) \<and>
   (warnings (effective_of i) = [] \<longleftrightarrow>
      limits_any (effective_limits (effective_of i)) \<and> \<not> int_quota_unavailable i)"
  by (auto simp: lowest_def effective_limits_def effective_of_def store_quota_def warnings_def unlimited_def
      split: option.split)

end
