(* ===== verification/Eligibility.thy ===== *)
theory Eligibility
  imports Schema
begin

text \<open>
  \<open>internal/eligibility\<close>: the layered rule that decides whether a message on a channel from
  a sending source may reach a destination. \<open>layers\<close> is the single definition of the rule;
  \<open>check_eligible\<close> (\<open>Check\<close>) reads it for one destination of a scope, \<open>eligible_contact\<close>
  (\<open>Predicate\<close>) for a Contact row of a query. The locale \<open>layered_rule\<close> states what both
  readings rest on; it is interpreted on \<open>layers\<close>.

  SQL's three-valued logic is written out: a NULL destination matches no row, so
  \<open>EXISTS\<close> is false and \<open>NOT EXISTS\<close> true on it.
\<close>

section \<open>Sending sources\<close>

definition source_broadcasts :: string where "source_broadcasts = ''broadcasts''"
definition source_everything :: string where "source_everything = ''everything''"
definition automation_prefix :: string where "automation_prefix = ''automation:''"

definition reason_suppressed :: string where "reason_suppressed = ''suppressed''"
definition reason_everything :: string where "reason_everything = ''unsubscribed_everything''"
definition reason_source :: string where "reason_source = ''unsubscribed_source''"
definition reason_unconfirmed :: string where "reason_unconfirmed = ''unconfirmed''"

lemmas reason_names =
  reason_suppressed_def reason_everything_def reason_source_def reason_unconfirmed_def
lemmas source_names = source_broadcasts_def source_everything_def automation_prefix_def

definition normalize_destination :: "string \<Rightarrow> string" where
  "normalize_destination dest = to_lower (trim_space dest)"

definition automation_source :: "id \<Rightarrow> string" where
  "automation_source i = automation_prefix @ show_int i"

definition cut_prefix :: "string \<Rightarrow> string \<Rightarrow> string option" where
  "cut_prefix s p = (if take (length p) s = p then Some (drop (length p) s) else None)"

definition parse_automation_source :: "string \<Rightarrow> id option" where
  "parse_automation_source src =
     (case cut_prefix src automation_prefix of
        None \<Rightarrow> None
      | Some rest \<Rightarrow> parse_int64 rest)"

lemma normalize_idem [simp]: "normalize_destination (normalize_destination s) = normalize_destination s"
  by (simp add: normalize_destination_def string_simps)

lemma normalize_to_lower [simp]: "normalize_destination (to_lower s) = normalize_destination s"
  by (simp add: normalize_destination_def string_simps)

lemma normalize_Nil [simp]: "normalize_destination '''' = ''''"
  by (simp add: normalize_destination_def to_lower_def trim_space_def trim_left_def trim_right_def)

lemma cut_prefix_append [simp]: "cut_prefix (p @ s) p = Some s"
  by (simp add: cut_prefix_def)

lemma parse_automation_source_roundtrip:
  "- (2 ^ 63) \<le> i \<Longrightarrow> i < 2 ^ 63 \<Longrightarrow> parse_automation_source (automation_source i) = Some i"
  by (simp add: parse_automation_source_def automation_source_def parse_int64_show_int)

lemma automation_source_inj: "automation_source i = automation_source j \<Longrightarrow> i = j"
  by (simp add: automation_source_def show_int_inj)

lemma automation_source_distinct [simp]:
  "automation_source i \<noteq> source_broadcasts" "automation_source i \<noteq> source_everything"
  "automation_source i \<noteq> ''''"
  by (simp_all add: automation_source_def source_names)

section \<open>The rule\<close>

text \<open>The (Workspace, destination) a layer is evaluated for; \<open>None\<close> is a NULL column.\<close>

record ref =
  ref_workspace :: id
  ref_destination :: "string option"

definition contact_ref :: "contact \<Rightarrow> ref" where
  "contact_ref c = \<lparr>ref_workspace = con_workspace c, ref_destination = map_option to_lower (con_email c)\<rparr>"

definition match_store ::
  "ref \<Rightarrow> channel \<Rightarrow> ('r \<Rightarrow> id) \<Rightarrow> ('r \<Rightarrow> string) \<Rightarrow> ('r \<Rightarrow> channel) \<Rightarrow> ('r \<Rightarrow> bool) \<Rightarrow> 'r list \<Rightarrow> bool" where
  "match_store r ch row_ws row_dest row_ch extra rows =
     exists_where (\<lambda>x. row_ws x = ref_workspace r \<and> Some (row_dest x) = ref_destination r \<and>
        row_ch x = ch \<and> extra x) rows"

definition is_suppressed :: "db \<Rightarrow> ref \<Rightarrow> channel \<Rightarrow> bool" where
  "is_suppressed d r ch =
     match_store r ch sup_workspace sup_destination sup_channel (\<lambda>_. True) (suppressions d)"

definition is_unsubscribed :: "db \<Rightarrow> ref \<Rightarrow> channel \<Rightarrow> string \<Rightarrow> bool" where
  "is_unsubscribed d r ch source =
     match_store r ch uns_workspace uns_destination uns_channel (\<lambda>u. uns_source u = source) (unsubscribes d)"

definition is_confirmed :: "db \<Rightarrow> ref \<Rightarrow> channel \<Rightarrow> bool" where
  "is_confirmed d r ch =
     match_store r ch cnf_workspace cnf_destination cnf_channel (\<lambda>_. True) (confirmations d)"

definition require_confirmed :: "db \<Rightarrow> ref \<Rightarrow> bool" where
  "require_confirmed d r =
     (case load_workspace (ref_workspace r) d of None \<Rightarrow> False | Some w \<Rightarrow> ws_require_confirmed w)"

definition layers :: "db \<Rightarrow> channel \<Rightarrow> ref \<Rightarrow> string \<Rightarrow> (string \<times> bool) list" where
  "layers d ch r source =
     (reason_suppressed, is_suppressed d r ch) #
     (if source = '''' then []
      else [(reason_everything, is_unsubscribed d r ch source_everything),
            (reason_source, is_unsubscribed d r ch source),
            (reason_unconfirmed, require_confirmed d r \<and> \<not> is_confirmed d r ch)])"

text \<open>\<open>CASE WHEN blocks THEN reason ... ELSE '' END\<close>.\<close>

fun first_reason :: "(string \<times> bool) list \<Rightarrow> string" where
  "first_reason [] = ''''"
| "first_reason ((reason, blocks) # ls) = (if blocks then reason else first_reason ls)"

definition none_blocks :: "(string \<times> bool) list \<Rightarrow> bool" where
  "none_blocks ls = list_all (\<lambda>(reason, blocks). \<not> blocks) ls"

section \<open>Its two readings\<close>

datatype eligibility_error = WorkspaceNotFound id

record decision =
  dec_eligible :: bool
  dec_reason :: string

definition check_eligible ::
  "id \<Rightarrow> db \<Rightarrow> channel \<Rightarrow> string \<Rightarrow> string \<Rightarrow> eligibility_error + decision" where
  "check_eligible ws d ch dest source =
     (let n = normalize_destination dest in
      if n = '''' then Inr \<lparr>dec_eligible = True, dec_reason = ''''\<rparr>
      else case load_workspace ws d of
             None \<Rightarrow> Inl (WorkspaceNotFound ws)
           | Some _ \<Rightarrow>
               (let reason = first_reason (layers d ch \<lparr>ref_workspace = ws, ref_destination = Some n\<rparr> source)
                in Inr \<lparr>dec_eligible = (reason = ''''), dec_reason = reason\<rparr>))"

definition eligible_contact :: "db \<Rightarrow> channel \<Rightarrow> string \<Rightarrow> contact \<Rightarrow> bool" where
  "eligible_contact d ch source c = none_blocks (layers d ch (contact_ref c) source)"

definition globally_opted_out :: "db \<Rightarrow> channel \<Rightarrow> contact \<Rightarrow> bool" where
  "globally_opted_out d ch c =
     list_ex (\<lambda>(reason, blocks). (reason = reason_suppressed \<or> reason = reason_everything) \<and> blocks)
       (layers d ch (contact_ref c) source_broadcasts)"

section \<open>What both readings rest on\<close>

text \<open>
  The contract of a layered rule: every layer has a reason to report, and the layers of a
  transactional send are the first layers of any other.
\<close>

locale layered_rule =
  fixes rule :: "'r \<Rightarrow> string \<Rightarrow> (string \<times> bool) list"
  assumes reasons: "(reason, blocks) \<in> set (rule r source) \<Longrightarrow> reason \<noteq> ''''"
    and floor: "prefix (rule r '''') (rule r source)"
begin

lemma first_reason_none: "\<forall>(reason, blocks) \<in> set ls. reason \<noteq> '''' \<Longrightarrow> first_reason ls = '''' \<longleftrightarrow> none_blocks ls"
  by (induction ls) (auto simp: none_blocks_def split: if_splits)

lemma readings_agree: "first_reason (rule r source) = '''' \<longleftrightarrow> none_blocks (rule r source)"
  by (rule first_reason_none) (auto dest: reasons)

lemma floor_blocks: "\<not> none_blocks (rule r '''') \<Longrightarrow> \<not> none_blocks (rule r source)"
  using floor [of r source] by (auto simp: none_blocks_def prefix_def)

lemma floor_reason:
  "first_reason (rule r '''') \<noteq> '''' \<Longrightarrow> first_reason (rule r source) = first_reason (rule r '''')"
proof -
  have app: "first_reason (xs @ ys) = first_reason xs" if "first_reason xs \<noteq> ''''" for xs ys
    using that by (induction xs rule: first_reason.induct) (auto split: if_splits)
  assume "first_reason (rule r '''') \<noteq> ''''"
  then show ?thesis using floor [of r source] by (auto simp: prefix_def app)
qed

end

interpretation elig: layered_rule "layers d ch" for d ch
  by unfold_locales (auto simp: layers_def reason_names split: if_splits)

lemma check_eligible_cases:
  "check_eligible ws d ch dest source = Inr dec \<Longrightarrow>
     (normalize_destination dest = '''' \<and> dec = \<lparr>dec_eligible = True, dec_reason = ''''\<rparr>) \<or>
     (normalize_destination dest \<noteq> '''' \<and> load_workspace ws d \<noteq> None \<and>
      dec_reason dec = first_reason (layers d ch \<lparr>ref_workspace = ws, ref_destination = Some (normalize_destination dest)\<rparr> source) \<and>
      (dec_eligible dec \<longleftrightarrow> dec_reason dec = ''''))"
  by (auto simp: check_eligible_def Let_def split: if_splits option.splits)

lemma check_eligible_some:
  "normalize_destination dest \<noteq> '''' \<Longrightarrow> load_workspace ws d = Some w \<Longrightarrow>
     check_eligible ws d ch dest source =
       (let reason = first_reason (layers d ch \<lparr>ref_workspace = ws, ref_destination = Some (normalize_destination dest)\<rparr> source)
        in Inr \<lparr>dec_eligible = (reason = ''''), dec_reason = reason\<rparr>)"
  by (simp add: check_eligible_def)

lemma match_store_iff:
  "match_store r ch row_ws row_dest row_ch extra rows \<longleftrightarrow>
     (\<exists>x \<in> set rows. row_ws x = ref_workspace r \<and> Some (row_dest x) = ref_destination r \<and>
        row_ch x = ch \<and> extra x)"
  by (simp add: match_store_def table_simps)

text \<open>The rule reads four tables.\<close>

lemma check_eligible_tables:
  assumes "workspaces d' = workspaces d" and "suppressions d' = suppressions d"
    and "unsubscribes d' = unsubscribes d" and "confirmations d' = confirmations d"
  shows "check_eligible ws d' ch dest source = check_eligible ws d ch dest source"
proof -
  have w: "load_workspace i d' = load_workspace i d" for i using assms by (simp add: load_workspace_def)
  have l: "layers d' ch = layers d ch"
    by (intro ext) (simp add: layers_def is_suppressed_def is_unsubscribed_def is_confirmed_def
        require_confirmed_def w assms)
  show ?thesis by (simp only: check_eligible_def w l)
qed

section \<open>Properties\<close>

text \<open>C25: the two readings of the rule cannot drift. For a Contact whose email carries no
  surrounding white space, the single check of its address in its Workspace says eligible
  exactly when the batch predicate keeps the Contact.\<close>

theorem check_agrees_with_predicate:
  assumes "con_email c = Some e" and "trim_space e = e" and "e \<noteq> ''''"
    and "load_workspace (con_workspace c) d = Some w"
  shows "\<exists>dec. check_eligible (con_workspace c) d ch e source = Inr dec \<and>
     (dec_eligible dec \<longleftrightarrow> eligible_contact d ch source c)"
proof -
  have n: "normalize_destination e = to_lower e" "normalize_destination e \<noteq> ''''"
    using assms by (simp_all add: normalize_destination_def string_simps)
  have r: "\<lparr>ref_workspace = con_workspace c, ref_destination = Some (to_lower e)\<rparr> = contact_ref c"
    using assms by (simp add: contact_ref_def)
  show ?thesis
    using check_eligible_some [OF n(2) assms(4), of ch source]
    by (simp add: n r Let_def elig.readings_agree eligible_contact_def)
qed

theorem check_agrees_with_predicate_witness:
  "\<exists>dec. check_eligible 1 (empty_db\<lparr>workspaces := [sample_workspace 1]\<rparr>) ChEmail ''Bo@x.io'' ''broadcasts'' = Inr dec \<and>
     (dec_eligible dec \<longleftrightarrow>
       eligible_contact (empty_db\<lparr>workspaces := [sample_workspace 1]\<rparr>) ChEmail ''broadcasts''
         (sample_contact 7 1 ''Bo@x.io''))"
  using check_agrees_with_predicate [of "sample_contact 7 1 ''Bo@x.io''" "''Bo@x.io''"
      "empty_db\<lparr>workspaces := [sample_workspace 1]\<rparr>" "sample_workspace 1" ChEmail "''broadcasts''"]
  by (simp add: sample_contact_def sample_workspace_def load_workspace_def find_where_def
      trim_space_def trim_left_def trim_right_def is_space_def)

text \<open>The verdict on a marketing send, layer by layer in order of precedence. Suppression
  wins over both opt-outs, an opt-out from everything over one from the source, and the
  confirmation gate comes last; the send is eligible exactly when no layer blocks it.\<close>

theorem check_marketing_verdict:
  assumes "load_workspace ws d = Some w" and "n = normalize_destination dest" and "n \<noteq> ''''"
    and "source \<noteq> ''''"
    and "r = \<lparr>ref_workspace = ws, ref_destination = Some n\<rparr>"
  shows "check_eligible ws d ch dest source = Inr
    (if is_suppressed d r ch then \<lparr>dec_eligible = False, dec_reason = reason_suppressed\<rparr>
     else if is_unsubscribed d r ch source_everything then \<lparr>dec_eligible = False, dec_reason = reason_everything\<rparr>
     else if is_unsubscribed d r ch source then \<lparr>dec_eligible = False, dec_reason = reason_source\<rparr>
     else if ws_require_confirmed w \<and> \<not> is_confirmed d r ch then \<lparr>dec_eligible = False, dec_reason = reason_unconfirmed\<rparr>
     else \<lparr>dec_eligible = True, dec_reason = ''''\<rparr>)"
  using assms
  by (simp add: check_eligible_some layers_def Let_def require_confirmed_def reason_names)

theorem check_marketing_verdict_witness:
  "\<exists>d r. check_eligible 1 d ChEmail '' A@x.io'' ''broadcasts'' = Inr
     \<lparr>dec_eligible = False, dec_reason = reason_everything\<rparr>
     \<and> is_unsubscribed d r ChEmail source_everything"
proof -
  let ?d = "empty_db\<lparr>workspaces := [sample_workspace 1],
    unsubscribes := [\<lparr>uns_id = 2, uns_workspace = 1, uns_channel = ChEmail, uns_destination = ''a@x.io'',
      uns_source = ''everything'', uns_contact = None\<rparr>]\<rparr>"
  let ?r = "\<lparr>ref_workspace = 1, ref_destination = Some ''a@x.io''\<rparr>"
  have n: "''a@x.io'' = normalize_destination '' A@x.io''" by code_simp
  have facts: "load_workspace 1 ?d = Some (sample_workspace 1)" "\<not> is_suppressed ?d ?r ChEmail"
    "is_unsubscribed ?d ?r ChEmail source_everything"
    by (simp_all add: load_workspace_def find_where_def sample_workspace_def is_suppressed_def
        is_unsubscribed_def match_store_def exists_where_def source_names)
  have "check_eligible 1 ?d ChEmail '' A@x.io'' ''broadcasts'' = Inr
     \<lparr>dec_eligible = False, dec_reason = reason_everything\<rparr>"
    using check_marketing_verdict [OF facts(1) n, of "''broadcasts''" ?r ChEmail] facts(2,3) by simp
  with facts(3) show ?thesis by blast
qed

text \<open>The check fails closed. For an address that is not blank, a scope whose Workspace
  does not exist gets an error, never an eligible decision.\<close>

theorem check_fails_closed:
  "load_workspace ws d = None \<and> normalize_destination dest \<noteq> '''' \<longleftrightarrow>
     check_eligible ws d ch dest source = Inl (WorkspaceNotFound ws)"
  by (auto simp: check_eligible_def Let_def split: option.splits)

end
