(* ===== verification/Messaging.thy ===== *)
theory Messaging
  imports Eligibility
begin

text \<open>
  \<open>internal/messaging\<close>: the message a provider adapter sends, the default Integration and the
  verified Sending domain of a Workspace, the classification of a provider's reply, and the
  MIME message with its DKIM signature. The mail library is third-party: the check of an
  address is the parameter \<open>valid_addr\<close>, the signer of a domain is a record of what it signs.
\<close>

section \<open>Messages and senders\<close>

record email_message =
  em_from :: string
  em_from_name :: string
  em_to :: string
  em_subject :: string
  em_html :: string
  em_text :: string
  em_unsubscribe :: string

definition first_non_empty :: "string list \<Rightarrow> string" where
  "first_non_empty vs = (case find (\<lambda>v. v \<noteq> '''') vs of None \<Rightarrow> '''' | Some v \<Rightarrow> v)"

definition format_sender :: "string \<Rightarrow> string \<Rightarrow> string" where
  "format_sender addr name = (if name \<noteq> '''' then name @ '' <'' @ addr @ ''>'' else addr)"

text \<open>What a provider answers: it accepted the message, the signer refused the domain, the
  reply says quota or too fast, or the call failed, in which case the message may or may not
  have left.\<close>

datatype provider_reply =
  Accepted string | RefusedDomain | RefusedQuota | RefusedBusy | CallFailed bool

section \<open>Provider replies\<close>

definition contains :: "string \<Rightarrow> string \<Rightarrow> bool" where
  "contains s sub \<longleftrightarrow> list_ex (\<lambda>t. take (length sub) t = sub) (suffixes s)"

datatype reply_class = QuotaExceeded | ProviderBusy | OtherReply

definition classify_reply :: "string \<Rightarrow> reply_class" where
  "classify_reply text =
     (let t = to_lower text in
      if contains t ''quota'' \<and> (contains t ''daily'' \<or> contains t ''24'') then QuotaExceeded
      else if contains t ''sending rate'' \<or> contains t ''rate limit'' \<or> contains t ''throttl'' \<or>
              contains t ''too many messages'' \<or> contains t ''too fast'' then ProviderBusy
      else OtherReply)"

section \<open>The default Integration and the Sending domain\<close>

datatype resolve_error = NoProvider | NotSingularIntegration | DecryptFailed | BuildFailed

definition default_integration :: "id \<Rightarrow> db \<Rightarrow> resolve_error + integration" where
  "default_integration ws d =
     (case filter (in_ws int_workspace ws (\<lambda>i. int_channel i = ChEmail \<and> int_is_default i \<and> int_enabled i)) (integrations d) of
        [] \<Rightarrow> Inl NoProvider
      | [i] \<Rightarrow> Inr i
      | _ \<Rightarrow> Inl NotSingularIntegration)"

definition domain_of :: "string \<Rightarrow> string" where
  "domain_of email =
     (if CHR ''@'' \<in> set email then to_lower (rev (takeWhile (\<lambda>c. c \<noteq> CHR ''@'') (rev email))) else '''')"

definition verified_domain_row :: "id \<Rightarrow> string \<Rightarrow> sending_domain \<Rightarrow> bool" where
  "verified_domain_row ws dmn = in_ws sd_workspace ws (\<lambda>s. sd_domain s = dmn \<and> sd_verified s)"

definition has_verified_domain :: "id \<Rightarrow> string \<Rightarrow> db \<Rightarrow> bool" where
  "has_verified_domain ws from d =
     (let dmn = domain_of from in
      if dmn = '''' then False else exists_where (verified_domain_row ws dmn) (sending_domains d))"

section \<open>The MIME message\<close>

datatype content_type = TextPlain | TextHtml

record dkim =
  dk_domain :: string
  dk_headers :: "string list"
  dk_simple :: bool

record mime =
  mm_from :: string
  mm_from_name :: string
  mm_to :: string
  mm_subject :: string
  mm_parts :: "(content_type \<times> string) list"
  mm_headers :: "(string \<times> string) list"
  mm_dkim :: "dkim option"

datatype mime_error = InvalidFrom | InvalidTo | UnverifiedSendingDomain string | SignerFailed

definition build_mime :: "(string \<Rightarrow> bool) \<Rightarrow> email_message \<Rightarrow> mime_error + mime" where
  "build_mime valid_addr msg =
     (if \<not> valid_addr (em_from msg) then Inl InvalidFrom
      else if \<not> valid_addr (em_to msg) then Inl InvalidTo
      else Inr
        \<lparr>mm_from = em_from msg, mm_from_name = em_from_name msg, mm_to = em_to msg, mm_subject = em_subject msg,
         mm_parts = (if em_html msg \<noteq> '''' \<and> em_text msg \<noteq> '''' then [(TextPlain, em_text msg), (TextHtml, em_html msg)]
                     else if em_html msg \<noteq> '''' then [(TextHtml, em_html msg)]
                     else [(TextPlain, em_text msg)]),
         mm_headers = (if em_unsubscribe msg \<noteq> ''''
                       then [(''List-Unsubscribe'', ''<'' @ em_unsubscribe msg @ ''>''),
                             (''List-Unsubscribe-Post'', ''List-Unsubscribe=One-Click'')]
                       else []),
         mm_dkim = None\<rparr>)"

text \<open>\<open>DKIMSigner\<close>: the signer of the verified domain, \<open>Inr None\<close> where there is none. The
  key of a row is a parameter: \<open>load_key\<close> is false when it cannot be decrypted or parsed.\<close>

definition standard_headers :: "string list" where
  "standard_headers = [''From'', ''To'', ''Subject'', ''Date'', ''Message-ID'', ''Content-Type'', ''MIME-Version'']"

definition dkim_signer ::
  "(sending_domain \<Rightarrow> bool) \<Rightarrow> string list \<Rightarrow> id \<Rightarrow> string \<Rightarrow> db \<Rightarrow> mime_error + dkim option" where
  "dkim_signer load_key default_headers ws from d =
     (let dmn = domain_of from in
      if dmn = '''' then Inr None
      else case filter (verified_domain_row ws dmn) (sending_domains d) of
             [] \<Rightarrow> Inr None
           | [row] \<Rightarrow> if load_key row
                      then Inr (Some \<lparr>dk_domain = sd_domain row, dk_headers = default_headers, dk_simple = False\<rparr>)
                      else Inl SignerFailed
           | _ \<Rightarrow> Inl SignerFailed)"

definition build_signed_mime ::
  "(string \<Rightarrow> bool) \<Rightarrow> (string \<Rightarrow> mime_error + dkim option) option \<Rightarrow> email_message \<Rightarrow> mime_error + mime" where
  "build_signed_mime valid_addr signer msg =
     (case build_mime valid_addr msg of
        Inl e \<Rightarrow> Inl e
      | Inr m \<Rightarrow>
         (case signer of
            None \<Rightarrow> Inr m
          | Some sign \<Rightarrow>
             (case sign (em_from msg) of
                Inl e \<Rightarrow> Inl e
              | Inr None \<Rightarrow> Inl (UnverifiedSendingDomain (em_from msg))
              | Inr (Some k) \<Rightarrow>
                  Inr (m\<lparr>mm_dkim := Some
                    (if em_unsubscribe msg \<noteq> ''''
                     then k\<lparr>dk_headers := standard_headers @ [''List-Unsubscribe'', ''List-Unsubscribe-Post''],
                            dk_simple := True\<rparr>
                     else k)\<rparr>))))"

section \<open>Lemmas and properties\<close>

lemma domain_of_lower [simp]: "to_lower (domain_of s) = domain_of s"
  by (simp add: domain_of_def string_simps to_lower_def)

lemma default_integration_InrD:
  "default_integration ws d = Inr i \<Longrightarrow> i \<in> set (integrations d) \<and> int_workspace i = ws \<and>
     int_channel i = ChEmail \<and> int_is_default i \<and> int_enabled i"
  by (auto simp: default_integration_def in_ws_def filter_eq_Cons_iff split: list.splits)

lemma has_verified_domainD:
  "has_verified_domain ws from d \<Longrightarrow> domain_of from \<noteq> '''' \<and>
     (\<exists>s \<in> set (sending_domains d). sd_workspace s = ws \<and> sd_domain s = domain_of from \<and> sd_verified s)"
  by (auto simp: has_verified_domain_def Let_def verified_domain_row_def table_simps split: if_splits)

text \<open>The domain gate of the planner and the one of the signer agree, and a Workspace
  message is never unsigned. With a signer, a message is built only when the From domain is a
  verified Sending domain of the Workspace; it then carries the DKIM signature of that domain,
  and a marketing message has the one-click headers and signs both of them.\<close>

theorem workspace_mail_is_signed:
  assumes "build_signed_mime valid_addr (Some (\<lambda>from. dkim_signer load_key hs ws from d)) msg = Inr m"
  shows "has_verified_domain ws (em_from msg) d \<and>
     (\<exists>k. mm_dkim m = Some k \<and> dk_domain k = domain_of (em_from msg) \<and>
       (em_unsubscribe msg \<noteq> '''' \<longrightarrow>
          map fst (mm_headers m) = [''List-Unsubscribe'', ''List-Unsubscribe-Post''] \<and>
          set (map fst (mm_headers m)) \<subseteq> set (dk_headers k) \<and> dk_simple k))"
proof -
  from assms obtain m0 k where b: "build_mime valid_addr msg = Inr m0"
    and k: "dkim_signer load_key hs ws (em_from msg) d = Inr (Some k)"
    and m: "m = m0\<lparr>mm_dkim := Some (if em_unsubscribe msg \<noteq> ''''
       then k\<lparr>dk_headers := standard_headers @ [''List-Unsubscribe'', ''List-Unsubscribe-Post''], dk_simple := True\<rparr> else k)\<rparr>"
    by (auto simp: build_signed_mime_def split: sum.splits option.splits)
  from k obtain row where row: "filter (verified_domain_row ws (domain_of (em_from msg))) (sending_domains d) = [row]"
    and dom: "domain_of (em_from msg) \<noteq> ''''" "dk_domain k = sd_domain row"
    by (auto simp: dkim_signer_def Let_def split: if_splits list.splits)
  then have "row \<in> set (sending_domains d) \<and> verified_domain_row ws (domain_of (em_from msg)) row"
    by (auto simp: filter_eq_Cons_iff)
  then have v: "has_verified_domain ws (em_from msg) d" "dk_domain k = domain_of (em_from msg)"
    using dom by (auto simp: has_verified_domain_def Let_def table_simps verified_domain_row_def)
  have "mm_headers m = (if em_unsubscribe msg \<noteq> '''' then [(''List-Unsubscribe'', ''<'' @ em_unsubscribe msg @ ''>''),
      (''List-Unsubscribe-Post'', ''List-Unsubscribe=One-Click'')] else [])"
    using b m by (auto simp: build_mime_def split: if_splits)
  with v show ?thesis by (simp add: m)
qed

theorem workspace_mail_is_signed_witness:
  "\<exists>m. build_signed_mime (\<lambda>_. True) (Some (\<lambda>from. dkim_signer (\<lambda>_. True) [] 1 from
     (empty_db\<lparr>sending_domains := [\<lparr>sd_id = 2, sd_workspace = 1, sd_domain = ''x.io'', sd_verified = True,
        sd_last_checked_at = None, sd_verified_at = None\<rparr>]\<rparr>)))
     \<lparr>em_from = ''a@X.io'', em_from_name = '''', em_to = ''b@y.io'', em_subject = ''s'', em_html = ''h'',
       em_text = '''', em_unsubscribe = ''u''\<rparr> = Inr m \<and> mm_dkim m \<noteq> None"
proof -
  let ?d = "empty_db\<lparr>sending_domains := [\<lparr>sd_id = 2, sd_workspace = 1, sd_domain = ''x.io'', sd_verified = True,
        sd_last_checked_at = None, sd_verified_at = None\<rparr>]\<rparr>"
  let ?m = "\<lparr>em_from = ''a@X.io'', em_from_name = '''', em_to = ''b@y.io'', em_subject = ''s'', em_html = ''h'',
       em_text = '''', em_unsubscribe = ''u''\<rparr>"
  have dom: "domain_of ''a@X.io'' = ''x.io''" by code_simp
  obtain m where m: "build_signed_mime (\<lambda>_. True) (Some (\<lambda>from. dkim_signer (\<lambda>_. True) [] 1 from ?d)) ?m = Inr m"
    by (simp add: build_signed_mime_def build_mime_def dkim_signer_def dom verified_domain_row_def in_ws_def)
  from workspace_mail_is_signed [OF m] m show ?thesis by auto
qed

text \<open>The classification of a provider reply does not depend on case, knows the daily quota
  before the rate, and defers only on the listed phrases.\<close>

theorem classify_reply_correct:
  "classify_reply (to_lower s) = classify_reply s \<and>
   (classify_reply s = QuotaExceeded \<longleftrightarrow>
      contains (to_lower s) ''quota'' \<and> (contains (to_lower s) ''daily'' \<or> contains (to_lower s) ''24'')) \<and>
   classify_reply ''Daily message quota exceeded'' = QuotaExceeded \<and>
   classify_reply ''Throttling: Maximum sending rate exceeded.'' = ProviderBusy \<and>
   classify_reply ''mailbox full'' = OtherReply"
proof -
  have "classify_reply ''Daily message quota exceeded'' = QuotaExceeded" by code_simp
  moreover have "classify_reply ''Throttling: Maximum sending rate exceeded.'' = ProviderBusy" by code_simp
  moreover have "classify_reply ''mailbox full'' = OtherReply" by code_simp
  ultimately show ?thesis by (simp add: classify_reply_def Let_def string_simps)
qed

end
