(* ===== verification/Automations.thy ===== *)
theory Automations
  imports Eligibility
begin

text \<open>
  \<open>internal/automations\<close>: the stored form of an Automation's steps (\<open>Decode\<close>,
  \<open>Encode\<close>, \<open>validate\<close>), its lifecycle (\<open>Create\<close>, \<open>Update\<close>, \<open>Delete\<close>,
  \<open>Activate\<close>, \<open>Deactivate\<close>) and the Enrollment rules (\<open>Enroll\<close>, \<open>Exit\<close>,
  \<open>ExitRun\<close>). A step list is encoded to the \<open>json\<close> value its text denotes: object keys are
  matched as \<open>Encode\<close> writes them (the case-insensitive match of \<open>encoding/json\<close> and the
  spelling of a number are left out).
\<close>

section \<open>Steps\<close>

definition step_email :: string where "step_email = ''email''"
definition step_wait :: string where "step_wait = ''wait''"
definition step_apply_tag :: string where "step_apply_tag = ''apply_tag''"
definition step_remove_tag :: string where "step_remove_tag = ''remove_tag''"

lemmas step_kinds = step_email_def step_wait_def step_apply_tag_def step_remove_tag_def

record step =
  st_type :: string
  st_subject :: string
  st_body :: string
  st_seconds :: int
  st_tag :: string

definition zero_step :: step where
  "zero_step = \<lparr>st_type = '''', st_subject = '''', st_body = '''', st_seconds = 0, st_tag = ''''\<rparr>"

datatype automation_error =
  AutomationNotFound | InvalidStep | AutomationValidation | AutomationNotInWorkspace

definition valid_step :: "step \<Rightarrow> bool" where
  "valid_step s =
     (if st_type s = step_email then True
      else if st_type s = step_wait then \<not> st_seconds s < 0
      else if st_type s = step_apply_tag \<or> st_type s = step_remove_tag then trim_space (st_tag s) \<noteq> ''''
      else False)"

fun validate_steps :: "step list \<Rightarrow> automation_error option" where
  "validate_steps [] = None"
| "validate_steps (s # ss) = (if valid_step s then validate_steps ss else Some InvalidStep)"

text \<open>What \<open>Encode\<close> keeps of a step.\<close>

definition stored_step :: "step \<Rightarrow> step" where
  "stored_step s =
     (if st_type s = step_wait then zero_step\<lparr>st_type := step_wait, st_seconds := st_seconds s\<rparr>
      else if st_type s = step_apply_tag \<or> st_type s = step_remove_tag
      then zero_step\<lparr>st_type := st_type s, st_tag := trim_space (st_tag s)\<rparr>
      else zero_step\<lparr>st_type := step_email, st_subject := st_subject s, st_body := st_body s\<rparr>)"

text \<open>\<open>json.Marshal\<close> of a \<open>Step\<close>: every field but the type is \<open>omitempty\<close>.\<close>

definition opt_str :: "string \<Rightarrow> string \<Rightarrow> (string \<times> json) list" where
  "opt_str k v = (if v = '''' then [] else [(k, JStr v)])"

definition opt_int :: "string \<Rightarrow> int \<Rightarrow> (string \<times> json) list" where
  "opt_int k v = (if v = 0 then [] else [(k, JNum (of_int v))])"

definition marshal_step :: "step \<Rightarrow> json" where
  "marshal_step s = JObj ((''type'', JStr (st_type s)) # opt_str ''subject'' (st_subject s)
     @ opt_str ''body'' (st_body s) @ opt_int ''seconds'' (st_seconds s) @ opt_str ''tag'' (st_tag s))"

definition encode_steps :: "step list \<Rightarrow> json_text" where
  "encode_steps steps = JsonText (JArr (map (\<lambda>s. marshal_step (stored_step s)) steps))"

text \<open>\<open>json.Unmarshal\<close> into a \<open>Step\<close>: the last of equal keys wins, \<open>null\<close> leaves a field
  at zero, another type is an error, an unknown key is ignored; \<open>null\<close> for the whole
  element is the zero step.\<close>

definition is_int64 :: "rat \<Rightarrow> bool" where
  "is_int64 q \<longleftrightarrow> snd (quotient_of q) = 1 \<and> - (2 ^ 63) \<le> fst (quotient_of q) \<and> fst (quotient_of q) < 2 ^ 63"

fun set_field :: "step \<Rightarrow> string \<times> json \<Rightarrow> step option" where
  "set_field s (k, JNull) = Some s"
| "set_field s (k, JStr v) =
     (if k = ''type'' then Some (s\<lparr>st_type := v\<rparr>)
      else if k = ''subject'' then Some (s\<lparr>st_subject := v\<rparr>)
      else if k = ''body'' then Some (s\<lparr>st_body := v\<rparr>)
      else if k = ''tag'' then Some (s\<lparr>st_tag := v\<rparr>)
      else if k = ''seconds'' then None else Some s)"
| "set_field s (k, JNum q) =
     (if k = ''seconds'' then (if is_int64 q then Some (s\<lparr>st_seconds := fst (quotient_of q)\<rparr>) else None)
      else if k \<in> {''type'', ''subject'', ''body'', ''tag''} then None else Some s)"
| "set_field s (k, _) =
     (if k \<in> {''type'', ''subject'', ''body'', ''tag'', ''seconds''} then None else Some s)"

fun set_fields :: "step \<Rightarrow> (string \<times> json) list \<Rightarrow> step option" where
  "set_fields s [] = Some s"
| "set_fields s (f # fs) = (case set_field s f of None \<Rightarrow> None | Some s' \<Rightarrow> set_fields s' fs)"

fun unmarshal_step :: "json \<Rightarrow> step option" where
  "unmarshal_step (JObj fs) = set_fields zero_step fs"
| "unmarshal_step JNull = Some zero_step"
| "unmarshal_step _ = None"

fun those_steps :: "step option list \<Rightarrow> step list option" where
  "those_steps [] = Some []"
| "those_steps (None # _) = None"
| "those_steps (Some s # xs) = map_option (Cons s) (those_steps xs)"

fun decode_steps :: "json_text \<Rightarrow> step list option" where
  "decode_steps EmptyText = Some []"
| "decode_steps (JsonText (JArr js)) = those_steps (map unmarshal_step js)"
| "decode_steps (JsonText JNull) = Some []"
| "decode_steps _ = None"

lemma quotient_of_of_int [simp]: "quotient_of (of_int i) = (i, 1)"
  using quotient_of_int [of i] by (simp add: Rat.of_int_def)

lemma set_fields_append:
  "set_fields s (xs @ ys) = (case set_fields s xs of None \<Rightarrow> None | Some s' \<Rightarrow> set_fields s' ys)"
  by (induction xs arbitrary: s) (auto split: option.splits)

lemma unmarshal_marshal_step:
  assumes "- (2 ^ 63) \<le> st_seconds s" and "st_seconds s < 2 ^ 63"
  shows "unmarshal_step (marshal_step s) = Some s"
proof -
  have str: "set_fields t (opt_str k v) = (if v = '''' then Some t else set_field t (k, JStr v))" for t k v
    by (simp add: opt_str_def split: option.splits)
  have int: "set_fields t (opt_int k v) = (if v = 0 then Some t else set_field t (k, JNum (of_int v)))" for t k v
    by (simp add: opt_int_def split: option.splits)
  have "is_int64 (of_int (st_seconds s))" using assms by (simp add: is_int64_def)
  then show ?thesis
    by (cases s) (simp add: marshal_step_def set_fields_append str int zero_step_def)
qed

lemma those_steps_all: "(\<And>s. s \<in> set ss \<Longrightarrow> f (g s) = Some (h s)) \<Longrightarrow> those_steps (map f (map g ss)) = Some (map h ss)"
  by (induction ss) simp_all

lemma stored_step_idem: "stored_step (stored_step s) = stored_step s"
  by (simp add: stored_step_def zero_step_def step_kinds string_simps)

lemma validate_steps_None_iff: "validate_steps ss = None \<longleftrightarrow> list_all valid_step ss"
  by (induction ss) simp_all

lemma valid_stored_step: "valid_step s \<Longrightarrow> valid_step (stored_step s)"
  by (simp add: valid_step_def stored_step_def step_kinds zero_step_def string_simps split: if_splits)

section \<open>The module\<close>

record automation_create_input =
  aci_name :: string
  aci_trigger :: string
  aci_steps :: "step list option"

record automation_update_input =
  aui_name :: "string option"
  aui_trigger :: "string option"
  aui_steps :: "step list option"

definition get_automation :: "id \<Rightarrow> id \<Rightarrow> db \<Rightarrow> automation option" where
  "get_automation ws aid d = find_where (in_ws au_workspace ws (\<lambda>a. au_id a = aid)) (automations d)"

text \<open>The \<open>NotEmpty\<close> validators of the schema, which run when a builder is saved.\<close>

definition create_automation ::
  "id \<Rightarrow> automation_create_input \<Rightarrow> db \<Rightarrow> (automation_error + automation) \<times> db" where
  "create_automation ws inp d =
     (let steps = (case aci_steps inp of None \<Rightarrow> [] | Some ss \<Rightarrow> ss) in
      case validate_steps steps of
        Some e \<Rightarrow> (Inl e, d)
      | None \<Rightarrow>
         if aci_name inp = '''' \<or> aci_trigger inp = '''' then (Inl AutomationValidation, d)
         else (let a = \<lparr>au_id = next_id d, au_workspace = ws, au_name = aci_name inp, au_status = AutoDraft,
                        au_trigger = aci_trigger inp,
                        au_definition = (case aci_steps inp of None \<Rightarrow> JsonText (JArr []) | Some ss \<Rightarrow> encode_steps ss)\<rparr>
               in (Inr a, d\<lparr>automations := automations d @ [a], next_id := next_id d + 1\<rparr>)))"

definition set_automation :: "automation_update_input \<Rightarrow> automation \<Rightarrow> automation" where
  "set_automation inp a =
     a\<lparr>au_name := (case aui_name inp of None \<Rightarrow> au_name a | Some n \<Rightarrow> n),
       au_trigger := (case aui_trigger inp of None \<Rightarrow> au_trigger a | Some t \<Rightarrow> t),
       au_definition := (case aui_steps inp of None \<Rightarrow> au_definition a | Some ss \<Rightarrow> encode_steps ss)\<rparr>"

definition update_automation ::
  "id \<Rightarrow> id \<Rightarrow> automation_update_input \<Rightarrow> db \<Rightarrow> (automation_error + automation) \<times> db" where
  "update_automation ws aid inp d =
     (case (case aui_steps inp of None \<Rightarrow> None | Some ss \<Rightarrow> validate_steps ss) of
        Some e \<Rightarrow> (Inl e, d)
      | None \<Rightarrow>
         if aui_name inp = Some '''' \<or> aui_trigger inp = Some '''' then (Inl AutomationValidation, d)
         else (case get_automation ws aid d of
                 None \<Rightarrow> (Inl AutomationNotFound, d)
               | Some a \<Rightarrow> (Inr (set_automation inp a),
                   d\<lparr>automations := update_where (in_ws au_workspace ws (\<lambda>x. au_id x = aid)) (set_automation inp) (automations d)\<rparr>)))"

text \<open>Deleting an Automation cascades to its Enrollments.\<close>

definition delete_automation :: "id \<Rightarrow> id \<Rightarrow> db \<Rightarrow> automation_error option \<times> db" where
  "delete_automation ws aid d =
     (case get_automation ws aid d of
        None \<Rightarrow> (Some AutomationNotFound, d)
      | Some a \<Rightarrow> (None,
          d\<lparr>automations := delete_where (in_ws au_workspace ws (\<lambda>x. au_id x = aid)) (automations d),
            runs := delete_where (\<lambda>r. run_automation r = aid) (runs d)\<rparr>))"

definition set_automation_status ::
  "automation_status \<Rightarrow> id \<Rightarrow> id \<Rightarrow> db \<Rightarrow> (automation_error + automation) \<times> db" where
  "set_automation_status st ws aid d =
     (case get_automation ws aid d of
        None \<Rightarrow> (Inl AutomationNotFound, d)
      | Some a \<Rightarrow> (Inr (a\<lparr>au_status := st\<rparr>),
          d\<lparr>automations := update_where (in_ws au_workspace ws (\<lambda>x. au_id x = aid)) (\<lambda>x. x\<lparr>au_status := st\<rparr>) (automations d)\<rparr>))"

definition activate_automation :: "id \<Rightarrow> id \<Rightarrow> db \<Rightarrow> (automation_error + automation) \<times> db" where
  "activate_automation = set_automation_status AutoActive"

definition deactivate_automation :: "id \<Rightarrow> id \<Rightarrow> db \<Rightarrow> (automation_error + automation) \<times> db" where
  "deactivate_automation = set_automation_status AutoDraft"

section \<open>Enrollment\<close>

definition verify_contact :: "id \<Rightarrow> id \<Rightarrow> db \<Rightarrow> bool" where
  "verify_contact ws cid d = exists_where (in_ws con_workspace ws (\<lambda>c. con_id c = cid)) (contacts d)"

definition enroll :: "id \<Rightarrow> id \<Rightarrow> id \<Rightarrow> db \<Rightarrow> (automation_error + id option) \<times> db" where
  "enroll ws aid cid d =
     (if exists_where (in_ws run_workspace ws (\<lambda>r. run_automation r = aid \<and> run_contact r = cid)) (runs d)
      then (Inr None, d)
      else if get_automation ws aid d = None \<or> \<not> verify_contact ws cid d then (Inl AutomationNotInWorkspace, d)
      else if exists_where (\<lambda>r. run_automation r = aid \<and> run_contact r = cid) (runs d)
      then (Inr None, d)
      else (Inr (Some (next_id d)),
            d\<lparr>runs := runs d @ [\<lparr>run_id = next_id d, run_workspace = ws, run_automation = aid,
                run_contact = cid, run_status = RunActive, run_current_step = 0, run_resume_at = None\<rparr>],
              next_id := next_id d + 1\<rparr>))"

definition exited :: "automation_run \<Rightarrow> automation_run" where
  "exited r = r\<lparr>run_status := RunExited, run_resume_at := None\<rparr>"

definition active_run :: "id \<Rightarrow> id \<Rightarrow> id \<Rightarrow> automation_run \<Rightarrow> bool" where
  "active_run ws aid cid = in_ws run_workspace ws
     (\<lambda>r. run_automation r = aid \<and> run_contact r = cid \<and> run_status r = RunActive)"

definition exit_automation :: "id \<Rightarrow> id \<Rightarrow> id \<Rightarrow> db \<Rightarrow> bool \<times> db" where
  "exit_automation ws aid cid d =
     (0 < count_where (active_run ws aid cid) (runs d),
      d\<lparr>runs := update_where (active_run ws aid cid) exited (runs d)\<rparr>)"

definition exit_run :: "id \<Rightarrow> id \<Rightarrow> db \<Rightarrow> automation_error option \<times> db" where
  "exit_run ws rid d =
     (if exists_where (in_ws run_workspace ws (\<lambda>r. run_id r = rid)) (runs d)
      then (None, d\<lparr>runs := update_where (in_ws run_workspace ws (\<lambda>r. run_id r = rid)) exited (runs d)\<rparr>)
      else (Some AutomationNotFound, d))"

text \<open>The unique index on (automation, contact).\<close>

definition enrolled_once :: "db \<Rightarrow> bool" where
  "enrolled_once d = distinct (map (\<lambda>r. (run_automation r, run_contact r)) (runs d))"

lemma map_runs_update:
  "(\<And>r. g (f r) = g r) \<Longrightarrow> map g (update_where p f rows) = map g rows"
  by (simp add: update_where_def)

lemma enrolled_once_enroll: "enrolled_once d \<Longrightarrow> enrolled_once (snd (enroll ws aid cid d))"
  by (auto simp: enroll_def enrolled_once_def table_simps)

lemma exited_fields [simp]:
  "run_automation (exited r) = run_automation r" "run_contact (exited r) = run_contact r"
  "run_workspace (exited r) = run_workspace r" "run_id (exited r) = run_id r"
  "run_status (exited r) = RunExited" "run_resume_at (exited r) = None"
  "run_current_step (exited r) = run_current_step r"
  by (simp_all add: exited_def)

lemma enrolled_once_exit: "enrolled_once d \<Longrightarrow> enrolled_once (snd (exit_automation ws aid cid d))"
  by (simp add: exit_automation_def enrolled_once_def map_runs_update)

lemma enrolled_once_exit_run: "enrolled_once d \<Longrightarrow> enrolled_once (snd (exit_run ws rid d))"
  by (simp add: exit_run_def enrolled_once_def map_runs_update)

lemma enrolled_once_delete: "enrolled_once d \<Longrightarrow> enrolled_once (snd (delete_automation ws aid d))"
  by (simp add: delete_automation_def enrolled_once_def delete_where_def distinct_map_filter
      split: option.split)

lemma enroll_known: "r \<in> set (runs d) \<Longrightarrow> run_workspace r = ws \<Longrightarrow>
    enroll ws (run_automation r) (run_contact r) d = (Inr None, d)"
proof -
  assume "r \<in> set (runs d)" "run_workspace r = ws"
  then have "exists_where (in_ws run_workspace ws (\<lambda>x. run_automation x = run_automation r \<and> run_contact x = run_contact r)) (runs d)"
    by (auto simp: table_simps)
  then show ?thesis by (simp add: enroll_def)
qed

lemma enroll_SomeD:
  "enroll ws aid cid d = (Inr (Some i), d') \<Longrightarrow>
     i = next_id d \<and> verify_contact ws cid d \<and> get_automation ws aid d \<noteq> None \<and>
     (\<forall>r \<in> set (runs d). \<not> (run_automation r = aid \<and> run_contact r = cid)) \<and>
     runs d' = runs d @ [\<lparr>run_id = i, run_workspace = ws, run_automation = aid, run_contact = cid,
        run_status = RunActive, run_current_step = 0, run_resume_at = None\<rparr>]"
  by (auto simp: enroll_def table_simps split: if_splits)

section \<open>Properties\<close>

text \<open>The stored definition round-trips. Whatever steps are encoded, decoding the stored
  text yields each step reduced to the fields of its type, with a trimmed tag name, and
  encoding those again changes nothing; a definition that was valid stays valid.\<close>

theorem definition_roundtrip:
  assumes "\<And>s. s \<in> set ss \<Longrightarrow> - (2 ^ 63) \<le> st_seconds s \<and> st_seconds s < 2 ^ 63"
  shows "decode_steps (encode_steps ss) = Some (map stored_step ss) \<and>
     encode_steps (map stored_step ss) = encode_steps ss \<and>
     (validate_steps ss = None \<longrightarrow> validate_steps (map stored_step ss) = None)"
proof -
  have "unmarshal_step (marshal_step (stored_step s)) = Some (stored_step s)" if "s \<in> set ss" for s
  proof (rule unmarshal_marshal_step)
    show "- (2 ^ 63) \<le> st_seconds (stored_step s)" "st_seconds (stored_step s) < 2 ^ 63"
      using assms [OF that] by (simp_all add: stored_step_def zero_step_def)
  qed
  then have "decode_steps (encode_steps ss) = Some (map stored_step ss)"
    by (simp add: encode_steps_def) (use those_steps_all [of ss unmarshal_step "\<lambda>s. marshal_step (stored_step s)" stored_step] in simp)
  then show ?thesis
    by (simp add: encode_steps_def stored_step_idem validate_steps_None_iff list_all_iff valid_stored_step)
qed

theorem definition_roundtrip_witness:
  "decode_steps (encode_steps [zero_step\<lparr>st_type := ''apply_tag'', st_tag := '' vip ''\<rparr>]) =
     Some [zero_step\<lparr>st_type := ''apply_tag'', st_tag := ''vip''\<rparr>]"
proof -
  have "stored_step (zero_step\<lparr>st_type := ''apply_tag'', st_tag := '' vip ''\<rparr>) =
     zero_step\<lparr>st_type := ''apply_tag'', st_tag := ''vip''\<rparr>" by code_simp
  then show ?thesis
    using definition_roundtrip [of "[zero_step\<lparr>st_type := ''apply_tag'', st_tag := '' vip ''\<rparr>]"]
    by (simp add: zero_step_def)
qed

text \<open>Enroll-once-ever. A successful Enrollment creates exactly one active run at step 0; a
  second Enroll of the same Contact in the same Automation, right after or after the Contact
  left it, creates nothing and changes nothing; the unique pair is kept by every operation.\<close>

theorem enroll_once_ever:
  assumes "enrolled_once d" and "enroll ws aid cid d = (Inr (Some i), d1)"
  shows "enrolled_once d1 \<and> enroll ws aid cid d1 = (Inr None, d1) \<and>
     exit_automation ws aid cid d1 = (True, snd (exit_automation ws aid cid d1)) \<and>
     enroll ws aid cid (snd (exit_automation ws aid cid d1)) = (Inr None, snd (exit_automation ws aid cid d1))"
proof -
  let ?r = "\<lparr>run_id = i, run_workspace = ws, run_automation = aid, run_contact = cid,
        run_status = RunActive, run_current_step = 0, run_resume_at = None\<rparr>"
  have r: "?r \<in> set (runs d1)" using enroll_SomeD [OF assms(2)] by simp
  have a: "active_run ws aid cid ?r" by (simp add: active_run_def in_ws_def)
  have "exited ?r \<in> set (runs (snd (exit_automation ws aid cid d1)))"
    using r a by (force simp: exit_automation_def update_where_def)
  then have again: "enroll ws aid cid (snd (exit_automation ws aid cid d1)) = (Inr None, snd (exit_automation ws aid cid d1))"
    using enroll_known [of "exited ?r" "snd (exit_automation ws aid cid d1)" ws] by simp
  have ended: "exit_automation ws aid cid d1 = (True, snd (exit_automation ws aid cid d1))"
    using r a unfolding exit_automation_def count_where_pos_iff by simp blast
  have "enrolled_once d1" using enrolled_once_enroll [OF assms(1), of ws aid cid] assms(2) by simp
  with again ended enroll_known [OF r, of ws] show ?thesis by simp
qed

theorem enroll_once_ever_witness:
  "\<exists>d d1 i. enroll 1 5 7 d = (Inr (Some i), d1) \<and> enroll 1 5 7 d1 = (Inr None, d1)"
proof -
  let ?d = "empty_db\<lparr>contacts := [sample_contact 7 1 ''a@x.io''],
    automations := [\<lparr>au_id = 5, au_workspace = 1, au_name = ''Hi'', au_status = AutoActive,
      au_trigger = ''contact.created'', au_definition = EmptyText\<rparr>], next_id := 9\<rparr>"
  have e: "enroll 1 5 7 ?d = (Inr (Some 9), snd (enroll 1 5 7 ?d))"
    by (simp add: enroll_def exists_where_def get_automation_def find_where_def in_ws_def
        verify_contact_def sample_contact_def)
  have "enrolled_once ?d" by (simp add: enrolled_once_def)
  from e enroll_once_ever [OF this e, THEN conjunct2, THEN conjunct1] show ?thesis by (intro exI conjI)
qed

end
