(* ===== verification/Consent.thy ===== *)
theory Consent
  imports Automations
begin

text \<open>
  \<open>internal/consent\<close>: the changes of a destination's consent state. \<open>record_unsubscribe\<close> and
  \<open>record_confirmation\<close> are the effects of the signed links, each one transaction: an error
  rolls the database back to the state before the call. \<open>suppress\<close> and
  \<open>unsubscribe_destination\<close> are the intake of an authenticated caller. The scoped client
  verifies the \<open>contact_id\<close> of an Unsubscribe (\<open>ScopedRef\<close>) but not the one of a
  Confirmation or a Suppression (\<open>Unchecked\<close>). \<open>settled\<close> turns a constraint error, here
  a Workspace that no longer exists, into success.
\<close>

section \<open>The signed links\<close>

record unsub_target =
  ut_source :: string
  ut_destination :: string
  ut_workspace :: id
  ut_contact :: id
  ut_broadcast :: id

record confirm_target =
  ct_destination :: string
  ct_workspace :: id
  ct_contact :: id

datatype consent_error =
  ErrDestinationEmpty | ErrInvalidSource | ErrUnknownAutomation
  | ErrRefNotInWorkspace | ErrBroadcastNotFound | ErrConstraint | ErrNotSingular

definition settled :: "consent_error option \<Rightarrow> consent_error option" where
  "settled e = (if e = Some ErrConstraint then None else e)"

definition nonzero :: "id \<Rightarrow> id option" where
  "nonzero i = (if i = 0 then None else Some i)"

text \<open>The error and the state of a transaction: an error keeps the state it started from.\<close>

definition within_tx :: "(db \<Rightarrow> consent_error option \<times> db) \<Rightarrow> db \<Rightarrow> consent_error option \<times> db" where
  "within_tx body d = (case body d of (None, d') \<Rightarrow> (None, d') | (Some e, _) \<Rightarrow> (Some e, d))"

definition unsubscribe_row :: "id \<Rightarrow> string \<Rightarrow> string \<Rightarrow> unsubscribe \<Rightarrow> bool" where
  "unsubscribe_row ws dest source = in_ws uns_workspace ws
     (\<lambda>u. uns_channel u = ChEmail \<and> uns_destination u = dest \<and> uns_source u = source)"

definition confirmation_row :: "id \<Rightarrow> string \<Rightarrow> confirmation \<Rightarrow> bool" where
  "confirmation_row ws dest = in_ws cnf_workspace ws
     (\<lambda>c. cnf_channel c = ChEmail \<and> cnf_destination c = dest)"

definition drop_confirmation :: "id \<Rightarrow> string \<Rightarrow> string \<Rightarrow> db \<Rightarrow> db" where
  "drop_confirmation ws dest source d =
     (if source = source_everything
      then d\<lparr>confirmations := delete_where (confirmation_row ws dest) (confirmations d)\<rparr>
      else d)"

definition bump_unsubscribed :: "id \<Rightarrow> id \<Rightarrow> db \<Rightarrow> db" where
  "bump_unsubscribed ws bid d =
     d\<lparr>broadcasts := update_where (in_ws bc_workspace ws (\<lambda>b. bc_id b = bid))
         (\<lambda>b. b\<lparr>bc_unsubscribed_count := bc_unsubscribed_count b + 1\<rparr>) (broadcasts d)\<rparr>"

definition has_broadcast :: "id \<Rightarrow> id \<Rightarrow> db \<Rightarrow> bool" where
  "has_broadcast ws bid d = exists_where (in_ws bc_workspace ws (\<lambda>b. bc_id b = bid)) (broadcasts d)"

definition leave_automation :: "id \<Rightarrow> string \<Rightarrow> id \<Rightarrow> db \<Rightarrow> db" where
  "leave_automation ws source cid d =
     (case parse_automation_source source of
        None \<Rightarrow> d
      | Some aid \<Rightarrow> if cid \<noteq> 0 then snd (exit_automation ws aid cid d) else d)"

definition unsubscribed_event :: "unsub_target \<Rightarrow> string \<Rightarrow> domain_event" where
  "unsubscribed_event t dest = EmailEngagement
     \<lparr>eng_action = name_email_unsubscribed, eng_workspace = ut_workspace t, eng_contact = ut_contact t,
      eng_email = dest, eng_broadcast = ut_broadcast t, eng_url = '''', eng_dedup = '''', eng_surface = '''',
      eng_source = '''', eng_domain = '''', eng_automation = 0, eng_message = 0, eng_provider_message = ''''\<rparr>"

text \<open>The transaction of \<open>RecordUnsubscribe\<close>, from the existence check on.\<close>

definition unsubscribe_tx :: "time \<Rightarrow> unsub_target \<Rightarrow> string \<Rightarrow> db \<Rightarrow> consent_error option \<times> db" where
  "unsubscribe_tx now t dest d =
     (let ws = ut_workspace t in
      if exists_where (unsubscribe_row ws dest (ut_source t)) (unsubscribes d) then (None, d)
      else if ut_contact t \<noteq> 0 \<and> \<not> verify_contact ws (ut_contact t) d then (Some ErrRefNotInWorkspace, d)
      else if load_workspace ws d = None then (Some ErrConstraint, d)
      else
        (let d1 = d\<lparr>unsubscribes := unsubscribes d @ [\<lparr>uns_id = next_id d, uns_workspace = ws,
                      uns_channel = ChEmail, uns_destination = dest, uns_source = ut_source t,
                      uns_contact = nonzero (ut_contact t)\<rparr>], next_id := next_id d + 1\<rparr>;
             d2 = drop_confirmation ws dest (ut_source t) d1
         in if ut_broadcast t \<noteq> 0 \<and> \<not> has_broadcast ws (ut_broadcast t) d2
            then (Some ErrBroadcastNotFound, d2)
            else
              (let d3 = (if ut_broadcast t \<noteq> 0 then bump_unsubscribed ws (ut_broadcast t) d2 else d2);
                   d4 = leave_automation ws (ut_source t) (ut_contact t) d3
               in (None, publish now (unsubscribed_event t dest) d4))))"

definition record_unsubscribe :: "time \<Rightarrow> unsub_target \<Rightarrow> db \<Rightarrow> consent_error option \<times> db" where
  "record_unsubscribe now t d =
     (let dest = normalize_destination (ut_destination t) in
      if dest = '''' \<or> ut_workspace t = 0 \<or> ut_source t = '''' then (None, d)
      else (case within_tx (unsubscribe_tx now t dest) d of (e, d') \<Rightarrow> (settled e, d')))"

definition confirmed_event :: "confirm_target \<Rightarrow> string \<Rightarrow> string \<Rightarrow> domain_event" where
  "confirmed_event t dest ip = MarketingConfirmed
     \<lparr>mc_workspace = ct_workspace t, mc_contact = ct_contact t, mc_email = dest,
      mc_provenance = ''double_opt_in'', mc_ip = ip\<rparr>"

definition confirmation_tx :: "time \<Rightarrow> confirm_target \<Rightarrow> string \<Rightarrow> string \<Rightarrow> db \<Rightarrow> consent_error option \<times> db" where
  "confirmation_tx now t dest ip d =
     (let ws = ct_workspace t in
      if exists_where (confirmation_row ws dest) (confirmations d) then (None, d)
      else if load_workspace ws d = None then (Some ErrConstraint, d)
      else (None, publish now (confirmed_event t dest ip)
             (d\<lparr>confirmations := confirmations d @ [\<lparr>cnf_id = next_id d, cnf_workspace = ws,
                  cnf_channel = ChEmail, cnf_destination = dest, cnf_provenance = DoubleOptIn,
                  cnf_contact = nonzero (ct_contact t)\<rparr>], next_id := next_id d + 1\<rparr>)))"

definition record_confirmation :: "time \<Rightarrow> confirm_target \<Rightarrow> string \<Rightarrow> db \<Rightarrow> consent_error option \<times> db" where
  "record_confirmation now t ip d =
     (let dest = normalize_destination (ct_destination t) in
      if dest = '''' \<or> ct_workspace t = 0 then (None, d)
      else (case within_tx (confirmation_tx now t dest ip) d of (e, d') \<Rightarrow> (settled e, d')))"

section \<open>Intake\<close>

definition suppression_row :: "id \<Rightarrow> string \<Rightarrow> suppression \<Rightarrow> bool" where
  "suppression_row ws dest = in_ws sup_workspace ws
     (\<lambda>s. sup_channel s = ChEmail \<and> sup_destination s = dest)"

text \<open>\<open>Only\<close>: exactly one row, or an error.\<close>

definition only_row :: "('r \<Rightarrow> bool) \<Rightarrow> 'r list \<Rightarrow> consent_error + 'r" where
  "only_row p rows = (case filter p rows of [r] \<Rightarrow> Inr r | _ \<Rightarrow> Inl ErrNotSingular)"

definition suppress :: "id \<Rightarrow> string \<Rightarrow> db \<Rightarrow> (consent_error + suppression) \<times> db" where
  "suppress ws destination d =
     (let dest = normalize_destination destination in
      if dest = '''' then (Inl ErrDestinationEmpty, d)
      else if \<not> exists_where (suppression_row ws dest) (suppressions d) \<and> load_workspace ws d = None
      then (Inl ErrConstraint, d)
      else
        (let d' = (if exists_where (suppression_row ws dest) (suppressions d) then d
                   else d\<lparr>suppressions := suppressions d @ [\<lparr>sup_id = next_id d, sup_workspace = ws,
                       sup_channel = ChEmail, sup_destination = dest, sup_reason = ReasonManual,
                       sup_contact = None\<rparr>], next_id := next_id d + 1\<rparr>)
         in (only_row (suppression_row ws dest) (suppressions d'), d')))"

definition validate_source :: "id \<Rightarrow> string \<Rightarrow> db \<Rightarrow> consent_error option" where
  "validate_source ws source d =
     (if source = source_broadcasts \<or> source = source_everything then None
      else case parse_automation_source source of
             Some aid \<Rightarrow> (if get_automation ws aid d = None then Some ErrUnknownAutomation else None)
           | None \<Rightarrow> Some ErrInvalidSource)"

definition contact_of_destination :: "id \<Rightarrow> string \<Rightarrow> db \<Rightarrow> contact option" where
  "contact_of_destination ws dest d =
     find_where (in_ws con_workspace ws (\<lambda>c. map_option to_lower (con_email c) = Some (to_lower dest))) (contacts d)"

definition unsubscribe_destination ::
  "time \<Rightarrow> id \<Rightarrow> string \<Rightarrow> string \<Rightarrow> db \<Rightarrow> (consent_error + unsubscribe) \<times> db" where
  "unsubscribe_destination now ws destination source d =
     (let dest = normalize_destination destination in
      if dest = '''' then (Inl ErrDestinationEmpty, d)
      else case validate_source ws source d of
             Some e \<Rightarrow> (Inl e, d)
           | None \<Rightarrow>
              (let t = \<lparr>ut_source = source, ut_destination = dest, ut_workspace = ws,
                        ut_contact = (case contact_of_destination ws dest d of None \<Rightarrow> 0 | Some c \<Rightarrow> con_id c),
                        ut_broadcast = 0\<rparr>
               in case record_unsubscribe now t d of
                    (Some e, d') \<Rightarrow> (Inl e, d')
                  | (None, d') \<Rightarrow> (only_row (unsubscribe_row ws dest source) (unsubscribes d'), d')))"
section \<open>Lemmas\<close>

lemma leave_automation_tables [simp]:
  "workspaces (leave_automation ws src cid d) = workspaces d"
  "unsubscribes (leave_automation ws src cid d) = unsubscribes d"
  "suppressions (leave_automation ws src cid d) = suppressions d"
  "confirmations (leave_automation ws src cid d) = confirmations d"
  "outbox (leave_automation ws src cid d) = outbox d"
  by (simp_all add: leave_automation_def exit_automation_def split: option.split)

lemma bump_unsubscribed_tables [simp]:
  "workspaces (bump_unsubscribed ws b d) = workspaces d"
  "unsubscribes (bump_unsubscribed ws b d) = unsubscribes d"
  "suppressions (bump_unsubscribed ws b d) = suppressions d"
  "confirmations (bump_unsubscribed ws b d) = confirmations d"
  "outbox (bump_unsubscribed ws b d) = outbox d"
  by (simp_all add: bump_unsubscribed_def)

lemma drop_confirmation_tables [simp]:
  "workspaces (drop_confirmation ws dest src d) = workspaces d"
  "unsubscribes (drop_confirmation ws dest src d) = unsubscribes d"
  "suppressions (drop_confirmation ws dest src d) = suppressions d"
  "outbox (drop_confirmation ws dest src d) = outbox d"
  by (simp_all add: drop_confirmation_def)

lemma load_workspace_cong: "workspaces d' = workspaces d \<Longrightarrow> load_workspace ws d' = load_workspace ws d"
  by (simp add: load_workspace_def)

lemma unsubscribe_tx_workspaces: "workspaces (snd (unsubscribe_tx now t dest d)) = workspaces d"
  by (simp add: unsubscribe_tx_def Let_def)

lemma unsubscribe_tx_row:
  "fst (unsubscribe_tx now t dest d) = None \<Longrightarrow>
     exists_where (unsubscribe_row (ut_workspace t) dest (ut_source t)) (unsubscribes (snd (unsubscribe_tx now t dest d)))"
  by (auto simp: unsubscribe_tx_def Let_def table_simps unsubscribe_row_def split: if_splits)

lemma within_tx_None: "within_tx body d = (None, d') \<longleftrightarrow> body d = (None, d')"
  by (simp add: within_tx_def split: prod.split option.split)

lemma within_tx_Some: "within_tx body d = (Some e, d') \<longleftrightarrow> d' = d \<and> fst (body d) = Some e"
  by (auto simp: within_tx_def split: prod.split option.split)

lemma unsubscribe_tx_no_constraint:
  "load_workspace (ut_workspace t) d \<noteq> None \<Longrightarrow> fst (unsubscribe_tx now t dest d) \<noteq> Some ErrConstraint"
  by (auto simp: unsubscribe_tx_def Let_def split: if_splits)

lemma record_unsubscribe_None:
  assumes "record_unsubscribe now t d = (None, d')"
    and "normalize_destination (ut_destination t) \<noteq> ''''" and "ut_workspace t \<noteq> 0" and "ut_source t \<noteq> ''''"
    and "load_workspace (ut_workspace t) d = Some w"
  shows "unsubscribe_tx now t (normalize_destination (ut_destination t)) d = (None, d')"
proof -
  let ?dest = "normalize_destination (ut_destination t)"
  obtain e d1 where e: "within_tx (unsubscribe_tx now t ?dest) d = (e, d1)"
    by (cases "within_tx (unsubscribe_tx now t ?dest) d")
  with assms have s: "settled e = None" "d1 = d'" by (simp_all add: record_unsubscribe_def Let_def)
  have "e \<noteq> Some ErrConstraint"
    using unsubscribe_tx_no_constraint [of t d now ?dest] e assms(5) by (auto simp: within_tx_Some)
  with s have "e = None" by (simp add: settled_def split: if_splits)
  with e s show ?thesis by (simp add: within_tx_None)
qed

lemma is_unsubscribed_iff:
  "is_unsubscribed d \<lparr>ref_workspace = ws, ref_destination = Some dest\<rparr> ChEmail source \<longleftrightarrow>
     exists_where (unsubscribe_row ws dest source) (unsubscribes d)"
  by (auto simp: is_unsubscribed_def match_store_iff unsubscribe_row_def table_simps)

lemma is_confirmed_iff:
  "is_confirmed d \<lparr>ref_workspace = ws, ref_destination = Some dest\<rparr> ChEmail \<longleftrightarrow>
     exists_where (confirmation_row ws dest) (confirmations d)"
  by (auto simp: is_confirmed_def match_store_iff confirmation_row_def table_simps)

lemma is_suppressed_iff:
  "is_suppressed d \<lparr>ref_workspace = ws, ref_destination = Some dest\<rparr> ChEmail \<longleftrightarrow>
     exists_where (suppression_row ws dest) (suppressions d)"
  by (auto simp: is_suppressed_def match_store_iff suppression_row_def table_simps)

lemma foreign_leave_automation [simp]: "foreign_view ws (leave_automation ws src cid d) = foreign_view ws d"
  by (simp add: leave_automation_def exit_automation_def foreign_view_def active_run_def table_simps
      split: option.split)

lemma foreign_bump_unsubscribed [simp]: "foreign_view ws (bump_unsubscribed ws b d) = foreign_view ws d"
  by (simp add: bump_unsubscribed_def foreign_view_def table_simps)

lemma foreign_drop_confirmation [simp]: "foreign_view ws (drop_confirmation ws dest src d) = foreign_view ws d"
  by (simp add: drop_confirmation_def foreign_view_def confirmation_row_def table_simps)

lemma foreign_unsubscribe_tx:
  "foreign_view (ut_workspace t) (snd (unsubscribe_tx now t dest d)) = foreign_view (ut_workspace t) d"
proof -
  have row: "foreign_view ws (d\<lparr>unsubscribes := unsubscribes d @ [u], next_id := n\<rparr>) = foreign_view ws d"
    if "uns_workspace u = ws" for ws u n
    using that by (simp add: foreign_view_def table_simps)
  show ?thesis by (simp add: unsubscribe_tx_def Let_def row unsubscribed_event_def)
qed

lemma foreign_record_unsubscribe:
  "foreign_view (ut_workspace t) (snd (record_unsubscribe now t d)) = foreign_view (ut_workspace t) d"
  by (simp add: record_unsubscribe_def Let_def within_tx_def foreign_unsubscribe_tx
      split: prod.split option.split)
     (metis foreign_unsubscribe_tx snd_conv)

interpretation unsub: workspace_confined
  "\<lambda>ws (now, t) d. snd (record_unsubscribe now (t\<lparr>ut_workspace := ws\<rparr>) d)"
proof unfold_locales
  fix ws and a :: "time \<times> unsub_target" and d
  show "foreign_view ws ((\<lambda>(now, t) d. snd (record_unsubscribe now (t\<lparr>ut_workspace := ws\<rparr>) d)) a d) =
        foreign_view ws d"
    using foreign_record_unsubscribe [of "snd a\<lparr>ut_workspace := ws\<rparr>" "fst a" d]
    by (simp add: case_prod_beta)
qed

section \<open>Properties\<close>

lemma check_blocked:
  assumes "load_workspace ws d = Some w" and "normalize_destination x \<noteq> ''''"
    and "\<not> none_blocks (layers d ch \<lparr>ref_workspace = ws, ref_destination = Some (normalize_destination x)\<rparr> source)"
  shows "\<exists>reason. reason \<noteq> '''' \<and> check_eligible ws d ch x source = Inr \<lparr>dec_eligible = False, dec_reason = reason\<rparr>"
  using assms by (simp add: check_eligible_some Let_def flip: elig.readings_agree)

text \<open>C4: a recorded opt-out is honoured. Once the unsubscribe link of an existing Workspace
  reports success, no marketing message under the source it named reaches that destination,
  however the address is spelled; after an opt-out from everything, none from any source.\<close>

theorem unsubscribe_is_honoured:
  assumes "record_unsubscribe now t d = (None, d')" and "load_workspace (ut_workspace t) d = Some w"
    and "ut_workspace t \<noteq> 0" and "ut_source t \<noteq> ''''" and "normalize_destination (ut_destination t) \<noteq> ''''"
    and "normalize_destination x = normalize_destination (ut_destination t)"
    and "source \<noteq> ''''" and "ut_source t = source \<or> ut_source t = source_everything"
  shows "\<exists>reason. reason \<noteq> '''' \<and>
     check_eligible (ut_workspace t) d' ChEmail x source = Inr \<lparr>dec_eligible = False, dec_reason = reason\<rparr>"
proof (rule check_blocked)
  let ?dest = "normalize_destination (ut_destination t)"
  have tx: "unsubscribe_tx now t ?dest d = (None, d')" by (rule record_unsubscribe_None) (use assms in auto)
  have "workspaces d' = workspaces d" using unsubscribe_tx_workspaces [of now t ?dest d] tx by simp
  then show "load_workspace (ut_workspace t) d' = Some w" using assms(2) by (simp add: load_workspace_def)
  have "exists_where (unsubscribe_row (ut_workspace t) ?dest (ut_source t)) (unsubscribes d')"
    using unsubscribe_tx_row [of now t ?dest d] tx by simp
  then show "\<not> none_blocks (layers d' ChEmail
      \<lparr>ref_workspace = ut_workspace t, ref_destination = Some (normalize_destination x)\<rparr> source)"
    using assms(6-8) by (auto simp: layers_def none_blocks_def is_unsubscribed_iff)
qed (use assms in simp)

definition sample_target :: unsub_target where
  "sample_target = \<lparr>ut_source = ''broadcasts'', ut_destination = ''a@x.io'', ut_workspace = 1,
     ut_contact = 0, ut_broadcast = 0\<rparr>"

theorem unsubscribe_is_honoured_witness:
  "\<exists>d'. record_unsubscribe 0 sample_target (empty_db\<lparr>workspaces := [sample_workspace 1]\<rparr>) = (None, d') \<and>
     (\<exists>reason. check_eligible 1 d' ChEmail ''A@X.io '' ''broadcasts'' = Inr \<lparr>dec_eligible = False, dec_reason = reason\<rparr>)"
proof -
  let ?d = "empty_db\<lparr>workspaces := [sample_workspace 1]\<rparr>"
  have n: "normalize_destination ''a@x.io'' = ''a@x.io''" "normalize_destination ''A@X.io '' = ''a@x.io''"
    by code_simp+
  have w: "load_workspace 1 ?d = Some (sample_workspace 1)"
    by (simp add: load_workspace_def find_where_def sample_workspace_def)
  have "fst (record_unsubscribe 0 sample_target ?d) = None"
    using w by (simp add: record_unsubscribe_def sample_target_def n within_tx_def unsubscribe_tx_def
        Let_def exists_where_def settled_def)
  then obtain d' where r: "record_unsubscribe 0 sample_target ?d = (None, d')"
    by (metis prod.collapse)
  from unsubscribe_is_honoured [OF r, of "sample_workspace 1" "''A@X.io ''" "''broadcasts''"] r w
  show ?thesis by (auto simp: sample_target_def n)
qed

text \<open>An opt-out link is idempotent. Pressing it again after success changes nothing at all:
  no second row, no second count on the Broadcast, no second event.\<close>

theorem unsubscribe_idempotent:
  assumes "record_unsubscribe now t d = (None, d')" and "load_workspace (ut_workspace t) d = Some w"
  shows "record_unsubscribe later t d' = (None, d') \<and>
     (d' = d \<or> outbox d' = outbox d @ [make_envelope (next_id d + 1) now
        (unsubscribed_event t (normalize_destination (ut_destination t)))])"
proof (cases "normalize_destination (ut_destination t) = '''' \<or> ut_workspace t = 0 \<or> ut_source t = ''''")
  case True
  with assms show ?thesis by (auto simp: record_unsubscribe_def Let_def)
next
  case False
  let ?dest = "normalize_destination (ut_destination t)"
  have tx: "unsubscribe_tx now t ?dest d = (None, d')"
    by (rule record_unsubscribe_None) (use assms False in auto)
  have "exists_where (unsubscribe_row (ut_workspace t) ?dest (ut_source t)) (unsubscribes d')"
    using unsubscribe_tx_row [of now t ?dest d] tx by simp
  then have "unsubscribe_tx later t ?dest d' = (None, d')" by (simp add: unsubscribe_tx_def Let_def)
  then have again: "record_unsubscribe later t d' = (None, d')"
    using False by (simp add: record_unsubscribe_def Let_def within_tx_def settled_def)
  have ids: "next_id (leave_automation ws src cid x) = next_id x" "next_id (bump_unsubscribed ws b x) = next_id x"
    "next_id (drop_confirmation ws dst src x) = next_id x" for ws src cid b dst and x :: db
    by (simp_all add: leave_automation_def exit_automation_def bump_unsubscribed_def drop_confirmation_def
        split: option.split)
  have "d' = d \<or> outbox d' = outbox d @ [make_envelope (next_id d + 1) now (unsubscribed_event t ?dest)]"
    using tx by (simp add: unsubscribe_tx_def Let_def ids split: if_splits) (auto simp: ids)
  with again show ?thesis by blast
qed

theorem unsubscribe_idempotent_witness:
  "\<exists>d'. record_unsubscribe 0 sample_target (empty_db\<lparr>workspaces := [sample_workspace 1]\<rparr>) = (None, d') \<and>
     record_unsubscribe 5 sample_target d' = (None, d')"
proof -
  let ?d = "empty_db\<lparr>workspaces := [sample_workspace 1]\<rparr>"
  have n: "normalize_destination ''a@x.io'' = ''a@x.io''" by code_simp
  have w: "load_workspace 1 ?d = Some (sample_workspace 1)"
    by (simp add: load_workspace_def find_where_def sample_workspace_def)
  have "fst (record_unsubscribe 0 sample_target ?d) = None"
    using w by (simp add: record_unsubscribe_def sample_target_def n within_tx_def unsubscribe_tx_def
        Let_def exists_where_def settled_def)
  then obtain d' where r: "record_unsubscribe 0 sample_target ?d = (None, d')"
    by (metis prod.collapse)
  from unsubscribe_idempotent [OF r, of "sample_workspace 1" 5] r w
  show ?thesis by (auto simp: sample_target_def)
qed

text \<open>C34: an opt-out link whose Contact or Broadcast is gone records nothing. The scoped client
  refuses the Contact id of a deleted or erased Contact, and the counter update of a deleted
  Broadcast finds no row; either error rolls the opt-out back, on this and every later attempt,
  so the destination stays as eligible as it was.\<close>

theorem unsubscribe_lost:
  assumes "normalize_destination (ut_destination t) \<noteq> ''''" and "ut_workspace t \<noteq> 0" and "ut_source t \<noteq> ''''"
    and "load_workspace (ut_workspace t) d = Some w"
    and "\<not> exists_where (unsubscribe_row (ut_workspace t) (normalize_destination (ut_destination t)) (ut_source t)) (unsubscribes d)"
    and "(ut_contact t \<noteq> 0 \<and> \<not> verify_contact (ut_workspace t) (ut_contact t) d) \<or>
         (ut_broadcast t \<noteq> 0 \<and> \<not> has_broadcast (ut_workspace t) (ut_broadcast t) d)"
  shows "\<exists>e. record_unsubscribe now t d = (Some e, d) \<and> (e = ErrRefNotInWorkspace \<or> e = ErrBroadcastNotFound)"
proof -
  have b: "has_broadcast ws bid (drop_confirmation ws dest src (d\<lparr>unsubscribes := us, next_id := n\<rparr>)) = has_broadcast ws bid d"
    for ws bid dest src us n by (simp add: has_broadcast_def drop_confirmation_def)
  show ?thesis
    using assms by (auto simp: record_unsubscribe_def Let_def within_tx_def unsubscribe_tx_def b settled_def
        simp del: publish_tables)
qed

theorem unsubscribe_lost_witness:
  "record_unsubscribe 0 (sample_target\<lparr>ut_contact := 7\<rparr>) (empty_db\<lparr>workspaces := [sample_workspace 1]\<rparr>) =
     (Some ErrRefNotInWorkspace, empty_db\<lparr>workspaces := [sample_workspace 1]\<rparr>) \<and>
   check_eligible 1 (empty_db\<lparr>workspaces := [sample_workspace 1]\<rparr>) ChEmail ''a@x.io'' ''broadcasts'' =
     Inr \<lparr>dec_eligible = True, dec_reason = ''''\<rparr>"
proof -
  let ?d = "empty_db\<lparr>workspaces := [sample_workspace 1]\<rparr>"
  let ?t = "sample_target\<lparr>ut_contact := 7\<rparr>"
  have n: "normalize_destination ''a@x.io'' = ''a@x.io''" by code_simp
  have w: "load_workspace 1 ?d = Some (sample_workspace 1)"
    by (simp add: load_workspace_def find_where_def sample_workspace_def)
  have "\<exists>e. record_unsubscribe 0 ?t ?d = (Some e, ?d) \<and> (e = ErrRefNotInWorkspace \<or> e = ErrBroadcastNotFound)"
    by (rule unsubscribe_lost) (use w in \<open>simp_all add: sample_target_def n exists_where_def verify_contact_def\<close>)
  then have "record_unsubscribe 0 ?t ?d = (Some ErrRefNotInWorkspace, ?d)"
    by (auto simp: record_unsubscribe_def Let_def within_tx_def unsubscribe_tx_def settled_def sample_target_def
        n exists_where_def verify_contact_def)
  moreover have "check_eligible 1 ?d ChEmail ''a@x.io'' ''broadcasts'' = Inr \<lparr>dec_eligible = True, dec_reason = ''''\<rparr>"
    using w by (simp add: check_eligible_some n layers_def is_suppressed_def is_unsubscribed_def
        match_store_def exists_where_def require_confirmed_def sample_workspace_def Let_def)
  ultimately show ?thesis by blast
qed

text \<open>Confirmation and leaving entirely are opposites. After a recorded confirmation the
  address passes the confirmation gate; after a recorded opt-out from everything it no longer
  does, so coming back needs a new confirmation.\<close>

theorem confirmation_lifecycle:
  assumes "load_workspace (ct_workspace t) d = Some w" and "ct_workspace t \<noteq> 0"
    and "normalize_destination (ct_destination t) = dest" and "dest \<noteq> ''''"
    and "record_confirmation now t ip d = (e, d1)"
    and "u = \<lparr>ut_source = source_everything, ut_destination = ct_destination t, ut_workspace = ct_workspace t,
              ut_contact = 0, ut_broadcast = 0\<rparr>"
    and "\<not> is_unsubscribed d \<lparr>ref_workspace = ct_workspace t, ref_destination = Some dest\<rparr> ChEmail source_everything"
  shows "e = None \<and> is_confirmed d1 \<lparr>ref_workspace = ct_workspace t, ref_destination = Some dest\<rparr> ChEmail \<and>
     \<not> is_confirmed (snd (record_unsubscribe later u d1)) \<lparr>ref_workspace = ct_workspace t, ref_destination = Some dest\<rparr> ChEmail"
proof -
  let ?ws = "ct_workspace t"
  have tx: "confirmation_tx now t dest ip d = (None, d1)" and e: "e = None"
    using assms by (auto simp: record_confirmation_def Let_def within_tx_def confirmation_tx_def settled_def
        split: if_splits)
  have c: "exists_where (confirmation_row ?ws dest) (confirmations d1)"
    using tx assms(1) by (auto simp: confirmation_tx_def Let_def table_simps confirmation_row_def split: if_splits)
  have same: "workspaces d1 = workspaces d" "unsubscribes d1 = unsubscribes d"
    using tx by (auto simp: confirmation_tx_def Let_def split: if_splits)
  have "load_workspace ?ws d1 = Some w" using assms(1) same by (simp add: load_workspace_def)
  moreover have "\<not> exists_where (unsubscribe_row ?ws dest source_everything) (unsubscribes d1)"
    using assms(7) same by (simp add: is_unsubscribed_iff)
  moreover have "parse_automation_source source_everything = None" by code_simp
  moreover have "source_everything \<noteq> ''''" by (simp add: source_names)
  ultimately have "confirmations (snd (record_unsubscribe later u d1)) =
      delete_where (confirmation_row ?ws dest) (confirmations d1)"
    using assms by (simp add: record_unsubscribe_def Let_def within_tx_def unsubscribe_tx_def
        leave_automation_def drop_confirmation_def)
  then show ?thesis using e c by (auto simp: is_confirmed_iff table_simps)
qed

theorem confirmation_lifecycle_witness:
  "\<exists>d1. is_confirmed d1 \<lparr>ref_workspace = 1, ref_destination = Some ''a@x.io''\<rparr> ChEmail"
proof -
  let ?d = "empty_db\<lparr>workspaces := [sample_workspace 1]\<rparr>"
  let ?t = "\<lparr>ct_destination = ''A@x.io'', ct_workspace = 1, ct_contact = 0\<rparr>"
  have n: "normalize_destination ''A@x.io'' = ''a@x.io''" by code_simp
  have w: "load_workspace 1 ?d = Some (sample_workspace 1)"
    by (simp add: load_workspace_def find_where_def sample_workspace_def)
  obtain e d1 where r: "record_confirmation 0 ?t '''' ?d = (e, d1)" by (cases "record_confirmation 0 ?t '''' ?d")
  have "\<not> is_unsubscribed ?d \<lparr>ref_workspace = 1, ref_destination = Some ''a@x.io''\<rparr> ChEmail source_everything"
    by (simp add: is_unsubscribed_iff exists_where_def)
  with confirmation_lifecycle [of ?t ?d "sample_workspace 1" "''a@x.io''" 0 "''''" e d1] w n r
  show ?thesis by auto
qed

text \<open>Manual suppression is the hard floor. It is idempotent and keeps the row, with its
  reason, that is already there; after it no message on the email channel, transactional ones
  included, is eligible for the destination, and opt-outs and confirmations do not matter.\<close>

theorem suppress_is_floor:
  assumes "suppress ws destination d = (Inr row, d')" and "load_workspace ws d = Some w"
    and "normalize_destination x = normalize_destination destination"
  shows "suppress ws destination d' = (Inr row, d') \<and>
     sup_destination row = normalize_destination destination \<and>
     (exists_where (suppression_row ws (normalize_destination destination)) (suppressions d) \<longrightarrow> d' = d) \<and>
     check_eligible ws d' ChEmail x source = Inr \<lparr>dec_eligible = False, dec_reason = reason_suppressed\<rparr>"
proof -
  let ?dest = "normalize_destination destination"
  have ne: "?dest \<noteq> ''''" using assms(1) by (auto simp: suppress_def Let_def split: if_splits)
  have row: "only_row (suppression_row ws ?dest) (suppressions d') = Inr row"
    and new: "exists_where (suppression_row ws ?dest) (suppressions d) \<longrightarrow> d' = d"
    and ws: "workspaces d' = workspaces d"
    using assms(1) ne by (auto simp: suppress_def Let_def split: if_splits)
  then have f: "filter (suppression_row ws ?dest) (suppressions d') = [row]"
    by (auto simp: only_row_def split: list.splits)
  then have mem: "row \<in> set (suppressions d') \<and> suppression_row ws ?dest row"
    by (metis filter_eq_Cons_iff in_set_conv_decomp)
  then have ex: "exists_where (suppression_row ws ?dest) (suppressions d')" by (auto simp: table_simps)
  have sup: "is_suppressed d' \<lparr>ref_workspace = ws, ref_destination = Some ?dest\<rparr> ChEmail"
    using ex by (simp add: is_suppressed_iff)
  have "load_workspace ws d' = Some w" using assms(2) ws by (simp add: load_workspace_def)
  from check_eligible_some [OF _ this, of x ChEmail source]
  have "check_eligible ws d' ChEmail x source = Inr \<lparr>dec_eligible = False, dec_reason = reason_suppressed\<rparr>"
    using assms(3) ne sup by (simp add: layers_def Let_def reason_names)
  moreover have "suppress ws destination d' = (Inr row, d')"
    using ne ex row by (simp add: suppress_def Let_def)
  moreover have "sup_destination row = ?dest" using mem by (simp add: suppression_row_def in_ws_def)
  ultimately show ?thesis using new by simp
qed

theorem suppress_is_floor_witness:
  "\<exists>row d'. suppress 1 '' A@x.io'' (empty_db\<lparr>workspaces := [sample_workspace 1]\<rparr>) = (Inr row, d') \<and>
     check_eligible 1 d' ChEmail ''a@x.io'' '''' = Inr \<lparr>dec_eligible = False, dec_reason = reason_suppressed\<rparr>"
proof -
  let ?d = "empty_db\<lparr>workspaces := [sample_workspace 1]\<rparr>"
  have n: "normalize_destination '' A@x.io'' = ''a@x.io''" "normalize_destination ''a@x.io'' = ''a@x.io''"
    by code_simp+
  have w: "load_workspace 1 ?d = Some (sample_workspace 1)"
    by (simp add: load_workspace_def find_where_def sample_workspace_def)
  obtain row d' where r: "suppress 1 '' A@x.io'' ?d = (Inr row, d')"
    using w by (simp add: suppress_def n Let_def exists_where_def only_row_def
        suppression_row_def in_ws_def)
  from suppress_is_floor [OF r w, of "''a@x.io''" "''''"] r show ?thesis by (auto simp: n)
qed

text \<open>A change of consent stays in its Workspace. Whatever an unsubscribe link or a
  confirmation link does, and whether it fails, every row and published event of every other
  Workspace is left as it was.\<close>

theorem consent_confined:
  "foreign_view (ut_workspace t) (snd (record_unsubscribe now t d)) = foreign_view (ut_workspace t) d \<and>
   foreign_view (ct_workspace c) (snd (record_confirmation now c ip d)) = foreign_view (ct_workspace c) d"
proof -
  have row: "foreign_view ws (d\<lparr>confirmations := confirmations d @ [x], next_id := n\<rparr>) = foreign_view ws d"
    if "cnf_workspace x = ws" for ws x n
    using that by (simp add: foreign_view_def table_simps)
  have tx: "foreign_view (ct_workspace c) (snd (confirmation_tx now c dest ip d)) = foreign_view (ct_workspace c) d" for dest
    by (simp add: confirmation_tx_def Let_def row confirmed_event_def)
  have "foreign_view (ct_workspace c) (snd (record_confirmation now c ip d)) = foreign_view (ct_workspace c) d"
    by (simp add: record_confirmation_def Let_def within_tx_def split: prod.split option.split)
       (metis tx snd_conv)
  then show ?thesis by (simp add: foreign_record_unsubscribe)
qed

text \<open>The intake accepts a sending source that is not the Automation's own. The source
  \<open>automation:+5\<close> names Automation 5, so the opt-out is recorded and reported, but the row keeps
  that spelling; mail of Automation 5 goes out under \<open>automation:5\<close> and is still eligible.\<close>

theorem noncanonical_source_not_honoured:
  "\<exists>d row d'. unsubscribe_destination 0 1 ''a@x.io'' ''automation:+5'' d = (Inr row, d') \<and>
     parse_automation_source ''automation:+5'' = Some 5 \<and>
     check_eligible 1 d' ChEmail ''a@x.io'' (automation_source 5) = Inr \<lparr>dec_eligible = True, dec_reason = ''''\<rparr>"
proof -
  let ?d = "empty_db\<lparr>workspaces := [sample_workspace 1],
    automations := [\<lparr>au_id = 5, au_workspace = 1, au_name = ''Hi'', au_status = AutoActive,
      au_trigger = ''x'', au_definition = EmptyText\<rparr>]\<rparr>"
  have n: "normalize_destination ''a@x.io'' = ''a@x.io''" by code_simp
  have p: "parse_automation_source ''automation:+5'' = Some 5" "automation_source 5 = ''automation:5''"
    by code_simp+
  have w: "load_workspace 1 (?d\<lparr>unsubscribes := us, outbox := ox, next_id := n\<rparr>) = Some (sample_workspace 1)"
    for us n ox by (simp add: load_workspace_def find_where_def sample_workspace_def)
  have w0: "load_workspace 1 ?d = Some (sample_workspace 1)"
    by (simp add: load_workspace_def find_where_def sample_workspace_def)
  have v: "validate_source 1 ''automation:+5'' ?d = None"
    by (simp add: validate_source_def p source_names get_automation_def find_where_def in_ws_def)
  have c: "contact_of_destination 1 ''a@x.io'' ?d = None"
    by (simp add: contact_of_destination_def find_where_def)
  let ?u = "\<lparr>uns_id = 1, uns_workspace = 1, uns_channel = ChEmail, uns_destination = ''a@x.io'',
      uns_source = ''automation:+5'', uns_contact = None\<rparr>"
  let ?ox = "[make_envelope 2 0 (unsubscribed_event \<lparr>ut_source = ''automation:+5'', ut_destination = ''a@x.io'',
      ut_workspace = 1, ut_contact = 0, ut_broadcast = 0\<rparr> ''a@x.io'')]"
  have "unsubscribe_destination 0 1 ''a@x.io'' ''automation:+5'' ?d =
     (Inr ?u, ?d\<lparr>unsubscribes := [?u], outbox := ?ox, next_id := 3\<rparr>)"
    using w0 by (simp add: unsubscribe_destination_def n v c record_unsubscribe_def within_tx_def Let_def
        unsubscribe_tx_def exists_where_def settled_def drop_confirmation_def source_names
        leave_automation_def p only_row_def unsubscribe_row_def in_ws_def publish_def nonzero_def)
  moreover have "check_eligible 1 (?d\<lparr>unsubscribes := [?u], outbox := ox, next_id := 3\<rparr>) ChEmail ''a@x.io''
      (automation_source 5) = Inr \<lparr>dec_eligible = True, dec_reason = ''''\<rparr>" for ox
    using w [of 3 ox "[?u]"] by (simp add: check_eligible_some n p layers_def is_suppressed_def
        is_unsubscribed_def match_store_def exists_where_def require_confirmed_def sample_workspace_def
        Let_def source_names)
  ultimately show ?thesis using p(1) by blast
qed

end
