(* ===== verification/Tracking.thy ===== *)
theory Tracking
  imports Consent
begin

text \<open>
  \<open>internal/tracking\<close> and the public endpoints of \<open>internal/server/tracking.go\<close>: the signed
  recipient, unsubscribe and confirmation tokens, the links and the footer built from them, the
  rewriting of a Broadcast body, and the recording of opens, clicks and opt-outs.

  The JWT library is third-party. A token's payload is the record of all the claims the three
  claim structs know: a claim a struct does not have is absent from its JSON and reads as its
  zero value, which is what decides whether one kind of token can pass for another.
  \<open>jwt_sign\<close> and \<open>jwt_verify\<close> are parameters; expiry is checked here, as the library does: an
  expired token is refused whenever it carries \<open>exp\<close>, a missing one only where it is required.
  The HTML tokenizer is the parameter \<open>tokenize\<close>.
\<close>

section \<open>Tokens\<close>

record claims =
  cl_rid :: id
  cl_src :: string
  cl_dest :: string
  cl_ws :: id
  cl_cid :: id
  cl_bid :: id
  cl_exp :: "time option"

definition no_claims :: claims where
  "no_claims = \<lparr>cl_rid = 0, cl_src = '''', cl_dest = '''', cl_ws = 0, cl_cid = 0, cl_bid = 0, cl_exp = None\<rparr>"

record tracker =
  tk_base :: string
  jwt_sign :: "claims \<Rightarrow> string option"
  jwt_verify :: "string \<Rightarrow> claims option"

datatype token_error = InvalidToken | TokenExpired | MissingExp | MissingRid | MissingSrc | MissingDest | MissingWs

definition confirm_ttl :: duration where "confirm_ttl = 7 * 24 * hour"

text \<open>\<open>jwt.NewNumericDate\<close> keeps whole seconds.\<close>

definition numeric_date :: "time \<Rightarrow> time" where
  "numeric_date t = t div second * second"

definition trim_right_slashes :: "string \<Rightarrow> string" where
  "trim_right_slashes s = rev (dropWhile (\<lambda>c. c = CHR ''/'') (rev s))"

definition new_tracker :: "(claims \<Rightarrow> string option) \<Rightarrow> (string \<Rightarrow> claims option) \<Rightarrow> string \<Rightarrow> tracker" where
  "new_tracker sign verify base = \<lparr>tk_base = trim_right_slashes base, jwt_sign = sign, jwt_verify = verify\<rparr>"

definition parse_token :: "tracker \<Rightarrow> time \<Rightarrow> bool \<Rightarrow> string \<Rightarrow> token_error + claims" where
  "parse_token tk now require token =
     (case jwt_verify tk token of
        None \<Rightarrow> Inl InvalidToken
      | Some c \<Rightarrow>
         (case cl_exp c of
            None \<Rightarrow> if require then Inl MissingExp else Inr c
          | Some e \<Rightarrow> if now < e then Inr c else Inl TokenExpired))"

definition recipient_token :: "tracker \<Rightarrow> id \<Rightarrow> string option" where
  "recipient_token tk rid = jwt_sign tk (no_claims\<lparr>cl_rid := rid\<rparr>)"

definition decode_recipient :: "tracker \<Rightarrow> time \<Rightarrow> string \<Rightarrow> token_error + id" where
  "decode_recipient tk now token =
     (case parse_token tk now False token of
        Inl e \<Rightarrow> Inl e
      | Inr c \<Rightarrow> if cl_rid c = 0 then Inl MissingRid else Inr (cl_rid c))"

definition unsub_claims :: "unsub_target \<Rightarrow> claims" where
  "unsub_claims t = no_claims\<lparr>cl_src := ut_source t, cl_dest := ut_destination t, cl_ws := ut_workspace t,
     cl_cid := ut_contact t, cl_bid := ut_broadcast t\<rparr>"

definition unsub_token :: "tracker \<Rightarrow> unsub_target \<Rightarrow> string option" where
  "unsub_token tk t = jwt_sign tk (unsub_claims t)"

definition decode_unsub :: "tracker \<Rightarrow> time \<Rightarrow> string \<Rightarrow> token_error + unsub_target" where
  "decode_unsub tk now token =
     (case parse_token tk now False token of
        Inl e \<Rightarrow> Inl e
      | Inr c \<Rightarrow>
         if cl_src c = '''' then Inl MissingSrc
         else if cl_ws c = 0 then Inl MissingWs
         else Inr \<lparr>ut_source = cl_src c, ut_destination = cl_dest c, ut_workspace = cl_ws c,
                   ut_contact = cl_cid c, ut_broadcast = cl_bid c\<rparr>)"

definition confirm_claims :: "time \<Rightarrow> confirm_target \<Rightarrow> claims" where
  "confirm_claims now t = no_claims\<lparr>cl_dest := ct_destination t, cl_ws := ct_workspace t, cl_cid := ct_contact t,
     cl_exp := Some (numeric_date (now + confirm_ttl))\<rparr>"

definition confirm_token :: "tracker \<Rightarrow> time \<Rightarrow> confirm_target \<Rightarrow> string option" where
  "confirm_token tk now t = jwt_sign tk (confirm_claims now t)"

definition is_expired :: "token_error \<Rightarrow> bool" where
  "is_expired e \<longleftrightarrow> e = TokenExpired"

definition decode_confirm :: "tracker \<Rightarrow> time \<Rightarrow> string \<Rightarrow> token_error + confirm_target" where
  "decode_confirm tk now token =
     (case parse_token tk now True token of
        Inl e \<Rightarrow> Inl e
      | Inr c \<Rightarrow>
         if cl_dest c = '''' then Inl MissingDest
         else if cl_ws c = 0 then Inl MissingWs
         else Inr \<lparr>ct_destination = cl_dest c, ct_workspace = cl_ws c, ct_contact = cl_cid c\<rparr>)"

section \<open>Links and the footer\<close>

text \<open>\<open>url.QueryEscape\<close> on bytes.\<close>

definition hex_digit :: "nat \<Rightarrow> char" where
  "hex_digit n = char_of (if n < 10 then 48 + n else 55 + n)"

definition unreserved :: "char \<Rightarrow> bool" where
  "unreserved c = (let n = of_char c :: nat in
     (65 \<le> n \<and> n \<le> 90) \<or> (97 \<le> n \<and> n \<le> 122) \<or> (48 \<le> n \<and> n \<le> 57) \<or> n = 45 \<or> n = 95 \<or> n = 46 \<or> n = 126)"

definition escape_char :: "char \<Rightarrow> string" where
  "escape_char c =
     (if unreserved c then [c]
      else if c = CHR '' '' then ''+''
      else (let n = of_char c :: nat in [CHR ''%'', hex_digit (n div 16), hex_digit (n mod 16)]))"

definition query_escape :: "string \<Rightarrow> string" where
  "query_escape s = concat (map escape_char s)"

definition hex_value :: "char \<Rightarrow> nat option" where
  "hex_value c = (let n = of_char c :: nat in
     if 48 \<le> n \<and> n \<le> 57 then Some (n - 48)
     else if 65 \<le> n \<and> n \<le> 70 then Some (n - 55)
     else if 97 \<le> n \<and> n \<le> 102 then Some (n - 87) else None)"

text \<open>\<open>url.QueryUnescape\<close>, which reads the \<open>u\<close> parameter back.\<close>

fun query_unescape :: "string \<Rightarrow> string option" where
  "query_unescape [] = Some []"
| "query_unescape (c # cs) =
     (if c = CHR ''%'' then
        (case cs of
           h # l # rest \<Rightarrow>
             (case (hex_value h, hex_value l) of
                (Some a, Some b) \<Rightarrow> map_option (Cons (char_of (16 * a + b))) (query_unescape rest)
              | _ \<Rightarrow> None)
         | _ \<Rightarrow> None)
      else map_option (Cons (if c = CHR ''+'' then CHR '' '' else c)) (query_unescape cs))"

definition open_url :: "tracker \<Rightarrow> string \<Rightarrow> string" where
  "open_url tk token = tk_base tk @ ''/e/o/'' @ token"

definition click_url :: "tracker \<Rightarrow> string \<Rightarrow> string \<Rightarrow> string" where
  "click_url tk token dest = tk_base tk @ ''/e/c/'' @ token @ ''?u='' @ query_escape dest"

definition unsubscribe_url :: "tracker \<Rightarrow> unsub_target \<Rightarrow> string option" where
  "unsubscribe_url tk t = map_option (\<lambda>token. tk_base tk @ ''/e/u/'' @ token) (unsub_token tk t)"

definition confirm_url :: "tracker \<Rightarrow> time \<Rightarrow> confirm_target \<Rightarrow> string option" where
  "confirm_url tk now t = map_option (\<lambda>token. tk_base tk @ ''/e/confirm/'' @ token) (confirm_token tk now t)"

definition html_escape_char :: "char \<Rightarrow> string" where
  "html_escape_char c =
     (if c = CHR ''<'' then ''&lt;'' else if c = CHR ''>'' then ''&gt;''
      else if c = CHR ''&'' then ''&amp;'' else if c = CHR 0x27 then ''&#39;''
      else if c = CHR 0x22 then ''&#34;'' else [c])"

definition html_escape :: "string \<Rightarrow> string" where
  "html_escape s = concat (map html_escape_char s)"

definition line_breaks :: "string \<Rightarrow> string" where
  "line_breaks s = concat (map (\<lambda>c. if c = CHR 0x0A then ''<br>'' else [c]) s)"

definition unsubscribe_footer :: "tracker \<Rightarrow> unsub_target \<Rightarrow> string \<Rightarrow> string option" where
  "unsubscribe_footer tk t postal =
     map_option (\<lambda>url.
       (let addr = trim_space postal;
            address = (if addr \<noteq> '''' then ''<br>'' @ line_breaks (html_escape addr) else '''')
        in ''<p style='' @ [CHR 0x22] @ ''font-size:12px;color:#888888;margin-top:24px'' @ [CHR 0x22] @ ''>''
           @ ''If you no longer wish to receive these emails, <a href='' @ [CHR 0x22] @ url @ [CHR 0x22]
           @ ''>unsubscribe</a>.'' @ address @ ''</p>''))
     (unsubscribe_url tk t)"

section \<open>Rewriting a body\<close>

datatype token_kind = StartTag | OtherTag

record html_token =
  ht_kind :: token_kind
  ht_data :: string
  ht_attrs :: "(string \<times> string) list"

definition trackable :: "string \<Rightarrow> bool" where
  "trackable href \<longleftrightarrow> take 7 href = ''http://'' \<or> take 8 href = ''https://''"

definition rewrite_token :: "tracker \<Rightarrow> string \<Rightarrow> html_token \<Rightarrow> html_token" where
  "rewrite_token tk token t =
     (if ht_kind t = StartTag \<and> ht_data t = ''a''
      then t\<lparr>ht_attrs := map (\<lambda>(k, v). (k, if k = ''href'' \<and> trackable v then click_url tk token v else v)) (ht_attrs t)\<rparr>
      else t)"

text \<open>\<open>tokenize\<close> fails or yields the tokens up to the end of the input; \<open>render\<close> is
  \<open>Token.String\<close>.\<close>

definition rewrite_links ::
  "(string \<Rightarrow> html_token list option) \<Rightarrow> (html_token \<Rightarrow> string) \<Rightarrow> tracker \<Rightarrow> string \<Rightarrow> string \<Rightarrow> string option" where
  "rewrite_links tokenize render tk body token =
     map_option (\<lambda>ts. concat (map (\<lambda>t. render (rewrite_token tk token t)) ts)) (tokenize body)"

definition open_pixel :: "tracker \<Rightarrow> string \<Rightarrow> string" where
  "open_pixel tk token = ''<img src='' @ [CHR 0x22] @ open_url tk token @ [CHR 0x22]
     @ '' width='' @ [CHR 0x22] @ ''1'' @ [CHR 0x22] @ '' height='' @ [CHR 0x22] @ ''1'' @ [CHR 0x22]
     @ '' alt='' @ [CHR 0x22, CHR 0x22] @ '' style='' @ [CHR 0x22] @ ''display:none'' @ [CHR 0x22] @ ''>''"

definition rewrite ::
  "(string \<Rightarrow> html_token list option) \<Rightarrow> (html_token \<Rightarrow> string) \<Rightarrow> tracker \<Rightarrow> string \<Rightarrow> id \<Rightarrow> unsub_target \<Rightarrow> string \<Rightarrow> string option" where
  "rewrite tokenize render tk body rid unsub postal =
     (case recipient_token tk rid of
        None \<Rightarrow> None
      | Some token \<Rightarrow>
         (let rewritten = (case rewrite_links tokenize render tk body token of None \<Rightarrow> body | Some b \<Rightarrow> b) in
          case unsubscribe_footer tk unsub postal of
            None \<Rightarrow> None
          | Some footer \<Rightarrow> Some (rewritten @ open_pixel tk token @ footer)))"

section \<open>The public endpoints\<close>

definition row_by_id :: "('r \<Rightarrow> id) \<Rightarrow> id \<Rightarrow> 'r list \<Rightarrow> 'r option" where
  "row_by_id row_id i rows = find_where (\<lambda>r. row_id r = i) rows"

definition engagement :: "string \<Rightarrow> recipient \<Rightarrow> contact \<Rightarrow> string \<Rightarrow> domain_event" where
  "engagement action r c url = EmailEngagement
     \<lparr>eng_action = action, eng_workspace = rec_workspace r, eng_contact = (case rec_contact r of None \<Rightarrow> 0 | Some i \<Rightarrow> i),
      eng_email = (case con_email c of None \<Rightarrow> '''' | Some e \<Rightarrow> e), eng_broadcast = rec_broadcast r, eng_url = url,
      eng_dedup = '''', eng_surface = '''', eng_source = '''', eng_domain = '''', eng_automation = 0, eng_message = 0,
      eng_provider_message = ''''\<rparr>"

text \<open>The recipient and its Contact, both read outside the transaction.\<close>

definition tracked_recipient :: "id \<Rightarrow> db \<Rightarrow> (recipient \<times> contact) option" where
  "tracked_recipient rid d =
     (case row_by_id rec_id rid (recipients d) of
        None \<Rightarrow> None
      | Some r \<Rightarrow>
         (case row_by_id con_id (case rec_contact r of None \<Rightarrow> 0 | Some i \<Rightarrow> i) (contacts d) of
            None \<Rightarrow> None
          | Some c \<Rightarrow> Some (r, c)))"

definition not_opened :: "id \<Rightarrow> recipient \<Rightarrow> bool" where
  "not_opened rid r \<longleftrightarrow> rec_id r = rid \<and> rec_opened_at r = None"

definition not_clicked :: "id \<Rightarrow> recipient \<Rightarrow> bool" where
  "not_clicked rid r \<longleftrightarrow> rec_id r = rid \<and> rec_clicked_at r = None"

definition record_open :: "time \<Rightarrow> id \<Rightarrow> db \<Rightarrow> db" where
  "record_open now rid d =
     (case tracked_recipient rid d of
        None \<Rightarrow> d
      | Some (r, c) \<Rightarrow>
         if count_where (not_opened (rec_id r)) (recipients d) = 0 then d
         else if \<not> exists_where (\<lambda>b. bc_id b = rec_broadcast r) (broadcasts d) then d
         else publish now (engagement name_email_opened r c '''')
           (d\<lparr>recipients := update_where (not_opened (rec_id r)) (\<lambda>x. x\<lparr>rec_opened_at := Some now\<rparr>) (recipients d),
              broadcasts := update_where (\<lambda>b. bc_id b = rec_broadcast r)
                (\<lambda>b. b\<lparr>bc_opened_count := bc_opened_count b + 1\<rparr>) (broadcasts d)\<rparr>))"

definition record_click :: "time \<Rightarrow> id \<Rightarrow> string \<Rightarrow> db \<Rightarrow> db" where
  "record_click now rid dest d =
     (case tracked_recipient rid d of
        None \<Rightarrow> d
      | Some (r, c) \<Rightarrow>
         if count_where (not_clicked (rec_id r)) (recipients d) = 0 then d
         else if \<not> exists_where (\<lambda>b. bc_id b = rec_broadcast r) (broadcasts d) then d
         else publish now (engagement name_email_clicked r c dest)
           (d\<lparr>recipients := update_where (not_clicked (rec_id r)) (\<lambda>x. x\<lparr>rec_clicked_at := Some now\<rparr>) (recipients d),
              broadcasts := update_where (\<lambda>b. bc_id b = rec_broadcast r)
                (\<lambda>b. b\<lparr>bc_clicked_count := bc_clicked_count b + 1\<rparr>) (broadcasts d)\<rparr>))"

datatype response = Pixel | Found string | SeeOther string | NoContent | BadRequest | ServerError

text \<open>\<open>records\<close> is the answer of the per-address tracking guard.\<close>

definition get_open :: "tracker \<Rightarrow> time \<Rightarrow> bool \<Rightarrow> string \<Rightarrow> db \<Rightarrow> response \<times> db" where
  "get_open tk now records token d =
     (Pixel, case decode_recipient tk now token of
        Inr rid \<Rightarrow> if records then record_open now rid d else d
      | Inl _ \<Rightarrow> d)"

definition get_click :: "tracker \<Rightarrow> time \<Rightarrow> bool \<Rightarrow> string \<Rightarrow> string \<Rightarrow> db \<Rightarrow> response \<times> db" where
  "get_click tk now records token dest d =
     (if \<not> trackable dest then (BadRequest, d)
      else case decode_recipient tk now token of
             Inl _ \<Rightarrow> (BadRequest, d)
           | Inr rid \<Rightarrow> (Found dest, if records then record_click now rid dest d else d))"

definition confirm_redirect :: "tracker \<Rightarrow> string \<Rightarrow> unsub_target \<Rightarrow> string" where
  "confirm_redirect tk token t =
     (let base = ''/unsubscribe?token='' @ query_escape token in
      if ut_source t = source_everything then base
      else case unsubscribe_url tk (t\<lparr>ut_source := source_everything, ut_broadcast := 0\<rparr>) of
             None \<Rightarrow> base
           | Some u \<Rightarrow> base @ ''&all='' @ query_escape u)"

definition get_unsubscribe :: "tracker \<Rightarrow> time \<Rightarrow> string \<Rightarrow> db \<Rightarrow> response \<times> db" where
  "get_unsubscribe tk now token d =
     (case decode_unsub tk now token of
        Inl _ \<Rightarrow> (BadRequest, d)
      | Inr t \<Rightarrow> (SeeOther (confirm_redirect tk token t), d))"

definition post_unsubscribe :: "tracker \<Rightarrow> time \<Rightarrow> string \<Rightarrow> db \<Rightarrow> response \<times> db" where
  "post_unsubscribe tk now token d =
     (case decode_unsub tk now token of
        Inl _ \<Rightarrow> (BadRequest, d)
      | Inr t \<Rightarrow>
         (case record_unsubscribe now t d of
            (Some _, d') \<Rightarrow> (ServerError, d')
          | (None, d') \<Rightarrow> (NoContent, d')))"

definition get_confirm :: "tracker \<Rightarrow> time \<Rightarrow> string \<Rightarrow> db \<Rightarrow> response \<times> db" where
  "get_confirm tk now token d =
     (case decode_confirm tk now token of
        Inl _ \<Rightarrow> (SeeOther ''/confirm?expired=1'', d)
      | Inr _ \<Rightarrow> (SeeOther (''/confirm?token='' @ query_escape token), d))"

section \<open>Properties\<close>

lemma query_unescape_plain: "c \<noteq> CHR ''%'' \<Longrightarrow> c \<noteq> CHR ''+'' \<Longrightarrow>
    query_unescape (c # cs) = map_option (Cons c) (query_unescape cs)"
  by simp

lemma hex_value_hex_digit: "n < 16 \<Longrightarrow> hex_value (hex_digit n) = Some n"
  by (auto simp: hex_value_def hex_digit_def Let_def)

lemma unescape_escape_char: "query_unescape (escape_char c @ s) = map_option (Cons c) (query_unescape s)"
proof -
  have n: "(of_char c :: nat) < 256" by simp
  have "16 * ((of_char c :: nat) div 16) + of_char c mod 16 = of_char c" by simp
  moreover have "(of_char c :: nat) div 16 < 16" using n by (simp add: less_mult_imp_div_less)
  moreover have "c \<noteq> CHR ''%''" "c \<noteq> CHR ''+''" if "unreserved c" using that by (auto simp: unreserved_def)
  ultimately show ?thesis
    by (auto simp: escape_char_def Let_def hex_value_hex_digit)
qed

text \<open>A wrapped link leads where the author's link led. The destination the click endpoint
  reads back from a click URL is the original link, byte for byte, whatever it contains.\<close>

theorem click_url_roundtrip:
  "query_unescape (query_escape dest) = Some dest \<and>
   click_url tk token dest = tk_base tk @ ''/e/c/'' @ token @ ''?u='' @ query_escape dest"
proof -
  have "query_unescape (query_escape dest @ []) = Some dest"
    by (induction dest) (simp_all add: query_escape_def unescape_escape_char)
  then show ?thesis by (simp add: click_url_def)
qed

text \<open>C33: the tokens mean what they were minted for. With a library that verifies what it signed
  and nothing is altered, an unsubscribe token decodes to its target at any later time, a
  confirmation token until it expires and not from then on, and no kind of token is accepted
  as another: an unsubscribe or open link cannot confirm, a confirmation link cannot opt out.\<close>

theorem token_kinds:
  assumes "\<And>c token. jwt_sign tk c = Some token \<Longrightarrow> jwt_verify tk token = Some c"
  shows "(unsub_token tk t = Some a \<and> ut_source t \<noteq> '''' \<and> ut_workspace t \<noteq> 0 \<longrightarrow>
            decode_unsub tk now a = Inr t \<and> decode_confirm tk now a = Inl MissingExp \<and>
            decode_recipient tk now a = Inl MissingRid) \<and>
         (recipient_token tk rid = Some b \<and> rid \<noteq> 0 \<longrightarrow>
            decode_recipient tk now b = Inr rid \<and> decode_unsub tk now b = Inl MissingSrc \<and>
            decode_confirm tk now b = Inl MissingExp) \<and>
         (confirm_token tk minted ct = Some e \<and> ct_destination ct \<noteq> '''' \<and> ct_workspace ct \<noteq> 0 \<longrightarrow>
            decode_confirm tk now e = (if now < numeric_date (minted + confirm_ttl) then Inr ct else Inl TokenExpired) \<and>
            (\<forall>u. decode_unsub tk now e \<noteq> Inr u) \<and> (\<forall>r. decode_recipient tk now e \<noteq> Inr r))"
  using assms
  by (auto simp: unsub_token_def unsub_claims_def recipient_token_def confirm_token_def confirm_claims_def
      decode_unsub_def decode_confirm_def decode_recipient_def parse_token_def no_claims_def)

theorem token_kinds_witness:
  "\<exists>tk a. unsub_token tk sample_target = Some a \<and> decode_unsub tk 0 a = Inr sample_target"
proof -
  let ?c = "unsub_claims sample_target"
  let ?tk = "\<lparr>tk_base = '''', jwt_sign = (\<lambda>c. if c = ?c then Some ''t'' else None), jwt_verify = (\<lambda>_. Some ?c)\<rparr>"
  have "\<And>c token. jwt_sign ?tk c = Some token \<Longrightarrow> jwt_verify ?tk token = Some c"
    by (simp split: if_splits)
  from token_kinds [OF this, of sample_target "''t''" 0]
  have "unsub_token ?tk sample_target = Some ''t'' \<and> ut_source sample_target \<noteq> '''' \<and> ut_workspace sample_target \<noteq> 0 \<longrightarrow>
      decode_unsub ?tk 0 ''t'' = Inr sample_target" by blast
  moreover have "unsub_token ?tk sample_target = Some ''t''" by (simp add: unsub_token_def)
  moreover have "ut_source sample_target \<noteq> ''''" "ut_workspace sample_target \<noteq> 0"
    by (simp_all add: sample_target_def)
  ultimately show ?thesis by blast
qed

lemma tracked_recipient_id: "tracked_recipient rid d = Some (r, c) \<Longrightarrow> rec_id r = rid"
  by (auto simp: tracked_recipient_def row_by_id_def dest: find_where_SomeD split: option.splits)

lemma count_update_where_none:
  assumes "\<And>r. \<not> p (f r)"
  shows "count_where p (update_where p f rows) = 0"
  unfolding count_where_0_iff set_update_where using assms by auto

lemma count_not_opened_after: "count_where (not_opened rid) (update_where (not_opened rid) (\<lambda>x. x\<lparr>rec_opened_at := Some now\<rparr>) rows) = 0"
  by (rule count_update_where_none) (simp add: not_opened_def)

lemma count_not_clicked_after: "count_where (not_clicked rid) (update_where (not_clicked rid) (\<lambda>x. x\<lparr>rec_clicked_at := Some now\<rparr>) rows) = 0"
  by (rule count_update_where_none) (simp add: not_clicked_def)

lemma record_open_None: "count_where (not_opened rid) (recipients d) = 0 \<Longrightarrow> record_open now rid d = d"
proof (cases "tracked_recipient rid d")
  case (Some rc)
  assume z: "count_where (not_opened rid) (recipients d) = 0"
  obtain r c where rc: "rc = (r, c)" by (cases rc)
  have "rec_id r = rid" using tracked_recipient_id Some rc by simp
  then show ?thesis by (simp only: record_open_def Some rc option.case prod.case z if_True simp_thms)
qed (simp add: record_open_def)

lemma record_click_None: "count_where (not_clicked rid) (recipients d) = 0 \<Longrightarrow> record_click now rid dest d = d"
proof (cases "tracked_recipient rid d")
  case (Some rc)
  assume z: "count_where (not_clicked rid) (recipients d) = 0"
  obtain r c where rc: "rc = (r, c)" by (cases rc)
  have "rec_id r = rid" using tracked_recipient_id Some rc by simp
  then show ?thesis by (simp only: record_click_def Some rc option.case prod.case z if_True simp_thms)
qed (simp add: record_click_def)

lemma record_open_fresh:
  "tracked_recipient rid d = Some (r, c) \<Longrightarrow> count_where (not_opened rid) (recipients d) \<noteq> 0 \<Longrightarrow>
   exists_where (\<lambda>b. bc_id b = rec_broadcast r) (broadcasts d) \<Longrightarrow>
   record_open now rid d = publish now (engagement name_email_opened r c '''')
     (d\<lparr>recipients := update_where (not_opened rid) (\<lambda>x. x\<lparr>rec_opened_at := Some now\<rparr>) (recipients d),
        broadcasts := update_where (\<lambda>b. bc_id b = rec_broadcast r)
          (\<lambda>b. b\<lparr>bc_opened_count := bc_opened_count b + 1\<rparr>) (broadcasts d)\<rparr>)"
  using tracked_recipient_id [of rid d r c] by (simp add: record_open_def)

lemma record_open_stale:
  "\<not> (\<exists>r c. tracked_recipient rid d = Some (r, c) \<and> count_where (not_opened rid) (recipients d) \<noteq> 0 \<and>
       exists_where (\<lambda>b. bc_id b = rec_broadcast r) (broadcasts d)) \<Longrightarrow> record_open now rid d = d"
  using tracked_recipient_id [of rid d] by (force simp: record_open_def split: option.split)

lemma record_click_fresh:
  "tracked_recipient rid d = Some (r, c) \<Longrightarrow> count_where (not_clicked rid) (recipients d) \<noteq> 0 \<Longrightarrow>
   exists_where (\<lambda>b. bc_id b = rec_broadcast r) (broadcasts d) \<Longrightarrow>
   record_click now rid dest d = publish now (engagement name_email_clicked r c dest)
     (d\<lparr>recipients := update_where (not_clicked rid) (\<lambda>x. x\<lparr>rec_clicked_at := Some now\<rparr>) (recipients d),
        broadcasts := update_where (\<lambda>b. bc_id b = rec_broadcast r)
          (\<lambda>b. b\<lparr>bc_clicked_count := bc_clicked_count b + 1\<rparr>) (broadcasts d)\<rparr>)"
  using tracked_recipient_id [of rid d r c] by (simp add: record_click_def)

lemma record_click_stale:
  "\<not> (\<exists>r c. tracked_recipient rid d = Some (r, c) \<and> count_where (not_clicked rid) (recipients d) \<noteq> 0 \<and>
       exists_where (\<lambda>b. bc_id b = rec_broadcast r) (broadcasts d)) \<Longrightarrow> record_click now rid dest d = d"
  using tracked_recipient_id [of rid d] by (force simp: record_click_def split: option.split)

text \<open>An engagement is counted once per recipient. A repeated open or click, from an image
  proxy or a second press, changes nothing after the first one that counted, and the one that
  counts publishes exactly one event.\<close>

theorem engagement_counted_once:
  "record_open later rid (record_open now rid d) = record_open now rid d \<and>
   record_click later rid dest' (record_click now rid dest d) = record_click now rid dest d \<and>
   length (outbox (record_open now rid d)) \<le> length (outbox d) + 1 \<and>
   length (outbox (record_click now rid dest d)) \<le> length (outbox d) + 1"
proof (intro conjI)
  let ?o = "\<lambda>r c. tracked_recipient rid d = Some (r, c) \<and> count_where (not_opened rid) (recipients d) \<noteq> 0 \<and>
       exists_where (\<lambda>b. bc_id b = rec_broadcast r) (broadcasts d)"
  let ?k = "\<lambda>r c. tracked_recipient rid d = Some (r, c) \<and> count_where (not_clicked rid) (recipients d) \<noteq> 0 \<and>
       exists_where (\<lambda>b. bc_id b = rec_broadcast r) (broadcasts d)"
  show "record_open later rid (record_open now rid d) = record_open now rid d"
  proof (cases "\<exists>r c. ?o r c")
    case True
    then obtain r c where rc: "?o r c" by blast
    then have "recipients (record_open now rid d) =
        update_where (not_opened rid) (\<lambda>x. x\<lparr>rec_opened_at := Some now\<rparr>) (recipients d)"
      using record_open_fresh [of rid d r c now] by simp
    then show ?thesis by (intro record_open_None) (simp only: count_not_opened_after)
  next
    case False
    then show ?thesis using record_open_stale [OF False] by simp
  qed
  show "record_click later rid dest' (record_click now rid dest d) = record_click now rid dest d"
  proof (cases "\<exists>r c. ?k r c")
    case True
    then obtain r c where rc: "?k r c" by blast
    then have "recipients (record_click now rid dest d) =
        update_where (not_clicked rid) (\<lambda>x. x\<lparr>rec_clicked_at := Some now\<rparr>) (recipients d)"
      using record_click_fresh [of rid d r c now dest] by simp
    then show ?thesis by (intro record_click_None) (simp only: count_not_clicked_after)
  next
    case False
    then show ?thesis using record_click_stale [OF False] by simp
  qed
  show "length (outbox (record_open now rid d)) \<le> length (outbox d) + 1"
  proof (cases "\<exists>r c. ?o r c")
    case True
    then obtain r c where "?o r c" by blast
    then show ?thesis using record_open_fresh [of rid d r c now] by simp
  qed (use record_open_stale in simp)
  show "length (outbox (record_click now rid dest d)) \<le> length (outbox d) + 1"
  proof (cases "\<exists>r c. ?k r c")
    case True
    then obtain r c where "?k r c" by blast
    then show ?thesis using record_click_fresh [of rid d r c now dest] by simp
  qed (use record_click_stale in simp)
qed

end
