(* ===== verification/Outbound.thy ===== *)
theory Outbound
  imports SendLimit Messaging Tracking
begin

text \<open>
  \<open>internal/outbound\<close>: the one place an email leaves on a Workspace's behalf. \<open>send\<close> is
  \<open>Module.Send\<close>, made of its stages: \<open>find_message\<close>, \<open>gate\<close>, \<open>claim\<close> with
  \<open>take_over\<close>, the eligibility check, \<open>compose\<close>, \<open>reserve\<close>, the provider call and
  \<open>record_sent\<close>. The world is the database and the wire, the messages a provider accepted,
  which nothing can take back.

  Parameters (\<open>outbound_env\<close>) stand for what is not in the repository or only plugged in: the
  Liquid and MJML rendering, the construction of a provider's sender from an Integration's
  encrypted configuration, the reply of the provider, the extra freezers, the existence of a
  Template. One call of \<open>send\<close> reads the clock once; database calls do not fail here (a failing
  one ends the attempt, which the interleaved model of \<open>OutboundClaims\<close> covers).
\<close>

section \<open>Requests, results and the environment\<close>

record email_content =
  ec_subject :: string
  ec_html :: string
  ec_text :: string

record sender =
  snd_default_from :: "(string \<times> string) option"
  snd_send :: "email_message \<Rightarrow> provider_reply"

record outbound_env =
  oe_tracker :: "tracker option"
  oe_tokenize :: "string \<Rightarrow> html_token list option"
  oe_render_token :: "html_token \<Rightarrow> string"
  oe_render :: "string \<Rightarrow> string \<Rightarrow> properties \<Rightarrow> string + email_content"
  oe_sender :: "integration \<Rightarrow> resolve_error + sender"
  oe_freezers :: "(workspace \<Rightarrow> string option) list"
  oe_lease :: duration
  oe_template :: "id \<Rightarrow> id \<Rightarrow> bool"

record world =
  wd_db :: db
  wd_wire :: "email_message list"

datatype outcome = Sent | Skipped | Failed | Held | Deferral

record result =
  res_outcome :: outcome
  res_reason :: string
  res_message :: id
  res_wait :: duration
  res_replayed :: bool

definition outcome_result :: "outcome \<Rightarrow> string \<Rightarrow> id \<Rightarrow> result" where
  "outcome_result oc reason mid =
     \<lparr>res_outcome = oc, res_reason = reason, res_message = mid, res_wait = 0, res_replayed = False\<rparr>"

datatype outbound_error =
  KeyRequired | DestinationRequired | NoTracker | InProgress | LoadWorkspaceFailed | FreezeFailed
  | ResolveFailed resolve_error | RefNotInWorkspace | CheckFailed eligibility_error
  | ReserveFailed limit_error | SendFailed

definition hold_suspended :: string where "hold_suspended = ''workspace_suspended''"
definition hold_no_integration :: string where "hold_no_integration = ''no_integration''"
definition hold_unverified :: string where "hold_unverified = ''unverified_domain''"
definition skip_contact_erased :: string where "skip_contact_erased = ''contact_erased''"
definition deferral_backoff_short :: duration where "deferral_backoff_short = 30 * second"
definition quota_backoff :: duration where "quota_backoff = hour"

lemmas hold_names = hold_suspended_def hold_no_integration_def hold_unverified_def

definition hold_detail :: "string \<Rightarrow> string" where
  "hold_detail reason =
     (if reason = hold_suspended then ''sending is suspended for this workspace''
      else if reason = hold_no_integration then ''no default email provider configured''
      else if reason = hold_unverified then ''sender domain is not a verified sending domain''
      else ''sending is currently on hold for this workspace: '' @ reason)"

fun deferral_backoff :: "provider_reply \<Rightarrow> duration" where
  "deferral_backoff RefusedQuota = quota_backoff"
| "deferral_backoff RefusedBusy = deferral_backoff_short"
| "deferral_backoff _ = 0"

record surface_ref =
  rf_broadcast :: id
  rf_recipient :: id
  rf_automation :: id
  rf_run :: id
  rf_step :: "int option"
  rf_template :: id

record request =
  rq_kind :: message_kind
  rq_key :: string
  rq_destination :: string
  rq_contact :: "contact option"
  rq_contact_id :: id
  rq_source :: string
  rq_subject :: string
  rq_body :: string
  rq_variables :: properties
  rq_from_email :: string
  rq_from_name :: string
  rq_track :: id
  rq_ref :: surface_ref

definition validate_request :: "request \<Rightarrow> outbound_error option" where
  "validate_request r =
     (if rq_key r = '''' then Some KeyRequired
      else if normalize_destination (rq_destination r) = '''' then Some DestinationRequired
      else None)"

section \<open>The gate\<close>

record gate_open =
  g_integration :: "integration option"
  g_sender :: sender
  g_from :: string
  g_from_name :: string
  g_domain :: string

datatype gate_result = GateHold string | GateOpen gate_open

fun freeze_check :: "(workspace \<Rightarrow> string option) list \<Rightarrow> workspace \<Rightarrow> outbound_error + string" where
  "freeze_check [] w = Inr ''''"
| "freeze_check (f # fs) w =
     (case f w of
        None \<Rightarrow> Inl FreezeFailed
      | Some reason \<Rightarrow> if reason \<noteq> '''' then Inr reason else freeze_check fs w)"

definition email_sender :: "outbound_env \<Rightarrow> id \<Rightarrow> db \<Rightarrow> resolve_error + sender" where
  "email_sender env ws d =
     (case default_integration ws d of Inl e \<Rightarrow> Inl e | Inr i \<Rightarrow> oe_sender env i)"

definition gate :: "outbound_env \<Rightarrow> id \<Rightarrow> workspace \<Rightarrow> string \<Rightarrow> string \<Rightarrow> db \<Rightarrow> outbound_error + gate_result" where
  "gate env ws w from_email from_name d =
     (if ws_suspended_at w \<noteq> None then Inr (GateHold hold_suspended)
      else case freeze_check (oe_freezers env) w of
             Inl e \<Rightarrow> Inl e
           | Inr reason \<Rightarrow>
              if reason \<noteq> '''' then Inr (GateHold reason)
              else (case email_sender env ws d of
                      Inl NoProvider \<Rightarrow> Inr (GateHold hold_no_integration)
                    | Inl e \<Rightarrow> Inl (ResolveFailed e)
                    | Inr s \<Rightarrow>
                       (let from = (case snd_default_from s of None \<Rightarrow> from_email | Some (df, _) \<Rightarrow> first_non_empty [from_email, df]);
                            name = (case snd_default_from s of None \<Rightarrow> from_name | Some (_, dn) \<Rightarrow> first_non_empty [from_name, dn])
                        in if \<not> has_verified_domain ws from d then Inr (GateHold hold_unverified)
                           else (case default_integration ws d of
                                   Inl NoProvider \<Rightarrow> Inr (GateOpen \<lparr>g_integration = None, g_sender = s, g_from = from,
                                      g_from_name = name, g_domain = domain_of from\<rparr>)
                                 | Inl e \<Rightarrow> Inl (ResolveFailed e)
                                 | Inr i \<Rightarrow> Inr (GateOpen \<lparr>g_integration = Some i, g_sender = s, g_from = from,
                                      g_from_name = name, g_domain = domain_of from\<rparr>)))))"

definition preflight :: "outbound_env \<Rightarrow> id \<Rightarrow> string \<Rightarrow> db \<Rightarrow> outbound_error + string" where
  "preflight env ws from_email d =
     (case load_workspace ws d of
        None \<Rightarrow> Inl LoadWorkspaceFailed
      | Some w \<Rightarrow>
         (case gate env ws w from_email '''' d of
            Inl e \<Rightarrow> Inl e
          | Inr (GateHold h) \<Rightarrow> Inr h
          | Inr (GateOpen _) \<Rightarrow> Inr ''''))"

section \<open>The claim\<close>

definition key_row :: "id \<Rightarrow> string \<Rightarrow> outbound_message \<Rightarrow> bool" where
  "key_row ws key = in_ws msg_workspace ws (\<lambda>m. msg_key m = key)"

definition find_message :: "id \<Rightarrow> string \<Rightarrow> db \<Rightarrow> outbound_message option" where
  "find_message ws key d = find_where (key_row ws key) (messages d)"

definition holds_claim :: "id \<Rightarrow> outbound_message \<Rightarrow> outbound_message \<Rightarrow> bool" where
  "holds_claim ws m = in_ws msg_workspace ws
     (\<lambda>x. msg_id x = msg_id m \<and> msg_status x = MsgPending \<and> msg_claimed_at x = msg_claimed_at m)"

definition claim_time :: "time \<Rightarrow> time" where
  "claim_time now = truncate_micro now"

definition take_over :: "outbound_env \<Rightarrow> time \<Rightarrow> id \<Rightarrow> outbound_message \<Rightarrow> db \<Rightarrow> (outbound_error + outbound_message) \<times> db" where
  "take_over env now ws existing d =
     (if now - msg_claimed_at existing < oe_lease env then (Inl InProgress, d)
      else
        (let n = count_where (holds_claim ws existing) (messages d);
             d' = d\<lparr>messages := update_where (holds_claim ws existing)
                     (\<lambda>m. m\<lparr>msg_claimed_at := claim_time now\<rparr>) (messages d)\<rparr>
         in if n = 0 then (Inl InProgress, d')
            else (case find_where (in_ws msg_workspace ws (\<lambda>m. msg_id m = msg_id existing)) (messages d') of
                    None \<Rightarrow> (Inl InProgress, d')
                  | Some m \<Rightarrow> (Inr m, d'))))"

definition replay_result :: "outbound_message \<Rightarrow> result" where
  "replay_result m =
     \<lparr>res_outcome = (if msg_status m = MsgSent then Sent else if msg_status m = MsgSkipped then Skipped else Failed),
      res_reason = (case msg_reason m of None \<Rightarrow> '''' | Some r \<Rightarrow> r), res_message = msg_id m, res_wait = 0,
      res_replayed = True\<rparr>"

definition request_contact :: "request \<Rightarrow> id" where
  "request_contact req = (case rq_contact req of None \<Rightarrow> rq_contact_id req | Some c \<Rightarrow> con_id c)"

definition claim_row :: "time \<Rightarrow> id \<Rightarrow> request \<Rightarrow> string \<Rightarrow> string \<Rightarrow> id \<Rightarrow> outbound_message" where
  "claim_row now ws req dest sending_dom mid =
     \<lparr>msg_id = mid, msg_workspace = ws, msg_kind = rq_kind req, msg_key = rq_key req, msg_channel = ChEmail,
      msg_destination = dest, msg_contact = nonzero (request_contact req),
      msg_source = (if rq_source req = '''' then None else Some (rq_source req)),
      msg_domain = (if sending_dom = '''' then None else Some sending_dom),
      msg_provider_id = None, msg_status = MsgPending, msg_reason = None, msg_claimed_at = claim_time now,
      msg_sent_at = None, msg_broadcast = nonzero (rf_broadcast (rq_ref req)),
      msg_recipient = nonzero (rf_recipient (rq_ref req)), msg_automation = nonzero (rf_automation (rq_ref req)),
      msg_run = nonzero (rf_run (rq_ref req)), msg_step = rf_step (rq_ref req), msg_integration = None,
      msg_template = nonzero (rf_template (rq_ref req))\<rparr>"

text \<open>Every reference of the row is verified to be of the Workspace before it is saved.\<close>

definition refs_ok :: "outbound_env \<Rightarrow> id \<Rightarrow> outbound_message \<Rightarrow> db \<Rightarrow> bool" where
  "refs_ok env ws m d \<longleftrightarrow>
     (case msg_contact m of None \<Rightarrow> True | Some i \<Rightarrow> verify_contact ws i d) \<and>
     (case msg_broadcast m of None \<Rightarrow> True | Some i \<Rightarrow> has_broadcast ws i d) \<and>
     (case msg_recipient m of None \<Rightarrow> True | Some i \<Rightarrow> exists_where (in_ws rec_workspace ws (\<lambda>r. rec_id r = i)) (recipients d)) \<and>
     (case msg_automation m of None \<Rightarrow> True | Some i \<Rightarrow> get_automation ws i d \<noteq> None) \<and>
     (case msg_run m of None \<Rightarrow> True | Some i \<Rightarrow> exists_where (in_ws run_workspace ws (\<lambda>r. run_id r = i)) (runs d)) \<and>
     (case msg_template m of None \<Rightarrow> True | Some i \<Rightarrow> oe_template env ws i)"

text \<open>The insert of \<open>claim\<close> loses to a row of the same key that appeared after the replay check;
  the row is then found again and treated like an existing one. \<open>Inr (Inr res)\<close> is a replay.\<close>

definition claim ::
  "outbound_env \<Rightarrow> time \<Rightarrow> id \<Rightarrow> request \<Rightarrow> string \<Rightarrow> gate_open \<Rightarrow> outbound_message option \<Rightarrow> db
     \<Rightarrow> (outbound_error + (outbound_message + result)) \<times> db" where
  "claim env now ws req dest g existing d =
     (case existing of
        Some m \<Rightarrow>
          (case take_over env now ws m d of (Inl e, d') \<Rightarrow> (Inl e, d') | (Inr m', d') \<Rightarrow> (Inr (Inl m'), d'))
      | None \<Rightarrow>
          (let row = claim_row now ws req dest (g_domain g) (next_id d) in
           if \<not> refs_ok env ws row d then (Inl RefNotInWorkspace, d)
           else case find_message ws (rq_key req) d of
                  None \<Rightarrow> (Inr (Inl row), d\<lparr>messages := messages d @ [row], next_id := next_id d + 1\<rparr>)
                | Some other \<Rightarrow>
                   if msg_status other \<noteq> MsgPending then (Inr (Inr (replay_result other)), d)
                   else (case take_over env now ws other d of
                           (Inl e, d') \<Rightarrow> (Inl e, d')
                         | (Inr m', d') \<Rightarrow> (Inr (Inl m'), d'))))"

definition release :: "id \<Rightarrow> outbound_message \<Rightarrow> db \<Rightarrow> db" where
  "release ws m d = d\<lparr>messages := update_where (holds_claim ws m) (\<lambda>x. x\<lparr>msg_claimed_at := 0\<rparr>) (messages d)\<rparr>"

definition drop_claim :: "id \<Rightarrow> outbound_message \<Rightarrow> db \<Rightarrow> db" where
  "drop_claim ws m d = d\<lparr>messages := delete_where (holds_claim ws m) (messages d)\<rparr>"

definition finish ::
  "id \<Rightarrow> outbound_message \<Rightarrow> message_status \<Rightarrow> outcome \<Rightarrow> string \<Rightarrow> db \<Rightarrow> (outbound_error + result) \<times> db" where
  "finish ws m st oc reason d =
     (let n = count_where (holds_claim ws m) (messages d);
          d' = d\<lparr>messages := update_where (holds_claim ws m)
                  (\<lambda>x. x\<lparr>msg_status := st, msg_reason := Some reason\<rparr>) (messages d)\<rparr>
      in if n = 0 then (Inl InProgress, d') else (Inr (outcome_result oc reason (msg_id m)), d'))"

definition mark_failed :: "outbound_env \<Rightarrow> time \<Rightarrow> id \<Rightarrow> string \<Rightarrow> string \<Rightarrow> db \<Rightarrow> db" where
  "mark_failed env now ws key cause d =
     d\<lparr>messages := update_where
         (in_ws msg_workspace ws (\<lambda>m. msg_key m = key \<and> msg_status m = MsgPending \<and>
            msg_claimed_at m < truncate_micro (now - oe_lease env)))
         (\<lambda>m. m\<lparr>msg_status := MsgFailed, msg_reason := Some cause\<rparr>) (messages d)\<rparr>"

section \<open>The message\<close>

definition bindings :: "contact option \<Rightarrow> properties \<Rightarrow> properties" where
  "bindings c vars =
     (case c of
        None \<Rightarrow> Map.empty
      | Some c \<Rightarrow> con_fields c ++
          [''email'' \<mapsto> JStr (case con_email c of None \<Rightarrow> '''' | Some e \<Rightarrow> e),
           ''first_name'' \<mapsto> JStr (case con_first_name c of None \<Rightarrow> '''' | Some e \<Rightarrow> e),
           ''last_name'' \<mapsto> JStr (case con_last_name c of None \<Rightarrow> '''' | Some e \<Rightarrow> e)]) ++ vars"

definition request_target :: "request \<Rightarrow> string \<Rightarrow> id \<Rightarrow> unsub_target" where
  "request_target req dest ws = \<lparr>ut_source = rq_source req, ut_destination = dest, ut_workspace = ws,
     ut_contact = request_contact req, ut_broadcast = rf_broadcast (rq_ref req)\<rparr>"

text \<open>\<open>compose\<close>: \<open>Inl\<close> is the error text recorded as the cause of a Failed. A Module without
  a Tracker never composes a marketing message: \<open>send\<close> refuses it first.\<close>

definition compose :: "outbound_env \<Rightarrow> request \<Rightarrow> string \<Rightarrow> workspace \<Rightarrow> string + email_message" where
  "compose env req dest w =
     (case oe_render env (rq_subject req) (rq_body req) (bindings (rq_contact req) (rq_variables req)) of
        Inl e \<Rightarrow> Inl e
      | Inr c \<Rightarrow>
         (let m = \<lparr>em_from = '''', em_from_name = '''', em_to = '''', em_subject = ec_subject c, em_html = ec_html c,
                   em_text = ec_text c, em_unsubscribe = ''''\<rparr> in
          if rq_source req = '''' then Inr m
          else (case oe_tracker env of
                  None \<Rightarrow> Inl ''no tracker''
                | Some tk \<Rightarrow>
                   (let unsub = request_target req dest (ws_id w);
                        html = (if rq_track req \<noteq> 0
                                then rewrite (oe_tokenize env) (oe_render_token env) tk (ec_html c) (rq_track req) unsub (ws_postal_address w)
                                else map_option (\<lambda>f. ec_html c @ f) (unsubscribe_footer tk unsub (ws_postal_address w)))
                    in case html of
                         None \<Rightarrow> Inl ''unsubscribe footer''
                       | Some h \<Rightarrow>
                          (case unsubscribe_url tk unsub of
                             None \<Rightarrow> Inl ''unsubscribe url''
                           | Some u \<Rightarrow> Inr (m\<lparr>em_html := h, em_unsubscribe := u\<rparr>))))))"

section \<open>Capacity, the provider and the record\<close>

definition reserve :: "time \<Rightarrow> id \<Rightarrow> request \<Rightarrow> integration option \<Rightarrow> db \<Rightarrow> (outbound_error + duration) \<times> db" where
  "reserve now ws req integ d =
     (case integ of
        None \<Rightarrow> (Inr 0, d)
      | Some i \<Rightarrow>
         (let l = effective_limits (effective_of i) in
          if rq_kind req = KindTransactional
          then (case spend ws (int_id i) l now d of (Some e, d') \<Rightarrow> (Inl (ReserveFailed e), d') | (None, d') \<Rightarrow> (Inr 0, d'))
          else (case reserve_token ws (int_id i) l now d of
                  (Inl e, d') \<Rightarrow> (Inl (ReserveFailed e), d') | (Inr w, d') \<Rightarrow> (Inr w, d'))))"

definition sent_row :: "time \<Rightarrow> gate_open \<Rightarrow> string \<Rightarrow> outbound_message \<Rightarrow> outbound_message" where
  "sent_row now g receipt m =
     m\<lparr>msg_status := MsgSent, msg_sent_at := Some now,
       msg_integration := (case g_integration g of None \<Rightarrow> msg_integration m | Some i \<Rightarrow> Some (int_id i)),
       msg_provider_id := (if receipt = '''' then msg_provider_id m else Some receipt)\<rparr>"

fun kind_name :: "message_kind \<Rightarrow> string" where
  "kind_name KindBroadcast = ''broadcast''"
| "kind_name KindAutomation = ''automation''"
| "kind_name KindTransactional = ''transactional''"

definition sent_event :: "id \<Rightarrow> request \<Rightarrow> outbound_message \<Rightarrow> gate_open \<Rightarrow> string \<Rightarrow> string \<Rightarrow> domain_event" where
  "sent_event ws req m g dest receipt = EmailEngagement
     \<lparr>eng_action = name_email_sent, eng_workspace = ws, eng_contact = request_contact req, eng_email = dest,
      eng_broadcast = rf_broadcast (rq_ref req), eng_url = '''', eng_dedup = ''email.sent:'' @ show_int (msg_id m),
      eng_surface = kind_name (rq_kind req), eng_source = rq_source req, eng_domain = g_domain g,
      eng_automation = rf_automation (rq_ref req), eng_message = msg_id m, eng_provider_message = receipt\<rparr>"

text \<open>One transaction: when the claim was taken over the update matches no row and everything is
  rolled back.\<close>

definition record_sent ::
  "time \<Rightarrow> id \<Rightarrow> request \<Rightarrow> outbound_message \<Rightarrow> gate_open \<Rightarrow> string \<Rightarrow> string \<Rightarrow> db \<Rightarrow> (outbound_error + result) \<times> db" where
  "record_sent now ws req m g dest receipt d =
     (if count_where (holds_claim ws m) (messages d) = 0 then (Inl InProgress, d)
      else (Inr (outcome_result Sent '''' (msg_id m)),
            publish now (sent_event ws req m g dest receipt)
              (d\<lparr>messages := update_where (holds_claim ws m) (sent_row now g receipt) (messages d)\<rparr>)))"

section \<open>Send\<close>

definition contact_erased :: "id \<Rightarrow> request \<Rightarrow> db \<Rightarrow> bool" where
  "contact_erased ws req d =
     (case rq_contact req of
        None \<Rightarrow> False
      | Some c \<Rightarrow> if con_workspace c \<noteq> ws then False else \<not> verify_contact ws (con_id c) d)"

text \<open>What the wire has seen after a provider call.\<close>

definition on_wire :: "provider_reply \<Rightarrow> email_message \<Rightarrow> email_message list \<Rightarrow> email_message list" where
  "on_wire reply m wire =
     (case reply of Accepted _ \<Rightarrow> wire @ [m] | CallFailed left \<Rightarrow> if left then wire @ [m] else wire | _ \<Rightarrow> wire)"

text \<open>The provider call on a reserved claim and what its reply leads to.\<close>

definition deliver ::
  "time \<Rightarrow> id \<Rightarrow> request \<Rightarrow> string \<Rightarrow> gate_open \<Rightarrow> outbound_message \<Rightarrow> email_message \<Rightarrow> world \<Rightarrow> (outbound_error + result) \<times> world" where
  "deliver now ws req dest g msg m wd =
     (let reply = snd_send (g_sender g) m;
          d = wd_db wd;
          wire = on_wire reply m (wd_wire wd);
          wait = deferral_backoff reply
      in case reply of
           Accepted receipt \<Rightarrow>
             (case record_sent now ws req msg g dest receipt d of
                (r, d') \<Rightarrow> (r, \<lparr>wd_db = d', wd_wire = wire\<rparr>))
         | RefusedDomain \<Rightarrow> (Inr (outcome_result Held hold_unverified 0), \<lparr>wd_db = drop_claim ws msg d, wd_wire = wire\<rparr>)
         | _ \<Rightarrow>
             if wait > 0 \<and> rq_kind req \<noteq> KindTransactional
             then (Inr ((outcome_result Deferral '''' 0)\<lparr>res_wait := wait\<rparr>), \<lparr>wd_db = drop_claim ws msg d, wd_wire = wire\<rparr>)
             else (Inl SendFailed, \<lparr>wd_db = release ws msg d, wd_wire = wire\<rparr>))"

text \<open>From the claim on: eligibility, content, capacity, provider.\<close>

definition send_claimed ::
  "outbound_env \<Rightarrow> time \<Rightarrow> id \<Rightarrow> request \<Rightarrow> string \<Rightarrow> workspace \<Rightarrow> gate_open \<Rightarrow> outbound_message \<Rightarrow> world
     \<Rightarrow> (outbound_error + result) \<times> world" where
  "send_claimed env now ws req dest w g msg wd =
     (let d = wd_db wd in
      case check_eligible ws d ChEmail dest (rq_source req) of
        Inl e \<Rightarrow> (Inl (CheckFailed e), wd\<lparr>wd_db := release ws msg d\<rparr>)
      | Inr dec \<Rightarrow>
         if \<not> dec_eligible dec
         then (case finish ws msg MsgSkipped Skipped (dec_reason dec) d of (r, d') \<Rightarrow> (r, wd\<lparr>wd_db := d'\<rparr>))
         else (case compose env req dest w of
                 Inl cause \<Rightarrow>
                   (case finish ws msg MsgFailed Failed cause d of (r, d') \<Rightarrow> (r, wd\<lparr>wd_db := d'\<rparr>))
               | Inr m0 \<Rightarrow>
                   (let m = m0\<lparr>em_from := g_from g, em_from_name := g_from_name g, em_to := dest\<rparr> in
                    case reserve now ws req (g_integration g) d of
                      (Inl e, d') \<Rightarrow> (Inl e, wd\<lparr>wd_db := release ws msg d'\<rparr>)
                    | (Inr wait, d') \<Rightarrow>
                        if wait > 0
                        then (Inr ((outcome_result Deferral '''' 0)\<lparr>res_wait := wait\<rparr>), wd\<lparr>wd_db := drop_claim ws msg d'\<rparr>)
                        else deliver now ws req dest g msg m (wd\<lparr>wd_db := d'\<rparr>))))"

definition final_message :: "outbound_message option \<Rightarrow> bool" where
  "final_message m = (case m of None \<Rightarrow> False | Some x \<Rightarrow> msg_status x \<noteq> MsgPending)"

definition send :: "outbound_env \<Rightarrow> time \<Rightarrow> id \<Rightarrow> request \<Rightarrow> world \<Rightarrow> (outbound_error + result) \<times> world" where
  "send env now ws req wd =
     (case validate_request req of
        Some e \<Rightarrow> (Inl e, wd)
      | None \<Rightarrow>
         if rq_source req \<noteq> '''' \<and> oe_tracker env = None then (Inl NoTracker, wd)
         else
           (let d = wd_db wd;
                dest = normalize_destination (rq_destination req);
                existing = find_message ws (rq_key req) d
            in if final_message existing then (Inr (replay_result (the existing)), wd)
               else if contact_erased ws req d then (Inr (outcome_result Skipped skip_contact_erased 0), wd)
               else (case load_workspace ws d of
                       None \<Rightarrow> (Inl LoadWorkspaceFailed, wd)
                     | Some w \<Rightarrow>
                        (case gate env ws w (rq_from_email req) (rq_from_name req) d of
                           Inl e \<Rightarrow> (Inl e, wd)
                         | Inr (GateHold h) \<Rightarrow> (Inr (outcome_result Held h 0), wd)
                         | Inr (GateOpen g) \<Rightarrow>
                            (case claim env now ws req dest g existing d of
                               (Inl e, d') \<Rightarrow> (Inl e, wd\<lparr>wd_db := d'\<rparr>)
                             | (Inr (Inr replay), d') \<Rightarrow> (Inr replay, wd\<lparr>wd_db := d'\<rparr>)
                             | (Inr (Inl msg), d') \<Rightarrow> send_claimed env now ws req dest w g msg (wd\<lparr>wd_db := d'\<rparr>))))))"

section \<open>Test sends\<close>

record test_request =
  tr_to :: string
  tr_subject :: string
  tr_body :: string
  tr_variables :: properties
  tr_from_email :: string
  tr_from_name :: string

definition no_ref :: surface_ref where
  "no_ref = \<lparr>rf_broadcast = 0, rf_recipient = 0, rf_automation = 0, rf_run = 0, rf_step = None, rf_template = 0\<rparr>"

definition test_as_request :: "test_request \<Rightarrow> request" where
  "test_as_request r = \<lparr>rq_kind = KindTransactional, rq_key = '''', rq_destination = '''', rq_contact = None,
     rq_contact_id = 0, rq_source = '''', rq_subject = tr_subject r, rq_body = tr_body r,
     rq_variables = tr_variables r, rq_from_email = '''', rq_from_name = '''', rq_track = 0, rq_ref = no_ref\<rparr>"

definition send_test :: "outbound_env \<Rightarrow> id \<Rightarrow> test_request \<Rightarrow> world \<Rightarrow> (outbound_error + result) \<times> world" where
  "send_test env ws r wd =
     (case load_workspace ws (wd_db wd) of
        None \<Rightarrow> (Inl LoadWorkspaceFailed, wd)
      | Some w \<Rightarrow>
         (case gate env ws w (tr_from_email r) (tr_from_name r) (wd_db wd) of
            Inl e \<Rightarrow> (Inl e, wd)
          | Inr (GateHold h) \<Rightarrow> (Inr (outcome_result Held h 0), wd)
          | Inr (GateOpen g) \<Rightarrow>
             (let to = normalize_destination (tr_to r) in
              case compose env (test_as_request r) to w of
                Inl cause \<Rightarrow> (Inr (outcome_result Failed cause 0), wd)
              | Inr m0 \<Rightarrow>
                 (let m = m0\<lparr>em_from := g_from g, em_from_name := g_from_name g, em_to := to\<rparr>;
                      reply = snd_send (g_sender g) m;
                      wd' = wd\<lparr>wd_wire := on_wire reply m (wd_wire wd)\<rparr>
                  in case reply of
                       Accepted _ \<Rightarrow> (Inr (outcome_result Sent '''' 0), wd')
                     | RefusedDomain \<Rightarrow> (Inr (outcome_result Held hold_unverified 0), wd')
                     | _ \<Rightarrow> (Inl SendFailed, wd')))))"

definition test_subject_prefix :: string where "test_subject_prefix = ''[Test] ''"

definition send_broadcast_test :: "outbound_env \<Rightarrow> id \<Rightarrow> broadcast \<Rightarrow> string \<Rightarrow> world \<Rightarrow> string \<times> world" where
  "send_broadcast_test env ws b to wd =
     (case send_test env ws
        \<lparr>tr_to = to, tr_subject = test_subject_prefix @ bc_subject b, tr_body = bc_body b,
         tr_variables = [''first_name'' \<mapsto> JStr ''Alex'', ''last_name'' \<mapsto> JStr ''Sample'', ''email'' \<mapsto> JStr to],
         tr_from_email = (case bc_from_email b of None \<Rightarrow> '''' | Some e \<Rightarrow> e),
         tr_from_name = (case bc_from_name b of None \<Rightarrow> '''' | Some e \<Rightarrow> e)\<rparr> wd of
        (Inl _, wd') \<Rightarrow> (''send failed'', wd')
      | (Inr r, wd') \<Rightarrow>
         (if res_outcome r = Sent then '''' else if res_outcome r = Held then hold_detail (res_reason r) else res_reason r, wd'))"

end
