(* ===== verification/OutboundSafety.thy ===== *)
theory OutboundSafety
  imports Outbound
begin

text \<open>
  What \<open>send\<close> guarantees, for one call: which tables it touches, what must hold for a message
  to reach the wire, the idempotency of a key, and what a Held or a Deferral leaves behind.
\<close>

section \<open>What the stages touch\<close>

text \<open>Only Outbound messages (and the id counter) differ.\<close>

definition same_but_messages :: "db \<Rightarrow> db \<Rightarrow> bool" where
  "same_but_messages d d' \<longleftrightarrow> d' = d\<lparr>messages := messages d', next_id := next_id d'\<rparr>"

lemma same_but_messages_refl [simp]: "same_but_messages d d"
  by (simp add: same_but_messages_def)

lemma same_but_messages_upd [simp]:
  "same_but_messages d (d\<lparr>messages := x\<rparr>)" "same_but_messages d (d\<lparr>messages := x, next_id := n\<rparr>)"
  by (simp_all add: same_but_messages_def)

lemma take_over_frame: "same_but_messages d (snd (take_over env now ws m d))"
  by (simp add: take_over_def Let_def split: option.split)

lemma claim_frame: "same_but_messages d (snd (claim env now ws req dest g existing d))"
  using take_over_frame [of d env now ws]
  by (auto simp: claim_def Let_def split: option.split sum.split prod.split) (metis snd_conv)+

lemma finish_frame: "same_but_messages d (snd (finish ws m st oc reason d))"
  by (simp add: finish_def Let_def)

lemma check_eligible_frame:
  "same_but_messages d d' \<Longrightarrow> check_eligible ws d' ch dest source = check_eligible ws d ch dest source"
proof -
  assume "same_but_messages d d'"
  then have e: "d' = d\<lparr>messages := messages d', next_id := next_id d'\<rparr>" by (simp add: same_but_messages_def)
  show ?thesis
    by (rule check_eligible_tables) (subst e, simp)+
qed

lemma gate_openD:
  assumes "gate env ws w fe fn d = Inr (GateOpen g)"
  shows "ws_suspended_at w = None" and "has_verified_domain ws (g_from g) d" and "g_domain g = domain_of (g_from g)"
    and "freeze_check (oe_freezers env) w = Inr ''''"
  using assms by (auto simp: gate_def Let_def split: if_splits sum.splits resolve_error.splits option.splits prod.splits)

lemma compose_marketing:
  assumes "compose env req dest w = Inr m" and "rq_source req \<noteq> ''''"
  shows "\<exists>tk. oe_tracker env = Some tk \<and> unsubscribe_url tk (request_target req dest (ws_id w)) = Some (em_unsubscribe m)"
  using assms by (auto simp: compose_def Let_def split: sum.splits option.splits if_splits)

lemma compose_transactional:
  "compose env req dest w = Inr m \<Longrightarrow> rq_source req = '''' \<Longrightarrow> em_unsubscribe m = ''''"
  by (auto simp: compose_def Let_def split: sum.splits)

lemma unsubscribe_url_ne: "unsubscribe_url tk t = Some u \<Longrightarrow> u \<noteq> ''''"
  by (auto simp: unsubscribe_url_def)

section \<open>What may reach the wire\<close>

definition may_leave :: "outbound_env \<Rightarrow> id \<Rightarrow> request \<Rightarrow> db \<Rightarrow> email_message \<Rightarrow> bool" where
  "may_leave env ws req d m \<longleftrightarrow>
     em_to m = normalize_destination (rq_destination req) \<and>
     (\<exists>w. load_workspace ws d = Some w \<and> ws_suspended_at w = None) \<and>
     has_verified_domain ws (em_from m) d \<and>
     check_eligible ws d ChEmail (rq_destination req) (rq_source req) = Inr \<lparr>dec_eligible = True, dec_reason = ''''\<rparr> \<and>
     (if rq_source req = '''' then em_unsubscribe m = ''''
      else em_unsubscribe m \<noteq> '''' \<and> (\<exists>tk. oe_tracker env = Some tk \<and>
        unsubscribe_url tk (request_target req (normalize_destination (rq_destination req)) ws) = Some (em_unsubscribe m)))"

lemma on_wire_cases: "on_wire reply m wire = wire \<or> on_wire reply m wire = wire @ [m]"
  by (simp add: on_wire_def split: provider_reply.split)

lemma deliver_wire: "wd_wire (snd (deliver now ws req dest g msg m wd)) = on_wire (snd_send (g_sender g) m) m (wd_wire wd)"
  by (simp add: deliver_def Let_def split: provider_reply.split prod.split)

lemma send_claimed_wire:
  assumes "wd_wire (snd (send_claimed env now ws req dest w g msg wd)) \<noteq> wd_wire wd"
  shows "\<exists>m0 m dec. check_eligible ws (wd_db wd) ChEmail dest (rq_source req) = Inr dec \<and> dec_eligible dec \<and>
    compose env req dest w = Inr m0 \<and> m = m0\<lparr>em_from := g_from g, em_from_name := g_from_name g, em_to := dest\<rparr> \<and>
    wd_wire (snd (send_claimed env now ws req dest w g msg wd)) = wd_wire wd @ [m]"
proof -
  obtain dec m0 where dec: "check_eligible ws (wd_db wd) ChEmail dest (rq_source req) = Inr dec" "dec_eligible dec"
    and m0: "compose env req dest w = Inr m0"
    using assms by (auto simp: send_claimed_def Let_def split: sum.splits if_splits prod.splits)
  let ?m = "m0\<lparr>em_from := g_from g, em_from_name := g_from_name g, em_to := dest\<rparr>"
  obtain r d' where rs: "reserve now ws req (g_integration g) (wd_db wd) = (r, d')"
    by (cases "reserve now ws req (g_integration g) (wd_db wd)")
  have "wd_wire (snd (send_claimed env now ws req dest w g msg wd)) = wd_wire wd @ [?m]"
    using assms dec m0 rs on_wire_cases [of "snd_send (g_sender g) ?m" ?m "wd_wire wd"]
    by (auto simp: send_claimed_def Let_def deliver_wire split: sum.splits if_splits)
  with dec m0 show ?thesis by blast
qed

lemma check_normalized: "check_eligible ws d ch (normalize_destination x) source = check_eligible ws d ch x source"
  by (simp add: check_eligible_def)

lemma check_eligible_reason: "check_eligible ws d ch dest source = Inr dec \<Longrightarrow> dec_eligible dec \<Longrightarrow>
    dec = \<lparr>dec_eligible = True, dec_reason = ''''\<rparr>"
  by (auto simp: check_eligible_def Let_def split: if_splits option.splits)

lemma send_wire:
  assumes "send env now ws req wd = (r, wd')"
  shows "wd_wire wd' = wd_wire wd \<or> (\<exists>m. wd_wire wd' = wd_wire wd @ [m] \<and> may_leave env ws req (wd_db wd) m)"
proof (cases "wd_wire wd' = wd_wire wd")
  case False
  let ?dest = "normalize_destination (rq_destination req)"
  obtain w g msg d' where w: "load_workspace ws (wd_db wd) = Some w"
    and g: "gate env ws w (rq_from_email req) (rq_from_name req) (wd_db wd) = Inr (GateOpen g)"
    and cl: "claim env now ws req ?dest g (find_message ws (rq_key req) (wd_db wd)) (wd_db wd) = (Inr (Inl msg), d')"
    and sc: "(r, wd') = send_claimed env now ws req ?dest w g msg (wd\<lparr>wd_db := d'\<rparr>)"
    using assms False
    by (auto simp: send_def Let_def split: option.splits if_splits sum.splits gate_result.splits prod.splits)
  have frame: "same_but_messages (wd_db wd) d'"
    using claim_frame [of "wd_db wd" env now ws req ?dest g "find_message ws (rq_key req) (wd_db wd)"] cl by simp
  have wd': "wd' = snd (send_claimed env now ws req ?dest w g msg (wd\<lparr>wd_db := d'\<rparr>))"
    by (metis sc snd_conv)
  have "wd_wire (snd (send_claimed env now ws req ?dest w g msg (wd\<lparr>wd_db := d'\<rparr>))) \<noteq> wd_wire (wd\<lparr>wd_db := d'\<rparr>)"
    using False wd' by simp
  from send_claimed_wire [OF this] obtain m0 m dec
    where dec: "check_eligible ws d' ChEmail ?dest (rq_source req) = Inr dec" "dec_eligible dec"
    and m0: "compose env req ?dest w = Inr m0"
    and m: "m = m0\<lparr>em_from := g_from g, em_from_name := g_from_name g, em_to := ?dest\<rparr>"
    and wire: "wd_wire wd' = wd_wire wd @ [m]"
    unfolding wd' by auto
  have el: "check_eligible ws (wd_db wd) ChEmail (rq_destination req) (rq_source req) = Inr \<lparr>dec_eligible = True, dec_reason = ''''\<rparr>"
    using dec check_eligible_frame [OF frame] check_eligible_reason [OF dec] by (simp add: check_normalized)
  have "ws_id w = ws" using load_workspace_SomeD [OF w] by simp
  then have link: "if rq_source req = '''' then em_unsubscribe m = ''''
      else em_unsubscribe m \<noteq> '''' \<and> (\<exists>tk. oe_tracker env = Some tk \<and>
        unsubscribe_url tk (request_target req ?dest ws) = Some (em_unsubscribe m))"
    using compose_marketing [OF m0] compose_transactional [OF m0] unsubscribe_url_ne by (auto simp: m)
  have "may_leave env ws req (wd_db wd) m"
    unfolding may_leave_def
    using w gate_openD [OF g] el link by (simp add: m)
  with wire show ?thesis by blast
qed simp


section \<open>Idempotency\<close>

text \<open>The table's own constraints and what the module keeps: ids and (Workspace, key) pairs are
  unique, new ids are fresh, and a pending row has no reason yet.\<close>

definition wf_messages :: "db \<Rightarrow> bool" where
  "wf_messages d \<longleftrightarrow> 0 < next_id d \<and> distinct (map msg_id (messages d)) \<and>
     distinct (map (\<lambda>m. (msg_workspace m, msg_key m)) (messages d)) \<and>
     (\<forall>m \<in> set (messages d). 0 < msg_id m \<and> msg_id m < next_id d \<and> (msg_status m = MsgPending \<longrightarrow> msg_reason m = None))"

lemma find_message_SomeD: "find_message ws key d = Some m \<Longrightarrow> m \<in> set (messages d) \<and> msg_workspace m = ws \<and> msg_key m = key"
  by (auto simp: find_message_def key_row_def table_simps dest: find_where_SomeD)

lemma find_message_update:
  assumes "\<And>m. msg_workspace (f m) = msg_workspace m" and "\<And>m. msg_key (f m) = msg_key m"
    and "find_message ws key d = Some m" and "p m"
  shows "find_message ws key (d\<lparr>messages := update_where p f (messages d)\<rparr>) = Some (f m)"
proof -
  have "key_row ws key (f x) = key_row ws key x" for x by (simp add: key_row_def in_ws_def assms(1,2))
  then show ?thesis using assms(3,4) by (simp add: find_message_def find_where_update)
qed

lemma wf_messages_update:
  assumes "wf_messages d" and "\<And>m. msg_workspace (f m) = msg_workspace m" and "\<And>m. msg_key (f m) = msg_key m"
    and "\<And>m. msg_id (f m) = msg_id m"
    and "\<And>m. m \<in> set (messages d) \<Longrightarrow> p m \<Longrightarrow> msg_status (f m) = MsgPending \<Longrightarrow> msg_reason (f m) = None"
  shows "wf_messages (d\<lparr>messages := update_where p f (messages d)\<rparr>)"
proof -
  have m: "map msg_id (update_where p f (messages d)) = map msg_id (messages d)"
    "map (\<lambda>m. (msg_workspace m, msg_key m)) (update_where p f (messages d)) = map (\<lambda>m. (msg_workspace m, msg_key m)) (messages d)"
    using assms(2-4) by (simp_all add: map_runs_update)
  show ?thesis using assms(1,4,5) unfolding wf_messages_def by (auto simp: m table_simps)
qed

lemma wf_messages_delete: "wf_messages d \<Longrightarrow> wf_messages (d\<lparr>messages := delete_where p (messages d)\<rparr>)"
  by (auto simp: wf_messages_def delete_where_def distinct_map_filter)

lemma wf_messages_insert:
  assumes "wf_messages d" and "find_message ws key d = None" and "msg_workspace m = ws" and "msg_key m = key"
    and "msg_id m = next_id d" and "msg_reason m = None"
  shows "wf_messages (d\<lparr>messages := messages d @ [m], next_id := next_id d + 1\<rparr>)"
  using assms by (auto simp: wf_messages_def find_message_def key_row_def table_simps)

lemma holds_claim_self: "msg_status m = MsgPending \<Longrightarrow> msg_workspace m = ws \<Longrightarrow> holds_claim ws m m"
  by (simp add: holds_claim_def in_ws_def)

text \<open>What a successful claim returns: the row now found under the key, pending, and ours.\<close>

definition claimed :: "id \<Rightarrow> string \<Rightarrow> outbound_message \<Rightarrow> db \<Rightarrow> bool" where
  "claimed ws key m d \<longleftrightarrow> wf_messages d \<and> find_message ws key d = Some m \<and> msg_status m = MsgPending"

lemma take_over_claimed:
  assumes "wf_messages d" and "find_message ws key d = Some m" and "msg_status m = MsgPending"
    and "take_over env now ws m d = (Inr m', d')"
  shows "claimed ws key m' d' \<and> msg_id m' = msg_id m"
proof -
  let ?f = "\<lambda>m. m\<lparr>msg_claimed_at := claim_time now\<rparr>"
  let ?d = "d\<lparr>messages := update_where (holds_claim ws m) ?f (messages d)\<rparr>"
  have mem: "m \<in> set (messages d)" "msg_workspace m = ws" using find_message_SomeD [OF assms(2)] by simp_all
  have h: "holds_claim ws m m" by (rule holds_claim_self) (use assms(3) mem in simp_all)
  have d': "d' = ?d" and m': "find_where (in_ws msg_workspace ws (\<lambda>x. msg_id x = msg_id m)) (messages ?d) = Some m'"
    using assms(4) by (auto simp: take_over_def Let_def split: if_splits option.splits)
  have "find_where (in_ws msg_workspace ws (\<lambda>x. msg_id x = msg_id m)) (messages d) = Some m"
    by (rule find_where_eq [where g = msg_id]) (use assms(1) mem in \<open>auto simp: wf_messages_def table_simps\<close>)
  then have "find_where (in_ws msg_workspace ws (\<lambda>x. msg_id x = msg_id m)) (messages ?d) = Some (?f m)"
    using h by (simp add: find_where_update in_ws_def)
  with m' have m'f: "m' = ?f m" by simp
  have f: "find_message ws key ?d = Some (?f m)" by (rule find_message_update) (use assms(2) h in simp_all)
  have "wf_messages ?d"
    by (rule wf_messages_update [OF assms(1)]) (use assms(1) in \<open>auto simp: wf_messages_def\<close>)
  with f m'f d' assms(3) show ?thesis by (simp add: claimed_def)
qed

lemma claim_claimed:
  assumes "wf_messages d" and "existing = find_message ws (rq_key req) d" and "\<not> final_message existing"
    and "claim env now ws req dest g existing d = (Inr (Inl m), d')"
  shows "claimed ws (rq_key req) m d' \<and> 0 < msg_id m"
proof (cases existing)
  case None
  let ?row = "claim_row now ws req dest (g_domain g) (next_id d)"
  have d': "m = ?row" "d' = d\<lparr>messages := messages d @ [?row], next_id := next_id d + 1\<rparr>"
    using assms None by (auto simp: claim_def Let_def split: if_splits)
  have n: "find_message ws (rq_key req) d = None" using assms(2) None by simp
  have "wf_messages d'"
    unfolding d' by (rule wf_messages_insert [OF assms(1) n]) (simp_all add: claim_row_def)
  moreover have "find_message ws (rq_key req) d' = Some ?row"
    using n by (simp add: d' find_message_def find_where_append key_row_def in_ws_def claim_row_def)
  ultimately show ?thesis using assms(1) d' by (simp add: claimed_def claim_row_def wf_messages_def)
next
  case (Some x)
  have p: "msg_status x = MsgPending" using assms(3) Some by (simp add: final_message_def)
  have t: "take_over env now ws x d = (Inr m, d')"
    using assms(4) Some by (auto simp: claim_def split: prod.splits sum.splits)
  have f: "find_message ws (rq_key req) d = Some x" using assms(2) Some by simp
  from take_over_claimed [OF assms(1) f p t] assms(1) find_message_SomeD [OF f] show ?thesis
    by (auto simp: wf_messages_def)
qed

lemma claimed_holds: "claimed ws key m d \<Longrightarrow> m \<in> set (messages d) \<and> holds_claim ws m m"
  by (auto simp: claimed_def intro: holds_claim_self dest: find_message_SomeD)

lemma claimed_count: "claimed ws key m d \<Longrightarrow> count_where (holds_claim ws m) (messages d) \<noteq> 0"
  using claimed_holds [of ws key m d] by (auto simp: table_simps)

lemma claimed_reason: "claimed ws key m d \<Longrightarrow> msg_reason m = None"
  using claimed_holds [of ws key m d] by (auto simp: claimed_def wf_messages_def)

lemma holds_claim_pending: "holds_claim ws m x \<Longrightarrow> msg_status x = MsgPending \<and> msg_id x = msg_id m"
  by (simp add: holds_claim_def in_ws_def)

text \<open>A recorded result: the row found under the key replays it.\<close>

definition recorded :: "id \<Rightarrow> string \<Rightarrow> result \<Rightarrow> db \<Rightarrow> bool" where
  "recorded ws key r d \<longleftrightarrow> wf_messages d \<and>
     (\<exists>m. find_message ws key d = Some m \<and> msg_status m \<noteq> MsgPending \<and> replay_result m = r\<lparr>res_replayed := True\<rparr>)"

lemma finish_recorded:
  assumes "claimed ws key m d" and "st = MsgSkipped \<and> oc = Skipped \<or> st = MsgFailed \<and> oc = Failed"
    and "finish ws m st oc reason d = (res, d')"
  shows "\<exists>r. res = Inr r \<and> res_outcome r = oc \<and> recorded ws key r d'"
proof -
  let ?f = "\<lambda>x. x\<lparr>msg_status := st, msg_reason := Some reason\<rparr>"
  have d': "d' = d\<lparr>messages := update_where (holds_claim ws m) ?f (messages d)\<rparr>"
    and res: "res = Inr (outcome_result oc reason (msg_id m))"
    using assms(3) claimed_count [OF assms(1)] by (auto simp: finish_def Let_def)
  have "find_message ws key d' = Some (?f m)"
    unfolding d' by (rule find_message_update) (use assms(1) claimed_holds in \<open>auto simp: claimed_def\<close>)
  moreover have "wf_messages d'"
    unfolding d' by (rule wf_messages_update) (use assms(1,2) in \<open>auto simp: claimed_def\<close>)
  ultimately show ?thesis
    using assms(2) res by (auto simp: recorded_def replay_result_def outcome_result_def)
qed

lemma recorded_publish: "recorded ws key r d \<Longrightarrow> recorded ws key r (publish now ev d)"
  by (auto simp: recorded_def wf_messages_def find_message_def publish_def)

lemma record_sent_recorded:
  assumes "claimed ws key m d" and "record_sent now ws req m g dest receipt d = (res, d')"
  shows "\<exists>r. res = Inr r \<and> res_outcome r = Sent \<and> recorded ws key r d'"
proof -
  let ?f = "sent_row now g receipt"
  let ?d = "d\<lparr>messages := update_where (holds_claim ws m) ?f (messages d)\<rparr>"
  have d': "d' = publish now (sent_event ws req m g dest receipt) ?d"
    and res: "res = Inr (outcome_result Sent '''' (msg_id m))"
    using assms(2) claimed_count [OF assms(1)] by (auto simp: record_sent_def)
  have f: "find_message ws key ?d = Some (?f m)"
    by (rule find_message_update) (use assms(1) claimed_holds in \<open>auto simp: claimed_def sent_row_def\<close>)
  have "wf_messages ?d"
    by (rule wf_messages_update) (use assms(1) in \<open>auto simp: claimed_def sent_row_def\<close>)
  then have "recorded ws key (outcome_result Sent '''' (msg_id m)) ?d"
    using f claimed_reason [OF assms(1)]
    by (auto simp: recorded_def replay_result_def outcome_result_def sent_row_def)
  then show ?thesis using recorded_publish by (auto simp: res d' outcome_result_def)
qed

lemma drop_claim_none:
  assumes "claimed ws key m d"
  shows "find_message ws key (drop_claim ws m d) = None" and "wf_messages (drop_claim ws m d)"
proof -
  have wf: "wf_messages d" and m: "m \<in> set (messages d)" "msg_workspace m = ws" "msg_key m = key"
    using assms find_message_SomeD by (auto simp: claimed_def)
  have "x = m" if "x \<in> set (messages d)" "msg_workspace x = ws" "msg_key x = key" for x
    using that wf m by (auto simp: wf_messages_def distinct_map inj_on_def)
  then show "find_message ws key (drop_claim ws m d) = None"
    using claimed_holds [OF assms] by (auto simp: find_message_def drop_claim_def key_row_def table_simps)
  show "wf_messages (drop_claim ws m d)"
    unfolding drop_claim_def by (rule wf_messages_delete [OF wf])
qed

lemma release_wf: "wf_messages d \<Longrightarrow> wf_messages (release ws m d)"
  unfolding release_def by (rule wf_messages_update) (auto simp: wf_messages_def)

text \<open>A reservation does not touch messages; it may take a fresh id.\<close>

lemma reserve_messages:
  "messages (snd (reserve now ws req i d)) = messages d \<and> next_id d \<le> next_id (snd (reserve now ws req i d))"
proof -
  have t: "messages (snd (take_token ws iid l now g d)) = messages d \<and> next_id (snd (take_token ws iid l now g d)) = next_id d"
    for iid l g d by (simp add: take_token_def Let_def)
  have e: "messages (snd (ensure_limiter ws iid now d)) = messages d \<and> next_id d \<le> next_id (snd (ensure_limiter ws iid now d))"
    for iid d by (simp add: ensure_limiter_def)
  have s: "messages (snd (spend ws iid l now d)) = messages d \<and> next_id d \<le> next_id (snd (spend ws iid l now d))" for iid l
    using t [of iid l False d] e [of iid "snd (take_token ws iid l now False d)"]
      t [of iid l False "snd (ensure_limiter ws iid now (snd (take_token ws iid l now False d)))"]
    by (auto simp: spend_def split: prod.split option.split)
  have r: "messages (snd (reserve_token ws iid l now d)) = messages d \<and> next_id d \<le> next_id (snd (reserve_token ws iid l now d))" for iid l
    using t [of iid l True d] e [of iid "snd (take_token ws iid l now True d)"]
      t [of iid l True "snd (ensure_limiter ws iid now (snd (take_token ws iid l now True d)))"]
    by (auto simp: reserve_token_def split: prod.split option.split)
  show ?thesis
    using s r by (auto simp: reserve_def Let_def split: option.split prod.split sum.split) (metis snd_conv)+
qed

lemma claimed_reserve: "claimed ws key m d \<Longrightarrow> claimed ws key m (snd (reserve now ws' req i d))"
  using reserve_messages [of now ws' req i d]
  by (auto simp: claimed_def wf_messages_def find_message_def intro: order_less_le_trans)

text \<open>A decided attempt either recorded its result, or left no claim and put nothing on the wire.\<close>

definition reversible :: "id \<Rightarrow> request \<Rightarrow> result \<Rightarrow> world \<Rightarrow> world \<Rightarrow> bool" where
  "reversible ws req r wd wd' \<longleftrightarrow>
     res_message r = 0 \<and> wd_wire wd' = wd_wire wd \<and> find_message ws (rq_key req) (wd_db wd') = None \<and>
     wf_messages (wd_db wd') \<and>
     (res_outcome r = Held \<or> res_outcome r = Deferral \<and> 0 < res_wait r \<and> rq_kind req \<noteq> KindTransactional)"

lemma deliver_result:
  assumes "claimed ws (rq_key req) msg (wd_db wd)" and "deliver now ws req dest g msg m wd = (Inr r, wd')"
  shows "res_outcome r = Sent \<and> recorded ws (rq_key req) r (wd_db wd') \<or> reversible ws req r wd wd'"
proof (cases "snd_send (g_sender g) m")
  case (Accepted receipt)
  obtain res d' where rs: "record_sent now ws req msg g dest receipt (wd_db wd) = (res, d')"
    by (cases "record_sent now ws req msg g dest receipt (wd_db wd)")
  from record_sent_recorded [OF assms(1) rs] obtain r' where
    "res = Inr r'" "res_outcome r' = Sent" "recorded ws (rq_key req) r' d'" by blast
  then show ?thesis using assms(2) Accepted rs by (auto simp: deliver_def Let_def)
next
  case RefusedDomain
  then show ?thesis
    using assms(2) drop_claim_none [OF assms(1)]
    by (auto simp: deliver_def Let_def reversible_def outcome_result_def on_wire_def)
next
  case RefusedQuota
  then show ?thesis
    using assms(2) drop_claim_none [OF assms(1)]
    by (auto simp: deliver_def Let_def reversible_def outcome_result_def on_wire_def quota_backoff_def split: if_splits)
next
  case RefusedBusy
  then show ?thesis
    using assms(2) drop_claim_none [OF assms(1)]
    by (auto simp: deliver_def Let_def reversible_def outcome_result_def on_wire_def deferral_backoff_short_def split: if_splits)
next
  case (CallFailed x)
  then show ?thesis using assms(2) by (simp add: deliver_def Let_def)
qed

lemma reserve_wait: "reserve now ws req i d = (Inr w, d') \<Longrightarrow> 0 < w \<Longrightarrow> rq_kind req \<noteq> KindTransactional"
  by (auto simp: reserve_def Let_def split: option.splits prod.splits if_splits)

lemma send_claimed_result:
  assumes "claimed ws (rq_key req) msg (wd_db wd)" and "send_claimed env now ws req dest w g msg wd = (Inr r, wd')"
  shows "recorded ws (rq_key req) r (wd_db wd') \<and> res_outcome r \<in> {Sent, Skipped, Failed} \<or> reversible ws req r wd wd'"
proof -
  obtain dec where dec: "check_eligible ws (wd_db wd) ChEmail dest (rq_source req) = Inr dec"
    using assms(2) by (auto simp: send_claimed_def Let_def split: sum.splits)
  show ?thesis
  proof (cases "dec_eligible dec")
    case False
    obtain res d' where f: "finish ws msg MsgSkipped Skipped (dec_reason dec) (wd_db wd) = (res, d')"
      by (cases "finish ws msg MsgSkipped Skipped (dec_reason dec) (wd_db wd)")
    from finish_recorded [OF assms(1) _ f] show ?thesis
      using assms(2) dec False f by (auto simp: send_claimed_def Let_def)
  next
    case True
    show ?thesis
    proof (cases "compose env req dest w")
      case (Inl cause)
      obtain res d' where f: "finish ws msg MsgFailed Failed cause (wd_db wd) = (res, d')"
        by (cases "finish ws msg MsgFailed Failed cause (wd_db wd)")
      from finish_recorded [OF assms(1) _ f] show ?thesis
        using assms(2) dec True Inl f by (auto simp: send_claimed_def Let_def)
    next
      case (Inr m0)
      let ?m = "m0\<lparr>em_from := g_from g, em_from_name := g_from_name g, em_to := dest\<rparr>"
      obtain res d' where rs: "reserve now ws req (g_integration g) (wd_db wd) = (res, d')"
        by (cases "reserve now ws req (g_integration g) (wd_db wd)")
      have cl: "claimed ws (rq_key req) msg d'"
        using claimed_reserve [OF assms(1), of now ws req "g_integration g"] rs by simp
      obtain wait where wait: "res = Inr wait"
        using assms(2) dec True Inr rs by (cases res) (auto simp: send_claimed_def Let_def)
      show ?thesis
      proof (cases "wait > 0")
        case pos: True
        have "rq_kind req \<noteq> KindTransactional" using reserve_wait rs wait pos by blast
        then show ?thesis using assms(2) dec True Inr rs wait pos drop_claim_none [OF cl]
          by (auto simp: send_claimed_def Let_def reversible_def outcome_result_def)
      next
        case zero: False
        have dl: "deliver now ws req dest g msg ?m (wd\<lparr>wd_db := d'\<rparr>) = (Inr r, wd')"
          using assms(2) dec True Inr rs wait zero by (simp add: send_claimed_def Let_def)
        from deliver_result [OF _ dl] cl show ?thesis by (auto simp: reversible_def)
      qed
    qed
  qed
qed

lemma send_result:
  assumes "wf_messages (wd_db wd)" and "send env now ws req wd = (Inr r, wd')"
  shows "recorded ws (rq_key req) r (wd_db wd') \<and> res_outcome r \<in> {Sent, Skipped, Failed} \<or>
         reversible ws req r wd wd' \<or>
         wd' = wd \<and> res_message r = 0 \<and> (res_outcome r = Held \<or> res_outcome r = Skipped \<and> res_reason r = skip_contact_erased)"
proof -
  let ?d = "wd_db wd" and ?dest = "normalize_destination (rq_destination req)"
  let ?ex = "find_message ws (rq_key req) ?d"
  have v: "validate_request req = None" and tk: "\<not> (rq_source req \<noteq> '''' \<and> oe_tracker env = None)"
    using assms(2) by (auto simp: send_def split: option.splits if_splits)
  show ?thesis
  proof (cases "final_message ?ex")
    case True
    then obtain m where m: "?ex = Some m" "msg_status m \<noteq> MsgPending" by (auto simp: final_message_def split: option.splits)
    then have r: "r = replay_result m" "wd' = wd" using assms(2) v tk True by (auto simp: send_def Let_def)
    have "replay_result m = r\<lparr>res_replayed := True\<rparr>" by (simp add: r replay_result_def)
    moreover have "res_outcome r \<in> {Sent, Skipped, Failed}" by (simp add: r replay_result_def)
    ultimately show ?thesis using m r assms(1) by (auto simp: recorded_def)
  next
    case nf: False
    show ?thesis
    proof (cases "contact_erased ws req ?d")
      case True
      then show ?thesis using assms(2) v tk nf by (auto simp: send_def Let_def outcome_result_def)
    next
      case False
      then obtain w where w: "load_workspace ws ?d = Some w"
        using assms(2) v tk nf by (auto simp: send_def Let_def split: option.splits)
      obtain gr where gr: "gate env ws w (rq_from_email req) (rq_from_name req) ?d = Inr gr"
        using assms(2) v tk nf False w by (auto simp: send_def Let_def split: sum.splits)
      show ?thesis
      proof (cases gr)
        case (GateHold h)
        then show ?thesis using assms(2) v tk nf False w gr by (auto simp: send_def Let_def outcome_result_def)
      next
        case (GateOpen g)
        obtain res d' where cl: "claim env now ws req ?dest g ?ex ?d = (res, d')"
          by (cases "claim env now ws req ?dest g ?ex ?d")
        have no_replay: "res \<noteq> Inr (Inr rr)" for rr
          using cl by (cases ?ex) (auto simp: claim_def Let_def split: if_splits prod.splits sum.splits)
        then obtain msg where msg: "res = Inr (Inl msg)"
          using assms(2) v tk nf False w gr GateOpen cl
          by (auto simp: send_def Let_def split: sum.splits)
        have sc: "send_claimed env now ws req ?dest w g msg (wd\<lparr>wd_db := d'\<rparr>) = (Inr r, wd')"
          using assms(2) v tk nf False w gr GateOpen cl msg by (simp add: send_def Let_def)
        have "claimed ws (rq_key req) msg d'"
          using claim_claimed [OF assms(1) refl nf, of env now dest] cl msg claim_claimed [OF assms(1) refl nf] by blast
        with send_claimed_result [OF _ sc] show ?thesis by (auto simp: reversible_def)
      qed
    qed
  qed
qed

text \<open>Idempotency by key. Once a call of Send has decided a message (Sent, Skipped or Failed,
  with a message row), every later call with the same key, at any time, under any configuration
  and whatever the provider would answer, returns the same outcome, reason and message id as a
  replay and changes neither the database nor the wire.\<close>

theorem send_idempotent:
  assumes "wf_messages (wd_db wd)" and "send env now ws req wd = (Inr r, wd')" and "res_message r \<noteq> 0"
    and "rq_source req = '''' \<or> oe_tracker env' \<noteq> None"
  shows "send env' later ws req wd' = (Inr (r\<lparr>res_replayed := True\<rparr>), wd')"
proof -
  have v: "validate_request req = None" using assms(2) by (auto simp: send_def split: option.splits)
  have "recorded ws (rq_key req) r (wd_db wd')"
    using send_result [OF assms(1,2)] assms(3) by (auto simp: reversible_def)
  then obtain m where m: "find_message ws (rq_key req) (wd_db wd') = Some m" "msg_status m \<noteq> MsgPending"
    "replay_result m = r\<lparr>res_replayed := True\<rparr>" by (auto simp: recorded_def)
  then show ?thesis using v assms(4) by (auto simp: send_def Let_def final_message_def)
qed

text \<open>Held and Deferral consume nothing. Nothing went on the wire and no claim is left under the
  key (or nothing changed at all), so the same Request can run again from the start; a Deferral
  names a positive wait and never happens to a Transactional message.\<close>

theorem reversible_outcomes:
  assumes "wf_messages (wd_db wd)" and "send env now ws req wd = (Inr r, wd')"
    and "res_outcome r = Held \<or> res_outcome r = Deferral"
  shows "wd_wire wd' = wd_wire wd \<and> res_message r = 0 \<and>
     (wd' = wd \<or> find_message ws (rq_key req) (wd_db wd') = None) \<and>
     (res_outcome r = Deferral \<longrightarrow> 0 < res_wait r \<and> rq_kind req \<noteq> KindTransactional)"
  using send_result [OF assms(1,2)] assms(3) by (auto simp: reversible_def)

section \<open>A concrete send\<close>

definition sample_tracker :: tracker where
  "sample_tracker = \<lparr>tk_base = ''https://x.io'', jwt_sign = (\<lambda>_. Some ''tok''), jwt_verify = (\<lambda>_. None)\<rparr>"

definition sample_sender :: sender where
  "sample_sender = \<lparr>snd_default_from = Some (''news@x.io'', ''X''), snd_send = (\<lambda>_. Accepted ''ses-1'')\<rparr>"

definition sample_env :: outbound_env where
  "sample_env = \<lparr>oe_tracker = Some sample_tracker, oe_tokenize = (\<lambda>_. None), oe_render_token = (\<lambda>_. ''''),
     oe_render = (\<lambda>s b _. Inr \<lparr>ec_subject = s, ec_html = b, ec_text = b\<rparr>), oe_sender = (\<lambda>_. Inr sample_sender),
     oe_freezers = [], oe_lease = 5 * minute, oe_template = (\<lambda>_ _. True)\<rparr>"

definition sample_domain :: sending_domain where
  "sample_domain = \<lparr>sd_id = 2, sd_workspace = 1, sd_domain = ''x.io'', sd_verified = True,
     sd_last_checked_at = None, sd_verified_at = None\<rparr>"

definition sample_integration :: integration where
  "sample_integration = \<lparr>int_id = 3, int_workspace = 1, int_name = ''ses'', int_channel = ChEmail, int_provider = Ses,
     int_config = '''', int_enabled = True, int_is_default = True, int_max_per_second = None, int_max_per_day = None,
     int_provider_max_per_second = None, int_provider_max_per_day = None, int_quota_checked_at = None,
     int_quota_unavailable = False\<rparr>"

definition sample_db :: db where
  "sample_db = empty_db\<lparr>workspaces := [sample_workspace 1], sending_domains := [sample_domain],
     integrations := [sample_integration], next_id := 10\<rparr>"

definition sample_world :: world where
  "sample_world = \<lparr>wd_db = sample_db, wd_wire = []\<rparr>"

definition sample_request :: request where
  "sample_request = \<lparr>rq_kind = KindBroadcast, rq_key = ''broadcast:1:2'', rq_destination = ''Bo@y.io'',
     rq_contact = None, rq_contact_id = 0, rq_source = ''broadcasts'', rq_subject = ''Hi'', rq_body = ''Hello'',
     rq_variables = Map.empty, rq_from_email = '''', rq_from_name = '''', rq_track = 0, rq_ref = no_ref\<rparr>"

definition sample_open :: gate_open where
  "sample_open = \<lparr>g_integration = Some sample_integration, g_sender = sample_sender, g_from = ''news@x.io'',
     g_from_name = ''X'', g_domain = ''x.io''\<rparr>"

lemma sample_strings:
  "normalize_destination ''Bo@y.io'' = ''bo@y.io''" "normalize_destination ''bo@y.io'' = ''bo@y.io''"
  "domain_of ''news@x.io'' = ''x.io''" "first_non_empty ['''', ''news@x.io''] = ''news@x.io''"
  "first_non_empty ['''', ''X''] = ''X''"
  by code_simp+

lemma sample_lookup:
  "load_workspace 1 sample_db = Some (sample_workspace 1)" "find_message 1 k sample_db = None"
  "default_integration 1 sample_db = Inr sample_integration"
  "has_verified_domain 1 ''news@x.io'' sample_db"
  by (simp_all add: sample_db_def load_workspace_def find_where_def sample_workspace_def find_message_def
      default_integration_def in_ws_def sample_integration_def has_verified_domain_def sample_strings
      exists_where_def verified_domain_row_def sample_domain_def)

lemma sample_gate: "gate sample_env 1 (sample_workspace 1) '''' '''' sample_db =
    Inr (GateOpen \<lparr>g_integration = Some sample_integration, g_sender = sample_sender, g_from = ''news@x.io'',
       g_from_name = ''X'', g_domain = ''x.io''\<rparr>)"
  by (simp add: gate_def email_sender_def sample_lookup sample_env_def sample_sender_def sample_strings
      sample_workspace_def Let_def)

lemma sample_eligible: "check_eligible 1 sample_db ChEmail ''bo@y.io'' ''broadcasts'' =
    Inr \<lparr>dec_eligible = True, dec_reason = ''''\<rparr>"
  by (simp add: check_eligible_some [OF _ sample_lookup(1)] sample_strings layers_def is_suppressed_def is_unsubscribed_def
      is_confirmed_def match_store_def exists_where_def require_confirmed_def sample_lookup sample_workspace_def)
     (simp add: sample_db_def)

lemma sample_send: "\<exists>m wd'. send sample_env 0 1 sample_request sample_world =
     (Inr (outcome_result Sent '''' 10), wd') \<and> wd_wire wd' = [m] \<and> em_unsubscribe m = ''https://x.io/e/u/tok'' \<and>
     map msg_status (messages (wd_db wd')) = [MsgSent]"
proof -
  let ?g = "\<lparr>g_integration = Some sample_integration, g_sender = sample_sender, g_from = ''news@x.io'',
       g_from_name = ''X'', g_domain = ''x.io''\<rparr>"
  let ?row = "claim_row 0 1 sample_request ''bo@y.io'' ''x.io'' 10"
  let ?d = "sample_db\<lparr>messages := [?row], next_id := 11\<rparr>"
  have cl: "claim sample_env 0 1 sample_request ''bo@y.io'' ?g None sample_db = (Inr (Inl ?row), ?d)"
    by (simp add: claim_def sample_lookup refs_ok_def claim_row_def sample_request_def no_ref_def nonzero_def
        request_contact_def Let_def) (simp add: sample_db_def)
  have el: "check_eligible 1 ?d ChEmail ''bo@y.io'' ''broadcasts'' = Inr \<lparr>dec_eligible = True, dec_reason = ''''\<rparr>"
    by (subst check_eligible_frame [of sample_db]) (simp_all add: sample_eligible)
  obtain h where cp: "compose sample_env sample_request ''bo@y.io'' (sample_workspace 1) =
     Inr \<lparr>em_from = '''', em_from_name = '''', em_to = '''', em_subject = ''Hi'', em_html = h, em_text = ''Hello'',
       em_unsubscribe = ''https://x.io/e/u/tok''\<rparr>"
    by (simp add: compose_def sample_env_def sample_request_def sample_tracker_def unsubscribe_footer_def
        unsubscribe_url_def unsub_token_def Let_def)
  have rs: "reserve 0 1 sample_request (Some sample_integration) ?d = (Inr 0, ?d)"
    by (simp add: reserve_def sample_request_def reserve_token_def limits_any_def effective_limits_def effective_of_def
        lowest_def sample_integration_def)
  have hc: "holds_claim 1 ?row ?row" by (simp add: holds_claim_def in_ws_def claim_row_def)
  have rq: "rq_key sample_request = ''broadcast:1:2''" "rq_destination sample_request = ''Bo@y.io''"
    "rq_source sample_request = ''broadcasts''" "rq_from_email sample_request = ''''" "rq_from_name sample_request = ''''"
    "rq_contact sample_request = None"
    by (simp_all add: sample_request_def)
  have tk: "oe_tracker sample_env = Some sample_tracker" by (simp add: sample_env_def)
  have snd: "snd_send sample_sender x = Accepted ''ses-1''" for x by (simp add: sample_sender_def)
  have s1: "send sample_env 0 1 sample_request sample_world =
     send_claimed sample_env 0 1 sample_request ''bo@y.io'' (sample_workspace 1) ?g ?row \<lparr>wd_db = ?d, wd_wire = []\<rparr>"
    by (simp add: send_def validate_request_def sample_world_def sample_lookup sample_gate final_message_def
        contact_erased_def cl sample_strings rq tk Let_def)
  let ?m = "\<lparr>em_from = ''news@x.io'', em_from_name = ''X'', em_to = ''bo@y.io'', em_subject = ''Hi'', em_html = h,
       em_text = ''Hello'', em_unsubscribe = ''https://x.io/e/u/tok''\<rparr>"
  have s2: "send_claimed sample_env 0 1 sample_request ''bo@y.io'' (sample_workspace 1) ?g ?row \<lparr>wd_db = ?d, wd_wire = []\<rparr> =
     deliver 0 1 sample_request ''bo@y.io'' ?g ?row ?m \<lparr>wd_db = ?d, wd_wire = []\<rparr>"
    by (simp add: send_claimed_def el cp rs rq Let_def)
  have "msg_id ?row = 10" by (simp add: claim_row_def)
  then have "\<exists>wd'. deliver 0 1 sample_request ''bo@y.io'' ?g ?row ?m \<lparr>wd_db = ?d, wd_wire = []\<rparr> =
      (Inr (outcome_result Sent '''' 10), wd') \<and> wd_wire wd' = [?m] \<and> map msg_status (messages (wd_db wd')) = [MsgSent]"
    using hc by (simp add: deliver_def snd record_sent_def count_where_def update_where_def on_wire_def sent_row_def Let_def)
  then show ?thesis unfolding s1 s2 by force
qed

lemma sample_world_wf: "wf_messages (wd_db sample_world)"
  by (simp add: sample_world_def sample_db_def wf_messages_def)


theorem send_idempotent_witness:
  "\<exists>r wd'. send sample_env 0 1 sample_request sample_world = (Inr r, wd') \<and>
     send sample_env 99 1 sample_request wd' = (Inr (r\<lparr>res_replayed := True\<rparr>), wd')"
proof -
  from sample_send obtain wd' where s: "send sample_env 0 1 sample_request sample_world = (Inr (outcome_result Sent '''' 10), wd')"
    by blast
  have "res_message (outcome_result Sent '''' 10) \<noteq> 0" by (simp add: outcome_result_def)
  moreover have "rq_source sample_request = '''' \<or> oe_tracker sample_env \<noteq> None" by (simp add: sample_env_def)
  ultimately have "send sample_env 99 1 sample_request wd' =
      (Inr ((outcome_result Sent '''' 10)\<lparr>res_replayed := True\<rparr>), wd')"
    by (rule send_idempotent [OF sample_world_wf s])
  with s show ?thesis by (intro exI conjI)
qed

theorem reversible_outcomes_witness:
  "\<exists>wd' r. send (sample_env\<lparr>oe_freezers := [\<lambda>_. Some ''billing'']\<rparr>) 0 1 sample_request sample_world = (Inr r, wd') \<and>
     res_outcome r = Held \<and> wd_wire wd' = []"
proof -
  let ?env = "sample_env\<lparr>oe_freezers := [\<lambda>_. Some ''billing'']\<rparr>"
  have rq: "rq_key sample_request = ''broadcast:1:2''" "rq_destination sample_request = ''Bo@y.io''"
    "rq_source sample_request = ''broadcasts''" "rq_contact sample_request = None"
    by (simp_all add: sample_request_def)
  have tk: "oe_tracker ?env = Some sample_tracker" by (simp add: sample_env_def)
  have g: "gate ?env 1 (sample_workspace 1) (rq_from_email sample_request) (rq_from_name sample_request) sample_db = Inr (GateHold ''billing'')"
    by (simp add: gate_def sample_workspace_def)
  have s: "send ?env 0 1 sample_request sample_world = (Inr (outcome_result Held ''billing'' 0), sample_world)"
    by (simp add: send_def validate_request_def sample_strings rq tk sample_world_def sample_lookup final_message_def
        contact_erased_def g Let_def)
  have "res_outcome (outcome_result Held ''billing'' 0) = Held" by (simp add: outcome_result_def)
  with reversible_outcomes [OF sample_world_wf s] s show ?thesis by (auto simp: sample_world_def)
qed

section \<open>Confinement\<close>

lemma foreign_messages_update:
  "(\<And>m. msg_workspace (f m) = msg_workspace m) \<Longrightarrow>
   foreign_view ws (d\<lparr>messages := update_where (in_ws msg_workspace ws p) f (messages d)\<rparr>) = foreign_view ws d"
  by (simp add: foreign_view_def table_simps)

lemma foreign_holds_update:
  assumes "\<And>m. msg_workspace (f m) = msg_workspace m"
  shows "foreign_view ws (d\<lparr>messages := update_where (holds_claim ws c) f (messages d)\<rparr>) = foreign_view ws d"
  using assms unfolding holds_claim_def by (rule foreign_messages_update)

lemma foreign_holds_delete:
  "foreign_view ws (d\<lparr>messages := delete_where (holds_claim ws c) (messages d)\<rparr>) = foreign_view ws d"
  by (simp add: holds_claim_def foreign_view_def table_simps)

lemma foreign_take_over: "foreign_view ws (snd (take_over env now ws m d)) = foreign_view ws d"
  by (simp add: take_over_def Let_def foreign_holds_update split: option.split)

lemma foreign_claim: "foreign_view ws (snd (claim env now ws req dest g existing d)) = foreign_view ws d"
proof -
  have row: "foreign_view ws (d\<lparr>messages := messages d @ [m], next_id := n\<rparr>) = foreign_view ws d"
    if "msg_workspace m = ws" for m n
    using that by (simp add: foreign_view_def table_simps)
  have "msg_workspace (claim_row now ws req dest dmn i) = ws" for dmn i by (simp add: claim_row_def)
  with row show ?thesis using foreign_take_over [of ws env now]
    by (auto simp: claim_def Let_def split: option.split sum.split prod.split) (metis snd_conv)+
qed

lemma foreign_finish: "foreign_view ws (snd (finish ws m st oc reason d)) = foreign_view ws d"
  by (simp add: finish_def Let_def foreign_holds_update)

lemma foreign_release: "foreign_view ws (release ws m d) = foreign_view ws d"
  by (simp add: release_def foreign_holds_update)

lemma foreign_drop: "foreign_view ws (drop_claim ws m d) = foreign_view ws d"
  by (simp add: drop_claim_def foreign_holds_delete)

lemma foreign_record_sent: "foreign_view ws (snd (record_sent now ws req m g dest receipt d)) = foreign_view ws d"
  by (simp add: record_sent_def foreign_holds_update sent_row_def sent_event_def)

lemma foreign_take_token: "foreign_view ws (snd (take_token ws iid l now g d)) = foreign_view ws d"
proof -
  have "(\<lambda>r. limiter_row ws iid r \<and> (g \<longrightarrow> enough l now r)) =
      in_ws sl_workspace ws (\<lambda>r. sl_integration r = iid \<and> (g \<longrightarrow> enough l now r))"
    by (auto simp: limiter_row_def in_ws_def)
  then show ?thesis by (simp add: take_token_def Let_def foreign_view_def table_simps)
qed

lemma foreign_ensure: "foreign_view ws (snd (ensure_limiter ws iid now d)) = foreign_view ws d"
  by (simp add: ensure_limiter_def foreign_view_def table_simps)

text \<open>The same facts about a pair the code takes apart.\<close>

lemma foreign_pairs:
  "take_token ws iid l now gd d = (n, d') \<Longrightarrow> foreign_view ws d' = foreign_view ws d"
  "ensure_limiter ws iid now d = (le, d') \<Longrightarrow> foreign_view ws d' = foreign_view ws d"
  "record_sent now ws req m g dest receipt d = (rr, d') \<Longrightarrow> foreign_view ws d' = foreign_view ws d"
  "finish ws m st oc reason d = (fr, d') \<Longrightarrow> foreign_view ws d' = foreign_view ws d"
  "claim env now ws req dest g existing d = (cr, d') \<Longrightarrow> foreign_view ws d' = foreign_view ws d"
  using foreign_take_token [of ws iid l now gd d] foreign_ensure [of ws iid now d]
    foreign_record_sent [of ws now req m g dest receipt d] foreign_finish [of ws m st oc reason d]
    foreign_claim [of ws env now req dest g existing d] by simp_all

lemma foreign_spend: "foreign_view ws (snd (spend ws iid l now d)) = foreign_view ws d"
  by (auto simp: spend_def foreign_take_token split: prod.split option.split dest!: foreign_pairs)

lemma foreign_reserve_token: "foreign_view ws (snd (reserve_token ws iid l now d)) = foreign_view ws d"
  by (auto simp: reserve_token_def split: prod.split option.split dest!: foreign_pairs)

lemma foreign_reserve: "reserve now ws req i d = (r, d') \<Longrightarrow> foreign_view ws d' = foreign_view ws d"
proof -
  assume r: "reserve now ws req i d = (r, d')"
  have s: "spend ws iid l now d = (e, x) \<Longrightarrow> foreign_view ws x = foreign_view ws d" for iid l e x
    using foreign_spend [of ws iid l now d] by simp
  have t: "reserve_token ws iid l now d = (e, x) \<Longrightarrow> foreign_view ws x = foreign_view ws d" for iid l e x
    using foreign_reserve_token [of ws iid l now d] by simp
  show ?thesis using r by (auto simp: reserve_def Let_def split: option.splits prod.splits sum.splits if_splits dest!: s t)
qed

lemma foreign_deliver: "foreign_view ws (wd_db (snd (deliver now ws req dest g msg m wd))) = foreign_view ws (wd_db wd)"
  by (auto simp: deliver_def Let_def foreign_release foreign_drop split: provider_reply.split prod.split
      dest!: foreign_pairs)

lemma foreign_send_claimed:
  "foreign_view ws (wd_db (snd (send_claimed env now ws req dest w g msg wd))) = foreign_view ws (wd_db wd)"
  by (auto simp: send_claimed_def Let_def foreign_release foreign_drop foreign_deliver
      split: sum.split prod.split dest!: foreign_pairs foreign_reserve)

lemma foreign_send: "foreign_view ws (wd_db (snd (send env now ws req wd))) = foreign_view ws (wd_db wd)"
  by (auto simp: send_def Let_def foreign_send_claimed split: option.split sum.split gate_result.split prod.split
      dest!: foreign_pairs)

interpretation sending: workspace_confined
  "\<lambda>ws (env, now, req) d. wd_db (snd (send env now ws req \<lparr>wd_db = d, wd_wire = []\<rparr>))"
  by unfold_locales (auto simp: foreign_send split: prod.split)

text \<open>A send stays in its Workspace. Whatever Send does for a Workspace, and however often, it
  changes no row, counter or published event of another one; in particular no Outbound message
  of another Workspace is claimed, finished or dropped.\<close>

theorem send_confined:
  "foreign_view ws (wd_db (snd (send env now ws req wd))) = foreign_view ws (wd_db wd) \<and>
   foreign_view ws (fold (\<lambda>(env, now, req) d. wd_db (snd (send env now ws req \<lparr>wd_db = d, wd_wire = []\<rparr>))) calls (wd_db wd)) =
     foreign_view ws (wd_db wd)"
  using sending.confined_fold [of ws calls "wd_db wd"] foreign_send by (simp add: case_prod_beta)

section \<open>One row per key\<close>

lemma wf_take_over: "wf_messages d \<Longrightarrow> wf_messages (snd (take_over env now ws m d))"
proof -
  assume wf: "wf_messages d"
  have "wf_messages (d\<lparr>messages := update_where (holds_claim ws m) (\<lambda>m. m\<lparr>msg_claimed_at := claim_time now\<rparr>) (messages d)\<rparr>)"
    by (rule wf_messages_update [OF wf]) (use wf in \<open>auto simp: wf_messages_def\<close>)
  with wf show ?thesis by (simp add: take_over_def Let_def split: option.split)
qed

lemma wf_claim: "wf_messages d \<Longrightarrow> claim env now ws req dest g existing d = (r, d') \<Longrightarrow> wf_messages d'"
proof -
  assume wf: "wf_messages d" and c: "claim env now ws req dest g existing d = (r, d')"
  have t: "wf_messages x" if "take_over env now ws m d = (e, x)" for m e x
    using wf_take_over [OF wf, of env now ws m] that by simp
  show ?thesis
  proof (cases existing)
    case (Some m)
    with c show ?thesis by (auto simp: claim_def split: prod.splits sum.splits dest!: t)
  next
    case None
    let ?row = "claim_row now ws req dest (g_domain g) (next_id d)"
    have "wf_messages (d\<lparr>messages := messages d @ [?row], next_id := next_id d + 1\<rparr>)"
      if "find_message ws (rq_key req) d = None"
      by (rule wf_messages_insert [OF wf that]) (simp_all add: claim_row_def)
    with None c wf show ?thesis
      by (auto simp: claim_def Let_def split: if_splits option.splits prod.splits sum.splits dest!: t)
  qed
qed

lemma wf_finish:
  "wf_messages d \<Longrightarrow> st \<noteq> MsgPending \<Longrightarrow> finish ws m st oc reason d = (r, d') \<Longrightarrow> wf_messages d'"
proof -
  assume wf: "wf_messages d" and st: "st \<noteq> MsgPending" and f: "finish ws m st oc reason d = (r, d')"
  have "wf_messages (d\<lparr>messages := update_where (holds_claim ws m) (\<lambda>x. x\<lparr>msg_status := st, msg_reason := Some reason\<rparr>) (messages d)\<rparr>)"
    by (rule wf_messages_update [OF wf]) (use st in simp_all)
  with f show ?thesis by (auto simp: finish_def Let_def split: if_splits)
qed

lemma wf_messages_publish: "wf_messages d \<Longrightarrow> wf_messages (publish now ev d)"
  by (auto simp: wf_messages_def publish_def)

lemma wf_record_sent: "wf_messages d \<Longrightarrow> record_sent now ws req m g dest receipt d = (r, d') \<Longrightarrow> wf_messages d'"
proof -
  assume wf: "wf_messages d" and r: "record_sent now ws req m g dest receipt d = (r, d')"
  have "wf_messages (d\<lparr>messages := update_where (holds_claim ws m) (sent_row now g receipt) (messages d)\<rparr>)"
    by (rule wf_messages_update [OF wf]) (simp_all add: sent_row_def)
  from wf_messages_publish [OF this] r wf show ?thesis by (auto simp: record_sent_def split: if_splits)
qed

lemma wf_reserve: "wf_messages d \<Longrightarrow> reserve now ws req i d = (r, d') \<Longrightarrow> wf_messages d'"
  using reserve_messages [of now ws req i d] by (auto simp: wf_messages_def intro: order_less_le_trans)

lemma wf_drop: "wf_messages d \<Longrightarrow> wf_messages (drop_claim ws m d)"
  unfolding drop_claim_def by (rule wf_messages_delete)

lemma wf_deliver: "wf_messages (wd_db wd) \<Longrightarrow> wf_messages (wd_db (snd (deliver now ws req dest g msg m wd)))"
  by (auto simp: deliver_def Let_def release_wf wf_drop split: provider_reply.split prod.split dest: wf_record_sent)

lemma wf_deliver_upd: "wf_messages d \<Longrightarrow> wf_messages (wd_db (snd (deliver now ws req dest g msg m (wd\<lparr>wd_db := d\<rparr>))))"
  by (rule wf_deliver) simp

lemma wf_send_claimed:
  "wf_messages (wd_db wd) \<Longrightarrow> wf_messages (wd_db (snd (send_claimed env now ws req dest w g msg wd)))"
  by (auto simp: send_claimed_def Let_def release_wf wf_drop split: sum.split prod.split
      intro: wf_deliver_upd wf_finish release_wf wf_drop wf_reserve)

lemma wf_send_claimed_upd:
  "wf_messages d \<Longrightarrow> wf_messages (wd_db (snd (send_claimed env now ws req dest w g msg (wd\<lparr>wd_db := d\<rparr>))))"
  by (rule wf_send_claimed) simp

text \<open>The message table keeps one row per (Workspace, key). Send, whatever its outcome or error,
  and the final give-up of a queue worker keep ids and keys unique, new ids fresh, and a pending
  row without a reason; what is already decided is never touched by the give-up.\<close>

theorem one_row_per_key:
  assumes "wf_messages (wd_db wd)"
  shows "wf_messages (wd_db (snd (send env now ws req wd))) \<and>
     wf_messages (mark_failed env now ws key cause (wd_db wd)) \<and>
     (\<forall>m. msg_status m \<noteq> MsgPending \<longrightarrow>
        (m \<in> set (messages (wd_db wd)) \<longrightarrow> m \<in> set (messages (mark_failed env now ws key cause (wd_db wd)))))"
proof (intro conjI)
  show "wf_messages (wd_db (snd (send env now ws req wd)))"
    using assms by (auto simp: send_def Let_def split: option.split sum.split gate_result.split prod.split
        intro: wf_send_claimed_upd wf_claim)
  show "wf_messages (mark_failed env now ws key cause (wd_db wd))"
    unfolding mark_failed_def by (rule wf_messages_update [OF assms]) simp_all
  show "\<forall>m. msg_status m \<noteq> MsgPending \<longrightarrow>
        (m \<in> set (messages (wd_db wd)) \<longrightarrow> m \<in> set (messages (mark_failed env now ws key cause (wd_db wd))))"
    by (auto simp: mark_failed_def update_where_def in_ws_def image_iff)
qed

theorem one_row_per_key_witness:
  "wf_messages (wd_db (snd (send sample_env 0 1 sample_request sample_world)))"
  using one_row_per_key [OF sample_world_wf, of sample_env 0 1 sample_request] by blast

end
