(* ===== verification/OutboundClaims.thy ===== *)
theory OutboundClaims
  imports OutboundSafety
begin

text \<open>
  Several attempts at one Request, interleaved. A retried job, a second worker or a repeated API
  call runs \<open>Send\<close> again under the same key; between two database statements of one attempt any
  number of statements of the others may run, an attempt may crash at any point, a worker may
  give up on the key, and the rest of the system may change everything but the messages.
  Every statement of an attempt is the definition \<open>send\<close> is built from. The clock does not run
  backwards and the lease is at least a microsecond, the precision of a claim's token.
\<close>

section \<open>The interleaved system\<close>

datatype phase =
    Idle
  | ReadKey "outbound_message option"
  | Holding outbound_message
  | Called outbound_message string
  | Finished

record sys =
  sys_db :: db
  sys_phase :: "nat \<Rightarrow> phase"
  sys_clock :: time
  sys_wire :: nat
  sys_sent :: nat

fun holder :: "phase \<Rightarrow> outbound_message option" where
  "holder (Holding m) = Some m"
| "holder (Called m _) = Some m"
| "holder _ = None"

definition move :: "sys \<Rightarrow> nat \<Rightarrow> phase \<Rightarrow> db \<Rightarrow> time \<Rightarrow> sys" where
  "move s a ph d now = s\<lparr>sys_db := d, sys_phase := (sys_phase s)(a := ph), sys_clock := now\<rparr>"

fun after_claim :: "outbound_error + (outbound_message + result) \<Rightarrow> phase" where
  "after_claim (Inr (Inl m)) = Holding m"
| "after_claim _ = Finished"

inductive claim_step :: "outbound_env \<Rightarrow> id \<Rightarrow> request \<Rightarrow> string \<Rightarrow> gate_open \<Rightarrow> sys \<Rightarrow> sys \<Rightarrow> bool"
  for env ws req dest g where
  read: "sys_phase s a = Idle \<Longrightarrow> sys_clock s \<le> now \<Longrightarrow> ex = find_message ws (rq_key req) (sys_db s) \<Longrightarrow>
    claim_step env ws req dest g s (move s a (if final_message ex then Finished else ReadKey ex) (sys_db s) now)"
| take: "sys_phase s a = ReadKey ex \<Longrightarrow> sys_clock s \<le> now \<Longrightarrow>
    claim env now ws req dest g ex (sys_db s) = (res, d') \<Longrightarrow>
    claim_step env ws req dest g s (move s a (after_claim res) d' now)"
| finish: "sys_phase s a = Holding m \<Longrightarrow> sys_clock s \<le> now \<Longrightarrow> st = MsgSkipped \<or> st = MsgFailed \<Longrightarrow>
    claim_step env ws req dest g s (move s a Finished (snd (finish ws m st oc reason (sys_db s))) now)"
| release: "sys_phase s a = Holding m \<Longrightarrow> sys_clock s \<le> now \<Longrightarrow>
    claim_step env ws req dest g s (move s a Finished (release ws m (sys_db s)) now)"
| drop: "sys_phase s a = Holding m \<Longrightarrow> sys_clock s \<le> now \<Longrightarrow>
    claim_step env ws req dest g s (move s a Finished (drop_claim ws m (sys_db s)) now)"
| call: "sys_phase s a = Holding m \<Longrightarrow> sys_clock s \<le> now \<Longrightarrow>
    claim_step env ws req dest g s ((move s a (Called m receipt) (sys_db s) now)\<lparr>sys_wire := sys_wire s + 1\<rparr>)"
| record_step: "sys_phase s a = Called m receipt \<Longrightarrow> sys_clock s \<le> now \<Longrightarrow>
    record_sent now ws req m g dest receipt (sys_db s) = (res, d') \<Longrightarrow>
    claim_step env ws req dest g s
      ((move s a Finished d' now)\<lparr>sys_sent := (case res of Inr _ \<Rightarrow> sys_sent s + 1 | Inl _ \<Rightarrow> sys_sent s)\<rparr>)"
| crash: "sys_clock s \<le> now \<Longrightarrow> claim_step env ws req dest g s (move s a Finished (sys_db s) now)"
| give_up: "sys_clock s \<le> now \<Longrightarrow>
    claim_step env ws req dest g s (s\<lparr>sys_db := mark_failed env now ws (rq_key req) cause (sys_db s), sys_clock := now\<rparr>)"
| other: "messages d' = messages (sys_db s) \<Longrightarrow> next_id (sys_db s) \<le> next_id d' \<Longrightarrow> sys_clock s \<le> now \<Longrightarrow>
    claim_step env ws req dest g s (s\<lparr>sys_db := d', sys_clock := now\<rparr>)"

inductive_cases claim_stepE: "claim_step env ws req dest g s s'"

definition initial_sys :: "db \<Rightarrow> time \<Rightarrow> sys" where
  "initial_sys d now = \<lparr>sys_db = d, sys_phase = (\<lambda>_. Idle), sys_clock = now, sys_wire = 0, sys_sent = 0\<rparr>"

abbreviation reaches :: "outbound_env \<Rightarrow> id \<Rightarrow> request \<Rightarrow> string \<Rightarrow> gate_open \<Rightarrow> sys \<Rightarrow> sys \<Rightarrow> bool" where
  "reaches env ws req dest g \<equiv> (claim_step env ws req dest g)\<^sup>*\<^sup>*"

section \<open>Decided rows are permanent\<close>

text \<open>The row of a decided message, kept by every statement.\<close>

definition decided :: "outbound_message \<Rightarrow> db \<Rightarrow> bool" where
  "decided m d \<longleftrightarrow> m \<in> set (messages d) \<and> msg_status m \<noteq> MsgPending"

lemma decided_update:
  "decided m d \<Longrightarrow> (\<And>x. p x \<Longrightarrow> msg_status x = MsgPending) \<Longrightarrow>
     decided m (d\<lparr>messages := update_where p f (messages d)\<rparr>)"
  by (auto simp: decided_def update_where_def image_iff)

lemma holds_pending: "holds_claim ws c x \<Longrightarrow> msg_status x = MsgPending"
  by (simp add: holds_claim_def in_ws_def)

lemma decided_take_over: "decided m d \<Longrightarrow> decided m (snd (take_over env now ws c d))"
  by (auto simp: take_over_def Let_def intro: decided_update holds_pending split: option.split)

lemma decided_claim: "decided m d \<Longrightarrow> claim env now ws req dest g ex d = (r, d') \<Longrightarrow> decided m d'"
proof -
  assume m: "decided m d" and c: "claim env now ws req dest g ex d = (r, d')"
  have t: "decided m x" if "take_over env now ws c d = (e, x)" for c e x
    using decided_take_over [OF m, of env now ws c] that by simp
  have "decided m (d\<lparr>messages := messages d @ [x], next_id := n\<rparr>)" for x n
    using m by (simp add: decided_def)
  with c m show ?thesis
    by (auto simp: claim_def Let_def split: option.splits if_splits prod.splits sum.splits dest!: t)
qed

lemma decided_finish: "decided m d \<Longrightarrow> decided m (snd (finish ws c st oc reason d))"
  by (simp add: finish_def Let_def decided_update holds_pending)

lemma decided_release: "decided m d \<Longrightarrow> decided m (release ws c d)"
  by (simp add: release_def decided_update holds_pending)

lemma decided_drop: "decided m d \<Longrightarrow> decided m (drop_claim ws c d)"
  by (auto simp: drop_claim_def decided_def table_simps dest: holds_pending)

lemma decided_record: "decided m d \<Longrightarrow> record_sent now ws req c g dest receipt d = (r, d') \<Longrightarrow> decided m d'"
proof -
  assume m: "decided m d" and r: "record_sent now ws req c g dest receipt d = (r, d')"
  have "decided m (d\<lparr>messages := update_where (holds_claim ws c) (sent_row now g receipt) (messages d)\<rparr>)"
    by (rule decided_update [OF m holds_pending])
  with r m show ?thesis by (auto simp: record_sent_def decided_def split: if_splits)
qed

lemma decided_mark_failed: "decided m d \<Longrightarrow> decided m (mark_failed env now ws key cause d)"
  unfolding mark_failed_def by (rule decided_update) (simp_all add: in_ws_def)

lemma decided_step: "claim_step env ws req dest g s s' \<Longrightarrow> decided m (sys_db s) \<Longrightarrow> decided m (sys_db s')"
  by (erule claim_step.cases)
     (auto simp: move_def decided_finish decided_release decided_drop decided_mark_failed
        dest: decided_claim decided_record, simp_all add: decided_def)

section \<open>The invariant\<close>

definition owns :: "id \<Rightarrow> string \<Rightarrow> db \<Rightarrow> id \<Rightarrow> bool" where
  "owns ws key d i \<longleftrightarrow> i < next_id d \<and> (\<forall>r \<in> set (messages d). msg_id r = i \<longrightarrow> key_row ws key r)"

text \<open>An attempt that holds a claim: its token is the row's, or strictly in the past.\<close>

definition holder_ok :: "id \<Rightarrow> string \<Rightarrow> db \<Rightarrow> time \<Rightarrow> outbound_message \<Rightarrow> bool" where
  "holder_ok ws key d now m \<longleftrightarrow> msg_workspace m = ws \<and> owns ws key d (msg_id m) \<and>
     msg_claimed_at m \<le> truncate_micro now \<and>
     (msg_claimed_at m < truncate_micro now \<or> (\<exists>r \<in> set (messages d). holds_claim ws m r))"

definition exclusive :: "(nat \<Rightarrow> phase) \<Rightarrow> bool" where
  "exclusive ph \<longleftrightarrow> (\<forall>a b m n. a \<noteq> b \<and> holder (ph a) = Some m \<and> holder (ph b) = Some n \<and> msg_id m = msg_id n \<longrightarrow>
     msg_claimed_at m \<noteq> msg_claimed_at n)"

definition claims_inv :: "id \<Rightarrow> string \<Rightarrow> sys \<Rightarrow> bool" where
  "claims_inv ws key s \<longleftrightarrow> wf_messages (sys_db s) \<and>
     (\<forall>a m. holder (sys_phase s a) = Some m \<longrightarrow> holder_ok ws key (sys_db s) (sys_clock s) m) \<and>
     (\<forall>a x. sys_phase s a = ReadKey (Some x) \<longrightarrow> owns ws key (sys_db s) (msg_id x)) \<and>
     exclusive (sys_phase s) \<and> sys_sent s \<le> 1 \<and>
     (0 < sys_sent s \<longrightarrow> (\<exists>r. decided r (sys_db s) \<and> key_row ws key r \<and> msg_status r = MsgSent))"

lemma owns_update:
  "owns ws key d i \<Longrightarrow> (\<And>m. msg_id (f m) = msg_id m) \<Longrightarrow> (\<And>m. msg_workspace (f m) = msg_workspace m) \<Longrightarrow>
   (\<And>m. msg_key (f m) = msg_key m) \<Longrightarrow> owns ws key (d\<lparr>messages := update_where p f (messages d)\<rparr>) i"
  by (auto simp: owns_def update_where_def key_row_def in_ws_def)

lemma owns_same: "owns ws key d i \<Longrightarrow> messages d' = messages d \<Longrightarrow> next_id d \<le> next_id d' \<Longrightarrow> owns ws key d' i"
  by (auto simp: owns_def)

lemma owns_delete: "owns ws key d i \<Longrightarrow> owns ws key (d\<lparr>messages := delete_where p (messages d)\<rparr>) i"
  by (auto simp: owns_def table_simps)

lemma owns_insert: "owns ws key d i \<Longrightarrow> msg_id m = next_id d \<Longrightarrow>
    owns ws key (d\<lparr>messages := messages d @ [m], next_id := next_id d + 1\<rparr>) i"
  by (auto simp: owns_def)

lemma holder_ok_step:
  assumes "holder_ok ws key d clock m" and "clock \<le> now" and "owns ws key d' (msg_id m)"
    and "\<And>r. r \<in> set (messages d) \<Longrightarrow> holds_claim ws m r \<Longrightarrow> r \<in> set (messages d') \<or> msg_claimed_at m < truncate_micro now"
  shows "holder_ok ws key d' now m"
  using assms truncate_micro_mono [OF assms(2)] by (auto simp: holder_ok_def intro: order_trans order_less_le_trans)

lemma update_keeps: "r \<in> set rows \<Longrightarrow> \<not> p r \<Longrightarrow> r \<in> set (update_where p f rows)"
  by (auto simp: update_where_def image_iff)

lemma holds_same_token:
  "holds_claim ws m r \<Longrightarrow> holds_claim ws n r \<Longrightarrow> msg_id m = msg_id n \<and> msg_claimed_at m = msg_claimed_at n"
  by (simp add: holds_claim_def in_ws_def)

lemma lease_strict:
  assumes "1000 \<le> lease" and "c \<le> now - lease"
  shows "c < truncate_micro now"
  using truncate_micro_bounds [of now] assms by linarith

lemma take_over_effect:
  assumes "wf_messages d" and "take_over env now ws x d = (Inr m, d')"
  shows "\<exists>r \<in> set (messages d). holds_claim ws x r \<and> m = r\<lparr>msg_claimed_at := claim_time now\<rparr> \<and>
     msg_claimed_at r \<le> now - oe_lease env \<and> m \<in> set (messages d') \<and> msg_workspace m = ws \<and> holds_claim ws m m"
    and "d' = d\<lparr>messages := update_where (holds_claim ws x) (\<lambda>m. m\<lparr>msg_claimed_at := claim_time now\<rparr>) (messages d)\<rparr>"
proof -
  let ?f = "\<lambda>m. m\<lparr>msg_claimed_at := claim_time now\<rparr>"
  let ?d = "d\<lparr>messages := update_where (holds_claim ws x) ?f (messages d)\<rparr>"
  show d': "d' = ?d" using assms(2) by (auto simp: take_over_def Let_def split: if_splits option.splits)
  have f: "find_where (in_ws msg_workspace ws (\<lambda>y. msg_id y = msg_id x)) (messages ?d) = Some m"
    and lease: "msg_claimed_at x \<le> now - oe_lease env"
    and cnt: "0 < count_where (holds_claim ws x) (messages d)"
    using assms(2) by (auto simp: take_over_def Let_def split: if_splits option.splits)
  obtain r where r: "r \<in> set (messages d)" "holds_claim ws x r" using cnt by (auto simp: count_where_pos_iff)
  have "find_where (in_ws msg_workspace ws (\<lambda>y. msg_id y = msg_id x)) (messages d) = Some r"
    by (rule find_where_eq [where g = msg_id]) (use assms(1) r in \<open>auto simp: wf_messages_def holds_claim_def in_ws_def\<close>)
  then have m: "m = ?f r" using f r by (simp add: find_where_update in_ws_def)
  have "?f r \<in> set (messages ?d)" using r by (auto simp: update_where_def image_iff)
  then show "\<exists>r \<in> set (messages d). holds_claim ws x r \<and> m = ?f r \<and> msg_claimed_at r \<le> now - oe_lease env \<and>
      m \<in> set (messages d') \<and> msg_workspace m = ws \<and> holds_claim ws m m"
    using r m d' lease by (auto simp: holds_claim_def in_ws_def)
qed

text \<open>An attempt that takes a claim: the new token is not another live attempt's, and the others
  keep theirs or become stale.\<close>

lemma take_over_others:
  assumes "wf_messages d" and "take_over env now ws x d = (Inr m, d')" and "1000 \<le> oe_lease env"
    and "holder_ok ws key d clock n" and "clock \<le> now"
  shows "holder_ok ws key d' now n \<and> (msg_id n = msg_id m \<longrightarrow> msg_claimed_at n \<noteq> msg_claimed_at m)"
proof -
  obtain r where r: "r \<in> set (messages d)" "holds_claim ws x r" "m = r\<lparr>msg_claimed_at := claim_time now\<rparr>"
    "msg_claimed_at r \<le> now - oe_lease env"
    using take_over_effect(1) [OF assms(1,2)] by blast
  note d' = take_over_effect(2) [OF assms(1,2)]
  have same: "y = r" if "y \<in> set (messages d)" "msg_id y = msg_id r" for y
    using that r(1) assms(1) by (auto simp: wf_messages_def distinct_map inj_on_def)
  have old: "msg_claimed_at r < truncate_micro now" by (rule lease_strict [OF assms(3) r(4)])
  have "owns ws key d' (msg_id n)"
    unfolding d' by (rule owns_update) (use assms(4) in \<open>simp_all add: holder_ok_def\<close>)
  moreover have "y \<in> set (messages d') \<or> msg_claimed_at n < truncate_micro now"
    if y: "y \<in> set (messages d)" "holds_claim ws n y" for y
  proof (cases "holds_claim ws x y")
    case True
    then have "msg_id y = msg_id r" using r(2) by (simp add: holds_claim_def in_ws_def)
    then have "y = r" using same y(1) by blast
    then show ?thesis using old y(2) by (simp add: holds_claim_def in_ws_def)
  next
    case False
    then show ?thesis using y(1) by (simp add: d' update_keeps)
  qed
  ultimately have ok: "holder_ok ws key d' now n" by (rule holder_ok_step [OF assms(4,5)])
  have "msg_claimed_at n < truncate_micro now" if "msg_id n = msg_id m"
  proof -
    consider "msg_claimed_at n < truncate_micro clock" | y where "y \<in> set (messages d)" "holds_claim ws n y"
      using assms(4) by (auto simp: holder_ok_def)
    then show ?thesis
    proof cases
      case 1
      then show ?thesis using truncate_micro_mono [OF assms(5)] by simp
    next
      case 2
      then have "msg_id y = msg_id r" using that r(3) by (simp add: holds_claim_def in_ws_def)
      then have "y = r" using same 2(1) by blast
      then show ?thesis using old 2(2) by (simp add: holds_claim_def in_ws_def)
    qed
  qed
  with ok r(3) show ?thesis by (auto simp: claim_time_def)
qed

lemma take_over_error:
  assumes "wf_messages d" and "take_over env now ws x d = (Inl e, d')"
  shows "d' = d"
proof (cases "now - msg_claimed_at x < oe_lease env \<or> count_where (holds_claim ws x) (messages d) = 0")
  case True
  have "update_where (holds_claim ws x) f (messages d) = messages d"
    if "count_where (holds_claim ws x) (messages d) = 0" for f
    using that by (intro update_where_no_match) (simp add: table_simps)
  with True assms(2) show ?thesis by (auto simp: take_over_def Let_def split: if_splits)
next
  case False
  then obtain r where r: "r \<in> set (messages d)" "holds_claim ws x r" by (auto simp: table_simps)
  have "find_where (in_ws msg_workspace ws (\<lambda>y. msg_id y = msg_id x)) (messages d) = Some r"
    by (rule find_where_eq [where g = msg_id]) (use assms(1) r in \<open>auto simp: wf_messages_def holds_claim_def in_ws_def\<close>)
  then have "find_where (in_ws msg_workspace ws (\<lambda>y. msg_id y = msg_id x))
      (update_where (holds_claim ws x) (\<lambda>m. m\<lparr>msg_claimed_at := claim_time now\<rparr>) (messages d)) \<noteq> None"
    by (simp add: find_where_update in_ws_def)
  with False assms(2) show ?thesis by (auto simp: take_over_def Let_def split: if_splits option.splits)
qed

lemma claim_cases:
  assumes "wf_messages d" and "claim env now ws req dest g ex d = (res, d')"
  obtains (none) "d' = d" "holder (after_claim res) = None"
    | (insert) row where "find_message ws (rq_key req) d = None" "res = Inr (Inl row)"
        "row = claim_row now ws req dest (g_domain g) (next_id d)"
        "d' = d\<lparr>messages := messages d @ [row], next_id := next_id d + 1\<rparr>"
    | (taken) x m where "take_over env now ws x d = (Inr m, d')" "res = Inr (Inl m)"
        "ex = Some x \<or> find_message ws (rq_key req) d = Some x"
proof -
  have tk: thesis
    if t: "take_over env now ws x d = (e, d1)" and x: "ex = Some x \<or> find_message ws (rq_key req) d = Some x"
      and c: "(res, d') = (case e of Inl err \<Rightarrow> (Inl err, d1) | Inr m \<Rightarrow> (Inr (Inl m), d1))" for x e d1
  proof (cases e)
    case (Inl err)
    have "d1 = d" using take_over_error [OF assms(1)] t Inl by blast
    with c Inl show thesis by (intro none) simp_all
  next
    case (Inr m)
    with c t x show thesis by (intro taken [of x m]) simp_all
  qed
  show thesis
  proof (cases ex)
    case (Some x)
    obtain e d1 where t: "take_over env now ws x d = (e, d1)" by (cases "take_over env now ws x d")
    have "(res, d') = (case e of Inl err \<Rightarrow> (Inl err, d1) | Inr m \<Rightarrow> (Inr (Inl m), d1))"
      using assms(2) by (simp add: claim_def Some t split: sum.split)
    with Some show thesis by (intro tk [OF t]) simp_all
  next
    case None
    let ?row = "claim_row now ws req dest (g_domain g) (next_id d)"
    show thesis
    proof (cases "refs_ok env ws ?row d")
      case False
      with assms(2) None show thesis by (intro none) (simp_all add: claim_def Let_def, auto)
    next
      case refs: True
      show thesis
      proof (cases "find_message ws (rq_key req) d")
        case ins: None
        with assms(2) None refs show thesis by (intro insert [of ?row]) (simp_all add: claim_def Let_def)
      next
        case (Some x)
        obtain e d1 where t: "take_over env now ws x d = (e, d1)" by (cases "take_over env now ws x d")
        show thesis
        proof (cases "msg_status x = MsgPending")
          case False
          with assms(2) None refs Some show thesis by (intro none) (simp_all add: claim_def Let_def, auto)
        next
          case True
          have "(res, d') = (case e of Inl err \<Rightarrow> (Inl err, d1) | Inr m \<Rightarrow> (Inr (Inl m), d1))"
            using assms(2) by (simp add: claim_def Let_def None refs Some True t split: sum.split)
          with Some show thesis by (intro tk [OF t]) simp_all
        qed
      qed
    qed
  qed
qed

text \<open>One shape for the steps of an attempt that gives up its claim, or that had none: the mover's
  new phase holds nothing and the others' claims survive or are stale.\<close>

lemma inv_move_free:
  assumes "claims_inv ws key s" and "sys_clock s \<le> now" and "wf_messages d'"
    and "\<And>i. owns ws key (sys_db s) i \<Longrightarrow> owns ws key d' i"
    and "\<And>r. decided r (sys_db s) \<Longrightarrow> decided r d'"
    and "\<And>b n r. b \<noteq> a \<Longrightarrow> holder (sys_phase s b) = Some n \<Longrightarrow> r \<in> set (messages (sys_db s)) \<Longrightarrow> holds_claim ws n r \<Longrightarrow>
        r \<in> set (messages d') \<or> msg_claimed_at n < truncate_micro now"
    and "holder ph = None" and "\<And>x. ph = ReadKey (Some x) \<Longrightarrow> owns ws key d' (msg_id x)"
  shows "claims_inv ws key (move s a ph d' now)"
proof -
  note inv = assms(1) [unfolded claims_inv_def]
  have "holder_ok ws key d' now m" if "holder (((sys_phase s)(a := ph)) b) = Some m" for b m
  proof -
    have b: "b \<noteq> a" "holder (sys_phase s b) = Some m" using that assms(7) by (auto split: if_splits)
    then have ok: "holder_ok ws key (sys_db s) (sys_clock s) m" using inv by blast
    show ?thesis
      by (rule holder_ok_step [OF ok assms(2)]) (use assms(4,6) b ok in \<open>auto simp: holder_ok_def\<close>)
  qed
  moreover have "owns ws key d' (msg_id x)" if "((sys_phase s)(a := ph)) b = ReadKey (Some x)" for b x
    using that inv assms(4,8) by (auto split: if_splits)
  moreover have "exclusive ((sys_phase s)(a := ph))"
    using inv assms(7) by (auto simp: exclusive_def)
  moreover have "0 < sys_sent s \<longrightarrow> (\<exists>r. decided r d' \<and> key_row ws key r \<and> msg_status r = MsgSent)"
    using inv assms(5) by blast
  ultimately show ?thesis using inv assms(3) by (simp add: claims_inv_def move_def)
qed

text \<open>The steps that write through the fence: other live attempts hold other tokens.\<close>

lemma fenced_others:
  assumes "claims_inv ws key s" and "holder (sys_phase s a) = Some m" and "b \<noteq> a"
    and "holder (sys_phase s b) = Some n" and "holds_claim ws n r"
  shows "\<not> holds_claim ws m r"
  using assms holds_same_token [of ws m r n] unfolding claims_inv_def exclusive_def by metis

lemma inv_fenced_update:
  assumes "claims_inv ws key s" and "holder (sys_phase s a) = Some m" and "sys_clock s \<le> now"
    and "\<And>x. msg_id (f x) = msg_id x" and "\<And>x. msg_workspace (f x) = msg_workspace x" and "\<And>x. msg_key (f x) = msg_key x"
    and "d' = (sys_db s)\<lparr>messages := update_where (holds_claim ws m) f (messages (sys_db s))\<rparr>"
    and "wf_messages d'" and "holder ph = None" and "\<And>x. ph \<noteq> ReadKey (Some x)"
  shows "claims_inv ws key (move s a ph d' now)"
proof (rule inv_move_free [OF assms(1,3,8)])
  show "owns ws key d' i" if "owns ws key (sys_db s) i" for i
    unfolding assms(7) by (rule owns_update [OF that assms(4-6)])
  show "decided r d'" if "decided r (sys_db s)" for r
    unfolding assms(7) by (rule decided_update [OF that holds_pending])
  show "r \<in> set (messages d') \<or> msg_claimed_at n < truncate_micro now"
    if "b \<noteq> a" "holder (sys_phase s b) = Some n" "r \<in> set (messages (sys_db s))" "holds_claim ws n r" for b n r
    using fenced_others [OF assms(1,2) that(1,2,4)] that(3) by (simp add: assms(7) update_keeps)
qed (use assms(9,10) in auto)

lemma inv_same_db:
  assumes "claims_inv ws key s" and "sys_clock s \<le> now" and "holder ph = None"
    and "\<And>x. ph = ReadKey (Some x) \<Longrightarrow> owns ws key (sys_db s) (msg_id x)"
  shows "claims_inv ws key (move s a ph (sys_db s) now)"
  by (rule inv_move_free [OF assms(1,2)]) (use assms in \<open>auto simp: claims_inv_def\<close>)

lemma exclusive_add:
  assumes "exclusive ph" and "holder p = Some m"
    and new: "\<And>b n. b \<noteq> a \<Longrightarrow> holder (ph b) = Some n \<Longrightarrow> msg_id n = msg_id m \<Longrightarrow> msg_claimed_at n \<noteq> msg_claimed_at m"
  shows "exclusive (ph(a := p))"
  unfolding exclusive_def
proof (intro allI impI)
  fix b c n k
  assume h: "b \<noteq> c \<and> holder ((ph(a := p)) b) = Some n \<and> holder ((ph(a := p)) c) = Some k \<and> msg_id n = msg_id k"
  consider "b = a" "c \<noteq> a" | "c = a" "b \<noteq> a" | "b \<noteq> a" "c \<noteq> a" using h by blast
  then show "msg_claimed_at n \<noteq> msg_claimed_at k"
  proof cases
    case 1
    with h assms(2) new [of c k] show ?thesis by auto
  next
    case 2
    with h assms(2) new [of b n] show ?thesis by auto
  next
    case 3
    with h assms(1) [unfolded exclusive_def, rule_format, of b c n k] show ?thesis by simp
  qed
qed

lemma inv_take:
  assumes inv: "claims_inv ws (rq_key req) s" and ph: "sys_phase s a = ReadKey ex" and clk: "sys_clock s \<le> now"
    and c: "claim env now ws req dest g ex (sys_db s) = (res, d')" and lease: "1000 \<le> oe_lease env"
  shows "claims_inv ws (rq_key req) (move s a (after_claim res) d' now)"
proof -
  let ?key = "rq_key req" and ?d = "sys_db s"
  have wf: "wf_messages ?d" and wf': "wf_messages d'"
    using inv wf_claim [OF _ c] by (simp_all add: claims_inv_def)
  note parts = inv [unfolded claims_inv_def]
  show ?thesis
    using wf c
  proof (cases rule: claim_cases)
    case none
    then show ?thesis using inv_same_db [OF inv clk none(2)] by (cases res rule: after_claim.cases) auto
  next
    case (insert row)
    have row: "msg_id row = next_id ?d" "holds_claim ws row row" "msg_workspace row = ws"
      "msg_claimed_at row = truncate_micro now" "key_row ws ?key row"
      using insert(3) by (simp_all add: claim_row_def holds_claim_def in_ws_def claim_time_def key_row_def)
    have fresh: "msg_id r < next_id ?d" if "r \<in> set (messages ?d)" for r
      using wf that by (auto simp: wf_messages_def)
    have others: "holder_ok ws ?key d' now n" if "holder (sys_phase s b) = Some n" for b n
      by (rule holder_ok_step [where d = ?d and clock = "sys_clock s"])
         (use parts that clk insert row in \<open>auto simp: holder_ok_def intro: owns_insert\<close>)
    have mine: "holder_ok ws ?key d' now row"
      using row by (auto simp: holder_ok_def owns_def insert(4) dest: fresh)
    have other_id: "msg_id n < next_id ?d" if "holder (sys_phase s b) = Some n" for b n
      using parts that by (auto simp: holder_ok_def owns_def)
    have ex: "exclusive ((sys_phase s)(a := Holding row))"
      by (rule exclusive_add [where m = row]) (use parts row(1) in \<open>auto dest: other_id\<close>)
    show ?thesis
      using parts wf' insert others mine ex row(1)
      by (auto simp: claims_inv_def move_def decided_def intro: owns_insert split: if_splits)
  next
    case (taken x m)
    obtain r where r: "r \<in> set (messages ?d)" "holds_claim ws x r" "m = r\<lparr>msg_claimed_at := claim_time now\<rparr>"
      "m \<in> set (messages d')" "msg_workspace m = ws" "holds_claim ws m m"
      using take_over_effect(1) [OF wf taken(1)] by blast
    note d' = take_over_effect(2) [OF wf taken(1)]
    have ownsx: "owns ws ?key ?d (msg_id x)"
    proof -
      have "owns ws ?key ?d (msg_id y)" if "find_message ws ?key ?d = Some y" for y
      proof -
        have y: "y \<in> set (messages ?d)" "key_row ws ?key y"
          using find_message_SomeD [OF that] by (simp_all add: key_row_def in_ws_def)
        have "z = y" if "z \<in> set (messages ?d)" "msg_id z = msg_id y" for z
          using that y(1) wf by (auto simp: wf_messages_def distinct_map inj_on_def)
        with y wf show ?thesis by (auto simp: owns_def wf_messages_def)
      qed
      with taken(3) ph parts show ?thesis by blast
    qed
    have keep: "owns ws ?key d' i" if "owns ws ?key ?d i" for i
      unfolding d' by (rule owns_update [OF that]) simp_all
    have mid: "msg_id m = msg_id x" using r(2,3) by (simp add: holds_claim_def in_ws_def)
    have mine: "holder_ok ws ?key d' now m"
      using keep [OF ownsx] r mid by (auto simp: holder_ok_def claim_time_def)
    have others: "holder_ok ws ?key d' now n \<and> (msg_id n = msg_id m \<longrightarrow> msg_claimed_at n \<noteq> msg_claimed_at m)"
      if "holder (sys_phase s b) = Some n" for b n
      by (rule take_over_others [OF wf taken(1) lease _ clk]) (use parts that in blast)
    have ex: "exclusive ((sys_phase s)(a := Holding m))"
      by (rule exclusive_add [where m = m]) (use parts others in auto)
    have "decided q d'" if "decided q ?d" for q by (rule decided_claim [OF that c])
    then have sent: "0 < sys_sent s \<longrightarrow> (\<exists>q. decided q d' \<and> key_row ws ?key q \<and> msg_status q = MsgSent)"
      using parts by blast
    show ?thesis
      using parts wf' taken(2) others mine ex sent keep
      by (auto simp: claims_inv_def move_def split: if_splits)
  qed
qed

lemma inv_step:
  assumes "claim_step env ws req dest g s s'" and "claims_inv ws (rq_key req) s"
    and "1000 \<le> oe_lease env"
  shows "claims_inv ws (rq_key req) s'"
  using assms(1)
proof cases
  case (read a now ex)
  have "owns ws (rq_key req) (sys_db s) (msg_id x)" if x: "find_message ws (rq_key req) (sys_db s) = Some x" for x
  proof -
    have wf: "wf_messages (sys_db s)" using assms(2) by (simp add: claims_inv_def)
    have m: "x \<in> set (messages (sys_db s))" "key_row ws (rq_key req) x"
      using find_message_SomeD [OF x] by (simp_all add: key_row_def in_ws_def)
    have "y = x" if "y \<in> set (messages (sys_db s))" "msg_id y = msg_id x" for y
      using that m(1) wf by (auto simp: wf_messages_def distinct_map inj_on_def)
    with m wf show ?thesis by (auto simp: owns_def wf_messages_def)
  qed
  with read show ?thesis
    by (auto simp del: fun_upd_apply intro!: inv_same_db [OF assms(2)] split: if_splits)
next
  case (take a ex now res d')
  then show ?thesis using inv_take [OF assms(2) _ _ _ assms(3)] by simp
next
  case (finish a m now st oc reason)
  let ?f = "\<lambda>x. x\<lparr>msg_status := st, msg_reason := Some reason\<rparr>"
  have wf: "wf_messages (sys_db s)" using assms(2) by (simp add: claims_inv_def)
  have d': "snd (finish ws m st oc reason (sys_db s)) =
      (sys_db s)\<lparr>messages := update_where (holds_claim ws m) ?f (messages (sys_db s))\<rparr>"
    by (simp add: finish_def Let_def)
  have "wf_messages (snd (finish ws m st oc reason (sys_db s)))"
    unfolding d' by (rule wf_messages_update [OF wf]) (use finish(4) in auto)
  then show ?thesis
    unfolding finish(1) by (intro inv_fenced_update [OF assms(2) _ finish(3) _ _ _ d']) (use finish in simp_all)
next
  case (release a m now)
  have "wf_messages (release ws m (sys_db s))" by (rule release_wf) (use assms(2) in \<open>simp add: claims_inv_def\<close>)
  then show ?thesis
    unfolding release(1)
    by (intro inv_fenced_update [OF assms(2) _ release(3), where f = "\<lambda>x. x\<lparr>msg_claimed_at := 0\<rparr>"])
       (use release in \<open>simp_all add: release_def\<close>)
next
  case (drop a m now)
  show ?thesis unfolding drop(1)
  proof (rule inv_move_free [OF assms(2) drop(3)])
    show "wf_messages (drop_claim ws m (sys_db s))" by (rule wf_drop) (use assms(2) in \<open>simp add: claims_inv_def\<close>)
    show "owns ws (rq_key req) (drop_claim ws m (sys_db s)) i" if "owns ws (rq_key req) (sys_db s) i" for i
      using that by (simp add: drop_claim_def owns_delete)
    show "decided r (drop_claim ws m (sys_db s))" if "decided r (sys_db s)" for r using that by (rule decided_drop)
    show "r \<in> set (messages (drop_claim ws m (sys_db s))) \<or> msg_claimed_at n < truncate_micro now"
      if "b \<noteq> a" "holder (sys_phase s b) = Some n" "r \<in> set (messages (sys_db s))" "holds_claim ws n r" for b n r
      using fenced_others [OF assms(2) _ that(1,2,4), of m] drop(2) that(3) by (simp add: drop_claim_def table_simps)
  qed simp_all
next
  case (call a m now receipt)
  have h: "holder (((sys_phase s)(a := Called m receipt)) b) = holder (sys_phase s b)" for b
    using call(2) by simp
  have ok: "holder_ok ws (rq_key req) (sys_db s) now n" if "holder_ok ws (rq_key req) (sys_db s) (sys_clock s) n" for n
    by (rule holder_ok_step [OF that call(3)]) (use that in \<open>auto simp: holder_ok_def\<close>)
  have "exclusive ((sys_phase s)(a := Called m receipt))"
    using assms(2) unfolding claims_inv_def exclusive_def h by blast
  moreover have "\<forall>b n. holder (((sys_phase s)(a := Called m receipt)) b) = Some n \<longrightarrow> holder_ok ws (rq_key req) (sys_db s) now n"
    using assms(2) ok unfolding claims_inv_def h by blast
  ultimately show ?thesis
    using assms(2) by (auto simp: call(1) claims_inv_def move_def)
next
  case (record_step a m receipt now res d')
  have wf: "wf_messages (sys_db s)" using assms(2) by (simp add: claims_inv_def)
  have wf': "wf_messages d'" by (rule wf_record_sent [OF wf record_step(4)])
  have hold: "holder (sys_phase s a) = Some m" using record_step(2) by simp
  show ?thesis
  proof (cases "count_where (holds_claim ws m) (messages (sys_db s)) = 0")
    case True
    then have "d' = sys_db s" "res = Inl InProgress" using record_step(4) by (auto simp: record_sent_def)
    with inv_same_db [OF assms(2) record_step(3), of Finished a] show ?thesis
      by (simp add: record_step(1) claims_inv_def move_def)
  next
    case False
    let ?d1 = "(sys_db s)\<lparr>messages := update_where (holds_claim ws m) (sent_row now g receipt) (messages (sys_db s))\<rparr>"
    obtain r where r: "r \<in> set (messages (sys_db s))" "holds_claim ws m r" using False by (auto simp: table_simps)
    have d': "d' = publish now (sent_event ws req m g dest receipt) ?d1" and res: "\<exists>x. res = Inr x"
      using record_step(4) False by (auto simp: record_sent_def)
    have wf1: "wf_messages ?d1" by (rule wf_messages_update [OF wf]) (simp_all add: sent_row_def)
    have inv1: "claims_inv ws (rq_key req) (move s a Finished ?d1 now)"
      by (rule inv_fenced_update [OF assms(2) hold record_step(3) _ _ _ refl wf1]) (simp_all add: sent_row_def)
    have ids: "messages d' = messages ?d1" "next_id ?d1 \<le> next_id d'" by (simp_all add: d' publish_def)
    have key: "key_row ws (rq_key req) r"
      using assms(2) hold r unfolding claims_inv_def holder_ok_def owns_def holds_claim_def in_ws_def by blast
    have "sys_sent s = 0"
    proof (rule ccontr)
      assume "sys_sent s \<noteq> 0"
      then obtain q where q: "decided q (sys_db s)" "key_row ws (rq_key req) q"
        using assms(2) by (auto simp: claims_inv_def)
      then have "q = r" using key r(1) wf
        by (auto simp: decided_def wf_messages_def distinct_map inj_on_def key_row_def in_ws_def)
      with q(1) r(2) show False by (simp add: decided_def holds_claim_def in_ws_def)
    qed
    moreover have "decided (sent_row now g receipt r) d' \<and> key_row ws (rq_key req) (sent_row now g receipt r) \<and>
        msg_status (sent_row now g receipt r) = MsgSent"
      using r key ids(1) by (auto simp: decided_def sent_row_def key_row_def in_ws_def update_where_def image_iff)
    moreover have ho: "holder_ok ws (rq_key req) d' now n" if "holder_ok ws (rq_key req) ?d1 now n" for n
      using that ids owns_same [OF _ ids] by (auto simp: holder_ok_def)
    ultimately show ?thesis
      using inv1 wf' res owns_same [OF _ ids]
      by (auto simp: record_step(1) claims_inv_def move_def)
  qed
next
  case (crash now a)
  then show ?thesis using inv_same_db [OF assms(2) crash(2), of Finished a] by simp
next
  case (give_up now cause)
  let ?d = "mark_failed env now ws (rq_key req) cause (sys_db s)"
  have wf: "wf_messages (sys_db s)" using assms(2) by (simp add: claims_inv_def)
  have wf': "wf_messages ?d" unfolding mark_failed_def by (rule wf_messages_update [OF wf]) simp_all
  have own: "owns ws (rq_key req) ?d i" if "owns ws (rq_key req) (sys_db s) i" for i
    unfolding mark_failed_def by (rule owns_update [OF that]) simp_all
  have ok: "holder_ok ws (rq_key req) ?d now n" if n: "holder_ok ws (rq_key req) (sys_db s) (sys_clock s) n" for n
  proof (rule holder_ok_step [OF n give_up(2)])
    show "owns ws (rq_key req) ?d (msg_id n)" using n own by (simp add: holder_ok_def)
    fix r assume r: "r \<in> set (messages (sys_db s))" "holds_claim ws n r"
    have "truncate_micro (now - oe_lease env) \<le> truncate_micro now"
      by (rule truncate_micro_mono) (use assms(3) in simp)
    then show "r \<in> set (messages ?d) \<or> msg_claimed_at n < truncate_micro now"
      using r by (cases "msg_claimed_at r < truncate_micro (now - oe_lease env)")
        (auto simp: mark_failed_def holds_claim_def in_ws_def intro!: update_keeps)
  qed
  show ?thesis
    using assms(2) wf' own ok decided_mark_failed
    by (auto simp: give_up(1) claims_inv_def) blast
next
  case (other d' now)
  have own: "owns ws (rq_key req) d' i" if "owns ws (rq_key req) (sys_db s) i" for i
    by (rule owns_same [OF that other(2,3)])
  have ok: "holder_ok ws (rq_key req) d' now n" if n: "holder_ok ws (rq_key req) (sys_db s) (sys_clock s) n" for n
    by (rule holder_ok_step [OF n other(4)]) (use n own other(2) in \<open>auto simp: holder_ok_def\<close>)
  have "wf_messages d'" using assms(2) other(2,3) by (auto simp: claims_inv_def wf_messages_def intro: order_less_le_trans)
  then show ?thesis
    using assms(2) own ok other(2) by (auto simp: other(1) claims_inv_def decided_def)
qed

section \<open>Every reachable state\<close>

lemma initial_inv: "wf_messages d \<Longrightarrow> claims_inv ws key (initial_sys d now)"
  by (simp add: claims_inv_def initial_sys_def exclusive_def)

lemma reaches_inv:
  assumes "reaches env ws req dest g s s'" and "claims_inv ws (rq_key req) s" and "1000 \<le> oe_lease env"
  shows "claims_inv ws (rq_key req) s'"
  using assms(1,2) by (induction rule: rtranclp_induct) (auto intro: inv_step assms(3))

lemma reaches_decided: "reaches env ws req dest g s s' \<Longrightarrow> decided m (sys_db s) \<Longrightarrow> decided m (sys_db s')"
  by (induction rule: rtranclp_induct) (auto intro: decided_step)

text \<open>Two holders of one row never both pass the fence.\<close>

lemma inv_fence:
  assumes "claims_inv ws key s" and "a \<noteq> b" and "holder (sys_phase s a) = Some m" and "holder (sys_phase s b) = Some n"
    and "holds_claim ws m r"
  shows "\<not> holds_claim ws n r"
  using fenced_others [OF assms(1,3) assms(2) [symmetric] assms(4)] assms(5) by blast

lemma holder_key:
  assumes "claims_inv ws key s" and "holder (sys_phase s a) = Some m" and "r \<in> set (messages (sys_db s))"
    and "holds_claim ws m r"
  shows "key_row ws key r"
  using assms unfolding claims_inv_def holder_ok_def owns_def holds_claim_def in_ws_def by blast

lemma find_message_unique:
  assumes "wf_messages d" and "m \<in> set (messages d)" and "key_row ws key m"
  shows "find_message ws key d = Some m"
proof -
  have "find_where (key_row ws key) (messages d) \<noteq> None"
    using assms(2,3) by (auto simp: table_simps)
  then obtain x where x: "find_message ws key d = Some x" by (auto simp: find_message_def)
  then have "x \<in> set (messages d)" "key_row ws key x" using find_message_SomeD [OF x] by (simp_all add: key_row_def in_ws_def)
  with assms have "x = m" by (auto simp: wf_messages_def distinct_map inj_on_def key_row_def in_ws_def)
  with x show ?thesis by simp
qed

text \<open>A concrete run: attempt 1 reads and claims, stalls past the lease; attempt 2 reads the row,
  takes the claim over, calls the provider and records; attempt 1's late call finds the row
  decided.\<close>


definition sample_row :: outbound_message where
  "sample_row = claim_row 0 1 sample_request ''bo@y.io'' ''x.io'' 10"

definition sample_taken :: outbound_message where
  "sample_taken = sample_row\<lparr>msg_claimed_at := 5 * minute\<rparr>"

definition sample_claimed_db :: "outbound_message \<Rightarrow> db" where
  "sample_claimed_db r = sample_db\<lparr>messages := [r], next_id := 11\<rparr>"

text \<open>Attempt 1 after its read and its claim; then attempt 2 five minutes later.\<close>

definition sample_first :: sys where
  "sample_first = move (move (initial_sys sample_db 0) 1 (ReadKey None) sample_db 0) 1 (Holding sample_row)
     (sample_claimed_db sample_row) 0"

definition sample_second :: sys where
  "sample_second = move (move sample_first 2 (ReadKey (Some sample_row)) (sample_claimed_db sample_row) (5 * minute))
     2 (Holding sample_taken) (sample_claimed_db sample_taken) (5 * minute)"

lemma sample_row_fields:
  "msg_id sample_row = 10" "msg_workspace sample_row = 1" "msg_status sample_row = MsgPending"
  "msg_key sample_row = ''broadcast:1:2''" "msg_claimed_at sample_row = 0" "msg_id sample_taken = 10"
  "msg_workspace sample_taken = 1" "msg_status sample_taken = MsgPending" "msg_claimed_at sample_taken = 5 * minute"
  "msg_key sample_taken = ''broadcast:1:2''" "rq_key sample_request = ''broadcast:1:2''"
  by (simp_all add: sample_row_def sample_taken_def claim_row_def claim_time_def truncate_micro_def sample_request_def)

lemma sample_claim:
  "claim sample_env 0 1 sample_request ''bo@y.io'' sample_open None sample_db =
     (Inr (Inl sample_row), sample_claimed_db sample_row)"
  unfolding sample_row_def sample_claimed_db_def
  by (simp add: claim_def sample_lookup refs_ok_def claim_row_def sample_request_def no_ref_def nonzero_def
      request_contact_def sample_open_def Let_def) (simp add: sample_db_def)

lemma sample_take_over:
  "claim sample_env (5 * minute) 1 sample_request ''bo@y.io'' sample_open (Some sample_row) (sample_claimed_db sample_row) =
     (Inr (Inl sample_taken), sample_claimed_db sample_taken)"
  by (simp add: claim_def take_over_def sample_row_fields sample_claimed_db_def count_where_def update_where_def
      find_where_def holds_claim_def in_ws_def Let_def claim_time_def sample_taken_def)
     (simp add: sample_env_def truncate_micro_def)


lemma sample_read: "find_message 1 ''broadcast:1:2'' (sample_claimed_db sample_row) = Some sample_row"
  by (simp add: find_message_def find_where_def key_row_def in_ws_def sample_claimed_db_def sample_row_fields)

lemma move_simps:
  "sys_db (move s a ph d now) = d" "sys_phase (move s a ph d now) a = ph" "sys_clock (move s a ph d now) = now"
  "b \<noteq> a \<Longrightarrow> sys_phase (move s a ph d now) b = sys_phase s b" "sys_sent (move s a ph d now) = sys_sent s"
  by (simp_all add: move_def)

lemma initial_simps:
  "sys_db (initial_sys d now) = d" "sys_phase (initial_sys d now) a = Idle" "sys_clock (initial_sys d now) = now"
  "sys_sent (initial_sys d now) = 0"
  by (simp_all add: initial_sys_def)

lemma readI:
  "sys_phase s a = Idle \<Longrightarrow> sys_clock s \<le> now \<Longrightarrow> find_message ws (rq_key req) (sys_db s) = ex \<Longrightarrow> \<not> final_message ex \<Longrightarrow>
   s' = move s a (ReadKey ex) (sys_db s) now \<Longrightarrow> claim_step env ws req dest g s s'"
  using claim_step.read [of s a now ex ws req] by simp

lemma takeI:
  "sys_phase s a = ReadKey ex \<Longrightarrow> sys_clock s \<le> now \<Longrightarrow> claim env now ws req dest g ex (sys_db s) = (Inr (Inl m), d') \<Longrightarrow>
   s' = move s a (Holding m) d' now \<Longrightarrow> claim_step env ws req dest g s s'"
  using claim_step.take [of s a ex now env ws req dest g "Inr (Inl m)" d'] by simp

lemma sample_reaches_first: "reaches sample_env 1 sample_request ''bo@y.io'' sample_open (initial_sys sample_db 0) sample_first"
proof (rule rtranclp_trans)
  let ?s = "initial_sys sample_db 0"
  show "reaches sample_env 1 sample_request ''bo@y.io'' sample_open ?s (move ?s 1 (ReadKey None) sample_db 0)"
    by (rule r_into_rtranclp, rule readI [where ex = None])
       (simp_all add: initial_simps sample_lookup final_message_def)
  show "reaches sample_env 1 sample_request ''bo@y.io'' sample_open (move ?s 1 (ReadKey None) sample_db 0) sample_first"
    unfolding sample_first_def
    by (rule r_into_rtranclp, rule takeI [OF _ _ _ refl, where ex = None]) (simp_all add: move_simps sample_claim)
qed

lemma sample_reaches_second: "reaches sample_env 1 sample_request ''bo@y.io'' sample_open sample_first sample_second"
proof (rule rtranclp_trans)
  let ?s = "move sample_first 2 (ReadKey (Some sample_row)) (sample_claimed_db sample_row) (5 * minute)"
  have f: "sys_phase sample_first 2 = Idle" "sys_db sample_first = sample_claimed_db sample_row" "sys_clock sample_first = 0"
    by (simp_all add: sample_first_def move_simps initial_simps)
  show "reaches sample_env 1 sample_request ''bo@y.io'' sample_open sample_first ?s"
    by (rule r_into_rtranclp, rule readI [where ex = "Some sample_row"])
       (simp_all add: f sample_row_fields sample_read final_message_def)
  show "reaches sample_env 1 sample_request ''bo@y.io'' sample_open ?s sample_second"
    unfolding sample_second_def
    by (rule r_into_rtranclp, rule takeI [OF _ _ _ refl, where ex = "Some sample_row"])
       (simp_all add: move_simps sample_take_over [simplified])
qed

lemma sample_reaches: "reaches sample_env 1 sample_request ''bo@y.io'' sample_open (initial_sys sample_db 0) sample_second"
  using sample_reaches_first sample_reaches_second by (rule rtranclp_trans)

text \<open>Attempt 2 calls the provider and records the row as sent.\<close>

lemma sample_records:
  "\<exists>s. reaches sample_env 1 sample_request ''bo@y.io'' sample_open sample_second s \<and> sys_sent s = 1 \<and>
     decided (sent_row (5 * minute) sample_open ''ses-1'' sample_taken) (sys_db s)"
proof -
  let ?step = "claim_step sample_env 1 sample_request ''bo@y.io'' sample_open"
  let ?s = "(move sample_second 2 (Called sample_taken ''ses-1'') (sys_db sample_second) (5 * minute))
      \<lparr>sys_wire := sys_wire sample_second + 1\<rparr>"
  have f: "sys_phase sample_second 2 = Holding sample_taken" "sys_db sample_second = sample_claimed_db sample_taken"
    "sys_clock sample_second = 5 * minute" "sys_sent sample_second = 0"
    by (simp_all add: sample_second_def sample_first_def move_simps initial_simps)
  have s1: "?step sample_second ?s" by (rule call) (simp_all add: f)
  have g: "sys_phase ?s 2 = Called sample_taken ''ses-1''" "sys_db ?s = sample_claimed_db sample_taken"
    "sys_clock ?s = 5 * minute" "sys_sent ?s = 0"
    by (simp_all add: f move_def)
  obtain d' where r: "record_sent (5 * minute) 1 sample_request sample_taken sample_open ''bo@y.io'' ''ses-1'' (sys_db ?s) =
      (Inr (outcome_result Sent '''' 10), d')"
    and m: "messages d' = [sent_row (5 * minute) sample_open ''ses-1'' sample_taken]"
    unfolding g(2)
    by (simp add: record_sent_def sample_claimed_db_def count_where_def update_where_def holds_claim_def in_ws_def
        sample_row_fields publish_def)
  let ?t = "(move ?s 2 Finished d' (5 * minute))\<lparr>sys_sent := sys_sent ?s + 1\<rparr>"
  have s2: "?step ?s ?t" using record_step [OF g(1) _ r, of sample_env] g(3) by simp
  have "reaches sample_env 1 sample_request ''bo@y.io'' sample_open sample_second ?t"
    by (rule rtranclp_trans, rule r_into_rtranclp, rule s1, rule r_into_rtranclp, rule s2)
  moreover have "sys_sent ?t = 1" "sys_db ?t = d'" using g(4) by (simp_all add: move_def)
  moreover have "decided (sent_row (5 * minute) sample_open ''ses-1'' sample_taken) d'"
    using m by (simp add: decided_def sent_row_def)
  ultimately show ?thesis by (intro exI [of _ ?t]) simp
qed

lemma sample_db_wf: "wf_messages sample_db"
  using sample_world_wf by (simp add: sample_world_def)

lemma sample_lease: "1000 \<le> oe_lease sample_env"
  by (simp add: sample_env_def)

section \<open>What interleaving cannot break\<close>







end
