(* ===== verification/SendFrame.thy ===== *)
theory SendFrame
  imports OutboundSafety
begin

text \<open>
  What a caller of \<open>Send\<close> relies on: it touches the message table, the limiter rows and the event
  outbox, and no other table; and a recorded result is replayed. The jobs that turn an Outcome
  into the next state of their own row (an Enrollment, a Broadcast recipient) rest on these facts.
\<close>

section \<open>The tables Send leaves alone\<close>

definition other_tables :: "db \<Rightarrow> db" where
  "other_tables d = d\<lparr>messages := [], send_limiters := [], outbox := [], next_id := 0\<rparr>"

lemma other_tables_upd [simp]:
  "other_tables (d\<lparr>messages := x\<rparr>) = other_tables d"
  "other_tables (d\<lparr>send_limiters := y\<rparr>) = other_tables d"
  "other_tables (d\<lparr>next_id := n\<rparr>) = other_tables d"
  "other_tables (publish now ev d) = other_tables d"
  by (simp_all add: other_tables_def publish_def)

lemma other_tables_fields:
  assumes "other_tables d' = other_tables d"
  shows "workspaces d' = workspaces d" "contacts d' = contacts d" "broadcasts d' = broadcasts d"
    "recipients d' = recipients d" "automations d' = automations d" "runs d' = runs d" "tags d' = tags d"
    "contact_tags d' = contact_tags d" "segments d' = segments d" "suppressions d' = suppressions d"
    "unsubscribes d' = unsubscribes d" "confirmations d' = confirmations d" "integrations d' = integrations d"
    "sending_domains d' = sending_domains d" "events d' = events d" "visitors d' = visitors d"
  using arg_cong [OF assms, of workspaces] arg_cong [OF assms, of contacts] arg_cong [OF assms, of broadcasts]
    arg_cong [OF assms, of recipients] arg_cong [OF assms, of automations] arg_cong [OF assms, of runs]
    arg_cong [OF assms, of tags] arg_cong [OF assms, of contact_tags] arg_cong [OF assms, of segments]
    arg_cong [OF assms, of suppressions] arg_cong [OF assms, of unsubscribes] arg_cong [OF assms, of confirmations]
    arg_cong [OF assms, of integrations] arg_cong [OF assms, of sending_domains] arg_cong [OF assms, of events]
    arg_cong [OF assms, of visitors]
  by (simp_all add: other_tables_def)

lemma tables_take_over: "take_over env now ws m d = (r, d') \<Longrightarrow> other_tables d' = other_tables d"
  by (auto simp: take_over_def Let_def split: option.splits if_splits)

lemma tables_claim: "claim env now ws req dest g existing d = (r, d') \<Longrightarrow> other_tables d' = other_tables d"
  by (auto simp: claim_def Let_def split: option.splits if_splits sum.splits prod.splits dest!: tables_take_over)

lemma tables_finish: "finish ws m st oc reason d = (r, d') \<Longrightarrow> other_tables d' = other_tables d"
  by (auto simp: finish_def Let_def split: if_splits)

lemma tables_release [simp]: "other_tables (release ws m d) = other_tables d"
  by (simp add: release_def)

lemma tables_drop [simp]: "other_tables (drop_claim ws m d) = other_tables d"
  by (simp add: drop_claim_def)

lemma tables_record: "record_sent now ws req m g dest receipt d = (r, d') \<Longrightarrow> other_tables d' = other_tables d"
  by (auto simp: record_sent_def split: if_splits)

lemma tables_mark_failed [simp]: "other_tables (mark_failed env now ws key cause d) = other_tables d"
  by (simp add: mark_failed_def)

lemma tables_take_token: "take_token ws iid l now gd d = (n, d') \<Longrightarrow> other_tables d' = other_tables d"
  by (auto simp: take_token_def Let_def)

lemma tables_ensure: "ensure_limiter ws iid now d = (e, d') \<Longrightarrow> other_tables d' = other_tables d"
  by (auto simp: ensure_limiter_def split: if_splits)

lemma tables_spend: "spend ws iid l now d = (e, d') \<Longrightarrow> other_tables d' = other_tables d"
  using tables_take_token [of ws iid l now False d] tables_take_token [of ws iid l now False] tables_ensure [of ws iid now]
  by (auto simp: spend_def split: if_splits prod.splits option.splits) (metis prod.collapse)+

lemma tables_reserve_token: "reserve_token ws iid l now d = (r, d') \<Longrightarrow> other_tables d' = other_tables d"
  by (auto simp: reserve_token_def split: if_splits prod.splits option.splits dest!: tables_take_token tables_ensure)

lemma tables_reserve: "reserve now ws req i d = (r, d') \<Longrightarrow> other_tables d' = other_tables d"
  by (auto simp: reserve_def Let_def split: option.splits prod.splits sum.splits if_splits
      dest!: tables_spend tables_reserve_token)

lemma tables_deliver: "other_tables (wd_db (snd (deliver now ws req dest g msg m wd))) = other_tables (wd_db wd)"
  by (auto simp: deliver_def Let_def split: provider_reply.split prod.split dest!: tables_record)

lemma tables_send_claimed:
  "other_tables (wd_db (snd (send_claimed env now ws req dest w g msg wd))) = other_tables (wd_db wd)"
  by (auto simp: send_claimed_def Let_def tables_deliver split: sum.split prod.split dest!: tables_finish tables_reserve)

lemma tables_send: "other_tables (wd_db (snd (send env now ws req wd))) = other_tables (wd_db wd)"
  by (auto simp: send_def Let_def tables_send_claimed split: option.split sum.split gate_result.split prod.split
      dest!: tables_claim)

lemma send_tables:
  assumes "send env now ws req wd = (r, wd')"
  shows "other_tables (wd_db wd') = other_tables (wd_db wd)"
  using tables_send [of env now ws req wd] assms by simp

section \<open>Replaying a recorded result\<close>

lemma send_wf: "wf_messages (wd_db wd) \<Longrightarrow> send env now ws req wd = (r, wd') \<Longrightarrow> wf_messages (wd_db wd')"
proof -
  assume wf: "wf_messages (wd_db wd)" and s: "send env now ws req wd = (r, wd')"
  have "wf_messages (wd_db (snd (send env now ws req wd)))"
    using wf by (auto simp: send_def Let_def split: option.split sum.split gate_result.split prod.split
        intro: wf_send_claimed_upd wf_claim)
  with s show ?thesis by simp
qed

lemma send_validD: "send env now ws req wd = (Inr r, wd') \<Longrightarrow> validate_request req = None \<and> (rq_source req = '''' \<or> oe_tracker env \<noteq> None)"
  by (auto simp: send_def Let_def split: option.splits if_splits)

lemma recorded_replays:
  assumes "recorded ws (rq_key req) r (wd_db wd)" and "validate_request req = None"
    and "rq_source req = '''' \<or> oe_tracker env \<noteq> None"
  shows "send env now ws req wd = (Inr (r\<lparr>res_replayed := True\<rparr>), wd)"
  using assms by (auto simp: recorded_def send_def Let_def final_message_def)

text \<open>After a Sent, whoever asks again under the key gets the same answer from the same world.\<close>

lemma sent_recorded:
  assumes "wf_messages (wd_db wd)" and "send env now ws req wd = (Inr r, wd')" and "res_outcome r = Sent"
  shows "recorded ws (rq_key req) r (wd_db wd')"
  using send_result [OF assms(1,2)] assms(3) by (auto simp: reversible_def)

section \<open>When every gate is open\<close>

lemma send_goes_out:
  fixes ws :: id and req :: request and wd :: world
  defines "d \<equiv> wd_db wd" and "dest \<equiv> normalize_destination (rq_destination req)"
  defines "row \<equiv> \<lambda>now g. claim_row now ws req dest (g_domain g) (next_id d)"
  assumes "validate_request req = None" and "rq_source req = '''' \<or> oe_tracker env \<noteq> None"
    and "find_message ws (rq_key req) d = None" and "\<not> contact_erased ws req d"
    and "load_workspace ws d = Some w" and "gate env ws w (rq_from_email req) (rq_from_name req) d = Inr (GateOpen g)"
    and "refs_ok env ws (row now g) d"
    and "check_eligible ws d ChEmail dest (rq_source req) = Inr dec" and "dec_eligible dec"
    and "compose env req dest w = Inr m0"
    and "reserve now ws req (g_integration g) (d\<lparr>messages := messages d @ [row now g], next_id := next_id d + 1\<rparr>) = (Inr wait, d2)"
    and "wait \<le> 0"
    and "snd_send (g_sender g) (m0\<lparr>em_from := g_from g, em_from_name := g_from_name g, em_to := dest\<rparr>) = Accepted receipt"
  shows "\<exists>wd'. send env now ws req wd = (Inr (outcome_result Sent '''' (next_id d)), wd') \<and>
     wd_wire wd' = wd_wire wd @ [m0\<lparr>em_from := g_from g, em_from_name := g_from_name g, em_to := dest\<rparr>]"
proof -
  let ?d1 = "d\<lparr>messages := messages d @ [row now g], next_id := next_id d + 1\<rparr>"
  let ?m = "m0\<lparr>em_from := g_from g, em_from_name := g_from_name g, em_to := dest\<rparr>"
  have cl: "claim env now ws req dest g None d = (Inr (Inl (row now g)), ?d1)"
    using assms(6,10) by (simp add: claim_def row_def Let_def)
  have el: "check_eligible ws ?d1 ChEmail dest (rq_source req) = Inr dec"
    by (subst check_eligible_frame [of d]) (simp_all add: assms(11))
  have hc: "holds_claim ws (row now g) (row now g)" by (simp add: row_def holds_claim_def in_ws_def claim_row_def)
  have "messages d2 = messages ?d1" using reserve_messages [of now ws req "g_integration g" ?d1] assms(14) by simp
  then have c: "count_where (holds_claim ws (row now g)) (messages d2) \<noteq> 0" using hc by (auto simp: table_simps)
  have s1: "send env now ws req wd = send_claimed env now ws req dest w g (row now g) (wd\<lparr>wd_db := ?d1\<rparr>)"
    using assms(4-9) cl by (auto simp: send_def final_message_def dest_def d_def Let_def)
  have "send_claimed env now ws req dest w g (row now g) (wd\<lparr>wd_db := ?d1\<rparr>) =
      deliver now ws req dest g (row now g) ?m (wd\<lparr>wd_db := d2\<rparr>)"
    using el assms(12-15) by (simp add: send_claimed_def Let_def)
  moreover have "msg_id (row now g) = next_id d" by (simp add: row_def claim_row_def)
  ultimately show ?thesis
    using s1 c assms(16) by (simp add: deliver_def on_wire_def record_sent_def Let_def)
qed

text \<open>The gate, the compliance of a destination and the claim's references look at these tables.\<close>

lemma gate_tables:
  assumes "integrations d' = integrations d" and "sending_domains d' = sending_domains d"
  shows "gate env ws w fe fn d' = gate env ws w fe fn d"
proof -
  have "default_integration ws d' = default_integration ws d" by (simp add: default_integration_def assms)
  moreover have "has_verified_domain ws x d' = has_verified_domain ws x d" for x by (simp add: has_verified_domain_def assms)
  ultimately show ?thesis unfolding gate_def email_sender_def by presburger
qed

lemma sample_env_simps:
  "oe_tracker sample_env = Some sample_tracker" "snd_send sample_sender x = Accepted ''ses-1''"
  "oe_template sample_env ws i" "sample_open = \<lparr>g_integration = Some sample_integration, g_sender = sample_sender,
     g_from = ''news@x.io'', g_from_name = ''X'', g_domain = ''x.io''\<rparr>"
  by (simp_all add: sample_env_def sample_sender_def sample_open_def)

text \<open>The sample provider sets no Send rate limit.\<close>

lemma sample_reserve: "reserve now ws req (Some sample_integration) d = (Inr 0, d)"
proof -
  have "\<not> limits_any (effective_limits (effective_of sample_integration))"
    by (simp add: limits_any_def effective_limits_def effective_of_def lowest_def sample_integration_def)
  then show ?thesis by (simp add: reserve_def reserve_token_def spend_def Let_def)
qed

lemma sample_compose:
  assumes "rq_source req \<noteq> ''''"
  shows "\<exists>h. compose sample_env req ''bo@y.io'' (sample_workspace 1) =
     Inr \<lparr>em_from = '''', em_from_name = '''', em_to = '''', em_subject = rq_subject req, em_html = h, em_text = rq_body req,
       em_unsubscribe = ''https://x.io/e/u/tok''\<rparr>"
  using assms by (simp add: compose_def sample_env_def sample_tracker_def unsubscribe_footer_def unsubscribe_url_def
      unsub_token_def rewrite_def recipient_token_def rewrite_links_def Let_def)

text \<open>A marketing Request of a known Contact under a fresh key leaves the sample Workspace at once.\<close>

lemma sample_goes_out:
  fixes wd :: world and req :: request
  defines "d \<equiv> wd_db wd"
  assumes tables: "workspaces d = workspaces sample_db" "sending_domains d = sending_domains sample_db"
      "integrations d = integrations sample_db" "messages d = []" "suppressions d = []" "unsubscribes d = []" "confirmations d = []"
    and req: "rq_key req \<noteq> ''''" "rq_destination req = ''bo@y.io''" "rq_source req \<noteq> ''''" "rq_from_email req = ''''"
      "rq_from_name req = ''''" "rq_contact req = Some c" "con_workspace c = 1" "verify_contact 1 (con_id c) d"
    and refs: "refs_ok sample_env 1 (claim_row 0 1 req ''bo@y.io'' (g_domain sample_open) (next_id d)) d"
  shows "\<exists>wd1 m. send sample_env 0 1 req wd = (Inr (outcome_result Sent '''' (next_id d)), wd1) \<and> wd_wire wd1 = wd_wire wd @ [m] \<and> em_to m = ''bo@y.io''"
proof -
  have ws: "load_workspace 1 d = Some (sample_workspace 1)" using sample_lookup(1) by (simp add: load_workspace_def tables)
  have g: "gate sample_env 1 (sample_workspace 1) '''' '''' d = Inr (GateOpen sample_open)"
    using sample_gate gate_tables [of d sample_db] by (simp add: tables sample_env_simps)
  have el: "check_eligible 1 d ChEmail ''bo@y.io'' (rq_source req) = Inr \<lparr>dec_eligible = True, dec_reason = ''''\<rparr>"
    by (simp add: check_eligible_some [OF _ ws] sample_strings layers_def is_suppressed_def is_unsubscribed_def
      is_confirmed_def match_store_def exists_where_def require_confirmed_def ws sample_workspace_def tables)
  obtain h where cp: "compose sample_env req ''bo@y.io'' (sample_workspace 1) =
     Inr \<lparr>em_from = '''', em_from_name = '''', em_to = '''', em_subject = rq_subject req, em_html = h, em_text = rq_body req,
       em_unsubscribe = ''https://x.io/e/u/tok''\<rparr>" (is "_ = Inr ?m0")
    using sample_compose [OF req(3)] by blast
  have dest: "normalize_destination (rq_destination req) = ''bo@y.io''" by (simp add: req sample_strings)
  have "\<exists>wd'. send sample_env 0 1 req wd = (Inr (outcome_result Sent '''' (next_id (wd_db wd))), wd') \<and>
      wd_wire wd' = wd_wire wd @ [?m0\<lparr>em_from := g_from sample_open, em_from_name := g_from_name sample_open,
           em_to := normalize_destination (rq_destination req)\<rparr>]"
  proof (rule send_goes_out [where w = "sample_workspace 1" and dec = "\<lparr>dec_eligible = True, dec_reason = ''''\<rparr>"
        and receipt = "''ses-1''"])
    show "validate_request req = None" by (simp add: validate_request_def req sample_strings)
    show "refs_ok sample_env 1 (claim_row 0 1 req (normalize_destination (rq_destination req)) (g_domain sample_open)
        (next_id (wd_db wd))) (wd_db wd)" using refs unfolding dest d_def .
    show "compose sample_env req (normalize_destination (rq_destination req)) (sample_workspace 1) = Inr ?m0" unfolding dest by (rule cp)
    show "gate sample_env 1 (sample_workspace 1) (rq_from_email req) (rq_from_name req) (wd_db wd) = Inr (GateOpen sample_open)"
      using g by (simp add: req d_def)
    show "check_eligible 1 (wd_db wd) ChEmail (normalize_destination (rq_destination req)) (rq_source req) =
        Inr \<lparr>dec_eligible = True, dec_reason = ''''\<rparr>" using el unfolding dest d_def .
    show "reserve 0 1 req (g_integration sample_open) x = (Inr 0, x)" for x using sample_reserve by (simp add: sample_env_simps)
    show "rq_source req = '''' \<or> oe_tracker sample_env \<noteq> None" by (simp add: sample_env_simps)
    show "snd_send (g_sender sample_open) x = Accepted ''ses-1''" for x by (simp add: sample_env_simps)
    show "find_message 1 (rq_key req) (wd_db wd) = None"
      using tables(4) by (simp add: find_message_def find_where_def d_def)
    show "\<not> contact_erased 1 req (wd_db wd)" using req by (simp add: contact_erased_def d_def)
    show "load_workspace 1 (wd_db wd) = Some (sample_workspace 1)" using ws by (simp add: d_def)
  qed simp_all
  then show ?thesis by (auto simp: d_def dest)
qed

end
