(* ===== verification/Tags.thy ===== *)
theory Tags
  imports Schema
begin

text \<open>
  \<open>internal/tags\<close>: the Tag catalogue of a Workspace and the Tags of a Contact (\<open>List\<close>,
  \<open>ForContact\<close>, \<open>Apply\<close>, \<open>Remove\<close>). The join table is the list of (Contact, Tag) pairs; adding
  a pair that is there already changes nothing. The Audit entry the generated client adds to the
  creation of a Tag is not part of this module.
\<close>

datatype tag_error = TagContactNotFound | TagInvalidName | TagNotSingular

definition named_tag :: "id \<Rightarrow> string \<Rightarrow> tag \<Rightarrow> bool" where
  "named_tag ws name = in_ws tag_workspace ws (\<lambda>t. tag_name t = name)"

definition require_contact :: "id \<Rightarrow> id \<Rightarrow> db \<Rightarrow> tag_error option" where
  "require_contact ws cid d = (if get_contact ws cid d = None then Some TagContactNotFound else None)"

text \<open>Bytewise order of the names, which is what the \<open>ORDER BY\<close> of the \<open>C\<close> collation gives.\<close>

fun name_le :: "string \<Rightarrow> string \<Rightarrow> bool" where
  "name_le [] _ = True"
| "name_le (_ # _) [] = False"
| "name_le (a # as) (b # bs) =
     (if a = b then name_le as bs else (of_char a :: nat) < of_char b)"

fun insert_tag :: "tag \<Rightarrow> tag list \<Rightarrow> tag list" where
  "insert_tag t [] = [t]"
| "insert_tag t (u # us) = (if name_le (tag_name t) (tag_name u) then t # u # us else u # insert_tag t us)"

definition by_name :: "tag list \<Rightarrow> tag list" where
  "by_name ts = foldr insert_tag ts []"

definition list_tags :: "id \<Rightarrow> db \<Rightarrow> tag list" where
  "list_tags ws d = by_name (filter (\<lambda>t. tag_workspace t = ws) (tags d))"

definition tags_for_contact :: "id \<Rightarrow> id \<Rightarrow> db \<Rightarrow> tag_error + tag list" where
  "tags_for_contact ws cid d =
     (case require_contact ws cid d of
        Some e \<Rightarrow> Inl e
      | None \<Rightarrow> Inr (by_name (filter (in_ws tag_workspace ws (\<lambda>t. (cid, tag_id t) \<in> set (contact_tags d))) (tags d))))"

definition create_tag :: "id \<Rightarrow> string \<Rightarrow> db \<Rightarrow> db" where
  "create_tag ws name d =
     (if exists_where (named_tag ws name) (tags d) then d
      else d\<lparr>tags := tags d @ [\<lparr>tag_id = next_id d, tag_workspace = ws, tag_name = name\<rparr>], next_id := next_id d + 1\<rparr>)"

definition add_tag :: "id \<Rightarrow> id \<Rightarrow> db \<Rightarrow> db" where
  "add_tag cid tid d = (if (cid, tid) \<in> set (contact_tags d) then d else d\<lparr>contact_tags := contact_tags d @ [(cid, tid)]\<rparr>)"

definition remove_tag_link :: "id \<Rightarrow> id \<Rightarrow> db \<Rightarrow> db" where
  "remove_tag_link cid tid d = d\<lparr>contact_tags := delete_where (\<lambda>p. p = (cid, tid)) (contact_tags d)\<rparr>"

definition apply_tag :: "id \<Rightarrow> id \<Rightarrow> string \<Rightarrow> db \<Rightarrow> (tag_error + tag) \<times> db" where
  "apply_tag ws cid raw d =
     (let name = trim_space raw in
      if name = '''' then (Inl TagInvalidName, d)
      else case require_contact ws cid d of
             Some e \<Rightarrow> (Inl e, d)
           | None \<Rightarrow>
              (let d1 = create_tag ws name d in
               case filter (named_tag ws name) (tags d1) of
                 [t] \<Rightarrow> (Inr t, add_tag cid (tag_id t) d1)
               | _ \<Rightarrow> (Inl TagNotSingular, d1)))"

definition remove_tag :: "id \<Rightarrow> id \<Rightarrow> string \<Rightarrow> db \<Rightarrow> tag_error option \<times> db" where
  "remove_tag ws cid raw d =
     (case require_contact ws cid d of
        Some e \<Rightarrow> (Some e, d)
      | None \<Rightarrow>
         (case filter (named_tag ws (trim_space raw)) (tags d) of
            [] \<Rightarrow> (None, d)
          | [t] \<Rightarrow> (None, remove_tag_link cid (tag_id t) d)
          | _ \<Rightarrow> (Some TagNotSingular, d)))"

text \<open>The Contact has a Tag of that name in its Workspace: what the has-Tag rule of a Segment asks.\<close>

definition has_tag :: "id \<Rightarrow> id \<Rightarrow> string \<Rightarrow> db \<Rightarrow> bool" where
  "has_tag ws cid name d \<longleftrightarrow> exists_where (\<lambda>t. named_tag ws name t \<and> (cid, tag_id t) \<in> set (contact_tags d)) (tags d)"

text \<open>The unique indexes: (name, Workspace), and the primary key.\<close>

definition wf_tags :: "db \<Rightarrow> bool" where
  "wf_tags d \<longleftrightarrow> distinct (map (\<lambda>t. (tag_name t, tag_workspace t)) (tags d)) \<and> distinct (map tag_id (tags d)) \<and>
     (\<forall>t \<in> set (tags d). tag_id t < next_id d)"

lemma named_tag_iff: "named_tag ws name t \<longleftrightarrow> tag_workspace t = ws \<and> tag_name t = name"
  by (simp add: named_tag_def in_ws_def)

lemma distinct_singleton: "distinct xs \<Longrightarrow> set xs = {x} \<Longrightarrow> xs = [x]"
  by (cases xs; cases "tl xs") auto

lemma filter_named_tag:
  assumes "wf_tags d" and "t \<in> set (tags d)" and "named_tag ws name t"
  shows "filter (named_tag ws name) (tags d) = [t]"
proof -
  have u: "x = t" if "x \<in> set (tags d)" "named_tag ws name x" for x
  proof -
    have "inj_on (\<lambda>t. (tag_name t, tag_workspace t)) (set (tags d))"
      using assms(1) by (simp add: wf_tags_def distinct_map)
    then show ?thesis by (rule inj_onD) (use that assms(2,3) in \<open>simp_all add: named_tag_iff\<close>)
  qed
  have "distinct (filter (named_tag ws name) (tags d))" using assms(1) by (simp add: wf_tags_def distinct_map)
  moreover have "set (filter (named_tag ws name) (tags d)) = {t}" using assms(2,3) by (auto dest: u)
  ultimately show ?thesis by (rule distinct_singleton)
qed

lemma wf_create_tag: "wf_tags d \<Longrightarrow> wf_tags (create_tag ws name d)"
  by (auto simp: wf_tags_def create_tag_def table_simps named_tag_iff)

lemma create_tag_has: "\<exists>t \<in> set (tags (create_tag ws name d)). named_tag ws name t"
  by (auto simp: create_tag_def table_simps named_tag_iff)

lemma create_tag_frame [simp]:
  "contacts (create_tag ws name d) = contacts d" "contact_tags (create_tag ws name d) = contact_tags d"
  "messages (create_tag ws name d) = messages d" "runs (create_tag ws name d) = runs d"
  by (simp_all add: create_tag_def)

lemma add_tag_frame [simp]:
  "contacts (add_tag cid tid d) = contacts d" "tags (add_tag cid tid d) = tags d"
  "messages (add_tag cid tid d) = messages d" "runs (add_tag cid tid d) = runs d" "next_id (add_tag cid tid d) = next_id d"
  by (simp_all add: add_tag_def)

lemma apply_tag_ok:
  assumes "wf_tags d" and "trim_space raw \<noteq> ''''" and "get_contact ws cid d \<noteq> None"
  obtains t where "t \<in> set (tags (create_tag ws (trim_space raw) d))" and "named_tag ws (trim_space raw) t"
    and "apply_tag ws cid raw d = (Inr t, add_tag cid (tag_id t) (create_tag ws (trim_space raw) d))"
proof -
  obtain t where t: "t \<in> set (tags (create_tag ws (trim_space raw) d))" "named_tag ws (trim_space raw) t"
    using create_tag_has by blast
  have "filter (named_tag ws (trim_space raw)) (tags (create_tag ws (trim_space raw) d)) = [t]"
    by (rule filter_named_tag [OF wf_create_tag [OF assms(1)] t])
  with that t assms(2,3) show ?thesis by (simp add: apply_tag_def require_contact_def Let_def)
qed

lemma remove_tag_frame:
  "remove_tag ws cid raw d = (e, d') \<Longrightarrow> tags d' = tags d \<and> contacts d' = contacts d \<and> next_id d' = next_id d"
  by (auto simp: remove_tag_def remove_tag_link_def split: option.splits list.splits)

section \<open>Properties\<close>

text \<open>Applying and removing a Tag. A valid Apply makes the Contact have the Tag and the Workspace
  have exactly one Tag of that trimmed name; applying again changes nothing and returns the same
  Tag; Remove takes it off, leaves the Tag in the catalogue and is idempotent. A blank name or a
  Contact of another Workspace fails and changes nothing, so a failed Apply creates no Tag.\<close>

theorem tag_apply_remove:
  assumes "wf_tags d" and "trim_space raw \<noteq> ''''" and "get_contact ws cid d \<noteq> None"
    and "apply_tag ws cid raw d = (r, d1)" and "remove_tag ws cid raw d1 = (e, d2)"
  shows "\<exists>t. r = Inr t \<and> named_tag ws (trim_space raw) t \<and> has_tag ws cid (trim_space raw) d1 \<and>
      filter (named_tag ws (trim_space raw)) (tags d1) = [t] \<and> apply_tag ws cid raw d1 = (Inr t, d1) \<and>
      e = None \<and> \<not> has_tag ws cid (trim_space raw) d2 \<and> tags d2 = tags d1 \<and> remove_tag ws cid raw d2 = (None, d2) \<and>
      (\<forall>blank. trim_space blank = '''' \<longrightarrow> apply_tag ws cid blank d = (Inl TagInvalidName, d)) \<and>
      (\<forall>c. get_contact ws c d = None \<longrightarrow> apply_tag ws c raw d = (Inl TagContactNotFound, d))"
proof -
  let ?n = "trim_space raw"
  obtain t where t: "t \<in> set (tags (create_tag ws ?n d))" "named_tag ws ?n t"
    and ap: "apply_tag ws cid raw d = (Inr t, add_tag cid (tag_id t) (create_tag ws ?n d))"
    by (rule apply_tag_ok [OF assms(1-3)])
  have r: "r = Inr t" and d1: "d1 = add_tag cid (tag_id t) (create_tag ws ?n d)" using ap assms(4) by simp_all
  have link: "(cid, tag_id t) \<in> set (contact_tags d1)" by (simp add: d1 add_tag_def)
  have tags1: "tags d1 = tags (create_tag ws ?n d)" by (simp add: d1)
  have one: "filter (named_tag ws ?n) (tags d1) = [t]"
    unfolding tags1 by (rule filter_named_tag [OF wf_create_tag [OF assms(1)] t])
  have ct: "get_contact ws cid x \<noteq> None" if "contacts x = contacts d" for x
    using assms(3) that by (simp add: get_contact_def)
  have c1: "get_contact ws cid d1 \<noteq> None" by (rule ct) (simp add: d1)
  have known: "create_tag ws ?n d1 = d1" using t tags1 by (auto simp: create_tag_def table_simps)
  have again: "apply_tag ws cid raw d1 = (Inr t, d1)"
    using assms(2) c1 one link by (simp add: apply_tag_def require_contact_def known add_tag_def Let_def)
  have rem: "remove_tag ws cid raw d1 = (None, remove_tag_link cid (tag_id t) d1)"
    using c1 one by (simp add: remove_tag_def require_contact_def)
  then have d2: "e = None" "d2 = remove_tag_link cid (tag_id t) d1" using assms(5) by simp_all
  have c2: "get_contact ws cid d2 \<noteq> None" by (rule ct) (simp add: d2 remove_tag_link_def d1)
  have rem2: "remove_tag ws cid raw d2 = (None, d2)"
    using c2 one by (simp add: remove_tag_def require_contact_def d2 remove_tag_link_def delete_where_def)
  have gone: "\<not> has_tag ws cid ?n d2"
  proof
    assume "has_tag ws cid ?n d2"
    then obtain x where x: "x \<in> set (tags d1)" "named_tag ws ?n x" "(cid, tag_id x) \<in> set (contact_tags d2)"
      by (auto simp: has_tag_def table_simps d2 remove_tag_link_def)
    then have "x \<in> set (filter (named_tag ws ?n) (tags d1))" by simp
    then have "x = t" unfolding one by simp
    with x(3) show False by (simp add: d2 remove_tag_link_def delete_where_def)
  qed
  have has: "has_tag ws cid ?n d1" using t link tags1 by (auto simp: has_tag_def table_simps)
  have "\<forall>blank. trim_space blank = '''' \<longrightarrow> apply_tag ws cid blank d = (Inl TagInvalidName, d)"
    "\<forall>c. get_contact ws c d = None \<longrightarrow> apply_tag ws c raw d = (Inl TagContactNotFound, d)"
    using assms(2) by (simp_all add: apply_tag_def require_contact_def Let_def)
  then show ?thesis using r t(2) has one again d2 gone rem2 by (auto simp: remove_tag_link_def)
qed

theorem tag_apply_remove_witness:
  "\<exists>t d1. apply_tag 1 7 '' vip '' (empty_db\<lparr>contacts := [sample_contact 7 1 ''a@x.io'']\<rparr>) = (Inr t, d1) \<and>
     tag_name t = ''vip'' \<and> has_tag 1 7 ''vip'' d1"
proof -
  let ?d = "empty_db\<lparr>contacts := [sample_contact 7 1 ''a@x.io'']\<rparr>"
  have tr: "trim_space '' vip '' = ''vip''" by code_simp
  have "wf_tags ?d" by (simp add: wf_tags_def)
  moreover have "trim_space '' vip '' \<noteq> ''''" by (simp add: tr)
  moreover have "get_contact 1 7 ?d \<noteq> None"
    by (simp add: get_contact_def find_where_def in_ws_def sample_contact_def)
  ultimately obtain t where "fst (apply_tag 1 7 '' vip '' ?d) = Inr t" "named_tag 1 ''vip'' t"
    "has_tag 1 7 ''vip'' (snd (apply_tag 1 7 '' vip '' ?d))"
    using tag_apply_remove [of ?d "'' vip ''" 1 7 "fst (apply_tag 1 7 '' vip '' ?d)" "snd (apply_tag 1 7 '' vip '' ?d)"
        "fst (remove_tag 1 7 '' vip '' (snd (apply_tag 1 7 '' vip '' ?d)))"
        "snd (remove_tag 1 7 '' vip '' (snd (apply_tag 1 7 '' vip '' ?d)))"] tr by auto
  then show ?thesis
    by (intro exI [of _ t] exI [of _ "snd (apply_tag 1 7 '' vip '' ?d)"])
       (simp add: named_tag_iff prod_eq_iff)
qed

end
