(* ===== verification/JobHold.thy ===== *)
theory JobHold
  imports Outbound
begin

text \<open>
  \<open>internal/jobs/hold.go\<close>: how a job that found its source held or its Send rate limit spent waits.
  The random share of a Deferral is the parameter \<open>jitter\<close>, at least 0 and below 1; the product of the wait
  and the backlog is taken in \<open>int64\<close>, as the code does.
\<close>

definition hold_retry_delay :: duration where "hold_retry_delay = 15 * minute"
definition in_progress_retry_delay :: duration where "in_progress_retry_delay = 30 * second"
definition deferral_floor :: duration where "deferral_floor = second"
definition deferral_ceiling :: duration where "deferral_ceiling = hour"
definition deferral_jitter :: rat where "deferral_jitter = 1 / 5"

lemmas delay_defs = hold_retry_delay_def in_progress_retry_delay_def deferral_floor_def deferral_ceiling_def
  deferral_jitter_def

definition deferral_delay :: "duration \<Rightarrow> int \<Rightarrow> rat \<Rightarrow> duration" where
  "deferral_delay wait backlog jitter =
     (let base = min (max (wrap64 (wait * (1 + backlog))) deferral_floor) deferral_ceiling
      in base + \<lfloor>of_int base * deferral_jitter * jitter\<rfloor>)"

datatype job_error =
    HeldError string
  | DeferredError duration int duration
  | SendError outbound_error
  | JobError string

fun is_deferrable :: "job_error \<Rightarrow> bool" where
  "is_deferrable (HeldError _) = True"
| "is_deferrable (DeferredError _ _ _) = True"
| "is_deferrable (SendError e) = (e = InProgress)"
| "is_deferrable (JobError _) = False"

text \<open>What a worker returns to the queue: done, a snooze that spends no attempt, or an error that does.\<close>

datatype job_outcome = JobDone | JobSnooze duration | JobRetry job_error

fun snooze_if_deferrable :: "rat \<Rightarrow> job_error \<Rightarrow> job_outcome" where
  "snooze_if_deferrable jitter (HeldError _) = JobSnooze hold_retry_delay"
| "snooze_if_deferrable jitter (DeferredError wait backlog delay) =
     JobSnooze (if delay > 0 then delay else deferral_delay wait backlog jitter)"
| "snooze_if_deferrable jitter (SendError e) =
     (if e = InProgress then JobSnooze in_progress_retry_delay else JobRetry (SendError e))"
| "snooze_if_deferrable jitter (JobError m) = JobRetry (JobError m)"

lemma deferral_base:
  "deferral_floor \<le> min (max x deferral_floor) deferral_ceiling \<and> min (max x deferral_floor) deferral_ceiling \<le> deferral_ceiling"
  by (simp add: delay_defs)

lemma jitter_share:
  fixes b :: int and j :: rat
  assumes "0 \<le> j" and "j < 1" and "0 \<le> b"
  shows "0 \<le> \<lfloor>of_int b * deferral_jitter * j\<rfloor> \<and> \<lfloor>of_int b * deferral_jitter * j\<rfloor> \<le> b div 5"
proof
  have "of_int b * deferral_jitter * j \<le> of_int b * deferral_jitter * 1"
    using assms by (intro mult_left_mono) (simp_all add: delay_defs)
  then have "of_int b * deferral_jitter * j \<le> of_int b / 5" by (simp add: delay_defs)
  then have "\<lfloor>of_int b * deferral_jitter * j\<rfloor> \<le> \<lfloor>(of_int b / 5 :: rat)\<rfloor>" by (rule floor_mono)
  also have "\<dots> = b div 5" using floor_divide_of_int_eq [of b 5] by simp
  finally show "\<lfloor>of_int b * deferral_jitter * j\<rfloor> \<le> b div 5" .
qed (use assms in \<open>simp add: delay_defs\<close>)

lemma deferral_delay_range:
  assumes "0 \<le> jitter" and "jitter < 1"
  shows "second \<le> deferral_delay wait backlog jitter" and "deferral_delay wait backlog jitter \<le> 72 * minute"
    and "min (max (wrap64 (wait * (1 + backlog))) second) hour \<le> deferral_delay wait backlog jitter"
proof -
  let ?b = "min (max (wrap64 (wait * (1 + backlog))) deferral_floor) deferral_ceiling"
  have b: "second \<le> ?b" "?b \<le> hour" using deferral_base [of "wrap64 (wait * (1 + backlog))"] by (simp_all add: delay_defs)
  have j: "0 \<le> \<lfloor>of_int ?b * deferral_jitter * jitter\<rfloor>" "\<lfloor>of_int ?b * deferral_jitter * jitter\<rfloor> \<le> ?b div 5"
    using jitter_share [OF assms, of ?b] b by auto
  have d: "deferral_delay wait backlog jitter = ?b + \<lfloor>of_int ?b * deferral_jitter * jitter\<rfloor>"
    by (simp add: deferral_delay_def Let_def)
  have e: "?b = min (max (wrap64 (wait * (1 + backlog))) second) hour" by (simp add: delay_defs)
  show "second \<le> deferral_delay wait backlog jitter" "deferral_delay wait backlog jitter \<le> 72 * minute"
    "min (max (wrap64 (wait * (1 + backlog))) second) hour \<le> deferral_delay wait backlog jitter"
    unfolding d e [symmetric] using b j by linarith+
qed

text \<open>A Deferral always snoozes between a second and 72 minutes, never a hot loop and never unnoticed;
  as long as the product of the wait and the queue position stays in 64 bits the job never wakes
  before its turn (capped at the hour). Past 64 bits the product wraps: an hour's quota backoff
  behind 2562047 awake recipients waits one second.\<close>

theorem deferral_delay_bounds:
  assumes "0 \<le> jitter" and "jitter < 1"
  shows "second \<le> deferral_delay wait backlog jitter \<and> deferral_delay wait backlog jitter \<le> 72 * minute \<and>
     (- (2 ^ 63) \<le> wait * (1 + backlog) \<and> wait * (1 + backlog) < 2 ^ 63 \<longrightarrow>
        min (wait * (1 + backlog)) hour \<le> deferral_delay wait backlog jitter) \<and>
     deferral_delay quota_backoff 2562046 0 = hour \<and> deferral_delay quota_backoff 2562047 0 = second"
proof -
  have "min (wait * (1 + backlog)) hour \<le> deferral_delay wait backlog jitter"
    if "- (2 ^ 63) \<le> wait * (1 + backlog)" "wait * (1 + backlog) < 2 ^ 63"
    using deferral_delay_range(3) [OF assms, of wait backlog] wrap64_id [OF that] by simp
  moreover have "deferral_delay quota_backoff 2562046 0 = hour" "deferral_delay quota_backoff 2562047 0 = second"
    by (simp_all add: deferral_delay_def quota_backoff_def wrap64_def delay_defs Let_def)
  ultimately show ?thesis using deferral_delay_range(1,2) [OF assms] by blast
qed

theorem deferral_delay_bounds_witness:
  "deferral_delay (2 * second) 9 (1 / 2) = 22 * second \<and> 20 * second \<le> deferral_delay (2 * second) 9 (1 / 2)"
proof -
  have "deferral_delay (2 * second) 9 (1 / 2) = 22 * second"
    by (simp add: deferral_delay_def wrap64_def delay_defs Let_def)
  then show ?thesis using deferral_delay_bounds [of "1 / 2" "2 * second" 9] by simp
qed

end
