(* ===== verification/AutomationJobs.thy ===== *)
theory AutomationJobs
  imports SendFrame Tags JobHold
begin

text \<open>
  \<open>internal/jobs/automation.go\<close>: enrolling a Contact into the Automations its event triggers
  (\<open>EvaluateTrigger\<close> and its worker) and walking an Enrollment through the steps (\<open>RunStep\<close> and its
  worker). One reading of the clock stands for the readings of one call; the random share of a
  Deferral and whether the queue accepts a job are parameters. Writing the run row right after it
  was read cannot miss it, so the scoped update by id is an update of that row.
\<close>

section \<open>Triggers\<close>

definition triggered :: "id \<Rightarrow> string \<Rightarrow> automation \<Rightarrow> bool" where
  "triggered ws action = in_ws au_workspace ws (\<lambda>a. au_status a = AutoActive \<and> au_trigger a = action)"

fun enroll_all :: "id \<Rightarrow> id \<Rightarrow> id list \<Rightarrow> db \<Rightarrow> (automation_error + id list) \<times> db" where
  "enroll_all ws cid [] d = (Inr [], d)"
| "enroll_all ws cid (a # as) d =
     (case enroll ws a cid d of
        (Inl e, d1) \<Rightarrow> (Inl e, d1)
      | (Inr None, d1) \<Rightarrow> enroll_all ws cid as d1
      | (Inr (Some i), d1) \<Rightarrow>
         (case enroll_all ws cid as d1 of
            (Inl e, d2) \<Rightarrow> (Inl e, d2)
          | (Inr ids, d2) \<Rightarrow> (Inr (i # ids), d2)))"

definition evaluate_trigger :: "id \<Rightarrow> id \<Rightarrow> string \<Rightarrow> db \<Rightarrow> (automation_error + id list) \<times> db" where
  "evaluate_trigger ws cid action d = enroll_all ws cid (map au_id (filter (triggered ws action) (automations d))) d"

text \<open>The queued \<open>RunStep\<close> jobs: the run and, for a delayed job, when.\<close>

type_synonym run_jobs = "(id \<times> time option) list"

definition evaluate_trigger_work :: "id \<Rightarrow> id \<Rightarrow> string \<Rightarrow> db \<Rightarrow> run_jobs \<Rightarrow> automation_error option \<times> db \<times> run_jobs" where
  "evaluate_trigger_work ws cid action d jobs =
     (case find_where (\<lambda>c. con_id c = cid) (contacts d) of
        None \<Rightarrow> (None, d, jobs)
      | Some c \<Rightarrow>
         if con_workspace c \<noteq> ws then (None, d, jobs)
         else (case evaluate_trigger (con_workspace c) (con_id c) action d of
                 (Inl e, d') \<Rightarrow> (Some e, d', jobs)
               | (Inr ids, d') \<Rightarrow> (None, d', jobs @ map (\<lambda>i. (i, None)) ids)))"

section \<open>Stepping a run\<close>

datatype step_error =
    StepAutomationMissing | StepBadDefinition | StepIndexPanic | StepTag tag_error | StepContactMissing
  | StepSend outbound_error | StepFailed string | StepUnknownType

record step_result =
  sr_done :: bool
  sr_resume :: "time option"

definition step_done :: step_result where "step_done = \<lparr>sr_done = True, sr_resume = None\<rparr>"
definition step_next :: step_result where "step_next = \<lparr>sr_done = False, sr_resume = None\<rparr>"
definition step_later :: "time \<Rightarrow> step_result" where "step_later t = \<lparr>sr_done = False, sr_resume = Some t\<rparr>"

lemmas step_results = step_done_def step_next_def step_later_def

definition update_run :: "automation_run \<Rightarrow> (automation_run \<Rightarrow> automation_run) \<Rightarrow> db \<Rightarrow> db" where
  "update_run r f d = d\<lparr>runs := update_where (in_ws run_workspace (run_workspace r) (\<lambda>x. run_id x = run_id r)) f (runs d)\<rparr>"

definition completed :: "automation_run \<Rightarrow> automation_run" where
  "completed x = x\<lparr>run_status := RunCompleted, run_resume_at := None\<rparr>"

definition failed_run :: "automation_run \<Rightarrow> automation_run" where
  "failed_run x = x\<lparr>run_status := RunFailed\<rparr>"

definition advanced :: "int \<Rightarrow> time option \<Rightarrow> automation_run \<Rightarrow> automation_run" where
  "advanced n resume x = x\<lparr>run_current_step := n, run_resume_at := resume\<rparr>"

lemmas run_changes = completed_def failed_run_def advanced_def

definition upd_db :: "(db \<Rightarrow> db) \<Rightarrow> world \<Rightarrow> world" where
  "upd_db f wd = wd\<lparr>wd_db := f (wd_db wd)\<rparr>"

definition wait_step :: "time \<Rightarrow> automation_run \<Rightarrow> step \<Rightarrow> world \<Rightarrow> (step_error + step_result) \<times> world" where
  "wait_step now run s wd =
     (let resume = now + wrap64 (st_seconds s * second) in
      (Inr (step_later resume), upd_db (update_run run (advanced (run_current_step run + 1) (Some resume))) wd))"

definition tag_step :: "automation_run \<Rightarrow> step \<Rightarrow> world \<Rightarrow> (step_error + step_result) \<times> world" where
  "tag_step run s wd =
     (let ws = run_workspace run; d = wd_db wd;
          (err, d1) = (if st_type s = step_apply_tag
                       then (case apply_tag ws (run_contact run) (st_tag s) d of
                               (Inl e, d1) \<Rightarrow> (Some e, d1) | (Inr _, d1) \<Rightarrow> (None, d1))
                       else remove_tag ws (run_contact run) (st_tag s) d)
      in case err of
           Some e \<Rightarrow> (Inl (StepTag e), wd\<lparr>wd_db := d1\<rparr>)
         | None \<Rightarrow> (Inr step_next, wd\<lparr>wd_db := update_run run (advanced (run_current_step run + 1) None) d1\<rparr>))"

definition step_key :: "automation_run \<Rightarrow> string" where
  "step_key run = ''automation:'' @ show_int (run_id run) @ '':'' @ show_int (run_current_step run)"

definition step_request :: "automation_run \<Rightarrow> automation \<Rightarrow> step \<Rightarrow> contact \<Rightarrow> string \<Rightarrow> request" where
  "step_request run a s c email =
     \<lparr>rq_kind = KindAutomation, rq_key = step_key run, rq_destination = email, rq_contact = Some c,
      rq_contact_id = 0, rq_source = automation_source (au_id a), rq_subject = st_subject s, rq_body = st_body s,
      rq_variables = Map.empty, rq_from_email = '''', rq_from_name = '''', rq_track = 0,
      rq_ref = no_ref\<lparr>rf_automation := au_id a, rf_run := run_id run, rf_step := Some (run_current_step run)\<rparr>\<rparr>"

definition email_outcome ::
  "time \<Rightarrow> rat \<Rightarrow> automation_run \<Rightarrow> result \<Rightarrow> world \<Rightarrow> (step_error + step_result) \<times> world" where
  "email_outcome now jitter run res wd =
     (case res_outcome res of
        Sent \<Rightarrow> (Inr step_next, upd_db (update_run run (advanced (run_current_step run + 1) None)) wd)
      | Skipped \<Rightarrow> (Inr step_done, upd_db (\<lambda>d. snd (exit_run (run_workspace run) (run_id run) d)) wd)
      | Failed \<Rightarrow> (Inl (StepFailed (res_reason res)), upd_db (update_run run failed_run) wd)
      | Deferral \<Rightarrow> (Inr (step_later (now + deferral_delay (res_wait res) 0 jitter)), wd)
      | Held \<Rightarrow> (Inr (step_later (now + hold_retry_delay)), wd))"

definition email_step ::
  "outbound_env \<Rightarrow> time \<Rightarrow> rat \<Rightarrow> automation_run \<Rightarrow> automation \<Rightarrow> step \<Rightarrow> world \<Rightarrow> (step_error + step_result) \<times> world" where
  "email_step env now jitter run a s wd =
     (let ws = run_workspace run in
      case get_contact ws (run_contact run) (wd_db wd) of
        None \<Rightarrow> (Inl StepContactMissing, wd)
      | Some c \<Rightarrow>
         (case con_email c of
            None \<Rightarrow> (Inr step_done, upd_db (update_run run completed) wd)
          | Some email \<Rightarrow>
             (case send env now ws (step_request run a s c email) wd of
                (Inl e, wd') \<Rightarrow> (Inl (StepSend e), wd')
              | (Inr res, wd') \<Rightarrow> email_outcome now jitter run res wd')))"

definition exec_step ::
  "outbound_env \<Rightarrow> time \<Rightarrow> rat \<Rightarrow> automation_run \<Rightarrow> automation \<Rightarrow> step \<Rightarrow> world \<Rightarrow> (step_error + step_result) \<times> world" where
  "exec_step env now jitter run a s wd =
     (if st_type s = step_wait then wait_step now run s wd
      else if st_type s = step_apply_tag \<or> st_type s = step_remove_tag then tag_step run s wd
      else if st_type s = step_email then email_step env now jitter run a s wd
      else (Inl StepUnknownType, upd_db (update_run run failed_run) wd))"

definition run_step :: "outbound_env \<Rightarrow> time \<Rightarrow> rat \<Rightarrow> id \<Rightarrow> world \<Rightarrow> (step_error + step_result) \<times> world" where
  "run_step env now jitter rid wd =
     (case find_where (\<lambda>r. run_id r = rid) (runs (wd_db wd)) of
        None \<Rightarrow> (Inr step_done, wd)
      | Some run \<Rightarrow>
         if run_status run \<noteq> RunActive then (Inr step_done, wd)
         else (case get_automation (run_workspace run) (run_automation run) (wd_db wd) of
                 None \<Rightarrow> (Inl StepAutomationMissing, wd)
               | Some a \<Rightarrow>
                  (case decode_steps (au_definition a) of
                     None \<Rightarrow> (Inl StepBadDefinition, upd_db (update_run run failed_run) wd)
                   | Some steps \<Rightarrow>
                      if int (length steps) \<le> run_current_step run
                      then (Inr step_done, upd_db (update_run run completed) wd)
                      else if run_current_step run < 0 then (Inl StepIndexPanic, wd)
                      else exec_step env now jitter run a (steps ! nat (run_current_step run)) wd)))"

text \<open>The worker: the step commits, then the next job is queued; a refused insert is an error, and the
  queue runs the same job again.\<close>

definition run_step_work ::
  "outbound_env \<Rightarrow> time \<Rightarrow> rat \<Rightarrow> bool \<Rightarrow> id \<Rightarrow> world \<times> run_jobs \<Rightarrow> bool \<times> world \<times> run_jobs" where
  "run_step_work env now jitter accepts rid st =
     (case run_step env now jitter rid (fst st) of
        (Inl _, wd') \<Rightarrow> (False, wd', snd st)
      | (Inr r, wd') \<Rightarrow>
         if sr_done r then (True, wd', snd st)
         else if \<not> accepts then (False, wd', snd st)
         else (True, wd', snd st @ [(rid, sr_resume r)]))"

section \<open>What a step does to the world\<close>

lemma upd_db_simps [simp]: "wd_db (upd_db f wd) = f (wd_db wd)" "wd_wire (upd_db f wd) = wd_wire wd"
  by (simp_all add: upd_db_def)

lemma update_run_frame [simp]:
  "contacts (update_run r f d) = contacts d" "automations (update_run r f d) = automations d"
  "messages (update_run r f d) = messages d" "next_id (update_run r f d) = next_id d"
  "tags (update_run r f d) = tags d" "contact_tags (update_run r f d) = contact_tags d"
  by (simp_all add: update_run_def)

lemma tag_step_wire: "tag_step run s wd = (r, wd') \<Longrightarrow> wd_wire wd' = wd_wire wd"
  by (auto simp: tag_step_def Let_def split: prod.splits option.splits)

lemma email_outcome_wire: "email_outcome now jitter run res wd = (r, wd') \<Longrightarrow> wd_wire wd' = wd_wire wd"
  by (auto simp: email_outcome_def split: outcome.splits)

text \<open>The run, its Automation, the step at its index: what \<open>run_step\<close> reads before it acts.\<close>

definition due_step :: "id \<Rightarrow> db \<Rightarrow> automation_run \<Rightarrow> automation \<Rightarrow> step \<Rightarrow> bool" where
  "due_step rid d run a s \<longleftrightarrow>
     find_where (\<lambda>r. run_id r = rid) (runs d) = Some run \<and> run_status run = RunActive \<and>
     get_automation (run_workspace run) (run_automation run) d = Some a \<and>
     (\<exists>steps. decode_steps (au_definition a) = Some steps \<and> 0 \<le> run_current_step run \<and>
        run_current_step run < int (length steps) \<and> s = steps ! nat (run_current_step run))"

lemma run_step_due: "due_step rid (wd_db wd) run a s \<Longrightarrow> run_step env now jitter rid wd = exec_step env now jitter run a s wd"
  by (auto simp: due_step_def run_step_def)

lemma due_step_row: "due_step rid d run a s \<Longrightarrow> run \<in> set (runs d) \<and> run_id run = rid"
  by (auto simp: due_step_def dest: find_where_SomeD)

lemma run_step_cases:
  assumes "run_step env now jitter rid wd = (r, wd')"
  obtains (idle) "find_where (\<lambda>x. run_id x = rid) (runs (wd_db wd)) = None" "r = Inr step_done" "wd' = wd"
  | (over) run where "find_where (\<lambda>x. run_id x = rid) (runs (wd_db wd)) = Some run" "run_status run \<noteq> RunActive"
      "r = Inr step_done" "wd' = wd"
  | (broken) run e where "find_where (\<lambda>x. run_id x = rid) (runs (wd_db wd)) = Some run" "run_status run = RunActive"
      "r = Inl e" "wd' = wd \<or> wd' = upd_db (update_run run failed_run) wd"
  | (finished) run where "find_where (\<lambda>x. run_id x = rid) (runs (wd_db wd)) = Some run" "run_status run = RunActive"
      "r = Inr step_done" "wd' = upd_db (update_run run completed) wd"
  | (step) run a s where "due_step rid (wd_db wd) run a s" "exec_step env now jitter run a s wd = (r, wd')"
proof (cases "find_where (\<lambda>x. run_id x = rid) (runs (wd_db wd))")
  case None
  then show thesis using idle assms by (simp add: run_step_def)
next
  case (Some run)
  show thesis
  proof (cases "run_status run = RunActive")
    case False
    then show thesis using over [OF Some] assms Some by (simp add: run_step_def)
  next
    case active: True
    show thesis
    proof (cases "\<exists>a s. due_step rid (wd_db wd) run a s")
      case True
      then obtain a s where d: "due_step rid (wd_db wd) run a s" by blast
      with step [OF d] assms show thesis by (simp add: run_step_due)
    next
      case False
      then show thesis
        using broken [OF Some active] finished [OF Some active] assms Some active
        by (auto simp: run_step_def due_step_def split: option.splits if_splits)
    qed
  qed
qed

lemma run_step_wire:
  assumes "run_step env now jitter rid wd = (r, wd')" and "wd_wire wd' \<noteq> wd_wire wd"
  shows "\<exists>run a s c email m. due_step rid (wd_db wd) run a s \<and> st_type s = step_email \<and>
     get_contact (run_workspace run) (run_contact run) (wd_db wd) = Some c \<and> con_email c = Some email \<and>
     wd_wire wd' = wd_wire wd @ [m] \<and> may_leave env (run_workspace run) (step_request run a s c email) (wd_db wd) m"
  using assms(1)
proof (cases rule: run_step_cases)
  case (step run a s)
  have em: "email_step env now jitter run a s wd = (r, wd')" and ty: "st_type s = step_email"
    using step(2) assms(2) by (auto simp: exec_step_def wait_step_def Let_def dest: tag_step_wire split: if_splits)
  obtain c where c: "get_contact (run_workspace run) (run_contact run) (wd_db wd) = Some c"
    using em assms(2) by (auto simp: email_step_def Let_def split: option.splits)
  obtain email where e: "con_email c = Some email"
    using em assms(2) c by (auto simp: email_step_def Let_def split: option.splits)
  obtain res wd1 where s: "send env now (run_workspace run) (step_request run a s c email) wd = (res, wd1)"
    by (cases "send env now (run_workspace run) (step_request run a s c email) wd")
  have w: "wd_wire wd' = wd_wire wd1"
    using em c e s by (auto simp: email_step_def Let_def dest: email_outcome_wire split: sum.splits)
  from send_wire [OF s] w assms(2) step(1) ty c e show ?thesis by (metis (no_types, lifting))
qed (use assms(2) in auto)

lemma find_run_update:
  assumes "find_where (\<lambda>r. run_id r = rid) (runs d) = Some run" and "\<And>r. run_id (f r) = run_id r"
  shows "find_where (\<lambda>r. run_id r = rid) (runs (update_run run f d)) = Some (f run)"
proof -
  have r: "run_id run = rid" using find_where_SomeD [OF assms(1)] by simp
  show ?thesis
    unfolding update_run_def
    using find_where_update [of "\<lambda>r. run_id r = rid" f _ "runs d"] assms r by (simp add: in_ws_def)
qed

lemma runs_tag_step:
  "apply_tag ws cid raw d = (x, d') \<Longrightarrow> runs d' = runs d \<and> automations d' = automations d"
  "remove_tag ws cid raw d = (e, d') \<Longrightarrow> runs d' = runs d \<and> automations d' = automations d"
  by (auto simp: apply_tag_def remove_tag_def remove_tag_link_def add_tag_def create_tag_def Let_def
      split: if_splits option.splits list.splits)

lemma exit_run_found:
  assumes "find_where (\<lambda>r. run_id r = rid) (runs d) = Some run"
  shows "snd (exit_run (run_workspace run) rid d) = update_run run exited d"
proof -
  have r: "run_id run = rid" "run \<in> set (runs d)" using find_where_SomeD [OF assms] by simp_all
  then have "exists_where (in_ws run_workspace (run_workspace run) (\<lambda>r. run_id r = rid)) (runs d)"
    by (auto simp: table_simps)
  then show ?thesis by (simp add: exit_run_def update_run_def r)
qed

text \<open>How far a run is from its end: the steps left and the completion, none once it is over.\<close>

definition steps_left :: "db \<Rightarrow> automation_run \<Rightarrow> nat" where
  "steps_left d run =
     (if run_status run \<noteq> RunActive then 0
      else case get_automation (run_workspace run) (run_automation run) d of
             None \<Rightarrow> 1
           | Some a \<Rightarrow> 1 + nat (int (length (the (decode_steps (au_definition a)))) - run_current_step run))"

lemma steps_left_over: "run_status run \<noteq> RunActive \<Longrightarrow> steps_left d run = 0"
  by (simp add: steps_left_def)

lemma steps_left_advanced:
  assumes "due_step rid d run a s" and "automations d' = automations d"
  shows "steps_left d' (advanced (run_current_step run + 1) t run) < steps_left d run"
  using assms by (auto simp: due_step_def steps_left_def get_automation_def advanced_def)

lemma steps_left_pos: "run_status run = RunActive \<Longrightarrow> 0 < steps_left d run"
  by (simp add: steps_left_def split: option.split)

lemma run_changes_id [simp]:
  "run_id (completed r) = run_id r" "run_id (failed_run r) = run_id r" "run_id (advanced n t r) = run_id r"
  "run_status (completed r) = RunCompleted" "run_status (failed_run r) = RunFailed" "run_status (advanced n t r) = run_status r"
  by (simp_all add: run_changes)

lemma email_outcome_progress:
  assumes "due_step rid d0 run a s" and "runs (wd_db wd) = runs d0" and "automations (wd_db wd) = automations d0"
    and "0 \<le> jitter" and "jitter < 1" and "email_outcome now jitter run res wd = (Inr out, wd')"
  shows "\<exists>run'. find_where (\<lambda>r. run_id r = rid) (runs (wd_db wd')) = Some run' \<and>
     (steps_left (wd_db wd') run' < steps_left d0 run \<or> run' = run \<and> (\<exists>t. out = step_later t \<and> now + second \<le> t)) \<and>
     (sr_done out \<longleftrightarrow> run_status run' \<noteq> RunActive)"
proof -
  have f: "find_where (\<lambda>r. run_id r = rid) (runs (wd_db wd)) = Some run" and act: "run_status run = RunActive"
    using assms(1,2) by (simp_all add: due_step_def)
  have id: "run_id run = rid" using due_step_row [OF assms(1)] by simp
  have au: "automations (update_run run g (wd_db wd)) = automations d0" for g by (simp add: assms(3))
  have sec: "second \<le> deferral_delay (res_wait res) 0 jitter" by (rule deferral_delay_range(1) [OF assms(4,5)])
  show ?thesis
  proof (cases "res_outcome res")
    case Sent
    then have w: "wd' = upd_db (update_run run (advanced (run_current_step run + 1) None)) wd" "out = step_next"
      using assms(6) by (simp_all add: email_outcome_def)
    show ?thesis
      using find_run_update [OF f, of "advanced (run_current_step run + 1) None"] steps_left_advanced [OF assms(1) au] act
      by (simp add: w step_results)
  next
    case Skipped
    then have w: "wd' = upd_db (update_run run exited) wd" "out = step_done"
      using assms(6) exit_run_found [OF f] by (simp_all add: email_outcome_def upd_db_def id)
    show ?thesis
      using find_run_update [OF f, of exited] steps_left_over steps_left_pos [OF act] by (simp add: w step_results)
  next
    case Failed
    then show ?thesis using assms(6) by (simp add: email_outcome_def)
  next
    case Held
    then show ?thesis using assms(6) f act by (auto simp: email_outcome_def step_results delay_defs)
  next
    case Deferral
    then show ?thesis using assms(6) f act sec by (auto simp: email_outcome_def step_results)
  qed
qed

section \<open>Properties\<close>

text \<open>Mail of an Automation leaves only through the gates. A RunStep puts at most one message on the
  wire, and only when the run is active and its current step is an email step; the message goes to
  the Contact's own address, which is eligible for this Automation's Sending source at that moment,
  and carries the one-click link of that source.\<close>

theorem automation_mail_is_gated:
  assumes "run_step env now jitter rid wd = (r, wd')" and "wd_wire wd' \<noteq> wd_wire wd"
  shows "\<exists>run a s c email m. due_step rid (wd_db wd) run a s \<and> st_type s = step_email \<and>
     get_contact (run_workspace run) (run_contact run) (wd_db wd) = Some c \<and> con_email c = Some email \<and>
     wd_wire wd' = wd_wire wd @ [m] \<and> em_to m = normalize_destination email \<and> em_unsubscribe m \<noteq> '''' \<and>
     check_eligible (run_workspace run) (wd_db wd) ChEmail email (automation_source (au_id a)) =
       Inr \<lparr>dec_eligible = True, dec_reason = ''''\<rparr>"
proof -
  obtain run a s c email m where f: "due_step rid (wd_db wd) run a s" "st_type s = step_email"
    "get_contact (run_workspace run) (run_contact run) (wd_db wd) = Some c" "con_email c = Some email"
    "wd_wire wd' = wd_wire wd @ [m]" "may_leave env (run_workspace run) (step_request run a s c email) (wd_db wd) m"
    using run_step_wire [OF assms] by blast
  have "automation_source (au_id a) \<noteq> ''''" by (simp add: automation_source_def automation_prefix_def)
  then have "em_to m = normalize_destination email \<and> em_unsubscribe m \<noteq> '''' \<and>
     check_eligible (run_workspace run) (wd_db wd) ChEmail email (automation_source (au_id a)) =
       Inr \<lparr>dec_eligible = True, dec_reason = ''''\<rparr>"
    using f(6) by (simp add: may_leave_def step_request_def)
  with f show ?thesis by blast
qed

text \<open>An email step never mails twice. If a RunStep sent the step's message and crashed before it
  moved the run on, the retry, at any time and whatever the provider would answer, puts nothing on the
  wire, touches no message row, and moves the run past the step.\<close>

theorem email_step_retry:
  assumes "wf_messages (wd_db wd)" and "due_step rid (wd_db wd) run a s" and "st_type s = step_email"
    and "get_contact (run_workspace run) (run_contact run) (wd_db wd) = Some c" and "con_email c = Some email"
    and "send env now (run_workspace run) (step_request run a s c email) wd = (Inr r, wd1)" and "res_outcome r = Sent"
    and "oe_tracker env' \<noteq> None"
  shows "run_step env' later jitter rid wd1 =
      (Inr step_next, upd_db (update_run run (advanced (run_current_step run + 1) None)) wd1) \<and>
     wd_wire (snd (run_step env' later jitter rid wd1)) = wd_wire wd1 \<and>
     messages (wd_db (snd (run_step env' later jitter rid wd1))) = messages (wd_db wd1)"
proof -
  let ?req = "step_request run a s c email"
  note same = other_tables_fields [OF send_tables [OF assms(6)]]
  have due: "due_step rid (wd_db wd1) run a s" using assms(2) same by (simp add: due_step_def get_automation_def)
  have c: "get_contact (run_workspace run) (run_contact run) (wd_db wd1) = Some c"
    using assms(4) same by (simp add: get_contact_def)
  have rep: "send env' later (run_workspace run) ?req wd1 = (Inr (r\<lparr>res_replayed := True\<rparr>), wd1)"
    using recorded_replays [OF sent_recorded [OF assms(1,6,7)]] send_validD [OF assms(6)] assms(8) by simp
  have "run_step env' later jitter rid wd1 =
      (Inr step_next, upd_db (update_run run (advanced (run_current_step run + 1) None)) wd1)"
    using c assms(3,5,7) rep
    by (simp add: run_step_due [OF due] exec_step_def email_step_def email_outcome_def Let_def step_kinds)
  then show ?thesis by simp
qed

text \<open>C32: an Enrollment always moves towards its end. Every RunStep that succeeds either ends the run
  (and then reports it done), or brings it strictly nearer to its end, or, held or deferred, leaves the
  run row as it is and asks to be resumed at least a second later. A run that is over, or was erased,
  is reported done and nothing changes.\<close>

theorem run_walks_forward:
  assumes "run_step env now jitter rid wd = (Inr out, wd')" and "0 \<le> jitter" and "jitter < 1"
    and "find_where (\<lambda>r. run_id r = rid) (runs (wd_db wd)) = Some run"
  shows "(run_status run \<noteq> RunActive \<longrightarrow> out = step_done \<and> wd' = wd) \<and>
     (run_status run = RunActive \<longrightarrow>
       (\<exists>run'. find_where (\<lambda>r. run_id r = rid) (runs (wd_db wd')) = Some run' \<and>
          (steps_left (wd_db wd') run' < steps_left (wd_db wd) run \<or>
           run' = run \<and> (\<exists>t. out = step_later t \<and> now + second \<le> t)) \<and>
          (sr_done out \<longleftrightarrow> run_status run' \<noteq> RunActive)))"
  using assms(1)
proof (cases rule: run_step_cases)
  case (finished run')
  then have f: "find_where (\<lambda>r. run_id r = rid) (runs (wd_db wd)) = Some run" and e: "run' = run" using assms(4) by simp_all
  then show ?thesis
    using finished find_run_update [OF f, of completed] steps_left_pos [of run "wd_db wd"]
    by (simp add: steps_left_over step_results)
next
  case (step run' a s)
  then have e: "run' = run" and act: "run_status run = RunActive" using assms(4) by (auto simp: due_step_def)
  note due = step(1) [unfolded e] and ex = step(2) [unfolded e]
  have adv: "\<exists>run'. find_where (\<lambda>r. run_id r = rid) (runs (wd_db w)) = Some run' \<and>
      steps_left (wd_db w) run' < steps_left (wd_db wd) run \<and> run_status run' = RunActive"
    if "wd_db w = update_run run (advanced (run_current_step run + 1) t) d" "runs d = runs (wd_db wd)"
      "automations d = automations (wd_db wd)" for w t d
    using find_run_update [of rid d run "advanced (run_current_step run + 1) t"] steps_left_advanced [OF due, of "wd_db w" t]
      that assms(4) act by simp
  consider (wait) "st_type s = step_wait" | (tag) "st_type s = step_apply_tag \<or> st_type s = step_remove_tag"
    | (email) "st_type s = step_email" "email_step env now jitter run a s wd = (Inr out, wd')"
    using ex by (auto simp: exec_step_def split: if_splits)
  then show ?thesis
  proof cases
    case wait
    then have "wd' = upd_db (update_run run (advanced (run_current_step run + 1)
        (Some (now + wrap64 (st_seconds s * second))))) wd" "\<not> sr_done out"
      using ex by (auto simp: exec_step_def wait_step_def Let_def step_results)
    with adv [of wd' _ "wd_db wd"] act show ?thesis by auto
  next
    case tag
    then have "tag_step run s wd = (Inr out, wd')" using ex by (auto simp: exec_step_def step_kinds split: if_splits)
    then obtain d where "wd_db wd' = update_run run (advanced (run_current_step run + 1) None) d"
      "runs d = runs (wd_db wd)" "automations d = automations (wd_db wd)" "\<not> sr_done out"
      by (auto simp: tag_step_def Let_def step_results split: if_splits prod.splits option.splits sum.splits
          dest!: runs_tag_step)
    with adv act show ?thesis by blast
  next
    case email
    obtain c where c: "get_contact (run_workspace run) (run_contact run) (wd_db wd) = Some c"
      using email(2) by (auto simp: email_step_def Let_def split: option.splits)
    show ?thesis
    proof (cases "con_email c")
      case None
      then have "wd' = upd_db (update_run run completed) wd" "out = step_done"
        using email(2) c by (simp_all add: email_step_def Let_def)
      then show ?thesis
        using find_run_update [OF assms(4), of completed] steps_left_pos [OF act] act
        by (simp add: steps_left_over step_results)
    next
      case (Some em)
      then obtain res wd1 where s: "send env now (run_workspace run) (step_request run a s c em) wd = (Inr res, wd1)"
        and o: "email_outcome now jitter run res wd1 = (Inr out, wd')"
        using email(2) c by (auto simp: email_step_def Let_def split: prod.splits sum.splits)
      note same = other_tables_fields [OF send_tables [OF s]]
      from email_outcome_progress [OF due same(6,5) assms(2,3) o] act show ?thesis by blast
    qed
  qed
qed (use assms(4) in auto)

text \<open>A Wait is lost when its next job is not queued. The step commits the new position, then the worker
  queues the delayed job; if the queue refuses it (or the process dies in between) the redelivered job
  finds the run past the Wait and runs the following step at once, whatever its resume time says.\<close>

theorem lost_wait:
  assumes "due_step rid (wd_db wd) run a s" and "st_type s = step_wait"
    and "run_step_work env now jitter False rid (wd, jobs) = (ok, wd', jobs')"
  shows "\<not> ok \<and> jobs' = jobs \<and>
     (\<exists>run'. find_where (\<lambda>r. run_id r = rid) (runs (wd_db wd')) = Some run' \<and>
        run_current_step run' = run_current_step run + 1 \<and>
        run_resume_at run' = Some (now + wrap64 (st_seconds s * second)) \<and>
        (\<forall>s' t j. due_step rid (wd_db wd') run' a s' \<longrightarrow>
           run_step env t j rid wd' = exec_step env t j run' a s' wd'))"
proof -
  let ?f = "advanced (run_current_step run + 1) (Some (now + wrap64 (st_seconds s * second)))"
  have ex: "run_step env now jitter rid wd =
      (Inr (step_later (now + wrap64 (st_seconds s * second))), upd_db (update_run run ?f) wd)"
    using assms(2) by (simp add: run_step_due [OF assms(1)] exec_step_def wait_step_def Let_def)
  then have w: "\<not> ok" "jobs' = jobs" "wd' = upd_db (update_run run ?f) wd"
    using assms(3) by (simp_all add: run_step_work_def step_results)
  have "find_where (\<lambda>r. run_id r = rid) (runs (wd_db wd)) = Some run" using assms(1) by (simp add: due_step_def)
  from find_run_update [OF this, of ?f]
  have "find_where (\<lambda>r. run_id r = rid) (runs (wd_db wd')) = Some (?f run)" by (simp add: w(3))
  then show ?thesis using w run_step_due by (auto simp: advanced_def)
qed

definition sample_steps :: "step list" where
  "sample_steps = [zero_step\<lparr>st_type := step_wait, st_seconds := 86400\<rparr>, zero_step\<lparr>st_type := step_apply_tag, st_tag := ''vip''\<rparr>]"

definition sample_automation :: automation where
  "sample_automation = \<lparr>au_id = 5, au_workspace = 1, au_name = ''Hi'', au_status = AutoActive,
      au_trigger = ''contact.created'', au_definition = encode_steps sample_steps\<rparr>"

definition sample_run :: automation_run where
  "sample_run = \<lparr>run_id = 9, run_workspace = 1, run_automation = 5, run_contact = 7, run_status = RunActive,
      run_current_step = 0, run_resume_at = None\<rparr>"

definition sample_run_world :: world where
  "sample_run_world = \<lparr>wd_db = empty_db\<lparr>contacts := [sample_contact 7 1 ''a@x.io''], automations := [sample_automation],
      runs := [sample_run], next_id := 10\<rparr>, wd_wire = []\<rparr>"

lemma sample_decode: "decode_steps (au_definition sample_automation) = Some sample_steps"
  by (simp add: sample_automation_def sample_steps_def encode_steps_def marshal_step_def stored_step_def step_kinds
      zero_step_def opt_str_def opt_int_def is_int64_def trim_space_def trim_left_def trim_right_def is_space_def)

lemma sample_due:
  "due_step 9 (wd_db sample_run_world) sample_run sample_automation (zero_step\<lparr>st_type := step_wait, st_seconds := 86400\<rparr>)"
  unfolding due_step_def
  by (simp add: sample_decode)
     (simp add: sample_run_world_def sample_run_def sample_automation_def find_where_def get_automation_def in_ws_def sample_steps_def)


theorem lost_wait_witness:
  "\<exists>wd'. run_step_work sample_env 0 0 False 9 (sample_run_world, []) = (False, wd', []) \<and>
     has_tag 1 7 ''vip'' (wd_db (snd (run_step sample_env 0 0 9 wd')))"
proof -
  let ?w = "zero_step\<lparr>st_type := step_wait, st_seconds := 86400\<rparr>" and ?t = "zero_step\<lparr>st_type := step_apply_tag, st_tag := ''vip''\<rparr>"
  let ?d = "wd_db sample_run_world"
  obtain ok wd' jobs' where k: "run_step_work sample_env 0 0 False 9 (sample_run_world, []) = (ok, wd', jobs')"
    by (cases "run_step_work sample_env 0 0 False 9 (sample_run_world, [])")
  have ty: "st_type ?w = step_wait" by simp
  obtain run' where ok: "\<not> ok" "jobs' = []" and f: "find_where (\<lambda>r. run_id r = 9) (runs (wd_db wd')) = Some run'"
    and cs: "run_current_step run' = 1"
    and nxt: "\<And>s' t j. due_step 9 (wd_db wd') run' sample_automation s' \<Longrightarrow>
        run_step sample_env t j 9 wd' = exec_step sample_env t j run' sample_automation s' wd'"
    using lost_wait [OF sample_due ty k] by (auto simp: sample_run_def)
  have wd': "wd' = upd_db (update_run sample_run (advanced 1 (Some (wrap64 (86400 * second))))) sample_run_world"
    using k by (simp add: run_step_work_def run_step_due [OF sample_due] exec_step_def wait_step_def step_results Let_def)
       (simp add: sample_run_def)
  have rows: "contacts (wd_db wd') = contacts ?d" "automations (wd_db wd') = automations ?d" "tags (wd_db wd') = []"
    "runs (wd_db wd') = [advanced 1 (Some (wrap64 (86400 * second))) sample_run]"
    by (simp_all add: wd') (simp_all add: sample_run_world_def update_run_def update_where_def in_ws_def)
  have run': "run' = advanced 1 (Some (wrap64 (86400 * second))) sample_run"
    using f unfolding rows by (simp add: find_where_def sample_run_def advanced_def)
  have "due_step 9 (wd_db wd') run' sample_automation ?t"
    unfolding due_step_def using f cs
    by (simp add: sample_decode get_automation_def rows)
       (simp add: run' sample_run_def advanced_def sample_run_world_def sample_automation_def find_where_def in_ws_def sample_steps_def)
  then have st: "run_step sample_env 0 0 9 wd' = exec_step sample_env 0 0 run' sample_automation ?t wd'" by (rule nxt)
  have c: "get_contact 1 7 (wd_db wd') \<noteq> None"
    by (simp add: get_contact_def rows) (simp add: sample_run_world_def find_where_def in_ws_def sample_contact_def)
  have tr: "trim_space ''vip'' = ''vip''" by code_simp
  obtain t where t: "t \<in> set (tags (create_tag 1 ''vip'' (wd_db wd')))" "named_tag 1 ''vip'' t"
    and ap: "apply_tag 1 7 ''vip'' (wd_db wd') = (Inr t, add_tag 7 (tag_id t) (create_tag 1 ''vip'' (wd_db wd')))"
    using apply_tag_ok [of "wd_db wd'" "''vip''" 1 7] c rows(3) tr by (auto simp: wf_tags_def)
  have rn: "run_workspace run' = 1" "run_contact run' = 7" by (simp_all add: run' sample_run_def advanced_def)
  have "wd_db (snd (run_step sample_env 0 0 9 wd')) =
      update_run run' (advanced (run_current_step run' + 1) None) (add_tag 7 (tag_id t) (create_tag 1 ''vip'' (wd_db wd')))"
    unfolding st using ap rn by (simp add: exec_step_def tag_step_def step_kinds Let_def)
  then have "has_tag 1 7 ''vip'' (wd_db (snd (run_step sample_env 0 0 9 wd')))"
    using t by (auto simp: has_tag_def table_simps add_tag_def)
  with k ok show ?thesis by auto
qed

text \<open>A run at an email step whose gates are all open.\<close>

definition sample_mail_step :: step where
  "sample_mail_step = zero_step\<lparr>st_type := step_email, st_subject := ''Hi'', st_body := ''Hello''\<rparr>"

definition sample_mail_automation :: automation where
  "sample_mail_automation = sample_automation\<lparr>au_definition := encode_steps [sample_mail_step]\<rparr>"

definition sample_mail_world :: world where
  "sample_mail_world = \<lparr>wd_db = sample_db\<lparr>contacts := [sample_contact 7 1 ''bo@y.io''],
      automations := [sample_mail_automation], runs := [sample_run]\<rparr>, wd_wire = []\<rparr>"

lemma sample_mail_due: "due_step 9 (wd_db sample_mail_world) sample_run sample_mail_automation sample_mail_step"
proof -
  have "decode_steps (au_definition sample_mail_automation) = Some [sample_mail_step]"
    by (simp add: sample_mail_automation_def sample_mail_step_def encode_steps_def marshal_step_def stored_step_def step_kinds
      zero_step_def opt_str_def opt_int_def)
  then show ?thesis
    unfolding due_step_def
    by simp (simp add: sample_mail_world_def sample_run_def sample_mail_automation_def sample_automation_def find_where_def
      get_automation_def in_ws_def)
qed

lemma sample_mail_contact:
  "get_contact 1 7 (wd_db sample_mail_world) = Some (sample_contact 7 1 ''bo@y.io'')"
  "con_email (sample_contact 7 1 ''bo@y.io'') = Some ''bo@y.io''" "run_workspace sample_run = 1" "run_contact sample_run = 7"
  by (simp_all add: sample_mail_world_def get_contact_def find_where_def in_ws_def sample_contact_def sample_run_def)

abbreviation sample_mail_request :: request where
  "sample_mail_request \<equiv> step_request sample_run sample_mail_automation sample_mail_step (sample_contact 7 1 ''bo@y.io'') ''bo@y.io''"

lemma sample_mail_tables:
  "workspaces (wd_db sample_mail_world) = workspaces sample_db" "sending_domains (wd_db sample_mail_world) = sending_domains sample_db"
  "integrations (wd_db sample_mail_world) = integrations sample_db" "messages (wd_db sample_mail_world) = []"
  "suppressions (wd_db sample_mail_world) = []" "unsubscribes (wd_db sample_mail_world) = []"
  "confirmations (wd_db sample_mail_world) = []" "next_id (wd_db sample_mail_world) = 10"
  by (simp_all add: sample_mail_world_def sample_db_def)


lemma sample_mail_fields:
  "rq_key sample_mail_request = ''automation:9:0''" "rq_destination sample_mail_request = ''bo@y.io''"
  "rq_source sample_mail_request = automation_source 5" "rq_from_email sample_mail_request = ''''"
  "rq_from_name sample_mail_request = ''''" "rq_track sample_mail_request = 0" "rq_kind sample_mail_request = KindAutomation"
  "rq_contact sample_mail_request = Some (sample_contact 7 1 ''bo@y.io'')" "automation_source 5 \<noteq> ''''"
proof -
  have "show_int 9 = ''9''" "show_int 0 = ''0''" by code_simp+
  then show "rq_key sample_mail_request = ''automation:9:0''" by (simp add: step_request_def step_key_def sample_run_def)
qed (simp_all add: step_request_def sample_mail_automation_def sample_automation_def automation_source_def automation_prefix_def)

lemma sample_mail_goes_out:
  "\<exists>wd1 m. send sample_env 0 1 sample_mail_request sample_mail_world = (Inr (outcome_result Sent '''' 10), wd1) \<and>
     wd_wire wd1 = [m] \<and> em_to m = ''bo@y.io''"
proof -
  let ?d = "wd_db sample_mail_world"
  have vc: "verify_contact 1 7 ?d"
    by (simp add: verify_contact_def exists_where_def sample_mail_world_def in_ws_def sample_contact_def)
  have refs: "refs_ok sample_env 1 (claim_row 0 1 sample_mail_request ''bo@y.io'' (g_domain sample_open) 10) ?d"
    using vc by (simp add: refs_ok_def claim_row_def sample_env_simps request_contact_def sample_mail_fields step_request_def no_ref_def
        nonzero_def sample_contact_def sample_run_def exists_where_def sample_mail_world_def in_ws_def sample_mail_automation_def
        sample_automation_def get_automation_def find_where_def)
  have c: "con_workspace (sample_contact 7 1 ''bo@y.io'') = 1" "con_id (sample_contact 7 1 ''bo@y.io'') = 7"
    by (simp_all add: sample_contact_def)
  have w: "wd_wire sample_mail_world = []" by (simp add: sample_mail_world_def)
  show ?thesis
    using sample_goes_out [of sample_mail_world sample_mail_request "sample_contact 7 1 ''bo@y.io''"] vc refs
    by (simp add: sample_mail_tables sample_mail_fields c w)
qed

lemma sample_mail_wf: "wf_messages (wd_db sample_mail_world)"
  by (simp add: wf_messages_def sample_mail_tables)

theorem automation_mail_is_gated_witness:
  "\<exists>r wd' m. run_step sample_env 0 0 9 sample_mail_world = (r, wd') \<and> wd_wire wd' = [m] \<and> em_to m = ''bo@y.io''"
proof -
  obtain wd1 m where s: "send sample_env 0 1 sample_mail_request sample_mail_world = (Inr (outcome_result Sent '''' 10), wd1)"
    "wd_wire wd1 = [m]" using sample_mail_goes_out by blast
  let ?wd' = "upd_db (update_run sample_run (advanced (run_current_step sample_run + 1) None)) wd1"
  have r: "run_step sample_env 0 0 9 sample_mail_world = (Inr step_next, ?wd')"
    using s(1) sample_mail_contact
    by (simp add: run_step_due [OF sample_mail_due] exec_step_def email_step_def email_outcome_def outcome_result_def Let_def)
       (simp add: sample_mail_step_def step_kinds)
  have w: "wd_wire ?wd' \<noteq> wd_wire sample_mail_world" by (simp add: s(2)) (simp add: sample_mail_world_def)
  from automation_mail_is_gated [OF r w] obtain run a st c email where
    "due_step 9 (wd_db sample_mail_world) run a st" "get_contact (run_workspace run) (run_contact run) (wd_db sample_mail_world) = Some c"
    "con_email c = Some email" "em_to m = normalize_destination email"
    using s(2) by (auto simp: sample_mail_world_def)
  moreover from this have "run = sample_run" using sample_mail_due by (simp add: due_step_def)
  ultimately have "em_to m = ''bo@y.io''" using sample_mail_contact by (simp add: sample_strings)
  with r s(2) show ?thesis by (intro exI [of _ "Inr step_next"] exI [of _ ?wd'] exI [of _ m]) simp
qed

theorem email_step_retry_witness:
  "\<exists>wd1 r. send sample_env 0 1 sample_mail_request sample_mail_world = (Inr r, wd1) \<and> length (wd_wire wd1) = 1 \<and>
     wd_wire (snd (run_step sample_env 99 0 9 wd1)) = wd_wire wd1"
proof -
  obtain wd1 m where s: "send sample_env 0 1 sample_mail_request sample_mail_world = (Inr (outcome_result Sent '''' 10), wd1)"
    "wd_wire wd1 = [m]" using sample_mail_goes_out by blast
  have ty: "st_type sample_mail_step = step_email" by (simp add: sample_mail_step_def)
  have c: "get_contact (run_workspace sample_run) (run_contact sample_run) (wd_db sample_mail_world) = Some (sample_contact 7 1 ''bo@y.io'')"
    by (simp add: sample_mail_contact)
  have s': "send sample_env 0 (run_workspace sample_run) sample_mail_request sample_mail_world = (Inr (outcome_result Sent '''' 10), wd1)"
    using s(1) by (simp add: sample_mail_contact)
  have o: "res_outcome (outcome_result Sent '''' 10) = Sent" by (simp add: outcome_result_def)
  have tk: "oe_tracker sample_env \<noteq> None" by (simp add: sample_env_simps)
  from email_step_retry [OF sample_mail_wf sample_mail_due ty c sample_mail_contact(2) s' o tk, of 99 0] s
  show ?thesis by (intro exI [of _ wd1] exI) simp
qed

theorem run_walks_forward_witness:
  "\<exists>out wd' run'. run_step sample_env 0 0 9 sample_run_world = (Inr out, wd') \<and>
     find_where (\<lambda>r. run_id r = 9) (runs (wd_db wd')) = Some run' \<and>
     steps_left (wd_db wd') run' < steps_left (wd_db sample_run_world) sample_run"
proof -
  let ?f = "advanced 1 (Some (wrap64 (86400 * second)))"
  have ex: "run_step sample_env 0 0 9 sample_run_world =
      (Inr (step_later (wrap64 (86400 * second))), upd_db (update_run sample_run ?f) sample_run_world)"
    by (simp add: run_step_due [OF sample_due] exec_step_def wait_step_def Let_def) (simp add: sample_run_def)
  have f: "find_where (\<lambda>r. run_id r = 9) (runs (wd_db sample_run_world)) = Some sample_run" and act: "run_status sample_run = RunActive"
    using sample_due by (simp_all add: due_step_def)
  from run_walks_forward [OF ex _ _ f] act obtain run' where
    r: "find_where (\<lambda>r. run_id r = 9) (runs (wd_db (upd_db (update_run sample_run ?f) sample_run_world))) = Some run'"
    and st: "steps_left (wd_db (upd_db (update_run sample_run ?f) sample_run_world)) run' <
        steps_left (wd_db sample_run_world) sample_run \<or> run' = sample_run" by auto
  have "run' = ?f sample_run" using find_run_update [OF f, of ?f] r by simp
  then have "run' \<noteq> sample_run" by (simp add: sample_run_def advanced_def)
  with ex r st show ?thesis by blast
qed

section \<open>Enrolling by trigger\<close>

lemma enroll_all_spec:
  assumes "enroll_all ws cid as d = (Inr ids, d')"
  shows "\<exists>new. runs d' = runs d @ new \<and> map run_id new = ids \<and> automations d' = automations d \<and>
     (\<forall>r \<in> set new. run_workspace r = ws \<and> run_contact r = cid \<and> run_automation r \<in> set as \<and>
        run_status r = RunActive \<and> run_current_step r = 0) \<and>
     (\<forall>a \<in> set as. \<exists>r \<in> set (runs d'). run_automation r = a \<and> run_contact r = cid) \<and>
     (enrolled_once d \<longrightarrow> enrolled_once d')"
  using assms
proof (induction as arbitrary: d ids)
  case (Cons a as)
  obtain x d1 where e: "enroll ws a cid d = (Inr x, d1)" using Cons.prems by (auto split: prod.splits sum.splits)
  have once: "enrolled_once d \<longrightarrow> enrolled_once d1" using enrolled_once_enroll [of d ws a cid] e by simp
  have rest: "\<exists>ids1. enroll_all ws cid as d1 = (Inr ids1, d') \<and> ids = (case x of None \<Rightarrow> ids1 | Some i \<Rightarrow> i # ids1)"
    using Cons.prems e by (auto split: option.splits prod.splits sum.splits)
  then obtain ids1 where ids1: "enroll_all ws cid as d1 = (Inr ids1, d')" "ids = (case x of None \<Rightarrow> ids1 | Some i \<Rightarrow> i # ids1)"
    by blast
  obtain new where new: "runs d' = runs d1 @ new" "map run_id new = ids1" "automations d' = automations d1"
    "\<forall>r \<in> set new. run_workspace r = ws \<and> run_contact r = cid \<and> run_automation r \<in> set as \<and>
        run_status r = RunActive \<and> run_current_step r = 0"
    "\<forall>a \<in> set as. \<exists>r \<in> set (runs d'). run_automation r = a \<and> run_contact r = cid" "enrolled_once d1 \<longrightarrow> enrolled_once d'"
    using Cons.IH [OF ids1(1)] by blast
  show ?case
  proof (cases x)
    case None
    then have d1: "d1 = d" and ex: "\<exists>r \<in> set (runs d). run_automation r = a \<and> run_contact r = cid"
      using e by (auto simp: enroll_def table_simps split: if_splits)
    show ?thesis using new ids1(2) None ex once by (intro exI [of _ new]) (auto simp: d1)
  next
    case (Some i)
    let ?r = "\<lparr>run_id = i, run_workspace = ws, run_automation = a, run_contact = cid,
        run_status = RunActive, run_current_step = 0, run_resume_at = None\<rparr>"
    have r: "runs d1 = runs d @ [?r]" using enroll_SomeD [of ws a cid d i d1] e Some by simp
    have au: "automations d1 = automations d" using e by (auto simp: enroll_def split: if_splits)
    show ?thesis using new ids1(2) Some r au once by (intro exI [of _ "?r # new"]) auto
  qed
qed auto

text \<open>A trigger enrolls exactly where it should. When EvaluateTrigger succeeds, the Contact has an
  Enrollment in every active Automation of the Workspace whose trigger is this event, the new runs are
  the returned ones, each active at step 0 and of such an Automation, nothing else changed among the
  runs, and a Contact still has at most one Enrollment per Automation.\<close>

theorem trigger_enrolls:
  assumes "evaluate_trigger ws cid action d = (Inr ids, d')"
  shows "\<exists>new. runs d' = runs d @ new \<and> map run_id new = ids \<and>
     (\<forall>r \<in> set new. run_contact r = cid \<and> run_workspace r = ws \<and> run_status r = RunActive \<and> run_current_step r = 0 \<and>
        (\<exists>a \<in> set (automations d). triggered ws action a \<and> au_id a = run_automation r)) \<and>
     (\<forall>a \<in> set (automations d). triggered ws action a \<longrightarrow>
        (\<exists>r \<in> set (runs d'). run_automation r = au_id a \<and> run_contact r = cid)) \<and>
     (enrolled_once d \<longrightarrow> enrolled_once d')"
proof -
  obtain new where n: "runs d' = runs d @ new" "map run_id new = ids" "enrolled_once d \<longrightarrow> enrolled_once d'"
    and r: "\<forall>r \<in> set new. run_workspace r = ws \<and> run_contact r = cid \<and>
        run_automation r \<in> set (map au_id (filter (triggered ws action) (automations d))) \<and>
        run_status r = RunActive \<and> run_current_step r = 0"
    and a: "\<forall>a \<in> set (map au_id (filter (triggered ws action) (automations d))).
        \<exists>r \<in> set (runs d'). run_automation r = a \<and> run_contact r = cid"
    using enroll_all_spec [OF assms [unfolded evaluate_trigger_def]] by blast
  have "\<forall>a \<in> set (automations d). triggered ws action a \<longrightarrow>
        (\<exists>r \<in> set (runs d'). run_automation r = au_id a \<and> run_contact r = cid)" using a by simp
  moreover have "\<exists>a \<in> set (automations d). triggered ws action a \<and> au_id a = run_automation x" if "x \<in> set new" for x
    using r that by force
  ultimately show ?thesis using n r by (intro exI [of _ new]) blast
qed

theorem trigger_enrolls_witness:
  "\<exists>r d'. evaluate_trigger 1 7 ''contact.created'' (wd_db sample_run_world\<lparr>runs := []\<rparr>) = (Inr [10], d') \<and> runs d' = [r] \<and>
     run_automation r = 5"
proof -
  let ?d = "wd_db sample_run_world\<lparr>runs := []\<rparr>"
  obtain d' where e: "evaluate_trigger 1 7 ''contact.created'' ?d = (Inr [10], d')"
    by (simp add: evaluate_trigger_def triggered_def in_ws_def sample_run_world_def sample_automation_def enroll_def
        exists_where_def get_automation_def find_where_def verify_contact_def sample_contact_def)
  from trigger_enrolls [OF e] obtain new where n: "runs d' = new" "map run_id new = [10]"
    "\<forall>r \<in> set new. \<exists>a \<in> set (automations ?d). au_id a = run_automation r" by auto
  then obtain r where r: "new = [r]" by auto
  have "automations ?d = [sample_automation]" "au_id sample_automation = 5"
    by (simp_all add: sample_run_world_def sample_automation_def)
  with n r have "run_automation r = 5" by auto
  with e n(1) r show ?thesis by auto
qed

end
