(* ===== verification/Segments.thy ===== *)
theory Segments
  imports Tags
begin

text \<open>
  \<open>internal/segments\<close>: a Segment's stored rule (the JSON a query builder emits) compiled into a predicate
  over Contacts (\<open>Parse\<close>, \<open>Compile\<close>, \<open>compileRule\<close> and its siblings, bound to Contacts by
  \<open>ContactSchema\<close>), its meaning as an SQL condition, and the module that validates, stores and counts it.
  A condition has SQL's three values, \<open>None\<close> for NULL; a row is selected only when it is \<open>Some True\<close>.
  The JSON operators are ent's \<open>sqljson\<close> and Postgres's, a parameter; \<open>LIKE\<close> is modelled on bytes and
  \<open>ILIKE\<close> on ASCII letters. Days are counted back in UTC. Object keys are matched as written.
\<close>

section \<open>Decoding\<close>

record group =
  gr_combinator :: string
  gr_not :: bool
  gr_rules :: "json list"

record rule =
  ru_field :: string
  ru_operator :: string
  ru_value :: string

text \<open>\<open>json.Unmarshal\<close> of one struct field: the last of equal keys wins; \<open>null\<close> leaves a string or a
  bool as it is and makes a slice nil; another type is an error.\<close>

fun get_str :: "string \<Rightarrow> string \<Rightarrow> (string \<times> json) list \<Rightarrow> string option" where
  "get_str k acc [] = Some acc"
| "get_str k acc ((k', v) # fs) =
     (if k' \<noteq> k then get_str k acc fs
      else case v of JStr s \<Rightarrow> get_str k s fs | JNull \<Rightarrow> get_str k acc fs | _ \<Rightarrow> None)"

fun get_bool :: "string \<Rightarrow> bool \<Rightarrow> (string \<times> json) list \<Rightarrow> bool option" where
  "get_bool k acc [] = Some acc"
| "get_bool k acc ((k', v) # fs) =
     (if k' \<noteq> k then get_bool k acc fs
      else case v of JBool b \<Rightarrow> get_bool k b fs | JNull \<Rightarrow> get_bool k acc fs | _ \<Rightarrow> None)"

fun get_arr :: "string \<Rightarrow> json list \<Rightarrow> (string \<times> json) list \<Rightarrow> json list option" where
  "get_arr k acc [] = Some acc"
| "get_arr k acc ((k', v) # fs) =
     (if k' \<noteq> k then get_arr k acc fs
      else case v of JArr xs \<Rightarrow> get_arr k xs fs | JNull \<Rightarrow> get_arr k [] fs | _ \<Rightarrow> None)"

fun decode_group :: "string \<Rightarrow> json \<Rightarrow> group option" where
  "decode_group comb (JObj fs) =
     (case (get_str ''combinator'' comb fs, get_bool ''not'' False fs, get_arr ''rules'' [] fs) of
        (Some c, Some n, Some rs) \<Rightarrow> Some \<lparr>gr_combinator = c, gr_not = n, gr_rules = rs\<rparr>
      | _ \<Rightarrow> None)"
| "decode_group comb JNull = Some \<lparr>gr_combinator = comb, gr_not = False, gr_rules = []\<rparr>"
| "decode_group comb _ = None"

fun decode_rule :: "json \<Rightarrow> rule option" where
  "decode_rule (JObj fs) =
     (case (get_str ''field'' '''' fs, get_str ''operator'' '''' fs, get_str ''value'' '''' fs) of
        (Some f, Some o', Some v) \<Rightarrow> Some \<lparr>ru_field = f, ru_operator = o', ru_value = v\<rparr>
      | _ \<Rightarrow> None)"
| "decode_rule JNull = Some \<lparr>ru_field = '''', ru_operator = '''', ru_value = ''''\<rparr>"
| "decode_rule _ = None"

fun decode_probe :: "json \<Rightarrow> (string \<times> string) option" where
  "decode_probe (JObj fs) =
     (case (get_str ''combinator'' '''' fs, get_str ''field'' '''' fs) of
        (Some c, Some f) \<Rightarrow> Some (c, f)
      | _ \<Rightarrow> None)"
| "decode_probe JNull = Some ('''', '''')"
| "decode_probe _ = None"

section \<open>Conditions\<close>

datatype column = SubjectId | EmailCol | PhoneCol | FirstName | LastName | TimeZone

datatype json_op = JsonEq | JsonNeq | JsonContains | JsonHasKey

datatype cond =
    CTrue | CFalse
  | CEq column string | CNeq column string | CContains column string | CPrefix column string
  | CNull column | CNotNull column
  | CJson json_op string string
  | CEvent bool string "time option"
  | CTag bool string
  | CAnd "cond list" | COr "cond list" | CNot cond

datatype segment_error =
  MalformedDefinition | MalformedRule | UnknownField string | UnsupportedOperator string | BadWindow | TagNameRequired

definition event_field_prefix :: string where "event_field_prefix = ''event:''"
definition custom_prefix :: string where "custom_prefix = ''custom:''"
definition tag_field :: string where "tag_field = ''tag''"

lemmas field_names = event_field_prefix_def custom_prefix_def tag_field_def

definition contact_column :: "string \<Rightarrow> column option" where
  "contact_column f =
     (if f = ''subject_id'' then Some SubjectId else if f = ''email'' then Some EmailCol
      else if f = ''phone'' then Some PhoneCol else if f = ''first_name'' then Some FirstName
      else if f = ''last_name'' then Some LastName else if f = ''time_zone'' then Some TimeZone else None)"

definition compile_event :: "time \<Rightarrow> string \<Rightarrow> string \<Rightarrow> string \<Rightarrow> segment_error + cond" where
  "compile_event now action op val =
     (if op \<noteq> ''performed'' \<and> op \<noteq> ''notPerformed'' then Inl (UnsupportedOperator op)
      else (let v = trim_space val; negate = (op = ''notPerformed'') in
            if v = '''' then Inr (CEvent negate action None)
            else case parse_int64 v of
                   None \<Rightarrow> Inl BadWindow
                 | Some days \<Rightarrow>
                    if days < 0 then Inl BadWindow
                    else Inr (CEvent negate action (if days > 0 then Some (now - days * day) else None))))"

definition compile_tag :: "string \<Rightarrow> string \<Rightarrow> segment_error + cond" where
  "compile_tag op val =
     (if op \<noteq> ''has'' \<and> op \<noteq> ''doesNotHave'' then Inl (UnsupportedOperator op)
      else (let name = trim_space val in
            if name = '''' then Inl TagNameRequired else Inr (CTag (op = ''doesNotHave'') name)))"

definition compile_json :: "string \<Rightarrow> string \<Rightarrow> string \<Rightarrow> segment_error + cond" where
  "compile_json path op val =
     (if op = ''='' then Inr (CJson JsonEq path val)
      else if op = ''!='' then Inr (CJson JsonNeq path val)
      else if op = ''contains'' then Inr (CJson JsonContains path val)
      else if op = ''notNull'' then Inr (CJson JsonHasKey path val)
      else Inl (UnsupportedOperator op))"

definition compile_column :: "column \<Rightarrow> string \<Rightarrow> string \<Rightarrow> segment_error + cond" where
  "compile_column col op val =
     (if op = ''='' then Inr (CEq col val)
      else if op = ''!='' then Inr (CNeq col val)
      else if op = ''contains'' then Inr (CContains col val)
      else if op = ''beginsWith'' then Inr (CPrefix col val)
      else if op = ''null'' then Inr (CNull col)
      else if op = ''notNull'' then Inr (CNotNull col)
      else Inl (UnsupportedOperator op))"

definition compile_rule :: "time \<Rightarrow> rule \<Rightarrow> segment_error + cond" where
  "compile_rule now r =
     (let f = ru_field r in
      if prefix event_field_prefix f
      then (let action = drop (length event_field_prefix) f in
            if action = '''' then Inl (UnknownField f) else compile_event now action (ru_operator r) (ru_value r))
      else if f = tag_field then compile_tag (ru_operator r) (ru_value r)
      else if prefix custom_prefix f \<and> drop (length custom_prefix) f \<noteq> ''''
      then compile_json (drop (length custom_prefix) f) (ru_operator r) (ru_value r)
      else case contact_column f of
             None \<Rightarrow> Inl (UnknownField f)
           | Some col \<Rightarrow> compile_column col (ru_operator r) (ru_value r))"

text \<open>\<open>compileGroup\<close> after its entries: none means everyone, negated none means no one.\<close>

definition combine :: "group \<Rightarrow> cond list \<Rightarrow> cond" where
  "combine g cs =
     (if cs = [] then (if gr_not g then CFalse else CTrue)
      else (let p = (if to_lower (gr_combinator g) = ''or'' then COr cs else CAnd cs)
            in if gr_not g then CNot p else p))"

lemma get_arr_size: "get_arr k acc fs = Some rs \<Longrightarrow>
    size_list size rs \<le> size_list size acc + size_list (size_prod (\<lambda>_. 0) size) fs"
  by (induction k acc fs rule: get_arr.induct) (auto split: if_splits json.splits)

lemma decode_group_size: "decode_group comb j = Some g \<Longrightarrow> size_list size (gr_rules g) \<le> size j"
  by (induction comb j rule: decode_group.induct) (auto dest!: get_arr_size split: option.splits)

function (sequential) compile_entry :: "time \<Rightarrow> json \<Rightarrow> segment_error + cond"
  and compile_entries :: "time \<Rightarrow> json list \<Rightarrow> segment_error + cond list" where
  "compile_entry now j =
     (case decode_probe j of
        None \<Rightarrow> Inl MalformedRule
      | Some (c, f) \<Rightarrow>
         if c \<noteq> '''' \<or> f = ''''
         then (case decode_group '''' j of
                 None \<Rightarrow> Inl MalformedRule
               | Some g \<Rightarrow>
                  (case compile_entries now (gr_rules g) of Inl e \<Rightarrow> Inl e | Inr cs \<Rightarrow> Inr (combine g cs)))
         else (case decode_rule j of None \<Rightarrow> Inl MalformedRule | Some r \<Rightarrow> compile_rule now r))"
| "compile_entries now [] = Inr []"
| "compile_entries now (j # js) =
     (case compile_entry now j of
        Inl e \<Rightarrow> Inl e
      | Inr c \<Rightarrow> (case compile_entries now js of Inl e \<Rightarrow> Inl e | Inr cs \<Rightarrow> Inr (c # cs)))"
  by pat_completeness auto
termination
  by (relation "measure (\<lambda>x. case x of Inl (_, j) \<Rightarrow> 2 * size j + 2 | Inr (_, js) \<Rightarrow> 2 * size_list size js + 1)")
     (auto dest!: decode_group_size)

text \<open>\<open>Parse\<close>: a blank definition matches everyone.\<close>

fun parse_definition :: "json_text \<Rightarrow> segment_error + group" where
  "parse_definition EmptyText = Inr \<lparr>gr_combinator = ''and'', gr_not = False, gr_rules = []\<rparr>"
| "parse_definition MalformedText = Inl MalformedDefinition"
| "parse_definition (JsonText j) =
     (case decode_group ''and'' j of None \<Rightarrow> Inl MalformedDefinition | Some g \<Rightarrow> Inr g)"

definition compile_group :: "time \<Rightarrow> group \<Rightarrow> segment_error + cond" where
  "compile_group now g =
     (case compile_entries now (gr_rules g) of Inl e \<Rightarrow> Inl e | Inr cs \<Rightarrow> Inr (combine g cs))"

definition contact_predicate :: "time \<Rightarrow> json_text \<Rightarrow> segment_error + cond" where
  "contact_predicate now t = (case parse_definition t of Inl e \<Rightarrow> Inl e | Inr g \<Rightarrow> compile_group now g)"

section \<open>Meaning\<close>

definition and3 :: "bool option list \<Rightarrow> bool option" where
  "and3 xs = (if Some False \<in> set xs then Some False else if None \<in> set xs then None else Some True)"

definition or3 :: "bool option list \<Rightarrow> bool option" where
  "or3 xs = (if Some True \<in> set xs then Some True else if None \<in> set xs then None else Some False)"

definition not3 :: "bool option \<Rightarrow> bool option" where "not3 = map_option Not"

fun column_value :: "column \<Rightarrow> contact \<Rightarrow> string option" where
  "column_value SubjectId c = con_subject c"
| "column_value EmailCol c = con_email c"
| "column_value PhoneCol c = con_phone c"
| "column_value FirstName c = con_first_name c"
| "column_value LastName c = con_last_name c"
| "column_value TimeZone c = con_time_zone c"

type_synonym sql_json = "json_op \<Rightarrow> json option \<Rightarrow> string \<Rightarrow> bool option"

definition performed :: "contact \<Rightarrow> string \<Rightarrow> time option \<Rightarrow> event_row \<Rightarrow> bool" where
  "performed c action since e \<longleftrightarrow>
     ev_contact e = Some (con_id c) \<and> ev_workspace e = con_workspace c \<and> ev_action e = action \<and>
     (case since of None \<Rightarrow> True
      | Some t \<Rightarrow> (case ev_occurred_at e of None \<Rightarrow> False | Some o' \<Rightarrow> truncate_micro t \<le> o'))"

fun eval_cond :: "sql_json \<Rightarrow> db \<Rightarrow> contact \<Rightarrow> cond \<Rightarrow> bool option" where
  "eval_cond sj d c CTrue = Some True"
| "eval_cond sj d c CFalse = Some False"
| "eval_cond sj d c (CEq col v) = map_option (\<lambda>x. x = v) (column_value col c)"
| "eval_cond sj d c (CNeq col v) = map_option (\<lambda>x. x \<noteq> v) (column_value col c)"
| "eval_cond sj d c (CContains col v) = map_option (\<lambda>x. sublist (to_lower v) (to_lower x)) (column_value col c)"
| "eval_cond sj d c (CPrefix col v) = map_option (\<lambda>x. prefix v x) (column_value col c)"
| "eval_cond sj d c (CNull col) = Some (column_value col c = None)"
| "eval_cond sj d c (CNotNull col) = Some (column_value col c \<noteq> None)"
| "eval_cond sj d c (CJson op path v) = sj op (con_fields c path) v"
| "eval_cond sj d c (CEvent negate action since) = Some (exists_where (performed c action since) (events d) \<noteq> negate)"
| "eval_cond sj d c (CTag negate name) = Some (has_tag (con_workspace c) (con_id c) name d \<noteq> negate)"
| "eval_cond sj d c (CAnd cs) = and3 (map (eval_cond sj d c) cs)"
| "eval_cond sj d c (COr cs) = or3 (map (eval_cond sj d c) cs)"
| "eval_cond sj d c (CNot x) = not3 (eval_cond sj d c x)"

definition selects :: "sql_json \<Rightarrow> db \<Rightarrow> cond \<Rightarrow> contact \<Rightarrow> bool" where
  "selects sj d x c \<longleftrightarrow> eval_cond sj d c x = Some True"

section \<open>The module\<close>

datatype segment_module_error = InvalidDefinition segment_error | SegmentNotFound | SegmentValidation

definition validate_definition :: "time \<Rightarrow> json_text \<Rightarrow> segment_module_error option" where
  "validate_definition now t =
     (case contact_predicate now t of Inl e \<Rightarrow> Some (InvalidDefinition e) | Inr _ \<Rightarrow> None)"

definition get_segment :: "id \<Rightarrow> id \<Rightarrow> db \<Rightarrow> segment option" where
  "get_segment ws sid d = find_where (in_ws seg_workspace ws (\<lambda>s. seg_id s = sid)) (segments d)"

definition create_segment ::
  "id \<Rightarrow> time \<Rightarrow> string \<Rightarrow> json_text option \<Rightarrow> db \<Rightarrow> (segment_module_error + segment) \<times> db" where
  "create_segment ws now name t d =
     (case (case t of None \<Rightarrow> None | Some x \<Rightarrow> validate_definition now x) of
        Some e \<Rightarrow> (Inl e, d)
      | None \<Rightarrow>
         if name = '''' then (Inl SegmentValidation, d)
         else (let s = \<lparr>seg_id = next_id d, seg_workspace = ws, seg_name = name,
                        seg_definition = (case t of None \<Rightarrow> EmptyText | Some x \<Rightarrow> x)\<rparr>
               in (Inr s, d\<lparr>segments := segments d @ [s], next_id := next_id d + 1\<rparr>)))"

definition set_segment :: "string option \<Rightarrow> json_text option \<Rightarrow> segment \<Rightarrow> segment" where
  "set_segment name t s =
     s\<lparr>seg_name := (case name of None \<Rightarrow> seg_name s | Some n \<Rightarrow> n),
       seg_definition := (case t of None \<Rightarrow> seg_definition s | Some x \<Rightarrow> x)\<rparr>"

definition update_segment ::
  "id \<Rightarrow> time \<Rightarrow> id \<Rightarrow> string option \<Rightarrow> json_text option \<Rightarrow> db \<Rightarrow> (segment_module_error + segment) \<times> db" where
  "update_segment ws now sid name t d =
     (case (case t of None \<Rightarrow> None | Some x \<Rightarrow> validate_definition now x) of
        Some e \<Rightarrow> (Inl e, d)
      | None \<Rightarrow>
         if name = Some '''' then (Inl SegmentValidation, d)
         else (case get_segment ws sid d of
                 None \<Rightarrow> (Inl SegmentNotFound, d)
               | Some s \<Rightarrow> (Inr (set_segment name t s),
                   d\<lparr>segments := update_where (in_ws seg_workspace ws (\<lambda>x. seg_id x = sid)) (set_segment name t) (segments d)\<rparr>)))"

definition preview_segment :: "sql_json \<Rightarrow> id \<Rightarrow> time \<Rightarrow> json_text \<Rightarrow> db \<Rightarrow> segment_module_error + nat" where
  "preview_segment sj ws now t d =
     (case contact_predicate now t of
        Inl e \<Rightarrow> Inl (InvalidDefinition e)
      | Inr x \<Rightarrow> Inr (count_where (in_ws con_workspace ws (selects sj d x)) (contacts d)))"

definition count_segment :: "sql_json \<Rightarrow> id \<Rightarrow> time \<Rightarrow> id \<Rightarrow> db \<Rightarrow> segment_module_error + nat" where
  "count_segment sj ws now sid d =
     (case get_segment ws sid d of
        None \<Rightarrow> Inl SegmentNotFound
      | Some s \<Rightarrow> preview_segment sj ws now (seg_definition s) d)"

section \<open>What is accepted stays accepted\<close>

lemma compile_rule_now: "isl (compile_rule now r) = isl (compile_rule now' r)"
  by (simp add: compile_rule_def compile_event_def Let_def split: option.split)

lemma compile_now:
  "isl (compile_entry now j) = isl (compile_entry now' j)"
  "isl (compile_entries now js) = isl (compile_entries now' js)"
proof (induction now j and now js rule: compile_entry_compile_entries.induct)
  case (1 now j)
  show ?case
  proof (cases "decode_probe j")
    case None
    then show ?thesis by simp
  next
    case (Some p)
    obtain c f where p: "decode_probe j = Some (c, f)" using Some by (cases p) auto
    show ?thesis
    proof (cases "c \<noteq> '''' \<or> f = ''''")
      case True
      show ?thesis
      proof (cases "decode_group '''' j")
        case None
        with p True show ?thesis by auto
      next
        case (Some g)
        have "isl (compile_entries now (gr_rules g)) = isl (compile_entries now' (gr_rules g))"
          by (rule 1 [OF p refl True Some])
        with p True Some show ?thesis
          by (cases "compile_entries now (gr_rules g)"; cases "compile_entries now' (gr_rules g)") auto
      qed
    next
      case False
      then show ?thesis using p compile_rule_now [of now _ now'] by (simp split: option.split)
    qed
  qed
next
  case (3 now j js)
  then show ?case
    by (cases "compile_entry now j"; cases "compile_entry now' j"; cases "compile_entries now js";
        cases "compile_entries now' js") auto
qed simp

lemma contact_predicate_now: "isl (contact_predicate now t) = isl (contact_predicate now' t)"
proof (cases "parse_definition t")
  case (Inr g)
  then show ?thesis using compile_now(2) [of now "gr_rules g" now']
    by (cases "compile_entries now (gr_rules g)"; cases "compile_entries now' (gr_rules g)")
      (auto simp: contact_predicate_def compile_group_def)
qed (simp add: contact_predicate_def)

definition valid_segments :: "db \<Rightarrow> bool" where
  "valid_segments d \<longleftrightarrow> (\<forall>s \<in> set (segments d). \<not> isl (contact_predicate 0 (seg_definition s)))"

lemma validate_iff: "validate_definition now t = None \<longleftrightarrow> \<not> isl (contact_predicate 0 t)"
  using contact_predicate_now [of now t 0]
  by (cases "contact_predicate now t"; cases "contact_predicate 0 t") (auto simp: validate_definition_def)

lemma blank_valid: "\<not> isl (contact_predicate now EmptyText)"
  by (simp add: contact_predicate_def compile_group_def)

text \<open>A stored Segment never stops compiling. Create and Update store no definition that does not
  compile, whatever they return; so from a database whose definitions compile, counting a Segment, at
  any later time, can only fail because there is no such Segment, and the planner of a Broadcast never
  meets a malformed rule.\<close>

theorem segments_stay_valid:
  assumes "valid_segments d"
  shows "valid_segments (snd (create_segment ws now name t d)) \<and>
     valid_segments (snd (update_segment ws now sid uname t d)) \<and>
     (\<forall>s later. get_segment ws sid d = Some s \<longrightarrow> (\<exists>x. contact_predicate later (seg_definition s) = Inr x)) \<and>
     (\<forall>later. count_segment sj ws later sid d = Inl SegmentNotFound \<or> (\<exists>n. count_segment sj ws later sid d = Inr n))"
proof (intro conjI allI impI)
  have ok: "\<not> isl (contact_predicate 0 x)" if "t = Some x" "(case t of None \<Rightarrow> None | Some x \<Rightarrow> validate_definition now x) = None" for x
    using that validate_iff [of now x] by simp
  show "valid_segments (snd (create_segment ws now name t d))"
    using assms ok blank_valid by (auto simp: valid_segments_def create_segment_def Let_def split: option.splits)
  show "valid_segments (snd (update_segment ws now sid uname t d))"
    using assms ok by (auto simp: valid_segments_def update_segment_def set_segment_def update_where_def split: option.splits)
  have pred: "\<exists>x. contact_predicate later (seg_definition s) = Inr x" if "get_segment ws sid d = Some s" for s later
  proof -
    have "s \<in> set (segments d)" using that by (auto simp: get_segment_def dest: find_where_SomeD)
    then have "\<not> isl (contact_predicate later (seg_definition s))"
      using assms contact_predicate_now [of later "seg_definition s" 0] by (simp add: valid_segments_def)
    then show ?thesis by (cases "contact_predicate later (seg_definition s)") auto
  qed
  show "\<exists>x. contact_predicate later (seg_definition s) = Inr x" if "get_segment ws sid d = Some s" for s later
    using that by (rule pred)
  show "count_segment sj ws later sid d = Inl SegmentNotFound \<or> (\<exists>n. count_segment sj ws later sid d = Inr n)" for later
  proof (cases "get_segment ws sid d")
    case (Some s)
    then obtain x where "contact_predicate later (seg_definition s) = Inr x" using pred by blast
    with Some show ?thesis by (simp add: count_segment_def preview_segment_def)
  qed (simp add: count_segment_def)
qed

definition sample_rule :: json where
  "sample_rule = JObj [(''combinator'', JStr ''and''),
     (''rules'', JArr [JObj [(''field'', JStr ''tag''), (''operator'', JStr ''has''), (''value'', JStr ''vip'')],
        JObj [(''field'', JStr ''event:order.paid''), (''operator'', JStr ''performed''), (''value'', JStr ''30'')]])]"

lemma sample_rule_compiles:
  "contact_predicate (40 * day) (JsonText sample_rule) =
     Inr (CAnd [CTag False ''vip'', CEvent False ''order.paid'' (Some (10 * day))])"
  by code_simp

theorem segments_stay_valid_witness:
  "\<exists>s d'. create_segment 1 (40 * day) ''VIP'' (Some (JsonText sample_rule)) empty_db = (Inr s, d') \<and> valid_segments d'"
proof -
  have v: "valid_segments empty_db" by (simp add: valid_segments_def)
  have "validate_definition (40 * day) (JsonText sample_rule) = None"
    by (simp only: validate_definition_def sample_rule_compiles) simp
  then have "\<exists>s d'. create_segment 1 (40 * day) ''VIP'' (Some (JsonText sample_rule)) empty_db = (Inr s, d')"
    by (simp add: create_segment_def Let_def)
  with segments_stay_valid [OF v] show ?thesis by (metis snd_conv)
qed


section \<open>Membership\<close>

lemma exists_filter: "(\<And>r. p r \<Longrightarrow> q r) \<Longrightarrow> exists_where p (filter q rows) = exists_where p rows"
  by (auto simp: exists_where_def list_ex_iff)

lemma eval_isolated:
  assumes "filter (\<lambda>e. ev_workspace e = con_workspace c) (events d') = filter (\<lambda>e. ev_workspace e = con_workspace c) (events d)"
    and "filter (\<lambda>t. tag_workspace t = con_workspace c) (tags d') = filter (\<lambda>t. tag_workspace t = con_workspace c) (tags d)"
    and "contact_tags d' = contact_tags d"
  shows "eval_cond sj d' c x = eval_cond sj d c x"
proof -
  have ev: "exists_where (performed c a s) (events d') = exists_where (performed c a s) (events d)" for a s
    using exists_filter [of "performed c a s" "\<lambda>e. ev_workspace e = con_workspace c" "events d"]
      exists_filter [of "performed c a s" "\<lambda>e. ev_workspace e = con_workspace c" "events d'"] assms(1)
    by (simp add: performed_def)
  have tg: "has_tag (con_workspace c) (con_id c) n d' = has_tag (con_workspace c) (con_id c) n d" for n
    unfolding has_tag_def assms(3)
    using exists_filter [of "\<lambda>t. named_tag (con_workspace c) n t \<and> (con_id c, tag_id t) \<in> set (contact_tags d)"
        "\<lambda>t. tag_workspace t = con_workspace c" "tags d"]
      exists_filter [of "\<lambda>t. named_tag (con_workspace c) n t \<and> (con_id c, tag_id t) \<in> set (contact_tags d)"
        "\<lambda>t. tag_workspace t = con_workspace c" "tags d'"] assms(2)
    by (simp add: named_tag_iff)
  show ?thesis by (induction x) (simp_all add: ev tg cong: map_cong)
qed

text \<open>Who a rule selects. A contact is selected by a group exactly when it is by one (or all) of its
  entries; a negated group selects those for which the group is false, so a Contact without the value a
  comparison needs is in neither; performed and notPerformed, has and doesNotHave split the Contacts;
  no rule at all selects everyone, its negation no one. Nothing another Workspace does to its Tags or
  Events changes who is selected.\<close>

theorem segment_membership:
  assumes "filter (\<lambda>e. ev_workspace e = con_workspace c) (events d') = filter (\<lambda>e. ev_workspace e = con_workspace c) (events d)"
    and "filter (\<lambda>t. tag_workspace t = con_workspace c) (tags d') = filter (\<lambda>t. tag_workspace t = con_workspace c) (tags d)"
    and "contact_tags d' = contact_tags d" and "compile_entries now (gr_rules g) = Inr cs"
  shows "\<exists>x y. compile_group now (g\<lparr>gr_not := False\<rparr>) = Inr x \<and> compile_group now (g\<lparr>gr_not := True\<rparr>) = Inr y \<and>
     selects sj d' x c = selects sj d x c \<and>
     (cs = [] \<longrightarrow> selects sj d x c \<and> \<not> selects sj d y c) \<and>
     (cs \<noteq> [] \<longrightarrow> selects sj d x c = (if to_lower (gr_combinator g) = ''or''
                     then \<exists>z \<in> set cs. selects sj d z c else \<forall>z \<in> set cs. selects sj d z c)) \<and>
     (selects sj d y c \<longleftrightarrow> eval_cond sj d c x = Some False) \<and>
     (column_value col c = None \<longrightarrow> \<not> selects sj d (CEq col v) c \<and> \<not> selects sj d (CNeq col v) c) \<and>
     (selects sj d (CEvent True a s) c \<longleftrightarrow> \<not> selects sj d (CEvent False a s) c) \<and>
     (selects sj d (CTag True n) c \<longleftrightarrow> \<not> selects sj d (CTag False n) c)"
proof -
  let ?x = "combine (g\<lparr>gr_not := False\<rparr>) cs" and ?y = "combine (g\<lparr>gr_not := True\<rparr>) cs"
  have c: "compile_group now (g\<lparr>gr_not := False\<rparr>) = Inr ?x" "compile_group now (g\<lparr>gr_not := True\<rparr>) = Inr ?y"
    using assms(4) by (simp_all add: compile_group_def)
  have iso: "selects sj d' ?x c = selects sj d ?x c" by (simp add: selects_def eval_isolated [OF assms(1-3)])
  have a3: "and3 xs = Some True \<longleftrightarrow> (\<forall>b \<in> set xs. b = Some True)" for xs
    by (auto simp: and3_def) (metis not_None_eq)
  have o3: "or3 xs = Some True \<longleftrightarrow> (\<exists>b \<in> set xs. b = Some True)" for xs by (auto simp: or3_def)
  have n3: "not3 b = Some True \<longleftrightarrow> b = Some False" for b by (auto simp: not3_def)
  have grp: "cs \<noteq> [] \<longrightarrow> selects sj d ?x c = (if to_lower (gr_combinator g) = ''or''
                     then \<exists>z \<in> set cs. selects sj d z c else \<forall>z \<in> set cs. selects sj d z c)"
    by (simp add: combine_def selects_def a3 o3 image_iff eq_commute [of "Some True"])
  have neg: "selects sj d ?y c \<longleftrightarrow> eval_cond sj d c ?x = Some False"
    by (simp add: combine_def selects_def n3)
  have none: "cs = [] \<longrightarrow> selects sj d ?x c \<and> \<not> selects sj d ?y c" by (simp add: combine_def selects_def)
  have col: "column_value col c = None \<longrightarrow> \<not> selects sj d (CEq col v) c \<and> \<not> selects sj d (CNeq col v) c"
    by (simp add: selects_def)
  have ev: "selects sj d (CEvent True a s) c \<longleftrightarrow> \<not> selects sj d (CEvent False a s) c"
    and tg: "selects sj d (CTag True n) c \<longleftrightarrow> \<not> selects sj d (CTag False n) c"
    by (simp_all add: selects_def)
  show ?thesis
    by (intro exI [of _ ?x] exI [of _ ?y] conjI) (fact c iso grp neg none col ev tg)+
qed

theorem segment_membership_witness:
  "\<exists>x y. compile_group 0 \<lparr>gr_combinator = ''and'', gr_not = False, gr_rules = []\<rparr> = Inr x \<and>
     compile_group 0 \<lparr>gr_combinator = ''and'', gr_not = True, gr_rules = []\<rparr> = Inr y \<and>
     selects (\<lambda>_ _ _. None) empty_db x (sample_contact 7 1 ''a@x.io'') \<and>
     \<not> selects (\<lambda>_ _ _. None) empty_db y (sample_contact 7 1 ''a@x.io'')"
proof -
  let ?g = "\<lparr>gr_combinator = ''and'', gr_not = False, gr_rules = []\<rparr>" and ?c = "sample_contact 7 1 ''a@x.io''"
  have cs: "compile_entries 0 (gr_rules ?g) = Inr []" by simp
  obtain x y where "compile_group 0 (?g\<lparr>gr_not := False\<rparr>) = Inr x" "compile_group 0 (?g\<lparr>gr_not := True\<rparr>) = Inr y"
    "selects (\<lambda>_ _ _. None) empty_db x ?c" "\<not> selects (\<lambda>_ _ _. None) empty_db y ?c"
    using segment_membership [OF refl refl refl cs, of "\<lambda>_ _ _. None" empty_db ?c] by blast
  then show ?thesis by auto
qed

end
