(* ===== verification/Broadcasts.thy ===== *)
theory Broadcasts
  imports Segments SendLimit Messaging
begin

text \<open>
  \<open>internal/broadcasts\<close>: the send and schedule state machine (\<open>Send\<close>, \<open>Schedule\<close>, \<open>Unschedule\<close>,
  \<open>claim\<close>, \<open>revert\<close>), authoring (\<open>Create\<close>, \<open>Update\<close>, \<open>SetAudience\<close>, \<open>DeleteDraft\<close>, \<open>Delete\<close>), the
  delivery report, \<open>Finalize\<close> and \<open>ProgressOf\<close>. The job queue is the parameter \<open>q\<close>: whether it took the
  job, and the database and the rest of the world \<open>'q\<close> after it (the queued jobs of river; the wire of the
  inline adapter, which runs the job inside the call). A Broadcast's
  reports are exact ratios where the code rounds to \<open>float32\<close>; Audit entries are the generated client's.
\<close>

section \<open>The state machine\<close>

datatype broadcast_error =
    BroadcastNotFound | NotSendable | NotScheduled | NotDraft | AudienceNotFound | BroadcastRefNotInWorkspace
  | BroadcastValidation | EnqueueFailed

type_synonym 'q enqueuer = "id \<Rightarrow> time option \<Rightarrow> db \<times> 'q \<Rightarrow> bool \<times> db \<times> 'q"

type_synonym 'q broadcast_answer = "(broadcast_error + broadcast) \<times> db \<times> 'q"

definition broadcast_row :: "id \<Rightarrow> id \<Rightarrow> broadcast \<Rightarrow> bool" where
  "broadcast_row ws bid = in_ws bc_workspace ws (\<lambda>b. bc_id b = bid)"

definition get_broadcast :: "id \<Rightarrow> id \<Rightarrow> db \<Rightarrow> broadcast option" where
  "get_broadcast ws bid d = find_where (broadcast_row ws bid) (broadcasts d)"

definition set_broadcast :: "id \<Rightarrow> id \<Rightarrow> (broadcast \<Rightarrow> bool) \<Rightarrow> (broadcast \<Rightarrow> broadcast) \<Rightarrow> db \<Rightarrow> db" where
  "set_broadcast ws bid p f d =
     d\<lparr>broadcasts := update_where (\<lambda>b. broadcast_row ws bid b \<and> p b) f (broadcasts d)\<rparr>"

definition matches_broadcast :: "id \<Rightarrow> id \<Rightarrow> (broadcast \<Rightarrow> bool) \<Rightarrow> db \<Rightarrow> bool" where
  "matches_broadcast ws bid p d \<longleftrightarrow> count_where (\<lambda>b. broadcast_row ws bid b \<and> p b) (broadcasts d) \<noteq> 0"

definition sendable :: "broadcast \<Rightarrow> bool" where
  "sendable b \<longleftrightarrow> bc_status b = BcDraft \<or> bc_status b = BcScheduled"

definition claim_broadcast ::
  "id \<Rightarrow> id \<Rightarrow> (broadcast \<Rightarrow> broadcast) \<Rightarrow> db \<Rightarrow> (broadcast_error + broadcast) \<times> db" where
  "claim_broadcast ws bid f d =
     (let d' = set_broadcast ws bid sendable f d in
      if \<not> matches_broadcast ws bid sendable d
      then (Inl (if exists_where (broadcast_row ws bid) (broadcasts d') then NotSendable else BroadcastNotFound), d')
      else (case get_broadcast ws bid d' of None \<Rightarrow> (Inl BroadcastNotFound, d') | Some b \<Rightarrow> (Inr b, d')))"

definition revert_broadcast :: "id \<Rightarrow> id \<Rightarrow> db \<Rightarrow> db" where
  "revert_broadcast ws bid =
     set_broadcast ws bid (\<lambda>_. True) (\<lambda>b. b\<lparr>bc_status := BcDraft, bc_scheduled_at := None\<rparr>)"

definition enqueue_claimed ::
  "'q enqueuer \<Rightarrow> id \<Rightarrow> time option \<Rightarrow> 'q broadcast_answer \<Rightarrow> 'q broadcast_answer" where
  "enqueue_claimed q ws due st =
     (case st of
        (Inl e, d, x) \<Rightarrow> (Inl e, d, x)
      | (Inr b, d, x) \<Rightarrow>
         (case q (bc_id b) due (d, x) of
            (True, d', x') \<Rightarrow> (Inr b, d', x')
          | (False, d', x') \<Rightarrow> (Inl EnqueueFailed, revert_broadcast ws (bc_id b) d', x')))"

definition send_now :: "broadcast \<Rightarrow> broadcast" where
  "send_now b = b\<lparr>bc_status := BcSending, bc_scheduled_at := None\<rparr>"

definition scheduled_for :: "time \<Rightarrow> broadcast \<Rightarrow> broadcast" where
  "scheduled_for t b = b\<lparr>bc_status := BcScheduled, bc_scheduled_at := Some (truncate_micro t)\<rparr>"

definition unscheduled :: "broadcast \<Rightarrow> broadcast" where
  "unscheduled b = b\<lparr>bc_status := BcDraft, bc_scheduled_at := None\<rparr>"

definition broadcast_send :: "'q enqueuer \<Rightarrow> id \<Rightarrow> id \<Rightarrow> db \<times> 'q \<Rightarrow> 'q broadcast_answer" where
  "broadcast_send q ws bid st =
     (case claim_broadcast ws bid send_now (fst st) of (r, d) \<Rightarrow> enqueue_claimed q ws None (r, d, snd st))"

definition broadcast_schedule :: "'q enqueuer \<Rightarrow> id \<Rightarrow> id \<Rightarrow> time \<Rightarrow> db \<times> 'q \<Rightarrow> 'q broadcast_answer" where
  "broadcast_schedule q ws bid t st =
     (case claim_broadcast ws bid (scheduled_for t) (fst st) of (r, d) \<Rightarrow> enqueue_claimed q ws (Some t) (r, d, snd st))"

definition broadcast_unschedule :: "id \<Rightarrow> id \<Rightarrow> db \<Rightarrow> (broadcast_error + broadcast) \<times> db" where
  "broadcast_unschedule ws bid d =
     (let p = (\<lambda>b. bc_status b = BcScheduled); d' = set_broadcast ws bid p unscheduled d in
      if \<not> matches_broadcast ws bid p d
      then (Inl (if exists_where (broadcast_row ws bid) (broadcasts d') then NotScheduled else BroadcastNotFound), d')
      else (case get_broadcast ws bid d' of None \<Rightarrow> (Inl BroadcastNotFound, d') | Some b \<Rightarrow> (Inr b, d')))"

section \<open>Authoring\<close>

record broadcast_fields =
  bf_name :: "string option"
  bf_subject :: "string option"
  bf_from_name :: "string option"
  bf_from_email :: "string option"
  bf_body :: "string option"
  bf_segment :: "id option"
  bf_integration :: "id option"
  bf_clear_from_name :: bool
  bf_clear_from_email :: bool
  bf_clear_segment :: bool
  bf_clear_integration :: bool

definition verify_segment :: "id \<Rightarrow> id \<Rightarrow> db \<Rightarrow> bool" where
  "verify_segment ws sid d = (get_segment ws sid d \<noteq> None)"

definition opt_ok :: "(id \<Rightarrow> bool) \<Rightarrow> id option \<Rightarrow> bool" where
  "opt_ok p v = (case v of None \<Rightarrow> True | Some i \<Rightarrow> p i)"

definition create_broadcast :: "id \<Rightarrow> broadcast_fields \<Rightarrow> db \<Rightarrow> (broadcast_error + broadcast) \<times> db" where
  "create_broadcast ws f d =
     (if \<not> opt_ok (\<lambda>i. verify_segment ws i d) (bf_segment f) \<or> \<not> opt_ok (\<lambda>i. verify_integration ws i d) (bf_integration f)
      then (Inl BroadcastRefNotInWorkspace, d)
      else case bf_name f of
        None \<Rightarrow> (Inl BroadcastValidation, d)
      | Some name \<Rightarrow>
         if name = '''' then (Inl BroadcastValidation, d)
         else (let b = \<lparr>bc_id = next_id d, bc_workspace = ws, bc_name = name,
                  bc_subject = (case bf_subject f of None \<Rightarrow> '''' | Some s \<Rightarrow> s),
                  bc_from_name = bf_from_name f, bc_from_email = bf_from_email f,
                  bc_body = (case bf_body f of None \<Rightarrow> '''' | Some s \<Rightarrow> s),
                  bc_segment = bf_segment f, bc_integration = bf_integration f, bc_status = BcDraft,
                  bc_scheduled_at = None, bc_sent_at = None, bc_recipients_total = 0, bc_sent_count = 0,
                  bc_opened_count = 0, bc_clicked_count = 0, bc_unsubscribed_count = 0, bc_failed_count = 0,
                  bc_skipped_count = 0, bc_hold_reason = None, bc_last_scheduled_at = None\<rparr>
               in (Inr b, d\<lparr>broadcasts := broadcasts d @ [b], next_id := next_id d + 1\<rparr>)))"

definition patch :: "bool \<Rightarrow> 'a option \<Rightarrow> 'a option \<Rightarrow> 'a option" where
  "patch clear new old = (if clear then None else case new of None \<Rightarrow> old | Some v \<Rightarrow> Some v)"

definition apply_fields :: "broadcast_fields \<Rightarrow> broadcast \<Rightarrow> broadcast" where
  "apply_fields f b =
     b\<lparr>bc_name := (case bf_name f of None \<Rightarrow> bc_name b | Some v \<Rightarrow> v),
       bc_subject := (case bf_subject f of None \<Rightarrow> bc_subject b | Some v \<Rightarrow> v),
       bc_from_name := patch (bf_clear_from_name f) (bf_from_name f) (bc_from_name b),
       bc_from_email := patch (bf_clear_from_email f) (bf_from_email f) (bc_from_email b),
       bc_body := (case bf_body f of None \<Rightarrow> bc_body b | Some v \<Rightarrow> v),
       bc_segment := patch (bf_clear_segment f) (bf_segment f) (bc_segment b),
       bc_integration := patch (bf_clear_integration f) (bf_integration f) (bc_integration b)\<rparr>"

definition is_draft :: "broadcast \<Rightarrow> bool" where "is_draft b \<longleftrightarrow> bc_status b = BcDraft"

definition not_draft_or_not_found :: "id \<Rightarrow> id \<Rightarrow> db \<Rightarrow> broadcast_error" where
  "not_draft_or_not_found ws bid d = (if get_broadcast ws bid d = None then BroadcastNotFound else NotDraft)"

definition edit_draft :: "id \<Rightarrow> id \<Rightarrow> (broadcast \<Rightarrow> broadcast) \<Rightarrow> db \<Rightarrow> (broadcast_error + broadcast) \<times> db" where
  "edit_draft ws bid f d =
     (let d' = set_broadcast ws bid is_draft f d in
      if \<not> matches_broadcast ws bid is_draft d then (Inl (not_draft_or_not_found ws bid d'), d')
      else (case get_broadcast ws bid d' of None \<Rightarrow> (Inl BroadcastNotFound, d') | Some b \<Rightarrow> (Inr b, d')))"

text \<open>The references and the validators are checked before the UPDATE runs; a cleared reference is not.\<close>

definition update_valid :: "id \<Rightarrow> broadcast_fields \<Rightarrow> db \<Rightarrow> broadcast_error option" where
  "update_valid ws f d =
     (if \<not> (bf_clear_segment f \<or> opt_ok (\<lambda>i. verify_segment ws i d) (bf_segment f)) \<or>
         \<not> (bf_clear_integration f \<or> opt_ok (\<lambda>i. verify_integration ws i d) (bf_integration f))
      then Some BroadcastRefNotInWorkspace
      else if bf_name f = Some '''' then Some BroadcastValidation else None)"

definition update_broadcast ::
  "id \<Rightarrow> id \<Rightarrow> broadcast_fields \<Rightarrow> db \<Rightarrow> (broadcast_error + broadcast) \<times> db" where
  "update_broadcast ws bid f d =
     (case update_valid ws f d of Some e \<Rightarrow> (Inl e, d) | None \<Rightarrow> edit_draft ws bid (apply_fields f) d)"

definition set_audience :: "id \<Rightarrow> id \<Rightarrow> id option \<Rightarrow> db \<Rightarrow> (broadcast_error + broadcast) \<times> db" where
  "set_audience ws bid seg d =
     (if \<not> opt_ok (\<lambda>i. verify_segment ws i d) seg
      then (Inl (if get_broadcast ws bid d = None then BroadcastNotFound else AudienceNotFound), d)
      else edit_draft ws bid (\<lambda>b. b\<lparr>bc_segment := seg\<rparr>) d)"

definition delete_draft :: "id \<Rightarrow> id \<Rightarrow> db \<Rightarrow> broadcast_error option \<times> db" where
  "delete_draft ws bid d =
     (let d' = d\<lparr>broadcasts := delete_where (\<lambda>b. broadcast_row ws bid b \<and> is_draft b) (broadcasts d)\<rparr> in
      if \<not> matches_broadcast ws bid is_draft d then (Some (not_draft_or_not_found ws bid d'), d') else (None, d'))"

definition delete_broadcast :: "id \<Rightarrow> id \<Rightarrow> db \<Rightarrow> broadcast_error option \<times> db" where
  "delete_broadcast ws bid d =
     (let d1 = d\<lparr>recipients := delete_where (in_ws rec_workspace ws (\<lambda>r. rec_broadcast r = bid)) (recipients d)\<rparr> in
      if get_broadcast ws bid d1 = None then (Some BroadcastNotFound, d1)
      else (None, d1\<lparr>broadcasts := delete_where (broadcast_row ws bid) (broadcasts d1)\<rparr>))"

section \<open>Report, finalization and progress\<close>

definition ratio :: "int \<Rightarrow> int \<Rightarrow> rat" where
  "ratio num denom = (if denom \<le> 0 then 0 else of_int num / of_int denom)"

record report =
  rp_status :: broadcast_status
  rp_hold_reason :: "string option"
  rp_recipients :: int
  rp_sent :: int
  rp_skipped :: int
  rp_failed :: int
  rp_opened :: int
  rp_clicked :: int
  rp_unsubscribed :: int
  rp_open_rate :: rat
  rp_click_rate :: rat

definition broadcast_report :: "id \<Rightarrow> id \<Rightarrow> db \<Rightarrow> broadcast_error + report" where
  "broadcast_report ws bid d =
     (case get_broadcast ws bid d of
        None \<Rightarrow> Inl BroadcastNotFound
      | Some b \<Rightarrow> Inr \<lparr>rp_status = bc_status b, rp_hold_reason = bc_hold_reason b, rp_recipients = bc_recipients_total b,
          rp_sent = bc_sent_count b, rp_skipped = bc_skipped_count b, rp_failed = bc_failed_count b,
          rp_opened = bc_opened_count b, rp_clicked = bc_clicked_count b, rp_unsubscribed = bc_unsubscribed_count b,
          rp_open_rate = ratio (bc_opened_count b) (bc_sent_count b),
          rp_click_rate = ratio (bc_clicked_count b) (bc_sent_count b)\<rparr>)"

definition recipient_of :: "id \<Rightarrow> id \<Rightarrow> recipient_status \<Rightarrow> recipient \<Rightarrow> bool" where
  "recipient_of ws bid st = in_ws rec_workspace ws (\<lambda>r. rec_broadcast r = bid \<and> rec_status r = st)"

definition recipients_in :: "id \<Rightarrow> id \<Rightarrow> recipient_status \<Rightarrow> db \<Rightarrow> nat" where
  "recipients_in ws bid st d = count_where (recipient_of ws bid st) (recipients d)"

definition finalize :: "id \<Rightarrow> time \<Rightarrow> id \<Rightarrow> db \<Rightarrow> db" where
  "finalize ws now bid d =
     (if 0 < recipients_in ws bid RecPending d then d
      else set_broadcast ws bid (\<lambda>b. bc_status b = BcSending)
        (\<lambda>b. b\<lparr>bc_status := BcSent, bc_sent_at := Some now, bc_sent_count := int (recipients_in ws bid RecSent d),
             bc_failed_count := int (recipients_in ws bid RecFailed d),
             bc_skipped_count := int (recipients_in ws bid RecSkipped d), bc_hold_reason := None\<rparr>) d)"

record progress =
  pg_processed :: int
  pg_remaining :: int
  pg_eta :: "time option"

definition progress_of :: "id \<Rightarrow> broadcast \<Rightarrow> time \<Rightarrow> db \<Rightarrow> resolve_error + progress option" where
  "progress_of ws b now d =
     (if bc_status b \<noteq> BcSending then Inr None
      else (let pending = recipients_in ws (bc_id b) RecPending d;
                p = \<lparr>pg_processed = max 0 (bc_recipients_total b - int pending), pg_remaining = int pending, pg_eta = None\<rparr>
            in if pending = 0 \<or> bc_hold_reason b \<noteq> None then Inr (Some p)
               else case bc_last_scheduled_at b of
                      Some t \<Rightarrow> if now < t then Inr (Some (p\<lparr>pg_eta := Some t\<rparr>))
                        else (case default_integration ws d of
                           Inl NoProvider \<Rightarrow> Inr (Some p) | Inl e \<Rightarrow> Inl e
                         | Inr i \<Rightarrow> (let step = interval (effective_limits (effective_of i)) in
                             Inr (Some (if 0 < step then p\<lparr>pg_eta := Some (now + wrap64 (int pending * step))\<rparr> else p))))
                    | None \<Rightarrow>
                        (case default_integration ws d of
                           Inl NoProvider \<Rightarrow> Inr (Some p) | Inl e \<Rightarrow> Inl e
                         | Inr i \<Rightarrow> (let step = interval (effective_limits (effective_of i)) in
                             Inr (Some (if 0 < step then p\<lparr>pg_eta := Some (now + wrap64 (int pending * step))\<rparr> else p))))))"

section \<open>The queue of the send jobs\<close>

text \<open>\<open>SendBroadcastArgs\<close>, and \<open>Client.EnqueueBroadcast\<close>: river's INSERT either adds the job or fails.\<close>

record send_job =
  sj_broadcast :: id
  sj_scheduled :: "time option"

definition river_enqueue :: "bool \<Rightarrow> send_job list enqueuer" where
  "river_enqueue accepts bid due st =
     (accepts, fst st, if accepts then snd st @ [\<lparr>sj_broadcast = bid, sj_scheduled = due\<rparr>] else snd st)"

section \<open>The lifecycle it promises\<close>

text \<open>What the module keeps of each Broadcast of each Workspace, and the state machine of ADR 0016 on it.\<close>

type_synonym statuses = "id \<times> id \<Rightarrow> broadcast_status option"

definition statuses_of :: "db \<Rightarrow> statuses" where
  "statuses_of d = (\<lambda>(ws, bid). map_option bc_status (get_broadcast ws bid d))"

datatype lifecycle_op = OpSend bool | OpSchedule bool time | OpUnschedule | OpDeleteDraft | OpDelete

fun op_guard :: "lifecycle_op \<Rightarrow> broadcast_status \<Rightarrow> broadcast_error option" where
  "op_guard (OpSend ok) st =
     (if st \<notin> {BcDraft, BcScheduled} then Some NotSendable else if ok then None else Some EnqueueFailed)"
| "op_guard (OpSchedule ok t) st =
     (if st \<notin> {BcDraft, BcScheduled} then Some NotSendable else if ok then None else Some EnqueueFailed)"
| "op_guard OpUnschedule st = (if st = BcScheduled then None else Some NotScheduled)"
| "op_guard OpDeleteDraft st = (if st = BcDraft then None else Some NotDraft)"
| "op_guard OpDelete st = None"

fun op_target :: "lifecycle_op \<Rightarrow> broadcast_status option" where
  "op_target (OpSend ok) = Some BcSending"
| "op_target (OpSchedule ok t) = Some BcScheduled"
| "op_target OpUnschedule = Some BcDraft"
| "op_target OpDeleteDraft = None"
| "op_target OpDelete = None"

definition lifecycle_spec :: "id \<times> id \<Rightarrow> lifecycle_op \<Rightarrow> statuses \<Rightarrow> broadcast_error option \<times> statuses" where
  "lifecycle_spec k oper s =
     (case s k of
        None \<Rightarrow> (Some BroadcastNotFound, s)
      | Some st \<Rightarrow>
         (case op_guard oper st of
            None \<Rightarrow> (None, s(k := op_target oper))
          | Some EnqueueFailed \<Rightarrow> (Some EnqueueFailed, s(k := Some BcDraft))
          | Some e \<Rightarrow> (Some e, s)))"

definition failure :: "'e + 'a \<Rightarrow> 'e option" where
  "failure r = (case r of Inl e \<Rightarrow> Some e | Inr _ \<Rightarrow> None)"

fun lifecycle_impl ::
  "(bool \<Rightarrow> 'q enqueuer) \<Rightarrow> id \<times> id \<Rightarrow> lifecycle_op \<Rightarrow> db \<times> 'q \<Rightarrow> broadcast_error option \<times> db \<times> 'q" where
  "lifecycle_impl q (ws, bid) (OpSend ok) st = (case broadcast_send (q ok) ws bid st of (r, st') \<Rightarrow> (failure r, st'))"
| "lifecycle_impl q (ws, bid) (OpSchedule ok t) st =
     (case broadcast_schedule (q ok) ws bid t st of (r, st') \<Rightarrow> (failure r, st'))"
| "lifecycle_impl q (ws, bid) OpUnschedule st =
     (case broadcast_unschedule ws bid (fst st) of (r, d') \<Rightarrow> (failure r, d', snd st))"
| "lifecycle_impl q (ws, bid) OpDeleteDraft st = (case delete_draft ws bid (fst st) of (r, d') \<Rightarrow> (r, d', snd st))"
| "lifecycle_impl q (ws, bid) OpDelete st = (case delete_broadcast ws bid (fst st) of (r, d') \<Rightarrow> (r, d', snd st))"

section \<open>Reading a row after a write\<close>

definition unique_broadcasts :: "db \<Rightarrow> bool" where
  "unique_broadcasts d \<longleftrightarrow> distinct (map bc_id (broadcasts d))"

lemma broadcast_row_iff: "broadcast_row ws bid b \<longleftrightarrow> bc_workspace b = ws \<and> bc_id b = bid"
  by (simp add: broadcast_row_def in_ws_def)

lemma get_broadcast_row:
  "get_broadcast ws bid d = Some b \<Longrightarrow> b \<in> set (broadcasts d) \<and> bc_workspace b = ws \<and> bc_id b = bid"
  by (auto simp: get_broadcast_def broadcast_row_iff dest: find_where_SomeD)

lemma exists_broadcast: "exists_where (broadcast_row ws bid) (broadcasts d) \<longleftrightarrow> get_broadcast ws bid d \<noteq> None"
  by (auto simp: get_broadcast_def table_simps)

lemma get_unique:
  assumes "unique_broadcasts d" and "b \<in> set (broadcasts d)" and "broadcast_row ws bid b"
  shows "get_broadcast ws bid d = Some b"
  unfolding get_broadcast_def
  by (rule find_where_eq [of bc_id]) (use assms in \<open>auto simp: unique_broadcasts_def broadcast_row_iff\<close>)

lemma matches_iff:
  assumes "unique_broadcasts d"
  shows "matches_broadcast ws bid p d \<longleftrightarrow> (\<exists>b. get_broadcast ws bid d = Some b \<and> p b)"
proof
  assume "matches_broadcast ws bid p d"
  then obtain b where "b \<in> set (broadcasts d)" "broadcast_row ws bid b" "p b"
    by (auto simp: matches_broadcast_def table_simps)
  with get_unique [OF assms] show "\<exists>b. get_broadcast ws bid d = Some b \<and> p b" by blast
qed (auto simp: matches_broadcast_def table_simps broadcast_row_iff dest: get_broadcast_row)

text \<open>An update that keeps the identity of a row, as every one of the module does.\<close>

definition keeps_row :: "(broadcast \<Rightarrow> broadcast) \<Rightarrow> bool" where
  "keeps_row f \<longleftrightarrow> (\<forall>b. bc_id (f b) = bc_id b \<and> bc_workspace (f b) = bc_workspace b)"

lemma get_set_broadcast:
  assumes "keeps_row f"
  shows "get_broadcast ws' bid' (set_broadcast ws bid p f d) =
    (if ws' = ws \<and> bid' = bid then map_option (\<lambda>b. if p b then f b else b) (get_broadcast ws bid d)
     else get_broadcast ws' bid' d)"
proof -
  have "get_broadcast ws' bid' (set_broadcast ws bid p f d) =
      map_option (\<lambda>b. if broadcast_row ws bid b \<and> p b then f b else b) (get_broadcast ws' bid' d)"
    using assms unfolding get_broadcast_def set_broadcast_def
    by (subst find_where_update [symmetric]) (simp_all add: broadcast_row_iff keeps_row_def)
  then show ?thesis
    by (cases "get_broadcast ws' bid' d") (auto simp: broadcast_row_iff dest: get_broadcast_row)
qed

lemma unique_set_broadcast: "keeps_row f \<Longrightarrow> unique_broadcasts (set_broadcast ws bid p f d) \<longleftrightarrow> unique_broadcasts d"
  by (simp add: unique_broadcasts_def set_broadcast_def map_update_where keeps_row_def)

lemma keeps_changes [simp]:
  "keeps_row send_now" "keeps_row (scheduled_for t)" "keeps_row unscheduled"
  "keeps_row (\<lambda>b. b\<lparr>bc_status := st, bc_scheduled_at := None\<rparr>)" "keeps_row (apply_fields f)"
  "keeps_row (\<lambda>b. b\<lparr>bc_segment := seg\<rparr>)" "keeps_row (\<lambda>b. b\<lparr>bc_hold_reason := h\<rparr>)"
  by (simp_all add: keeps_row_def send_now_def scheduled_for_def unscheduled_def apply_fields_def)

lemma statuses_of_apply: "statuses_of d (ws, bid) = map_option bc_status (get_broadcast ws bid d)"
  by (simp add: statuses_of_def)

lemma statuses_set:
  assumes "keeps_row f" and "get_broadcast ws bid d = Some b" and "p b"
  shows "statuses_of (set_broadcast ws bid p f d) = (statuses_of d)((ws, bid) \<mapsto> bc_status (f b))"
  by (rule ext) (auto simp: statuses_of_def get_set_broadcast [OF assms(1)] assms(2,3) split: prod.split)

lemma set_broadcast_no_match: "unique_broadcasts d \<Longrightarrow> \<not> matches_broadcast ws bid p d \<Longrightarrow> set_broadcast ws bid p f d = d"
  by (auto simp: set_broadcast_def matches_broadcast_def table_simps)


section \<open>The module refines its lifecycle\<close>

lemma claim_broadcast_eq:
  assumes "unique_broadcasts d" and "keeps_row f"
  shows "claim_broadcast ws bid f d =
    (case get_broadcast ws bid d of
       None \<Rightarrow> (Inl BroadcastNotFound, d)
     | Some b \<Rightarrow> if sendable b then (Inr (f b), set_broadcast ws bid sendable f d) else (Inl NotSendable, d))"
  using matches_iff [OF assms(1), of ws bid sendable] set_broadcast_no_match [OF assms(1), of ws bid sendable f]
  by (auto simp: claim_broadcast_def Let_def exists_broadcast get_set_broadcast [OF assms(2)] split: option.split)

lemma broadcast_unschedule_eq:
  assumes "unique_broadcasts d"
  shows "broadcast_unschedule ws bid d =
    (case get_broadcast ws bid d of
       None \<Rightarrow> (Inl BroadcastNotFound, d)
     | Some b \<Rightarrow> if bc_status b = BcScheduled
         then (Inr (unscheduled b), set_broadcast ws bid (\<lambda>b. bc_status b = BcScheduled) unscheduled d)
         else (Inl NotScheduled, d))"
proof -
  let ?p = "\<lambda>b. bc_status b = BcScheduled"
  show ?thesis
    using matches_iff [OF assms(1), of ws bid ?p] set_broadcast_no_match [OF assms(1), of ws bid ?p unscheduled]
    by (auto simp: broadcast_unschedule_def Let_def exists_broadcast get_set_broadcast split: option.split)
qed

lemma get_deleted:
  assumes u: "unique_broadcasts d"
  shows "get_broadcast ws bid (d\<lparr>broadcasts := delete_where (\<lambda>b. broadcast_row ws bid b \<and> p b) (broadcasts d)\<rparr>) =
     (if matches_broadcast ws bid p d then None else get_broadcast ws bid d)"
proof (cases "matches_broadcast ws bid p d")
  case False
  then have "delete_where (\<lambda>b. broadcast_row ws bid b \<and> p b) (broadcasts d) = broadcasts d"
    by (intro delete_where_no_match) (auto simp: matches_broadcast_def table_simps)
  then show ?thesis using False by simp
next
  case m: True
  then obtain b where b: "get_broadcast ws bid d = Some b" "p b" using matches_iff [OF u] by blast
  have "get_broadcast ws bid (d\<lparr>broadcasts := delete_where (\<lambda>b. broadcast_row ws bid b \<and> p b) (broadcasts d)\<rparr>) = None"
    using get_unique [OF u, of _ ws bid] b by (auto simp: get_broadcast_def table_simps)
  with m show ?thesis by simp
qed

lemma get_deleted_other:
  assumes "\<not> (ws' = ws \<and> bid' = bid)"
  shows "get_broadcast ws' bid' (d\<lparr>broadcasts := delete_where (\<lambda>b. broadcast_row ws bid b \<and> p b) (broadcasts d)\<rparr>) =
    get_broadcast ws' bid' d"
  unfolding get_broadcast_def using assms by (simp, intro find_where_delete) (auto simp: broadcast_row_iff)

lemma statuses_deleted:
  assumes "unique_broadcasts d"
  shows "statuses_of (d\<lparr>broadcasts := delete_where (\<lambda>b. broadcast_row ws bid b \<and> p b) (broadcasts d)\<rparr>) =
    (if matches_broadcast ws bid p d then (statuses_of d)((ws, bid) := None) else statuses_of d)"
proof (rule ext)
  fix k :: "id \<times> id"
  obtain ws' bid' where k: "k = (ws', bid')" by (cases k)
  show "statuses_of (d\<lparr>broadcasts := delete_where (\<lambda>b. broadcast_row ws bid b \<and> p b) (broadcasts d)\<rparr>) k =
      (if matches_broadcast ws bid p d then (statuses_of d)((ws, bid) := None) else statuses_of d) k"
  proof (cases "ws' = ws \<and> bid' = bid")
    case True
    then show ?thesis
      unfolding k statuses_of_apply using get_deleted [OF assms, of ws bid p] by (simp add: statuses_of_apply)
  next
    case False
    then show ?thesis unfolding k statuses_of_apply get_deleted_other [OF False] by (auto simp: statuses_of_apply)
  qed
qed

lemma unique_deleted:
  "unique_broadcasts d \<Longrightarrow> unique_broadcasts (d\<lparr>broadcasts := delete_where p (broadcasts d)\<rparr>)"
  by (simp add: unique_broadcasts_def delete_where_def distinct_map_filter)

lemma refines_delete_draft:
  assumes "unique_broadcasts d" and "delete_draft ws bid d = (e, d')"
  shows "lifecycle_spec (ws, bid) OpDeleteDraft (statuses_of d) = (e, statuses_of d')" and "unique_broadcasts d'"
proof -
  let ?d = "d\<lparr>broadcasts := delete_where (\<lambda>b. broadcast_row ws bid b \<and> is_draft b) (broadcasts d)\<rparr>"
  have d': "d' = ?d" and e: "e = (if matches_broadcast ws bid is_draft d then None else Some (not_draft_or_not_found ws bid ?d))"
    using assms(2) by (auto simp: delete_draft_def Let_def split: if_splits)
  show "unique_broadcasts d'" unfolding d' by (rule unique_deleted [OF assms(1)])
  have s: "statuses_of d' = (if matches_broadcast ws bid is_draft d then (statuses_of d)((ws, bid) := None) else statuses_of d)"
    unfolding d' by (rule statuses_deleted [OF assms(1)])
  have g: "get_broadcast ws bid ?d = get_broadcast ws bid d" if "\<not> matches_broadcast ws bid is_draft d"
    using get_deleted [OF assms(1), of ws bid is_draft] that by simp
  show "lifecycle_spec (ws, bid) OpDeleteDraft (statuses_of d) = (e, statuses_of d')"
    using matches_iff [OF assms(1), of ws bid is_draft] g
    by (auto simp: e s lifecycle_spec_def statuses_of_apply not_draft_or_not_found_def is_draft_def split: option.split)
qed

lemma refines_delete:
  assumes "unique_broadcasts d" and "delete_broadcast ws bid d = (e, d')"
  shows "lifecycle_spec (ws, bid) OpDelete (statuses_of d) = (e, statuses_of d')" and "unique_broadcasts d'"
proof -
  let ?d1 = "d\<lparr>recipients := delete_where (in_ws rec_workspace ws (\<lambda>r. rec_broadcast r = bid)) (recipients d)\<rparr>"
  have u1: "unique_broadcasts ?d1" using assms(1) by (simp add: unique_broadcasts_def)
  have g1: "get_broadcast ws' bid' ?d1 = get_broadcast ws' bid' d" for ws' bid' by (simp add: get_broadcast_def)
  have s1: "statuses_of ?d1 = statuses_of d" by (rule ext) (simp add: statuses_of_def g1)
  have del: "delete_where (broadcast_row ws bid) (broadcasts ?d1) =
      delete_where (\<lambda>b. broadcast_row ws bid b \<and> True) (broadcasts ?d1)" by simp
  have d': "get_broadcast ws bid d = None \<and> e = Some BroadcastNotFound \<and> d' = ?d1 \<or>
      get_broadcast ws bid d \<noteq> None \<and> e = None \<and>
      d' = ?d1\<lparr>broadcasts := delete_where (\<lambda>b. broadcast_row ws bid b \<and> True) (broadcasts ?d1)\<rparr>"
    using assms(2) by (auto simp: delete_broadcast_def Let_def g1 split: if_splits)
  show "unique_broadcasts d'" using d' u1 unique_deleted [OF u1] by auto
  show "lifecycle_spec (ws, bid) OpDelete (statuses_of d) = (e, statuses_of d')"
    using d' statuses_deleted [OF u1, of ws bid "\<lambda>_. True"] matches_iff [OF u1, of ws bid "\<lambda>_. True"]
    by (auto simp: lifecycle_spec_def statuses_of_apply s1 g1)
qed

text \<open>What the queue promises the module: it answers whether it took the job and leaves the
  database alone.\<close>

locale broadcast_queue =
  fixes q :: "bool \<Rightarrow> 'q enqueuer"
  assumes takes: "fst (q ok bid due st) = ok" and keeps: "fst (snd (q ok bid due st)) = fst st"
begin

lemma enqueue_claimed_eq:
  "enqueue_claimed (q ok) ws due (Inl e, d, x) = (Inl e, d, x)"
  "\<exists>x'. enqueue_claimed (q ok) ws due (Inr b, d, x) =
     (if ok then (Inr b, d, x') else (Inl EnqueueFailed, revert_broadcast ws (bc_id b) d, x'))"
  using takes [of ok "bc_id b" due "(d, x)"] keeps [of ok "bc_id b" due "(d, x)"]
  by (auto simp: enqueue_claimed_def split: prod.split bool.split)

lemma claim_then_enqueue:
  assumes "unique_broadcasts d" and "keeps_row f" and "\<And>b. bc_status (f b) = st"
    and "enqueue_claimed (q ok) ws due (case claim_broadcast ws bid f d of (r, d1) \<Rightarrow> (r, d1, x)) = (r, d', x')"
  shows "unique_broadcasts d' \<and>
    (case statuses_of d (ws, bid) of
       None \<Rightarrow> failure r = Some BroadcastNotFound \<and> d' = d
     | Some s \<Rightarrow>
        if s \<notin> {BcDraft, BcScheduled} then failure r = Some NotSendable \<and> d' = d
        else if ok then failure r = None \<and> statuses_of d' = (statuses_of d)((ws, bid) \<mapsto> st)
        else failure r = Some EnqueueFailed \<and> statuses_of d' = (statuses_of d)((ws, bid) \<mapsto> BcDraft))"
proof (cases "get_broadcast ws bid d")
  case None
  then show ?thesis
    using assms enqueue_claimed_eq(1) by (auto simp: claim_broadcast_eq statuses_of_apply failure_def)
next
  case (Some b)
  show ?thesis
  proof (cases "sendable b")
    case False
    then show ?thesis
      using assms Some enqueue_claimed_eq(1)
      by (auto simp: claim_broadcast_eq statuses_of_apply failure_def sendable_def)
  next
    case True
    let ?d1 = "set_broadcast ws bid sendable f d"
    have id: "bc_id (f b) = bid" using Some assms(2) by (auto simp: keeps_row_def dest: get_broadcast_row)
    have s1: "statuses_of ?d1 = (statuses_of d)((ws, bid) \<mapsto> st)"
      using statuses_set [of f ws bid d b sendable, OF assms(2) Some True] assms(3) by simp
    have g1: "get_broadcast ws bid ?d1 = Some (f b)" using Some True by (simp add: get_set_broadcast [OF assms(2)])
    have u1: "unique_broadcasts ?d1" using assms(1,2) by (simp add: unique_set_broadcast)
    have s2: "statuses_of (revert_broadcast ws bid ?d1) = (statuses_of d)((ws, bid) \<mapsto> BcDraft)"
      unfolding revert_broadcast_def
      using statuses_set [of "\<lambda>b. b\<lparr>bc_status := BcDraft, bc_scheduled_at := None\<rparr>" ws bid ?d1, OF _ g1, of "\<lambda>_. True"] s1
      by simp
    have u2: "unique_broadcasts (revert_broadcast ws bid ?d1)"
      unfolding revert_broadcast_def using u1 by (simp add: unique_set_broadcast)
    obtain y where y: "enqueue_claimed (q ok) ws due (Inr (f b), ?d1, x) =
        (if ok then (Inr (f b), ?d1, y) else (Inl EnqueueFailed, revert_broadcast ws bid ?d1, y))"
      using enqueue_claimed_eq(2) [of ok ws due "f b" ?d1 x] by (auto simp: id)
    have st: "statuses_of d (ws, bid) = Some (bc_status b)" using Some by (simp add: statuses_of_apply)
    show ?thesis
      using assms(4) Some True y s1 s2 u1 u2 st
      by (auto simp: claim_broadcast_eq [OF assms(1,2)] failure_def sendable_def split: if_splits)
  qed
qed

lemma refines:
  assumes "unique_broadcasts d" and "lifecycle_impl q k oper (d, x) = (e, d', x')"
  shows "lifecycle_spec k oper (statuses_of d) = (e, statuses_of d') \<and> unique_broadcasts d'"
proof (cases k)
  case (Pair ws bid)
  show ?thesis
  proof (cases oper)
    case (OpSend ok)
    then obtain r where r: "enqueue_claimed (q ok) ws None (case claim_broadcast ws bid send_now d of (r, d1) \<Rightarrow> (r, d1, x)) = (r, d', x')"
      "e = failure r"
      using assms(2) by (auto simp: Pair broadcast_send_def split: prod.splits)
    show ?thesis
      using claim_then_enqueue [OF assms(1) _ _ r(1), of BcSending] r(2)
      by (auto simp: OpSend Pair lifecycle_spec_def send_now_def split: option.splits if_splits)
  next
    case (OpSchedule ok t)
    then obtain r where r: "enqueue_claimed (q ok) ws (Some t) (case claim_broadcast ws bid (scheduled_for t) d of (r, d1) \<Rightarrow> (r, d1, x)) = (r, d', x')"
      "e = failure r"
      using assms(2) by (auto simp: Pair broadcast_schedule_def split: prod.splits)
    show ?thesis
      using claim_then_enqueue [OF assms(1) _ _ r(1), of BcScheduled] r(2)
      by (auto simp: OpSchedule Pair lifecycle_spec_def scheduled_for_def split: option.splits if_splits)
  next
    case OpUnschedule
    let ?p = "\<lambda>b. bc_status b = BcScheduled"
    show ?thesis
    proof (cases "get_broadcast ws bid d")
      case None
      then show ?thesis using assms
        by (auto simp: OpUnschedule Pair lifecycle_spec_def statuses_of_apply broadcast_unschedule_eq failure_def)
    next
      case (Some b)
      have "statuses_of (set_broadcast ws bid ?p unscheduled d) = (statuses_of d)((ws, bid) \<mapsto> BcDraft)"
        if "bc_status b = BcScheduled"
        using statuses_set [of unscheduled ws bid d b ?p, OF _ Some that] by (simp add: unscheduled_def)
      moreover have "unique_broadcasts (set_broadcast ws bid ?p unscheduled d)"
        using assms(1) by (simp add: unique_set_broadcast)
      ultimately show ?thesis using assms Some
        by (auto simp: OpUnschedule Pair lifecycle_spec_def statuses_of_apply broadcast_unschedule_eq failure_def
            split: if_splits)
    qed
  next
    case OpDeleteDraft
    then show ?thesis using assms refines_delete_draft [OF assms(1)] by (auto simp: Pair split: prod.splits)
  next
    case OpDelete
    then show ?thesis using assms refines_delete [OF assms(1)] by (auto simp: Pair split: prod.splits)
  qed
qed

end


interpretation river: broadcast_queue river_enqueue
  by unfold_locales (simp_all add: river_enqueue_def)

text \<open>A sequence of operations, with what each answered.\<close>

fun trace :: "('k \<Rightarrow> 'o \<Rightarrow> 's \<Rightarrow> 'e \<times> 's) \<Rightarrow> ('k \<times> 'o) list \<Rightarrow> 's \<Rightarrow> 'e list \<times> 's" where
  "trace run [] s = ([], s)"
| "trace run ((k, oper) # ops) s =
     (case run k oper s of (e, s1) \<Rightarrow> (case trace run ops s1 of (es, s2) \<Rightarrow> (e # es, s2)))"

text \<open>C12: the send and schedule state machine is a refinement of its specification. Over any sequence
  of Send, Schedule, Unschedule, DeleteDraft and Delete on any Broadcasts of any Workspaces, with the
  queue accepting or refusing each job, every answer and every resulting status is the one of
  \<open>lifecycle_spec\<close>, and no operation touches another Broadcast's status.\<close>

theorem lifecycle_refines:
  assumes "unique_broadcasts d" and "trace (lifecycle_impl river_enqueue) ops (d, jobs) = (es, d', jobs')"
  shows "trace lifecycle_spec ops (statuses_of d) = (es, statuses_of d') \<and> unique_broadcasts d'"
  using assms
proof (induction ops arbitrary: d jobs es)
  case (Cons a ops)
  obtain k oper where a: "a = (k, oper)" by (cases a)
  obtain e d1 jobs1 where i: "lifecycle_impl river_enqueue k oper (d, jobs) = (e, d1, jobs1)"
    by (cases "lifecycle_impl river_enqueue k oper (d, jobs)")
  obtain es1 where t: "trace (lifecycle_impl river_enqueue) ops (d1, jobs1) = (es1, d', jobs')" and es: "es = e # es1"
    using Cons.prems(2) by (auto simp: a i split: prod.splits)
  have r: "lifecycle_spec k oper (statuses_of d) = (e, statuses_of d1)" "unique_broadcasts d1"
    using river.refines [OF Cons.prems(1) i] by simp_all
  show ?case using Cons.IH [OF r(2) t] by (simp add: a r(1) es)
qed simp

definition sample_broadcast :: "id \<Rightarrow> broadcast_status \<Rightarrow> broadcast" where
  "sample_broadcast bid st = \<lparr>bc_id = bid, bc_workspace = 1, bc_name = ''News'', bc_subject = ''Hi'', bc_from_name = None,
     bc_from_email = None, bc_body = ''Body'', bc_segment = None, bc_integration = None, bc_status = st,
     bc_scheduled_at = None, bc_sent_at = None, bc_recipients_total = 0, bc_sent_count = 0, bc_opened_count = 0,
     bc_clicked_count = 0, bc_unsubscribed_count = 0, bc_failed_count = 0, bc_skipped_count = 0,
     bc_hold_reason = None, bc_last_scheduled_at = None\<rparr>"

definition sample_broadcast_db :: "broadcast_status \<Rightarrow> db" where
  "sample_broadcast_db st = empty_db\<lparr>broadcasts := [sample_broadcast 5 st], next_id := 6\<rparr>"

lemma sample_broadcast_lookup:
  "get_broadcast 1 5 (sample_broadcast_db st) = Some (sample_broadcast 5 st)"
  "unique_broadcasts (sample_broadcast_db st)"
  by (simp_all add: get_broadcast_def find_where_def sample_broadcast_db_def sample_broadcast_def broadcast_row_iff
      unique_broadcasts_def)

theorem lifecycle_refines_witness:
  "\<exists>d' jobs'. trace (lifecycle_impl river_enqueue) [((1, 5), OpSchedule True 90), ((1, 5), OpSend False), ((1, 5), OpSend True), ((1, 5), OpUnschedule)]
       (sample_broadcast_db BcDraft, []) = ([None, Some EnqueueFailed, None, Some NotScheduled], d', jobs') \<and>
     statuses_of d' (1, 5) = Some BcSending"
proof -
  let ?ops = "[((1, 5), OpSchedule True 90), ((1, 5), OpSend False), ((1, 5), OpSend True), ((1, 5), OpUnschedule)]"
  obtain es d' jobs' where t: "trace (lifecycle_impl river_enqueue) ?ops (sample_broadcast_db BcDraft, []) = (es, d', jobs')"
    by (cases "trace (lifecycle_impl river_enqueue) ?ops (sample_broadcast_db BcDraft, [])")
  have "statuses_of (sample_broadcast_db BcDraft) (1, 5) = Some BcDraft"
    by (simp add: statuses_of_apply sample_broadcast_lookup sample_broadcast_def)
  then have "trace lifecycle_spec ?ops (statuses_of (sample_broadcast_db BcDraft)) =
      ([None, Some EnqueueFailed, None, Some NotScheduled], (statuses_of (sample_broadcast_db BcDraft))((1, 5) \<mapsto> BcSending))"
    by (simp add: lifecycle_spec_def)
  with lifecycle_refines [OF sample_broadcast_lookup(2) t] t show ?thesis by auto
qed

text \<open>A Broadcast is handed to the queue once. A Send that succeeds queues exactly one job, and
  from then on a racing Send or Schedule is refused as not sendable and Unschedule as not scheduled,
  whatever the queue would answer: none of them changes the database or queues a job.\<close>

theorem send_claims_once:
  assumes "unique_broadcasts d" and "broadcast_send (river_enqueue ok) ws bid (d, jobs) = (Inr b, d', jobs')"
  shows "bc_status b = BcSending \<and> jobs' = jobs @ [\<lparr>sj_broadcast = bid, sj_scheduled = None\<rparr>] \<and>
    broadcast_send (river_enqueue ok') ws bid (d', jobs') = (Inl NotSendable, d', jobs') \<and>
    broadcast_schedule (river_enqueue ok') ws bid t (d', jobs') = (Inl NotSendable, d', jobs') \<and>
    broadcast_unschedule ws bid d' = (Inl NotScheduled, d')"
proof -
  obtain b0 where b0: "get_broadcast ws bid d = Some b0" "sendable b0"
    using assms by (auto simp: broadcast_send_def claim_broadcast_eq enqueue_claimed_def
        split: option.splits if_splits prod.splits)
  have id: "bc_id (send_now b0) = bid" using get_broadcast_row [OF b0(1)] by (simp add: send_now_def)
  have e: "d' = set_broadcast ws bid sendable send_now d" "b = send_now b0"
    "jobs' = jobs @ [\<lparr>sj_broadcast = bid, sj_scheduled = None\<rparr>]"
    using assms b0 id by (auto simp: broadcast_send_def claim_broadcast_eq enqueue_claimed_def river_enqueue_def
        split: bool.splits)
  have g: "get_broadcast ws bid d' = Some (send_now b0)" using b0 by (simp add: e get_set_broadcast)
  have u: "unique_broadcasts d'" using assms(1) by (simp add: e unique_set_broadcast)
  have ns: "\<not> sendable (send_now b0)" by (simp add: sendable_def send_now_def)
  show ?thesis
    using g ns by (simp add: e(2,3) broadcast_send_def broadcast_schedule_def claim_broadcast_eq [OF u]
        broadcast_unschedule_eq [OF u] enqueue_claimed_def) (simp add: send_now_def)
qed

theorem send_claims_once_witness:
  "\<exists>b d'. broadcast_send (river_enqueue True) 1 5 (sample_broadcast_db BcDraft, []) =
       (Inr b, d', [\<lparr>sj_broadcast = 5, sj_scheduled = None\<rparr>]) \<and>
     broadcast_send (river_enqueue True) 1 5 (d', [\<lparr>sj_broadcast = 5, sj_scheduled = None\<rparr>]) =
       (Inl NotSendable, d', [\<lparr>sj_broadcast = 5, sj_scheduled = None\<rparr>])"
proof -
  let ?d' = "set_broadcast 1 5 sendable send_now (sample_broadcast_db BcDraft)"
  have s: "broadcast_send (river_enqueue True) 1 5 (sample_broadcast_db BcDraft, jobs) =
      (Inr (send_now (sample_broadcast 5 BcDraft)), ?d', jobs @ [\<lparr>sj_broadcast = 5, sj_scheduled = None\<rparr>])" for jobs
    by (simp add: broadcast_send_def claim_broadcast_eq sample_broadcast_lookup sendable_def enqueue_claimed_def river_enqueue_def)
       (simp add: sample_broadcast_def send_now_def)
  show ?thesis using send_claims_once [OF sample_broadcast_lookup(2) s [of "[]"], of True] s [of "[]"] by auto
qed


section \<open>Authoring and settling\<close>

text \<open>Authoring never reaches a Broadcast past draft and never moves the lifecycle. An Update or a
  SetAudience that answers with a Broadcast found a draft and changed only its content; any other
  answer left the database as it was; and no status changes either way.\<close>

theorem edits_only_drafts:
  assumes "unique_broadcasts d"
    and "update_broadcast ws bid f d = (r, d') \<or> set_audience ws bid seg d = (r, d')"
  shows "statuses_of d' = statuses_of d \<and>
    (case r of
       Inl e \<Rightarrow> d' = d
     | Inr b \<Rightarrow> (\<exists>b0. get_broadcast ws bid d = Some b0 \<and> is_draft b0 \<and> is_draft b \<and> get_broadcast ws bid d' = Some b \<and>
         (b = apply_fields f b0 \<or> b = b0\<lparr>bc_segment := seg\<rparr>)))"
proof -
  have edit: "statuses_of d' = statuses_of d \<and>
      (case r of
         Inl e \<Rightarrow> d' = d
       | Inr b \<Rightarrow> (\<exists>b0. get_broadcast ws bid d = Some b0 \<and> is_draft b0 \<and> is_draft b \<and> get_broadcast ws bid d' = Some b \<and> b = g b0))"
    if e: "edit_draft ws bid g d = (r, d')" and k: "keeps_row g" and st: "\<And>b. bc_status (g b) = bc_status b" for g
  proof (cases "matches_broadcast ws bid is_draft d")
    case False
    then show ?thesis
      using e set_broadcast_no_match [OF assms(1) False, of g] by (auto simp: edit_draft_def)
  next
    case True
    then obtain b0 where b0: "get_broadcast ws bid d = Some b0" "is_draft b0" using matches_iff [OF assms(1)] by blast
    have d': "d' = set_broadcast ws bid is_draft g d" and r: "r = Inr (g b0)"
      using e True b0 by (auto simp: edit_draft_def Let_def get_set_broadcast [OF k])
    have "statuses_of d' = statuses_of d"
      using statuses_set [of g ws bid d b0 is_draft, OF k b0] st b0 by (auto simp: d' statuses_of_apply fun_upd_idem_iff)
    then show ?thesis using b0 st by (simp add: r d' get_set_broadcast [OF k] is_draft_def)
  qed
  from assms(2) show ?thesis
  proof
    assume u: "update_broadcast ws bid f d = (r, d')"
    show ?thesis
    proof (cases "update_valid ws f d")
      case None
      then have "edit_draft ws bid (apply_fields f) d = (r, d')" using u by (simp add: update_broadcast_def)
      from edit [OF this] show ?thesis by (auto simp: apply_fields_def split: sum.splits)
    qed (use u in \<open>auto simp: update_broadcast_def\<close>)
  next
    assume s: "set_audience ws bid seg d = (r, d')"
    show ?thesis
    proof (cases "opt_ok (\<lambda>i. verify_segment ws i d) seg")
      case True
      then have "edit_draft ws bid (\<lambda>b. b\<lparr>bc_segment := seg\<rparr>) d = (r, d')" using s by (simp add: set_audience_def)
      from edit [OF this] show ?thesis by (auto split: sum.splits)
    qed (use s in \<open>auto simp: set_audience_def\<close>)
  qed
qed

theorem edits_only_drafts_witness:
  "set_audience 1 5 None (sample_broadcast_db BcSent) = (Inl NotDraft, sample_broadcast_db BcSent)"
proof -
  obtain r d' where s: "set_audience 1 5 None (sample_broadcast_db BcSent) = (r, d')"
    by (cases "set_audience 1 5 None (sample_broadcast_db BcSent)")
  have nd: "\<not> is_draft (sample_broadcast 5 BcSent)" by (simp add: is_draft_def sample_broadcast_def)
  have e: "\<exists>e. r = Inl e \<and> d' = sample_broadcast_db BcSent"
  proof (cases r)
    case (Inl e)
    then show ?thesis using edits_only_drafts [OF sample_broadcast_lookup(2) disjI2 [OF s]] by simp
  next
    case (Inr b)
    then show ?thesis
      using conjunct2 [OF edits_only_drafts [OF sample_broadcast_lookup(2) disjI2 [OF s]]] nd
      by (simp add: sample_broadcast_lookup)
  qed
  have "\<not> matches_broadcast 1 5 is_draft (sample_broadcast_db BcSent)"
    using matches_iff [OF sample_broadcast_lookup(2)] nd by (simp add: sample_broadcast_lookup)
  then have "r = Inl (not_draft_or_not_found 1 5 d')"
    using s by (auto simp: set_audience_def opt_ok_def edit_draft_def Let_def)
  with e s show ?thesis by (auto simp: not_draft_or_not_found_def sample_broadcast_lookup)
qed

text \<open>The rows of a Broadcast by their status.\<close>

definition recipient_count :: "id \<Rightarrow> id \<Rightarrow> db \<Rightarrow> nat" where
  "recipient_count ws bid d = count_where (in_ws rec_workspace ws (\<lambda>r. rec_broadcast r = bid)) (recipients d)"

lemma recipients_partition:
  "recipient_count ws bid d = recipients_in ws bid RecPending d + recipients_in ws bid RecSent d +
     recipients_in ws bid RecFailed d + recipients_in ws bid RecSkipped d"
proof -
  have "count_where (in_ws rec_workspace ws (\<lambda>r. rec_broadcast r = bid)) rs =
      count_where (recipient_of ws bid RecPending) rs + count_where (recipient_of ws bid RecSent) rs +
      count_where (recipient_of ws bid RecFailed) rs + count_where (recipient_of ws bid RecSkipped) rs" for rs
  proof (induction rs)
    case (Cons r rs)
    then show ?case by (cases "rec_status r") (simp_all add: count_where_def recipient_of_def in_ws_def)
  qed (simp add: count_where_def)
  then show ?thesis by (simp add: recipient_count_def recipients_in_def)
qed

lemma recipients_in_set_broadcast [simp]:
  "recipients (set_broadcast ws bid p f d) = recipients d"
  "recipients_in ws' bid' st (set_broadcast ws bid p f d) = recipients_in ws' bid' st d"
  by (simp_all add: set_broadcast_def recipients_in_def)

definition settled_broadcast :: "id \<Rightarrow> time \<Rightarrow> db \<Rightarrow> broadcast \<Rightarrow> broadcast" where
  "settled_broadcast ws now d b =
     b\<lparr>bc_status := BcSent, bc_sent_at := Some now, bc_sent_count := int (recipients_in ws (bc_id b) RecSent d),
       bc_failed_count := int (recipients_in ws (bc_id b) RecFailed d),
       bc_skipped_count := int (recipients_in ws (bc_id b) RecSkipped d), bc_hold_reason := None\<rparr>"

lemma finalize_get:
  "get_broadcast ws' bid' (finalize ws now bid d) =
    (if ws' = ws \<and> bid' = bid \<and> recipients_in ws bid RecPending d = 0
     then map_option (\<lambda>b. if bc_status b = BcSending then settled_broadcast ws now d b else b) (get_broadcast ws bid d)
     else get_broadcast ws' bid' d)"
proof -
  let ?f = "\<lambda>b. b\<lparr>bc_status := BcSent, bc_sent_at := Some now, bc_sent_count := int (recipients_in ws bid RecSent d),
             bc_failed_count := int (recipients_in ws bid RecFailed d),
             bc_skipped_count := int (recipients_in ws bid RecSkipped d), bc_hold_reason := None\<rparr>"
  have k: "keeps_row ?f" by (simp add: keeps_row_def)
  show ?thesis
  proof (cases "get_broadcast ws bid d")
    case None
    then show ?thesis by (simp add: finalize_def get_set_broadcast [OF k])
  next
    case (Some b)
    then have "bc_id b = bid" using get_broadcast_row by blast
    with Some show ?thesis by (simp add: finalize_def get_set_broadcast [OF k] settled_broadcast_def)
  qed
qed

lemma finalize_frame [simp]:
  "recipients (finalize ws now bid d) = recipients d" "messages (finalize ws now bid d) = messages d"
  "contacts (finalize ws now bid d) = contacts d" "next_id (finalize ws now bid d) = next_id d"
  by (simp_all add: finalize_def set_broadcast_def)

text \<open>Finalize settles a Broadcast exactly once. While a recipient is pending it changes nothing;
  when none is, a sending Broadcast becomes sent at that time with counters that add up to its
  recipients, and a Broadcast in any other state is left alone. So a later Finalize of the same
  Broadcast, by a concurrent worker or a retry, changes nothing.\<close>

theorem finalize_settles_once:
  assumes "unique_broadcasts d" and "get_broadcast ws bid d = Some b"
  shows "(recipients_in ws bid RecPending d > 0 \<or> bc_status b \<noteq> BcSending \<longrightarrow> finalize ws now bid d = d) \<and>
    (recipients_in ws bid RecPending d = 0 \<and> bc_status b = BcSending \<longrightarrow>
       (\<exists>b'. get_broadcast ws bid (finalize ws now bid d) = Some b' \<and> bc_status b' = BcSent \<and> bc_sent_at b' = Some now \<and>
          bc_sent_count b' + bc_failed_count b' + bc_skipped_count b' = int (recipient_count ws bid d)) \<and>
       finalize ws later bid (finalize ws now bid d) = finalize ws now bid d)"
proof (intro conjI impI)
  assume "recipients_in ws bid RecPending d > 0 \<or> bc_status b \<noteq> BcSending"
  then show "finalize ws now bid d = d"
    using set_broadcast_no_match [OF assms(1)] matches_iff [OF assms(1), of ws bid] assms(2)
    by (auto simp: finalize_def)
next
  assume h: "recipients_in ws bid RecPending d = 0 \<and> bc_status b = BcSending"
  have id: "bc_id b = bid" using get_broadcast_row [OF assms(2)] by simp
  have g: "get_broadcast ws bid (finalize ws now bid d) = Some (settled_broadcast ws now d b)"
    using h assms(2) by (simp add: finalize_get)
  then show "\<exists>b'. get_broadcast ws bid (finalize ws now bid d) = Some b' \<and> bc_status b' = BcSent \<and> bc_sent_at b' = Some now \<and>
      bc_sent_count b' + bc_failed_count b' + bc_skipped_count b' = int (recipient_count ws bid d)"
    using h recipients_partition [of ws bid d] by (simp add: settled_broadcast_def id)
  have "unique_broadcasts (finalize ws now bid d)"
    using assms(1) by (simp add: finalize_def unique_set_broadcast keeps_row_def)
  with g show "finalize ws later bid (finalize ws now bid d) = finalize ws now bid d"
    using set_broadcast_no_match [of "finalize ws now bid d"] matches_iff [of "finalize ws now bid d" ws bid]
    by (auto simp: finalize_def [of ws later] settled_broadcast_def)
qed

theorem finalize_settles_once_witness:
  "finalize 1 9 5 (finalize 1 8 5 (sample_broadcast_db BcSending)) = finalize 1 8 5 (sample_broadcast_db BcSending) \<and>
     statuses_of (finalize 1 8 5 (sample_broadcast_db BcSending)) (1, 5) = Some BcSent"
proof -
  have "recipients_in 1 5 RecPending (sample_broadcast_db BcSending) = 0"
    by (simp add: recipients_in_def sample_broadcast_db_def count_where_def)
  moreover have "bc_status (sample_broadcast 5 BcSending) = BcSending" by (simp add: sample_broadcast_def)
  ultimately show ?thesis
    using finalize_settles_once [OF sample_broadcast_lookup(2,1), of BcSending 8 9] by (auto simp: statuses_of_apply)
qed

end
