(* ===== verification/BroadcastJobs.thy ===== *)
theory BroadcastJobs
  imports Broadcasts SendFrame JobHold
begin

text \<open>
  \<open>internal/jobs/broadcast.go\<close> and \<open>setBroadcastHold\<close> of \<open>hold.go\<close>: planning a Broadcast's audience,
  pacing and sending one recipient at a time, settling it, the two workers, the composed synchronous
  send and the inline adapter of the queue. Parameters: \<open>renders\<close> (\<open>emailrender.Validate\<close>, over the
  Liquid and MJML libraries), \<open>sj\<close> (ent's JSON operators), \<open>txt\<close> (the text of an error), which chunk of
  jobs the queue refuses, and the random share of a Deferral. One reading of the clock stands for the
  readings of one call. A write to a row right after it was read cannot miss it, so the scoped update
  by id is an update of that row; a chunk of recipients is inserted row by row.
\<close>

section \<open>Planning\<close>

definition set_broadcast_hold :: "id \<Rightarrow> id \<Rightarrow> string \<Rightarrow> db \<Rightarrow> db" where
  "set_broadcast_hold ws bid reason =
     set_broadcast ws bid (\<lambda>_. True) (\<lambda>b. b\<lparr>bc_hold_reason := (if reason = '''' then None else Some reason)\<rparr>)"

text \<open>\<open>client.Broadcast.Get\<close>: the one unscoped read, by which a job learns its Workspace.\<close>

definition load_broadcast :: "id \<Rightarrow> db \<Rightarrow> broadcast option" where
  "load_broadcast bid d = find_where (\<lambda>b. bc_id b = bid) (broadcasts d)"

definition set_status :: "broadcast_status \<Rightarrow> broadcast \<Rightarrow> broadcast" where
  "set_status st b = b\<lparr>bc_status := st\<rparr>"

definition broadcast_due :: "id \<Rightarrow> time option \<Rightarrow> db \<Rightarrow> job_error + bool" where
  "broadcast_due bid due d =
     (case load_broadcast bid d of
        None \<Rightarrow> Inl (JobError ''load broadcast'')
      | Some b \<Rightarrow>
         if bc_status b = BcDraft then Inr False
         else (case due of
                 None \<Rightarrow> Inr True
               | Some t \<Rightarrow> Inr (bc_scheduled_at b = Some (truncate_micro t))))"

text \<open>The segment's part of the audience; \<open>None\<close> when the Broadcast goes to every Contact.\<close>

definition audience_cond :: "time \<Rightarrow> broadcast \<Rightarrow> db \<Rightarrow> job_error + cond" where
  "audience_cond now b d =
     (case bc_segment b of
        None \<Rightarrow> Inr CTrue
      | Some sid \<Rightarrow>
         (case get_segment (bc_workspace b) sid d of
            None \<Rightarrow> Inl (JobError ''load segment'')
          | Some seg \<Rightarrow>
             (case contact_predicate now (seg_definition seg) of
                Inl e \<Rightarrow> Inl (JobError ''segment definition'')
              | Inr x \<Rightarrow> Inr x)))"

definition in_audience :: "sql_json \<Rightarrow> id \<Rightarrow> cond \<Rightarrow> db \<Rightarrow> contact \<Rightarrow> bool" where
  "in_audience sj ws x d = in_ws con_workspace ws
     (\<lambda>c. con_email c \<noteq> None \<and> eligible_contact d ChEmail source_broadcasts c \<and> selects sj d x c)"

definition audience_ids :: "sql_json \<Rightarrow> id \<Rightarrow> cond \<Rightarrow> db \<Rightarrow> id list" where
  "audience_ids sj ws x d = map con_id (filter (in_audience sj ws x d) (contacts d))"

definition pending_recipient :: "id \<Rightarrow> id \<Rightarrow> id \<Rightarrow> id \<Rightarrow> recipient" where
  "pending_recipient rid ws bid cid =
     \<lparr>rec_id = rid, rec_workspace = ws, rec_broadcast = bid, rec_contact = Some cid, rec_status = RecPending,
      rec_message = None, rec_error = None, rec_deferred_until = None, rec_sent_at = None, rec_opened_at = None,
      rec_clicked_at = None\<rparr>"

text \<open>\<open>ON CONFLICT (broadcast_id, contact_id)\<close> ignored: the row that is there stays.\<close>

definition insert_recipient :: "id \<Rightarrow> id \<Rightarrow> id \<Rightarrow> db \<Rightarrow> db" where
  "insert_recipient ws bid cid d =
     (if exists_where (\<lambda>r. rec_broadcast r = bid \<and> rec_contact r = Some cid) (recipients d) then d
      else d\<lparr>recipients := recipients d @ [pending_recipient (next_id d) ws bid cid], next_id := next_id d + 1\<rparr>)"

definition recipient_ids :: "id \<Rightarrow> id \<Rightarrow> db \<Rightarrow> id list" where
  "recipient_ids ws bid d = map rec_id (filter (in_ws rec_workspace ws (\<lambda>r. rec_broadcast r = bid)) (recipients d))"

definition finalize_broadcast :: "time \<Rightarrow> id \<Rightarrow> db \<Rightarrow> db" where
  "finalize_broadcast now bid d =
     (case load_broadcast bid d of None \<Rightarrow> d | Some b \<Rightarrow> finalize (bc_workspace b) now bid d)"

text \<open>The plan of an open Broadcast: its audience becomes recipient rows.\<close>

definition plan_audience ::
  "sql_json \<Rightarrow> time \<Rightarrow> id \<Rightarrow> id \<Rightarrow> cond \<Rightarrow> db \<Rightarrow> id list \<times> db" where
  "plan_audience sj now ws bid x d =
     (let d1 = fold (insert_recipient ws bid) (audience_ids sj ws x d) d;
          ids = recipient_ids ws bid d1;
          d2 = set_broadcast ws bid (\<lambda>_. True) (\<lambda>b. b\<lparr>bc_recipients_total := int (length ids)\<rparr>) d1
      in (ids, if ids = [] then finalize_broadcast now bid d2 else d2))"

definition plan_broadcast ::
  "outbound_env \<Rightarrow> (string \<Rightarrow> string \<Rightarrow> bool) \<Rightarrow> sql_json \<Rightarrow> time \<Rightarrow> id \<Rightarrow> db \<Rightarrow> (job_error + id list) \<times> db" where
  "plan_broadcast env renders sj now bid d =
     (case load_broadcast bid d of
        None \<Rightarrow> (Inl (JobError ''load broadcast''), d)
      | Some b \<Rightarrow>
         (let ws = bc_workspace b; fail = set_broadcast ws bid (\<lambda>_. True) (set_status BcFailed) in
          case preflight env ws (case bc_from_email b of None \<Rightarrow> '''' | Some f \<Rightarrow> f) d of
            Inl e \<Rightarrow> (Inl (SendError e), d)
          | Inr hold \<Rightarrow>
             if hold \<noteq> '''' then (Inl (HeldError hold), set_broadcast_hold ws bid hold d)
             else
               (let d1 = set_broadcast_hold ws bid '''' d in
                if \<not> renders (bc_subject b) (bc_body b) then (Inl (JobError ''template does not render''), fail d1)
                else
                  (let d2 = set_broadcast ws bid (\<lambda>_. True) (set_status BcSending) d1 in
                   case audience_cond now b d2 of
                     Inl e \<Rightarrow> (Inl e, fail d2)
                   | Inr x \<Rightarrow> (case plan_audience sj now ws bid x d2 of (ids, d3) \<Rightarrow> (Inr ids, d3))))))"

section \<open>Pacing\<close>

definition paced_times :: "time \<Rightarrow> duration \<Rightarrow> nat \<Rightarrow> time list" where
  "paced_times start step n = map (\<lambda>i. start + wrap64 (int i * step)) [0..<n]"

definition set_last_scheduled :: "time option \<Rightarrow> broadcast \<Rightarrow> broadcast" where
  "set_last_scheduled t b = b\<lparr>bc_last_scheduled_at := map_option truncate_micro t\<rparr>"

definition pace_recipients :: "id \<Rightarrow> nat \<Rightarrow> time \<Rightarrow> db \<Rightarrow> (job_error + time list option) \<times> db" where
  "pace_recipients bid n now d =
     (case load_broadcast bid d of
        None \<Rightarrow> (Inl (JobError ''load broadcast''), d)
      | Some b \<Rightarrow>
         (let ws = bc_workspace b in
          case default_integration ws d of
            Inl NoProvider \<Rightarrow> (Inr None, d)
          | Inl e \<Rightarrow> (Inl (SendError (ResolveFailed e)), d)
          | Inr i \<Rightarrow>
             (let step = interval (effective_limits (effective_of i)) in
              if step \<le> 0 \<or> n = 0
              then (Inr None, set_broadcast ws bid (\<lambda>_. True) (set_last_scheduled None) d)
              else
                (let start = (case bc_scheduled_at b of None \<Rightarrow> now | Some t \<Rightarrow> if now < t then t else now);
                     ts = paced_times start step n
                 in (Inr (Some ts), set_broadcast ws bid (\<lambda>_. True) (set_last_scheduled (Some (ts ! (n - 1)))) d)))))"


section \<open>Sending to one recipient\<close>

definition recipient_key :: "id \<Rightarrow> string" where
  "recipient_key rid = ''broadcast:'' @ show_int rid"

definition load_recipient :: "id \<Rightarrow> db \<Rightarrow> recipient option" where
  "load_recipient rid d = find_where (\<lambda>r. rec_id r = rid) (recipients d)"

definition update_recipient :: "id \<Rightarrow> id \<Rightarrow> (recipient \<Rightarrow> recipient) \<Rightarrow> db \<Rightarrow> db" where
  "update_recipient ws rid f d =
     d\<lparr>recipients := update_where (in_ws rec_workspace ws (\<lambda>r. rec_id r = rid)) f (recipients d)\<rparr>"

definition recipient_request :: "recipient \<Rightarrow> broadcast \<Rightarrow> contact \<Rightarrow> string \<Rightarrow> request" where
  "recipient_request r b c email =
     \<lparr>rq_kind = KindBroadcast, rq_key = recipient_key (rec_id r), rq_destination = email, rq_contact = Some c,
      rq_contact_id = 0, rq_source = source_broadcasts, rq_subject = bc_subject b, rq_body = bc_body b,
      rq_variables = Map.empty, rq_from_email = (case bc_from_email b of None \<Rightarrow> '''' | Some f \<Rightarrow> f),
      rq_from_name = (case bc_from_name b of None \<Rightarrow> '''' | Some n \<Rightarrow> n), rq_track = rec_id r,
      rq_ref = no_ref\<lparr>rf_broadcast := bc_id b, rf_recipient := rec_id r\<rparr>\<rparr>"

definition with_message :: "id \<Rightarrow> recipient \<Rightarrow> recipient" where
  "with_message mid r = (if mid = 0 then r else r\<lparr>rec_message := Some mid\<rparr>)"

definition failed_recipient :: "string \<Rightarrow> recipient \<Rightarrow> recipient" where
  "failed_recipient cause r = r\<lparr>rec_status := RecFailed, rec_error := Some cause\<rparr>"

text \<open>Who is ahead of a deferred recipient: pending, earlier, and awake.\<close>

definition ahead_of :: "time \<Rightarrow> recipient \<Rightarrow> db \<Rightarrow> nat" where
  "ahead_of now r d = count_where (in_ws rec_workspace (rec_workspace r) (\<lambda>x. rec_broadcast x = rec_broadcast r \<and>
     rec_status x = RecPending \<and> rec_id x < rec_id r \<and>
     (case rec_deferred_until x of None \<Rightarrow> True | Some t \<Rightarrow> t \<le> now))) (recipients d)"

definition recipient_outcome :: "time \<Rightarrow> rat \<Rightarrow> recipient \<Rightarrow> id \<Rightarrow> result \<Rightarrow> db \<Rightarrow> job_error option \<times> db" where
  "recipient_outcome now jitter r bid res d =
     (let ws = rec_workspace r; upd = (\<lambda>f. update_recipient ws (rec_id r) (f \<circ> with_message (res_message res))) in
      case res_outcome res of
        Sent \<Rightarrow> (None, upd (\<lambda>x. x\<lparr>rec_status := RecSent, rec_sent_at := Some now\<rparr>) (set_broadcast_hold ws bid '''' d))
      | Skipped \<Rightarrow> (None, upd (\<lambda>x. x\<lparr>rec_status := RecSkipped, rec_error := Some (res_reason res)\<rparr>) d)
      | Failed \<Rightarrow> (None, upd (failed_recipient (res_reason res)) d)
      | Deferral \<Rightarrow>
          (let ahead = int (ahead_of now r d); delay = deferral_delay (res_wait res) ahead jitter in
           (Some (DeferredError (res_wait res) ahead delay),
            upd (\<lambda>x. x\<lparr>rec_deferred_until := Some (truncate_micro (now + delay))\<rparr>) d))
      | Held \<Rightarrow> (Some (HeldError (res_reason res)), set_broadcast_hold ws bid (res_reason res) d))"

definition send_to_recipient ::
  "outbound_env \<Rightarrow> time \<Rightarrow> rat \<Rightarrow> id \<Rightarrow> world \<Rightarrow> job_error option \<times> world" where
  "send_to_recipient env now jitter rid wd =
     (case load_recipient rid (wd_db wd) of
        None \<Rightarrow> (None, wd)
      | Some r \<Rightarrow>
         (let ws = rec_workspace r; d = wd_db wd in
          if rec_status r \<noteq> RecPending then (None, wd)
          else
            (case get_broadcast ws (rec_broadcast r) d of
               None \<Rightarrow> (Some (JobError ''load broadcast''), wd)
             | Some b \<Rightarrow>
                (case get_contact ws (case rec_contact r of None \<Rightarrow> 0 | Some i \<Rightarrow> i) d of
                   None \<Rightarrow> (None, wd)
                 | Some c \<Rightarrow>
                    (case con_email c of
                       None \<Rightarrow> (None, wd\<lparr>wd_db := update_recipient ws rid (failed_recipient ''contact has no email'') d\<rparr>)
                     | Some email \<Rightarrow>
                        (case send env now ws (recipient_request r b c email) wd of
                           (Inl e, wd') \<Rightarrow> (Some (SendError e), wd')
                         | (Inr res, wd') \<Rightarrow>
                            (case recipient_outcome now jitter r (bc_id b) res (wd_db wd') of
                               (e, d') \<Rightarrow> (e, wd'\<lparr>wd_db := d'\<rparr>))))))))"

definition mark_recipient_failed :: "outbound_env \<Rightarrow> time \<Rightarrow> id \<Rightarrow> string \<Rightarrow> db \<Rightarrow> db" where
  "mark_recipient_failed env now rid cause d =
     (case load_recipient rid d of
        None \<Rightarrow> d
      | Some r \<Rightarrow>
         update_recipient (rec_workspace r) rid (failed_recipient cause)
           (mark_failed env now (rec_workspace r) (recipient_key rid) cause d))"

section \<open>The workers and the inline adapter\<close>

definition send_recipient_work ::
  "outbound_env \<Rightarrow> time \<Rightarrow> rat \<Rightarrow> (job_error \<Rightarrow> string) \<Rightarrow> bool \<Rightarrow> id \<Rightarrow> id \<Rightarrow> world \<Rightarrow> job_outcome \<times> world" where
  "send_recipient_work env now jitter txt last_attempt rid bid wd =
     (case send_to_recipient env now jitter rid wd of
        (None, wd') \<Rightarrow> (JobDone, wd'\<lparr>wd_db := finalize_broadcast now bid (wd_db wd')\<rparr>)
      | (Some e, wd') \<Rightarrow>
         if is_deferrable e then (snooze_if_deferrable jitter e, wd')
         else if last_attempt
         then (JobRetry e, wd'\<lparr>wd_db := finalize_broadcast now bid (mark_recipient_failed env now rid (txt e) (wd_db wd'))\<rparr>)
         else (JobRetry e, wd'))"

record recipient_job =
  rj_recipient :: id
  rj_broadcast :: id
  rj_at :: "time option"

definition recipient_insert_chunk :: nat where "recipient_insert_chunk = 1000"

definition recipient_jobs :: "id \<Rightarrow> id list \<Rightarrow> time list option \<Rightarrow> recipient_job list" where
  "recipient_jobs bid ids due =
     map (\<lambda>i. \<lparr>rj_recipient = ids ! i, rj_broadcast = bid, rj_at = map_option (\<lambda>ts. ts ! i) due\<rparr>) [0..<length ids]"

text \<open>\<open>InsertMany\<close>, a chunk at a time: the first refused chunk ends the plan job with an error, the
  chunks before it stay queued. \<open>refuses k\<close> is the answer for the chunk starting at \<open>k\<close>.\<close>

function insert_chunks :: "(nat \<Rightarrow> bool) \<Rightarrow> nat \<Rightarrow> recipient_job list \<Rightarrow> recipient_job list \<Rightarrow> bool \<times> recipient_job list" where
  "insert_chunks refuses k js queue =
     (if js = [] then (True, queue)
      else if refuses k then (False, queue)
      else insert_chunks refuses (k + recipient_insert_chunk) (drop recipient_insert_chunk js)
             (queue @ take recipient_insert_chunk js))"
  by pat_completeness auto
termination
  by (relation "measure (\<lambda>(_, _, js, _). length js)") (auto simp: recipient_insert_chunk_def)

declare insert_chunks.simps [simp del]

definition send_broadcast_work ::
  "outbound_env \<Rightarrow> (string \<Rightarrow> string \<Rightarrow> bool) \<Rightarrow> sql_json \<Rightarrow> (nat \<Rightarrow> bool) \<Rightarrow> time \<Rightarrow> rat \<Rightarrow> id \<Rightarrow> time option \<Rightarrow>
     db \<times> recipient_job list \<Rightarrow> job_outcome \<times> db \<times> recipient_job list" where
  "send_broadcast_work env renders sj refuses now jitter bid sched st =
     (let d = fst st; queue = snd st in
      case broadcast_due bid sched d of
        Inl e \<Rightarrow> (JobRetry e, st)
      | Inr False \<Rightarrow> (JobDone, st)
      | Inr True \<Rightarrow>
         (case plan_broadcast env renders sj now bid d of
            (Inl e, d1) \<Rightarrow> (snooze_if_deferrable jitter e, d1, queue)
          | (Inr ids, d1) \<Rightarrow>
             if ids = [] then (JobDone, d1, queue)
             else (case pace_recipients bid (length ids) now d1 of
                     (Inl e, d2) \<Rightarrow> (JobRetry e, d2, queue)
                   | (Inr due, d2) \<Rightarrow>
                      (case insert_chunks refuses 0 (recipient_jobs bid ids due) queue of
                         (True, queue') \<Rightarrow> (JobDone, d2, queue')
                       | (False, queue') \<Rightarrow> (JobRetry (JobError ''insert jobs''), d2, queue')))))"

text \<open>The synchronous send: \<open>None\<close> is success.\<close>

fun send_all ::
  "outbound_env \<Rightarrow> time \<Rightarrow> rat \<Rightarrow> (job_error \<Rightarrow> string) \<Rightarrow> id list \<Rightarrow> world \<Rightarrow> job_error option \<times> world" where
  "send_all env now jitter txt [] wd = (None, wd)"
| "send_all env now jitter txt (rid # ids) wd =
     (case send_to_recipient env now jitter rid wd of
        (None, wd1) \<Rightarrow> send_all env now jitter txt ids wd1
      | (Some e, wd1) \<Rightarrow>
         if is_deferrable e then (Some e, wd1)
         else send_all env now jitter txt ids (wd1\<lparr>wd_db := mark_recipient_failed env now rid (txt e) (wd_db wd1)\<rparr>))"

definition send_broadcast_now ::
  "outbound_env \<Rightarrow> (string \<Rightarrow> string \<Rightarrow> bool) \<Rightarrow> sql_json \<Rightarrow> time \<Rightarrow> rat \<Rightarrow> (job_error \<Rightarrow> string) \<Rightarrow> id \<Rightarrow> world
     \<Rightarrow> job_error option \<times> world" where
  "send_broadcast_now env renders sj now jitter txt bid wd =
     (case plan_broadcast env renders sj now bid (wd_db wd) of
        (Inl e, d1) \<Rightarrow> (Some e, wd\<lparr>wd_db := d1\<rparr>)
      | (Inr ids, d1) \<Rightarrow>
         (case send_all env now jitter txt ids (wd\<lparr>wd_db := d1\<rparr>) of
            (Some e, wd2) \<Rightarrow> (Some e, wd2)
          | (None, wd2) \<Rightarrow> (None, wd2\<lparr>wd_db := finalize_broadcast now bid (wd_db wd2)\<rparr>)))"

definition inline_enqueue ::
  "outbound_env \<Rightarrow> (string \<Rightarrow> string \<Rightarrow> bool) \<Rightarrow> sql_json \<Rightarrow> time \<Rightarrow> rat \<Rightarrow> (job_error \<Rightarrow> string) \<Rightarrow> email_message list enqueuer" where
  "inline_enqueue env renders sj now jitter txt bid due st =
     (if (case due of None \<Rightarrow> False | Some t \<Rightarrow> now < t) then (True, st)
      else (case send_broadcast_now env renders sj now jitter txt bid \<lparr>wd_db = fst st, wd_wire = snd st\<rparr> of
              (e, wd') \<Rightarrow> (e = None, wd_db wd', wd_wire wd')))"


section \<open>Loading and writing rows\<close>

lemma load_get:
  assumes "unique_broadcasts d"
  shows "load_broadcast bid d = Some b \<longleftrightarrow> get_broadcast (bc_workspace b) bid d = Some b"
proof
  assume l: "load_broadcast bid d = Some b"
  then have "b \<in> set (broadcasts d)" "bc_id b = bid" by (auto simp: load_broadcast_def dest: find_where_SomeD)
  then show "get_broadcast (bc_workspace b) bid d = Some b" by (intro get_unique [OF assms]) (simp_all add: broadcast_row_iff)
next
  assume g: "get_broadcast (bc_workspace b) bid d = Some b"
  have "b \<in> set (broadcasts d)" "bc_id b = bid" using get_broadcast_row [OF g] by simp_all
  then show "load_broadcast bid d = Some b"
    unfolding load_broadcast_def using assms
    by (intro find_where_eq [of bc_id]) (auto simp: unique_broadcasts_def)
qed

lemma load_row: "load_broadcast bid d = Some b \<Longrightarrow> b \<in> set (broadcasts d) \<and> bc_id b = bid"
  by (auto simp: load_broadcast_def dest: find_where_SomeD)

lemma set_broadcast_tables [simp]:
  "contacts (set_broadcast ws bid p f d) = contacts d" "messages (set_broadcast ws bid p f d) = messages d"
  "next_id (set_broadcast ws bid p f d) = next_id d" "workspaces (set_broadcast ws bid p f d) = workspaces d"
  "suppressions (set_broadcast ws bid p f d) = suppressions d" "unsubscribes (set_broadcast ws bid p f d) = unsubscribes d"
  "confirmations (set_broadcast ws bid p f d) = confirmations d" "integrations (set_broadcast ws bid p f d) = integrations d"
  "sending_domains (set_broadcast ws bid p f d) = sending_domains d" "segments (set_broadcast ws bid p f d) = segments d"
  "events (set_broadcast ws bid p f d) = events d" "tags (set_broadcast ws bid p f d) = tags d"
  "contact_tags (set_broadcast ws bid p f d) = contact_tags d"
  by (simp_all add: set_broadcast_def)

lemma keeps_status [simp]:
  "keeps_row (set_status st)" "keeps_row (set_last_scheduled t)" "keeps_row (\<lambda>b. b\<lparr>bc_recipients_total := n\<rparr>)"
  "keeps_row (\<lambda>b. b\<lparr>bc_hold_reason := (if reason = '''' then None else Some reason)\<rparr>)"
  by (simp_all add: keeps_row_def set_status_def set_last_scheduled_def)

lemma update_recipient_tables [simp]:
  "broadcasts (update_recipient ws rid f d) = broadcasts d" "messages (update_recipient ws rid f d) = messages d"
  "contacts (update_recipient ws rid f d) = contacts d" "next_id (update_recipient ws rid f d) = next_id d"
  by (simp_all add: update_recipient_def)

definition keeps_recipient :: "(recipient \<Rightarrow> recipient) \<Rightarrow> bool" where
  "keeps_recipient f \<longleftrightarrow> (\<forall>r. rec_id (f r) = rec_id r \<and> rec_workspace (f r) = rec_workspace r \<and>
     rec_broadcast (f r) = rec_broadcast r \<and> rec_contact (f r) = rec_contact r)"

lemma load_recipient_row: "load_recipient rid d = Some r \<Longrightarrow> r \<in> set (recipients d) \<and> rec_id r = rid"
  by (auto simp: load_recipient_def dest: find_where_SomeD)

lemma load_update_recipient:
  assumes "load_recipient rid d = Some r" and "\<And>r. rec_id (f r) = rec_id r"
  shows "load_recipient rid (update_recipient (rec_workspace r) rid f d) = Some (f r)"
  using assms unfolding load_recipient_def update_recipient_def
  by (simp add: find_where_update in_ws_def) (auto dest: find_where_SomeD)

section \<open>What a recipient's job puts on the wire\<close>

lemma recipient_outcome_cases:
  assumes "load_recipient rid (wd_db wd) = Some r" and "rec_status r = RecPending"
    and "send_to_recipient env now jitter rid wd = (e, wd')"
  obtains (no_broadcast) "get_broadcast (rec_workspace r) (rec_broadcast r) (wd_db wd) = None" "wd' = wd" "\<exists>m. e = Some (JobError m)"
  | (erased) "get_contact (rec_workspace r) (case rec_contact r of None \<Rightarrow> 0 | Some i \<Rightarrow> i) (wd_db wd) = None" "wd' = wd" "e = None"
  | (no_email) "wd' = wd\<lparr>wd_db := update_recipient (rec_workspace r) rid (failed_recipient ''contact has no email'') (wd_db wd)\<rparr>" "e = None"
  | (sent) b c email res wd1 where "get_broadcast (rec_workspace r) (rec_broadcast r) (wd_db wd) = Some b"
      "get_contact (rec_workspace r) (case rec_contact r of None \<Rightarrow> 0 | Some i \<Rightarrow> i) (wd_db wd) = Some c" "con_email c = Some email"
      "send env now (rec_workspace r) (recipient_request r b c email) wd = (res, wd1)"
      "case res of Inl err \<Rightarrow> e = Some (SendError err) \<and> wd' = wd1
         | Inr out \<Rightarrow> (\<exists>d'. recipient_outcome now jitter r (bc_id b) out (wd_db wd1) = (e, d') \<and> wd' = wd1\<lparr>wd_db := d'\<rparr>)"
proof (cases "get_broadcast (rec_workspace r) (rec_broadcast r) (wd_db wd)")
  case None
  then show thesis using no_broadcast assms by (auto simp: send_to_recipient_def Let_def)
next
  case b: (Some b)
  show thesis
  proof (cases "get_contact (rec_workspace r) (case rec_contact r of None \<Rightarrow> 0 | Some i \<Rightarrow> i) (wd_db wd)")
    case None
    then show thesis using erased assms b by (auto simp: send_to_recipient_def Let_def)
  next
    case c: (Some c)
    show thesis
    proof (cases "con_email c")
      case None
      then show thesis using no_email assms b c by (auto simp: send_to_recipient_def Let_def)
    next
      case em: (Some email)
      obtain res wd1 where s: "send env now (rec_workspace r) (recipient_request r b c email) wd = (res, wd1)"
        by (cases "send env now (rec_workspace r) (recipient_request r b c email) wd")
      show thesis
        by (rule sent [OF b c em s])
           (use assms b c em s in \<open>auto simp: send_to_recipient_def Let_def split: sum.splits prod.splits\<close>)
    qed
  qed
qed

lemma decided_recipient_idle:
  "load_recipient rid (wd_db wd) = None \<or> (\<exists>r. load_recipient rid (wd_db wd) = Some r \<and> rec_status r \<noteq> RecPending) \<Longrightarrow>
     send_to_recipient env now jitter rid wd = (None, wd)"
  by (auto simp: send_to_recipient_def)

text \<open>C17: nothing a Broadcast mails escapes the gates. A recipient's job puts at most one message on
  the wire, only for a recipient still pending, to the address its Contact has now, and only if the
  Workspace can send and that address is eligible for Broadcasts at that moment: an unsubscribe or a
  Suppression after planning stops it. The message is under the recipient's own idempotency key and
  carries the one-click link of this Broadcast.\<close>

theorem broadcast_mail_is_gated:
  assumes "send_to_recipient env now jitter rid wd = (e, wd')" and "wd_wire wd' \<noteq> wd_wire wd"
  shows "\<exists>r b c email m. load_recipient rid (wd_db wd) = Some r \<and> rec_status r = RecPending \<and>
     get_broadcast (rec_workspace r) (rec_broadcast r) (wd_db wd) = Some b \<and>
     get_contact (rec_workspace r) (case rec_contact r of None \<Rightarrow> 0 | Some i \<Rightarrow> i) (wd_db wd) = Some c \<and> con_email c = Some email \<and>
     wd_wire wd' = wd_wire wd @ [m] \<and>
     may_leave env (rec_workspace r) (recipient_request r b c email) (wd_db wd) m \<and>
     rq_key (recipient_request r b c email) = recipient_key rid \<and> rq_source (recipient_request r b c email) = source_broadcasts"
proof -
  obtain r where r: "load_recipient rid (wd_db wd) = Some r" "rec_status r = RecPending"
    using assms decided_recipient_idle [of rid wd env now jitter] by (cases "load_recipient rid (wd_db wd)") auto
  have id: "rec_id r = rid" using load_recipient_row [OF r(1)] by simp
  from r assms(1) show ?thesis
  proof (cases rule: recipient_outcome_cases)
    case (sent b c email res wd1)
    have w: "wd_wire wd' = wd_wire wd1" using sent(5) by (auto split: sum.splits)
    obtain m where "wd_wire wd1 = wd_wire wd @ [m]" "may_leave env (rec_workspace r) (recipient_request r b c email) (wd_db wd) m"
      using send_wire [OF sent(4)] w assms(2) by auto
    then show ?thesis using r sent(1-3) w id by (auto simp: recipient_request_def)
  qed (use assms(2) in auto)
qed


text \<open>A Workspace with one Contact, and a Broadcast in a given state whose plan made it a recipient.\<close>

definition sample_send_world :: "broadcast_status \<Rightarrow> recipient list \<Rightarrow> world" where
  "sample_send_world st rs = \<lparr>wd_db = sample_db\<lparr>contacts := [sample_contact 7 1 ''bo@y.io''],
      broadcasts := [sample_broadcast 5 st], recipients := rs\<rparr>, wd_wire = []\<rparr>"

abbreviation sample_pending :: recipient where
  "sample_pending \<equiv> pending_recipient 8 1 5 7"

abbreviation sample_news :: request where
  "sample_news \<equiv> recipient_request sample_pending (sample_broadcast 5 BcSending) (sample_contact 7 1 ''bo@y.io'') ''bo@y.io''"

lemma sample_send_tables:
  "workspaces (wd_db (sample_send_world st rs)) = workspaces sample_db"
  "sending_domains (wd_db (sample_send_world st rs)) = sending_domains sample_db"
  "integrations (wd_db (sample_send_world st rs)) = integrations sample_db"
  "messages (wd_db (sample_send_world st rs)) = []" "suppressions (wd_db (sample_send_world st rs)) = []"
  "unsubscribes (wd_db (sample_send_world st rs)) = []" "confirmations (wd_db (sample_send_world st rs)) = []"
  "next_id (wd_db (sample_send_world st rs)) = 10" "wd_wire (sample_send_world st rs) = []"
  "recipients (wd_db (sample_send_world st rs)) = rs" "broadcasts (wd_db (sample_send_world st rs)) = [sample_broadcast 5 st]"
  "contacts (wd_db (sample_send_world st rs)) = [sample_contact 7 1 ''bo@y.io'']"
  by (simp_all add: sample_send_world_def sample_db_def)

lemma sample_send_rows:
  "load_recipient 8 (wd_db (sample_send_world st [sample_pending])) = Some sample_pending"
  "rec_status sample_pending = RecPending" "rec_workspace sample_pending = 1" "rec_broadcast sample_pending = 5"
  "rec_contact sample_pending = Some 7" "rec_id sample_pending = 8"
  "get_broadcast 1 5 (wd_db (sample_send_world st rs)) = Some (sample_broadcast 5 st)"
  "load_broadcast 5 (wd_db (sample_send_world st rs)) = Some (sample_broadcast 5 st)"
  "get_contact 1 7 (wd_db (sample_send_world st rs)) = Some (sample_contact 7 1 ''bo@y.io'')"
  "con_email (sample_contact 7 1 ''bo@y.io'') = Some ''bo@y.io''" "bc_id (sample_broadcast 5 st) = 5"
  "unique_broadcasts (wd_db (sample_send_world st rs))" "bc_workspace (sample_broadcast 5 st) = 1"
  by (simp_all add: load_recipient_def find_where_def sample_send_tables pending_recipient_def get_broadcast_def
      load_broadcast_def broadcast_row_iff sample_broadcast_def get_contact_def in_ws_def sample_contact_def unique_broadcasts_def)

lemma sample_news_goes_out:
  "\<exists>wd1 m. send sample_env 0 1 sample_news (sample_send_world st [sample_pending]) = (Inr (outcome_result Sent '''' 10), wd1) \<and>
     wd_wire wd1 = [m] \<and> em_to m = ''bo@y.io''"
proof -
  let ?w = "sample_send_world st [sample_pending]"
  have vc: "verify_contact 1 7 (wd_db ?w)"
    by (simp add: verify_contact_def exists_where_def sample_send_tables in_ws_def sample_contact_def)
  have c: "con_workspace (sample_contact 7 1 ''bo@y.io'') = 1" "con_id (sample_contact 7 1 ''bo@y.io'') = 7"
    by (simp_all add: sample_contact_def)
  have rq: "rq_key sample_news \<noteq> ''''" "rq_destination sample_news = ''bo@y.io''" "rq_source sample_news \<noteq> ''''"
    "rq_from_email sample_news = ''''" "rq_from_name sample_news = ''''" "rq_contact sample_news = Some (sample_contact 7 1 ''bo@y.io'')"
    by (simp_all add: recipient_request_def recipient_key_def sample_broadcast_def source_broadcasts_def)
  have refs: "refs_ok sample_env 1 (claim_row 0 1 sample_news ''bo@y.io'' (g_domain sample_open) 10) (wd_db ?w)"
    using vc by (simp add: refs_ok_def claim_row_def sample_env_simps request_contact_def recipient_request_def no_ref_def
        nonzero_def c sample_send_rows exists_where_def sample_send_tables in_ws_def has_broadcast_def)
  show ?thesis
    using sample_goes_out [of ?w sample_news "sample_contact 7 1 ''bo@y.io''"] vc refs rq
    by (simp add: sample_send_tables c)
qed

lemma sample_recipient_send:
  "\<exists>wd' m. send_to_recipient sample_env 0 0 8 (sample_send_world BcSending [sample_pending]) = (None, wd') \<and>
     wd_wire wd' = [m] \<and> em_to m = ''bo@y.io'' \<and>
     messages (wd_db wd') = messages (wd_db (snd (send sample_env 0 1 sample_news (sample_send_world BcSending [sample_pending])))) \<and>
     load_recipient 8 (wd_db wd') = Some (sample_pending\<lparr>rec_message := Some 10, rec_status := RecSent, rec_sent_at := Some 0\<rparr>)"
proof -
  let ?w = "sample_send_world BcSending [sample_pending]"
  obtain wd1 m where s: "send sample_env 0 1 sample_news ?w = (Inr (outcome_result Sent '''' 10), wd1)" "wd_wire wd1 = [m]"
    "em_to m = ''bo@y.io''" using sample_news_goes_out by blast
  have rs: "recipients (wd_db wd1) = [sample_pending]"
    using other_tables_fields(4) [OF send_tables [OF s(1)]] by (simp add: sample_send_tables)
  then have l: "load_recipient 8 (wd_db wd1) = Some sample_pending" "load_recipient 8 (set_broadcast_hold 1 5 '''' (wd_db wd1)) = Some sample_pending"
    by (simp_all add: load_recipient_def find_where_def pending_recipient_def set_broadcast_hold_def)
  show ?thesis
    using s l(1) load_update_recipient [OF l(2), of "(\<lambda>x. x\<lparr>rec_status := RecSent, rec_sent_at := Some 0\<rparr>) \<circ> with_message 10"]
    by (simp add: send_to_recipient_def sample_send_rows recipient_outcome_def outcome_result_def Let_def with_message_def)
       (simp add: set_broadcast_hold_def)
qed

theorem broadcast_mail_is_gated_witness:
  "\<exists>wd' m. send_to_recipient sample_env 0 0 8 (sample_send_world BcSending [sample_pending]) = (None, wd') \<and>
     wd_wire wd' = [m] \<and> em_unsubscribe m \<noteq> ''''"
proof -
  obtain wd' m where s: "send_to_recipient sample_env 0 0 8 (sample_send_world BcSending [sample_pending]) = (None, wd')"
    "wd_wire wd' = [m]" using sample_recipient_send by blast
  have "wd_wire wd' \<noteq> wd_wire (sample_send_world BcSending [sample_pending])" by (simp add: s sample_send_tables)
  from broadcast_mail_is_gated [OF s(1) this] s show ?thesis
    by (auto simp: may_leave_def sample_send_tables recipient_request_def source_broadcasts_def split: if_splits)
qed


section \<open>A recipient is mailed at most once\<close>

lemma final_send_wire:
  assumes "find_message ws (rq_key req) (wd_db wd) = Some m" and "msg_status m \<noteq> MsgPending"
  shows "wd_wire (snd (send env now ws req wd)) = wd_wire wd"
  using assms by (simp add: send_def final_message_def Let_def split: option.split)

lemma final_recipient_wire:
  assumes "\<And>r. load_recipient rid (wd_db wd) = Some r \<Longrightarrow>
     \<exists>m. find_message (rec_workspace r) (recipient_key rid) (wd_db wd) = Some m \<and> msg_status m \<noteq> MsgPending"
  shows "wd_wire (snd (send_to_recipient env now jitter rid wd)) = wd_wire wd"
proof (rule ccontr)
  assume w: "wd_wire (snd (send_to_recipient env now jitter rid wd)) \<noteq> wd_wire wd"
  obtain e wd' where s: "send_to_recipient env now jitter rid wd = (e, wd')"
    by (cases "send_to_recipient env now jitter rid wd")
  obtain r where r: "load_recipient rid (wd_db wd) = Some r" "rec_status r = RecPending"
    using w s decided_recipient_idle [of rid wd env now jitter] by (cases "load_recipient rid (wd_db wd)") auto
  obtain m where m: "find_message (rec_workspace r) (recipient_key rid) (wd_db wd) = Some m" "msg_status m \<noteq> MsgPending"
    using assms [OF r(1)] by blast
  have id: "rec_id r = rid" using load_recipient_row [OF r(1)] by simp
  from r s show False
  proof (cases rule: recipient_outcome_cases)
    case (sent b c email res wd1)
    have k: "rq_key (recipient_request r b c email) = recipient_key rid" by (simp add: recipient_request_def id)
    have "wd_wire wd1 = wd_wire wd" using final_send_wire [of "rec_workspace r" "recipient_request r b c email" wd m env now] m sent(4) k by simp
    then show False using sent(5) w s by (auto split: sum.splits)
  qed (use w s in auto)
qed

lemma recorded_final: "recorded ws key res d \<Longrightarrow> \<exists>m. find_message ws key d = Some m \<and> msg_status m \<noteq> MsgPending"
  by (auto simp: recorded_def)

lemma recipient_outcome_messages: "messages (snd (recipient_outcome now jitter r bid res d)) = messages d"
  by (simp add: recipient_outcome_def Let_def set_broadcast_hold_def split: outcome.split)

lemma sent_recipient_final:
  assumes "wf_messages (wd_db wd)" and "send_to_recipient env now jitter rid wd = (None, wd')"
    and "wd_wire wd' \<noteq> wd_wire wd"
  shows "\<exists>r m. load_recipient rid (wd_db wd) = Some r \<and>
     find_message (rec_workspace r) (recipient_key rid) (wd_db wd') = Some m \<and> msg_status m \<noteq> MsgPending"
proof -
  obtain r where r: "load_recipient rid (wd_db wd) = Some r" "rec_status r = RecPending"
    using assms(2,3) decided_recipient_idle [of rid wd env now jitter] by (cases "load_recipient rid (wd_db wd)") auto
  have id: "rec_id r = rid" using load_recipient_row [OF r(1)] by simp
  from r assms(2) show ?thesis
  proof (cases rule: recipient_outcome_cases)
    case (sent b c email res wd1)
    then obtain out where out: "res = Inr out" by (cases res) auto
    have w: "wd_wire wd1 \<noteq> wd_wire wd" using sent(5) assms(3) out by auto
    have ms: "find_message ws k (wd_db wd') = find_message ws k (wd_db wd1)" for ws k
      using sent(5) recipient_outcome_messages [of now jitter r "bc_id b" out "wd_db wd1"]
      by (auto simp: out find_message_def)
    have "recorded (rec_workspace r) (recipient_key rid) out (wd_db wd1)"
      using send_result [OF assms(1) sent(4) [unfolded out]] w by (auto simp: reversible_def recipient_request_def id)
    then show ?thesis using recorded_final r(1) by (auto simp: ms)
  qed (use assms(3) in auto)
qed



section \<open>Every Outcome has its row\<close>

lemma keeps_outcome [simp]: "rec_id (with_message mid r) = rec_id r" "rec_status (with_message mid r) = rec_status r"
  "rec_id (failed_recipient cause r) = rec_id r" "rec_status (failed_recipient cause r) = RecFailed"
  by (simp_all add: with_message_def failed_recipient_def)

lemma recipient_outcome_row:
  assumes "load_recipient rid d = Some r" and "rec_status r = RecPending" and "recipient_outcome now jitter r bid res d = (e, d')"
  shows "\<exists>r'. load_recipient rid d' = Some r' \<and> rec_workspace r' = rec_workspace r \<and> rec_broadcast r' = rec_broadcast r \<and>
     (case res_outcome res of
        Sent \<Rightarrow> e = None \<and> rec_status r' = RecSent \<and> rec_sent_at r' = Some now
      | Skipped \<Rightarrow> e = None \<and> rec_status r' = RecSkipped \<and> rec_error r' = Some (res_reason res)
      | Failed \<Rightarrow> e = None \<and> rec_status r' = RecFailed \<and> rec_error r' = Some (res_reason res)
      | Held \<Rightarrow> e = Some (HeldError (res_reason res)) \<and> r' = r
      | Deferral \<Rightarrow> rec_status r' = RecPending \<and>
          (\<exists>delay. e = Some (DeferredError (res_wait res) (int (ahead_of now r d)) delay) \<and>
             rec_deferred_until r' = Some (truncate_micro (now + delay))))"
proof -
  have id: "rec_id r = rid" using load_recipient_row [OF assms(1)] by simp
  have l: "load_recipient rid (set_broadcast_hold ws bid h d) = Some r" for ws h
    using assms(1) by (simp add: load_recipient_def set_broadcast_hold_def)
  note upd = load_update_recipient [OF assms(1)] load_update_recipient [OF l]
  show ?thesis
    using assms(2,3) upd l
    by (cases "res_outcome res")
       (auto simp: recipient_outcome_def Let_def id with_message_def failed_recipient_def)
qed

text \<open>A recipient's job and its row agree on every Outcome. Sent, Skipped and Failed settle the row with
  the reason the module gave and end the job; a hold leaves the row exactly as it was and a Deferral
  keeps it pending, both as an error the worker snoozes without spending an attempt.\<close>

theorem recipient_follows_outcome:
  assumes "load_recipient rid (wd_db wd) = Some r" and "rec_status r = RecPending"
    and "get_broadcast (rec_workspace r) (rec_broadcast r) (wd_db wd) = Some b"
    and "rec_contact r = Some cid" and "get_contact (rec_workspace r) cid (wd_db wd) = Some c" and "con_email c = Some email"
    and "send env now (rec_workspace r) (recipient_request r b c email) wd = (Inr res, wd1)"
    and "send_to_recipient env now jitter rid wd = (e, wd')"
  shows "\<exists>r'. load_recipient rid (wd_db wd') = Some r' \<and>
     (case res_outcome res of
        Sent \<Rightarrow> e = None \<and> rec_status r' = RecSent \<and> rec_sent_at r' = Some now
      | Skipped \<Rightarrow> e = None \<and> rec_status r' = RecSkipped \<and> rec_error r' = Some (res_reason res)
      | Failed \<Rightarrow> e = None \<and> rec_status r' = RecFailed \<and> rec_error r' = Some (res_reason res)
      | Held \<Rightarrow> e = Some (HeldError (res_reason res)) \<and> r' = r
      | Deferral \<Rightarrow> rec_status r' = RecPending \<and> (\<exists>ahead delay. e = Some (DeferredError (res_wait res) ahead delay))) \<and>
     (rec_status r' = RecPending \<longleftrightarrow> e \<noteq> None) \<and> (\<forall>err. e = Some err \<longrightarrow> is_deferrable err)"
proof -
  have l: "load_recipient rid (wd_db wd1) = Some r"
    using assms(1) other_tables_fields(4) [OF send_tables [OF assms(7)]] by (simp add: load_recipient_def)
  obtain d' where d': "recipient_outcome now jitter r (bc_id b) res (wd_db wd1) = (e, d')" and wd': "wd' = wd1\<lparr>wd_db := d'\<rparr>"
    using assms by (auto simp: send_to_recipient_def Let_def split: prod.splits)
  from recipient_outcome_row [OF l assms(2) d'] show ?thesis
    using assms(2) by (cases "res_outcome res") (auto simp: wd')
qed

theorem recipient_follows_outcome_witness:
  "\<exists>e wd' r'. send_to_recipient sample_env 0 0 8 (sample_send_world BcSending [sample_pending]) = (e, wd') \<and> e = None \<and>
     load_recipient 8 (wd_db wd') = Some r' \<and> rec_status r' = RecSent"
proof -
  obtain wd1 where s: "send sample_env 0 1 sample_news (sample_send_world BcSending [sample_pending]) = (Inr (outcome_result Sent '''' 10), wd1)"
    using sample_news_goes_out by blast
  obtain e wd' where t: "send_to_recipient sample_env 0 0 8 (sample_send_world BcSending [sample_pending]) = (e, wd')"
    by (cases "send_to_recipient sample_env 0 0 8 (sample_send_world BcSending [sample_pending])")
  from recipient_follows_outcome [OF sample_send_rows(1,2) _ sample_send_rows(5) _ sample_send_rows(10) _ t,
      of "sample_broadcast 5 BcSending" "outcome_result Sent '''' 10" wd1] s t
  show ?thesis by (auto simp: sample_send_rows outcome_result_def)
qed


section \<open>The last attempt settles the Broadcast\<close>

lemma get_update_recipient [simp]:
  "get_broadcast ws bid (update_recipient ws' rid f d) = get_broadcast ws bid d"
  "unique_broadcasts (update_recipient ws' rid f d) \<longleftrightarrow> unique_broadcasts d"
  by (simp_all add: get_broadcast_def unique_broadcasts_def)

lemma hold_keeps:
  "unique_broadcasts (set_broadcast_hold ws bid h d) \<longleftrightarrow> unique_broadcasts d"
  "map_option bc_status (get_broadcast ws' bid' (set_broadcast_hold ws bid h d)) = map_option bc_status (get_broadcast ws' bid' d)"
  by (simp_all add: set_broadcast_hold_def unique_set_broadcast get_set_broadcast option.map_comp comp_def)

lemma finalize_broadcast_sent:
  assumes "unique_broadcasts d" and "statuses_of d (ws, bid) = Some BcSending" and "recipients_in ws bid RecPending d = 0"
  shows "statuses_of (finalize_broadcast now bid d) (ws, bid) = Some BcSent"
proof -
  obtain b where b: "get_broadcast ws bid d = Some b" "bc_status b = BcSending"
    using assms(2) by (auto simp: statuses_of_apply)
  have w: "bc_workspace b = ws" using get_broadcast_row [OF b(1)] by simp
  then have "load_broadcast bid d = Some b" using load_get [OF assms(1)] b(1) by simp
  then show ?thesis using assms(3) b w
    by (simp add: finalize_broadcast_def statuses_of_apply finalize_get settled_broadcast_def)
qed

definition settles :: "id \<Rightarrow> id \<Rightarrow> db \<Rightarrow> db \<Rightarrow> bool" where
  "settles ws rid d d' \<longleftrightarrow> (\<exists>f. (\<forall>x. rec_status (f x) \<noteq> RecPending) \<and>
     recipients d' = update_where (in_ws rec_workspace ws (\<lambda>x. rec_id x = rid)) f (recipients d))"

lemma settlesI: "(\<And>x. rec_status (f x) \<noteq> RecPending) \<Longrightarrow> recipients d0 = recipients d \<Longrightarrow> settles ws rid d (update_recipient ws rid f d0)"
  by (auto simp: settles_def update_recipient_def)

lemma settles_none_pending:
  assumes "settles ws rid d d'"
    and "\<forall>x \<in> set (recipients d). rec_workspace x = ws \<and> rec_broadcast x = bid \<and> rec_status x = RecPending \<longrightarrow> rec_id x = rid"
  shows "recipients_in ws bid RecPending d' = 0"
proof -
  obtain f where f: "\<And>x. rec_status (f x) \<noteq> RecPending"
    "recipients d' = update_where (in_ws rec_workspace ws (\<lambda>x. rec_id x = rid)) f (recipients d)"
    using assms(1) by (auto simp: settles_def)
  have "\<not> recipient_of ws bid RecPending x" if "x \<in> set (recipients d')" for x
  proof
    assume p: "recipient_of ws bid RecPending x"
    then have "rec_status x = RecPending" by (simp add: recipient_of_def in_ws_def)
    with that f have "x \<in> set (recipients d)" "\<not> (rec_workspace x = ws \<and> rec_id x = rid)"
      by (auto simp: table_simps split: if_splits)
    with assms(2) p show False by (auto simp: recipient_of_def in_ws_def)
  qed
  then show ?thesis by (auto simp: recipients_in_def table_simps)
qed

lemma recipient_outcome_settles:
  assumes "recipient_outcome now jitter r bid res d = (None, d')"
  shows "settles (rec_workspace r) (rec_id r) d d' \<and> statuses_of d' = statuses_of d \<and> (unique_broadcasts d' \<longleftrightarrow> unique_broadcasts d)"
proof -
  have st: "statuses_of (update_recipient ws rid f d0) = statuses_of d0" for ws rid f d0
    by (rule ext) (simp add: statuses_of_def)
  have hd: "statuses_of (set_broadcast_hold ws bid h d) = statuses_of d" for ws h
    by (rule ext) (auto simp: statuses_of_def hold_keeps split: prod.split)
  have rh: "recipients (set_broadcast_hold ws bid h d) = recipients d" for ws h by (simp add: set_broadcast_hold_def)
  show ?thesis
    using assms by (cases "res_outcome res")
      (auto simp: recipient_outcome_def Let_def st hd hold_keeps rh failed_recipient_def intro!: settlesI)
qed

lemma mark_recipient_settles:
  assumes "load_recipient rid d = Some r"
  shows "settles (rec_workspace r) rid d (mark_recipient_failed env now rid cause d) \<and>
    statuses_of (mark_recipient_failed env now rid cause d) = statuses_of d \<and>
    (unique_broadcasts (mark_recipient_failed env now rid cause d) \<longleftrightarrow> unique_broadcasts d)"
proof -
  have "broadcasts (mark_failed env now ws k c d) = broadcasts d \<and> recipients (mark_failed env now ws k c d) = recipients d" for ws k c
    by (simp add: mark_failed_def)
  then show ?thesis using assms
    by (auto simp: mark_recipient_failed_def failed_recipient_def statuses_of_def get_broadcast_def unique_broadcasts_def
        intro!: settlesI)
qed

lemma snooze_deferrable:
  assumes "is_deferrable e" and "0 \<le> jitter" and "jitter < 1"
  shows "\<exists>t. snooze_if_deferrable jitter e = JobSnooze t \<and> 0 < t"
proof -
  have "0 < deferral_delay w b jitter" for w b using deferral_delay_range(1) [OF assms(2,3), of w b] by simp
  then show ?thesis using assms(1) by (cases e) (auto simp: delay_defs)
qed

text \<open>C18: a Broadcast never hangs in sending. When the last pending recipient's job makes its final
  attempt, it either snoozes on a hold, a Deferral or a live claim (spending no attempt, and for a
  positive time), or the Broadcast is sent when it ends: whatever failed is recorded on the row.\<close>

theorem last_attempt_settles:
  assumes "unique_broadcasts (wd_db wd)" and "load_recipient rid (wd_db wd) = Some r"
    and "rec_status r = RecPending" and "statuses_of (wd_db wd) (rec_workspace r, rec_broadcast r) = Some BcSending"
    and "rec_contact r = Some cid" and "get_contact (rec_workspace r) cid (wd_db wd) = Some c"
    and "\<forall>x \<in> set (recipients (wd_db wd)). rec_workspace x = rec_workspace r \<and> rec_broadcast x = rec_broadcast r \<and>
           rec_status x = RecPending \<longrightarrow> rec_id x = rid"
    and "0 \<le> jitter" and "jitter < 1"
    and "send_recipient_work env now jitter txt True rid (rec_broadcast r) wd = (out, wd')"
  shows "(\<exists>t > 0. out = JobSnooze t) \<or> statuses_of (wd_db wd') (rec_workspace r, rec_broadcast r) = Some BcSent"
proof -
  let ?ws = "rec_workspace r" and ?bid = "rec_broadcast r" and ?d = "wd_db wd"
  have id: "rec_id r = rid" using load_recipient_row [OF assms(2)] by simp
  have fin: "statuses_of (finalize_broadcast now ?bid d') (?ws, ?bid) = Some BcSent"
    if "settles ?ws rid ?d d'" "statuses_of d' = statuses_of ?d" "unique_broadcasts d'" for d'
    using finalize_broadcast_sent [OF that(3)] settles_none_pending [OF that(1) assms(7)] that(2) assms(4) by simp
  obtain e wd1 where s: "send_to_recipient env now jitter rid wd = (e, wd1)" by (cases "send_to_recipient env now jitter rid wd")
  have upd: "settles ?ws rid ?d (update_recipient ?ws rid (failed_recipient m) ?d)" for m
    by (rule settlesI) (simp_all add: failed_recipient_def)
  have st: "statuses_of (update_recipient ?ws rid f ?d) = statuses_of ?d" for f by (rule ext) (simp add: statuses_of_def)
  from assms(2,3) s show ?thesis
  proof (cases rule: recipient_outcome_cases)
    case no_email
    then have "settles ?ws rid ?d (wd_db wd1)" "statuses_of (wd_db wd1) = statuses_of ?d" "unique_broadcasts (wd_db wd1)"
      using upd st assms(1) by simp_all
    then show ?thesis using fin assms(10) s no_email by (auto simp: send_recipient_work_def)
  next
    case (sent b c' email res wd2)
    have t2: "other_tables (wd_db wd2) = other_tables ?d" by (rule send_tables [OF sent(4)])
    have rw: "recipients (wd_db wd2) = recipients ?d" "broadcasts (wd_db wd2) = broadcasts ?d"
      using other_tables_fields(3,4) [OF t2] by simp_all
    have s2: "statuses_of (wd_db wd2) = statuses_of ?d" "unique_broadcasts (wd_db wd2)"
      using assms(1) rw by (simp_all add: statuses_of_def get_broadcast_def unique_broadcasts_def)
    have l2: "load_recipient rid (wd_db wd2) = Some r" using assms(2) rw by (simp add: load_recipient_def)
    have same: "settles ws i (wd_db wd2) d' = settles ws i ?d d'" for ws i d' by (simp add: settles_def rw)
    show ?thesis
    proof (cases e)
      case None
      then obtain oc d' where "res = Inr oc" "recipient_outcome now jitter r (bc_id b) oc (wd_db wd2) = (None, d')"
        "wd1 = wd2\<lparr>wd_db := d'\<rparr>" using sent(5) by (auto split: sum.splits)
      with recipient_outcome_settles [OF this(2)] fin s2 None assms(10) s id show ?thesis
        by (auto simp: send_recipient_work_def same)
    next
      case (Some err)
      show ?thesis
      proof (cases "is_deferrable err")
        case True
        then show ?thesis using assms(10) s Some snooze_deferrable [OF True assms(8,9)] by (auto simp: send_recipient_work_def)
      next
        case False
        obtain er where "res = Inl er"
        proof (cases res)
          case (Inr oc)
          then obtain d' where "recipient_outcome now jitter r (bc_id b) oc (wd_db wd2) = (Some err, d')"
            using sent(5) Some by auto
          with recipient_outcome_row [OF l2 assms(3) this] False have False by (cases "res_outcome oc") auto
          then show thesis ..
        qed
        then have "wd1 = wd2" using sent(5) by simp
        with mark_recipient_settles [OF l2, of env now "txt err"] fin s2 False Some assms(10) s show ?thesis
          by (auto simp: send_recipient_work_def same)
      qed
    qed
  qed (use assms(4-6) in \<open>auto simp: statuses_of_apply\<close>)
qed

theorem last_attempt_settles_witness:
  "\<exists>out wd'. send_recipient_work sample_env 0 0 (\<lambda>_. '''') True 8 5 (sample_send_world BcSending [sample_pending]) = (out, wd') \<and>
     out = JobDone \<and> statuses_of (wd_db wd') (1, 5) = Some BcSent"
proof -
  let ?w = "sample_send_world BcSending [sample_pending]"
  obtain out wd' where w: "send_recipient_work sample_env 0 0 (\<lambda>_. '''') True 8 5 ?w = (out, wd')"
    by (cases "send_recipient_work sample_env 0 0 (\<lambda>_. '''') True 8 5 ?w")
  have o: "out = JobDone" using w sample_recipient_send by (auto simp: send_recipient_work_def)
  have "(\<exists>t > 0. out = JobSnooze t) \<or>
      statuses_of (wd_db wd') (rec_workspace sample_pending, rec_broadcast sample_pending) = Some BcSent"
    by (rule last_attempt_settles [OF sample_send_rows(12) sample_send_rows(1,2) _ sample_send_rows(5), where c = "sample_contact 7 1 ''bo@y.io''"])
       (use w in \<open>simp_all add: sample_send_rows sample_send_tables statuses_of_apply sample_broadcast_def\<close>)
  with o w show ?thesis by (auto simp: sample_send_rows)
qed


section \<open>The plan is the audience\<close>

lemma insert_frame [simp]:
  "contacts (insert_recipient ws bid cid d) = contacts d" "broadcasts (insert_recipient ws bid cid d) = broadcasts d"
  "messages (insert_recipient ws bid cid d) = messages d" "workspaces (insert_recipient ws bid cid d) = workspaces d"
  "suppressions (insert_recipient ws bid cid d) = suppressions d" "unsubscribes (insert_recipient ws bid cid d) = unsubscribes d"
  "confirmations (insert_recipient ws bid cid d) = confirmations d" "integrations (insert_recipient ws bid cid d) = integrations d"
  "sending_domains (insert_recipient ws bid cid d) = sending_domains d" "segments (insert_recipient ws bid cid d) = segments d"
  "events (insert_recipient ws bid cid d) = events d" "tags (insert_recipient ws bid cid d) = tags d"
  "contact_tags (insert_recipient ws bid cid d) = contact_tags d"
  by (simp_all add: insert_recipient_def)

lemma fold_insert_frame [simp]:
  "contacts (fold (insert_recipient ws bid) cs d) = contacts d" "broadcasts (fold (insert_recipient ws bid) cs d) = broadcasts d"
  "messages (fold (insert_recipient ws bid) cs d) = messages d" "workspaces (fold (insert_recipient ws bid) cs d) = workspaces d"
  "suppressions (fold (insert_recipient ws bid) cs d) = suppressions d"
  "unsubscribes (fold (insert_recipient ws bid) cs d) = unsubscribes d"
  "confirmations (fold (insert_recipient ws bid) cs d) = confirmations d"
  "integrations (fold (insert_recipient ws bid) cs d) = integrations d"
  "sending_domains (fold (insert_recipient ws bid) cs d) = sending_domains d"
  "segments (fold (insert_recipient ws bid) cs d) = segments d" "events (fold (insert_recipient ws bid) cs d) = events d"
  "tags (fold (insert_recipient ws bid) cs d) = tags d" "contact_tags (fold (insert_recipient ws bid) cs d) = contact_tags d"
  by (induction cs arbitrary: d) simp_all

definition planned :: "id \<Rightarrow> id \<Rightarrow> db \<Rightarrow> bool" where
  "planned bid cid d = exists_where (\<lambda>r. rec_broadcast r = bid \<and> rec_contact r = Some cid) (recipients d)"

lemma planned_iff: "planned bid cid d \<longleftrightarrow> (\<exists>r \<in> set (recipients d). rec_broadcast r = bid \<and> rec_contact r = Some cid)"
  by (simp add: planned_def table_simps)

lemma insert_planned: "planned bid cid d \<Longrightarrow> insert_recipient ws bid cid d = d"
  by (simp add: insert_recipient_def planned_def)

lemma planned_insert: "planned bid c (insert_recipient ws bid cid d) \<longleftrightarrow> planned bid c d \<or> c = cid"
  by (auto simp: planned_iff insert_recipient_def table_simps pending_recipient_def)

lemma planned_fold: "planned bid c (fold (insert_recipient ws bid) cs d) \<longleftrightarrow> planned bid c d \<or> c \<in> set cs"
  by (induction cs arbitrary: d) (auto simp: planned_insert)

lemma fold_planned: "\<forall>c \<in> set cs. planned bid c d \<Longrightarrow> fold (insert_recipient ws bid) cs d = d"
  by (induction cs) (simp_all add: insert_planned)

text \<open>Ids are unique and fresh, and a Contact is at most once among the recipients of a Broadcast.\<close>

definition wf_recipients :: "db \<Rightarrow> bool" where
  "wf_recipients d \<longleftrightarrow> distinct (map rec_id (recipients d)) \<and> (\<forall>r \<in> set (recipients d). rec_id r < next_id d) \<and>
     distinct (map (\<lambda>r. (rec_broadcast r, rec_contact r)) (filter (\<lambda>r. rec_contact r \<noteq> None) (recipients d)))"

lemma wf_insert: "wf_recipients d \<Longrightarrow> wf_recipients (insert_recipient ws bid cid d)"
  by (cases "planned bid cid d")
     (auto simp: insert_planned, auto simp: wf_recipients_def insert_recipient_def planned_iff pending_recipient_def table_simps)

lemma wf_fold_insert: "wf_recipients d \<Longrightarrow> wf_recipients (fold (insert_recipient ws bid) cs d)"
  by (induction cs arbitrary: d) (simp_all add: wf_insert)

definition fresh_plan :: "id \<Rightarrow> id \<Rightarrow> id list \<Rightarrow> db \<Rightarrow> recipient \<Rightarrow> bool" where
  "fresh_plan ws bid cs d r \<longleftrightarrow>
     (\<exists>cid i. cid \<in> set cs \<and> \<not> planned bid cid d \<and> r = pending_recipient i ws bid cid)"

lemma fresh_planE:
  assumes "fresh_plan ws bid cs d r"
  obtains cid i where "cid \<in> set cs" "\<not> planned bid cid d" "r = pending_recipient i ws bid cid"
  using assms by (auto simp: fresh_plan_def)

lemma fresh_plan_Cons: "fresh_plan ws bid cs d r \<Longrightarrow> fresh_plan ws bid (c # cs) d r"
  unfolding fresh_plan_def by (metis list.set_intros(2))

lemma fold_insert_rows:
  "\<exists>new. recipients (fold (insert_recipient ws bid) cs d) = recipients d @ new \<and> (\<forall>r \<in> set new. fresh_plan ws bid cs d r)"
proof (induction cs arbitrary: d)
  case (Cons c cs)
  show ?case
  proof (cases "planned bid c d")
    case True
    obtain new where "recipients (fold (insert_recipient ws bid) cs d) = recipients d @ new"
      "\<forall>r \<in> set new. fresh_plan ws bid cs d r" using Cons.IH by blast
    with True show ?thesis by (intro exI [of _ new]) (auto simp: insert_planned intro: fresh_plan_Cons)
  next
    case False
    let ?d = "insert_recipient ws bid c d" and ?r = "pending_recipient (next_id d) ws bid c"
    obtain new where new: "recipients (fold (insert_recipient ws bid) cs ?d) = recipients ?d @ new"
      "\<forall>r \<in> set new. fresh_plan ws bid cs ?d r" using Cons.IH by blast
    have "recipients ?d = recipients d @ [?r]" using False by (simp add: insert_recipient_def planned_def)
    moreover have "fresh_plan ws bid (c # cs) d ?r" using False by (simp add: fresh_plan_def) (simp add: pending_recipient_def)
    moreover have "fresh_plan ws bid (c # cs) d r" if "r \<in> set new" for r
      using bspec [OF new(2) that] by (rule fresh_planE) (auto simp: fresh_plan_def planned_insert)
    ultimately show ?thesis using new(1) by (intro exI [of _ "?r # new"]) simp
  qed
qed simp

lemma eval_cond_frame:
  assumes "events d' = events d" and "tags d' = tags d" and "contact_tags d' = contact_tags d"
  shows "eval_cond sj d' c x = eval_cond sj d c x"
proof -
  have "has_tag w cid name d' = has_tag w cid name d" for w cid name using assms by (simp add: has_tag_def)
  then show ?thesis by (induction x) (simp_all add: assms cong: map_cong)
qed

lemma audience_frame:
  assumes "contacts d' = contacts d" and "events d' = events d" and "tags d' = tags d" and "contact_tags d' = contact_tags d"
    and "suppressions d' = suppressions d" and "unsubscribes d' = unsubscribes d" and "confirmations d' = confirmations d"
    and "workspaces d' = workspaces d"
  shows "audience_ids sj ws x d' = audience_ids sj ws x d" and "in_audience sj ws x d' = in_audience sj ws x d"
proof -
  have "layers d' ch r source = layers d ch r source" for ch r source
    using assms by (simp add: layers_def is_suppressed_def is_unsubscribed_def is_confirmed_def require_confirmed_def load_workspace_def)
  then show i: "in_audience sj ws x d' = in_audience sj ws x d"
    by (simp add: fun_eq_iff in_audience_def in_ws_def eligible_contact_def selects_def eval_cond_frame [OF assms(2-4)])
  show "audience_ids sj ws x d' = audience_ids sj ws x d" by (simp add: audience_ids_def i assms(1))
qed

lemma audience_cond_frame:
  assumes "segments d' = segments d"
  shows "audience_cond now b d' = audience_cond now b d"
proof -
  have "get_segment ws i d' = get_segment ws i d" for ws i using assms by (simp add: get_segment_def)
  then show ?thesis unfolding audience_cond_def by presburger
qed


definition opened :: "id \<Rightarrow> id \<Rightarrow> db \<Rightarrow> db" where
  "opened ws bid d = set_broadcast ws bid (\<lambda>_. True) (set_status BcSending) (set_broadcast_hold ws bid '''' d)"

lemma plan_broadcast_cases:
  assumes "plan_broadcast env renders sj now bid d = (Inr ids, d')" and "load_broadcast bid d = Some b"
  obtains x where "audience_cond now b d = Inr x" and "renders (bc_subject b) (bc_body b)"
    and "preflight env (bc_workspace b) (case bc_from_email b of None \<Rightarrow> '''' | Some f \<Rightarrow> f) d = Inr ''''"
    and "plan_audience sj now (bc_workspace b) bid x (opened (bc_workspace b) bid d) = (ids, d')"
proof -
  have seg: "segments (opened (bc_workspace b) bid d) = segments d" by (simp add: opened_def set_broadcast_hold_def)
  show thesis
    using assms that audience_cond_frame [OF seg, of now b]
    by (auto simp: plan_broadcast_def opened_def Let_def split: sum.splits if_splits prod.splits)
qed

lemma opened_tables [simp]:
  "contacts (opened ws bid d) = contacts d" "recipients (opened ws bid d) = recipients d" "events (opened ws bid d) = events d"
  "tags (opened ws bid d) = tags d" "contact_tags (opened ws bid d) = contact_tags d"
  "suppressions (opened ws bid d) = suppressions d" "unsubscribes (opened ws bid d) = unsubscribes d"
  "confirmations (opened ws bid d) = confirmations d" "workspaces (opened ws bid d) = workspaces d"
  "segments (opened ws bid d) = segments d" "integrations (opened ws bid d) = integrations d"
  "sending_domains (opened ws bid d) = sending_domains d" "next_id (opened ws bid d) = next_id d"
  by (simp_all add: opened_def set_broadcast_hold_def)

lemma opened_audience: "audience_ids sj ws' x (opened ws bid d) = audience_ids sj ws' x d"
  by (rule audience_frame) simp_all

lemma opened_wf:
  "wf_recipients (opened ws bid d) \<longleftrightarrow> wf_recipients d" "planned bid' c (opened ws bid d) \<longleftrightarrow> planned bid' c d"
  "unique_broadcasts (opened ws bid d) \<longleftrightarrow> unique_broadcasts d"
  by (simp_all add: wf_recipients_def planned_def) (simp add: opened_def unique_set_broadcast hold_keeps)

lemma get_opened:
  "get_broadcast ws bid d = Some b \<Longrightarrow> get_broadcast ws bid (opened ws bid d) = Some (b\<lparr>bc_hold_reason := None, bc_status := BcSending\<rparr>)"
  by (simp add: opened_def set_broadcast_hold_def get_set_broadcast set_status_def)

lemma finalize_broadcast_frame [simp]:
  "recipients (finalize_broadcast now bid d) = recipients d" "next_id (finalize_broadcast now bid d) = next_id d"
  "contacts (finalize_broadcast now bid d) = contacts d" "recipient_ids ws bid' (finalize_broadcast now bid d) = recipient_ids ws bid' d"
  by (simp_all add: finalize_broadcast_def recipient_ids_def split: option.split)

definition same_content :: "broadcast \<Rightarrow> broadcast \<Rightarrow> bool" where
  "same_content b b' \<longleftrightarrow> bc_workspace b' = bc_workspace b \<and> bc_subject b' = bc_subject b \<and> bc_body b' = bc_body b \<and>
     bc_from_email b' = bc_from_email b \<and> bc_segment b' = bc_segment b \<and> bc_scheduled_at b' = bc_scheduled_at b"

lemma plan_audience_result:
  assumes "plan_audience sj now ws bid x d0 = (ids, d')" and "unique_broadcasts d0" and "get_broadcast ws bid d0 = Some b0"
    and "bc_status b0 = BcSending"
  shows "recipients d' = recipients (fold (insert_recipient ws bid) (audience_ids sj ws x d0) d0)"
    and "next_id d' = next_id (fold (insert_recipient ws bid) (audience_ids sj ws x d0) d0)"
    and "ids = recipient_ids ws bid d'"
    and "\<exists>b'. get_broadcast ws bid d' = Some b' \<and> bc_recipients_total b' = int (length ids) \<and>
       bc_status b' = (if ids = [] then BcSent else BcSending) \<and> same_content b0 b'"
proof -
  let ?d1 = "fold (insert_recipient ws bid) (audience_ids sj ws x d0) d0"
  let ?d2 = "set_broadcast ws bid (\<lambda>_. True) (\<lambda>b. b\<lparr>bc_recipients_total := int (length ids)\<rparr>) ?d1"
  have ids: "ids = recipient_ids ws bid ?d1" and d': "d' = (if ids = [] then finalize_broadcast now bid ?d2 else ?d2)"
    using assms(1) by (auto simp: plan_audience_def Let_def)
  show "recipients d' = recipients ?d1" "next_id d' = next_id ?d1" by (simp_all add: d')
  then show "ids = recipient_ids ws bid d'" by (simp add: ids recipient_ids_def)
  have g: "get_broadcast ws bid ?d1 = Some b0" using assms(3) by (simp add: get_broadcast_def)
  have g2: "get_broadcast ws bid ?d2 = Some (b0\<lparr>bc_recipients_total := int (length ids)\<rparr>)" using g by (simp add: get_set_broadcast)
  show "\<exists>b'. get_broadcast ws bid d' = Some b' \<and> bc_recipients_total b' = int (length ids) \<and>
       bc_status b' = (if ids = [] then BcSent else BcSending) \<and> same_content b0 b'"
  proof (cases "ids = []")
    case False
    then show ?thesis using g2 assms(4) by (simp add: d' same_content_def)
  next
    case True
    have w: "bc_workspace b0 = ws" using get_broadcast_row [OF assms(3)] by simp
    have "unique_broadcasts ?d2" using assms(2) by (simp add: unique_set_broadcast) (simp add: unique_broadcasts_def)
    then have l: "load_broadcast bid ?d2 = Some (b0\<lparr>bc_recipients_total := int (length ids)\<rparr>)"
      using load_get g2 w by simp
    have "\<not> in_ws rec_workspace ws (\<lambda>r. rec_broadcast r = bid) r" if "r \<in> set (recipients ?d1)" for r
      using True that unfolding ids recipient_ids_def by (auto simp: filter_empty_conv)
    then have p: "recipients_in ws bid RecPending ?d2 = 0"
      by (auto simp: recipients_in_def recipient_of_def in_ws_def table_simps)
    show ?thesis using True l g2 p assms(4) w
      by (simp add: d' finalize_broadcast_def finalize_get settled_broadcast_def same_content_def)
  qed
qed

lemma pending_fields:
  "r = pending_recipient i ws bid cid \<Longrightarrow>
     rec_status r = RecPending \<and> rec_broadcast r = bid \<and> rec_workspace r = ws \<and> rec_contact r = Some cid \<and> rec_id r = i"
  by (simp add: pending_recipient_def)

text \<open>C26: planning turns exactly the audience into recipients. A plan that succeeds keeps every row there
  was, adds a pending row for each Contact of the Workspace that has an address, is eligible for
  Broadcasts and matches the segment, and only for those without a row; no Contact is ever twice
  among the recipients. It returns the ids of all rows, records their number, and the Broadcast is
  sending, or sent at once when there is nobody.\<close>

theorem plan_is_audience:
  assumes "unique_broadcasts d" and "wf_recipients d" and "load_broadcast bid d = Some b"
    and "\<forall>r \<in> set (recipients d). rec_broadcast r = bid \<longrightarrow> rec_workspace r = bc_workspace b"
    and "plan_broadcast env renders sj now bid d = (Inr ids, d')"
  shows "\<exists>x new. audience_cond now b d = Inr x \<and> recipients d' = recipients d @ new \<and> wf_recipients d' \<and>
     (\<forall>r \<in> set new. rec_status r = RecPending \<and> rec_broadcast r = bid \<and>
        (\<exists>c \<in> set (contacts d). in_audience sj (bc_workspace b) x d c \<and> rec_contact r = Some (con_id c) \<and> \<not> planned bid (con_id c) d)) \<and>
     (\<forall>c \<in> set (contacts d). in_audience sj (bc_workspace b) x d c \<longrightarrow>
        (\<exists>r \<in> set (recipients d'). rec_broadcast r = bid \<and> rec_contact r = Some (con_id c) \<and> rec_id r \<in> set ids)) \<and>
     distinct ids \<and> (\<exists>b'. get_broadcast (bc_workspace b) bid d' = Some b' \<and> bc_recipients_total b' = int (length ids) \<and>
       bc_status b' = (if ids = [] then BcSent else BcSending))"
proof -
  let ?ws = "bc_workspace b" and ?d0 = "opened (bc_workspace b) bid d"
  obtain x where x: "audience_cond now b d = Inr x" "plan_audience sj now ?ws bid x ?d0 = (ids, d')"
    using plan_broadcast_cases [OF assms(5,3)] by blast
  let ?cs = "audience_ids sj ?ws x d"
  have g: "get_broadcast ?ws bid d = Some b" using load_get [OF assms(1)] assms(3) by simp
  have u0: "unique_broadcasts ?d0" using assms(1) by (simp add: opened_wf)
  have res: "recipients d' = recipients (fold (insert_recipient ?ws bid) ?cs ?d0)"
    "next_id d' = next_id (fold (insert_recipient ?ws bid) ?cs ?d0)" "ids = recipient_ids ?ws bid d'"
    "\<exists>b'. get_broadcast ?ws bid d' = Some b' \<and> bc_recipients_total b' = int (length ids) \<and>
       bc_status b' = (if ids = [] then BcSent else BcSending)"
    using plan_audience_result [OF x(2) u0 get_opened [OF g]] by (auto simp: opened_audience)
  obtain new where new: "recipients d' = recipients d @ new" "\<forall>r \<in> set new. fresh_plan ?ws bid ?cs ?d0 r"
    using fold_insert_rows [of ?ws bid ?cs ?d0] res(1) by auto
  have "wf_recipients (fold (insert_recipient ?ws bid) ?cs ?d0)" using assms(2) by (simp add: wf_fold_insert opened_wf)
  then have wf: "wf_recipients d'" by (simp add: wf_recipients_def res(1,2))
  have fresh: "rec_status r = RecPending \<and> rec_broadcast r = bid \<and> rec_workspace r = ?ws \<and>
      (\<exists>c \<in> set (contacts d). in_audience sj ?ws x d c \<and> rec_contact r = Some (con_id c) \<and> \<not> planned bid (con_id c) d)"
    if rn: "r \<in> set new" for r
  proof -
    obtain cid i where cid: "cid \<in> set ?cs" "\<not> planned bid cid d" "r = pending_recipient i ?ws bid cid"
      using bspec [OF new(2) rn] by (rule fresh_planE) (simp add: opened_wf)
    obtain c where c: "c \<in> set (contacts d)" "in_audience sj ?ws x d c" "cid = con_id c"
      using cid(1) by (auto simp: audience_ids_def)
    have f: "rec_status r = RecPending" "rec_broadcast r = bid" "rec_workspace r = ?ws" "rec_contact r = Some (con_id c)"
      using pending_fields [OF cid(3)] c(3) by simp_all
    show ?thesis using f c cid(2) by blast
  qed
  have inids: "rec_id r \<in> set ids" if "r \<in> set (recipients d')" "rec_broadcast r = bid" for r
  proof -
    have "rec_workspace r = ?ws" using that assms(4) fresh new(1) by auto
    with that show ?thesis by (auto simp: res(3) recipient_ids_def in_ws_def)
  qed
  have all: "\<exists>r \<in> set (recipients d'). rec_broadcast r = bid \<and> rec_contact r = Some (con_id c) \<and> rec_id r \<in> set ids"
    if "c \<in> set (contacts d)" "in_audience sj ?ws x d c" for c
  proof -
    have "con_id c \<in> set ?cs" using that by (auto simp: audience_ids_def)
    then have "planned bid (con_id c) (fold (insert_recipient ?ws bid) ?cs ?d0)" by (simp add: planned_fold)
    then have "planned bid (con_id c) d'" by (simp add: planned_def res(1))
    with inids show ?thesis by (auto simp: planned_iff)
  qed
  have "distinct ids" using wf by (simp add: res(3) recipient_ids_def wf_recipients_def distinct_map_filter)
  then show ?thesis using x(1) new(1) wf fresh all res(4) by blast
qed


lemma preflight_frame:
  assumes "workspaces d' = workspaces d" and "integrations d' = integrations d" and "sending_domains d' = sending_domains d"
  shows "preflight env ws from d' = preflight env ws from d"
  by (simp add: preflight_def load_workspace_def assms(1) gate_tables [OF assms(2,3)] split: option.split)

lemma sample_preflight: "preflight sample_env 1 '''' (wd_db (sample_send_world st rs)) = Inr ''''"
proof -
  have "preflight sample_env 1 '''' (wd_db (sample_send_world st rs)) = preflight sample_env 1 '''' sample_db"
    by (rule preflight_frame) (simp_all add: sample_send_tables)
  then show ?thesis by (simp add: preflight_def sample_lookup sample_gate)
qed

lemma sample_in_audience: "in_audience sj 1 CTrue (wd_db (sample_send_world st rs)) (sample_contact 7 1 ''bo@y.io'')"
proof -
  let ?d = "wd_db (sample_send_world st rs)"
  have "load_workspace 1 ?d = Some (sample_workspace 1)" using sample_lookup(1) by (simp add: load_workspace_def sample_send_tables)
  then have "require_confirmed ?d (contact_ref (sample_contact 7 1 ''bo@y.io'')) = False"
    by (simp add: require_confirmed_def contact_ref_def sample_contact_def sample_workspace_def)
  then show ?thesis
    by (simp add: in_audience_def in_ws_def selects_def eligible_contact_def layers_def is_suppressed_def is_unsubscribed_def
        match_store_def exists_where_def sample_send_tables none_blocks_def) (simp add: sample_contact_def)
qed

lemma sample_plan:
  "\<exists>d'. plan_broadcast sample_env (\<lambda>_ _. True) sj 0 5 (wd_db (sample_send_world st [])) = (Inr [10], d')"
proof -
  let ?d = "wd_db (sample_send_world st [])"
  have a: "audience_cond 0 (sample_broadcast 5 st) d0 = Inr CTrue" for d0 by (simp add: audience_cond_def sample_broadcast_def)
  have au: "audience_ids sj 1 CTrue (opened 1 5 ?d) = [7]"
    unfolding opened_audience using sample_in_audience [of sj st "[]"]
    by (simp add: audience_ids_def sample_send_tables) (simp add: sample_contact_def)
  have "plan_audience sj 0 1 5 CTrue (opened 1 5 ?d) =
      ([10], set_broadcast 1 5 (\<lambda>_. True) (\<lambda>b. b\<lparr>bc_recipients_total := 1\<rparr>) (insert_recipient 1 5 7 (opened 1 5 ?d)))"
    by (simp add: plan_audience_def au Let_def recipient_ids_def)
       (simp add: insert_recipient_def exists_where_def sample_send_tables pending_recipient_def in_ws_def)
  then show ?thesis
    using sample_preflight [of st "[]"] a
    by (simp add: plan_broadcast_def sample_send_rows Let_def opened_def) (simp add: sample_broadcast_def sample_preflight)
qed

lemma sample_plan_wf: "wf_recipients (wd_db (sample_send_world st []))"
  by (simp add: wf_recipients_def sample_send_tables)

theorem plan_is_audience_witness:
  "\<exists>d' r. plan_broadcast sample_env (\<lambda>_ _. True) (\<lambda>_ _ _. None) 0 5 (wd_db (sample_send_world BcScheduled [])) = (Inr [10], d') \<and>
     r \<in> set (recipients d') \<and> rec_contact r = Some 7 \<and> rec_id r = 10"
proof -
  let ?d = "wd_db (sample_send_world BcScheduled [])" and ?sj = "(\<lambda>_ _ _. None) :: sql_json"
  obtain d' where p: "plan_broadcast sample_env (\<lambda>_ _. True) ?sj 0 5 ?d = (Inr [10], d')" using sample_plan by blast
  have cid: "con_id (sample_contact 7 1 ''bo@y.io'') = 7" by (simp add: sample_contact_def)
  have "audience_cond 0 (sample_broadcast 5 BcScheduled) ?d = Inr CTrue" by (simp add: audience_cond_def sample_broadcast_def)
  with plan_is_audience [OF sample_send_rows(12) sample_plan_wf sample_send_rows(8) _ p] sample_in_audience [of ?sj BcScheduled "[]"]
  have "\<exists>r \<in> set (recipients d'). rec_broadcast r = 5 \<and> rec_contact r = Some 7 \<and> rec_id r \<in> set [10]"
    by (auto simp: sample_send_tables sample_send_rows cid)
  with p show ?thesis by auto
qed

text \<open>Planning converges. A plan job that runs again on what a plan left (a retry, a rescued job)
  finds the same gates open, adds no recipient and returns the same ids.\<close>

theorem replan_converges:
  assumes "unique_broadcasts d" and "wf_recipients d" and "load_broadcast bid d = Some b"
    and "plan_broadcast env renders sj now bid d = (Inr ids, d')"
    and "plan_broadcast env renders sj now bid d' = (r, d'')"
  shows "r = Inr ids \<and> recipients d'' = recipients d' \<and>
     (\<exists>b''. get_broadcast (bc_workspace b) bid d'' = Some b'' \<and> bc_recipients_total b'' = int (length ids))"
proof -
  let ?ws = "bc_workspace b" and ?d0 = "opened (bc_workspace b) bid d"
  obtain x where x: "audience_cond now b d = Inr x" "renders (bc_subject b) (bc_body b)"
    "preflight env ?ws (case bc_from_email b of None \<Rightarrow> '''' | Some f \<Rightarrow> f) d = Inr ''''"
    "plan_audience sj now ?ws bid x ?d0 = (ids, d')"
    using plan_broadcast_cases [OF assms(4,3)] by blast
  have g: "get_broadcast ?ws bid d = Some b" using load_get [OF assms(1)] assms(3) by simp
  have u0: "unique_broadcasts ?d0" using assms(1) by (simp add: opened_wf)
  let ?cs = "audience_ids sj ?ws x ?d0"
  note res = plan_audience_result [OF x(4) u0 get_opened [OF g], simplified]
  obtain b' where b': "get_broadcast ?ws bid d' = Some b'" "same_content b b'"
    using res(4) by (auto simp: same_content_def)
  let ?d1 = "fold (insert_recipient ?ws bid) ?cs ?d0"
  let ?d2 = "set_broadcast ?ws bid (\<lambda>_. True) (\<lambda>b. b\<lparr>bc_recipients_total := int (length ids)\<rparr>) ?d1"
  have d': "d' = ?d2 \<or> d' = finalize_broadcast now bid ?d2" using x(4) by (auto simp: plan_audience_def Let_def split: if_splits)
  have fin: "contacts (finalize_broadcast now bid dd) = contacts dd \<and> events (finalize_broadcast now bid dd) = events dd \<and>
      tags (finalize_broadcast now bid dd) = tags dd \<and> contact_tags (finalize_broadcast now bid dd) = contact_tags dd \<and>
      suppressions (finalize_broadcast now bid dd) = suppressions dd \<and> unsubscribes (finalize_broadcast now bid dd) = unsubscribes dd \<and>
      confirmations (finalize_broadcast now bid dd) = confirmations dd \<and> workspaces (finalize_broadcast now bid dd) = workspaces dd \<and>
      integrations (finalize_broadcast now bid dd) = integrations dd \<and> sending_domains (finalize_broadcast now bid dd) = sending_domains dd \<and>
      segments (finalize_broadcast now bid dd) = segments dd \<and> (unique_broadcasts (finalize_broadcast now bid dd) \<longleftrightarrow> unique_broadcasts dd)" for dd
    by (simp add: finalize_broadcast_def finalize_def unique_set_broadcast keeps_row_def split: option.split)
  have u1: "unique_broadcasts ?d2" using u0 by (simp add: unique_set_broadcast) (simp add: unique_broadcasts_def)
  have same: "contacts d' = contacts d" "events d' = events d" "tags d' = tags d" "contact_tags d' = contact_tags d"
    "suppressions d' = suppressions d" "unsubscribes d' = unsubscribes d" "confirmations d' = confirmations d"
    "workspaces d' = workspaces d" "integrations d' = integrations d" "sending_domains d' = sending_domains d"
    "segments d' = segments d" and u': "unique_broadcasts d'"
    using d' fin [of ?d2] u1 by auto
  have l': "load_broadcast bid d' = Some b'" using load_get [OF u'] b' by (simp add: same_content_def)
  have ws': "bc_workspace b' = ?ws" "bc_subject b' = bc_subject b" "bc_body b' = bc_body b" "bc_from_email b' = bc_from_email b"
    "bc_segment b' = bc_segment b" using b'(2) by (simp_all add: same_content_def)
  have pf: "preflight env ?ws (case bc_from_email b of None \<Rightarrow> '''' | Some f \<Rightarrow> f) d' = Inr ''''"
    using preflight_frame [of d' d env] same x(3) by simp
  have ac: "audience_cond now b' (opened ?ws bid d') = Inr x"
  proof -
    have "audience_cond now b' (opened ?ws bid d') = audience_cond now b (opened ?ws bid d')" by (simp only: audience_cond_def ws')
    then show ?thesis using audience_cond_frame [of "opened ?ws bid d'" d now b] same(11) x(1) by simp
  qed
  obtain ids2 d3 where p2: "plan_audience sj now ?ws bid x (opened ?ws bid d') = (ids2, d3)"
    by (cases "plan_audience sj now ?ws bid x (opened ?ws bid d')")
  have r: "r = Inr ids2" "d'' = d3"
    using assms(5) l' pf ac p2 x(2) by (auto simp: plan_broadcast_def Let_def ws' opened_def)
  have au: "audience_ids sj ?ws x (opened ?ws bid d') = ?cs"
    using audience_frame(1) [of d' d] same by (simp add: opened_audience)
  have "planned bid c (opened ?ws bid d')" if "c \<in> set ?cs" for c
  proof -
    have "planned bid c ?d1" using that by (simp add: planned_fold)
    then show ?thesis using res(1) by (simp add: opened_wf planned_def)
  qed
  then have f2: "fold (insert_recipient ?ws bid) ?cs (opened ?ws bid d') = opened ?ws bid d'" by (simp add: fold_planned)
  have u2: "unique_broadcasts (opened ?ws bid d')" using u' by (simp add: opened_wf)
  note res2 = plan_audience_result [OF p2 u2 get_opened [OF b'(1)], simplified, unfolded au f2]
  have rec2: "recipients d'' = recipients d'" using res2(1) by (simp add: r)
  then have "ids2 = ids" using res(3) res2(3) by (simp add: r recipient_ids_def)
  then show ?thesis using r rec2 res2(4) by auto
qed

theorem replan_converges_witness:
  "\<exists>d' d''. plan_broadcast sample_env (\<lambda>_ _. True) (\<lambda>_ _ _. None) 0 5 (wd_db (sample_send_world BcScheduled [])) = (Inr [10], d') \<and>
     plan_broadcast sample_env (\<lambda>_ _. True) (\<lambda>_ _ _. None) 0 5 d' = (Inr [10], d'') \<and> recipients d'' = recipients d'"
proof -
  let ?d = "wd_db (sample_send_world BcScheduled [])" and ?sj = "(\<lambda>_ _ _. None) :: sql_json"
  obtain d' where p: "plan_broadcast sample_env (\<lambda>_ _. True) ?sj 0 5 ?d = (Inr [10], d')" using sample_plan by blast
  obtain r d'' where p2: "plan_broadcast sample_env (\<lambda>_ _. True) ?sj 0 5 d' = (r, d'')"
    by (cases "plan_broadcast sample_env (\<lambda>_ _. True) ?sj 0 5 d'")
  from replan_converges [OF sample_send_rows(12) sample_plan_wf sample_send_rows(8) p p2] p p2 show ?thesis by auto
qed


section \<open>Which queued job may run\<close>

lemma due_of_get:
  assumes "unique_broadcasts d" and "get_broadcast ws bid d = Some b"
  shows "broadcast_due bid due d =
    Inr (bc_status b \<noteq> BcDraft \<and> (case due of None \<Rightarrow> True | Some t \<Rightarrow> bc_scheduled_at b = Some (truncate_micro t)))"
proof -
  have "bc_workspace b = ws" using get_broadcast_row [OF assms(2)] by simp
  then have "load_broadcast bid d = Some b" using load_get [OF assms(1)] assms(2) by simp
  then show ?thesis by (simp add: broadcast_due_def split: option.split)
qed

lemma claimed_get:
  assumes "unique_broadcasts d" and "keeps_row f" and "\<And>b. bc_id (f b) = bc_id b"
    and "enqueue_claimed (river_enqueue True) ws due (case claim_broadcast ws bid f d of (r, d1) \<Rightarrow> (r, d1, jobs)) = (Inr b, d', jobs')"
  shows "\<exists>b0. get_broadcast ws bid d' = Some (f b0) \<and> unique_broadcasts d'"
proof -
  obtain b0 where b0: "get_broadcast ws bid d = Some b0" "sendable b0"
    using assms(4) by (auto simp: claim_broadcast_eq [OF assms(1,2)] enqueue_claimed_def split: option.splits if_splits)
  then have "d' = set_broadcast ws bid sendable f d"
    using assms(4) by (auto simp: claim_broadcast_eq [OF assms(1,2)] enqueue_claimed_def river_enqueue_def)
  then show ?thesis using b0 assms(1) by (auto simp: get_set_broadcast [OF assms(2)] unique_set_broadcast [OF assms(2)])
qed

text \<open>A job left in the queue by an earlier schedule does not fire early. After a Schedule for t a
  delayed job runs only if it was enqueued for t (to the microsecond Postgres keeps), after a Send no
  delayed job runs and the immediate one does, and after an Unschedule none does.\<close>

theorem superseded_jobs_dropped:
  assumes "unique_broadcasts d"
  shows "(broadcast_schedule (river_enqueue True) ws bid t (d, jobs) = (Inr b, d', jobs') \<longrightarrow>
      broadcast_due bid (Some t0) d' = Inr (truncate_micro t0 = truncate_micro t)) \<and>
    (broadcast_send (river_enqueue True) ws bid (d, jobs) = (Inr b, d', jobs') \<longrightarrow>
      broadcast_due bid (Some t0) d' = Inr False \<and> broadcast_due bid None d' = Inr True) \<and>
    (broadcast_unschedule ws bid d = (Inr b, d') \<longrightarrow> broadcast_due bid due d' = Inr False)"
proof (intro conjI impI)
  assume "broadcast_schedule (river_enqueue True) ws bid t (d, jobs) = (Inr b, d', jobs')"
  then have "enqueue_claimed (river_enqueue True) ws (Some t) (case claim_broadcast ws bid (scheduled_for t) d of (r, d1) \<Rightarrow> (r, d1, jobs)) = (Inr b, d', jobs')"
    by (simp add: broadcast_schedule_def split: prod.splits)
  from claimed_get [OF assms _ _ this] obtain b0 where "get_broadcast ws bid d' = Some (scheduled_for t b0)" "unique_broadcasts d'"
    by (auto simp: scheduled_for_def)
  from due_of_get [OF this(2,1)] show "broadcast_due bid (Some t0) d' = Inr (truncate_micro t0 = truncate_micro t)"
    by (auto simp: scheduled_for_def)
next
  assume "broadcast_send (river_enqueue True) ws bid (d, jobs) = (Inr b, d', jobs')"
  then have "enqueue_claimed (river_enqueue True) ws None (case claim_broadcast ws bid send_now d of (r, d1) \<Rightarrow> (r, d1, jobs)) = (Inr b, d', jobs')"
    by (simp add: broadcast_send_def split: prod.splits)
  from claimed_get [OF assms _ _ this] obtain b0 where "get_broadcast ws bid d' = Some (send_now b0)" "unique_broadcasts d'"
    by (auto simp: send_now_def)
  from due_of_get [OF this(2,1)] show "broadcast_due bid (Some t0) d' = Inr False" "broadcast_due bid None d' = Inr True"
    by (simp_all add: send_now_def)
next
  assume u: "broadcast_unschedule ws bid d = (Inr b, d')"
  then obtain b0 where "get_broadcast ws bid d = Some b0" "bc_status b0 = BcScheduled"
    "d' = set_broadcast ws bid (\<lambda>b. bc_status b = BcScheduled) unscheduled d"
    by (auto simp: broadcast_unschedule_eq [OF assms] split: option.splits if_splits)
  then have "get_broadcast ws bid d' = Some (unscheduled b0)" "unique_broadcasts d'"
    using assms by (simp_all add: get_set_broadcast unique_set_broadcast)
  from due_of_get [OF this(2,1)] show "broadcast_due bid due d' = Inr False" by (simp add: unscheduled_def)
qed

theorem superseded_jobs_dropped_witness:
  "\<exists>b d' jobs'. broadcast_schedule (river_enqueue True) 1 5 3000 (sample_broadcast_db BcDraft, []) = (Inr b, d', jobs') \<and>
     broadcast_due 5 (Some 1000) d' = Inr False \<and> broadcast_due 5 (Some 3500) d' = Inr True"
proof -
  have "sendable (sample_broadcast 5 BcDraft)" by (simp add: sendable_def sample_broadcast_def)
  then obtain b d' jobs' where s: "broadcast_schedule (river_enqueue True) 1 5 3000 (sample_broadcast_db BcDraft, []) = (Inr b, d', jobs')"
    by (simp add: broadcast_schedule_def claim_broadcast_eq sample_broadcast_lookup enqueue_claimed_def river_enqueue_def)
  have t: "truncate_micro 1000 \<noteq> truncate_micro 3000" "truncate_micro 3500 = truncate_micro 3000" by (simp_all add: truncate_micro_def)
  note drop = superseded_jobs_dropped [of "sample_broadcast_db BcDraft" 1 5 3000 "[]" b d' jobs', OF sample_broadcast_lookup(2)]
  from drop [of 1000] drop [of 3500] s t show ?thesis by auto
qed

text \<open>The plan never looks at the state the Broadcast is in past draft. A plan job that runs again once
  the Broadcast is sent (a rescued job, or the second of two jobs queued for the same instant by
  Schedule, Unschedule, Schedule) is due, reopens it to sending and makes every Contact that became
  eligible since a new recipient; the next Finalize sets another sent time.\<close>

theorem replan_reopens_sent:
  assumes "unique_broadcasts d" and "load_broadcast bid d = Some b" and "bc_status b = BcSent"
    and "plan_broadcast env renders sj now bid d = (Inr ids, d')" and "ids \<noteq> []"
  shows "broadcast_due bid None d = Inr True \<and>
    (\<forall>t. bc_scheduled_at b = Some (truncate_micro t) \<longrightarrow> broadcast_due bid (Some t) d = Inr True) \<and>
    statuses_of d (bc_workspace b, bid) = Some BcSent \<and> statuses_of d' (bc_workspace b, bid) = Some BcSending"
proof -
  have g: "get_broadcast (bc_workspace b) bid d = Some b" using load_get [OF assms(1)] assms(2) by simp
  obtain x where x: "plan_audience sj now (bc_workspace b) bid x (opened (bc_workspace b) bid d) = (ids, d')"
    using plan_broadcast_cases [OF assms(4,2)] by blast
  have "unique_broadcasts (opened (bc_workspace b) bid d)" using assms(1) by (simp add: opened_wf)
  from plan_audience_result(4) [OF x this get_opened [OF g]] assms(5)
  have "statuses_of d' (bc_workspace b, bid) = Some BcSending" by (auto simp: statuses_of_apply)
  with due_of_get [OF assms(1) g] g assms(3) show ?thesis by (simp add: statuses_of_apply)
qed

theorem replan_reopens_sent_witness:
  "\<exists>d'. plan_broadcast sample_env (\<lambda>_ _. True) (\<lambda>_ _ _. None) 0 5 (wd_db (sample_send_world BcSent [])) = (Inr [10], d') \<and>
     broadcast_due 5 None (wd_db (sample_send_world BcSent [])) = Inr True \<and> statuses_of d' (1, 5) = Some BcSending"
proof -
  let ?d = "wd_db (sample_send_world BcSent [])" and ?sj = "(\<lambda>_ _ _. None) :: sql_json"
  obtain d' where p: "plan_broadcast sample_env (\<lambda>_ _. True) ?sj 0 5 ?d = (Inr [10], d')" using sample_plan by blast
  have "bc_status (sample_broadcast 5 BcSent) = BcSent" by (simp add: sample_broadcast_def)
  from replan_reopens_sent [OF sample_send_rows(12) sample_send_rows(8) this p] p show ?thesis by (simp add: sample_send_rows)
qed

section \<open>Pacing\<close>

lemma paced_nth: "i < n \<Longrightarrow> paced_times start step n ! i = start + wrap64 (int i * step)"
  by (simp add: paced_times_def)

text \<open>A paced Broadcast keeps to the Integration's rate. As long as the whole stretch fits in 64 bits of
  nanoseconds, the jobs are in order, none before now or the scheduled time, and any two of them are
  at least their distance in the plan times one over each ceiling apart; the last one's time is what
  the Broadcast records, to the microsecond.\<close>

theorem pacing_keeps_rate:
  assumes "unique_broadcasts d" and "load_broadcast bid d = Some b" and "default_integration (bc_workspace b) d = Inr i"
    and "effective_limits (effective_of i) = l" and "int n * interval l < 2 ^ 63"
    and "pace_recipients bid n now d = (Inr (Some ts), d')"
  shows "length ts = n \<and> 0 < n \<and> now \<le> ts ! 0 \<and> (\<forall>t. bc_scheduled_at b = Some t \<longrightarrow> t \<le> ts ! 0) \<and>
    (\<forall>j k. j \<le> k \<and> k < n \<longrightarrow> ts ! k - ts ! j = int (k - j) * interval l) \<and>
    (\<forall>c. lim_per_second l = Some c \<and> 0 < c \<longrightarrow> second div c \<le> interval l) \<and>
    (\<forall>c. lim_per_day l = Some c \<and> 0 < c \<longrightarrow> 86400 * second div c \<le> interval l) \<and>
    (\<exists>b'. get_broadcast (bc_workspace b) bid d' = Some b' \<and> bc_last_scheduled_at b' = Some (truncate_micro (last ts)))"
proof -
  let ?step = "interval l"
  obtain start where st: "start = (case bc_scheduled_at b of None \<Rightarrow> now | Some t \<Rightarrow> if now < t then t else now)" by simp
  have s: "0 < ?step" "0 < n" "ts = paced_times start ?step n"
    "d' = set_broadcast (bc_workspace b) bid (\<lambda>_. True) (set_last_scheduled (Some (ts ! (n - 1)))) d"
    using assms(2-4,6) by (auto simp: pace_recipients_def Let_def st split: if_splits)
  have w: "wrap64 (int k * ?step) = int k * ?step" if "k < n" for k
  proof (rule wrap64_id)
    have "0 \<le> int k * ?step" using s(1) by simp
    then show "- (2 ^ 63) \<le> int k * ?step" by simp
    have "int k * ?step \<le> int n * ?step" using s(1) that by (intro mult_right_mono) simp_all
    with assms(5) show "int k * ?step < 2 ^ 63" by simp
  qed
  have nth: "ts ! k = start + int k * ?step" if "k < n" for k using that w by (simp add: s(3) paced_nth)
  have len: "length ts = n" by (simp add: s(3) paced_times_def)
  have g: "get_broadcast (bc_workspace b) bid d = Some b" using load_get [OF assms(1)] assms(2) by simp
  have last: "last ts = ts ! (n - 1)" using len s(2) by (intro last_conv_nth [of ts, unfolded len]) auto
  have gap: "ts ! k - ts ! j = int (k - j) * ?step" if "j \<le> k" "k < n" for j k
    using that nth [of k] nth [of j] by (simp add: of_nat_diff left_diff_distrib)
  have "now \<le> start" "\<forall>t. bc_scheduled_at b = Some t \<longrightarrow> t \<le> start" by (auto simp: st split: option.splits)
  moreover have "ts ! 0 = start" using nth [OF s(2)] by simp
  moreover have "\<forall>c. lim_per_second l = Some c \<and> 0 < c \<longrightarrow> second div c \<le> ?step"
    "\<forall>c. lim_per_day l = Some c \<and> 0 < c \<longrightarrow> 86400 * second div c \<le> ?step"
    by (auto simp: interval_def Let_def split: option.split)
  moreover have "\<exists>b'. get_broadcast (bc_workspace b) bid d' = Some b' \<and> bc_last_scheduled_at b' = Some (truncate_micro (last ts))"
    using g by (simp add: s(4) get_set_broadcast set_last_scheduled_def last)
  ultimately show ?thesis using len s(2) gap by auto
qed

theorem pacing_keeps_rate_witness:
  "\<exists>ts d'. pace_recipients 5 3 7 (sample_broadcast_db BcSending\<lparr>integrations := [sample_integration\<lparr>int_max_per_second := Some 2\<rparr>]\<rparr>) = (Inr (Some ts), d') \<and>
     ts ! 2 - ts ! 0 = second"
proof -
  let ?i = "sample_integration\<lparr>int_max_per_second := Some 2\<rparr>"
  let ?d = "sample_broadcast_db BcSending\<lparr>integrations := [?i]\<rparr>" and ?l = "effective_limits (effective_of (sample_integration\<lparr>int_max_per_second := Some 2\<rparr>))"
  have l: "interval ?l = 500000000"
    by (simp add: interval_def effective_limits_def effective_of_def lowest_def sample_integration_def)
  have i: "default_integration 1 ?d = Inr ?i"
    by (simp add: default_integration_def find_where_def in_ws_def sample_integration_def)
  have b: "load_broadcast 5 ?d = Some (sample_broadcast 5 BcSending)" "bc_workspace (sample_broadcast 5 BcSending) = 1"
    by (simp_all add: load_broadcast_def find_where_def sample_broadcast_db_def sample_broadcast_def)
  have u: "unique_broadcasts ?d" by (simp add: unique_broadcasts_def sample_broadcast_db_def)
  obtain ts d' where p: "pace_recipients 5 3 7 ?d = (Inr (Some ts), d')" using b i l by (simp add: pace_recipients_def Let_def)
  have "ts ! 2 - ts ! 0 = int (2 - 0) * interval ?l"
    using pacing_keeps_rate [OF u b(1) _ refl _ p] i b(2) l by auto
  with p l show ?thesis by auto
qed

end
