(* ===== verification/Contacts.thy ===== *)
theory Contacts
  imports Eligibility
begin

text \<open>
  \<open>internal/contacts\<close>: the one place a Contact is created, updated or upserted. A transaction that
  returns an error leaves the database as it was. Attributes arrive decoded from JSON: the Custom
  fields are an association list, a later key overriding an earlier one. A unique index is checked in
  the order the migration creates them (email, phone, subject_id). \<open>Cleared\<close> and a given value of the
  same attribute never come together (a merge patch holds a key once); the model lets the clear win.
\<close>

section \<open>Attributes\<close>

datatype contact_field = FieldEmail | FieldPhone | FieldSubjectID

datatype contact_error = ContactNotFound | IdentityRequired | Conflict contact_field | ContactStorage

record cleared =
  cl_subject :: bool
  cl_email :: bool
  cl_phone :: bool
  cl_first :: bool
  cl_last :: bool
  cl_zone :: bool
  cl_fields :: bool

definition none_cleared :: cleared where
  "none_cleared = \<lparr>cl_subject = False, cl_email = False, cl_phone = False, cl_first = False, cl_last = False,
     cl_zone = False, cl_fields = False\<rparr>"

record attributes =
  at_subject :: "string option"
  at_email :: "string option"
  at_phone :: "string option"
  at_first :: "string option"
  at_last :: "string option"
  at_zone :: "string option"
  at_fields :: "(string \<times> json) list option"
  at_cleared :: cleared

definition trimmed :: "string option \<Rightarrow> string option" where
  "trimmed s = (case s of None \<Rightarrow> None | Some x \<Rightarrow> if trim_space x = '''' then None else Some (trim_space x))"

definition normalized :: "attributes \<Rightarrow> attributes" where
  "normalized a = a\<lparr>at_subject := trimmed (at_subject a), at_phone := trimmed (at_phone a),
     at_email := map_option to_lower (trimmed (at_email a))\<rparr>"

section \<open>Custom fields, declared by use\<close>

fun infer_field_type :: "json \<Rightarrow> field_type" where
  "infer_field_type (JBool _) = FieldBool"
| "infer_field_type (JNum _) = FieldNumber"
| "infer_field_type _ = FieldString"

definition ensure_custom_field :: "id \<Rightarrow> string \<times> json \<Rightarrow> db \<Rightarrow> db" where
  "ensure_custom_field ws kv d =
     (if exists_where (in_ws cf_workspace ws (\<lambda>f. cf_key f = fst kv)) (custom_fields d) then d
      else d\<lparr>custom_fields := custom_fields d @ [\<lparr>cf_id = next_id d, cf_workspace = ws, cf_key = fst kv, cf_name = fst kv,
               cf_type = infer_field_type (snd kv)\<rparr>], next_id := next_id d + 1\<rparr>)"

definition ensure_custom_fields :: "id \<Rightarrow> (string \<times> json) list option \<Rightarrow> db \<Rightarrow> (string \<times> json) list \<times> db" where
  "ensure_custom_fields ws kvs d =
     (let typed = filter (\<lambda>kv. fst kv \<noteq> '''') (case kvs of None \<Rightarrow> [] | Some l \<Rightarrow> l) in
      (typed, fold (ensure_custom_field ws) typed d))"

section \<open>Writing a Contact\<close>

definition alias_taken :: "id \<Rightarrow> id \<Rightarrow> (contact \<Rightarrow> string option) \<Rightarrow> string option \<Rightarrow> db \<Rightarrow> bool" where
  "alias_taken ws cid key v d \<longleftrightarrow>
     v \<noteq> None \<and> exists_where (in_ws con_workspace ws (\<lambda>c. con_id c \<noteq> cid \<and> key c = v)) (contacts d)"

definition conflict_of :: "contact \<Rightarrow> db \<Rightarrow> contact_field option" where
  "conflict_of c d =
     (if alias_taken (con_workspace c) (con_id c) con_email (con_email c) d then Some FieldEmail
      else if alias_taken (con_workspace c) (con_id c) con_phone (con_phone c) d then Some FieldPhone
      else if alias_taken (con_workspace c) (con_id c) con_subject (con_subject c) d then Some FieldSubjectID
      else None)"

definition insert_contact :: "time \<Rightarrow> id \<Rightarrow> attributes \<Rightarrow> (string \<times> json) list \<Rightarrow> db \<Rightarrow> (contact_error + contact) \<times> db" where
  "insert_contact now ws a typed d =
     (let c = \<lparr>con_id = next_id d, con_workspace = ws, con_subject = at_subject a, con_email = at_email a,
               con_phone = at_phone a, con_first_name = at_first a, con_last_name = at_last a, con_time_zone = at_zone a,
               con_fields = map_of (rev typed)\<rparr> in
      if load_workspace ws d = None then (Inl ContactStorage, d)
      else case conflict_of c d of
             Some f \<Rightarrow> (Inl (Conflict f), d)
           | None \<Rightarrow>
              (Inr c, publish now (ContactCreated ws (con_id c) (case con_email c of None \<Rightarrow> '''' | Some e \<Rightarrow> e))
                        (d\<lparr>contacts := contacts d @ [c], next_id := next_id d + 1\<rparr>)))"

definition save_contact :: "contact \<Rightarrow> db \<Rightarrow> (contact_error + contact) \<times> db" where
  "save_contact c d =
     (case conflict_of c d of
        Some f \<Rightarrow> (Inl (Conflict f), d)
      | None \<Rightarrow>
         (Inr c, d\<lparr>contacts := update_where (in_ws con_workspace (con_workspace c) (\<lambda>x. con_id x = con_id c)) (\<lambda>_. c)
                     (contacts d)\<rparr>))"

definition contact_tx :: "(db \<Rightarrow> ('e + 'a) \<times> db) \<Rightarrow> db \<Rightarrow> ('e + 'a) \<times> db" where
  "contact_tx body d = (case body d of (Inl e, _) \<Rightarrow> (Inl e, d) | (Inr x, d') \<Rightarrow> (Inr x, d'))"

definition contact_create :: "time \<Rightarrow> id \<Rightarrow> attributes \<Rightarrow> db \<Rightarrow> (contact_error + contact) \<times> db" where
  "contact_create now ws attrs =
     contact_tx (\<lambda>d. let a = normalized attrs; (typed, d1) = ensure_custom_fields ws (at_fields a) d
                     in insert_contact now ws a typed d1)"

definition changed :: "bool \<Rightarrow> 'a option \<Rightarrow> 'a option \<Rightarrow> 'a option" where
  "changed clear new old = (if clear then None else case new of None \<Rightarrow> old | Some v \<Rightarrow> Some v)"

definition apply_attributes :: "attributes \<Rightarrow> (string \<times> json) list \<Rightarrow> contact \<Rightarrow> contact" where
  "apply_attributes a typed c =
     (let k = at_cleared a in
      c\<lparr>con_subject := changed (cl_subject k) (at_subject a) (con_subject c),
        con_email := changed (cl_email k) (at_email a) (con_email c),
        con_phone := changed (cl_phone k) (at_phone a) (con_phone c),
        con_first_name := changed (cl_first k) (at_first a) (con_first_name c),
        con_last_name := changed (cl_last k) (at_last a) (con_last_name c),
        con_time_zone := changed (cl_zone k) (at_zone a) (con_time_zone c),
        con_fields := (if cl_fields k then Map.empty else if at_fields a = None then con_fields c else map_of (rev typed))\<rparr>)"

definition contact_update :: "id \<Rightarrow> id \<Rightarrow> attributes \<Rightarrow> db \<Rightarrow> (contact_error + contact) \<times> db" where
  "contact_update ws cid attrs =
     contact_tx (\<lambda>d. let a = normalized attrs; (typed, d1) = ensure_custom_fields ws (at_fields a) d
                     in case get_contact ws cid d1 of
                          None \<Rightarrow> (Inl ContactNotFound, d1)
                        | Some c \<Rightarrow> save_contact (apply_attributes a typed c) d1)"

section \<open>Upsert\<close>

definition find_alias :: "id \<Rightarrow> (contact \<Rightarrow> string option) \<Rightarrow> string option \<Rightarrow> db \<Rightarrow> contact option" where
  "find_alias ws key v d =
     (case v of None \<Rightarrow> None | Some x \<Rightarrow> find_where (in_ws con_workspace ws (\<lambda>c. key c = Some x)) (contacts d))"

definition resolve_contact :: "id \<Rightarrow> string option \<Rightarrow> string option \<Rightarrow> string option \<Rightarrow> db \<Rightarrow> contact option" where
  "resolve_contact ws subject email phone d =
     (case find_alias ws con_subject (trimmed subject) d of
        Some c \<Rightarrow> Some c
      | None \<Rightarrow>
         (case find_alias ws con_email (map_option to_lower (trimmed email)) d of
            Some c \<Rightarrow> Some c
          | None \<Rightarrow> find_alias ws con_phone (trimmed phone) d))"

definition resolve_id :: "id \<Rightarrow> string \<Rightarrow> string option \<Rightarrow> string option \<Rightarrow> db \<Rightarrow> id" where
  "resolve_id ws subject email phone d =
     (case resolve_contact ws (Some subject) email phone d of None \<Rightarrow> 0 | Some c \<Rightarrow> con_id c)"

definition filled :: "'a option \<Rightarrow> 'a option \<Rightarrow> 'a option" where
  "filled old new = (case old of None \<Rightarrow> new | Some v \<Rightarrow> Some v)"

definition enriched :: "attributes \<Rightarrow> (string \<times> json) list \<Rightarrow> contact \<Rightarrow> contact" where
  "enriched a typed c =
     c\<lparr>con_subject := filled (con_subject c) (at_subject a), con_email := filled (con_email c) (at_email a),
       con_phone := filled (con_phone c) (at_phone a), con_first_name := filled (con_first_name c) (at_first a),
       con_last_name := filled (con_last_name c) (at_last a), con_time_zone := filled (con_time_zone c) (at_zone a),
       con_fields := con_fields c ++ map_of (rev typed)\<rparr>"

text \<open>The Contact and whether it was created.\<close>

definition upsert_in :: "time \<Rightarrow> id \<Rightarrow> attributes \<Rightarrow> db \<Rightarrow> (contact_error + contact \<times> bool) \<times> db" where
  "upsert_in now ws attrs d =
     (let a = normalized attrs in
      if at_subject a = None \<and> at_email a = None \<and> at_phone a = None then (Inl IdentityRequired, d)
      else
        (let (typed, d1) = ensure_custom_fields ws (at_fields a) d in
         case resolve_contact ws (at_subject a) (at_email a) (at_phone a) d1 of
           Some c \<Rightarrow> (case save_contact (enriched a typed c) d1 of (Inl e, d2) \<Rightarrow> (Inl e, d2) | (Inr c', d2) \<Rightarrow> (Inr (c', False), d2))
         | None \<Rightarrow> (case insert_contact now ws a typed d1 of (Inl e, d2) \<Rightarrow> (Inl e, d2) | (Inr c', d2) \<Rightarrow> (Inr (c', True), d2))))"

definition upsert :: "time \<Rightarrow> id \<Rightarrow> attributes \<Rightarrow> db \<Rightarrow> (contact_error + contact \<times> bool) \<times> db" where
  "upsert now ws attrs = contact_tx (upsert_in now ws attrs)"

record import_summary =
  im_created :: nat
  im_updated :: nat
  im_failed :: nat

definition count_outcome :: "contact_error + contact \<times> bool \<Rightarrow> import_summary \<Rightarrow> import_summary" where
  "count_outcome r s =
     (case r of
        Inl _ \<Rightarrow> s\<lparr>im_failed := im_failed s + 1\<rparr>
      | Inr (_, True) \<Rightarrow> s\<lparr>im_created := im_created s + 1\<rparr>
      | Inr (_, False) \<Rightarrow> s\<lparr>im_updated := im_updated s + 1\<rparr>)"

definition record_import :: "time \<Rightarrow> id \<Rightarrow> actor \<Rightarrow> import_summary \<Rightarrow> db \<Rightarrow> db" where
  "record_import now ws who s =
     record_audit now \<lparr>ae_workspace = ws, ae_actor = who, ae_action = ''contact.import'', ae_target_type = ''contact'',
       ae_target_id = '''', ae_target_name = '''',
       ae_diff = JObj [(''created'', JNum (of_nat (im_created s))), (''updated'', JNum (of_nat (im_updated s))),
                       (''failed'', JNum (of_nat (im_failed s)))]\<rparr>"

fun upsert_rows :: "time \<Rightarrow> id \<Rightarrow> attributes list \<Rightarrow> db \<Rightarrow> (contact_error + contact \<times> bool) list \<times> db" where
  "upsert_rows now ws [] d = ([], d)"
| "upsert_rows now ws (a # as) d =
     (case upsert now ws a d of (r, d1) \<Rightarrow> (case upsert_rows now ws as d1 of (rs, d2) \<Rightarrow> (r # rs, d2)))"

text \<open>A failing import entry is only logged.\<close>

definition upsert_batch ::
  "time \<Rightarrow> id \<Rightarrow> actor \<Rightarrow> bool \<Rightarrow> attributes list \<Rightarrow> db \<Rightarrow> (contact_error + contact \<times> bool) list \<times> db" where
  "upsert_batch now ws who entry_ok items d =
     (case upsert_rows now ws items d of
        (rs, d1) \<Rightarrow> (rs, if entry_ok
           then record_import now ws who (fold count_outcome rs \<lparr>im_created = 0, im_updated = 0, im_failed = 0\<rparr>) d1 else d1))"


section \<open>What every Contact keeps\<close>

text \<open>The unique indexes, fresh ids, and alias keys as \<open>normalized\<close> leaves them.\<close>

definition alias_unique :: "(contact \<Rightarrow> string option) \<Rightarrow> db \<Rightarrow> bool" where
  "alias_unique key d \<longleftrightarrow> (\<forall>x \<in> set (contacts d). \<forall>y \<in> set (contacts d).
     con_workspace x = con_workspace y \<and> key x = key y \<and> key x \<noteq> None \<longrightarrow> con_id x = con_id y)"

definition normal_keys :: "contact \<Rightarrow> bool" where
  "normal_keys c \<longleftrightarrow> map_option to_lower (trimmed (con_email c)) = con_email c \<and> trimmed (con_phone c) = con_phone c \<and>
     trimmed (con_subject c) = con_subject c"

definition wf_contacts :: "db \<Rightarrow> bool" where
  "wf_contacts d \<longleftrightarrow> distinct (map con_id (contacts d)) \<and> (\<forall>c \<in> set (contacts d). con_id c < next_id d \<and> normal_keys c) \<and>
     alias_unique con_email d \<and> alias_unique con_phone d \<and> alias_unique con_subject d"

lemma trimmed_idem [simp]: "trimmed (trimmed s) = trimmed s"
  by (simp add: trimmed_def string_simps split: option.split)

lemma trimmed_lower [simp]: "trimmed (map_option to_lower s) = map_option to_lower (trimmed s)"
  by (simp add: trimmed_def string_simps split: option.split)

lemma lower_option_idem [simp]: "map_option to_lower (map_option to_lower s) = map_option to_lower s"
  by (cases s) (simp_all add: string_simps)

lemma normalized_idem [simp]: "normalized (normalized a) = normalized a"
  by (simp add: normalized_def)

lemma normalized_keys [simp]:
  "map_option to_lower (trimmed (at_email (normalized a))) = at_email (normalized a)"
  "trimmed (at_phone (normalized a)) = at_phone (normalized a)"
  "trimmed (at_subject (normalized a)) = at_subject (normalized a)"
  by (simp_all add: normalized_def)

lemma normal_email_trimmed:
  assumes "normal_keys c" and "con_email c = Some e"
  shows "normalize_destination e = e" and "trim_space e = e" and "to_lower e = e" and "e \<noteq> ''''"
proof -
  have t: "trim_space e \<noteq> ''''" "to_lower (trim_space e) = e"
    using assms by (auto simp: normal_keys_def trimmed_def split: if_splits)
  then show "normalize_destination e = e" by (simp add: normalize_destination_def)
  have "trim_space e = to_lower (trim_space (trim_space e))" using t(2) by (metis trim_space_to_lower)
  then show "trim_space e = e" using t(2) by (simp add: string_simps)
  show "to_lower e = e" using t(2) by (metis to_lower_idem)
  show "e \<noteq> ''''" using t by (auto simp: string_simps)
qed

lemma ensure_frame [simp]:
  "contacts (ensure_custom_field ws kv d) = contacts d" "workspaces (ensure_custom_field ws kv d) = workspaces d"
  "outbox (ensure_custom_field ws kv d) = outbox d" "next_id d \<le> next_id (ensure_custom_field ws kv d)"
  by (simp_all add: ensure_custom_field_def)

lemma fold_ensure_frame:
  "contacts (fold (ensure_custom_field ws) kvs d) = contacts d \<and> workspaces (fold (ensure_custom_field ws) kvs d) = workspaces d \<and>
   outbox (fold (ensure_custom_field ws) kvs d) = outbox d \<and> next_id d \<le> next_id (fold (ensure_custom_field ws) kvs d)"
proof (induction kvs arbitrary: d)
  case (Cons kv kvs)
  have "next_id d \<le> next_id (fold (ensure_custom_field ws) (kv # kvs) d)"
    using Cons [of "ensure_custom_field ws kv d"] order_trans [OF ensure_frame(4) [of d ws kv]] by simp
  then show ?case using Cons [of "ensure_custom_field ws kv d"] by simp
qed simp

lemma ensure_fields_frame:
  assumes "ensure_custom_fields ws kvs d = (typed, d1)"
  shows "contacts d1 = contacts d" and "workspaces d1 = workspaces d" and "outbox d1 = outbox d" and "next_id d \<le> next_id d1"
    and "typed = filter (\<lambda>kv. fst kv \<noteq> '''') (case kvs of None \<Rightarrow> [] | Some l \<Rightarrow> l)"
  using assms fold_ensure_frame [of ws typed d] by (auto simp: ensure_custom_fields_def Let_def)

lemma wf_frame: "wf_contacts d \<Longrightarrow> contacts d1 = contacts d \<Longrightarrow> next_id d \<le> next_id d1 \<Longrightarrow> wf_contacts d1"
  by (auto simp: wf_contacts_def alias_unique_def intro: order_less_le_trans)

lemma conflict_noneD:
  assumes "conflict_of c d = None" and "x \<in> set (contacts d)" and "con_workspace x = con_workspace c" and "con_id x \<noteq> con_id c"
  shows "con_email c \<noteq> None \<longrightarrow> con_email x \<noteq> con_email c" and "con_phone c \<noteq> None \<longrightarrow> con_phone x \<noteq> con_phone c"
    and "con_subject c \<noteq> None \<longrightarrow> con_subject x \<noteq> con_subject c"
proof -
  have n: "\<not> alias_taken (con_workspace c) (con_id c) key (key c) d" if "key \<in> {con_email, con_phone, con_subject}" for key
    using assms(1) that by (auto simp: conflict_of_def split: if_splits)
  have "key c \<noteq> None \<longrightarrow> key x \<noteq> key c" if "key \<in> {con_email, con_phone, con_subject}" for key
    using n [OF that] assms(2-4) by (auto simp: alias_taken_def table_simps)
  then show "con_email c \<noteq> None \<longrightarrow> con_email x \<noteq> con_email c" "con_phone c \<noteq> None \<longrightarrow> con_phone x \<noteq> con_phone c"
    "con_subject c \<noteq> None \<longrightarrow> con_subject x \<noteq> con_subject c" by blast+
qed

text \<open>A table in which one row is new or replaced and no alias of it is taken.\<close>

lemma wf_contacts_one:
  assumes "wf_contacts d" and "conflict_of c d = None" and "normal_keys c" and "con_id c < next_id d'" and "next_id d \<le> next_id d'"
    and "distinct (map con_id (contacts d'))"
    and "set (contacts d') \<subseteq> insert c {x \<in> set (contacts d). con_id x \<noteq> con_id c}"
  shows "wf_contacts d'"
proof -
  have rows: "x = c \<or> x \<in> set (contacts d) \<and> con_id x \<noteq> con_id c" if "x \<in> set (contacts d')" for x
    using assms(7) that by auto
  note taken = conflict_noneD [OF assms(2)]
  have key: "alias_unique key d'"
    if old: "alias_unique key d"
      and free: "\<And>x. x \<in> set (contacts d) \<Longrightarrow> con_workspace x = con_workspace c \<Longrightarrow> con_id x \<noteq> con_id c \<Longrightarrow> key c \<noteq> None \<longrightarrow> key x \<noteq> key c"
    for key
    unfolding alias_unique_def
  proof (intro ballI impI)
    fix x y
    assume x: "x \<in> set (contacts d')" and y: "y \<in> set (contacts d')"
      and eq: "con_workspace x = con_workspace y \<and> key x = key y \<and> key x \<noteq> None"
    show "con_id x = con_id y"
    proof (rule ccontr)
      assume ne: "con_id x \<noteq> con_id y"
      from rows [OF x] rows [OF y] show False
      proof (elim disjE)
        assume "x = c" "y \<in> set (contacts d) \<and> con_id y \<noteq> con_id c"
        then show False using free [of y] eq by auto
      next
        assume "x \<in> set (contacts d) \<and> con_id x \<noteq> con_id c" "y = c"
        then show False using free [of x] eq by auto
      next
        assume "x \<in> set (contacts d) \<and> con_id x \<noteq> con_id c" "y \<in> set (contacts d) \<and> con_id y \<noteq> con_id c"
        then show False using old eq ne by (auto simp: alias_unique_def)
      qed (use ne in simp)
    qed
  qed
  have "alias_unique con_email d'" "alias_unique con_phone d'" "alias_unique con_subject d'"
    using key assms(1) taken by (auto simp: wf_contacts_def)
  moreover have "con_id x < next_id d' \<and> normal_keys x" if "x \<in> set (contacts d')" for x
    using rows [OF that] assms(1,3-5) by (auto simp: wf_contacts_def intro: order_less_le_trans)
  ultimately show ?thesis using assms(6) by (simp add: wf_contacts_def)
qed

lemma wf_insert_contact:
  assumes "wf_contacts d" and "insert_contact now ws a typed d = (Inr c, d')"
    and "map_option to_lower (trimmed (at_email a)) = at_email a" and "trimmed (at_phone a) = at_phone a"
    and "trimmed (at_subject a) = at_subject a"
  shows "wf_contacts d'"
proof (rule wf_contacts_one [OF assms(1)])
  have i: "con_id c = next_id d" "con_email c = at_email a" "con_phone c = at_phone a" "con_subject c = at_subject a"
    "contacts d' = contacts d @ [c]" "next_id d' = next_id d + 2" "conflict_of c d = None"
    using assms(2) by (auto simp: insert_contact_def Let_def publish_def split: if_splits option.splits)
  show "conflict_of c d = None" "con_id c < next_id d'" "next_id d \<le> next_id d'" using i by simp_all
  show "normal_keys c" using assms(3-5) i by (simp add: normal_keys_def)
  have "\<forall>x \<in> set (contacts d). con_id x \<noteq> con_id c" using assms(1) i by (auto simp: wf_contacts_def)
  then show "distinct (map con_id (contacts d'))"
    "set (contacts d') \<subseteq> insert c {x \<in> set (contacts d). con_id x \<noteq> con_id c}"
    using assms(1) i by (auto simp: wf_contacts_def)
qed

lemma wf_save_contact:
  assumes "wf_contacts d" and "save_contact c d = (Inr c', d')" and "normal_keys c"
    and "c0 \<in> set (contacts d)" and "con_id c0 = con_id c" and "con_workspace c0 = con_workspace c"
  shows "wf_contacts d'"
proof (rule wf_contacts_one [OF assms(1) _ assms(3)])
  let ?p = "in_ws con_workspace (con_workspace c) (\<lambda>x. con_id x = con_id c)"
  have s: "conflict_of c d = None" "contacts d' = update_where ?p (\<lambda>_. c) (contacts d)" "next_id d' = next_id d"
    using assms(2) by (auto simp: save_contact_def split: option.splits)
  have ids: "inj_on con_id (set (contacts d))" using assms(1) by (simp add: wf_contacts_def distinct_map)
  have one: "x = c0" if "x \<in> set (contacts d)" "con_id x = con_id c" for x
    using ids that assms(4,5) by (auto simp: inj_on_def)
  show "conflict_of c d = None" "con_id c < next_id d'" "next_id d \<le> next_id d'"
    using s assms(1,4,5) by (auto simp: wf_contacts_def)
  have "map con_id (contacts d') = map con_id (contacts d)" unfolding s(2) by (rule map_update_where) (simp add: in_ws_def)
  then show "distinct (map con_id (contacts d'))" using assms(1) by (simp add: wf_contacts_def)
  show "set (contacts d') \<subseteq> insert c {x \<in> set (contacts d). con_id x \<noteq> con_id c}"
    using one assms(6) by (auto simp: s(2) table_simps)
qed


lemma contact_tx_db: "snd (contact_tx body d) = (case fst (body d) of Inl _ \<Rightarrow> d | Inr _ \<Rightarrow> snd (body d))"
  by (simp add: contact_tx_def split: prod.split sum.split)

lemma insert_contact_db: "insert_contact now ws a typed d = (Inl e, d') \<Longrightarrow> d' = d"
  by (auto simp: insert_contact_def Let_def split: if_splits option.splits)

lemma save_contact_result: "save_contact c d = (r, d') \<Longrightarrow> (\<exists>f. r = Inl (Conflict f) \<and> d' = d) \<or> r = Inr c"
  by (auto simp: save_contact_def split: option.splits)

lemma changed_normal: "f new = new \<Longrightarrow> f old = old \<Longrightarrow> f None = None \<Longrightarrow> f (changed clear new old) = changed clear new old"
  by (cases new) (auto simp: changed_def)

lemma filled_normal: "f new = new \<Longrightarrow> f old = old \<Longrightarrow> f (filled old new) = filled old new"
  by (cases old) (auto simp: filled_def)

lemma trimmed_None [simp]: "trimmed None = None"
  by (simp add: trimmed_def)

lemma applied_normal: "normal_keys c \<Longrightarrow> normal_keys (apply_attributes (normalized a) typed c)"
  using normalized_keys [of a]
  by (simp add: normal_keys_def apply_attributes_def Let_def changed_normal [of trimmed]
      changed_normal [of "\<lambda>s. map_option to_lower (trimmed s)"])

lemma enriched_normal: "normal_keys c \<Longrightarrow> normal_keys (enriched (normalized a) typed c)"
  using normalized_keys [of a]
  by (simp add: normal_keys_def enriched_def filled_normal [of trimmed] filled_normal [of "\<lambda>s. map_option to_lower (trimmed s)"])

lemma find_aliasD:
  "find_alias ws key v d = Some c \<Longrightarrow> c \<in> set (contacts d) \<and> con_workspace c = ws \<and> v \<noteq> None \<and> key c = v"
  by (auto simp: find_alias_def in_ws_def dest: find_where_SomeD split: option.splits)

lemma resolve_contactD: "resolve_contact ws s e p d = Some c \<Longrightarrow> c \<in> set (contacts d) \<and> con_workspace c = ws"
  by (auto simp: resolve_contact_def dest: find_aliasD split: option.splits)

lemma wf_create: "wf_contacts d \<Longrightarrow> wf_contacts (snd (contact_create now ws a d))"
proof -
  assume wf: "wf_contacts d"
  obtain typed d1 where e: "ensure_custom_fields ws (at_fields (normalized a)) d = (typed, d1)" by fastforce
  have "wf_contacts d1" using wf_frame [OF wf] ensure_fields_frame [OF e] by simp
  then show ?thesis
    using wf_insert_contact [of d1 now ws "normalized a" typed] wf
    by (cases "insert_contact now ws (normalized a) typed d1")
       (auto simp: contact_create_def contact_tx_def e split: sum.split)
qed

lemma wf_update: "wf_contacts d \<Longrightarrow> wf_contacts (snd (contact_update ws cid a d))"
proof -
  assume wf: "wf_contacts d"
  obtain typed d1 where e: "ensure_custom_fields ws (at_fields (normalized a)) d = (typed, d1)" by fastforce
  have wf1: "wf_contacts d1" using wf_frame [OF wf] ensure_fields_frame [OF e] by simp
  show ?thesis
  proof (cases "get_contact ws cid d1")
    case None
    then show ?thesis using wf by (simp add: contact_update_def contact_tx_def e)
  next
    case (Some c)
    then have c: "c \<in> set (contacts d1)" by (auto simp: get_contact_def dest: find_where_SomeD)
    let ?c = "apply_attributes (normalized a) typed c"
    have k: "con_id ?c = con_id c" "con_workspace ?c = con_workspace c" by (simp_all add: apply_attributes_def Let_def)
    have "normal_keys ?c" using applied_normal c wf1 by (auto simp: wf_contacts_def)
    then have "wf_contacts d2" if "save_contact ?c d1 = (Inr c', d2)" for c' d2
      using wf_save_contact [OF wf1 that _ c] k by simp
    then show ?thesis using Some wf
      by (cases "save_contact ?c d1") (auto simp: contact_update_def contact_tx_def e split: sum.split)
  qed
qed

text \<open>A successful upsert either fills the Contact it resolves or inserts one.\<close>

lemma upsert_cases:
  assumes "upsert now ws attrs d = (Inr (c', b), d')"
  obtains (filled) typed d1 c where "ensure_custom_fields ws (at_fields attrs) d = (typed, d1)"
      and "resolve_contact ws (at_subject attrs) (at_email attrs) (at_phone attrs) d = Some c" and "\<not> b"
      and "c' = enriched (normalized attrs) typed c" and "save_contact c' d1 = (Inr c', d')"
  | (inserted) typed d1 where "ensure_custom_fields ws (at_fields attrs) d = (typed, d1)"
      and "resolve_contact ws (at_subject attrs) (at_email attrs) (at_phone attrs) d = None" and "b"
      and "insert_contact now ws (normalized attrs) typed d1 = (Inr c', d')"
proof -
  let ?a = "normalized attrs"
  have f: "at_fields ?a = at_fields attrs" by (simp add: normalized_def)
  have r: "resolve_contact ws (at_subject ?a) (at_email ?a) (at_phone ?a) x =
           resolve_contact ws (at_subject attrs) (at_email attrs) (at_phone attrs) x" for x
    by (simp add: resolve_contact_def normalized_def cong: option.case_cong)
  obtain typed d1 where e: "ensure_custom_fields ws (at_fields attrs) d = (typed, d1)" by fastforce
  have c: "contacts d1 = contacts d" using ensure_fields_frame [OF e] by simp
  have r1: "resolve_contact ws s m p d1 = resolve_contact ws s m p d" for s m p
    using c by (simp add: resolve_contact_def find_alias_def cong: option.case_cong)
  show thesis
  proof (cases "resolve_contact ws (at_subject attrs) (at_email attrs) (at_phone attrs) d")
    case None
    then show thesis using inserted [OF e] assms
      by (auto simp: upsert_def contact_tx_def upsert_in_def Let_def f e r r1 split: if_splits prod.splits sum.splits)
  next
    case (Some c)
    obtain x d2 where sv: "save_contact (enriched ?a typed c) d1 = (x, d2)" by fastforce
    have x: "x = Inr (enriched ?a typed c)" "c' = enriched ?a typed c" "\<not> b" "d2 = d'"
      using assms Some save_contact_result [OF sv]
      by (auto simp: upsert_def contact_tx_def upsert_in_def Let_def f e r r1 sv split: if_splits)
    show thesis using filled [OF e Some] x sv by simp
  qed
qed

lemma wf_upsert: "wf_contacts d \<Longrightarrow> wf_contacts (snd (upsert now ws attrs d))"
proof -
  assume wf: "wf_contacts d"
  obtain r d' where u: "upsert now ws attrs d = (r, d')" by fastforce
  show ?thesis
  proof (cases r)
    case (Inl e)
    then show ?thesis using u wf by (auto simp: upsert_def contact_tx_def split: prod.splits sum.splits)
  next
    case (Inr cb)
    obtain c' b where cb: "cb = (c', b)" by fastforce
    from u Inr cb have ok: "upsert now ws attrs d = (Inr (c', b), d')" by simp
    from ok show ?thesis
    proof (cases rule: upsert_cases)
      case (filled typed d1 c)
      have wf1: "wf_contacts d1" using wf_frame [OF wf] ensure_fields_frame [OF filled(1)] by simp
      have c: "c \<in> set (contacts d1)" using resolve_contactD [OF filled(2)] ensure_fields_frame [OF filled(1)] by simp
      have k: "con_id c' = con_id c" "con_workspace c' = con_workspace c" using filled(4) by (simp_all add: enriched_def)
      have "normal_keys c'" using filled(4) enriched_normal c wf1 by (auto simp: wf_contacts_def)
      then show ?thesis using wf_save_contact [OF wf1 filled(5) _ c] k u by simp
    next
      case (inserted typed d1)
      have "wf_contacts d1" using wf_frame [OF wf] ensure_fields_frame [OF inserted(1)] by simp
      then show ?thesis using wf_insert_contact [OF _ inserted(4)] u by simp
    qed
  qed
qed


section \<open>Properties\<close>

lemma wf_upsert_rows: "wf_contacts d \<Longrightarrow> wf_contacts (snd (upsert_rows now ws items d))"
proof (induction items arbitrary: d)
  case (Cons a as)
  obtain r d1 where u: "upsert now ws a d = (r, d1)" by fastforce
  obtain rs d2 where us: "upsert_rows now ws as d1 = (rs, d2)" by fastforce
  show ?case using wf_upsert [OF Cons.prems, of now ws a] Cons.IH [of d1] u us by simp
qed simp

text \<open>C31: the type invariant of the Contact table. In every workspace an alias key (email, phone, subject
  id) names one Contact, ids are unique and fresh, emails are trimmed lower case and phones and subjects
  trimmed and never empty. Creating, updating, upserting and batch importing keep it, whatever they are
  given and whether they fail or not.\<close>

theorem contacts_stay_well_formed:
  assumes "wf_contacts d"
  shows "wf_contacts (snd (contact_create now ws a d)) \<and> wf_contacts (snd (contact_update ws cid a d)) \<and>
    wf_contacts (snd (upsert now ws a d)) \<and> wf_contacts (snd (upsert_batch now ws who entry_ok items d))"
proof (intro conjI wf_create wf_update wf_upsert assms)
  obtain rs d1 where u: "upsert_rows now ws items d = (rs, d1)" by fastforce
  have "wf_contacts d1" using wf_upsert_rows [OF assms, of now ws items] u by simp
  then have "wf_contacts (record_import now ws who s d1)" for s
    by (auto intro: wf_frame simp: record_import_def record_audit_def publish_def split: option.split)
  then show "wf_contacts (snd (upsert_batch now ws who entry_ok items d))"
    using u \<open>wf_contacts d1\<close> by (simp add: upsert_batch_def)
qed

definition sample_attributes :: attributes where
  "sample_attributes = \<lparr>at_subject = Some '' u1 '', at_email = Some ''a@x.io '', at_phone = None, at_first = Some ''Ann'', at_last = None,
     at_zone = None, at_fields = Some [(''plan'', JStr ''pro'')], at_cleared = none_cleared\<rparr>"

theorem contacts_stay_well_formed_witness:
  "wf_contacts (snd (upsert 5 1 sample_attributes (empty_db\<lparr>contacts := [sample_contact 7 1 ''a@x.io''], next_id := 8\<rparr>)))"
proof -
  have "wf_contacts (empty_db\<lparr>contacts := [sample_contact 7 1 ''a@x.io''], next_id := 8\<rparr>)"
    by (simp add: wf_contacts_def alias_unique_def normal_keys_def sample_contact_def) (simp add: trimmed_def trim_space_def trim_left_def trim_right_def is_space_def to_lower_def lower_char_def)
  from contacts_stay_well_formed [OF this] show ?thesis by simp
qed

text \<open>An upsert is additive. When one of its keys resolves to a Contact (subject id before email before
  phone), that Contact is the result, no value it has is replaced, its empty values are filled from the
  attributes, its Custom fields are merged key by key with the given ones winning, every other Contact is
  left as it was and no event is published; when none resolves, exactly one Contact is appended and its
  creation published.\<close>

theorem upsert_additive:
  assumes "upsert now ws attrs d = (Inr (c', created), d')"
  shows "case resolve_contact ws (at_subject attrs) (at_email attrs) (at_phone attrs) d of
      Some c \<Rightarrow> \<not> created \<and> con_id c' = con_id c \<and> con_workspace c' = con_workspace c \<and>
        (\<forall>key \<in> {con_subject, con_email, con_phone, con_first_name, con_last_name, con_time_zone}. key c \<noteq> None \<longrightarrow> key c' = key c) \<and>
        (\<forall>(key, given) \<in> {(con_subject, trimmed (at_subject attrs)), (con_email, map_option to_lower (trimmed (at_email attrs))),
           (con_phone, trimmed (at_phone attrs)), (con_first_name, at_first attrs), (con_last_name, at_last attrs),
           (con_time_zone, at_zone attrs)}. key c = None \<longrightarrow> key c' = given) \<and>
        (\<forall>f. con_fields c' f = (case map_of (rev (filter (\<lambda>kv. fst kv \<noteq> '''') (case at_fields attrs of None \<Rightarrow> [] | Some l \<Rightarrow> l))) f of
               None \<Rightarrow> con_fields c f | Some v \<Rightarrow> Some v)) \<and>
        contacts d' = update_where (in_ws con_workspace ws (\<lambda>x. con_id x = con_id c)) (\<lambda>_. c') (contacts d) \<and>
        outbox d' = outbox d
    | None \<Rightarrow> created \<and> con_workspace c' = ws \<and> contacts d' = contacts d @ [c'] \<and>
        (\<exists>e. outbox d' = outbox d @ [e])"
  using assms
proof (cases rule: upsert_cases)
  case (filled typed d1 c)
  have w: "con_workspace c' = ws" using resolve_contactD [OF filled(2)] filled(4) by (simp add: enriched_def)
  have s: "contacts d' = update_where (in_ws con_workspace ws (\<lambda>x. con_id x = con_id c)) (\<lambda>_. c') (contacts d)"
    "outbox d' = outbox d"
    using filled(4,5) w ensure_fields_frame [OF filled(1)]
    by (simp_all add: save_contact_def enriched_def split: option.splits) auto
  have "con_fields c' f = (con_fields c ++ map_of (rev typed)) f" for f using filled(4) by (simp add: enriched_def)
  then have m: "con_fields c' f = (case map_of (rev typed) f of None \<Rightarrow> con_fields c f | Some v \<Rightarrow> Some v)" for f
    by (simp add: map_add_def)
  show ?thesis
    using filled(3) s m unfolding filled(2) option.case filled(4) ensure_fields_frame(5) [OF filled(1)]
    by (auto simp: enriched_def filled_def normalized_def)
next
  case (inserted typed d1)
  have "con_workspace c' = ws \<and> contacts d' = contacts d @ [c'] \<and> (\<exists>e. outbox d' = outbox d @ [e])"
    using inserted(4) ensure_fields_frame [OF inserted(1)]
    by (auto simp: insert_contact_def Let_def publish_def split: if_splits option.splits)
  then show ?thesis using inserted(3) unfolding inserted(2) by simp
qed


theorem upsert_additive_witness:
  "\<exists>c' d'. upsert 5 1 sample_attributes (empty_db\<lparr>workspaces := [sample_workspace 1], contacts := [sample_contact 7 1 ''a@x.io''], next_id := 8\<rparr>) =
     (Inr (c', False), d') \<and> con_id c' = 7 \<and> con_first_name c' = Some ''Ann'' \<and> con_email c' = Some ''a@x.io''"
proof -
  let ?d = "empty_db\<lparr>workspaces := [sample_workspace 1], contacts := [sample_contact 7 1 ''a@x.io''], next_id := 8\<rparr>"
  have t: "trimmed (at_subject sample_attributes) = Some ''u1''" "map_option to_lower (trimmed (at_email sample_attributes)) = Some ''a@x.io''"
    "trimmed (at_phone sample_attributes) = None"
    by (simp_all add: sample_attributes_def trimmed_def trim_space_def trim_left_def trim_right_def is_space_def to_lower_def lower_char_def)
  have r: "resolve_contact 1 (at_subject sample_attributes) (at_email sample_attributes) (at_phone sample_attributes) ?d =
    Some (sample_contact 7 1 ''a@x.io'')"
    unfolding resolve_contact_def t by (simp add: find_alias_def find_where_def in_ws_def sample_contact_def)
  let ?c = "sample_contact 7 1 ''a@x.io''" and ?a = "normalized sample_attributes"
  obtain typed d1 where e: "ensure_custom_fields 1 (at_fields ?a) ?d = (typed, d1)" by fastforce
  have cd: "contacts d1 = [?c]" using ensure_fields_frame [OF e] by simp
  have k: "at_subject ?a = Some ''u1''" "at_email ?a = Some ''a@x.io''" "at_phone ?a = None" using t by (simp_all add: normalized_def)
  have r1: "resolve_contact 1 (at_subject ?a) (at_email ?a) (at_phone ?a) d1 = Some ?c"
    using r unfolding resolve_contact_def by (simp add: normalized_def find_alias_def cd cong: option.case_cong)
  have "conflict_of (enriched ?a typed ?c) d1 = None"
    by (simp add: conflict_of_def alias_taken_def exists_where_def cd enriched_def in_ws_def)
  then have "\<exists>c' b d'. upsert 5 1 sample_attributes ?d = (Inr (c', b), d')"
    using r1 k e by (simp add: upsert_def contact_tx_def upsert_in_def Let_def save_contact_def) blast
  then obtain c' b d' where u: "upsert 5 1 sample_attributes ?d = (Inr (c', b), d')" by blast
  have f: "at_first sample_attributes = Some ''Ann''" by (simp add: sample_attributes_def)
  have "\<not> b" "con_id c' = 7" "con_first_name c' = Some ''Ann''" "con_email c' = Some ''a@x.io''"
    using upsert_additive [OF u] unfolding r option.case t f by (simp_all add: sample_contact_def)
  then show ?thesis using u by auto
qed

lemma find_alias_own:
  assumes "alias_unique key d" and "distinct (map con_id (contacts d))" and "c \<in> set (contacts d)" and "con_workspace c = ws"
    and "v = key c" and "v \<noteq> None"
  shows "find_alias ws key v d = Some c"
proof -
  obtain x where x: "v = Some x" using assms(6) by auto
  have "y = c" if "y \<in> set (contacts d)" "con_workspace y = ws" "key y = Some x" for y
  proof -
    have "key y = key c" "key c \<noteq> None" using that(3) x assms(5) by simp_all
    then have "con_id y = con_id c" using assms(1,3,4) that(1,2) unfolding alias_unique_def by metis
    then show ?thesis using assms(2,3) that(1) by (auto simp: distinct_map inj_on_def)
  qed
  moreover have "in_ws con_workspace ws (\<lambda>c. key c = Some x) c" using x assms(4,5) by (simp add: in_ws_def)
  ultimately show ?thesis unfolding find_alias_def x option.case
    using find_where_unique [of c "contacts d" "in_ws con_workspace ws (\<lambda>c. key c = Some x)"] assms(3) unfolding in_ws_def by blast
qed

lemma alias_own: "alias_unique key d \<Longrightarrow> c \<in> set (contacts d) \<Longrightarrow> \<not> alias_taken (con_workspace c) (con_id c) key (key c) d"
  unfolding alias_unique_def alias_taken_def exists_where_iff in_ws_def by metis

lemma filled_idem [simp]: "filled (filled x y) y = filled x y"
  by (cases x; cases y) (simp_all add: filled_def)

lemma filled_same [simp]: "filled x x = x"
  by (cases x) (simp_all add: filled_def)

lemma map_add_same [simp]: "m ++ m = m"
  by (rule ext) (simp add: map_add_def split: option.split)

lemma map_add_idem [simp]: "m ++ n ++ n = m ++ n"
  by (rule ext) (simp add: map_add_def split: option.split)

lemma enriched_idem: "enriched a typed (enriched a typed c) = enriched a typed c"
  by (simp add: enriched_def)

lemma first_hit_moves:
  assumes "(case s of Some x \<Rightarrow> Some x | None \<Rightarrow> (case e of Some x \<Rightarrow> Some x | None \<Rightarrow> p)) = Some c"
    and "(s = None \<longrightarrow> s' \<in> {None, Some c'}) \<and> (s = Some c \<longrightarrow> s' = Some c')"
    and "(p = None \<longrightarrow> p' \<in> {None, Some c'}) \<and> (p = Some c \<longrightarrow> p' = Some c')"
    and "(e = None \<longrightarrow> e' \<in> {None, Some c'}) \<and> (e = Some c \<longrightarrow> e' = Some c')"
  shows "(case s' of Some x \<Rightarrow> Some x | None \<Rightarrow> (case e' of Some x \<Rightarrow> Some x | None \<Rightarrow> p')) = Some c'"
  using assms by (cases s; cases e) (auto split: option.split)

lemma conflict_own: "wf_contacts d \<Longrightarrow> c \<in> set (contacts d) \<Longrightarrow> conflict_of c d = None"
  by (simp add: wf_contacts_def conflict_of_def alias_own)

lemma save_own:
  assumes "wf_contacts d" and "c \<in> set (contacts d)"
  shows "save_contact c d = (Inr c, d)"
proof -
  have "x = c" if "x \<in> set (contacts d)" "con_id x = con_id c" for x
    using assms that by (auto simp: wf_contacts_def distinct_map inj_on_def)
  then have "update_where (in_ws con_workspace (con_workspace c) (\<lambda>x. con_id x = con_id c)) (\<lambda>_. c) (contacts d) = contacts d"
    unfolding update_where_def by (intro map_idI) (auto simp: in_ws_def)
  then show ?thesis using conflict_own [OF assms] by (simp add: save_contact_def)
qed

lemma ensure_again:
  assumes "ensure_custom_fields ws kvs d = (typed, d1)" and "custom_fields d' = custom_fields d1"
  shows "ensure_custom_fields ws kvs d' = (typed, d')"
proof -
  let ?has = "\<lambda>k d. exists_where (in_ws cf_workspace ws (\<lambda>f. cf_key f = k)) (custom_fields d)"
  have keep: "?has k d \<Longrightarrow> ?has k (fold (ensure_custom_field ws) l d)" for k l d
    by (induction l arbitrary: d) (auto simp: ensure_custom_field_def exists_where_iff)
  have all: "kv \<in> set l \<Longrightarrow> ?has (fst kv) (fold (ensure_custom_field ws) l d)" for kv l d
  proof (induction l arbitrary: d)
    case (Cons a l)
    have "?has (fst a) (ensure_custom_field ws a d)" by (auto simp: ensure_custom_field_def exists_where_iff in_ws_def)
    then show ?case using Cons keep [of "fst a" "ensure_custom_field ws a d" l] by auto
  qed simp
  have same: "(\<And>kv. kv \<in> set l \<Longrightarrow> ?has (fst kv) d') \<Longrightarrow> fold (ensure_custom_field ws) l d' = d'" for l
    by (induction l) (simp_all add: ensure_custom_field_def)
  show ?thesis using same [of typed] all [of _ typed d] assms by (auto simp: ensure_custom_fields_def Let_def)
qed

text \<open>Upserting the same attributes again changes nothing. On a well-formed Contact table, once an upsert
  has succeeded, repeating it (at any later time) resolves the same Contact, reports it as not created and
  leaves the whole database as it is: no field, no Custom field and no event is added.\<close>

theorem upsert_idempotent:
  assumes "wf_contacts d" and "upsert now ws attrs d = (Inr (c', created), d')"
  shows "upsert later ws attrs d' = (Inr (c', False), d')"
proof -
  let ?a = "normalized attrs"
  have wf: "wf_contacts d'" using wf_upsert [OF assms(1), of now ws attrs] assms(2) by simp
  then have uniq: "alias_unique con_subject d'" "alias_unique con_email d'" "alias_unique con_phone d'"
    "distinct (map con_id (contacts d'))" by (simp_all add: wf_contacts_def)
  have named: "at_subject ?a \<noteq> None \<or> at_email ?a \<noteq> None \<or> at_phone ?a \<noteq> None"
  proof (rule ccontr)
    assume "\<not> ?thesis"
    then have "upsert now ws attrs d = (Inl IdentityRequired, d)" by (simp add: upsert_def contact_tx_def upsert_in_def Let_def)
    then show False using assms(2) by simp
  qed
  have keys: "map_option to_lower (trimmed (at_email attrs)) = at_email ?a" "trimmed (at_phone attrs) = at_phone ?a"
    "trimmed (at_subject attrs) = at_subject ?a" by (simp_all add: normalized_def)
  obtain typed d1 where e: "ensure_custom_fields ws (at_fields attrs) d = (typed, d1)" by fastforce
  have cd: "contacts d1 = contacts d" using ensure_fields_frame [OF e] by simp
  have main: "c' \<in> set (contacts d') \<and> con_workspace c' = ws \<and> custom_fields d' = custom_fields d1 \<and> enriched ?a typed c' = c' \<and>
     resolve_contact ws (at_subject attrs) (at_email attrs) (at_phone attrs) d' = Some c'"
    using assms(2)
  proof (cases rule: upsert_cases)
    case (filled typed2 d2 c)
    then have eq: "typed2 = typed" "d2 = d1" using e by simp_all
    have c: "c \<in> set (contacts d)" "con_workspace c = ws" using resolve_contactD [OF filled(2)] by simp_all
    have k: "con_id c' = con_id c" "con_workspace c' = ws" using filled(4) c by (simp_all add: enriched_def)
    have rows: "contacts d' = update_where (in_ws con_workspace ws (\<lambda>x. con_id x = con_id c)) (\<lambda>_. c') (contacts d)"
      and cf: "custom_fields d' = custom_fields d1"
      using filled(5) k eq cd by (auto simp: save_contact_def split: option.splits)
    have mem: "c' \<in> set (contacts d')" using c rows by (force simp: update_where_def in_ws_def)
    have old: "x = c' \<or> x \<in> set (contacts d)" if "x \<in> set (contacts d')" for x
      using that rows by (auto simp: update_where_def split: if_splits)
    have step: "(find_alias ws key v d = None \<longrightarrow> find_alias ws key v d' \<in> {None, Some c'}) \<and>
                (find_alias ws key v d = Some c \<longrightarrow> find_alias ws key v d' = Some c')"
      if u: "alias_unique key d'" and g: "key c' = filled (key c) g" for key v g
    proof (intro conjI impI)
      assume none: "find_alias ws key v d = None"
      show "find_alias ws key v d' \<in> {None, Some c'}"
      proof (cases "find_alias ws key v d'")
        case (Some x)
        then have x: "x \<in> set (contacts d')" "con_workspace x = ws" "v \<noteq> None" "key x = v" by (auto dest: find_aliasD)
        then have "x \<notin> set (contacts d)" using none by (auto simp: find_alias_def find_where_None_iff in_ws_def)
        then show ?thesis using old [OF x(1)] Some by simp
      qed simp
    next
      assume "find_alias ws key v d = Some c"
      then have "v \<noteq> None" "key c = v" by (auto dest: find_aliasD)
      then show "find_alias ws key v d' = Some c'"
        using g mem k uniq(4) by (intro find_alias_own [OF u]) (auto simp: filled_def)
    qed
    have key_filled: "key \<in> {con_subject, con_email, con_phone} \<Longrightarrow> \<exists>g. key c' = filled (key c) g" for key
      using filled(4) by (auto simp: enriched_def)
    have st: "(find_alias ws key v d = None \<longrightarrow> find_alias ws key v d' \<in> {None, Some c'}) \<and>
                (find_alias ws key v d = Some c \<longrightarrow> find_alias ws key v d' = Some c')"
      if mk: "key \<in> {con_subject, con_email, con_phone}" for key v
    proof -
      have u: "alias_unique key d'" using mk uniq by auto
      obtain g where "key c' = filled (key c) g" using key_filled [OF mk] by blast
      then show ?thesis using step [OF u] by blast
    qed
    have keys3: "con_subject \<in> {con_subject, con_email, con_phone}" "con_email \<in> {con_subject, con_email, con_phone}"
      "con_phone \<in> {con_subject, con_email, con_phone}" by (rule insertI1, (rule insertI2, rule insertI1), rule insertI2, rule insertI2, rule insertI1)
    have r: "resolve_contact ws (at_subject attrs) (at_email attrs) (at_phone attrs) d' = Some c'"
      unfolding resolve_contact_def
      by (rule first_hit_moves [OF filled(2) [unfolded resolve_contact_def] st [OF keys3(1)] st [OF keys3(3)] st [OF keys3(2)]])
    have "enriched ?a typed c' = c'" unfolding filled(4) eq by (rule enriched_idem)
    then show ?thesis using mem k cf r by simp
  next
    case (inserted typed2 d2)
    then have eq: "typed2 = typed" "d2 = d1" using e by simp_all
    note ins = inserted(4) [unfolded insert_contact_def Let_def]
    have k: "con_workspace c' = ws" "con_subject c' = at_subject ?a" "con_email c' = at_email ?a" "con_phone c' = at_phone ?a"
      "contacts d' = contacts d @ [c']" "custom_fields d' = custom_fields d1"
      using ins cd eq by (auto simp: publish_def split: if_splits option.splits)
    have "con_first_name c' = at_first ?a" "con_last_name c' = at_last ?a" "con_time_zone c' = at_zone ?a" "con_fields c' = map_of (rev typed)"
      using ins eq by (auto split: if_splits option.splits)
    then have same: "enriched ?a typed c' = c'" using k(2-4) by (cases c') (simp add: enriched_def)
    have own: "find_alias ws key (key c') d' = (if key c' = None then None else Some c')" if "alias_unique key d'" for key
    proof (cases "key c' = None")
      case True
      then show ?thesis by (simp add: find_alias_def)
    next
      case False
      have "c' \<in> set (contacts d')" using k(5) by simp
      from find_alias_own [OF that uniq(4) this k(1) refl False] show ?thesis by (simp only: False if_False)
    qed
    have "resolve_contact ws (at_subject attrs) (at_email attrs) (at_phone attrs) d' = Some c'"
      unfolding resolve_contact_def keys using named
      by (simp only: own [OF uniq(1), unfolded k(2)] own [OF uniq(2), unfolded k(3)] own [OF uniq(3), unfolded k(4)]) auto
    then show ?thesis using k same by simp
  qed
  have fields: "at_fields ?a = at_fields attrs" by (simp add: normalized_def)
  have r: "resolve_contact ws (at_subject ?a) (at_email ?a) (at_phone ?a) d' = Some c'"
    using main by (simp only: resolve_contact_def keys normalized_keys)
  have "ensure_custom_fields ws (at_fields ?a) d' = (typed, d')" using ensure_again [OF e] main fields by simp
  then show ?thesis
    using named main r save_own [OF wf] by (simp add: upsert_def contact_tx_def upsert_in_def Let_def)
qed

theorem upsert_idempotent_witness:
  "upsert 6 1 sample_attributes (snd (upsert 5 1 sample_attributes (empty_db\<lparr>workspaces := [sample_workspace 1]\<rparr>))) =
     (Inr (fst (projr (fst (upsert 5 1 sample_attributes (empty_db\<lparr>workspaces := [sample_workspace 1]\<rparr>)))), False),
      snd (upsert 5 1 sample_attributes (empty_db\<lparr>workspaces := [sample_workspace 1]\<rparr>)))"
proof -
  let ?d = "empty_db\<lparr>workspaces := [sample_workspace 1]\<rparr>"
  have wf: "wf_contacts ?d" by (simp add: wf_contacts_def alias_unique_def)
  have "\<exists>x d'. upsert 5 1 sample_attributes ?d = (Inr x, d')"
    by (simp add: upsert_def contact_tx_def upsert_in_def Let_def normalized_def sample_attributes_def ensure_custom_fields_def
        ensure_custom_field_def resolve_contact_def find_alias_def find_where_def insert_contact_def load_workspace_def sample_workspace_def
        conflict_of_def alias_taken_def exists_where_def trimmed_def trim_space_def trim_left_def trim_right_def is_space_def
        to_lower_def lower_char_def) blast
  then obtain c b d' where u: "upsert 5 1 sample_attributes ?d = (Inr (c, b), d')" by auto
  show ?thesis using upsert_idempotent [OF wf u, of 6] u by simp
qed

end
