(* ===== verification/EventLog.thy ===== *)
theory EventLog
  imports Contacts
begin

text \<open>
  How customer Events enter: \<open>internal/visitors\<close> (Identify and Collect) and \<open>internal/eventlog\<close> (Ingest and
  IngestEach). Each call publishes onto the outbox; the Event rows are written from there
  (\<open>EventConsumers\<close>). The two clock readings of one call are one time.
\<close>

section \<open>Visitors\<close>

datatype visitor_error = VisitorIdRequired | IdentifyNeedsKey | IdentifyContact contact_error | VisitorStorage

definition visitor_row :: "id \<Rightarrow> string \<Rightarrow> visitor \<Rightarrow> bool" where
  "visitor_row ws vid = in_ws vis_workspace ws (\<lambda>v. vis_visitor v = vid)"

definition find_or_create_visitor :: "time \<Rightarrow> id \<Rightarrow> string \<Rightarrow> db \<Rightarrow> (visitor_error + visitor) \<times> db" where
  "find_or_create_visitor now ws vid d =
     (case find_where (visitor_row ws vid) (visitors d) of
        Some v \<Rightarrow>
          (Inr (v\<lparr>vis_last_seen_at := now\<rparr>),
           d\<lparr>visitors := update_where (in_ws vis_workspace ws (\<lambda>x. vis_id x = vis_id v)) (\<lambda>x. x\<lparr>vis_last_seen_at := now\<rparr>) (visitors d)\<rparr>)
      | None \<Rightarrow>
          if vid = '''' \<or> load_workspace ws d = None then (Inl VisitorStorage, d)
          else (let v = \<lparr>vis_id = next_id d, vis_workspace = ws, vis_visitor = vid, vis_contact = None, vis_last_seen_at = now\<rparr>
                in (Inr v, d\<lparr>visitors := visitors d @ [v], next_id := next_id d + 1\<rparr>)))"

record identify_input =
  ii_visitor :: string
  ii_email :: "string option"
  ii_phone :: "string option"
  ii_subject :: "string option"
  ii_traits :: "(string \<times> json) list option"

definition identify_attributes :: "identify_input \<Rightarrow> attributes" where
  "identify_attributes i = \<lparr>at_subject = ii_subject i, at_email = ii_email i, at_phone = ii_phone i, at_first = None,
     at_last = None, at_zone = None, at_fields = ii_traits i, at_cleared = none_cleared\<rparr>"

definition bind_visitor :: "time \<Rightarrow> id \<Rightarrow> visitor \<Rightarrow> id \<Rightarrow> db \<Rightarrow> db" where
  "bind_visitor now ws v cid d =
     d\<lparr>visitors := update_where (in_ws vis_workspace ws (\<lambda>x. vis_id x = vis_id v))
         (\<lambda>x. x\<lparr>vis_contact := Some cid, vis_last_seen_at := now\<rparr>) (visitors d)\<rparr>"

definition stitch :: "id \<Rightarrow> string \<Rightarrow> id \<Rightarrow> db \<Rightarrow> db" where
  "stitch ws vid cid d =
     d\<lparr>events := update_where (in_ws ev_workspace ws (\<lambda>e. ev_visitor e = Some vid \<and> ev_contact e = None))
         (\<lambda>e. e\<lparr>ev_contact := Some cid\<rparr>) (events d)\<rparr>"

definition identify :: "time \<Rightarrow> id \<Rightarrow> identify_input \<Rightarrow> db \<Rightarrow> (visitor_error + id) \<times> db" where
  "identify now ws input =
     (let vid = trim_space (ii_visitor input) in
      if vid = '''' then (\<lambda>d. (Inl VisitorIdRequired, d))
      else contact_tx (\<lambda>d.
        case upsert_in now ws (identify_attributes input) d of
          (Inl IdentityRequired, d1) \<Rightarrow> (Inl IdentifyNeedsKey, d1)
        | (Inl e, d1) \<Rightarrow> (Inl (IdentifyContact e), d1)
        | (Inr (c, _), d1) \<Rightarrow>
            (case find_or_create_visitor now ws vid d1 of
               (Inl e, d2) \<Rightarrow> (Inl e, d2)
             | (Inr v, d2) \<Rightarrow> (Inr (con_id c), stitch ws vid (con_id c) (bind_visitor now ws v (con_id c) d2)))))"

text \<open>The Contact a device resolves to; \<open>None\<close> is the anonymous resolution.\<close>

definition resolve_identity :: "time \<Rightarrow> id \<Rightarrow> string \<Rightarrow> db \<Rightarrow> (visitor_error + contact option) \<times> db" where
  "resolve_identity now ws vid d =
     (case find_or_create_visitor now ws vid d of
        (Inl e, d1) \<Rightarrow> (Inl e, d1)
      | (Inr v, d1) \<Rightarrow> (Inr (case vis_contact v of None \<Rightarrow> None | Some cid \<Rightarrow> get_contact ws cid d1), d1))"

record collect_input =
  ci_visitor :: string
  ci_action :: string
  ci_properties :: properties
  ci_occurred :: "time option"

definition from_ptr :: "string option \<Rightarrow> string" where
  "from_ptr s = (case s of None \<Rightarrow> '''' | Some x \<Rightarrow> x)"

definition collected :: "id \<Rightarrow> string \<Rightarrow> contact option \<Rightarrow> collect_input \<Rightarrow> domain_event" where
  "collected ws vid res i = CollectedEvent
     \<lparr>ce_workspace = ws, ce_contact = (case res of None \<Rightarrow> 0 | Some c \<Rightarrow> con_id c), ce_visitor = vid,
      ce_subject = (case res of None \<Rightarrow> '''' | Some c \<Rightarrow> from_ptr (con_subject c)), ce_action = ci_action i,
      ce_email = (case res of None \<Rightarrow> '''' | Some c \<Rightarrow> from_ptr (con_email c)),
      ce_phone = (case res of None \<Rightarrow> '''' | Some c \<Rightarrow> from_ptr (con_phone c)),
      ce_properties = ci_properties i, ce_occurred = ci_occurred i\<rparr>"

definition collect_one :: "time \<Rightarrow> id \<Rightarrow> collect_input \<Rightarrow> db \<Rightarrow> (visitor_error + unit) \<times> db" where
  "collect_one now ws i =
     (let vid = trim_space (ci_visitor i) in
      contact_tx (\<lambda>d. case resolve_identity now ws vid d of
          (Inl e, d1) \<Rightarrow> (Inl e, d1)
        | (Inr res, d1) \<Rightarrow> (Inr (), publish now (collected ws vid res i) d1)))"

text \<open>One transaction per Event; the first that fails ends the call.\<close>

fun collect :: "time \<Rightarrow> id \<Rightarrow> collect_input list \<Rightarrow> db \<Rightarrow> visitor_error option \<times> db" where
  "collect now ws [] d = (None, d)"
| "collect now ws (i # is) d =
     (case collect_one now ws i d of (Inl e, d1) \<Rightarrow> (Some e, d1) | (Inr _, d1) \<Rightarrow> collect now ws is d1)"

section \<open>The Event log module\<close>

record event_input =
  in_subject :: string
  in_email :: "string option"
  in_phone :: "string option"
  in_action :: string
  in_occurred :: "time option"
  in_properties :: properties

definition ingested :: "id \<Rightarrow> id \<Rightarrow> event_input \<Rightarrow> domain_event" where
  "ingested ws cid i = CollectedEvent
     \<lparr>ce_workspace = ws, ce_contact = cid, ce_visitor = '''', ce_subject = in_subject i, ce_action = in_action i,
      ce_email = from_ptr (in_email i), ce_phone = from_ptr (in_phone i), ce_properties = in_properties i,
      ce_occurred = in_occurred i\<rparr>"

definition ingest_one :: "time \<Rightarrow> id \<Rightarrow> event_input \<Rightarrow> db \<Rightarrow> db" where
  "ingest_one now ws i d = publish now (ingested ws (resolve_id ws (in_subject i) (in_email i) (in_phone i) d) i) d"

definition ingest :: "time \<Rightarrow> id \<Rightarrow> event_input list \<Rightarrow> db \<Rightarrow> db" where
  "ingest now ws inputs d = fold (ingest_one now ws) inputs d"

text \<open>\<open>ErrInvalid\<close> is \<open>False\<close>.\<close>

fun ingest_each :: "time \<Rightarrow> id \<Rightarrow> event_input list \<Rightarrow> db \<Rightarrow> bool list \<times> db" where
  "ingest_each now ws [] d = ([], d)"
| "ingest_each now ws (i # is) d =
     (if trim_space (in_subject i) = '''' \<or> trim_space (in_action i) = ''''
      then (case ingest_each now ws is d of (rs, d') \<Rightarrow> (False # rs, d'))
      else (case ingest_each now ws is (ingest now ws [i] d) of (rs, d') \<Rightarrow> (True # rs, d')))"


section \<open>What Identify does to a device\<close>

lemma upsert_in_upsert: "upsert_in now ws a d = (Inr x, d1) \<Longrightarrow> upsert now ws a d = (Inr x, d1)"
  by (simp add: upsert_def contact_tx_def)

lemma ensure_fields_events:
  assumes "ensure_custom_fields ws kvs d = (typed, d1)"
  shows "events d1 = events d" and "visitors d1 = visitors d"
proof -
  have "events (fold (ensure_custom_field ws) l d) = events d \<and> visitors (fold (ensure_custom_field ws) l d) = visitors d" for l
    by (induction l arbitrary: d) (simp_all add: ensure_custom_field_def)
  then show "events d1 = events d" "visitors d1 = visitors d"
    using assms by (auto simp: ensure_custom_fields_def Let_def)
qed

lemma upserted_found:
  assumes "upsert now ws a d = (Inr (c, b), d1)"
  shows "con_workspace c = ws \<and> get_contact ws (con_id c) d1 \<noteq> None \<and> events d1 = events d \<and> visitors d1 = visitors d"
  using assms
proof (cases rule: upsert_cases)
  case (filled typed d2 c0)
  have w: "con_workspace c = ws" "con_id c = con_id c0" "c0 \<in> set (contacts d2)" "con_workspace c0 = ws"
    using resolve_contactD [OF filled(2)] filled(4) ensure_fields_frame [OF filled(1)] by (simp_all add: enriched_def)
  have "contacts d1 = update_where (in_ws con_workspace ws (\<lambda>x. con_id x = con_id c)) (\<lambda>_. c) (contacts d2)"
    using filled(5) w by (auto simp: save_contact_def split: option.splits)
  then have "c \<in> set (contacts d1)" using w by (force simp: update_where_def in_ws_def)
  then have "get_contact ws (con_id c) d1 \<noteq> None" using w by (auto simp: get_contact_def find_where_None_iff in_ws_def)
  moreover have "events d1 = events d2 \<and> visitors d1 = visitors d2"
    using filled(5) by (auto simp: save_contact_def split: option.splits)
  ultimately show ?thesis using w ensure_fields_events [OF filled(1)] by simp
next
  case (inserted typed d2)
  then show ?thesis using ensure_fields_events [OF inserted(1)]
    by (auto simp: insert_contact_def Let_def get_contact_def find_where_None_iff in_ws_def split: if_splits option.splits)
qed

lemma find_or_create_found:
  assumes "find_or_create_visitor now ws vid d = (Inr v, d1)"
  shows "(\<exists>v0. find_where (visitor_row ws vid) (visitors d1) = Some v0 \<and> vis_id v0 = vis_id v \<and> vis_contact v0 = vis_contact v \<and>
            vis_workspace v0 = ws) \<and> contacts d1 = contacts d \<and> events d1 = events d"
proof (cases "find_where (visitor_row ws vid) (visitors d)")
  case None
  then have "visitors d1 = visitors d @ [v]" "visitor_row ws vid v" "contacts d1 = contacts d" "events d1 = events d"
    using assms by (auto simp: find_or_create_visitor_def Let_def visitor_row_def in_ws_def split: if_splits)
  then show ?thesis using find_where_append [OF None, of v] by (simp add: visitor_row_def in_ws_def)
next
  case (Some v0)
  have row: "visitor_row ws vid v0" using Some by (auto dest: find_where_SomeD)
  have "find_where (visitor_row ws vid) (visitors d1) = Some (v0\<lparr>vis_last_seen_at := now\<rparr>)"
    using assms Some row by (auto simp: find_or_create_visitor_def find_where_update visitor_row_def in_ws_def)
  then show ?thesis using assms Some row by (auto simp: find_or_create_visitor_def visitor_row_def in_ws_def)
qed

text \<open>Identify binds the device and hands its past to the Contact. When it succeeds, exactly the Events of
  the Workspace the device left while anonymous now carry the Contact, every other Event row is untouched, and
  whatever the device collects next is published under that same Contact, whose row exists.\<close>

theorem identify_stitches:
  assumes "identify now ws input d = (Inr cid, d')" and "trim_space (ci_visitor i) = trim_space (ii_visitor input)"
  shows "events d' = map (\<lambda>e. if ev_workspace e = ws \<and> ev_visitor e = Some (trim_space (ii_visitor input)) \<and> ev_contact e = None
             then e\<lparr>ev_contact := Some cid\<rparr> else e) (events d) \<and>
    (\<exists>c d''. con_id c = cid \<and> con_workspace c = ws \<and> c \<in> set (contacts d') \<and> collect_one later ws i d' = (Inr (), d'') \<and>
       map env_event (outbox d'') = map env_event (outbox d') @ [collected ws (trim_space (ii_visitor input)) (Some c) i])"
proof -
  let ?vid = "trim_space (ii_visitor input)"
  obtain c b d1 v d2 where u: "upsert_in now ws (identify_attributes input) d = (Inr (c, b), d1)"
    and f: "find_or_create_visitor now ws ?vid d1 = (Inr v, d2)" and cid: "cid = con_id c"
    and d': "d' = stitch ws ?vid cid (bind_visitor now ws v cid d2)"
    using assms(1) by (auto simp: identify_def Let_def contact_tx_def split: if_splits prod.splits sum.splits contact_error.splits)
  have up: "con_workspace c = ws" "get_contact ws cid d1 \<noteq> None" "events d1 = events d"
    using upserted_found [OF upsert_in_upsert [OF u]] cid by simp_all
  obtain v0 where v0: "find_where (visitor_row ws ?vid) (visitors d2) = Some v0" "vis_id v0 = vis_id v" "vis_workspace v0 = ws"
    and same: "contacts d2 = contacts d1" "events d2 = events d1" using find_or_create_found [OF f] by blast
  have ev: "events d' = map (\<lambda>e. if ev_workspace e = ws \<and> ev_visitor e = Some ?vid \<and> ev_contact e = None
             then e\<lparr>ev_contact := Some cid\<rparr> else e) (events d)"
    by (simp add: d' stitch_def bind_visitor_def update_where_def in_ws_def same up(3))
  have con: "get_contact ws cid x = get_contact ws cid d1" if "contacts x = contacts d1" for x
    using that by (simp add: get_contact_def)
  obtain c' where c': "get_contact ws cid d1 = Some c'" using up(2) by blast
  let ?v = "v0\<lparr>vis_contact := Some cid, vis_last_seen_at := now\<rparr>"
  have "find_where (visitor_row ws ?vid) (visitors d') = Some ?v"
    using v0 by (simp add: d' stitch_def bind_visitor_def find_where_update visitor_row_def in_ws_def)
  then obtain d3 where f3: "find_or_create_visitor later ws ?vid d' = (Inr (?v\<lparr>vis_last_seen_at := later\<rparr>), d3)"
    and d3: "contacts d3 = contacts d'" "outbox d3 = outbox d'"
    by (simp add: find_or_create_visitor_def)
  have cd: "contacts d' = contacts d1" by (simp add: d' stitch_def bind_visitor_def same)
  have "resolve_identity later ws ?vid d' = (Inr (Some c'), d3)"
    using con [of d3] d3 cd c' by (simp add: resolve_identity_def f3)
  then have "collect_one later ws i d' = (Inr (), publish later (collected ws ?vid (Some c') i) d3)"
    by (simp add: collect_one_def assms(2) contact_tx_def Let_def)
  then show ?thesis using ev get_contact_SomeD [OF c'] cd d3 by (auto simp: publish_def)
qed

theorem identify_stitches_witness:
  "\<exists>cid d' c d''. identify 5 1 \<lparr>ii_visitor = ''dev'', ii_email = Some ''a@x.io'', ii_phone = None, ii_subject = None, ii_traits = None\<rparr>
     (empty_db\<lparr>workspaces := [sample_workspace 1]\<rparr>) = (Inr cid, d') \<and>
     collect_one 6 1 \<lparr>ci_visitor = ''dev'', ci_action = ''view'', ci_properties = Map.empty, ci_occurred = None\<rparr> d' = (Inr (), d'') \<and>
     map env_event (outbox d'') = map env_event (outbox d') @
       [collected 1 ''dev'' (Some c) \<lparr>ci_visitor = ''dev'', ci_action = ''view'', ci_properties = Map.empty, ci_occurred = None\<rparr>]"
proof -
  let ?in = "\<lparr>ii_visitor = ''dev'', ii_email = Some ''a@x.io'', ii_phone = None, ii_subject = None, ii_traits = None\<rparr>"
  let ?i = "\<lparr>ci_visitor = ''dev'', ci_action = ''view'', ci_properties = Map.empty, ci_occurred = None\<rparr>"
  let ?d = "empty_db\<lparr>workspaces := [sample_workspace 1]\<rparr>"
  have t: "trim_space ''dev'' = ''dev''" "trim_space ''a@x.io'' = ''a@x.io''" "to_lower ''a@x.io'' = ''a@x.io''" by code_simp+
  have "\<exists>cid d'. identify 5 1 ?in ?d = (Inr cid, d')"
    by (simp add: identify_def contact_tx_def upsert_in_def Let_def normalized_def identify_attributes_def t trimmed_def
        ensure_custom_fields_def resolve_contact_def find_alias_def find_where_def insert_contact_def load_workspace_def
        sample_workspace_def conflict_of_def alias_taken_def exists_where_def find_or_create_visitor_def publish_def
        split: sum.split prod.split)
  then obtain cid d' where i: "identify 5 1 ?in ?d = (Inr cid, d')" by blast
  from identify_stitches [OF i, of ?i 6] i show ?thesis by (simp add: t) blast
qed

end
