(* ===== verification/EventConsumers.thy ===== *)
theory EventConsumers
  imports EventLog Consent
begin

text \<open>
  The consumers of the domain-event outbox (\<open>internal/events/subscriber.go\<close>): Persist writes the Event rows,
  Suppress the Suppressions, the automations group queues \<open>EvaluateTrigger\<close> jobs and the webhooks group
  delivery jobs (\<open>internal/jobs/webhook.go\<close>, behind the Enterprise forwarder of \<open>ee/audit\<close>);
  \<open>internal/server/hooks_ses.go\<close> publishes the bounces and complaints SES reports; \<open>internal/webhooks\<close> keeps
  the endpoints. A consumer group reads the outbox in order, and a message its handler refuses is delivered
  again before any later one (\<open>drain\<close>, what the watermill-sql subscriber documents); any message may be
  delivered more than once.
\<close>

section \<open>Decoding and delivery\<close>

definition registry :: "string set" where
  "registry = {name_contact_created, name_contact_erased, name_email_sent, name_email_opened, name_email_clicked,
     name_email_unsubscribed, name_email_bounced, name_email_complained, name_marketing_confirmed, name_collected,
     name_audit_entry}"

datatype consume_error = UnknownEvent string | EventInvalid | WorkspaceGone | EnqueueRefused

definition decode_event :: "envelope \<Rightarrow> consume_error + domain_event" where
  "decode_event env = (if env_name env \<in> registry then Inr (env_event env) else Inl (UnknownEvent (env_name env)))"

fun drain :: "(envelope \<Rightarrow> 's \<Rightarrow> 'e option \<times> 's) \<Rightarrow> envelope list \<Rightarrow> 's \<Rightarrow> envelope list \<times> 's" where
  "drain handle [] s = ([], s)"
| "drain handle (env # envs) s =
     (case handle env s of (None, s') \<Rightarrow> drain handle envs s' | (Some _, s') \<Rightarrow> (env # envs, s'))"

section \<open>Persist\<close>

definition source_of :: "envelope \<Rightarrow> source_id" where
  "source_of env = (if env_dedup env = '''' then SrcUlid (env_id env) else SrcKey (env_dedup env))"

definition nonempty :: "string \<Rightarrow> string option" where
  "nonempty s = (if s = '''' then None else Some s)"

definition event_of :: "time \<Rightarrow> envelope \<Rightarrow> id \<Rightarrow> event_row" where
  "event_of now env i =
     (let p = project (env_event env) in
      \<lparr>ev_id = i, ev_workspace = env_workspace env, ev_source = source_of env, ev_contact = nonzero (p_contact p),
       ev_visitor = nonempty (p_visitor p), ev_subject = p_subject p, ev_email = nonempty (p_email p),
       ev_phone = nonempty (p_phone p), ev_action = p_action p, ev_properties = p_properties p,
       ev_occurred_at = Some (env_occurred env), ev_created_at = now\<rparr>)"

text \<open>The \<open>NotEmpty\<close> validator of \<open>action\<close> runs before the insert; a conflict on \<open>source_id\<close> inserts nothing.\<close>

definition persist :: "time \<Rightarrow> envelope \<Rightarrow> db \<Rightarrow> consume_error option \<times> db" where
  "persist now env d =
     (case decode_event env of
        Inl e \<Rightarrow> (Some e, d)
      | Inr ev \<Rightarrow>
         if unprojected ev then (None, d)
         else if p_action (project ev) = '''' then (Some EventInvalid, d)
         else if exists_where (\<lambda>r. ev_source r = source_of env) (events d) then (None, d)
         else if load_workspace (env_workspace env) d = None then (Some WorkspaceGone, d)
         else (None, d\<lparr>events := events d @ [event_of now env (next_id d)], next_id := next_id d + 1\<rparr>))"

section \<open>Suppress\<close>

definition suppression_reason_of :: "projection \<Rightarrow> suppression_reason option" where
  "suppression_reason_of p =
     (if p_action p = name_email_complained then Some ReasonComplaint
      else if p_action p = name_email_bounced \<and> p_properties p ''bounceKind'' = Some (JStr bounce_kind_permanent)
      then Some ReasonBounce else None)"

definition suppress_event :: "envelope \<Rightarrow> db \<Rightarrow> consume_error option \<times> db" where
  "suppress_event env d =
     (case decode_event env of
        Inl e \<Rightarrow> (Some e, d)
      | Inr ev \<Rightarrow>
         (let p = project ev; ws = env_workspace env; dest = normalize_destination (p_email p) in
          case suppression_reason_of p of
            None \<Rightarrow> (None, d)
          | Some reason \<Rightarrow>
              if dest = '''' \<or> exists_where (suppression_row ws dest) (suppressions d) then (None, d)
              else if load_workspace ws d = None then (Some WorkspaceGone, d)
              else (None, d\<lparr>suppressions := suppressions d @ [\<lparr>sup_id = next_id d, sup_workspace = ws,
                     sup_channel = ChEmail, sup_destination = dest, sup_reason = reason,
                     sup_contact = nonzero (p_contact p)\<rparr>], next_id := next_id d + 1\<rparr>)))"

section \<open>Automations\<close>

text \<open>\<open>OnEvent\<close>: the job queued for the Contact of an event; \<open>ok\<close> is river's answer.\<close>

definition automations_consumer :: "bool \<Rightarrow> envelope \<Rightarrow> (id \<times> id \<times> string) list \<Rightarrow> consume_error option \<times> (id \<times> id \<times> string) list" where
  "automations_consumer ok env jobs =
     (case decode_event env of
        Inl e \<Rightarrow> (Some e, jobs)
      | Inr ev \<Rightarrow>
         (let p = project ev in
          if unprojected ev \<or> p_contact p = 0 then (None, jobs)
          else if ok then (None, jobs @ [(env_workspace env, p_contact p, p_action p)]) else (Some EnqueueRefused, jobs)))"

section \<open>Webhooks\<close>

record webhook_payload =
  wp_id :: id
  wp_type :: string
  wp_occurred :: time
  wp_workspace :: id
  wp_subject :: string
  wp_contact :: id
  wp_data :: domain_event

record delivery_job =
  dj_endpoint :: id
  dj_event :: string
  dj_delivery :: id
  dj_body :: webhook_payload

fun masked_event :: "domain_event \<Rightarrow> domain_event" where
  "masked_event (AuditEntry e) = AuditEntry (mask_operator e)"
| "masked_event ev = ev"

definition delivery_name :: "envelope \<Rightarrow> string" where
  "delivery_name env = (if unprojected (env_event env) then env_name env else p_action (project (env_event env)))"

definition webhook_body :: "envelope \<Rightarrow> webhook_payload" where
  "webhook_body env =
     (let p = project (env_event env) in
      \<lparr>wp_id = env_id env, wp_type = delivery_name env, wp_occurred = env_occurred env, wp_workspace = env_workspace env,
       wp_subject = p_subject p, wp_contact = p_contact p, wp_data = masked_event (env_event env)\<rparr>)"

definition matches_event :: "string list \<Rightarrow> string \<Rightarrow> bool" where
  "matches_event filters name = (if filters = [] then name \<noteq> name_audit_entry else name \<in> set filters)"

text \<open>The jobs are inserted one by one; \<open>accepts\<close> is river's answer for an endpoint, and the first refusal ends
  the call with the jobs before it queued.\<close>

fun insert_deliveries :: "(id \<Rightarrow> bool) \<Rightarrow> delivery_job list \<Rightarrow> delivery_job list \<Rightarrow> consume_error option \<times> delivery_job list" where
  "insert_deliveries accepts [] jobs = (None, jobs)"
| "insert_deliveries accepts (j # js) jobs =
     (if accepts (dj_endpoint j) then insert_deliveries accepts js (jobs @ [j]) else (Some EnqueueRefused, jobs))"

definition dispatch :: "(id \<Rightarrow> bool) \<Rightarrow> id \<Rightarrow> string \<Rightarrow> id \<Rightarrow> webhook_payload \<Rightarrow> db \<Rightarrow> delivery_job list \<Rightarrow> consume_error option \<times> delivery_job list" where
  "dispatch accepts ws name delivery body d =
     insert_deliveries accepts
       (map (\<lambda>e. \<lparr>dj_endpoint = wh_id e, dj_event = name, dj_delivery = delivery, dj_body = body\<rparr>)
         (filter (\<lambda>e. matches_event (wh_event_types e) name) (filter (in_ws wh_workspace ws wh_enabled) (webhook_endpoints d))))"

text \<open>\<open>Forwarder\<close>: without the audit feature no delivery named \<open>audit.entry\<close> is queued.\<close>

definition forward :: "bool \<Rightarrow> (id \<Rightarrow> bool) \<Rightarrow> id \<Rightarrow> string \<Rightarrow> id \<Rightarrow> webhook_payload \<Rightarrow> db \<Rightarrow> delivery_job list \<Rightarrow> consume_error option \<times> delivery_job list" where
  "forward licensed accepts ws name delivery body d jobs =
     (if name = name_audit_entry \<and> \<not> licensed then (None, jobs) else dispatch accepts ws name delivery body d jobs)"

definition webhooks_consumer :: "bool \<Rightarrow> (id \<Rightarrow> bool) \<Rightarrow> db \<Rightarrow> envelope \<Rightarrow> delivery_job list \<Rightarrow> consume_error option \<times> delivery_job list" where
  "webhooks_consumer licensed accepts d env jobs =
     (case decode_event env of
        Inl e \<Rightarrow> (Some e, jobs)
      | Inr _ \<Rightarrow> forward licensed accepts (env_workspace env) (delivery_name env) (env_id env) (webhook_body env) d jobs)"

text \<open>\<open>DeliverWebhookWorker.Work\<close>: an endpoint that is gone or disabled drops the delivery. \<open>post\<close> is the signed
  HTTP POST and \<open>open_secret\<close> the cipher; \<open>True\<close> asks river to retry.\<close>

definition deliver_webhook ::
  "(string \<Rightarrow> string option) \<Rightarrow> (string \<Rightarrow> string \<Rightarrow> delivery_job \<Rightarrow> bool) \<Rightarrow> delivery_job \<Rightarrow> db \<Rightarrow> bool \<times> (string \<times> delivery_job) list" where
  "deliver_webhook open_secret post j d =
     (case find_where (\<lambda>e. wh_id e = dj_endpoint j) (webhook_endpoints d) of
        None \<Rightarrow> (False, [])
      | Some e \<Rightarrow>
         if \<not> wh_enabled e then (False, [])
         else (case open_secret (wh_secret e) of
                 None \<Rightarrow> (True, [])
               | Some secret \<Rightarrow> (\<not> post (wh_url e) secret j, [(wh_url e, j)])))"

section \<open>Webhook endpoints\<close>

datatype webhook_error = InvalidURL | AuditNeedsLicense | WebhookNotFound | WebhookStorage

text \<open>\<open>parse_url\<close> is \<open>url.Parse\<close>, its scheme and host; \<open>seal\<close> and \<open>unseal\<close> are the cipher and \<open>secret\<close> the fresh
  random secret. The module's result carries the decrypted secret.\<close>

definition valid_webhook_url :: "(string \<Rightarrow> (string \<times> string) option) \<Rightarrow> string \<Rightarrow> bool" where
  "valid_webhook_url parse_url raw =
     (case parse_url raw of None \<Rightarrow> False
      | Some (scheme, host) \<Rightarrow> (scheme = ''http'' \<or> scheme = ''https'') \<and> host \<noteq> '''')"

definition check_types :: "bool \<Rightarrow> string list \<Rightarrow> webhook_error option" where
  "check_types licensed types = (if name_audit_entry \<in> set types \<and> \<not> licensed then Some AuditNeedsLicense else None)"

definition open_endpoint :: "(string \<Rightarrow> string option) \<Rightarrow> webhook_endpoint \<Rightarrow> webhook_error + webhook_endpoint \<times> string" where
  "open_endpoint unseal e = (case unseal (wh_secret e) of None \<Rightarrow> Inl WebhookStorage | Some s \<Rightarrow> Inr (e, s))"

definition create_webhook ::
  "(string \<Rightarrow> (string \<times> string) option) \<Rightarrow> (string \<Rightarrow> string) \<Rightarrow> (string \<Rightarrow> string option) \<Rightarrow> bool \<Rightarrow> string \<Rightarrow> id
     \<Rightarrow> string \<Rightarrow> string list \<Rightarrow> bool option \<Rightarrow> db \<Rightarrow> (webhook_error + webhook_endpoint \<times> string) \<times> db" where
  "create_webhook parse_url seal unseal licensed secret ws url types enabled d =
     (if \<not> valid_webhook_url parse_url url then (Inl InvalidURL, d)
      else case check_types licensed types of
        Some e \<Rightarrow> (Inl e, d)
      | None \<Rightarrow>
         if load_workspace ws d = None then (Inl WebhookStorage, d)
         else (let e = \<lparr>wh_id = next_id d, wh_workspace = ws, wh_url = url, wh_secret = seal secret, wh_event_types = types,
                        wh_enabled = (case enabled of None \<Rightarrow> True | Some b \<Rightarrow> b)\<rparr>
               in (open_endpoint unseal e, d\<lparr>webhook_endpoints := webhook_endpoints d @ [e], next_id := next_id d + 1\<rparr>)))"

definition endpoint_row :: "id \<Rightarrow> id \<Rightarrow> webhook_endpoint \<Rightarrow> bool" where
  "endpoint_row ws eid = in_ws wh_workspace ws (\<lambda>e. wh_id e = eid)"

definition update_webhook ::
  "(string \<Rightarrow> (string \<times> string) option) \<Rightarrow> (string \<Rightarrow> string option) \<Rightarrow> bool \<Rightarrow> id \<Rightarrow> id
     \<Rightarrow> string option \<Rightarrow> string list option \<Rightarrow> bool option \<Rightarrow> db \<Rightarrow> (webhook_error + webhook_endpoint \<times> string) \<times> db" where
  "update_webhook parse_url unseal licensed ws eid url types enabled d =
     (if \<exists>u. url = Some u \<and> \<not> valid_webhook_url parse_url u then (Inl InvalidURL, d)
      else case check_types licensed (case types of None \<Rightarrow> [] | Some t \<Rightarrow> t) of
        Some e \<Rightarrow> (Inl e, d)
      | None \<Rightarrow>
         (case find_where (endpoint_row ws eid) (webhook_endpoints d) of
            None \<Rightarrow> (Inl WebhookNotFound, d)
          | Some e0 \<Rightarrow>
             (let f = (\<lambda>e. e\<lparr>wh_url := (case url of None \<Rightarrow> wh_url e | Some u \<Rightarrow> u),
                     wh_event_types := (case types of None \<Rightarrow> wh_event_types e | Some t \<Rightarrow> t),
                     wh_enabled := (case enabled of None \<Rightarrow> wh_enabled e | Some b \<Rightarrow> b)\<rparr>)
              in (open_endpoint unseal (f e0),
                  d\<lparr>webhook_endpoints := update_where (endpoint_row ws eid) f (webhook_endpoints d)\<rparr>))))"

definition delete_webhook :: "id \<Rightarrow> id \<Rightarrow> db \<Rightarrow> webhook_error option \<times> db" where
  "delete_webhook ws eid d =
     (if exists_where (endpoint_row ws eid) (webhook_endpoints d)
      then (None, d\<lparr>webhook_endpoints := delete_where (endpoint_row ws eid) (webhook_endpoints d)\<rparr>)
      else (Some WebhookNotFound, d))"

section \<open>SES notifications\<close>

text \<open>The decoded SES message. \<open>source_domain\<close> is the address parser's domain of the From address.\<close>

record ses_notification =
  sn_notification_type :: string
  sn_event_type :: string
  sn_source :: string
  sn_bounce :: "(string \<times> string list) option"
  sn_complaint :: "string list option"

record ses_failure =
  sf_action :: string
  sf_email :: string
  sf_kind :: string
  sf_domain :: string

definition parse_ses_notification :: "(string \<Rightarrow> string) \<Rightarrow> ses_notification \<Rightarrow> ses_failure list" where
  "parse_ses_notification source_domain n =
     (let typ = (if sn_notification_type n = '''' then sn_event_type n else sn_notification_type n);
          dom = source_domain (sn_source n) in
      if typ = ''Bounce'' then
        (case sn_bounce n of None \<Rightarrow> []
         | Some (bounce_type, rcpts) \<Rightarrow>
            map (\<lambda>a. \<lparr>sf_action = name_email_bounced, sf_email = a,
                sf_kind = (if bounce_type = ''Permanent'' then bounce_kind_permanent else bounce_kind_transient), sf_domain = dom\<rparr>) rcpts)
      else if typ = ''Complaint'' then
        (case sn_complaint n of None \<Rightarrow> []
         | Some rcpts \<Rightarrow> map (\<lambda>a. \<lparr>sf_action = name_email_complained, sf_email = a, sf_kind = '''', sf_domain = dom\<rparr>) rcpts)
      else [])"

text \<open>\<open>False\<close> is the lookup that finds several Contacts; the caller then answers 5xx.\<close>

definition publish_failure :: "time \<Rightarrow> id \<Rightarrow> string \<Rightarrow> ses_failure \<Rightarrow> db \<Rightarrow> bool \<times> db" where
  "publish_failure now ws message_id f d =
     (let email = to_lower (trim_space (sf_email f)) in
      if email = '''' then (True, d)
      else
        (let rows = filter (in_ws con_workspace ws (\<lambda>c. map_option to_lower (con_email c) = Some email)) (contacts d);
             event = (\<lambda>cid. EmailDeliveryFailure \<lparr>df_action = sf_action f, df_workspace = ws, df_contact = cid, df_email = email,
                       df_bounce_kind = sf_kind f, df_provider = ''ses'', df_domain = sf_domain f,
                       df_dedup = message_id @ ''/'' @ email\<rparr>) in
         case rows of
           [] \<Rightarrow> (True, publish now (event 0) d)
         | [c] \<Rightarrow> (True, publish now (event (con_id c)) d)
         | _ \<Rightarrow> (False, d)))"

fun publish_failures :: "time \<Rightarrow> id \<Rightarrow> string \<Rightarrow> ses_failure list \<Rightarrow> db \<Rightarrow> bool \<times> db" where
  "publish_failures now ws message_id [] d = (True, d)"
| "publish_failures now ws message_id (f # fs) d =
     (case publish_failure now ws message_id f d of
        (True, d') \<Rightarrow> publish_failures now ws message_id fs d'
      | (False, d') \<Rightarrow> (False, d'))"

definition handle_notification :: "(string \<Rightarrow> string) \<Rightarrow> time \<Rightarrow> id \<Rightarrow> string \<Rightarrow> ses_notification \<Rightarrow> db \<Rightarrow> bool \<times> db" where
  "handle_notification source_domain now ws message_id n d =
     publish_failures now ws message_id (parse_ses_notification source_domain n) d"


section \<open>The Event log holds each fact once\<close>

definition deliver_all :: "(time \<times> envelope) list \<Rightarrow> db \<Rightarrow> db" where
  "deliver_all ds d = fold (\<lambda>(t, env) d. snd (persist t env d)) ds d"

definition stored :: "envelope \<Rightarrow> db \<Rightarrow> bool" where
  "stored env d \<longleftrightarrow> exists_where (\<lambda>r. ev_source r = source_of env) (events d)"

text \<open>An envelope the consumer can store.\<close>

definition storable :: "envelope \<Rightarrow> db \<Rightarrow> bool" where
  "storable env d \<longleftrightarrow> env_name env \<in> registry \<and> \<not> unprojected (env_event env) \<and> p_action (project (env_event env)) \<noteq> '''' \<and>
     load_workspace (env_workspace env) d \<noteq> None"

lemma persist_cases:
  "(events (snd (persist t env d)) = events d \<or>
      storable env d \<and> \<not> stored env d \<and> (\<exists>i. events (snd (persist t env d)) = events d @ [event_of t env i])) \<and>
   (storable env d \<longrightarrow> stored env (snd (persist t env d))) \<and> workspaces (snd (persist t env d)) = workspaces d"
  by (auto simp: persist_def decode_event_def storable_def stored_def exists_where_iff event_of_def Let_def split: sum.splits if_splits)

lemma event_of_source [simp]: "ev_source (event_of t env i) = source_of env"
  by (simp add: event_of_def Let_def)

text \<open>C22: the Event log is exactly-once over at-least-once delivery. However often and in whatever order the
  envelopes are delivered to Persist, the rows it had stay, the rows it adds each come from a delivered
  envelope, no source id (dedup key, or envelope id where there is none) has two rows, and every storable
  envelope delivered at least once has its row; delivering it all again changes nothing.\<close>

theorem persist_once:
  assumes "distinct (map ev_source (events d))"
  shows "\<exists>rows. events (deliver_all ds d) = events d @ rows \<and> distinct (map ev_source (events d @ rows)) \<and>
     (\<forall>r \<in> set rows. \<exists>(t, env) \<in> set ds. \<exists>i. r = event_of t env i) \<and>
     (\<forall>(t, env) \<in> set ds. storable env d \<longrightarrow> stored env (deliver_all ds d)) \<and>
     events (deliver_all ds (deliver_all ds d)) = events (deliver_all ds d)"
proof -
  have main: "\<exists>rows. events (deliver_all l x) = events x @ rows \<and> distinct (map ev_source (events x @ rows)) \<and>
     (\<forall>r \<in> set rows. \<exists>(t, env) \<in> set l. \<exists>i. r = event_of t env i) \<and> workspaces (deliver_all l x) = workspaces x \<and>
     (\<forall>(t, env) \<in> set l. storable env x \<longrightarrow> stored env (deliver_all l x))"
    if "distinct (map ev_source (events x))" for l x
    using that
  proof (induction l arbitrary: x)
    case (Cons te l)
    obtain t env where te: "te = (t, env)" by fastforce
    let ?y = "snd (persist t env x)"
    note pc = persist_cases [of t env x]
    obtain new where new: "events ?y = events x @ new" "distinct (map ev_source (events ?y))"
      and src: "\<forall>r \<in> set new. \<exists>i. r = event_of t env i"
    proof (cases "events ?y = events x")
      case True
      then show thesis using that [of "[]"] Cons.prems by simp
    next
      case False
      then obtain i where i: "events ?y = events x @ [event_of t env i]" "\<not> stored env x" using pc by blast
      then have "source_of env \<notin> ev_source ` set (events x)" by (auto simp: stored_def exists_where_iff)
      then show thesis using that [of "[event_of t env i]"] Cons.prems i(1) by auto
    qed
    have ws: "workspaces ?y = workspaces x" using pc by blast
    have so: "storable e ?y = storable e x" for e by (simp add: storable_def load_workspace_def ws)
    from Cons.IH [OF new(2)] obtain rows where rows: "events (deliver_all l ?y) = events ?y @ rows"
        "distinct (map ev_source (events ?y @ rows))" "\<forall>r \<in> set rows. \<exists>(t, env) \<in> set l. \<exists>i. r = event_of t env i"
        "workspaces (deliver_all l ?y) = workspaces ?y" "\<forall>(t, env) \<in> set l. storable env ?y \<longrightarrow> stored env (deliver_all l ?y)"
      by blast
    have step: "deliver_all (te # l) x = deliver_all l ?y" by (simp add: deliver_all_def te)
    have keep: "stored env ?y \<Longrightarrow> stored env (deliver_all l ?y)" using rows(1) by (auto simp: stored_def exists_where_iff)
    have first: "storable env x \<longrightarrow> stored env (deliver_all l ?y)" using pc keep by blast
    have "\<forall>(t, env) \<in> set (te # l). storable env x \<longrightarrow> stored env (deliver_all (te # l) x)"
      using rows(5) first so unfolding step by (auto simp: te)
    moreover have "\<forall>r \<in> set (new @ rows). \<exists>(t, env) \<in> set (te # l). \<exists>i. r = event_of t env i"
      using src rows(3) by (fastforce simp: te)
    ultimately show ?case
      using rows(1,2,4) new(1) ws by (intro exI [of _ "new @ rows"]) (simp add: step)
  qed (simp add: deliver_all_def)
  obtain rows where rows: "events (deliver_all ds d) = events d @ rows" "distinct (map ev_source (events d @ rows))"
      "\<forall>r \<in> set rows. \<exists>(t, env) \<in> set ds. \<exists>i. r = event_of t env i" "workspaces (deliver_all ds d) = workspaces d"
      "\<forall>(t, env) \<in> set ds. storable env d \<longrightarrow> stored env (deliver_all ds d)"
    using main [OF assms, of ds] by blast
  have again: "events (deliver_all l x) = events x"
    if "\<forall>(t, env) \<in> set l. storable env x \<longrightarrow> stored env x" for l x
    using that
  proof (induction l arbitrary: x)
    case (Cons te l)
    obtain t env where te: "te = (t, env)" by fastforce
    let ?y = "snd (persist t env x)"
    have same: "events ?y = events x" "workspaces ?y = workspaces x" using persist_cases [of t env x] Cons.prems by (auto simp: te)
    then have "storable e ?y = storable e x \<and> stored e ?y = stored e x" for e by (simp add: storable_def stored_def load_workspace_def)
    then have "events (deliver_all l ?y) = events ?y" using Cons.prems by (intro Cons.IH) auto
    then show ?case using same by (simp add: deliver_all_def te)
  qed (simp add: deliver_all_def)
  have so: "storable e (deliver_all ds d) = storable e d" for e by (simp add: storable_def load_workspace_def rows(4))
  have "events (deliver_all ds (deliver_all ds d)) = events (deliver_all ds d)" using rows(5) by (intro again) (auto simp: so)
  then show ?thesis using rows by blast
qed

section \<open>A refused event\<close>

text \<open>An Event without an action stops the Event log. Collect accepts it from any device (as Ingest does),
  nothing refuses it before the outbox, and the row validator of Persist refuses it on every delivery: from
  then on, for every Workspace, no envelope published after it is persisted, whatever the time, the state of
  the database and the envelopes behind it.\<close>

theorem empty_action_stops_log:
  assumes "trim_space (ci_visitor i) \<noteq> ''''" and "ci_action i = ''''" and "load_workspace ws d \<noteq> None"
  shows "\<exists>d' env. collect now ws [i] d = (None, d') \<and> outbox d' = outbox d @ [env] \<and>
     (\<forall>t later x. drain (persist t) (env # later) x = (env # later, x))"
proof -
  let ?vid = "trim_space (ci_visitor i)"
  obtain v d1 where f: "find_or_create_visitor now ws ?vid d = (Inr v, d1)" and o: "outbox d1 = outbox d"
    using assms(1,3) by (cases "find_where (visitor_row ws ?vid) (visitors d)") (auto simp: find_or_create_visitor_def Let_def)
  obtain res where r: "resolve_identity now ws ?vid d = (Inr res, d1)" by (simp add: resolve_identity_def f)
  let ?env = "make_envelope (next_id d1) now (collected ws ?vid res i)"
  have c: "collect now ws [i] d = (None, publish now (collected ws ?vid res i) d1)"
    by (simp add: collect_one_def contact_tx_def Let_def r)
  have bad: "persist t ?env x = (Some EventInvalid, x)" for t x
    by (simp add: persist_def decode_event_def registry_def collected_def assms(2))
  have "drain (persist t) (?env # later) x = (?env # later, x)" for t later x by (simp add: bad)
  then show ?thesis using c o by (auto simp: publish_def)
qed

theorem empty_action_stops_log_witness:
  "\<exists>d' env. collect 5 1 [\<lparr>ci_visitor = ''dev'', ci_action = '''', ci_properties = Map.empty, ci_occurred = None\<rparr>]
       (empty_db\<lparr>workspaces := [sample_workspace 1]\<rparr>) = (None, d') \<and> outbox d' = [env] \<and>
     (\<forall>t later x. drain (persist t) (env # later) x = (env # later, x))"
proof -
  have t: "trim_space ''dev'' = ''dev''" by code_simp
  show ?thesis
    using empty_action_stops_log [of "\<lparr>ci_visitor = ''dev'', ci_action = '''', ci_properties = Map.empty, ci_occurred = None\<rparr>" 1
        "empty_db\<lparr>workspaces := [sample_workspace 1]\<rparr>" 5] t
    by (simp add: load_workspace_def find_where_def sample_workspace_def)
qed

section \<open>Bounces and complaints\<close>

definition suppresses :: "ses_failure \<Rightarrow> bool" where
  "suppresses f \<longleftrightarrow> sf_action f = name_email_complained \<or> sf_action f = name_email_bounced \<and> sf_kind f = bounce_kind_permanent"

lemma suppress_event_blocks:
  assumes "env_name env \<in> registry" and "suppression_reason_of (project (env_event env)) = Some reason"
    and "normalize_destination (p_email (project (env_event env))) = dest" and "dest \<noteq> ''''"
    and "load_workspace (env_workspace env) d = Some w"
  shows "\<exists>d'. suppress_event env d = (None, d') \<and> workspaces d' = workspaces d \<and>
     exists_where (suppression_row (env_workspace env) dest) (suppressions d') \<and>
     (exists_where (suppression_row (env_workspace env) dest) (suppressions d) \<longrightarrow> d' = d)"
  using assms by (auto simp: suppress_event_def decode_event_def Let_def exists_where_iff suppression_row_def in_ws_def)

lemma suppressed_verdict:
  assumes "exists_where (suppression_row ws (normalize_destination x)) (suppressions d)" and "load_workspace ws d = Some w"
    and "normalize_destination x \<noteq> ''''"
  shows "check_eligible ws d ChEmail x source = Inr \<lparr>dec_eligible = False, dec_reason = reason_suppressed\<rparr>"
  using assms is_suppressed_iff [of d ws "normalize_destination x"]
  by (simp add: check_eligible_def Let_def layers_def reason_names)


definition project_failure_properties :: "ses_failure \<Rightarrow> properties" where
  "project_failure_properties f = put_str ''sendingDomain'' (sf_domain f)
     (put_str ''provider'' ''ses'' (put_str ''bounceKind'' (sf_kind f) Map.empty))"

lemma publish_failures_outbox:
  assumes "publish_failures now ws mid fs d = (True, d')" and "f \<in> set fs" and "to_lower (trim_space (sf_email f)) \<noteq> ''''"
  shows "\<exists>env \<in> set (outbox d'). env_workspace env = ws \<and> env_name env = sf_action f \<and>
     p_action (project (env_event env)) = sf_action f \<and> p_email (project (env_event env)) = to_lower (trim_space (sf_email f)) \<and>
     p_properties (project (env_event env)) = project_failure_properties f"
  using assms
proof (induction fs arbitrary: d)
  case (Cons g gs)
  obtain d1 where p: "publish_failure now ws mid g d = (True, d1)" and rest: "publish_failures now ws mid gs d1 = (True, d')"
    using Cons.prems(1) by (auto split: prod.splits bool.splits)
  have grow: "set (outbox x) \<subseteq> set (outbox y)" if "publish_failures now ws mid l x = (True, y)" for l x y
    using that
  proof (induction l arbitrary: x)
    case (Cons h l)
    obtain z where "publish_failure now ws mid h x = (True, z)" "publish_failures now ws mid l z = (True, y)"
      using Cons.prems by (auto split: prod.splits bool.splits)
    moreover from this(1) have "set (outbox x) \<subseteq> set (outbox z)"
      by (auto simp: publish_failure_def Let_def split: if_splits list.splits)
    ultimately show ?case using Cons.IH by blast
  qed simp
  show ?case
  proof (cases "f = g")
    case True
    then have "\<exists>env \<in> set (outbox d1). env_workspace env = ws \<and> env_name env = sf_action f \<and>
       p_action (project (env_event env)) = sf_action f \<and> p_email (project (env_event env)) = to_lower (trim_space (sf_email f)) \<and>
       p_properties (project (env_event env)) = project_failure_properties f"
      using p Cons.prems(3) by (auto simp: publish_failure_def Let_def no_projection_def project_failure_properties_def split: if_splits list.splits)
    then show ?thesis using grow [OF rest] by blast
  next
    case False
    then show ?thesis using Cons.IH [OF rest _ Cons.prems(3)] Cons.prems(2) by simp
  qed
qed simp



theorem persist_once_witness:
  "\<exists>rows. events (deliver_all [(5, make_envelope 3 4 (ContactCreated 1 7 ''a@x.io'')), (6, make_envelope 3 4 (ContactCreated 1 7 ''a@x.io''))]
       (empty_db\<lparr>workspaces := [sample_workspace 1]\<rparr>)) = rows \<and> distinct (map ev_source rows) \<and> rows \<noteq> []"
proof -
  let ?e = "make_envelope 3 4 (ContactCreated 1 7 ''a@x.io'')" and ?d = "empty_db\<lparr>workspaces := [sample_workspace 1]\<rparr>"
  have st: "storable ?e ?d"
    by (simp add: storable_def registry_def no_projection_def event_names load_workspace_def find_where_def sample_workspace_def)
  have d: "distinct (map ev_source (events ?d))" by simp
  obtain rows where r: "events (deliver_all [(5, ?e), (6, ?e)] ?d) = events ?d @ rows" "distinct (map ev_source (events ?d @ rows))"
    and s: "stored ?e (deliver_all [(5, ?e), (6, ?e)] ?d)"
    using persist_once [OF d, of "[(5, ?e), (6, ?e)]"] st by auto
  have "rows \<noteq> []" using s r(1) by (auto simp: stored_def exists_where_iff)
  then show ?thesis using r by auto
qed

definition sample_bounce :: ses_notification where
  "sample_bounce = \<lparr>sn_notification_type = '''', sn_event_type = ''Bounce'', sn_source = ''news@acme.io'',
     sn_bounce = Some (''Permanent'', ['' A@x.io'']), sn_complaint = None\<rparr>"


text \<open>An Event a browser collects counts as a provider's complaint. Collect takes any action, and Suppress
  looks at the projected action only: when an identified device collects an Event named
  \<open>email.complained\<close>, its Contact's address is suppressed as soon as the suppression group reads it, for
  every source and for transactional mail.\<close>

theorem collected_complaint_suppresses:
  assumes "ci_action i = name_email_complained" and "resolve_identity now ws (trim_space (ci_visitor i)) d = (Inr (Some c), d1)"
    and "con_email c = Some x" and "normalize_destination x \<noteq> ''''"
  shows "\<exists>d' env. collect now ws [i] d = (None, d') \<and> env \<in> set (outbox d') \<and>
    (\<forall>later w. load_workspace ws later = Some w \<longrightarrow> (\<exists>later'. suppress_event env later = (None, later') \<and>
       check_eligible ws later' ChEmail x source = Inr \<lparr>dec_eligible = False, dec_reason = reason_suppressed\<rparr>))"
proof -
  let ?ev = "collected ws (trim_space (ci_visitor i)) (Some c) i"
  let ?env = "make_envelope (next_id d1) now ?ev"
  have c: "collect now ws [i] d = (None, publish now ?ev d1)"
    by (simp add: collect_one_def contact_tx_def Let_def assms(2))
  have p: "p_action (project ?ev) = name_email_complained" "p_email (project ?ev) = x"
    by (simp_all add: collected_def assms(1,3) from_ptr_def)
  have e: "env_workspace ?env = ws" "env_event ?env = ?ev" "env_name ?env \<in> registry"
    by (simp_all add: collected_def registry_def)
  have r: "suppression_reason_of (project (env_event ?env)) = Some ReasonComplaint"
    unfolding e(2) suppression_reason_of_def p(1) by simp
  have dest: "normalize_destination (p_email (project (env_event ?env))) = normalize_destination x" unfolding e(2) p(2) by simp
  have "\<exists>later'. suppress_event ?env later = (None, later') \<and>
       check_eligible ws later' ChEmail x source = Inr \<lparr>dec_eligible = False, dec_reason = reason_suppressed\<rparr>"
    if w: "load_workspace ws later = Some w" for later w
  proof -
    obtain y where y: "suppress_event ?env later = (None, y)" "workspaces y = workspaces later"
        "exists_where (suppression_row ws (normalize_destination x)) (suppressions y)"
      using suppress_event_blocks [OF e(3) r dest assms(4), of later w] w e(1) by auto
    have "load_workspace ws y = Some w" using w y(2) by (simp add: load_workspace_def)
    then show ?thesis using y suppressed_verdict [OF y(3) _ assms(4)] by blast
  qed
  moreover have "?env \<in> set (outbox (publish now ?ev d1))" by simp
  ultimately show ?thesis using c by blast
qed

theorem collected_complaint_suppresses_witness:
  "\<exists>d' env. collect 5 1 [\<lparr>ci_visitor = ''dev'', ci_action = name_email_complained, ci_properties = Map.empty, ci_occurred = None\<rparr>]
       (empty_db\<lparr>workspaces := [sample_workspace 1], contacts := [sample_contact 7 1 ''a@x.io''],
          visitors := [\<lparr>vis_id = 8, vis_workspace = 1, vis_visitor = ''dev'', vis_contact = Some 7, vis_last_seen_at = 0\<rparr>]\<rparr>) = (None, d') \<and>
     env \<in> set (outbox d') \<and> (\<exists>later'. suppress_event env (empty_db\<lparr>workspaces := [sample_workspace 1]\<rparr>) = (None, later') \<and>
       check_eligible 1 later' ChEmail ''a@x.io'' '''' = Inr \<lparr>dec_eligible = False, dec_reason = reason_suppressed\<rparr>)"
proof -
  let ?i = "\<lparr>ci_visitor = ''dev'', ci_action = name_email_complained, ci_properties = Map.empty, ci_occurred = None\<rparr>"
  let ?d = "empty_db\<lparr>workspaces := [sample_workspace 1], contacts := [sample_contact 7 1 ''a@x.io''],
          visitors := [\<lparr>vis_id = 8, vis_workspace = 1, vis_visitor = ''dev'', vis_contact = Some 7, vis_last_seen_at = 0\<rparr>]\<rparr>"
  have t: "trim_space ''dev'' = ''dev''" "normalize_destination ''a@x.io'' = ''a@x.io''" by code_simp+
  obtain d1 where r: "resolve_identity 5 1 ''dev'' ?d = (Inr (Some (sample_contact 7 1 ''a@x.io'')), d1)"
    by (simp add: resolve_identity_def find_or_create_visitor_def visitor_row_def in_ws_def find_where_def get_contact_def sample_contact_def)
  have w: "load_workspace 1 (empty_db\<lparr>workspaces := [sample_workspace 1]\<rparr>) = Some (sample_workspace 1)"
    by (simp add: load_workspace_def find_where_def sample_workspace_def)
  show ?thesis using collected_complaint_suppresses [of ?i 5 1 ?d "sample_contact 7 1 ''a@x.io''" d1 "''a@x.io''" "''''"] r w t
    by (simp add: sample_contact_def) blast
qed


section \<open>Webhook fan-out\<close>

lemma insert_deliveries_all: "insert_deliveries accepts js jobs = (None, jobs') \<Longrightarrow> jobs' = jobs @ js"
  by (induction js arbitrary: jobs) (fastforce split: if_splits)+

text \<open>What a webhook receives. When the webhooks group has consumed an envelope, exactly the enabled
  endpoints of its Workspace whose filter names the event, or an empty one for a customer event, have one
  delivery queued, in order, under the envelope's id. An Audit entry leaves only under a license and only to an
  endpoint that names \<open>audit.entry\<close>, and its body never identifies a platform Operator.\<close>

theorem webhook_fanout:
  assumes "webhooks_consumer licensed accepts d env jobs = (None, jobs')" and "env_name env = event_name (env_event env)"
  shows "\<exists>sent. jobs' = jobs @ sent \<and> (\<forall>j \<in> set sent. dj_delivery j = env_id env \<and> dj_event j = delivery_name env) \<and>
    map dj_endpoint sent = (if delivery_name env = name_audit_entry \<and> \<not> licensed then []
      else map wh_id (filter (\<lambda>e. wh_workspace e = env_workspace env \<and> wh_enabled e \<and> matches_event (wh_event_types e) (delivery_name env))
             (webhook_endpoints d))) \<and>
    (\<forall>j \<in> set sent. \<forall>a. wp_data (dj_body j) = AuditEntry a \<longrightarrow> licensed \<and>
       (actor_kind (ae_actor a) = ActorOperator \<longrightarrow> actor_id (ae_actor a) = '''' \<and> actor_name (ae_actor a) = operator_label) \<and>
       (\<exists>e \<in> set (webhook_endpoints d). wh_id e = dj_endpoint j \<and> wh_workspace e = env_workspace env \<and> name_audit_entry \<in> set (wh_event_types e)))"
proof -
  let ?rows = "filter (\<lambda>e. wh_workspace e = env_workspace env \<and> wh_enabled e \<and> matches_event (wh_event_types e) (delivery_name env)) (webhook_endpoints d)"
  let ?job = "\<lambda>e. \<lparr>dj_endpoint = wh_id e, dj_event = delivery_name env, dj_delivery = env_id env, dj_body = webhook_body env\<rparr>"
  let ?sent = "if delivery_name env = name_audit_entry \<and> \<not> licensed then [] else map ?job ?rows"
  have disp: "dispatch accepts (env_workspace env) (delivery_name env) (env_id env) (webhook_body env) d jobs =
      insert_deliveries accepts (map ?job ?rows) jobs"
    by (simp add: dispatch_def in_ws_def conj_ac)
  have jobs': "jobs' = jobs @ ?sent"
    using assms(1) insert_deliveries_all [of accepts "map ?job ?rows" jobs jobs'] unfolding webhooks_consumer_def forward_def disp
    by (auto simp: decode_event_def split: if_splits sum.splits)
  have audit: "licensed \<and>
       (actor_kind (ae_actor a) = ActorOperator \<longrightarrow> actor_id (ae_actor a) = '''' \<and> actor_name (ae_actor a) = operator_label) \<and>
       (\<exists>e \<in> set (webhook_endpoints d). wh_id e = dj_endpoint j \<and> wh_workspace e = env_workspace env \<and> name_audit_entry \<in> set (wh_event_types e))"
    if j: "j \<in> set ?sent" and a: "wp_data (dj_body j) = AuditEntry a" for j a
  proof -
    obtain e where e: "e \<in> set ?rows" "j = ?job e" using j by (auto split: if_splits)
    have body: "masked_event (env_event env) = AuditEntry a" using a e(2) by (simp add: webhook_body_def Let_def)
    then obtain b where b: "env_event env = AuditEntry b" "a = mask_operator b" by (cases "env_event env") auto
    have name: "delivery_name env = name_audit_entry" using assms(2) b(1) by (simp add: delivery_name_def)
    have "licensed" using j name by (auto split: if_splits)
    moreover have "name_audit_entry \<in> set (wh_event_types e)" using e(1) name by (auto simp: matches_event_def split: if_splits)
    ultimately show ?thesis using e b(2) by (auto simp: mask_operator_def)
  qed
  show ?thesis
  proof (intro exI conjI)
    show "jobs' = jobs @ ?sent" by (rule jobs')
    show "\<forall>j \<in> set ?sent. dj_delivery j = env_id env \<and> dj_event j = delivery_name env" by auto
    show "map dj_endpoint ?sent = (if delivery_name env = name_audit_entry \<and> \<not> licensed then [] else map wh_id ?rows)" by simp
  qed (use audit in blast)
qed

definition sample_endpoint :: webhook_endpoint where
  "sample_endpoint = \<lparr>wh_id = 4, wh_workspace = 1, wh_url = ''https://x.io'', wh_secret = ''s'', wh_event_types = [], wh_enabled = True\<rparr>"

theorem webhook_fanout_witness:
  "\<exists>j. webhooks_consumer False (\<lambda>_. True) (empty_db\<lparr>webhook_endpoints := [sample_endpoint]\<rparr>)
       (make_envelope 3 4 (ContactCreated 1 7 ''a@x.io'')) [] = (None, [j]) \<and> dj_endpoint j = 4 \<and> dj_event j = name_contact_created"
proof -
  let ?env = "make_envelope 3 4 (ContactCreated 1 7 ''a@x.io'')" and ?d = "empty_db\<lparr>webhook_endpoints := [sample_endpoint]\<rparr>"
  have n: "delivery_name ?env = name_contact_created" by (simp add: delivery_name_def no_projection_def)
  obtain jobs' where w: "webhooks_consumer False (\<lambda>_. True) ?d ?env [] = (None, jobs')"
    by (simp add: webhooks_consumer_def decode_event_def registry_def forward_def dispatch_def n event_names
        sample_endpoint_def in_ws_def matches_event_def)
  show ?thesis using webhook_fanout [OF w] w
    by (auto simp: n sample_endpoint_def matches_event_def event_names)
qed

end
