(* ===== verification/Erasure.thy ===== *)
theory Erasure
  imports EventConsumers Broadcasts Outbound
begin

text \<open>
  \<open>internal/erasure\<close> and the purges of \<open>internal/events/purge.go\<close>: one transaction that resolves an
  identifier to a Target and runs the ordered steps over it. The state is the database and river's job table;
  an error leaves both as they were. A NULL destination or subject id is the empty string, which no send or
  Contact has. Removed recipients settle their Broadcasts in the order they were read (the code's map order is
  not fixed); grouping Events by the properties they keep is one update per row.
\<close>

section \<open>The internal queues\<close>

datatype queued_job =
    EvaluateTriggerJob id id string
  | RunStepJob id
  | SendRecipientJob id
  | DeliverWebhookJob delivery_job
  | OtherJob string

record river_job =
  rj_job :: queued_job
  rj_running :: bool

text \<open>\<open>data.contactId\<close> and \<open>data.email\<close> of the JSON an event marshals to; \<open>None\<close> is an absent key.\<close>

fun data_contact :: "domain_event \<Rightarrow> id option" where
  "data_contact (ContactCreated _ cid _) = Some cid"
| "data_contact (EmailEngagement e) = Some (eng_contact e)"
| "data_contact (EmailDeliveryFailure e) = nonzero (df_contact e)"
| "data_contact (MarketingConfirmed e) = nonzero (mc_contact e)"
| "data_contact (CollectedEvent e) = nonzero (ce_contact e)"
| "data_contact _ = None"

fun data_email :: "domain_event \<Rightarrow> string option" where
  "data_email (ContactCreated _ _ email) = Some email"
| "data_email (EmailEngagement e) = Some (eng_email e)"
| "data_email (EmailDeliveryFailure e) = Some (df_email e)"
| "data_email (MarketingConfirmed e) = Some (mc_email e)"
| "data_email (CollectedEvent e) = nonempty (ce_email e)"
| "data_email _ = None"

definition lower_all :: "string list \<Rightarrow> string list" where
  "lower_all ds = map (\<lambda>x. to_lower (trim_space x)) ds"

definition names_subject :: "id \<Rightarrow> string list \<Rightarrow> domain_event \<Rightarrow> bool" where
  "names_subject cid dests ev \<longleftrightarrow>
     cid \<noteq> 0 \<and> data_contact ev = Some cid \<or>
     (case data_email ev of None \<Rightarrow> False | Some x \<Rightarrow> to_lower x \<in> set (lower_all dests))"

definition purge_outbox :: "id \<Rightarrow> id \<Rightarrow> string list \<Rightarrow> db \<Rightarrow> db" where
  "purge_outbox ws cid dests d =
     d\<lparr>outbox := delete_where (in_ws env_workspace ws (\<lambda>e. names_subject cid dests (env_event e))) (outbox d)\<rparr>"

fun job_refers :: "id \<Rightarrow> id list \<Rightarrow> id list \<Rightarrow> id list \<Rightarrow> string list \<Rightarrow> queued_job \<Rightarrow> bool" where
  "job_refers cid run_ids rec_ids endpoint_ids dests (EvaluateTriggerJob _ c _) \<longleftrightarrow> c = cid"
| "job_refers cid run_ids rec_ids endpoint_ids dests (RunStepJob r) \<longleftrightarrow> r \<in> set run_ids"
| "job_refers cid run_ids rec_ids endpoint_ids dests (SendRecipientJob r) \<longleftrightarrow> r \<in> set rec_ids"
| "job_refers cid run_ids rec_ids endpoint_ids dests (DeliverWebhookJob j) \<longleftrightarrow>
     dj_endpoint j \<in> set endpoint_ids \<and>
     (cid \<noteq> 0 \<and> wp_contact (dj_body j) = cid \<or> names_subject cid dests (wp_data (dj_body j)))"
| "job_refers cid run_ids rec_ids endpoint_ids dests (OtherJob _) \<longleftrightarrow> False"

text \<open>The four purges of the job table, each by its kind; a running job is left.\<close>

definition purge_jobs :: "(queued_job \<Rightarrow> bool) \<Rightarrow> river_job list \<Rightarrow> river_job list" where
  "purge_jobs refers jobs = delete_where (\<lambda>j. \<not> rj_running j \<and> refers (rj_job j)) jobs"

section \<open>Identifiers and Targets\<close>

datatype subject_identifier = ByContactID id | ByEmail string | ByVisitorID string

text \<open>\<open>ByEmail\<close> normalizes; an identifier whose email or visitor id is empty is one of a lesser kind, the
  zero Contact id last.\<close>

definition by_email :: "string \<Rightarrow> subject_identifier" where
  "by_email email = (let e = to_lower (trim_space email) in if e = '''' then ByContactID 0 else ByEmail e)"

definition by_visitor :: "string \<Rightarrow> subject_identifier" where
  "by_visitor vid = (if vid = '''' then ByContactID 0 else ByVisitorID vid)"

fun identifier_kind :: "subject_identifier \<Rightarrow> string" where
  "identifier_kind (ByEmail _) = ''email''"
| "identifier_kind (ByVisitorID _) = ''visitor_id''"
| "identifier_kind (ByContactID _) = ''contact_id''"

datatype erase_error = EraseNotFound | EraseNotSingular | EraseStorage

record target =
  tg_contact :: id
  tg_visitors :: "string list"
  tg_destinations :: "string list"
  tg_subject :: string
  tg_kind :: string

definition only_one :: "('r \<Rightarrow> bool) \<Rightarrow> 'r list \<Rightarrow> erase_error + 'r option" where
  "only_one p rows = (case filter p rows of [] \<Rightarrow> Inr None | [r] \<Rightarrow> Inr (Some r) | _ \<Rightarrow> Inl EraseNotSingular)"

fun find_contact :: "id \<Rightarrow> subject_identifier \<Rightarrow> db \<Rightarrow> erase_error + contact option" where
  "find_contact ws (ByEmail email) d = only_one (in_ws con_workspace ws (\<lambda>c. con_email c = Some email)) (contacts d)"
| "find_contact ws (ByVisitorID vid) d =
     (case only_one (visitor_row ws vid) (visitors d) of
        Inl e \<Rightarrow> Inl e
      | Inr None \<Rightarrow> Inr None
      | Inr (Some v) \<Rightarrow> (case vis_contact v of None \<Rightarrow> Inr None | Some cid \<Rightarrow> Inr (get_contact ws cid d)))"
| "find_contact ws (ByContactID cid) d =
     (case get_contact ws cid d of None \<Rightarrow> Inl EraseNotFound | Some c \<Rightarrow> Inr (Some c))"

fun resolve_contactless :: "id \<Rightarrow> subject_identifier \<Rightarrow> db \<Rightarrow> erase_error + target" where
  "resolve_contactless ws (ByEmail email) d =
     (if exists_where (in_ws msg_workspace ws (\<lambda>m. msg_destination m = email)) (messages d)
      then Inr \<lparr>tg_contact = 0, tg_visitors = [], tg_destinations = [email], tg_subject = email, tg_kind = ''email''\<rparr>
      else Inl EraseNotFound)"
| "resolve_contactless ws (ByVisitorID vid) d =
     (if exists_where (visitor_row ws vid) (visitors d) \<or>
         exists_where (in_ws ev_workspace ws (\<lambda>e. ev_visitor e = Some vid)) (events d)
      then Inr \<lparr>tg_contact = 0, tg_visitors = [vid], tg_destinations = [], tg_subject = vid, tg_kind = ''visitor_id''\<rparr>
      else Inl EraseNotFound)"
| "resolve_contactless ws (ByContactID _) d = Inl EraseNotFound"

definition visitor_of :: "id \<Rightarrow> visitor \<Rightarrow> bool" where
  "visitor_of cid v \<longleftrightarrow> vis_contact v = Some cid"

definition target_of :: "id \<Rightarrow> subject_identifier \<Rightarrow> contact \<Rightarrow> db \<Rightarrow> target" where
  "target_of ws i c d =
     \<lparr>tg_contact = con_id c, tg_visitors = map vis_visitor (filter (in_ws vis_workspace ws (visitor_of (con_id c))) (visitors d)),
      tg_destinations = (case con_email c of None \<Rightarrow> [] | Some x \<Rightarrow> [to_lower x]),
      tg_subject = (case con_subject c of Some s \<Rightarrow> if s = '''' then show_int (con_id c) else s | None \<Rightarrow> show_int (con_id c)),
      tg_kind = identifier_kind i\<rparr>"

definition resolve_target :: "id \<Rightarrow> subject_identifier \<Rightarrow> db \<Rightarrow> erase_error + target" where
  "resolve_target ws i d =
     (case find_contact ws i d of
        Inl e \<Rightarrow> Inl e
      | Inr None \<Rightarrow> resolve_contactless ws i d
      | Inr (Some c) \<Rightarrow> Inr (target_of ws i c d))"

section \<open>The steps\<close>

type_synonym erase_state = "db \<times> river_job list"

definition unsent_of :: "id \<Rightarrow> id \<Rightarrow> db \<Rightarrow> recipient list" where
  "unsent_of ws cid d = filter (in_ws rec_workspace ws (\<lambda>r. rec_contact r = Some cid \<and> rec_status r = RecPending)) (recipients d)"

definition shrink_and_settle :: "id \<Rightarrow> time \<Rightarrow> recipient list \<Rightarrow> id \<Rightarrow> db \<Rightarrow> db" where
  "shrink_and_settle ws now unsent bid d =
     finalize ws now bid
       (set_broadcast ws bid (\<lambda>_. True)
         (\<lambda>b. b\<lparr>bc_recipients_total := bc_recipients_total b - int (length (filter (\<lambda>r. rec_broadcast r = bid) unsent))\<rparr>) d)"

definition cancel_in_flight :: "time \<Rightarrow> id \<Rightarrow> target \<Rightarrow> erase_state \<Rightarrow> (erase_error + unit) \<times> erase_state" where
  "cancel_in_flight now ws t st =
     (case st of (d, jobs) \<Rightarrow>
      let cid = tg_contact t;
          run_ids = map run_id (filter (in_ws run_workspace ws (\<lambda>r. run_contact r = cid)) (runs d));
          unsent = unsent_of ws cid d;
          rec_ids = map rec_id unsent;
          bids = remdups (map rec_broadcast unsent);
          d1 = purge_outbox ws cid (tg_destinations t) d;
          endpoint_ids = map wh_id (filter (in_ws wh_workspace ws (\<lambda>_. True)) (webhook_endpoints d));
          jobs1 = purge_jobs (job_refers cid run_ids rec_ids endpoint_ids (tg_destinations t)) jobs
      in if rec_ids = [] then (Inr (), d1, jobs1)
         else if list_ex (\<lambda>b. get_broadcast ws b d1 = None) bids then (Inl EraseStorage, d1, jobs1)
         else
           (let d2 = d1\<lparr>recipients := delete_where (in_ws rec_workspace ws (\<lambda>r. rec_id r \<in> set rec_ids)) (recipients d1)\<rparr>
            in (Inr (), fold (shrink_and_settle ws now unsent) bids d2, jobs1)))"

definition anonymized_actions :: "string set" where
  "anonymized_actions = {name_email_sent, name_email_opened, name_email_clicked, name_email_bounced, name_email_complained,
     name_email_unsubscribed, name_contact_created}"

definition anonymous_keep :: "string set" where
  "anonymous_keep = {''sendingDomain'', ''bounceKind''}"

definition anonymize_event :: "event_row \<Rightarrow> event_row" where
  "anonymize_event e = e\<lparr>ev_contact := None, ev_visitor := None, ev_email := None, ev_phone := None, ev_subject := '''',
     ev_properties := ev_properties e |` anonymous_keep\<rparr>"

definition event_of_subject :: "target \<Rightarrow> event_row \<Rightarrow> bool" where
  "event_of_subject t e \<longleftrightarrow>
     tg_contact t \<noteq> 0 \<and> ev_contact e = Some (tg_contact t) \<or> (\<exists>v. ev_visitor e = Some v \<and> v \<in> set (tg_visitors t))"

definition erase_events :: "id \<Rightarrow> target \<Rightarrow> db \<Rightarrow> db" where
  "erase_events ws t d =
     (let mine = in_ws ev_workspace ws (event_of_subject t) in
      d\<lparr>events := update_where mine anonymize_event
          (delete_where (\<lambda>e. mine e \<and> ev_action e \<notin> anonymized_actions) (events d))\<rparr>)"

definition erase_visitors :: "id \<Rightarrow> target \<Rightarrow> db \<Rightarrow> db" where
  "erase_visitors ws t d =
     d\<lparr>visitors := delete_where (in_ws vis_workspace ws
         (\<lambda>v. vis_visitor v \<in> set (tg_visitors t) \<or> tg_contact t \<noteq> 0 \<and> visitor_of (tg_contact t) v)) (visitors d)\<rparr>"

definition erase_confirmations :: "id \<Rightarrow> target \<Rightarrow> db \<Rightarrow> db" where
  "erase_confirmations ws t d =
     d\<lparr>confirmations := delete_where (in_ws cnf_workspace ws (\<lambda>c. cnf_contact c = Some (tg_contact t))) (confirmations d)\<rparr>"

definition erase_runs :: "id \<Rightarrow> target \<Rightarrow> db \<Rightarrow> db" where
  "erase_runs ws t d = d\<lparr>runs := delete_where (in_ws run_workspace ws (\<lambda>r. run_contact r = tg_contact t)) (runs d)\<rparr>"

definition detach_opt_outs :: "id \<Rightarrow> target \<Rightarrow> db \<Rightarrow> db" where
  "detach_opt_outs ws t d =
     d\<lparr>unsubscribes := update_where (in_ws uns_workspace ws (\<lambda>u. uns_contact u = Some (tg_contact t))) (\<lambda>u. u\<lparr>uns_contact := None\<rparr>) (unsubscribes d),
       suppressions := update_where (in_ws sup_workspace ws (\<lambda>s. sup_contact s = Some (tg_contact t))) (\<lambda>s. s\<lparr>sup_contact := None\<rparr>) (suppressions d)\<rparr>"

definition anonymize_message :: "outbound_message \<Rightarrow> outbound_message" where
  "anonymize_message m = m\<lparr>msg_contact := None, msg_destination := ''''\<rparr>"

definition anonymize_delivery :: "id \<Rightarrow> target \<Rightarrow> db \<Rightarrow> db" where
  "anonymize_delivery ws t d =
     (let by_contact = update_where (in_ws msg_workspace ws (\<lambda>m. msg_contact m = Some (tg_contact t))) anonymize_message (messages d) in
      d\<lparr>messages := update_where (in_ws msg_workspace ws (\<lambda>m. msg_destination m \<in> set (tg_destinations t))) anonymize_message by_contact,
        recipients := update_where (in_ws rec_workspace ws (\<lambda>r. rec_contact r = Some (tg_contact t))) (\<lambda>r. r\<lparr>rec_contact := None\<rparr>) (recipients d)\<rparr>)"

text \<open>The row and, by cascade, its Tag links.\<close>

definition erase_contact :: "id \<Rightarrow> target \<Rightarrow> db \<Rightarrow> (erase_error + unit) \<times> db" where
  "erase_contact ws t d =
     (if tg_contact t = 0 then (Inr (), d)
      else if get_contact ws (tg_contact t) d = None then (Inl EraseStorage, d)
      else (Inr (), d\<lparr>contacts := delete_where (in_ws con_workspace ws (\<lambda>c. con_id c = tg_contact t)) (contacts d),
             contact_tags := delete_where (\<lambda>(cid, _). cid = tg_contact t) (contact_tags d)\<rparr>))"

record operator =
  op_kind :: string
  op_id :: id

definition publish_erased :: "time \<Rightarrow> id \<Rightarrow> target \<Rightarrow> operator \<Rightarrow> db \<Rightarrow> db" where
  "publish_erased now ws t op d = publish now (ContactErased ws (tg_subject t) (tg_kind t) (op_kind op) (op_id op)) d"

definition erase_rows :: "id \<Rightarrow> target \<Rightarrow> db \<Rightarrow> db" where
  "erase_rows ws t d =
     anonymize_delivery ws t (detach_opt_outs ws t (erase_runs ws t (erase_confirmations ws t (erase_visitors ws t (erase_events ws t d)))))"

definition erase :: "time \<Rightarrow> id \<Rightarrow> subject_identifier \<Rightarrow> operator \<Rightarrow> erase_state \<Rightarrow> erase_error option \<times> erase_state" where
  "erase now ws i op st =
     (case resolve_target ws i (fst st) of
        Inl e \<Rightarrow> (Some e, st)
      | Inr t \<Rightarrow>
         (case cancel_in_flight now ws t st of
            (Inl e, _) \<Rightarrow> (Some e, st)
          | (Inr _, d1, jobs1) \<Rightarrow>
             (case erase_contact ws t (erase_rows ws t d1) of
                (Inl e, _) \<Rightarrow> (Some e, st)
              | (Inr _, d2) \<Rightarrow> (None, publish_erased now ws t op d2, jobs1))))"

end
