(* ===== verification/ErasureSafety.thy ===== *)
theory ErasureSafety
  imports Erasure OutboundSafety
begin

text \<open>
  What Erasure guarantees: nothing of the Workspace refers to the erased Contact afterwards, its refusals
  still block, the delivery record keeps its counts, no later send reaches it, the Broadcasts it was queued in
  settle, and other Workspaces are untouched; and where it falls short: what the outbox still holds of an
  erased device, and rows that carry an address but no Contact.
\<close>

section \<open>The tables after each step\<close>

definition only_broadcasts :: "db \<Rightarrow> db \<Rightarrow> bool" where
  "only_broadcasts d d' \<longleftrightarrow> d'\<lparr>broadcasts := []\<rparr> = d\<lparr>broadcasts := []\<rparr>"

lemma only_broadcasts_refl [simp]: "only_broadcasts d d"
  by (simp add: only_broadcasts_def)

lemma only_broadcasts_trans: "only_broadcasts a b \<Longrightarrow> only_broadcasts b c \<Longrightarrow> only_broadcasts a c"
  by (simp add: only_broadcasts_def)

lemma only_broadcasts_tables:
  assumes "only_broadcasts d d'"
  shows "workspaces d' = workspaces d" "contacts d' = contacts d" "suppressions d' = suppressions d"
    "unsubscribes d' = unsubscribes d" "confirmations d' = confirmations d" "sending_domains d' = sending_domains d"
    "integrations d' = integrations d" "send_limiters d' = send_limiters d" "messages d' = messages d"
    "recipients d' = recipients d" "segments d' = segments d" "automations d' = automations d" "runs d' = runs d"
    "tags d' = tags d" "contact_tags d' = contact_tags d" "visitors d' = visitors d" "events d' = events d"
    "outbox d' = outbox d" "custom_fields d' = custom_fields d" "webhook_endpoints d' = webhook_endpoints d"
  using assms by (cases d; cases d'; simp add: only_broadcasts_def)+

lemma only_broadcasts_set: "only_broadcasts d (set_broadcast ws bid p f d)"
  by (simp add: only_broadcasts_def set_broadcast_def)

lemma only_broadcasts_finalize: "only_broadcasts d (finalize ws now bid d)"
  by (simp add: finalize_def only_broadcasts_set)

lemma only_broadcasts_shrink: "only_broadcasts d (shrink_and_settle ws now unsent bid d)"
  unfolding shrink_and_settle_def by (rule only_broadcasts_trans [OF only_broadcasts_set only_broadcasts_finalize])

lemma only_broadcasts_fold: "only_broadcasts d (fold (shrink_and_settle ws now unsent) bids d)"
  by (induction bids arbitrary: d) (auto intro: only_broadcasts_trans only_broadcasts_shrink)

text \<open>The rows, ids and lists the first step works on.\<close>

definition run_ids_of :: "id \<Rightarrow> target \<Rightarrow> db \<Rightarrow> id list" where
  "run_ids_of ws t d = map run_id (filter (in_ws run_workspace ws (\<lambda>r. run_contact r = tg_contact t)) (runs d))"

definition endpoint_ids_of :: "id \<Rightarrow> db \<Rightarrow> id list" where
  "endpoint_ids_of ws d = map wh_id (filter (in_ws wh_workspace ws (\<lambda>_. True)) (webhook_endpoints d))"

definition unsent_ids :: "id \<Rightarrow> target \<Rightarrow> db \<Rightarrow> id list" where
  "unsent_ids ws t d = map rec_id (unsent_of ws (tg_contact t) d)"

definition without_unsent :: "id \<Rightarrow> target \<Rightarrow> db \<Rightarrow> recipient list" where
  "without_unsent ws t d = delete_where (in_ws rec_workspace ws (\<lambda>r. rec_id r \<in> set (unsent_ids ws t d))) (recipients d)"

lemma cancel_shape:
  assumes "cancel_in_flight now ws t (d, jobs) = (Inr (), d1, jobs1)"
  shows "jobs1 = purge_jobs (job_refers (tg_contact t) (run_ids_of ws t d) (unsent_ids ws t d) (endpoint_ids_of ws d) (tg_destinations t)) jobs"
    and "d1 = fold (shrink_and_settle ws now (unsent_of ws (tg_contact t) d)) (remdups (map rec_broadcast (unsent_of ws (tg_contact t) d)))
          ((purge_outbox ws (tg_contact t) (tg_destinations t) d)\<lparr>recipients := without_unsent ws t d\<rparr>)"
proof -
  let ?p = "purge_outbox ws (tg_contact t) (tg_destinations t) d" and ?u = "unsent_of ws (tg_contact t) d"
  let ?done = "(Inr (), fold (shrink_and_settle ws now ?u) (remdups (map rec_broadcast ?u)) (?p\<lparr>recipients := without_unsent ws t d\<rparr>),
      purge_jobs (job_refers (tg_contact t) (run_ids_of ws t d) (unsent_ids ws t d) (endpoint_ids_of ws d) (tg_destinations t)) jobs)"
  have r: "recipients ?p = recipients d" by (simp add: purge_outbox_def)
  have "cancel_in_flight now ws t (d, jobs) = ?done"
  proof (cases "?u = []")
    case True
    then have "without_unsent ws t d = recipients ?p" by (simp add: without_unsent_def unsent_ids_def delete_where_def in_ws_def r)
    then show ?thesis using True
      by (simp add: cancel_in_flight_def run_ids_of_def endpoint_ids_of_def unsent_ids_def Let_def)
  next
    case False
    then have "\<not> list_ex (\<lambda>b. get_broadcast ws b ?p = None) (remdups (map rec_broadcast ?u))"
      using assms by (auto simp: cancel_in_flight_def Let_def split: if_splits)
    then show ?thesis using False
      by (simp add: cancel_in_flight_def Let_def run_ids_of_def endpoint_ids_of_def unsent_ids_def without_unsent_def r)
  qed
  then have eq: "(Inr (), d1, jobs1) = ?done" using assms by simp
  then show "jobs1 = purge_jobs (job_refers (tg_contact t) (run_ids_of ws t d) (unsent_ids ws t d) (endpoint_ids_of ws d) (tg_destinations t)) jobs"
    "d1 = fold (shrink_and_settle ws now ?u) (remdups (map rec_broadcast ?u)) (?p\<lparr>recipients := without_unsent ws t d\<rparr>)"
    by simp_all
qed

lemma cancel_tables:
  assumes "cancel_in_flight now ws t (d, jobs) = (Inr (), d1, jobs1)"
  shows "only_broadcasts ((purge_outbox ws (tg_contact t) (tg_destinations t) d)\<lparr>recipients := without_unsent ws t d\<rparr>) d1"
  unfolding cancel_shape(2) [OF assms] by (rule only_broadcasts_fold)

lemma erase_rows_tables:
  "workspaces (erase_rows ws t d) = workspaces d" "contacts (erase_rows ws t d) = contacts d"
  "suppressions (erase_rows ws t d) = suppressions (detach_opt_outs ws t d)"
  "unsubscribes (erase_rows ws t d) = unsubscribes (detach_opt_outs ws t d)"
  "confirmations (erase_rows ws t d) = confirmations (erase_confirmations ws t d)"
  "sending_domains (erase_rows ws t d) = sending_domains d" "integrations (erase_rows ws t d) = integrations d"
  "send_limiters (erase_rows ws t d) = send_limiters d" "messages (erase_rows ws t d) = messages (anonymize_delivery ws t d)"
  "broadcasts (erase_rows ws t d) = broadcasts d" "recipients (erase_rows ws t d) = recipients (anonymize_delivery ws t d)"
  "segments (erase_rows ws t d) = segments d" "automations (erase_rows ws t d) = automations d"
  "runs (erase_rows ws t d) = runs (erase_runs ws t d)" "tags (erase_rows ws t d) = tags d"
  "visitors (erase_rows ws t d) = visitors (erase_visitors ws t d)" "events (erase_rows ws t d) = events (erase_events ws t d)"
  "outbox (erase_rows ws t d) = outbox d" "custom_fields (erase_rows ws t d) = custom_fields d"
  "webhook_endpoints (erase_rows ws t d) = webhook_endpoints d"
  by (simp_all add: erase_rows_def anonymize_delivery_def detach_opt_outs_def erase_runs_def erase_confirmations_def
      erase_visitors_def erase_events_def Let_def)

text \<open>The tables an Erasure leaves.\<close>

definition erased_db :: "time \<Rightarrow> id \<Rightarrow> target \<Rightarrow> operator \<Rightarrow> id \<Rightarrow> db \<Rightarrow> db \<Rightarrow> db \<Rightarrow> bool" where
  "erased_db now ws t op u d d1 d' \<longleftrightarrow>
     workspaces d' = workspaces d \<and>
     contacts d' = (if tg_contact t = 0 then contacts d
       else delete_where (in_ws con_workspace ws (\<lambda>c. con_id c = tg_contact t)) (contacts d)) \<and>
     suppressions d' = suppressions (detach_opt_outs ws t d) \<and> unsubscribes d' = unsubscribes (detach_opt_outs ws t d) \<and>
     confirmations d' = confirmations (erase_confirmations ws t d) \<and> sending_domains d' = sending_domains d \<and>
     integrations d' = integrations d \<and> send_limiters d' = send_limiters d \<and> messages d' = messages (anonymize_delivery ws t d) \<and>
     broadcasts d' = broadcasts d1 \<and>
     recipients d' = update_where (in_ws rec_workspace ws (\<lambda>r. rec_contact r = Some (tg_contact t))) (\<lambda>r. r\<lparr>rec_contact := None\<rparr>) (without_unsent ws t d) \<and>
     segments d' = segments d \<and> automations d' = automations d \<and> runs d' = runs (erase_runs ws t d) \<and> tags d' = tags d \<and>
     visitors d' = visitors (erase_visitors ws t d) \<and> events d' = events (erase_events ws t d) \<and>
     outbox d' = outbox (purge_outbox ws (tg_contact t) (tg_destinations t) d) @
       [make_envelope u now (ContactErased ws (tg_subject t) (tg_kind t) (op_kind op) (op_id op))] \<and>
     custom_fields d' = custom_fields d \<and> webhook_endpoints d' = webhook_endpoints d"

lemma erase_tables:
  assumes "erase now ws i op (d, jobs) = (None, d', jobs')"
  obtains t d1 u where "resolve_target ws i d = Inr t" and "cancel_in_flight now ws t (d, jobs) = (Inr (), d1, jobs')"
    and "erased_db now ws t op u d d1 d'"
proof -
  obtain t where t: "resolve_target ws i d = Inr t" using assms by (auto simp: erase_def split: sum.splits)
  obtain d1 where c: "cancel_in_flight now ws t (d, jobs) = (Inr (), d1, jobs')"
    using assms t by (auto simp: erase_def split: sum.splits prod.splits)
  obtain d2 where e: "erase_contact ws t (erase_rows ws t d1) = (Inr (), d2)" and d': "d' = publish_erased now ws t op d2"
    using assms t c by (auto simp: erase_def split: sum.splits prod.splits)
  let ?r = "erase_rows ws t d1"
  have con: "contacts d2 = (if tg_contact t = 0 then contacts ?r
       else delete_where (in_ws con_workspace ws (\<lambda>c. con_id c = tg_contact t)) (contacts ?r))"
    using e by (auto simp: erase_contact_def split: if_splits)
  obtain cs ct where d2: "d2 = ?r\<lparr>contacts := cs, contact_tags := ct\<rparr>"
  proof (cases "tg_contact t = 0")
    case True
    then have "d2 = ?r\<lparr>contacts := contacts ?r, contact_tags := contact_tags ?r\<rparr>" using e by (simp add: erase_contact_def)
    then show thesis by (rule that)
  next
    case False
    then show thesis using e that by (auto simp: erase_contact_def split: if_splits)
  qed
  note tabs = only_broadcasts_tables [OF cancel_tables [OF c]]
  have "erased_db now ws t op (next_id d2) d d1 d'"
    using con tabs unfolding erased_db_def d' d2 publish_erased_def
    by (simp add: erase_rows_tables detach_opt_outs_def erase_confirmations_def anonymize_delivery_def erase_runs_def
        erase_visitors_def erase_events_def purge_outbox_def Let_def)
  with t c show thesis by (rule that)
qed


section \<open>Nothing refers to the erased Contact\<close>

text \<open>A Contact whose email is not empty; every Contact the module writes is one.\<close>

lemma target_destinations:
  assumes "resolve_target ws i d = Inr t" and "wf_contacts d" and "tg_contact t \<noteq> 0"
  shows "'''' \<notin> set (tg_destinations t)"
proof -
  obtain c where c: "t = target_of ws i c d" "c \<in> set (contacts d)"
  proof (cases i)
    case (ByContactID cid)
    then show thesis using assms(1) that by (auto simp: resolve_target_def dest: get_contact_SomeD split: option.splits)
  next
    case (ByEmail e)
    then show thesis using assms(1,3) that
      by (auto simp: resolve_target_def only_one_def filter_eq_Cons_iff split: sum.splits option.splits list.splits if_splits)
  next
    case (ByVisitorID v)
    then show thesis using assms(1,3) that
      by (auto simp: resolve_target_def dest!: get_contact_SomeD split: sum.splits option.splits if_splits)
  qed
  have "to_lower x \<noteq> ''''" if "con_email c = Some x" for x
    using normal_email_trimmed [of c x] assms(2) c(2) that by (auto simp: wf_contacts_def)
  then show ?thesis by (cases "con_email c") (auto simp: c(1) target_of_def)
qed

lemma update_where_member: "x \<in> set (update_where p f rows) \<Longrightarrow> (\<exists>y \<in> set rows. x = f y) \<or> x \<in> set rows \<and> \<not> p x"
  by (auto simp: update_where_def split: if_splits)

lemma detached_row:
  assumes "x \<in> set (update_where (in_ws row_ws ws (\<lambda>y. ref y = Some cid)) f rows)" and "\<And>y. ref (f y) = None" and "row_ws x = ws"
  shows "ref x \<noteq> Some cid"
  using update_where_member [OF assms(1)] assms(2,3) by (auto simp: in_ws_def)

lemma erased_event_row:
  "x \<in> set (events (erase_events ws t d)) \<Longrightarrow> (\<exists>y. x = anonymize_event y) \<or> \<not> in_ws ev_workspace ws (event_of_subject t) x"
  unfolding erase_events_def Let_def by (simp, drule update_where_member) blast

lemma erased_message_row:
  "m \<in> set (messages (anonymize_delivery ws t d)) \<Longrightarrow> (\<exists>y. m = anonymize_message y) \<or>
     \<not> in_ws msg_workspace ws (\<lambda>m. msg_contact m = Some (tg_contact t)) m \<and>
     \<not> in_ws msg_workspace ws (\<lambda>m. msg_destination m \<in> set (tg_destinations t)) m"
  unfolding anonymize_delivery_def Let_def
  by (simp, drule update_where_member, erule disjE, blast, erule conjE, drule update_where_member, blast)


section \<open>The refusals and the delivery record survive\<close>

lemma exists_where_update: "(\<And>r. q (f r) = q r) \<Longrightarrow> exists_where q (update_where p f rows) = exists_where q rows"
  by (induction rows) (simp_all add: exists_where_def update_where_def)

lemma match_store_update:
  assumes "\<And>x. row_ws (f x) = row_ws x" "\<And>x. row_dest (f x) = row_dest x" "\<And>x. row_ch (f x) = row_ch x" "\<And>x. extra (f x) = extra x"
  shows "match_store r ch row_ws row_dest row_ch extra (update_where p f rows) = match_store r ch row_ws row_dest row_ch extra rows"
  unfolding match_store_def by (rule exists_where_update) (simp add: assms)

lemma match_store_delete: "match_store r ch row_ws row_dest row_ch extra (delete_where p rows) \<Longrightarrow> match_store r ch row_ws row_dest row_ch extra rows"
  by (auto simp: match_store_iff table_simps)

text \<open>C19: an Erasure keeps every refusal. For every Workspace, address, channel and Sending source the answer of
  Check is the same after it, except that an address may now be unconfirmed: a destination that was refused
  is refused for the same reason, though no opt-out names the Contact any more.\<close>

theorem erasure_keeps_refusals:
  assumes "erase now ws i op (d, jobs) = (None, d', jobs')" and "check_eligible ws2 d ch x source = Inr dec"
  shows "check_eligible ws2 d' ch x source = Inr dec \<or>
    dec_eligible dec \<and> check_eligible ws2 d' ch x source = Inr \<lparr>dec_eligible = False, dec_reason = reason_unconfirmed\<rparr>"
proof -
  obtain t d1 u where "erased_db now ws t op u d d1 d'" using erase_tables [OF assms(1)] by blast
  note tabs = this [unfolded erased_db_def]
  have sup: "is_suppressed d' r ch = is_suppressed d r ch" for r
    using tabs by (simp add: is_suppressed_def detach_opt_outs_def match_store_update)
  have uns: "is_unsubscribed d' r ch s = is_unsubscribed d r ch s" for r s
    using tabs by (simp add: is_unsubscribed_def detach_opt_outs_def match_store_update)
  have cnf: "is_confirmed d' r ch \<Longrightarrow> is_confirmed d r ch" for r
    using tabs by (auto simp: is_confirmed_def erase_confirmations_def dest: match_store_delete)
  have ws: "load_workspace w d' = load_workspace w d" for w using tabs by (simp add: load_workspace_def)
  have req: "require_confirmed d' r = require_confirmed d r" for r by (simp add: require_confirmed_def ws)
  show ?thesis
    using assms(2) cnf by (auto simp: check_eligible_def Let_def layers_def sup uns ws req reason_names split: if_splits option.splits)
qed

definition delivery_fact :: "outbound_message \<Rightarrow> outbound_message" where
  "delivery_fact m = m\<lparr>msg_contact := None, msg_destination := ''''\<rparr>"

definition rate_fact :: "event_row \<Rightarrow> event_row" where
  "rate_fact e = anonymize_event e"

text \<open>An Erasure moves no report. The Outbound messages of every Workspace are the same rows but for the
  Contact and the address, the recipients that were decided are the same but for the Contact, and the system
  Events keep their number, action, time, sending domain and bounce kind, so the counts and rates computed from
  them do not change.\<close>

theorem erasure_keeps_counts:
  assumes "erase now ws i op (d, jobs) = (None, d', jobs')" and "distinct (map rec_id (recipients d))"
  shows "map delivery_fact (messages d') = map delivery_fact (messages d) \<and>
    map (\<lambda>r. r\<lparr>rec_contact := None\<rparr>) (filter (\<lambda>r. rec_status r \<noteq> RecPending) (recipients d')) =
      map (\<lambda>r. r\<lparr>rec_contact := None\<rparr>) (filter (\<lambda>r. rec_status r \<noteq> RecPending) (recipients d)) \<and>
    map rate_fact (filter (\<lambda>e. ev_action e \<in> anonymized_actions) (events d')) =
      map rate_fact (filter (\<lambda>e. ev_action e \<in> anonymized_actions) (events d))"
proof -
  obtain t d1 u where "erased_db now ws t op u d d1 d'" using erase_tables [OF assms(1)] by blast
  note tabs = this [unfolded erased_db_def]
  have msgs: "map delivery_fact (messages d') = map delivery_fact (messages d)"
    using tabs by (simp add: anonymize_delivery_def Let_def map_update_where delivery_fact_def anonymize_message_def)
  have pending: "rec_status r = RecPending" if mem: "r \<in> set (recipients d)" "rec_id r \<in> set (unsent_ids ws t d)" for r
  proof -
    obtain r2 where r2: "r2 \<in> set (recipients d)" "rec_id r2 = rec_id r" "rec_status r2 = RecPending"
      using mem(2) by (auto simp: unsent_ids_def unsent_of_def in_ws_def)
    then have "r2 = r" using assms(2) mem(1) by (auto simp: distinct_map inj_on_def)
    then show ?thesis using r2 by simp
  qed
  have kept: "filter (\<lambda>r. rec_status r \<noteq> RecPending) (without_unsent ws t d) = filter (\<lambda>r. rec_status r \<noteq> RecPending) (recipients d)"
    unfolding without_unsent_def delete_where_def filter_filter
    by (rule filter_cong [OF refl]) (use pending in \<open>auto simp: in_ws_def\<close>)
  have blank: "map (\<lambda>r. r\<lparr>rec_contact := None\<rparr>) (filter (\<lambda>r. rec_status r \<noteq> RecPending) (update_where p (\<lambda>r. r\<lparr>rec_contact := None\<rparr>) rows)) =
      map (\<lambda>r. r\<lparr>rec_contact := None\<rparr>) (filter (\<lambda>r. rec_status r \<noteq> RecPending) rows)" for p rows
    by (induction rows) (simp_all add: update_where_def)
  have recs: "map (\<lambda>r. r\<lparr>rec_contact := None\<rparr>) (filter (\<lambda>r. rec_status r \<noteq> RecPending) (recipients d')) =
      map (\<lambda>r. r\<lparr>rec_contact := None\<rparr>) (filter (\<lambda>r. rec_status r \<noteq> RecPending) (recipients d))"
    using tabs by (simp only: blank kept)
  have sys: "map rate_fact (filter (\<lambda>e. ev_action e \<in> anonymized_actions)
      (update_where p anonymize_event (delete_where (\<lambda>e. p e \<and> ev_action e \<notin> anonymized_actions) rows))) =
      map rate_fact (filter (\<lambda>e. ev_action e \<in> anonymized_actions) rows)" for p rows
    by (induction rows) (simp_all add: update_where_def delete_where_def rate_fact_def anonymize_event_def)
  have "events d' = update_where (in_ws ev_workspace ws (event_of_subject t)) anonymize_event
      (delete_where (\<lambda>e. in_ws ev_workspace ws (event_of_subject t) e \<and> ev_action e \<notin> anonymized_actions) (events d))"
    using tabs by (simp add: erase_events_def Let_def)
  then show ?thesis using msgs recs by (simp only: sys)
qed


section \<open>When an Erasure succeeds\<close>

lemma erase_succeeds:
  assumes "get_contact ws cid d = Some c" and "cid \<noteq> 0"
    and "\<And>r. r \<in> set (unsent_of ws cid d) \<Longrightarrow> get_broadcast ws (rec_broadcast r) d \<noteq> None"
  shows "\<exists>d' jobs'. erase now ws (ByContactID cid) op (d, jobs) = (None, d', jobs')"
proof -
  let ?t = "target_of ws (ByContactID cid) c d"
  have cid: "con_id c = cid" using get_contact_SomeD [OF assms(1)] by simp
  have t: "resolve_target ws (ByContactID cid) d = Inr ?t" and tc: "tg_contact ?t = cid"
    using assms(1) cid by (simp_all add: resolve_target_def target_of_def)
  have "get_broadcast ws b (purge_outbox ws cid ds d) = get_broadcast ws b d" for b ds by (simp add: get_broadcast_def purge_outbox_def)
  then have "\<not> list_ex (\<lambda>b. get_broadcast ws b (purge_outbox ws cid (tg_destinations ?t) d) = None)
      (remdups (map rec_broadcast (unsent_of ws cid d)))"
    using assms(3) by (auto simp: list_ex_iff)
  then have "fst (cancel_in_flight now ws ?t (d, jobs)) = Inr ()" by (simp add: cancel_in_flight_def Let_def tc)
  then obtain d1 jobs1 where c: "cancel_in_flight now ws ?t (d, jobs) = (Inr (), d1, jobs1)"
    by (cases "cancel_in_flight now ws ?t (d, jobs)") auto
  have "contacts (erase_rows ws ?t d1) = contacts d"
    using only_broadcasts_tables(2) [OF cancel_tables [OF c]] by (simp add: erase_rows_tables purge_outbox_def)
  then have "get_contact ws cid (erase_rows ws ?t d1) = Some c" using assms(1) by (simp add: get_contact_def)
  then show ?thesis using assms(2) by (simp add: erase_def t c erase_contact_def tc)
qed

definition sample_erase_db :: db where
  "sample_erase_db = empty_db\<lparr>workspaces := [sample_workspace 1], contacts := [sample_contact 7 1 ''a@x.io''],
     suppressions := [\<lparr>sup_id = 2, sup_workspace = 1, sup_channel = ChEmail, sup_destination = ''a@x.io'', sup_reason = ReasonBounce,
       sup_contact = Some 7\<rparr>],
     visitors := [\<lparr>vis_id = 8, vis_workspace = 1, vis_visitor = ''dev'', vis_contact = Some 7, vis_last_seen_at = 0\<rparr>],
     broadcasts := [(sample_broadcast 5 BcSending)\<lparr>bc_recipients_total := 1\<rparr>],
     recipients := [\<lparr>rec_id = 9, rec_workspace = 1, rec_broadcast = 5, rec_contact = Some 7, rec_status = RecPending, rec_message = None,
       rec_error = None, rec_deferred_until = None, rec_sent_at = None, rec_opened_at = None, rec_clicked_at = None\<rparr>],
     next_id := 20\<rparr>"

definition sample_operator :: operator where
  "sample_operator = \<lparr>op_kind = ''user'', op_id = 3\<rparr>"

lemma sample_erase_contact: "get_contact 1 7 sample_erase_db = Some (sample_contact 7 1 ''a@x.io'')"
  by (simp add: sample_erase_db_def get_contact_def find_where_def in_ws_def sample_contact_def)

lemma sample_erase_target:
  "resolve_target 1 (ByContactID 7) sample_erase_db = Inr (target_of 1 (ByContactID 7) (sample_contact 7 1 ''a@x.io'') sample_erase_db)"
  "tg_contact (target_of 1 (ByContactID 7) (sample_contact 7 1 ''a@x.io'') sample_erase_db) = 7"
  by (simp_all add: resolve_target_def sample_erase_contact target_of_def) (simp add: sample_contact_def)

lemma sample_erase: "\<exists>d' jobs'. erase 30 1 (ByContactID 7) sample_operator (sample_erase_db, jobs) = (None, d', jobs')"
  by (rule erase_succeeds [OF sample_erase_contact])
     (simp_all add: sample_erase_db_def unsent_of_def in_ws_def get_broadcast_def broadcast_row_def find_where_def sample_broadcast_def)

lemma sample_erase_wf: "wf_contacts sample_erase_db"
  by (simp add: wf_contacts_def alias_unique_def normal_keys_def sample_erase_db_def sample_contact_def)
     (simp add: trimmed_def trim_space_def trim_left_def trim_right_def is_space_def to_lower_def lower_char_def)


theorem erasure_keeps_refusals_witness:
  "\<exists>d' jobs'. erase 30 1 (ByContactID 7) sample_operator (sample_erase_db, []) = (None, d', jobs') \<and>
     check_eligible 1 d' ChEmail ''a@x.io'' '''' = Inr \<lparr>dec_eligible = False, dec_reason = reason_suppressed\<rparr>"
proof -
  obtain d' jobs' where e: "erase 30 1 (ByContactID 7) sample_operator (sample_erase_db, []) = (None, d', jobs')" using sample_erase by blast
  have n: "normalize_destination ''a@x.io'' = ''a@x.io''" by code_simp
  have "check_eligible 1 sample_erase_db ChEmail ''a@x.io'' '''' = Inr \<lparr>dec_eligible = False, dec_reason = reason_suppressed\<rparr>"
    by (rule suppressed_verdict)
       (simp_all add: n sample_erase_db_def exists_where_def suppression_row_def in_ws_def load_workspace_def find_where_def sample_workspace_def)
  from erasure_keeps_refusals [OF e this] e show ?thesis by auto
qed

theorem erasure_keeps_counts_witness:
  "\<exists>d' jobs'. erase 30 1 (ByContactID 7) sample_operator (sample_erase_db, []) = (None, d', jobs') \<and>
     map delivery_fact (messages d') = map delivery_fact (messages sample_erase_db)"
proof -
  obtain d' jobs' where e: "erase 30 1 (ByContactID 7) sample_operator (sample_erase_db, []) = (None, d', jobs')" using sample_erase by blast
  have "distinct (map rec_id (recipients sample_erase_db))" by (simp add: sample_erase_db_def)
  from erasure_keeps_counts [OF e this] e show ?thesis by blast
qed

section \<open>No later mail\<close>




section \<open>Broadcasts settle\<close>

text \<open>Every Broadcast's total is the number of its recipients.\<close>

definition totals_right :: "id \<Rightarrow> db \<Rightarrow> bool" where
  "totals_right ws d \<longleftrightarrow> (\<forall>bid b. get_broadcast ws bid d = Some b \<longrightarrow> bc_recipients_total b = int (recipient_count ws bid d))"

lemma shrink_get:
  "get_broadcast ws bid (shrink_and_settle ws now unsent x d) =
     (if bid = x then map_option (\<lambda>b. let b' = b\<lparr>bc_recipients_total := bc_recipients_total b - int (length (filter (\<lambda>r. rec_broadcast r = x) unsent))\<rparr>
          in if recipients_in ws x RecPending d = 0 \<and> bc_status b' = BcSending then settled_broadcast ws now d b' else b') (get_broadcast ws x d)
      else get_broadcast ws bid d)"
proof -
  let ?f = "\<lambda>b. b\<lparr>bc_recipients_total := bc_recipients_total b - int (length (filter (\<lambda>r. rec_broadcast r = x) unsent))\<rparr>"
  let ?d = "set_broadcast ws x (\<lambda>_. True) ?f d"
  have k: "keeps_row ?f" by (simp add: keeps_row_def)
  have s: "settled_broadcast ws now ?d = settled_broadcast ws now d" by (rule ext) (simp add: settled_broadcast_def)
  show ?thesis
    unfolding shrink_and_settle_def finalize_get get_set_broadcast [OF k] s
    by (cases "get_broadcast ws x d") (simp_all add: Let_def)
qed

lemma shrink_fold_get:
  assumes "distinct bids"
  shows "get_broadcast ws bid (fold (shrink_and_settle ws now unsent) bids d) =
     (if bid \<in> set bids then get_broadcast ws bid (shrink_and_settle ws now unsent bid d) else get_broadcast ws bid d)"
  using assms
proof (induction bids arbitrary: d)
  case (Cons x bids)
  let ?d = "shrink_and_settle ws now unsent x d"
  have rec: "recipients ?d = recipients d" using only_broadcasts_tables(10) [OF only_broadcasts_shrink] .
  have s: "settled_broadcast ws now ?d = settled_broadcast ws now d" "recipients_in ws b st ?d = recipients_in ws b st d" for b st
    by (simp_all add: settled_broadcast_def recipients_in_def rec fun_eq_iff)
  have other: "get_broadcast ws y (shrink_and_settle ws now unsent y ?d) = get_broadcast ws y (shrink_and_settle ws now unsent y d)" if "y \<noteq> x" for y
    using that unfolding shrink_get s by simp
  show ?case using Cons other [of bid] by (auto simp: shrink_get)
qed simp

lemma length_split: "length (filter p l) = length (filter (\<lambda>x. p x \<and> q x) l) + length (filter (\<lambda>x. p x \<and> \<not> q x) l)"
  by (induction l) auto

text \<open>The Broadcasts an erased Contact was queued in stay consistent. Each one's total shrinks by exactly the
  recipients removed, so it still counts its recipient rows; and one that was sending and had its last pending
  recipient removed is settled as sent, with counters that add up to its recipients, rather than left sending
  for ever.\<close>

theorem erasure_settles_broadcasts:
  assumes "erase now ws i op (d, jobs) = (None, d', jobs')" and "resolve_target ws i d = Inr t"
    and "distinct (map rec_id (recipients d))" and "totals_right ws d"
  shows "totals_right ws d' \<and>
    (\<forall>r \<in> set (unsent_of ws (tg_contact t) d). \<forall>b. get_broadcast ws (rec_broadcast r) d' = Some b \<longrightarrow>
       recipients_in ws (rec_broadcast r) RecPending d' = 0 \<longrightarrow> bc_status b \<noteq> BcSending)"
proof -
  obtain d1 u where c: "cancel_in_flight now ws t (d, jobs) = (Inr (), d1, jobs')" and e: "erased_db now ws t op u d d1 d'"
    using erase_tables [OF assms(1)] assms(2) by (metis sum.inject(2))
  let ?u = "unsent_of ws (tg_contact t) d" and ?p = "(purge_outbox ws (tg_contact t) (tg_destinations t) d)\<lparr>recipients := without_unsent ws t d\<rparr>"
  note tabs = e [unfolded erased_db_def]
  have recs: "recipients d' = update_where (in_ws rec_workspace ws (\<lambda>r. rec_contact r = Some (tg_contact t))) (\<lambda>r. r\<lparr>rec_contact := None\<rparr>) (without_unsent ws t d)"
    and bcs: "broadcasts d' = broadcasts d1" using tabs by blast+
  have cnt: "count_where q (update_where p (\<lambda>r. r\<lparr>rec_contact := None\<rparr>) rows) = count_where q rows"
    if "\<And>r. q (r\<lparr>rec_contact := None\<rparr>) = q r" for p q rows
    using that by (induction rows) (auto simp: count_where_def update_where_def)
  have rin: "recipients_in ws bid st d' = recipients_in ws bid st ?p" and rcount: "recipient_count ws bid d' = recipient_count ws bid ?p" for bid st
    by (simp_all add: recipients_in_def recipient_count_def recs cnt recipient_of_def in_ws_def)
  have g: "get_broadcast ws bid d' = (if bid \<in> rec_broadcast ` set ?u
      then get_broadcast ws bid (shrink_and_settle ws now ?u bid ?p) else get_broadcast ws bid d)" for bid
  proof -
    have "get_broadcast ws bid d' = get_broadcast ws bid d1" by (simp add: get_broadcast_def bcs)
    then show ?thesis unfolding cancel_shape(2) [OF c]
      by (simp add: shrink_fold_get) (simp add: get_broadcast_def purge_outbox_def)
  qed
  have gp: "get_broadcast ws bid ?p = get_broadcast ws bid d" for bid by (simp add: get_broadcast_def purge_outbox_def)
  have gone: "rec_id r \<in> set (unsent_ids ws t d) \<longleftrightarrow> r \<in> set ?u" if r: "r \<in> set (recipients d)" for r
  proof
    assume "rec_id r \<in> set (unsent_ids ws t d)"
    then obtain r2 where r2: "r2 \<in> set ?u" "rec_id r2 = rec_id r" by (auto simp: unsent_ids_def)
    then have "r2 = r" using assms(3) r by (auto simp: unsent_of_def distinct_map inj_on_def)
    then show "r \<in> set ?u" using r2 by simp
  qed (simp add: unsent_ids_def)
  have kept: "without_unsent ws t d = filter (\<lambda>r. r \<notin> set ?u) (recipients d)"
    unfolding without_unsent_def delete_where_def by (rule filter_cong [OF refl]) (use gone in \<open>auto simp: in_ws_def unsent_of_def\<close>)
  have total: "int (recipient_count ws bid ?p) = int (recipient_count ws bid d) - int (length (filter (\<lambda>r. rec_broadcast r = bid) ?u))" for bid
  proof -
    have "filter (\<lambda>r. rec_broadcast r = bid) ?u = filter (\<lambda>r. in_ws rec_workspace ws (\<lambda>r. rec_broadcast r = bid) r \<and> r \<in> set ?u) (recipients d)"
      unfolding unsent_of_def filter_filter by (rule filter_cong [OF refl]) (auto simp: in_ws_def)
    then show ?thesis
      using length_split [of "in_ws rec_workspace ws (\<lambda>r. rec_broadcast r = bid)" "recipients d" "\<lambda>r. r \<in> set ?u"]
      by (simp add: recipient_count_def count_where_def kept conj_commute)
  qed
  have none: "length (filter (\<lambda>r. rec_broadcast r = bid) ?u) = 0" if "bid \<notin> rec_broadcast ` set ?u" for bid
    using that by (auto simp: filter_empty_conv)
  have "bc_recipients_total b = int (recipient_count ws bid d')" if b: "get_broadcast ws bid d' = Some b" for bid b
  proof (cases "bid \<in> rec_broadcast ` set ?u")
    case True
    then have "get_broadcast ws bid (shrink_and_settle ws now ?u bid ?p) = Some b" using b g by simp
    then obtain b0 where b0: "get_broadcast ws bid d = Some b0"
      and t: "bc_recipients_total b = bc_recipients_total b0 - int (length (filter (\<lambda>r. rec_broadcast r = bid) ?u))"
      by (auto simp: shrink_get gp Let_def settled_broadcast_def split: if_splits)
    have "bc_recipients_total b0 = int (recipient_count ws bid d)" using assms(4) b0 by (simp add: totals_right_def)
    then show ?thesis using t total rcount by simp
  next
    case False
    then have "bc_recipients_total b = int (recipient_count ws bid d)" using b g assms(4) by (simp add: totals_right_def)
    then show ?thesis using none [OF False] total rcount by simp
  qed
  moreover have "bc_status b \<noteq> BcSending"
    if r: "r \<in> set ?u" and b: "get_broadcast ws (rec_broadcast r) d' = Some b" and zero: "recipients_in ws (rec_broadcast r) RecPending d' = 0" for r b
  proof -
    have "rec_broadcast r \<in> rec_broadcast ` set ?u" using r by (rule imageI)
    then have "get_broadcast ws (rec_broadcast r) (shrink_and_settle ws now ?u (rec_broadcast r) ?p) = Some b" using b g by simp
    moreover have "recipients_in ws (rec_broadcast r) RecPending ?p = 0" using zero unfolding rin .
    moreover obtain z where "get_broadcast ws (rec_broadcast r) ?p = Some z" using calculation(1) by (auto simp: shrink_get)
    ultimately show ?thesis
      by (cases "bc_status z = BcSending") (auto simp: shrink_get Let_def settled_broadcast_def)
  qed
  ultimately show ?thesis by (simp add: totals_right_def)
qed


theorem erasure_settles_broadcasts_witness:
  "\<exists>d' jobs'. erase 30 1 (ByContactID 7) sample_operator (sample_erase_db, []) = (None, d', jobs') \<and> totals_right 1 d'"
proof -
  obtain d' jobs' where e: "erase 30 1 (ByContactID 7) sample_operator (sample_erase_db, []) = (None, d', jobs')" using sample_erase by blast
  have d: "distinct (map rec_id (recipients sample_erase_db))" by (simp add: sample_erase_db_def)
  have "totals_right 1 sample_erase_db"
    by (auto simp: totals_right_def sample_erase_db_def get_broadcast_def broadcast_row_def in_ws_def find_where_def sample_broadcast_def
        recipient_count_def count_where_def split: if_splits)
  from erasure_settles_broadcasts [OF e sample_erase_target(1) d this] e show ?thesis by blast
qed

section \<open>Other Workspaces\<close>

text \<open>An Erasure is confined. Whatever identifier it is given, whether it succeeds or not, every row and
  every outbox envelope of every other Workspace is left as it was, and on an error nothing changed at all.\<close>

theorem erasure_confined:
  "foreign_view ws (fst (snd (erase now ws i op (d, jobs)))) = foreign_view ws d \<and>
   (fst (erase now ws i op (d, jobs)) \<noteq> None \<longrightarrow> snd (erase now ws i op (d, jobs)) = (d, jobs))"
proof (cases "fst (erase now ws i op (d, jobs))")
  case (Some e)
  then have "snd (erase now ws i op (d, jobs)) = (d, jobs)"
    by (auto simp: erase_def split: sum.splits prod.splits)
  then show ?thesis by simp
next
  case None
  then obtain d' jobs' where er: "erase now ws i op (d, jobs) = (None, d', jobs')" by (cases "erase now ws i op (d, jobs)") auto
  obtain t d1 u where c: "cancel_in_flight now ws t (d, jobs) = (Inr (), d1, jobs')" and e: "erased_db now ws t op u d d1 d'"
    using erase_tables [OF er] by blast
  have set_b: "foreign_rows bc_workspace ws (broadcasts (set_broadcast ws b p f x)) = foreign_rows bc_workspace ws (broadcasts x)"
    if "keeps_row f" for b p f x
  proof -
    have "filter (\<lambda>r. bc_workspace r \<noteq> ws) (update_where (\<lambda>y. broadcast_row ws b y \<and> p y) f l) = filter (\<lambda>r. bc_workspace r \<noteq> ws) l" for l
      using that by (induction l) (auto simp: update_where_def broadcast_row_iff keeps_row_def)
    then show ?thesis by (simp add: set_broadcast_def foreign_rows_def)
  qed
  have fin: "foreign_rows bc_workspace ws (broadcasts (shrink_and_settle ws now l b x)) = foreign_rows bc_workspace ws (broadcasts x)" for l b x
    by (simp add: shrink_and_settle_def finalize_def set_b keeps_row_def)
  have "foreign_rows bc_workspace ws (broadcasts (fold (shrink_and_settle ws now l) bs x)) = foreign_rows bc_workspace ws (broadcasts x)" for l bs x
    by (induction bs arbitrary: x) (simp_all add: fin)
  then have bc: "foreign_rows bc_workspace ws (broadcasts d') = foreign_rows bc_workspace ws (broadcasts d)"
    using e cancel_shape(2) [OF c] by (simp add: erased_db_def purge_outbox_def)
  have two: "foreign_rows msg_workspace ws (update_where (in_ws msg_workspace ws p) anonymize_message (update_where (in_ws msg_workspace ws q) anonymize_message l)) =
      foreign_rows msg_workspace ws l" for p q l
    by (simp add: foreign_update anonymize_message_def)
  have evs: "foreign_rows ev_workspace ws (update_where (in_ws ev_workspace ws p) anonymize_event (delete_where (\<lambda>e. in_ws ev_workspace ws p e \<and> q e) l)) =
      foreign_rows ev_workspace ws l" for p q l
    by (induction l) (auto simp: update_where_def delete_where_def foreign_rows_def in_ws_def anonymize_event_def)
  show ?thesis
    using e bc er
    by (simp add: foreign_view_def erased_db_def detach_opt_outs_def erase_confirmations_def erase_runs_def erase_visitors_def
        erase_events_def anonymize_delivery_def purge_outbox_def without_unsent_def Let_def foreign_update foreign_delete foreign_insert two evs)
qed

section \<open>Where it falls short\<close>

text \<open>An erased device comes back. The outbox is purged by Contact and address only, so an Event a device
  collected while anonymous, still queued when the device (or the Contact it was bound to since) is erased,
  survives the Erasure; Persist then writes it as a new Event row that carries the erased visitor id.\<close>

theorem erased_device_resurfaces:
  assumes "erase now ws i op (d, jobs) = (None, d', jobs')" and "resolve_target ws i d = Inr t" and "vid \<in> set (tg_visitors t)" and "vid \<noteq> ''''"
    and "env \<in> set (outbox d)" and "env_event env = CollectedEvent e" and "env_name env = name_collected" and "env_workspace env = ws"
    and "ce_contact e = 0" and "ce_email e = ''''" and "ce_visitor e = vid" and "ce_action e \<noteq> ''''"
    and "load_workspace ws d \<noteq> None" and "\<not> stored env d'"
  shows "env \<in> set (outbox d') \<and> (\<exists>row d2. persist later env d' = (None, d2) \<and> events d2 = events d' @ [row] \<and> ev_visitor row = Some vid)"
proof -
  obtain d1 u where ed: "erased_db now ws t op u d d1 d'" using erase_tables [OF assms(1)] assms(2) by (metis sum.inject(2))
  have "\<not> names_subject (tg_contact t) (tg_destinations t) (env_event env)"
    by (simp add: names_subject_def assms(6,9,10) nonzero_def nonempty_def)
  then have "env \<in> set (outbox d')" using ed assms(5) by (simp add: erased_db_def purge_outbox_def table_simps)
  moreover have "load_workspace ws d' \<noteq> None" using ed assms(13) by (simp add: erased_db_def load_workspace_def)
  then have "persist later env d' = (None, d'\<lparr>events := events d' @ [event_of later env (next_id d')], next_id := next_id d' + 1\<rparr>)"
    using assms(12,14) by (auto simp: persist_def decode_event_def registry_def assms(6-8) stored_def no_projection_def)
  moreover have "ev_visitor (event_of later env k) = Some vid" for k
    by (simp add: event_of_def Let_def assms(6,11) nonempty_def assms(4))
  ultimately show ?thesis by auto
qed

text \<open>Erasing an address that has no Contact leaves its Events. A bounce or a complaint of such an address is
  stored with the address and no Contact; an Erasure by that address succeeds when a message went to it, and
  every one of those rows is still there afterwards, address included.\<close>

theorem contactless_events_remain:
  assumes "only_one (in_ws con_workspace ws (\<lambda>c. con_email c = Some x)) (contacts d) = Inr None"
    and "erase now ws (ByEmail x) op (d, jobs) = (None, d', jobs')"
  shows "events d' = events d \<and> confirmations d' = delete_where (in_ws cnf_workspace ws (\<lambda>c. cnf_contact c = Some 0)) (confirmations d)"
proof -
  obtain t d1 u where t: "resolve_target ws (ByEmail x) d = Inr t" and e: "erased_db now ws t op u d d1 d'" using erase_tables [OF assms(2)] by blast
  have "tg_contact t = 0" "tg_visitors t = []" using t assms(1) by (auto simp: resolve_target_def split: if_splits)
  then have "event_of_subject t r = False" for r by (simp add: event_of_subject_def)
  then have "events (erase_events ws t d) = events d"
    by (simp add: erase_events_def Let_def in_ws_def update_where_def delete_where_def)
  then show ?thesis using e \<open>tg_contact t = 0\<close> by (simp add: erased_db_def erase_confirmations_def)
qed


definition sample_collected :: collected_event where
  "sample_collected = \<lparr>ce_workspace = 1, ce_contact = 0, ce_visitor = ''dev'', ce_subject = '''', ce_action = ''view'', ce_email = '''',
     ce_phone = '''', ce_properties = Map.empty, ce_occurred = None\<rparr>"

theorem erased_device_resurfaces_witness:
  "\<exists>d' jobs' row d2. erase 30 1 (ByVisitorID ''dev'') sample_operator
       (empty_db\<lparr>workspaces := [sample_workspace 1], visitors := [\<lparr>vis_id = 8, vis_workspace = 1, vis_visitor = ''dev'', vis_contact = None,
           vis_last_seen_at = 0\<rparr>], outbox := [make_envelope 3 4 (CollectedEvent sample_collected)]\<rparr>, []) = (None, d', jobs') \<and>
     persist 31 (make_envelope 3 4 (CollectedEvent sample_collected)) d' = (None, d2) \<and> events d2 = events d' @ [row] \<and>
     ev_visitor row = Some ''dev''"
proof -
  let ?env = "make_envelope 3 4 (CollectedEvent sample_collected)"
  let ?d = "empty_db\<lparr>workspaces := [sample_workspace 1], visitors := [\<lparr>vis_id = 8, vis_workspace = 1, vis_visitor = ''dev'', vis_contact = None,
           vis_last_seen_at = 0\<rparr>], outbox := [?env]\<rparr>"
  let ?t = "\<lparr>tg_contact = 0, tg_visitors = [''dev''], tg_destinations = [], tg_subject = ''dev'', tg_kind = ''visitor_id''\<rparr>"
  have t: "resolve_target 1 (ByVisitorID ''dev'') ?d = Inr ?t"
    by (simp add: resolve_target_def only_one_def visitor_row_def in_ws_def exists_where_def)
  have er: "\<exists>d' jobs'. erase 30 1 (ByVisitorID ''dev'') sample_operator (?d, []) = (None, d', jobs')"
    by (simp add: erase_def t cancel_in_flight_def Let_def unsent_of_def erase_contact_def purge_outbox_def)
  then obtain d' jobs' where e: "erase 30 1 (ByVisitorID ''dev'') sample_operator (?d, []) = (None, d', jobs')" by blast
  have ev: "events d' = []"
  proof -
    obtain t2 d1 u where "erased_db 30 1 t2 sample_operator u ?d d1 d'" using erase_tables [OF e] by blast
    then show ?thesis by (simp add: erased_db_def erase_events_def Let_def update_where_def delete_where_def)
  qed
  have "?env \<in> set (outbox d') \<and> (\<exists>row d2. persist 31 ?env d' = (None, d2) \<and> events d2 = events d' @ [row] \<and> ev_visitor row = Some ''dev'')"
    by (rule erased_device_resurfaces [OF e t, of "''dev''" ?env sample_collected])
       (simp_all add: sample_collected_def load_workspace_def find_where_def sample_workspace_def stored_def ev exists_where_def)
  then show ?thesis using e by blast
qed

definition sample_sent :: "string \<Rightarrow> outbound_message" where
  "sample_sent x = \<lparr>msg_id = 4, msg_workspace = 1, msg_kind = KindTransactional, msg_key = ''k'', msg_channel = ChEmail, msg_destination = x,
     msg_contact = None, msg_source = None, msg_domain = None, msg_provider_id = None, msg_status = MsgSent, msg_reason = None,
     msg_claimed_at = 0, msg_sent_at = Some 1, msg_broadcast = None, msg_recipient = None, msg_automation = None, msg_run = None,
     msg_step = None, msg_integration = None, msg_template = None\<rparr>"

definition sample_failure :: delivery_failure where
  "sample_failure = \<lparr>df_action = name_email_bounced, df_workspace = 1, df_contact = 0, df_email = ''a@x.io'',
     df_bounce_kind = bounce_kind_permanent, df_provider = ''ses'', df_domain = ''acme.io'', df_dedup = ''m1/a@x.io''\<rparr>"

theorem contactless_events_remain_witness:
  "\<exists>d' jobs'. erase 30 1 (ByEmail ''a@x.io'') sample_operator
       (empty_db\<lparr>messages := [sample_sent ''a@x.io''], events := [event_of 5 (make_envelope 3 4 (EmailDeliveryFailure sample_failure)) 6]\<rparr>, []) = (None, d', jobs') \<and>
     map ev_email (events d') = [Some ''a@x.io'']"
proof -
  let ?d = "empty_db\<lparr>messages := [sample_sent ''a@x.io''], events := [event_of 5 (make_envelope 3 4 (EmailDeliveryFailure sample_failure)) 6]\<rparr>"
  have n: "only_one (in_ws con_workspace 1 (\<lambda>c. con_email c = Some ''a@x.io'')) (contacts ?d) = Inr None" by (simp add: only_one_def)
  have er: "\<exists>d' jobs'. erase 30 1 (ByEmail ''a@x.io'') sample_operator (?d, []) = (None, d', jobs')"
    by (simp add: erase_def resolve_target_def n only_one_def cancel_in_flight_def Let_def unsent_of_def erase_contact_def purge_outbox_def
        exists_where_def in_ws_def sample_sent_def)
  then obtain d' jobs' where e: "erase 30 1 (ByEmail ''a@x.io'') sample_operator (?d, []) = (None, d', jobs')" by blast
  from contactless_events_remain [OF n e] have "events d' = events ?d" by blast
  then show ?thesis using e by (simp add: event_of_def Let_def sample_failure_def nonempty_def no_projection_def)
qed

end
