(* ===== verification/AccountSchema.thy ===== *)
theory AccountSchema
  imports Schema
begin

text \<open>
  The entities of \<open>ent/schema\<close> that carry people and their credentials: Users, Memberships,
  Invitations, Recovery codes, login attempts, API tokens, and the OAuth clients and codes. They
  are reached over the raw client (\<open>internal/accounts\<close>), not over a Workspace scope, so they form
  a state of their own beside \<open>db\<close>. A Workspace row is extended with the columns only these
  components read. The Audit entries the operations publish are kept in order in \<open>audit_log\<close>.
\<close>

section \<open>Rows\<close>

datatype role = RoleOwner | RoleAdmin | RoleMember
datatype invitable_role = InviteAdmin | InviteMember
datatype attempt_kind = KindLogin | KindPasswordReset

record user =
  u_id :: id
  u_name :: string
  u_email :: string
  u_password_hash :: string
  u_email_verified_at :: "time option"
  u_session_epoch :: int
  u_sf_secret :: string
  u_sf_confirmed_at :: "time option"
  u_sf_last_step :: int

record membership =
  mb_id :: id
  mb_workspace :: id
  mb_user :: id
  mb_role :: role
  mb_created_at :: time

record tenant = workspace +
  tn_slug :: string
  tn_collect_key :: string
  tn_ingest_key :: string
  tn_retention_days :: "int option"

record invitation =
  inv_id :: id
  inv_workspace :: id
  inv_email :: string
  inv_role :: invitable_role
  inv_token_hash :: string
  inv_invited_by :: "id option"
  inv_expires_at :: time
  inv_accepted_at :: "time option"

record recovery_code =
  rc_user :: id
  rc_hash :: string
  rc_used_at :: "time option"

record attempt =
  at_email :: string
  at_kind :: attempt_kind
  at_failures :: int
  at_last :: time

record api_token =
  tok_id :: id
  tok_workspace :: id
  tok_name :: string
  tok_prefix :: string
  tok_secret_hash :: string
  tok_scopes :: "string list"
  tok_expires_at :: "time option"
  tok_revoked_at :: "time option"

record oauth_client =
  oc_id :: id
  oc_client_id :: string
  oc_name :: string
  oc_redirect_uris :: "string list"

record oauth_code =
  og_id :: id
  og_code_hash :: string
  og_client :: id
  og_workspace :: id
  og_redirect_uri :: string
  og_code_challenge :: string
  og_scopes :: "string list"
  og_expires_at :: time
  og_used_at :: "time option"

record accounts_db =
  users :: "user list"
  memberships :: "membership list"
  tenants :: "tenant list"
  invitations :: "invitation list"
  recovery_codes :: "recovery_code list"
  attempts :: "attempt list"
  api_tokens :: "api_token list"
  oauth_clients :: "oauth_client list"
  oauth_codes :: "oauth_code list"
  audit_log :: "domain_event list"
  fresh_id :: id

definition empty_accounts :: accounts_db where
  "empty_accounts = \<lparr>users = [], memberships = [], tenants = [], invitations = [], recovery_codes = [],
     attempts = [], api_tokens = [], oauth_clients = [], oauth_codes = [], audit_log = [], fresh_id = 1\<rparr>"

section \<open>Audit entries and lookups\<close>

definition log_audit :: "audit_entry \<Rightarrow> accounts_db \<Rightarrow> accounts_db" where
  "log_audit e d =
     (case audit_event e of None \<Rightarrow> d | Some ev \<Rightarrow> d\<lparr>audit_log := audit_log d @ [ev]\<rparr>)"

lemma log_audit_simps [simp]:
  "users (log_audit e d) = users d"
  "memberships (log_audit e d) = memberships d"
  "tenants (log_audit e d) = tenants d"
  "invitations (log_audit e d) = invitations d"
  "recovery_codes (log_audit e d) = recovery_codes d"
  "attempts (log_audit e d) = attempts d"
  "api_tokens (log_audit e d) = api_tokens d"
  "oauth_clients (log_audit e d) = oauth_clients d"
  "oauth_codes (log_audit e d) = oauth_codes d"
  "fresh_id (log_audit e d) = fresh_id d"
  by (simp_all add: log_audit_def split: option.split)

definition get_user :: "id \<Rightarrow> accounts_db \<Rightarrow> user option" where
  "get_user uid d = find_where (\<lambda>u. u_id u = uid) (users d)"

definition user_by_email :: "string \<Rightarrow> accounts_db \<Rightarrow> user option" where
  "user_by_email email d = find_where (\<lambda>u. u_email u = email) (users d)"

definition update_user :: "id \<Rightarrow> (user \<Rightarrow> user) \<Rightarrow> accounts_db \<Rightarrow> accounts_db" where
  "update_user uid f d = d\<lparr>users := update_where (\<lambda>u. u_id u = uid) f (users d)\<rparr>"

lemma update_user_simps [simp]:
  "users (update_user uid f d) = update_where (\<lambda>u. u_id u = uid) f (users d)"
  "memberships (update_user uid f d) = memberships d"
  "tenants (update_user uid f d) = tenants d"
  "invitations (update_user uid f d) = invitations d"
  "recovery_codes (update_user uid f d) = recovery_codes d"
  "attempts (update_user uid f d) = attempts d"
  "api_tokens (update_user uid f d) = api_tokens d"
  "oauth_clients (update_user uid f d) = oauth_clients d"
  "oauth_codes (update_user uid f d) = oauth_codes d"
  "fresh_id (update_user uid f d) = fresh_id d"
  by (simp_all add: update_user_def)

lemma get_user_log_audit [simp]: "get_user uid (log_audit e d) = get_user uid d"
  by (simp add: get_user_def)

lemma get_user_SomeD: "get_user uid d = Some u \<Longrightarrow> u \<in> set (users d) \<and> u_id u = uid"
  by (auto simp: get_user_def dest: find_where_SomeD)

lemma get_user_update_user:
  assumes "\<And>u. u_id (f u) = u_id u"
  shows "get_user uid (update_user uid' f d) =
    (if uid = uid' then map_option f (get_user uid d) else get_user uid d)"
proof -
  have "find_where (\<lambda>u. u_id u = uid) (update_where (\<lambda>u. u_id u = uid') f (users d)) =
      map_option (\<lambda>u. if u_id u = uid' then f u else u) (find_where (\<lambda>u. u_id u = uid) (users d))"
    by (rule find_where_update) (simp add: assms)
  then show ?thesis
    by (cases "find_where (\<lambda>u. u_id u = uid) (users d)") (auto simp: get_user_def dest: find_where_SomeD)
qed

definition user_actor :: "user \<Rightarrow> actor" where
  "user_actor u = \<lparr>actor_kind = ActorUser, actor_id = show_int (u_id u), actor_name = u_name u\<rparr>"

text \<open>The keys the schema declares unique.\<close>

definition accounts_ok :: "accounts_db \<Rightarrow> bool" where
  "accounts_ok d \<longleftrightarrow>
     distinct (map u_id (users d)) \<and> distinct (map u_email (users d)) \<and>
     distinct (map mb_id (memberships d)) \<and>
     distinct (map (\<lambda>m. (mb_user m, mb_workspace m)) (memberships d)) \<and>
     distinct (map ws_id (tenants d)) \<and> distinct (map tn_slug (tenants d)) \<and>
     distinct (map inv_id (invitations d)) \<and>
     distinct (map (\<lambda>i. (inv_workspace i, inv_email i)) (invitations d)) \<and>
     (\<forall>u \<in> set (users d). u_id u < fresh_id d) \<and> (\<forall>m \<in> set (memberships d). mb_id m < fresh_id d) \<and>
     (\<forall>w \<in> set (tenants d). ws_id w < fresh_id d) \<and> (\<forall>i \<in> set (invitations d). inv_id i < fresh_id d) \<and>
     (\<forall>m \<in> set (memberships d). (\<exists>u \<in> set (users d). u_id u = mb_user m) \<and>
        (\<exists>w \<in> set (tenants d). ws_id w = mb_workspace m)) \<and>
     (\<forall>i \<in> set (invitations d). \<exists>w \<in> set (tenants d). ws_id w = inv_workspace i)"

end
