(* ===== verification/Attempts.thy ===== *)
theory Attempts
  imports AccountSchema
begin

text \<open>
  \<open>internal/accounts/attempts.go\<close>: the counters of failed attempts behind the Login throttle and
  the password-reset budget. The clock is an argument of every operation (the module's injectable
  \<open>now\<close>); the counters are the rows of the \<open>auth_attempts\<close> table.
\<close>

section \<open>Rules\<close>

record attempt_rule =
  rl_threshold :: int
  rl_window :: duration
  rl_base :: duration
  rl_cap :: duration

type_synonym attempt_rules = "attempt_kind \<Rightarrow> attempt_rule option"

definition reset_rule :: "int \<Rightarrow> attempt_rule" where
  "reset_rule n = \<lparr>rl_threshold = n, rl_window = hour, rl_base = 0, rl_cap = 0\<rparr>"

definition login_rule :: "int \<Rightarrow> attempt_rule" where
  "login_rule n = \<lparr>rl_threshold = n, rl_window = 15 * minute, rl_base = second, rl_cap = 15 * minute\<rparr>"

text \<open>\<open>NewAttempts\<close> with \<open>WithRateLimits\<close>; a bare module has both limits 0.\<close>

definition configured_rules :: "int \<Rightarrow> int \<Rightarrow> attempt_rules" where
  "configured_rules login_failures forgot_address k =
     (case k of
        KindLogin \<Rightarrow> Some (login_rule login_failures)
      | KindPasswordReset \<Rightarrow> Some (reset_rule forgot_address))"

definition new_attempts_rules :: attempt_rules where
  "new_attempts_rules = configured_rules 0 0"

definition normalize_email :: "string \<Rightarrow> string" where
  "normalize_email email = to_lower (trim_space email)"

definition rule_of :: "attempt_rules \<Rightarrow> attempt_kind \<Rightarrow> attempt_rule option" where
  "rule_of rules k =
     (case rules k of None \<Rightarrow> None | Some r \<Rightarrow> if 0 < rl_threshold r then Some r else None)"

definition attempt_limit :: "attempt_rules \<Rightarrow> attempt_kind \<Rightarrow> int" where
  "attempt_limit rules k = (case rules k of None \<Rightarrow> 0 | Some r \<Rightarrow> rl_threshold r)"

section \<open>Operations\<close>

definition is_row :: "attempt_kind \<Rightarrow> string \<Rightarrow> attempt \<Rightarrow> bool" where
  "is_row k email r \<longleftrightarrow> at_email r = email \<and> at_kind r = k"

text \<open>The INSERT ... ON CONFLICT (email, kind) DO UPDATE of \<open>RecordFailure\<close>.\<close>

definition upsert_attempt :: "attempt \<Rightarrow> attempt list \<Rightarrow> attempt list" where
  "upsert_attempt new rows =
     (if exists_where (is_row (at_kind new) (at_email new)) rows
      then update_where (is_row (at_kind new) (at_email new)) (\<lambda>_. new) rows
      else rows @ [new])"

definition record_failure :: "attempt_rules \<Rightarrow> time \<Rightarrow> attempt_kind \<Rightarrow> string \<Rightarrow> attempt list \<Rightarrow> attempt list" where
  "record_failure rules now k email rows =
     (case rule_of rules k of
        None \<Rightarrow> rows
      | Some r \<Rightarrow>
         let e = normalize_email email;
             current = (\<lambda>row. is_row k e row \<and> now - rl_window r \<le> at_last row)
         in if 0 < count_where current rows
            then update_where current (\<lambda>row. row\<lparr>at_failures := at_failures row + 1, at_last := now\<rparr>) rows
            else upsert_attempt \<lparr>at_email = e, at_kind = k, at_failures = 1, at_last = now\<rparr> rows)"

definition record_success :: "attempt_rules \<Rightarrow> attempt_kind \<Rightarrow> string \<Rightarrow> attempt list \<Rightarrow> attempt list" where
  "record_success rules k email rows =
     (case rule_of rules k of
        None \<Rightarrow> rows
      | Some _ \<Rightarrow> delete_where (is_row k (normalize_email email)) rows)"

text \<open>The loop of \<open>Delay\<close>: one doubling per failure past the threshold, stopped at the cap.\<close>

fun doubled :: "nat \<Rightarrow> duration \<Rightarrow> duration \<Rightarrow> duration" where
  "doubled 0 cap wait = wait"
| "doubled (Suc n) cap wait =
     (let w = wrap64 (wait * 2) in if cap \<le> w then cap else doubled n cap w)"

definition delay_of_row :: "attempt_rule \<Rightarrow> time \<Rightarrow> attempt \<Rightarrow> duration" where
  "delay_of_row r now row =
     (if at_failures row < rl_threshold r \<or> rl_window r < now - at_last row then 0
      else max (at_last row + doubled (nat (at_failures row - rl_threshold r)) (rl_cap r) (rl_base r) - now) 0)"

definition delay :: "attempt_rules \<Rightarrow> time \<Rightarrow> attempt_kind \<Rightarrow> string \<Rightarrow> attempt list \<Rightarrow> duration" where
  "delay rules now k email rows =
     (case rule_of rules k of
        None \<Rightarrow> 0
      | Some r \<Rightarrow>
         (case find_where (is_row k (normalize_email email)) rows of
            None \<Rightarrow> 0
          | Some row \<Rightarrow> delay_of_row r now row))"

text \<open>\<open>Take\<close>: one conditional upsert. A row that is neither stale nor below the threshold is
  left alone and no row comes back, which is the refusal.\<close>

definition take_slot :: "attempt_rules \<Rightarrow> time \<Rightarrow> attempt_kind \<Rightarrow> string \<Rightarrow> attempt list \<Rightarrow> bool \<times> attempt list" where
  "take_slot rules now k email rows =
     (case rule_of rules k of
        None \<Rightarrow> (True, rows)
      | Some r \<Rightarrow>
         let e = normalize_email email; cutoff = now - rl_window r in
         case find_where (is_row k e) rows of
           None \<Rightarrow> (True, rows @ [\<lparr>at_email = e, at_kind = k, at_failures = 1, at_last = now\<rparr>])
         | Some row \<Rightarrow>
             if at_last row < cutoff \<or> at_failures row < rl_threshold r
             then (True, update_where (is_row k e)
                     (\<lambda>x. x\<lparr>at_failures := (if at_last x < cutoff then 1 else at_failures x + 1), at_last := now\<rparr>) rows)
             else (False, rows))"

definition stale :: "attempt_rules \<Rightarrow> time \<Rightarrow> attempt \<Rightarrow> bool" where
  "stale rules now row \<longleftrightarrow>
     (case rules (at_kind row) of None \<Rightarrow> False | Some r \<Rightarrow> at_last row < now - rl_window r)"

definition purge_attempts :: "attempt_rules \<Rightarrow> time \<Rightarrow> attempt list \<Rightarrow> nat \<times> attempt list" where
  "purge_attempts rules now rows = (count_where (stale rules now) rows, delete_where (stale rules now) rows)"

section \<open>The counter of an address\<close>

text \<open>What the operations of one kind and address see: its failures and the time of the last.\<close>

definition slot :: "attempt_kind \<Rightarrow> string \<Rightarrow> attempt list \<Rightarrow> (int \<times> time) option" where
  "slot k e rows = map_option (\<lambda>r. (at_failures r, at_last r)) (find_where (is_row k e) rows)"

definition attempts_ok :: "attempt list \<Rightarrow> bool" where
  "attempts_ok rows \<longleftrightarrow> distinct (map (\<lambda>r. (at_email r, at_kind r)) rows) \<and> (\<forall>r \<in> set rows. 1 \<le> at_failures r)"

lemma is_row_key: "is_row k e r \<longleftrightarrow> (at_email r, at_kind r) = (e, k)"
  by (simp add: is_row_def)

lemma distinct_keys_update:
  assumes "\<And>r. p r \<Longrightarrow> at_email (f r) = at_email r \<and> at_kind (f r) = at_kind r"
  shows "map (\<lambda>r. (at_email r, at_kind r)) (update_where p f rows) = map (\<lambda>r. (at_email r, at_kind r)) rows"
  by (rule map_update_where) (simp add: assms)

lemma attempts_ok_update:
  assumes "attempts_ok rows"
    and "\<And>r. p r \<Longrightarrow> at_email (f r) = at_email r \<and> at_kind (f r) = at_kind r"
    and "\<And>r. p r \<Longrightarrow> 1 \<le> at_failures r \<Longrightarrow> 1 \<le> at_failures (f r)"
  shows "attempts_ok (update_where p f rows)"
  using assms distinct_keys_update [of p f rows] by (auto simp: attempts_ok_def table_simps)

lemma attempts_ok_append:
  assumes "attempts_ok rows" and "find_where (is_row (at_kind r) (at_email r)) rows = None" and "1 \<le> at_failures r"
  shows "attempts_ok (rows @ [r])"
  using assms by (auto simp: attempts_ok_def table_simps is_row_def)

lemma attempts_ok_delete: "attempts_ok rows \<Longrightarrow> attempts_ok (delete_where p rows)"
  by (auto simp: attempts_ok_def delete_where_def distinct_map inj_on_def)

lemma attempts_ok_upsert:
  assumes "attempts_ok rows" and "1 \<le> at_failures new"
  shows "attempts_ok (upsert_attempt new rows)"
proof (cases "exists_where (is_row (at_kind new) (at_email new)) rows")
  case True
  have "attempts_ok (update_where (is_row (at_kind new) (at_email new)) (\<lambda>_. new) rows)"
    using assms by (intro attempts_ok_update) (auto simp: is_row_def)
  with True show ?thesis by (simp add: upsert_attempt_def)
next
  case False
  then have "find_where (is_row (at_kind new) (at_email new)) rows = None" by (simp add: table_simps)
  with assms False show ?thesis by (simp add: upsert_attempt_def attempts_ok_append)
qed

lemma attempts_ok_record_failure:
  "attempts_ok rows \<Longrightarrow> attempts_ok (record_failure rules now k email rows)"
  by (auto simp: record_failure_def Let_def intro!: attempts_ok_update attempts_ok_upsert split: option.splits)

lemma attempts_ok_record_success:
  "attempts_ok rows \<Longrightarrow> attempts_ok (record_success rules k email rows)"
  by (auto simp: record_success_def intro: attempts_ok_delete split: option.splits)

lemma attempts_ok_take: "attempts_ok rows \<Longrightarrow> attempts_ok (snd (take_slot rules now k email rows))"
  by (auto simp: take_slot_def Let_def intro!: attempts_ok_update attempts_ok_append split: option.splits)

lemma attempts_ok_purge: "attempts_ok rows \<Longrightarrow> attempts_ok (snd (purge_attempts rules now rows))"
  by (simp add: purge_attempts_def attempts_ok_delete)

text \<open>The part of a counter that still counts at \<open>now\<close>.\<close>

definition live :: "attempt_rules \<Rightarrow> attempt_kind \<Rightarrow> time \<Rightarrow> (int \<times> time) option \<Rightarrow> (int \<times> time) option" where
  "live rules k now s =
     (case s of None \<Rightarrow> None
      | Some (f, l) \<Rightarrow>
         (case rules k of None \<Rightarrow> s | Some r \<Rightarrow> if l < now - rl_window r then None else s))"

lemma rule_of_SomeD: "rule_of rules k = Some r \<Longrightarrow> rules k = Some r \<and> 0 < rl_threshold r"
  by (auto simp: rule_of_def split: option.splits if_splits)

lemma find_row_unique:
  assumes "attempts_ok rows" and "r \<in> set rows" and "is_row k e r"
  shows "find_where (is_row k e) rows = Some r"
  by (rule find_where_eq [where g = "\<lambda>r. (at_email r, at_kind r)"])
     (use assms in \<open>auto simp: attempts_ok_def is_row_def\<close>)

lemma is_row_other: "is_row k' e' r \<Longrightarrow> (k, e) \<noteq> (k', e') \<Longrightarrow> \<not> is_row k e r"
  by (auto simp: is_row_def)

lemma slot_update_other:
  assumes "(k, e) \<noteq> (k', e')" and "\<And>r. p r \<Longrightarrow> is_row k' e' r"
    and "\<And>r. p r \<Longrightarrow> is_row k' e' (f r)"
  shows "slot k e (update_where p f rows) = slot k e rows"
proof -
  have np: "\<not> p r" if "is_row k e r" for r
    using that assms(1) assms(2) [of r] is_row_other [of k' e' r k e] by blast
  have nf: "\<not> is_row k e (f r)" if "p r" for r
    using that assms(1) assms(3) [of r] is_row_other [of k' e' "f r" k e] by blast
  have "find_where (is_row k e) (update_where p f rows) = find_where (is_row k e) rows"
  proof (induction rows)
    case (Cons a rows)
    then show ?case using np [of a] nf [of a] by (cases "p a") (auto simp: find_where_def update_where_def)
  qed (simp add: update_where_def)
  then show ?thesis by (simp add: slot_def)
qed

lemma slot_append_other: "\<not> is_row k e r \<Longrightarrow> slot k e (rows @ [r]) = slot k e rows"
  by (induction rows) (auto simp: slot_def find_where_def)

lemma slot_update_same:
  assumes "find_where (is_row k e) rows = Some r" and "p r"
    and "\<And>x. is_row k e (f x) = is_row k e x"
  shows "slot k e (update_where p f rows) = Some (at_failures (f r), at_last (f r))"
  using assms by (simp add: slot_def find_where_update)

lemma slot_upsert:
  "slot k e (upsert_attempt new rows) =
     (if is_row k e new then Some (at_failures new, at_last new) else slot k e rows)"
proof (cases "is_row k e new")
  case True
  then have key: "at_kind new = k" "at_email new = e" by (simp_all add: is_row_def)
  have "find_where (is_row k e) (update_where (is_row k e) (\<lambda>_. new) rows) =
      (if exists_where (is_row k e) rows then Some new else None)"
    using True by (induction rows) (auto simp: find_where_def update_where_def exists_where_def)
  then show ?thesis
    using True find_where_append [of "is_row k e" rows new] find_where_None_iff [of "is_row k e" rows]
    by (auto simp: upsert_attempt_def key slot_def exists_where_iff)
next
  case False
  then have ne: "(k, e) \<noteq> (at_kind new, at_email new)" by (auto simp: is_row_def)
  show ?thesis
  proof (cases "exists_where (is_row (at_kind new) (at_email new)) rows")
    case True
    have "slot k e (update_where (is_row (at_kind new) (at_email new)) (\<lambda>_. new) rows) = slot k e rows"
      by (rule slot_update_other [OF ne]) (simp_all add: is_row_def)
    with True False show ?thesis by (simp add: upsert_attempt_def)
  next
    case no: False
    with False show ?thesis by (simp add: upsert_attempt_def slot_append_other)
  qed
qed

lemma slot_record_failure:
  assumes "attempts_ok rows"
  shows "slot k e (record_failure rules now k' email rows) =
    (if (k, e) = (k', normalize_email email) then
       (case rule_of rules k of None \<Rightarrow> slot k e rows
        | Some r \<Rightarrow> (case live rules k now (slot k e rows) of None \<Rightarrow> Some (1, now) | Some (f, l) \<Rightarrow> Some (f + 1, now)))
     else slot k e rows)"
proof (cases "rule_of rules k'")
  case None
  then show ?thesis by (auto simp: record_failure_def)
next
  case (Some r)
  then have rk: "rules k' = Some r" by (auto dest: rule_of_SomeD)
  let ?e = "normalize_email email"
  let ?cur = "\<lambda>row. is_row k' ?e row \<and> now - rl_window r \<le> at_last row"
  let ?f = "\<lambda>row. row\<lparr>at_failures := at_failures row + 1, at_last := now\<rparr>"
  let ?new = "\<lparr>at_email = ?e, at_kind = k', at_failures = 1, at_last = now\<rparr>"
  have rf: "record_failure rules now k' email rows =
      (if 0 < count_where ?cur rows then update_where ?cur ?f rows else upsert_attempt ?new rows)"
    using Some by (simp add: record_failure_def Let_def)
  show ?thesis
  proof (cases "0 < count_where ?cur rows")
    case True
    then obtain x where x: "x \<in> set rows" "is_row k' ?e x" "now - rl_window r \<le> at_last x"
      unfolding count_where_pos_iff by auto
    then have fx: "find_where (is_row k' ?e) rows = Some x" by (intro find_row_unique assms)
    have same: "slot k' ?e (update_where ?cur ?f rows) = Some (at_failures x + 1, now)"
      using slot_update_same [OF fx, of ?cur ?f] x by (simp add: is_row_def)
    have other: "(k, e) \<noteq> (k', ?e) \<Longrightarrow> slot k e (update_where ?cur ?f rows) = slot k e rows"
      by (rule slot_update_other) (auto simp: is_row_def)
    have "live rules k' now (slot k' ?e rows) = Some (at_failures x, at_last x)"
      using fx x(3) rk by (simp add: slot_def live_def)
    with True Some same other show ?thesis by (auto simp: rf)
  next
    case False
    then have none: "\<forall>x \<in> set rows. \<not> ?cur x" unfolding count_where_pos_iff by blast
    have dead: "live rules k' now (slot k' ?e rows) = None"
    proof (cases "find_where (is_row k' ?e) rows")
      case (Some x)
      then have "x \<in> set rows" "is_row k' ?e x" by (auto dest: find_where_SomeD)
      with none have "at_last x < now - rl_window r" by auto
      with Some rk show ?thesis by (simp add: slot_def live_def)
    qed (simp add: slot_def live_def)
    have new: "is_row k e ?new \<longleftrightarrow> (k, e) = (k', ?e)" by (auto simp: is_row_def)
    show ?thesis using False Some dead by (simp add: rf slot_upsert new)
  qed
qed

lemma slot_record_success:
  "slot k e (record_success rules k' email rows) =
    (if (k, e) = (k', normalize_email email) \<and> rule_of rules k \<noteq> None then None else slot k e rows)"
proof (cases "rule_of rules k'")
  case (Some r)
  show ?thesis
  proof (cases "(k, e) = (k', normalize_email email)")
    case True
    with Some show ?thesis by (simp add: record_success_def slot_def find_where_deleted)
  next
    case False
    have "find_where (is_row k e) (delete_where (is_row k' (normalize_email email)) rows) = find_where (is_row k e) rows"
      by (rule find_where_delete) (use False in \<open>auto simp: is_row_def\<close>)
    then have "slot k e (record_success rules k' email rows) = slot k e rows"
      using Some by (simp add: record_success_def slot_def)
    with False show ?thesis by auto
  qed
qed (auto simp: record_success_def)

lemma slot_purge:
  assumes "attempts_ok rows"
  shows "slot k e (snd (purge_attempts rules now rows)) = live rules k now (slot k e rows)"
proof (cases "find_where (is_row k e) rows")
  case None
  then have "find_where (is_row k e) (delete_where (stale rules now) rows) = None"
    by (simp add: table_simps)
  with None show ?thesis by (simp add: purge_attempts_def slot_def live_def)
next
  case (Some x)
  then have x: "x \<in> set rows" "is_row k e x" by (auto dest: find_where_SomeD)
  have st: "stale rules now x \<longleftrightarrow> (\<exists>r. rules k = Some r \<and> at_last x < now - rl_window r)"
    using x(2) by (auto simp: stale_def is_row_def split: option.splits)
  show ?thesis
  proof (cases "stale rules now x")
    case True
    have "\<not> is_row k e y" if y: "y \<in> set (delete_where (stale rules now) rows)" for y
    proof
      assume "is_row k e y"
      with y have "y = x" using find_row_unique [OF assms, of y k e] Some by (simp add: table_simps)
      with y True show False by (simp add: table_simps)
    qed
    then have "find_where (is_row k e) (delete_where (stale rules now) rows) = None"
      by (simp add: find_where_None_iff)
    with True Some st show ?thesis by (auto simp: purge_attempts_def slot_def live_def)
  next
    case False
    with x have "find_where (is_row k e) (delete_where (stale rules now) rows) = Some x"
      by (intro find_row_unique attempts_ok_delete assms) (simp_all add: table_simps)
    with False Some st show ?thesis
      by (auto simp: purge_attempts_def slot_def live_def split: option.splits)
  qed
qed

lemma slot_take:
  "slot k e (snd (take_slot rules now k' email rows)) =
    (if (k, e) = (k', normalize_email email) then
       (case rule_of rules k of None \<Rightarrow> slot k e rows
        | Some r \<Rightarrow>
           (case live rules k now (slot k e rows) of
              None \<Rightarrow> Some (1, now)
            | Some (f, l) \<Rightarrow> if f < rl_threshold r then Some (f + 1, now) else Some (f, l)))
     else slot k e rows)"
proof (cases "rule_of rules k'")
  case None
  then show ?thesis by (auto simp: take_slot_def)
next
  case (Some r)
  then have rk: "rules k' = Some r" by (auto dest: rule_of_SomeD)
  let ?e = "normalize_email email"
  let ?f = "\<lambda>x. x\<lparr>at_failures := (if at_last x < now - rl_window r then 1 else at_failures x + 1), at_last := now\<rparr>"
  have other: "slot k e (update_where (is_row k' ?e) ?f rows) = slot k e rows" if "(k, e) \<noteq> (k', ?e)"
    by (rule slot_update_other [OF that]) (simp_all add: is_row_def)
  show ?thesis
  proof (cases "find_where (is_row k' ?e) rows")
    case none: None
    let ?new = "\<lparr>at_email = ?e, at_kind = k', at_failures = 1, at_last = now\<rparr>"
    have "is_row k' ?e ?new" by (simp add: is_row_def)
    then have "find_where (is_row k' ?e) (rows @ [?new]) = Some ?new"
      using none by (intro find_where_append)
    moreover have "slot k e (rows @ [?new]) = slot k e rows" if "(k, e) \<noteq> (k', ?e)"
      by (rule slot_append_other) (use that in \<open>auto simp: is_row_def\<close>)
    ultimately show ?thesis
      using Some none by (auto simp: take_slot_def Let_def slot_def live_def)
  next
    case (Some x)
    have same: "slot k' ?e (update_where (is_row k' ?e) ?f rows) = Some (at_failures (?f x), now)"
      using slot_update_same [OF Some, of "is_row k' ?e" ?f] find_where_SomeD [OF Some]
      by (simp add: is_row_def)
    have slot: "slot k' ?e rows = Some (at_failures x, at_last x)" using Some by (simp add: slot_def)
    show ?thesis
    proof (cases "(k, e) = (k', ?e)")
      case True
      with same slot Some \<open>rule_of rules k' = Some r\<close> rk show ?thesis
        by (auto simp: take_slot_def Let_def live_def)
    next
      case False
      with other Some \<open>rule_of rules k' = Some r\<close> show ?thesis by (auto simp: take_slot_def Let_def)
    qed
  qed
qed

lemma take_granted:
  "fst (take_slot rules now k email rows) \<longleftrightarrow>
     (case rule_of rules k of None \<Rightarrow> True
      | Some r \<Rightarrow>
         (case live rules k now (slot k (normalize_email email) rows) of
            None \<Rightarrow> True | Some (f, l) \<Rightarrow> f < rl_threshold r))"
  by (cases "rule_of rules k"; cases "find_where (is_row k (normalize_email email)) rows")
     (auto simp: take_slot_def Let_def live_def slot_def dest!: rule_of_SomeD)

lemma delay_slot:
  "delay rules now k email rows =
     (case rule_of rules k of None \<Rightarrow> 0
      | Some r \<Rightarrow>
         (case live rules k now (slot k (normalize_email email) rows) of
            None \<Rightarrow> 0
          | Some (f, l) \<Rightarrow>
             if f < rl_threshold r then 0
             else max (l + doubled (nat (f - rl_threshold r)) (rl_cap r) (rl_base r) - now) 0))"
  by (cases "rule_of rules k"; cases "find_where (is_row k (normalize_email email)) rows")
     (auto simp: delay_def delay_of_row_def live_def slot_def dest!: rule_of_SomeD)

section \<open>Histories of operations\<close>

datatype attempt_op =
    OpFail attempt_kind string
  | OpSuccess attempt_kind string
  | OpDelay attempt_kind string
  | OpTake attempt_kind string
  | OpPurge

datatype attempt_outcome = Quiet | Wait duration | Granted bool

fun attempt_step :: "attempt_rules \<Rightarrow> time \<Rightarrow> attempt_op \<Rightarrow> attempt list \<Rightarrow> attempt_outcome \<times> attempt list" where
  "attempt_step rules now (OpFail k e) rows = (Quiet, record_failure rules now k e rows)"
| "attempt_step rules now (OpSuccess k e) rows = (Quiet, record_success rules k e rows)"
| "attempt_step rules now (OpDelay k e) rows = (Wait (delay rules now k e rows), rows)"
| "attempt_step rules now (OpTake k e) rows =
     (Granted (fst (take_slot rules now k e rows)), snd (take_slot rules now k e rows))"
| "attempt_step rules now OpPurge rows = (Quiet, snd (purge_attempts rules now rows))"

fun outcomes :: "attempt_rules \<Rightarrow> (time \<times> attempt_op) list \<Rightarrow> attempt list \<Rightarrow> attempt_outcome list" where
  "outcomes rules [] rows = []"
| "outcomes rules ((now, op) # ops) rows =
     fst (attempt_step rules now op rows) # outcomes rules ops (snd (attempt_step rules now op rows))"

lemma attempts_ok_step: "attempts_ok rows \<Longrightarrow> attempts_ok (snd (attempt_step rules now op rows))"
  by (cases op) (simp_all add: attempts_ok_record_failure attempts_ok_record_success attempts_ok_take attempts_ok_purge)

lemma live_idem: "now \<le> now' \<Longrightarrow> live rules k now' (live rules k now s) = live rules k now' s"
  by (auto simp: live_def split: option.splits)

definition same_live :: "attempt_rules \<Rightarrow> time \<Rightarrow> attempt list \<Rightarrow> attempt list \<Rightarrow> bool" where
  "same_live rules now rows rows' \<longleftrightarrow>
     attempts_ok rows \<and> attempts_ok rows' \<and>
     (\<forall>k e. live rules k now (slot k e rows) = live rules k now (slot k e rows'))"

lemma same_live_later: "same_live rules now rows rows' \<Longrightarrow> now \<le> now' \<Longrightarrow> same_live rules now' rows rows'"
  unfolding same_live_def by (metis live_idem)

lemma same_live_step:
  assumes s: "same_live rules now rows rows'"
  shows "fst (attempt_step rules now op rows) = fst (attempt_step rules now op rows')"
    and "same_live rules now (snd (attempt_step rules now op rows)) (snd (attempt_step rules now op rows'))"
proof -
  have ok: "attempts_ok rows" "attempts_ok rows'"
    and eq: "live rules k now (slot k e rows) = live rules k now (slot k e rows')" for k e
    using s by (simp_all add: same_live_def)
  show "fst (attempt_step rules now op rows) = fst (attempt_step rules now op rows')"
    by (cases op) (simp_all add: delay_slot take_granted eq cong: option.case_cong)
  have "live rules k now (slot k e (snd (attempt_step rules now op rows))) =
      live rules k now (slot k e (snd (attempt_step rules now op rows')))" for k e
  proof (cases op)
    case (OpFail k' e')
    then show ?thesis by (simp add: slot_record_failure ok eq split: option.split)
  next
    case (OpSuccess k' e')
    then show ?thesis by (auto simp: slot_record_success eq)
  next
    case (OpTake k' e')
    then show ?thesis by (simp add: slot_take eq split: option.split)
  next
    case OpPurge
    then show ?thesis by (simp add: slot_purge ok eq)
  qed (simp add: eq)
  then show "same_live rules now (snd (attempt_step rules now op rows)) (snd (attempt_step rules now op rows'))"
    using ok by (simp add: same_live_def attempts_ok_step)
qed

lemma same_live_outcomes:
  assumes "same_live rules now rows rows'" and "sorted (now # map fst ops)"
  shows "outcomes rules ops rows = outcomes rules ops rows'"
  using assms
proof (induction ops arbitrary: now rows rows')
  case (Cons a ops)
  obtain t op where a: "a = (t, op)" by (cases a)
  have s: "same_live rules t rows rows'" using Cons.prems a by (auto intro: same_live_later)
  have "outcomes rules ops (snd (attempt_step rules t op rows)) = outcomes rules ops (snd (attempt_step rules t op rows'))"
    using Cons.IH [OF same_live_step(2) [OF s]] Cons.prems a by simp
  with same_live_step(1) [OF s] a show ?case by simp
qed simp

text \<open>\<open>Purge\<close> is unobservable: whatever sequence of failures, successes, delay queries,
  budget requests and further purges follows it (on a clock that does not run backwards), every
  delay reported and every slot granted or refused is the one a table that was never purged gives.\<close>

theorem purge_unobservable:
  assumes "attempts_ok rows" and "sorted (now # map fst ops)"
  shows "outcomes rules ops (snd (purge_attempts rules now rows)) = outcomes rules ops rows"
proof (rule same_live_outcomes [OF _ assms(2)])
  show "same_live rules now (snd (purge_attempts rules now rows)) rows"
    using assms(1) by (simp add: same_live_def attempts_ok_purge slot_purge live_idem)
qed

section \<open>The password-reset budget\<close>

text \<open>The slots an address is granted within \<open>[t0, t0 + w]\<close>.\<close>

fun grants_within :: "attempt_kind \<Rightarrow> string \<Rightarrow> time \<Rightarrow> duration \<Rightarrow> (time \<times> attempt_op) list \<Rightarrow> attempt_outcome list \<Rightarrow> nat" where
  "grants_within k e t0 w ((t, OpTake k' e') # ops) (o1 # os) =
     (if k' = k \<and> normalize_email e' = e \<and> o1 = Granted True \<and> t0 \<le> t \<and> t \<le> t0 + w then 1 else 0)
       + grants_within k e t0 w ops os"
| "grants_within k e t0 w (op # ops) (o1 # os) = grants_within k e t0 w ops os"
| "grants_within k e t0 w _ _ = 0"

definition counts_only :: "attempt_kind \<Rightarrow> string \<Rightarrow> attempt_op \<Rightarrow> bool" where
  "counts_only k e op \<longleftrightarrow>
     (case op of OpFail k' e' \<Rightarrow> (k', normalize_email e') \<noteq> (k, e)
      | OpSuccess k' e' \<Rightarrow> (k', normalize_email e') \<noteq> (k, e) | _ \<Rightarrow> True)"

lemma grants_after_window:
  "\<forall>op \<in> set ops. t0 + w < fst op \<Longrightarrow> grants_within k e t0 w ops os = 0"
  by (induction k e t0 w ops os rule: grants_within.induct) auto

definition used_since :: "time \<Rightarrow> (int \<times> time) option \<Rightarrow> int" where
  "used_since t0 s = (case s of None \<Rightarrow> 0 | Some (f, l) \<Rightarrow> if t0 \<le> l then f else 0)"

lemma slot_positive: "attempts_ok rows \<Longrightarrow> slot k e rows = Some (f, l) \<Longrightarrow> 1 \<le> f"
  by (auto simp: slot_def attempts_ok_def dest!: find_where_SomeD)

lemma grants_within_bound:
  assumes r: "rule_of rules k = Some r" and "attempts_ok rows"
    and "sorted (map fst ops)" and "\<forall>op \<in> set ops. counts_only k e (snd op)"
    and "\<forall>f l. slot k e rows = Some (f, l) \<longrightarrow> f \<le> rl_threshold r \<and> (\<forall>op \<in> set ops. l \<le> fst op)"
  shows "int (grants_within k e t0 (rl_window r) ops (outcomes rules ops rows)) + used_since t0 (slot k e rows)
    \<le> rl_threshold r"
  using assms(2-)
proof (induction ops arbitrary: rows)
  case Nil
  then show ?case using r by (cases "slot k e rows") (auto simp: used_since_def dest: rule_of_SomeD)
next
  case (Cons a ops)
  obtain t op where a: "a = (t, op)" by (cases a)
  have thr: "rules k = Some r" "0 < rl_threshold r" using r by (auto dest: rule_of_SomeD)
  let ?s = "slot k e rows" and ?rows' = "snd (attempt_step rules t op rows)"
  let ?s' = "slot k e ?rows'"
  have ok': "attempts_ok ?rows'" using Cons.prems(1) by (rule attempts_ok_step)
  have later: "\<forall>op \<in> set ops. t \<le> fst op" using Cons.prems(2) a by auto
  have bound: "f \<le> rl_threshold r \<and> l \<le> t" if "?s = Some (f, l)" for f l
    using Cons.prems(4) that a by auto
  show ?case
  proof (cases "t0 + rl_window r < t")
    case True
    then have "\<forall>op \<in> set (a # ops). t0 + rl_window r < fst op" using later a by auto
    then have "grants_within k e t0 (rl_window r) (a # ops) (outcomes rules (a # ops) rows) = 0"
      by (rule grants_after_window)
    then show ?thesis using bound thr by (cases ?s) (auto simp: used_since_def)
  next
    case early: False
    let ?g = "(if fst (attempt_step rules t op rows) = Granted True \<and> (\<exists>e'. op = OpTake k e' \<and> normalize_email e' = e)
        then 1 else 0 :: nat)"
    have slot': "?s' = (if \<exists>e'. op = OpTake k e' \<and> normalize_email e' = e then
        (case live rules k t ?s of None \<Rightarrow> Some (1, t)
         | Some (f, l) \<Rightarrow> if f < rl_threshold r then Some (f + 1, t) else Some (f, l))
      else if op = OpPurge then live rules k t ?s else ?s)"
    proof (cases op)
      case (OpFail k' e')
      then have "(k', normalize_email e') \<noteq> (k, e)" using Cons.prems(3) a by (simp add: counts_only_def)
      with OpFail show ?thesis by (auto simp: slot_record_failure Cons.prems(1))
    next
      case (OpSuccess k' e')
      then have "(k', normalize_email e') \<noteq> (k, e)" using Cons.prems(3) a by (simp add: counts_only_def)
      with OpSuccess show ?thesis by (auto simp: slot_record_success)
    next
      case (OpTake k' e')
      then show ?thesis using r by (auto simp: slot_take)
    qed (auto simp: slot_purge Cons.prems(1))
    have granted: "fst (attempt_step rules t op rows) = Granted True \<longleftrightarrow>
        (case live rules k t ?s of None \<Rightarrow> True | Some (f, l) \<Rightarrow> f < rl_threshold r)"
      if "op = OpTake k e'" and "normalize_email e' = e" for e'
      using that r by (simp add: take_granted)
    have live: "live rules k t ?s = (case ?s of None \<Rightarrow> None | Some (f, l) \<Rightarrow> if l < t - rl_window r then None else ?s)"
      using thr by (simp add: live_def split: option.split)
    have inv: "\<forall>f l. ?s' = Some (f, l) \<longrightarrow> f \<le> rl_threshold r \<and> (\<forall>op \<in> set ops. l \<le> fst op)"
      using bound later thr by (auto simp: slot' live split: option.splits if_splits dest: order_trans)
    have ih: "int (grants_within k e t0 (rl_window r) ops (outcomes rules ops ?rows')) + used_since t0 ?s' \<le> rl_threshold r"
      using Cons.IH [OF ok' _ _ inv] Cons.prems(2,3) a by simp
    have step: "used_since t0 ?s + (if t0 \<le> t then int ?g else 0) \<le> used_since t0 ?s'"
      using early bound granted slot_positive [OF Cons.prems(1), of k e]
      by (auto simp: slot' live used_since_def split: option.splits if_splits)
    have "grants_within k e t0 (rl_window r) (a # ops) (outcomes rules (a # ops) rows) =
        (if t0 \<le> t then ?g else 0) + grants_within k e t0 (rl_window r) ops (outcomes rules ops ?rows')"
      using a early by (cases op) auto
    with ih step show ?thesis by (auto split: if_splits)
  qed
qed

text \<open>The password-reset budget (\<open>Take\<close>): whatever requests arrive for whatever addresses,
  with purges anywhere between them, no stretch of time as long as the rule's window ever holds more
  than Threshold granted slots of one address.\<close>

theorem reset_budget:
  assumes "rule_of rules k = Some r" and "attempts_ok rows" and "slot k e rows = None"
    and "sorted (map fst ops)" and "\<forall>op \<in> set ops. counts_only k e (snd op)"
  shows "int (grants_within k e t0 (rl_window r) ops (outcomes rules ops rows)) \<le> rl_threshold r"
  using grants_within_bound [OF assms(1,2,4,5), where ?t0.0 = t0] assms(3) by (simp add: used_since_def)

lemma reset_budget_witness:
  "int (grants_within KindPasswordReset ''a@b.c'' 0 hour
     [(0, OpTake KindPasswordReset '' A@b.c''), (1, OpPurge), (2, OpTake KindPasswordReset ''a@b.c'')]
     (outcomes (configured_rules 5 1)
       [(0, OpTake KindPasswordReset '' A@b.c''), (1, OpPurge), (2, OpTake KindPasswordReset ''a@b.c'')] [])) \<le> 1"
proof -
  have "rule_of (configured_rules 5 1) KindPasswordReset = Some (reset_rule 1)"
    by (simp add: rule_of_def configured_rules_def reset_rule_def)
  from reset_budget [OF this, where rows = "[]" and e = "''a@b.c''" and ?t0.0 = 0
      and ops = "[(0, OpTake KindPasswordReset '' A@b.c''), (1, OpPurge), (2, OpTake KindPasswordReset ''a@b.c'')]"]
  show ?thesis by (simp add: attempts_ok_def slot_def find_where_def counts_only_def reset_rule_def)
qed

lemma purge_unobservable_witness:
  "outcomes (configured_rules 1 1) [(2 * hour, OpDelay KindLogin ''a''), (2 * hour, OpTake KindPasswordReset ''a'')]
     (snd (purge_attempts (configured_rules 1 1) (2 * hour)
       [\<lparr>at_email = ''a'', at_kind = KindPasswordReset, at_failures = 1, at_last = 0\<rparr>])) =
   outcomes (configured_rules 1 1) [(2 * hour, OpDelay KindLogin ''a''), (2 * hour, OpTake KindPasswordReset ''a'')]
     [\<lparr>at_email = ''a'', at_kind = KindPasswordReset, at_failures = 1, at_last = 0\<rparr>]"
  by (rule purge_unobservable) (simp_all add: attempts_ok_def)

section \<open>The Login throttle\<close>

lemma doubled_closed_form:
  assumes "0 < wait" and "wait \<le> cap" and "cap < 2 ^ 62"
  shows "doubled n cap wait = min cap (wait * 2 ^ n)"
  using assms(1,2)
proof (induction n arbitrary: wait)
  case 0
  then show ?case by simp
next
  case (Suc n)
  have w: "wrap64 (wait * 2) = wait * 2"
    using Suc.prems assms(3) by (intro wrap64_id) simp_all
  show ?case
  proof (cases "cap \<le> wait * 2")
    case True
    have "wait * 2 * 1 \<le> wait * 2 * 2 ^ n" using Suc.prems by (intro mult_left_mono) simp_all
    with True have "cap \<le> wait * 2 ^ Suc n" by (simp add: mult.assoc)
    then show ?thesis using True w by (simp add: Let_def)
  next
    case False
    then show ?thesis using Suc.IH [of "wait * 2"] Suc.prems w by (simp add: Let_def mult.assoc)
  qed
qed

text \<open>The failures of one address, each within the window of the one before.\<close>

fun close_together :: "duration \<Rightarrow> time list \<Rightarrow> bool" where
  "close_together w (t # u # ts) \<longleftrightarrow> t \<le> u \<and> u \<le> t + w \<and> close_together w (u # ts)"
| "close_together w _ \<longleftrightarrow> True"

definition fail_at :: "attempt_rules \<Rightarrow> attempt_kind \<Rightarrow> string \<Rightarrow> time list \<Rightarrow> attempt list \<Rightarrow> attempt list" where
  "fail_at rules k email ts rows = fold (\<lambda>t. record_failure rules t k email) ts rows"

lemma fail_at_slot:
  assumes r: "rule_of rules k = Some r" and "attempts_ok rows" and "slot k (normalize_email email) rows = Some (f, l)"
    and "close_together (rl_window r) (l # ts)"
  shows "attempts_ok (fail_at rules k email ts rows) \<and>
    slot k (normalize_email email) (fail_at rules k email ts rows) = Some (f + int (length ts), last (l # ts))"
  using assms(2-)
proof (induction ts arbitrary: rows f l)
  case Nil
  then show ?case by (simp add: fail_at_def)
next
  case (Cons t ts)
  have rk: "rules k = Some r" using r by (auto dest: rule_of_SomeD)
  have "live rules k t (slot k (normalize_email email) rows) = Some (f, l)"
    using Cons.prems rk by (simp add: live_def)
  then have "slot k (normalize_email email) (record_failure rules t k email rows) = Some (f + 1, t)"
    using Cons.prems(1) r by (simp add: slot_record_failure)
  from Cons.IH [OF attempts_ok_record_failure [OF Cons.prems(1)] this] Cons.prems(3)
  show ?case by (simp add: fail_at_def)
qed

text \<open>The Login throttle is the exponential back-off it is documented as: after n failures
  of an address, none further than the window from the one before, an attempt proceeds at once while n
  is below the threshold, and must otherwise wait out 1 second doubled (n - threshold) times, at most 15
  minutes, measured from the last failure. The wait is never a lockout: it is at most 15 minutes.\<close>

theorem login_backoff:
  assumes "0 < limit" and "attempts_ok rows" and "slot KindLogin (normalize_email email) rows = None"
    and "ts \<noteq> []" and "close_together (15 * minute) ts"
    and "last ts \<le> now" and "now \<le> last ts + 15 * minute"
  shows "delay (configured_rules limit reset) now KindLogin email
      (fail_at (configured_rules limit reset) KindLogin email ts rows) =
    (if int (length ts) < limit then 0
     else max (last ts + min (15 * minute) (second * 2 ^ nat (int (length ts) - limit)) - now) 0)"
proof -
  let ?rules = "configured_rules limit reset" and ?e = "normalize_email email"
  obtain t us where ts: "ts = t # us" using assms(4) by (cases ts) auto
  have r: "rule_of ?rules KindLogin = Some (login_rule limit)"
    using assms(1) by (simp add: rule_of_def configured_rules_def login_rule_def)
  let ?rows1 = "record_failure ?rules t KindLogin email rows"
  have s1: "slot KindLogin ?e ?rows1 = Some (1, t)"
    using r assms(2,3) by (simp add: slot_record_failure live_def)
  have s: "slot KindLogin ?e (fail_at ?rules KindLogin email ts rows) = Some (int (length ts), last ts)"
    using fail_at_slot [OF r attempts_ok_record_failure [OF assms(2)] s1, of us] assms(5)
    by (simp add: ts fail_at_def login_rule_def)
  have "live ?rules KindLogin now (Some (int (length ts), last ts)) = Some (int (length ts), last ts)"
    using assms(7) by (simp add: live_def configured_rules_def login_rule_def)
  then show ?thesis
    using r s by (simp add: delay_slot login_rule_def doubled_closed_form)
qed

lemma login_backoff_witness:
  "delay (configured_rules 2 5) (3 * second) KindLogin ''A@b.c''
     (fail_at (configured_rules 2 5) KindLogin ''A@b.c'' [0, second, 2 * second] []) = second"
proof -
  have "delay (configured_rules 2 5) (3 * second) KindLogin ''A@b.c''
     (fail_at (configured_rules 2 5) KindLogin ''A@b.c'' [0, second, 2 * second] []) =
     (if int (length [0 :: time, second, 2 * second]) < 2 then 0
      else max (last [0 :: time, second, 2 * second] +
        min (15 * minute) (second * 2 ^ nat (int (length [0 :: time, second, 2 * second]) - 2)) - 3 * second) 0)"
    by (rule login_backoff) (simp_all add: attempts_ok_def slot_def find_where_def)
  then show ?thesis by simp
qed

end
