(* ===== verification/Members.thy ===== *)
theory Members
  imports AccountSchema
begin

text \<open>
  \<open>internal/accounts\<close> (accounts, invitations, roles, slug) with the Two-factor requirement of
  \<open>internal/secondfactor/requirement.go\<close>, and the site handlers that call them
  (\<open>internal/api/site\<close>: memberships, invitations, workspaces, registration). A transaction that fails
  leaves the state it began with: its result is \<open>Inl\<close>. A statement that follows a unique violation
  inside one transaction fails too, since Postgres has aborted the transaction.

  Parameters: \<open>slug_make\<close> is the slug library, \<open>hash_password\<close> and \<open>hash_token\<close> are argon2id and
  SHA-256, \<open>show_time\<close> renders a time in JSON, and random keys and tokens are arguments. Mail jobs the handlers enqueue are left out.
\<close>

section \<open>Roles\<close>

datatype account_error =
    OwnerOnly | LastOwner | AccountNotFound | EmailEmpty | AlreadyMember | UniqueViolation
  | TxAborted | InvalidField

definition can_manage_members :: "role \<Rightarrow> bool" where
  "can_manage_members r \<longleftrightarrow> r = RoleOwner \<or> r = RoleAdmin"

definition can_manage_tokens :: "role \<Rightarrow> bool" where
  "can_manage_tokens r \<longleftrightarrow> r = RoleOwner \<or> r = RoleAdmin"

definition can_erase :: "role \<Rightarrow> bool" where
  "can_erase r \<longleftrightarrow> r = RoleOwner \<or> r = RoleAdmin"

definition can_manage_second_factor :: "role \<Rightarrow> bool" where
  "can_manage_second_factor r \<longleftrightarrow> r = RoleOwner \<or> r = RoleAdmin"

definition role_name :: "role \<Rightarrow> string" where
  "role_name r = (case r of RoleOwner \<Rightarrow> ''owner'' | RoleAdmin \<Rightarrow> ''admin'' | RoleMember \<Rightarrow> ''member'')"

definition membership_role :: "invitable_role \<Rightarrow> role" where
  "membership_role r = (case r of InviteAdmin \<Rightarrow> RoleAdmin | InviteMember \<Rightarrow> RoleMember)"

definition owner_rows :: "id \<Rightarrow> accounts_db \<Rightarrow> membership list" where
  "owner_rows ws d = filter (\<lambda>m. mb_workspace m = ws \<and> mb_role m = RoleOwner) (memberships d)"

text \<open>\<open>desired\<close> is \<open>None\<close> where the code passes the empty Role, for a removal.\<close>

definition check_owner_change :: "role \<Rightarrow> membership \<Rightarrow> nat \<Rightarrow> role option \<Rightarrow> account_error option" where
  "check_owner_change caller target owners desired =
     (if caller \<noteq> RoleOwner \<and> (desired = Some RoleOwner \<or> mb_role target = RoleOwner) then Some OwnerOnly
      else if mb_role target = RoleOwner \<and> desired \<noteq> Some RoleOwner \<and> owners \<le> 1 then Some LastOwner
      else None)"

definition locked_target :: "id \<Rightarrow> id \<Rightarrow> accounts_db \<Rightarrow> (membership \<times> nat) option" where
  "locked_target ws target d =
     (case find_where (\<lambda>m. mb_workspace m = ws \<and> mb_id m = target) (memberships d) of
        None \<Rightarrow> None
      | Some m \<Rightarrow> Some (m, length (owner_rows ws d)))"

definition from_to :: "string \<Rightarrow> json \<Rightarrow> json \<Rightarrow> json" where
  "from_to field a b = JObj [(field, JObj [(''from'', a), (''to'', b)])]"

definition user_name_of :: "id \<Rightarrow> accounts_db \<Rightarrow> string" where
  "user_name_of uid d = (case get_user uid d of None \<Rightarrow> '''' | Some u \<Rightarrow> u_name u)"

definition change_membership_role ::
    "id \<Rightarrow> actor \<Rightarrow> role \<Rightarrow> id \<Rightarrow> role \<Rightarrow> accounts_db \<Rightarrow> account_error + (membership \<times> accounts_db)" where
  "change_membership_role ws actor caller target desired d =
     (case locked_target ws target d of
        None \<Rightarrow> Inl AccountNotFound
      | Some (m, owners) \<Rightarrow>
         (case check_owner_change caller m owners (Some desired) of
            Some e \<Rightarrow> Inl e
          | None \<Rightarrow>
             Inr (m\<lparr>mb_role := desired\<rparr>,
               log_audit \<lparr>ae_workspace = ws, ae_actor = actor, ae_action = ''membership.update'',
                   ae_target_type = ''membership'', ae_target_id = show_int (mb_id m),
                   ae_target_name = user_name_of (mb_user m) d,
                   ae_diff = from_to ''role'' (JStr (role_name (mb_role m))) (JStr (role_name desired))\<rparr>
                 (d\<lparr>memberships := update_where (\<lambda>x. mb_workspace x = ws \<and> mb_id x = mb_id m)
                     (\<lambda>x. x\<lparr>mb_role := desired\<rparr>) (memberships d)\<rparr>))))"

definition remove_membership :: "id \<Rightarrow> role \<Rightarrow> id \<Rightarrow> accounts_db \<Rightarrow> account_error + accounts_db" where
  "remove_membership ws caller target d =
     (case locked_target ws target d of
        None \<Rightarrow> Inl AccountNotFound
      | Some (m, owners) \<Rightarrow>
         (case check_owner_change caller m owners None of
            Some e \<Rightarrow> Inl e
          | None \<Rightarrow> Inr (d\<lparr>memberships :=
              delete_where (\<lambda>x. mb_workspace x = ws \<and> mb_id x = mb_id m) (memberships d)\<rparr>)))"

section \<open>Scopes and Memberships\<close>

definition get_tenant :: "id \<Rightarrow> accounts_db \<Rightarrow> tenant option" where
  "get_tenant ws d = find_where (\<lambda>w. ws_id w = ws) (tenants d)"

definition tenant_by_slug :: "string \<Rightarrow> accounts_db \<Rightarrow> tenant option" where
  "tenant_by_slug s d = find_where (\<lambda>w. tn_slug w = s) (tenants d)"

definition scope :: "id \<Rightarrow> string \<Rightarrow> accounts_db \<Rightarrow> (tenant \<times> membership) option" where
  "scope uid s d =
     (case tenant_by_slug s d of
        None \<Rightarrow> None
      | Some w \<Rightarrow>
         (case find_where (\<lambda>m. mb_user m = uid \<and> mb_workspace m = ws_id w) (memberships d) of
            None \<Rightarrow> None | Some m \<Rightarrow> Some (w, m)))"

definition bootstrap_workspace :: "accounts_db \<Rightarrow> id option" where
  "bootstrap_workspace d = (if tenants d = [] then None else Some (Min (set (map ws_id (tenants d)))))"

definition memberships_of :: "id \<Rightarrow> accounts_db \<Rightarrow> membership list" where
  "memberships_of uid d = sort_key mb_workspace (filter (\<lambda>m. mb_user m = uid) (memberships d))"

section \<open>The Two-factor requirement\<close>

definition grace_period :: duration where "grace_period = 7 * 24 * hour"

definition active_factor :: "user \<Rightarrow> bool" where
  "active_factor u \<longleftrightarrow> u_sf_confirmed_at u \<noteq> None \<and> u_sf_secret u \<noteq> ''''"

definition grace_ends :: "time option \<Rightarrow> time \<Rightarrow> time option" where
  "grace_ends required_at member_since =
     (case required_at of
        None \<Rightarrow> None
      | Some start \<Rightarrow> Some ((if start < member_since then member_since else start) + grace_period))"

definition deadline :: "user \<Rightarrow> tenant \<Rightarrow> membership \<Rightarrow> time option" where
  "deadline u w m =
     (if active_factor u then None else grace_ends (ws_second_factor_required_at w) (mb_created_at m))"

definition withheld :: "user \<Rightarrow> tenant \<Rightarrow> membership \<Rightarrow> time \<Rightarrow> bool" where
  "withheld u w m now = (case deadline u w m of None \<Rightarrow> False | Some e \<Rightarrow> \<not> now < e)"

section \<open>Users and Workspaces\<close>

definition record_action_on_user_in ::
    "actor \<Rightarrow> user \<Rightarrow> string \<Rightarrow> json \<Rightarrow> id list \<Rightarrow> accounts_db \<Rightarrow> accounts_db" where
  "record_action_on_user_in actor u action diff wss d =
     fold (\<lambda>ws. log_audit \<lparr>ae_workspace = ws, ae_actor = actor, ae_action = action, ae_target_type = ''user'',
       ae_target_id = show_int (u_id u), ae_target_name = u_name u, ae_diff = diff\<rparr>) wss d"

definition record_action_on_user :: "actor \<Rightarrow> user \<Rightarrow> string \<Rightarrow> json \<Rightarrow> accounts_db \<Rightarrow> accounts_db" where
  "record_action_on_user actor u action diff d =
     record_action_on_user_in actor u action diff
       (map mb_workspace (filter (\<lambda>m. mb_user m = u_id u) (memberships d))) d"

definition record_user_action :: "user \<Rightarrow> string \<Rightarrow> json \<Rightarrow> accounts_db \<Rightarrow> accounts_db" where
  "record_user_action u action diff d = record_action_on_user (user_actor u) u action diff d"

definition create_user :: "string \<Rightarrow> string \<Rightarrow> string \<Rightarrow> time option \<Rightarrow> accounts_db \<Rightarrow> account_error + (user \<times> accounts_db)" where
  "create_user name email hash verified d =
     (if name = '''' \<or> email = '''' then Inl InvalidField
      else if exists_where (\<lambda>u. u_email u = email) (users d) then Inl UniqueViolation
      else let u = \<lparr>u_id = fresh_id d, u_name = name, u_email = email, u_password_hash = hash,
             u_email_verified_at = verified, u_session_epoch = 0, u_sf_secret = '''', u_sf_confirmed_at = None,
             u_sf_last_step = 0\<rparr>
           in Inr (u, d\<lparr>users := users d @ [u], fresh_id := fresh_id d + 1\<rparr>))"

definition set_profile :: "string option \<Rightarrow> string option \<Rightarrow> user \<Rightarrow> user" where
  "set_profile name hash u =
     (let u = (case name of None \<Rightarrow> u | Some n \<Rightarrow> u\<lparr>u_name := n\<rparr>)
      in case hash of None \<Rightarrow> u
         | Some h \<Rightarrow> u\<lparr>u_password_hash := h, u_session_epoch := u_session_epoch u + 1\<rparr>)"

definition update_profile :: "id \<Rightarrow> string option \<Rightarrow> string option \<Rightarrow> accounts_db \<Rightarrow> account_error + (user \<times> accounts_db)" where
  "update_profile uid name hash d =
     (if name = Some '''' then Inl InvalidField
      else case get_user uid d of
        None \<Rightarrow> Inl AccountNotFound
      | Some u0 \<Rightarrow>
           let u = set_profile name hash u0; d' = update_user uid (set_profile name hash) d
           in Inr (u, if hash = None then d'
                else record_user_action u ''user.password_change'' (JObj [(''password'', JStr ''changed'')]) d'))"

definition set_password :: "id \<Rightarrow> string \<Rightarrow> accounts_db \<Rightarrow> account_error + accounts_db" where
  "set_password uid hash d =
     (case update_profile uid None (Some hash) d of Inl e \<Rightarrow> Inl e | Inr (_, d') \<Rightarrow> Inr d')"

definition end_sessions :: "id \<Rightarrow> accounts_db \<Rightarrow> account_error + accounts_db" where
  "end_sessions uid d =
     (case get_user uid d of
        None \<Rightarrow> Inl AccountNotFound
      | Some u0 \<Rightarrow>
         let f = (\<lambda>u. u\<lparr>u_session_epoch := u_session_epoch u + 1\<rparr>)
         in Inr (record_user_action (f u0) ''user.sign_out_everywhere'' JNull (update_user uid f d)))"

definition record_login :: "user \<Rightarrow> accounts_db \<Rightarrow> accounts_db" where
  "record_login u d = record_user_action u ''user.login'' JNull d"

definition mark_email_verified :: "time \<Rightarrow> id \<Rightarrow> accounts_db \<Rightarrow> account_error + accounts_db" where
  "mark_email_verified now uid d =
     (case get_user uid d of
        None \<Rightarrow> Inl AccountNotFound
      | Some _ \<Rightarrow> Inr (update_user uid (\<lambda>u. u\<lparr>u_email_verified_at := Some now\<rparr>) d))"

definition change_email :: "time \<Rightarrow> id \<Rightarrow> string \<Rightarrow> accounts_db \<Rightarrow> account_error + accounts_db" where
  "change_email now uid email d =
     (if email = '''' then Inl InvalidField
      else case get_user uid d of
        None \<Rightarrow> Inl AccountNotFound
      | Some _ \<Rightarrow>
         if exists_where (\<lambda>u. u_email u = email \<and> u_id u \<noteq> uid) (users d) then Inl UniqueViolation
         else Inr (update_user uid (\<lambda>u. u\<lparr>u_email := email, u_email_verified_at := Some now,
                u_session_epoch := u_session_epoch u + 1\<rparr>) d))"

text \<open>The slug loop of \<open>CreateWorkspace\<close>: the base, then \<open>base-2\<close>, \<open>base-3\<close>, and so on.\<close>

definition slug_candidate :: "string \<Rightarrow> nat \<Rightarrow> string" where
  "slug_candidate base i = (if i = 0 then base else base @ ''-'' @ show_nat (i + 1))"

lemma slug_candidate_inj: "slug_candidate base i = slug_candidate base j \<Longrightarrow> i = j"
proof -
  assume eq: "slug_candidate base i = slug_candidate base j"
  have inj: "show_nat m = show_nat n \<Longrightarrow> m = n" for m n
    by (metis parse_digits_show_nat option.inject)
  from eq show "i = j" by (auto simp: slug_candidate_def split: if_splits dest: inj)
qed

function free_slug :: "string list \<Rightarrow> string \<Rightarrow> nat \<Rightarrow> string" where
  "free_slug taken base i =
     (if slug_candidate base i \<in> set taken then free_slug taken base (i + 1) else slug_candidate base i)"
  by auto

termination
proof (relation "measure (\<lambda>(taken, base, i). card {s \<in> set taken. \<exists>j \<ge> i. s = slug_candidate base j})")
  fix taken :: "string list" and base :: string and i :: nat
  assume t: "slug_candidate base i \<in> set taken"
  let ?S = "\<lambda>i. {s \<in> set taken. \<exists>j \<ge> i. s = slug_candidate base j}"
  have "slug_candidate base i \<notin> ?S (i + 1)" using slug_candidate_inj [of base i] by force
  moreover have "slug_candidate base i \<in> ?S i" using t by auto
  moreover have "?S (i + 1) \<subseteq> ?S i" by (auto intro: Suc_leD)
  ultimately have "?S (i + 1) \<subset> ?S i" by blast
  then have "card (?S (i + 1)) < card (?S i)" by (intro psubset_card_mono) simp_all
  then show "((taken, base, i + 1), taken, base, i)
      \<in> measure (\<lambda>(taken, base, i). card {s \<in> set taken. \<exists>j \<ge> i. s = slug_candidate base j})" by simp
qed simp

declare free_slug.simps [simp del]

definition create_workspace ::
    "(string \<Rightarrow> string) \<Rightarrow> time \<Rightarrow> id \<Rightarrow> string \<Rightarrow> string \<Rightarrow> string \<Rightarrow> accounts_db \<Rightarrow> account_error + (tenant \<times> accounts_db)" where
  "create_workspace slug_make now uid name collect_key ingest_key d =
     (let made = slug_make name;
          base = (if made = '''' then ''workspace'' else made);
          s = free_slug (map tn_slug (tenants d)) base 0;
          w = \<lparr>ws_id = fresh_id d, ws_name = name, ws_require_confirmed = False, ws_postal_address = '''',
               ws_second_factor_required_at = None, ws_suspended_at = None, ws_suspended_by = None,
               ws_suspension_reason = None, tn_slug = s, tn_collect_key = collect_key,
               tn_ingest_key = ingest_key, tn_retention_days = None\<rparr>
      in if name = '''' then Inl InvalidField
         else Inr (w, d\<lparr>tenants := tenants d @ [w],
           memberships := memberships d @ [\<lparr>mb_id = fresh_id d + 1, mb_workspace = fresh_id d, mb_user = uid,
             mb_role = RoleOwner, mb_created_at = now\<rparr>],
           fresh_id := fresh_id d + 2\<rparr>))"

definition update_tenant :: "id \<Rightarrow> (tenant \<Rightarrow> tenant) \<Rightarrow> accounts_db \<Rightarrow> accounts_db" where
  "update_tenant ws f d = d\<lparr>tenants := update_where (\<lambda>w. ws_id w = ws) f (tenants d)\<rparr>"

definition workspace_audit :: "actor \<Rightarrow> tenant \<Rightarrow> json \<Rightarrow> audit_entry" where
  "workspace_audit actor w diff = \<lparr>ae_workspace = ws_id w, ae_actor = actor, ae_action = ''workspace.update'',
     ae_target_type = ''workspace'', ae_target_id = show_int (ws_id w), ae_target_name = ws_name w, ae_diff = diff\<rparr>"

definition update_workspace ::
    "id \<Rightarrow> actor \<Rightarrow> string \<Rightarrow> string option \<Rightarrow> accounts_db \<Rightarrow> account_error + (tenant \<times> accounts_db)" where
  "update_workspace ws actor name postal d =
     (case get_tenant ws d of
        None \<Rightarrow> Inl AccountNotFound
      | Some before \<Rightarrow>
         if name = '''' then Inl InvalidField
         else
           let f = (\<lambda>w. let w = w\<lparr>ws_name := name\<rparr>
                        in case postal of None \<Rightarrow> w | Some p \<Rightarrow> w\<lparr>ws_postal_address := p\<rparr>);
               diff = (if ws_name before \<noteq> name
                       then [(''name'', JObj [(''from'', JStr (ws_name before)), (''to'', JStr name)])] else [])
                 @ (if ws_postal_address before \<noteq> ws_postal_address (f before)
                    then [(''postal_address'', JObj [(''from'', JStr (ws_postal_address before)),
                        (''to'', JStr (ws_postal_address (f before)))])] else []);
               d' = update_tenant ws f d
           in Inr (f before, if diff = [] then d' else log_audit (workspace_audit actor (f before) (JObj diff)) d'))"

definition opt_number :: "int option \<Rightarrow> json" where
  "opt_number x = (case x of None \<Rightarrow> JNull | Some n \<Rightarrow> JNum (of_int n))"

definition set_audit_retention :: "id \<Rightarrow> actor \<Rightarrow> int option \<Rightarrow> accounts_db \<Rightarrow> account_error + accounts_db" where
  "set_audit_retention ws actor days d =
     (case get_tenant ws d of
        None \<Rightarrow> Inl AccountNotFound
      | Some before \<Rightarrow>
         if \<exists>n. days = Some n \<and> n \<le> 0 then Inl InvalidField
         else
           let d' = update_tenant ws (\<lambda>w. w\<lparr>tn_retention_days := days\<rparr>) d
           in Inr (if tn_retention_days before = days then d'
                else log_audit (workspace_audit actor before
                  (from_to ''retention_days'' (opt_number (tn_retention_days before)) (opt_number days))) d'))"

definition opt_time :: "(time \<Rightarrow> string) \<Rightarrow> time option \<Rightarrow> json" where
  "opt_time show_time x = (case x of None \<Rightarrow> JNull | Some t \<Rightarrow> JStr (show_time t))"

definition set_second_factor_requirement ::
    "(time \<Rightarrow> string) \<Rightarrow> id \<Rightarrow> actor \<Rightarrow> bool \<Rightarrow> time \<Rightarrow> accounts_db \<Rightarrow> account_error + (tenant \<times> bool \<times> accounts_db)" where
  "set_second_factor_requirement show_time ws actor required now d =
     (case get_tenant ws d of
        None \<Rightarrow> Inl AccountNotFound
      | Some before \<Rightarrow>
         if (ws_second_factor_required_at before \<noteq> None) = required then Inr (before, False, d)
         else
           let at' = (if required then Some now else None);
               d' = update_tenant ws (\<lambda>w. w\<lparr>ws_second_factor_required_at := at'\<rparr>) d
           in Inr (before\<lparr>ws_second_factor_required_at := at'\<rparr>, required,
                log_audit (workspace_audit actor before
                  (from_to ''second_factor_required_at'' (opt_time show_time (ws_second_factor_required_at before))
                    (opt_time show_time at'))) d'))"

section \<open>Invitations\<close>

definition invite_token_ttl :: duration where "invite_token_ttl = 7 * 24 * hour"

definition pending_invitation :: "(string \<Rightarrow> string) \<Rightarrow> time \<Rightarrow> string \<Rightarrow> accounts_db \<Rightarrow> invitation option" where
  "pending_invitation hash_token now token d =
     find_where (\<lambda>i. inv_token_hash i = hash_token token \<and> inv_accepted_at i = None \<and> now < inv_expires_at i)
       (invitations d)"

definition invitation_audit :: "actor \<Rightarrow> string \<Rightarrow> id \<Rightarrow> invitation \<Rightarrow> json \<Rightarrow> audit_entry" where
  "invitation_audit actor action ws i diff = \<lparr>ae_workspace = ws, ae_actor = actor, ae_action = action,
     ae_target_type = ''invitation'', ae_target_id = show_int (inv_id i), ae_target_name = inv_email i,
     ae_diff = diff\<rparr>"

definition role_to :: "invitable_role \<Rightarrow> json" where
  "role_to r = JObj [(''role'', JObj [(''to'', JStr (role_name (membership_role r)))])]"

text \<open>The Membership insert ignores a unique violation, but the transaction is aborted by then: the
  update of the Invitation that follows fails with it.\<close>

definition accept_invitation ::
    "(string \<Rightarrow> string) \<Rightarrow> time \<Rightarrow> invitation \<Rightarrow> string \<Rightarrow> string \<Rightarrow> accounts_db \<Rightarrow> account_error + accounts_db" where
  "accept_invitation hash_password now invit name password d =
     (let found = (case user_by_email (inv_email invit) d of
            Some u \<Rightarrow> Inr (u, d)
          | None \<Rightarrow> create_user name (inv_email invit) (hash_password password) (Some now) d)
      in case found of
           Inl e \<Rightarrow> Inl e
         | Inr (u, d1) \<Rightarrow>
             if exists_where (\<lambda>m. mb_user m = u_id u \<and> mb_workspace m = inv_workspace invit) (memberships d1)
             then Inl TxAborted
             else
               let d2 = d1\<lparr>memberships := memberships d1 @ [\<lparr>mb_id = fresh_id d1, mb_workspace = inv_workspace invit,
                          mb_user = u_id u, mb_role = membership_role (inv_role invit), mb_created_at = now\<rparr>],
                        fresh_id := fresh_id d1 + 1\<rparr>
               in if \<not> exists_where (\<lambda>i. inv_workspace i = inv_workspace invit \<and> inv_id i = inv_id invit) (invitations d2)
                  then Inl AccountNotFound
                  else Inr (log_audit (invitation_audit (user_actor u) ''invitation.accept'' (inv_workspace invit) invit
                       (role_to (inv_role invit)))
                     (d2\<lparr>invitations := update_where (\<lambda>i. inv_workspace i = inv_workspace invit \<and> inv_id i = inv_id invit)
                         (\<lambda>i. i\<lparr>inv_accepted_at := Some now\<rparr>) (invitations d2)\<rparr>)))"

definition invite ::
    "(string \<Rightarrow> string) \<Rightarrow> time \<Rightarrow> id \<Rightarrow> actor \<Rightarrow> string \<Rightarrow> invitable_role \<Rightarrow> id \<Rightarrow> string \<Rightarrow> accounts_db
      \<Rightarrow> account_error + (invitation \<times> accounts_db)" where
  "invite hash_token now ws actor raw_email role invited_by token d =
     (let email = trim_space raw_email in
      if email = '''' then Inl EmailEmpty
      else if exists_where (\<lambda>m. mb_workspace m = ws \<and> exists_where (\<lambda>u. u_id u = mb_user m \<and> u_email u = email) (users d))
           (memberships d) then Inl AlreadyMember
      else
        let fill = (\<lambda>i. i\<lparr>inv_role := role, inv_token_hash := hash_token token,
               inv_expires_at := now + invite_token_ttl, inv_invited_by := Some invited_by\<rparr>)
        in case find_where (\<lambda>i. inv_workspace i = ws \<and> inv_email i = email) (invitations d) of
             None \<Rightarrow>
               let i = fill \<lparr>inv_id = fresh_id d, inv_workspace = ws, inv_email = email, inv_role = role,
                     inv_token_hash = '''', inv_invited_by = None, inv_expires_at = 0, inv_accepted_at = None\<rparr>
               in Inr (i, log_audit (invitation_audit actor ''invitation.create'' ws i (role_to role))
                    (d\<lparr>invitations := invitations d @ [i], fresh_id := fresh_id d + 1\<rparr>))
           | Some old \<Rightarrow>
               let i = (fill old)\<lparr>inv_accepted_at := None\<rparr>
               in Inr (i, log_audit (invitation_audit actor ''invitation.create'' ws i (role_to role))
                    (d\<lparr>invitations := update_where (\<lambda>x. inv_workspace x = ws \<and> inv_id x = inv_id old)
                        (\<lambda>x. (fill x)\<lparr>inv_accepted_at := None\<rparr>) (invitations d)\<rparr>)))"

definition revoke_invitation :: "id \<Rightarrow> actor \<Rightarrow> id \<Rightarrow> accounts_db \<Rightarrow> bool \<times> accounts_db" where
  "revoke_invitation ws actor iid d =
     (case find_where (\<lambda>i. inv_workspace i = ws \<and> inv_id i = iid) (invitations d) of
        None \<Rightarrow> (False, d)
      | Some i \<Rightarrow> (True, log_audit (invitation_audit actor ''invitation.revoke'' ws i JNull)
           (d\<lparr>invitations := delete_where (\<lambda>x. inv_workspace x = ws \<and> inv_id x = iid) (invitations d)\<rparr>)))"

end
