(* ===== verification/SecondFactors.thy ===== *)
theory SecondFactors
  imports Members
begin

text \<open>
  \<open>internal/secondfactor/secondfactor.go\<close>: the TOTP Second factor of a User and its Recovery codes,
  from enrollment to removal, and the binding that makes a login challenge single-use.

  Parameters (\<open>factor_env\<close>): the instance cipher, the TOTP function of a secret and a time step, and
  SHA-256. Fresh secrets and Recovery codes are arguments; QR images are left out.
\<close>

section \<open>State and parameters\<close>

record factor_env =
  fe_encrypt :: "string \<Rightarrow> string"
  fe_decrypt :: "string \<Rightarrow> string option"
  fe_totp :: "string \<Rightarrow> int \<Rightarrow> string"
  fe_sha :: "string \<Rightarrow> string"

datatype factor_error = InvalidCode | NotActive | AlreadyActive | NoPending | BindingMoved | NoSuchUser | CipherFailed
datatype factor_method = MethodTotp | MethodRecoveryCode

record factor_status =
  st_enabled :: bool
  st_pending :: bool
  st_remaining :: nat

definition period :: int where "period = 30"
definition skew :: int where "skew = 1"
definition recovery_code_count :: nat where "recovery_code_count = 10"

text \<open>\<open>credentials.HashRecoveryCode\<close>: case, spaces and dashes do not matter.\<close>

definition hash_recovery_code :: "factor_env \<Rightarrow> string \<Rightarrow> string" where
  "hash_recovery_code env code =
     fe_sha env (filter (\<lambda>c. c \<noteq> CHR ''-'' \<and> c \<noteq> CHR '' '') (to_lower (trim_space code)))"

definition is_totp :: "string \<Rightarrow> bool" where
  "is_totp code = (let c = trim_space code in length c = 6 \<and> list_all (\<lambda>x. digit_val x \<noteq> None) c)"

definition unused_codes :: "id \<Rightarrow> accounts_db \<Rightarrow> nat" where
  "unused_codes uid d = count_where (\<lambda>c. rc_user c = uid \<and> rc_used_at c = None) (recovery_codes d)"

definition status :: "id \<Rightarrow> accounts_db \<Rightarrow> factor_error + factor_status" where
  "status uid d =
     (case get_user uid d of
        None \<Rightarrow> Inl NoSuchUser
      | Some u \<Rightarrow>
         if active_factor u then Inr \<lparr>st_enabled = True, st_pending = False, st_remaining = unused_codes uid d\<rparr>
         else Inr \<lparr>st_enabled = False, st_pending = (u_sf_secret u \<noteq> ''''), st_remaining = 0\<rparr>)"

section \<open>Codes\<close>

fun use_step :: "factor_env \<Rightarrow> user \<Rightarrow> string \<Rightarrow> string \<Rightarrow> int list \<Rightarrow> accounts_db \<Rightarrow> factor_error + accounts_db" where
  "use_step env u secret code [] d = Inl InvalidCode"
| "use_step env u secret code (step # steps) d =
     (if step \<le> u_sf_last_step u \<or> fe_totp env secret step \<noteq> code then use_step env u secret code steps d
      else if exists_where (\<lambda>x. u_id x = u_id u \<and> u_sf_last_step x < step) (users d)
      then Inr (d\<lparr>users := update_where (\<lambda>x. u_id x = u_id u \<and> u_sf_last_step x < step)
             (\<lambda>x. x\<lparr>u_sf_last_step := step\<rparr>) (users d)\<rparr>)
      else Inl InvalidCode)"

definition use_totp :: "factor_env \<Rightarrow> time \<Rightarrow> user \<Rightarrow> string \<Rightarrow> accounts_db \<Rightarrow> factor_error + accounts_db" where
  "use_totp env now u code d =
     (case fe_decrypt env (u_sf_secret u) of
        None \<Rightarrow> Inl CipherFailed
      | Some secret \<Rightarrow>
         let step = now div second div period
         in use_step env u secret (trim_space code) [step - skew .. step + skew] d)"

definition verify_code :: "factor_env \<Rightarrow> time \<Rightarrow> user \<Rightarrow> string \<Rightarrow> accounts_db \<Rightarrow> factor_error + (factor_method \<times> accounts_db)" where
  "verify_code env now u code d =
     (if is_totp code then
        (case use_totp env now u code d of Inl e \<Rightarrow> Inl e | Inr d' \<Rightarrow> Inr (MethodTotp, d'))
      else
        let p = (\<lambda>c. rc_user c = u_id u \<and> rc_hash c = hash_recovery_code env code \<and> rc_used_at c = None)
        in if count_where p (recovery_codes d) \<noteq> 1 then Inl InvalidCode
           else Inr (MethodRecoveryCode, record_user_action u ''user.recovery_code_use'' JNull
             (d\<lparr>recovery_codes := update_where p (\<lambda>c. c\<lparr>rc_used_at := Some now\<rparr>) (recovery_codes d)\<rparr>)))"

definition drop_codes :: "id \<Rightarrow> accounts_db \<Rightarrow> accounts_db" where
  "drop_codes uid d = d\<lparr>recovery_codes := delete_where (\<lambda>c. rc_user c = uid) (recovery_codes d)\<rparr>"

definition replace_recovery_codes :: "factor_env \<Rightarrow> id \<Rightarrow> string list \<Rightarrow> accounts_db \<Rightarrow> accounts_db" where
  "replace_recovery_codes env uid codes d =
     (let d1 = drop_codes uid d in
      d1\<lparr>recovery_codes := recovery_codes d1 @
        map (\<lambda>c. \<lparr>rc_user = uid, rc_hash = hash_recovery_code env c, rc_used_at = None\<rparr>) codes\<rparr>)"

definition bump_epoch :: "user \<Rightarrow> user" where
  "bump_epoch u = u\<lparr>u_session_epoch := u_session_epoch u + 1\<rparr>"

definition cleared_factor :: "user \<Rightarrow> user" where
  "cleared_factor u = u\<lparr>u_sf_secret := '''', u_sf_confirmed_at := None, u_sf_last_step := 0,
     u_session_epoch := u_session_epoch u + 1\<rparr>"

definition remove_factor :: "id \<Rightarrow> accounts_db \<Rightarrow> accounts_db" where
  "remove_factor uid d = update_user uid cleared_factor (drop_codes uid d)"

section \<open>Operations\<close>

definition start_enrollment :: "factor_env \<Rightarrow> id \<Rightarrow> string \<Rightarrow> accounts_db \<Rightarrow> factor_error + accounts_db" where
  "start_enrollment env uid secret d =
     (case get_user uid d of
        None \<Rightarrow> Inl NoSuchUser
      | Some u \<Rightarrow>
         if active_factor u then Inl AlreadyActive
         else Inr (update_user uid (\<lambda>u. u\<lparr>u_sf_secret := fe_encrypt env secret, u_sf_confirmed_at := None,
                u_sf_last_step := 0\<rparr>) d))"

definition confirm_enrollment ::
    "factor_env \<Rightarrow> time \<Rightarrow> id \<Rightarrow> string \<Rightarrow> string list \<Rightarrow> accounts_db \<Rightarrow> factor_error + (user \<times> accounts_db)" where
  "confirm_enrollment env now uid code codes d =
     (case get_user uid d of
        None \<Rightarrow> Inl NoSuchUser
      | Some u \<Rightarrow>
         if active_factor u then Inl AlreadyActive
         else if u_sf_secret u = '''' then Inl NoPending
         else case use_totp env now u code d of
             Inl e \<Rightarrow> Inl e
           | Inr d1 \<Rightarrow>
              let f = (\<lambda>u. (bump_epoch u)\<lparr>u_sf_confirmed_at := Some now\<rparr>);
                  d2 = replace_recovery_codes env uid codes (update_user uid f d1)
              in (case get_user uid d2 of
                    None \<Rightarrow> Inl NoSuchUser
                  | Some u' \<Rightarrow> Inr (u', record_user_action u' ''user.second_factor_enroll'' JNull d2)))"

definition regenerate_recovery_codes ::
    "factor_env \<Rightarrow> id \<Rightarrow> string list \<Rightarrow> accounts_db \<Rightarrow> factor_error + (user \<times> accounts_db)" where
  "regenerate_recovery_codes env uid codes d =
     (case get_user uid d of
        None \<Rightarrow> Inl NoSuchUser
      | Some u \<Rightarrow>
         if \<not> active_factor u then Inl NotActive
         else Inr (bump_epoch u, record_user_action (bump_epoch u) ''user.recovery_codes_regenerate'' JNull
                (update_user uid bump_epoch (replace_recovery_codes env uid codes d))))"

definition disable :: "factor_env \<Rightarrow> time \<Rightarrow> id \<Rightarrow> string \<Rightarrow> accounts_db \<Rightarrow> factor_error + (user \<times> accounts_db)" where
  "disable env now uid code d =
     (case get_user uid d of
        None \<Rightarrow> Inl NoSuchUser
      | Some u \<Rightarrow>
         if \<not> active_factor u then Inl NotActive
         else case verify_code env now u code d of
             Inl e \<Rightarrow> Inl e
           | Inr (_, d1) \<Rightarrow>
              let d2 = remove_factor uid d1
              in (case get_user uid d2 of
                    None \<Rightarrow> Inl NoSuchUser
                  | Some u' \<Rightarrow> Inr (u', record_user_action u' ''user.second_factor_disable'' JNull d2)))"

text \<open>\<open>"%d|%d|%d|%s"\<close> of the epoch, the last step, the unused codes and the password hash.\<close>

definition binding_of :: "user \<Rightarrow> accounts_db \<Rightarrow> string" where
  "binding_of u d = show_int (u_session_epoch u) @ ''|'' @ show_int (u_sf_last_step u) @ ''|'' @
     show_nat (unused_codes (u_id u) d) @ ''|'' @ u_password_hash u"

definition challenge_binding :: "user \<Rightarrow> accounts_db \<Rightarrow> factor_error + string" where
  "challenge_binding u d = (if active_factor u then Inr (binding_of u d) else Inl NotActive)"

definition verify :: "factor_env \<Rightarrow> time \<Rightarrow> id \<Rightarrow> string \<Rightarrow> string \<Rightarrow> accounts_db \<Rightarrow> factor_error + (factor_method \<times> accounts_db)" where
  "verify env now uid binding code d =
     (case get_user uid d of
        None \<Rightarrow> Inl NoSuchUser
      | Some u \<Rightarrow>
         if \<not> active_factor u then Inl NotActive
         else if binding_of u d \<noteq> binding then Inl BindingMoved
         else verify_code env now u code d)"

definition reset_with :: "id \<Rightarrow> (user \<Rightarrow> accounts_db \<Rightarrow> accounts_db) \<Rightarrow> accounts_db \<Rightarrow> factor_error + accounts_db" where
  "reset_with uid record_it d =
     (case get_user uid d of
        None \<Rightarrow> Inl NoSuchUser
      | Some u \<Rightarrow>
         if \<not> active_factor u then Inl NotActive
         else Inr (record_it (cleared_factor u) (remove_factor uid d)))"

definition reset_factor :: "id \<Rightarrow> actor \<Rightarrow> id \<Rightarrow> accounts_db \<Rightarrow> factor_error + accounts_db" where
  "reset_factor uid actor ws d =
     reset_with uid (\<lambda>u. record_action_on_user_in actor u ''user.second_factor_reset'' JNull [ws]) d"

definition reset_by_operator :: "id \<Rightarrow> string \<Rightarrow> accounts_db \<Rightarrow> factor_error + accounts_db" where
  "reset_by_operator uid by' d =
     reset_with uid (\<lambda>u. record_action_on_user \<lparr>actor_kind = ActorOperator, actor_id = by', actor_name = ''''\<rparr> u
       ''user.second_factor_reset'' JNull) d"

section \<open>The binding tells its parts apart\<close>

lemma digit_char_not_bar: "d < 10 \<Longrightarrow> digit_char d \<noteq> CHR ''|''"
proof
  assume d: "d < 10" and "digit_char d = CHR ''|''"
  then have "digit_val (CHR ''|'') = Some d" by (metis digit_val_digit_char)
  then show False by (simp add: digit_val_def)
qed

lemma show_nat_no_bar: "CHR ''|'' \<notin> set (show_nat n)"
proof (induction n rule: show_nat.induct)
  case (1 n)
  have c: "CHR ''|'' \<noteq> digit_char d" if "d < 10" for d using digit_char_not_bar [OF that] by metis
  show ?case
  proof (cases "n < 10")
    case True
    then show ?thesis using c by (subst show_nat.simps) auto
  next
    case False
    then show ?thesis using 1 c by (subst show_nat.simps) auto
  qed
qed

lemma show_int_no_bar: "CHR ''|'' \<notin> set (show_int i)"
  using show_nat_no_bar by (auto simp: show_int_def)

lemma split_at_bar:
  assumes "s @ ''|'' @ t = s' @ ''|'' @ t'" and "CHR ''|'' \<notin> set s" and "CHR ''|'' \<notin> set s'"
  shows "s = s' \<and> t = t'"
  using assms
proof (induction s arbitrary: s')
  case Nil
  then show ?case by (cases s') auto
next
  case (Cons c s)
  then show ?case by (cases s') auto
qed

lemma show_nat_inj: "show_nat m = show_nat n \<Longrightarrow> m = n"
  by (metis parse_digits_show_nat option.inject)

lemma binding_parts:
  assumes "binding_of u d = binding_of u' d'"
  shows "u_session_epoch u = u_session_epoch u'" and "u_sf_last_step u = u_sf_last_step u'"
    and "unused_codes (u_id u) d = unused_codes (u_id u') d'" and "u_password_hash u = u_password_hash u'"
proof -
  have 1: "show_int (u_session_epoch u) = show_int (u_session_epoch u')"
    and r1: "show_int (u_sf_last_step u) @ ''|'' @ show_nat (unused_codes (u_id u) d) @ ''|'' @ u_password_hash u =
      show_int (u_sf_last_step u') @ ''|'' @ show_nat (unused_codes (u_id u') d') @ ''|'' @ u_password_hash u'"
    using split_at_bar [OF assms [unfolded binding_of_def] show_int_no_bar show_int_no_bar] by simp_all
  have 2: "show_int (u_sf_last_step u) = show_int (u_sf_last_step u')"
    and r2: "show_nat (unused_codes (u_id u) d) @ ''|'' @ u_password_hash u =
      show_nat (unused_codes (u_id u') d') @ ''|'' @ u_password_hash u'"
    using split_at_bar [OF r1 show_int_no_bar show_int_no_bar] by simp_all
  have 3: "show_nat (unused_codes (u_id u) d) = show_nat (unused_codes (u_id u') d')"
    and 4: "u_password_hash u = u_password_hash u'"
    using split_at_bar [OF r2 show_nat_no_bar show_nat_no_bar] by simp_all
  show "u_session_epoch u = u_session_epoch u'" by (rule show_int_inj [OF 1])
  show "u_sf_last_step u = u_sf_last_step u'" by (rule show_int_inj [OF 2])
  show "unused_codes (u_id u) d = unused_codes (u_id u') d'" by (rule show_nat_inj [OF 3])
  show "u_password_hash u = u_password_hash u'" by (rule 4)
qed

section \<open>Frames\<close>

lemma record_action_in_frame [simp]:
  "users (record_action_on_user_in a u act diff wss d) = users d"
  "recovery_codes (record_action_on_user_in a u act diff wss d) = recovery_codes d"
  "attempts (record_action_on_user_in a u act diff wss d) = attempts d"
  by (induction wss arbitrary: d) (simp_all add: record_action_on_user_in_def)

lemma record_action_frame [simp]:
  "users (record_action_on_user a u act diff d) = users d"
  "recovery_codes (record_action_on_user a u act diff d) = recovery_codes d"
  "attempts (record_action_on_user a u act diff d) = attempts d"
  by (simp_all add: record_action_on_user_def)

lemma record_user_action_frame [simp]:
  "users (record_user_action u act diff d) = users d"
  "recovery_codes (record_user_action u act diff d) = recovery_codes d"
  "attempts (record_user_action u act diff d) = attempts d"
  by (simp_all add: record_user_action_def)

lemma get_user_frame: "users d' = users d \<Longrightarrow> get_user uid d' = get_user uid d"
  by (simp add: get_user_def)

lemma unused_codes_frame: "recovery_codes d' = recovery_codes d \<Longrightarrow> unused_codes uid d' = unused_codes uid d"
  by (simp add: unused_codes_def)

lemma drop_codes_simps [simp]:
  "users (drop_codes uid d) = users d"
  "users (replace_recovery_codes env uid codes d) = users d"
  "attempts (drop_codes uid d) = attempts d"
  "attempts (replace_recovery_codes env uid codes d) = attempts d"
  by (simp_all add: drop_codes_def replace_recovery_codes_def Let_def)

lemma unused_codes_drop_other: "uid \<noteq> k \<Longrightarrow> unused_codes uid (drop_codes k d) = unused_codes uid d"
  by (auto simp: unused_codes_def drop_codes_def count_where_def delete_where_def intro!: arg_cong [where f = length]
      filter_cong)

lemma unused_codes_replace_other: "uid \<noteq> k \<Longrightarrow> unused_codes uid (replace_recovery_codes env k codes d) = unused_codes uid d"
proof -
  assume ne: "uid \<noteq> k"
  have "filter (\<lambda>c. rc_user c = uid \<and> rc_used_at c = None)
      (map (\<lambda>c. \<lparr>rc_user = k, rc_hash = hash_recovery_code env c, rc_used_at = None\<rparr>) codes) = []"
    using ne by (auto simp: filter_empty_conv)
  then show ?thesis
    using unused_codes_drop_other [OF ne, of d]
    by (simp add: unused_codes_def replace_recovery_codes_def count_where_def Let_def)
qed

lemma count_where_spent:
  assumes "\<And>r. p r \<Longrightarrow> q r" and "\<And>r. \<not> q (f r)"
  shows "count_where q rows = count_where q (update_where p f rows) + count_where p rows"
  using assms by (induction rows) (auto simp: count_where_def update_where_def)

lemma count_where_other_update:
  assumes "\<And>r. p r \<Longrightarrow> \<not> q r \<and> \<not> q (f r)"
  shows "count_where q (update_where p f rows) = count_where q rows"
  using assms by (induction rows) (auto simp: count_where_def update_where_def)

section \<open>What an accepted code does\<close>

lemma use_step_InrD:
  "use_step env u secret code steps d = Inr d' \<Longrightarrow>
     \<exists>step \<in> set steps. u_sf_last_step u < step \<and> fe_totp env secret step = code \<and>
       d' = d\<lparr>users := update_where (\<lambda>x. u_id x = u_id u \<and> u_sf_last_step x < step)
         (\<lambda>x. x\<lparr>u_sf_last_step := step\<rparr>) (users d)\<rparr>"
  by (induction env u secret code steps d rule: use_step.induct) (auto split: if_splits)

lemma use_totp_InrD:
  assumes "use_totp env now u code d = Inr d'" and "get_user uid d = Some u"
  obtains step secret where "fe_decrypt env (u_sf_secret u) = Some secret" and "u_sf_last_step u < step"
    and "fe_totp env secret step = trim_space code" and "\<bar>step - now div second div period\<bar> \<le> skew"
    and "get_user uid d' = Some (u\<lparr>u_sf_last_step := step\<rparr>)"
    and "\<And>k. k \<noteq> uid \<Longrightarrow> get_user k d' = get_user k d"
    and "recovery_codes d' = recovery_codes d" and "attempts d' = attempts d"
    and "map u_id (users d') = map u_id (users d)"
proof -
  have uid: "u_id u = uid" using assms(2) by (auto dest: get_user_SomeD)
  obtain secret where s: "fe_decrypt env (u_sf_secret u) = Some secret"
    and st: "use_step env u secret (trim_space code) [now div second div period - skew .. now div second div period + skew] d = Inr d'"
    using assms(1) by (auto simp: use_totp_def Let_def split: option.splits)
  obtain step where step: "step \<in> {now div second div period - skew .. now div second div period + skew}"
    "u_sf_last_step u < step" "fe_totp env secret step = trim_space code"
    and d': "d' = d\<lparr>users := update_where (\<lambda>x. u_id x = u_id u \<and> u_sf_last_step x < step)
         (\<lambda>x. x\<lparr>u_sf_last_step := step\<rparr>) (users d)\<rparr>"
    using use_step_InrD [OF st] by auto
  have find: "get_user k d' = map_option (\<lambda>x. if u_id x = u_id u \<and> u_sf_last_step x < step then x\<lparr>u_sf_last_step := step\<rparr> else x) (get_user k d)" for k
    unfolding get_user_def d' by (simp add: find_where_update)
  show thesis
  proof (rule that [OF s step(2,3)])
    show "get_user uid d' = Some (u\<lparr>u_sf_last_step := step\<rparr>)" using find [of uid] assms(2) step(2) by simp
    show "get_user k d' = get_user k d" if "k \<noteq> uid" for k
      using find [of k] that uid by (cases "get_user k d") (auto dest: get_user_SomeD)
  qed (use step(1) in \<open>auto simp: d' map_update_where\<close>)
qed

text \<open>
  The order in which a User's factor state only ever moves: the epoch grows; within one epoch an active
  factor was active before, its last step does not go back and its unused codes do not grow.
\<close>

definition later :: "user \<times> nat \<Rightarrow> user \<times> nat \<Rightarrow> bool" where
  "later s t \<longleftrightarrow>
     u_session_epoch (fst s) < u_session_epoch (fst t) \<or>
     (u_session_epoch (fst s) = u_session_epoch (fst t) \<and>
      (active_factor (fst t) \<longrightarrow> active_factor (fst s) \<and> u_sf_last_step (fst s) \<le> u_sf_last_step (fst t) \<and> snd t \<le> snd s))"

lemma later_refl: "later s s"
  by (simp add: later_def)

lemma later_trans: "later s t \<Longrightarrow> later t u \<Longrightarrow> later s u"
  by (auto simp: later_def)

definition factor_state :: "id \<Rightarrow> accounts_db \<Rightarrow> (user \<times> nat) option" where
  "factor_state uid d = map_option (\<lambda>u. (u, unused_codes uid d)) (get_user uid d)"

lemma verify_code_InrD:
  assumes "verify_code env now u code d = Inr (m, d')" and g: "get_user uid d = Some u"
  obtains u' where "get_user uid d' = Some u'" and "u_session_epoch u' = u_session_epoch u"
    and "u_password_hash u' = u_password_hash u" and "active_factor u' = active_factor u"
    and "(u_sf_last_step u < u_sf_last_step u' \<and> unused_codes uid d' = unused_codes uid d) \<or>
         (u_sf_last_step u' = u_sf_last_step u \<and> unused_codes uid d' < unused_codes uid d)"
    and "\<And>k. k \<noteq> uid \<Longrightarrow> factor_state k d' = factor_state k d" and "map u_id (users d') = map u_id (users d)"
    and "attempts d' = attempts d"
proof (cases "is_totp code")
  case True
  then have t: "use_totp env now u code d = Inr d'"
    using assms(1) by (auto simp: verify_code_def split: sum.splits)
  show thesis
    using t g
  proof (rule use_totp_InrD)
    fix step
    assume f: "u_sf_last_step u < step" "get_user uid d' = Some (u\<lparr>u_sf_last_step := step\<rparr>)"
      "\<And>k. k \<noteq> uid \<Longrightarrow> get_user k d' = get_user k d" "recovery_codes d' = recovery_codes d"
      "map u_id (users d') = map u_id (users d)" "attempts d' = attempts d"
    have uc: "unused_codes k d' = unused_codes k d" for k by (rule unused_codes_frame [OF f(4)])
    show thesis
      by (rule that [OF f(2)])
         (simp_all add: f(1) f(5) f(6) active_factor_def factor_state_def uc f(3))
  qed
next
  case False
  have uid: "u_id u = uid" using g by (auto dest: get_user_SomeD)
  let ?p = "\<lambda>c. rc_user c = u_id u \<and> rc_hash c = hash_recovery_code env code \<and> rc_used_at c = None"
  let ?f = "\<lambda>c. c\<lparr>rc_used_at := Some now\<rparr>"
  let ?q = "\<lambda>k c. rc_user c = k \<and> rc_used_at c = None"
  have one: "count_where ?p (recovery_codes d) = 1"
    and d': "d' = record_user_action u ''user.recovery_code_use'' JNull (d\<lparr>recovery_codes := update_where ?p ?f (recovery_codes d)\<rparr>)"
    using assms(1) False by (auto simp: verify_code_def Let_def split: if_splits)
  have users: "users d' = users d" and codes: "recovery_codes d' = update_where ?p ?f (recovery_codes d)"
    by (simp_all add: d')
  have spent: "unused_codes uid d = unused_codes uid d' + 1"
    using count_where_spent [of ?p "?q uid" ?f "recovery_codes d"] uid one by (simp add: unused_codes_def codes)
  have other: "unused_codes k d' = unused_codes k d" if "k \<noteq> uid" for k
    unfolding unused_codes_def codes by (rule count_where_other_update) (use that uid in auto)
  have att: "attempts d' = attempts d" by (simp add: d')
  show thesis
  proof (rule that [of u])
    show "get_user uid d' = Some u" using g get_user_frame [OF users] by simp
    show "(u_sf_last_step u < u_sf_last_step u \<and> unused_codes uid d' = unused_codes uid d) \<or>
        (u_sf_last_step u = u_sf_last_step u \<and> unused_codes uid d' < unused_codes uid d)"
      using spent by simp
    show "factor_state k d' = factor_state k d" if "k \<noteq> uid" for k
      using other [OF that] get_user_frame [OF users] by (simp add: factor_state_def)
  qed (simp_all add: users att)
qed

section \<open>Histories\<close>

datatype factor_op =
    StartOp id string
  | ConfirmOp id string "string list"
  | RegenerateOp id "string list"
  | DisableOp id string
  | ResetOp id actor id
  | OperatorResetOp id string
  | VerifyOp id string string
  | ProfileOp id "string option" "string option"
  | EndSessionsOp id
  | ChangeEmailOp id string

definition or_unchanged :: "accounts_db \<Rightarrow> 'e + accounts_db \<Rightarrow> accounts_db" where
  "or_unchanged d r = (case r of Inl _ \<Rightarrow> d | Inr d' \<Rightarrow> d')"

definition second_of :: "'e + ('a \<times> 'b) \<Rightarrow> 'e + 'b" where
  "second_of r = (case r of Inl e \<Rightarrow> Inl e | Inr (_, d) \<Rightarrow> Inr d)"

fun factor_step :: "factor_env \<Rightarrow> time \<Rightarrow> factor_op \<Rightarrow> accounts_db \<Rightarrow> accounts_db" where
  "factor_step env now (StartOp uid secret) d = or_unchanged d (start_enrollment env uid secret d)"
| "factor_step env now (ConfirmOp uid code codes) d = or_unchanged d (second_of (confirm_enrollment env now uid code codes d))"
| "factor_step env now (RegenerateOp uid codes) d = or_unchanged d (second_of (regenerate_recovery_codes env uid codes d))"
| "factor_step env now (DisableOp uid code) d = or_unchanged d (second_of (disable env now uid code d))"
| "factor_step env now (ResetOp uid actor ws) d = or_unchanged d (reset_factor uid actor ws d)"
| "factor_step env now (OperatorResetOp uid by') d = or_unchanged d (reset_by_operator uid by' d)"
| "factor_step env now (VerifyOp uid binding code) d = or_unchanged d (second_of (verify env now uid binding code d))"
| "factor_step env now (ProfileOp uid name hash) d = or_unchanged d (second_of (update_profile uid name hash d))"
| "factor_step env now (EndSessionsOp uid) d = or_unchanged d (end_sessions uid d)"
| "factor_step env now (ChangeEmailOp uid email) d = or_unchanged d (change_email now uid email d)"

fun factor_steps :: "factor_env \<Rightarrow> (time \<times> factor_op) list \<Rightarrow> accounts_db \<Rightarrow> accounts_db" where
  "factor_steps env [] d = d"
| "factor_steps env ((now, op) # ops) d = factor_steps env ops (factor_step env now op d)"

definition moves_on :: "accounts_db \<Rightarrow> accounts_db \<Rightarrow> bool" where
  "moves_on d d' \<longleftrightarrow> (\<forall>k s. factor_state k d = Some s \<longrightarrow> (\<exists>t. factor_state k d' = Some t \<and> later s t))"

lemma moves_on_refl [simp]: "moves_on d d"
  by (auto simp: moves_on_def later_refl)

lemma moves_on_trans: "moves_on d e \<Longrightarrow> moves_on e f \<Longrightarrow> moves_on d f"
  unfolding moves_on_def by (meson later_trans)

lemma moves_onD:
  assumes "moves_on d d'" and "get_user k d = Some u" and "get_user k d' = Some v"
  shows "later (u, unused_codes k d) (v, unused_codes k d')"
proof -
  have "factor_state k d = Some (u, unused_codes k d)" using assms(2) by (simp add: factor_state_def)
  with assms(1) obtain t where "factor_state k d' = Some t" and "later (u, unused_codes k d) t"
    unfolding moves_on_def by blast
  with assms(3) show ?thesis by (simp add: factor_state_def)
qed

lemma moves_on_frame:
  assumes "users d' = users e" and "recovery_codes d' = recovery_codes e" and "moves_on d e"
  shows "moves_on d d'"
  using assms(3) get_user_frame [OF assms(1)] unused_codes_frame [OF assms(2)]
  by (simp add: moves_on_def factor_state_def)

lemma moves_on_update_user:
  assumes "\<And>u. u_id (f u) = u_id u" and "\<And>k. k \<noteq> uid \<Longrightarrow> unused_codes k e = unused_codes k d" and "users e = users d"
    and "\<And>u. get_user uid d = Some u \<Longrightarrow> later (u, unused_codes uid d) (f u, unused_codes uid e)"
  shows "moves_on d (update_user uid f e)"
  unfolding moves_on_def
proof (intro allI impI)
  fix k s
  assume s: "factor_state k d = Some s"
  then obtain u where u: "get_user k d = Some u" "s = (u, unused_codes k d)" by (auto simp: factor_state_def)
  have g: "get_user k (update_user uid f e) = (if k = uid then Some (f u) else Some u)"
    using u(1) get_user_update_user [of f k uid e, OF assms(1)] get_user_frame [OF assms(3), of k] by auto
  have n: "unused_codes k (update_user uid f e) = unused_codes k e"
    by (rule unused_codes_frame) simp
  show "\<exists>t. factor_state k (update_user uid f e) = Some t \<and> later s t"
  proof (cases "k = uid")
    case True
    with g n u assms(4) show ?thesis by (simp add: factor_state_def)
  next
    case False
    with g n u assms(2) [OF False] show ?thesis by (simp add: factor_state_def later_refl)
  qed
qed

lemma moves_on_remove: "moves_on d (remove_factor uid d)"
  unfolding remove_factor_def
  by (rule moves_on_update_user) (simp_all add: cleared_factor_def later_def unused_codes_drop_other)

lemma moves_on_verify_code:
  assumes "verify_code env now u code d = Inr (m, d')" and "get_user uid d = Some u"
  shows "moves_on d d'"
  using assms
proof (rule verify_code_InrD)
  fix u'
  assume f: "get_user uid d' = Some u'" "u_session_epoch u' = u_session_epoch u" "active_factor u' = active_factor u"
    "(u_sf_last_step u < u_sf_last_step u' \<and> unused_codes uid d' = unused_codes uid d) \<or>
         (u_sf_last_step u' = u_sf_last_step u \<and> unused_codes uid d' < unused_codes uid d)"
    "\<And>k. k \<noteq> uid \<Longrightarrow> factor_state k d' = factor_state k d"
  show "moves_on d d'"
    unfolding moves_on_def
  proof (intro allI impI)
    fix k s
    assume s: "factor_state k d = Some s"
    show "\<exists>t. factor_state k d' = Some t \<and> later s t"
    proof (cases "k = uid")
      case True
      with s f(1-4) assms(2) show ?thesis by (auto simp: factor_state_def later_def)
    next
      case False
      with s f(5) show ?thesis by (simp add: later_refl)
    qed
  qed
qed

lemma moves_on_use_totp_update:
  assumes t: "use_totp env now u code d = Inr d1" and g: "get_user uid d = Some u"
    and f: "\<And>u. u_id (f u) = u_id u" "\<And>u. u_session_epoch u < u_session_epoch (f u)"
    and c: "\<And>k. k \<noteq> uid \<Longrightarrow> unused_codes k e = unused_codes k d1" "users e = users d1"
  shows "moves_on d (update_user uid f e)"
  using t g
proof (rule use_totp_InrD)
  fix step
  assume s: "get_user uid d1 = Some (u\<lparr>u_sf_last_step := step\<rparr>)" "\<And>k. k \<noteq> uid \<Longrightarrow> get_user k d1 = get_user k d"
    "recovery_codes d1 = recovery_codes d"
  have "get_user k (update_user uid f e) = (if k = uid then Some (f (u\<lparr>u_sf_last_step := step\<rparr>)) else get_user k d)" for k
    using get_user_update_user [of f k uid e, OF f(1)] get_user_frame [OF c(2), of k] s(1) s(2) [of k] by auto
  moreover have "unused_codes k (update_user uid f e) = unused_codes k d" if "k \<noteq> uid" for k
    using c(1) [OF that] unused_codes_frame [OF s(3)] unused_codes_frame [of "update_user uid f e" e] by simp
  ultimately show ?thesis
    using g f(2) [of "u\<lparr>u_sf_last_step := step\<rparr>"]
    by (auto simp: moves_on_def factor_state_def later_def)
qed

lemma factor_step_moves_on: "moves_on d (factor_step env now op d)"
proof (cases op)
  case (StartOp uid secret)
  show ?thesis
  proof (cases "start_enrollment env uid secret d")
    case (Inr d')
    then obtain u where g: "get_user uid d = Some u" and n: "\<not> active_factor u"
      and d': "d' = update_user uid (\<lambda>u. u\<lparr>u_sf_secret := fe_encrypt env secret, u_sf_confirmed_at := None,
                u_sf_last_step := 0\<rparr>) d"
      by (auto simp: start_enrollment_def split: option.splits if_splits)
    have "moves_on d d'"
      unfolding d' by (rule moves_on_update_user) (simp_all add: later_def active_factor_def)
    with Inr StartOp show ?thesis by (simp add: or_unchanged_def)
  qed (simp add: StartOp or_unchanged_def)
next
  case (ConfirmOp uid code codes)
  show ?thesis
  proof (cases "confirm_enrollment env now uid code codes d")
    case (Inr r)
    then obtain u d1 where g: "get_user uid d = Some u" and t: "use_totp env now u code d = Inr d1"
      by (auto simp: confirm_enrollment_def Let_def split: option.splits if_splits sum.splits)
    let ?f = "\<lambda>u. (bump_epoch u)\<lparr>u_sf_confirmed_at := Some now\<rparr>"
    have eq: "update_user uid ?f (replace_recovery_codes env uid codes d1) =
        replace_recovery_codes env uid codes (update_user uid ?f d1)"
      by (simp add: replace_recovery_codes_def drop_codes_def update_user_def Let_def)
    have "moves_on d (update_user uid ?f (replace_recovery_codes env uid codes d1))"
      by (rule moves_on_use_totp_update [OF t g]) (simp_all add: bump_epoch_def unused_codes_replace_other)
    then have "moves_on d (replace_recovery_codes env uid codes (update_user uid ?f d1))" by (simp only: eq)
    then have "moves_on d (snd r)"
      using Inr g t
      by (auto simp: confirm_enrollment_def Let_def split: option.splits if_splits intro: moves_on_frame [rotated 2])
    with Inr ConfirmOp show ?thesis by (cases r) (simp add: or_unchanged_def second_of_def)
  qed (simp add: ConfirmOp or_unchanged_def second_of_def)
next
  case (RegenerateOp uid codes)
  have "moves_on d (update_user uid bump_epoch (replace_recovery_codes env uid codes d))"
    by (rule moves_on_update_user) (simp_all add: bump_epoch_def later_def unused_codes_replace_other)
  then have "moves_on d (record_user_action (bump_epoch u) ''user.recovery_codes_regenerate'' JNull
      (update_user uid bump_epoch (replace_recovery_codes env uid codes d)))" for u
    by (rule moves_on_frame [rotated 2]) simp_all
  then show ?thesis
    by (auto simp: RegenerateOp regenerate_recovery_codes_def or_unchanged_def second_of_def split: option.splits)
next
  case (DisableOp uid code)
  show ?thesis
  proof (cases "disable env now uid code d")
    case (Inr r)
    then obtain u m d1 where g: "get_user uid d = Some u" and v: "verify_code env now u code d = Inr (m, d1)"
      by (auto simp: disable_def Let_def split: option.splits if_splits sum.splits)
    have "moves_on d (remove_factor uid d1)"
      using moves_on_verify_code [OF v g] moves_on_remove moves_on_trans by blast
    then have "moves_on d (snd r)"
      using Inr g v by (auto simp: disable_def Let_def split: option.splits if_splits intro: moves_on_frame [rotated 2])
    with Inr DisableOp show ?thesis by (cases r) (simp add: or_unchanged_def second_of_def)
  qed (simp add: DisableOp or_unchanged_def second_of_def)
next
  case (ResetOp uid actor ws)
  have "moves_on d (record_action_on_user_in actor u ''user.second_factor_reset'' JNull [ws] (remove_factor uid d))" for u
    by (rule moves_on_frame [OF _ _ moves_on_remove]) simp_all
  then show ?thesis
    by (auto simp: ResetOp reset_factor_def reset_with_def or_unchanged_def split: option.splits)
next
  case (OperatorResetOp uid by')
  have "moves_on d (record_action_on_user \<lparr>actor_kind = ActorOperator, actor_id = by', actor_name = ''''\<rparr> u
      ''user.second_factor_reset'' JNull (remove_factor uid d))" for u
    by (rule moves_on_frame [OF _ _ moves_on_remove]) simp_all
  then show ?thesis
    by (auto simp: OperatorResetOp reset_by_operator_def reset_with_def or_unchanged_def split: option.splits)
next
  case (VerifyOp uid binding code)
  show ?thesis
  proof (cases "verify env now uid binding code d")
    case (Inr r)
    then obtain u m d1 where "get_user uid d = Some u" and "verify_code env now u code d = Inr (m, d1)" and "r = (m, d1)"
      by (cases r) (auto simp: verify_def split: option.splits if_splits)
    then show ?thesis
      using Inr moves_on_verify_code [of env now u code d m d1 uid] by (simp add: VerifyOp or_unchanged_def second_of_def)
  qed (simp add: VerifyOp or_unchanged_def second_of_def)
next
  case (ProfileOp uid name hash)
  have m: "moves_on d (update_user uid (set_profile name hash) d)"
    by (rule moves_on_update_user) (auto simp: set_profile_def later_def active_factor_def Let_def split: option.splits)
  then have r: "moves_on d (record_user_action u ''user.password_change'' (JObj [(''password'', JStr ''changed'')])
      (update_user uid (set_profile name hash) d))" for u
    by (rule moves_on_frame [rotated 2]) simp_all
  show ?thesis
    using m r by (auto simp: ProfileOp update_profile_def or_unchanged_def second_of_def Let_def split: option.split)
next
  case (EndSessionsOp uid)
  let ?f = "\<lambda>u. u\<lparr>u_session_epoch := u_session_epoch u + 1\<rparr>"
  have "moves_on d (update_user uid ?f d)"
    by (rule moves_on_update_user) (simp_all add: later_def)
  then have "moves_on d (record_user_action u ''user.sign_out_everywhere'' JNull (update_user uid ?f d))" for u
    by (rule moves_on_frame [rotated 2]) simp_all
  then show ?thesis
    by (simp add: EndSessionsOp end_sessions_def or_unchanged_def Let_def split: option.split)
next
  case (ChangeEmailOp uid email)
  have "moves_on d (update_user uid (\<lambda>u. u\<lparr>u_email := email, u_email_verified_at := Some now,
      u_session_epoch := u_session_epoch u + 1\<rparr>) d)"
    by (rule moves_on_update_user) (simp_all add: later_def)
  then show ?thesis
    by (simp add: ChangeEmailOp change_email_def or_unchanged_def split: option.split)
qed

lemma factor_steps_moves_on: "moves_on d (factor_steps env ops d)"
  by (induction env ops d rule: factor_steps.induct) (auto intro: moves_on_trans factor_step_moves_on)

section \<open>A challenge starts at most one session\<close>

text \<open>A login challenge starts at most one session: once a second step has succeeded under a
  binding, no second step under that binding succeeds ever again, by a TOTP code or a Recovery code, at
  any later time, after any sequence of enrollments, confirmations, regenerations, removals, resets,
  other second steps, password and email changes and sign-outs of any Users.\<close>

theorem challenge_used_once:
  assumes "verify env now uid binding code d = Inr (m, d1)"
  shows "\<exists>e. verify env now' uid binding code' (factor_steps env ops d1) = Inl e"
proof (rule ccontr)
  let ?d2 = "factor_steps env ops d1"
  assume "\<nexists>e. verify env now' uid binding code' ?d2 = Inl e"
  then obtain r where "verify env now' uid binding code' ?d2 = Inr r" by (cases "verify env now' uid binding code' ?d2") auto
  then obtain u2 where g2: "get_user uid ?d2 = Some u2" and a2: "active_factor u2" and b2: "binding_of u2 ?d2 = binding"
    by (auto simp: verify_def split: option.splits if_splits)
  obtain u where g: "get_user uid d = Some u" and b: "binding_of u d = binding"
    and v: "verify_code env now u code d = Inr (m, d1)"
    using assms by (auto simp: verify_def split: option.splits if_splits)
  have ids: "u_id u = uid" "u_id u2 = uid" using g g2 by (auto dest: get_user_SomeD)
  note parts = binding_parts [OF trans [OF b b2 [symmetric]]]
  show False
    using v g
  proof (rule verify_code_InrD)
    fix u1
    assume f: "get_user uid d1 = Some u1" "u_session_epoch u1 = u_session_epoch u"
      "(u_sf_last_step u < u_sf_last_step u1 \<and> unused_codes uid d1 = unused_codes uid d) \<or>
         (u_sf_last_step u1 = u_sf_last_step u \<and> unused_codes uid d1 < unused_codes uid d)"
    have "later (u1, unused_codes uid d1) (u2, unused_codes uid ?d2)"
      by (rule moves_onD [OF factor_steps_moves_on f(1) g2])
    with f a2 parts ids show False by (auto simp: later_def)
  qed
qed

section \<open>Codes work once\<close>


definition reissues :: "id \<Rightarrow> factor_op \<Rightarrow> bool" where
  "reissues uid op \<longleftrightarrow>
     (case op of ConfirmOp k _ _ \<Rightarrow> k = uid | RegenerateOp k _ \<Rightarrow> k = uid | _ \<Rightarrow> False)"

definition spent :: "id \<Rightarrow> string \<Rightarrow> recovery_code list \<Rightarrow> bool" where
  "spent uid h codes \<longleftrightarrow> (\<forall>c \<in> set codes. rc_user c = uid \<and> rc_hash c = h \<longrightarrow> rc_used_at c \<noteq> None)"

lemma spent_update:
  "spent uid h codes \<Longrightarrow> spent uid h (update_where p (\<lambda>c. c\<lparr>rc_used_at := Some now\<rparr>) codes)"
  by (auto simp: spent_def table_simps)

lemma spent_drop: "spent uid h (recovery_codes d) \<Longrightarrow> spent uid h (recovery_codes (drop_codes k d))"
  by (auto simp: spent_def drop_codes_def table_simps)

lemma spent_replace:
  "k \<noteq> uid \<Longrightarrow> spent uid h (recovery_codes d) \<Longrightarrow> spent uid h (recovery_codes (replace_recovery_codes env k codes d))"
  using spent_drop [of uid h d k] by (auto simp: spent_def replace_recovery_codes_def Let_def)

lemma spent_remove: "spent uid h (recovery_codes d) \<Longrightarrow> spent uid h (recovery_codes (remove_factor k d))"
  by (simp add: remove_factor_def spent_drop)

lemma codes_use_totp: "use_totp env now u code d = Inr d' \<Longrightarrow> recovery_codes d' = recovery_codes d"
  by (auto simp: use_totp_def Let_def dest!: use_step_InrD split: option.splits)

lemma spent_verify_code:
  "verify_code env now u code d = Inr (m, d') \<Longrightarrow> spent uid h (recovery_codes d) \<Longrightarrow> spent uid h (recovery_codes d')"
  by (auto simp: verify_code_def Let_def intro: spent_update dest: codes_use_totp split: if_splits sum.splits)

lemma spent_step:
  assumes "spent uid h (recovery_codes d)" and "\<not> reissues uid op"
  shows "spent uid h (recovery_codes (factor_step env now op d))"
proof (cases op)
  case (StartOp k secret)
  with assms show ?thesis by (auto simp: or_unchanged_def start_enrollment_def split: option.splits)
next
  case (ConfirmOp k code codes)
  with assms(2) have "k \<noteq> uid" by (simp add: reissues_def)
  with ConfirmOp assms(1) show ?thesis
    by (auto simp: or_unchanged_def second_of_def confirm_enrollment_def Let_def
        split: option.splits sum.splits if_splits intro!: spent_replace dest: codes_use_totp)
next
  case (RegenerateOp k codes)
  with assms(2) have "k \<noteq> uid" by (simp add: reissues_def)
  with RegenerateOp assms(1) show ?thesis
    by (auto simp: or_unchanged_def second_of_def regenerate_recovery_codes_def
        split: option.splits intro!: spent_replace)
next
  case (DisableOp k code)
  with assms(1) show ?thesis
    by (auto simp: or_unchanged_def second_of_def disable_def Let_def
        split: option.splits sum.splits if_splits intro!: spent_remove dest: spent_verify_code)
next
  case (ResetOp k actor ws)
  with assms(1) show ?thesis
    by (auto simp: or_unchanged_def reset_factor_def reset_with_def split: option.splits intro!: spent_remove)
next
  case (OperatorResetOp k by')
  with assms(1) show ?thesis
    by (auto simp: or_unchanged_def reset_by_operator_def reset_with_def split: option.splits intro!: spent_remove)
next
  case (VerifyOp k binding code)
  with assms(1) show ?thesis
    by (auto simp: or_unchanged_def second_of_def verify_def split: option.splits sum.splits if_splits
        dest: spent_verify_code)
next
  case (ProfileOp k name hash)
  with assms(1) show ?thesis
    by (auto simp: or_unchanged_def second_of_def update_profile_def Let_def split: option.splits)
next
  case (EndSessionsOp k)
  with assms(1) show ?thesis by (auto simp: or_unchanged_def end_sessions_def Let_def split: option.splits)
next
  case (ChangeEmailOp k email)
  with assms(1) show ?thesis by (auto simp: or_unchanged_def change_email_def split: option.splits)
qed

lemma spent_steps:
  "spent uid h (recovery_codes d) \<Longrightarrow> \<forall>op \<in> set ops. \<not> reissues uid (snd op) \<Longrightarrow>
     spent uid h (recovery_codes (factor_steps env ops d))"
  by (induction env ops d rule: factor_steps.induct) (simp_all add: spent_step)

text \<open>A Recovery code works once: after it has been accepted, in whatever spelling (case, spaces
  and dashes do not matter), the same code is refused until the User's codes are issued anew, whatever
  else happens to the accounts meanwhile.\<close>

theorem recovery_code_used_once:
  assumes "verify_code env now u code d = Inr (MethodRecoveryCode, d1)"
    and "\<forall>op \<in> set ops. \<not> reissues (u_id u) (snd op)"
    and "hash_recovery_code env code' = hash_recovery_code env code" and "\<not> is_totp code'"
    and "u_id v = u_id u"
  shows "verify_code env now' v code' (factor_steps env ops d1) = Inl InvalidCode"
proof -
  have "spent (u_id u) (hash_recovery_code env code) (recovery_codes d1)"
    using assms(1) by (auto simp: verify_code_def Let_def spent_def table_simps split: if_splits sum.splits)
  then have "spent (u_id u) (hash_recovery_code env code) (recovery_codes (factor_steps env ops d1))"
    by (rule spent_steps) (rule assms(2))
  then have "count_where (\<lambda>c. rc_user c = u_id v \<and> rc_hash c = hash_recovery_code env code' \<and> rc_used_at c = None)
      (recovery_codes (factor_steps env ops d1)) = 0"
    using assms(3,5) by (auto simp: spent_def count_where_0_iff)
  then show ?thesis using assms(4) by (simp add: verify_code_def Let_def)
qed

section \<open>A concrete instance\<close>

definition demo_factor_env :: factor_env where
  "demo_factor_env = \<lparr>fe_encrypt = \<lambda>s. s, fe_decrypt = Some,
     fe_totp = \<lambda>s n. if n = 2 then ''123452'' else if n = 3 then ''123453'' else ''000000'', fe_sha = \<lambda>s. s\<rparr>"

definition demo_factor_user :: "int \<Rightarrow> user" where
  "demo_factor_user step = \<lparr>u_id = 1, u_name = ''n'', u_email = ''a@x'', u_password_hash = ''$p'', u_email_verified_at = None,
     u_session_epoch = 3, u_sf_secret = ''S'', u_sf_confirmed_at = Some 0, u_sf_last_step = step\<rparr>"

definition demo_factor_db :: accounts_db where
  "demo_factor_db = empty_accounts\<lparr>users := [demo_factor_user 0],
     recovery_codes := [\<lparr>rc_user = 1, rc_hash = ''abcdefghij'', rc_used_at = None\<rparr>], fresh_id := 9\<rparr>"

lemmas demo_factor_defs = demo_factor_env_def demo_factor_user_def demo_factor_db_def empty_accounts_def

lemma challenge_used_once_witness:
  "\<exists>e. verify demo_factor_env (65 * second) 1 (binding_of (demo_factor_user 0) demo_factor_db) ''abcde-fghij''
     (factor_steps demo_factor_env [(64 * second, VerifyOp 1 ''x'' ''y''), (64 * second, StartOp 1 ''T'')]
       (snd (projr (verify demo_factor_env (60 * second) 1 (binding_of (demo_factor_user 0) demo_factor_db) ''123452'' demo_factor_db)))) = Inl e"
proof -
  let ?r = "verify demo_factor_env (60 * second) 1 (binding_of (demo_factor_user 0) demo_factor_db) ''123452'' demo_factor_db"
  have "case ?r of Inl _ \<Rightarrow> False | Inr _ \<Rightarrow> True" by code_simp
  then obtain x where "?r = Inr x" by (cases ?r) auto
  then have "?r = Inr (fst (projr ?r), snd (projr ?r))" by simp
  from challenge_used_once [OF this] show ?thesis .
qed


lemma recovery_code_used_once_witness:
  "verify_code demo_factor_env 9 (demo_factor_user 0) ''ABCDE fghij''
     (factor_steps demo_factor_env [(8, EndSessionsOp 1)]
       (snd (projr (verify_code demo_factor_env 7 (demo_factor_user 0) ''abcde-fghij'' demo_factor_db)))) = Inl InvalidCode"
proof -
  let ?r = "verify_code demo_factor_env 7 (demo_factor_user 0) ''abcde-fghij'' demo_factor_db"
  have "case ?r of Inr (MethodRecoveryCode, _) \<Rightarrow> True | _ \<Rightarrow> False" by code_simp
  then have r: "?r = Inr (MethodRecoveryCode, snd (projr ?r))" by (auto split: sum.splits prod.splits factor_method.splits)
  have h: "hash_recovery_code demo_factor_env ''ABCDE fghij'' = hash_recovery_code demo_factor_env ''abcde-fghij''" by code_simp
  have n: "\<not> is_totp ''ABCDE fghij''" by code_simp
  show ?thesis
    by (rule recovery_code_used_once [OF r _ h n]) (simp_all add: reissues_def)
qed

end
