(* ===== verification/MemberRequests.thy ===== *)
theory MemberRequests
  imports Members
begin

text \<open>
  The site handlers over \<open>internal/accounts\<close> (\<open>internal/api/site\<close>: memberships, invitations,
  workspaces, auth) as one request type, and what any sequence of requests keeps: a Workspace never
  loses its last owner, only owners touch owners, and Memberships change only through the people and
  Invitations entitled to change them.

  A request carries the id of the signed-in User; the OpenAPI layer has decoded it. The list endpoints
  and the mail jobs are left out.
\<close>

section \<open>Handlers\<close>

datatype site_answer =
    AnsOk | AnsNotFound | AnsForbidden | AnsConflict | AnsUnprocessable | AnsBadRequest
  | AnsSecondFactorRequired | AnsError

record account_env =
  env_hash_token :: "string \<Rightarrow> string"
  env_hash_password :: "string \<Rightarrow> string"
  env_slug_make :: "string \<Rightarrow> string"
  env_show_time :: "time \<Rightarrow> string"

definition actor_of :: "id \<Rightarrow> accounts_db \<Rightarrow> actor" where
  "actor_of uid d = \<lparr>actor_kind = ActorUser, actor_id = show_int uid, actor_name = user_name_of uid d\<rparr>"

definition membership_even_if_withheld :: "id \<Rightarrow> string \<Rightarrow> accounts_db \<Rightarrow> site_answer + (tenant \<times> membership)" where
  "membership_even_if_withheld uid s d =
     (case scope uid s d of None \<Rightarrow> Inl AnsNotFound | Some (w, m) \<Rightarrow> Inr (w, m))"

definition membership_for :: "time \<Rightarrow> id \<Rightarrow> string \<Rightarrow> accounts_db \<Rightarrow> site_answer + (tenant \<times> membership)" where
  "membership_for now uid s d =
     (case membership_even_if_withheld uid s d of
        Inl a \<Rightarrow> Inl a
      | Inr (w, m) \<Rightarrow>
         (case get_user (mb_user m) d of
            None \<Rightarrow> Inl AnsError
          | Some u \<Rightarrow> if withheld u w m now then Inl AnsSecondFactorRequired else Inr (w, m)))"

definition answer_of :: "account_error \<Rightarrow> site_answer" where
  "answer_of e =
     (case e of AccountNotFound \<Rightarrow> AnsNotFound | OwnerOnly \<Rightarrow> AnsForbidden | LastOwner \<Rightarrow> AnsUnprocessable
      | EmailEmpty \<Rightarrow> AnsUnprocessable | AlreadyMember \<Rightarrow> AnsConflict | _ \<Rightarrow> AnsError)"

definition site_memberships_update ::
    "time \<Rightarrow> id \<Rightarrow> string \<Rightarrow> string \<Rightarrow> role \<Rightarrow> accounts_db \<Rightarrow> site_answer \<times> accounts_db" where
  "site_memberships_update now uid s raw_id desired d =
     (case membership_for now uid s d of
        Inl a \<Rightarrow> (a, d)
      | Inr (w, m) \<Rightarrow>
         if \<not> can_manage_members (mb_role m) then (AnsForbidden, d)
         else case parse_int64 raw_id of
             None \<Rightarrow> (AnsNotFound, d)
           | Some target \<Rightarrow>
              (case change_membership_role (ws_id w) (actor_of uid d) (mb_role m) target desired d of
                 Inl e \<Rightarrow> (answer_of e, d)
               | Inr (_, d') \<Rightarrow> (AnsOk, d')))"

definition site_memberships_delete :: "time \<Rightarrow> id \<Rightarrow> string \<Rightarrow> string \<Rightarrow> accounts_db \<Rightarrow> site_answer \<times> accounts_db" where
  "site_memberships_delete now uid s raw_id d =
     (case membership_for now uid s d of
        Inl a \<Rightarrow> (a, d)
      | Inr (w, m) \<Rightarrow>
         if \<not> can_manage_members (mb_role m) then (AnsForbidden, d)
         else case parse_int64 raw_id of
             None \<Rightarrow> (AnsNotFound, d)
           | Some target \<Rightarrow>
              (case remove_membership (ws_id w) (mb_role m) target d of
                 Inl e \<Rightarrow> (answer_of e, d)
               | Inr d' \<Rightarrow> (AnsOk, d')))"

definition site_invitations_create ::
    "account_env \<Rightarrow> time \<Rightarrow> id \<Rightarrow> string \<Rightarrow> string \<Rightarrow> invitable_role \<Rightarrow> string \<Rightarrow> accounts_db \<Rightarrow> site_answer \<times> accounts_db" where
  "site_invitations_create env now uid s email role token d =
     (case membership_for now uid s d of
        Inl a \<Rightarrow> (a, d)
      | Inr (w, m) \<Rightarrow>
         if \<not> can_manage_members (mb_role m) then (AnsForbidden, d)
         else case invite (env_hash_token env) now (ws_id w) (actor_of uid d) email role uid token d of
             Inl e \<Rightarrow> (answer_of e, d)
           | Inr (_, d') \<Rightarrow> (AnsOk, d'))"

definition site_invitations_delete :: "time \<Rightarrow> id \<Rightarrow> string \<Rightarrow> string \<Rightarrow> accounts_db \<Rightarrow> site_answer \<times> accounts_db" where
  "site_invitations_delete now uid s raw_id d =
     (case membership_for now uid s d of
        Inl a \<Rightarrow> (a, d)
      | Inr (w, m) \<Rightarrow>
         if \<not> can_manage_members (mb_role m) then (AnsForbidden, d)
         else case parse_int64 raw_id of
             None \<Rightarrow> (AnsNotFound, d)
           | Some iid \<Rightarrow>
              let (found, d') = revoke_invitation (ws_id w) (actor_of uid d) iid d
              in (if found then AnsOk else AnsNotFound, d'))"

definition site_invitations_accept ::
    "account_env \<Rightarrow> time \<Rightarrow> string \<Rightarrow> string \<Rightarrow> string \<Rightarrow> accounts_db \<Rightarrow> site_answer \<times> accounts_db" where
  "site_invitations_accept env now token raw_name password d =
     (case pending_invitation (env_hash_token env) now token d of
        None \<Rightarrow> (AnsNotFound, d)
      | Some i \<Rightarrow>
         let name = trim_space raw_name in
         if \<not> exists_where (\<lambda>u. u_email u = inv_email i) (users d) \<and> (name = '''' \<or> password = '''')
         then (AnsUnprocessable, d)
         else case accept_invitation (env_hash_password env) now i name password d of
             Inl e \<Rightarrow> (AnsError, d)
           | Inr d' \<Rightarrow> (AnsOk, d'))"

text \<open>The User and the Workspace are created by separate transactions.\<close>

definition site_auth_register ::
    "account_env \<Rightarrow> time \<Rightarrow> string \<Rightarrow> string \<Rightarrow> string \<Rightarrow> string \<Rightarrow> string \<Rightarrow> accounts_db \<Rightarrow> site_answer \<times> accounts_db" where
  "site_auth_register env now raw_name raw_email password collect_key ingest_key d =
     (let name = trim_space raw_name; email = trim_space raw_email in
      if name = '''' \<or> email = '''' \<or> password = '''' then (AnsUnprocessable, d)
      else case create_user name email (env_hash_password env password) None d of
          Inl UniqueViolation \<Rightarrow> (AnsConflict, d)
        | Inl _ \<Rightarrow> (AnsError, d)
        | Inr (u, d1) \<Rightarrow>
           (case create_workspace (env_slug_make env) now (u_id u) name collect_key ingest_key d1 of
              Inl _ \<Rightarrow> (AnsError, d1)
            | Inr (_, d2) \<Rightarrow> (AnsOk, d2)))"

definition site_workspaces_update ::
    "time \<Rightarrow> id \<Rightarrow> string \<Rightarrow> string \<Rightarrow> string option \<Rightarrow> accounts_db \<Rightarrow> site_answer \<times> accounts_db" where
  "site_workspaces_update now uid s raw_name raw_postal d =
     (case membership_for now uid s d of
        Inl a \<Rightarrow> (a, d)
      | Inr (w, _) \<Rightarrow>
         let name = trim_space raw_name in
         if name = '''' then (AnsUnprocessable, d)
         else case update_workspace (ws_id w) (actor_of uid d) name (map_option trim_space raw_postal) d of
             Inl _ \<Rightarrow> (AnsError, d)
           | Inr (_, d') \<Rightarrow> (AnsOk, d'))"

definition site_workspaces_set_requirement ::
    "account_env \<Rightarrow> time \<Rightarrow> id \<Rightarrow> string \<Rightarrow> bool \<Rightarrow> accounts_db \<Rightarrow> site_answer \<times> accounts_db" where
  "site_workspaces_set_requirement env now uid s required d =
     (case (if required then membership_for now uid s d else membership_even_if_withheld uid s d) of
        Inl a \<Rightarrow> (a, d)
      | Inr (w, m) \<Rightarrow>
         if \<not> can_manage_second_factor (mb_role m) then (AnsForbidden, d)
         else case set_second_factor_requirement (env_show_time env) (ws_id w) (actor_of uid d) required now d of
             Inl _ \<Rightarrow> (AnsError, d)
           | Inr (_, _, d') \<Rightarrow> (AnsOk, d'))"

section \<open>Requests\<close>

datatype account_request =
    MembershipsUpdate string string role
  | MembershipsDelete string string
  | InvitationsCreate string string invitable_role string
  | InvitationsDelete string string
  | InvitationsAccept string string string
  | AuthRegister string string string string string
  | WorkspacesUpdate string string "string option"
  | WorkspacesSetRequirement string bool

fun handle :: "account_env \<Rightarrow> time \<Rightarrow> id \<Rightarrow> account_request \<Rightarrow> accounts_db \<Rightarrow> site_answer \<times> accounts_db" where
  "handle env now uid (MembershipsUpdate s i r) d = site_memberships_update now uid s i r d"
| "handle env now uid (MembershipsDelete s i) d = site_memberships_delete now uid s i d"
| "handle env now uid (InvitationsCreate s e r t) d = site_invitations_create env now uid s e r t d"
| "handle env now uid (InvitationsDelete s i) d = site_invitations_delete now uid s i d"
| "handle env now uid (InvitationsAccept t n p) d = site_invitations_accept env now t n p d"
| "handle env now uid (AuthRegister n e p c k) d = site_auth_register env now n e p c k d"
| "handle env now uid (WorkspacesUpdate s n p) d = site_workspaces_update now uid s n p d"
| "handle env now uid (WorkspacesSetRequirement s b) d = site_workspaces_set_requirement env now uid s b d"

fun handle_all :: "account_env \<Rightarrow> (time \<times> id \<times> account_request) list \<Rightarrow> accounts_db \<Rightarrow> accounts_db" where
  "handle_all env [] d = d"
| "handle_all env ((now, uid, req) # rest) d = handle_all env rest (snd (handle env now uid req d))"

section \<open>Keys are kept\<close>

named_theorems account_simps

lemma accounts_ok_log [simp]: "accounts_ok (log_audit e d) = accounts_ok d"
  by (simp add: accounts_ok_def)

lemma owner_rows_log [simp]: "owner_rows ws (log_audit e d) = owner_rows ws d"
  by (simp add: owner_rows_def)

lemma distinct_map_filter_where: "distinct (map f rows) \<Longrightarrow> distinct (map f (delete_where p rows))"
  by (auto simp: delete_where_def distinct_map inj_on_def)

lemma locked_target_SomeD:
  "locked_target ws target d = Some (m, n) \<Longrightarrow>
     m \<in> set (memberships d) \<and> mb_workspace m = ws \<and> mb_id m = target \<and> n = length (owner_rows ws d)"
  by (auto simp: locked_target_def split: option.splits dest!: find_where_SomeD)

lemma scope_SomeD:
  assumes "scope uid s d = Some (w, m)"
  shows "w \<in> set (tenants d)" and "m \<in> set (memberships d)" and "mb_user m = uid" and "mb_workspace m = ws_id w"
  using assms by (auto simp: scope_def tenant_by_slug_def split: option.splits dest!: find_where_SomeD)

lemma membership_for_InrD:
  assumes "membership_for now uid s d = Inr (w, m)"
  shows "w \<in> set (tenants d)" and "m \<in> set (memberships d)" and "mb_user m = uid" and "mb_workspace m = ws_id w"
  using assms scope_SomeD [of uid s d w m]
  by (auto simp: membership_for_def membership_even_if_withheld_def split: option.splits sum.splits if_splits)

text \<open>The keys alone decide: an operation that leaves them as they are keeps \<open>accounts_ok\<close>.\<close>

lemma accounts_ok_keys:
  "accounts_ok d \<longleftrightarrow>
     distinct (map u_id (users d)) \<and> distinct (map u_email (users d)) \<and>
     distinct (map mb_id (memberships d)) \<and>
     distinct (map (\<lambda>m. (mb_user m, mb_workspace m)) (memberships d)) \<and>
     distinct (map ws_id (tenants d)) \<and> distinct (map tn_slug (tenants d)) \<and>
     distinct (map inv_id (invitations d)) \<and>
     distinct (map (\<lambda>i. (inv_workspace i, inv_email i)) (invitations d)) \<and>
     (\<forall>k \<in> set (map u_id (users d)). k < fresh_id d) \<and> (\<forall>k \<in> set (map mb_id (memberships d)). k < fresh_id d) \<and>
     (\<forall>k \<in> set (map ws_id (tenants d)). k < fresh_id d) \<and> (\<forall>k \<in> set (map inv_id (invitations d)). k < fresh_id d) \<and>
     (\<forall>(u, w) \<in> set (map (\<lambda>m. (mb_user m, mb_workspace m)) (memberships d)).
        u \<in> set (map u_id (users d)) \<and> w \<in> set (map ws_id (tenants d))) \<and>
     (\<forall>(w, e) \<in> set (map (\<lambda>i. (inv_workspace i, inv_email i)) (invitations d)). w \<in> set (map ws_id (tenants d)))"
  unfolding accounts_ok_def by (simp add: image_iff eq_commute)

lemma accounts_ok_same_keys:
  assumes "accounts_ok d"
    and "map u_id (users d') = map u_id (users d)" and "map u_email (users d') = map u_email (users d)"
    and "map mb_id (memberships d') = map mb_id (memberships d)"
    and "map (\<lambda>m. (mb_user m, mb_workspace m)) (memberships d') = map (\<lambda>m. (mb_user m, mb_workspace m)) (memberships d)"
    and "map ws_id (tenants d') = map ws_id (tenants d)" and "map tn_slug (tenants d') = map tn_slug (tenants d)"
    and "map inv_id (invitations d') = map inv_id (invitations d)"
    and "map (\<lambda>i. (inv_workspace i, inv_email i)) (invitations d') = map (\<lambda>i. (inv_workspace i, inv_email i)) (invitations d)"
    and "fresh_id d' = fresh_id d"
  shows "accounts_ok d'"
  using assms(1) unfolding accounts_ok_keys assms(2-) .

lemma accounts_ok_role:
  "accounts_ok d \<Longrightarrow> accounts_ok (d\<lparr>memberships := update_where p (\<lambda>x. x\<lparr>mb_role := r\<rparr>) (memberships d)\<rparr>)"
  by (erule accounts_ok_same_keys) (simp_all add: map_update_where)

lemma accounts_ok_memberships_delete:
  "accounts_ok d \<Longrightarrow> accounts_ok (d\<lparr>memberships := delete_where p (memberships d)\<rparr>)"
  by (simp add: accounts_ok_def table_simps distinct_map_filter_where)

lemma accounts_ok_invitations_update:
  "accounts_ok d \<Longrightarrow> (\<And>i. inv_id (f i) = inv_id i \<and> inv_workspace (f i) = inv_workspace i \<and> inv_email (f i) = inv_email i) \<Longrightarrow>
     accounts_ok (d\<lparr>invitations := update_where p f (invitations d)\<rparr>)"
  by (erule accounts_ok_same_keys) (simp_all add: map_update_where)

lemma accounts_ok_invitations_delete:
  "accounts_ok d \<Longrightarrow> accounts_ok (d\<lparr>invitations := delete_where p (invitations d)\<rparr>)"
  by (simp add: accounts_ok_def table_simps distinct_map_filter_where)

lemma accounts_ok_tenants_update:
  "accounts_ok d \<Longrightarrow> (\<And>w. ws_id (f w) = ws_id w \<and> tn_slug (f w) = tn_slug w) \<Longrightarrow> accounts_ok (update_tenant ws f d)"
  by (erule accounts_ok_same_keys) (simp_all add: map_update_where update_tenant_def)

lemma create_user_InrD:
  assumes "create_user name email hash v d = Inr (u, d')"
  shows "memberships d' = memberships d" and "tenants d' = tenants d" and "invitations d' = invitations d"
    and "u_email u = email" and "u_id u = fresh_id d" and "users d' = users d @ [u]"
    and "fresh_id d' = fresh_id d + 1" and "email \<notin> u_email ` set (users d)"
  using assms by (auto simp: create_user_def Let_def table_simps split: if_splits)

lemma accounts_ok_create_user:
  assumes "accounts_ok d" and c: "create_user name email hash v d = Inr (u, d')"
  shows "accounts_ok d'"
proof -
  note f = create_user_InrD [OF c]
  have lt: "k < fresh_id d + 1" if "k < fresh_id d" for k using that by simp
  have "fresh_id d \<notin> u_id ` set (users d)" using assms(1) by (auto simp: accounts_ok_def)
  with assms(1) f show ?thesis by (auto simp: accounts_ok_def intro: lt)
qed

lemma free_slug_fresh: "free_slug taken base i \<notin> set taken"
proof (induction taken base i rule: free_slug.induct)
  case (1 taken base i)
  then show ?case by (subst free_slug.simps) simp
qed

lemma create_workspace_InrD:
  assumes "create_workspace slug_make now uid name ck ik d = Inr (w, d')"
  shows "ws_id w = fresh_id d" and "tn_slug w \<notin> tn_slug ` set (tenants d)"
    and "tenants d' = tenants d @ [w]" and "users d' = users d" and "invitations d' = invitations d"
    and "memberships d' = memberships d @ [\<lparr>mb_id = fresh_id d + 1, mb_workspace = fresh_id d, mb_user = uid,
           mb_role = RoleOwner, mb_created_at = now\<rparr>]"
    and "fresh_id d' = fresh_id d + 2"
proof -
  let ?s = "\<lambda>base. free_slug (map tn_slug (tenants d)) base 0"
  have "?s base \<notin> tn_slug ` set (tenants d)" for base
    using free_slug_fresh [of "map tn_slug (tenants d)" base 0] by simp
  moreover have "\<exists>base. tn_slug w = ?s base"
    using assms by (auto simp: create_workspace_def Let_def split: if_splits)
  ultimately show "tn_slug w \<notin> tn_slug ` set (tenants d)" by metis
qed (use assms in \<open>auto simp: create_workspace_def Let_def split: if_splits\<close>)

lemma fresh_ids:
  assumes "accounts_ok d"
  shows "fresh_id d \<notin> u_id ` set (users d)" and "fresh_id d + n \<notin> mb_id ` set (memberships d) \<or> n < 0"
    and "fresh_id d \<notin> ws_id ` set (tenants d)" and "fresh_id d \<notin> inv_id ` set (invitations d)"
    and "fresh_id d \<notin> mb_workspace ` set (memberships d)" and "fresh_id d \<notin> mb_user ` set (memberships d)"
  using assms by (force simp: accounts_ok_def)+

lemma fresh_le:
  assumes "accounts_ok d"
  shows "\<forall>u \<in> set (users d). u_id u \<le> fresh_id d" and "\<forall>m \<in> set (memberships d). mb_id m \<le> fresh_id d"
    and "\<forall>w \<in> set (tenants d). ws_id w \<le> fresh_id d" and "\<forall>i \<in> set (invitations d). inv_id i \<le> fresh_id d"
  using assms by (force simp: accounts_ok_def)+

lemma accounts_ok_create_workspace:
  assumes "accounts_ok d" and c: "create_workspace slug_make now uid name ck ik d = Inr (w, d')"
    and "uid \<in> u_id ` set (users d)"
  shows "accounts_ok d'"
proof -
  note f = create_workspace_InrD [OF c]
  have lt: "k < fresh_id d + 2" if "k < fresh_id d" for k using that by simp
  have "fresh_id d + 1 \<notin> mb_id ` set (memberships d)" using fresh_ids(2) [OF assms(1), of 1] by simp
  with assms(1,3) f fresh_ids(3,5) [OF assms(1)] show ?thesis
    by (auto simp: accounts_ok_def intro: lt)
qed

text \<open>What a successful acceptance did.\<close>

lemma accept_invitation_InrD:
  assumes "accept_invitation hash_password now i name password d = Inr d'"
  obtains u d1 where "(user_by_email (inv_email i) d = Some u \<and> d1 = d) \<or>
      create_user name (inv_email i) (hash_password password) (Some now) d = Inr (u, d1)"
    and "(u_id u, inv_workspace i) \<notin> (\<lambda>m. (mb_user m, mb_workspace m)) ` set (memberships d1)"
    and "users d' = users d1" and "tenants d' = tenants d1"
    and "memberships d' = memberships d1 @ [\<lparr>mb_id = fresh_id d1, mb_workspace = inv_workspace i, mb_user = u_id u,
           mb_role = membership_role (inv_role i), mb_created_at = now\<rparr>]"
    and "invitations d' = update_where (\<lambda>x. inv_workspace x = inv_workspace i \<and> inv_id x = inv_id i)
           (\<lambda>x. x\<lparr>inv_accepted_at := Some now\<rparr>) (invitations d1)"
    and "fresh_id d' = fresh_id d1 + 1"
proof -
  obtain u d1 where found: "(case user_by_email (inv_email i) d of Some u \<Rightarrow> Inr (u, d)
      | None \<Rightarrow> create_user name (inv_email i) (hash_password password) (Some now) d) = Inr (u, d1)"
    using assms by (auto simp: accept_invitation_def Let_def split: sum.splits)
  with assms have d': "\<not> exists_where (\<lambda>m. mb_user m = u_id u \<and> mb_workspace m = inv_workspace i) (memberships d1)"
    "d' = log_audit (invitation_audit (user_actor u) ''invitation.accept'' (inv_workspace i) i (role_to (inv_role i)))
       (d1\<lparr>memberships := memberships d1 @ [\<lparr>mb_id = fresh_id d1, mb_workspace = inv_workspace i,
              mb_user = u_id u, mb_role = membership_role (inv_role i), mb_created_at = now\<rparr>],
            fresh_id := fresh_id d1 + 1,
            invitations := update_where (\<lambda>x. inv_workspace x = inv_workspace i \<and> inv_id x = inv_id i)
              (\<lambda>x. x\<lparr>inv_accepted_at := Some now\<rparr>) (invitations d1)\<rparr>)"
    by (auto simp: accept_invitation_def Let_def split: if_splits)
  show thesis
  proof (rule that)
    show "(user_by_email (inv_email i) d = Some u \<and> d1 = d) \<or>
        create_user name (inv_email i) (hash_password password) (Some now) d = Inr (u, d1)"
      using found by (auto split: option.splits)
    show "(u_id u, inv_workspace i) \<notin> (\<lambda>m. (mb_user m, mb_workspace m)) ` set (memberships d1)"
      using d'(1) by (auto simp: table_simps)
  qed (simp_all add: d'(2))
qed

lemma accounts_ok_accept:
  assumes ok: "accounts_ok d" and a: "accept_invitation hash_password now i name password d = Inr d'"
    and ws: "inv_workspace i \<in> ws_id ` set (tenants d)"
  shows "accounts_ok d'"
  using a
proof (rule accept_invitation_InrD)
  fix u d1
  assume src: "(user_by_email (inv_email i) d = Some u \<and> d1 = d) \<or>
      create_user name (inv_email i) (hash_password password) (Some now) d = Inr (u, d1)"
    and new: "(u_id u, inv_workspace i) \<notin> (\<lambda>m. (mb_user m, mb_workspace m)) ` set (memberships d1)"
    and d': "users d' = users d1" "tenants d' = tenants d1"
      "memberships d' = memberships d1 @ [\<lparr>mb_id = fresh_id d1, mb_workspace = inv_workspace i, mb_user = u_id u,
           mb_role = membership_role (inv_role i), mb_created_at = now\<rparr>]"
      "invitations d' = update_where (\<lambda>x. inv_workspace x = inv_workspace i \<and> inv_id x = inv_id i)
           (\<lambda>x. x\<lparr>inv_accepted_at := Some now\<rparr>) (invitations d1)"
      "fresh_id d' = fresh_id d1 + 1"
  have ok1: "accounts_ok d1" and u: "u_id u \<in> u_id ` set (users d1)" and t: "tenants d1 = tenants d"
    using src ok accounts_ok_create_user create_user_InrD
    by (auto simp: user_by_email_def dest!: find_where_SomeD)
  have "fresh_id d1 \<notin> mb_id ` set (memberships d1)" using fresh_ids(2) [OF ok1, of 0] by simp
  then have "accounts_ok (d'\<lparr>invitations := invitations d1\<rparr>)"
    using ok1 u new ws d' fresh_le [OF ok1] unfolding accounts_ok_keys by (auto simp: t)
  then show ?thesis
    by (rule accounts_ok_same_keys) (simp_all add: d' map_update_where)
qed

lemma accounts_ok_invite:
  assumes ok: "accounts_ok d" and c: "invite hash_token now ws actor email role by' token d = Inr (i, d')"
    and "\<exists>w \<in> set (tenants d). ws_id w = ws"
  shows "accounts_ok d'"
proof -
  show ?thesis
  proof (cases "find_where (\<lambda>i. inv_workspace i = ws \<and> inv_email i = trim_space email) (invitations d)")
    case None
    then have "(ws, trim_space email) \<notin> (\<lambda>i. (inv_workspace i, inv_email i)) ` set (invitations d)"
      by (auto simp: table_simps)
    with None c ok fresh_ids(4) [OF ok] fresh_le [OF ok] assms(3) show ?thesis
      by (auto simp: invite_def Let_def accounts_ok_def split: if_splits; blast)
  next
    case (Some old)
    with c ok show ?thesis
      by (auto simp: invite_def Let_def intro!: accounts_ok_invitations_update split: if_splits)
  qed
qed

section \<open>The roster\<close>

text \<open>
  The contract of the Memberships of all Workspaces, as a step relation over the Workspace ids and the
  Membership rows. \<open>uid\<close> is the User acting and \<open>invited\<close> the Workspaces whose Invitation the
  request presents.
\<close>

type_synonym roster = "id list \<times> membership list"

inductive roster_step :: "id \<Rightarrow> (id \<Rightarrow> bool) \<Rightarrow> roster \<Rightarrow> roster \<Rightarrow> bool" for uid invited where
  keep: "roster_step uid invited r r"
| change: "roster_step uid invited (wss, ms) (wss, update_where (\<lambda>x. mb_id x = mb_id t) (\<lambda>x. x\<lparr>mb_role := r\<rparr>) ms)"
    if "m \<in> set ms" and "mb_user m = uid" and "mb_workspace m = mb_workspace t" and "can_manage_members (mb_role m)"
      and "t \<in> set ms" and "mb_role m = RoleOwner \<or> (r \<noteq> RoleOwner \<and> mb_role t \<noteq> RoleOwner)"
      and "r = RoleOwner \<or> mb_role t \<noteq> RoleOwner \<or>
        (\<exists>k \<in> set ms. mb_workspace k = mb_workspace t \<and> mb_role k = RoleOwner \<and> mb_id k \<noteq> mb_id t)"
| remove: "roster_step uid invited (wss, ms) (wss, delete_where (\<lambda>x. mb_id x = mb_id t) ms)"
    if "m \<in> set ms" and "mb_user m = uid" and "mb_workspace m = mb_workspace t" and "can_manage_members (mb_role m)"
      and "t \<in> set ms" and "mb_role m = RoleOwner \<or> mb_role t \<noteq> RoleOwner"
      and "mb_role t \<noteq> RoleOwner \<or>
        (\<exists>k \<in> set ms. mb_workspace k = mb_workspace t \<and> mb_role k = RoleOwner \<and> mb_id k \<noteq> mb_id t)"
| join: "roster_step uid invited (wss, ms) (wss, ms @ [n])"
    if "invited (mb_workspace n)" and "mb_role n \<noteq> RoleOwner" and "mb_workspace n \<in> set wss"
| found: "roster_step uid invited (wss, ms) (wss @ [mb_workspace n], ms @ [n])"
    if "mb_role n = RoleOwner" and "mb_workspace n \<notin> set wss"

definition roster :: "accounts_db \<Rightarrow> roster" where
  "roster d = (map ws_id (tenants d), memberships d)"

lemma roster_log [simp]: "roster (log_audit e d) = roster d"
  by (simp add: roster_def)

definition presents :: "account_env \<Rightarrow> time \<Rightarrow> account_request \<Rightarrow> accounts_db \<Rightarrow> id \<Rightarrow> bool" where
  "presents env now req d ws \<longleftrightarrow>
     (case req of
        InvitationsAccept token _ _ \<Rightarrow>
          (case pending_invitation (env_hash_token env) now token d of
             None \<Rightarrow> False | Some i \<Rightarrow> inv_workspace i = ws)
      | _ \<Rightarrow> False)"

lemma two_owners:
  assumes "\<not> length (owner_rows ws d) \<le> 1" and "distinct (map mb_id (memberships d))"
  shows "\<exists>k \<in> set (memberships d). mb_workspace k = ws \<and> mb_role k = RoleOwner \<and> mb_id k \<noteq> a"
proof -
  obtain x y zs where xy: "owner_rows ws d = x # y # zs"
    using assms(1) by (cases "owner_rows ws d" rule: list.exhaust; cases "tl (owner_rows ws d)") auto
  have "distinct (map mb_id (owner_rows ws d))"
    using assms(2) by (simp add: owner_rows_def distinct_map_filter)
  then have "mb_id x \<noteq> mb_id y" using xy by simp
  moreover have "x \<in> set (owner_rows ws d)" "y \<in> set (owner_rows ws d)" using xy by simp_all
  ultimately show ?thesis by (auto simp: owner_rows_def)
qed

lemma check_owner_change_None:
  assumes "check_owner_change caller t (length (owner_rows ws d)) desired = None"
    and "distinct (map mb_id (memberships d))" and "mb_workspace t = ws"
  shows "caller = RoleOwner \<or> (desired \<noteq> Some RoleOwner \<and> mb_role t \<noteq> RoleOwner)"
    and "desired = Some RoleOwner \<or> mb_role t \<noteq> RoleOwner \<or>
      (\<exists>k \<in> set (memberships d). mb_workspace k = mb_workspace t \<and> mb_role k = RoleOwner \<and> mb_id k \<noteq> mb_id t)"
  using assms two_owners [of ws d "mb_id t"] by (auto simp: check_owner_change_def split: if_splits)

lemma same_target:
  assumes "distinct (map mb_id ms)" and "t \<in> set ms"
  shows "update_where (\<lambda>x. mb_workspace x = mb_workspace t \<and> mb_id x = mb_id t) f ms = update_where (\<lambda>x. mb_id x = mb_id t) f ms"
    and "delete_where (\<lambda>x. mb_workspace x = mb_workspace t \<and> mb_id x = mb_id t) ms = delete_where (\<lambda>x. mb_id x = mb_id t) ms"
proof -
  have "mb_workspace x = mb_workspace t \<and> mb_id x = mb_id t \<longleftrightarrow> mb_id x = mb_id t" if "x \<in> set ms" for x
    using assms that by (auto simp: distinct_map inj_on_def)
  then show "update_where (\<lambda>x. mb_workspace x = mb_workspace t \<and> mb_id x = mb_id t) f ms = update_where (\<lambda>x. mb_id x = mb_id t) f ms"
    and "delete_where (\<lambda>x. mb_workspace x = mb_workspace t \<and> mb_id x = mb_id t) ms = delete_where (\<lambda>x. mb_id x = mb_id t) ms"
    by (simp_all add: update_where_def delete_where_def cong: map_cong filter_cong)
qed

lemma change_role_step:
  assumes ok: "accounts_ok d" and m: "m \<in> set (memberships d)" "mb_user m = uid" "mb_workspace m = ws"
    and mgr: "can_manage_members (mb_role m)"
    and c: "change_membership_role ws actor (mb_role m) target desired d = Inr (t', d')"
  shows "roster_step uid invited (roster d) (roster d')"
proof -
  have dist: "distinct (map mb_id (memberships d))" using ok by (simp add: accounts_ok_def)
  obtain t where lt: "locked_target ws target d = Some (t, length (owner_rows ws d))"
    and chk: "check_owner_change (mb_role m) t (length (owner_rows ws d)) (Some desired) = None"
    using c by (auto simp: change_membership_role_def split: option.splits dest: locked_target_SomeD)
  then have t: "t \<in> set (memberships d)" "mb_workspace t = ws" "mb_id t = target"
    by (auto dest: locked_target_SomeD)
  have d': "roster d' = (map ws_id (tenants d), update_where (\<lambda>x. mb_id x = mb_id t) (\<lambda>x. x\<lparr>mb_role := desired\<rparr>) (memberships d))"
    using c lt chk same_target(1) [OF dist t(1)] t(2)
    by (auto simp: change_membership_role_def roster_def)
  have "roster_step uid invited (map ws_id (tenants d), memberships d)
      (map ws_id (tenants d), update_where (\<lambda>x. mb_id x = mb_id t) (\<lambda>x. x\<lparr>mb_role := desired\<rparr>) (memberships d))"
    using check_owner_change_None [OF chk dist t(2)] m mgr t
    by (intro roster_step.change [where m = m]) auto
  then show ?thesis unfolding d' by (simp add: roster_def)
qed

lemma remove_step:
  assumes ok: "accounts_ok d" and m: "m \<in> set (memberships d)" "mb_user m = uid" "mb_workspace m = ws"
    and mgr: "can_manage_members (mb_role m)"
    and c: "remove_membership ws (mb_role m) target d = Inr d'"
  shows "roster_step uid invited (roster d) (roster d')"
proof -
  have dist: "distinct (map mb_id (memberships d))" using ok by (simp add: accounts_ok_def)
  obtain t where lt: "locked_target ws target d = Some (t, length (owner_rows ws d))"
    and chk: "check_owner_change (mb_role m) t (length (owner_rows ws d)) None = None"
    using c by (auto simp: remove_membership_def split: option.splits dest: locked_target_SomeD)
  then have t: "t \<in> set (memberships d)" "mb_workspace t = ws" "mb_id t = target"
    by (auto dest: locked_target_SomeD)
  have d': "roster d' = (map ws_id (tenants d), delete_where (\<lambda>x. mb_id x = mb_id t) (memberships d))"
    using c lt chk same_target(2) [OF dist t(1)] t(2)
    by (auto simp: remove_membership_def roster_def)
  have "roster_step uid invited (map ws_id (tenants d), memberships d)
      (map ws_id (tenants d), delete_where (\<lambda>x. mb_id x = mb_id t) (memberships d))"
    using check_owner_change_None [OF chk dist t(2)] m mgr t
    by (intro roster_step.remove [where m = m]) auto
  then show ?thesis unfolding d' by (simp add: roster_def)
qed

lemma roster_keep: "roster d' = roster d \<Longrightarrow> roster_step uid invited (roster d) (roster d')"
  by (simp add: roster_step.keep)

lemma roster_update_tenant:
  "(\<And>w. ws_id (f w) = ws_id w) \<Longrightarrow> roster (update_tenant ws f d) = roster d"
  by (simp add: roster_def update_tenant_def map_update_where)

lemma roster_update_workspace: "update_workspace ws actor name postal d = Inr (w, d') \<Longrightarrow> roster d' = roster d"
  by (auto simp: update_workspace_def Let_def roster_update_tenant split: option.splits if_splits)

lemma roster_set_requirement:
  "set_second_factor_requirement show_time ws actor b now d = Inr (w, on, d') \<Longrightarrow> roster d' = roster d"
  by (auto simp: set_second_factor_requirement_def Let_def roster_update_tenant split: option.splits if_splits)

lemma roster_invite: "invite hash_token now ws actor email role by' token d = Inr (i, d') \<Longrightarrow> roster d' = roster d"
  by (auto simp: invite_def Let_def roster_def split: option.splits if_splits)

lemma roster_revoke: "revoke_invitation ws actor iid d = (b, d') \<Longrightarrow> roster d' = roster d"
  by (auto simp: revoke_invitation_def roster_def split: option.splits)

lemma pending_invitation_SomeD:
  "pending_invitation h now token d = Some i \<Longrightarrow>
     i \<in> set (invitations d) \<and> inv_token_hash i = h token \<and> inv_accepted_at i = None \<and> now < inv_expires_at i"
  by (auto simp: pending_invitation_def dest!: find_where_SomeD)

lemma pending_workspace:
  assumes "accounts_ok d" and "pending_invitation h now token d = Some i"
  shows "inv_workspace i \<in> ws_id ` set (tenants d)"
proof -
  have "\<forall>i \<in> set (invitations d). \<exists>w \<in> set (tenants d). ws_id w = inv_workspace i"
    using assms(1) by (simp add: accounts_ok_def)
  with pending_invitation_SomeD [OF assms(2)] obtain w where "w \<in> set (tenants d)" "ws_id w = inv_workspace i" by blast
  then show ?thesis by (metis image_eqI)
qed

lemma accept_step:
  assumes "accept_invitation hash_password now i name password d = Inr d'"
    and "invited (inv_workspace i)" and "inv_workspace i \<in> ws_id ` set (tenants d)"
  shows "roster_step uid invited (roster d) (roster d')"
  using assms(1)
proof (rule accept_invitation_InrD)
  fix u d1
  assume src: "(user_by_email (inv_email i) d = Some u \<and> d1 = d) \<or>
      create_user name (inv_email i) (hash_password password) (Some now) d = Inr (u, d1)"
    and t: "tenants d' = tenants d1"
    and m: "memberships d' = memberships d1 @ [\<lparr>mb_id = fresh_id d1, mb_workspace = inv_workspace i, mb_user = u_id u,
           mb_role = membership_role (inv_role i), mb_created_at = now\<rparr>]"
  have "tenants d1 = tenants d" "memberships d1 = memberships d"
    using src create_user_InrD(1,2) by auto
  moreover have "membership_role (inv_role i) \<noteq> RoleOwner"
    by (simp add: membership_role_def split: invitable_role.split)
  ultimately show ?thesis
    using assms(2,3) t m by (auto simp: roster_def intro!: roster_step.join)
qed

lemma register_step:
  assumes "accounts_ok d"
  shows "roster_step uid invited (roster d) (roster (snd (site_auth_register env now n e p ck ik d)))"
proof (cases "create_user (trim_space n) (trim_space e) (env_hash_password env p) None d")
  case (Inl err)
  then show ?thesis by (cases err) (auto simp: site_auth_register_def Let_def roster_step.keep)
next
  case (Inr r)
  then obtain u d1 where c: "create_user (trim_space n) (trim_space e) (env_hash_password env p) None d = Inr (u, d1)"
    by (cases r) auto
  note f = create_user_InrD [OF c]
  show ?thesis
  proof (cases "create_workspace (env_slug_make env) now (u_id u) (trim_space n) ck ik d1")
    case (Inl err)
    with c f show ?thesis by (auto simp: site_auth_register_def Let_def roster_def intro: roster_step.keep)
  next
    case (Inr r2)
    then obtain w d2 where w: "create_workspace (env_slug_make env) now (u_id u) (trim_space n) ck ik d1 = Inr (w, d2)"
      by (cases r2) auto
    note g = create_workspace_InrD [OF w]
    let ?n = "\<lparr>mb_id = fresh_id d1 + 1, mb_workspace = fresh_id d1, mb_user = u_id u, mb_role = RoleOwner, mb_created_at = now\<rparr>"
    have "fresh_id d1 \<notin> ws_id ` set (tenants d1)"
      by (rule fresh_ids(3) [OF accounts_ok_create_user [OF assms c]])
    then have "roster_step uid invited (map ws_id (tenants d), memberships d)
        (map ws_id (tenants d) @ [mb_workspace ?n], memberships d @ [?n])"
      using f by (intro roster_step.found) simp_all
    then show ?thesis
      using c w f g
      by (auto simp: site_auth_register_def Let_def roster_def intro: roster_step.keep)
  qed
qed

lemma accounts_ok_register:
  assumes "accounts_ok d"
  shows "accounts_ok (snd (site_auth_register env now n e p ck ik d))"
proof (cases "create_user (trim_space n) (trim_space e) (env_hash_password env p) None d")
  case (Inl err)
  then show ?thesis using assms by (cases err) (auto simp: site_auth_register_def Let_def)
next
  case (Inr r)
  then obtain u d1 where c: "create_user (trim_space n) (trim_space e) (env_hash_password env p) None d = Inr (u, d1)"
    by (cases r) auto
  have ok1: "accounts_ok d1" by (rule accounts_ok_create_user [OF assms c])
  have u: "u_id u \<in> u_id ` set (users d1)" using create_user_InrD(6) [OF c] by simp
  show ?thesis
  proof (cases "create_workspace (env_slug_make env) now (u_id u) (trim_space n) ck ik d1")
    case (Inl err)
    with c ok1 assms show ?thesis by (simp add: site_auth_register_def Let_def)
  next
    case (Inr r2)
    then obtain w d2 where w: "create_workspace (env_slug_make env) now (u_id u) (trim_space n) ck ik d1 = Inr (w, d2)"
      by (cases r2) auto
    with c assms accounts_ok_create_workspace [OF ok1 w u] show ?thesis by (simp add: site_auth_register_def Let_def)
  qed
qed

lemma handle_keeps_keys:
  assumes ok: "accounts_ok d"
  shows "accounts_ok (snd (handle env now uid req d))"
proof (cases req)
  case (MembershipsUpdate s i r)
  then show ?thesis
    using ok by (auto simp: site_memberships_update_def change_membership_role_def intro: accounts_ok_role
        split: sum.splits option.splits)
next
  case (MembershipsDelete s i)
  then show ?thesis
    using ok by (auto simp: site_memberships_delete_def remove_membership_def intro: accounts_ok_memberships_delete
        split: sum.splits option.splits)
next
  case (InvitationsCreate s e r t)
  then show ?thesis
    using ok by (auto simp: site_invitations_create_def split: sum.splits dest!: membership_for_InrD(1) intro: accounts_ok_invite)
next
  case (InvitationsDelete s i)
  then show ?thesis
    using ok by (auto simp: site_invitations_delete_def revoke_invitation_def intro: accounts_ok_invitations_delete
        split: sum.splits option.splits)
next
  case (InvitationsAccept t n p)
  then show ?thesis
    using ok by (auto simp: site_invitations_accept_def Let_def split: sum.splits option.splits
        intro!: accounts_ok_accept [OF ok] dest: pending_workspace)
next
  case (AuthRegister n e p ck ik)
  then show ?thesis using accounts_ok_register [OF ok] by simp
next
  case (WorkspacesUpdate s n p)
  then show ?thesis
    using ok by (auto simp: site_workspaces_update_def update_workspace_def Let_def intro!: accounts_ok_tenants_update
        split: sum.splits option.splits)
next
  case (WorkspacesSetRequirement s b)
  then show ?thesis
    using ok by (auto simp: site_workspaces_set_requirement_def set_second_factor_requirement_def Let_def
        intro!: accounts_ok_tenants_update split: sum.splits option.splits)
qed

lemma handle_roster_step:
  assumes ok: "accounts_ok d"
  shows "roster_step uid (presents env now req d) (roster d) (roster (snd (handle env now uid req d)))"
proof (cases req)
  case (MembershipsUpdate s i r)
  show ?thesis
  proof (cases "membership_for now uid s d")
    case (Inr wm)
    obtain w m where wm: "membership_for now uid s d = Inr (w, m)" using Inr by (cases wm) auto
    note f = membership_for_InrD [OF wm]
    show ?thesis
      using MembershipsUpdate wm change_role_step [OF ok f(2,3,4)]
      by (auto simp: site_memberships_update_def roster_step.keep split: option.splits sum.splits prod.splits)
  qed (simp add: MembershipsUpdate site_memberships_update_def roster_step.keep)
next
  case (MembershipsDelete s i)
  show ?thesis
  proof (cases "membership_for now uid s d")
    case (Inr wm)
    obtain w m where wm: "membership_for now uid s d = Inr (w, m)" using Inr by (cases wm) auto
    note f = membership_for_InrD [OF wm]
    show ?thesis
      using MembershipsDelete wm remove_step [OF ok f(2,3,4)]
      by (auto simp: site_memberships_delete_def roster_step.keep split: option.splits sum.splits)
  qed (simp add: MembershipsDelete site_memberships_delete_def roster_step.keep)
next
  case (InvitationsCreate s e r t)
  then show ?thesis
    by (intro roster_keep) (auto simp: site_invitations_create_def dest: roster_invite split: sum.splits prod.splits)
next
  case (InvitationsDelete s i)
  then show ?thesis
    by (intro roster_keep)
       (auto simp: site_invitations_delete_def dest: roster_revoke split: sum.splits prod.splits option.splits)
next
  case (InvitationsAccept t n p)
  show ?thesis
  proof (cases "pending_invitation (env_hash_token env) now t d")
    case (Some i)
    then have inv: "presents env now req d (inv_workspace i)" by (simp add: InvitationsAccept presents_def)
    show ?thesis
    proof (cases "accept_invitation (env_hash_password env) now i (trim_space n) p d")
      case (Inr d')
      from accept_step [where invited = "presents env now req d", OF this inv pending_workspace [OF ok Some]] Inr Some show ?thesis
        by (simp add: InvitationsAccept site_invitations_accept_def Let_def roster_step.keep)
    qed (use Some in \<open>simp add: InvitationsAccept site_invitations_accept_def Let_def roster_step.keep\<close>)
  qed (simp add: InvitationsAccept site_invitations_accept_def roster_step.keep)
next
  case (AuthRegister n e p ck ik)
  then show ?thesis using register_step [OF ok] by simp
next
  case (WorkspacesUpdate s n p)
  then show ?thesis
    by (intro roster_keep) (auto simp: site_workspaces_update_def Let_def dest: roster_update_workspace split: sum.splits prod.splits)
next
  case (WorkspacesSetRequirement s b)
  then show ?thesis
    by (intro roster_keep)
       (auto simp: site_workspaces_set_requirement_def dest: roster_set_requirement split: sum.splits prod.splits)
qed

section \<open>The Owner invariants\<close>

definition has_owner :: "id \<Rightarrow> roster \<Rightarrow> bool" where
  "has_owner ws r \<longleftrightarrow> (\<exists>m \<in> set (snd r). mb_workspace m = ws \<and> mb_role m = RoleOwner)"

definition owned :: "accounts_db \<Rightarrow> bool" where
  "owned d \<longleftrightarrow> (\<forall>ws \<in> set (map ws_id (tenants d)). has_owner ws (roster d))"

lemma roster_step_keeps_owner:
  assumes "roster_step uid invited r r'" and "distinct (map mb_id (snd r))" and "has_owner ws r"
  shows "has_owner ws r'"
  using assms
proof (induction rule: roster_step.induct)
  case (change m ms t q wss)
  show ?case
  proof (cases "ws = mb_workspace t")
    case True
    consider "q = RoleOwner" | "mb_role t \<noteq> RoleOwner"
      | k where "k \<in> set ms" "mb_workspace k = mb_workspace t" "mb_role k = RoleOwner" "mb_id k \<noteq> mb_id t"
      using change.hyps by blast
    then show ?thesis
    proof cases
      case 1
      then have "t\<lparr>mb_role := RoleOwner\<rparr> \<in> set (update_where (\<lambda>x. mb_id x = mb_id t) (\<lambda>x. x\<lparr>mb_role := q\<rparr>) ms)"
        using change.hyps(5) by (auto simp: update_where_def image_iff intro!: bexI [of _ t])
      then show ?thesis by (auto simp: has_owner_def True intro!: bexI [of _ "t\<lparr>mb_role := RoleOwner\<rparr>"])
    next
      case 2
      obtain o' where o': "o' \<in> set ms" "mb_workspace o' = ws" "mb_role o' = RoleOwner"
        using change.prems by (auto simp: has_owner_def)
      then have "mb_id o' \<noteq> mb_id t"
        using 2 change.hyps(5) change.prems by (auto simp: distinct_map inj_on_def)
      with o' show ?thesis by (auto simp: has_owner_def update_where_def image_iff intro!: bexI [of _ o'])
    next
      case 3
      then show ?thesis by (auto simp: has_owner_def True update_where_def image_iff intro!: bexI [of _ k])
    qed
  next
    case False
    obtain o' where o': "o' \<in> set ms" "mb_workspace o' = ws" "mb_role o' = RoleOwner"
      using change.prems by (auto simp: has_owner_def)
    then have "mb_id o' \<noteq> mb_id t"
      using False change.hyps(5) change.prems by (auto simp: distinct_map inj_on_def)
    with o' show ?thesis by (auto simp: has_owner_def update_where_def image_iff intro!: bexI [of _ o'])
  qed
next
  case (remove m ms t wss)
  obtain o' where o': "o' \<in> set ms" "mb_workspace o' = ws" "mb_role o' = RoleOwner"
    using remove.prems by (auto simp: has_owner_def)
  have inj: "x = t" if "x \<in> set ms" "mb_id x = mb_id t" for x
    using that remove.hyps(5) remove.prems by (auto simp: distinct_map inj_on_def)
  show ?case
  proof (cases "o' = t")
    case True
    with remove.hyps(7) o' show ?thesis by (auto simp: has_owner_def table_simps)
  next
    case False
    with o' inj show ?thesis by (auto simp: has_owner_def table_simps)
  qed
qed (auto simp: has_owner_def)

lemma roster_step_tenants:
  assumes "roster_step uid invited r r'" and "ws \<in> set (fst r')" and "ws \<notin> set (fst r)"
  shows "has_owner ws r'"
  using assms by (induction rule: roster_step.induct) (auto simp: has_owner_def)

lemma handle_keeps_owned:
  assumes "accounts_ok d" and "owned d"
  shows "owned (snd (handle env now uid req d))"
proof -
  let ?d' = "snd (handle env now uid req d)"
  note step = handle_roster_step [OF assms(1), of uid env now req]
  have dist: "distinct (map mb_id (snd (roster d)))" using assms(1) by (simp add: accounts_ok_def roster_def)
  have "has_owner ws (roster ?d')" if "ws \<in> set (fst (roster ?d'))" for ws
  proof (cases "ws \<in> set (fst (roster d))")
    case True
    with assms(2) have "has_owner ws (roster d)" by (auto simp: owned_def roster_def)
    then show ?thesis by (rule roster_step_keeps_owner [OF step dist])
  next
    case False
    with that roster_step_tenants [OF step] show ?thesis by simp
  qed
  then show ?thesis by (simp add: owned_def roster_def)
qed



definition owner_ids :: "id \<Rightarrow> accounts_db \<Rightarrow> id set" where
  "owner_ids ws d = mb_user ` {m \<in> set (memberships d). mb_workspace m = ws \<and> mb_role m = RoleOwner}"

lemma owner_ids_roster: "owner_ids ws d = mb_user ` {m \<in> set (snd (roster d)). mb_workspace m = ws \<and> mb_role m = RoleOwner}"
  by (simp add: owner_ids_def roster_def)

lemma roster_step_by_others:
  assumes "roster_step uid invited r r'" and "distinct (map mb_id (snd r))"
    and "uid \<notin> mb_user ` {m \<in> set (snd r). mb_workspace m = ws \<and> mb_role m = RoleOwner}" and "ws \<in> set (fst r)"
  shows "mb_user ` {m \<in> set (snd r'). mb_workspace m = ws \<and> mb_role m = RoleOwner} =
    mb_user ` {m \<in> set (snd r). mb_workspace m = ws \<and> mb_role m = RoleOwner}"
  using assms
proof (induction rule: roster_step.induct)
  case (change m ms t q wss)
  have t: "x = t" if "x \<in> set ms" "mb_id x = mb_id t" for x
    using that change.hyps(5) change.prems(1) by (auto simp: distinct_map inj_on_def)
  have "{x \<in> set (update_where (\<lambda>x. mb_id x = mb_id t) (\<lambda>x. x\<lparr>mb_role := q\<rparr>) ms). mb_workspace x = ws \<and> mb_role x = RoleOwner}
      = {x \<in> set ms. mb_workspace x = ws \<and> mb_role x = RoleOwner}"
  proof (cases "mb_workspace t = ws")
    case True
    then have "mb_role m \<noteq> RoleOwner" using change.prems(2) change.hyps(1-3) by auto
    with change.hyps(6) have "q \<noteq> RoleOwner" "mb_role t \<noteq> RoleOwner" by auto
    then show ?thesis using t by (auto simp: update_where_def)
  next
    case False
    then show ?thesis by (auto simp: update_where_def image_iff dest: t)
  qed
  then show ?case by simp
next
  case (remove m ms t wss)
  have t: "x = t" if "x \<in> set ms" "mb_id x = mb_id t" for x
    using that remove.hyps(5) remove.prems(1) by (auto simp: distinct_map inj_on_def)
  have "mb_workspace t = ws \<Longrightarrow> mb_role t \<noteq> RoleOwner"
    using remove.prems(2) remove.hyps(1-3,6) by auto
  then have "{x \<in> set (delete_where (\<lambda>x. mb_id x = mb_id t) ms). mb_workspace x = ws \<and> mb_role x = RoleOwner}
      = {x \<in> set ms. mb_workspace x = ws \<and> mb_role x = RoleOwner}"
    using t by (auto simp: table_simps)
  then show ?case by simp
next
  case (join n wss ms)
  then have "{x \<in> set (ms @ [n]). mb_workspace x = ws \<and> mb_role x = RoleOwner} =
      {x \<in> set ms. mb_workspace x = ws \<and> mb_role x = RoleOwner}" by auto
  then show ?case by simp
next
  case (found n wss ms)
  then have "{x \<in> set (ms @ [n]). mb_workspace x = ws \<and> mb_role x = RoleOwner} =
      {x \<in> set ms. mb_workspace x = ws \<and> mb_role x = RoleOwner}" by auto
  then show ?case by simp
qed simp

text \<open>Only an owner grants or takes away the owner role: a request by a User who is not an
  owner of a Workspace leaves that Workspace's set of owners exactly as it is.\<close>

theorem owners_change_by_owners:
  assumes "accounts_ok d" and "ws \<in> set (map ws_id (tenants d))" and "uid \<notin> owner_ids ws d"
  shows "owner_ids ws (snd (handle env now uid req d)) = owner_ids ws d"
  unfolding owner_ids_roster
  by (rule roster_step_by_others [OF handle_roster_step [OF assms(1)]])
     (use assms in \<open>auto simp: accounts_ok_def roster_def owner_ids_def\<close>)

section \<open>Invitations\<close>

text \<open>A duplicate Membership does not pass: the unique violation aborts the transaction, so the
  acceptance fails however often it is tried and the Invitation stays pending.\<close>

lemma user_by_email_unique:
  assumes "accounts_ok d" and "u \<in> set (users d)"
  shows "user_by_email (u_email u) d = Some u"
  unfolding user_by_email_def
  by (rule find_where_eq [where g = u_email]) (use assms in \<open>auto simp: accounts_ok_def\<close>)

text \<open>Accepting an Invitation to a Workspace the User already belongs to fails and changes
  nothing, however the Invitation came to be pending (the User changed their login email to the invited
  address, or two requests race): the ignored unique violation has aborted the transaction, although the
  code means a duplicate to be no error.\<close>

theorem accepting_member_fails:
  assumes "accounts_ok d" and "pending_invitation (env_hash_token env) now token d = Some i"
    and "u \<in> set (users d)" and "u_email u = inv_email i"
    and "m \<in> set (memberships d)" and "mb_user m = u_id u" and "mb_workspace m = inv_workspace i"
  shows "site_invitations_accept env now token name password d = (AnsError, d)"
proof -
  have "user_by_email (inv_email i) d = Some u" using user_by_email_unique [OF assms(1,3)] assms(4) by simp
  moreover have "exists_where (\<lambda>m. mb_user m = u_id u \<and> mb_workspace m = inv_workspace i) (memberships d)"
    using assms(5-7) by (auto simp: table_simps)
  ultimately have "accept_invitation (env_hash_password env) now i (trim_space name) password d = Inl TxAborted"
    by (simp add: accept_invitation_def Let_def)
  moreover have "exists_where (\<lambda>u. u_email u = inv_email i) (users d)" using assms(3,4) by (auto simp: table_simps)
  ultimately show ?thesis using assms(2) by (simp add: site_invitations_accept_def Let_def)
qed

text \<open>An Invitation works once: after an acceptance the same link answers not found at any
  later time, until the Invitation is issued anew under a new token.\<close>

theorem invitation_single_use:
  assumes "accounts_ok d" and "distinct (map inv_token_hash (invitations d))"
    and "site_invitations_accept env now token name password d = (AnsOk, d')"
  shows "site_invitations_accept env later token name' password' d' = (AnsNotFound, d')"
proof -
  obtain i where p: "pending_invitation (env_hash_token env) now token d = Some i"
    and a: "accept_invitation (env_hash_password env) now i (trim_space name) password d = Inr d'"
    using assms(3) by (auto simp: site_invitations_accept_def Let_def split: option.splits if_splits sum.splits)
  note pi = pending_invitation_SomeD [OF p]
  have "pending_invitation (env_hash_token env) later token d' = None"
    using a
  proof (rule accept_invitation_InrD)
    fix u d1
    assume src: "(user_by_email (inv_email i) d = Some u \<and> d1 = d) \<or>
        create_user (trim_space name) (inv_email i) (env_hash_password env password) (Some now) d = Inr (u, d1)"
      and inv': "invitations d' = update_where (\<lambda>x. inv_workspace x = inv_workspace i \<and> inv_id x = inv_id i)
           (\<lambda>x. x\<lparr>inv_accepted_at := Some now\<rparr>) (invitations d1)"
    have d1: "invitations d1 = invitations d" using src create_user_InrD(3) by auto
    have "x = i" if "x \<in> set (invitations d)" "inv_token_hash x = env_hash_token env token" for x
      using that pi assms(2) by (auto simp: distinct_map inj_on_def)
    then show "pending_invitation (env_hash_token env) later token d' = None"
      by (auto simp: pending_invitation_def inv' d1 table_simps)
  qed
  then show ?thesis by (simp add: site_invitations_accept_def)
qed

text \<open>A User the Two-factor requirement withholds a Workspace from is refused every request
  there, with nothing changed, except the one that switches the requirement off.\<close>

theorem withheld_is_refused:
  assumes "scope uid s d = Some (w, m)" and "get_user uid d = Some u" and "withheld u w m now"
    and "req \<in> {MembershipsUpdate s a r, MembershipsDelete s a, InvitationsCreate s a ir t, InvitationsDelete s a,
           WorkspacesUpdate s a p, WorkspacesSetRequirement s True}"
  shows "handle env now uid req d = (AnsSecondFactorRequired, d)"
proof -
  have "membership_for now uid s d = Inl AnsSecondFactorRequired"
    using assms(1-3) scope_SomeD(3) [OF assms(1)]
    by (simp add: membership_for_def membership_even_if_withheld_def)
  then show ?thesis
    using assms(4)
    by (auto simp: site_memberships_update_def site_memberships_delete_def site_invitations_create_def
        site_invitations_delete_def site_workspaces_update_def site_workspaces_set_requirement_def)
qed

section \<open>A concrete instance\<close>

definition demo_env :: account_env where
  "demo_env = \<lparr>env_hash_token = \<lambda>t. ''#'' @ t, env_hash_password = \<lambda>p. ''$'' @ p, env_slug_make = \<lambda>s. s,
     env_show_time = \<lambda>_. ''t''\<rparr>"

definition demo_user :: "id \<Rightarrow> string \<Rightarrow> user" where
  "demo_user i email = \<lparr>u_id = i, u_name = ''n'', u_email = email, u_password_hash = ''$p'', u_email_verified_at = None,
     u_session_epoch = 0, u_sf_secret = '''', u_sf_confirmed_at = None, u_sf_last_step = 0\<rparr>"

definition demo_tenant :: "time option \<Rightarrow> tenant" where
  "demo_tenant required = \<lparr>ws_id = 10, ws_name = ''w'', ws_require_confirmed = False, ws_postal_address = '''',
     ws_second_factor_required_at = required, ws_suspended_at = None, ws_suspended_by = None,
     ws_suspension_reason = None, tn_slug = ''w'', tn_collect_key = ''c'', tn_ingest_key = ''i'',
     tn_retention_days = None\<rparr>"

definition demo_member :: "id \<Rightarrow> id \<Rightarrow> role \<Rightarrow> membership" where
  "demo_member i uid r = \<lparr>mb_id = i, mb_workspace = 10, mb_user = uid, mb_role = r, mb_created_at = 0\<rparr>"

definition demo_invitation :: "id \<Rightarrow> string \<Rightarrow> invitation" where
  "demo_invitation i email = \<lparr>inv_id = i, inv_workspace = 10, inv_email = email, inv_role = InviteMember,
     inv_token_hash = ''#t'', inv_invited_by = Some 1, inv_expires_at = 1000, inv_accepted_at = None\<rparr>"

text \<open>An owner (User 1), an admin (User 2) and a pending Invitation of the address given.\<close>

definition demo_accounts :: "time option \<Rightarrow> string \<Rightarrow> accounts_db" where
  "demo_accounts required invited = empty_accounts\<lparr>users := [demo_user 1 ''a@x'', demo_user 2 ''b@x''],
     tenants := [demo_tenant required], memberships := [demo_member 20 1 RoleOwner, demo_member 21 2 RoleAdmin],
     invitations := [demo_invitation 30 invited], fresh_id := 100\<rparr>"

lemmas demo_defs = demo_env_def demo_user_def demo_tenant_def demo_member_def demo_invitation_def
  demo_accounts_def empty_accounts_def

lemma demo_ok: "accounts_ok (demo_accounts required invited)"
  by (simp add: accounts_ok_def demo_defs)

lemma demo_owned: "owned (demo_accounts required invited)"
  by (simp add: owned_def has_owner_def roster_def demo_defs)



lemma owners_change_by_owners_witness:
  "owner_ids 10 (snd (handle demo_env 5 2 (MembershipsUpdate ''w'' ''21'' RoleOwner) (demo_accounts None ''c@x''))) =
     owner_ids 10 (demo_accounts None ''c@x'')"
  by (rule owners_change_by_owners [OF demo_ok]) (auto simp: demo_defs owner_ids_def)

lemma accepting_member_fails_witness:
  "site_invitations_accept demo_env 5 ''t'' '''' '''' (demo_accounts None ''b@x'') = (AnsError, demo_accounts None ''b@x'')"
  by (rule accepting_member_fails [OF demo_ok, where i = "demo_invitation 30 ''b@x''" and u = "demo_user 2 ''b@x''"
        and m = "demo_member 21 2 RoleAdmin"])
     (simp_all add: demo_defs pending_invitation_def find_where_def)

lemma invitation_single_use_witness:
  "\<exists>d'. site_invitations_accept demo_env 5 ''t'' ''c'' ''p'' (demo_accounts None ''c@x'') = (AnsOk, d') \<and>
     site_invitations_accept demo_env 6 ''t'' ''c'' ''p'' d' = (AnsNotFound, d')"
proof -
  let ?r = "site_invitations_accept demo_env 5 ''t'' ''c'' ''p'' (demo_accounts None ''c@x'')"
  have "fst ?r = AnsOk" by code_simp
  then have "?r = (AnsOk, snd ?r)" by (metis prod.collapse)
  moreover have "distinct (map inv_token_hash (invitations (demo_accounts None ''c@x'')))" by (simp add: demo_defs)
  ultimately show ?thesis using invitation_single_use [OF demo_ok] by blast
qed

lemma withheld_is_refused_witness:
  "handle demo_env (8 * 24 * hour) 2 (WorkspacesUpdate ''w'' ''n'' None) (demo_accounts (Some 0) ''c@x'') =
     (AnsSecondFactorRequired, demo_accounts (Some 0) ''c@x'')"
  by (rule withheld_is_refused [where s = "''w''" and w = "demo_tenant (Some 0)" and m = "demo_member 21 2 RoleAdmin" and u = "demo_user 2 ''b@x''"])
     (simp_all add: demo_defs scope_def tenant_by_slug_def get_user_def find_where_def withheld_def deadline_def
        active_factor_def grace_ends_def grace_period_def)

end
