(* ===== verification/Logins.thy ===== *)
theory Logins
  imports Attempts SecondFactors MemberRequests Tracking
begin

text \<open>
  Signing in and the self-service account flows: \<open>internal/authtoken\<close> (purpose-scoped tokens keyed to a
  binding), \<open>internal/api/auth/session.go\<close> with the cookie check of \<open>auth.go\<close>, and the site handlers of
  login, second step, password reset, email verification and email change
  (\<open>internal/api/site/auth_login.go\<close>, \<open>auth_second_factor.go\<close>, \<open>auth_recovery.go\<close>, \<open>me.go\<close>,
  \<open>second_factor.go\<close>). They compose the Login throttle, the Users and the Second factor.

  Parameters: the JWT libraries (\<open>sg_sign\<close>, \<open>sg_decode\<close>, \<open>sg_verify\<close>; \<open>se_sign\<close>, \<open>se_parse\<close>), the
  HMAC of the instance secret, and argon2id (\<open>le_verify_password\<close>; a new hash is an argument, since it is
  salted).
\<close>

section \<open>Purpose-scoped tokens\<close>

datatype purpose = PurposePasswordReset | PurposeEmailVerify | PurposeEmailChange | PurposeLoginChallenge

definition purpose_name :: "purpose \<Rightarrow> string" where
  "purpose_name p =
     (case p of PurposePasswordReset \<Rightarrow> ''pwreset'' | PurposeEmailVerify \<Rightarrow> ''email_verify''
      | PurposeEmailChange \<Rightarrow> ''email_change'' | PurposeLoginChallenge \<Rightarrow> ''login_challenge'')"

record token_claims =
  tc_exp :: "time option"
  tc_uid :: id
  tc_purpose :: string
  tc_extra :: "string \<rightharpoonup> string"

record signer =
  sg_hmac :: "string \<Rightarrow> string"
  sg_sign :: "string \<Rightarrow> token_claims \<Rightarrow> string"
  sg_decode :: "string \<Rightarrow> token_claims option"
  sg_verify :: "string \<Rightarrow> string \<Rightarrow> bool"

definition derive_key :: "signer \<Rightarrow> purpose \<Rightarrow> id \<Rightarrow> string \<Rightarrow> string" where
  "derive_key sg p uid binding = sg_hmac sg (purpose_name p @ ''|'' @ show_int uid @ ''|'' @ binding)"

definition mint :: "signer \<Rightarrow> time \<Rightarrow> purpose \<Rightarrow> id \<Rightarrow> string \<Rightarrow> duration \<Rightarrow> (string \<rightharpoonup> string) \<Rightarrow> string" where
  "mint sg now p uid binding ttl extra =
     sg_sign sg (derive_key sg p uid binding)
       \<lparr>tc_exp = Some (numeric_date (now + ttl)), tc_uid = uid, tc_purpose = purpose_name p, tc_extra = extra\<rparr>"

definition parse_authtoken ::
    "signer \<Rightarrow> time \<Rightarrow> string \<Rightarrow> purpose \<Rightarrow> (id \<Rightarrow> string option) \<Rightarrow> (id \<times> (string \<rightharpoonup> string)) option" where
  "parse_authtoken sg now token p binding_for =
     (case sg_decode sg token of
        None \<Rightarrow> None
      | Some c \<Rightarrow>
         if tc_purpose c \<noteq> purpose_name p \<or> tc_uid c = 0 then None
         else case binding_for (tc_uid c) of
             None \<Rightarrow> None
           | Some b \<Rightarrow>
              if \<not> sg_verify sg (derive_key sg p (tc_uid c) b) token then None
              else case tc_exp c of
                  None \<Rightarrow> None
                | Some e \<Rightarrow> if now < e then Some (tc_uid c, tc_extra c) else None)"

section \<open>Sessions\<close>

text \<open>\<open>sc_user\<close> is the token's user with its \<open>uid\<close> and \<open>epoch\<close> attributes, absent in a token without one.\<close>

record session_claims =
  sc_exp :: "time option"
  sc_user :: "(string \<times> string) option"

record session_env =
  se_sign :: "session_claims \<Rightarrow> string"
  se_parse :: "string \<Rightarrow> session_claims option"
  se_ttl :: duration

definition session_claims_of :: "session_env \<Rightarrow> time \<Rightarrow> user \<Rightarrow> session_claims" where
  "session_claims_of env now u = \<lparr>sc_exp = Some (numeric_date (now + se_ttl env)),
     sc_user = Some (show_int (u_id u), show_int (u_session_epoch u))\<rparr>"

definition issue :: "session_env \<Rightarrow> time \<Rightarrow> user \<Rightarrow> string" where
  "issue env now u = se_sign env (session_claims_of env now u)"

definition session_user :: "session_claims \<Rightarrow> (id \<times> int) option" where
  "session_user c =
     (case sc_user c of
        None \<Rightarrow> None
      | Some (uid, epoch) \<Rightarrow>
         (case (parse_int64 uid, parse_int64 epoch) of (Some i, Some e) \<Rightarrow> Some (i, e) | _ \<Rightarrow> None))"

definition holder :: "session_env \<Rightarrow> time \<Rightarrow> string \<Rightarrow> (id \<times> int) option" where
  "holder env now raw =
     (if raw = '''' then None
      else case se_parse env raw of
          None \<Rightarrow> None
        | Some c \<Rightarrow> (case sc_exp c of None \<Rightarrow> None | Some e \<Rightarrow> if now < e then session_user c else None))"

text \<open>\<open>SiteSecurityHandler.Verify\<close>: \<open>None\<close> is \<open>ErrUnauthorized\<close>.\<close>

definition verify_session :: "session_env \<Rightarrow> time \<Rightarrow> string \<Rightarrow> accounts_db \<Rightarrow> user option" where
  "verify_session env now raw d =
     (case se_parse env raw of
        None \<Rightarrow> None
      | Some c \<Rightarrow>
         (case sc_exp c of
            None \<Rightarrow> None
          | Some e \<Rightarrow>
             if \<not> now < e then None
             else case session_user c of
                 None \<Rightarrow> None
               | Some (uid, epoch) \<Rightarrow>
                  (case get_user uid d of
                     None \<Rightarrow> None
                   | Some u \<Rightarrow> if u_session_epoch u \<noteq> epoch then None else Some u)))"

definition holds_session :: "session_env \<Rightarrow> time \<Rightarrow> string \<Rightarrow> id \<Rightarrow> accounts_db \<Rightarrow> bool" where
  "holds_session env now raw uid d =
     (case holder env now raw of
        None \<Rightarrow> False
      | Some (i, epoch) \<Rightarrow> i = uid \<and> (case get_user uid d of None \<Rightarrow> False | Some u \<Rightarrow> u_session_epoch u = epoch))"

section \<open>Login\<close>

record login_env =
  le_factor :: factor_env
  le_signer :: signer
  le_session :: session_env
  le_rules :: attempt_rules
  le_verify_password :: "string \<Rightarrow> string \<Rightarrow> bool"

datatype login_answer =
    SessionStarted string | ChallengeIssued string | TooManyAttempts duration | CredentialsInvalid
  | ChallengeInvalid | CodeInvalid | LoginFailed

definition login_challenge_ttl :: duration where "login_challenge_ttl = 5 * minute"
definition reset_token_ttl :: duration where "reset_token_ttl = hour"
definition verify_token_ttl :: duration where "verify_token_ttl = 24 * hour"
definition email_change_token_ttl :: duration where "email_change_token_ttl = hour"

definition login_delay :: "login_env \<Rightarrow> time \<Rightarrow> string \<Rightarrow> accounts_db \<Rightarrow> duration" where
  "login_delay env now email d = delay (le_rules env) now KindLogin email (attempts d)"

definition count_failure :: "login_env \<Rightarrow> time \<Rightarrow> string \<Rightarrow> accounts_db \<Rightarrow> accounts_db" where
  "count_failure env now email d = d\<lparr>attempts := record_failure (le_rules env) now KindLogin email (attempts d)\<rparr>"

definition check_password :: "login_env \<Rightarrow> string \<Rightarrow> string \<Rightarrow> accounts_db \<Rightarrow> user option" where
  "check_password env email password d =
     (case user_by_email email d of
        None \<Rightarrow> None
      | Some u \<Rightarrow>
         if u_password_hash u = '''' then None
         else if le_verify_password env (u_password_hash u) password then Some u else None)"

definition start_session :: "login_env \<Rightarrow> time \<Rightarrow> user \<Rightarrow> accounts_db \<Rightarrow> login_answer \<times> accounts_db" where
  "start_session env now u d =
     (SessionStarted (issue (le_session env) now u),
      record_login u (d\<lparr>attempts := record_success (le_rules env) KindLogin (u_email u) (attempts d)\<rparr>))"

definition mint_login_challenge :: "login_env \<Rightarrow> time \<Rightarrow> user \<Rightarrow> accounts_db \<Rightarrow> string option" where
  "mint_login_challenge env now u d =
     (case challenge_binding u d of
        Inl _ \<Rightarrow> None
      | Inr b \<Rightarrow> Some (mint (le_signer env) now PurposeLoginChallenge (u_id u) b login_challenge_ttl Map.empty))"

definition site_auth_login :: "login_env \<Rightarrow> time \<Rightarrow> string \<Rightarrow> string \<Rightarrow> accounts_db \<Rightarrow> login_answer \<times> accounts_db" where
  "site_auth_login env now raw_email password d =
     (let email = trim_space raw_email; wait = login_delay env now email d in
      if 0 < wait then (TooManyAttempts wait, d)
      else case check_password env email password d of
          None \<Rightarrow> (CredentialsInvalid, count_failure env now email d)
        | Some u \<Rightarrow>
           if active_factor u then
             (case mint_login_challenge env now u d of
                None \<Rightarrow> (LoginFailed, d) | Some t \<Rightarrow> (ChallengeIssued t, d))
           else start_session env now u d)"

definition challenge_user_binding :: "accounts_db \<Rightarrow> id \<Rightarrow> string option" where
  "challenge_user_binding d uid =
     (case get_user uid d of
        None \<Rightarrow> None
      | Some u \<Rightarrow> (case challenge_binding u d of Inl _ \<Rightarrow> None | Inr b \<Rightarrow> Some b))"

definition parse_login_challenge :: "login_env \<Rightarrow> time \<Rightarrow> string \<Rightarrow> accounts_db \<Rightarrow> (user \<times> string) option" where
  "parse_login_challenge env now challenge d =
     (case parse_authtoken (le_signer env) now challenge PurposeLoginChallenge (challenge_user_binding d) of
        None \<Rightarrow> None
      | Some (uid, _) \<Rightarrow>
         (case (get_user uid d, challenge_user_binding d uid) of (Some u, Some b) \<Rightarrow> Some (u, b) | _ \<Rightarrow> None))"

definition site_auth_second_factor ::
    "login_env \<Rightarrow> time \<Rightarrow> string \<Rightarrow> string \<Rightarrow> accounts_db \<Rightarrow> login_answer \<times> accounts_db" where
  "site_auth_second_factor env now challenge code d =
     (case parse_login_challenge env now challenge d of
        None \<Rightarrow> (ChallengeInvalid, d)
      | Some (u, binding) \<Rightarrow>
         let wait = login_delay env now (u_email u) d in
         if 0 < wait then (TooManyAttempts wait, d)
         else case verify (le_factor env) now (u_id u) binding code d of
             Inl InvalidCode \<Rightarrow> (CodeInvalid, count_failure env now (u_email u) d)
           | Inl NotActive \<Rightarrow> (ChallengeInvalid, d)
           | Inl BindingMoved \<Rightarrow> (ChallengeInvalid, d)
           | Inl _ \<Rightarrow> (LoginFailed, d)
           | Inr (_, d1) \<Rightarrow> start_session env now u d1)"

section \<open>Recovery and profile\<close>

datatype flow_answer =
    FlowOk | FlowAccepted | FlowBadRequest | FlowForbidden | FlowUnprocessable | FlowConflict | FlowFailed
  | FlowLimited duration

text \<open>\<open>SiteAuthForgotPassword\<close>: the answer is always 202; the third part is the mail job's
  recipient, token and whether it is sent.\<close>

definition site_auth_forgot_password ::
    "login_env \<Rightarrow> time \<Rightarrow> string \<Rightarrow> accounts_db \<Rightarrow> accounts_db \<times> (string \<times> string \<times> bool) option" where
  "site_auth_forgot_password env now raw_email d =
     (let email = trim_space raw_email in
      if email = '''' then (d, None)
      else
        let (granted, rows) = take_slot (le_rules env) now KindPasswordReset email (attempts d);
            (uid, binding, to) = (case user_by_email email d of
               None \<Rightarrow> (0, '''', email) | Some u \<Rightarrow> (u_id u, u_password_hash u, u_email u))
        in (d\<lparr>attempts := rows\<rparr>,
            Some (to, mint (le_signer env) now PurposePasswordReset uid binding reset_token_ttl Map.empty,
              user_by_email email d \<noteq> None \<and> granted)))"

definition password_hash_binding :: "accounts_db \<Rightarrow> id \<Rightarrow> string option" where
  "password_hash_binding d uid = map_option u_password_hash (get_user uid d)"

definition current_email_binding :: "accounts_db \<Rightarrow> id \<Rightarrow> string option" where
  "current_email_binding d uid = map_option u_email (get_user uid d)"

definition no_binding :: "id \<Rightarrow> string option" where
  "no_binding _ = Some ''''"

definition site_auth_reset_password ::
    "login_env \<Rightarrow> time \<Rightarrow> string \<Rightarrow> string \<Rightarrow> string \<Rightarrow> accounts_db \<Rightarrow> flow_answer \<times> accounts_db" where
  "site_auth_reset_password env now token password new_hash d =
     (if password = '''' then (FlowBadRequest, d)
      else case parse_authtoken (le_signer env) now token PurposePasswordReset (password_hash_binding d) of
          None \<Rightarrow> (FlowBadRequest, d)
        | Some (uid, _) \<Rightarrow>
           (case set_password uid new_hash d of Inl _ \<Rightarrow> (FlowFailed, d) | Inr d' \<Rightarrow> (FlowOk, d')))"

definition site_auth_verify_email :: "login_env \<Rightarrow> time \<Rightarrow> string \<Rightarrow> accounts_db \<Rightarrow> flow_answer \<times> accounts_db" where
  "site_auth_verify_email env now token d =
     (case parse_authtoken (le_signer env) now token PurposeEmailVerify no_binding of
        None \<Rightarrow> (FlowBadRequest, d)
      | Some (uid, extra) \<Rightarrow>
         (case get_user uid d of
            None \<Rightarrow> (FlowBadRequest, d)
          | Some u \<Rightarrow>
             if (case extra ''email'' of None \<Rightarrow> False | Some e \<Rightarrow> e \<noteq> '''' \<and> e \<noteq> u_email u) then (FlowBadRequest, d)
             else if u_email_verified_at u \<noteq> None then (FlowOk, d)
             else (case mark_email_verified now uid d of Inl _ \<Rightarrow> (FlowFailed, d) | Inr d' \<Rightarrow> (FlowOk, d'))))"

text \<open>The last part is the session cookie reissued to the acting User.\<close>

definition site_auth_confirm_email_change ::
    "login_env \<Rightarrow> time \<Rightarrow> string \<Rightarrow> string \<Rightarrow> accounts_db \<Rightarrow> flow_answer \<times> accounts_db \<times> string option" where
  "site_auth_confirm_email_change env now token raw_session d =
     (case parse_authtoken (le_signer env) now token PurposeEmailChange (current_email_binding d) of
        None \<Rightarrow> (FlowBadRequest, d, None)
      | Some (uid, extra) \<Rightarrow>
         let new_email = trim_space (case extra ''new'' of None \<Rightarrow> '''' | Some e \<Rightarrow> e) in
         if new_email = '''' then (FlowBadRequest, d, None)
         else
           let acting = holds_session (le_session env) now raw_session uid d in
           case change_email now uid new_email d of
             Inl UniqueViolation \<Rightarrow> (FlowConflict, d, None)
           | Inl _ \<Rightarrow> (FlowFailed, d, None)
           | Inr d' \<Rightarrow>
              (if \<not> acting then (FlowOk, d', None)
               else case get_user uid d' of
                   None \<Rightarrow> (FlowFailed, d', None)
                 | Some u \<Rightarrow> (FlowOk, d', Some (issue (le_session env) now u))))"

definition site_user_update_me ::
    "login_env \<Rightarrow> time \<Rightarrow> id \<Rightarrow> string option \<Rightarrow> string option \<Rightarrow> string \<Rightarrow> string \<Rightarrow> accounts_db
      \<Rightarrow> flow_answer \<times> accounts_db \<times> string option" where
  "site_user_update_me env now uid raw_name new_password current_password new_hash d =
     (case get_user uid d of
        None \<Rightarrow> (FlowFailed, d, None)
      | Some u \<Rightarrow>
         let name = map_option trim_space raw_name;
             changing = (case new_password of None \<Rightarrow> False | Some p \<Rightarrow> p \<noteq> '''') in
         if name = Some '''' then (FlowUnprocessable, d, None)
         else if changing \<and> current_password = '''' then (FlowUnprocessable, d, None)
         else if changing \<and> (u_password_hash u = '''' \<or> \<not> le_verify_password env (u_password_hash u) current_password)
         then (FlowForbidden, d, None)
         else if name = None \<and> \<not> changing then (FlowOk, d, None)
         else case update_profile uid name (if changing then Some new_hash else None) d of
             Inl _ \<Rightarrow> (FlowFailed, d, None)
           | Inr (u', d') \<Rightarrow> (FlowOk, d', if changing then Some (issue (le_session env) now u') else None))"

definition site_user_email_change ::
    "login_env \<Rightarrow> time \<Rightarrow> id \<Rightarrow> string \<Rightarrow> string \<Rightarrow> accounts_db \<Rightarrow> flow_answer \<times> (string \<times> string) option" where
  "site_user_email_change env now uid raw_email current_password d =
     (case get_user uid d of
        None \<Rightarrow> (FlowFailed, None)
      | Some u \<Rightarrow>
         let new_email = trim_space raw_email in
         if new_email = '''' \<or> to_lower new_email = to_lower (u_email u) then (FlowUnprocessable, None)
         else if u_password_hash u = '''' \<or> \<not> le_verify_password env (u_password_hash u) current_password
         then (FlowForbidden, None)
         else if exists_where (\<lambda>x. u_email x = new_email) (users d) then (FlowConflict, None)
         else (FlowAccepted, Some (new_email, mint (le_signer env) now PurposeEmailChange uid (u_email u)
                email_change_token_ttl [''new'' \<mapsto> new_email])))"

definition site_user_sign_out_everywhere :: "id \<Rightarrow> accounts_db \<Rightarrow> flow_answer \<times> accounts_db" where
  "site_user_sign_out_everywhere uid d =
     (case end_sessions uid d of Inl _ \<Rightarrow> (FlowFailed, d) | Inr d' \<Rightarrow> (FlowOk, d'))"

section \<open>Second factor settings\<close>

text \<open>\<open>provePassword\<close>: \<open>Inl\<close> is the answer that ends the request.\<close>

definition prove_password :: "login_env \<Rightarrow> time \<Rightarrow> id \<Rightarrow> string \<Rightarrow> accounts_db \<Rightarrow> (flow_answer \<times> accounts_db) + unit" where
  "prove_password env now uid password d =
     (case get_user uid d of
        None \<Rightarrow> Inl (FlowFailed, d)
      | Some u \<Rightarrow>
         let wait = login_delay env now (u_email u) d in
         if 0 < wait then Inl (FlowLimited wait, d)
         else if u_password_hash u \<noteq> '''' \<and> le_verify_password env (u_password_hash u) password then Inr ()
         else Inl (FlowForbidden, count_failure env now (u_email u) d))"

definition factor_answer :: "factor_error \<Rightarrow> flow_answer" where
  "factor_answer e =
     (case e of InvalidCode \<Rightarrow> FlowUnprocessable | NoPending \<Rightarrow> FlowConflict | AlreadyActive \<Rightarrow> FlowConflict
      | NotActive \<Rightarrow> FlowConflict | _ \<Rightarrow> FlowFailed)"

definition site_second_factor_start ::
    "login_env \<Rightarrow> time \<Rightarrow> id \<Rightarrow> string \<Rightarrow> string \<Rightarrow> accounts_db \<Rightarrow> flow_answer \<times> accounts_db" where
  "site_second_factor_start env now uid password secret d =
     (case prove_password env now uid password d of
        Inl r \<Rightarrow> r
      | Inr _ \<Rightarrow>
         (case start_enrollment (le_factor env) uid secret d of
            Inl e \<Rightarrow> (factor_answer e, d) | Inr d' \<Rightarrow> (FlowOk, d')))"

definition reissued :: "login_env \<Rightarrow> time \<Rightarrow> accounts_db \<Rightarrow> factor_error + (user \<times> accounts_db) \<Rightarrow> flow_answer \<times> accounts_db \<times> string option" where
  "reissued env now d r =
     (case r of Inl e \<Rightarrow> (factor_answer e, d, None)
      | Inr (u, d') \<Rightarrow> (FlowOk, d', Some (issue (le_session env) now u)))"

definition site_second_factor_confirm ::
    "login_env \<Rightarrow> time \<Rightarrow> id \<Rightarrow> string \<Rightarrow> string \<Rightarrow> string list \<Rightarrow> accounts_db \<Rightarrow> flow_answer \<times> accounts_db \<times> string option" where
  "site_second_factor_confirm env now uid password code codes d =
     (case prove_password env now uid password d of
        Inl (a, d') \<Rightarrow> (a, d', None)
      | Inr _ \<Rightarrow> reissued env now d (confirm_enrollment (le_factor env) now uid code codes d))"

definition site_second_factor_regenerate ::
    "login_env \<Rightarrow> time \<Rightarrow> id \<Rightarrow> string \<Rightarrow> string list \<Rightarrow> accounts_db \<Rightarrow> flow_answer \<times> accounts_db \<times> string option" where
  "site_second_factor_regenerate env now uid password codes d =
     (case prove_password env now uid password d of
        Inl (a, d') \<Rightarrow> (a, d', None)
      | Inr _ \<Rightarrow> reissued env now d (regenerate_recovery_codes (le_factor env) uid codes d))"

definition site_second_factor_disable ::
    "login_env \<Rightarrow> time \<Rightarrow> id \<Rightarrow> string \<Rightarrow> string \<Rightarrow> accounts_db \<Rightarrow> flow_answer \<times> accounts_db \<times> string option" where
  "site_second_factor_disable env now uid password code d =
     (case prove_password env now uid password d of
        Inl (a, d') \<Rightarrow> (a, d', None)
      | Inr _ \<Rightarrow> reissued env now d (disable (le_factor env) now uid code d))"

section \<open>Resetting a member's factor\<close>

definition site_reset_second_factor :: "time \<Rightarrow> id \<Rightarrow> string \<Rightarrow> string \<Rightarrow> accounts_db \<Rightarrow> site_answer \<times> accounts_db" where
  "site_reset_second_factor now uid s raw_id d =
     (case membership_for now uid s d of
        Inl a \<Rightarrow> (a, d)
      | Inr (w, m) \<Rightarrow>
         if \<not> can_manage_second_factor (mb_role m) then (AnsForbidden, d)
         else case parse_int64 raw_id of
             None \<Rightarrow> (AnsNotFound, d)
           | Some target \<Rightarrow>
              (case find_where (\<lambda>x. mb_workspace x = ws_id w \<and> mb_id x = target) (memberships d) of
                 None \<Rightarrow> (AnsNotFound, d)
               | Some t \<Rightarrow>
                  if mb_role t = RoleOwner \<and> mb_role m \<noteq> RoleOwner then (AnsForbidden, d)
                  else if mb_user t = uid then (AnsUnprocessable, d)
                  else case reset_factor (mb_user t) (actor_of uid d) (ws_id w) d of
                      Inl NotActive \<Rightarrow> (AnsUnprocessable, d)
                    | Inl _ \<Rightarrow> (AnsError, d)
                    | Inr d' \<Rightarrow> (AnsOk, d')))"

section \<open>Histories of requests\<close>

datatype auth_request =
    LoginReq string string
  | SecondFactorReq string string
  | ForgotPasswordReq string
  | ResetPasswordReq string string string
  | VerifyEmailReq string
  | ConfirmEmailReq string string
  | UpdateMeReq id "string option" "string option" string string
  | SignOutReq id
  | FactorStartReq id string string
  | FactorConfirmReq id string string "string list"
  | FactorRegenerateReq id string "string list"
  | FactorDisableReq id string string
  | ResetMemberReq id string string
  | AccountReq account_env id account_request
  | PurgeAttemptsReq

text \<open>Whether the request did what it asks for, and the state after it.\<close>

fun auth_handle :: "login_env \<Rightarrow> time \<Rightarrow> auth_request \<Rightarrow> accounts_db \<Rightarrow> bool \<times> accounts_db" where
  "auth_handle env now (LoginReq e p) d =
     (let (a, d') = site_auth_login env now e p d in (\<exists>s. a = SessionStarted s, d'))"
| "auth_handle env now (SecondFactorReq c code) d =
     (let (a, d') = site_auth_second_factor env now c code d in (\<exists>s. a = SessionStarted s, d'))"
| "auth_handle env now (ForgotPasswordReq e) d = (True, fst (site_auth_forgot_password env now e d))"
| "auth_handle env now (ResetPasswordReq t p h) d =
     (let (a, d') = site_auth_reset_password env now t p h d in (a = FlowOk, d'))"
| "auth_handle env now (VerifyEmailReq t) d = (let (a, d') = site_auth_verify_email env now t d in (a = FlowOk, d'))"
| "auth_handle env now (ConfirmEmailReq t raw) d =
     (let (a, d', _) = site_auth_confirm_email_change env now t raw d in (a = FlowOk, d'))"
| "auth_handle env now (UpdateMeReq uid n p c h) d =
     (let (a, d', _) = site_user_update_me env now uid n p c h d in (a = FlowOk, d'))"
| "auth_handle env now (SignOutReq uid) d = (let (a, d') = site_user_sign_out_everywhere uid d in (a = FlowOk, d'))"
| "auth_handle env now (FactorStartReq uid p s) d =
     (let (a, d') = site_second_factor_start env now uid p s d in (a = FlowOk, d'))"
| "auth_handle env now (FactorConfirmReq uid p c codes) d =
     (let (a, d', _) = site_second_factor_confirm env now uid p c codes d in (a = FlowOk, d'))"
| "auth_handle env now (FactorRegenerateReq uid p codes) d =
     (let (a, d', _) = site_second_factor_regenerate env now uid p codes d in (a = FlowOk, d'))"
| "auth_handle env now (FactorDisableReq uid p c) d =
     (let (a, d', _) = site_second_factor_disable env now uid p c d in (a = FlowOk, d'))"
| "auth_handle env now (ResetMemberReq uid s i) d =
     (let (a, d') = site_reset_second_factor now uid s i d in (a = AnsOk, d'))"
| "auth_handle env now (AccountReq aenv uid req) d = (let (a, d') = handle aenv now uid req d in (a = AnsOk, d'))"
| "auth_handle env now PurgeAttemptsReq d =
     (True, d\<lparr>attempts := snd (purge_attempts (le_rules env) now (attempts d))\<rparr>)"

fun auth_handle_all :: "login_env \<Rightarrow> (time \<times> auth_request) list \<Rightarrow> accounts_db \<Rightarrow> accounts_db" where
  "auth_handle_all env [] d = d"
| "auth_handle_all env ((now, req) # rest) d = auth_handle_all env rest (snd (auth_handle env now req d))"

lemma moves_on_same: "users d' = users d \<Longrightarrow> recovery_codes d' = recovery_codes d \<Longrightarrow> moves_on d d'"
  by (rule moves_on_frame [OF _ _ moves_on_refl])

lemma moves_on_attempts: "moves_on d (d\<lparr>attempts := rows\<rparr>)"
  by (rule moves_on_same) simp_all

lemma moves_on_count_failure: "moves_on d (count_failure env now e d)"
  by (simp add: count_failure_def moves_on_attempts)

lemma moves_on_start_session: "moves_on d (snd (start_session env now u d))"
  by (rule moves_on_same) (simp_all add: start_session_def record_login_def)

lemma moves_on_op:
  assumes "r = Inr d'" and "factor_step env now op d = or_unchanged d r"
  shows "moves_on d d'"
  using factor_step_moves_on [of d env now op] assms by (simp add: or_unchanged_def)

lemma moves_on_second:
  assumes "r = Inr (x, d')" and "factor_step env now op d = or_unchanged d (second_of r)"
  shows "moves_on d d'"
  using factor_step_moves_on [of d env now op] assms by (simp add: or_unchanged_def second_of_def)

lemma moves_on_verified: "moves_on d (update_user uid (\<lambda>u. u\<lparr>u_email_verified_at := Some now\<rparr>) d)"
  by (rule moves_on_update_user) (simp_all add: later_def active_factor_def)

lemma moves_on_profile: "update_profile uid n h d = Inr (u, d') \<Longrightarrow> moves_on d d'"
  using moves_on_second [of "update_profile uid n h d" u d' undefined 0 "ProfileOp uid n h" d] by simp

lemma moves_on_prove:
  "prove_password env now uid p d = Inl (a, d') \<Longrightarrow> moves_on d d'"
  by (auto simp: prove_password_def Let_def moves_on_count_failure split: option.splits if_splits)

lemma moves_on_append_user:
  assumes "users d' = users d @ us" and "recovery_codes d' = recovery_codes d"
  shows "moves_on d d'"
proof -
  have "find_where p (xs @ ys) = Some x" if "find_where p xs = Some x" for p :: "user \<Rightarrow> bool" and xs ys x
    using that by (induction xs) (auto simp: find_where_def)
  then have "get_user k d' = Some u" if "get_user k d = Some u" for k u
    using that by (simp add: get_user_def assms(1))
  then show ?thesis
    using unused_codes_frame [OF assms(2)] by (auto simp: moves_on_def factor_state_def later_refl)
qed

lemma codes_log [simp]: "recovery_codes (fold (\<lambda>ws. log_audit (f ws)) wss d) = recovery_codes d"
  by (induction wss arbitrary: d) simp_all

lemma handle_users:
  "\<exists>us. users (snd (handle aenv now uid req d)) = users d @ us"
  "recovery_codes (snd (handle aenv now uid req d)) = recovery_codes d"
proof -
  have "(\<exists>us. users (snd (handle aenv now uid req d)) = users d @ us) \<and>
      recovery_codes (snd (handle aenv now uid req d)) = recovery_codes d"
  proof (cases req)
    case (MembershipsUpdate s i r)
    then show ?thesis
      by (auto simp: site_memberships_update_def change_membership_role_def split: sum.splits option.splits)
  next
    case (MembershipsDelete s i)
    then show ?thesis
      by (auto simp: site_memberships_delete_def remove_membership_def split: sum.splits option.splits)
  next
    case (InvitationsCreate s e r t)
    then show ?thesis
      by (auto simp: site_invitations_create_def invite_def Let_def split: sum.splits option.splits if_splits)
  next
    case (InvitationsDelete s i)
    then show ?thesis
      by (auto simp: site_invitations_delete_def revoke_invitation_def split: sum.splits option.splits)
  next
    case (InvitationsAccept t n p)
    then show ?thesis
      by (auto simp: site_invitations_accept_def accept_invitation_def create_user_def Let_def
          split: option.splits if_splits sum.splits)
  next
    case (AuthRegister n e p ck ik)
    then show ?thesis
      by (auto simp: site_auth_register_def create_user_def create_workspace_def Let_def
          split: if_splits sum.splits account_error.splits)
  next
    case (WorkspacesUpdate s n p)
    then show ?thesis
      by (auto simp: site_workspaces_update_def update_workspace_def update_tenant_def Let_def
          split: sum.splits option.splits if_splits)
  next
    case (WorkspacesSetRequirement s b)
    then show ?thesis
      by (auto simp: site_workspaces_set_requirement_def set_second_factor_requirement_def update_tenant_def Let_def
          split: sum.splits option.splits if_splits)
  qed
  then show "\<exists>us. users (snd (handle aenv now uid req d)) = users d @ us"
    "recovery_codes (snd (handle aenv now uid req d)) = recovery_codes d" by simp_all
qed

lemma moves_on_handle: "moves_on d (snd (handle aenv now uid req d))"
  using handle_users [of aenv now uid req d] moves_on_append_user by blast

lemma moves_on_login: "moves_on d (snd (site_auth_login env now e p d))"
  by (auto simp: site_auth_login_def Let_def moves_on_count_failure moves_on_start_session split: option.split)

lemma moves_on_second_factor: "moves_on d (snd (site_auth_second_factor env now c code d))"
proof (cases "parse_login_challenge env now c d")
  case (Some ub)
  obtain u b where ub: "ub = (u, b)" by (cases ub)
  show ?thesis
  proof (cases "verify (le_factor env) now (u_id u) b code d")
    case (Inl e)
    then show ?thesis
      using Some ub by (cases e) (simp_all add: site_auth_second_factor_def Let_def moves_on_count_failure)
  next
    case (Inr r)
    obtain m d1 where r: "r = (m, d1)" by (cases r)
    have "moves_on d d1"
      using moves_on_second [OF Inr [unfolded r], of "le_factor env" now "VerifyOp (u_id u) b code"] by simp
    then have "moves_on d (snd (start_session env now u d1))" by (rule moves_on_trans [OF _ moves_on_start_session])
    then show ?thesis using Some ub Inr r by (simp add: site_auth_second_factor_def Let_def)
  qed
qed (simp add: site_auth_second_factor_def)

lemma set_password_moves_on: "set_password uid h d = Inr d' \<Longrightarrow> moves_on d d'"
  by (auto simp: set_password_def split: sum.splits dest: moves_on_profile)

lemma end_sessions_moves_on: "end_sessions uid d = Inr d' \<Longrightarrow> moves_on d d'"
  using moves_on_op [of "end_sessions uid d" d' undefined 0 "EndSessionsOp uid" d] by simp

lemma change_email_moves_on: "change_email now uid e d = Inr d' \<Longrightarrow> moves_on d d'"
  using moves_on_op [of "change_email now uid e d" d' undefined now "ChangeEmailOp uid e" d] by simp

lemma start_enrollment_moves_on: "start_enrollment env uid s d = Inr d' \<Longrightarrow> moves_on d d'"
  using moves_on_op [of "start_enrollment env uid s d" d' env 0 "StartOp uid s" d] by simp

lemma confirm_moves_on: "confirm_enrollment env now uid c codes d = Inr (u, d') \<Longrightarrow> moves_on d d'"
  using moves_on_second [of "confirm_enrollment env now uid c codes d" u d' env now "ConfirmOp uid c codes" d] by simp

lemma regenerate_moves_on: "regenerate_recovery_codes env uid codes d = Inr (u, d') \<Longrightarrow> moves_on d d'"
  using moves_on_second [of "regenerate_recovery_codes env uid codes d" u d' env 0 "RegenerateOp uid codes" d] by simp

lemma disable_moves_on: "disable env now uid c d = Inr (u, d') \<Longrightarrow> moves_on d d'"
  using moves_on_second [of "disable env now uid c d" u d' env now "DisableOp uid c" d] by simp

lemma reset_moves_on: "reset_factor uid a ws d = Inr d' \<Longrightarrow> moves_on d d'"
  using moves_on_op [of "reset_factor uid a ws d" d' undefined 0 "ResetOp uid a ws" d] by simp

lemma verified_moves_on: "mark_email_verified now uid d = Inr d' \<Longrightarrow> moves_on d d'"
  by (auto simp: mark_email_verified_def moves_on_verified split: option.splits)

lemmas op_moves_on = set_password_moves_on end_sessions_moves_on change_email_moves_on start_enrollment_moves_on
  confirm_moves_on regenerate_moves_on disable_moves_on reset_moves_on verified_moves_on moves_on_profile

lemma auth_handle_moves_on: "moves_on d (snd (auth_handle env now req d))"
proof (cases req)
  case (LoginReq e p)
  then show ?thesis using moves_on_login by (simp add: split_beta)
next
  case (SecondFactorReq c code)
  then show ?thesis using moves_on_second_factor by (simp add: split_beta)
next
  case (ForgotPasswordReq e)
  then show ?thesis by (simp add: site_auth_forgot_password_def Let_def split_beta moves_on_attempts split: option.split)
next
  case (ResetPasswordReq t p h)
  then show ?thesis
    by (auto simp: site_auth_reset_password_def split_beta dest: op_moves_on split: option.split sum.split)
next
  case (VerifyEmailReq t)
  then show ?thesis
    by (auto simp: site_auth_verify_email_def split_beta dest: op_moves_on split: option.split sum.split)
next
  case (ConfirmEmailReq t raw)
  then show ?thesis
    by (auto simp: site_auth_confirm_email_change_def split_beta Let_def dest: op_moves_on
        split: option.split sum.split account_error.split)
next
  case (UpdateMeReq uid n p c h)
  then show ?thesis
    by (auto simp: site_user_update_me_def split_beta Let_def dest: op_moves_on split: option.split sum.split)
next
  case (SignOutReq uid)
  then show ?thesis
    by (auto simp: site_user_sign_out_everywhere_def split_beta dest: op_moves_on split: sum.split)
next
  case (FactorStartReq uid p s)
  then show ?thesis
    by (auto simp: site_second_factor_start_def split_beta dest: op_moves_on moves_on_prove split: sum.split)
next
  case (FactorConfirmReq uid p c codes)
  then show ?thesis
    by (auto simp: site_second_factor_confirm_def reissued_def split_beta dest: op_moves_on moves_on_prove split: sum.split)
next
  case (FactorRegenerateReq uid p codes)
  then show ?thesis
    by (auto simp: site_second_factor_regenerate_def reissued_def split_beta dest: op_moves_on moves_on_prove split: sum.split)
next
  case (FactorDisableReq uid p c)
  then show ?thesis
    by (auto simp: site_second_factor_disable_def reissued_def split_beta dest: op_moves_on moves_on_prove split: sum.split)
next
  case (ResetMemberReq uid s i)
  then show ?thesis
    by (auto simp: site_reset_second_factor_def split_beta dest: op_moves_on split: sum.split option.split factor_error.split)
next
  case (AccountReq aenv uid r)
  then show ?thesis using moves_on_handle by (simp add: split_beta)
next
  case PurgeAttemptsReq
  then show ?thesis by (simp add: moves_on_attempts)
qed

lemma auth_handle_all_moves_on: "moves_on d (auth_handle_all env reqs d)"
  by (induction env reqs d rule: auth_handle_all.induct) (auto intro: moves_on_trans auth_handle_moves_on)

section \<open>Revocation\<close>

definition epoch_up :: "id \<Rightarrow> accounts_db \<Rightarrow> accounts_db \<Rightarrow> bool" where
  "epoch_up uid d d' \<longleftrightarrow>
     (\<forall>u. get_user uid d = Some u \<longrightarrow> (\<exists>u'. get_user uid d' = Some u' \<and> u_session_epoch u < u_session_epoch u'))"

lemma epoch_up_update:
  assumes "\<And>u. u_id (f u) = u_id u" and "\<And>u. u_session_epoch u < u_session_epoch (f u)" and "users d' = users (update_user uid f e)"
    and "\<And>u. get_user uid d = Some u \<Longrightarrow> \<exists>v. get_user uid e = Some v \<and> u_session_epoch u \<le> u_session_epoch v"
  shows "epoch_up uid d d'"
  unfolding epoch_up_def
proof (intro allI impI)
  fix u assume "get_user uid d = Some u"
  then obtain v where v: "get_user uid e = Some v" "u_session_epoch u \<le> u_session_epoch v" using assms(4) by blast
  have "get_user uid d' = Some (f v)"
    using get_user_frame [OF assms(3), of uid] get_user_update_user [of f uid uid e, OF assms(1)] v(1) by simp
  with v(2) assms(2) [of v] show "\<exists>u'. get_user uid d' = Some u' \<and> u_session_epoch u < u_session_epoch u'" by force
qed

lemma epoch_up_profile:
  assumes "update_profile uid n (Some h) d = Inr (u, d')"
  shows "epoch_up uid d d'"
proof (rule epoch_up_update [where f = "set_profile n (Some h)" and e = d])
  show "users d' = users (update_user uid (set_profile n (Some h)) d)"
    using assms by (auto simp: update_profile_def Let_def split: if_splits option.splits)
qed (auto simp: set_profile_def Let_def split: option.split)

lemma epoch_up_set_password: "set_password uid h d = Inr d' \<Longrightarrow> epoch_up uid d d'"
  by (auto simp: set_password_def dest: epoch_up_profile split: sum.splits)

lemma epoch_up_end_sessions: "end_sessions uid d = Inr d' \<Longrightarrow> epoch_up uid d d'"
  by (rule epoch_up_update [where f = "\<lambda>u. u\<lparr>u_session_epoch := u_session_epoch u + 1\<rparr>" and e = d])
     (auto simp: end_sessions_def Let_def split: option.splits)

lemma epoch_up_change_email: "change_email now uid e d = Inr d' \<Longrightarrow> epoch_up uid d d'"
  by (rule epoch_up_update [where e = d and f = "\<lambda>u. u\<lparr>u_email := e, u_email_verified_at := Some now,
        u_session_epoch := u_session_epoch u + 1\<rparr>"])
     (auto simp: change_email_def split: option.splits if_splits)

lemma epoch_up_confirm:
  assumes "confirm_enrollment env now uid code codes d = Inr (u', d')"
  shows "epoch_up uid d d'"
proof -
  obtain u d1 where g: "get_user uid d = Some u" and t: "use_totp env now u code d = Inr d1"
    using assms by (auto simp: confirm_enrollment_def Let_def split: option.splits if_splits sum.splits)
  obtain step where g1: "get_user uid d1 = Some (u\<lparr>u_sf_last_step := step\<rparr>)"
    using t g by (rule use_totp_InrD)
  show ?thesis
  proof (rule epoch_up_update [where e = d1 and f = "\<lambda>u. (bump_epoch u)\<lparr>u_sf_confirmed_at := Some now\<rparr>"])
    show "users d' = users (update_user uid (\<lambda>u. (bump_epoch u)\<lparr>u_sf_confirmed_at := Some now\<rparr>) d1)"
      using assms g t by (auto simp: confirm_enrollment_def Let_def split: option.splits if_splits)
  qed (use g g1 in \<open>auto simp: bump_epoch_def\<close>)
qed

lemma epoch_up_regenerate: "regenerate_recovery_codes env uid codes d = Inr (u, d') \<Longrightarrow> epoch_up uid d d'"
  by (rule epoch_up_update [where f = bump_epoch and e = d])
     (auto simp: regenerate_recovery_codes_def bump_epoch_def split: option.splits if_splits)

lemma epoch_up_disable:
  assumes "disable env now uid code d = Inr (u', d')"
  shows "epoch_up uid d d'"
proof -
  obtain u m d1 where g: "get_user uid d = Some u" and v: "verify_code env now u code d = Inr (m, d1)"
    using assms by (auto simp: disable_def Let_def split: option.splits if_splits sum.splits)
  obtain u1 where g1: "get_user uid d1 = Some u1" "u_session_epoch u1 = u_session_epoch u"
    using v g by (rule verify_code_InrD)
  show ?thesis
  proof (rule epoch_up_update [where e = d1 and f = cleared_factor])
    show "users d' = users (update_user uid cleared_factor d1)"
      using assms g v by (auto simp: disable_def remove_factor_def Let_def split: option.splits if_splits)
  qed (use g g1 in \<open>auto simp: cleared_factor_def\<close>)
qed

lemma epoch_up_reset: "reset_factor uid a ws d = Inr d' \<Longrightarrow> epoch_up uid d d'"
  by (rule epoch_up_update [where f = cleared_factor and e = d])
     (auto simp: reset_factor_def reset_with_def remove_factor_def cleared_factor_def split: option.splits if_splits)

text \<open>The requests that end every session of the User \<open>uid\<close> when they succeed.\<close>

definition revokes :: "login_env \<Rightarrow> time \<Rightarrow> accounts_db \<Rightarrow> auth_request \<Rightarrow> id \<Rightarrow> bool" where
  "revokes env now d req uid \<longleftrightarrow>
     (case req of
        ResetPasswordReq t _ _ \<Rightarrow>
          map_option fst (parse_authtoken (le_signer env) now t PurposePasswordReset (password_hash_binding d)) = Some uid
      | ConfirmEmailReq t _ \<Rightarrow>
          map_option fst (parse_authtoken (le_signer env) now t PurposeEmailChange (current_email_binding d)) = Some uid
      | UpdateMeReq k _ new_password _ _ \<Rightarrow> k = uid \<and> new_password \<noteq> None \<and> new_password \<noteq> Some ''''
      | SignOutReq k \<Rightarrow> k = uid
      | FactorConfirmReq k _ _ _ \<Rightarrow> k = uid
      | FactorRegenerateReq k _ _ \<Rightarrow> k = uid
      | FactorDisableReq k _ _ \<Rightarrow> k = uid
      | ResetMemberReq k s i \<Rightarrow>
          (case (scope k s d, parse_int64 i) of
             (Some (w, _), Some target) \<Rightarrow>
               map_option mb_user (find_where (\<lambda>x. mb_workspace x = ws_id w \<and> mb_id x = target) (memberships d)) = Some uid
           | _ \<Rightarrow> False)
      | _ \<Rightarrow> False)"

lemma membership_for_scope: "membership_for now uid s d = Inr (w, m) \<Longrightarrow> scope uid s d = Some (w, m)"
  by (auto simp: membership_for_def membership_even_if_withheld_def split: option.splits sum.splits if_splits)

lemma membership_for_not_ok: "membership_for now uid s d \<noteq> Inl AnsOk"
  by (auto simp: membership_for_def membership_even_if_withheld_def split: option.splits)

lemma revokes_epoch_up:
  assumes "auth_handle env now req d = (True, d')" and "revokes env now d req uid"
  shows "epoch_up uid d d'"
proof (cases req)
  case (ResetPasswordReq t p h)
  with assms show ?thesis
    by (auto simp: revokes_def site_auth_reset_password_def split_beta dest: epoch_up_set_password
        split: option.splits if_splits sum.splits)
next
  case (ConfirmEmailReq t raw)
  with assms show ?thesis
    by (auto simp: revokes_def site_auth_confirm_email_change_def split_beta Let_def dest: epoch_up_change_email
        split: option.splits if_splits sum.splits account_error.splits)
next
  case (UpdateMeReq k n p c h)
  with assms show ?thesis
    by (auto simp: revokes_def site_user_update_me_def split_beta Let_def dest: epoch_up_profile
        split: option.splits if_splits sum.splits)
next
  case (SignOutReq k)
  with assms show ?thesis
    by (auto simp: revokes_def site_user_sign_out_everywhere_def dest: epoch_up_end_sessions split: sum.splits)
next
  case (FactorConfirmReq k p c codes)
  with assms show ?thesis
    by (auto simp: revokes_def site_second_factor_confirm_def reissued_def prove_password_def Let_def split_beta
        dest: epoch_up_confirm split: sum.splits option.splits if_splits factor_error.splits simp: factor_answer_def)
next
  case (FactorRegenerateReq k p codes)
  with assms show ?thesis
    by (auto simp: revokes_def site_second_factor_regenerate_def reissued_def prove_password_def Let_def split_beta
        dest: epoch_up_regenerate split: sum.splits option.splits if_splits factor_error.splits simp: factor_answer_def)
next
  case (FactorDisableReq k p c)
  with assms show ?thesis
    by (auto simp: revokes_def site_second_factor_disable_def reissued_def prove_password_def Let_def split_beta
        dest: epoch_up_disable split: sum.splits option.splits if_splits factor_error.splits simp: factor_answer_def)
next
  case (ResetMemberReq k s i)
  with assms membership_for_not_ok [of now k s d] show ?thesis
    by (auto simp: revokes_def site_reset_second_factor_def split_beta dest!: membership_for_scope dest: epoch_up_reset
        split: sum.splits option.splits if_splits factor_error.splits)
qed (use assms in \<open>simp_all add: revokes_def\<close>)

lemma parse_uint_nonneg_show: "parse_int64 (show_int i) = Some j \<Longrightarrow> j = i"
proof -
  assume p: "parse_int64 (show_int i) = Some j"
  show "j = i"
  proof (cases "i < 0")
    case True
    with p show ?thesis by (auto simp: parse_int64_def show_int_def split: if_splits)
  next
    case False
    obtain n where "n < 10" and "hd (show_nat (nat i)) = digit_char n" using hd_show_nat by blast
    then have "hd (show_nat (nat i)) \<noteq> CHR ''-'' \<and> hd (show_nat (nat i)) \<noteq> CHR ''+''"
      by (simp add: digit_char_not_sign)
    with False p show ?thesis by (auto simp: parse_int64_def show_int_def split: if_splits)
  qed
qed

text \<open>C15: Revocation is complete and final: once a User's password is changed or reset, their login
  email changed, their Second factor enrolled, disabled or reset by an admin, their Recovery codes
  regenerated or \<open>sign out everywhere\<close> used, no session issued to them before is ever accepted again,
  whatever requests come before and after and however long the token still has to live.\<close>

theorem revoked_sessions_refused:
  assumes "se_parse (le_session env) (issue (le_session env) issued u0) = Some (session_claims_of (le_session env) issued u0)"
    and "get_user uid d0 = Some u0"
    and "auth_handle env now req (auth_handle_all env before d0) = (True, d1)"
    and "revokes env now (auth_handle_all env before d0) req uid"
  shows "verify_session (le_session env) later_time (issue (le_session env) issued u0) (auth_handle_all env after d1) = None"
proof -
  let ?d = "auth_handle_all env before d0" and ?d2 = "auth_handle_all env after d1"
  have id0: "u_id u0 = uid" using assms(2) by (auto dest: get_user_SomeD)
  obtain u where u: "get_user uid ?d = Some u"
    using auth_handle_all_moves_on [of d0 env before] assms(2) by (auto simp: moves_on_def factor_state_def)
  have "u_session_epoch u0 \<le> u_session_epoch u"
    using moves_onD [OF auth_handle_all_moves_on assms(2) u] by (auto simp: later_def)
  moreover obtain u1 where u1: "get_user uid d1 = Some u1" "u_session_epoch u < u_session_epoch u1"
    using revokes_epoch_up [OF assms(3,4)] u by (auto simp: epoch_up_def)
  ultimately have "u_session_epoch u0 < u_session_epoch v" if v: "get_user uid ?d2 = Some v" for v
    using moves_onD [OF auth_handle_all_moves_on u1(1) v] by (auto simp: later_def)
  then have "get_user uid ?d2 = Some v \<Longrightarrow> u_session_epoch v \<noteq> u_session_epoch u0" for v by force
  then show ?thesis
    using id0 by (auto simp: verify_session_def assms(1) session_claims_of_def session_user_def
        dest!: parse_uint_nonneg_show split: option.splits)
qed

section \<open>Tokens work once\<close>

text \<open>What the flows rely on of HMAC and JWT: distinct messages give distinct keys, and a token
  verifies under at most one key.\<close>

definition sound_signer :: "signer \<Rightarrow> bool" where
  "sound_signer sg \<longleftrightarrow> inj (sg_hmac sg) \<and> (\<forall>k k' t. sg_verify sg k t \<and> sg_verify sg k' t \<longrightarrow> k = k')"

lemma derive_key_binding:
  assumes "sound_signer sg" and "derive_key sg p uid b = derive_key sg p uid b'"
  shows "b = b'"
  using assms by (simp add: sound_signer_def derive_key_def inj_eq)

lemma parse_authtoken_SomeD:
  assumes "parse_authtoken sg now token p binding_for = Some (uid, extra)"
  obtains c b where "sg_decode sg token = Some c" and "tc_uid c = uid" and "binding_for uid = Some b"
    and "sg_verify sg (derive_key sg p uid b) token"
  using assms by (auto simp: parse_authtoken_def split: option.splits if_splits)

lemma parse_authtoken_moved:
  assumes "sound_signer sg" and "parse_authtoken sg now token p f = Some (uid, extra)"
    and "g uid \<noteq> f uid"
  shows "parse_authtoken sg later_time token p g = None"
  using assms(2)
proof (rule parse_authtoken_SomeD)
  fix c b
  assume c: "sg_decode sg token = Some c" "tc_uid c = uid" "f uid = Some b" "sg_verify sg (derive_key sg p uid b) token"
  have "\<not> sg_verify sg (derive_key sg p uid b') token" if "g uid = Some b'" for b'
  proof
    assume "sg_verify sg (derive_key sg p uid b') token"
    with c(4) assms(1) have "derive_key sg p uid b' = derive_key sg p uid b" by (auto simp: sound_signer_def)
    then have "b' = b" by (rule derive_key_binding [OF assms(1)])
    with that c(3) assms(3) show False by simp
  qed
  with c(1,2) show ?thesis by (auto simp: parse_authtoken_def split: option.split)
qed

text \<open>C23: A login challenge token starts at most one session: after a second step has started one
  with it, the same token is refused as invalid whatever code comes with it, at any later time, after
  any further logins, second steps, account and settings requests.\<close>

theorem challenge_token_single_use:
  assumes "sound_signer (le_signer env)"
    and "site_auth_second_factor env now challenge code d = (SessionStarted s, d1)"
  shows "site_auth_second_factor env later_time challenge code' (auth_handle_all env reqs d1) =
    (ChallengeInvalid, auth_handle_all env reqs d1)"
proof -
  let ?d2 = "auth_handle_all env reqs d1"
  obtain u b where pl: "parse_login_challenge env now challenge d = Some (u, b)"
    using assms(2) by (auto simp: site_auth_second_factor_def split: option.splits)
  then obtain uid extra where p: "parse_authtoken (le_signer env) now challenge PurposeLoginChallenge (challenge_user_binding d) = Some (uid, extra)"
    and g: "get_user uid d = Some u" and cb: "challenge_user_binding d uid = Some b"
    by (auto simp: parse_login_challenge_def split: option.splits prod.splits)
  have ids: "u_id u = uid" using g by (auto dest: get_user_SomeD)
  obtain m d' where v: "verify (le_factor env) now uid b code d = Inr (m, d')"
    and d1: "d1 = snd (start_session env now u d')"
    using assms(2) pl ids
    by (auto simp: site_auth_second_factor_def Let_def start_session_def split: if_splits sum.splits factor_error.splits)
  obtain act: "active_factor u" and b: "binding_of u d = b" and vc: "verify_code (le_factor env) now u code d = Inr (m, d')"
    using v g by (auto simp: verify_def split: if_splits)
  have "challenge_user_binding ?d2 uid \<noteq> Some b"
    using vc g
  proof (rule verify_code_InrD)
    fix u1
    assume f: "get_user uid d' = Some u1" "u_session_epoch u1 = u_session_epoch u"
      "(u_sf_last_step u < u_sf_last_step u1 \<and> unused_codes uid d' = unused_codes uid d) \<or>
         (u_sf_last_step u1 = u_sf_last_step u \<and> unused_codes uid d' < unused_codes uid d)"
    show "challenge_user_binding ?d2 uid \<noteq> Some b"
    proof
      assume "challenge_user_binding ?d2 uid = Some b"
      then obtain u2 where g2: "get_user uid ?d2 = Some u2" and a2: "active_factor u2" and b2: "binding_of u2 ?d2 = b"
        by (auto simp: challenge_user_binding_def challenge_binding_def split: option.splits sum.splits if_splits)
      have "moves_on d' ?d2"
        using moves_on_start_session auth_handle_all_moves_on unfolding d1 by (rule moves_on_trans)
      then have "later (u1, unused_codes uid d') (u2, unused_codes uid ?d2)" by (rule moves_onD) (rule f(1), rule g2)
      moreover have "u_id u2 = uid" using g2 by (auto dest: get_user_SomeD)
      ultimately show False
        using binding_parts [OF trans [OF b b2 [symmetric]]] f a2 ids by (auto simp: later_def)
    qed
  qed
  then have "challenge_user_binding ?d2 uid \<noteq> challenge_user_binding d uid" using cb by simp
  from parse_authtoken_moved [where g = "challenge_user_binding ?d2", OF assms(1) p this]
  show ?thesis by (simp add: site_auth_second_factor_def parse_login_challenge_def)
qed

lemma reset_replaces_hash:
  assumes "parse_authtoken (le_signer env) now token PurposePasswordReset (password_hash_binding d) = Some (uid, extra)"
    and "site_auth_reset_password env now token password new_hash d = (FlowOk, d1)"
  shows "password_hash_binding d1 uid = Some new_hash"
proof -
  obtain u where "update_profile uid None (Some new_hash) d = Inr (u, d1)"
    using assms by (auto simp: site_auth_reset_password_def set_password_def split: if_splits sum.splits)
  then obtain u0 where u0: "get_user uid d = Some u0"
    and us: "users d1 = users (update_user uid (set_profile None (Some new_hash)) d)"
    by (auto simp: update_profile_def Let_def split: option.splits)
  have "get_user uid d1 = Some (set_profile None (Some new_hash) u0)"
    unfolding get_user_frame [OF us] by (subst get_user_update_user) (simp_all add: u0 set_profile_def)
  then show ?thesis by (simp add: password_hash_binding_def set_profile_def)
qed

text \<open>A password-reset link works once: after a reset with it to a new hash, the link is refused
  with nothing changed, right away and in every later state in which the User's password hash is not the
  one the link was used under.\<close>

theorem reset_link_single_use:
  assumes "sound_signer (le_signer env)"
    and "parse_authtoken (le_signer env) now token PurposePasswordReset (password_hash_binding d) = Some (uid, extra)"
    and "site_auth_reset_password env now token password new_hash d = (FlowOk, d1)"
    and "password_hash_binding d uid \<noteq> Some new_hash"
  shows "site_auth_reset_password env later_time token password' hash' d1 = (FlowBadRequest, d1) \<and>
    (\<forall>d2. password_hash_binding d2 uid \<noteq> password_hash_binding d uid \<longrightarrow>
      site_auth_reset_password env later_time token password' hash' d2 = (FlowBadRequest, d2))"
proof -
  have refused: "site_auth_reset_password env later_time token password' hash' e = (FlowBadRequest, e)"
    if "password_hash_binding e uid \<noteq> password_hash_binding d uid" for e
    using parse_authtoken_moved [where g = "password_hash_binding e", OF assms(1,2) that]
    by (simp add: site_auth_reset_password_def)
  have "password_hash_binding d1 uid \<noteq> password_hash_binding d uid"
    using reset_replaces_hash [OF assms(2,3)] assms(4) by simp
  with refused show ?thesis by blast
qed

section \<open>Guessing is throttled\<close>

fun wrong_logins :: "login_env \<Rightarrow> string \<Rightarrow> (time \<times> string) list \<Rightarrow> accounts_db \<Rightarrow> accounts_db option" where
  "wrong_logins env email [] d = Some d"
| "wrong_logins env email ((t, p) # rest) d =
     (case site_auth_login env t email p d of
        (CredentialsInvalid, d') \<Rightarrow> wrong_logins env email rest d'
      | _ \<Rightarrow> None)"

lemma login_rejected:
  assumes "site_auth_login env t email p d = (CredentialsInvalid, d')"
  shows "d' = d\<lparr>attempts := record_failure (le_rules env) t KindLogin (trim_space email) (attempts d)\<rparr>"
  using assms
  by (auto simp: site_auth_login_def Let_def count_failure_def start_session_def split: if_splits option.splits)

lemma wrong_logins_attempts:
  "wrong_logins env email guesses d = Some d' \<Longrightarrow>
     d' = d\<lparr>attempts := fail_at (le_rules env) KindLogin (trim_space email) (map fst guesses) (attempts d)\<rparr>"
proof (induction env email guesses d rule: wrong_logins.induct)
  case (2 env email t p rest d)
  obtain a d2 where ad: "site_auth_login env t email p d = (a, d2)" by (cases "site_auth_login env t email p d")
  with 2 have a: "a = CredentialsInvalid" by (cases a) auto
  note d2 = login_rejected [OF ad [unfolded a]]
  from 2 ad a have "d' = d2\<lparr>attempts := fail_at (le_rules env) KindLogin (trim_space email) (map fst rest) (attempts d2)\<rparr>"
    by simp
  then show ?case by (simp add: d2 fail_at_def)
qed (simp add: fail_at_def)

text \<open>C11: Password guessing is throttled per account, whether or not the account exists: after n
  rejected logins of an address, none further than 15 minutes from the one before, with n at least the
  limit, a login is answered 429 with the time left and changes nothing, even with the right password,
  until 1 second doubled (n - limit) times (at most 15 minutes) has passed since the last of them.\<close>

theorem guessing_is_throttled:
  assumes "le_rules env = configured_rules limit reset" and "0 < limit" and "attempts_ok (attempts d)"
    and "slot KindLogin (normalize_email email) (attempts d) = None"
    and "wrong_logins env email guesses d = Some d'"
    and "limit \<le> int (length guesses)" and "close_together (15 * minute) (map fst guesses)"
    and "fst (last guesses) \<le> now"
    and "now < fst (last guesses) + min (15 * minute) (second * 2 ^ nat (int (length guesses) - limit))"
  shows "site_auth_login env now email password d' =
    (TooManyAttempts (fst (last guesses) + min (15 * minute) (second * 2 ^ nat (int (length guesses) - limit)) - now), d')"
proof -
  have ne: "guesses \<noteq> []" using assms(2,6) by auto
  have norm: "normalize_email (trim_space email) = normalize_email email"
    by (simp add: normalize_email_def string_simps)
  have last: "last (map fst guesses) = fst (last guesses)" using ne by (simp add: last_map)
  have le: "now \<le> fst (last guesses) + 15 * minute" using assms(9) by simp
  have att: "attempts d' = fail_at (configured_rules limit reset) KindLogin (trim_space email) (map fst guesses) (attempts d)"
    by (subst wrong_logins_attempts [OF assms(5)]) (simp add: assms(1))
  have "delay (configured_rules limit reset) now KindLogin (trim_space email)
      (fail_at (configured_rules limit reset) KindLogin (trim_space email) (map fst guesses) (attempts d)) =
      (if int (length (map fst guesses)) < limit then 0
       else max (last (map fst guesses) + min (15 * minute) (second * 2 ^ nat (int (length (map fst guesses)) - limit)) - now) 0)"
    by (rule login_backoff) (use assms(2-4,7,8) ne last le norm in simp_all)
  then have "login_delay env now (trim_space email) d' =
      (if int (length guesses) < limit then 0
       else max (fst (last guesses) + min (15 * minute) (second * 2 ^ nat (int (length guesses) - limit)) - now) 0)"
    by (simp add: login_delay_def assms(1) att last)
  then show ?thesis
    using assms(6,9) last by (simp add: site_auth_login_def Let_def max_def)
qed

section \<open>A concrete instance\<close>

definition demo_signer :: "purpose \<Rightarrow> signer" where
  "demo_signer p = \<lparr>sg_hmac = \<lambda>s. s, sg_sign = \<lambda>k c. k,
     sg_decode = \<lambda>t. Some \<lparr>tc_exp = Some (24 * hour), tc_uid = 1, tc_purpose = purpose_name p, tc_extra = Map.empty\<rparr>,
     sg_verify = \<lambda>k t. k = t\<rparr>"

definition demo_session_env :: session_env where
  "demo_session_env = \<lparr>se_sign = \<lambda>_. ''s'',
     se_parse = \<lambda>_. Some (session_claims_of \<lparr>se_sign = \<lambda>_. ''s'', se_parse = \<lambda>_. None, se_ttl = hour\<rparr> 0 (demo_factor_user 0)),
     se_ttl = hour\<rparr>"

definition demo_login_env :: "purpose \<Rightarrow> login_env" where
  "demo_login_env p = \<lparr>le_factor = demo_factor_env, le_signer = demo_signer p, le_session = demo_session_env,
     le_rules = configured_rules 2 5, le_verify_password = \<lambda>h p. h = ''$'' @ p\<rparr>"

lemma demo_sound: "sound_signer (le_signer (demo_login_env p))"
  by (simp add: sound_signer_def demo_login_env_def demo_signer_def inj_on_def)

lemma revoked_sessions_refused_witness:
  "verify_session (le_session (demo_login_env PurposePasswordReset)) 5
     (issue (le_session (demo_login_env PurposePasswordReset)) 0 (demo_factor_user 0))
     (auth_handle_all (demo_login_env PurposePasswordReset) []
       (snd (auth_handle (demo_login_env PurposePasswordReset) 3 (SignOutReq 1) demo_factor_db))) = None"
proof -
  let ?env = "demo_login_env PurposePasswordReset"
  let ?d1 = "snd (auth_handle ?env 3 (SignOutReq 1) demo_factor_db)"
  have "fst (auth_handle ?env 3 (SignOutReq 1) (auth_handle_all ?env [] demo_factor_db))"
    by (simp add: site_user_sign_out_everywhere_def end_sessions_def demo_factor_defs get_user_def find_where_def Let_def)
  then have h: "auth_handle ?env 3 (SignOutReq 1) (auth_handle_all ?env [] demo_factor_db) = (True, ?d1)"
    by (metis auth_handle_all.simps(1) prod.collapse)
  show ?thesis
    by (rule revoked_sessions_refused [OF _ _ h])
       (simp_all add: revokes_def demo_login_env_def demo_session_env_def session_claims_of_def issue_def
         demo_factor_defs get_user_def find_where_def)
qed

lemma challenge_token_single_use_witness:
  "\<exists>s d1. site_auth_second_factor (demo_login_env PurposeLoginChallenge) (60 * second)
       (derive_key (demo_signer PurposeLoginChallenge) PurposeLoginChallenge 1 (binding_of (demo_factor_user 0) demo_factor_db))
       ''123452'' demo_factor_db = (SessionStarted s, d1) \<and>
     site_auth_second_factor (demo_login_env PurposeLoginChallenge) (61 * second)
       (derive_key (demo_signer PurposeLoginChallenge) PurposeLoginChallenge 1 (binding_of (demo_factor_user 0) demo_factor_db))
       ''abcde-fghij'' (auth_handle_all (demo_login_env PurposeLoginChallenge) [] d1) =
       (ChallengeInvalid, auth_handle_all (demo_login_env PurposeLoginChallenge) [] d1)"
proof -
  let ?env = "demo_login_env PurposeLoginChallenge"
  let ?t = "derive_key (demo_signer PurposeLoginChallenge) PurposeLoginChallenge 1 (binding_of (demo_factor_user 0) demo_factor_db)"
  have "case site_auth_second_factor ?env (60 * second) ?t ''123452'' demo_factor_db of (SessionStarted _, _) \<Rightarrow> True | _ \<Rightarrow> False"
    by code_simp
  then obtain s d1 where sd: "site_auth_second_factor ?env (60 * second) ?t ''123452'' demo_factor_db = (SessionStarted s, d1)"
    by (auto split: prod.splits login_answer.splits)
  from challenge_token_single_use [OF demo_sound sd] sd show ?thesis by blast
qed

lemma reset_link_single_use_witness:
  "\<exists>d1. site_auth_reset_password (demo_login_env PurposePasswordReset) 1
       (derive_key (demo_signer PurposePasswordReset) PurposePasswordReset 1 ''$p'') ''q'' ''$q'' demo_factor_db = (FlowOk, d1) \<and>
     site_auth_reset_password (demo_login_env PurposePasswordReset) 2
       (derive_key (demo_signer PurposePasswordReset) PurposePasswordReset 1 ''$p'') ''r'' ''$r'' d1 = (FlowBadRequest, d1)"
proof -
  let ?env = "demo_login_env PurposePasswordReset"
  let ?t = "derive_key (demo_signer PurposePasswordReset) PurposePasswordReset 1 ''$p''"
  have p: "parse_authtoken (le_signer ?env) 1 ?t PurposePasswordReset (password_hash_binding demo_factor_db) = Some (1, Map.empty)"
    by (simp add: parse_authtoken_def demo_login_env_def demo_signer_def password_hash_binding_def demo_factor_defs
        get_user_def find_where_def derive_key_def)
  obtain d1 where ok: "site_auth_reset_password ?env 1 ?t ''q'' ''$q'' demo_factor_db = (FlowOk, d1)"
    using p by (auto simp: site_auth_reset_password_def set_password_def update_profile_def Let_def get_user_def
        find_where_def demo_factor_defs)
  have "password_hash_binding demo_factor_db 1 \<noteq> Some ''$q''"
    by (simp add: password_hash_binding_def demo_factor_defs get_user_def find_where_def)
  from reset_link_single_use [OF demo_sound p ok this] ok show ?thesis by blast
qed

lemma guessing_is_throttled_witness:
  "\<exists>d'. site_auth_login (demo_login_env PurposePasswordReset) (1 * second) ''a@x'' ''p'' d' = (TooManyAttempts second, d')"
proof -
  let ?env = "demo_login_env PurposePasswordReset"
  let ?g = "[(0 :: time, ''x''), (1 * second, ''y'')]"
  have "wrong_logins ?env ''a@x'' ?g demo_factor_db \<noteq> None" by code_simp
  then obtain d' where w: "wrong_logins ?env ''a@x'' ?g demo_factor_db = Some d'" by blast
  have "site_auth_login ?env (1 * second) ''a@x'' ''p'' d' =
      (TooManyAttempts (fst (last ?g) + min (15 * minute) (second * 2 ^ nat (int (length ?g) - 2)) - 1 * second), d')"
    by (rule guessing_is_throttled [OF _ _ _ _ w])
       (simp_all add: demo_login_env_def demo_factor_defs attempts_ok_def slot_def find_where_def)
  then show ?thesis by (intro exI [of _ d']) simp
qed

end
