(* ===== verification/ApiTokens.thy ===== *)
theory ApiTokens
  imports MemberRequests "HOL-Library.List_Lexorder" "HOL-Library.Char_ord"
begin

text \<open>
  API tokens: their textual form (\<open>internal/credentials/tokens.go\<close>), minting and revoking
  (\<open>internal/apitokens\<close>), the Bearer authentication (\<open>internal/api/auth/auth.go\<close>), and the token
  endpoints of the site and the external API (\<open>internal/api/site/tokens.go\<close>,
  \<open>internal/api/external/auth.go\<close>). bcrypt is the pair \<open>token_hash\<close> and \<open>token_matches\<close>; random
  prefixes and secrets are arguments. The Audit entry of a minted or revoked token is the generated
  client's, and the rate limits around authentication are left out.
\<close>

section \<open>The textual form\<close>

text \<open>The regular expression \<open>^omtk_([a-z0-9]+)_([A-Za-z0-9_-]+)$\<close>; the first group cannot hold an
  underscore, so it ends at the first one.\<close>

definition token_value :: "string \<Rightarrow> string \<Rightarrow> string" where
  "token_value pfx secret = ''omtk_'' @ pfx @ ''_'' @ secret"

definition lower_or_digit :: "char \<Rightarrow> bool" where
  "lower_or_digit c \<longleftrightarrow> (let n = of_char c :: nat in (97 \<le> n \<and> n \<le> 122) \<or> (48 \<le> n \<and> n \<le> 57))"

definition url_safe :: "char \<Rightarrow> bool" where
  "url_safe c \<longleftrightarrow> (let n = of_char c :: nat in
     (97 \<le> n \<and> n \<le> 122) \<or> (65 \<le> n \<and> n \<le> 90) \<or> (48 \<le> n \<and> n \<le> 57) \<or> n = 95 \<or> n = 45)"

definition parse_api_token :: "string \<Rightarrow> (string \<times> string) option" where
  "parse_api_token v =
     (if take 5 v \<noteq> ''omtk_'' then None
      else
        let rest = drop 5 v;
            pfx = takeWhile (\<lambda>c. c \<noteq> CHR ''_'') rest;
            secret = drop (length pfx + 1) rest
        in if pfx \<noteq> '''' \<and> list_all lower_or_digit pfx \<and> length pfx < length rest \<and>
              secret \<noteq> '''' \<and> list_all url_safe secret
           then Some (pfx, secret) else None)"

lemma lower_or_digit_not_underscore: "lower_or_digit c \<Longrightarrow> c \<noteq> CHR ''_''"
  by (auto simp: lower_or_digit_def Let_def)

text \<open>The token handed out parses back to exactly its prefix and secret, for every prefix and
  secret of the generator's alphabets; a string with another prefix alphabet, no secret or a foreign
  character in it does not parse.\<close>

theorem api_token_roundtrip:
  "parse_api_token (token_value pfx secret) = Some (pfx, secret) \<longleftrightarrow>
     pfx \<noteq> '''' \<and> list_all lower_or_digit pfx \<and> secret \<noteq> '''' \<and> list_all url_safe secret"
proof (cases "list_all lower_or_digit pfx")
  case True
  then have "CHR ''_'' \<notin> set pfx" by (auto simp: list_all_iff dest: lower_or_digit_not_underscore)
  then have "takeWhile (\<lambda>c. c \<noteq> CHR ''_'') (pfx @ ''_'' @ secret) = pfx"
    by (subst takeWhile_append2) auto
  then show ?thesis using True by (auto simp: parse_api_token_def token_value_def Let_def)
next
  case False
  then show ?thesis by (auto simp: parse_api_token_def token_value_def Let_def)
qed

section \<open>Minting and revoking\<close>

record token_env =
  token_hash :: "string \<Rightarrow> string"
  token_matches :: "string \<Rightarrow> string \<Rightarrow> bool"

datatype token_error = NameEmpty | UnknownScope | ScopeEscalation | TokenNotFound | PrefixTaken

record token_input =
  ti_name :: string
  ti_scopes :: "string list"
  ti_expires_at :: "time option"

text \<open>The \<open>ApiTokenScope\<close> vocabulary of the external contract.\<close>

definition api_token_scopes :: "string list" where
  "api_token_scopes =
     [''contacts:read'', ''contacts:write'', ''contacts:erase'', ''segments:read'', ''segments:write'',
      ''events:read'', ''events:write'', ''broadcasts:read'', ''broadcasts:write'', ''automations:read'',
      ''automations:write'', ''templates:read'', ''templates:write'', ''webhooks:read'', ''webhooks:write'',
      ''custom_fields:read'', ''sending_domains:read'', ''sending_domains:write'', ''integrations:read'',
      ''integrations:write'', ''emails:send'', ''broadcasts:send'', ''automations:activate'', ''mcp:send'',
      ''tokens:read'', ''tokens:write'', ''audit:read'']"

definition valid_scope :: "string \<Rightarrow> bool" where
  "valid_scope s \<longleftrightarrow> s \<in> set api_token_scopes"

definition insert_token ::
    "token_env \<Rightarrow> id \<Rightarrow> string \<Rightarrow> string \<Rightarrow> string \<Rightarrow> string list \<Rightarrow> time option \<Rightarrow> accounts_db
      \<Rightarrow> token_error + (api_token \<times> accounts_db)" where
  "insert_token env ws name pfx secret scopes expires d =
     (if exists_where (\<lambda>t. tok_prefix t = pfx) (api_tokens d) then Inl PrefixTaken
      else let t = \<lparr>tok_id = fresh_id d, tok_workspace = ws, tok_name = name, tok_prefix = pfx,
             tok_secret_hash = token_hash env secret, tok_scopes = scopes, tok_expires_at = expires,
             tok_revoked_at = None\<rparr>
           in Inr (t, d\<lparr>api_tokens := api_tokens d @ [t], fresh_id := fresh_id d + 1\<rparr>))"

definition mint_token ::
    "token_env \<Rightarrow> id \<Rightarrow> token_input \<Rightarrow> string \<Rightarrow> string \<Rightarrow> accounts_db \<Rightarrow> token_error + (string \<times> accounts_db)" where
  "mint_token env ws inp pfx secret d =
     (let name = trim_space (ti_name inp); scopes = remdups_adj (sort (ti_scopes inp)) in
      if name = '''' then Inl NameEmpty
      else if \<not> list_all valid_scope scopes then Inl UnknownScope
      else case insert_token env ws name pfx secret scopes (ti_expires_at inp) d of
          Inl e \<Rightarrow> Inl e
        | Inr (t, d') \<Rightarrow> Inr (token_value pfx secret, d'))"

definition mint_within ::
    "token_env \<Rightarrow> id \<Rightarrow> string list \<Rightarrow> token_input \<Rightarrow> string \<Rightarrow> string \<Rightarrow> accounts_db \<Rightarrow> token_error + (string \<times> accounts_db)" where
  "mint_within env ws minter inp pfx secret d =
     (if \<exists>s \<in> set (ti_scopes inp). s \<notin> set minter then Inl ScopeEscalation
      else mint_token env ws inp pfx secret d)"

definition revoke_token :: "time \<Rightarrow> id \<Rightarrow> id \<Rightarrow> accounts_db \<Rightarrow> token_error + accounts_db" where
  "revoke_token now ws tid d =
     (let p = (\<lambda>t. tok_workspace t = ws \<and> tok_id t = tid \<and> tok_revoked_at t = None) in
      if count_where p (api_tokens d) = 0 then Inl TokenNotFound
      else Inr (d\<lparr>api_tokens := update_where p (\<lambda>t. t\<lparr>tok_revoked_at := Some now\<rparr>) (api_tokens d)\<rparr>))"

section \<open>Authentication\<close>

definition authenticate :: "token_env \<Rightarrow> time \<Rightarrow> string \<Rightarrow> accounts_db \<Rightarrow> api_token option" where
  "authenticate env now bearer d =
     (case parse_api_token bearer of
        None \<Rightarrow> None
      | Some (pfx, secret) \<Rightarrow>
         (case find_where (\<lambda>t. tok_prefix t = pfx) (api_tokens d) of
            None \<Rightarrow> None
          | Some t \<Rightarrow>
             if tok_revoked_at t \<noteq> None then None
             else if (case tok_expires_at t of None \<Rightarrow> False | Some e \<Rightarrow> e < now) then None
             else if \<not> token_matches env secret (tok_secret_hash t) then None
             else Some t))"

definition has_scope :: "api_token option \<Rightarrow> string \<Rightarrow> bool" where
  "has_scope t s = (case t of None \<Rightarrow> False | Some t \<Rightarrow> s \<in> set (tok_scopes t))"

definition workspace_by_key :: "string \<Rightarrow> accounts_db \<Rightarrow> tenant option" where
  "workspace_by_key key d =
     (if key = '''' then None else find_where (\<lambda>w. tn_collect_key w = key) (tenants d))"

section \<open>Endpoints\<close>

text \<open>\<open>AuthTokensCreate\<close>, \<open>AuthTokensDelete\<close> and \<open>AuthTokensBootstrap\<close> of the external API; the value
  is returned once.\<close>

definition auth_tokens_create ::
    "token_env \<Rightarrow> time \<Rightarrow> string \<Rightarrow> token_input \<Rightarrow> string \<Rightarrow> string \<Rightarrow> accounts_db \<Rightarrow> site_answer \<times> accounts_db" where
  "auth_tokens_create env now bearer inp pfx secret d =
     (case authenticate env now bearer d of
        None \<Rightarrow> (AnsForbidden, d)
      | Some t \<Rightarrow>
         if \<not> has_scope (Some t) ''tokens:write'' then (AnsForbidden, d)
         else case mint_within env (tok_workspace t) (tok_scopes t) inp pfx secret d of
             Inl ScopeEscalation \<Rightarrow> (AnsForbidden, d)
           | Inl NameEmpty \<Rightarrow> (AnsBadRequest, d)
           | Inl UnknownScope \<Rightarrow> (AnsBadRequest, d)
           | Inl _ \<Rightarrow> (AnsError, d)
           | Inr (_, d') \<Rightarrow> (AnsOk, d'))"

definition auth_tokens_delete :: "token_env \<Rightarrow> time \<Rightarrow> string \<Rightarrow> string \<Rightarrow> accounts_db \<Rightarrow> site_answer \<times> accounts_db" where
  "auth_tokens_delete env now bearer raw_id d =
     (case authenticate env now bearer d of
        None \<Rightarrow> (AnsForbidden, d)
      | Some t \<Rightarrow>
         if \<not> has_scope (Some t) ''tokens:write'' then (AnsForbidden, d)
         else case parse_int64 raw_id of
             None \<Rightarrow> (AnsBadRequest, d)
           | Some tid \<Rightarrow>
              (case revoke_token now (tok_workspace t) tid d of
                 Inl _ \<Rightarrow> (AnsNotFound, d) | Inr d' \<Rightarrow> (AnsOk, d')))"

definition auth_tokens_bootstrap ::
    "token_env \<Rightarrow> string \<Rightarrow> string \<Rightarrow> token_input \<Rightarrow> string \<Rightarrow> string \<Rightarrow> accounts_db \<Rightarrow> site_answer \<times> accounts_db" where
  "auth_tokens_bootstrap env configured given inp pfx secret d =
     (if configured = '''' \<or> given \<noteq> configured then (AnsForbidden, d)
      else case bootstrap_workspace d of
          None \<Rightarrow> (AnsError, d)
        | Some ws \<Rightarrow>
           (case mint_token env ws inp pfx secret d of
              Inl NameEmpty \<Rightarrow> (AnsBadRequest, d)
            | Inl UnknownScope \<Rightarrow> (AnsBadRequest, d)
            | Inl _ \<Rightarrow> (AnsError, d)
            | Inr (_, d') \<Rightarrow> (AnsOk, d')))"

definition site_tokens_create ::
    "token_env \<Rightarrow> time \<Rightarrow> id \<Rightarrow> string \<Rightarrow> token_input \<Rightarrow> string \<Rightarrow> string \<Rightarrow> accounts_db \<Rightarrow> site_answer \<times> accounts_db" where
  "site_tokens_create env now uid s inp pfx secret d =
     (case membership_for now uid s d of
        Inl a \<Rightarrow> (a, d)
      | Inr (w, m) \<Rightarrow>
         if \<not> can_manage_tokens (mb_role m) then (AnsForbidden, d)
         else case mint_token env (ws_id w) inp pfx secret d of
             Inl NameEmpty \<Rightarrow> (AnsUnprocessable, d)
           | Inl UnknownScope \<Rightarrow> (AnsUnprocessable, d)
           | Inl _ \<Rightarrow> (AnsError, d)
           | Inr (_, d') \<Rightarrow> (AnsOk, d'))"

definition site_tokens_delete :: "time \<Rightarrow> id \<Rightarrow> string \<Rightarrow> string \<Rightarrow> accounts_db \<Rightarrow> site_answer \<times> accounts_db" where
  "site_tokens_delete now uid s raw_id d =
     (case membership_for now uid s d of
        Inl a \<Rightarrow> (a, d)
      | Inr (w, m) \<Rightarrow>
         if \<not> can_manage_tokens (mb_role m) then (AnsForbidden, d)
         else case parse_int64 raw_id of
             None \<Rightarrow> (AnsBadRequest, d)
           | Some tid \<Rightarrow>
              (case revoke_token now (ws_id w) tid d of
                 Inl _ \<Rightarrow> (AnsNotFound, d) | Inr d' \<Rightarrow> (AnsOk, d')))"

end
