(* ===== verification/OAuth.thy ===== *)
theory OAuth
  imports ApiTokens
begin

text \<open>
  The OAuth authorization server for MCP connectors (\<open>internal/oauthserver\<close>): client registration, the
  consent decision, and the exchange of a one-time code for an API token, with the site handlers of the
  consent screen (\<open>internal/api/site/oauth.go\<close>). HTTP decoding and encoding are left out: a handler
  takes the decoded form and returns the RFC error code or its result.

  Parameters (\<open>oauth_env\<close>): \<open>url.Parse\<close> with \<open>net.ParseIP\<close>, SHA-256 of a code, the S256 challenge of
  a verifier, the query encoder of a redirect URL and bcrypt. Random client ids, codes, prefixes and
  secrets are arguments.
\<close>

section \<open>Scopes\<close>

definition scope_mcp_send :: string where "scope_mcp_send = ''mcp:send''"

definition grantable_scopes :: "string list" where
  "grantable_scopes =
     [''contacts:read'', ''contacts:write'', ''events:read'', ''events:write'', ''segments:read'', ''segments:write'',
      ''broadcasts:read'', ''broadcasts:write'', ''automations:read'', ''automations:write'', ''templates:read'',
      ''templates:write'', ''webhooks:read'', ''webhooks:write'', ''custom_fields:read'', ''sending_domains:read'',
      ''integrations:read'']"

definition send_scopes :: "string list" where
  "send_scopes = [''emails:send'', ''broadcasts:send'', ''automations:activate'', scope_mcp_send]"

definition supported_scopes :: "string list" where
  "supported_scopes = grantable_scopes @ send_scopes"

text \<open>\<open>strings.Fields\<close>.\<close>

fun string_fields_acc :: "string \<Rightarrow> string \<Rightarrow> string list" where
  "string_fields_acc acc [] = (if acc = [] then [] else [rev acc])"
| "string_fields_acc acc (c # cs) =
     (if is_space c then (if acc = [] then string_fields_acc [] cs else rev acc # string_fields_acc [] cs)
      else string_fields_acc (c # acc) cs)"

definition string_fields :: "string \<Rightarrow> string list" where
  "string_fields s = string_fields_acc [] s"

fun sort_scopes :: "string list \<Rightarrow> string list \<Rightarrow> string list \<Rightarrow> string list \<times> string list" where
  "sort_scopes granted send [] = (granted, send)"
| "sort_scopes granted send (s # rest) =
     (if s \<in> set grantable_scopes \<and> s \<notin> set granted then sort_scopes (granted @ [s]) send rest
      else if s \<in> set send_scopes \<and> s \<notin> set send then sort_scopes granted (send @ [s]) rest
      else sort_scopes granted send rest)"

definition requested_scopes :: "string \<Rightarrow> string list \<times> string list" where
  "requested_scopes scp =
     (if string_fields scp = [] then (grantable_scopes, [])
      else
        let (granted, send) = sort_scopes [] [] (string_fields scp)
        in (granted, if send \<noteq> [] \<and> scope_mcp_send \<notin> set send then send @ [scope_mcp_send] else send))"

section \<open>Parameters\<close>

record parsed_url =
  pu_scheme :: string
  pu_host :: string
  pu_hostname :: string
  pu_fragment :: string
  pu_has_user :: bool
  pu_loopback_ip :: bool

record oauth_env =
  oe_parse_url :: "string \<Rightarrow> parsed_url option"
  oe_sha :: "string \<Rightarrow> string"
  oe_s256 :: "string \<Rightarrow> string"
  oe_redirect :: "string \<Rightarrow> (string \<times> string) list \<Rightarrow> string"
  oe_token :: token_env
  oe_resource :: string

datatype oauth_error = UnknownClient | InvalidRequest | OauthFailed

definition code_ttl :: duration where "code_ttl = 5 * minute"

definition pkce_char :: "char \<Rightarrow> bool" where
  "pkce_char c = (let n = of_char c :: nat in
     (97 \<le> n \<and> n \<le> 122) \<or> (65 \<le> n \<and> n \<le> 90) \<or> (48 \<le> n \<and> n \<le> 57) \<or> c \<in> set ''-._~'')"

definition valid_pkce :: "string \<Rightarrow> bool" where
  "valid_pkce s \<longleftrightarrow> 43 \<le> length s \<and> length s \<le> 128 \<and> list_all pkce_char s"

section \<open>Registration\<close>

datatype registration_error = InvalidClientMetadata | InvalidRedirectUri

record registration =
  rg_redirect_uris :: "string list"
  rg_auth_method :: string
  rg_grant_types :: "string list"
  rg_client_name :: string

definition valid_redirect_uri :: "oauth_env \<Rightarrow> string \<Rightarrow> bool" where
  "valid_redirect_uri env raw =
     (case oe_parse_url env raw of
        None \<Rightarrow> False
      | Some u \<Rightarrow>
         if pu_host u = '''' \<or> pu_fragment u \<noteq> '''' \<or> pu_has_user u then False
         else if pu_scheme u = ''https'' then True
         else if pu_scheme u = ''http'' then pu_hostname u = ''localhost'' \<or> pu_loopback_ip u
         else False)"

definition register_client :: "oauth_env \<Rightarrow> registration \<Rightarrow> string \<Rightarrow> accounts_db \<Rightarrow> registration_error + (oauth_client \<times> accounts_db)" where
  "register_client env meta client_id d =
     (if rg_redirect_uris meta = [] \<or> 10 < length (rg_redirect_uris meta) then Inl InvalidRedirectUri
      else if \<not> list_all (valid_redirect_uri env) (rg_redirect_uris meta) then Inl InvalidRedirectUri
      else if rg_auth_method meta \<noteq> '''' \<and> rg_auth_method meta \<noteq> ''none'' then Inl InvalidClientMetadata
      else if rg_grant_types meta \<noteq> [] \<and> ''authorization_code'' \<notin> set (rg_grant_types meta)
      then Inl InvalidClientMetadata
      else
        let trimmed = trim_space (rg_client_name meta);
            c = \<lparr>oc_id = fresh_id d, oc_client_id = client_id,
                 oc_name = take 100 (if trimmed = '''' then ''MCP client'' else trimmed),
                 oc_redirect_uris = rg_redirect_uris meta\<rparr>
        in Inr (c, d\<lparr>oauth_clients := oauth_clients d @ [c], fresh_id := fresh_id d + 1\<rparr>))"

section \<open>Consent\<close>

definition get_client :: "string \<Rightarrow> string \<Rightarrow> accounts_db \<Rightarrow> oauth_error + oauth_client" where
  "get_client client_id redirect_uri d =
     (case find_where (\<lambda>c. oc_client_id c = client_id) (oauth_clients d) of
        None \<Rightarrow> Inl UnknownClient
      | Some c \<Rightarrow> if redirect_uri \<notin> set (oc_redirect_uris c) then Inl InvalidRequest else Inr c)"

definition describe :: "string \<Rightarrow> string \<Rightarrow> string \<Rightarrow> accounts_db \<Rightarrow> oauth_error + (string \<times> string list \<times> string list)" where
  "describe client_id redirect_uri scp d =
     (case get_client client_id redirect_uri d of
        Inl e \<Rightarrow> Inl e
      | Inr c \<Rightarrow>
         let (granted, send) = requested_scopes scp in
         if trim_space scp \<noteq> '''' \<and> granted = [] \<and> send = [] then Inl InvalidRequest
         else Inr (oc_name c, granted, send))"

record decision =
  dc_client_id :: string
  dc_redirect_uri :: string
  dc_state :: string
  dc_code_challenge :: string
  dc_scope :: string
  dc_workspace :: id
  dc_approve :: bool
  dc_allow_send :: bool

definition redirect_with :: "oauth_env \<Rightarrow> string \<Rightarrow> (string \<times> string) list \<Rightarrow> string \<Rightarrow> oauth_error + string" where
  "redirect_with env uri params state =
     (if oe_parse_url env uri = None then Inl InvalidRequest
      else Inr (oe_redirect env uri (params @ (if state \<noteq> '''' then [(''state'', state)] else []))))"

definition granted_scopes :: "decision \<Rightarrow> string list" where
  "granted_scopes dc =
     (let (granted, send) = requested_scopes (dc_scope dc)
      in if dc_allow_send dc then granted @ send else granted)"

text \<open>The code is stored before the redirect is built, so a redirect URI that does not parse leaves
  the row behind; the code never leaves the server then.\<close>

definition decide :: "oauth_env \<Rightarrow> time \<Rightarrow> decision \<Rightarrow> string \<Rightarrow> accounts_db \<Rightarrow> (oauth_error + string) \<times> accounts_db" where
  "decide env now dc code d =
     (case get_client (dc_client_id dc) (dc_redirect_uri dc) d of
        Inl e \<Rightarrow> (Inl e, d)
      | Inr c \<Rightarrow>
         if \<not> dc_approve dc then (redirect_with env (dc_redirect_uri dc) [(''error'', ''access_denied'')] (dc_state dc), d)
         else if \<not> valid_pkce (dc_code_challenge dc) then (Inl InvalidRequest, d)
         else
           let (granted, send) = requested_scopes (dc_scope dc) in
           if trim_space (dc_scope dc) \<noteq> '''' \<and> granted = [] \<and> send = [] then (Inl InvalidRequest, d)
           else if exists_where (\<lambda>g. og_code_hash g = oe_sha env code) (oauth_codes d) then (Inl OauthFailed, d)
           else
             (redirect_with env (dc_redirect_uri dc) [(''code'', code)] (dc_state dc),
              d\<lparr>oauth_codes := oauth_codes d @ [\<lparr>og_id = fresh_id d, og_code_hash = oe_sha env code, og_client = oc_id c,
                  og_workspace = dc_workspace dc, og_redirect_uri = dc_redirect_uri dc,
                  og_code_challenge = dc_code_challenge dc, og_scopes = granted_scopes dc,
                  og_expires_at = now + code_ttl, og_used_at = None\<rparr>],
                fresh_id := fresh_id d + 1\<rparr>))"

text \<open>\<open>SiteOAuthDecide\<close>: the signed-in User must be a member with a role that manages API tokens.\<close>

definition site_oauth_decide ::
    "oauth_env \<Rightarrow> time \<Rightarrow> id \<Rightarrow> string \<Rightarrow> decision \<Rightarrow> string \<Rightarrow> accounts_db \<Rightarrow> site_answer \<times> accounts_db" where
  "site_oauth_decide env now uid s dc code d =
     (case membership_for now uid s d of
        Inl a \<Rightarrow> (a, d)
      | Inr (w, m) \<Rightarrow>
         if \<not> can_manage_tokens (mb_role m) then (AnsForbidden, d)
         else
           let (r, d') = decide env now (dc\<lparr>dc_workspace := ws_id w\<rparr>) code d
           in (case r of Inl UnknownClient \<Rightarrow> AnsNotFound | Inl InvalidRequest \<Rightarrow> AnsBadRequest
               | Inl OauthFailed \<Rightarrow> AnsError | Inr _ \<Rightarrow> AnsOk, d'))"

section \<open>The authorize and token endpoints\<close>

datatype authorize_error = AuthzInvalidRequest | AuthzInvalidTarget

definition check_authorize_params ::
    "oauth_env \<Rightarrow> string \<Rightarrow> string \<Rightarrow> string \<Rightarrow> string \<Rightarrow> authorize_error option" where
  "check_authorize_params env response_type method challenge resource =
     (if response_type \<noteq> ''code'' then Some AuthzInvalidRequest
      else if method \<noteq> ''S256'' \<or> \<not> valid_pkce challenge then Some AuthzInvalidRequest
      else if resource \<noteq> '''' \<and> resource \<noteq> oe_resource env then Some AuthzInvalidTarget
      else None)"

text \<open>\<open>authorize\<close>: until the client and the redirect URI check out, an error is answered and not redirected.\<close>

record authorize_form =
  af_client_id :: string
  af_redirect_uri :: string
  af_response_type :: string
  af_method :: string
  af_challenge :: string
  af_resource :: string
  af_state :: string

datatype authorize_answer = AuthzBadRequest | AuthzRedirectError string | AuthzConsent

definition error_code :: "authorize_error \<Rightarrow> string" where
  "error_code e = (case e of AuthzInvalidRequest \<Rightarrow> ''invalid_request'' | AuthzInvalidTarget \<Rightarrow> ''invalid_target'')"

definition error_description :: "string \<Rightarrow> authorize_error \<Rightarrow> string" where
  "error_description response_type e =
     (case e of
        AuthzInvalidRequest \<Rightarrow>
          if response_type \<noteq> ''code'' then ''response_type must be code''
          else ''PKCE with code_challenge_method S256 is required''
      | AuthzInvalidTarget \<Rightarrow> ''unknown resource'')"

definition authorize :: "oauth_env \<Rightarrow> authorize_form \<Rightarrow> accounts_db \<Rightarrow> authorize_answer" where
  "authorize env f d =
     (case get_client (af_client_id f) (af_redirect_uri f) d of
        Inl _ \<Rightarrow> AuthzBadRequest
      | Inr c \<Rightarrow>
         (case check_authorize_params env (af_response_type f) (af_method f) (af_challenge f) (af_resource f) of
            None \<Rightarrow> AuthzConsent
          | Some e \<Rightarrow>
             (case redirect_with env (af_redirect_uri f)
                     [(''error'', error_code e), (''error_description'', error_description (af_response_type f) e)]
                     (af_state f) of
                Inl _ \<Rightarrow> AuthzBadRequest
              | Inr target \<Rightarrow> AuthzRedirectError target)))"

datatype token_answer =
    UnsupportedGrantType | InvalidTarget | InvalidGrant | ServerError | TokenIssued string "string list"

record token_form =
  tf_grant_type :: string
  tf_resource :: string
  tf_code :: string
  tf_client_id :: string
  tf_redirect_uri :: string
  tf_verifier :: string

definition exchange ::
    "oauth_env \<Rightarrow> time \<Rightarrow> token_form \<Rightarrow> string \<Rightarrow> string \<Rightarrow> accounts_db \<Rightarrow> token_answer \<times> accounts_db" where
  "exchange env now f pfx secret d =
     (if tf_grant_type f \<noteq> ''authorization_code'' then (UnsupportedGrantType, d)
      else if tf_resource f \<noteq> '''' \<and> tf_resource f \<noteq> oe_resource env then (InvalidTarget, d)
      else case find_where (\<lambda>g. og_code_hash g = oe_sha env (tf_code f)) (oauth_codes d) of
          None \<Rightarrow> (InvalidGrant, d)
        | Some g \<Rightarrow>
           (case find_where (\<lambda>c. oc_id c = og_client g) (oauth_clients d) of
              None \<Rightarrow> (ServerError, d)
            | Some c \<Rightarrow>
               if oc_client_id c \<noteq> tf_client_id f \<or> og_redirect_uri g \<noteq> tf_redirect_uri f then (InvalidGrant, d)
               else if \<not> valid_pkce (tf_verifier f) \<or> oe_s256 env (tf_verifier f) \<noteq> og_code_challenge g
               then (InvalidGrant, d)
               else
                 let p = (\<lambda>x. og_id x = og_id g \<and> og_used_at x = None \<and> now < og_expires_at x);
                     d1 = d\<lparr>oauth_codes := update_where p (\<lambda>x. x\<lparr>og_used_at := Some now\<rparr>) (oauth_codes d)\<rparr>
                 in if count_where p (oauth_codes d) = 0 then (InvalidGrant, d)
                    else case insert_token (oe_token env) (og_workspace g) (oc_name c @ '' (MCP)'') pfx secret
                           (og_scopes g) None d1 of
                        Inl _ \<Rightarrow> (ServerError, d1)
                      | Inr (t, d2) \<Rightarrow> (TokenIssued (token_value pfx secret) (og_scopes g), d2)))"

end
