(* ===== verification/Connectors.thy ===== *)
theory Connectors
  imports OAuth
begin

text \<open>
  The OAuth endpoints and the token endpoints of both APIs as one machine over the database, and what
  holds of every sequence of their requests: a code yields one token, a connector's token is exactly what
  a member allowed at the consent screen, a token minted through the external API never holds more than
  the token that minted it, and a revoked token is refused for good.
\<close>

section \<open>The requests\<close>

datatype connector_request =
    ReqRegister registration string
  | ReqDecide time id string decision string
  | ReqExchange time token_form string string
  | ReqTokenCreate time string token_input string string
  | ReqTokenDelete time string string
  | ReqSiteTokenCreate time id string token_input string string
  | ReqSiteTokenDelete time id string string

definition connect :: "oauth_env \<Rightarrow> connector_request \<Rightarrow> accounts_db \<Rightarrow> accounts_db" where
  "connect env r d =
     (case r of
        ReqRegister meta client_id \<Rightarrow>
          (case register_client env meta client_id d of Inl _ \<Rightarrow> d | Inr (_, d') \<Rightarrow> d')
      | ReqDecide t uid s dc code \<Rightarrow> snd (site_oauth_decide env t uid s dc code d)
      | ReqExchange t f pfx secret \<Rightarrow> snd (exchange env t f pfx secret d)
      | ReqTokenCreate t bearer inp pfx secret \<Rightarrow> snd (auth_tokens_create (oe_token env) t bearer inp pfx secret d)
      | ReqTokenDelete t bearer tid \<Rightarrow> snd (auth_tokens_delete (oe_token env) t bearer tid d)
      | ReqSiteTokenCreate t uid s inp pfx secret \<Rightarrow> snd (site_tokens_create (oe_token env) t uid s inp pfx secret d)
      | ReqSiteTokenDelete t uid s tid \<Rightarrow> snd (site_tokens_delete t uid s tid d))"

fun connect_all :: "oauth_env \<Rightarrow> connector_request list \<Rightarrow> accounts_db \<Rightarrow> accounts_db" where
  "connect_all env [] d = d"
| "connect_all env (r # rs) d = connect_all env rs (connect env r d)"

lemma connect_all_append: "connect_all env (rs @ rs') d = connect_all env rs' (connect_all env rs d)"
  by (induction rs arbitrary: d) simp_all

section \<open>What one request changes\<close>

text \<open>The rows of codes, tokens and members a request touches: codes and tokens are appended with the
  next id, a code's used mark and a token's revocation are set once, nothing is deleted.\<close>

definition appended_code :: "oauth_env \<Rightarrow> connector_request \<Rightarrow> accounts_db \<Rightarrow> oauth_code \<Rightarrow> bool" where
  "appended_code env r d g \<longleftrightarrow>
     (\<exists>t uid s dc code w m. r = ReqDecide t uid s dc code \<and> membership_for t uid s d = Inr (w, m) \<and>
        can_manage_tokens (mb_role m) \<and> dc_approve dc \<and> valid_pkce (dc_code_challenge dc) \<and>
        (\<forall>x \<in> set (oauth_codes d). og_code_hash x \<noteq> oe_sha env code) \<and>
        og_id g = fresh_id d \<and> og_code_hash g = oe_sha env code \<and> og_workspace g = ws_id w \<and>
        og_redirect_uri g = dc_redirect_uri dc \<and> og_code_challenge g = dc_code_challenge dc \<and>
        og_scopes g = granted_scopes dc \<and> og_expires_at g = t + code_ttl \<and> og_used_at g = None \<and>
        (\<exists>c \<in> set (oauth_clients d). oc_id c = og_client g \<and> oc_client_id c = dc_client_id dc \<and>
           dc_redirect_uri dc \<in> set (oc_redirect_uris c)))"

lemma get_client_InrD:
  "get_client cid uri d = Inr c \<Longrightarrow> c \<in> set (oauth_clients d) \<and> oc_client_id c = cid \<and> uri \<in> set (oc_redirect_uris c)"
  by (auto simp: get_client_def dest: find_where_SomeD split: option.splits if_splits)

lemma decide_codes:
  assumes "snd (decide env now dc code d) = d'"
  shows "d' = d \<or>
    (\<exists>g c. get_client (dc_client_id dc) (dc_redirect_uri dc) d = Inr c \<and> dc_approve dc \<and>
       valid_pkce (dc_code_challenge dc) \<and> \<not> exists_where (\<lambda>x. og_code_hash x = oe_sha env code) (oauth_codes d) \<and>
       g = \<lparr>og_id = fresh_id d, og_code_hash = oe_sha env code, og_client = oc_id c,
            og_workspace = dc_workspace dc, og_redirect_uri = dc_redirect_uri dc,
            og_code_challenge = dc_code_challenge dc, og_scopes = granted_scopes dc,
            og_expires_at = now + code_ttl, og_used_at = None\<rparr> \<and>
       d' = d\<lparr>oauth_codes := oauth_codes d @ [g], fresh_id := fresh_id d + 1\<rparr>)"
  using assms unfolding decide_def
  by (auto simp: Let_def split: sum.splits if_splits prod.splits)

lemma granted_scopes_workspace [simp]: "granted_scopes (dc\<lparr>dc_workspace := x\<rparr>) = granted_scopes dc"
  by (simp add: granted_scopes_def)

lemma site_decide_codes:
  assumes "snd (site_oauth_decide env t uid s dc code d) = d'"
  shows "d' = d \<or> (\<exists>g. appended_code env (ReqDecide t uid s dc code) d g \<and>
    d' = d\<lparr>oauth_codes := oauth_codes d @ [g], fresh_id := fresh_id d + 1\<rparr>)"
proof (cases "membership_for t uid s d")
  case (Inl a)
  then show ?thesis using assms by (simp add: site_oauth_decide_def)
next
  case (Inr wm)
  obtain w m where wm: "wm = (w, m)" by (cases wm)
  show ?thesis
  proof (cases "can_manage_tokens (mb_role m)")
    case False
    then show ?thesis using assms Inr wm by (simp add: site_oauth_decide_def)
  next
    case True
    then have "snd (decide env t (dc\<lparr>dc_workspace := ws_id w\<rparr>) code d) = d'"
      using assms Inr wm by (simp add: site_oauth_decide_def Let_def case_prod_beta)
    from decide_codes [OF this] show ?thesis
    proof (elim disjE exE conjE)
      assume "d' = d"
      then show ?thesis ..
    next
      fix g c
      assume c: "get_client (dc_client_id (dc\<lparr>dc_workspace := ws_id w\<rparr>)) (dc_redirect_uri (dc\<lparr>dc_workspace := ws_id w\<rparr>)) d = Inr c"
        and ok: "dc_approve (dc\<lparr>dc_workspace := ws_id w\<rparr>)" "valid_pkce (dc_code_challenge (dc\<lparr>dc_workspace := ws_id w\<rparr>))"
          "\<not> exists_where (\<lambda>x. og_code_hash x = oe_sha env code) (oauth_codes d)"
        and g: "g = \<lparr>og_id = fresh_id d, og_code_hash = oe_sha env code, og_client = oc_id c,
            og_workspace = dc_workspace (dc\<lparr>dc_workspace := ws_id w\<rparr>),
            og_redirect_uri = dc_redirect_uri (dc\<lparr>dc_workspace := ws_id w\<rparr>),
            og_code_challenge = dc_code_challenge (dc\<lparr>dc_workspace := ws_id w\<rparr>),
            og_scopes = granted_scopes (dc\<lparr>dc_workspace := ws_id w\<rparr>),
            og_expires_at = t + code_ttl, og_used_at = None\<rparr>"
        and d': "d' = d\<lparr>oauth_codes := oauth_codes d @ [g], fresh_id := fresh_id d + 1\<rparr>"
      have "appended_code env (ReqDecide t uid s dc code) d g"
        unfolding appended_code_def using True Inr wm ok get_client_InrD [OF c]
        by (auto simp: g exists_where_iff)
      with d' show ?thesis by blast
    qed
  qed
qed


text \<open>A successful exchange found the code unused and unexpired, and its form matched.\<close>

definition exchangeable :: "oauth_env \<Rightarrow> time \<Rightarrow> token_form \<Rightarrow> accounts_db \<Rightarrow> oauth_code \<Rightarrow> bool" where
  "exchangeable env now f d g \<longleftrightarrow>
     find_where (\<lambda>x. og_code_hash x = oe_sha env (tf_code f)) (oauth_codes d) = Some g \<and>
     og_redirect_uri g = tf_redirect_uri f \<and> valid_pkce (tf_verifier f) \<and>
     oe_s256 env (tf_verifier f) = og_code_challenge g \<and>
     (\<exists>c \<in> set (oauth_clients d). oc_id c = og_client g \<and> oc_client_id c = tf_client_id f)"

definition live_code :: "time \<Rightarrow> oauth_code \<Rightarrow> oauth_code \<Rightarrow> bool" where
  "live_code now g x \<longleftrightarrow> og_id x = og_id g \<and> og_used_at x = None \<and> now < og_expires_at x"

definition use_code :: "time \<Rightarrow> oauth_code \<Rightarrow> oauth_code list \<Rightarrow> oauth_code list" where
  "use_code now g rows = update_where (live_code now g) (\<lambda>x. x\<lparr>og_used_at := Some now\<rparr>) rows"

lemma insert_token_InrD:
  assumes "insert_token env ws name pfx secret scopes expires d = Inr (t, d')"
  shows "d' = d\<lparr>api_tokens := api_tokens d @ [t], fresh_id := fresh_id d + 1\<rparr> \<and> tok_id t = fresh_id d \<and>
    tok_workspace t = ws \<and> tok_prefix t = pfx \<and> tok_scopes t = scopes \<and> tok_revoked_at t = None \<and>
    tok_secret_hash t = token_hash env secret \<and> (\<forall>x \<in> set (api_tokens d). tok_prefix x \<noteq> pfx)"
  using assms by (auto simp: insert_token_def Let_def exists_where_iff split: if_splits)

lemma exchange_cases:
  assumes "exchange env now f pfx secret d = (a, d')"
  obtains (refused) "d' = d" "\<And>v sc. a \<noteq> TokenIssued v sc"
  | (burnt) g where "exchangeable env now f d g" "count_where (live_code now g) (oauth_codes d) \<noteq> 0"
      "d' = d\<lparr>oauth_codes := use_code now g (oauth_codes d)\<rparr>" "\<And>v sc. a \<noteq> TokenIssued v sc"
  | (issued) g t where "exchangeable env now f d g" "count_where (live_code now g) (oauth_codes d) \<noteq> 0"
      "a = TokenIssued (token_value pfx secret) (og_scopes g)" "tok_id t = fresh_id d" "tok_scopes t = og_scopes g"
      "tok_workspace t = og_workspace g" "tok_revoked_at t = None" "tok_prefix t = pfx"
      "d' = d\<lparr>oauth_codes := use_code now g (oauth_codes d), api_tokens := api_tokens d @ [t], fresh_id := fresh_id d + 1\<rparr>"
proof -
  have live: "(\<lambda>x. og_id x = og_id g \<and> og_used_at x = None \<and> now < og_expires_at x) = live_code now g" for g
    by (rule ext) (simp add: live_code_def)
  show thesis
  proof (cases "\<exists>g. exchangeable env now f d g \<and> count_where (live_code now g) (oauth_codes d) \<noteq> 0 \<and>
      tf_grant_type f = ''authorization_code'' \<and> \<not> (tf_resource f \<noteq> '''' \<and> tf_resource f \<noteq> oe_resource env)")
    case False
    have "d' = d \<and> (\<forall>v sc. a \<noteq> TokenIssued v sc)"
      using assms False unfolding exchange_def live exchangeable_def
      by (auto simp: Let_def split: if_splits option.splits dest!: find_where_SomeD)
    then show thesis using refused by blast
  next
    case True
    then obtain g where g: "exchangeable env now f d g" "count_where (live_code now g) (oauth_codes d) \<noteq> 0"
      "tf_grant_type f = ''authorization_code''" "\<not> (tf_resource f \<noteq> '''' \<and> tf_resource f \<noteq> oe_resource env)" by blast
    let ?d1 = "d\<lparr>oauth_codes := use_code now g (oauth_codes d)\<rparr>"
    show thesis
    proof (cases "find_where (\<lambda>c. oc_id c = og_client g) (oauth_clients d)")
      case None
      then have "d' = d \<and> (\<forall>v sc. a \<noteq> TokenIssued v sc)"
        using assms g by (auto simp: exchange_def exchangeable_def)
      then show thesis using refused by blast
    next
      case (Some c)
      show thesis
      proof (cases "oc_client_id c = tf_client_id f")
        case False
        then have "d' = d \<and> (\<forall>v sc. a \<noteq> TokenIssued v sc)"
          using assms g Some by (auto simp: exchange_def exchangeable_def)
        then show thesis using refused by blast
      next
        case True
        have step: "(case insert_token (oe_token env) (og_workspace g) (oc_name c @ '' (MCP)'') pfx secret
                           (og_scopes g) None ?d1 of
                        Inl _ \<Rightarrow> (ServerError, ?d1)
                      | Inr (t, d2) \<Rightarrow> (TokenIssued (token_value pfx secret) (og_scopes g), d2)) = (a, d')"
          using assms g Some True unfolding use_code_def by (simp add: exchange_def exchangeable_def live Let_def)
        show thesis
        proof (cases "insert_token (oe_token env) (og_workspace g) (oc_name c @ '' (MCP)'') pfx secret (og_scopes g) None ?d1")
          case (Inl e)
          then show thesis using step burnt [OF g(1,2)] by simp
        next
          case (Inr td)
          obtain t d2 where td: "td = (t, d2)" by (cases td)
          show thesis
            using step issued [OF g(1,2)] insert_token_InrD [OF Inr [unfolded td]] by (auto simp: Inr td)
        qed
      qed
    qed
  qed
qed


text \<open>The token endpoints: the row a request appends, and who allowed it.\<close>

definition appended_token :: "oauth_env \<Rightarrow> connector_request \<Rightarrow> accounts_db \<Rightarrow> api_token \<Rightarrow> bool" where
  "appended_token env r d t \<longleftrightarrow> tok_id t = fresh_id d \<and> tok_revoked_at t = None \<and>
     ((\<exists>now bearer inp pfx secret m. r = ReqTokenCreate now bearer inp pfx secret \<and>
         authenticate (oe_token env) now bearer d = Some m \<and> ''tokens:write'' \<in> set (tok_scopes m) \<and>
         tok_workspace t = tok_workspace m \<and> set (tok_scopes t) \<subseteq> set (tok_scopes m)) \<or>
      (\<exists>now uid s inp pfx secret w m. r = ReqSiteTokenCreate now uid s inp pfx secret \<and>
         membership_for now uid s d = Inr (w, m) \<and> can_manage_tokens (mb_role m) \<and>
         tok_workspace t = ws_id w \<and> set (tok_scopes t) \<subseteq> set (ti_scopes inp)) \<or>
      (\<exists>now f pfx secret g. r = ReqExchange now f pfx secret \<and> exchangeable env now f d g \<and>
         now < og_expires_at g \<and> tok_workspace t = og_workspace g \<and> tok_scopes t = og_scopes g))"

lemma mint_token_InrD:
  assumes "mint_token env ws inp pfx secret d = Inr (v, d')"
  obtains t where "d' = d\<lparr>api_tokens := api_tokens d @ [t], fresh_id := fresh_id d + 1\<rparr>" "tok_id t = fresh_id d"
    "tok_workspace t = ws" "set (tok_scopes t) = set (ti_scopes inp)" "tok_revoked_at t = None"
  using assms insert_token_InrD [of env ws "trim_space (ti_name inp)" pfx secret "remdups_adj (sort (ti_scopes inp))"]
  by (fastforce simp: mint_token_def Let_def split: if_splits sum.splits prod.splits)

lemma auth_tokens_create_cases:
  assumes "snd (auth_tokens_create (oe_token env) now bearer inp pfx secret d) = d'"
  shows "d' = d \<or> (\<exists>t. appended_token env (ReqTokenCreate now bearer inp pfx secret) d t \<and>
    d' = d\<lparr>api_tokens := api_tokens d @ [t], fresh_id := fresh_id d + 1\<rparr>)"
proof (cases "\<exists>m v. authenticate (oe_token env) now bearer d = Some m \<and> ''tokens:write'' \<in> set (tok_scopes m) \<and>
    set (ti_scopes inp) \<subseteq> set (tok_scopes m) \<and> mint_token (oe_token env) (tok_workspace m) inp pfx secret d = Inr (v, d')")
  case True
  then obtain m v where m: "authenticate (oe_token env) now bearer d = Some m" "''tokens:write'' \<in> set (tok_scopes m)"
    "set (ti_scopes inp) \<subseteq> set (tok_scopes m)" "mint_token (oe_token env) (tok_workspace m) inp pfx secret d = Inr (v, d')"
    by blast
  from mint_token_InrD [OF m(4)] obtain t where t: "d' = d\<lparr>api_tokens := api_tokens d @ [t], fresh_id := fresh_id d + 1\<rparr>"
    "tok_id t = fresh_id d" "tok_workspace t = tok_workspace m" "set (tok_scopes t) = set (ti_scopes inp)"
    "tok_revoked_at t = None" by blast
  have "appended_token env (ReqTokenCreate now bearer inp pfx secret) d t"
    unfolding appended_token_def using m t by simp
  with t(1) show ?thesis by blast
next
  case False
  then show ?thesis using assms
    by (auto simp: auth_tokens_create_def mint_within_def has_scope_def split: option.splits sum.splits token_error.splits if_splits)
qed

lemma site_tokens_create_cases:
  assumes "snd (site_tokens_create (oe_token env) now uid s inp pfx secret d) = d'"
  shows "d' = d \<or> (\<exists>t. appended_token env (ReqSiteTokenCreate now uid s inp pfx secret) d t \<and>
    d' = d\<lparr>api_tokens := api_tokens d @ [t], fresh_id := fresh_id d + 1\<rparr>)"
proof (cases "\<exists>w m v. membership_for now uid s d = Inr (w, m) \<and> can_manage_tokens (mb_role m) \<and>
    mint_token (oe_token env) (ws_id w) inp pfx secret d = Inr (v, d')")
  case True
  then obtain w m v where m: "membership_for now uid s d = Inr (w, m)" "can_manage_tokens (mb_role m)"
    "mint_token (oe_token env) (ws_id w) inp pfx secret d = Inr (v, d')" by blast
  from mint_token_InrD [OF m(3)] obtain t where t: "d' = d\<lparr>api_tokens := api_tokens d @ [t], fresh_id := fresh_id d + 1\<rparr>"
    "tok_id t = fresh_id d" "tok_workspace t = ws_id w" "set (tok_scopes t) = set (ti_scopes inp)"
    "tok_revoked_at t = None" by blast
  have "appended_token env (ReqSiteTokenCreate now uid s inp pfx secret) d t"
    unfolding appended_token_def using m t by simp
  with t(1) show ?thesis by blast
next
  case False
  then show ?thesis using assms
    by (auto simp: site_tokens_create_def split: sum.splits token_error.splits if_splits prod.splits)
qed


definition revoke_rows :: "time \<Rightarrow> id \<Rightarrow> id \<Rightarrow> api_token list \<Rightarrow> api_token list" where
  "revoke_rows now ws tid rows =
     update_where (\<lambda>t. tok_workspace t = ws \<and> tok_id t = tid \<and> tok_revoked_at t = None)
       (\<lambda>t. t\<lparr>tok_revoked_at := Some now\<rparr>) rows"

lemma revoke_token_InrD:
  "revoke_token now ws tid d = Inr d' \<Longrightarrow> d' = d\<lparr>api_tokens := revoke_rows now ws tid (api_tokens d)\<rparr>"
  by (auto simp: revoke_token_def revoke_rows_def Let_def split: if_splits)

lemma auth_tokens_delete_cases:
  "snd (auth_tokens_delete env now bearer raw d) = d \<or>
   (\<exists>ws tid. snd (auth_tokens_delete env now bearer raw d) = d\<lparr>api_tokens := revoke_rows now ws tid (api_tokens d)\<rparr>)"
  by (auto simp: auth_tokens_delete_def dest: revoke_token_InrD split: option.splits sum.splits)

lemma site_tokens_delete_cases:
  "snd (site_tokens_delete now uid s raw d) = d \<or>
   (\<exists>ws tid. snd (site_tokens_delete now uid s raw d) = d\<lparr>api_tokens := revoke_rows now ws tid (api_tokens d)\<rparr>)"
  by (auto simp: site_tokens_delete_def dest: revoke_token_InrD split: option.splits sum.splits prod.splits)

lemma register_client_InrD:
  "register_client env meta cid d = Inr (c, d') \<Longrightarrow>
     d' = d\<lparr>oauth_clients := oauth_clients d @ [c], fresh_id := fresh_id d + 1\<rparr> \<and> oc_id c = fresh_id d"
  by (auto simp: register_client_def Let_def split: if_splits)

inductive effect :: "oauth_env \<Rightarrow> connector_request \<Rightarrow> accounts_db \<Rightarrow> accounts_db \<Rightarrow> bool"
  for env r d where
  nothing: "effect env r d d"
| client: "oc_id c = fresh_id d \<Longrightarrow> effect env r d (d\<lparr>oauth_clients := oauth_clients d @ [c], fresh_id := fresh_id d + 1\<rparr>)"
| code: "appended_code env r d g \<Longrightarrow>
    effect env r d (d\<lparr>oauth_codes := oauth_codes d @ [g], fresh_id := fresh_id d + 1\<rparr>)"
| used: "effect env r d (d\<lparr>oauth_codes := use_code now g (oauth_codes d)\<rparr>)"
| token: "appended_token env r d t \<Longrightarrow>
    effect env r d (d\<lparr>api_tokens := api_tokens d @ [t], fresh_id := fresh_id d + 1\<rparr>)"
| issued: "appended_token env r d t \<Longrightarrow>
    effect env r d (d\<lparr>oauth_codes := use_code now g (oauth_codes d), api_tokens := api_tokens d @ [t], fresh_id := fresh_id d + 1\<rparr>)"
| revoked: "effect env r d (d\<lparr>api_tokens := revoke_rows now ws tid (api_tokens d)\<rparr>)"

definition codes_ok :: "accounts_db \<Rightarrow> bool" where
  "codes_ok d \<longleftrightarrow> distinct (map og_id (oauth_codes d)) \<and> (\<forall>g \<in> set (oauth_codes d). og_id g < fresh_id d) \<and>
     distinct (map tok_id (api_tokens d)) \<and> (\<forall>t \<in> set (api_tokens d). tok_id t < fresh_id d) \<and>
     distinct (map oc_id (oauth_clients d)) \<and> (\<forall>c \<in> set (oauth_clients d). oc_id c < fresh_id d)"

lemma same_id_same_code:
  "codes_ok d \<Longrightarrow> g \<in> set (oauth_codes d) \<Longrightarrow> x \<in> set (oauth_codes d) \<Longrightarrow> og_id x = og_id g \<Longrightarrow> x = g"
  by (auto simp: codes_ok_def distinct_map dest: inj_onD)

lemma live_codeD:
  assumes "codes_ok d" and "exchangeable env now f d g" and "count_where (live_code now g) (oauth_codes d) \<noteq> 0"
  shows "og_used_at g = None \<and> now < og_expires_at g"
proof -
  from assms(3) obtain x where "x \<in> set (oauth_codes d)" "live_code now g x" by (auto simp: count_where_pos_iff)
  moreover have "g \<in> set (oauth_codes d)" using assms(2) by (auto simp: exchangeable_def dest: find_where_SomeD)
  ultimately show ?thesis using same_id_same_code [OF assms(1)] by (auto simp: live_code_def)
qed

lemma connect_effect:
  assumes "codes_ok d"
  shows "effect env r d (connect env r d)"
proof (cases r)
  case (ReqRegister meta cid)
  then show ?thesis by (auto simp: connect_def intro: effect.intros dest: register_client_InrD split: sum.splits)
next
  case (ReqDecide t uid s dc code)
  have "snd (site_oauth_decide env t uid s dc code d) = connect env r d" by (simp add: connect_def ReqDecide)
  from site_decide_codes [OF this] show ?thesis by (auto simp: ReqDecide intro: effect.intros)
next
  case (ReqExchange t f pfx secret)
  obtain a d' where x: "exchange env t f pfx secret d = (a, d')" by (cases "exchange env t f pfx secret d")
  then have "connect env r d = d'" by (simp add: connect_def ReqExchange)
  with x show ?thesis
  proof (cases rule: exchange_cases)
    case (issued g u)
    have "appended_token env r d u"
      unfolding appended_token_def using issued live_codeD [OF assms issued(1,2)] ReqExchange by blast
    then show ?thesis using issued \<open>connect env r d = d'\<close> by (simp add: effect.issued)
  qed (auto intro: effect.intros)
next
  case (ReqTokenCreate now bearer inp pfx secret)
  have "snd (auth_tokens_create (oe_token env) now bearer inp pfx secret d) = connect env r d"
    by (simp add: connect_def ReqTokenCreate)
  from auth_tokens_create_cases [OF this] show ?thesis by (auto simp: ReqTokenCreate intro: effect.intros)
next
  case (ReqTokenDelete now bearer raw)
  then show ?thesis
    using auth_tokens_delete_cases [of "oe_token env" now bearer raw d] effect.intros by (auto simp: connect_def)
next
  case (ReqSiteTokenCreate now uid s inp pfx secret)
  have "snd (site_tokens_create (oe_token env) now uid s inp pfx secret d) = connect env r d"
    by (simp add: connect_def ReqSiteTokenCreate)
  from site_tokens_create_cases [OF this] show ?thesis by (auto simp: ReqSiteTokenCreate intro: effect.intros)
next
  case (ReqSiteTokenDelete now uid s raw)
  then show ?thesis
    using site_tokens_delete_cases [of now uid s raw d] effect.intros by (auto simp: connect_def)
qed

lemma effect_codes_ok:
  assumes "effect env r d d'" and "codes_ok d"
  shows "codes_ok d'"
  using assms
proof (cases rule: effect.cases)
  case (client c)
  then show ?thesis using assms(2) by (fastforce simp: codes_ok_def)
next
  case (code g)
  then show ?thesis using assms(2) by (fastforce simp: codes_ok_def appended_code_def)
next
  case (used now g)
  then show ?thesis using assms(2) by (auto simp: codes_ok_def use_code_def map_update_where table_simps)
next
  case (token t)
  then show ?thesis using assms(2) by (fastforce simp: codes_ok_def appended_token_def)
next
  case (issued t now g)
  then show ?thesis using assms(2)
    by (fastforce simp: codes_ok_def appended_token_def use_code_def map_update_where table_simps)
next
  case (revoked now ws tid)
  then show ?thesis using assms(2) by (auto simp: codes_ok_def revoke_rows_def map_update_where table_simps)
qed (auto simp: codes_ok_def)

lemma connect_codes_ok: "codes_ok d \<Longrightarrow> codes_ok (connect env r d)"
  by (rule effect_codes_ok [OF connect_effect])

lemma connect_all_codes_ok: "codes_ok d \<Longrightarrow> codes_ok (connect_all env rs d)"
  by (induction rs arbitrary: d) (simp_all add: connect_codes_ok)

lemma connect_all_snoc: "connect_all env (rs @ [r]) d = connect env r (connect_all env rs d)"
  by (simp add: connect_all_append)

section \<open>A code yields one token\<close>

definition spent_code :: "string \<Rightarrow> accounts_db \<Rightarrow> bool" where
  "spent_code h d \<longleftrightarrow>
     (\<exists>g. find_where (\<lambda>x. og_code_hash x = h) (oauth_codes d) = Some g \<and> og_used_at g \<noteq> None)"

lemma find_where_append_Some: "find_where q rows = Some r \<Longrightarrow> find_where q (rows @ rows2) = Some r"
  by (induction rows) (auto simp: find_where_def split: if_splits)

lemma use_code_find:
  "find_where (\<lambda>x. og_code_hash x = h) (use_code now g rows) =
     map_option (\<lambda>x. if live_code now g x then x\<lparr>og_used_at := Some now\<rparr> else x) (find_where (\<lambda>x. og_code_hash x = h) rows)"
  unfolding use_code_def by (rule find_where_update) simp

lemma use_code_used:
  "find_where (\<lambda>x. og_code_hash x = h) rows = Some y \<Longrightarrow> og_used_at y = Some u \<Longrightarrow>
     find_where (\<lambda>x. og_code_hash x = h) (use_code now g rows) = Some y"
  by (simp add: use_code_find live_code_def)

lemma effect_spent_code: "effect env r d d' \<Longrightarrow> spent_code h d \<Longrightarrow> spent_code h d'"
  by (induction rule: effect.induct) (auto simp: spent_code_def find_where_append_Some use_code_used)

lemma connect_all_spent_code: "codes_ok d \<Longrightarrow> spent_code h d \<Longrightarrow> spent_code h (connect_all env rs d)"
  by (induction rs arbitrary: d) (auto intro: effect_spent_code connect_effect connect_codes_ok)

lemma spent_code_refused:
  assumes "codes_ok d" and "spent_code (oe_sha env (tf_code f)) d"
  shows "snd (exchange env now f pfx secret d) = d \<and> fst (exchange env now f pfx secret d) \<noteq> TokenIssued v sc"
proof -
  obtain a d' where x: "exchange env now f pfx secret d = (a, d')" by (cases "exchange env now f pfx secret d")
  then show ?thesis
  proof (cases rule: exchange_cases)
    case refused
    then show ?thesis using x by simp
  next
    case (burnt g)
    then show ?thesis using live_codeD [OF assms(1) burnt(1,2)] assms(2) by (auto simp: spent_code_def exchangeable_def)
  next
    case (issued g t)
    then show ?thesis using live_codeD [OF assms(1) issued(1,2)] assms(2) by (auto simp: spent_code_def exchangeable_def)
  qed
qed

text \<open>An authorization code yields at most one API token: once the token endpoint has issued a token
  for a code, whatever decisions, registrations, exchanges, mintings and revocations follow, an exchange of
  the same code is refused and changes nothing, also with the right client, redirect URI and verifier.\<close>

theorem code_single_use:
  assumes "codes_ok d" and "exchange env now f pfx secret d = (TokenIssued v sc, d1)"
    and "d2 = connect_all env rs d1" and "tf_code f' = tf_code f"
  shows "snd (exchange env now' f' pfx' secret' d2) = d2 \<and>
    fst (exchange env now' f' pfx' secret' d2) \<noteq> TokenIssued v' sc'"
proof -
  have d1: "d1 = connect env (ReqExchange now f pfx secret) d" using assms(2) by (simp add: connect_def)
  have ok1: "codes_ok d1" unfolding d1 by (rule connect_codes_ok [OF assms(1)])
  have "spent_code (oe_sha env (tf_code f)) d1"
    using assms(2)
  proof (cases rule: exchange_cases)
    case (issued g t)
    then show ?thesis using live_codeD [OF assms(1) issued(1,2)]
      by (auto simp: spent_code_def use_code_find exchangeable_def live_code_def)
  qed auto
  then have "spent_code (oe_sha env (tf_code f')) d2"
    unfolding assms(3,4) by (rule connect_all_spent_code [OF ok1])
  then show ?thesis
    by (rule spent_code_refused [OF connect_all_codes_ok [OF ok1, of env rs, folded assms(3)]])
qed


section \<open>Where tokens come from\<close>

lemma effect_members:
  "effect env r d d' \<Longrightarrow> users d' = users d \<and> memberships d' = memberships d \<and> tenants d' = tenants d"
  by (induction rule: effect.induct) simp_all

lemma connect_all_members:
  assumes "codes_ok d"
  shows "membership_for now uid s (connect_all env rs d) = membership_for now uid s d"
proof -
  have same: "users (connect_all env rs d) = users d \<and> memberships (connect_all env rs d) = memberships d \<and>
      tenants (connect_all env rs d) = tenants d"
    using assms by (induction rs arbitrary: d) (simp_all add: connect_codes_ok effect_members [OF connect_effect])
  note rows = same [THEN conjunct1] same [THEN conjunct2, THEN conjunct1] same [THEN conjunct2, THEN conjunct2]
  show ?thesis
    unfolding membership_for_def membership_even_if_withheld_def scope_def tenant_by_slug_def get_user_def rows ..
qed

lemma effect_code_origin:
  assumes "effect env r d d'" and "g \<in> set (oauth_codes d')"
  shows "(\<exists>g' \<in> set (oauth_codes d). g\<lparr>og_used_at := None\<rparr> = g'\<lparr>og_used_at := None\<rparr>) \<or>
    appended_code env r d (g\<lparr>og_used_at := None\<rparr>)"
  using assms
proof (cases rule: effect.cases)
  case (code x)
  then show ?thesis using assms(2) by (auto simp: appended_code_def)
qed (use assms(2) in \<open>auto simp: use_code_def table_simps intro: bexI [rotated] split: if_splits\<close>)

definition consented :: "oauth_env \<Rightarrow> connector_request list \<Rightarrow> accounts_db \<Rightarrow> oauth_code \<Rightarrow> bool" where
  "consented env rs d g \<longleftrightarrow>
     (\<exists>t uid s dc code w m. ReqDecide t uid s dc code \<in> set rs \<and> membership_for t uid s d = Inr (w, m) \<and>
        can_manage_tokens (mb_role m) \<and> dc_approve dc \<and> og_code_hash g = oe_sha env code \<and> og_workspace g = ws_id w \<and>
        og_redirect_uri g = dc_redirect_uri dc \<and> og_code_challenge g = dc_code_challenge dc \<and>
        og_scopes g = granted_scopes dc \<and> og_expires_at g = t + code_ttl \<and>
        (\<exists>c \<in> set (oauth_clients (connect_all env rs d)). oc_id c = og_client g \<and> oc_client_id c = dc_client_id dc \<and>
           dc_redirect_uri dc \<in> set (oc_redirect_uris c)))"

lemma effect_clients: "effect env r d d' \<Longrightarrow> set (oauth_clients d) \<subseteq> set (oauth_clients d')"
  by (induction rule: effect.induct) auto

lemma codes_consented:
  assumes "codes_ok d" and "oauth_codes d = []" and "g \<in> set (oauth_codes (connect_all env rs d))"
  shows "consented env rs d g"
  using assms(3)
proof (induction rs arbitrary: g rule: rev_induct)
  case Nil
  then show ?case using assms(2) by simp
next
  case (snoc r rs)
  let ?d = "connect_all env rs d"
  have e: "effect env r ?d (connect env r ?d)" by (rule connect_effect [OF connect_all_codes_ok [OF assms(1)]])
  note more = effect_clients [OF e]
  have "g \<in> set (oauth_codes (connect env r ?d))" using snoc.prems by (simp add: connect_all_snoc)
  with e consider (old) g' where "g' \<in> set (oauth_codes ?d)" "g\<lparr>og_used_at := None\<rparr> = g'\<lparr>og_used_at := None\<rparr>"
    | (new) "appended_code env r ?d (g\<lparr>og_used_at := None\<rparr>)"
    using effect_code_origin by blast
  then show ?case
  proof cases
    case old
    from old(2) have same: "og_code_hash g = og_code_hash g' \<and> og_workspace g = og_workspace g' \<and>
        og_redirect_uri g = og_redirect_uri g' \<and> og_code_challenge g = og_code_challenge g' \<and>
        og_scopes g = og_scopes g' \<and> og_expires_at g = og_expires_at g' \<and> og_client g = og_client g'"
      by (cases g; cases g') simp
    show ?thesis using snoc.IH [OF old(1)] more unfolding consented_def connect_all_snoc by (fastforce simp: same)
  next
    case new
    then obtain t uid s dc code w m c where r: "r = ReqDecide t uid s dc code"
      and m: "membership_for t uid s ?d = Inr (w, m)" "can_manage_tokens (mb_role m)" "dc_approve dc"
      and g: "og_code_hash g = oe_sha env code" "og_workspace g = ws_id w" "og_redirect_uri g = dc_redirect_uri dc"
        "og_code_challenge g = dc_code_challenge dc" "og_scopes g = granted_scopes dc" "og_expires_at g = t + code_ttl"
      and c: "c \<in> set (oauth_clients ?d)" "oc_id c = og_client g" "oc_client_id c = dc_client_id dc"
        "dc_redirect_uri dc \<in> set (oc_redirect_uris c)"
      unfolding appended_code_def by auto
    have "ReqDecide t uid s dc code \<in> set (rs @ [r])" by (simp add: r)
    with m g c more show ?thesis
      unfolding consented_def connect_all_snoc connect_all_members [OF assms(1)] by blast
  qed
qed


text \<open>C16: A token the token endpoint issues is exactly what a User allowed at the consent screen: some
  decision before it approved the very client, redirect URI and challenge the exchange matches, less than
  five minutes earlier, by a member whose role manages API tokens of the token's Workspace; the token
  holds the scopes of that decision and no others.\<close>

theorem connector_token_is_consented:
  assumes "codes_ok d" and "oauth_codes d = []"
    and "exchange env now f pfx secret (connect_all env rs d) = (TokenIssued v sc, d')"
  shows "\<exists>t uid s dc code w m. ReqDecide t uid s dc code \<in> set rs \<and> dc_approve dc \<and>
    membership_for t uid s d = Inr (w, m) \<and> can_manage_tokens (mb_role m) \<and> now < t + code_ttl \<and>
    oe_sha env code = oe_sha env (tf_code f) \<and> dc_client_id dc = tf_client_id f \<and>
    dc_redirect_uri dc = tf_redirect_uri f \<and> dc_code_challenge dc = oe_s256 env (tf_verifier f) \<and>
    sc = granted_scopes dc \<and>
    (\<exists>tok \<in> set (api_tokens d'). tok_prefix tok = pfx \<and> tok_workspace tok = ws_id w \<and> tok_scopes tok = granted_scopes dc)"
  using assms(3)
proof (cases rule: exchange_cases)
  case (issued g tok)
  let ?d = "connect_all env rs d"
  have ok: "codes_ok ?d" by (rule connect_all_codes_ok [OF assms(1)])
  note live = live_codeD [OF ok issued(1,2)]
  have found: "g \<in> set (oauth_codes ?d)" "og_code_hash g = oe_sha env (tf_code f)"
    using issued(1) by (auto simp: exchangeable_def dest: find_where_SomeD)
  from codes_consented [OF assms(1,2) found(1)] obtain t uid s dc code w m c where
    r: "ReqDecide t uid s dc code \<in> set rs" "membership_for t uid s d = Inr (w, m)" "can_manage_tokens (mb_role m)"
      "dc_approve dc" and
    g: "og_code_hash g = oe_sha env code" "og_workspace g = ws_id w" "og_redirect_uri g = dc_redirect_uri dc"
      "og_code_challenge g = dc_code_challenge dc" "og_scopes g = granted_scopes dc" "og_expires_at g = t + code_ttl" and
    c: "c \<in> set (oauth_clients ?d)" "oc_id c = og_client g" "oc_client_id c = dc_client_id dc"
    unfolding consented_def by blast
  obtain c' where c': "c' \<in> set (oauth_clients ?d)" "oc_id c' = og_client g" "oc_client_id c' = tf_client_id f"
    using issued(1) unfolding exchangeable_def by blast
  have "inj_on oc_id (set (oauth_clients ?d))" using ok by (simp add: codes_ok_def distinct_map)
  then have "c = c'" using c c' by (simp add: inj_on_def)
  then have "dc_client_id dc = tf_client_id f" using c c' by simp
  moreover have "og_redirect_uri g = tf_redirect_uri f \<and> og_code_challenge g = oe_s256 env (tf_verifier f)"
    using issued(1) by (simp add: exchangeable_def)
  moreover have "tok \<in> set (api_tokens d')" using issued by simp
  ultimately show ?thesis using r g found live issued by (intro exI conjI bexI) auto
qed auto

section \<open>What a connector may be granted\<close>

lemma set_sort_scopes:
  assumes "sort_scopes granted send ss = (granted', send')"
  shows "set granted' = set granted \<union> (set ss \<inter> set grantable_scopes)" and
    "set send' = set send \<union> (set ss \<inter> set send_scopes)"
proof -
  have disj: "x \<in> set grantable_scopes \<Longrightarrow> x \<notin> set send_scopes" for x
    by (auto simp: grantable_scopes_def send_scopes_def scope_mcp_send_def)
  show "set granted' = set granted \<union> (set ss \<inter> set grantable_scopes)"
    using assms by (induction ss arbitrary: granted send) (auto split: if_splits)
  show "set send' = set send \<union> (set ss \<inter> set send_scopes)"
    using assms by (induction ss arbitrary: granted send) (auto split: if_splits dest: disj)
qed

text \<open>The scopes a decision grants are the requested ones of the default vocabulary (all of it when
  none was requested), and the requested send-class ones exactly when the User opted in, in which case the
  MCP send key comes along.\<close>

theorem scopes_granted:
  "s \<in> set (granted_scopes dc) \<longleftrightarrow>
     (s \<in> set grantable_scopes \<and> (string_fields (dc_scope dc) = [] \<or> s \<in> set (string_fields (dc_scope dc)))) \<or>
     (dc_allow_send dc \<and> s \<in> set send_scopes \<and>
       (s \<in> set (string_fields (dc_scope dc)) \<or>
        (s = scope_mcp_send \<and> (\<exists>x. x \<in> set (string_fields (dc_scope dc)) \<and> x \<in> set send_scopes))))"
proof (cases "string_fields (dc_scope dc) = []")
  case True
  then show ?thesis by (auto simp: granted_scopes_def requested_scopes_def)
next
  case False
  obtain g h where ss: "sort_scopes [] [] (string_fields (dc_scope dc)) = (g, h)" by fastforce
  have "set g = set (string_fields (dc_scope dc)) \<inter> set grantable_scopes" "set h = set (string_fields (dc_scope dc)) \<inter> set send_scopes"
    using set_sort_scopes [OF ss] by simp_all
  moreover have "scope_mcp_send \<in> set send_scopes" by (simp add: send_scopes_def)
  moreover have "h \<noteq> [] \<longleftrightarrow> (\<exists>x. x \<in> set h)" by (cases h) auto
  ultimately show ?thesis using False by (auto simp: granted_scopes_def requested_scopes_def ss)
qed


section \<open>Every token has an authority\<close>

text \<open>Who stands behind a token's access to a Workspace: a token held at the start, a member who minted
  it on the site, or a member who approved a connector.\<close>

definition authorised :: "connector_request list \<Rightarrow> accounts_db \<Rightarrow> id \<Rightarrow> string set \<Rightarrow> bool" where
  "authorised rs d ws S \<longleftrightarrow>
     (\<exists>t \<in> set (api_tokens d). tok_workspace t = ws \<and> S \<subseteq> set (tok_scopes t)) \<or>
     (\<exists>now uid s inp pfx secret w m. ReqSiteTokenCreate now uid s inp pfx secret \<in> set rs \<and>
        membership_for now uid s d = Inr (w, m) \<and> can_manage_tokens (mb_role m) \<and> ws_id w = ws \<and>
        S \<subseteq> set (ti_scopes inp)) \<or>
     (\<exists>now uid s dc code w m. ReqDecide now uid s dc code \<in> set rs \<and> dc_approve dc \<and>
        membership_for now uid s d = Inr (w, m) \<and> can_manage_tokens (mb_role m) \<and> ws_id w = ws \<and>
        S \<subseteq> set (granted_scopes dc))"

lemma authorised_mono: "authorised rs d ws S \<Longrightarrow> S' \<subseteq> S \<Longrightarrow> set rs \<subseteq> set rs' \<Longrightarrow> authorised rs' d ws S'"
  unfolding authorised_def by (elim disjE) (blast+)

lemma authenticate_SomeD:
  "authenticate env now v d = Some t \<Longrightarrow> t \<in> set (api_tokens d) \<and> tok_revoked_at t = None"
  by (auto simp: authenticate_def dest: find_where_SomeD split: option.splits prod.splits if_splits)

lemma effect_token_origin:
  assumes "effect env r d d'" and "t \<in> set (api_tokens d')"
  shows "(\<exists>t' \<in> set (api_tokens d). tok_workspace t = tok_workspace t' \<and> tok_scopes t = tok_scopes t') \<or>
    appended_token env r d t"
  using assms
proof (cases rule: effect.cases)
  case (revoked now ws tid)
  then show ?thesis using assms(2) by (fastforce simp: revoke_rows_def table_simps)
qed (use assms(2) in auto)

lemma tokens_authorised:
  assumes "codes_ok d" and "oauth_codes d = []" and "t \<in> set (api_tokens (connect_all env rs d))"
  shows "authorised rs d (tok_workspace t) (set (tok_scopes t))"
  using assms(3)
proof (induction rs arbitrary: t rule: rev_induct)
  case Nil
  then show ?case by (auto simp: authorised_def)
next
  case (snoc r rs)
  let ?d = "connect_all env rs d"
  have ok: "codes_ok ?d" by (rule connect_all_codes_ok [OF assms(1)])
  have old: "authorised (rs @ [r]) d (tok_workspace x) S" if "x \<in> set (api_tokens ?d)" "S \<subseteq> set (tok_scopes x)" for x S
    by (rule authorised_mono [OF snoc.IH [OF that(1)] that(2)]) auto
  have "t \<in> set (api_tokens (connect env r ?d))" using snoc.prems by (simp add: connect_all_snoc)
  with effect_token_origin [OF connect_effect [OF ok]] consider
    (before) x where "x \<in> set (api_tokens ?d)" "tok_workspace t = tok_workspace x" "tok_scopes t = tok_scopes x"
  | (new) "appended_token env r ?d t" by blast
  then show ?case
  proof cases
    case before
    then show ?thesis using old [OF before(1)] by simp
  next
    case new
    then consider
      (minted) now bearer m where "authenticate (oe_token env) now bearer ?d = Some m"
        "tok_workspace t = tok_workspace m" "set (tok_scopes t) \<subseteq> set (tok_scopes m)"
    | (site) now uid s inp pfx secret w m where "r = ReqSiteTokenCreate now uid s inp pfx secret"
        "membership_for now uid s ?d = Inr (w, m)" "can_manage_tokens (mb_role m)"
        "tok_workspace t = ws_id w" "set (tok_scopes t) \<subseteq> set (ti_scopes inp)"
    | (exchanged) now f g where "exchangeable env now f ?d g" "tok_workspace t = og_workspace g" "tok_scopes t = og_scopes g"
      unfolding appended_token_def by blast
    then show ?thesis
    proof cases
      case minted
      then show ?thesis using old [of m] authenticate_SomeD [OF minted(1)] by simp
    next
      case site
      then show ?thesis using connect_all_members [OF assms(1)] unfolding authorised_def by fastforce
    next
      case exchanged
      have "g \<in> set (oauth_codes ?d)" using exchanged(1) by (auto simp: exchangeable_def dest: find_where_SomeD)
      from codes_consented [OF assms(1,2) this] exchanged(2,3) have "authorised rs d (tok_workspace t) (set (tok_scopes t))"
        unfolding consented_def authorised_def by fastforce
      then show ?thesis by (rule authorised_mono) auto
    qed
  qed
qed


section \<open>A revoked token\<close>

definition dead_token :: "id \<Rightarrow> accounts_db \<Rightarrow> bool" where
  "dead_token tid d \<longleftrightarrow> tid < fresh_id d \<and> (\<forall>t \<in> set (api_tokens d). tok_id t = tid \<longrightarrow> tok_revoked_at t \<noteq> None)"

lemma effect_dead_token: "effect env r d d' \<Longrightarrow> dead_token tid d \<Longrightarrow> dead_token tid d'"
  by (induction rule: effect.induct)
    (auto simp: dead_token_def appended_token_def revoke_rows_def table_simps)

lemma connect_all_dead_token: "codes_ok d \<Longrightarrow> dead_token tid d \<Longrightarrow> dead_token tid (connect_all env rs d)"
  by (induction rs arbitrary: d) (auto intro: effect_dead_token connect_effect connect_codes_ok)

text \<open>Once a token is revoked, no Bearer value authenticates as it again, at any time and after
  any further requests.\<close>

theorem revoked_token_refused:
  assumes "codes_ok d" and "revoke_token now ws tid d = Inr d1" and "d2 = connect_all env rs d1"
    and "authenticate (oe_token env) now' bearer d2 = Some t"
  shows "tok_id t \<noteq> tid"
proof
  assume t: "tok_id t = tid"
  have d1: "d1 = d\<lparr>api_tokens := revoke_rows now ws tid (api_tokens d)\<rparr>" by (rule revoke_token_InrD [OF assms(2)])
  have ok1: "codes_ok d1" by (rule effect_codes_ok [OF _ assms(1), of env]) (simp add: d1 effect.revoked)
  obtain x where x: "x \<in> set (api_tokens d)" "tok_id x = tid" "tok_workspace x = ws"
    using assms(2) by (auto simp: revoke_token_def Let_def count_where_pos_iff split: if_splits)
  have only: "y = x" if "y \<in> set (api_tokens d)" "tok_id y = tid" for y
    using assms(1) x(1,2) that by (simp add: codes_ok_def distinct_map inj_on_def)
  have "tid < fresh_id d" using x(1,2) assms(1) by (auto simp: codes_ok_def)
  have "tok_revoked_at y \<noteq> None" if y: "y \<in> set (revoke_rows now ws tid (api_tokens d))" "tok_id y = tid" for y
  proof -
    obtain z where z: "z \<in> set (api_tokens d)" and
      yz: "y = (if tok_workspace z = ws \<and> tok_id z = tid \<and> tok_revoked_at z = None then z\<lparr>tok_revoked_at := Some now\<rparr> else z)"
      using y(1) unfolding revoke_rows_def set_update_where by blast
    have "tok_id z = tid" using y(2) by (simp add: yz split: if_splits)
    then have "z = x" by (rule only [OF z])
    then show ?thesis using x(2,3) by (simp add: yz)
  qed
  with \<open>tid < fresh_id d\<close> have "dead_token tid d1" unfolding d1 dead_token_def by simp
  then have "dead_token tid d2" unfolding assms(3) by (rule connect_all_dead_token [OF ok1])
  then show False using authenticate_SomeD [OF assms(4)] t by (auto simp: dead_token_def)
qed


section \<open>Witnesses\<close>

definition demo_oauth :: oauth_env where
  "demo_oauth = \<lparr>oe_parse_url = (\<lambda>_. Some \<lparr>pu_scheme = ''https'', pu_host = ''h'', pu_hostname = ''h'', pu_fragment = '''',
     pu_has_user = False, pu_loopback_ip = False\<rparr>), oe_sha = (\<lambda>s. ''#'' @ s), oe_s256 = (\<lambda>s. s),
     oe_redirect = (\<lambda>u ps. u), oe_token = \<lparr>token_hash = (\<lambda>s. ''$'' @ s), token_matches = (\<lambda>s h. h = ''$'' @ s)\<rparr>,
     oe_resource = ''r''\<rparr>"

definition demo_verifier :: string where "demo_verifier = replicate 43 (CHR ''v'')"

definition demo_decision :: decision where
  "demo_decision = \<lparr>dc_client_id = ''c'', dc_redirect_uri = ''u'', dc_state = '''', dc_code_challenge = demo_verifier,
     dc_scope = ''events:read emails:send'', dc_workspace = 0, dc_approve = True, dc_allow_send = False\<rparr>"

definition demo_form :: token_form where
  "demo_form = \<lparr>tf_grant_type = ''authorization_code'', tf_resource = '''', tf_code = ''x'', tf_client_id = ''c'',
     tf_redirect_uri = ''u'', tf_verifier = demo_verifier\<rparr>"

definition demo_client_db :: accounts_db where
  "demo_client_db = (demo_accounts None '''')\<lparr>oauth_clients := [\<lparr>oc_id = 40, oc_client_id = ''c'', oc_name = ''n'',
     oc_redirect_uris = [''u'']\<rparr>]\<rparr>"

definition demo_decided :: accounts_db where
  "demo_decided = connect_all demo_oauth [ReqDecide 0 1 ''w'' demo_decision ''x''] demo_client_db"

lemma demo_client_ok: "codes_ok demo_client_db \<and> oauth_codes demo_client_db = []"
  by (simp add: codes_ok_def demo_client_db_def demo_defs)

lemma demo_exchange:
  "fst (exchange demo_oauth 5 demo_form ''p'' ''s'' demo_decided) = TokenIssued (token_value ''p'' ''s'') [''events:read'']"
  by code_simp


definition demo_issued :: accounts_db where
  "demo_issued = snd (exchange demo_oauth 5 demo_form ''p'' ''s'' demo_decided)"

lemma demo_issue:
  "exchange demo_oauth 5 demo_form ''p'' ''s'' demo_decided = (TokenIssued (token_value ''p'' ''s'') [''events:read''], demo_issued)"
  by (simp add: prod_eq_iff demo_exchange demo_issued_def)

lemma demo_decided_ok: "codes_ok demo_decided"
  unfolding demo_decided_def by (rule connect_all_codes_ok) (simp add: demo_client_ok)

lemma code_single_use_witness:
  "snd (exchange demo_oauth 9 demo_form ''q'' ''s'' (connect_all demo_oauth [ReqTokenDelete 7 ''b'' ''1''] demo_issued)) =
     connect_all demo_oauth [ReqTokenDelete 7 ''b'' ''1''] demo_issued"
  by (rule code_single_use [OF demo_decided_ok demo_issue refl refl, THEN conjunct1])

lemma connector_token_is_consented_witness:
  "(\<exists>w m. membership_for 0 1 ''w'' demo_client_db = Inr (w, m) \<and> can_manage_tokens (mb_role m)) \<and>
     [''events:read''] = granted_scopes demo_decision"
  using connector_token_is_consented [OF demo_client_ok [THEN conjunct1] demo_client_ok [THEN conjunct2]
      demo_issue [unfolded demo_decided_def]]
  by auto

definition demo_final :: accounts_db where
  "demo_final = connect_all demo_oauth
     [ReqDecide 0 1 ''w'' demo_decision ''x'', ReqExchange 5 demo_form ''p'' ''s''] demo_client_db"

lemma demo_final_tokens: "api_tokens demo_final \<noteq> []"
  by code_simp


definition demo_token :: "id \<Rightarrow> string \<Rightarrow> api_token" where
  "demo_token i pfx = \<lparr>tok_id = i, tok_workspace = 10, tok_name = ''n'', tok_prefix = pfx, tok_secret_hash = ''$s'',
     tok_scopes = [''tokens:write'', ''events:read''], tok_expires_at = None, tok_revoked_at = None\<rparr>"

definition demo_tokens :: accounts_db where
  "demo_tokens = demo_client_db\<lparr>api_tokens := [demo_token 50 ''p'', demo_token 51 ''q'']\<rparr>"

lemma revoked_token_refused_witness:
  "tok_id (demo_token 51 ''q'') \<noteq> 50"
proof (rule revoked_token_refused [where env = demo_oauth and now' = 9 and bearer = "token_value ''q'' ''s''" and rs = "[]"])
  show "codes_ok demo_tokens" by (simp add: codes_ok_def demo_tokens_def demo_client_db_def demo_token_def demo_defs)
  show "revoke_token 5 10 50 demo_tokens = Inr (demo_tokens\<lparr>api_tokens := [(demo_token 50 ''p'')\<lparr>tok_revoked_at := Some 5\<rparr>, demo_token 51 ''q'']\<rparr>)"
    by (simp add: revoke_token_def count_where_def update_where_def demo_tokens_def demo_token_def)
qed (simp, code_simp)

end
