(* ===== verification/Domains.thy ===== *)
theory Domains
  imports Messaging "HOL-Library.Multiset"
begin

text \<open>
  Sending domains: the DKIM records and their DNS check (\<open>internal/sending\<close>), the module
  (\<open>internal/sendingdomains\<close>) and the verification jobs (\<open>internal/jobs/sending_domain.go\<close>), with what
  makes a domain verified over every sequence of edits and checks, and the interleaving in which a check
  verifies a selector that was never looked up.

  A stored domain is Schema's row with its selector and keys. Key generation and the cipher are arguments
  (their results), \<open>idna.Registration.ToASCII\<close> and \<open>net.ParseIP\<close> are the parameters of \<open>normalize_domain\<close>, and the
  resolver is a function from a name to its answer. The alert mails are the recipients they go to.
\<close>

section \<open>DNS records and the DKIM check\<close>

definition dkim_host :: "string \<Rightarrow> string \<Rightarrow> string" where
  "dkim_host selector dmn = selector @ ''._domainkey.'' @ dmn"

definition dkim_record :: "string \<Rightarrow> string \<Rightarrow> string \<Rightarrow> string \<times> string" where
  "dkim_record selector dmn pub = (dkim_host selector dmn, pub)"

definition spf_record :: "string \<Rightarrow> string \<times> string" where
  "spf_record dmn = (dmn, ''v=spf1 include:amazonses.com ~all'')"

definition dmarc_record :: "string \<Rightarrow> string \<times> string" where
  "dmarc_record dmn = (''_dmarc.'' @ dmn, ''v=DMARC1; p=none;'')"

datatype dns_answer = DnsNotFound | DnsFailure | DnsTxt "string list"

type_synonym resolver = "string \<Rightarrow> dns_answer"

text \<open>\<open>strings.Split\<close> on one character.\<close>

fun split_on :: "char \<Rightarrow> string \<Rightarrow> string list" where
  "split_on c [] = [[]]"
| "split_on c (x # xs) =
     (if x = c then [] # split_on c xs
      else case split_on c xs of [] \<Rightarrow> [[x]] | s # rest \<Rightarrow> (x # s) # rest)"

text \<open>The first \<open>p=\<close> tag with all white space taken out (\<open>strings.Join(strings.Fields(v), "")\<close>).\<close>

fun public_part_of :: "string list \<Rightarrow> string" where
  "public_part_of [] = ''''"
| "public_part_of (x # xs) =
     (let t = trim_space x in
      if take 2 t = ''p='' then filter (\<lambda>c. \<not> is_space c) (drop 2 t) else public_part_of xs)"

definition dkim_public_part :: "string \<Rightarrow> string" where
  "dkim_public_part txt = public_part_of (split_on (CHR '';'') txt)"

datatype domain_error = DomainNotFound | DomainInvalid | SelectorInvalid | DomainExists | LookupFailed | EmptyKey

definition verify_dkim :: "resolver \<Rightarrow> string \<Rightarrow> string \<Rightarrow> string \<Rightarrow> domain_error + bool" where
  "verify_dkim lookup selector dmn expected =
     (case lookup (dkim_host selector dmn @ ''.'') of
        DnsNotFound \<Rightarrow> Inr False
      | DnsFailure \<Rightarrow> Inl LookupFailed
      | DnsTxt records \<Rightarrow>
         let want = dkim_public_part expected in
         if want = '''' then Inl EmptyKey
         else Inr (list_ex (\<lambda>r. dkim_public_part r = want) records))"

section \<open>The module\<close>

record domain_row = sending_domain +
  dr_selector :: string
  dr_private :: string
  dr_public :: string

record domain_store =
  domain_rows :: "domain_row list"
  next_domain :: id

definition default_selector :: string where "default_selector = ''sphericon''"

definition label_char :: "char \<Rightarrow> bool" where
  "label_char c \<longleftrightarrow> (let n = of_char c :: nat in (97 \<le> n \<and> n \<le> 122) \<or> (48 \<le> n \<and> n \<le> 57))"

definition dns_label :: "string \<Rightarrow> bool" where
  "dns_label l \<longleftrightarrow> l \<noteq> [] \<and> length l \<le> 63 \<and> label_char (hd l) \<and> label_char (last l) \<and>
     list_all (\<lambda>c. label_char c \<or> c = CHR ''-'') l"

definition valid_selector :: "string \<Rightarrow> string option" where
  "valid_selector raw =
     (let s = to_lower (trim_space raw) in if list_all dns_label (split_on (CHR ''.'') s) then Some s else None)"

definition trim_dot :: "string \<Rightarrow> string" where
  "trim_dot s = (if s \<noteq> [] \<and> last s = CHR ''.'' then butlast s else s)"

definition normalize_domain :: "(string \<Rightarrow> bool) \<Rightarrow> (string \<Rightarrow> string option) \<Rightarrow> string \<Rightarrow> string option" where
  "normalize_domain is_ip to_ascii raw =
     (let d = trim_dot (to_lower (trim_space raw)) in
      if CHR ''.'' \<notin> set d \<or> is_ip d then None else to_ascii d)"

definition domain_in :: "id \<Rightarrow> id \<Rightarrow> domain_row \<Rightarrow> bool" where
  "domain_in ws did r \<longleftrightarrow> sd_workspace r = ws \<and> sd_id r = did"

definition create_domain ::
    "(string \<Rightarrow> bool) \<Rightarrow> (string \<Rightarrow> string option) \<Rightarrow> id \<Rightarrow> string \<Rightarrow> string \<Rightarrow> string \<Rightarrow> string \<Rightarrow> domain_store
      \<Rightarrow> domain_error + (domain_row \<times> domain_store)" where
  "create_domain is_ip to_ascii ws dmn selector sealed pub st =
     (case normalize_domain is_ip to_ascii dmn of
        None \<Rightarrow> Inl DomainInvalid
      | Some name \<Rightarrow>
         (case (if trim_space selector \<noteq> '''' then valid_selector selector else Some default_selector) of
            None \<Rightarrow> Inl SelectorInvalid
          | Some sel \<Rightarrow>
             if exists_where (\<lambda>r. sd_workspace r = ws \<and> sd_domain r = name) (domain_rows st) then Inl DomainExists
             else let r = \<lparr>sd_id = next_domain st, sd_workspace = ws, sd_domain = name, sd_verified = False,
                    sd_last_checked_at = None, sd_verified_at = None, dr_selector = sel, dr_private = sealed, dr_public = pub\<rparr>
                  in Inr (r, st\<lparr>domain_rows := domain_rows st @ [r], next_domain := next_domain st + 1\<rparr>)))"

definition update_domain :: "id \<Rightarrow> id \<Rightarrow> string option \<Rightarrow> domain_store \<Rightarrow> domain_error + (domain_row \<times> domain_store)" where
  "update_domain ws did selector st =
     (case (case selector of None \<Rightarrow> Some None | Some raw \<Rightarrow> map_option Some (valid_selector raw)) of
        None \<Rightarrow> Inl SelectorInvalid
      | Some sel \<Rightarrow>
         (case find_where (domain_in ws did) (domain_rows st) of
            None \<Rightarrow> Inl DomainNotFound
          | Some cur \<Rightarrow>
             (case sel of
                None \<Rightarrow> Inr (cur, st)
              | Some s \<Rightarrow>
                 if s = dr_selector cur then Inr (cur, st)
                 else let f = (\<lambda>r. r\<lparr>dr_selector := s, sd_verified := False\<rparr>)
                      in Inr (f cur, st\<lparr>domain_rows := update_where (domain_in ws did) f (domain_rows st)\<rparr>))))"

definition delete_domain :: "id \<Rightarrow> id \<Rightarrow> domain_store \<Rightarrow> domain_error + domain_store" where
  "delete_domain ws did st =
     (if exists_where (domain_in ws did) (domain_rows st)
      then Inr (st\<lparr>domain_rows := delete_where (domain_in ws did) (domain_rows st)\<rparr>)
      else Inl DomainNotFound)"

text \<open>\<open>Verify\<close> only queues a check of the domain's id.\<close>

definition verify_domain :: "id \<Rightarrow> id \<Rightarrow> domain_store \<Rightarrow> domain_error + id" where
  "verify_domain ws did st = (if exists_where (domain_in ws did) (domain_rows st) then Inr did else Inl DomainNotFound)"

section \<open>The check job\<close>

text \<open>The job reads the row, looks its record up, and writes the outcome; no transaction spans the lookup,
  so the read and the write are separate steps.\<close>

definition read_domain :: "id \<Rightarrow> domain_store \<Rightarrow> domain_row option" where
  "read_domain did st = find_where (\<lambda>r. sd_id r = did) (domain_rows st)"

definition check_outcome :: "resolver \<Rightarrow> domain_row \<Rightarrow> domain_error + bool" where
  "check_outcome lookup r = verify_dkim lookup (dr_selector r) (sd_domain r) (dr_public r)"

definition checked :: "time \<Rightarrow> domain_row \<Rightarrow> bool \<Rightarrow> domain_row \<Rightarrow> domain_row" where
  "checked now snapshot ok r =
     (let r = r\<lparr>sd_last_checked_at := Some now\<rparr> in
      if ok = sd_verified snapshot then r
      else if ok then r\<lparr>sd_verified := True, sd_verified_at := Some now\<rparr>
      else r\<lparr>sd_verified := False\<rparr>)"

definition write_check ::
    "resolver \<Rightarrow> time \<Rightarrow> domain_row \<Rightarrow> domain_store \<Rightarrow> domain_error + (bool \<times> bool \<times> domain_store)" where
  "write_check lookup now snapshot st =
     (case check_outcome lookup snapshot of
        Inl e \<Rightarrow> Inl e
      | Inr ok \<Rightarrow>
         let p = domain_in (sd_workspace snapshot) (sd_id snapshot) in
         if \<not> exists_where p (domain_rows st) then Inl DomainNotFound
         else Inr (ok, sd_verified snapshot \<and> \<not> ok, st\<lparr>domain_rows := update_where p (checked now snapshot ok) (domain_rows st)\<rparr>))"

definition verify_domain_by_id ::
    "resolver \<Rightarrow> time \<Rightarrow> id \<Rightarrow> domain_store \<Rightarrow> domain_error + (bool \<times> bool \<times> domain_store)" where
  "verify_domain_by_id lookup now did st =
     (case read_domain did st of None \<Rightarrow> Inl DomainNotFound | Some r \<Rightarrow> write_check lookup now r st)"

text \<open>The recheck tick: least recently checked first, never checked before all others.\<close>

definition recheck_key :: "domain_row \<Rightarrow> time" where
  "recheck_key r = (case sd_last_checked_at r of None \<Rightarrow> 0 | Some t \<Rightarrow> t)"

definition due_for_recheck :: "nat \<Rightarrow> domain_store \<Rightarrow> id list" where
  "due_for_recheck limit st =
     map sd_id (take limit (filter (\<lambda>r. sd_last_checked_at r = None) (domain_rows st) @
       sort_key recheck_key (filter (\<lambda>r. sd_last_checked_at r \<noteq> None) (domain_rows st))))"

definition recheck_batch_size :: nat where "recheck_batch_size = 100"


section \<open>What makes a domain verified\<close>

datatype domain_op =
    OpCreate id string string string string
  | OpUpdate id id "string option"
  | OpDelete id id
  | OpCheck resolver time id

definition domain_step :: "(string \<Rightarrow> bool) \<Rightarrow> (string \<Rightarrow> string option) \<Rightarrow> domain_op \<Rightarrow> domain_store \<Rightarrow> domain_store" where
  "domain_step is_ip to_ascii op st =
     (case op of
        OpCreate ws dmn sel sealed pub \<Rightarrow>
          (case create_domain is_ip to_ascii ws dmn sel sealed pub st of Inl _ \<Rightarrow> st | Inr (_, st') \<Rightarrow> st')
      | OpUpdate ws did sel \<Rightarrow> (case update_domain ws did sel st of Inl _ \<Rightarrow> st | Inr (_, st') \<Rightarrow> st')
      | OpDelete ws did \<Rightarrow> (case delete_domain ws did st of Inl _ \<Rightarrow> st | Inr st' \<Rightarrow> st')
      | OpCheck lookup now did \<Rightarrow> (case verify_domain_by_id lookup now did st of Inl _ \<Rightarrow> st | Inr (_, _, st') \<Rightarrow> st'))"

fun domain_steps :: "(string \<Rightarrow> bool) \<Rightarrow> (string \<Rightarrow> string option) \<Rightarrow> domain_op list \<Rightarrow> domain_store \<Rightarrow> domain_store" where
  "domain_steps is_ip to_ascii [] st = st"
| "domain_steps is_ip to_ascii (op # ops) st = domain_steps is_ip to_ascii ops (domain_step is_ip to_ascii op st)"

lemma domain_steps_append:
  "domain_steps is_ip to_ascii (ops @ ops') st = domain_steps is_ip to_ascii ops' (domain_steps is_ip to_ascii ops st)"
  by (induction ops arbitrary: st) simp_all

definition store_ok :: "domain_store \<Rightarrow> bool" where
  "store_ok st \<longleftrightarrow> distinct (map sd_id (domain_rows st)) \<and> (\<forall>r \<in> set (domain_rows st). sd_id r < next_domain st) \<and>
     distinct (map (\<lambda>r. (sd_workspace r, sd_domain r)) (domain_rows st))"

lemma checked_simps [simp]:
  "sd_id (checked now s ok r) = sd_id r" "sd_workspace (checked now s ok r) = sd_workspace r"
  "sd_domain (checked now s ok r) = sd_domain r" "dr_selector (checked now s ok r) = dr_selector r"
  "dr_public (checked now s ok r) = dr_public r" "sd_last_checked_at (checked now s ok r) = Some now"
  by (simp_all add: checked_def Let_def)

lemma checked_own [simp]: "sd_verified (checked now r ok r) = ok"
  by (simp add: checked_def Let_def)

lemma read_domain_SomeD: "read_domain did st = Some r \<Longrightarrow> r \<in> set (domain_rows st) \<and> sd_id r = did"
  by (auto simp: read_domain_def dest: find_where_SomeD)

lemma same_domain: "store_ok st \<Longrightarrow> r \<in> set (domain_rows st) \<Longrightarrow> x \<in> set (domain_rows st) \<Longrightarrow> sd_id x = sd_id r \<Longrightarrow> x = r"
  by (simp add: store_ok_def distinct_map inj_on_def)

lemma read_domain_row: "store_ok st \<Longrightarrow> r \<in> set (domain_rows st) \<Longrightarrow> read_domain (sd_id r) st = Some r"
  unfolding read_domain_def by (rule find_where_unique) (simp_all add: same_domain)

text \<open>What a check that ran does to the rows.\<close>

lemma verify_domain_InrD:
  assumes "store_ok st" and "verify_domain_by_id lookup now did st = Inr (ok, flipped, st')"
  obtains r where "r \<in> set (domain_rows st)" "sd_id r = did" "check_outcome lookup r = Inr ok"
    "flipped = (sd_verified r \<and> \<not> ok)"
    "st' = st\<lparr>domain_rows := map (\<lambda>x. if sd_id x = did then checked now x ok x else x) (domain_rows st)\<rparr>"
proof -
  from assms(2) obtain r where r: "read_domain did st = Some r" "write_check lookup now r st = Inr (ok, flipped, st')"
    by (auto simp: verify_domain_by_id_def split: option.splits)
  note rs = read_domain_SomeD [OF r(1)]
  have eq: "map (\<lambda>x. if domain_in (sd_workspace r) (sd_id r) x then checked now r ok x else x) (domain_rows st) =
      map (\<lambda>x. if sd_id x = did then checked now x ok x else x) (domain_rows st)"
    using rs same_domain [OF assms(1)] by (intro map_cong) (auto simp: domain_in_def)
  have w: "check_outcome lookup r = Inr ok" "flipped = (sd_verified r \<and> \<not> ok)"
    "st' = st\<lparr>domain_rows := map (\<lambda>x. if domain_in (sd_workspace r) (sd_id r) x then checked now r ok x else x) (domain_rows st)\<rparr>"
    using r(2) by (auto simp: write_check_def Let_def update_where_def split: sum.splits if_splits)
  show thesis by (rule that [OF _ _ w(1,2) w(3) [unfolded eq]]) (simp_all add: rs)
qed

definition outcome_of :: "domain_op \<Rightarrow> domain_row \<Rightarrow> bool option" where
  "outcome_of op r =
     (case op of
        OpCheck lookup now did \<Rightarrow>
          if did = sd_id r then (case check_outcome lookup r of Inl _ \<Rightarrow> None | Inr ok \<Rightarrow> Some ok) else None
      | _ \<Rightarrow> None)"

text \<open>The rows after one step: a verified row was there before unchanged, or this step checked it.\<close>

lemma domain_step_verified:
  assumes "store_ok st" and "r \<in> set (domain_rows (domain_step is_ip to_ascii op st))" and "sd_verified r"
  shows "outcome_of op r = Some True \<or> (r \<in> set (domain_rows st) \<and> outcome_of op r \<noteq> Some False)"
proof (cases op)
  case (OpCreate ws dmn sel sealed pub)
  then show ?thesis using assms(2,3)
    by (auto simp: domain_step_def create_domain_def outcome_of_def Let_def split: option.splits sum.splits if_splits prod.splits)
next
  case (OpUpdate ws did sel)
  then show ?thesis using assms(2,3)
    by (auto simp: domain_step_def update_domain_def outcome_of_def Let_def table_simps
        split: option.splits sum.splits if_splits prod.splits)
next
  case (OpDelete ws did)
  then show ?thesis using assms(2,3)
    by (auto simp: domain_step_def delete_domain_def outcome_of_def table_simps split: sum.splits if_splits)
next
  case (OpCheck lookup now did)
  show ?thesis
  proof (cases "verify_domain_by_id lookup now did st")
    case (Inl e)
    then have r: "r \<in> set (domain_rows st)" using assms(2) by (simp add: domain_step_def OpCheck)
    have "outcome_of op r \<noteq> Some False"
    proof
      assume "outcome_of op r = Some False"
      then have o: "did = sd_id r" "check_outcome lookup r = Inr False"
        by (auto simp: outcome_of_def OpCheck split: if_splits sum.splits)
      have "read_domain did st = Some r"
        using read_domain_row [OF assms(1) r] by (simp add: o(1))
      moreover have "exists_where (domain_in (sd_workspace r) (sd_id r)) (domain_rows st)"
        using r by (auto simp: exists_where_iff domain_in_def)
      ultimately show False using Inl o(2) by (simp add: verify_domain_by_id_def write_check_def Let_def)
    qed
    then show ?thesis using r by simp
  next
    case (Inr res)
    obtain ok flipped st' where res: "res = (ok, flipped, st')" by (cases res)
    obtain x where x: "x \<in> set (domain_rows st)" "sd_id x = did"
      "check_outcome lookup x = Inr ok"
      "st' = st\<lparr>domain_rows := map (\<lambda>x. if sd_id x = did then checked now x ok x else x) (domain_rows st)\<rparr>"
      by (rule verify_domain_InrD [OF assms(1) Inr [unfolded res]])
    have "r \<in> set (domain_rows st')" using assms(2) Inr res by (simp add: domain_step_def OpCheck)
    then obtain y where y: "y \<in> set (domain_rows st)" "r = (if sd_id y = did then checked now y ok y else y)"
      using x(4) by auto
    show ?thesis
    proof (cases "sd_id y = did")
      case True
      then have "y = x" using same_domain [OF assms(1) x(1) y(1)] x(2) by simp
      moreover have "ok" using True y(2) assms(3) by simp
      moreover have "check_outcome lookup r = check_outcome lookup y" using y(2) by (simp add: check_outcome_def)
      ultimately show ?thesis using True y(2) x(3) by (simp add: outcome_of_def OpCheck)
    next
      case False
      then show ?thesis using y by (simp add: outcome_of_def OpCheck)
    qed
  qed
qed

lemma store_ok_map:
  assumes "store_ok st" and "\<And>x. sd_id (f x) = sd_id x \<and> sd_workspace (f x) = sd_workspace x \<and> sd_domain (f x) = sd_domain x"
  shows "store_ok (st\<lparr>domain_rows := map f (domain_rows st)\<rparr>)"
  using assms(1) by (auto simp: store_ok_def comp_def assms(2))

lemma domain_step_ok:
  assumes "store_ok st"
  shows "store_ok (domain_step is_ip to_ascii op st)"
proof (cases op)
  case (OpCreate ws dmn sel sealed pub)
  then show ?thesis using assms
    by (auto simp: domain_step_def create_domain_def store_ok_def Let_def exists_where_iff
        split: option.splits sum.splits if_splits prod.splits)
next
  case (OpUpdate ws did sel)
  then show ?thesis using assms
    by (auto simp: domain_step_def update_domain_def store_ok_def Let_def table_simps map_update_where
        split: option.splits sum.splits if_splits prod.splits)
next
  case (OpDelete ws did)
  then show ?thesis using assms
    by (auto simp: domain_step_def delete_domain_def store_ok_def table_simps delete_where_def distinct_map_filter
        split: sum.splits if_splits)
next
  case (OpCheck lookup now did)
  show ?thesis
  proof (cases "verify_domain_by_id lookup now did st")
    case (Inl e)
    then show ?thesis using assms by (simp add: domain_step_def OpCheck)
  next
    case (Inr res)
    obtain ok flipped st' where res: "res = (ok, flipped, st')" by (cases res)
    have "st' = st\<lparr>domain_rows := map (\<lambda>x. if sd_id x = did then checked now x ok x else x) (domain_rows st)\<rparr>"
      by (rule verify_domain_InrD [OF assms Inr [unfolded res]])
    then show ?thesis using Inr res by (simp add: domain_step_def OpCheck store_ok_map [OF assms])
  qed
qed

lemma domain_steps_ok: "store_ok st \<Longrightarrow> store_ok (domain_steps is_ip to_ascii ops st)"
  by (induction ops arbitrary: st) (simp_all add: domain_step_ok)



section \<open>A check that overlaps an edit\<close>

lemma exists_update_same:
  "(\<And>x. p (f x) = p x) \<Longrightarrow> exists_where p (update_where q f rows) = exists_where p rows"
  by (induction rows) (simp_all add: exists_where_def update_where_def)

text \<open>A check verifies a selector nobody looked up: when the selector of an unverified domain is changed
  while a check of the old one is in flight, the check's write marks the domain verified under the new
  selector, whatever the DNS has there.\<close>

theorem stale_check_verifies:
  assumes "store_ok st" and "read_domain did st = Some r" and "\<not> sd_verified r" and "check_outcome lookup r = Inr True"
    and "update_domain (sd_workspace r) did (Some raw) st = Inr (r2, st2)"
    and "valid_selector raw = Some sel" and "sel \<noteq> dr_selector r"
    and "lookup (dkim_host sel (sd_domain r) @ ''.'') = DnsNotFound"
  shows "\<exists>st3 row. write_check lookup now r st2 = Inr (True, False, st3) \<and> read_domain did st3 = Some row \<and>
    sd_verified row \<and> dr_selector row = sel \<and> check_outcome lookup row = Inr False"
proof -
  note r = read_domain_SomeD [OF assms(2)]
  have find: "find_where (domain_in (sd_workspace r) did) (domain_rows st) = Some r"
    using r same_domain [OF assms(1)] by (intro find_where_unique) (auto simp: domain_in_def)
  have st2: "st2 = st\<lparr>domain_rows := update_where (domain_in (sd_workspace r) did)
      (\<lambda>r. r\<lparr>dr_selector := sel, sd_verified := False\<rparr>) (domain_rows st)\<rparr>"
    using assms(5-7) find by (simp add: update_domain_def Let_def)
  let ?r2 = "r\<lparr>dr_selector := sel, sd_verified := False\<rparr>"
  have "exists_where (domain_in (sd_workspace r) (sd_id r)) (domain_rows st2) =
      exists_where (domain_in (sd_workspace r) (sd_id r)) (domain_rows st)"
    unfolding st2 by (simp, rule exists_update_same) (simp add: domain_in_def)
  moreover have "exists_where (domain_in (sd_workspace r) (sd_id r)) (domain_rows st)"
    using r by (auto simp: exists_where_iff domain_in_def)
  ultimately have ex: "exists_where (domain_in (sd_workspace r) (sd_id r)) (domain_rows st2)" by simp
  let ?st3 = "st2\<lparr>domain_rows := update_where (domain_in (sd_workspace r) (sd_id r)) (checked now r True) (domain_rows st2)\<rparr>"
  have w: "write_check lookup now r st2 = Inr (True, False, ?st3)"
    using assms(3,4) ex by (simp add: write_check_def Let_def)
  have "read_domain did st2 = Some ?r2"
    unfolding read_domain_def st2 using assms(2) r
    by (simp add: find_where_update domain_in_def read_domain_def)
  then have "read_domain did ?st3 = Some (checked now r True ?r2)"
    unfolding read_domain_def using r by (simp add: find_where_update domain_in_def)
  moreover have "sd_verified (checked now r True ?r2)" using assms(3) by (simp add: checked_def)
  ultimately show ?thesis using w assms(8)
    by (intro exI conjI) (auto simp: check_outcome_def verify_dkim_def)
qed

section \<open>The recheck ticks\<close>

fun run_checks :: "resolver \<Rightarrow> time \<Rightarrow> id list \<Rightarrow> domain_store \<Rightarrow> domain_store" where
  "run_checks lookup now [] st = st"
| "run_checks lookup now (did # ids) st =
     run_checks lookup now ids (case verify_domain_by_id lookup now did st of Inl _ \<Rightarrow> st | Inr (_, _, st') \<Rightarrow> st')"

definition recheck_tick :: "nat \<Rightarrow> resolver \<times> time \<Rightarrow> domain_store \<Rightarrow> domain_store" where
  "recheck_tick limit tick st = run_checks (fst tick) (snd tick) (due_for_recheck limit st) st"

fun recheck_ticks :: "nat \<Rightarrow> (resolver \<times> time) list \<Rightarrow> domain_store \<Rightarrow> domain_store" where
  "recheck_ticks limit [] st = st"
| "recheck_ticks limit (t # ts) st = recheck_ticks limit ts (recheck_tick limit t st)"

text \<open>A lookup that fails leaves no mark on its domain, so a batch of domains whose resolvers keep
  failing is due again at every tick: as long as they fail, no other Sending domain is ever rechecked.\<close>

theorem failing_lookups_starve:
  assumes "\<And>lookup now r. (lookup, now) \<in> set ticks \<Longrightarrow> r \<in> set (domain_rows st) \<Longrightarrow> sd_id r \<in> set (due_for_recheck limit st) \<Longrightarrow>
      lookup (dkim_host (dr_selector r) (sd_domain r) @ ''.'') = DnsFailure"
  shows "recheck_ticks limit ticks st = st"
  using assms
proof (induction ticks)
  case Nil
  show ?case by simp
next
  case (Cons tick ticks)
  obtain lookup now where t: "tick = (lookup, now)" by (cases tick)
  have "verify_domain_by_id lookup now did st = Inl LookupFailed \<or> verify_domain_by_id lookup now did st = Inl DomainNotFound"
    if "did \<in> set (due_for_recheck limit st)" for did
  proof (cases "read_domain did st")
    case None
    then show ?thesis by (simp add: verify_domain_by_id_def)
  next
    case (Some r)
    then have "lookup (dkim_host (dr_selector r) (sd_domain r) @ ''.'') = DnsFailure"
      using read_domain_SomeD [OF Some] that by (intro Cons.prems [of lookup now]) (simp_all add: t)
    then show ?thesis using Some by (simp add: verify_domain_by_id_def write_check_def check_outcome_def verify_dkim_def)
  qed
  moreover have "run_checks lookup now ids st = st"
    if "\<And>did. did \<in> set ids \<Longrightarrow> verify_domain_by_id lookup now did st = Inl LookupFailed \<or>
        verify_domain_by_id lookup now did st = Inl DomainNotFound" for ids
    using that by (induction ids) fastforce+
  ultimately have "recheck_tick limit tick st = st" by (simp add: recheck_tick_def t)
  moreover have "recheck_ticks limit ticks st = st"
    by (rule Cons.IH) (rule Cons.prems, auto)
  ultimately show ?case by simp
qed

definition stale_check :: "time \<Rightarrow> domain_row \<Rightarrow> bool" where
  "stale_check t0 r \<longleftrightarrow> (case sd_last_checked_at r of None \<Rightarrow> True | Some t \<Rightarrow> t < t0)"

definition answers :: "resolver \<Rightarrow> domain_store \<Rightarrow> bool" where
  "answers lookup st \<longleftrightarrow>
     (\<forall>r \<in> set (domain_rows st). lookup (dkim_host (dr_selector r) (sd_domain r) @ ''.'') \<noteq> DnsFailure \<and>
        dkim_public_part (dr_public r) \<noteq> '''')"

text \<open>What the checks of one tick do when the resolver answers: each listed domain is marked as checked
  now, every other row stays as it is.\<close>

definition rechecks :: "time \<Rightarrow> id set \<Rightarrow> (domain_row \<Rightarrow> domain_row) \<Rightarrow> bool" where
  "rechecks now S f \<longleftrightarrow>
     (\<forall>x. sd_id (f x) = sd_id x \<and> sd_workspace (f x) = sd_workspace x \<and> sd_domain (f x) = sd_domain x \<and>
        dr_selector (f x) = dr_selector x \<and> dr_public (f x) = dr_public x \<and>
        (if sd_id x \<in> S then sd_last_checked_at (f x) = Some now else f x = x))"

lemma rechecks_comp:
  assumes "rechecks now S f" and "rechecks now T g"
  shows "rechecks now (S \<union> T) (f \<circ> g)"
  unfolding rechecks_def
proof
  fix x
  from assms(2) have g: "sd_id (g x) = sd_id x" "sd_workspace (g x) = sd_workspace x" "sd_domain (g x) = sd_domain x"
    "dr_selector (g x) = dr_selector x" "dr_public (g x) = dr_public x"
    "if sd_id x \<in> T then sd_last_checked_at (g x) = Some now else g x = x" unfolding rechecks_def by blast+
  from assms(1) have f: "sd_id (f (g x)) = sd_id (g x)" "sd_workspace (f (g x)) = sd_workspace (g x)"
    "sd_domain (f (g x)) = sd_domain (g x)" "dr_selector (f (g x)) = dr_selector (g x)" "dr_public (f (g x)) = dr_public (g x)"
    "if sd_id (g x) \<in> S then sd_last_checked_at (f (g x)) = Some now else f (g x) = g x" unfolding rechecks_def by blast+
  show "sd_id ((f \<circ> g) x) = sd_id x \<and> sd_workspace ((f \<circ> g) x) = sd_workspace x \<and> sd_domain ((f \<circ> g) x) = sd_domain x \<and>
      dr_selector ((f \<circ> g) x) = dr_selector x \<and> dr_public ((f \<circ> g) x) = dr_public x \<and>
      (if sd_id x \<in> S \<union> T then sd_last_checked_at ((f \<circ> g) x) = Some now else (f \<circ> g) x = x)"
    using f g by (cases "sd_id x \<in> S"; cases "sd_id x \<in> T") simp_all
qed

lemma run_checks_rechecks:
  assumes "store_ok st" and "answers lookup st" and "set ids \<subseteq> sd_id ` set (domain_rows st)"
  shows "\<exists>f. rechecks now (set ids) f \<and> run_checks lookup now ids st = st\<lparr>domain_rows := map f (domain_rows st)\<rparr>"
  using assms
proof (induction ids arbitrary: st)
  case Nil
  then show ?case by (intro exI [of _ id]) (simp add: rechecks_def)
next
  case (Cons did ids)
  from Cons.prems(3) obtain r where r: "r \<in> set (domain_rows st)" "sd_id r = did" by auto
  have read: "read_domain did st = Some r"
    using read_domain_row [OF Cons.prems(1) r(1)] by (simp add: r(2))
  have up: "lookup (dkim_host (dr_selector r) (sd_domain r) @ ''.'') \<noteq> DnsFailure"
    "dkim_public_part (dr_public r) \<noteq> ''''" using Cons.prems(2) r(1) unfolding answers_def by blast+
  obtain ok where ok: "check_outcome lookup r = Inr ok"
    using up by (cases "lookup (dkim_host (dr_selector r) (sd_domain r) @ ''.'')")
      (simp_all add: check_outcome_def verify_dkim_def Let_def)
  have "exists_where (domain_in (sd_workspace r) (sd_id r)) (domain_rows st)"
    using r(1) by (auto simp: exists_where_iff domain_in_def)
  then have "\<exists>flipped st'. verify_domain_by_id lookup now did st = Inr (ok, flipped, st')"
    by (simp add: verify_domain_by_id_def write_check_def Let_def read ok)
  then obtain flipped st' where v: "verify_domain_by_id lookup now did st = Inr (ok, flipped, st')" by blast
  let ?g = "\<lambda>x. if sd_id x = did then checked now x ok x else x"
  have st': "st' = st\<lparr>domain_rows := map ?g (domain_rows st)\<rparr>" by (rule verify_domain_InrD [OF Cons.prems(1) v])
  have g: "rechecks now {did} ?g" by (simp add: rechecks_def)
  have "store_ok st'" unfolding st' by (rule store_ok_map [OF Cons.prems(1)]) simp
  moreover have "answers lookup st'" using Cons.prems(2) by (auto simp: st' answers_def)
  moreover have keys: "map sd_id (domain_rows st') = map sd_id (domain_rows st)" by (simp add: st')
  have "set ids \<subseteq> sd_id ` set (domain_rows st')"
    using Cons.prems(3) unfolding set_map [symmetric] keys by simp
  ultimately obtain f where f: "rechecks now (set ids) f" "run_checks lookup now ids st' = st'\<lparr>domain_rows := map f (domain_rows st')\<rparr>"
    using Cons.IH by blast
  have "rechecks now (set (did # ids)) (f \<circ> ?g)"
    using rechecks_comp [OF f(1) g] by simp
  moreover have "run_checks lookup now (did # ids) st = st\<lparr>domain_rows := map (f \<circ> ?g) (domain_rows st)\<rparr>"
    using f(2) v by (simp add: st')
  ultimately show ?case by blast
qed


lemma sorted_split:
  fixes k :: "'a \<Rightarrow> 'b::linorder"
  shows "sorted (map k xs) \<Longrightarrow> xs = filter (\<lambda>x. k x < t) xs @ filter (\<lambda>x. \<not> k x < t) xs"
proof (induction xs)
  case (Cons x xs)
  show ?case
  proof (cases "k x < t")
    case False
    then have "filter (\<lambda>x. k x < t) xs = []" using Cons.prems by (auto simp: filter_empty_conv)
    then show ?thesis using Cons False by auto
  qed (use Cons in auto)
qed simp

text \<open>The order of a tick puts the domains not checked since \<open>t0\<close> before all others.\<close>

lemma due_order:
  obtains S F where
    "due_for_recheck limit st = map sd_id (take limit (S @ F))" "mset S = mset (filter (stale_check t0) (domain_rows st))"
    "mset (S @ F) = mset (domain_rows st)"
proof -
  let ?A = "filter (\<lambda>r. sd_last_checked_at r = None) (domain_rows st)"
  let ?B = "filter (\<lambda>r. sd_last_checked_at r \<noteq> None) (domain_rows st)"
  let ?s = "sort_key recheck_key ?B"
  let ?old = "filter (\<lambda>r. recheck_key r < t0) ?s" and ?new = "filter (\<lambda>r. \<not> recheck_key r < t0) ?s"
  have split: "?s = ?old @ ?new" by (rule sorted_split) simp
  have stale: "stale_check t0 r \<longleftrightarrow> sd_last_checked_at r = None \<or> (sd_last_checked_at r \<noteq> None \<and> recheck_key r < t0)" for r
    by (cases "sd_last_checked_at r") (simp_all add: stale_check_def recheck_key_def)
  have m1: "mset (filter (stale_check t0) rows) =
      mset (filter (\<lambda>r. sd_last_checked_at r = None) rows) +
      mset (filter (\<lambda>r. recheck_key r < t0) (filter (\<lambda>r. sd_last_checked_at r \<noteq> None) rows))" for rows
    unfolding filter_filter by (induction rows) (auto simp: stale)
  have m2: "mset rows = mset (filter (\<lambda>r. sd_last_checked_at r = None) rows) +
      mset (filter (\<lambda>r. sd_last_checked_at r \<noteq> None) rows)" for rows
    by (induction rows) auto
  have "mset ?old = mset (filter (\<lambda>r. recheck_key r < t0) ?B)" by (simp only: mset_filter mset_sort)
  then have "mset (?A @ ?old) = mset (filter (stale_check t0) (domain_rows st))" by (simp only: mset_append m1)
  moreover have "mset ((?A @ ?old) @ ?new) = mset (domain_rows st)"
    unfolding append_assoc split [symmetric] mset_append mset_sort by (rule m2 [symmetric])
  moreover have "due_for_recheck limit st = map sd_id (take limit ((?A @ ?old) @ ?new))"
    unfolding due_for_recheck_def append_assoc split [symmetric] ..
  ultimately show thesis by (intro that)
qed

lemma tick_progress:
  assumes "store_ok st" and "answers lookup st" and "t0 \<le> now"
  shows "length (filter (stale_check t0) (domain_rows (recheck_tick limit (lookup, now) st))) \<le>
      length (filter (stale_check t0) (domain_rows st)) - limit"
    and "store_ok (recheck_tick limit (lookup, now) st)"
    and "map (\<lambda>r. (dr_selector r, sd_domain r, dr_public r)) (domain_rows (recheck_tick limit (lookup, now) st)) =
      map (\<lambda>r. (dr_selector r, sd_domain r, dr_public r)) (domain_rows st)"
proof -
  obtain S F where due: "due_for_recheck limit st = map sd_id (take limit (S @ F))" and
    S: "mset S = mset (filter (stale_check t0) (domain_rows st))" and
    all: "mset (S @ F) = mset (domain_rows st)" by (rule due_order)
  have "set (S @ F) = set (domain_rows st)" by (rule mset_eq_setD [OF all])
  then have "set (due_for_recheck limit st) \<subseteq> sd_id ` set (domain_rows st)"
    unfolding due using set_take_subset [of limit "S @ F"] by auto
  from run_checks_rechecks [OF assms(1,2) this, of now] obtain f where
    f: "rechecks now (set (due_for_recheck limit st)) f" and
    eq: "recheck_tick limit (lookup, now) st = st\<lparr>domain_rows := map f (domain_rows st)\<rparr>"
    unfolding recheck_tick_def by auto
  let ?D = "set (due_for_recheck limit st)"
  have fr: "sd_id (f x) = sd_id x" "sd_workspace (f x) = sd_workspace x" "sd_domain (f x) = sd_domain x"
    "dr_selector (f x) = dr_selector x" "dr_public (f x) = dr_public x"
    "if sd_id x \<in> ?D then sd_last_checked_at (f x) = Some now else f x = x" for x
    using f unfolding rechecks_def by blast+
  show "store_ok (recheck_tick limit (lookup, now) st)"
    unfolding eq by (rule store_ok_map [OF assms(1)]) (simp add: fr)
  show "map (\<lambda>r. (dr_selector r, sd_domain r, dr_public r)) (domain_rows (recheck_tick limit (lookup, now) st)) =
      map (\<lambda>r. (dr_selector r, sd_domain r, dr_public r)) (domain_rows st)" by (simp add: eq fr)
  have left: "stale_check t0 (f x) \<longleftrightarrow> stale_check t0 x \<and> sd_id x \<notin> ?D" for x
    using fr(6) [of x] assms(3) by (cases "sd_id x \<in> ?D") (simp_all add: stale_check_def)
  have "length (filter (stale_check t0) (map f (domain_rows st))) =
      length (filter (\<lambda>x. sd_id x \<notin> ?D) (filter (stale_check t0) (domain_rows st)))"
    by (simp add: filter_map comp_def left conj_commute)
  also have "\<dots> = length (filter (\<lambda>x. sd_id x \<notin> ?D) S)"
    using S by (metis mset_filter size_mset)
  also have "\<dots> \<le> length (drop limit S)"
  proof -
    have "filter (\<lambda>x. sd_id x \<notin> ?D) (take limit S) = []" by (auto simp: filter_empty_conv due)
    then have "filter (\<lambda>x. sd_id x \<notin> ?D) S = filter (\<lambda>x. sd_id x \<notin> ?D) (drop limit S)"
      by (metis append_Nil append_take_drop_id filter_append)
    then show ?thesis by (metis length_filter_le)
  qed
  also have "\<dots> = length (filter (stale_check t0) (domain_rows st)) - limit"
    using S by (metis length_drop size_mset)
  finally show "length (filter (stale_check t0) (domain_rows (recheck_tick limit (lookup, now) st))) \<le>
      length (filter (stale_check t0) (domain_rows st)) - limit" by (simp add: eq)
qed

text \<open>C37: While the resolver answers, every Sending domain is reached: after enough ticks for the batch size to
  cover the table, each domain has been checked at or after the time the ticks began.\<close>

theorem recheck_reaches_all:
  assumes "store_ok st" and "\<And>lookup now. (lookup, now) \<in> set ticks \<Longrightarrow> answers lookup st \<and> t0 \<le> now"
    and "length (domain_rows st) \<le> limit * length ticks" and "r \<in> set (domain_rows (recheck_ticks limit ticks st))"
  shows "\<exists>t. sd_last_checked_at r = Some t \<and> t0 \<le> t"
proof -
  have "length (filter (stale_check t0) (domain_rows (recheck_ticks limit ticks st))) \<le>
      length (filter (stale_check t0) (domain_rows st)) - limit * length ticks"
    using assms(1,2)
  proof (induction ticks arbitrary: st)
    case (Cons tick ticks)
    obtain lookup now where t: "tick = (lookup, now)" by (cases tick)
    have a: "answers lookup st" "t0 \<le> now" using Cons.prems(2) [of lookup now] by (simp_all add: t)
    note step = tick_progress [OF Cons.prems(1) a, of limit]
    have "answers l (recheck_tick limit tick st) \<longleftrightarrow> answers l st" for l
    proof -
      have "answers l x \<longleftrightarrow> (\<forall>(s, d, p) \<in> set (map (\<lambda>r. (dr_selector r, sd_domain r, dr_public r)) (domain_rows x)).
          l (dkim_host s d @ ''.'') \<noteq> DnsFailure \<and> dkim_public_part p \<noteq> '''')" for x
        by (auto simp: answers_def)
      then show ?thesis using step(3) by (simp only: t)
    qed
    then have "length (filter (stale_check t0) (domain_rows (recheck_ticks limit ticks (recheck_tick limit tick st)))) \<le>
        length (filter (stale_check t0) (domain_rows (recheck_tick limit tick st))) - limit * length ticks"
      using Cons.prems(2) step(2) by (intro Cons.IH) (auto simp: t)
    then show ?case using step(1) by (simp add: t)
  qed simp
  also have "\<dots> = 0" using le_trans [OF length_filter_le assms(3)] by simp
  finally have "\<not> stale_check t0 r" using assms(4) by (simp add: filter_empty_conv)
  then show ?thesis by (auto simp: stale_check_def split: option.splits)
qed


section \<open>Witnesses\<close>

definition demo_row :: "id \<Rightarrow> string \<Rightarrow> domain_row" where
  "demo_row i dmn = \<lparr>sd_id = i, sd_workspace = 1, sd_domain = dmn, sd_verified = False, sd_last_checked_at = None,
     sd_verified_at = None, dr_selector = ''a'', dr_private = ''s'', dr_public = ''v=DKIM1; k=rsa; p=K''\<rparr>"

definition demo_store :: domain_store where
  "demo_store = \<lparr>domain_rows = [demo_row 1 ''x.io'', demo_row 2 ''y.io''], next_domain = 3\<rparr>"

definition demo_resolver :: resolver where
  "demo_resolver n = (if take 2 n = ''a.'' then DnsTxt [''other'', ''v=DKIM1; p= K''] else DnsNotFound)"

lemma demo_store_ok: "store_ok demo_store"
  by (simp add: store_ok_def demo_store_def demo_row_def)

lemma demo_store_unverified: "\<forall>r \<in> set (domain_rows demo_store). \<not> sd_verified r"
  by (simp add: demo_store_def demo_row_def)


lemma stale_check_verifies_witness:
  "\<exists>st2 st3 row. update_domain 1 1 (Some ''b'') demo_store = Inr (st2) \<and>
     write_check demo_resolver 9 (demo_row 1 ''x.io'') (snd st2) = Inr (True, False, st3) \<and>
     read_domain 1 st3 = Some row \<and> dr_selector row = ''b''"
proof -
  let ?st2 = "demo_store\<lparr>domain_rows := [(demo_row 1 ''x.io'')\<lparr>dr_selector := ''b''\<rparr>, demo_row 2 ''y.io'']\<rparr>"
  have "read_domain 1 demo_store = Some (demo_row 1 ''x.io'')"
    "update_domain (sd_workspace (demo_row 1 ''x.io'')) 1 (Some ''b'') demo_store = Inr ((demo_row 1 ''x.io'')\<lparr>dr_selector := ''b''\<rparr>, ?st2)"
    "check_outcome demo_resolver (demo_row 1 ''x.io'') = Inr True" "valid_selector ''b'' = Some ''b''"
    by code_simp+
  moreover have "demo_resolver (dkim_host ''b'' (sd_domain (demo_row 1 ''x.io'')) @ ''.'') = DnsNotFound"
    by (simp add: demo_resolver_def dkim_host_def demo_row_def)
  ultimately show ?thesis
    using stale_check_verifies [OF demo_store_ok, of 1 "demo_row 1 ''x.io''" demo_resolver "''b''" _ ?st2 "''b''" 9]
    by (auto simp: demo_row_def)
qed

lemma failing_lookups_starve_witness:
  "recheck_ticks 1 [(\<lambda>n. if n = ''a._domainkey.x.io.'' then DnsFailure else DnsNotFound, 5), (\<lambda>_. DnsFailure, 6)] demo_store = demo_store"
proof (rule failing_lookups_starve)
  have due: "due_for_recheck 1 demo_store = [1]" by code_simp
  fix lookup now r
  assume "(lookup, now) \<in> set [(\<lambda>n. if n = ''a._domainkey.x.io.'' then DnsFailure else DnsNotFound, 5::int), (\<lambda>_. DnsFailure, 6)]"
    and "r \<in> set (domain_rows demo_store)" and "sd_id r \<in> set (due_for_recheck 1 demo_store)"
  moreover from this(3) have "sd_id r = 1" unfolding due by simp
  ultimately show "lookup (dkim_host (dr_selector r) (sd_domain r) @ ''.'') = DnsFailure"
    by (auto simp: demo_store_def demo_row_def dkim_host_def)
qed

lemma recheck_reaches_all_witness:
  "list_all (\<lambda>r. \<exists>t. sd_last_checked_at r = Some t \<and> 5 \<le> t)
     (domain_rows (recheck_ticks 1 [(demo_resolver, 5), (demo_resolver, 6)] demo_store))"
  unfolding list_all_iff
proof
  have "dkim_public_part ''v=DKIM1; k=rsa; p=K'' \<noteq> ''''" by code_simp
  then have "answers demo_resolver demo_store"
    by (simp add: answers_def demo_store_def demo_row_def demo_resolver_def)
  then show "\<exists>t. sd_last_checked_at r = Some t \<and> 5 \<le> t"
    if "r \<in> set (domain_rows (recheck_ticks 1 [(demo_resolver, 5), (demo_resolver, 6)] demo_store))" for r
    by (intro recheck_reaches_all [OF demo_store_ok _ _ that]) (auto simp: demo_store_def)
qed

end
