(* ===== verification/Outbox.thy ===== *)
theory Outbox
  imports EventConsumers "HOL-Library.Product_Lexorder" "HOL-Library.Multiset"
begin

text \<open>
  The retention of the domain-event outbox and of the Event rows: \<open>PruneOutbox\<close> (\<open>internal/events/prune.go\<close>) and
  \<open>PruneEvents\<close> (\<open>internal/events/retention.go\<close>), the lag the gauge reports (\<open>internal/events/lag.go\<close>), and the
  machine of producers, consumer groups and prunes in which no event is lost.

  The reader of a consumer group is watermill-sql's. It is a parameter (\<open>pick\<close>) with what the code relies on as a
  hypothesis (\<open>reads_in_order\<close>): it hands over the next row after the group's cursor in (transaction, offset)
  order, among the rows of transactions older than every open one, and stores the row's position as the new
  cursor. A prune runs at one instant here; the code's batches are separate statements with the same bound.
\<close>

section \<open>Deleting in batches\<close>

definition batch_victims :: "('r \<Rightarrow> 'k::linorder) \<Rightarrow> ('r \<Rightarrow> bool) \<Rightarrow> nat \<Rightarrow> 'r list \<Rightarrow> 'r list" where
  "batch_victims key p n rows = take n (sort_key key (filter p rows))"

definition without_batch :: "('r \<Rightarrow> 'k::linorder) \<Rightarrow> ('r \<Rightarrow> 'i) \<Rightarrow> ('r \<Rightarrow> bool) \<Rightarrow> nat \<Rightarrow> 'r list \<Rightarrow> 'r list" where
  "without_batch key idf p n rows = filter (\<lambda>r. idf r \<notin> idf ` set (batch_victims key p n rows)) rows"

text \<open>The loop ends when a batch comes back short; with an empty batch size it never does (\<open>None\<close>).\<close>

partial_function (option) delete_batches ::
    "('r \<Rightarrow> 'k::linorder) \<Rightarrow> ('r \<Rightarrow> 'i) \<Rightarrow> ('r \<Rightarrow> bool) \<Rightarrow> nat \<Rightarrow> nat \<Rightarrow> 'r list \<Rightarrow> (nat \<times> 'r list) option" where
  "delete_batches key idf p n sofar rows =
     (let rows' = without_batch key idf p n rows; c = length rows - length rows' in
      if c < n then Some (sofar + c, rows') else delete_batches key idf p n (sofar + c) rows')"

lemma batch_split:
  assumes "distinct (map idf rows)"
  shows "without_batch key idf p n rows = filter (\<lambda>r. r \<notin> set (batch_victims key p n rows)) rows"
proof -
  have sub: "set (batch_victims key p n rows) \<subseteq> set rows"
    unfolding batch_victims_def using set_take_subset [of n "sort_key key (filter p rows)"] by auto
  have "idf r \<notin> idf ` set (batch_victims key p n rows) \<longleftrightarrow> r \<notin> set (batch_victims key p n rows)" if "r \<in> set rows" for r
    using assms sub that by (auto simp: distinct_map dest: inj_onD)
  then show ?thesis unfolding without_batch_def by (intro filter_cong) auto
qed

lemma length_filter_set:
  assumes "distinct rows" and "distinct vs" and "set vs \<subseteq> set rows"
  shows "length (filter (\<lambda>r. r \<notin> set vs) rows) = length rows - length vs"
proof -
  have "set (filter (\<lambda>r. r \<notin> set vs) rows) = set rows - set vs" by auto
  moreover have "distinct (filter (\<lambda>r. r \<notin> set vs) rows)" using assms(1) by simp
  ultimately have "length (filter (\<lambda>r. r \<notin> set vs) rows) = card (set rows - set vs)" by (metis distinct_card)
  also have "\<dots> = card (set rows) - card (set vs)" using assms(3) by (simp add: card_Diff_subset)
  finally show ?thesis using assms(1,2) by (simp add: distinct_card)
qed

lemma delete_batches_all:
  assumes "distinct (map idf rows)" and "0 < n"
  shows "delete_batches key idf p n sofar rows =
    Some (sofar + length (filter p rows), filter (\<lambda>r. \<not> p r) rows)"
  using assms(1)
proof (induction "length (filter p rows)" arbitrary: rows sofar rule: less_induct)
  case less
  let ?V = "batch_victims key p n rows"
  let ?rows = "without_batch key idf p n rows"
  have d: "distinct rows" using less.prems by (simp add: distinct_map)
  have lenV: "length ?V = min n (length (filter p rows))" by (simp add: batch_victims_def min.commute)
  have dV: "distinct ?V" unfolding batch_victims_def using d by simp
  have setV: "set ?V \<subseteq> set (filter p rows)"
    unfolding batch_victims_def using set_take_subset [of n "sort_key key (filter p rows)"] by auto
  have rows': "?rows = filter (\<lambda>r. r \<notin> set ?V) rows" by (rule batch_split [OF less.prems])
  have lenr: "length ?rows = length rows - length ?V"
    unfolding rows' using setV by (intro length_filter_set d dV) auto
  have "length ?V \<le> length rows"
    unfolding lenV using length_filter_le [of p rows] by (simp add: min.coboundedI2)
  then have c: "length rows - length ?rows = length ?V" using lenr by simp
  have keep: "filter (\<lambda>r. \<not> p r) ?rows = filter (\<lambda>r. \<not> p r) rows"
    unfolding rows' filter_filter using setV by (intro filter_cong) auto
  have left: "length (filter p ?rows) = length (filter p rows) - length ?V"
  proof -
    have "filter p ?rows = filter (\<lambda>r. r \<notin> set ?V) (filter p rows)" unfolding rows' filter_filter by (intro filter_cong) auto
    then show ?thesis using length_filter_set [of "filter p rows" ?V] d dV setV by simp
  qed
  show ?case
  proof (cases "length ?V < n")
    case True
    then have all: "length ?V = length (filter p rows)" using lenV by simp
    then have "set ?V = set (filter p rows)"
      using setV dV d by (metis card_subset_eq distinct_card distinct_filter finite_set)
    then have "?rows = filter (\<lambda>r. \<not> p r) rows" unfolding rows' by (intro filter_cong) auto
    then show ?thesis using True all c by (subst delete_batches.simps) (simp add: Let_def)
  next
    case False
    then have n: "length ?V = n" using lenV by simp
    then have "length (filter p ?rows) < length (filter p rows)" using left lenV assms(2) by simp
    moreover have "distinct (map idf ?rows)" unfolding rows' using less.prems by (simp add: distinct_map_filter)
    ultimately have "delete_batches key idf p n (sofar + length ?V) ?rows =
        Some (sofar + length ?V + length (filter p ?rows), filter (\<lambda>r. \<not> p r) ?rows)" by (rule less.hyps)
    moreover have "length ?V + length (filter p ?rows) = length (filter p rows)" using left lenV n by simp
    ultimately show ?thesis using False c keep by (subst delete_batches.simps) (simp add: Let_def)
  qed
qed

section \<open>Pruning the Event rows\<close>

definition expirable :: "event_row \<Rightarrow> bool" where
  "expirable e \<longleftrightarrow>
     ev_action e \<notin> {''marketing.confirmed'', ''email.complained'', ''email.unsubscribed''} \<and>
     \<not> (ev_action e = ''email.bounced'' \<and> ev_properties e ''bounceKind'' = Some (JStr ''permanent''))"

definition prune_events :: "time \<Rightarrow> duration \<Rightarrow> nat \<Rightarrow> db \<Rightarrow> (nat \<times> db) option" where
  "prune_events now retention batch d =
     (if retention \<le> 0 then Some (0, d)
      else map_option (\<lambda>(n, rows). (n, d\<lparr>events := rows\<rparr>))
        (delete_batches ev_created_at ev_id (\<lambda>e. ev_created_at e < now - retention \<and> expirable e) batch 0 (events d)))"

text \<open>The Event retention returns for every batch size, deletes exactly the analytical Events older than the
  retention, and never an evidentiary one: what proves a consent, a complaint, an unsubscribe or a permanent
  bounce stays at any age.\<close>

theorem retention_is_exact:
  assumes "distinct (map ev_id (events d))" and "0 < batch" and "0 < retention"
  shows "prune_events now retention batch d =
    Some (length (filter (\<lambda>e. ev_created_at e < now - retention \<and> expirable e) (events d)),
      d\<lparr>events := filter (\<lambda>e. now - retention \<le> ev_created_at e \<or>
        ev_action e \<in> {''marketing.confirmed'', ''email.complained'', ''email.unsubscribed''} \<or>
        (ev_action e = ''email.bounced'' \<and> ev_properties e ''bounceKind'' = Some (JStr ''permanent''))) (events d)\<rparr>)"
proof -
  have "filter (\<lambda>e. \<not> (ev_created_at e < now - retention \<and> expirable e)) (events d) =
      filter (\<lambda>e. now - retention \<le> ev_created_at e \<or>
        ev_action e \<in> {''marketing.confirmed'', ''email.complained'', ''email.unsubscribed''} \<or>
        (ev_action e = ''email.bounced'' \<and> ev_properties e ''bounceKind'' = Some (JStr ''permanent''))) (events d)"
    by (intro filter_cong) (auto simp: expirable_def)
  then show ?thesis
    using assms(3) by (simp add: prune_events_def delete_batches_all [OF assms(1,2)])
qed

section \<open>The outbox and its cursors\<close>

record outbox_row =
  ob_tx :: nat
  ob_offset :: nat
  ob_created :: time
  ob_envelope :: envelope

record cursor =
  cu_group :: string
  cu_tx :: nat
  cu_acked :: "nat option"

definition row_key :: "outbox_row \<Rightarrow> nat \<times> nat" where
  "row_key r = (ob_tx r, ob_offset r)"

definition consumer_groups :: "string list" where
  "consumer_groups = [''persist'', ''automations'', ''webhooks'', ''suppression'', ''audit'']"

record prune_result =
  pr_deleted :: nat
  pr_retired :: nat
  pr_skipped :: bool

text \<open>NULLs sort first, so a cursor without an acknowledgement is the lowest of its transaction.\<close>

definition cursor_key :: "cursor \<Rightarrow> nat \<times> nat" where
  "cursor_key c = (cu_tx c, case cu_acked c of None \<Rightarrow> 0 | Some o' \<Rightarrow> Suc o')"

definition prunable :: "time \<Rightarrow> duration \<Rightarrow> cursor \<Rightarrow> outbox_row \<Rightarrow> bool" where
  "prunable now age lowest r \<longleftrightarrow>
     row_key r < (cu_tx lowest, case cu_acked lowest of None \<Rightarrow> 0 | Some o' \<Rightarrow> o') \<and> ob_created r < now - age"

definition prune_outbox ::
    "time \<Rightarrow> duration \<Rightarrow> nat \<Rightarrow> outbox_row list \<Rightarrow> cursor list \<Rightarrow> (prune_result \<times> outbox_row list \<times> cursor list) option" where
  "prune_outbox now age batch rows cursors =
     (let known = filter (\<lambda>c. cu_group c \<in> set consumer_groups) cursors;
          retired = length cursors - length known;
          sorted = sort_key cursor_key known
      in if (\<exists>c \<in> set sorted. cu_acked c = None) \<or> length sorted \<noteq> length consumer_groups
         then Some (\<lparr>pr_deleted = 0, pr_retired = retired, pr_skipped = True\<rparr>, rows, known)
         else
           map_option (\<lambda>(n, rows'). (\<lparr>pr_deleted = n, pr_retired = retired, pr_skipped = False\<rparr>, rows', known))
             (delete_batches row_key row_key (prunable now age (hd sorted)) batch 0 rows))"

text \<open>The lag of a group: the age of its oldest row past the cursor, 0 when it is caught up.\<close>

definition outbox_lag :: "time \<Rightarrow> outbox_row list \<Rightarrow> cursor list \<Rightarrow> string \<Rightarrow> duration" where
  "outbox_lag now rows cursors g =
     (let at_cursor = (case find_where (\<lambda>c. cu_group c = g) cursors of
            None \<Rightarrow> (0, 0) | Some c \<Rightarrow> (cu_tx c, case cu_acked c of None \<Rightarrow> 0 | Some o' \<Rightarrow> o'));
          pending = map ob_created (filter (\<lambda>r. at_cursor < row_key r) rows)
      in case pending of [] \<Rightarrow> 0 | t # ts \<Rightarrow> now - fold min ts t)"


section \<open>Producers, consumer groups and prunes\<close>

text \<open>The database as the bus sees it: visible rows, cursors, open transactions with their uncommitted rows, and
  two ghosts, every row ever committed and every delivery that was acknowledged.\<close>

record bus_state =
  bs_rows :: "outbox_row list"
  bs_cursors :: "cursor list"
  bs_open :: "nat list"
  bs_pending :: "outbox_row list"
  bs_next_tx :: nat
  bs_next_offset :: nat
  bs_published :: "outbox_row list"
  bs_consumed :: "(string \<times> outbox_row) list"

definition empty_bus :: bus_state where
  "empty_bus = \<lparr>bs_rows = [], bs_cursors = [], bs_open = [], bs_pending = [], bs_next_tx = 1, bs_next_offset = 1,
     bs_published = [], bs_consumed = []\<rparr>"

text \<open>\<open>pg_snapshot_xmin\<close>: every transaction below it has ended.\<close>

definition xmin :: "bus_state \<Rightarrow> nat" where
  "xmin st = fold min (bs_open st) (bs_next_tx st)"

type_synonym reader = "(nat \<times> nat) option \<Rightarrow> nat \<Rightarrow> outbox_row list \<Rightarrow> outbox_row option"

definition past :: "(nat \<times> nat) option \<Rightarrow> outbox_row \<Rightarrow> bool" where
  "past pos r \<longleftrightarrow> (case pos of None \<Rightarrow> True | Some k \<Rightarrow> k < row_key r)"

definition reads_in_order :: "reader \<Rightarrow> bool" where
  "reads_in_order pick \<longleftrightarrow>
     (\<forall>pos m rows r. pick pos m rows = Some r \<longrightarrow> r \<in> set rows \<and> ob_tx r < m \<and> past pos r \<and>
        (\<forall>x \<in> set rows. ob_tx x < m \<longrightarrow> past pos x \<longrightarrow> row_key r \<le> row_key x))"

definition position :: "string \<Rightarrow> cursor list \<Rightarrow> (nat \<times> nat) option" where
  "position g cursors =
     (case find_where (\<lambda>c. cu_group c = g) cursors of
        None \<Rightarrow> None | Some c \<Rightarrow> map_option (\<lambda>o'. (cu_tx c, o')) (cu_acked c))"

definition acknowledge :: "string \<Rightarrow> nat \<times> nat \<Rightarrow> cursor list \<Rightarrow> cursor list" where
  "acknowledge g k cursors =
     filter (\<lambda>c. cu_group c \<noteq> g) cursors @ [\<lparr>cu_group = g, cu_tx = fst k, cu_acked = Some (snd k)\<rparr>]"

inductive bus_step :: "reader \<Rightarrow> bus_state \<Rightarrow> bus_state \<Rightarrow> bool"
  for pick st where
  begin_tx: "bus_step pick st (st\<lparr>bs_open := bs_next_tx st # bs_open st, bs_next_tx := bs_next_tx st + 1\<rparr>)"
| insert_row: "tx \<in> set (bs_open st) \<Longrightarrow>
    bus_step pick st (st\<lparr>bs_pending := bs_pending st @
        [\<lparr>ob_tx = tx, ob_offset = bs_next_offset st, ob_created = now, ob_envelope = env\<rparr>],
      bs_next_offset := bs_next_offset st + 1\<rparr>)"
| commit: "tx \<in> set (bs_open st) \<Longrightarrow>
    bus_step pick st (st\<lparr>bs_rows := bs_rows st @ filter (\<lambda>r. ob_tx r = tx) (bs_pending st),
      bs_published := bs_published st @ filter (\<lambda>r. ob_tx r = tx) (bs_pending st),
      bs_pending := filter (\<lambda>r. ob_tx r \<noteq> tx) (bs_pending st), bs_open := filter (\<lambda>t. t \<noteq> tx) (bs_open st)\<rparr>)"
| rollback: "tx \<in> set (bs_open st) \<Longrightarrow>
    bus_step pick st (st\<lparr>bs_pending := filter (\<lambda>r. ob_tx r \<noteq> tx) (bs_pending st),
      bs_open := filter (\<lambda>t. t \<noteq> tx) (bs_open st)\<rparr>)"
| attach: "find_where (\<lambda>c. cu_group c = g) (bs_cursors st) = None \<Longrightarrow>
    bus_step pick st (st\<lparr>bs_cursors := bs_cursors st @ [\<lparr>cu_group = g, cu_tx = 0, cu_acked = None\<rparr>]\<rparr>)"
| consume: "pick (position g (bs_cursors st)) (xmin st) (bs_rows st) = Some r \<Longrightarrow>
    bus_step pick st (st\<lparr>bs_cursors := acknowledge g (row_key r) (bs_cursors st),
      bs_consumed := bs_consumed st @ [(g, r)]\<rparr>)"
| prune: "0 < batch \<Longrightarrow> prune_outbox now age batch (bs_rows st) (bs_cursors st) = Some (res, rows, cursors) \<Longrightarrow>
    bus_step pick st (st\<lparr>bs_rows := rows, bs_cursors := cursors\<rparr>)"

definition bus_ok :: "bus_state \<Rightarrow> bool" where
  "bus_ok st \<longleftrightarrow>
     distinct (map ob_offset (bs_published st @ bs_pending st)) \<and>
     (\<forall>r \<in> set (bs_published st @ bs_pending st). ob_offset r < bs_next_offset st) \<and>
     distinct (map ob_offset (bs_rows st)) \<and> set (bs_rows st) \<subseteq> set (bs_published st) \<and>
     (\<forall>t \<in> set (bs_open st). t < bs_next_tx st) \<and> (\<forall>r \<in> set (bs_pending st). ob_tx r \<in> set (bs_open st)) \<and>
     distinct (map cu_group (bs_cursors st)) \<and>
     (\<forall>g pos. position g (bs_cursors st) = Some pos \<longrightarrow> fst pos < bs_next_tx st \<and> (\<forall>t \<in> set (bs_open st). fst pos < t) \<and>
        (g \<in> set consumer_groups \<longrightarrow>
          (\<forall>x \<in> set (bs_published st). row_key x \<le> pos \<longrightarrow> (g, x) \<in> set (bs_consumed st)))) \<and>
     (\<forall>x \<in> set (bs_published st). x \<notin> set (bs_rows st) \<longrightarrow> (\<forall>g \<in> set consumer_groups. (g, x) \<in> set (bs_consumed st)))"

lemma fold_min_less: "(m::nat) < fold min ts t \<longleftrightarrow> m < t \<and> (\<forall>x \<in> set ts. m < x)"
  by (induction ts arbitrary: t) auto

lemma less_xmin: "m < xmin st \<longleftrightarrow> m < bs_next_tx st \<and> (\<forall>t \<in> set (bs_open st). m < t)"
  unfolding xmin_def by (rule fold_min_less)

lemma position_acknowledge:
  "position g (acknowledge h k cursors) = (if g = h then Some k else position g cursors)"
proof (cases "g = h")
  case True
  then have "find_where (\<lambda>c. cu_group c = g) (acknowledge h k cursors) = Some \<lparr>cu_group = h, cu_tx = fst k, cu_acked = Some (snd k)\<rparr>"
    unfolding acknowledge_def by (intro find_where_append) (auto simp: find_where_None_iff)
  then show ?thesis using True by (simp add: position_def)
next
  case False
  have "find_where (\<lambda>c. cu_group c = g) (filter (\<lambda>c. cu_group c \<noteq> h) cs @ [\<lparr>cu_group = h, cu_tx = fst k, cu_acked = Some (snd k)\<rparr>]) =
      find_where (\<lambda>c. cu_group c = g) cs" for cs
    using False by (induction cs) (auto simp: find_where_def)
  then show ?thesis using False by (simp add: position_def acknowledge_def)
qed

lemma position_attach:
  "find_where (\<lambda>c. cu_group c = h) cursors = None \<Longrightarrow>
     position g (cursors @ [\<lparr>cu_group = h, cu_tx = 0, cu_acked = None\<rparr>]) = position g cursors"
  by (induction cursors) (auto simp: position_def find_where_def split: if_splits)

lemma position_known:
  "position g (filter (\<lambda>c. cu_group c \<in> S) cursors) = (if g \<in> S then position g cursors else None)"
  by (induction cursors) (auto simp: position_def find_where_def)

text \<open>A prune deletes only rows below the cursor of every registered group.\<close>

lemma prune_outbox_below:
  assumes "prune_outbox now age batch rows cursors = Some (res, rows', cursors')" and "0 < batch"
    and "distinct (map row_key rows)" and "distinct (map cu_group cursors)"
  shows "cursors' = filter (\<lambda>c. cu_group c \<in> set consumer_groups) cursors" and "set rows' \<subseteq> set rows"
    and "\<And>x. x \<in> set rows \<Longrightarrow> x \<notin> set rows' \<Longrightarrow> \<forall>g \<in> set consumer_groups. \<exists>pos. position g cursors = Some pos \<and> row_key x < pos"
    and "rows' = rows \<or> (\<exists>p. rows' = filter p rows)"
proof -
  let ?known = "filter (\<lambda>c. cu_group c \<in> set consumer_groups) cursors"
  let ?sorted = "sort_key cursor_key ?known"
  let ?low = "hd ?sorted"
  let ?idle = "(\<exists>c \<in> set ?sorted. cu_acked c = None) \<or> length ?sorted \<noteq> length consumer_groups"
  have eq: "(rows', cursors') = (if ?idle then rows else filter (\<lambda>r. \<not> prunable now age ?low r) rows, ?known)"
  proof (cases ?idle)
    case True
    show ?thesis
      using assms(1) unfolding prune_outbox_def Let_def if_P [OF True] by simp
  next
    case False
    show ?thesis
      using assms(1) unfolding prune_outbox_def Let_def if_not_P [OF False] delete_batches_all [OF assms(3,2)] by auto
  qed
  show "cursors' = ?known"
    using eq by simp
  show filtered: "rows' = rows \<or> (\<exists>p. rows' = filter p rows)"
    using eq by (cases ?idle) auto
  then show "set rows' \<subseteq> set rows" by auto
  fix x
  assume x: "x \<in> set rows" "x \<notin> set rows'"
  have run: "\<not> ?idle" using eq x by (cases ?idle) simp_all
  then have "rows' = filter (\<lambda>r. \<not> prunable now age ?low r) rows" using eq by (simp only: if_False prod.inject)
  then have bx: "row_key x < (cu_tx ?low, case cu_acked ?low of None \<Rightarrow> 0 | Some o' \<Rightarrow> o')"
    using x by (auto simp: prunable_def)
  show "\<forall>g \<in> set consumer_groups. \<exists>pos. position g cursors = Some pos \<and> row_key x < pos"
  proof
    fix g
    assume g: "g \<in> set consumer_groups"
    have d: "distinct (map cu_group ?known)" using assms(4) by (simp add: distinct_map_filter)
    have "card (set (map cu_group ?known)) = card (set consumer_groups)"
      using run d distinct_card [OF d] by (simp add: consumer_groups_def)
    moreover have "set (map cu_group ?known) \<subseteq> set consumer_groups" by auto
    ultimately have "set (map cu_group ?known) = set consumer_groups" by (intro card_subset_eq) simp_all
    then obtain c where c: "c \<in> set ?known" "cu_group c = g" using g by (metis (no_types, lifting) image_iff list.set_map)
    then obtain o' where o': "cu_acked c = Some o'" using run by auto
    have "find_where (\<lambda>c. cu_group c = g) cursors = Some c"
      using c assms(4) by (intro find_where_unique) (auto simp: distinct_map dest: inj_onD)
    then have pos: "position g cursors = Some (cu_tx c, o')" by (simp add: position_def o')
    have ne: "?sorted \<noteq> []" using c by (metis length_0_conv length_sort list.set_cases neq_Nil_conv)
    then have "?low \<in> set ?sorted" by (rule hd_in_set)
    then obtain l where l: "cu_acked ?low = Some l" using run by auto
    have "cursor_key ?low \<le> cursor_key c"
    proof -
      have "sorted (map cursor_key ?sorted)" by simp
      moreover have "c \<in> set ?sorted" using c by simp
      ultimately show ?thesis using ne by (cases ?sorted) auto
    qed
    then have "(cu_tx ?low, l) \<le> (cu_tx c, o')" by (auto simp: cursor_key_def l o' less_eq_prod_def)
    moreover have "row_key x < (cu_tx ?low, l)" using bx by (simp add: l)
    ultimately have "row_key x < (cu_tx c, o')" by (rule less_le_trans [rotated])
    with pos show "\<exists>pos. position g cursors = Some pos \<and> row_key x < pos" by blast
  qed
qed


lemma offset_unique:
  "distinct (map ob_offset rows) \<Longrightarrow> r \<in> set rows \<Longrightarrow> x \<in> set rows \<Longrightarrow> row_key x = row_key r \<Longrightarrow> x = r"
  by (auto simp: row_key_def distinct_map dest: inj_onD)

lemma distinct_row_key: "distinct (map ob_offset rows) \<Longrightarrow> distinct (map row_key rows)"
  by (auto simp: distinct_map inj_on_def row_key_def)

lemma position_bound:
  "bus_ok st \<Longrightarrow> position g (bs_cursors st) = Some pos \<Longrightarrow> fst pos < bs_next_tx st \<and> (\<forall>t \<in> set (bs_open st). fst pos < t)"
  unfolding bus_ok_def by blast

lemma position_consumed:
  "bus_ok st \<Longrightarrow> position g (bs_cursors st) = Some pos \<Longrightarrow> x \<in> set (bs_published st) \<Longrightarrow> row_key x \<le> pos \<Longrightarrow>
     g \<in> set consumer_groups \<Longrightarrow> (g, x) \<in> set (bs_consumed st)"
  unfolding bus_ok_def by blast

lemma gone_consumed:
  "bus_ok st \<Longrightarrow> x \<in> set (bs_published st) \<Longrightarrow> x \<notin> set (bs_rows st) \<Longrightarrow> g \<in> set consumer_groups \<Longrightarrow>
     (g, x) \<in> set (bs_consumed st)"
  unfolding bus_ok_def by blast

lemma published_offsets: "bus_ok st \<Longrightarrow> distinct (map ob_offset (bs_published st))"
  unfolding bus_ok_def by simp

text \<open>What a reader hands over closes the gap below the new cursor: everything committed up to it is consumed.\<close>

lemma consume_covers:
  assumes "bus_ok st" and "reads_in_order pick" and "pick (position g (bs_cursors st)) (xmin st) (bs_rows st) = Some r"
    and "x \<in> set (bs_published st)" and "row_key x \<le> row_key r" and "g \<in> set consumer_groups"
  shows "x = r \<or> (g, x) \<in> set (bs_consumed st)"
proof -
  have r: "r \<in> set (bs_rows st)" "ob_tx r < xmin st" and
    least: "\<And>y. y \<in> set (bs_rows st) \<Longrightarrow> ob_tx y < xmin st \<Longrightarrow> past (position g (bs_cursors st)) y \<Longrightarrow> row_key r \<le> row_key y"
    using assms(2,3) unfolding reads_in_order_def by blast+
  show ?thesis
  proof (cases "x \<in> set (bs_rows st)")
    case False
    then show ?thesis using gone_consumed [OF assms(1,4)] assms(6) by blast
  next
    case True
    have tx: "ob_tx x < xmin st" using assms(5) r(2) by (auto simp: row_key_def less_eq_prod_def)
    show ?thesis
    proof (cases "past (position g (bs_cursors st)) x")
      case True
      then have "row_key r = row_key x" using least [OF \<open>x \<in> set (bs_rows st)\<close> tx] assms(5) by simp
      moreover have "distinct (map ob_offset (bs_rows st))" using assms(1) by (simp add: bus_ok_def)
      ultimately show ?thesis using offset_unique [OF _ r(1) \<open>x \<in> set (bs_rows st)\<close>] by simp
    next
      case False
      then obtain pos where "position g (bs_cursors st) = Some pos" "row_key x \<le> pos"
        by (auto simp: past_def not_less split: option.splits)
      then show ?thesis using position_consumed [OF assms(1) _ assms(4) _ assms(6)] by blast
    qed
  qed
qed


lemma bus_okI:
  assumes "distinct (map ob_offset (bs_published st @ bs_pending st))"
    "\<And>r. r \<in> set (bs_published st @ bs_pending st) \<Longrightarrow> ob_offset r < bs_next_offset st"
    "distinct (map ob_offset (bs_rows st))" "set (bs_rows st) \<subseteq> set (bs_published st)"
    "\<And>t. t \<in> set (bs_open st) \<Longrightarrow> t < bs_next_tx st" "\<And>r. r \<in> set (bs_pending st) \<Longrightarrow> ob_tx r \<in> set (bs_open st)"
    "distinct (map cu_group (bs_cursors st))"
    "\<And>g pos. position g (bs_cursors st) = Some pos \<Longrightarrow> fst pos < bs_next_tx st \<and> (\<forall>t \<in> set (bs_open st). fst pos < t)"
    "\<And>g pos x. position g (bs_cursors st) = Some pos \<Longrightarrow> g \<in> set consumer_groups \<Longrightarrow> x \<in> set (bs_published st) \<Longrightarrow>
       row_key x \<le> pos \<Longrightarrow> (g, x) \<in> set (bs_consumed st)"
    "\<And>g x. x \<in> set (bs_published st) \<Longrightarrow> x \<notin> set (bs_rows st) \<Longrightarrow> g \<in> set consumer_groups \<Longrightarrow> (g, x) \<in> set (bs_consumed st)"
  shows "bus_ok st"
  unfolding bus_ok_def using assms by blast

lemma bus_okD:
  assumes "bus_ok st"
  shows "distinct (map ob_offset (bs_published st @ bs_pending st))"
    "\<And>r. r \<in> set (bs_published st @ bs_pending st) \<Longrightarrow> ob_offset r < bs_next_offset st"
    "distinct (map ob_offset (bs_rows st))" "set (bs_rows st) \<subseteq> set (bs_published st)"
    "\<And>t. t \<in> set (bs_open st) \<Longrightarrow> t < bs_next_tx st" "\<And>r. r \<in> set (bs_pending st) \<Longrightarrow> ob_tx r \<in> set (bs_open st)"
    "distinct (map cu_group (bs_cursors st))"
  using assms unfolding bus_ok_def by blast+

lemmas bus_facts = position_bound position_consumed gone_consumed bus_okD

lemma commit_ok:
  assumes "bus_ok st" and "tx \<in> set (bs_open st)"
  shows "bus_ok (st\<lparr>bs_rows := bs_rows st @ filter (\<lambda>r. ob_tx r = tx) (bs_pending st),
      bs_published := bs_published st @ filter (\<lambda>r. ob_tx r = tx) (bs_pending st),
      bs_pending := filter (\<lambda>r. ob_tx r \<noteq> tx) (bs_pending st), bs_open := filter (\<lambda>t. t \<noteq> tx) (bs_open st)\<rparr>)"
proof -
  define st' where "st' = st\<lparr>bs_rows := bs_rows st @ filter (\<lambda>r. ob_tx r = tx) (bs_pending st),
      bs_published := bs_published st @ filter (\<lambda>r. ob_tx r = tx) (bs_pending st),
      bs_pending := filter (\<lambda>r. ob_tx r \<noteq> tx) (bs_pending st), bs_open := filter (\<lambda>t. t \<noteq> tx) (bs_open st)\<rparr>"
  have sel: "bs_rows st' = bs_rows st @ filter (\<lambda>r. ob_tx r = tx) (bs_pending st)"
    "bs_cursors st' = bs_cursors st"
    "bs_open st' = filter (\<lambda>t. t \<noteq> tx) (bs_open st)"
    "bs_pending st' = filter (\<lambda>r. ob_tx r \<noteq> tx) (bs_pending st)"
    "bs_next_tx st' = bs_next_tx st"
    "bs_next_offset st' = bs_next_offset st"
    "bs_published st' = bs_published st @ filter (\<lambda>r. ob_tx r = tx) (bs_pending st)"
    "bs_consumed st' = bs_consumed st"
    by (simp_all add: st'_def)
  have "bus_ok st'"
  proof (rule bus_okI; unfold sel)
    note d = bus_okD [OF assms(1)]
    have part: "distinct (map ob_offset (filter P ys))" if "distinct (map ob_offset (xs @ ys))" for P and xs ys :: "outbox_row list"
      using that by (simp add: distinct_map_filter)
    show "distinct (map ob_offset ((bs_published st @ filter (\<lambda>r. ob_tx r = tx) (bs_pending st)) @ filter (\<lambda>r. ob_tx r \<noteq> tx) (bs_pending st)))"
    proof -
      have "mset (filter (\<lambda>r. ob_tx r = tx) rows) + mset (filter (\<lambda>r. ob_tx r \<noteq> tx) rows) = mset rows" for rows
        by (induction rows) auto
      then have "mset (map ob_offset ((bs_published st @ filter (\<lambda>r. ob_tx r = tx) (bs_pending st)) @ filter (\<lambda>r. ob_tx r \<noteq> tx) (bs_pending st))) =
          mset (map ob_offset (bs_published st @ bs_pending st))"
        unfolding mset_map mset_append append_assoc by simp
      then show ?thesis using d(1) by (rule mset_eq_imp_distinct_iff [THEN iffD2])
    qed
    show "ob_offset r < bs_next_offset st"
      if "r \<in> set ((bs_published st @ filter (\<lambda>r. ob_tx r = tx) (bs_pending st)) @ filter (\<lambda>r. ob_tx r \<noteq> tx) (bs_pending st))" for r
      using d(2) that by auto
    show "distinct (map ob_offset (bs_rows st @ filter (\<lambda>r. ob_tx r = tx) (bs_pending st)))"
    proof -
      have "set (map ob_offset (bs_rows st)) \<subseteq> set (map ob_offset (bs_published st))" using d(4) by auto
      moreover have "set (map ob_offset (bs_published st)) \<inter> set (map ob_offset (bs_pending st)) = {}" using d(1) by simp
      moreover have "set (map ob_offset (filter (\<lambda>r. ob_tx r = tx) (bs_pending st))) \<subseteq> set (map ob_offset (bs_pending st))" by auto
      ultimately show ?thesis using d(3) part [OF d(1)] unfolding map_append distinct_append by blast
    qed
    show "set (bs_rows st @ filter (\<lambda>r. ob_tx r = tx) (bs_pending st)) \<subseteq> set (bs_published st @ filter (\<lambda>r. ob_tx r = tx) (bs_pending st))"
      using d(4) by auto
    show "t < bs_next_tx st" if "t \<in> set (filter (\<lambda>t. t \<noteq> tx) (bs_open st))" for t
      using d(5) that by auto
    show "ob_tx r \<in> set (filter (\<lambda>t. t \<noteq> tx) (bs_open st))" if "r \<in> set (filter (\<lambda>r. ob_tx r \<noteq> tx) (bs_pending st))" for r
      using d(6) that by auto
    show "distinct (map cu_group (bs_cursors st))" by (rule d(7))
    show "fst pos < bs_next_tx st \<and> (\<forall>t \<in> set (filter (\<lambda>t. t \<noteq> tx) (bs_open st)). fst pos < t)"
      if "position g (bs_cursors st) = Some pos" for g pos
      using position_bound [OF assms(1) that] by auto
    show "(g, x) \<in> set (bs_consumed st)"
      if p: "position g (bs_cursors st) = Some pos" and g: "g \<in> set consumer_groups"
        and x: "x \<in> set (bs_published st @ filter (\<lambda>r. ob_tx r = tx) (bs_pending st))" and k: "row_key x \<le> pos" for g pos x
    proof (cases "x \<in> set (bs_published st)")
      case True
      then show ?thesis using position_consumed [OF assms(1) p _ k g] by blast
    next
      case False
      then have "ob_tx x = tx" using x by auto
      then have "fst pos < ob_tx x" using position_bound [OF assms(1) p] assms(2) by blast
      then show ?thesis using k by (auto simp: row_key_def less_eq_prod_def)
    qed
    show "(g, x) \<in> set (bs_consumed st)"
      if "x \<in> set (bs_published st @ filter (\<lambda>r. ob_tx r = tx) (bs_pending st))"
        and "x \<notin> set (bs_rows st @ filter (\<lambda>r. ob_tx r = tx) (bs_pending st))" and "g \<in> set consumer_groups" for g x
      using gone_consumed [OF assms(1) _ _ that(3), of x] that(1,2) by auto
  qed
  then show ?thesis by (simp only: st'_def)
qed

lemma consume_ok:
  assumes "bus_ok st" and "reads_in_order pick" and r: "pick (position h (bs_cursors st)) (xmin st) (bs_rows st) = Some r"
  shows "bus_ok (st\<lparr>bs_cursors := acknowledge h (row_key r) (bs_cursors st), bs_consumed := bs_consumed st @ [(h, r)]\<rparr>)"
proof -
  define st' where "st' = st\<lparr>bs_cursors := acknowledge h (row_key r) (bs_cursors st), bs_consumed := bs_consumed st @ [(h, r)]\<rparr>"
  have sel: "bs_rows st' = bs_rows st"
    "bs_cursors st' = acknowledge h (row_key r) (bs_cursors st)"
    "bs_open st' = bs_open st"
    "bs_pending st' = bs_pending st"
    "bs_next_tx st' = bs_next_tx st"
    "bs_next_offset st' = bs_next_offset st"
    "bs_published st' = bs_published st"
    "bs_consumed st' = bs_consumed st @ [(h, r)]"
    by (simp_all add: st'_def)
  have "bus_ok st'"
  proof (rule bus_okI; unfold sel)
    note d = bus_okD [OF assms(1)]
    show "distinct (map ob_offset (bs_published st @ bs_pending st))" by (rule d(1))
    show "ob_offset x < bs_next_offset st" if "x \<in> set (bs_published st @ bs_pending st)" for x by (rule d(2) [OF that])
    show "distinct (map ob_offset (bs_rows st))" by (rule d(3))
    show "set (bs_rows st) \<subseteq> set (bs_published st)" by (rule d(4))
    show "t < bs_next_tx st" if "t \<in> set (bs_open st)" for t by (rule d(5) [OF that])
    show "ob_tx x \<in> set (bs_open st)" if "x \<in> set (bs_pending st)" for x by (rule d(6) [OF that])
    show "distinct (map cu_group (acknowledge h (row_key r) (bs_cursors st)))"
      using d(7) by (auto simp: acknowledge_def distinct_map_filter)
    have "ob_tx r < xmin st" using assms(2) r unfolding reads_in_order_def by blast
    then show "fst pos < bs_next_tx st \<and> (\<forall>t \<in> set (bs_open st). fst pos < t)"
      if "position g (acknowledge h (row_key r) (bs_cursors st)) = Some pos" for g pos
      using that position_bound [OF assms(1), of g pos]
      by (auto simp: position_acknowledge less_xmin row_key_def split: if_splits)
    show "(g, x) \<in> set (bs_consumed st @ [(h, r)])"
      if "position g (acknowledge h (row_key r) (bs_cursors st)) = Some pos" and g: "g \<in> set consumer_groups"
        and x: "x \<in> set (bs_published st)" and k: "row_key x \<le> pos" for g pos x
    proof (cases "g = h")
      case True
      then have "pos = row_key r" using that(1) by (simp add: position_acknowledge)
      then show ?thesis using consume_covers [OF assms(1,2) r x] k g True by auto
    next
      case False
      then have "position g (bs_cursors st) = Some pos" using that(1) by (simp add: position_acknowledge)
      then show ?thesis using position_consumed [OF assms(1) _ x k g] by auto
    qed
    show "(g, x) \<in> set (bs_consumed st @ [(h, r)])"
      if "x \<in> set (bs_published st)" "x \<notin> set (bs_rows st)" "g \<in> set consumer_groups" for g x
      using gone_consumed [OF assms(1) that] by simp
  qed
  then show ?thesis by (simp only: st'_def)
qed

lemma prune_ok:
  assumes "bus_ok st" and p: "prune_outbox now age batch (bs_rows st) (bs_cursors st) = Some (res, rows, cursors)" and "0 < batch"
  shows "bus_ok (st\<lparr>bs_rows := rows, bs_cursors := cursors\<rparr>)"
proof -
  define st' where "st' = st\<lparr>bs_rows := rows, bs_cursors := cursors\<rparr>"
  have sel: "bs_rows st' = rows"
    "bs_cursors st' = cursors"
    "bs_open st' = bs_open st"
    "bs_pending st' = bs_pending st"
    "bs_next_tx st' = bs_next_tx st"
    "bs_next_offset st' = bs_next_offset st"
    "bs_published st' = bs_published st"
    "bs_consumed st' = bs_consumed st"
    by (simp_all add: st'_def)
  have "bus_ok st'"
  proof (rule bus_okI; unfold sel)
    note d = bus_okD [OF assms(1)]
    note below = prune_outbox_below [OF p assms(3) distinct_row_key [OF d(3)] d(7)]
    have pos: "position g cursors = Some q \<Longrightarrow> position g (bs_cursors st) = Some q" for g q
      unfolding below(1) position_known by (simp split: if_splits)
    show "distinct (map ob_offset (bs_published st @ bs_pending st))" by (rule d(1))
    show "ob_offset x < bs_next_offset st" if "x \<in> set (bs_published st @ bs_pending st)" for x by (rule d(2) [OF that])
    show "distinct (map ob_offset rows)" using below(4) d(3) by (auto simp: distinct_map_filter)
    show "set rows \<subseteq> set (bs_published st)" using below(2) d(4) by blast
    show "t < bs_next_tx st" if "t \<in> set (bs_open st)" for t by (rule d(5) [OF that])
    show "ob_tx x \<in> set (bs_open st)" if "x \<in> set (bs_pending st)" for x by (rule d(6) [OF that])
    show "distinct (map cu_group cursors)" unfolding below(1) using d(7) by (simp add: distinct_map_filter)
    show "fst q < bs_next_tx st \<and> (\<forall>t \<in> set (bs_open st). fst q < t)" if "position g cursors = Some q" for g q
      by (rule position_bound [OF assms(1) pos [OF that]])
    show "(g, x) \<in> set (bs_consumed st)"
      if "position g cursors = Some q" "g \<in> set consumer_groups" "x \<in> set (bs_published st)" "row_key x \<le> q" for g q x
      by (rule position_consumed [OF assms(1) pos [OF that(1)] that(3,4,2)])
    show "(g, x) \<in> set (bs_consumed st)"
      if x: "x \<in> set (bs_published st)" and nx: "x \<notin> set rows" and g: "g \<in> set consumer_groups" for g x
    proof (cases "x \<in> set (bs_rows st)")
      case True
      then obtain q where "position g (bs_cursors st) = Some q" "row_key x < q"
        using bspec [OF below(3) [OF True nx] g] by blast
      then show ?thesis using position_consumed [OF assms(1) _ x _ g] by simp
    next
      case False
      then show ?thesis by (rule gone_consumed [OF assms(1) x _ g])
    qed
  qed
  then show ?thesis by (simp only: st'_def)
qed


lemma begin_ok: "bus_ok st \<Longrightarrow> bus_ok (st\<lparr>bs_open := bs_next_tx st # bs_open st, bs_next_tx := bs_next_tx st + 1\<rparr>)"
  by (auto simp: bus_ok_def less_Suc_eq)

lemma insert_ok:
  "bus_ok st \<Longrightarrow> tx \<in> set (bs_open st) \<Longrightarrow>
     bus_ok (st\<lparr>bs_pending := bs_pending st @
         [\<lparr>ob_tx = tx, ob_offset = bs_next_offset st, ob_created = now, ob_envelope = env\<rparr>],
       bs_next_offset := bs_next_offset st + 1\<rparr>)"
  by (auto simp: bus_ok_def less_Suc_eq)

lemma rollback_ok:
  "bus_ok st \<Longrightarrow> bus_ok (st\<lparr>bs_pending := filter (\<lambda>r. ob_tx r \<noteq> tx) (bs_pending st),
     bs_open := filter (\<lambda>t. t \<noteq> tx) (bs_open st)\<rparr>)"
  by (auto simp: bus_ok_def distinct_map_filter)

lemma attach_ok:
  "bus_ok st \<Longrightarrow> find_where (\<lambda>c. cu_group c = g) (bs_cursors st) = None \<Longrightarrow>
     bus_ok (st\<lparr>bs_cursors := bs_cursors st @ [\<lparr>cu_group = g, cu_tx = 0, cu_acked = None\<rparr>]\<rparr>)"
  by (auto simp: bus_ok_def position_attach find_where_None_iff)

lemma bus_step_ok: "bus_step pick st st' \<Longrightarrow> bus_ok st \<Longrightarrow> reads_in_order pick \<Longrightarrow> bus_ok st'"
  by (induction rule: bus_step.induct)
    (simp_all add: begin_ok [simplified] insert_ok [simplified] commit_ok rollback_ok attach_ok consume_ok prune_ok)

lemma empty_bus_ok: "bus_ok empty_bus"
  by (simp add: bus_ok_def empty_bus_def position_def find_where_def)

lemma reachable_bus_ok: "(bus_step pick)\<^sup>*\<^sup>* st st' \<Longrightarrow> bus_ok st \<Longrightarrow> reads_in_order pick \<Longrightarrow> bus_ok st'"
  by (induction rule: rtranclp_induct) (auto intro: bus_step_ok)



section \<open>Witnesses\<close>

definition pick_least :: reader where
  "pick_least pos m rows =
     (case sort_key row_key (filter (\<lambda>x. ob_tx x < m \<and> past pos x) rows) of [] \<Rightarrow> None | r # _ \<Rightarrow> Some r)"

lemma pick_least_reads: "reads_in_order pick_least"
proof -
  have "r \<in> set rows \<and> ob_tx r < m \<and> past pos r \<and>
      (\<forall>x \<in> set rows. ob_tx x < m \<longrightarrow> past pos x \<longrightarrow> row_key r \<le> row_key x)" if pick: "pick_least pos m rows = Some r" for pos m rows r
  proof -
    let ?xs = "filter (\<lambda>x. ob_tx x < m \<and> past pos x) rows"
    obtain rest where eq: "sort_key row_key ?xs = r # rest"
      using pick by (auto simp: pick_least_def split: list.splits)
    have s: "sorted (map row_key (r # rest))" unfolding eq [symmetric] by simp
    have m: "set (r # rest) = set ?xs" unfolding eq [symmetric] by simp
    have "row_key r \<le> row_key x" if "x \<in> set ?xs" for x using s that unfolding m [symmetric] by auto
    moreover have "r \<in> set ?xs" unfolding m [symmetric] by simp
    ultimately show ?thesis by auto
  qed
  then show ?thesis unfolding reads_in_order_def by blast
qed

definition demo_ob_row :: outbox_row where
  "demo_ob_row = \<lparr>ob_tx = 1, ob_offset = 1, ob_created = 5, ob_envelope = make_envelope 1 5 (ContactCreated 1 2 ''a@x'')\<rparr>"

definition demo_bus :: bus_state where
  "demo_bus = empty_bus\<lparr>bs_next_tx := 2, bs_next_offset := 2, bs_rows := [demo_ob_row], bs_published := [demo_ob_row]\<rparr>"

lemma demo_bus_reached: "(bus_step pick)\<^sup>*\<^sup>* empty_bus demo_bus"
proof -
  let ?b = "empty_bus\<lparr>bs_open := [1], bs_next_tx := 2\<rparr>"
  let ?w = "?b\<lparr>bs_pending := [demo_ob_row], bs_next_offset := 2\<rparr>"
  have "bus_step pick empty_bus ?b" using bus_step.begin_tx [of pick empty_bus]
    by (simp add: empty_bus_def numeral_2_eq_2)
  moreover have "bus_step pick ?b ?w"
    using bus_step.insert_row [of 1 ?b pick 5 "make_envelope 1 5 (ContactCreated 1 2 ''a@x'')"]
    by (simp add: empty_bus_def demo_ob_row_def numeral_2_eq_2)
  moreover have "bus_step pick ?w demo_bus"
    using bus_step.commit [of 1 ?w pick] by (simp add: empty_bus_def demo_ob_row_def demo_bus_def)
  ultimately show ?thesis by (metis (no_types) rtranclp.rtrancl_into_rtrancl rtranclp.rtrancl_refl)
qed


lemma retention_is_exact_witness:
  "prune_events 100 50 1 (empty_db\<lparr>events := [event_of 10 (make_envelope 1 5 (ContactCreated 1 2 ''a@x'')) 7]\<rparr>) =
     Some (1, empty_db\<lparr>events := []\<rparr>)"
  by (subst retention_is_exact)
    (simp_all add: event_of_def expirable_def Let_def name_contact_created_def)

end
