(* ===== verification/Reporting.thy ===== *)
theory Reporting
  imports Tracking Eligibility
begin

text \<open>
  What the dashboards report: the Overview of \<open>internal/analytics\<close> (contact counts, the send cohort with its
  Engagement rates, the daily series) and the Complaint and Bounce rates per Sending domain of
  \<open>internal/reputation\<close>. Rates are rationals where the code computes floats; the label
  \<open>YYYY-MM-DD\<close> of a UTC day is its day number. The time a Contact was created is a parameter: the model's rows do
  not keep it.
\<close>

section \<open>Reputation\<close>

record rate =
  rate_numerator :: int
  rate_denominator :: int
  rate_value :: "rat option"

definition new_rate :: "int \<Rightarrow> int \<Rightarrow> rate" where
  "new_rate numerator denominator =
     \<lparr>rate_numerator = numerator, rate_denominator = denominator,
      rate_value = (if 0 < denominator then Some (of_int numerator / of_int denominator) else None)\<rparr>"

record domain_rates =
  rates_domain :: sending_domain
  rates_complaint :: rate
  rates_bounce :: rate

definition event_in_window :: "time \<Rightarrow> event_row \<Rightarrow> bool" where
  "event_in_window since e \<longleftrightarrow> since \<le> (case ev_occurred_at e of Some t \<Rightarrow> t | None \<Rightarrow> ev_created_at e)"

definition event_on_domain :: "string \<Rightarrow> event_row \<Rightarrow> bool" where
  "event_on_domain dmn e \<longleftrightarrow> ev_properties e ''sendingDomain'' = Some (JStr dmn)"

definition hard_bounce :: "event_row \<Rightarrow> bool" where
  "hard_bounce e \<longleftrightarrow> ev_properties e ''bounceKind'' = Some (JStr bounce_kind_permanent)"

definition count_events :: "id \<Rightarrow> time \<Rightarrow> string \<Rightarrow> string \<Rightarrow> (event_row \<Rightarrow> bool) \<Rightarrow> db \<Rightarrow> int" where
  "count_events ws since dmn action extra d =
     int (count_where (in_ws ev_workspace ws
       (\<lambda>e. ev_action e = action \<and> event_in_window since e \<and> event_on_domain dmn e \<and> extra e)) (events d))"

definition reputation_rates :: "id \<Rightarrow> time \<Rightarrow> duration \<Rightarrow> db \<Rightarrow> domain_rates list" where
  "reputation_rates ws now window d =
     (let since = now - window in
      map (\<lambda>s. let sent = count_events ws since (sd_domain s) name_email_sent (\<lambda>_. True) d;
                   hard = count_events ws since (sd_domain s) name_email_bounced hard_bounce d;
                   complaints = count_events ws since (sd_domain s) name_email_complained (\<lambda>_. True) d
               in \<lparr>rates_domain = s, rates_complaint = new_rate complaints (sent - hard), rates_bounce = new_rate hard sent\<rparr>)
        (sort_key sd_id (filter (\<lambda>s. sd_workspace s = ws) (sending_domains d))))"

section \<open>The dashboard's Overview\<close>

datatype window = Window7Days | Window30Days | Window90Days

fun window_days :: "window \<Rightarrow> int" where
  "window_days Window7Days = 7"
| "window_days Window30Days = 30"
| "window_days Window90Days = 90"

record contact_counts =
  cc_total :: int
  cc_active :: int
  cc_unsubscribed :: int
  cc_new :: int

record email_counts =
  em_sent :: int
  em_opened :: int
  em_clicked :: int
  em_open_rate :: rat
  em_click_rate :: rat
  em_click_to_open_rate :: rat

record automation_counts =
  ac_total :: int
  ac_active :: int
  ac_runs_active :: int
  ac_runs_completed :: int

record point =
  pt_day :: int
  pt_sent :: int
  pt_opened :: int
  pt_clicked :: int

record overview =
  ov_contacts :: contact_counts
  ov_email :: email_counts
  ov_automations :: automation_counts
  ov_series :: "point list"

definition engagement_ratio :: "int \<Rightarrow> int \<Rightarrow> rat" where
  "engagement_ratio num denom = (if denom \<le> 0 then 0 else of_int num / of_int denom)"

definition count_contacts :: "(contact \<Rightarrow> time) \<Rightarrow> id \<Rightarrow> time \<Rightarrow> db \<Rightarrow> contact_counts" where
  "count_contacts created ws since d =
     (let everyone = int (count_where (in_ws con_workspace ws (\<lambda>_. True)) (contacts d));
          unsub = int (count_where (in_ws con_workspace ws (globally_opted_out d ChEmail)) (contacts d));
          fresh = int (count_where (in_ws con_workspace ws (\<lambda>c. since \<le> created c)) (contacts d))
      in \<lparr>cc_total = everyone, cc_active = everyone - unsub, cc_unsubscribed = unsub, cc_new = fresh\<rparr>)"

definition in_cohort :: "id \<Rightarrow> time \<Rightarrow> time \<Rightarrow> recipient \<Rightarrow> bool" where
  "in_cohort ws since until r \<longleftrightarrow>
     rec_workspace r = ws \<and> (case rec_sent_at r of None \<Rightarrow> False | Some t \<Rightarrow> since \<le> t \<and> t < until)"

definition was_opened :: "recipient \<Rightarrow> bool" where "was_opened r \<longleftrightarrow> rec_opened_at r \<noteq> None"
definition clicked :: "recipient \<Rightarrow> bool" where "clicked r \<longleftrightarrow> rec_clicked_at r \<noteq> None"

definition count_email :: "id \<Rightarrow> time \<Rightarrow> time \<Rightarrow> db \<Rightarrow> email_counts" where
  "count_email ws since until d =
     (let cohort = filter (in_cohort ws since until) (recipients d);
          s = int (length cohort); o' = int (count_where was_opened cohort); c = int (count_where clicked cohort)
      in \<lparr>em_sent = s, em_opened = o', em_clicked = c, em_open_rate = engagement_ratio o' s,
          em_click_rate = engagement_ratio c s, em_click_to_open_rate = engagement_ratio c o'\<rparr>)"

definition count_automations :: "id \<Rightarrow> db \<Rightarrow> automation_counts" where
  "count_automations ws d =
     \<lparr>ac_total = int (count_where (in_ws au_workspace ws (\<lambda>_. True)) (automations d)),
      ac_active = int (count_where (in_ws au_workspace ws (\<lambda>a. au_status a = AutoActive)) (automations d)),
      ac_runs_active = int (count_where (in_ws run_workspace ws (\<lambda>r. run_status r = RunActive)) (runs d)),
      ac_runs_completed = int (count_where (in_ws run_workspace ws (\<lambda>r. run_status r = RunCompleted)) (runs d))\<rparr>"

text \<open>The SQL groups the cohort by UTC day, the loop fills in the days without a send.\<close>

definition sent_day :: "recipient \<Rightarrow> int" where
  "sent_day r = (case rec_sent_at r of None \<Rightarrow> 0 | Some t \<Rightarrow> t div day)"

definition point_of :: "int \<Rightarrow> recipient list \<Rightarrow> point" where
  "point_of dy rows = \<lparr>pt_day = dy, pt_sent = int (length rows), pt_opened = int (count_where was_opened rows),
     pt_clicked = int (count_where clicked rows)\<rparr>"

definition group_by_day :: "recipient list \<Rightarrow> (int \<times> point) list" where
  "group_by_day rows =
     map (\<lambda>dy. (dy, point_of dy (filter (\<lambda>r. sent_day r = dy) rows))) (remdups (map sent_day rows))"

function days_between :: "time \<Rightarrow> time \<Rightarrow> int list" where
  "days_between d until = (if d < until then d div day # days_between (d + day) until else [])"
  by pat_completeness auto
termination by (relation "measure (\<lambda>(d, until). nat (until - d))") auto

declare days_between.simps [simp del]

definition time_series :: "id \<Rightarrow> time \<Rightarrow> time \<Rightarrow> db \<Rightarrow> point list" where
  "time_series ws since until d =
     (let by_day = map_of (group_by_day (filter (in_cohort ws since until) (recipients d))) in
      map (\<lambda>dy. case by_day dy of
          Some p \<Rightarrow> p\<lparr>pt_day := dy\<rparr>
        | None \<Rightarrow> \<lparr>pt_day = dy, pt_sent = 0, pt_opened = 0, pt_clicked = 0\<rparr>) (days_between since until))"

definition overview_of :: "(contact \<Rightarrow> time) \<Rightarrow> time \<Rightarrow> id \<Rightarrow> window \<Rightarrow> db \<Rightarrow> overview" where
  "overview_of created now ws w d =
     (let today = now - now mod day; since = today - (window_days w - 1) * day; until = today + day
      in \<lparr>ov_contacts = count_contacts created ws since d, ov_email = count_email ws since until d,
          ov_automations = count_automations ws d, ov_series = time_series ws since until d\<rparr>)"

section \<open>The series adds up to the cohort\<close>

lemma days_between_upto: "days_between (a * day) (b * day) = [a..b - 1]"
proof (induction "nat (b - a)" arbitrary: a)
  case 0
  then show ?case by (subst days_between.simps) simp
next
  case (Suc n)
  have "n = nat (b - (a + 1))" and "a < b" using Suc.hyps(2) by linarith+
  then have "days_between (a * day + day) (b * day) = [a + 1..b - 1]" "a < b"
    using Suc.hyps(1) [of "a + 1"] by (simp_all add: distrib_right)
  then show ?case by (subst days_between.simps) (simp add: distrib_right upto_rec1)
qed

lemma time_series_points:
  "time_series ws since until d =
     map (\<lambda>dy. point_of dy (filter (\<lambda>r. sent_day r = dy) (filter (in_cohort ws since until) (recipients d))))
       (days_between since until)"
proof -
  let ?rows = "filter (in_cohort ws since until) (recipients d)"
  have "(case map_of (group_by_day ?rows) dy of Some p \<Rightarrow> p\<lparr>pt_day := dy\<rparr>
      | None \<Rightarrow> \<lparr>pt_day = dy, pt_sent = 0, pt_opened = 0, pt_clicked = 0\<rparr>) =
      point_of dy (filter (\<lambda>r. sent_day r = dy) ?rows)" for dy
  proof (cases "dy \<in> sent_day ` set ?rows")
    case True
    then have "map_of (group_by_day ?rows) dy = Some (point_of dy (filter (\<lambda>r. sent_day r = dy) ?rows))"
      by (simp add: group_by_day_def map_of_map_restrict)
    then show ?thesis by (simp add: point_of_def)
  next
    case False
    then have "map_of (group_by_day ?rows) dy = None" "filter (\<lambda>r. sent_day r = dy) ?rows = []"
      by (auto simp: group_by_day_def map_of_map_restrict filter_empty_conv)
    then show ?thesis by (simp add: point_of_def count_where_def)
  qed
  then show ?thesis by (simp add: time_series_def Let_def)
qed

lemma sum_over_days:
  assumes "distinct ds" and "\<And>r. r \<in> set rows \<Longrightarrow> f r \<in> set ds"
  shows "(\<Sum>x\<leftarrow>ds. int (count_where q (filter (\<lambda>r. f r = x) rows))) = int (count_where q rows)"
  using assms(2)
proof (induction rows)
  case (Cons r rows)
  have "(\<Sum>x\<leftarrow>ds. if f r = x then v else 0) = v" for v :: int
    using assms(1) Cons.prems [of r] by (simp add: sum_list_distinct_conv_sum_set sum.delta)
  moreover have "int (count_where q (filter (\<lambda>r. f r = x) (r # rows))) =
      (if f r = x then (if q r then 1 else 0) else 0) + int (count_where q (filter (\<lambda>r. f r = x) rows))" for x
    by (simp add: count_where_def)
  ultimately show ?case using Cons by (simp add: sum_list_addf count_where_def)
qed (simp add: count_where_def)

lemma cohort_day:
  assumes "r \<in> set (filter (in_cohort ws (a * day) (b * day)) rows)"
  shows "sent_day r \<in> set [a..b - 1]"
proof -
  obtain t where t: "rec_sent_at r = Some t" "a * day \<le> t" "t < b * day"
    using assms by (auto simp: in_cohort_def split: option.splits)
  have "a \<le> t div day" using zdiv_mono1 [OF t(2), of day] by simp
  moreover have "t div day < b" using t(3) by linarith
  ultimately show ?thesis by (simp add: sent_day_def t(1))
qed

lemma series_sums:
  "(\<Sum>p\<leftarrow>time_series ws (a * day) (b * day) d. pt_sent p) = em_sent (count_email ws (a * day) (b * day) d)"
  "(\<Sum>p\<leftarrow>time_series ws (a * day) (b * day) d. pt_opened p) = em_opened (count_email ws (a * day) (b * day) d)"
  "(\<Sum>p\<leftarrow>time_series ws (a * day) (b * day) d. pt_clicked p) = em_clicked (count_email ws (a * day) (b * day) d)"
proof -
  let ?rows = "filter (in_cohort ws (a * day) (b * day)) (recipients d)"
  note day = cohort_day [of _ ws a b "recipients d"]
  note sums = sum_over_days [of "[a..b - 1]" ?rows sent_day, OF distinct_upto day]
  note points = time_series_points days_between_upto list.map_comp comp_def point_of_def point.simps
  show "(\<Sum>p\<leftarrow>time_series ws (a * day) (b * day) d. pt_sent p) = em_sent (count_email ws (a * day) (b * day) d)"
    using sums [of "\<lambda>_. True"] by (simp only: points) (simp add: count_email_def Let_def count_where_def)
  show "(\<Sum>p\<leftarrow>time_series ws (a * day) (b * day) d. pt_opened p) = em_opened (count_email ws (a * day) (b * day) d)"
    using sums [of was_opened] by (simp only: points) (simp add: count_email_def Let_def)
  show "(\<Sum>p\<leftarrow>time_series ws (a * day) (b * day) d. pt_clicked p) = em_clicked (count_email ws (a * day) (b * day) d)"
    using sums [of clicked] by (simp only: points) (simp add: count_email_def Let_def)
qed

lemma ratio_bounds: "0 \<le> x \<Longrightarrow> x \<le> y \<Longrightarrow> 0 \<le> engagement_ratio x y \<and> engagement_ratio x y \<le> 1"
  by (simp add: engagement_ratio_def divide_le_eq)

lemma count_le: "count_where q rows \<le> length rows"
  by (simp add: count_where_def)

lemma window_start:
  "\<exists>a b. now - now mod day - (window_days w - 1) * day = a * day \<and> now - now mod day + day = b * day \<and>
     b - a = window_days w \<and> b - 1 = now div day"
proof (intro exI conjI)
  have today: "now - now mod day = now div day * day" by (simp add: minus_mod_eq_div_mult)
  show "now - now mod day - (window_days w - 1) * day = (now div day - (window_days w - 1)) * day"
    unfolding today by (simp only: left_diff_distrib)
  show "now - now mod day + day = (now div day + 1) * day" unfolding today by (simp only: distrib_right mult_1)
qed simp_all

text \<open>The dashboard's numbers agree with one another: the series has one point per day of the window, ending
  today, and its days add up to the totals of the cohort; opened and clicked never exceed sent and their rates
  over sent are between 0 and 1; active and unsubscribed Contacts are the Contacts.\<close>

theorem overview_adds_up:
  "let ov = overview_of created now ws w d in
    map pt_day (ov_series ov) = [now div day - window_days w + 1..now div day] \<and>
    (\<Sum>p\<leftarrow>ov_series ov. pt_sent p) = em_sent (ov_email ov) \<and>
    (\<Sum>p\<leftarrow>ov_series ov. pt_opened p) = em_opened (ov_email ov) \<and>
    (\<Sum>p\<leftarrow>ov_series ov. pt_clicked p) = em_clicked (ov_email ov) \<and>
    em_opened (ov_email ov) \<le> em_sent (ov_email ov) \<and> em_clicked (ov_email ov) \<le> em_sent (ov_email ov) \<and>
    em_open_rate (ov_email ov) \<in> {0..1} \<and> em_click_rate (ov_email ov) \<in> {0..1} \<and>
    cc_active (ov_contacts ov) + cc_unsubscribed (ov_contacts ov) = cc_total (ov_contacts ov)"
proof -
  let ?ov = "overview_of created now ws w d"
  obtain a b where w: "now - now mod day - (window_days w - 1) * day = a * day" "now - now mod day + day = b * day"
    "b - a = window_days w" "b - 1 = now div day" using window_start by metis
  have series: "ov_series ?ov = time_series ws (a * day) (b * day) d" "ov_email ?ov = count_email ws (a * day) (b * day) d"
    by (simp_all only: overview_of_def Let_def overview.simps w(1,2))
  have a: "a = now div day - window_days w + 1" and b: "b - 1 = now div day" using w(3,4) by linarith+
  have "map pt_day (ov_series ?ov) = [a..b - 1]"
    by (simp add: series time_series_points days_between_upto comp_def point_of_def)
  then have days: "map pt_day (ov_series ?ov) = [now div day - window_days w + 1..now div day]" by (simp only: a b)
  have "em_opened (ov_email ?ov) \<le> em_sent (ov_email ?ov)" "em_clicked (ov_email ?ov) \<le> em_sent (ov_email ?ov)"
    by (simp_all add: series count_email_def Let_def count_le)
  moreover have "em_open_rate (ov_email ?ov) \<in> {0..1}" "em_click_rate (ov_email ?ov) \<in> {0..1}"
    by (simp_all add: series count_email_def Let_def ratio_bounds count_le)
  moreover have "cc_active (ov_contacts ?ov) + cc_unsubscribed (ov_contacts ?ov) = cc_total (ov_contacts ?ov)"
    by (simp add: overview_of_def Let_def count_contacts_def)
  ultimately show ?thesis using days series_sums [of ws a b d] by (simp only: Let_def series)
qed

section \<open>A click without an open\<close>

text \<open>The click-to-open rate is not bounded by 1: a click leaves \<open>opened_at\<close> alone, so when as many recipients
  clicked as opened, one more who clicks with images off lifts the rate above 1.\<close>

theorem click_to_open_exceeds_one:
  assumes "distinct (map rec_id (recipients d))" and "r \<in> set (recipients d)" and "in_cohort ws since until r"
    and "rec_clicked_at r = None" and "tracked_recipient (rec_id r) d = Some (r, c)"
    and "exists_where (\<lambda>b. bc_id b = rec_broadcast r) (broadcasts d)"
    and "em_clicked (count_email ws since until d) = em_opened (count_email ws since until d)"
    and "0 < em_opened (count_email ws since until d)"
  shows "1 < em_click_to_open_rate (count_email ws since until (record_click now (rec_id r) url d))"
proof -
  let ?f = "\<lambda>x. x\<lparr>rec_clicked_at := Some now\<rparr>"
  obtain xs ys where d: "recipients d = xs @ r # ys" using assms(2) by (auto simp: in_set_conv_decomp)
  have others: "\<not> not_clicked (rec_id r) x" if "x \<in> set xs \<or> x \<in> set ys" for x
    using assms(1) that by (auto simp: d not_clicked_def image_iff)
  have r: "not_clicked (rec_id r) r" using assms(4) by (simp add: not_clicked_def)
  then have "count_where (not_clicked (rec_id r)) (recipients d) \<noteq> 0" using assms(2) by (auto simp: table_simps)
  then have "recipients (record_click now (rec_id r) url d) = update_where (not_clicked (rec_id r)) ?f (recipients d)"
    using assms(5,6) by (simp add: record_click_def)
  also have "\<dots> = xs @ ?f r # ys"
    using r others by (simp add: d update_where_def map_idI)
  finally have after: "recipients (record_click now (rec_id r) url d) = xs @ ?f r # ys" .
  have r': "in_cohort ws since until (?f r)" "clicked (?f r)" "\<not> clicked r" "was_opened (?f r) = was_opened r"
    using assms(3,4) by (simp_all add: in_cohort_def clicked_def was_opened_def)
  have "em_opened (count_email ws since until (record_click now (rec_id r) url d)) = em_opened (count_email ws since until d)"
    "em_clicked (count_email ws since until (record_click now (rec_id r) url d)) = em_clicked (count_email ws since until d) + 1"
    using r' assms(3) by (simp_all add: count_email_def Let_def after d count_where_def)
  moreover have "em_click_to_open_rate (count_email ws since until d') =
      engagement_ratio (em_clicked (count_email ws since until d')) (em_opened (count_email ws since until d'))" for d'
    by (simp add: count_email_def Let_def)
  ultimately show ?thesis using assms(7,8) by (simp add: engagement_ratio_def less_divide_eq)
qed

section \<open>Witnesses\<close>

definition demo_recipient :: "id \<Rightarrow> time option \<Rightarrow> recipient" where
  "demo_recipient i at' = \<lparr>rec_id = i, rec_workspace = 1, rec_broadcast = 5, rec_contact = Some 3, rec_status = RecSent,
     rec_message = None, rec_error = None, rec_deferred_until = None, rec_sent_at = Some 10, rec_opened_at = at',
     rec_clicked_at = at'\<rparr>"

definition demo_sent :: db where
  "demo_sent = empty_db
     \<lparr>contacts := [\<lparr>con_id = 3, con_workspace = 1, con_subject = None, con_email = Some ''a@x.io'', con_phone = None,
        con_first_name = None, con_last_name = None, con_time_zone = None, con_fields = Map.empty\<rparr>],
      broadcasts := [\<lparr>bc_id = 5, bc_workspace = 1, bc_name = ''b'', bc_subject = ''s'', bc_from_name = None,
        bc_from_email = None, bc_body = '''', bc_segment = None, bc_integration = None, bc_status = BcSent,
        bc_scheduled_at = None, bc_sent_at = None, bc_recipients_total = 2, bc_sent_count = 2, bc_opened_count = 1,
        bc_clicked_count = 1, bc_unsubscribed_count = 0, bc_failed_count = 0, bc_skipped_count = 0,
        bc_hold_reason = None, bc_last_scheduled_at = None\<rparr>],
      recipients := [demo_recipient 1 (Some 11), demo_recipient 2 None]\<rparr>"

lemma click_to_open_exceeds_one_witness:
  "1 < em_click_to_open_rate (count_email 1 0 20 (record_click 12 2 ''https://x.io'' demo_sent))"
proof -
  have "tracked_recipient 2 demo_sent = Some (demo_recipient 2 None, hd (contacts demo_sent))"
    by (simp add: tracked_recipient_def row_by_id_def find_where_def demo_sent_def demo_recipient_def)
  then show ?thesis
    using click_to_open_exceeds_one [of demo_sent "demo_recipient 2 None" 1 0 20 _ 12 "''https://x.io''"]
    by (simp add: demo_sent_def demo_recipient_def in_cohort_def exists_where_def count_email_def Let_def count_where_def
        was_opened_def clicked_def)
qed

end
