(* ===== verification/Paging.thy ===== *)
theory Paging
  imports Prelude "HOL-Library.Multiset"
begin

text \<open>
  Pages of a list: the offset pages of every module List (\<open>internal/pagination\<close>) and reading a table in keyset
  pages, each one starting after the last key of the one before (the pages of the Data export in
  \<open>internal/contactexport\<close> and of the Audit log in \<open>ee/audit\<close>). Both are shown to visit every row once, in order.
\<close>

section \<open>Offset pages\<close>

definition default_page :: int where "default_page = 1"
definition default_page_size :: int where "default_page_size = 25"
definition max_page_size :: int where "max_page_size = 100"

definition normalize_page :: "int option \<Rightarrow> int option \<Rightarrow> int \<times> int" where
  "normalize_page page sz =
     ((case page of Some p \<Rightarrow> if 0 < p then p else default_page | None \<Rightarrow> default_page),
      (case sz of Some s \<Rightarrow> if 0 < s then min s max_page_size else default_page_size | None \<Rightarrow> default_page_size))"

definition page_offset :: "int \<Rightarrow> int \<Rightarrow> int" where
  "page_offset page sz = (page - 1) * sz"

definition total_pages :: "int \<Rightarrow> int \<Rightarrow> int" where
  "total_pages items sz =
     (if sz = 0 then 0 else if 0 < items mod sz then items div sz + 1 else items div sz)"

record 'r page =
  pg_items :: "'r list"
  pg_page :: int
  pg_size :: int
  pg_total :: int
  pg_pages :: int

definition paginate :: "'r list \<Rightarrow> int option \<Rightarrow> int option \<Rightarrow> 'r page" where
  "paginate items page sz =
     (let (p, ps) = normalize_page page sz;
          start = min (page_offset p ps) (int (length items));
          stop = min (start + ps) (int (length items))
      in \<lparr>pg_items = take (nat (stop - start)) (drop (nat start) items), pg_page = p, pg_size = ps,
          pg_total = int (length items), pg_pages = total_pages (int (length items)) ps\<rparr>)"

text \<open>\<open>List\<close> over a count and a fetch (limit, offset); either may fail.\<close>

definition list_page :: "int \<times> int \<Rightarrow> 'e + int \<Rightarrow> (int \<Rightarrow> int \<Rightarrow> 'e + 'r list) \<Rightarrow> 'e + 'r page" where
  "list_page params cnt fetch =
     (case cnt of
        Inl e \<Rightarrow> Inl e
      | Inr n \<Rightarrow>
         (case fetch (snd params) (page_offset (fst params) (snd params)) of
            Inl e \<Rightarrow> Inl e
          | Inr items \<Rightarrow>
             Inr \<lparr>pg_items = items, pg_page = fst params, pg_size = snd params, pg_total = n,
                  pg_pages = total_pages n (snd params)\<rparr>))"

lemma normalize_size: "0 < snd (normalize_page page sz) \<and> snd (normalize_page page sz) \<le> 100"
  by (auto simp: normalize_page_def default_page_size_def max_page_size_def split: option.splits)

lemma normalize_size_page: "snd (normalize_page page sz) = snd (normalize_page page' sz)"
  by (simp add: normalize_page_def)

lemma paginate_items:
  assumes "1 \<le> p"
  shows "pg_items (paginate items (Some p) sz) =
    take (nat (snd (normalize_page None sz))) (drop (nat (p - 1) * nat (snd (normalize_page None sz))) items)"
proof -
  let ?s = "snd (normalize_page None sz)"
  have s: "0 < ?s" using normalize_size by blast
  have norm: "normalize_page (Some p) sz = (p, ?s)" using assms by (simp add: normalize_page_def)
  have off: "nat (page_offset p ?s) = nat (p - 1) * nat ?s" "0 \<le> page_offset p ?s"
    using assms s by (simp_all add: page_offset_def nat_mult_distrib)
  show ?thesis
  proof (cases "page_offset p ?s \<le> int (length items)")
    case True
    then have "min (page_offset p ?s) (int (length items)) = page_offset p ?s" by simp
    then show ?thesis using off s True
      by (auto simp: paginate_def norm Let_def min_def nat_add_distrib)
  next
    case False
    then have "length items \<le> nat (p - 1) * nat ?s" using off by linarith
    then show ?thesis using False by (simp add: paginate_def norm Let_def)
  qed
qed

lemma concat_chunks:
  assumes "length xs \<le> n * s"
  shows "concat (map (\<lambda>i. take s (drop (i * s) xs)) [0..<n]) = xs"
  using assms
proof (induction n arbitrary: xs)
  case (Suc n)
  have "map (\<lambda>i. take s (drop (i * s) xs)) [0..<Suc n] =
      take s xs # map (\<lambda>i. take s (drop (i * s) (drop s xs))) [0..<n]"
  proof -
    have "[0..<Suc n] = 0 # map Suc [0..<n]" by (simp add: upt_conv_Cons map_Suc_upt)
    then show ?thesis by (simp only: list.map map_map) (simp add: comp_def add.commute)
  qed
  moreover have "length (drop s xs) \<le> n * s" using Suc.prems by simp
  ultimately show ?case using Suc.IH [of "drop s xs"] by simp
qed simp

text \<open>The pages of a list, read in turn up to the reported number of pages, are the list: no item is missing
  and none comes twice, whatever page size was asked for, and the size is between 1 and 100.\<close>

theorem pages_are_the_list:
  "concat (map (\<lambda>p. pg_items (paginate items (Some p) sz)) [1..pg_pages (paginate items None sz)]) = items \<and>
   0 < pg_size (paginate items page sz) \<and> pg_size (paginate items page sz) \<le> 100"
proof -
  let ?s = "snd (normalize_page None sz)"
  let ?n = "pg_pages (paginate items None sz)"
  have s: "0 < ?s" using normalize_size by blast
  have n: "?n = total_pages (int (length items)) ?s"
    by (simp add: paginate_def Let_def case_prod_beta)
  have pos: "0 \<le> ?n" using s by (simp add: n total_pages_def pos_imp_zdiv_nonneg_iff)
  have "int (length items) \<le> ?n * ?s"
  proof -
    have "int (length items) = int (length items) div ?s * ?s + int (length items) mod ?s" by simp
    moreover have "0 \<le> int (length items) mod ?s" "int (length items) mod ?s < ?s" using s by simp_all
    ultimately have "int (length items) \<le> (if 0 < int (length items) mod ?s then int (length items) div ?s + 1
        else int (length items) div ?s) * ?s" by (simp only: distrib_right split: if_splits) linarith
    then show ?thesis using s by (simp add: n total_pages_def)
  qed
  then have len: "length items \<le> nat ?n * nat ?s" using pos s by (simp add: nat_mult_distrib [symmetric])
  have "map (\<lambda>p. pg_items (paginate items (Some p) sz)) [1..?n] =
      map (\<lambda>i. take (nat ?s) (drop (i * nat ?s) items)) [0..<nat ?n]"
  proof (rule nth_equalityI)
    show "length (map (\<lambda>p. pg_items (paginate items (Some p) sz)) [1..?n]) =
        length (map (\<lambda>i. take (nat ?s) (drop (i * nat ?s) items)) [0..<nat ?n])" by simp
    fix i assume "i < length (map (\<lambda>p. pg_items (paginate items (Some p) sz)) [1..?n])"
    then show "map (\<lambda>p. pg_items (paginate items (Some p) sz)) [1..?n] ! i =
        map (\<lambda>i. take (nat ?s) (drop (i * nat ?s) items)) [0..<nat ?n] ! i"
      by (simp add: nth_upto paginate_items)
  qed
  then have "concat (map (\<lambda>p. pg_items (paginate items (Some p) sz)) [1..?n]) = items"
    using concat_chunks [OF len] by simp
  moreover have "pg_size (paginate items page sz) = ?s"
    by (simp add: paginate_def Let_def case_prod_beta normalize_size_page)
  ultimately show ?thesis using normalize_size [of None sz] by simp
qed

section \<open>Keyset pages\<close>

definition beyond :: "'k option \<Rightarrow> ('r \<Rightarrow> 'k::linorder) \<Rightarrow> 'r \<Rightarrow> bool" where
  "beyond pos key r \<longleftrightarrow> (case pos of None \<Rightarrow> True | Some k \<Rightarrow> k < key r)"

definition keyset_page :: "('r \<Rightarrow> 'k::linorder) \<Rightarrow> ('r \<Rightarrow> bool) \<Rightarrow> nat \<Rightarrow> 'r list \<Rightarrow> 'k option \<Rightarrow> 'r list" where
  "keyset_page key p n rows pos = take n (sort_key key (filter (\<lambda>r. p r \<and> beyond pos key r) rows))"

lemma filter_split_at:
  assumes "\<And>x. x \<in> set xs \<Longrightarrow> \<not> q x" and "\<And>x. x \<in> set ys \<Longrightarrow> q x"
  shows "filter q (xs @ ys) = ys"
proof -
  have "filter q xs = []" "filter q ys = ys" using assms by (simp_all add: filter_empty_conv)
  then show ?thesis by simp
qed

lemma keyset_next:
  assumes "distinct (map key rows)" and "length (keyset_page key p n rows pos) = n" and "0 < n"
  shows "sort_key key (filter (\<lambda>r. p r \<and> beyond (Some (key (last (keyset_page key p n rows pos)))) key r) rows) =
    drop n (sort_key key (filter (\<lambda>r. p r \<and> beyond pos key r) rows))"
proof -
  let ?L = "sort_key key (filter (\<lambda>r. p r \<and> beyond pos key r) rows)"
  let ?l = "last (keyset_page key p n rows pos)"
  have len: "n \<le> length ?L" using assms(2) by (simp add: keyset_page_def)
  have l: "?l = ?L ! (n - 1)"
  proof -
    have "take n ?L \<noteq> []" using len assms(3) by (metis length_greater_0_conv length_take min.absorb2)
    from last_conv_nth [OF this] show ?thesis using len assms(3) by (simp add: keyset_page_def min_absorb2)
  qed
  have key_distinct: "distinct (map key ?L)"
  proof -
    have "mset (map key ?L) = mset (map key (filter (\<lambda>r. p r \<and> beyond pos key r) rows))" by simp
    then show ?thesis using assms(1) by (metis distinct_map_filter mset_eq_imp_distinct_iff)
  qed
  have srt: "sorted (map key ?L)" by simp
  have strict: "key (?L ! i) < key (?L ! j)" if "i < j" "j < length ?L" for i j
    using srt key_distinct that
    by (smt (verit) distinct_conv_nth le_neq_trans length_map less_imp_le less_trans nat_neq_iff nth_map sorted_nth_mono)
  have mem: "?l \<in> set ?L" using len assms(3) by (simp add: l del: set_sort)
  then have lb: "beyond pos key ?l" by simp
  have "filter (\<lambda>r. key ?l < key r) ?L = drop n ?L"
  proof -
    have "filter (\<lambda>r. key ?l < key r) (take n ?L @ drop n ?L) = drop n ?L"
    proof -
      have "\<not> key ?l < key r" if r: "r \<in> set (take n ?L)" for r
      proof -
        obtain i where "i < n" "r = ?L ! i" using r len by (auto simp: in_set_conv_nth)
        then show ?thesis using strict [of i "n - 1"] len assms(3) l by (cases "i = n - 1") force+
      qed
      moreover have "key ?l < key r" if r: "r \<in> set (drop n ?L)" for r
      proof -
        obtain i where "i < length ?L - n" "r = ?L ! (n + i)" using r by (auto simp: in_set_conv_nth)
        then show ?thesis using strict [of "n - 1" "n + i"] assms(3) l by simp
      qed
      ultimately show ?thesis by (rule filter_split_at)
    qed
    then show ?thesis by (simp only: append_take_drop_id)
  qed
  moreover have "filter (\<lambda>r. key ?l < key r) ?L =
      sort_key key (filter (\<lambda>r. key ?l < key r) (filter (\<lambda>r. p r \<and> beyond pos key r) rows))"
    by (simp add: filter_sort)
  moreover have "filter (\<lambda>r. key ?l < key r) (filter (\<lambda>r. p r \<and> beyond pos key r) rows) =
      filter (\<lambda>r. p r \<and> beyond (Some (key ?l)) key r) rows"
    unfolding filter_filter using lb by (intro filter_cong) (auto simp: beyond_def split: option.splits)
  ultimately show ?thesis by simp
qed

text \<open>Reading on while pages come back full.\<close>

partial_function (option) read_pages :: "('k option \<Rightarrow> 'r list) \<Rightarrow> ('r \<Rightarrow> 'k) \<Rightarrow> nat \<Rightarrow> 'k option \<Rightarrow> 'r list option" where
  "read_pages fetch key n pos =
     (let rows = fetch pos in
      if length rows < n then Some rows
      else Option.bind (read_pages fetch key n (Some (key (last rows)))) (\<lambda>rest. Some (rows @ rest)))"

lemma read_pages_all:
  assumes "distinct (map key rows)" and "0 < n"
  shows "read_pages (keyset_page key p n rows) key n pos =
    Some (sort_key key (filter (\<lambda>r. p r \<and> beyond pos key r) rows))"
proof (induction "length (sort_key key (filter (\<lambda>r. p r \<and> beyond pos key r) rows))" arbitrary: pos rule: less_induct)
  case less
  let ?L = "\<lambda>pos. sort_key key (filter (\<lambda>r. p r \<and> beyond pos key r) rows)"
  let ?page = "keyset_page key p n rows pos"
  show ?case
  proof (cases "length ?page < n")
    case True
    then have "?page = ?L pos" by (simp add: keyset_page_def)
    then show ?thesis using True by (subst read_pages.simps) (simp add: Let_def)
  next
    case False
    then have full: "length ?page = n" by (simp add: keyset_page_def)
    note step = keyset_next [OF assms(1) full assms(2)]
    have "length (?L (Some (key (last ?page)))) < length (?L pos)"
      unfolding step using full assms(2) by (simp add: keyset_page_def)
    from less.hyps [OF this] show ?thesis
      using False step by (subst read_pages.simps) (simp add: Let_def keyset_page_def [of key p n rows pos])
  qed
qed

end
