(* ===== verification/DataExport.thy ===== *)
theory DataExport
  imports Paging Schema
begin

text \<open>
  The Data export of one Contact (\<open>internal/contactexport\<close>): finding the Contact, and the streamed document with its
  nine members, the large ones read in keyset pages. The surface's Mapper is a parameter (a row may fail to encode), and
  so is the writer the document goes to: \<open>io out p\<close> is the error of writing piece \<open>p\<close> after \<open>out\<close>, if
  any. A piece is a literal of the document or one encoded value.
\<close>

section \<open>Finding the Contact\<close>

datatype export_error = ExportNotFound | ExportIdentifier | ExportInvalidId

definition export_find :: "id \<Rightarrow> string option \<Rightarrow> string option \<Rightarrow> db \<Rightarrow> export_error + contact" where
  "export_find ws i em d =
     (if (i = None) = (em = None) then Inl ExportIdentifier
      else case i of
        Some s \<Rightarrow>
          (case parse_int64 s of
             None \<Rightarrow> Inl ExportInvalidId
           | Some n \<Rightarrow>
              (case get_contact ws n d of None \<Rightarrow> Inl ExportNotFound | Some c \<Rightarrow> Inr c))
      | None \<Rightarrow>
          (case find_where (in_ws con_workspace ws (\<lambda>c. con_email c = Some (to_lower (trim_space (the em))))) (contacts d) of
             None \<Rightarrow> Inl ExportNotFound
           | Some c \<Rightarrow> Inr c))"

definition export_filename :: "contact \<Rightarrow> string" where
  "export_filename c = ''contact-'' @ show_int (con_id c) @ ''-export.json''"

section \<open>The stream writer\<close>

datatype 'x piece = Raw string | Val 'x

record ('x, 'e) stream_writer =
  sw_out :: "'x piece list"
  sw_err :: "'e option"

type_synonym ('x, 'e) io = "'x piece list \<Rightarrow> 'x piece \<Rightarrow> 'e option"

definition sw_put :: "('x, 'e) io \<Rightarrow> 'x piece \<Rightarrow> ('x, 'e) stream_writer \<Rightarrow> ('x, 'e) stream_writer" where
  "sw_put io p sw =
     (if sw_err sw \<noteq> None then sw
      else case io (sw_out sw) p of
             None \<Rightarrow> sw\<lparr>sw_out := sw_out sw @ [p]\<rparr>
           | Some e \<Rightarrow> sw\<lparr>sw_err := Some e\<rparr>)"

definition sw_raw :: "('x, 'e) io \<Rightarrow> string \<Rightarrow> ('x, 'e) stream_writer \<Rightarrow> ('x, 'e) stream_writer" where
  "sw_raw io text sw = sw_put io (Raw text) sw"

definition sw_value :: "('x, 'e) io \<Rightarrow> 'e + 'x \<Rightarrow> ('x, 'e) stream_writer \<Rightarrow> ('x, 'e) stream_writer" where
  "sw_value io v sw =
     (if sw_err sw \<noteq> None then sw
      else case v of Inl e \<Rightarrow> sw\<lparr>sw_err := Some e\<rparr> | Inr x \<Rightarrow> sw_put io (Val x) sw)"

fun write_items :: "('x, 'e) io \<Rightarrow> ('r \<Rightarrow> 'e + 'x) \<Rightarrow> bool \<Rightarrow> 'r list \<Rightarrow> ('x, 'e) stream_writer \<Rightarrow> ('x, 'e) stream_writer" where
  "write_items io enc first [] sw = sw"
| "write_items io enc first (r # rows) sw =
     write_items io enc False rows (sw_value io (enc r) (if first then sw else sw_raw io '','' sw))"

definition write_list :: "('x, 'e) io \<Rightarrow> ('r \<Rightarrow> 'e + 'x) \<Rightarrow> 'r list \<Rightarrow> ('x, 'e) stream_writer \<Rightarrow> ('x, 'e) stream_writer" where
  "write_list io enc rows sw = sw_raw io '']'' (write_items io enc True rows (sw_raw io ''['' sw))"

text \<open>The loop of \<open>streamPages\<close>: it ends on a short page or once the writer has failed.\<close>

partial_function (option) stream_loop ::
  "('x, 'e) io \<Rightarrow> (id \<Rightarrow> 'r list) \<Rightarrow> ('r \<Rightarrow> id) \<Rightarrow> ('r \<Rightarrow> 'e + 'x) \<Rightarrow> nat \<Rightarrow> id \<Rightarrow> bool \<Rightarrow> ('x, 'e) stream_writer
     \<Rightarrow> ('x, 'e) stream_writer option" where
  "stream_loop io fetch row_id enc n after first sw =
     (if sw_err sw \<noteq> None then Some sw
      else let rows = fetch after; sw' = write_items io enc first rows sw in
        if length rows < n then Some sw'
        else stream_loop io fetch row_id enc n (row_id (last rows)) False sw')"

definition export_page_size :: nat where "export_page_size = 500"

definition stream_pages ::
  "('x, 'e) io \<Rightarrow> (id \<Rightarrow> 'r list) \<Rightarrow> ('r \<Rightarrow> id) \<Rightarrow> ('r \<Rightarrow> 'e + 'x) \<Rightarrow> ('x, 'e) stream_writer
     \<Rightarrow> ('x, 'e) stream_writer option" where
  "stream_pages io fetch row_id enc sw =
     map_option (sw_raw io '']'') (stream_loop io fetch row_id enc export_page_size 0 True (sw_raw io ''['' sw))"

section \<open>The document\<close>

record ('x, 'e) mapper =
  m_contact :: "contact \<Rightarrow> 'e + 'x"
  m_tag :: "tag \<Rightarrow> 'e + 'x"
  m_visitor :: "visitor \<Rightarrow> 'e + 'x"
  m_event :: "event_row \<Rightarrow> 'e + 'x"
  m_unsubscribe :: "unsubscribe \<Rightarrow> 'e + 'x"
  m_suppression :: "suppression \<Rightarrow> 'e + 'x"
  m_confirmation :: "confirmation \<Rightarrow> 'e + 'x"
  m_message :: "outbound_message \<Rightarrow> 'e + 'x"
  m_recipient :: "recipient \<Rightarrow> 'e + 'x"

text \<open>The rows of a table that a query of the scope selects, ascending by id; \<open>id_page\<close> is the page of them after
  an id.\<close>

definition by_id :: "('r \<Rightarrow> id) \<Rightarrow> ('r \<Rightarrow> bool) \<Rightarrow> 'r list \<Rightarrow> 'r list" where
  "by_id row_id p rows = sort_key row_id (filter p rows)"

definition id_page :: "('r \<Rightarrow> id) \<Rightarrow> ('r \<Rightarrow> bool) \<Rightarrow> 'r list \<Rightarrow> id \<Rightarrow> 'r list" where
  "id_page row_id p rows after = keyset_page row_id p export_page_size rows (Some after)"

definition destinations_of :: "contact \<Rightarrow> string list" where
  "destinations_of c = (case con_email c of None \<Rightarrow> [] | Some e \<Rightarrow> [to_lower e])"

definition exported_visitors :: "id \<Rightarrow> contact \<Rightarrow> db \<Rightarrow> visitor list" where
  "exported_visitors ws c d = by_id vis_id (in_ws vis_workspace ws (\<lambda>v. vis_contact v = Some (con_id c))) (visitors d)"

definition exports_tag :: "id \<Rightarrow> contact \<Rightarrow> db \<Rightarrow> tag \<Rightarrow> bool" where
  "exports_tag ws c d = in_ws tag_workspace ws (\<lambda>t. (con_id c, tag_id t) \<in> set (contact_tags d))"

definition exports_unsubscribe :: "id \<Rightarrow> contact \<Rightarrow> unsubscribe \<Rightarrow> bool" where
  "exports_unsubscribe ws c =
     in_ws uns_workspace ws (\<lambda>u. uns_contact u = Some (con_id c) \<or> uns_destination u \<in> set (destinations_of c))"

definition exports_suppression :: "id \<Rightarrow> contact \<Rightarrow> suppression \<Rightarrow> bool" where
  "exports_suppression ws c =
     in_ws sup_workspace ws (\<lambda>s. sup_contact s = Some (con_id c) \<or> sup_destination s \<in> set (destinations_of c))"

definition exports_confirmation :: "id \<Rightarrow> contact \<Rightarrow> confirmation \<Rightarrow> bool" where
  "exports_confirmation ws c =
     in_ws cnf_workspace ws (\<lambda>x. cnf_contact x = Some (con_id c) \<or> cnf_destination x \<in> set (destinations_of c))"

definition exports_event :: "id \<Rightarrow> contact \<Rightarrow> db \<Rightarrow> event_row \<Rightarrow> bool" where
  "exports_event ws c d =
     in_ws ev_workspace ws (\<lambda>e. ev_contact e = Some (con_id c) \<or>
       (\<exists>v \<in> set (exported_visitors ws c d). ev_visitor e = Some (vis_visitor v)))"

definition exports_message :: "id \<Rightarrow> contact \<Rightarrow> outbound_message \<Rightarrow> bool" where
  "exports_message ws c =
     in_ws msg_workspace ws (\<lambda>m. msg_contact m = Some (con_id c) \<or> msg_destination m \<in> set (destinations_of c))"

definition exports_recipient :: "id \<Rightarrow> contact \<Rightarrow> recipient \<Rightarrow> bool" where
  "exports_recipient ws c = in_ws rec_workspace ws (\<lambda>r. rec_contact r = Some (con_id c))"

definition stream_head ::
  "('x, 'e) io \<Rightarrow> ('x, 'e) mapper \<Rightarrow> id \<Rightarrow> contact \<Rightarrow> db \<Rightarrow> ('x, 'e) stream_writer \<Rightarrow> ('x, 'e) stream_writer" where
  "stream_head io m ws c d sw =
     (let sw = sw_value io (m_contact m c) (sw_raw io ''{\"contact\":'' sw);
          sw = write_list io (m_tag m) (by_id tag_id (exports_tag ws c d) (tags d)) (sw_raw io '',\"tags\":'' sw);
          sw = write_list io (m_visitor m) (exported_visitors ws c d) (sw_raw io '',\"visitors\":'' sw);
          sw = write_list io (m_unsubscribe m) (by_id uns_id (exports_unsubscribe ws c) (unsubscribes d))
                 (sw_raw io '',\"unsubscribes\":'' sw);
          sw = write_list io (m_suppression m) (by_id sup_id (exports_suppression ws c) (suppressions d))
                 (sw_raw io '',\"suppressions\":'' sw)
      in write_list io (m_confirmation m) (by_id cnf_id (exports_confirmation ws c) (confirmations d))
           (sw_raw io '',\"confirmations\":'' sw))"

definition export_stream ::
  "('x, 'e) io \<Rightarrow> ('x, 'e) mapper \<Rightarrow> id \<Rightarrow> contact \<Rightarrow> db \<Rightarrow> ('x, 'e) stream_writer option" where
  "export_stream io m ws c d =
     Option.bind (stream_pages io (id_page ev_id (exports_event ws c d) (events d)) ev_id (m_event m)
       (sw_raw io '',\"events\":'' (stream_head io m ws c d \<lparr>sw_out = [], sw_err = None\<rparr>))) (\<lambda>sw.
     Option.bind (stream_pages io (id_page msg_id (exports_message ws c) (messages d)) msg_id (m_message m)
       (sw_raw io '',\"outboundMessages\":'' sw)) (\<lambda>sw.
     Option.bind (stream_pages io (id_page rec_id (exports_recipient ws c) (recipients d)) rec_id (m_recipient m)
       (sw_raw io '',\"broadcastRecipients\":'' sw)) (\<lambda>sw.
     Some (sw_raw io ''}'' sw))))"

section \<open>What a stream that ends without an error has written\<close>

definition emits :: "(('x, 'e) stream_writer \<Rightarrow> ('x, 'e) stream_writer) \<Rightarrow> 'x piece list \<Rightarrow> bool" where
  "emits f ps \<longleftrightarrow> (\<forall>sw. sw_err (f sw) = None \<longrightarrow> sw_err sw = None \<and> sw_out (f sw) = sw_out sw @ ps)"

fun item_pieces :: "('r \<Rightarrow> 'e + 'x) \<Rightarrow> bool \<Rightarrow> 'r list \<Rightarrow> 'x piece list" where
  "item_pieces enc first [] = []"
| "item_pieces enc first (r # rows) =
     (if first then [] else [Raw '','']) @ Val (projr (enc r)) # item_pieces enc False rows"

definition list_pieces :: "('r \<Rightarrow> 'e + 'x) \<Rightarrow> 'r list \<Rightarrow> 'x piece list" where
  "list_pieces enc rows = Raw ''['' # item_pieces enc True rows @ [Raw '']'']"

lemma emitsD: "emits f ps \<Longrightarrow> sw_err (f sw) = None \<Longrightarrow> sw_err sw = None \<and> sw_out (f sw) = sw_out sw @ ps"
  unfolding emits_def by blast

lemma sw_put_ok:
  "sw_err (sw_put io p sw) = None \<Longrightarrow> sw_err sw = None \<and> sw_out (sw_put io p sw) = sw_out sw @ [p]"
  by (cases "sw_err sw"; cases "io (sw_out sw) p") (simp_all add: sw_put_def)

lemma emits_raw: "emits (sw_raw io t) [Raw t]"
  by (simp add: emits_def sw_raw_def sw_put_ok)

lemma emits_value: "emits (sw_value io v) [Val (projr v)]"
proof -
  have "sw_err (sw_value io v sw) = None \<Longrightarrow> sw_err sw = None \<and> sw_out (sw_value io v sw) = sw_out sw @ [Val (projr v)]"
    for sw by (cases "sw_err sw"; cases v) (simp_all add: sw_value_def sw_put_ok)
  then show ?thesis unfolding emits_def by blast
qed

lemma emits_comp: "emits f ps \<Longrightarrow> emits g qs \<Longrightarrow> emits (\<lambda>sw. g (f sw)) (ps @ qs)"
  unfolding emits_def by (metis append_assoc)

lemma emits_items: "emits (write_items io enc first rows) (item_pieces enc first rows)"
proof (induction rows arbitrary: first)
  case Nil
  then show ?case by (simp add: emits_def)
next
  case (Cons r rows)
  have "emits (\<lambda>sw. if first then sw else sw_raw io '','' sw) (if first then [] else [Raw '',''])"
    using emits_raw [of io "'',''"] by (cases first) (simp_all add: emits_def)
  from emits_comp [OF emits_comp [OF this emits_value] Cons.IH] show ?case by simp
qed

lemma emits_list: "emits (write_list io enc rows) (list_pieces enc rows)"
proof -
  have "emits (\<lambda>sw. sw_raw io '']'' (write_items io enc True rows (sw_raw io ''['' sw)))
      (([Raw ''[''] @ item_pieces enc True rows) @ [Raw '']''])"
    by (rule emits_comp [OF emits_comp [OF emits_raw emits_items] emits_raw])
  then show ?thesis by (simp add: write_list_def [abs_def] list_pieces_def)
qed

lemma item_pieces_append:
  "item_pieces enc first (xs @ ys) = item_pieces enc first xs @ item_pieces enc (first \<and> xs = []) ys"
  by (induction xs arbitrary: first) simp_all

lemma stream_loop_all:
  assumes "distinct (map row_id rows)" and "0 < n"
  shows "\<exists>sw'. stream_loop io (\<lambda>after. keyset_page row_id p n rows (Some after)) row_id enc n after first sw = Some sw' \<and>
    (sw_err sw' = None \<longrightarrow> sw_err sw = None \<and>
       sw_out sw' = sw_out sw @ item_pieces enc first (sort_key row_id (filter (\<lambda>r. p r \<and> after < row_id r) rows)))"
proof (induction "length (sort_key row_id (filter (\<lambda>r. p r \<and> after < row_id r) rows))" arbitrary: after first sw
    rule: less_induct)
  case less
  let ?L = "\<lambda>after. sort_key row_id (filter (\<lambda>r. p r \<and> after < row_id r) rows)"
  let ?page = "keyset_page row_id p n rows (Some after)"
  let ?sw = "write_items io enc first ?page sw"
  have page: "?page = take n (?L after)" by (simp add: keyset_page_def beyond_def)
  note loop = stream_loop.simps [of io _ row_id enc n after first sw]
  show ?case
  proof (cases "sw_err sw")
    case (Some e)
    then have "stream_loop io (\<lambda>after. keyset_page row_id p n rows (Some after)) row_id enc n after first sw = Some sw"
      by (subst loop) simp
    then show ?thesis using Some by simp
  next
    case ok: None
    note items = emitsD [OF emits_items [of io enc first ?page], of sw]
    show ?thesis
    proof (cases "length ?page < n")
      case True
      then have "?page = ?L after" by (simp add: page)
      with items ok True show ?thesis by (subst loop) (simp add: Let_def)
    next
      case False
      then have full: "length ?page = n" by (simp add: page)
      let ?after = "row_id (last ?page)"
      have rest: "?L ?after = drop n (?L after)"
        using keyset_next [OF assms(1) full assms(2)] by (simp add: beyond_def)
      have "length (?L ?after) < length (?L after)"
        unfolding rest using full assms(2) by (simp add: page)
      from less.hyps [OF this, of False ?sw] obtain sw' where sw':
        "stream_loop io (\<lambda>after. keyset_page row_id p n rows (Some after)) row_id enc n ?after False ?sw = Some sw'"
        "sw_err sw' = None \<longrightarrow> sw_err ?sw = None \<and> sw_out sw' = sw_out ?sw @ item_pieces enc False (?L ?after)"
        by (elim exE conjE) (rule that)
      have "?page \<noteq> []"
      proof
        assume "?page = []"
        then have "length ?page = 0" by (simp only: list.size(3))
        then show False using full assms(2) by linarith
      qed
      moreover have "?page @ ?L ?after = ?L after" by (subst rest) (simp only: page append_take_drop_id)
      ultimately have "item_pieces enc first (?L after) = item_pieces enc first ?page @ item_pieces enc False (?L ?after)"
        using item_pieces_append [of enc first ?page "?L ?after"] by simp
      moreover have "stream_loop io (\<lambda>after. keyset_page row_id p n rows (Some after)) row_id enc n after first sw = Some sw'"
        using sw'(1) ok False by (subst loop) (simp add: Let_def)
      moreover have "sw_out sw' = sw_out sw @ item_pieces enc first (?L after)" if "sw_err sw' = None"
      proof -
        note tail = sw'(2) [rule_format, OF that]
        note front = items [OF conjunct1 [OF tail]]
        show ?thesis
          unfolding conjunct2 [OF tail] conjunct2 [OF front] \<open>item_pieces enc first (?L after) = _\<close> append_assoc ..
      qed
      ultimately show ?thesis using ok by (intro exI [of _ sw'] conjI impI)
    qed
  qed
qed

lemma stream_pages_all:
  assumes "distinct (map row_id rows)" and "\<forall>r \<in> set rows. 0 < row_id r"
  shows "\<exists>sw'. stream_pages io (id_page row_id p rows) row_id enc sw = Some sw' \<and>
    (sw_err sw' = None \<longrightarrow> sw_err sw = None \<and> sw_out sw' = sw_out sw @ list_pieces enc (by_id row_id p rows))"
proof -
  have "0 < export_page_size" by (simp add: export_page_size_def)
  from stream_loop_all [OF assms(1) this, of io p enc 0 True "sw_raw io ''['' sw"] obtain sw' where sw':
    "stream_loop io (\<lambda>after. keyset_page row_id p export_page_size rows (Some after)) row_id enc export_page_size 0 True
       (sw_raw io ''['' sw) = Some sw'"
    "sw_err sw' = None \<longrightarrow> sw_err (sw_raw io ''['' sw) = None \<and>
       sw_out sw' = sw_out (sw_raw io ''['' sw) @ item_pieces enc True (sort_key row_id (filter (\<lambda>r. p r \<and> 0 < row_id r) rows))"
    by (elim exE conjE) (rule that)
  have "filter (\<lambda>r. p r \<and> 0 < row_id r) rows = filter p rows" using assms(2) by (auto intro: filter_cong)
  then have body_of: "sw_err sw' = None \<Longrightarrow> sw_err (sw_raw io ''['' sw) = None \<and>
       sw_out sw' = sw_out (sw_raw io ''['' sw) @ item_pieces enc True (by_id row_id p rows)"
    using sw'(2) unfolding by_id_def by metis
  show ?thesis
  proof (intro exI conjI impI)
    show "stream_pages io (id_page row_id p rows) row_id enc sw = Some (sw_raw io '']'' sw')"
      by (simp add: stream_pages_def id_page_def [abs_def] sw'(1))
    assume "sw_err (sw_raw io '']'' sw') = None"
    note close = emitsD [OF emits_raw this]
    note body = body_of [OF conjunct1 [OF close]]
    note opened = emitsD [OF emits_raw conjunct1 [OF body]]
    show "sw_err sw = None" by (rule conjunct1 [OF opened])
    show "sw_out (sw_raw io '']'' sw') = sw_out sw @ list_pieces enc (by_id row_id p rows)"
      using close body opened by (simp add: list_pieces_def)
  qed
qed

text \<open>The document: the nine members in order, each with exactly the Contact's rows of the Workspace.\<close>

definition export_document :: "('x, 'e) mapper \<Rightarrow> id \<Rightarrow> contact \<Rightarrow> db \<Rightarrow> 'x piece list" where
  "export_document m ws c d =
     Raw ''{\"contact\":'' # Val (projr (m_contact m c)) #
     Raw '',\"tags\":'' # list_pieces (m_tag m) (by_id tag_id (exports_tag ws c d) (tags d)) @
     Raw '',\"visitors\":'' # list_pieces (m_visitor m) (exported_visitors ws c d) @
     Raw '',\"unsubscribes\":'' # list_pieces (m_unsubscribe m) (by_id uns_id (exports_unsubscribe ws c) (unsubscribes d)) @
     Raw '',\"suppressions\":'' # list_pieces (m_suppression m) (by_id sup_id (exports_suppression ws c) (suppressions d)) @
     Raw '',\"confirmations\":'' # list_pieces (m_confirmation m) (by_id cnf_id (exports_confirmation ws c) (confirmations d)) @
     Raw '',\"events\":'' # list_pieces (m_event m) (by_id ev_id (exports_event ws c d) (events d)) @
     Raw '',\"outboundMessages\":'' # list_pieces (m_message m) (by_id msg_id (exports_message ws c) (messages d)) @
     Raw '',\"broadcastRecipients\":'' # list_pieces (m_recipient m) (by_id rec_id (exports_recipient ws c) (recipients d)) @
     [Raw ''}'']"


lemma stream_pages_obtain:
  assumes "distinct (map row_id rows)" and "\<forall>r \<in> set rows. 0 < row_id r"
  obtains sw' where "stream_pages io (id_page row_id p rows) row_id enc sw = Some sw'"
    and "sw_err sw' = None \<longrightarrow> sw_err sw = None \<and> sw_out sw' = sw_out sw @ list_pieces enc (by_id row_id p rows)"
  using stream_pages_all [OF assms, of io p enc sw] by (elim exE conjE) (rule that)

lemma emits_head: "emits (stream_head io m ws c d)
    ([Raw ''{\"contact\":'', Val (projr (m_contact m c))] @
     [Raw '',\"tags\":''] @ list_pieces (m_tag m) (by_id tag_id (exports_tag ws c d) (tags d)) @
     [Raw '',\"visitors\":''] @ list_pieces (m_visitor m) (exported_visitors ws c d) @
     [Raw '',\"unsubscribes\":''] @ list_pieces (m_unsubscribe m) (by_id uns_id (exports_unsubscribe ws c) (unsubscribes d)) @
     [Raw '',\"suppressions\":''] @ list_pieces (m_suppression m) (by_id sup_id (exports_suppression ws c) (suppressions d)) @
     [Raw '',\"confirmations\":''] @ list_pieces (m_confirmation m) (by_id cnf_id (exports_confirmation ws c) (confirmations d)))"
proof -
  note start = emits_comp [OF emits_raw emits_value]
  note member = emits_comp [OF emits_comp [OF _ emits_raw] emits_list]
  show ?thesis
    using member [OF member [OF member [OF member [OF member [OF start]]]]]
    by (simp add: stream_head_def [abs_def] Let_def)
qed

definition export_rows_ok :: "db \<Rightarrow> bool" where
  "export_rows_ok d \<longleftrightarrow> distinct (map ev_id (events d)) \<and> distinct (map msg_id (messages d)) \<and>
     distinct (map rec_id (recipients d)) \<and> (\<forall>e \<in> set (events d). 0 < ev_id e) \<and>
     (\<forall>m \<in> set (messages d). 0 < msg_id m) \<and> (\<forall>r \<in> set (recipients d). 0 < rec_id r)"

text \<open>A writer that takes everything and a Mapper that encodes everything leave no error.\<close>

definition encodes :: "('r \<Rightarrow> 'e + 'x) \<Rightarrow> bool" where
  "encodes enc \<longleftrightarrow> (\<forall>r. \<exists>x. enc r = Inr x)"

definition quiet :: "('x, 'e) io \<Rightarrow> bool" where
  "quiet io \<longleftrightarrow> (\<forall>out p. io out p = None)"

definition serves :: "('x, 'e) io \<Rightarrow> ('x, 'e) mapper \<Rightarrow> bool" where
  "serves io m \<longleftrightarrow> quiet io \<and> encodes (m_contact m) \<and> encodes (m_tag m) \<and> encodes (m_visitor m) \<and>
     encodes (m_event m) \<and> encodes (m_unsubscribe m) \<and> encodes (m_suppression m) \<and> encodes (m_confirmation m) \<and>
     encodes (m_message m) \<and> encodes (m_recipient m)"

lemma raw_serves: "quiet io \<Longrightarrow> sw_err (sw_raw io t sw) = sw_err sw"
  by (simp add: sw_raw_def sw_put_def quiet_def)

lemma value_serves: "quiet io \<Longrightarrow> encodes enc \<Longrightarrow> sw_err (sw_value io (enc r) sw) = sw_err sw"
proof -
  assume "quiet io" "encodes enc"
  then obtain x where "enc r = Inr x" by (auto simp: encodes_def)
  with \<open>quiet io\<close> show ?thesis by (simp add: sw_value_def sw_put_def quiet_def)
qed

lemma items_serve: "quiet io \<Longrightarrow> encodes enc \<Longrightarrow> sw_err (write_items io enc first rows sw) = sw_err sw"
  by (induction rows arbitrary: first sw) (simp_all add: value_serves raw_serves)

lemma list_serves: "quiet io \<Longrightarrow> encodes enc \<Longrightarrow> sw_err (write_list io enc rows sw) = sw_err sw"
  by (simp add: write_list_def items_serve raw_serves)

lemma loop_serves:
  assumes "quiet io" and "encodes enc" and ret: "stream_loop io fetch row_id enc n after first sw = Some sw'"
  shows "sw_err sw' = sw_err sw"
proof -
  have "quiet io \<longrightarrow> encodes enc \<longrightarrow> sw_err sw' = sw_err sw"
  proof (rule stream_loop.raw_induct
      [where P = "\<lambda>io _ _ enc _ _ _ sw sw'. quiet io \<longrightarrow> encodes enc \<longrightarrow> sw_err sw' = sw_err sw", OF _ ret])
    fix f and io :: "('x, 'e) io" and fetch and row_id :: "'r \<Rightarrow> id" and enc and n :: nat and after first
      and sw sw' :: "('x, 'e) stream_writer"
    assume IH: "\<And>io fetch row_id enc n after first sw sw'. f io fetch row_id enc n after first sw = Some sw' \<Longrightarrow>
        quiet io \<longrightarrow> encodes enc \<longrightarrow> sw_err sw' = sw_err sw"
      and eq: "(if sw_err sw \<noteq> None then Some sw
        else let rows = fetch after; sw' = write_items io enc first rows sw in
          if length rows < n then Some sw'
          else f io fetch row_id enc n (row_id (last rows)) False sw') = Some sw'"
    show "quiet io \<longrightarrow> encodes enc \<longrightarrow> sw_err sw' = sw_err sw"
      using eq IH [of io fetch row_id enc n "row_id (last (fetch after))" False "write_items io enc first (fetch after) sw" sw']
      by (auto simp: Let_def items_serve split: if_splits)
  qed
  then show ?thesis using assms(1,2) by blast
qed

lemma pages_serve:
  assumes "quiet io" and "encodes enc" and "stream_pages io fetch row_id enc sw = Some sw'"
  shows "sw_err sw' = sw_err sw"
proof -
  obtain z where z: "stream_loop io fetch row_id enc export_page_size 0 True (sw_raw io ''['' sw) = Some z"
    "sw' = sw_raw io '']'' z" using assms(3) by (auto simp: stream_pages_def)
  show ?thesis using loop_serves [OF assms(1,2) z(1)] by (simp add: z(2) raw_serves assms(1))
qed

lemma stream_serves:
  assumes "serves io m" and "export_stream io m ws c d = Some sw"
  shows "sw_err sw = None"
proof -
  have "sw_err (stream_head io m ws c d \<lparr>sw_out = [], sw_err = None\<rparr>) = None"
    using assms(1) by (simp add: stream_head_def Let_def serves_def value_serves raw_serves list_serves)
  with assms show ?thesis
    by (auto simp: export_stream_def serves_def raw_serves bind_eq_Some_conv dest!: pages_serve [rotated 2])
qed

text \<open>C40: An export ends, and if it reports no error it has written the whole document: every member, with each
  of the Contact's rows once, ascending by id, however many pages they fill. It reports none when the writer takes
  every piece and the Mapper encodes every row.\<close>

theorem export_is_complete:
  assumes "export_rows_ok d"
  shows "\<exists>sw. export_stream io m ws c d = Some sw \<and> (sw_err sw = None \<longrightarrow> sw_out sw = export_document m ws c d) \<and>
    (serves io m \<longrightarrow> sw_err sw = None)"
proof -
  let ?start = "\<lparr>sw_out = [], sw_err = None\<rparr>"
  let ?head = "stream_head io m ws c d ?start"
  have ids: "distinct (map ev_id (events d))" "distinct (map msg_id (messages d))" "distinct (map rec_id (recipients d))"
    "\<forall>e \<in> set (events d). 0 < ev_id e" "\<forall>x \<in> set (messages d). 0 < msg_id x"
    "\<forall>r \<in> set (recipients d). 0 < rec_id r" using assms by (simp_all add: export_rows_ok_def)
  obtain s1 where s1: "stream_pages io (id_page ev_id (exports_event ws c d) (events d)) ev_id (m_event m)
       (sw_raw io '',\"events\":'' ?head) = Some s1"
    "sw_err s1 = None \<longrightarrow> sw_err (sw_raw io '',\"events\":'' ?head) = None \<and> sw_out s1 = sw_out (sw_raw io '',\"events\":'' ?head) @
       list_pieces (m_event m) (by_id ev_id (exports_event ws c d) (events d))"
    by (rule stream_pages_obtain [OF ids(1,4)])
  obtain s2 where s2: "stream_pages io (id_page msg_id (exports_message ws c) (messages d)) msg_id (m_message m)
       (sw_raw io '',\"outboundMessages\":'' s1) = Some s2"
    "sw_err s2 = None \<longrightarrow> sw_err (sw_raw io '',\"outboundMessages\":'' s1) = None \<and>
       sw_out s2 = sw_out (sw_raw io '',\"outboundMessages\":'' s1) @
       list_pieces (m_message m) (by_id msg_id (exports_message ws c) (messages d))"
    by (rule stream_pages_obtain [OF ids(2,5)])
  obtain s3 where s3: "stream_pages io (id_page rec_id (exports_recipient ws c) (recipients d)) rec_id (m_recipient m)
       (sw_raw io '',\"broadcastRecipients\":'' s2) = Some s3"
    "sw_err s3 = None \<longrightarrow> sw_err (sw_raw io '',\"broadcastRecipients\":'' s2) = None \<and>
       sw_out s3 = sw_out (sw_raw io '',\"broadcastRecipients\":'' s2) @
       list_pieces (m_recipient m) (by_id rec_id (exports_recipient ws c) (recipients d))"
    by (rule stream_pages_obtain [OF ids(3,6)])
  have stream: "export_stream io m ws c d = Some (sw_raw io ''}'' s3)" by (simp add: export_stream_def s1(1) s2(1) s3(1))
  show ?thesis
  proof (intro exI conjI impI)
    show "export_stream io m ws c d = Some (sw_raw io ''}'' s3)" by (rule stream)
    show "sw_err (sw_raw io ''}'' s3) = None" if "serves io m" by (rule stream_serves [OF that stream])
    assume "sw_err (sw_raw io ''}'' s3) = None"
    note e = emitsD [OF emits_raw this]
    note e3 = s3(2) [rule_format, OF conjunct1 [OF e]]
    note r3 = emitsD [OF emits_raw conjunct1 [OF e3]]
    note e2 = s2(2) [rule_format, OF conjunct1 [OF r3]]
    note r2 = emitsD [OF emits_raw conjunct1 [OF e2]]
    note e1 = s1(2) [rule_format, OF conjunct1 [OF r2]]
    note r1 = emitsD [OF emits_raw conjunct1 [OF e1]]
    note head = emitsD [OF emits_head conjunct1 [OF r1]]
    show "sw_out (sw_raw io ''}'' s3) = export_document m ws c d"
      unfolding conjunct2 [OF e] conjunct2 [OF e3] conjunct2 [OF r3] conjunct2 [OF e2] conjunct2 [OF r2]
        conjunct2 [OF e1] conjunct2 [OF r1] conjunct2 [OF head] export_document_def by simp
  qed
qed

section \<open>Witness\<close>

definition demo_mapper :: "(string, unit) mapper" where
  "demo_mapper = \<lparr>m_contact = \<lambda>c. Inr (show_int (con_id c)), m_tag = \<lambda>t. Inr (tag_name t), m_visitor = \<lambda>v. Inr (vis_visitor v),
     m_event = \<lambda>e. Inr (ev_action e), m_unsubscribe = \<lambda>u. Inr (uns_source u), m_suppression = \<lambda>s. Inr (sup_destination s),
     m_confirmation = \<lambda>x. Inr (cnf_destination x), m_message = \<lambda>x. Inr (msg_key x), m_recipient = \<lambda>r. Inr (show_int (rec_id r))\<rparr>"

definition demo_export_db :: db where
  "demo_export_db = empty_db
     \<lparr>contacts := [\<lparr>con_id = 3, con_workspace = 1, con_subject = None, con_email = Some ''a@x.io'', con_phone = None,
        con_first_name = None, con_last_name = None, con_time_zone = None, con_fields = Map.empty\<rparr>],
      unsubscribes := [\<lparr>uns_id = 7, uns_workspace = 1, uns_channel = ChEmail, uns_destination = ''a@x.io'',
        uns_source = ''everything'', uns_contact = None\<rparr>],
      events := [\<lparr>ev_id = 9, ev_workspace = 1, ev_source = SrcUlid 1, ev_contact = Some 3, ev_visitor = None,
        ev_subject = ''a@x.io'', ev_email = None, ev_phone = None, ev_action = ''order'', ev_properties = Map.empty,
        ev_occurred_at = None, ev_created_at = 5\<rparr>]\<rparr>"

lemma export_is_complete_witness:
  "\<exists>sw. export_stream (\<lambda>_ _. None) demo_mapper 1 (hd (contacts demo_export_db)) demo_export_db = Some sw \<and>
     Val ''order'' \<in> set (sw_out sw) \<and> Val ''everything'' \<in> set (sw_out sw)"
proof -
  have ok: "export_rows_ok demo_export_db" by (simp add: export_rows_ok_def demo_export_db_def)
  have serves: "serves (\<lambda>_ _. None) demo_mapper"
    by (simp add: serves_def quiet_def encodes_def demo_mapper_def)
  from export_is_complete [OF ok, of "\<lambda>_ _. None" demo_mapper 1 "hd (contacts demo_export_db)"] obtain sw where sw:
    "export_stream (\<lambda>_ _. None) demo_mapper 1 (hd (contacts demo_export_db)) demo_export_db = Some sw"
    "sw_err sw = None \<longrightarrow> sw_out sw = export_document demo_mapper 1 (hd (contacts demo_export_db)) demo_export_db"
    "serves (\<lambda>_ _. None) demo_mapper \<longrightarrow> sw_err sw = None"
    by (elim exE conjE) (rule that)
  have "sw_out sw = export_document demo_mapper 1 (hd (contacts demo_export_db)) demo_export_db"
    using sw(2,3) serves by (simp only: simp_thms)
  moreover note sw(1)
  moreover have "Val ''order'' \<in> set (export_document demo_mapper 1 (hd (contacts demo_export_db)) demo_export_db)"
    "Val ''everything'' \<in> set (export_document demo_mapper 1 (hd (contacts demo_export_db)) demo_export_db)"
    by (simp_all add: export_document_def demo_export_db_def demo_mapper_def by_id_def exports_event_def
        exports_unsubscribe_def exported_visitors_def in_ws_def list_pieces_def destinations_of_def to_lower_def
        lower_char_def)
  ultimately show ?thesis by simp
qed

end
