(* ===== verification/License.thy ===== *)
theory License
  imports Prelude
begin

text \<open>
  The Enterprise license gate (\<open>ee/licensekey\<close>): base64url without padding as \<open>encoding/base64\<close> reads and writes
  it, parsing a key and issuing one. Ed25519 and the JSON codec of the payload are parameters; what the code relies on
  is that a signature made with the private key verifies under the public one and that a payload written is read back.
\<close>

section \<open>Raw base64url\<close>

definition b64_alphabet :: string where
  "b64_alphabet = ''ABCDEFGHIJKLMNOPQRSTUVWXYZabcdefghijklmnopqrstuvwxyz0123456789-_''"

definition b64_char :: "nat \<Rightarrow> char" where
  "b64_char n = b64_alphabet ! n"

definition b64_val :: "char \<Rightarrow> nat option" where
  "b64_val c =
     (let n = of_char c :: nat in
      if 65 \<le> n \<and> n \<le> 90 then Some (n - 65)
      else if 97 \<le> n \<and> n \<le> 122 then Some (n - 71)
      else if 48 \<le> n \<and> n \<le> 57 then Some (n + 4)
      else if n = 45 then Some 62 else if n = 95 then Some 63 else None)"

fun b64_values :: "nat list \<Rightarrow> nat list" where
  "b64_values [] = []"
| "b64_values [a] = [a div 4, a mod 4 * 16]"
| "b64_values [a, b] = [a div 4, a mod 4 * 16 + b div 16, b mod 16 * 4]"
| "b64_values (a # b # c # bs) =
     a div 4 # (a mod 4 * 16 + b div 16) # (b mod 16 * 4 + c div 64) # c mod 64 # b64_values bs"

definition b64_encode :: "string \<Rightarrow> string" where
  "b64_encode s = map b64_char (b64_values (map of_char s))"

text \<open>Line breaks are skipped; a single left-over character is an error and the unused low bits of the last one are
  not looked at.\<close>

fun b64_bytes :: "nat list \<Rightarrow> nat list option" where
  "b64_bytes [] = Some []"
| "b64_bytes [v] = None"
| "b64_bytes [v, w] = Some [v * 4 + w div 16]"
| "b64_bytes [v, w, x] = Some [v * 4 + w div 16, w mod 16 * 16 + x div 4]"
| "b64_bytes (v # w # x # y # vs) =
     map_option (\<lambda>bs. (v * 4 + w div 16) # (w mod 16 * 16 + x div 4) # (x mod 4 * 64 + y) # bs) (b64_bytes vs)"

fun b64_vals :: "string \<Rightarrow> nat list option" where
  "b64_vals [] = Some []"
| "b64_vals (c # cs) =
     (if c = CHR 0x0A \<or> c = CHR 0x0D then b64_vals cs
      else case b64_val c of None \<Rightarrow> None | Some v \<Rightarrow> map_option (\<lambda>vs. v # vs) (b64_vals cs))"

definition b64_decode :: "string \<Rightarrow> string option" where
  "b64_decode s = (case b64_vals s of None \<Rightarrow> None | Some vs \<Rightarrow> map_option (map char_of) (b64_bytes vs))"

lemma b64_alphabet_values: "map b64_val b64_alphabet = map Some [0..<64]"
  by (simp add: b64_alphabet_def b64_val_def upt_rec)

lemma b64_alphabet_plain: "CHR 0x0A \<notin> set b64_alphabet \<and> CHR 0x0D \<notin> set b64_alphabet \<and> CHR ''.'' \<notin> set b64_alphabet"
  by (simp add: b64_alphabet_def)

lemma b64_char_val:
  assumes "n < 64"
  shows "b64_val (b64_char n) = Some n \<and> b64_char n \<noteq> CHR 0x0A \<and> b64_char n \<noteq> CHR 0x0D \<and> b64_char n \<noteq> CHR ''.''"
proof -
  have len: "length b64_alphabet = 64" by (simp add: b64_alphabet_def)
  have "map b64_val b64_alphabet ! n = map Some [0..<64] ! n" by (simp only: b64_alphabet_values)
  then have "b64_val (b64_char n) = Some n" using assms by (simp add: len b64_char_def)
  moreover have "b64_char n \<in> set b64_alphabet" using assms by (simp add: len b64_char_def)
  ultimately show ?thesis using b64_alphabet_plain by metis
qed

lemma b64_values_small: "\<forall>b \<in> set bs. b < 256 \<Longrightarrow> \<forall>v \<in> set (b64_values bs). v < 64"
proof (induction bs rule: b64_values.induct)
  case (4 a b c bs)
  then have "a div 4 < 64" "a mod 4 * 16 + b div 16 < 64" "b mod 16 * 4 + c div 64 < 64" "c mod 64 < 64"
    by (auto intro!: less_mult_imp_div_less)
  with 4 show ?case by simp
qed (auto intro!: less_mult_imp_div_less)

lemma b64_vals_chars: "\<forall>v \<in> set vs. v < 64 \<Longrightarrow> b64_vals (map b64_char vs) = Some vs"
  by (induction vs) (simp_all add: b64_char_val)

lemma b64_bytes_values: "\<forall>b \<in> set bs. b < 256 \<Longrightarrow> b64_bytes (b64_values bs) = Some bs"
proof (induction bs rule: b64_values.induct)
  case (3 a b)
  then have "(a mod 4 * 16 + b div 16) div 16 = a mod 4" "(a mod 4 * 16 + b div 16) mod 16 = b div 16"
    by (simp_all add: less_mult_imp_div_less)
  then show ?case by simp
next
  case (4 a b c bs)
  then have "(a mod 4 * 16 + b div 16) div 16 = a mod 4" "(a mod 4 * 16 + b div 16) mod 16 = b div 16"
    "(b mod 16 * 4 + c div 64) div 4 = b mod 16" "(b mod 16 * 4 + c div 64) mod 4 = c div 64"
    by (simp_all add: less_mult_imp_div_less)
  with 4 show ?case by simp
qed simp_all

lemma of_char_small: "(of_char c :: nat) < 256"
  by (cases c) simp

lemma b64_decode_encode: "b64_decode (b64_encode s) = Some s"
proof -
  have small: "\<forall>b \<in> set (map of_char s :: nat list). b < 256" by (auto simp: of_char_small)
  show ?thesis
    by (simp add: b64_decode_def b64_encode_def b64_vals_chars [OF b64_values_small [OF small]] b64_bytes_values [OF small]
        comp_def)
qed

lemma b64_encode_no_dot: "CHR ''.'' \<notin> set (b64_encode s)"
proof -
  have small: "\<forall>b \<in> set (map of_char s :: nat list). b < 256" by (auto simp: of_char_small)
  show ?thesis using b64_values_small [OF small] b64_char_val by (auto simp: b64_encode_def) metis
qed

section \<open>Licenses\<close>

definition feature_audit :: string where "feature_audit = ''audit''"
definition feature_retention :: string where "feature_retention = ''retention''"

text \<open>A License is its set of features; no key at all is the empty one.\<close>

type_synonym license = "string set"

definition licensed :: "license \<Rightarrow> string \<Rightarrow> bool" where
  "licensed l f \<longleftrightarrow> f \<in> l"

record license_payload =
  lp_features :: "string list"
  lp_expires :: "time option"

datatype license_error = LicenseMalformed | LicenseBadSignature | LicenseExpired

definition cut_dot :: "string \<Rightarrow> (string \<times> string) option" where
  "cut_dot s =
     (if CHR ''.'' \<in> set s then Some (takeWhile (\<lambda>c. c \<noteq> CHR ''.'') s, tl (dropWhile (\<lambda>c. c \<noteq> CHR ''.'') s)) else None)"

definition parse_license ::
  "('k \<Rightarrow> string \<Rightarrow> string \<Rightarrow> bool) \<Rightarrow> (string \<Rightarrow> license_payload option) \<Rightarrow> 'k \<Rightarrow> time \<Rightarrow> string \<Rightarrow> license_error + license" where
  "parse_license verify unmarshal pub now key =
     (if key = '''' then Inr {}
      else case cut_dot key of
        None \<Rightarrow> Inl LicenseMalformed
      | Some (body, sig) \<Rightarrow>
         (case b64_decode body of
            None \<Rightarrow> Inl LicenseMalformed
          | Some raw \<Rightarrow>
             (case b64_decode sig of
                None \<Rightarrow> Inl LicenseBadSignature
              | Some signature \<Rightarrow>
                 if \<not> verify pub raw signature then Inl LicenseBadSignature
                 else case unmarshal raw of
                        None \<Rightarrow> Inl LicenseMalformed
                      | Some p \<Rightarrow>
                         if \<exists>t. lp_expires p = Some t \<and> t \<le> now then Inl LicenseExpired
                         else Inr (set (lp_features p)))))"

definition issue_license ::
  "('p \<Rightarrow> string \<Rightarrow> string) \<Rightarrow> (license_payload \<Rightarrow> string) \<Rightarrow> 'p \<Rightarrow> time option \<Rightarrow> string list \<Rightarrow> string" where
  "issue_license sign marshal priv expires features =
     (let raw = marshal \<lparr>lp_features = features, lp_expires = expires\<rparr>
      in b64_encode raw @ ''.'' @ b64_encode (sign priv raw))"

lemma cut_dot_join: "CHR ''.'' \<notin> set a \<Longrightarrow> cut_dot (a @ ''.'' @ b) = Some (a, b)"
  by (auto simp: cut_dot_def takeWhile_append dropWhile_append)

text \<open>A license issued with the private key parses under the public one to exactly the features it was issued
  for, until it expires; from then on it is refused.\<close>

theorem license_roundtrip:
  assumes "verify pub (marshal p) (sign priv (marshal p))" and "unmarshal (marshal p) = Some p"
    and "p = \<lparr>lp_features = features, lp_expires = expires\<rparr>"
  shows "parse_license verify unmarshal pub now (issue_license sign marshal priv expires features) =
    (if \<exists>t. expires = Some t \<and> t \<le> now then Inl LicenseExpired else Inr (set features))"
proof -
  let ?raw = "marshal \<lparr>lp_features = features, lp_expires = expires\<rparr>"
  have "cut_dot (issue_license sign marshal priv expires features) = Some (b64_encode ?raw, b64_encode (sign priv ?raw))"
    by (simp add: issue_license_def Let_def cut_dot_join [OF b64_encode_no_dot, simplified])
  moreover have "issue_license sign marshal priv expires features \<noteq> ''''" by (simp add: issue_license_def Let_def)
  ultimately show ?thesis using assms by (auto simp: parse_license_def b64_decode_encode)
qed

text \<open>A key that licenses a feature carries a payload that names it, is not expired, and whose signature verifies:
  nothing is licensed without the issuer's signature.\<close>

theorem license_needs_signature:
  assumes "parse_license verify unmarshal pub now key = Inr l" and "licensed l f"
  shows "\<exists>raw signature p. verify pub raw signature \<and> unmarshal raw = Some p \<and> f \<in> set (lp_features p) \<and>
    (\<forall>t. lp_expires p = Some t \<longrightarrow> now < t)"
proof (cases "key = ''''")
  case True
  then show ?thesis using assms by (auto simp: parse_license_def licensed_def)
next
  case False
  from assms(1) obtain body sig raw signature p where
    "cut_dot key = Some (body, sig)" "b64_decode body = Some raw" "b64_decode sig = Some signature"
    and ok: "verify pub raw signature" "unmarshal raw = Some p" "\<not> (\<exists>t. lp_expires p = Some t \<and> t \<le> now)"
      "l = set (lp_features p)"
    unfolding parse_license_def using False by (auto split: option.splits if_splits prod.splits)
  then show ?thesis using assms(2) by (intro exI [of _ raw] exI [of _ signature] exI [of _ p]) (auto simp: licensed_def)
qed

section \<open>Witnesses\<close>

definition demo_marshal :: "license_payload \<Rightarrow> string" where
  "demo_marshal p = (if p = \<lparr>lp_features = [feature_audit], lp_expires = Some 100\<rparr> then ''A'' else ''B'')"

definition demo_unmarshal :: "string \<Rightarrow> license_payload option" where
  "demo_unmarshal s = (if s = ''A'' then Some \<lparr>lp_features = [feature_audit], lp_expires = Some 100\<rparr> else None)"

definition demo_verify :: "string \<Rightarrow> string \<Rightarrow> string \<Rightarrow> bool" where
  "demo_verify pub raw sig \<longleftrightarrow> sig = pub @ raw"

lemma license_roundtrip_witness:
  "parse_license demo_verify demo_unmarshal ''k'' 7 (issue_license (@) demo_marshal ''k'' (Some 100) [feature_audit]) =
     Inr {feature_audit}"
  by (subst license_roundtrip [OF _ _ refl]) (simp_all add: demo_verify_def demo_unmarshal_def demo_marshal_def)

lemma license_needs_signature_witness:
  "\<exists>raw signature p. demo_verify ''k'' raw signature \<and> demo_unmarshal raw = Some p \<and> feature_audit \<in> set (lp_features p) \<and>
     list_all (\<lambda>t. 7 < t) (case lp_expires p of None \<Rightarrow> [] | Some t \<Rightarrow> [t])"
proof -
  have "parse_license demo_verify demo_unmarshal ''k'' 7 (b64_encode ''A'' @ ''.'' @ b64_encode ''kA'') = Inr {feature_audit}"
    by (simp add: parse_license_def cut_dot_join [OF b64_encode_no_dot, simplified] b64_decode_encode demo_verify_def
        demo_unmarshal_def)
  from license_needs_signature [OF this, of feature_audit] show ?thesis
    by (fastforce simp: licensed_def split: option.splits)
qed

end
