(* ===== verification/AuditLog.thy ===== *)
theory AuditLog
  imports License Paging ApiTokens EventConsumers
begin

text \<open>
  The Enterprise Audit log: the subscriber that persists \<open>audit.entry\<close> events, the reader with its filter and cursor
  and the CSV export (\<open>ee/audit\<close>), the customer's view of an entry (\<open>internal/auditapi\<close>), the retention control
  (\<open>ee/retention\<close>) and the handlers of \<open>/site\<close> and \<open>/api\<close> that gate them. The request id, address and user
  agent of an entry are a parameter (\<open>meta\<close>): the model's event does not carry them. A day is 24 hours (UTC), and
  time and JSON rendering in the CSV are parameters.
\<close>

section \<open>Entries\<close>

record request_meta =
  rm_request :: string
  rm_ip :: string
  rm_agent :: string

record audit_row =
  al_id :: id
  al_workspace :: id
  al_key :: id
  al_occurred :: time
  al_actor_kind :: string
  al_actor_id :: "string option"
  al_actor_name :: "string option"
  al_action :: string
  al_target_type :: string
  al_target_id :: "string option"
  al_target_name :: "string option"
  al_diff :: "json option"
  al_request :: "string option"
  al_ip :: "string option"
  al_agent :: "string option"

record audit_store =
  al_rows :: "audit_row list"
  al_next :: id

definition kind_user :: string where "kind_user = ''user''"
definition kind_operator :: string where "kind_operator = ''operator''"

fun actor_kind_name :: "actor_kind \<Rightarrow> string" where
  "actor_kind_name ActorNone = ''''"
| "actor_kind_name ActorUser = kind_user"
| "actor_kind_name ActorAPIToken = ''api_token''"
| "actor_kind_name ActorOperator = kind_operator"
| "actor_kind_name ActorSystem = ''system''"
| "actor_kind_name ActorIngest = ''ingest''"

definition some_text :: "string \<Rightarrow> string option" where
  "some_text s = (if s = '''' then None else Some s)"

definition some_diff :: "json \<Rightarrow> json option" where
  "some_diff j = (if j = JNull \<or> j = JObj [] then None else Some j)"

section \<open>The subscriber\<close>

definition entry_row :: "(id \<Rightarrow> request_meta) \<Rightarrow> envelope \<Rightarrow> audit_entry \<Rightarrow> id \<Rightarrow> audit_row" where
  "entry_row meta env e i =
     \<lparr>al_id = i, al_workspace = env_workspace env, al_key = env_id env, al_occurred = env_occurred env,
      al_actor_kind = actor_kind_name (actor_kind (ae_actor e)), al_actor_id = some_text (actor_id (ae_actor e)),
      al_actor_name = some_text (actor_name (ae_actor e)), al_action = ae_action e, al_target_type = ae_target_type e,
      al_target_id = some_text (ae_target_id e), al_target_name = some_text (ae_target_name e),
      al_diff = some_diff (ae_diff e), al_request = some_text (rm_request (meta (env_id env))),
      al_ip = some_text (rm_ip (meta (env_id env))), al_agent = some_text (rm_agent (meta (env_id env)))\<rparr>"

text \<open>The \<open>NotEmpty\<close> validators run before the insert; a conflict on the envelope id inserts nothing. \<open>known\<close> says
  which Workspaces exist.\<close>

definition persist_entry ::
  "(id \<Rightarrow> request_meta) \<Rightarrow> (id \<Rightarrow> bool) \<Rightarrow> envelope \<Rightarrow> audit_entry \<Rightarrow> audit_store \<Rightarrow> consume_error option \<times> audit_store" where
  "persist_entry meta known env e al =
     (if actor_kind (ae_actor e) = ActorNone \<or> ae_action e = '''' \<or> ae_target_type e = '''' then (Some EventInvalid, al)
      else if exists_where (\<lambda>r. al_workspace r = env_workspace env \<and> al_key r = env_id env) (al_rows al) then (None, al)
      else if \<not> known (env_workspace env) then (Some WorkspaceGone, al)
      else (None, al\<lparr>al_rows := al_rows al @ [entry_row meta env e (al_next al)], al_next := al_next al + 1\<rparr>))"

definition audit_consumer ::
  "license \<Rightarrow> (id \<Rightarrow> request_meta) \<Rightarrow> (id \<Rightarrow> bool) \<Rightarrow> envelope \<Rightarrow> audit_store \<Rightarrow> consume_error option \<times> audit_store" where
  "audit_consumer lic meta known env al =
     (if env_name env \<noteq> name_audit_entry \<or> \<not> licensed lic feature_audit then (None, al)
      else case decode_event env of
        Inl err \<Rightarrow> (Some err, al)
      | Inr (AuditEntry e) \<Rightarrow> persist_entry meta known env e al
      | Inr _ \<Rightarrow> (None, al))"

section \<open>The reader\<close>

record audit_filter =
  f_from :: "time option"
  f_to :: "time option"
  f_actor_kind :: string
  f_actor_id :: string
  f_action :: string
  f_target_type :: string
  f_target_id :: string
  f_ip :: string
  f_request :: string

definition unset_or :: "string \<Rightarrow> bool \<Rightarrow> bool" where
  "unset_or v p \<longleftrightarrow> v = '''' \<or> p"

definition audit_predicates :: "audit_filter \<Rightarrow> audit_row \<Rightarrow> bool" where
  "audit_predicates f r \<longleftrightarrow>
     (case f_from f of None \<Rightarrow> True | Some t \<Rightarrow> t \<le> al_occurred r) \<and>
     (case f_to f of None \<Rightarrow> True | Some t \<Rightarrow> al_occurred r < t) \<and>
     unset_or (f_actor_kind f) (al_actor_kind r = f_actor_kind f) \<and>
     (f_actor_id f \<noteq> '''' \<and> f_actor_kind f \<noteq> kind_operator \<longrightarrow>
        al_actor_id r = Some (f_actor_id f) \<and> al_actor_kind r \<noteq> kind_operator) \<and>
     unset_or (f_action f) (al_action r = f_action f) \<and>
     unset_or (f_target_type f) (al_target_type r = f_target_type f) \<and>
     unset_or (f_target_id f) (al_target_id r = Some (f_target_id f)) \<and>
     unset_or (f_ip f) (al_ip r = Some (f_ip f)) \<and>
     unset_or (f_request f) (al_request r = Some (f_request f))"

definition newest_first :: "audit_row list \<Rightarrow> audit_row list" where
  "newest_first rows = sort_key (\<lambda>r. - al_id r) rows"

definition audit_entries :: "id \<Rightarrow> audit_filter \<Rightarrow> id \<Rightarrow> nat \<Rightarrow> audit_store \<Rightarrow> audit_row list \<times> id" where
  "audit_entries ws f cursor limit al =
     (let rows = take (limit + 1) (newest_first (filter
           (\<lambda>r. al_workspace r = ws \<and> audit_predicates f r \<and> (0 < cursor \<longrightarrow> al_id r < cursor)) (al_rows al)))
      in if length rows \<le> limit then (rows, 0)
         else (take limit rows, al_id (take limit rows ! (limit - 1))))"

definition audit_default_limit :: int where "audit_default_limit = 25"
definition audit_max_limit :: int where "audit_max_limit = 100"

text \<open>\<open>auditapi.Page\<close>; \<open>None\<close> is \<open>ErrBadCursor\<close>.\<close>

definition audit_page :: "string \<Rightarrow> int option \<Rightarrow> (id \<times> nat) option" where
  "audit_page cursor limit =
     (let n = (case limit of None \<Rightarrow> audit_default_limit | Some l \<Rightarrow> l);
          n = nat (if n < 1 \<or> audit_max_limit < n then audit_default_limit else n)
      in if cursor = '''' then Some (0, n)
         else case parse_int64 cursor of
                None \<Rightarrow> None
              | Some after \<Rightarrow> if after < 1 then None else Some (after, n))"

text \<open>The entry as a customer sees it.\<close>

record audit_view =
  av_id :: string
  av_occurred :: time
  av_actor_kind :: string
  av_actor_id :: "string option"
  av_actor_name :: "string option"
  av_action :: string
  av_target_type :: string
  av_target_id :: "string option"
  av_target_name :: "string option"
  av_diff :: "json option"
  av_request :: "string option"
  av_ip :: "string option"
  av_agent :: "string option"

definition view_of :: "audit_row \<Rightarrow> audit_view" where
  "view_of r =
     \<lparr>av_id = show_int (al_id r), av_occurred = al_occurred r, av_actor_kind = al_actor_kind r,
      av_actor_id = (if al_actor_kind r = kind_operator then None else al_actor_id r),
      av_actor_name = (if al_actor_kind r = kind_operator then Some operator_label else al_actor_name r),
      av_action = al_action r, av_target_type = al_target_type r, av_target_id = al_target_id r,
      av_target_name = al_target_name r, av_diff = al_diff r, av_request = al_request r, av_ip = al_ip r,
      av_agent = al_agent r\<rparr>"

section \<open>The CSV export\<close>

definition export_header :: "string list" where
  "export_header = [''id'', ''occurred_at'', ''actor_kind'', ''actor_id'', ''actor_name'', ''action'', ''target_type'',
     ''target_id'', ''target_name'', ''diff'', ''request_id'', ''ip'', ''user_agent'']"

definition text_or_empty :: "string option \<Rightarrow> string" where
  "text_or_empty s = (case s of None \<Rightarrow> '''' | Some t \<Rightarrow> t)"

definition formula_start :: "char \<Rightarrow> bool" where
  "formula_start c \<longleftrightarrow> c \<in> {CHR ''='', CHR ''+'', CHR ''-'', CHR ''@'', CHR 0x09, CHR 0x0D}"

definition defuse_formula :: "string \<Rightarrow> string" where
  "defuse_formula cell = (if cell \<noteq> [] \<and> formula_start (hd cell) then CHR 0x27 # cell else cell)"

definition export_row :: "(time \<Rightarrow> string) \<Rightarrow> (json \<Rightarrow> string) \<Rightarrow> audit_row \<Rightarrow> string list" where
  "export_row show_time show_json r =
     (let v = view_of r in
      map defuse_formula
        [av_id v, show_time (av_occurred v), av_actor_kind v, text_or_empty (av_actor_id v), text_or_empty (av_actor_name v),
         av_action v, av_target_type v, text_or_empty (av_target_id v), text_or_empty (av_target_name v),
         (case al_diff r of None \<Rightarrow> '''' | Some j \<Rightarrow> show_json j), text_or_empty (av_request v), text_or_empty (av_ip v),
         text_or_empty (av_agent v)])"

definition audit_export_page :: nat where "audit_export_page = 500"

partial_function (option) export_loop :: "id \<Rightarrow> audit_filter \<Rightarrow> audit_store \<Rightarrow> nat \<Rightarrow> id \<Rightarrow> audit_row list option" where
  "export_loop ws f al n cursor =
     (let page = audit_entries ws f cursor n al in
      if snd page = 0 then Some (fst page)
      else Option.bind (export_loop ws f al n (snd page)) (\<lambda>rest. Some (fst page @ rest)))"

definition export_csv ::
  "(time \<Rightarrow> string) \<Rightarrow> (json \<Rightarrow> string) \<Rightarrow> id \<Rightarrow> audit_filter \<Rightarrow> audit_store \<Rightarrow> string list list option" where
  "export_csv show_time show_json ws f al =
     map_option (\<lambda>rows. export_header # map (export_row show_time show_json) rows)
       (export_loop ws f al audit_export_page 0)"

section \<open>Retention\<close>

definition min_retention_days :: int where "min_retention_days = 1"
definition max_retention_days :: int where "max_retention_days = 3650"

definition older_than_window :: "time \<Rightarrow> tenant \<Rightarrow> audit_row \<Rightarrow> bool" where
  "older_than_window now w r \<longleftrightarrow>
     al_workspace r = ws_id w \<and> (case tn_retention_days w of None \<Rightarrow> False | Some n \<Rightarrow> al_occurred r < now - n * day)"

fun prune_windows :: "time \<Rightarrow> tenant list \<Rightarrow> int \<times> audit_store \<Rightarrow> int \<times> audit_store" where
  "prune_windows now [] (n, al) = (n, al)"
| "prune_windows now (w # ws) (n, al) =
     prune_windows now ws (n + int (count_where (older_than_window now w) (al_rows al)),
       al\<lparr>al_rows := delete_where (older_than_window now w) (al_rows al)\<rparr>)"

definition retention_prune :: "license \<Rightarrow> time \<Rightarrow> tenant list \<Rightarrow> audit_store \<Rightarrow> int \<times> audit_store" where
  "retention_prune lic now ws al =
     (if \<not> licensed lic feature_retention then (0, al)
      else prune_windows now (filter (\<lambda>w. tn_retention_days w \<noteq> None) ws) (0, al))"

section \<open>The handlers\<close>

datatype 'a audit_answer = AuditOk 'a | AuditRefused site_answer | AuditPaymentRequired | AuditUnauthorized

definition audit_member :: "license \<Rightarrow> string \<Rightarrow> time \<Rightarrow> id \<Rightarrow> string \<Rightarrow> accounts_db \<Rightarrow> id audit_answer" where
  "audit_member lic feature now uid slug d =
     (case membership_for now uid slug d of
        Inl a \<Rightarrow> AuditRefused a
      | Inr (w, m) \<Rightarrow>
         if \<not> can_manage_members (mb_role m) then AuditRefused AnsForbidden
         else if \<not> licensed lic feature then AuditPaymentRequired
         else AuditOk (ws_id w))"

definition list_entries :: "id \<Rightarrow> audit_filter \<Rightarrow> string \<Rightarrow> int option \<Rightarrow> audit_store \<Rightarrow> (audit_view list \<times> string option) audit_answer" where
  "list_entries ws f cursor limit al =
     (case audit_page cursor limit of
        None \<Rightarrow> AuditRefused AnsBadRequest
      | Some (after, n) \<Rightarrow>
         (case audit_entries ws f after n al of
            (rows, following) \<Rightarrow> AuditOk (map view_of rows, if 0 < following then Some (show_int following) else None)))"

definition site_audit_list ::
  "license \<Rightarrow> time \<Rightarrow> id \<Rightarrow> string \<Rightarrow> audit_filter \<Rightarrow> string \<Rightarrow> int option \<Rightarrow> accounts_db \<Rightarrow> audit_store
     \<Rightarrow> (audit_view list \<times> string option) audit_answer" where
  "site_audit_list lic now uid slug f cursor limit d al =
     (case audit_member lic feature_audit now uid slug d of
        AuditOk ws \<Rightarrow> list_entries ws f cursor limit al
      | AuditRefused a \<Rightarrow> AuditRefused a | AuditPaymentRequired \<Rightarrow> AuditPaymentRequired
      | AuditUnauthorized \<Rightarrow> AuditUnauthorized)"

definition audit_read_scope :: string where "audit_read_scope = ''audit:read''"

definition external_audit_list ::
  "license \<Rightarrow> api_token \<Rightarrow> audit_filter \<Rightarrow> string \<Rightarrow> int option \<Rightarrow> audit_store
     \<Rightarrow> (audit_view list \<times> string option) audit_answer" where
  "external_audit_list lic token f cursor limit al =
     (if \<not> has_scope (Some token) audit_read_scope then AuditUnauthorized
      else if \<not> licensed lic feature_audit then AuditPaymentRequired
      else list_entries (tok_workspace token) f cursor limit al)"

definition filter_diff :: "(time \<Rightarrow> string) \<Rightarrow> audit_filter \<Rightarrow> json" where
  "filter_diff show_time f =
     (let put = (\<lambda>k v. if v = '''' then [] else [(k, JStr v)]);
          stamp = (\<lambda>k t. case t of None \<Rightarrow> [] | Some t \<Rightarrow> [(k, JStr (show_time t))]);
          filters = stamp ''from'' (f_from f) @ stamp ''to'' (f_to f) @ put ''actor_kind'' (f_actor_kind f) @
            put ''actor_id'' (f_actor_id f) @ put ''action'' (f_action f) @ put ''target_type'' (f_target_type f) @
            put ''target_id'' (f_target_id f) @ put ''ip'' (f_ip f) @ put ''request_id'' (f_request f)
      in if filters = [] then JNull else JObj [(''filter'', JObj filters)])"

text \<open>The export is itself audited before any row leaves; the CSV is streamed afterwards.\<close>

definition site_audit_export ::
  "(time \<Rightarrow> string) \<Rightarrow> (json \<Rightarrow> string) \<Rightarrow> license \<Rightarrow> time \<Rightarrow> id \<Rightarrow> string \<Rightarrow> audit_filter \<Rightarrow> audit_store \<Rightarrow> accounts_db
     \<Rightarrow> string list list option audit_answer \<times> accounts_db" where
  "site_audit_export show_time show_json lic now uid slug f al d =
     (case audit_member lic feature_audit now uid slug d of
        AuditOk ws \<Rightarrow>
          (AuditOk (export_csv show_time show_json ws f al),
           log_audit \<lparr>ae_workspace = ws, ae_actor = actor_of uid d, ae_action = ''audit_log.export'',
             ae_target_type = ''audit_log'', ae_target_id = '''', ae_target_name = '''', ae_diff = filter_diff show_time f\<rparr> d)
      | AuditRefused a \<Rightarrow> (AuditRefused a, d) | AuditPaymentRequired \<Rightarrow> (AuditPaymentRequired, d)
      | AuditUnauthorized \<Rightarrow> (AuditUnauthorized, d))"

definition site_audit_get_retention :: "license \<Rightarrow> time \<Rightarrow> id \<Rightarrow> string \<Rightarrow> accounts_db \<Rightarrow> int option audit_answer" where
  "site_audit_get_retention lic now uid slug d =
     (case audit_member lic feature_retention now uid slug d of
        AuditOk ws \<Rightarrow> (case get_tenant ws d of None \<Rightarrow> AuditRefused AnsError | Some w \<Rightarrow> AuditOk (tn_retention_days w))
      | AuditRefused a \<Rightarrow> AuditRefused a | AuditPaymentRequired \<Rightarrow> AuditPaymentRequired
      | AuditUnauthorized \<Rightarrow> AuditUnauthorized)"

definition site_audit_set_retention ::
  "license \<Rightarrow> time \<Rightarrow> id \<Rightarrow> string \<Rightarrow> int option \<Rightarrow> accounts_db \<Rightarrow> int option audit_answer \<times> accounts_db" where
  "site_audit_set_retention lic now uid slug days d =
     (case audit_member lic feature_retention now uid slug d of
        AuditOk ws \<Rightarrow>
          if \<exists>n \<in> set_option days. n < min_retention_days \<or> max_retention_days < n
          then (AuditRefused AnsUnprocessable, d)
          else (case set_audit_retention ws (actor_of uid d) days d of
                  Inl _ \<Rightarrow> (AuditRefused AnsError, d)
                | Inr d' \<Rightarrow> (AuditOk days, d'))
      | AuditRefused a \<Rightarrow> (AuditRefused a, d) | AuditPaymentRequired \<Rightarrow> (AuditPaymentRequired, d)
      | AuditUnauthorized \<Rightarrow> (AuditUnauthorized, d))"

section \<open>Recorded once\<close>

definition entry_key :: "audit_row \<Rightarrow> id \<times> id" where
  "entry_key r = (al_workspace r, al_key r)"

definition audit_store_ok :: "audit_store \<Rightarrow> bool" where
  "audit_store_ok al \<longleftrightarrow> distinct (map entry_key (al_rows al)) \<and> distinct (map al_id (al_rows al)) \<and>
     (\<forall>r \<in> set (al_rows al). 0 < al_id r \<and> al_id r < al_next al) \<and> 0 < al_next al"

lemma entry_row_simps [simp]:
  "al_id (entry_row meta env e i) = i" "entry_key (entry_row meta env e i) = (env_workspace env, env_id env)"
  by (simp_all add: entry_row_def entry_key_def)

lemma persist_entry_cases:
  obtains "snd (persist_entry meta known env e al) = al"
  | "persist_entry meta known env e al =
       (None, al\<lparr>al_rows := al_rows al @ [entry_row meta env e (al_next al)], al_next := al_next al + 1\<rparr>)"
    and "(env_workspace env, env_id env) \<notin> entry_key ` set (al_rows al)"
proof (cases "exists_where (\<lambda>r. al_workspace r = env_workspace env \<and> al_key r = env_id env) (al_rows al)")
  case True
  then have "snd (persist_entry meta known env e al) = al" by (simp add: persist_entry_def)
  then show ?thesis by (rule that(1))
next
  case False
  then have "(env_workspace env, env_id env) \<notin> entry_key ` set (al_rows al)"
    by (auto simp: table_simps entry_key_def)
  with False show ?thesis
  proof (cases "actor_kind (ae_actor e) = ActorNone \<or> ae_action e = '''' \<or> ae_target_type e = '''' \<or>
      \<not> known (env_workspace env)")
    case True
    then have "snd (persist_entry meta known env e al) = al" by (auto simp: persist_entry_def)
    then show ?thesis by (rule that(1))
  next
    case ok: False
    have "persist_entry meta known env e al =
        (None, al\<lparr>al_rows := al_rows al @ [entry_row meta env e (al_next al)], al_next := al_next al + 1\<rparr>)"
      using ok False by (simp add: persist_entry_def)
    then show ?thesis by (rule that(2)) fact
  qed
qed

lemma persist_entry_again:
  assumes "persist_entry meta known env e al = (None, al')"
  shows "persist_entry meta known env e al' = (None, al')"
  using assms by (auto simp: persist_entry_def table_simps entry_row_def split: if_splits)

lemma audit_consumer_cases:
  obtains "snd (audit_consumer lic meta known env al) = al"
  | e where "audit_consumer lic meta known env al =
       (None, al\<lparr>al_rows := al_rows al @ [entry_row meta env e (al_next al)], al_next := al_next al + 1\<rparr>)"
    and "(env_workspace env, env_id env) \<notin> entry_key ` set (al_rows al)"
proof (cases "snd (audit_consumer lic meta known env al) = al")
  case False
  then obtain e where e: "audit_consumer lic meta known env al = persist_entry meta known env e al"
    by (auto simp: audit_consumer_def split: if_splits sum.splits domain_event.splits)
  from False show ?thesis by (cases rule: persist_entry_cases [of meta known env e al]) (auto simp: e intro: that)
qed (rule that)

text \<open>The Audit log is append-only and records an entry once: the subscriber adds at most one row, keeps every
  other as it is, keeps the rows distinct by envelope, and a redelivery of an envelope it accepted changes nothing.\<close>

theorem audit_recorded_once:
  assumes "audit_store_ok al" and "audit_consumer lic meta known env al = (err, al')"
  shows "audit_store_ok al' \<and> (\<exists>new. al_rows al' = al_rows al @ new \<and> length new \<le> 1) \<and>
    (err = None \<longrightarrow> audit_consumer lic meta known env al' = (None, al'))"
proof -
  have again: "audit_consumer lic meta known env al' = (None, al')" if "err = None"
    using assms(2) that persist_entry_again [of meta known env _ al al']
    by (auto simp: audit_consumer_def split: if_splits sum.splits domain_event.splits)
  show ?thesis
  proof (cases rule: audit_consumer_cases [of lic meta known env al])
    case 1
    with assms have "al' = al" by simp
    with assms(1) again show ?thesis by simp
  next
    case (2 e)
    then have "al' = al\<lparr>al_rows := al_rows al @ [entry_row meta env e (al_next al)], al_next := al_next al + 1\<rparr>"
      using assms(2) by simp
    with assms(1) again 2(2) show ?thesis by (auto simp: audit_store_ok_def)
  qed
qed

section \<open>Operators stay hidden\<close>

definition hide_operator :: "audit_row \<Rightarrow> audit_row" where
  "hide_operator r = (if al_actor_kind r = kind_operator then r\<lparr>al_actor_id := None, al_actor_name := None\<rparr> else r)"

lemma hide_operator_reads:
  "al_id (hide_operator r) = al_id r" "al_workspace (hide_operator r) = al_workspace r"
  "view_of (hide_operator r) = view_of r" "al_diff (hide_operator r) = al_diff r"
  by (simp_all add: hide_operator_def view_of_def)

lemma hide_operator_predicates: "audit_predicates f (hide_operator r) = audit_predicates f r"
  by (cases "al_actor_kind r = kind_operator") (simp_all add: hide_operator_def audit_predicates_def split: option.split)

lemma insort_key_map: "(\<And>x. k (g x) = k x) \<Longrightarrow> insort_key k (g x) (map g xs) = map g (insort_key k x xs)"
  by (induction xs) simp_all

lemma sort_key_map: "(\<And>x. k (g x) = k x) \<Longrightarrow> sort_key k (map g xs) = map g (sort_key k xs)"
  by (induction xs) (simp_all add: insort_key_map)

lemma entries_hidden:
  "audit_entries ws f cursor n (al\<lparr>al_rows := map hide_operator (al_rows al)\<rparr>) =
     apfst (map hide_operator) (audit_entries ws f cursor n al)"
proof -
  let ?p = "\<lambda>r. al_workspace r = ws \<and> audit_predicates f r \<and> (0 < cursor \<longrightarrow> al_id r < cursor)"
  have "filter ?p (map hide_operator (al_rows al)) = map hide_operator (filter ?p (al_rows al))"
    by (simp add: filter_map comp_def hide_operator_reads hide_operator_predicates)
  then have rows: "newest_first (filter ?p (map hide_operator (al_rows al))) =
      map hide_operator (newest_first (filter ?p (al_rows al)))"
    by (simp add: newest_first_def sort_key_map hide_operator_reads)
  have cut: "(if length (map hide_operator xs) \<le> n then (map hide_operator xs, 0)
        else (take n (map hide_operator xs), al_id (take n (map hide_operator xs) ! (n - 1)))) =
      apfst (map hide_operator) (if length xs \<le> n then (xs, 0) else (take n xs, al_id (take n xs ! (n - 1))))" for xs
    by (cases n) (simp_all add: hide_operator_reads take_map)
  have "al_rows (al\<lparr>al_rows := map hide_operator (al_rows al)\<rparr>) = map hide_operator (al_rows al)" by simp
  then show ?thesis
    using cut [of "take (n + 1) (newest_first (filter ?p (al_rows al)))"]
    by (simp only: audit_entries_def Let_def rows take_map)
qed

lemma entries_rows: "al_rows al = al_rows al' \<Longrightarrow> audit_entries ws f cursor n al = audit_entries ws f cursor n al'"
  by (simp add: audit_entries_def)

definition selected :: "id \<Rightarrow> audit_filter \<Rightarrow> audit_store \<Rightarrow> audit_row list" where
  "selected ws f al = newest_first (filter (\<lambda>r. al_workspace r = ws \<and> audit_predicates f r) (al_rows al))"

lemma export_loop_all:
  assumes "distinct (map al_id (al_rows al))" and "\<And>r. r \<in> set (al_rows al) \<Longrightarrow> 0 < al_id r" and "0 < n"
  shows "export_loop ws f al n cursor = Some (newest_first (filter
    (\<lambda>r. al_workspace r = ws \<and> audit_predicates f r \<and> (0 < cursor \<longrightarrow> al_id r < cursor)) (al_rows al)))"
proof (induction "length (newest_first (filter
    (\<lambda>r. al_workspace r = ws \<and> audit_predicates f r \<and> (0 < cursor \<longrightarrow> al_id r < cursor)) (al_rows al)))" arbitrary: cursor
    rule: less_induct)
  case less
  let ?p = "\<lambda>r. al_workspace r = ws \<and> audit_predicates f r"
  let ?key = "\<lambda>r. - al_id r"
  let ?L = "\<lambda>cursor. newest_first (filter (\<lambda>r. al_workspace r = ws \<and> audit_predicates f r \<and> (0 < cursor \<longrightarrow> al_id r < cursor)) (al_rows al))"
  let ?pos = "if 0 < cursor then Some (- cursor) else None"
  have L: "?L cursor = sort_key ?key (filter (\<lambda>r. ?p r \<and> beyond ?pos ?key r) (al_rows al))"
    by (simp add: newest_first_def beyond_def)
  show ?case
  proof (cases "length (?L cursor) \<le> n")
    case True
    then have "audit_entries ws f cursor n al = (?L cursor, 0)" by (simp add: audit_entries_def Let_def)
    then show ?thesis by (subst export_loop.simps) (simp add: Let_def)
  next
    case False
    let ?last = "al_id (last (take n (?L cursor)))"
    have page: "keyset_page ?key ?p n (al_rows al) ?pos = take n (?L cursor)" by (simp only: keyset_page_def L)
    have full: "length (keyset_page ?key ?p n (al_rows al) ?pos) = n" using False by (simp add: page)
    have dist: "distinct (map ?key (al_rows al))"
      using assms(1) by (simp add: distinct_map inj_on_def)
    have ne: "take n (?L cursor) \<noteq> []"
    proof
      assume "take n (?L cursor) = []"
      then have "length (take n (?L cursor)) = 0" by (simp only: list.size(3))
      then show False using False assms(3) by simp
    qed
    then have "last (take n (?L cursor)) \<in> set (?L cursor)" by (meson last_in_set in_set_takeD)
    then have pos: "0 < ?last" using assms(2) by (auto simp: newest_first_def)
    have rest: "?L ?last = drop n (?L cursor)"
      using keyset_next [OF dist full assms(3)] pos by (simp only: page) (simp add: newest_first_def beyond_def)
    have "audit_entries ws f cursor n al = (take n (?L cursor), ?last)"
    proof -
      have "take n (take (n + 1) (?L cursor)) = take n (?L cursor)" "\<not> length (take (n + 1) (?L cursor)) \<le> n"
        using False by simp_all
      moreover have "take n (?L cursor) ! (n - 1) = last (take n (?L cursor))"
        using ne False by (simp add: last_conv_nth min_absorb2)
      ultimately show ?thesis by (simp add: audit_entries_def Let_def)
    qed
    note page_eq = this
    have "length (?L ?last) < length (?L cursor)" unfolding rest using False assms(3) by simp
    note ih = less.hyps [OF this]
    have "export_loop ws f al n cursor = Some (take n (?L cursor) @ ?L ?last)"
      using pos by (subst export_loop.simps) (simp only: page_eq Let_def fst_conv snd_conv ih bind.simps, simp)
    also have "take n (?L cursor) @ ?L ?last = ?L cursor" by (subst rest) (rule append_take_drop_id)
    finally show ?thesis .
  qed
qed

lemma export_selected:
  assumes "audit_store_ok al"
  shows "export_csv show_time show_json ws f al =
    Some (export_header # map (export_row show_time show_json) (selected ws f al))"
proof -
  have "export_loop ws f al audit_export_page 0 = Some (selected ws f al)"
    using export_loop_all [of al audit_export_page ws f 0] assms
    by (simp add: audit_store_ok_def audit_export_page_def selected_def)
  then show ?thesis by (simp add: export_csv_def)
qed

lemma list_hidden:
  assumes "map hide_operator (al_rows al) = map hide_operator (al_rows al')"
  shows "list_entries ws f cursor limit al = list_entries ws f cursor limit al'"
proof -
  have same: "apfst (map hide_operator) (audit_entries ws f c n al) = apfst (map hide_operator) (audit_entries ws f c n al')" for c n
    unfolding entries_hidden [symmetric] by (rule entries_rows) (simp add: assms)
  have views: "map view_of rows = map view_of (map hide_operator rows)" for rows
    by (simp add: hide_operator_reads)
  have "(case audit_entries ws f c n al of (rows, following) \<Rightarrow> AuditOk (map view_of rows, g following)) =
      (case audit_entries ws f c n al' of (rows, following) \<Rightarrow> AuditOk (map view_of rows, g following))"
    for c n and g :: "id \<Rightarrow> string option"
    using same [of c n] by (simp add: case_prod_beta apfst_def map_prod_def prod_eq_iff) (metis views)
  then show ?thesis unfolding list_entries_def by (simp only:)
qed

lemma selected_hidden:
  "map (export_row show_time show_json) (selected ws f al) =
     map (export_row show_time show_json) (newest_first (filter (\<lambda>r. al_workspace r = ws \<and> audit_predicates f r)
       (map hide_operator (al_rows al))))"
proof -
  have row: "export_row show_time show_json (hide_operator r) = export_row show_time show_json r" for r
    by (simp add: export_row_def hide_operator_reads)
  have "filter (\<lambda>r. al_workspace r = ws \<and> audit_predicates f r) (map hide_operator (al_rows al)) =
      map hide_operator (filter (\<lambda>r. al_workspace r = ws \<and> audit_predicates f r) (al_rows al))"
    by (simp add: filter_map comp_def hide_operator_reads hide_operator_predicates)
  then show ?thesis by (simp add: selected_def newest_first_def sort_key_map hide_operator_reads row)
qed

text \<open>C29: No read surface tells one platform Operator from another: two logs that differ only in the ids and names
  of Operators answer every filter, cursor and page with the same views, and export the same file.\<close>

theorem operators_stay_hidden:
  assumes "audit_store_ok al" and "audit_store_ok al'"
    and "map hide_operator (al_rows al) = map hide_operator (al_rows al')"
  shows "list_entries ws f cursor limit al = list_entries ws f cursor limit al' \<and>
    export_csv show_time show_json ws f al = export_csv show_time show_json ws f al'"
  using list_hidden [OF assms(3)] assms by (simp add: export_selected selected_hidden)

lemma newest_strictly:
  "sorted (map (\<lambda>r. - al_id r) xs) \<Longrightarrow> distinct (map al_id xs) \<Longrightarrow> sorted_wrt (\<lambda>r s. al_id s < al_id r) xs"
  by (induction xs) (auto simp: less_le image_iff)

text \<open>The export is the whole log: a header and then one row for each entry of the Workspace the filter selects,
  newest first, however many pages it takes.\<close>

theorem export_is_the_log:
  assumes "audit_store_ok al"
  shows "\<exists>rows. export_csv show_time show_json ws f al = Some (export_header # map (export_row show_time show_json) rows) \<and>
    mset rows = mset (filter (\<lambda>r. al_workspace r = ws \<and> audit_predicates f r) (al_rows al)) \<and>
    sorted_wrt (\<lambda>r s. al_id s < al_id r) rows"
proof (intro exI conjI)
  show "export_csv show_time show_json ws f al = Some (export_header # map (export_row show_time show_json) (selected ws f al))"
    by (rule export_selected [OF assms])
  show perm: "mset (selected ws f al) = mset (filter (\<lambda>r. al_workspace r = ws \<and> audit_predicates f r) (al_rows al))"
    by (simp add: selected_def newest_first_def)
  have "sorted (map (\<lambda>r. - al_id r) (selected ws f al))" by (simp add: selected_def newest_first_def)
  moreover have "distinct (map al_id (selected ws f al))"
  proof -
    have "mset (map al_id (selected ws f al)) = mset (map al_id (filter (\<lambda>r. al_workspace r = ws \<and> audit_predicates f r) (al_rows al)))"
      using perm by simp
    then show ?thesis using assms by (metis audit_store_ok_def distinct_map_filter mset_eq_imp_distinct_iff)
  qed
  ultimately show "sorted_wrt (\<lambda>r s. al_id s < al_id r) (selected ws f al)" by (rule newest_strictly)
qed

section \<open>Retention\<close>

lemma prune_windows_rows:
  "snd (prune_windows now ws (n, al)) =
     al\<lparr>al_rows := filter (\<lambda>r. \<not> (\<exists>w \<in> set ws. older_than_window now w r)) (al_rows al)\<rparr> \<and>
   fst (prune_windows now ws (n, al)) =
     n + int (length (al_rows al)) - int (length (filter (\<lambda>r. \<not> (\<exists>w \<in> set ws. older_than_window now w r)) (al_rows al)))"
proof (induction ws arbitrary: n al)
  case (Cons w ws)
  have "length (filter (older_than_window now w) (al_rows al)) + length (filter (\<lambda>r. \<not> older_than_window now w r) (al_rows al)) =
      length (al_rows al)" by (rule sum_length_filter_compl)
  with Cons show ?case by (simp add: delete_where_def count_where_def conj_commute)
qed simp

text \<open>The retention job removes exactly the entries older than the window their own Workspace has set, and
  reports how many; without the retention license, or a window, nothing is removed.\<close>

theorem retention_prune_exact:
  "al_rows (snd (retention_prune lic now ws al)) =
     filter (\<lambda>r. \<not> (licensed lic feature_retention \<and> (\<exists>w \<in> set ws. older_than_window now w r))) (al_rows al) \<and>
   fst (retention_prune lic now ws al) =
     int (length (al_rows al)) - int (length (al_rows (snd (retention_prune lic now ws al))))"
proof -
  have "(\<exists>w \<in> set (filter (\<lambda>w. tn_retention_days w \<noteq> None) ws). older_than_window now w r) \<longleftrightarrow>
      (\<exists>w \<in> set ws. older_than_window now w r)" for r
    by (auto simp: older_than_window_def split: option.splits)
  then show ?thesis
    using prune_windows_rows [of now "filter (\<lambda>w. tn_retention_days w \<noteq> None) ws" 0 al]
    by (simp add: retention_prune_def)
qed

section \<open>Witnesses\<close>

definition demo_entry :: audit_entry where
  "demo_entry = \<lparr>ae_workspace = 1, ae_actor = \<lparr>actor_kind = ActorOperator, actor_id = ''ann'', actor_name = ''Ann''\<rparr>,
     ae_action = ''workspace.suspend'', ae_target_type = ''workspace'', ae_target_id = ''1'', ae_target_name = '''',
     ae_diff = JNull\<rparr>"

definition demo_meta :: "id \<Rightarrow> request_meta" where
  "demo_meta i = \<lparr>rm_request = '''', rm_ip = '''', rm_agent = ''''\<rparr>"

definition demo_filter :: audit_filter where
  "demo_filter = \<lparr>f_from = None, f_to = None, f_actor_kind = '''', f_actor_id = '''', f_action = '''', f_target_type = '''',
     f_target_id = '''', f_ip = '''', f_request = ''''\<rparr>"

definition demo_audit_store :: "string \<Rightarrow> audit_store" where
  "demo_audit_store operator_id = \<lparr>al_rows = [(entry_row demo_meta (make_envelope 8 5 (AuditEntry demo_entry)) demo_entry 1)
     \<lparr>al_actor_id := Some operator_id\<rparr>], al_next = 2\<rparr>"

lemma demo_audit_store_ok: "audit_store_ok (demo_audit_store i)"
  by (simp add: audit_store_ok_def demo_audit_store_def)

lemma audit_recorded_once_witness:
  "audit_store_ok (snd (audit_consumer {feature_audit} demo_meta (\<lambda>_. True) (make_envelope 9 6 (AuditEntry demo_entry))
     (demo_audit_store ''ann'')))"
proof -
  obtain err al' where "audit_consumer {feature_audit} demo_meta (\<lambda>_. True) (make_envelope 9 6 (AuditEntry demo_entry))
      (demo_audit_store ''ann'') = (err, al')" by (rule prod.exhaust)
  from audit_recorded_once [OF demo_audit_store_ok this] this show ?thesis by simp
qed

lemma operators_stay_hidden_witness:
  "list_entries 1 demo_filter '''' None (demo_audit_store ''ann'') = list_entries 1 demo_filter '''' None (demo_audit_store ''bob'')"
  using operators_stay_hidden [OF demo_audit_store_ok demo_audit_store_ok, of "''ann''" "''bob''" 1 demo_filter "''''" None]
  by (simp add: demo_audit_store_def hide_operator_def entry_row_def demo_entry_def)

lemma export_is_the_log_witness:
  "\<exists>rows. export_csv (\<lambda>_. ''t'') (\<lambda>_. ''j'') 1 demo_filter (demo_audit_store ''ann'') =
       Some (export_header # map (export_row (\<lambda>_. ''t'') (\<lambda>_. ''j'')) rows) \<and> length rows = 1"
proof -
  from export_is_the_log [OF demo_audit_store_ok, of "\<lambda>_. ''t''" "\<lambda>_. ''j''" 1 demo_filter "''ann''"]
  obtain rows where rows: "export_csv (\<lambda>_. ''t'') (\<lambda>_. ''j'') 1 demo_filter (demo_audit_store ''ann'') =
       Some (export_header # map (export_row (\<lambda>_. ''t'') (\<lambda>_. ''j'')) rows)"
    "mset rows = mset (filter (\<lambda>r. al_workspace r = 1 \<and> audit_predicates demo_filter r) (al_rows (demo_audit_store ''ann'')))"
    by blast
  have "al_workspace (entry_row demo_meta (make_envelope 8 5 (AuditEntry demo_entry)) demo_entry 1) = 1"
    by (simp add: entry_row_def demo_entry_def)
  then have "filter (\<lambda>r. al_workspace r = 1 \<and> audit_predicates demo_filter r) (al_rows (demo_audit_store ''ann'')) =
      al_rows (demo_audit_store ''ann'')"
    by (simp add: demo_audit_store_def demo_filter_def audit_predicates_def unset_or_def)
  with rows(2) have "length rows = 1"
    by (metis size_mset demo_audit_store_def audit_store.select_convs(1) One_nat_def length_Cons list.size(3))
  with rows(1) show ?thesis by blast
qed


end
