(* ===== verification/Integrations.thy ===== *)
theory Integrations
  imports Paging Messaging
begin

text \<open>
  Sending-provider Integrations (\<open>internal/integrations\<close>) with the catalog of providers
  (\<open>internal/messaging/catalog.go\<close>, \<open>registry\<close>, and the configuration checks of \<open>smtp\<close> and \<open>ses\<close>). A
  configuration is a value; its JSON text and the cipher that seals it (\<open>internal/secrets\<close>, Tink) are the parameter
  \<open>vault\<close>. An update reads the row before its transaction, so it is two steps: \<open>prepare_update\<close> and
  \<open>write_update\<close>.
\<close>

section \<open>Provider configurations\<close>

record smtp_config =
  smtp_host :: string
  smtp_port :: int
  smtp_username :: string
  smtp_password :: string
  smtp_from :: string
  smtp_from_name :: string

record ses_config =
  ses_region :: string
  ses_access_key :: string
  ses_secret_key :: string
  ses_from :: string
  ses_from_name :: string
  ses_endpoint :: string

datatype config = SmtpConfig smtp_config | SesConfig ses_config

fun provider_of :: "config \<Rightarrow> provider" where
  "provider_of (SmtpConfig _) = Smtp"
| "provider_of (SesConfig _) = Ses"

record vault =
  v_marshal :: "config \<Rightarrow> string"
  v_smtp :: "string \<Rightarrow> smtp_config option"
  v_ses :: "string \<Rightarrow> ses_config option"
  v_seal :: "string \<Rightarrow> string option"
  v_open :: "string \<Rightarrow> string option"

definition validate_smtp :: "vault \<Rightarrow> string \<Rightarrow> bool" where
  "validate_smtp v raw =
     (case v_smtp v raw of None \<Rightarrow> False | Some c \<Rightarrow> smtp_host c \<noteq> '''' \<and> 0 < smtp_port c \<and> smtp_from c \<noteq> '''')"

definition validate_ses :: "vault \<Rightarrow> string \<Rightarrow> bool" where
  "validate_ses v raw =
     (case v_ses v raw of None \<Rightarrow> False | Some c \<Rightarrow> ses_region c \<noteq> '''' \<and> ses_access_key c \<noteq> '''' \<and> ses_from c \<noteq> '''')"

section \<open>The catalog\<close>

record descriptor =
  ds_channel :: channel
  ds_provider :: provider
  ds_validate :: "string \<Rightarrow> bool"

definition default_catalog :: "vault \<Rightarrow> descriptor list" where
  "default_catalog v =
     [\<lparr>ds_channel = ChEmail, ds_provider = Smtp, ds_validate = validate_smtp v\<rparr>,
      \<lparr>ds_channel = ChEmail, ds_provider = Ses, ds_validate = validate_ses v\<rparr>]"

definition descriptor_of :: "descriptor list \<Rightarrow> channel \<Rightarrow> provider \<Rightarrow> descriptor option" where
  "descriptor_of cat ch p = find_where (\<lambda>x. ds_channel x = ch \<and> ds_provider x = p) (rev cat)"

definition channel_of :: "descriptor list \<Rightarrow> provider \<Rightarrow> channel option" where
  "channel_of cat p = map_option ds_channel (find_where (\<lambda>x. ds_provider x = p) cat)"

definition catalog_validate :: "descriptor list \<Rightarrow> channel \<Rightarrow> provider \<Rightarrow> string \<Rightarrow> bool" where
  "catalog_validate cat ch p raw = (case descriptor_of cat ch p of None \<Rightarrow> False | Some x \<Rightarrow> ds_validate x raw)"

section \<open>The module\<close>

datatype integration_error =
    IntNotFound | IntName | IntConfig | IntKindMismatch | IntCipher | IntInvalid | DefaultConflict

text \<open>A Send rate limit of a request: left alone, cleared, or set.\<close>

datatype limit_input = LimitKeep | LimitClear | LimitSet int

record create_input =
  ci_name :: string
  ci_enabled :: "bool option"
  ci_default :: bool
  ci_per_second :: limit_input
  ci_per_day :: limit_input
  ci_config :: config

record update_input =
  ui_name :: "string option"
  ui_enabled :: "bool option"
  ui_default :: "bool option"
  ui_per_second :: limit_input
  ui_per_day :: limit_input
  ui_config :: "config option"

definition valid_name :: "string \<Rightarrow> string option" where
  "valid_name raw = (let n = trim_space raw in if n = '''' then None else Some n)"

definition limit_of :: "limit_input \<Rightarrow> int option" where
  "limit_of l = (case l of LimitSet n \<Rightarrow> Some n | _ \<Rightarrow> None)"

definition apply_limit :: "limit_input \<Rightarrow> int option \<Rightarrow> int option" where
  "apply_limit l old = (case l of LimitSet n \<Rightarrow> Some n | LimitClear \<Rightarrow> None | LimitKeep \<Rightarrow> old)"

definition positive_limit :: "limit_input \<Rightarrow> bool" where
  "positive_limit l = (case l of LimitSet n \<Rightarrow> 0 < n | _ \<Rightarrow> True)"

definition encode_config :: "vault \<Rightarrow> config \<Rightarrow> integration_error + (provider \<times> channel \<times> string)" where
  "encode_config v c =
     (let p = provider_of c; raw = v_marshal v c; cat = default_catalog v in
      case channel_of cat p of
        None \<Rightarrow> Inl IntConfig
      | Some ch \<Rightarrow> if catalog_validate cat ch p raw then Inr (p, ch, raw) else Inl IntConfig)"

definition default_row :: "id \<Rightarrow> channel \<Rightarrow> integration \<Rightarrow> bool" where
  "default_row ws ch = in_ws int_workspace ws (\<lambda>i. int_channel i = ch \<and> int_is_default i)"

definition clear_default :: "id \<Rightarrow> channel \<Rightarrow> db \<Rightarrow> db" where
  "clear_default ws ch d =
     d\<lparr>integrations := update_where (default_row ws ch) (\<lambda>i. i\<lparr>int_is_default := False\<rparr>) (integrations d)\<rparr>"

text \<open>The partial unique index: at most one default per Workspace and channel.\<close>

definition default_taken :: "integration \<Rightarrow> db \<Rightarrow> bool" where
  "default_taken i d \<longleftrightarrow> int_is_default i \<and>
     exists_where (\<lambda>x. int_id x \<noteq> int_id i \<and> default_row (int_workspace i) (int_channel i) x) (integrations d)"

definition quota_jobs :: "integration \<Rightarrow> id list" where
  "quota_jobs i = (if int_provider i = Ses then [int_id i] else [])"

definition create_integration :: "vault \<Rightarrow> id \<Rightarrow> create_input \<Rightarrow> db \<Rightarrow> integration_error + (integration \<times> id list \<times> db)" where
  "create_integration v ws inp d =
     (case valid_name (ci_name inp) of
        None \<Rightarrow> Inl IntName
      | Some name \<Rightarrow>
         (case encode_config v (ci_config inp) of
            Inl e \<Rightarrow> Inl e
          | Inr (p, ch, raw) \<Rightarrow>
             (case v_seal v raw of
                None \<Rightarrow> Inl IntCipher
              | Some sealed \<Rightarrow>
                 if \<not> positive_limit (ci_per_second inp) \<or> \<not> positive_limit (ci_per_day inp) then Inl IntInvalid
                 else
                   let d1 = (if ci_default inp then clear_default ws ch d else d);
                       row = \<lparr>int_id = next_id d1, int_workspace = ws, int_name = name, int_channel = ch, int_provider = p,
                         int_config = sealed, int_enabled = (case ci_enabled inp of None \<Rightarrow> True | Some b \<Rightarrow> b),
                         int_is_default = ci_default inp, int_max_per_second = limit_of (ci_per_second inp),
                         int_max_per_day = limit_of (ci_per_day inp), int_provider_max_per_second = None,
                         int_provider_max_per_day = None, int_quota_checked_at = None, int_quota_unavailable = False\<rparr>
                   in if default_taken row d1 then Inl DefaultConflict
                      else Inr (row, quota_jobs row,
                        d1\<lparr>integrations := integrations d1 @ [row], next_id := next_id d1 + 1\<rparr>))))"

definition merge_secrets :: "vault \<Rightarrow> provider \<Rightarrow> string \<Rightarrow> string \<Rightarrow> string option" where
  "merge_secrets v p following prev =
     (case p of
        Smtp \<Rightarrow>
          (case (v_smtp v following, v_smtp v prev) of
             (Some n, Some o') \<Rightarrow>
               Some (v_marshal v (SmtpConfig (if smtp_password n = '''' then n\<lparr>smtp_password := smtp_password o'\<rparr> else n)))
           | _ \<Rightarrow> None)
      | Ses \<Rightarrow>
          (case (v_ses v following, v_ses v prev) of
             (Some n, Some o') \<Rightarrow>
               Some (v_marshal v (SesConfig (if ses_secret_key n = '''' then n\<lparr>ses_secret_key := ses_secret_key o'\<rparr> else n)))
           | _ \<Rightarrow> None))"

definition get_integration :: "id \<Rightarrow> id \<Rightarrow> db \<Rightarrow> integration option" where
  "get_integration ws i d = find_where (in_ws int_workspace ws (\<lambda>x. int_id x = i)) (integrations d)"

definition reseal :: "vault \<Rightarrow> integration \<Rightarrow> config \<Rightarrow> integration_error + string" where
  "reseal v row c =
     (case encode_config v c of
        Inl e \<Rightarrow> Inl e
      | Inr (p, _, raw) \<Rightarrow>
         if p \<noteq> int_provider row then Inl IntKindMismatch
         else case v_open v (int_config row) of
           None \<Rightarrow> Inl IntCipher
         | Some prev \<Rightarrow>
            (case merge_secrets v p raw prev of
               None \<Rightarrow> Inl IntCipher
             | Some merged \<Rightarrow> (case v_seal v merged of None \<Rightarrow> Inl IntCipher | Some sealed \<Rightarrow> Inr sealed)))"

record prepared =
  pr_row :: integration
  pr_name :: "string option"
  pr_sealed :: "string option"
  pr_promote :: bool

definition prepare_update :: "vault \<Rightarrow> id \<Rightarrow> id \<Rightarrow> update_input \<Rightarrow> db \<Rightarrow> integration_error + prepared" where
  "prepare_update v ws i inp d =
     (case get_integration ws i d of
        None \<Rightarrow> Inl IntNotFound
      | Some row \<Rightarrow>
         if \<exists>raw \<in> set_option (ui_name inp). valid_name raw = None then Inl IntName
         else
           (let name = Option.bind (ui_name inp) valid_name;
                promote = ui_default inp = Some True \<and> \<not> int_is_default row
            in case ui_config inp of
              None \<Rightarrow> Inr \<lparr>pr_row = row, pr_name = name, pr_sealed = None, pr_promote = promote\<rparr>
            | Some c \<Rightarrow>
               (case reseal v row c of
                  Inl e \<Rightarrow> Inl e
                | Inr sealed \<Rightarrow> Inr \<lparr>pr_row = row, pr_name = name, pr_sealed = Some sealed, pr_promote = promote\<rparr>)))"

definition edit_integration :: "update_input \<Rightarrow> prepared \<Rightarrow> integration \<Rightarrow> integration" where
  "edit_integration inp pr i =
     i\<lparr>int_name := (case pr_name pr of None \<Rightarrow> int_name i | Some n \<Rightarrow> n),
       int_enabled := (case ui_enabled inp of None \<Rightarrow> int_enabled i | Some b \<Rightarrow> b),
       int_config := (case pr_sealed pr of None \<Rightarrow> int_config i | Some s \<Rightarrow> s),
       int_max_per_second := apply_limit (ui_per_second inp) (int_max_per_second i),
       int_max_per_day := apply_limit (ui_per_day inp) (int_max_per_day i),
       int_is_default := (case ui_default inp of None \<Rightarrow> int_is_default i | Some b \<Rightarrow> b)\<rparr>"

definition write_update :: "id \<Rightarrow> update_input \<Rightarrow> prepared \<Rightarrow> db \<Rightarrow> integration_error + (integration \<times> id list \<times> db)" where
  "write_update ws inp pr d =
     (if \<not> positive_limit (ui_per_second inp) \<or> \<not> positive_limit (ui_per_day inp) then Inl IntInvalid
      else
        (let d1 = (if pr_promote pr then clear_default ws (int_channel (pr_row pr)) d else d) in
         case get_integration ws (int_id (pr_row pr)) d1 of
           None \<Rightarrow> Inl IntNotFound
         | Some i \<Rightarrow>
             (let row = edit_integration inp pr i in
              if default_taken row d1 then Inl DefaultConflict
              else Inr (row, if pr_sealed pr \<noteq> None then quota_jobs row else [],
                d1\<lparr>integrations := update_where (in_ws int_workspace ws (\<lambda>x. int_id x = int_id i)) (\<lambda>_. row) (integrations d1)\<rparr>))))"

definition update_integration :: "vault \<Rightarrow> id \<Rightarrow> id \<Rightarrow> update_input \<Rightarrow> db \<Rightarrow> integration_error + (integration \<times> id list \<times> db)" where
  "update_integration v ws i inp d =
     (case prepare_update v ws i inp d of Inl e \<Rightarrow> Inl e | Inr pr \<Rightarrow> write_update ws inp pr d)"

text \<open>Deleting an Integration deletes its Send rate limiter with it.\<close>

definition delete_integration :: "id \<Rightarrow> id \<Rightarrow> db \<Rightarrow> integration_error + db" where
  "delete_integration ws i d =
     (if get_integration ws i d = None then Inl IntNotFound
      else Inr (d\<lparr>integrations := delete_where (in_ws int_workspace ws (\<lambda>x. int_id x = i)) (integrations d),
                  send_limiters := delete_where (\<lambda>s. sl_integration s = i) (send_limiters d)\<rparr>))"

section \<open>The redacted view\<close>

datatype redacted =
    RedactedSmtp string int string string string
  | RedactedSes string string string string string

definition last4 :: "string \<Rightarrow> string" where
  "last4 s = drop (length s - 4) s"

definition redact :: "vault \<Rightarrow> integration \<Rightarrow> redacted option" where
  "redact v row =
     (case v_open v (int_config row) of
        None \<Rightarrow> None
      | Some raw \<Rightarrow>
         (case int_provider row of
            Smtp \<Rightarrow> map_option (\<lambda>c. RedactedSmtp (smtp_host c) (smtp_port c) (smtp_username c) (smtp_from c) (smtp_from_name c))
              (v_smtp v raw)
          | Ses \<Rightarrow> map_option (\<lambda>c. RedactedSes (ses_region c) (ses_from c) (ses_from_name c) (ses_endpoint c) (last4 (ses_access_key c)))
              (v_ses v raw)))"

definition list_integrations :: "int \<times> int \<Rightarrow> id \<Rightarrow> db \<Rightarrow> 'e + integration page" where
  "list_integrations params ws d =
     (let rows = sort_key int_id (filter (\<lambda>i. int_workspace i = ws) (integrations d)) in
      list_page params (Inr (int (length rows))) (\<lambda>limit offset. Inr (take (nat limit) (drop (nat offset) rows))))"

section \<open>At most one default per channel\<close>

definition default_of :: "integration \<Rightarrow> id \<times> channel" where
  "default_of i = (int_workspace i, int_channel i)"

definition integrations_ok :: "db \<Rightarrow> bool" where
  "integrations_ok d \<longleftrightarrow> distinct (map int_id (integrations d)) \<and> (\<forall>i \<in> set (integrations d). int_id i < next_id d) \<and>
     distinct (map default_of (filter int_is_default (integrations d)))"

lemma default_taken_iff:
  "default_taken i d \<longleftrightarrow> int_is_default i \<and>
     (\<exists>x \<in> set (integrations d). int_id x \<noteq> int_id i \<and> int_is_default x \<and> default_of x = default_of i)"
  by (auto simp: default_taken_def table_simps default_row_def default_of_def)

lemma integrations_ok_demote:
  assumes "integrations_ok d" and "\<And>i. int_id (f i) = int_id i" and "\<And>i. default_of (f i) = default_of i"
    and "\<And>i. int_is_default (f i) \<Longrightarrow> int_is_default i"
  shows "integrations_ok (d\<lparr>integrations := map f (integrations d)\<rparr>)"
proof -
  let ?rows = "integrations d"
  have "map default_of (filter int_is_default (map f ?rows)) = map default_of (filter (\<lambda>i. int_is_default (f i)) ?rows)"
    by (simp add: filter_map comp_def assms(3))
  also have "filter (\<lambda>i. int_is_default (f i)) ?rows = filter (\<lambda>i. int_is_default (f i)) (filter int_is_default ?rows)"
    unfolding filter_filter by (rule filter_cong [OF refl]) (use assms(4) in blast)
  finally have "distinct (map default_of (filter int_is_default (map f ?rows)))"
    using assms(1) by (simp add: integrations_ok_def distinct_map_filter del: filter_filter)
  then show ?thesis using assms(1,2) by (simp add: integrations_ok_def comp_def)
qed

lemma clear_default_ok: "integrations_ok d \<Longrightarrow> integrations_ok (clear_default ws ch d)"
  unfolding clear_default_def update_where_def
  by (rule integrations_ok_demote) (auto simp: default_of_def split: if_splits)

lemma clear_default_rows:
  "integrations (clear_default ws ch d) = map (\<lambda>i. if default_row ws ch i then i\<lparr>int_is_default := False\<rparr> else i) (integrations d)"
  by (simp add: clear_default_def update_where_def)

lemma clear_default_cleared:
  assumes "i \<in> set (integrations (clear_default ws ch d))"
  shows "\<not> default_row ws ch i"
proof -
  obtain x where "i = (if default_row ws ch x then x\<lparr>int_is_default := False\<rparr> else x)"
    using assms unfolding clear_default_rows set_map by (rule imageE)
  then show ?thesis by (cases "default_row ws ch x") (simp_all add: default_row_def in_ws_def)
qed

lemma clear_default_next [simp]: "next_id (clear_default ws ch d) = next_id d"
  by (simp add: clear_default_def)

lemma integrations_ok_insert:
  assumes "integrations_ok d" and "int_id i = next_id d" and "\<not> default_taken i d"
  shows "integrations_ok (d\<lparr>integrations := integrations d @ [i], next_id := next_id d + 1\<rparr>)"
proof -
  have lt: "\<forall>x \<in> set (integrations d). int_id x < next_id d" using assms(1) by (simp add: integrations_ok_def)
  then have "int_is_default i \<Longrightarrow> default_of i \<notin> default_of ` {x \<in> set (integrations d). int_is_default x}"
    using assms(2,3) by (auto simp: default_taken_iff) (metis less_irrefl)
  then show ?thesis using assms(1,2) lt by (auto simp: integrations_ok_def)
qed

lemma integrations_split:
  assumes "integrations_ok d" and "i \<in> set (integrations d)" and "int_workspace i = ws"
  obtains xs ys where "integrations d = xs @ i # ys"
    and "update_where (in_ws int_workspace ws (\<lambda>x. int_id x = int_id i)) (\<lambda>_. row) (integrations d) = xs @ row # ys"
    and "\<forall>x \<in> set xs \<union> set ys. int_id x \<noteq> int_id i"
proof -
  obtain xs ys where d: "integrations d = xs @ i # ys" using assms(2) by (auto simp: in_set_conv_decomp)
  have "distinct (map int_id (xs @ i # ys))" using assms(1) by (simp add: integrations_ok_def d)
  then have other: "\<forall>x \<in> set xs \<union> set ys. int_id x \<noteq> int_id i" by (auto simp: image_iff)
  then have "update_where (in_ws int_workspace ws (\<lambda>x. int_id x = int_id i)) (\<lambda>_. row) (integrations d) = xs @ row # ys"
    using assms(3) by (simp add: d update_where_def in_ws_def map_idI)
  from that [OF d this other] show ?thesis .
qed

lemma integrations_ok_replace:
  assumes "integrations_ok d" and "i \<in> set (integrations d)" and "int_workspace i = ws" and "int_id row = int_id i"
    and "\<not> default_taken row d"
  shows "integrations_ok (d\<lparr>integrations := update_where (in_ws int_workspace ws (\<lambda>x. int_id x = int_id i)) (\<lambda>_. row) (integrations d)\<rparr>)"
proof -
  obtain xs ys where d: "integrations d = xs @ i # ys"
    and new: "update_where (in_ws int_workspace ws (\<lambda>x. int_id x = int_id i)) (\<lambda>_. row) (integrations d) = xs @ row # ys"
    and other: "\<forall>x \<in> set xs \<union> set ys. int_id x \<noteq> int_id i"
    by (rule integrations_split [OF assms(1-3)])
  have "int_is_default row \<Longrightarrow> default_of row \<notin> default_of ` {x \<in> set xs \<union> set ys. int_is_default x}"
    using assms(4,5) other by (auto simp: default_taken_iff d)
  then have "int_is_default row \<Longrightarrow> default_of row \<notin> default_of ` {x \<in> set xs. int_is_default x} \<and>
      default_of row \<notin> default_of ` {x \<in> set ys. int_is_default x}" by auto
  then show ?thesis using assms(1,4) unfolding new by (auto simp: integrations_ok_def d split: if_splits)
qed

lemma get_integrationD:
  "get_integration ws i d = Some row \<Longrightarrow> row \<in> set (integrations d) \<and> int_workspace row = ws \<and> int_id row = i"
  by (auto simp: get_integration_def in_ws_def dest: find_where_SomeD)

lemma edit_integration_key [simp]:
  "int_id (edit_integration inp pr i) = int_id i" "default_of (edit_integration inp pr i) = default_of i"
  "int_workspace (edit_integration inp pr i) = int_workspace i" "int_channel (edit_integration inp pr i) = int_channel i"
  by (simp_all add: edit_integration_def default_of_def)

lemma create_integration_InrD:
  assumes "create_integration v ws inp d = Inr (row, jobs, d')"
  obtains ch d1 where "d1 = (if ci_default inp then clear_default ws ch d else d)" and "int_id row = next_id d1"
    and "\<not> default_taken row d1" and "d' = d1\<lparr>integrations := integrations d1 @ [row], next_id := next_id d1 + 1\<rparr>"
    and "int_workspace row = ws" and "int_channel row = ch" and "int_is_default row = ci_default inp"
  using assms unfolding create_integration_def
  by (auto simp: Let_def split: option.splits sum.splits prod.splits if_splits)

lemma write_update_InrD:
  assumes "write_update ws inp pr d = Inr (row, jobs, d')"
  obtains d1 i where "d1 = (if pr_promote pr then clear_default ws (int_channel (pr_row pr)) d else d)"
    and "get_integration ws (int_id (pr_row pr)) d1 = Some i" and "row = edit_integration inp pr i"
    and "\<not> default_taken row d1"
    and "d' = d1\<lparr>integrations := update_where (in_ws int_workspace ws (\<lambda>x. int_id x = int_id i)) (\<lambda>_. row) (integrations d1)\<rparr>"
  using assms unfolding write_update_def by (auto simp: Let_def split: option.splits if_splits)

lemma create_integration_ok:
  assumes "integrations_ok d" and "create_integration v ws inp d = Inr (row, jobs, d')"
  shows "integrations_ok d' \<and> row \<in> set (integrations d') \<and> int_workspace row = ws"
proof (rule create_integration_InrD [OF assms(2)])
  fix ch d1
  assume d1: "d1 = (if ci_default inp then clear_default ws ch d else d)" and row: "int_id row = next_id d1"
    "\<not> default_taken row d1" and d': "d' = d1\<lparr>integrations := integrations d1 @ [row], next_id := next_id d1 + 1\<rparr>"
    and ws: "int_workspace row = ws"
  have "integrations_ok d1" using assms(1) by (simp add: d1 clear_default_ok)
  from integrations_ok_insert [OF this row] show ?thesis by (simp add: d' ws)
qed

lemma write_update_ok:
  assumes "integrations_ok d" and "write_update ws inp pr d = Inr (row, jobs, d')"
  shows "integrations_ok d' \<and> row \<in> set (integrations d') \<and> int_workspace row = ws"
proof (rule write_update_InrD [OF assms(2)])
  fix d1 i
  assume d1: "d1 = (if pr_promote pr then clear_default ws (int_channel (pr_row pr)) d else d)"
    and i: "get_integration ws (int_id (pr_row pr)) d1 = Some i" and row: "row = edit_integration inp pr i"
    and free: "\<not> default_taken row d1"
    and d': "d' = d1\<lparr>integrations := update_where (in_ws int_workspace ws (\<lambda>x. int_id x = int_id i)) (\<lambda>_. row) (integrations d1)\<rparr>"
  have ok: "integrations_ok d1" using assms(1) by (simp add: d1 clear_default_ok)
  note iD = get_integrationD [OF i]
  have "integrations_ok d'" unfolding d'
    by (rule integrations_ok_replace [OF ok]) (use iD free in \<open>simp_all add: row\<close>)
  moreover have "row \<in> set (integrations d')"
  proof -
    obtain xs ys where "update_where (in_ws int_workspace ws (\<lambda>x. int_id x = int_id i)) (\<lambda>_. row) (integrations d1) = xs @ row # ys"
      using iD by (metis integrations_split [OF ok])
    then show ?thesis by (simp add: d')
  qed
  ultimately show ?thesis using iD by (simp add: row)
qed

lemma delete_integration_ok:
  assumes "integrations_ok d" and "delete_integration ws i d = Inr d'"
  shows "integrations_ok d'"
proof -
  let ?p = "\<lambda>x. \<not> in_ws int_workspace ws (\<lambda>x. int_id x = i) x"
  have "filter int_is_default (filter ?p (integrations d)) = filter ?p (filter int_is_default (integrations d))"
    by (simp add: conj_commute)
  then have "distinct (map default_of (filter int_is_default (filter ?p (integrations d))))"
    using assms(1) by (simp add: integrations_ok_def distinct_map_filter del: filter_filter)
  moreover have "distinct (map int_id (filter ?p (integrations d)))"
    using assms(1) by (simp add: integrations_ok_def distinct_map_filter)
  moreover have "integrations d' = filter ?p (integrations d)" "next_id d' = next_id d"
    using assms(2) by (auto simp: delete_integration_def delete_where_def split: if_splits)
  ultimately show ?thesis using assms(1) by (simp add: integrations_ok_def)
qed

text \<open>Any interleaving of requests: an update is written with a row read at any earlier moment.\<close>

datatype integration_op =
    IntCreate id create_input
  | IntWrite id update_input prepared
  | IntDelete id id

fun integration_step :: "vault \<Rightarrow> integration_op \<Rightarrow> db \<Rightarrow> db" where
  "integration_step v (IntCreate ws inp) d = (case create_integration v ws inp d of Inl _ \<Rightarrow> d | Inr (_, _, d') \<Rightarrow> d')"
| "integration_step v (IntWrite ws inp pr) d = (case write_update ws inp pr d of Inl _ \<Rightarrow> d | Inr (_, _, d') \<Rightarrow> d')"
| "integration_step v (IntDelete ws i) d = (case delete_integration ws i d of Inl _ \<Rightarrow> d | Inr d' \<Rightarrow> d')"

lemma integration_step_ok: "integrations_ok d \<Longrightarrow> integrations_ok (integration_step v op d)"
  by (cases op) (auto split: sum.splits prod.splits dest: create_integration_ok write_update_ok delete_integration_ok)

lemma integration_steps_ok: "integrations_ok d \<Longrightarrow> integrations_ok (fold (integration_step v) ops d)"
  by (induction ops arbitrary: d) (simp_all add: integration_step_ok)

lemma resolves_default:
  assumes "integrations_ok d" and "row \<in> set (integrations d)" and "int_workspace row = ws" and "int_channel row = ChEmail"
    and "int_is_default row" and "int_enabled row"
  shows "default_integration ws d = Inr row"
proof -
  obtain xs ys where d: "integrations d = xs @ row # ys" using assms(2) by (auto simp: in_set_conv_decomp)
  let ?p = "in_ws int_workspace ws (\<lambda>i. int_channel i = ChEmail \<and> int_is_default i \<and> int_enabled i)"
  have "default_of x \<noteq> default_of row" if "x \<in> set xs \<union> set ys" "int_is_default x" for x
    using assms(1,5) that by (auto simp: integrations_ok_def d image_iff)
  then have "filter ?p xs = []" "filter ?p ys = []"
    using assms(3,4) by (auto simp: filter_empty_conv in_ws_def default_of_def)
  then show ?thesis using assms(3-6) by (simp add: default_integration_def d in_ws_def)
qed


section \<open>Secrets\<close>

definition vault_ok :: "vault \<Rightarrow> bool" where
  "vault_ok v \<longleftrightarrow> (\<forall>c. v_smtp v (v_marshal v (SmtpConfig c)) = Some c) \<and> (\<forall>c. v_ses v (v_marshal v (SesConfig c)) = Some c) \<and>
     (\<forall>p s. v_seal v p = Some s \<longrightarrow> v_open v s = Some p)"

definition stored_config :: "vault \<Rightarrow> integration \<Rightarrow> config option" where
  "stored_config v row =
     (case v_open v (int_config row) of
        None \<Rightarrow> None
      | Some raw \<Rightarrow>
         (case int_provider row of Smtp \<Rightarrow> map_option SmtpConfig (v_smtp v raw) | Ses \<Rightarrow> map_option SesConfig (v_ses v raw)))"

fun with_secret_of :: "config \<Rightarrow> config \<Rightarrow> config" where
  "with_secret_of (SmtpConfig o') (SmtpConfig n) = SmtpConfig (if smtp_password n = '''' then n\<lparr>smtp_password := smtp_password o'\<rparr> else n)"
| "with_secret_of (SesConfig o') (SesConfig n) = SesConfig (if ses_secret_key n = '''' then n\<lparr>ses_secret_key := ses_secret_key o'\<rparr> else n)"
| "with_secret_of _ n = n"

fun without_secret :: "config \<Rightarrow> config" where
  "without_secret (SmtpConfig c) =
     SmtpConfig \<lparr>smtp_host = smtp_host c, smtp_port = smtp_port c, smtp_username = smtp_username c, smtp_password = '''',
       smtp_from = smtp_from c, smtp_from_name = smtp_from_name c\<rparr>"
| "without_secret (SesConfig c) =
     SesConfig \<lparr>ses_region = ses_region c, ses_access_key = last4 (ses_access_key c), ses_secret_key = '''',
       ses_from = ses_from c, ses_from_name = ses_from_name c, ses_endpoint = ses_endpoint c\<rparr>"

lemma stored_config_cong:
  "int_config r = int_config s \<Longrightarrow> int_provider r = int_provider s \<Longrightarrow> stored_config v r = stored_config v s"
  unfolding stored_config_def by (simp only:)

lemma encode_config_InrD:
  "encode_config v c = Inr (p, ch, raw) \<Longrightarrow> p = provider_of c \<and> raw = v_marshal v c"
  by (auto simp: encode_config_def Let_def split: option.splits if_splits)

lemma reseal_stored:
  assumes "vault_ok v" and "reseal v old c = Inr sealed"
  shows "\<exists>c'. stored_config v old = Some c' \<and> provider_of c = int_provider old \<and>
    stored_config v (old\<lparr>int_config := sealed\<rparr>) = Some (with_secret_of c' c)"
proof -
  have laws: "\<And>c. v_smtp v (v_marshal v (SmtpConfig c)) = Some c" "\<And>c. v_ses v (v_marshal v (SesConfig c)) = Some c"
    "\<And>p s. v_seal v p = Some s \<Longrightarrow> v_open v s = Some p" using assms(1) by (simp_all add: vault_ok_def)
  obtain ch prev merged where enc: "encode_config v c = Inr (int_provider old, ch, v_marshal v c)"
    and prev: "v_open v (int_config old) = Some prev"
    and merged: "merge_secrets v (int_provider old) (v_marshal v c) prev = Some merged" "v_seal v merged = Some sealed"
    using assms(2) unfolding reseal_def
    by (auto split: sum.splits prod.splits option.splits if_splits dest: encode_config_InrD)
  have p: "provider_of c = int_provider old" using encode_config_InrD [OF enc] by simp
  show ?thesis
  proof (cases c)
    case (SmtpConfig n)
    then have "int_provider old = Smtp" using p by simp
    with SmtpConfig prev merged p show ?thesis
      by (auto simp: stored_config_def merge_secrets_def laws dest!: laws(3) split: option.splits)
  next
    case (SesConfig n)
    then have "int_provider old = Ses" using p by simp
    with SesConfig prev merged p show ?thesis
      by (auto simp: stored_config_def merge_secrets_def laws dest!: laws(3) split: option.splits)
  qed
qed

text \<open>C39: Editing an Integration never loses a credential: without a configuration the stored one is kept, and a
  blank secret in a new configuration keeps the stored secret while every other field is taken from the request.\<close>

theorem blank_secret_kept:
  assumes "vault_ok v" and "integrations_ok d" and "get_integration ws i d = Some old"
    and "update_integration v ws i inp d = Inr (row, jobs, d')"
  shows "(case ui_config inp of
      None \<Rightarrow> int_config row = int_config old
    | Some c \<Rightarrow> (\<exists>c'. stored_config v old = Some c' \<and> stored_config v row = Some (with_secret_of c' c)))"
proof -
  obtain pr where pr: "prepare_update v ws i inp d = Inr pr" "write_update ws inp pr d = Inr (row, jobs, d')"
    using assms(4) by (auto simp: update_integration_def split: sum.splits)
  then have old: "pr_row pr = old"
    using assms(3) by (auto simp: prepare_update_def Let_def split: option.splits sum.splits if_splits)
  show ?thesis
  proof (rule write_update_InrD [OF pr(2)])
    fix d1 x
    assume d1: "d1 = (if pr_promote pr then clear_default ws (int_channel (pr_row pr)) d else d)"
      and x: "get_integration ws (int_id (pr_row pr)) d1 = Some x" and row: "row = edit_integration inp pr x"
    have "int_config x = int_config old \<and> int_provider x = int_provider old"
    proof -
      note get_integrationD [OF assms(3)] get_integrationD [OF x]
      moreover obtain y where "y \<in> set (integrations d)" "int_id y = int_id x" "int_config y = int_config x" "int_provider y = int_provider x"
        using get_integrationD [OF x] by (auto simp: d1 clear_default_rows split: if_splits)
      moreover have "distinct (map int_id (integrations d))" using assms(2) by (simp add: integrations_ok_def)
      ultimately show ?thesis using old by (metis distinct_map inj_onD)
    qed
    note kept = this
    show ?thesis
    proof (cases "ui_config inp")
      case None
      then have "pr_sealed pr = None" using pr(1) by (auto simp: prepare_update_def Let_def split: option.splits if_splits)
      with None kept show ?thesis by (simp add: row edit_integration_def)
    next
      case (Some c)
      then obtain sealed where s: "pr_sealed pr = Some sealed" "reseal v old c = Inr sealed"
        using pr(1) assms(3) by (auto simp: prepare_update_def Let_def split: option.splits sum.splits if_splits)
      have "stored_config v row = stored_config v (old\<lparr>int_config := sealed\<rparr>)"
        by (rule stored_config_cong) (use kept s(1) in \<open>simp_all add: row edit_integration_def\<close>)
      with reseal_stored [OF assms(1) s(2)] Some show ?thesis by auto
    qed
  qed
qed

text \<open>What the API shows of an Integration does not depend on its secrets: two rows whose configurations differ
  only in the password, the secret key or the hidden part of the access key are shown alike.\<close>

theorem redaction_hides_secrets:
  assumes "int_provider row = int_provider row'" and "stored_config v row = Some c" and "stored_config v row' = Some c'"
    and "without_secret c = without_secret c'"
  shows "redact v row = redact v row'"
  using assms
  by (cases "int_provider row'") (auto simp: stored_config_def redact_def split: option.splits)

section \<open>Witnesses\<close>

text \<open>A self-delimiting text of strings: each character is preceded by \<open>1\<close> and the end is \<open>0\<close>.\<close>

definition put_field :: "string \<Rightarrow> string" where
  "put_field s = concat (map (\<lambda>c. [CHR ''1'', c]) s) @ ''0''"

fun get_field :: "string \<Rightarrow> (string \<times> string)" where
  "get_field (m # c # r) = (if m = CHR ''1'' then apfst ((#) c) (get_field r) else ([], c # r))"
| "get_field [m] = ([], [])"
| "get_field [] = ([], [])"

lemma get_put_field [simp]: "get_field (put_field s @ r) = (s, r)"
proof (induction s)
  case Nil
  then show ?case by (cases r) (simp_all add: put_field_def)
qed (simp add: put_field_def)

definition put_int :: "int \<Rightarrow> string" where
  "put_int i = put_field (if i < 0 then CHR ''-'' # replicate (nat (- i)) CHR ''i'' else replicate (nat i) CHR ''i'')"

definition get_int :: "string \<Rightarrow> int \<times> string" where
  "get_int s = (case get_field s of (t, r) \<Rightarrow>
     (if t \<noteq> [] \<and> hd t = CHR ''-'' then - int (length t - 1) else int (length t), r))"

lemma get_put_int [simp]: "get_int (put_int i @ r) = (i, r)"
  by (simp add: get_int_def put_int_def) (auto simp: hd_replicate)

definition demo_marshal_config :: "config \<Rightarrow> string" where
  "demo_marshal_config c =
     (case c of
        SmtpConfig x \<Rightarrow> put_field (smtp_host x) @ put_int (smtp_port x) @ put_field (smtp_username x) @
          put_field (smtp_password x) @ put_field (smtp_from x) @ put_field (smtp_from_name x) @ ''''
      | SesConfig x \<Rightarrow> put_field (ses_region x) @ put_field (ses_access_key x) @ put_field (ses_secret_key x) @
          put_field (ses_from x) @ put_field (ses_from_name x) @ put_field (ses_endpoint x) @ '''')"

definition demo_parse_smtp :: "string \<Rightarrow> smtp_config option" where
  "demo_parse_smtp s =
     (let (h, s) = get_field s; (p, s) = get_int s; (u, s) = get_field s; (pw, s) = get_field s; (f, s) = get_field s;
          (n, s) = get_field s
      in Some \<lparr>smtp_host = h, smtp_port = p, smtp_username = u, smtp_password = pw, smtp_from = f, smtp_from_name = n\<rparr>)"

definition demo_parse_ses :: "string \<Rightarrow> ses_config option" where
  "demo_parse_ses s =
     (let (r, s) = get_field s; (a, s) = get_field s; (k, s) = get_field s; (f, s) = get_field s; (n, s) = get_field s;
          (e, s) = get_field s
      in Some \<lparr>ses_region = r, ses_access_key = a, ses_secret_key = k, ses_from = f, ses_from_name = n, ses_endpoint = e\<rparr>)"

definition demo_vault :: vault where
  "demo_vault = \<lparr>v_marshal = demo_marshal_config, v_smtp = demo_parse_smtp, v_ses = demo_parse_ses, v_seal = Some, v_open = Some\<rparr>"

lemma demo_vault_ok: "vault_ok demo_vault"
  by (simp add: vault_ok_def demo_vault_def demo_marshal_config_def demo_parse_smtp_def demo_parse_ses_def
      del: append_Nil2)

definition demo_smtp :: "string \<Rightarrow> config" where
  "demo_smtp secret = SmtpConfig \<lparr>smtp_host = ''h'', smtp_port = 25, smtp_username = '''', smtp_password = secret,
     smtp_from = ''a@x.io'', smtp_from_name = ''''\<rparr>"

definition demo_create :: create_input where
  "demo_create = \<lparr>ci_name = ''n'', ci_enabled = None, ci_default = True, ci_per_second = LimitKeep, ci_per_day = LimitKeep,
     ci_config = demo_smtp ''pw''\<rparr>"

lemma empty_integrations_ok: "integrations_ok empty_db"
  by (simp add: integrations_ok_def)


definition demo_edit :: update_input where
  "demo_edit = \<lparr>ui_name = None, ui_enabled = None, ui_default = None, ui_per_second = LimitKeep, ui_per_day = LimitKeep,
     ui_config = Some (demo_smtp '''')\<rparr>"

definition demo_integration :: integration where
  "demo_integration = \<lparr>int_id = 1, int_workspace = 1, int_name = ''n'', int_channel = ChEmail, int_provider = Smtp,
     int_config = demo_marshal_config (demo_smtp ''pw''), int_enabled = True, int_is_default = True, int_max_per_second = None, int_max_per_day = None,
     int_provider_max_per_second = None, int_provider_max_per_day = None, int_quota_checked_at = None,
     int_quota_unavailable = False\<rparr>"

definition one_integration :: db where
  "one_integration = empty_db\<lparr>integrations := [demo_integration], next_id := 2\<rparr>"

lemma blank_secret_kept_witness:
  "\<exists>row jobs d. update_integration demo_vault 1 1 demo_edit one_integration = Inr (row, jobs, d) \<and>
     stored_config demo_vault row = Some (demo_smtp ''pw'')"
proof -
  have "case update_integration demo_vault 1 1 demo_edit one_integration of Inl _ \<Rightarrow> False | Inr _ \<Rightarrow> True" by code_simp
  then obtain row jobs d where r: "update_integration demo_vault 1 1 demo_edit one_integration = Inr (row, jobs, d)"
    by (auto split: sum.splits)
  have old: "get_integration 1 1 one_integration = Some demo_integration"
    by (simp add: get_integration_def one_integration_def find_where_def in_ws_def demo_integration_def)
  have ok: "integrations_ok one_integration"
    by (simp add: integrations_ok_def one_integration_def demo_integration_def)
  from blank_secret_kept [OF demo_vault_ok ok old r]
  have "\<exists>c'. stored_config demo_vault demo_integration = Some c' \<and> stored_config demo_vault row = Some (with_secret_of c' (demo_smtp ''''))"
    by (simp add: demo_edit_def)
  moreover have "stored_config demo_vault demo_integration = Some (demo_smtp ''pw'')" by code_simp
  moreover have "with_secret_of (demo_smtp ''pw'') (demo_smtp '''') = demo_smtp ''pw''" by (simp add: demo_smtp_def)
  ultimately show ?thesis using r by auto
qed

lemma redaction_hides_secrets_witness:
  "redact demo_vault demo_integration = redact demo_vault (demo_integration\<lparr>int_config := demo_marshal_config (demo_smtp ''other'')\<rparr>)"
proof (rule redaction_hides_secrets)
  show "stored_config demo_vault demo_integration = Some (demo_smtp ''pw'')" by code_simp
  show "stored_config demo_vault (demo_integration\<lparr>int_config := demo_marshal_config (demo_smtp ''other'')\<rparr>) = Some (demo_smtp ''other'')" by code_simp
qed (simp_all add: demo_smtp_def)

end
