(* ===== verification/Notices.thy ===== *)
theory Notices
  imports Members
begin

text \<open>
  Workspace suspension (\<open>internal/suspension\<close>) and the platform mail about Workspaces: the suspension notice
  (\<open>internal/jobs/workspace_suspension.go\<close>), the mail that a Second factor is now required and the reminder before
  a User's grace ends (\<open>internal/jobs/second_factor.go\<close>). A mail is its kind, its Membership and its address; the
  system sender is a parameter that accepts or refuses an address. The column \<open>second_factor_reminded_at\<close> of a
  Membership is the map \<open>reminded\<close>; a reminder is claimed, sent and, if the send fails, released in separate steps.
\<close>

section \<open>Suspension\<close>

definition action_suspend :: string where "action_suspend = ''workspace.suspend''"
definition action_unsuspend :: string where "action_unsuspend = ''workspace.unsuspend''"

definition suspension_actor :: "string \<Rightarrow> actor" where
  "suspension_actor by' =
     (if by' = ''system'' then \<lparr>actor_kind = ActorSystem, actor_id = '''', actor_name = ''''\<rparr>
      else \<lparr>actor_kind = ActorOperator, actor_id = by', actor_name = ''''\<rparr>)"

definition suspension_audit :: "string \<Rightarrow> string \<Rightarrow> tenant \<Rightarrow> json \<Rightarrow> audit_entry" where
  "suspension_audit by' action w diff =
     \<lparr>ae_workspace = ws_id w, ae_actor = suspension_actor by', ae_action = action, ae_target_type = ''workspace'',
      ae_target_id = show_int (ws_id w), ae_target_name = ws_name w, ae_diff = diff\<rparr>"

definition suspended :: "tenant \<Rightarrow> bool" where
  "suspended w \<longleftrightarrow> ws_suspended_at w \<noteq> None"

text \<open>\<open>None\<close> is the refusal of a call without an actor or a reason; the flag says whether anything changed.\<close>

definition suspend_workspace :: "time \<Rightarrow> id \<Rightarrow> string \<Rightarrow> string \<Rightarrow> accounts_db \<Rightarrow> (bool \<times> accounts_db) option" where
  "suspend_workspace now ws by' reason d =
     (let who = trim_space by'; why = trim_space reason in
      if who = '''' \<or> why = '''' then None
      else case get_tenant ws d of
        None \<Rightarrow> Some (False, d)
      | Some w \<Rightarrow>
         if suspended w then Some (False, d)
         else Some (True,
           log_audit (suspension_audit who action_suspend w
             (JObj [(''suspended'', JObj [(''from'', JBool False), (''to'', JBool True)]), (''reason'', JObj [(''to'', JStr why)])]))
             (update_tenant ws (\<lambda>w. w\<lparr>ws_suspended_at := Some now, ws_suspended_by := Some who, ws_suspension_reason := Some why\<rparr>) d)))"

definition unsuspend_workspace :: "id \<Rightarrow> string \<Rightarrow> accounts_db \<Rightarrow> bool \<times> accounts_db" where
  "unsuspend_workspace ws by' d =
     (case get_tenant ws d of
        None \<Rightarrow> (False, d)
      | Some w \<Rightarrow>
         if \<not> suspended w then (False, d)
         else (True,
           log_audit (suspension_audit by' action_unsuspend w (JObj [(''suspended'', JObj [(''from'', JBool True), (''to'', JBool False)])]))
             (update_tenant ws (\<lambda>w. w\<lparr>ws_suspended_at := None, ws_suspended_by := None, ws_suspension_reason := None\<rparr>) d)))"

section \<open>Platform mail about a Workspace\<close>

datatype notice =
    SuspendedNotice string string string string
  | FactorRequired string string time
  | FactorReminder string string time

text \<open>A send to every recipient; a refused one does not stop the others. The result is what left and whether all did.\<close>

fun send_each :: "(notice \<Rightarrow> bool) \<Rightarrow> notice list \<Rightarrow> notice list \<times> bool" where
  "send_each accepts [] = ([], True)"
| "send_each accepts (n # ns) =
     (case send_each accepts ns of (sent, ok) \<Rightarrow> if accepts n then (n # sent, ok) else (sent, False))"

definition member_user :: "accounts_db \<Rightarrow> membership \<Rightarrow> user option" where
  "member_user d m = get_user (mb_user m) d"

definition notify_workspace_suspended :: "(notice \<Rightarrow> bool) option \<Rightarrow> id \<Rightarrow> accounts_db \<Rightarrow> notice list \<times> bool" where
  "notify_workspace_suspended sender ws d =
     (case sender of
        None \<Rightarrow> ([], True)
      | Some accepts \<Rightarrow>
         (case get_tenant ws d of
            None \<Rightarrow> ([], False)
          | Some w \<Rightarrow>
             if \<not> suspended w then ([], True)
             else send_each accepts
               (concat (map (\<lambda>m. case member_user d m of
                    None \<Rightarrow> []
                  | Some u \<Rightarrow> if u_email u = '''' then []
                      else [SuspendedNotice (u_email u) (ws_name w)
                        (case ws_suspension_reason w of None \<Rightarrow> '''' | Some r \<Rightarrow> r) (case ws_suspended_by w of None \<Rightarrow> '''' | Some b \<Rightarrow> b)])
                 (filter (\<lambda>m. mb_workspace m = ws \<and> mb_role m = RoleOwner) (memberships d))))))"

definition member_deadline :: "accounts_db \<Rightarrow> membership \<Rightarrow> (user \<times> tenant \<times> time) option" where
  "member_deadline d m =
     (case (member_user d m, get_tenant (mb_workspace m) d) of
        (Some u, Some w) \<Rightarrow> map_option (\<lambda>t. (u, w, t)) (deadline u w m)
      | _ \<Rightarrow> None)"

definition notify_second_factor_required :: "(notice \<Rightarrow> bool) option \<Rightarrow> id \<Rightarrow> accounts_db \<Rightarrow> notice list \<times> bool" where
  "notify_second_factor_required sender ws d =
     (case sender of
        None \<Rightarrow> ([], False)
      | Some accepts \<Rightarrow>
         send_each accepts
           (concat (map (\<lambda>m. case member_deadline d m of
                None \<Rightarrow> []
              | Some (u, w, t) \<Rightarrow> [FactorRequired (u_email u) (ws_name w) t])
             (filter (\<lambda>m. mb_workspace m = ws) (memberships d)))))"

section \<open>The reminder\<close>

definition reminder_lead :: duration where "reminder_lead = 24 * hour"

type_synonym reminded = "id \<Rightarrow> time option"

text \<open>The UPDATE that claims a reminder: it changes the row when no reminder of this grace is recorded.\<close>

definition claimable :: "time \<Rightarrow> time option \<Rightarrow> bool" where
  "claimable grace_start cell \<longleftrightarrow> (case cell of None \<Rightarrow> True | Some t \<Rightarrow> t < grace_start)"

definition reminder_due :: "time \<Rightarrow> time \<Rightarrow> bool" where
  "reminder_due now end' \<longleftrightarrow> end' - reminder_lead \<le> now \<and> now < end'"

text \<open>\<open>remindOnce\<close> with \<open>seen\<close> the column as the sweep read it.\<close>

definition remind_once :: "(notice \<Rightarrow> bool) \<Rightarrow> time \<Rightarrow> membership \<Rightarrow> time option \<Rightarrow> time \<Rightarrow> notice \<Rightarrow> reminded \<Rightarrow> notice list \<times> bool \<times> reminded" where
  "remind_once accepts now m seen end' n cells =
     (if \<not> claimable (end' - grace_period) (cells (mb_id m)) then ([], True, cells)
      else let cells = cells(mb_id m := Some now) in
        if accepts n then ([n], True, cells) else ([], False, cells(mb_id m := seen)))"

fun remind_members ::
  "(notice \<Rightarrow> bool) \<Rightarrow> time \<Rightarrow> accounts_db \<Rightarrow> (membership \<times> time option) list \<Rightarrow> reminded \<Rightarrow> notice list \<times> bool \<times> reminded" where
  "remind_members accepts now d [] cells = ([], True, cells)"
| "remind_members accepts now d ((m, seen) # ms) cells =
     (case member_deadline d m of
        None \<Rightarrow> remind_members accepts now d ms cells
      | Some (u, w, end') \<Rightarrow>
         if \<not> reminder_due now end' then remind_members accepts now d ms cells
         else (case remind_once accepts now m seen end' (FactorReminder (u_email u) (ws_name w) end') cells of
                (sent, ok, cells') \<Rightarrow>
                  (case remind_members accepts now d ms cells' of
                     (sent', ok', cells'') \<Rightarrow> (sent @ sent', ok \<and> ok', cells''))))"

definition requires_factor :: "accounts_db \<Rightarrow> membership \<Rightarrow> bool" where
  "requires_factor d m =
     (case get_tenant (mb_workspace m) d of None \<Rightarrow> False | Some w \<Rightarrow> ws_second_factor_required_at w \<noteq> None)"

definition remind_second_factor_deadlines ::
  "(notice \<Rightarrow> bool) option \<Rightarrow> time \<Rightarrow> accounts_db \<Rightarrow> reminded \<Rightarrow> notice list \<times> bool \<times> reminded" where
  "remind_second_factor_deadlines sender now d cells =
     (case sender of
        None \<Rightarrow> ([], False, cells)
      | Some accepts \<Rightarrow>
         remind_members accepts now d (map (\<lambda>m. (m, cells (mb_id m))) (filter (requires_factor d) (memberships d))) cells)"

section \<open>Suspension keeps its first attribution\<close>

lemma get_update_tenant:
  "(\<And>w. ws_id (f w) = ws_id w) \<Longrightarrow> get_tenant ws (update_tenant ws' f d) =
     map_option (\<lambda>w. if ws_id w = ws' then f w else w) (get_tenant ws d)"
  by (simp add: get_tenant_def update_tenant_def find_where_update)

lemma get_tenant_log_audit [simp]: "get_tenant ws (log_audit e d) = get_tenant ws d"
  by (simp add: get_tenant_def)

datatype suspension_op = Suspend time string string | Unsuspend string

fun suspension_step :: "id \<Rightarrow> suspension_op \<Rightarrow> accounts_db \<Rightarrow> accounts_db" where
  "suspension_step ws (Suspend now by' reason) d =
     (case suspend_workspace now ws by' reason d of None \<Rightarrow> d | Some (_, d') \<Rightarrow> d')"
| "suspension_step ws (Unsuspend by') d = snd (unsuspend_workspace ws by' d)"

definition attribution :: "tenant \<Rightarrow> time option \<times> string option \<times> string option" where
  "attribution w = (ws_suspended_at w, ws_suspended_by w, ws_suspension_reason w)"

definition attributed :: "tenant \<Rightarrow> bool" where
  "attributed w \<longleftrightarrow> (if suspended w then (\<exists>b r. ws_suspended_by w = Some b \<and> ws_suspension_reason w = Some r \<and> b \<noteq> '''' \<and> r \<noteq> '''')
     else ws_suspended_by w = None \<and> ws_suspension_reason w = None)"

text \<open>How many suspensions the Audit entries of a Workspace record beyond its unsuspensions.\<close>

fun entry_weight :: "id \<Rightarrow> domain_event \<Rightarrow> int" where
  "entry_weight ws (AuditEntry e) =
     (if ae_workspace e \<noteq> ws then 0 else if ae_action e = action_suspend then 1 else if ae_action e = action_unsuspend then -1 else 0)"
| "entry_weight ws _ = 0"

definition suspensions_logged :: "id \<Rightarrow> accounts_db \<Rightarrow> int" where
  "suspensions_logged ws d = (\<Sum>e\<leftarrow>audit_log d. entry_weight ws e)"

lemma audit_log_suspension: "audit_log (log_audit (suspension_audit b a w j) d) = audit_log d @ [AuditEntry (suspension_audit b a w j)]"
  by (simp add: log_audit_def audit_event_def suspension_audit_def suspension_actor_def)

lemma audit_log_update_tenant [simp]: "audit_log (update_tenant ws f d) = audit_log d"
  by (simp add: update_tenant_def)

lemma suspension_step_cases:
  assumes "get_tenant ws d = Some w"
  obtains "suspension_step ws op d = d" and "\<And>b. op = Unsuspend b \<Longrightarrow> \<not> suspended w"
  | now who why where "\<not> suspended w" and "who \<noteq> ''''" and "why \<noteq> ''''"
      and "get_tenant ws (suspension_step ws op d) =
         Some (w\<lparr>ws_suspended_at := Some now, ws_suspended_by := Some who, ws_suspension_reason := Some why\<rparr>)"
      and "\<exists>j. audit_log (suspension_step ws op d) = audit_log d @ [AuditEntry (suspension_audit who action_suspend w j)]"
  | b where "suspended w" and "op = Unsuspend b"
      and "get_tenant ws (suspension_step ws op d) =
         Some (w\<lparr>ws_suspended_at := None, ws_suspended_by := None, ws_suspension_reason := None\<rparr>)"
      and "\<exists>j. audit_log (suspension_step ws op d) = audit_log d @ [AuditEntry (suspension_audit b action_unsuspend w j)]"
proof -
  have "ws_id w = ws" using assms by (auto simp: get_tenant_def dest: find_where_SomeD)
  then show ?thesis
  proof (cases op)
    case (Suspend now by' reason)
    show ?thesis
    proof (cases "trim_space by' = '''' \<or> trim_space reason = '''' \<or> suspended w")
      case True
      then show ?thesis using that(1) Suspend assms by (auto simp: suspend_workspace_def Let_def)
    next
      case False
      then show ?thesis using that(2) [of "trim_space by'" "trim_space reason" now] Suspend assms \<open>ws_id w = ws\<close>
        by (simp add: suspend_workspace_def Let_def audit_log_suspension get_update_tenant) blast
    qed
  next
    case (Unsuspend b)
    show ?thesis
    proof (cases "suspended w")
      case True
      then show ?thesis using that(3) [of b] Unsuspend assms \<open>ws_id w = ws\<close>
        by (simp add: unsuspend_workspace_def audit_log_suspension get_update_tenant) blast
    next
      case False
      then show ?thesis using that(1) Unsuspend assms by (simp add: unsuspend_workspace_def)
    qed
  qed
qed

lemma suspension_step_invariant:
  assumes "get_tenant ws d = Some w" and "attributed w"
  shows "\<exists>w'. get_tenant ws (suspension_step ws op d) = Some w' \<and> attributed w' \<and>
    suspensions_logged ws (suspension_step ws op d) - suspensions_logged ws d = of_bool (suspended w') - of_bool (suspended w) \<and>
    (suspended w \<and> (\<forall>b. op \<noteq> Unsuspend b) \<longrightarrow> w' = w)"
proof -
  have ws: "ws_id w = ws" using assms(1) by (auto simp: get_tenant_def dest: find_where_SomeD)
  show ?thesis
  proof (cases rule: suspension_step_cases [OF assms(1), of op])
    case 1
    then show ?thesis using assms by simp
  next
    case (2 now who why)
    then show ?thesis using assms ws
      by (auto simp: attributed_def suspended_def suspensions_logged_def suspension_audit_def)
  next
    case (3 b)
    then show ?thesis using assms ws
      by (auto simp: attributed_def suspended_def suspensions_logged_def suspension_audit_def action_suspend_def action_unsuspend_def)
  qed
qed

text \<open>Through any sequence of suspensions and unsuspensions a Workspace is suspended exactly when its Audit log
  records one more suspension than unsuspension, a suspended one always names who suspended it and why, and until
  it is unsuspended the first attribution stands.\<close>

theorem suspension_is_attributed:
  assumes "get_tenant ws d = Some w" and "attributed w"
  shows "\<exists>w'. get_tenant ws (fold (suspension_step ws) ops d) = Some w' \<and> attributed w' \<and>
    suspensions_logged ws (fold (suspension_step ws) ops d) - suspensions_logged ws d = of_bool (suspended w') - of_bool (suspended w) \<and>
    (suspended w \<and> (\<forall>b. Unsuspend b \<notin> set ops) \<longrightarrow> w' = w)"
  using assms
proof (induction ops arbitrary: d w)
  case (Cons op ops)
  from suspension_step_invariant [OF Cons.prems, of op] obtain w1 where w1:
    "get_tenant ws (suspension_step ws op d) = Some w1" "attributed w1"
    "suspensions_logged ws (suspension_step ws op d) - suspensions_logged ws d = of_bool (suspended w1) - of_bool (suspended w)"
    "suspended w \<and> (\<forall>b. op \<noteq> Unsuspend b) \<longrightarrow> w1 = w" by blast
  from Cons.IH [OF w1(1,2)] obtain w' where w':
    "get_tenant ws (fold (suspension_step ws) (op # ops) d) = Some w'" "attributed w'"
    "suspensions_logged ws (fold (suspension_step ws) (op # ops) d) - suspensions_logged ws (suspension_step ws op d) =
       of_bool (suspended w') - of_bool (suspended w1)"
    "suspended w1 \<and> (\<forall>b. Unsuspend b \<notin> set ops) \<longrightarrow> w' = w1" by auto
  show ?case
  proof (intro exI conjI impI)
    show "get_tenant ws (fold (suspension_step ws) (op # ops) d) = Some w'" "attributed w'" by (rule w')+
    show "suspensions_logged ws (fold (suspension_step ws) (op # ops) d) - suspensions_logged ws d =
        of_bool (suspended w') - of_bool (suspended w)" using w1(3) w'(3) by simp
    show "w' = w" if "suspended w \<and> (\<forall>b. Unsuspend b \<notin> set (op # ops))"
    proof -
      have "w1 = w" using w1(4) that by auto
      with w'(4) that show ?thesis by auto
    qed
  qed
qed simp

section \<open>One reminder per grace\<close>

text \<open>The steps of concurrent sweeps on one Membership within one grace: reading the row, claiming it, and the send
  with its release.\<close>

datatype reminder_attempt = NotStarted | Seen "time option" | Sending "time option" | Finished

record reminder_machine =
  rm_cell :: "time option"
  rm_attempt :: "nat \<Rightarrow> reminder_attempt"
  rm_sent :: nat

datatype reminder_step = ReadRow nat | ClaimRow nat time | SendMail nat bool

fun reminder_step_on :: "time \<Rightarrow> reminder_step \<Rightarrow> reminder_machine \<Rightarrow> reminder_machine" where
  "reminder_step_on g (ReadRow k) s =
     (if rm_attempt s k = NotStarted then s\<lparr>rm_attempt := (rm_attempt s)(k := Seen (rm_cell s))\<rparr> else s)"
| "reminder_step_on g (ClaimRow k now) s =
     (case rm_attempt s k of
        Seen seen \<Rightarrow>
          if claimable g (rm_cell s) then s\<lparr>rm_cell := Some now, rm_attempt := (rm_attempt s)(k := Sending seen)\<rparr>
          else s\<lparr>rm_attempt := (rm_attempt s)(k := Finished)\<rparr>
      | _ \<Rightarrow> s)"
| "reminder_step_on g (SendMail k ok) s =
     (case rm_attempt s k of
        Sending seen \<Rightarrow>
          if ok then s\<lparr>rm_attempt := (rm_attempt s)(k := Finished), rm_sent := rm_sent s + 1\<rparr>
          else s\<lparr>rm_cell := seen, rm_attempt := (rm_attempt s)(k := Finished)\<rparr>
      | _ \<Rightarrow> s)"

definition reminder_start :: "time option \<Rightarrow> reminder_machine" where
  "reminder_start cell = \<lparr>rm_cell = cell, rm_attempt = (\<lambda>_. NotStarted), rm_sent = 0\<rparr>"

lemma remind_once_runs:
  assumes "rm_attempt s k = NotStarted" and "rm_cell s = cells (mb_id m)"
  shows "(case remind_once accepts now m (cells (mb_id m)) end' n cells of (sent, ok, cells') \<Rightarrow>
    (let s' = fold (reminder_step_on (end' - grace_period)) [ReadRow k, ClaimRow k now, SendMail k (accepts n)] s in
     rm_sent s' = rm_sent s + length sent \<and> rm_cell s' = cells' (mb_id m)))"
  using assms by (simp add: remind_once_def Let_def)

fun late_claim :: "time \<Rightarrow> reminder_step \<Rightarrow> bool" where
  "late_claim g (ClaimRow k now) \<longleftrightarrow> g \<le> now"
| "late_claim g _ \<longleftrightarrow> True"

definition sending :: "reminder_attempt \<Rightarrow> bool" where
  "sending a \<longleftrightarrow> (\<exists>seen. a = Sending seen)"

definition reminder_inv :: "time \<Rightarrow> reminder_machine \<Rightarrow> bool" where
  "reminder_inv g s \<longleftrightarrow> rm_sent s \<le> 1 \<and> (rm_sent s = 1 \<longrightarrow> \<not> claimable g (rm_cell s) \<and> (\<forall>k. \<not> sending (rm_attempt s k))) \<and>
     (\<forall>k. sending (rm_attempt s k) \<longrightarrow> \<not> claimable g (rm_cell s) \<and> (\<forall>j. sending (rm_attempt s j) \<longrightarrow> j = k))"

lemma reminder_inv_step: "reminder_inv g s \<Longrightarrow> late_claim g x \<Longrightarrow> reminder_inv g (reminder_step_on g x s)"
  by (cases x) (auto simp: reminder_inv_def sending_def claimable_def split: reminder_attempt.splits if_splits)

lemma reminder_inv_run: "reminder_inv g s \<Longrightarrow> \<forall>x \<in> set xs. late_claim g x \<Longrightarrow> reminder_inv g (fold (reminder_step_on g) xs s)"
  by (induction xs arbitrary: s) (simp_all add: reminder_inv_step)

text \<open>A User is reminded at most once in a grace, however many sweeps overlap, fail and retry.\<close>

theorem reminded_at_most_once:
  assumes "\<forall>x \<in> set xs. late_claim g x"
  shows "rm_sent (fold (reminder_step_on g) xs (reminder_start cell)) \<le> 1"
proof -
  have "reminder_inv g (reminder_start cell)" by (simp add: reminder_inv_def reminder_start_def sending_def)
  from reminder_inv_run [OF this assms] show ?thesis by (simp add: reminder_inv_def)
qed

text \<open>The release can lose the reminder: a sweep that read the row while another held it, and whose send fails
  after the other's failed too, writes back the other's claim; no later sweep of the grace then sends anything.\<close>

theorem stale_release_loses_reminder:
  assumes "g \<le> t"
  shows "rm_sent (fold (reminder_step_on g) later (fold (reminder_step_on g)
    [ReadRow 1, ClaimRow 1 t, ReadRow 2, SendMail 1 False, ClaimRow 2 t', SendMail 2 False] (reminder_start None))) = 0"
proof -
  let ?lost = "\<lambda>s. rm_sent s = 0 \<and> \<not> claimable g (rm_cell s) \<and> (\<forall>k. \<not> sending (rm_attempt s k))"
  have "?lost (fold (reminder_step_on g) later s)" if "?lost s" for s
    using that
  proof (induction later arbitrary: s)
    case (Cons x xs)
    then have "?lost (reminder_step_on g x s)"
      by (cases x) (auto simp: sending_def split: reminder_attempt.splits)
    from Cons.IH [OF this] show ?case by simp
  qed simp
  moreover have "?lost (fold (reminder_step_on g)
      [ReadRow 1, ClaimRow 1 t, ReadRow 2, SendMail 1 False, ClaimRow 2 t', SendMail 2 False] (reminder_start None))"
    using assms by (simp add: reminder_start_def claimable_def sending_def)
  ultimately show ?thesis by blast
qed

section \<open>Witnesses\<close>

definition demo_noticed :: tenant where
  "demo_noticed = \<lparr>ws_id = 1, ws_name = ''Acme'', ws_require_confirmed = False, ws_postal_address = '''',
     ws_second_factor_required_at = None, ws_suspended_at = None, ws_suspended_by = None, ws_suspension_reason = None,
     tn_slug = ''acme'', tn_collect_key = ''c'', tn_ingest_key = ''i'', tn_retention_days = None\<rparr>"

lemma suspension_is_attributed_witness:
  "\<exists>w'. get_tenant 1 (fold (suspension_step 1) [Suspend 5 ''ann'' ''spam'', Suspend 6 ''bob'' ''abuse''] (empty_accounts\<lparr>tenants := [demo_noticed]\<rparr>)) = Some w' \<and>
     attributed w'"
proof -
  have "get_tenant 1 (empty_accounts\<lparr>tenants := [demo_noticed]\<rparr>) = Some demo_noticed"
    by (simp add: get_tenant_def find_where_def demo_noticed_def)
  moreover have "attributed demo_noticed" by (simp add: attributed_def suspended_def demo_noticed_def)
  ultimately show ?thesis using suspension_is_attributed by blast
qed

lemma reminded_at_most_once_witness:
  "rm_sent (fold (reminder_step_on 10) [ReadRow 0, ReadRow 1, ClaimRow 0 12, ClaimRow 1 13, SendMail 0 True, SendMail 1 True] (reminder_start None)) \<le> 1"
  by (rule reminded_at_most_once) simp

lemma stale_release_loses_reminder_witness:
  "rm_sent (fold (reminder_step_on 10) [ReadRow 3, ClaimRow 3 20, SendMail 3 True] (fold (reminder_step_on 10)
    [ReadRow 1, ClaimRow 1 12, ReadRow 2, SendMail 1 False, ClaimRow 2 13, SendMail 2 False] (reminder_start None))) = 0"
  by (rule stale_release_loses_reminder) simp


end
