(* ===== verification/RateLimit.thy ===== *)
theory RateLimit
  imports ApiTokens
begin

text \<open>
  The request limiter (\<open>internal/ratelimit\<close>) and the guarded authentication of the two token surfaces
  (\<open>internal/api/auth\<close>). The sliding windows are \<open>go-chi/httprate\<close>: a \<open>counter\<close> counts a request of a policy
  against a key and says whether the budget is spent, or only says it. A client address is canonical already; the 429
  headers, the metric and the log are left out.
\<close>

datatype policy =
    PolHuman | PolApiBurst | PolApi | PolFailedAuth | PolTracking | PolLoginIp | PolCollect | PolCollectIp | PolForgotIp

record 's counter =
  ct_hit :: "policy \<Rightarrow> string \<Rightarrow> 's \<Rightarrow> bool \<times> 's"
  ct_full :: "policy \<Rightarrow> string \<Rightarrow> 's \<Rightarrow> bool"

type_synonym limits_of = "policy \<Rightarrow> int"

section \<open>Policies\<close>

text \<open>A limit that is not positive builds no policy, which allows everything. The result of \<open>reject\<close> is whether the
  request is refused.\<close>

definition reject :: "limits_of \<Rightarrow> 's counter \<Rightarrow> policy \<Rightarrow> string \<Rightarrow> 's \<Rightarrow> bool \<times> 's" where
  "reject lm ct p key s = (if lm p \<le> 0 then (False, s) else ct_hit ct p key s)"

definition blocked :: "limits_of \<Rightarrow> 's counter \<Rightarrow> policy \<Rightarrow> string \<Rightarrow> 's \<Rightarrow> bool" where
  "blocked lm ct p key s \<longleftrightarrow> 0 < lm p \<and> ct_full ct p key s"

definition records_tracking :: "limits_of \<Rightarrow> 's counter \<Rightarrow> string \<Rightarrow> 's \<Rightarrow> bool \<times> 's" where
  "records_tracking lm ct ip s = (case reject lm ct PolTracking ip s of (over, s') \<Rightarrow> (\<not> over, s'))"

fun reject_any :: "limits_of \<Rightarrow> 's counter \<Rightarrow> (policy \<times> string) list \<Rightarrow> 's \<Rightarrow> policy option \<times> 's" where
  "reject_any lm ct [] s = (None, s)"
| "reject_any lm ct ((p, key) # ps) s =
     (case reject lm ct p key s of (over, s') \<Rightarrow> if over then (Some p, s') else reject_any lm ct ps s')"

section \<open>The exchange of one request\<close>

record 's http_exchange =
  ex_ip :: string
  ex_charged :: bool
  ex_state :: 's

definition charge_once :: "limits_of \<Rightarrow> 's counter \<Rightarrow> (policy \<times> string) list \<Rightarrow> 's http_exchange \<Rightarrow> policy option \<times> 's http_exchange" where
  "charge_once lm ct ps x =
     (if ex_charged x then (None, x)
      else case reject_any lm ct ps (ex_state x) of (over, s) \<Rightarrow> (over, x\<lparr>ex_charged := True, ex_state := s\<rparr>))"

definition charge_workspace :: "limits_of \<Rightarrow> 's counter \<Rightarrow> id \<Rightarrow> 's http_exchange \<Rightarrow> policy option \<times> 's http_exchange" where
  "charge_workspace lm ct ws = charge_once lm ct [(PolApiBurst, show_int ws), (PolApi, show_int ws)]"

definition charge_collect :: "limits_of \<Rightarrow> 's counter \<Rightarrow> id \<Rightarrow> 's http_exchange \<Rightarrow> policy option \<times> 's http_exchange" where
  "charge_collect lm ct ws = charge_once lm ct [(PolCollect, show_int ws)]"

datatype 'a auth_result = Authed 'a | Limited policy | Unauthorized

text \<open>\<open>guardedAuth\<close>: the credential is looked at only while the address has failures left; \<open>looked\<close> counts the looks.\<close>

definition guarded_auth ::
  "limits_of \<Rightarrow> 's counter \<Rightarrow> 'a option \<Rightarrow> ('a \<Rightarrow> 's http_exchange \<Rightarrow> policy option \<times> 's http_exchange) \<Rightarrow> nat \<times> 's http_exchange
     \<Rightarrow> 'a auth_result \<times> nat \<times> 's http_exchange" where
  "guarded_auth lm ct credential charge nx =
     (case nx of (looked, x) \<Rightarrow>
       if blocked lm ct PolFailedAuth (ex_ip x) (ex_state x) then (Limited PolFailedAuth, looked, x)
       else case credential of
         None \<Rightarrow>
           (case reject lm ct PolFailedAuth (ex_ip x) (ex_state x) of
              (over, s) \<Rightarrow> (if over then Limited PolFailedAuth else Unauthorized, looked + 1, x\<lparr>ex_state := s\<rparr>))
       | Some a \<Rightarrow>
           (case charge a x of
              (Some p, x') \<Rightarrow> (Limited p, looked + 1, x')
            | (None, x') \<Rightarrow> (Authed a, looked + 1, x')))"

definition bearer_auth ::
  "limits_of \<Rightarrow> 's counter \<Rightarrow> token_env \<Rightarrow> time \<Rightarrow> accounts_db \<Rightarrow> string \<Rightarrow> nat \<times> 's http_exchange
     \<Rightarrow> api_token auth_result \<times> nat \<times> 's http_exchange" where
  "bearer_auth lm ct env now d bearer =
     guarded_auth lm ct (authenticate env now bearer d) (\<lambda>t. charge_workspace lm ct (tok_workspace t))"

section \<open>The middleware\<close>

record web_request =
  wr_method :: string
  wr_path :: string
  wr_ip :: string

definition exempt :: "string \<Rightarrow> bool" where
  "exempt path \<longleftrightarrow> path = ''/healthz'' \<or> path = ''/readyz'' \<or> path = ''/metrics'' \<or> prefix ''/hooks/'' path"

definition human_route :: "string \<Rightarrow> string \<Rightarrow> string" where
  "human_route method' path =
     (if method' \<noteq> ''POST'' then ''''
      else if path = ''/site/auth/register'' then ''signup''
      else if prefix ''/site/invitations/'' path \<and> suffix ''/accept'' path then ''invitation-accept''
      else if prefix ''/site/confirmations/'' path \<and> CHR ''/'' \<notin> set (drop (length ''/site/confirmations/'') path) then ''consent-confirm''
      else '''')"

definition route_charges :: "web_request \<Rightarrow> (policy \<times> string) list" where
  "route_charges r =
     (let post = (wr_method r = ''POST''); path = wr_path r; ip = wr_ip r; route = human_route (wr_method r) path in
      (if post \<and> path = ''/site/auth/forgot-password'' then [(PolForgotIp, ip)] else []) @
      (if post \<and> (path = ''/site/auth/login'' \<or> path = ''/site/auth/second-factor'') then [(PolLoginIp, ''login|'' @ ip)] else []) @
      (if exempt path then []
       else (if prefix ''/collect/'' path then [(PolCollectIp, ip)] else []) @
            (if route \<noteq> '''' then [(PolHuman, ip @ ''|'' @ route)] else [])))"

definition limit_middleware :: "limits_of \<Rightarrow> 's counter \<Rightarrow> web_request \<Rightarrow> 's \<Rightarrow> policy option \<times> 's http_exchange" where
  "limit_middleware lm ct r s =
     (case reject_any lm ct (route_charges r) s of
        (over, s') \<Rightarrow> (over, \<lparr>ex_ip = wr_ip r, ex_charged = False, ex_state = s'\<rparr>))"

section \<open>What is never limited, and what is charged once\<close>

lemma charge_once_again:
  "charge_once lm ct ps x = (over, x') \<Longrightarrow> charge_once lm ct qs x' = (None, x')"
  by (auto simp: charge_once_def split: if_splits prod.splits)

lemma exempt_charges: "exempt (wr_path r) \<Longrightarrow> route_charges r = []"
  by (auto simp: exempt_def route_charges_def Let_def prefix_def)

text \<open>Probes, metrics and provider hooks are never limited and never counted, whatever policies are configured and
  however full every window is.\<close>

theorem operational_never_limited:
  assumes "exempt (wr_path r)"
  shows "limit_middleware lm ct r s = (None, \<lparr>ex_ip = wr_ip r, ex_charged = False, ex_state = s\<rparr>)"
  using exempt_charges [OF assms] by (simp add: limit_middleware_def)

text \<open>A client address that has spent its failed-authentication budget makes no further guess: no credential is
  looked at, whatever Bearer values it sends, and nothing is counted against any budget.\<close>

theorem spent_budget_stops_guessing:
  assumes "blocked lm ct PolFailedAuth (ex_ip x) (ex_state x)"
  shows "fold (\<lambda>bearer nx. snd (bearer_auth lm ct env now d bearer nx)) bearers (looked, x) = (looked, x)"
  using assms by (induction bearers) (simp_all add: bearer_auth_def guarded_auth_def)

text \<open>Authenticating once more in the same request charges nothing.\<close>

lemma bearer_auth_again:
  assumes "bearer_auth lm ct env now d bearer (n, x) = (Authed t, n', x')" and "\<not> blocked lm ct PolFailedAuth (ex_ip x') (ex_state x')"
  shows "bearer_auth lm ct env now d bearer (k, x') = (Authed t, k + 1, x')"
proof -
  obtain over where "authenticate env now bearer d = Some t" "charge_workspace lm ct (tok_workspace t) x = (over, x')"
    using assms(1) by (auto simp: bearer_auth_def guarded_auth_def split: if_splits option.splits prod.splits)
  then show ?thesis using assms(2) charge_once_again
    by (fastforce simp: bearer_auth_def guarded_auth_def charge_workspace_def)
qed

section \<open>Witnesses\<close>

definition full_counter :: "unit counter" where
  "full_counter = \<lparr>ct_hit = \<lambda>_ _ s. (True, s), ct_full = \<lambda>_ _ _. True\<rparr>"

lemma operational_never_limited_witness:
  "limit_middleware (\<lambda>_. 1) full_counter \<lparr>wr_method = ''POST'', wr_path = ''/hooks/ses'', wr_ip = ''10.0.0.1''\<rparr> () =
     (None, \<lparr>ex_ip = ''10.0.0.1'', ex_charged = False, ex_state = ()\<rparr>)"
  using operational_never_limited [of "\<lparr>wr_method = ''POST'', wr_path = ''/hooks/ses'', wr_ip = ''10.0.0.1''\<rparr>"]
  by (simp add: exempt_def)

lemma spent_budget_stops_guessing_witness:
  "\<forall>env. fold (\<lambda>bearer nx. snd (bearer_auth (\<lambda>_. 1) full_counter env 0 empty_accounts bearer nx)) [''a'', ''b''] (0, \<lparr>ex_ip = ''h'', ex_charged = False, ex_state = ()\<rparr>) =
     (0, \<lparr>ex_ip = ''h'', ex_charged = False, ex_state = ()\<rparr>)"
  by (intro allI spent_budget_stops_guessing) (simp add: blocked_def full_counter_def)

end
