(* ===== verification/Mcp.thy ===== *)
theory Mcp
  imports RateLimit
begin

text \<open>
  The MCP surface (\<open>internal/mcpserver\<close>): the Bearer check, the send lock, the in-process \<open>/api\<close> request a tool call
  becomes, and the marking of untrusted values in its result. The projection of the OpenAPI document onto operations is
  an argument (a list of operations), the \<open>/api\<close> handler a parameter. A JSON object is the list of its members; schema
  references may be cyclic, so \<open>wrap\<close> takes fuel and is \<open>None\<close> where the code would not return.
\<close>

section \<open>Operations\<close>

datatype location = InPath | InQuery | InHeader

record operation =
  op_name :: string
  op_method :: string
  op_path :: string
  op_params :: "(string \<times> location) list"
  op_has_body :: bool
  op_body_whole :: bool
  op_body_fields :: "string list"
  op_send :: bool

record api_request =
  rq_method :: string
  rq_path :: string
  rq_query :: "(string \<times> string list) list"
  rq_headers :: "(string \<times> string) list"
  rq_body :: "json option"
  rq_bearer :: string

section \<open>The request of a tool call\<close>

text \<open>\<open>url.PathEscape\<close>.\<close>

definition path_safe :: "char \<Rightarrow> bool" where
  "path_safe c \<longleftrightarrow> (let n = of_char c :: nat in (65 \<le> n \<and> n \<le> 90) \<or> (97 \<le> n \<and> n \<le> 122) \<or> (48 \<le> n \<and> n \<le> 57) \<or>
     c \<in> {CHR ''-'', CHR ''_'', CHR ''.'', CHR ''~'', CHR ''$'', CHR ''&'', CHR ''+'', CHR '':'', CHR ''='', CHR ''@''})"

definition upper_hex :: "nat \<Rightarrow> char" where
  "upper_hex n = char_of (if n < 10 then 48 + n else 55 + n)"

definition path_escape :: "string \<Rightarrow> string" where
  "path_escape s = concat (map (\<lambda>c. if path_safe c then [c]
     else let n = of_char c :: nat in [CHR ''%'', upper_hex (n div 16), upper_hex (n mod 16)]) s)"

text \<open>\<open>strings.ReplaceAll\<close> of a non-empty pattern.\<close>

function replace_all :: "string \<Rightarrow> string \<Rightarrow> string \<Rightarrow> string" where
  "replace_all pat new [] = []"
| "replace_all pat new (c # cs) =
     (if pat \<noteq> [] \<and> prefix pat (c # cs) then new @ replace_all pat new (drop (length pat) (c # cs))
      else c # replace_all pat new cs)"
  by pat_completeness auto
termination by (relation "measure (\<lambda>(_, _, s). length s)") auto

definition braced :: "string \<Rightarrow> string" where
  "braced name = ''{'' @ name @ ''}''"

text \<open>\<open>show\<close> is \<open>fmt.Sprint\<close> with the float formatting of \<open>scalar\<close>.\<close>

definition scalars :: "(json \<Rightarrow> string) \<Rightarrow> json \<Rightarrow> string list" where
  "scalars sc v = (case v of JArr vs \<Rightarrow> if vs = [] then [''''] else map sc vs | _ \<Rightarrow> [sc v])"

record building =
  bd_rest :: "(string \<times> json) list"
  bd_path :: string
  bd_query :: "(string \<times> string list) list"
  bd_headers :: "(string \<times> string) list"

fun place_params :: "(json \<Rightarrow> string) \<Rightarrow> (string \<times> location) list \<Rightarrow> building \<Rightarrow> building" where
  "place_params sc [] b = b"
| "place_params sc ((name, loc) # ps) b =
     (case map_of (bd_rest b) name of
        None \<Rightarrow> place_params sc ps b
      | Some v \<Rightarrow>
         if v = JNull then place_params sc ps b
         else
           (let b = b\<lparr>bd_rest := filter (\<lambda>(k, _). k \<noteq> name) (bd_rest b)\<rparr>; vals = scalars sc v in
            place_params sc ps (case loc of
                InPath \<Rightarrow> b\<lparr>bd_path := replace_all (braced name) (path_escape (hd vals)) (bd_path b)\<rparr>
              | InQuery \<Rightarrow> b\<lparr>bd_query := (name, vals) # filter (\<lambda>(k, _). k \<noteq> name) (bd_query b)\<rparr>
              | InHeader \<Rightarrow> b\<lparr>bd_headers := (name, hd vals) # filter (\<lambda>(k, _). k \<noteq> name) (bd_headers b)\<rparr>)))"

definition take_body :: "operation \<Rightarrow> (string \<times> json) list \<Rightarrow> json option \<times> (string \<times> json) list" where
  "take_body opr rest =
     (if \<not> op_has_body opr then (None, rest)
      else if op_body_whole opr then (map_of rest ''body'', filter (\<lambda>(k, _). k \<noteq> ''body'') rest)
      else (Some (JObj (filter (\<lambda>(k, _). k \<in> set (op_body_fields opr)) rest)),
            filter (\<lambda>(k, _). k \<notin> set (op_body_fields opr)) rest))"

datatype request_error = MissingPathArgument | UnknownArguments "string list"

definition tool_request :: "(json \<Rightarrow> string) \<Rightarrow> operation \<Rightarrow> (string \<times> json) list \<Rightarrow> string \<Rightarrow> request_error + api_request" where
  "tool_request sc opr args bearer =
     (let b = place_params sc (op_params opr) \<lparr>bd_rest = args, bd_path = op_path opr, bd_query = [], bd_headers = []\<rparr> in
      if CHR ''{'' \<in> set (bd_path b) then Inl MissingPathArgument
      else case take_body opr (bd_rest b) of
        (body, rest) \<Rightarrow>
          if rest \<noteq> [] then Inl (UnknownArguments (map fst rest))
          else Inr \<lparr>rq_method = op_method opr, rq_path = ''/api'' @ bd_path b, rq_query = bd_query b, rq_headers = bd_headers b,
                 rq_body = body, rq_bearer = bearer\<rparr>)"

section \<open>The Bearer check and the send lock\<close>

definition mcp_send_scope :: string where "mcp_send_scope = ''mcp:send''"

datatype tool_result = ToolText json | ToolError

datatype mcp_answer = McpUnauthorized | McpLimited policy | McpTools "string list" | McpResult tool_result

text \<open>\<open>header\<close> is the \<open>Authorization\<close> header; the token of a Bearer header.\<close>

definition bearer_of :: "string \<Rightarrow> string option" where
  "bearer_of header = (if prefix ''Bearer '' header then Some (drop (length ''Bearer '') header) else None)"

type_synonym 's mcp_auth = "string \<Rightarrow> nat \<times> 's http_exchange \<Rightarrow> api_token auth_result \<times> nat \<times> 's http_exchange"

definition can_send :: "'s mcp_auth \<Rightarrow> string \<Rightarrow> nat \<times> 's http_exchange \<Rightarrow> bool \<times> nat \<times> 's http_exchange" where
  "can_send auth header nx =
     (case bearer_of header of
        None \<Rightarrow> (False, nx)
      | Some token \<Rightarrow>
         (case auth token nx of
            (Authed t, nx') \<Rightarrow> (has_scope (Some t) mcp_send_scope, nx')
          | (_, nx') \<Rightarrow> (False, nx')))"

definition list_tools :: "'s mcp_auth \<Rightarrow> operation list \<Rightarrow> string \<Rightarrow> nat \<times> 's http_exchange \<Rightarrow> mcp_answer \<times> nat \<times> 's http_exchange" where
  "list_tools auth ops header nx =
     (case can_send auth header nx of
        (True, nx') \<Rightarrow> (McpTools (map op_name ops), nx')
      | (False, nx') \<Rightarrow> (McpTools (map op_name (filter (\<lambda>o'. \<not> op_send o') ops)), nx'))"

text \<open>A call dispatches at most one request to \<open>api\<close>, which answers the tool result; the third component is what
  was dispatched.\<close>

definition call_tool ::
  "'s mcp_auth \<Rightarrow> (json \<Rightarrow> string) \<Rightarrow> (api_request \<Rightarrow> nat \<times> 's http_exchange \<Rightarrow> tool_result \<times> nat \<times> 's http_exchange) \<Rightarrow> operation list
     \<Rightarrow> string \<Rightarrow> string \<Rightarrow> (string \<times> json) list \<Rightarrow> nat \<times> 's http_exchange \<Rightarrow> mcp_answer \<times> (nat \<times> 's http_exchange) \<times> api_request list" where
  "call_tool auth sc api ops header name args nx =
     (case List.find (\<lambda>o'. op_name o' = name) ops of
        None \<Rightarrow> (McpResult ToolError, nx, [])
      | Some opr \<Rightarrow>
         (let (allowed, nx) = (if op_send opr then can_send auth header nx else (True, nx)) in
          if \<not> allowed then (McpResult ToolError, nx, [])
          else case tool_request sc opr args header of
            Inl _ \<Rightarrow> (McpResult ToolError, nx, [])
          | Inr r \<Rightarrow> (case api r nx of (res, nx') \<Rightarrow> (McpResult res, nx', [r]))))"

datatype mcp_method = ListTools | CallTool string "(string \<times> json) list"

definition mcp_serve ::
  "'s mcp_auth \<Rightarrow> (json \<Rightarrow> string) \<Rightarrow> (api_request \<Rightarrow> nat \<times> 's http_exchange \<Rightarrow> tool_result \<times> nat \<times> 's http_exchange) \<Rightarrow> operation list
     \<Rightarrow> string \<Rightarrow> mcp_method \<Rightarrow> nat \<times> 's http_exchange \<Rightarrow> mcp_answer \<times> (nat \<times> 's http_exchange) \<times> api_request list" where
  "mcp_serve auth sc api ops header m nx =
     (case bearer_of header of
        None \<Rightarrow> (McpUnauthorized, nx, [])
      | Some token \<Rightarrow>
         if token = '''' then (McpUnauthorized, nx, [])
         else (case auth token nx of
            (Limited p, nx') \<Rightarrow> (McpLimited p, nx', [])
          | (Unauthorized, nx') \<Rightarrow> (McpUnauthorized, nx', [])
          | (Authed _, nx') \<Rightarrow>
             (case m of
                ListTools \<Rightarrow> (case list_tools auth ops header nx' of (a, nx'') \<Rightarrow> (a, nx'', []))
              | CallTool name args \<Rightarrow> call_tool auth sc api ops header name args nx')))"

section \<open>Marking untrusted values\<close>

definition untrusted_key :: string where "untrusted_key = ''untrusted_data''"
definition untrusted_extension :: string where "untrusted_extension = ''x-untrusted''"
definition schema_ref_prefix :: string where "schema_ref_prefix = ''#/components/schemas/''"

type_synonym schema = "(string \<times> json) list"

definition as_object :: "json option \<Rightarrow> schema option" where
  "as_object v = (case v of Some (JObj fs) \<Rightarrow> Some fs | _ \<Rightarrow> None)"

definition as_array :: "json option \<Rightarrow> json list" where
  "as_array v = (case v of Some (JArr vs) \<Rightarrow> vs | _ \<Rightarrow> [])"

definition ref_of :: "schema \<Rightarrow> string option" where
  "ref_of sch = (case map_of sch ''$ref'' of Some (JStr r) \<Rightarrow> Some r | _ \<Rightarrow> None)"

definition resolve_ref :: "schema \<Rightarrow> string \<Rightarrow> schema option" where
  "resolve_ref schemas r =
     as_object (map_of schemas (if prefix schema_ref_prefix r then drop (length schema_ref_prefix) r else r))"

definition marked :: "schema \<Rightarrow> bool" where
  "marked sch \<longleftrightarrow> map_of sch untrusted_extension = Some (JBool True)"

definition variants_of :: "schema \<Rightarrow> schema option list" where
  "variants_of sch = map (\<lambda>v. as_object (Some v))
     (as_array (map_of sch ''allOf'') @ as_array (map_of sch ''oneOf'') @ as_array (map_of sch ''anyOf''))"

definition member_schema :: "schema \<Rightarrow> string \<Rightarrow> schema option" where
  "member_schema sch k =
     (case as_object (Option.bind (as_object (map_of sch ''properties'')) (\<lambda>props. map_of props k)) of
        Some p \<Rightarrow> Some p
      | None \<Rightarrow> as_object (map_of sch ''additionalProperties''))"

definition items_schema :: "schema \<Rightarrow> schema option" where
  "items_schema sch = as_object (map_of sch ''items'')"

fun wrap_variants :: "(json \<Rightarrow> schema option \<Rightarrow> json option) \<Rightarrow> schema option list \<Rightarrow> json \<Rightarrow> json option" where
  "wrap_variants rec [] v = Some v"
| "wrap_variants rec (s # ss) v = Option.bind (rec v s) (wrap_variants rec ss)"

fun wrap_members :: "(json \<Rightarrow> schema option \<Rightarrow> json option) \<Rightarrow> schema \<Rightarrow> (string \<times> json) list \<Rightarrow> (string \<times> json) list option" where
  "wrap_members rec sch [] = Some []"
| "wrap_members rec sch ((k, x) # fs) =
     Option.bind (rec x (member_schema sch k)) (\<lambda>y. map_option (\<lambda>gs. (k, y) # gs) (wrap_members rec sch fs))"

fun wrap_items :: "(json \<Rightarrow> schema option \<Rightarrow> json option) \<Rightarrow> schema \<Rightarrow> json list \<Rightarrow> json list option" where
  "wrap_items rec sch [] = Some []"
| "wrap_items rec sch (x # xs) =
     Option.bind (rec x (items_schema sch)) (\<lambda>y. map_option (\<lambda>ys. y # ys) (wrap_items rec sch xs))"

fun wrap_children :: "(json \<Rightarrow> schema option \<Rightarrow> json option) \<Rightarrow> schema \<Rightarrow> json \<Rightarrow> json option" where
  "wrap_children rec sch (JObj fs) = map_option JObj (wrap_members rec sch fs)"
| "wrap_children rec sch (JArr xs) = map_option JArr (wrap_items rec sch xs)"
| "wrap_children rec sch v = Some v"

definition wrap_step :: "schema \<Rightarrow> (json \<Rightarrow> schema option \<Rightarrow> json option) \<Rightarrow> json \<Rightarrow> schema option \<Rightarrow> json option" where
  "wrap_step schemas rec v s =
     (case s of
        None \<Rightarrow> Some v
      | Some sch \<Rightarrow>
         if v = JNull then Some v
         else case ref_of sch of
           Some r \<Rightarrow> rec v (resolve_ref schemas r)
         | None \<Rightarrow>
             if marked sch then Some (JObj [(untrusted_key, v)])
             else Option.bind (wrap_variants rec (variants_of sch) v) (wrap_children rec sch))"

primrec wrap :: "schema \<Rightarrow> nat \<Rightarrow> json \<Rightarrow> schema option \<Rightarrow> json option" where
  "wrap schemas 0 = (\<lambda>v s. None)"
| "wrap schemas (Suc n) = wrap_step schemas (wrap schemas n)"


section \<open>A path argument stays in its segment\<close>

lemma count_replace_all:
  "c \<notin> set pat \<Longrightarrow> c \<notin> set new \<Longrightarrow> count_list (replace_all pat new s) c = count_list s c"
proof (induction pat new s rule: replace_all.induct)
  case (2 pat new x xs)
  have none: "count_list pat c = 0" "count_list new c = 0" using 2 by (simp_all add: count_list_0_iff)
  show ?case
  proof (cases "pat \<noteq> [] \<and> prefix pat (x # xs)")
    case True
    then obtain rest where r: "x # xs = pat @ rest" by (auto simp: prefix_def)
    then have "drop (length pat) (x # xs) = rest" by (metis append_eq_conv_conj)
    moreover from this have "count_list (replace_all pat new rest) c = count_list rest c" using 2 True by metis
    moreover have "count_list (x # xs) c = count_list rest c" using none by (simp only: r count_list_append)
    ultimately show ?thesis using True none by simp
  qed (use 2 in auto)
qed simp

lemma hex_digit_cases: "n < 16 \<Longrightarrow> upper_hex n \<in> set ''0123456789ABCDEF''"
proof -
  have "list_all (\<lambda>n. upper_hex n \<in> set ''0123456789ABCDEF'') [0..<16]" by code_simp
  then show "n < 16 \<Longrightarrow> upper_hex n \<in> set ''0123456789ABCDEF''" by (simp add: list_all_iff)
qed

definition delimiter :: "char \<Rightarrow> bool" where
  "delimiter c \<longleftrightarrow> c \<in> set ''/?#{}''"

lemma delimiter_not_safe: "delimiter c \<Longrightarrow> \<not> path_safe c"
  by (auto simp: delimiter_def path_safe_def)

lemma delimiter_not_hex: "delimiter c \<Longrightarrow> c \<notin> set ''0123456789ABCDEF'' \<and> c \<noteq> CHR ''%''"
  by (auto simp: delimiter_def)

lemma path_escape_clean: "delimiter c \<Longrightarrow> c \<notin> set (path_escape s)"
proof -
  assume d: "delimiter c"
  have hex: "c \<noteq> upper_hex n" if "n < 16" for n
    using hex_digit_cases [OF that] delimiter_not_hex [OF d] by metis
  have div: "of_char x div 16 < (16 :: nat)" for x :: char
    using nat_of_char_less_256 [of x] by linarith
  have "c \<notin> set (if path_safe x then [x] else [CHR ''%'', upper_hex (of_char x div 16), upper_hex (of_char x mod 16)])" for x
    using hex [OF div] hex [of "of_char x mod 16"] delimiter_not_safe [OF d] delimiter_not_hex [OF d] by simp blast
  then show ?thesis unfolding path_escape_def Let_def set_concat set_map by blast
qed

lemma place_params_count:
  assumes "delimiter c" and "\<forall>(name, _) \<in> set ps. c \<notin> set (braced name)"
  shows "count_list (bd_path (place_params sc ps b)) c = count_list (bd_path b) c"
  using assms(2)
proof (induction ps arbitrary: b)
  case (Cons p ps)
  then show ?case
    by (cases p) (auto simp: Let_def count_replace_all path_escape_clean [OF assms(1)] split: option.split location.split)
qed simp


text \<open>The \<open>/api\<close> request of a tool call keeps the segments of the operation's path, whatever the arguments are: an
  argument adds no slash, no query and no fragment, so it reaches no other operation than the tool's.\<close>

theorem tool_path_keeps_segments:
  assumes "tool_request sc opr args bearer = Inr r" and "list_all (\<lambda>(name, _). set name \<inter> set ''/?#'' = {}) (op_params opr)"
  shows "count_list (rq_path r) CHR ''/'' = Suc (count_list (op_path opr) CHR ''/'') \<and>
    count_list (rq_path r) CHR ''?'' = count_list (op_path opr) CHR ''?'' \<and>
    count_list (rq_path r) CHR ''#'' = count_list (op_path opr) CHR ''#'' \<and>
    rq_method r = op_method opr \<and> rq_bearer r = bearer"
proof -
  let ?b = "place_params sc (op_params opr) \<lparr>bd_rest = args, bd_path = op_path opr, bd_query = [], bd_headers = []\<rparr>"
  have r: "rq_path r = ''/api'' @ bd_path ?b" "rq_method r = op_method opr" "rq_bearer r = bearer"
    using assms(1) by (auto simp: tool_request_def Let_def split: if_splits prod.splits)
  have "count_list (bd_path ?b) c = count_list (op_path opr) c" if "c \<in> set ''/?#''" for c
    using assms(2) that by (subst place_params_count [of c]) (auto simp: delimiter_def braced_def list_all_iff)
  then show ?thesis by (simp add: r)
qed

section \<open>The send lock\<close>

lemma find_operation: "List.find (\<lambda>o'. op_name o' = name) ops = Some opr \<Longrightarrow> opr \<in> set ops \<and> op_name opr = name"
  by (auto simp: find_Some_iff)

lemma bearer_auth_Authed:
  "bearer_auth lm ct env now d bearer nx = (Authed t, nx') \<Longrightarrow> authenticate env now bearer d = Some t"
  by (auto simp: bearer_auth_def guarded_auth_def split: if_splits option.splits prod.splits)

lemma can_send_bearer:
  "can_send (bearer_auth lm ct env now d) header nx = (True, nx') \<Longrightarrow>
     \<exists>token t. bearer_of header = Some token \<and> authenticate env now token d = Some t \<and> has_scope (Some t) mcp_send_scope"
  by (auto simp: can_send_def split: option.splits prod.splits auth_result.splits dest: bearer_auth_Authed)

lemma call_tool_dispatch:
  assumes "call_tool auth sc api ops header name args nx = (a, nx', reqs)" and "r \<in> set reqs"
  obtains opr where "opr \<in> set ops" "op_name opr = name" "tool_request sc opr args header = Inr r" "reqs = [r]"
    "op_send opr \<Longrightarrow> fst (can_send auth header nx)"
proof -
  have "\<exists>opr \<in> set ops. op_name opr = name \<and> tool_request sc opr args header = Inr r \<and> reqs = [r] \<and>
      (op_send opr \<longrightarrow> fst (can_send auth header nx))"
    using assms
    by (auto simp: call_tool_def Let_def split: option.splits if_splits prod.splits sum.splits dest: find_operation)
  then show ?thesis using that by blast
qed

lemma list_tools_hides:
  assumes "list_tools auth ops header nx = (McpTools names, nx')" and "name \<in> set names"
  obtains opr where "opr \<in> set ops" "op_name opr = name" "op_send opr \<Longrightarrow> fst (can_send auth header nx)"
proof -
  have "\<exists>opr \<in> set ops. op_name opr = name \<and> (op_send opr \<longrightarrow> fst (can_send auth header nx))"
    using assms by (auto simp: list_tools_def split: prod.splits bool.splits)
  then show ?thesis using that by blast
qed

text \<open>C28: The MCP surface does nothing its caller's token does not allow: without a token that authenticates no request is
  dispatched and no tool is listed; every dispatched request is the one of a published operation, carries the caller's
  own \<open>Authorization\<close> header, and is a send-class one only when that token carries \<open>mcp:send\<close>; and a send-class tool
  is listed under the same condition only.\<close>

theorem send_tools_locked:
  assumes "mcp_serve (bearer_auth lm ct env now d) sc api ops header m nx = (a, nx', reqs)"
    and "list_all (\<lambda>o'. op_send o' = sends (op_name o')) ops"
  shows "(\<forall>r \<in> set reqs. \<exists>token t opr name args. bearer_of header = Some token \<and> authenticate env now token d = Some t \<and>
           m = CallTool name args \<and> opr \<in> set ops \<and> op_name opr = name \<and> tool_request sc opr args header = Inr r \<and>
           reqs = [r] \<and> rq_bearer r = header \<and> (op_send opr \<longrightarrow> has_scope (Some t) mcp_send_scope)) \<and>
         (\<forall>names name. a = McpTools names \<and> name \<in> set names \<longrightarrow> (\<exists>token t. bearer_of header = Some token \<and>
           authenticate env now token d = Some t \<and> (sends name \<longrightarrow> has_scope (Some t) mcp_send_scope)))"
proof -
  have calls: "\<exists>token t opr name args. bearer_of header = Some token \<and> authenticate env now token d = Some t \<and>
           m = CallTool name args \<and> opr \<in> set ops \<and> op_name opr = name \<and> tool_request sc opr args header = Inr r \<and>
           reqs = [r] \<and> rq_bearer r = header \<and> (op_send opr \<longrightarrow> has_scope (Some t) mcp_send_scope)" if r: "r \<in> set reqs" for r
  proof -
    obtain token t nx1 name args where b: "bearer_of header = Some token" "bearer_auth lm ct env now d token nx = (Authed t, nx1)"
        "m = CallTool name args" "call_tool (bearer_auth lm ct env now d) sc api ops header name args nx1 = (a, nx', reqs)"
      using assms(1) r
      by (auto simp: mcp_serve_def split: option.splits if_splits prod.splits auth_result.splits mcp_method.splits)
    obtain opr where o: "opr \<in> set ops" "op_name opr = name" "tool_request sc opr args header = Inr r" "reqs = [r]"
        and send: "op_send opr \<Longrightarrow> fst (can_send (bearer_auth lm ct env now d) header nx1)"
      using call_tool_dispatch [OF b(4) r] by metis
    have "rq_bearer r = header"
      using o(3) by (auto simp: tool_request_def Let_def split: if_splits prod.splits)
    moreover have "authenticate env now token d = Some t" using b(2) by (rule bearer_auth_Authed)
    moreover from this have "op_send opr \<Longrightarrow> has_scope (Some t) mcp_send_scope"
      using send can_send_bearer b(1) by (metis option.inject prod.collapse)
    ultimately show ?thesis using b o by blast
  qed
  have lists: "\<exists>token t. bearer_of header = Some token \<and> authenticate env now token d = Some t \<and>
      (sends name \<longrightarrow> has_scope (Some t) mcp_send_scope)" if l: "a = McpTools names" "name \<in> set names" for names name
  proof -
    obtain token t nx1 where b: "bearer_of header = Some token" "bearer_auth lm ct env now d token nx = (Authed t, nx1)"
        "m = ListTools" "list_tools (bearer_auth lm ct env now d) ops header nx1 = (McpTools names, nx')"
      using assms(1) l
      by (auto simp: mcp_serve_def call_tool_def Let_def
               split: option.splits if_splits prod.splits auth_result.splits mcp_method.splits sum.splits)
    obtain opr where o: "opr \<in> set ops" "op_name opr = name"
        and send: "op_send opr \<Longrightarrow> fst (can_send (bearer_auth lm ct env now d) header nx1)"
      using list_tools_hides [OF b(4) l(2)] by metis
    have t: "authenticate env now token d = Some t" using b(2) by (rule bearer_auth_Authed)
    have "sends name \<Longrightarrow> op_send opr" using assms(2) o by (auto simp: list_all_iff)
    then have "sends name \<Longrightarrow> has_scope (Some t) mcp_send_scope"
      using send can_send_bearer b(1) t by (metis option.inject prod.collapse)
    then show ?thesis using b(1) t by blast
  qed
  from calls lists show ?thesis by blast
qed


section \<open>Every untrusted value is marked\<close>

text \<open>\<open>untrusted_path schemas sch p\<close>: the contract marks what a value of schema \<open>sch\<close> holds at \<open>p\<close> as untrusted.\<close>

datatype path_step = Key string | Idx nat

inductive untrusted_path :: "schema \<Rightarrow> schema \<Rightarrow> path_step list \<Rightarrow> bool" for schemas :: schema where
  up_ref: "ref_of sch = Some r \<Longrightarrow> resolve_ref schemas r = Some sch' \<Longrightarrow> untrusted_path schemas sch' p \<Longrightarrow> untrusted_path schemas sch p"
| up_mark: "ref_of sch = None \<Longrightarrow> marked sch \<Longrightarrow> untrusted_path schemas sch []"
| up_variant: "ref_of sch = None \<Longrightarrow> Some sch' \<in> set (variants_of sch) \<Longrightarrow> untrusted_path schemas sch' p \<Longrightarrow> untrusted_path schemas sch p"
| up_member: "ref_of sch = None \<Longrightarrow> member_schema sch k = Some sch' \<Longrightarrow> untrusted_path schemas sch' p
     \<Longrightarrow> untrusted_path schemas sch (Key k # p)"
| up_item: "ref_of sch = None \<Longrightarrow> items_schema sch = Some sch' \<Longrightarrow> untrusted_path schemas sch' p
     \<Longrightarrow> untrusted_path schemas sch (Idx i # p)"

fun value_at :: "json \<Rightarrow> path_step list \<Rightarrow> json option" where
  "value_at v [] = Some v"
| "value_at (JObj fs) (Key k # p) = Option.bind (map_of fs k) (\<lambda>x. value_at x p)"
| "value_at (JArr xs) (Idx i # p) = (if i < length xs then value_at (xs ! i) p else None)"
| "value_at _ _ = None"

definition present :: "json \<Rightarrow> path_step list \<Rightarrow> bool" where
  "present v p \<longleftrightarrow> (case value_at v p of None \<Rightarrow> False | Some x \<Rightarrow> x \<noteq> JNull)"

text \<open>\<open>guarded w p\<close>: on the way to \<open>p\<close> in \<open>w\<close> there is a marker object, so nothing of what was at \<open>p\<close> shows bare.\<close>

fun guarded :: "json \<Rightarrow> path_step list \<Rightarrow> bool" where
  "guarded (JObj fs) p =
     ((\<exists>x. fs = [(untrusted_key, x)]) \<or>
      (case p of Key k # q \<Rightarrow> (case map_of fs k of Some x \<Rightarrow> guarded x q | None \<Rightarrow> False) | _ \<Rightarrow> False))"
| "guarded (JArr xs) p = (case p of Idx i # q \<Rightarrow> i < length xs \<and> guarded (xs ! i) q | _ \<Rightarrow> False)"
| "guarded _ p = False"


lemma wrap_members_shape:
  assumes "wrap_members rec sch fs = Some gs"
  shows "map fst gs = map fst fs"
    and "map_of fs k = Some x \<Longrightarrow> \<exists>y. map_of gs k = Some y \<and> rec x (member_schema sch k) = Some y"
proof -
  have "map fst gs = map fst fs \<and>
      (map_of fs k = Some x \<longrightarrow> (\<exists>y. map_of gs k = Some y \<and> rec x (member_schema sch k) = Some y))"
    using assms by (induction rec sch fs arbitrary: gs rule: wrap_members.induct) (auto simp: bind_eq_Some_conv)
  then show "map fst gs = map fst fs" "map_of fs k = Some x \<Longrightarrow> \<exists>y. map_of gs k = Some y \<and> rec x (member_schema sch k) = Some y"
    by blast+
qed

lemma wrap_items_shape:
  "wrap_items rec sch xs = Some ys \<Longrightarrow> length ys = length xs \<and> (\<forall>i < length xs. rec (xs ! i) (items_schema sch) = Some (ys ! i))"
  by (induction rec sch xs arbitrary: ys rule: wrap_items.induct) (auto simp: bind_eq_Some_conv nth_Cons' less_Suc_eq_0_disj)

text \<open>What a marking step must preserve at every path.\<close>

definition keeps :: "(json \<Rightarrow> schema option \<Rightarrow> json option) \<Rightarrow> (json \<Rightarrow> path_step list \<Rightarrow> bool) \<Rightarrow> bool" where
  "keeps rec P \<longleftrightarrow> (\<forall>v s w p. rec v s = Some w \<longrightarrow> P v p \<longrightarrow> P w p)"

lemma keepsD: "keeps rec P \<Longrightarrow> rec v s = Some w \<Longrightarrow> P v p \<Longrightarrow> P w p"
  by (auto simp: keeps_def)

lemma keeps_variants: "keeps rec P \<Longrightarrow> wrap_variants rec ss v = Some w \<Longrightarrow> P v p \<Longrightarrow> P w p"
  by (induction ss arbitrary: v) (auto simp: bind_eq_Some_conv dest: keepsD)

lemma guarded_members:
  assumes "guarded (JObj fs) p" and "wrap_members rec sch fs = Some gs"
    and rec: "keeps rec guarded"
  shows "guarded (JObj gs) p"
proof (cases "\<exists>x. fs = [(untrusted_key, x)]")
  case True
  then show ?thesis using assms(2) by (auto simp: bind_eq_Some_conv)
next
  case False
  then obtain k q x where "p = Key k # q" "map_of fs k = Some x" "guarded x q"
    using assms(1) by (auto split: list.splits path_step.splits option.splits)
  moreover from this obtain y where "map_of gs k = Some y" "rec x (member_schema sch k) = Some y"
    using wrap_members_shape(2) [OF assms(2)] by blast
  ultimately show ?thesis using keepsD [OF rec] by auto
qed

lemma guarded_children:
  assumes "guarded v p" and "wrap_children rec sch v = Some w" and "keeps rec guarded"
  shows "guarded w p"
proof (cases v)
  case (JObj fs)
  then obtain gs where "wrap_members rec sch fs = Some gs" "w = JObj gs" using assms(2) by auto
  then show ?thesis using guarded_members [of fs p rec sch gs] assms(1,3) JObj by metis
next
  case (JArr xs)
  then obtain i q where "p = Idx i # q" "i < length xs" "guarded (xs ! i) q"
    using assms(1) by (auto split: list.splits path_step.splits)
  moreover obtain ys where "wrap_items rec sch xs = Some ys" "w = JArr ys" using JArr assms(2) by auto
  ultimately show ?thesis using wrap_items_shape [of rec sch xs ys] keepsD [OF assms(3)] by auto
qed (use assms in auto)

lemma wrap_step_cases:
  assumes "wrap_step schemas rec v (Some sch) = Some w" and "v \<noteq> JNull"
  obtains (Ref) r where "ref_of sch = Some r" "rec v (resolve_ref schemas r) = Some w"
  | (Mark) "ref_of sch = None" "marked sch" "w = JObj [(untrusted_key, v)]"
  | (Inside) u where "ref_of sch = None" "\<not> marked sch" "wrap_variants rec (variants_of sch) v = Some u"
      "wrap_children rec sch u = Some w"
  using assms by (auto simp: wrap_step_def bind_eq_Some_conv split: option.splits if_splits)

lemma wrap_step_same: "s = None \<or> v = JNull \<Longrightarrow> wrap_step schemas rec v s = Some v"
  by (auto simp: wrap_step_def split: option.splits)

lemma wrap_keeps_guarded: "keeps (wrap schemas n) guarded"
proof (induction n)
  case (Suc n)
  have "guarded w p" if w: "wrap schemas (Suc n) v s = Some w" and g: "guarded v p" for v s w p
  proof (cases s)
    case None
    then show ?thesis using w g by (simp add: wrap_step_same)
  next
    case (Some sch)
    have "v \<noteq> JNull" using g by auto
    with w Some have "wrap_step schemas (wrap schemas n) v (Some sch) = Some w" by simp
    then show ?thesis using \<open>v \<noteq> JNull\<close>
    proof (cases rule: wrap_step_cases)
      case (Inside u)
      then show ?thesis using guarded_children [OF keeps_variants [OF Suc Inside(3) g] Inside(4) Suc] by blast
    qed (use keepsD [OF Suc] g in auto)
  qed
  then show ?case unfolding keeps_def by blast
qed (simp add: keeps_def)

lemma present_simps:
  "present v [] \<longleftrightarrow> v \<noteq> JNull"
  "present v (Key k # p) \<longleftrightarrow> (\<exists>fs x. v = JObj fs \<and> map_of fs k = Some x \<and> present x p)"
  "present v (Idx i # p) \<longleftrightarrow> (\<exists>xs. v = JArr xs \<and> i < length xs \<and> present (xs ! i) p)"
  by (cases v; auto simp: present_def bind_eq_Some_conv split: option.splits)+

lemma guarded_not_null: "guarded v p \<Longrightarrow> v \<noteq> JNull"
  by auto

lemma present_not_null: "present v p \<Longrightarrow> v \<noteq> JNull"
  by (cases p; cases "hd p") (auto simp: present_simps)

definition kept_at :: "json \<Rightarrow> path_step list \<Rightarrow> bool" where
  "kept_at v p \<longleftrightarrow> present v p \<or> guarded v p"

lemma kept_children:
  assumes "present v p" and "wrap_children rec sch v = Some w"
    and "keeps rec kept_at"
  shows "kept_at w p"
proof (cases p)
  case Nil
  then show ?thesis using assms(1,2) by (cases v) (auto simp: kept_at_def present_simps)
next
  case (Cons st q)
  show ?thesis
  proof (cases st)
    case (Key k)
    then obtain fs x where fs: "v = JObj fs" "map_of fs k = Some x" "present x q"
      using assms(1) Cons by (auto simp: present_simps)
    then obtain gs where gs: "wrap_members rec sch fs = Some gs" "w = JObj gs" using assms(2) by auto
    obtain y where "map_of gs k = Some y" "rec x (member_schema sch k) = Some y"
      using wrap_members_shape(2) [OF gs(1) fs(2)] by blast
    moreover from this have "kept_at y q" using keepsD [OF assms(3)] fs(3) by (simp add: kept_at_def)
    ultimately show ?thesis using gs(2) Cons Key by (auto simp: kept_at_def present_simps)
  next
    case (Idx i)
    then obtain xs where xs: "v = JArr xs" "i < length xs" "present (xs ! i) q"
      using assms(1) Cons by (auto simp: present_simps)
    then obtain ys where "wrap_items rec sch xs = Some ys" "w = JArr ys" using assms(2) by auto
    moreover from this have len: "length ys = length xs" and y: "rec (xs ! i) (items_schema sch) = Some (ys ! i)"
      using wrap_items_shape [of rec sch xs ys] xs by auto
    moreover have "kept_at (ys ! i) q" using keepsD [OF assms(3) y] xs by (simp add: kept_at_def)
    ultimately show ?thesis using xs Cons Idx by (auto simp: kept_at_def present_simps)
  qed
qed

lemma wrap_keeps: "keeps (wrap schemas n) kept_at"
proof (induction n)
  case (Suc n)
  have "kept_at w p" if w: "wrap schemas (Suc n) v s = Some w" and g: "kept_at v p" for v s w p
  proof (cases s)
    case None
    then show ?thesis using w g by (simp add: wrap_step_same)
  next
    case (Some sch)
    have v: "v \<noteq> JNull" using g present_not_null by (auto simp: kept_at_def)
    with w Some have "wrap_step schemas (wrap schemas n) v (Some sch) = Some w" by simp
    then show ?thesis using v
    proof (cases rule: wrap_step_cases)
      case Ref
      then show ?thesis using keepsD [OF Suc] g by blast
    next
      case Mark
      then show ?thesis by (simp add: kept_at_def)
    next
      case (Inside u)
      have "kept_at u p" using keeps_variants [OF Suc Inside(3) g] .
      then show ?thesis using kept_children [OF _ Inside(4) Suc] guarded_children [OF _ Inside(4) wrap_keeps_guarded]
        unfolding kept_at_def by blast
    qed
  qed
  then show ?case unfolding keeps_def by blast
qed (simp add: keeps_def)

lemma kept_not_null: "kept_at v p \<Longrightarrow> v \<noteq> JNull"
  using present_not_null by (auto simp: kept_at_def)

lemma guarded_variant:
  assumes "wrap_variants (wrap schemas n) ss v = Some w" and "Some sch \<in> set ss" and "kept_at v p"
    and "\<And>v w. kept_at v p \<Longrightarrow> wrap schemas n v (Some sch) = Some w \<Longrightarrow> guarded w p"
  shows "guarded w p"
  using assms(1-3)
proof (induction ss arbitrary: v)
  case (Cons s ss)
  then obtain u where u: "wrap schemas n v s = Some u" "wrap_variants (wrap schemas n) ss u = Some w"
    by (auto simp: bind_eq_Some_conv)
  show ?case
  proof (cases "Some sch = s")
    case True
    then show ?thesis using assms(4) Cons.prems u keeps_variants [OF wrap_keeps_guarded] by metis
  next
    case False
    then have "Some sch \<in> set ss" using Cons.prems by auto
    then show ?thesis using Cons.IH [OF u(2)] keepsD [OF wrap_keeps u(1) Cons.prems(3)] by blast
  qed
qed simp

lemma wrap_guards:
  "untrusted_path schemas sch p \<Longrightarrow> kept_at v p \<Longrightarrow> wrap schemas n v (Some sch) = Some w \<Longrightarrow> guarded w p"
proof (induction arbitrary: n v w rule: untrusted_path.induct)
  case (up_ref sch r sch' p)
  obtain m where n: "n = Suc m" using up_ref by (cases n) auto
  then have "wrap schemas m v (Some sch') = Some w"
    using up_ref kept_not_null [OF up_ref(5)] by (simp add: wrap_step_def)
  then show ?case using up_ref by blast
next
  case (up_mark sch)
  obtain m where n: "n = Suc m" using up_mark by (cases n) auto
  then have "w = JObj [(untrusted_key, v)]"
    using up_mark kept_not_null [OF up_mark(3)] by (simp add: wrap_step_def)
  then show ?case by simp
next
  case (up_variant sch sch' p)
  obtain m where n: "n = Suc m" using up_variant by (cases n) auto
  have v: "v \<noteq> JNull" using up_variant.prems(1) by (rule kept_not_null)
  from up_variant.prems(2) n have "wrap_step schemas (wrap schemas m) v (Some sch) = Some w" by simp
  then show ?case using v
  proof (cases rule: wrap_step_cases)
    case (Inside u)
    have "guarded u p" using guarded_variant [OF Inside(3) up_variant.hyps(2) up_variant.prems(1)] up_variant.IH by blast
    then show ?thesis using guarded_children [OF _ Inside(4) wrap_keeps_guarded] by blast
  qed (use up_variant in auto)
next
  case (up_member sch k sch' p)
  obtain m where n: "n = Suc m" using up_member by (cases n) auto
  have v: "v \<noteq> JNull" using up_member.prems(1) by (rule kept_not_null)
  from up_member.prems(2) n have "wrap_step schemas (wrap schemas m) v (Some sch) = Some w" by simp
  then show ?case using v
  proof (cases rule: wrap_step_cases)
    case (Inside u)
    have "kept_at u (Key k # p)" using keeps_variants [OF wrap_keeps Inside(3) up_member.prems(1)] by blast
    then show ?thesis
    proof (cases "guarded u (Key k # p)")
      case False
      with \<open>kept_at u (Key k # p)\<close> obtain fs x where u: "u = JObj fs" "map_of fs k = Some x" "present x p"
        by (auto simp: kept_at_def present_simps)
      then obtain gs where gs: "wrap_members (wrap schemas m) sch fs = Some gs" "w = JObj gs" using Inside(4) by auto
      then obtain y where y: "map_of gs k = Some y" "wrap schemas m x (Some sch') = Some y"
        using wrap_members_shape(2) [OF gs(1) u(2)] up_member(2) by auto
      have "kept_at x p" using u(3) by (simp add: kept_at_def)
      then have "guarded y p" using up_member.IH y(2) by blast
      then show ?thesis using gs y by simp
    qed (use guarded_children [OF _ Inside(4) wrap_keeps_guarded] in blast)
  qed (use up_member in auto)
next
  case (up_item sch sch' p i)
  obtain m where n: "n = Suc m" using up_item by (cases n) auto
  have v: "v \<noteq> JNull" using up_item.prems(1) by (rule kept_not_null)
  from up_item.prems(2) n have "wrap_step schemas (wrap schemas m) v (Some sch) = Some w" by simp
  then show ?case using v
  proof (cases rule: wrap_step_cases)
    case (Inside u)
    have "kept_at u (Idx i # p)" using keeps_variants [OF wrap_keeps Inside(3) up_item.prems(1)] by blast
    then show ?thesis
    proof (cases "guarded u (Idx i # p)")
      case False
      with \<open>kept_at u (Idx i # p)\<close> obtain xs where u: "u = JArr xs" "i < length xs" "present (xs ! i) p"
        by (auto simp: kept_at_def present_simps)
      then obtain ys where ys: "wrap_items (wrap schemas m) sch xs = Some ys" "w = JArr ys" using Inside(4) by auto
      then have "length ys = length xs" "wrap schemas m (xs ! i) (Some sch') = Some (ys ! i)"
        using wrap_items_shape [OF ys(1)] up_item(2) u(2) by auto
      moreover have "kept_at (xs ! i) p" using u(3) by (simp add: kept_at_def)
      ultimately show ?thesis using up_item.IH u ys by auto
    qed (use guarded_children [OF _ Inside(4) wrap_keeps_guarded] in blast)
  qed (use up_item in auto)
qed


text \<open>A contract without cycles: schemas closed under what they refer to, with a rank that falls on the way. Then \<open>wrap\<close>
  returns.\<close>

inductive schema_edge :: "schema \<Rightarrow> schema \<Rightarrow> schema \<Rightarrow> bool" for schemas sch where
  "ref_of sch = Some r \<Longrightarrow> resolve_ref schemas r = Some s \<Longrightarrow> schema_edge schemas sch s"
| "Some s \<in> set (variants_of sch) \<Longrightarrow> schema_edge schemas sch s"
| "member_schema sch k = Some s \<Longrightarrow> schema_edge schemas sch s"
| "items_schema sch = Some s \<Longrightarrow> schema_edge schemas sch s"

definition ranked :: "schema \<Rightarrow> schema set \<Rightarrow> (schema \<Rightarrow> nat) \<Rightarrow> bool" where
  "ranked schemas S rank \<longleftrightarrow> (\<forall>sch \<in> S. \<forall>s. schema_edge schemas sch s \<longrightarrow> s \<in> S \<and> rank s < rank sch)"

lemma wrap_None [simp]: "0 < n \<Longrightarrow> wrap schemas n v None = Some v"
  by (cases n) (simp_all add: wrap_step_def)

lemma variants_return:
  "(\<And>v s. s \<in> set ss \<Longrightarrow> \<exists>w. rec v s = Some w) \<Longrightarrow> \<exists>w. wrap_variants rec ss v = Some w"
proof (induction ss arbitrary: v)
  case (Cons s ss)
  obtain u where "rec v s = Some u" using Cons.prems by fastforce
  moreover obtain w where "wrap_variants rec ss u = Some w" using Cons by fastforce
  ultimately show ?case by simp
qed simp

lemma children_return:
  assumes "\<And>x k. \<exists>y. rec x (member_schema sch k) = Some y" and "\<And>x. \<exists>y. rec x (items_schema sch) = Some y"
  shows "\<exists>w. wrap_children rec sch v = Some w"
proof (cases v)
  case (JArr xs)
  have "\<exists>ys. wrap_items rec sch xs = Some ys"
  proof (induction xs)
    case (Cons x xs)
    then show ?case using assms(2) [of x] by auto
  qed simp
  then show ?thesis using JArr by auto
next
  case (JObj fs)
  have "\<exists>gs. wrap_members rec sch fs = Some gs"
  proof (induction fs)
    case (Cons f fs)
    then show ?case using assms(1) [of "Product_Type.snd f" "fst f"] by (cases f) auto
  qed simp
  then show ?thesis using JObj by auto
qed auto

lemma wrap_returns:
  assumes "ranked schemas S rank" and "sch \<in> S" and "rank sch + 1 < n"
  shows "\<exists>w. wrap schemas n v (Some sch) = Some w"
  using assms(2,3)
proof (induction n arbitrary: v sch)
  case (Suc n)
  have IH: "\<exists>w. wrap schemas n v s = Some w" if "\<And>s'. s = Some s' \<Longrightarrow> schema_edge schemas sch s'" for v s
  proof (cases s)
    case None
    then show ?thesis using Suc.prems by simp
  next
    case (Some s')
    then have "s' \<in> S" "rank s' < rank sch" using that assms(1) Suc.prems by (auto simp: ranked_def)
    then show ?thesis using Suc Some by simp
  qed
  have "\<exists>u. wrap_variants (wrap schemas n) (variants_of sch) v = Some u" for v
    by (intro variants_return IH) (auto intro: schema_edge.intros)
  moreover have "\<exists>w. wrap_children (wrap schemas n) sch u = Some w" for u
    by (intro children_return IH) (auto intro: schema_edge.intros)
  moreover have "\<exists>w. wrap schemas n v (resolve_ref schemas r) = Some w" if "ref_of sch = Some r" for v r
    by (intro IH) (use that in \<open>auto intro: schema_edge.intros\<close>)
  ultimately show ?case
    by (auto simp: wrap_step_def split: option.splits) (metis bind.bind_lunit)
qed simp

text \<open>C27: Over a contract without cycles the marking of a tool result returns, and every value that is present and not null
  at a path the contract declares untrusted, through references, compositions, members, additional members and
  items, stands inside a marker object in what is sent.\<close>

theorem untrusted_is_marked:
  assumes "ranked schemas S rank" and "sch \<in> S" and "rank sch + 1 < n" and "untrusted_path schemas sch p" and "present v p"
  shows "\<exists>w. wrap schemas n v (Some sch) = Some w \<and> guarded w p"
proof -
  obtain w where "wrap schemas n v (Some sch) = Some w" using wrap_returns [OF assms(1-3)] by blast
  moreover have "kept_at v p" using assms(5) by (simp add: kept_at_def)
  ultimately show ?thesis using wrap_guards [OF assms(4)] by blast
qed

section \<open>Witnesses\<close>

definition send_operation :: operation where
  "send_operation = \<lparr>op_name = ''sendBroadcast'', op_method = ''POST'', op_path = ''/broadcasts/{id}/send'',
     op_params = [(''id'', InPath)], op_has_body = False, op_body_whole = False, op_body_fields = [], op_send = True\<rparr>"

definition text_of_json :: "json \<Rightarrow> string" where
  "text_of_json v = (case v of JStr s \<Rightarrow> s | _ \<Rightarrow> ''0'')"

lemma tool_request_demo:
  "tool_request text_of_json send_operation [(''id'', JStr ''../?{id}'')] ''h'' =
     Inr \<lparr>rq_method = ''POST'', rq_path = ''/api/broadcasts/..%2F%3F%7Bid%7D/send'', rq_query = [], rq_headers = [],
       rq_body = None, rq_bearer = ''h''\<rparr>"
  by code_simp

lemma tool_path_keeps_segments_witness:
  "count_list ''/api/broadcasts/..%2F%3F%7Bid%7D/send'' CHR ''/'' = Suc (count_list (op_path send_operation) CHR ''/'')"
  using tool_path_keeps_segments [OF tool_request_demo]
  by (simp add: send_operation_def)


definition mcp_token :: api_token where
  "mcp_token = \<lparr>tok_id = 7, tok_workspace = 1, tok_name = ''n'', tok_prefix = ''p'', tok_secret_hash = ''$s'',
     tok_scopes = [''broadcasts:send'', ''mcp:send''], tok_expires_at = None, tok_revoked_at = None\<rparr>"

definition mcp_db :: accounts_db where
  "mcp_db = empty_accounts\<lparr>api_tokens := [mcp_token]\<rparr>"

definition mcp_tokens :: token_env where
  "mcp_tokens = \<lparr>token_hash = \<lambda>s. CHR ''$'' # s, token_matches = \<lambda>s h. h = CHR ''$'' # s\<rparr>"

definition mcp_run :: "string \<Rightarrow> mcp_answer \<times> (nat \<times> unit http_exchange) \<times> api_request list" where
  "mcp_run header = mcp_serve (bearer_auth (\<lambda>_. 0) \<lparr>ct_hit = \<lambda>_ _ s. (False, s), ct_full = \<lambda>_ _ _. False\<rparr> mcp_tokens 5 mcp_db)
     text_of_json (\<lambda>r nx. (ToolText JNull, nx)) [send_operation] header (CallTool ''sendBroadcast'' [(''id'', JStr ''5'')])
     (0, \<lparr>ex_ip = ''h'', ex_charged = False, ex_state = ()\<rparr>)"

lemma mcp_run_dispatches:
  "snd (snd (mcp_run ''Bearer omtk_p_s'')) \<noteq> [] \<and> snd (snd (mcp_run ''Bearer omtk_p_t'')) = []"
  by code_simp

lemma send_tools_locked_witness:
  "\<exists>token t. bearer_of ''Bearer omtk_p_s'' = Some token \<and> authenticate mcp_tokens 5 token mcp_db = Some t \<and>
     has_scope (Some t) mcp_send_scope"
proof -
  obtain a nx reqs where r: "mcp_run ''Bearer omtk_p_s'' = (a, nx, reqs)" by (metis prod.exhaust)
  then have "reqs \<noteq> []" using mcp_run_dispatches by simp
  then have "hd reqs \<in> set reqs" by simp
  with send_tools_locked [OF r [unfolded mcp_run_def], of "\<lambda>_. True"]
  show ?thesis by (auto simp: send_operation_def)
qed

text \<open>A contract of one component, reached through a reference, whose name and additional members are untrusted.\<close>

definition contact_schema :: schema where
  "contact_schema = [(''properties'', JObj [(''id'', JObj []), (''name'', JObj [(untrusted_extension, JBool True)])])]"

definition contract_schemas :: schema where
  "contract_schemas = [(''Contact'', JObj contact_schema)]"

definition list_schema :: schema where
  "list_schema = [(''items'', JObj [(''$ref'', JStr ''#/components/schemas/Contact'')])]"


definition ref_schema :: schema where
  "ref_schema = [(''$ref'', JStr ''#/components/schemas/Contact'')]"

definition name_schema :: schema where
  "name_schema = [(untrusted_extension, JBool True)]"

definition demo_rank :: "schema \<Rightarrow> nat" where
  "demo_rank s = (if s = list_schema then 3 else if s = ref_schema then 2 else if s = contact_schema then 1 else 0)"

lemmas demo_schema_defs =
  list_schema_def ref_schema_def contact_schema_def name_schema_def contract_schemas_def untrusted_extension_def
  ref_of_def resolve_ref_def as_object_def as_array_def variants_of_def member_schema_def items_schema_def schema_ref_prefix_def

lemma demo_ranked: "ranked contract_schemas {list_schema, ref_schema, contact_schema, name_schema, []} demo_rank"
  by (auto simp: ranked_def schema_edge.simps demo_schema_defs demo_rank_def bind_eq_Some_conv split: if_splits)

lemma demo_refs:
  "ref_of ref_schema = Some ''#/components/schemas/Contact''"
  "resolve_ref contract_schemas ''#/components/schemas/Contact'' = Some contact_schema"
  by code_simp+

lemma untrusted_is_marked_witness:
  "\<exists>w. wrap contract_schemas 5 (JArr [JObj [(''id'', JNum 1), (''name'', JStr ''Eve'')]]) (Some list_schema) = Some w \<and>
     guarded w [Idx 0, Key ''name'']"
proof (rule untrusted_is_marked [OF demo_ranked])
  have "untrusted_path contract_schemas name_schema []"
    by (rule up_mark) (simp_all add: demo_schema_defs marked_def)
  then have "untrusted_path contract_schemas contact_schema [Key ''name'']"
    by (rule up_member [rotated 2]) (simp_all add: demo_schema_defs)
  then have "untrusted_path contract_schemas ref_schema [Key ''name'']"
    by (rule up_ref [OF demo_refs])
  then show "untrusted_path contract_schemas list_schema [Idx 0, Key ''name'']"
    by (rule up_item [rotated 2]) (simp_all add: demo_schema_defs)
qed (simp_all add: demo_rank_def present_simps)

lemma wrap_demo:
  "wrap contract_schemas 5 (JArr [JObj [(''id'', JNum 1), (''name'', JStr ''Eve'')]]) (Some list_schema) =
     Some (JArr [JObj [(''id'', JNum 1), (''name'', JObj [(untrusted_key, JStr ''Eve'')])]])"
  by code_simp

end
