(* ===== verification/ExternalApi.thy ===== *)
theory ExternalApi
  imports ErasureSafety AutomationJobs Domains Integrations OAuth
begin

text \<open>
  The external API (\<open>internal/api/external\<close>) with the Template module (\<open>internal/templates\<close>): what each operation
  asks of the token, calls and answers. A request is decoded already; a path id is still the text the client sent.
  The answer carries the row the handler renders. The state is the database with the wire, river's job table, the queue
  \<open>'q\<close> of the Broadcasts, the queued quota and domain checks, and the stores of Templates and Sending domains, each
  with ids of its own. The fresh random values of a call are its arguments.
\<close>

section \<open>Templates\<close>

record template =
  tpl_id :: id
  tpl_workspace :: id
  tpl_name :: string
  tpl_subject :: string
  tpl_body :: string

record template_store =
  tpl_rows :: "template list"
  next_template :: id

datatype template_error = TemplateNotFound | BlankName

definition template_row :: "id \<Rightarrow> id \<Rightarrow> template \<Rightarrow> bool" where
  "template_row ws i = in_ws tpl_workspace ws (\<lambda>t. tpl_id t = i)"

definition get_template :: "id \<Rightarrow> id \<Rightarrow> template_store \<Rightarrow> template option" where
  "get_template ws i st = find_where (template_row ws i) (tpl_rows st)"

definition create_template :: "id \<Rightarrow> string \<Rightarrow> string option \<Rightarrow> string option \<Rightarrow> template_store \<Rightarrow> template_error + template \<times> template_store" where
  "create_template ws name subject body st =
     (if name = '''' then Inl BlankName
      else let t = \<lparr>tpl_id = next_template st, tpl_workspace = ws, tpl_name = name,
             tpl_subject = from_ptr subject, tpl_body = from_ptr body\<rparr>
           in Inr (t, st\<lparr>tpl_rows := tpl_rows st @ [t], next_template := next_template st + 1\<rparr>))"

definition set_template :: "string option \<Rightarrow> string option \<Rightarrow> string option \<Rightarrow> template \<Rightarrow> template" where
  "set_template name subject body t =
     t\<lparr>tpl_name := (case name of None \<Rightarrow> tpl_name t | Some v \<Rightarrow> v),
       tpl_subject := (case subject of None \<Rightarrow> tpl_subject t | Some v \<Rightarrow> v),
       tpl_body := (case body of None \<Rightarrow> tpl_body t | Some v \<Rightarrow> v)\<rparr>"

text \<open>The name is validated before the UPDATE looks for the row.\<close>

definition update_template ::
  "id \<Rightarrow> id \<Rightarrow> string option \<Rightarrow> string option \<Rightarrow> string option \<Rightarrow> template_store \<Rightarrow> template_error + template \<times> template_store" where
  "update_template ws i name subject body st =
     (if name = Some '''' then Inl BlankName
      else case get_template ws i st of
        None \<Rightarrow> Inl TemplateNotFound
      | Some t \<Rightarrow> Inr (set_template name subject body t,
          st\<lparr>tpl_rows := update_where (template_row ws i) (set_template name subject body) (tpl_rows st)\<rparr>))"

definition delete_template :: "id \<Rightarrow> id \<Rightarrow> template_store \<Rightarrow> template_error + template_store" where
  "delete_template ws i st =
     (if get_template ws i st = None then Inl TemplateNotFound
      else Inr (st\<lparr>tpl_rows := delete_where (template_row ws i) (tpl_rows st)\<rparr>))"

section \<open>State, environment and answers\<close>

record 'q api_state =
  as_world :: world
  as_jobs :: "river_job list"
  as_queue :: 'q
  as_quota :: "id list"
  as_checks :: "id list"
  as_templates :: template_store
  as_domains :: domain_store

record 'q api_env =
  ap_outbound :: outbound_env
  ap_enqueue :: "'q enqueuer"
  ap_json :: sql_json
  ap_vault :: vault
  ap_parse_url :: "string \<Rightarrow> (string \<times> string) option"
  ap_seal :: "string \<Rightarrow> string"
  ap_unseal :: "string \<Rightarrow> string option"
  ap_licensed :: bool
  ap_is_ip :: "string \<Rightarrow> bool"
  ap_to_ascii :: "string \<Rightarrow> string option"

datatype api_body =
    NoBody | ContactBody contact | ContactsBody "contact list" | BatchBody "(contact_error + contact \<times> bool) list" | TagBody tag | TagsBody "tag list"
  | SegmentBody segment | CountBody nat | BroadcastBody broadcast | ReportBody report | AutomationBody automation
  | WebhookBody webhook_endpoint | SuppressionBody suppression | UnsubscribeBody unsubscribe | AcceptedBody "bool list"
  | MessageBody id outcome string | TemplateBody template | IntegrationBody integration | DomainBody domain_row

datatype api_answer =
    ApiOk api_body | ApiUnauthorized | ApiForbidden | ApiBadRequest | ApiNotFound | ApiGone | ApiConflict | ApiUnprocessable
  | ApiError

type_synonym 'q api_result = "api_answer \<times> 'q api_state"

definition state_db :: "'q api_state \<Rightarrow> db" where
  "state_db st = wd_db (as_world st)"

definition with_db :: "'q api_state \<Rightarrow> db \<Rightarrow> 'q api_state" where
  "with_db st d = st\<lparr>as_world := (as_world st)\<lparr>wd_db := d\<rparr>\<rparr>"

text \<open>The scope check each handler opens with, and \<open>parseEntityID\<close>.\<close>

definition scoped_as :: "string \<Rightarrow> api_token \<Rightarrow> (id \<Rightarrow> 'q api_state \<Rightarrow> 'q api_result) \<Rightarrow> 'q api_state \<Rightarrow> 'q api_result" where
  "scoped_as s t h st = (if has_scope (Some t) s then h (tok_workspace t) st else (ApiUnauthorized, st))"

definition with_id :: "string \<Rightarrow> (id \<Rightarrow> 'q api_state \<Rightarrow> 'q api_result) \<Rightarrow> 'q api_state \<Rightarrow> 'q api_result" where
  "with_id raw h st = (case parse_int64 raw of None \<Rightarrow> (ApiBadRequest, st) | Some i \<Rightarrow> h i st)"

definition on_db :: "('e \<Rightarrow> api_answer) \<Rightarrow> ('a \<Rightarrow> api_body) \<Rightarrow> (db \<Rightarrow> ('e + 'a) \<times> db) \<Rightarrow> 'q api_state \<Rightarrow> 'q api_result" where
  "on_db fail body op' st =
     (case op' (state_db st) of (r, d) \<Rightarrow> (case r of Inl e \<Rightarrow> fail e | Inr x \<Rightarrow> ApiOk (body x), with_db st d))"

definition on_db_unit :: "('e \<Rightarrow> api_answer) \<Rightarrow> (db \<Rightarrow> 'e option \<times> db) \<Rightarrow> 'q api_state \<Rightarrow> 'q api_result" where
  "on_db_unit fail op' st =
     (case op' (state_db st) of (r, d) \<Rightarrow> (case r of Some e \<Rightarrow> fail e | None \<Rightarrow> ApiOk NoBody, with_db st d))"

definition reads :: "('e \<Rightarrow> api_answer) \<Rightarrow> ('a \<Rightarrow> api_body) \<Rightarrow> (db \<Rightarrow> 'e + 'a) \<Rightarrow> 'q api_state \<Rightarrow> 'q api_result" where
  "reads fail body op' st = (case op' (state_db st) of Inl e \<Rightarrow> fail e | Inr x \<Rightarrow> ApiOk (body x), st)"

definition found :: "('a \<Rightarrow> api_body) \<Rightarrow> (db \<Rightarrow> 'a option) \<Rightarrow> 'q api_state \<Rightarrow> 'q api_result" where
  "found body get st = (case get (state_db st) of None \<Rightarrow> ApiNotFound | Some x \<Rightarrow> ApiOk (body x), st)"

section \<open>Contacts, consent and Events\<close>

definition contact_answer :: "contact_error \<Rightarrow> api_answer" where
  "contact_answer e = (case e of Conflict _ \<Rightarrow> ApiConflict | ContactNotFound \<Rightarrow> ApiNotFound | _ \<Rightarrow> ApiError)"

definition api_contacts_create :: "time \<Rightarrow> attributes \<Rightarrow> api_token \<Rightarrow> 'q api_state \<Rightarrow> 'q api_result" where
  "api_contacts_create now attrs t = scoped_as ''contacts:write'' t (\<lambda>ws. on_db contact_answer ContactBody (contact_create now ws attrs))"

definition api_contacts_get :: "string \<Rightarrow> api_token \<Rightarrow> 'q api_state \<Rightarrow> 'q api_result" where
  "api_contacts_get raw t = scoped_as ''contacts:read'' t (\<lambda>ws. with_id raw (\<lambda>i. found ContactBody (get_contact ws i)))"

definition api_contacts_update :: "string \<Rightarrow> attributes \<Rightarrow> api_token \<Rightarrow> 'q api_state \<Rightarrow> 'q api_result" where
  "api_contacts_update raw attrs t =
     scoped_as ''contacts:write'' t (\<lambda>ws. with_id raw (\<lambda>i. on_db contact_answer ContactBody (contact_update ws i attrs)))"

definition token_operator :: "api_token \<Rightarrow> operator" where
  "token_operator t = \<lparr>op_kind = ''api_token'', op_id = tok_id t\<rparr>"

definition erase_as :: "time \<Rightarrow> api_token \<Rightarrow> subject_identifier \<Rightarrow> id \<Rightarrow> 'q api_state \<Rightarrow> 'q api_result" where
  "erase_as now t i ws st =
     (case erase now ws i (token_operator t) (state_db st, as_jobs st) of
        (r, d, jobs) \<Rightarrow>
          (case r of None \<Rightarrow> ApiOk NoBody | Some EraseNotFound \<Rightarrow> ApiNotFound | Some _ \<Rightarrow> ApiError,
           (with_db st d)\<lparr>as_jobs := jobs\<rparr>))"

definition api_contacts_delete :: "time \<Rightarrow> string \<Rightarrow> api_token \<Rightarrow> 'q api_state \<Rightarrow> 'q api_result" where
  "api_contacts_delete now raw t =
     scoped_as ''contacts:erase'' t (\<lambda>ws. with_id raw (\<lambda>i. erase_as now t (ByContactID i) ws))"

definition api_contacts_erase_by :: "time \<Rightarrow> string option \<Rightarrow> string option \<Rightarrow> api_token \<Rightarrow> 'q api_state \<Rightarrow> 'q api_result" where
  "api_contacts_erase_by now email vid t =
     scoped_as ''contacts:erase'' t (\<lambda>ws st.
       case (email, vid) of
         (Some e, None) \<Rightarrow> erase_as now t (by_email e) ws st
       | (None, Some v) \<Rightarrow> if v = '''' then (ApiBadRequest, st) else erase_as now t (by_visitor v) ws st
       | _ \<Rightarrow> (ApiBadRequest, st))"

definition token_actor :: "api_token \<Rightarrow> actor" where
  "token_actor t = \<lparr>actor_kind = ActorAPIToken, actor_id = show_int (tok_id t), actor_name = tok_name t\<rparr>"

definition api_contacts_batch_upsert :: "time \<Rightarrow> bool \<Rightarrow> attributes list \<Rightarrow> api_token \<Rightarrow> 'q api_state \<Rightarrow> 'q api_result" where
  "api_contacts_batch_upsert now entry_ok items t =
     scoped_as ''contacts:write'' t (\<lambda>ws st.
       case upsert_batch now ws (token_actor t) entry_ok items (state_db st) of (rs, d) \<Rightarrow> (ApiOk (BatchBody rs), with_db st d))"

definition tag_answer :: "tag_error \<Rightarrow> api_answer" where
  "tag_answer e = (case e of TagContactNotFound \<Rightarrow> ApiNotFound | TagInvalidName \<Rightarrow> ApiUnprocessable | TagNotSingular \<Rightarrow> ApiError)"

definition api_tags_list_for_contact :: "string \<Rightarrow> api_token \<Rightarrow> 'q api_state \<Rightarrow> 'q api_result" where
  "api_tags_list_for_contact raw t =
     scoped_as ''contacts:read'' t (\<lambda>ws. with_id raw (\<lambda>i. reads tag_answer TagsBody (tags_for_contact ws i)))"

definition api_tags_apply :: "string \<Rightarrow> string \<Rightarrow> api_token \<Rightarrow> 'q api_state \<Rightarrow> 'q api_result" where
  "api_tags_apply raw name t =
     scoped_as ''contacts:write'' t (\<lambda>ws. with_id raw (\<lambda>i. on_db tag_answer TagBody (apply_tag ws i name)))"

definition api_tags_remove :: "string \<Rightarrow> string \<Rightarrow> api_token \<Rightarrow> 'q api_state \<Rightarrow> 'q api_result" where
  "api_tags_remove raw name t =
     scoped_as ''contacts:write'' t (\<lambda>ws. with_id raw (\<lambda>i. on_db_unit tag_answer (remove_tag ws i name)))"

definition consent_answer :: "consent_error \<Rightarrow> api_answer" where
  "consent_answer e =
     (if e \<in> {ErrDestinationEmpty, ErrInvalidSource, ErrUnknownAutomation} then ApiUnprocessable else ApiError)"

definition api_suppressions_create :: "string \<Rightarrow> api_token \<Rightarrow> 'q api_state \<Rightarrow> 'q api_result" where
  "api_suppressions_create dest t =
     scoped_as ''contacts:write'' t (\<lambda>ws. on_db consent_answer SuppressionBody (suppress ws dest))"

definition api_unsubscribes_create :: "time \<Rightarrow> string \<Rightarrow> string option \<Rightarrow> api_token \<Rightarrow> 'q api_state \<Rightarrow> 'q api_result" where
  "api_unsubscribes_create now dest source t =
     scoped_as ''contacts:write'' t (\<lambda>ws. on_db consent_answer UnsubscribeBody
       (unsubscribe_destination now ws dest (case source of None \<Rightarrow> source_broadcasts | Some s \<Rightarrow> s)))"

definition api_events_create :: "time \<Rightarrow> event_input list \<Rightarrow> api_token \<Rightarrow> 'q api_state \<Rightarrow> 'q api_result" where
  "api_events_create now evs t =
     scoped_as ''events:write'' t (\<lambda>ws st. (ApiOk NoBody, with_db st (ingest now ws evs (state_db st))))"

definition api_events_batch_submit :: "time \<Rightarrow> event_input list \<Rightarrow> api_token \<Rightarrow> 'q api_state \<Rightarrow> 'q api_result" where
  "api_events_batch_submit now evs t =
     scoped_as ''events:write'' t (\<lambda>ws st. case ingest_each now ws evs (state_db st) of (rs, d) \<Rightarrow> (ApiOk (AcceptedBody rs), with_db st d))"


section \<open>Segments, Broadcasts and Automations\<close>

definition segment_answer :: "segment_module_error \<Rightarrow> api_answer" where
  "segment_answer e = (case e of InvalidDefinition _ \<Rightarrow> ApiUnprocessable | SegmentNotFound \<Rightarrow> ApiNotFound | _ \<Rightarrow> ApiError)"

definition api_segments_create :: "time \<Rightarrow> string \<Rightarrow> json_text \<Rightarrow> api_token \<Rightarrow> 'q api_state \<Rightarrow> 'q api_result" where
  "api_segments_create now name df t =
     scoped_as ''segments:write'' t (\<lambda>ws. on_db segment_answer SegmentBody (create_segment ws now name (Some df)))"

definition api_segments_get :: "string \<Rightarrow> api_token \<Rightarrow> 'q api_state \<Rightarrow> 'q api_result" where
  "api_segments_get raw t = scoped_as ''segments:read'' t (\<lambda>ws. with_id raw (\<lambda>i. found SegmentBody (get_segment ws i)))"

definition api_segments_update :: "time \<Rightarrow> string \<Rightarrow> string option \<Rightarrow> json_text option \<Rightarrow> api_token \<Rightarrow> 'q api_state \<Rightarrow> 'q api_result" where
  "api_segments_update now raw name df t =
     scoped_as ''segments:write'' t (\<lambda>ws. with_id raw (\<lambda>i. on_db segment_answer SegmentBody (update_segment ws now i name df)))"

definition delete_segment :: "id \<Rightarrow> id \<Rightarrow> db \<Rightarrow> segment_module_error option \<times> db" where
  "delete_segment ws i d =
     (if get_segment ws i d = None then (Some SegmentNotFound, d)
      else (None, d\<lparr>segments := delete_where (in_ws seg_workspace ws (\<lambda>s. seg_id s = i)) (segments d)\<rparr>))"

definition api_segments_delete :: "string \<Rightarrow> api_token \<Rightarrow> 'q api_state \<Rightarrow> 'q api_result" where
  "api_segments_delete raw t =
     scoped_as ''segments:write'' t (\<lambda>ws. with_id raw (\<lambda>i. on_db_unit segment_answer (delete_segment ws i)))"

definition api_segments_preview :: "sql_json \<Rightarrow> time \<Rightarrow> json_text \<Rightarrow> api_token \<Rightarrow> 'q api_state \<Rightarrow> 'q api_result" where
  "api_segments_preview sj now df t =
     scoped_as ''segments:read'' t (\<lambda>ws. reads segment_answer CountBody (preview_segment sj ws now df))"

definition broadcast_answer_of :: "broadcast_error \<Rightarrow> api_answer" where
  "broadcast_answer_of e =
     (if e = BroadcastNotFound then ApiNotFound
      else if e \<in> {NotSendable, NotScheduled, NotDraft, AudienceNotFound} then ApiUnprocessable else ApiError)"

text \<open>The contract offers the name, the subject, the sender and the body; an explicit null is an absent field.\<close>

record draft_input =
  di_name :: "string option"
  di_subject :: "string option"
  di_from_name :: "string option"
  di_from_email :: "string option"
  di_body :: "string option"

definition draft_fields :: "draft_input \<Rightarrow> broadcast_fields" where
  "draft_fields i =
     \<lparr>bf_name = di_name i, bf_subject = di_subject i, bf_from_name = di_from_name i, bf_from_email = di_from_email i,
      bf_body = di_body i, bf_segment = None, bf_integration = None, bf_clear_from_name = False,
      bf_clear_from_email = False, bf_clear_segment = False, bf_clear_integration = False\<rparr>"

definition api_broadcasts_create :: "string \<Rightarrow> draft_input \<Rightarrow> api_token \<Rightarrow> 'q api_state \<Rightarrow> 'q api_result" where
  "api_broadcasts_create name i t =
     scoped_as ''broadcasts:write'' t (\<lambda>ws st.
       if name = '''' then (ApiUnprocessable, st)
       else on_db broadcast_answer_of BroadcastBody (create_broadcast ws (draft_fields (i\<lparr>di_name := Some name\<rparr>))) st)"

definition api_broadcasts_get :: "string \<Rightarrow> api_token \<Rightarrow> 'q api_state \<Rightarrow> 'q api_result" where
  "api_broadcasts_get raw t = scoped_as ''broadcasts:read'' t (\<lambda>ws. with_id raw (\<lambda>i. found BroadcastBody (get_broadcast ws i)))"

definition api_broadcasts_update :: "string \<Rightarrow> draft_input \<Rightarrow> api_token \<Rightarrow> 'q api_state \<Rightarrow> 'q api_result" where
  "api_broadcasts_update raw f t =
     scoped_as ''broadcasts:write'' t (\<lambda>ws. with_id raw (\<lambda>i. on_db broadcast_answer_of BroadcastBody (update_broadcast ws i (draft_fields f))))"

definition api_broadcasts_delete :: "string \<Rightarrow> api_token \<Rightarrow> 'q api_state \<Rightarrow> 'q api_result" where
  "api_broadcasts_delete raw t =
     scoped_as ''broadcasts:write'' t (\<lambda>ws. with_id raw (\<lambda>i. on_db_unit broadcast_answer_of (delete_draft ws i)))"

definition api_broadcasts_set_audience :: "string \<Rightarrow> string option \<Rightarrow> api_token \<Rightarrow> 'q api_state \<Rightarrow> 'q api_result" where
  "api_broadcasts_set_audience raw seg t =
     scoped_as ''broadcasts:write'' t (\<lambda>ws. with_id raw (\<lambda>i st.
       case seg of
         None \<Rightarrow> on_db broadcast_answer_of BroadcastBody (set_audience ws i None) st
       | Some s \<Rightarrow>
           (case parse_int64 s of
              None \<Rightarrow> (ApiUnprocessable, st)
            | Some sid \<Rightarrow> on_db broadcast_answer_of BroadcastBody (set_audience ws i (Some sid)) st)))"

definition api_broadcasts_schedule :: "'q enqueuer \<Rightarrow> string \<Rightarrow> time \<Rightarrow> api_token \<Rightarrow> 'q api_state \<Rightarrow> 'q api_result" where
  "api_broadcasts_schedule q raw due t =
     scoped_as ''broadcasts:send'' t (\<lambda>ws. with_id raw (\<lambda>i st.
       case broadcast_schedule q ws i due (state_db st, as_queue st) of
         (r, d, x) \<Rightarrow> (case r of Inl e \<Rightarrow> broadcast_answer_of e | Inr b \<Rightarrow> ApiOk (BroadcastBody b), (with_db st d)\<lparr>as_queue := x\<rparr>)))"

definition api_broadcasts_unschedule :: "string \<Rightarrow> api_token \<Rightarrow> 'q api_state \<Rightarrow> 'q api_result" where
  "api_broadcasts_unschedule raw t =
     scoped_as ''broadcasts:send'' t (\<lambda>ws. with_id raw (\<lambda>i. on_db broadcast_answer_of BroadcastBody (broadcast_unschedule ws i)))"

definition api_broadcasts_test_send :: "outbound_env \<Rightarrow> string \<Rightarrow> string \<Rightarrow> api_token \<Rightarrow> 'q api_state \<Rightarrow> 'q api_result" where
  "api_broadcasts_test_send env raw to t =
     scoped_as ''broadcasts:write'' t (\<lambda>ws. with_id raw (\<lambda>i st.
       case get_broadcast ws i (state_db st) of
         None \<Rightarrow> (ApiNotFound, st)
       | Some b \<Rightarrow>
           (case send_broadcast_test env ws b to (as_world st) of
              (detail, wd) \<Rightarrow> (if detail \<noteq> '''' then ApiUnprocessable else ApiOk NoBody, st\<lparr>as_world := wd\<rparr>))))"

definition api_broadcasts_report :: "string \<Rightarrow> api_token \<Rightarrow> 'q api_state \<Rightarrow> 'q api_result" where
  "api_broadcasts_report raw t =
     scoped_as ''broadcasts:read'' t (\<lambda>ws. with_id raw (\<lambda>i. reads broadcast_answer_of ReportBody (broadcast_report ws i)))"

definition automation_answer :: "automation_error \<Rightarrow> api_answer" where
  "automation_answer e =
     (case e of InvalidStep \<Rightarrow> ApiUnprocessable | AutomationNotFound \<Rightarrow> ApiNotFound | _ \<Rightarrow> ApiError)"

definition api_automations_create :: "automation_create_input \<Rightarrow> api_token \<Rightarrow> 'q api_state \<Rightarrow> 'q api_result" where
  "api_automations_create inp t =
     scoped_as ''automations:write'' t (\<lambda>ws. on_db automation_answer AutomationBody (create_automation ws inp))"

definition api_automations_get :: "string \<Rightarrow> api_token \<Rightarrow> 'q api_state \<Rightarrow> 'q api_result" where
  "api_automations_get raw t = scoped_as ''automations:read'' t (\<lambda>ws. with_id raw (\<lambda>i. found AutomationBody (get_automation ws i)))"

definition api_automations_update :: "string \<Rightarrow> automation_update_input \<Rightarrow> api_token \<Rightarrow> 'q api_state \<Rightarrow> 'q api_result" where
  "api_automations_update raw inp t =
     scoped_as ''automations:write'' t (\<lambda>ws. with_id raw (\<lambda>i. on_db automation_answer AutomationBody (update_automation ws i inp)))"

definition api_automations_delete :: "string \<Rightarrow> api_token \<Rightarrow> 'q api_state \<Rightarrow> 'q api_result" where
  "api_automations_delete raw t =
     scoped_as ''automations:write'' t (\<lambda>ws. with_id raw (\<lambda>i. on_db_unit automation_answer (delete_automation ws i)))"

definition api_automations_activate :: "string \<Rightarrow> api_token \<Rightarrow> 'q api_state \<Rightarrow> 'q api_result" where
  "api_automations_activate raw t =
     scoped_as ''automations:activate'' t (\<lambda>ws. with_id raw (\<lambda>i. on_db automation_answer AutomationBody (activate_automation ws i)))"

definition api_automations_deactivate :: "string \<Rightarrow> api_token \<Rightarrow> 'q api_state \<Rightarrow> 'q api_result" where
  "api_automations_deactivate raw t =
     scoped_as ''automations:activate'' t (\<lambda>ws. with_id raw (\<lambda>i. on_db automation_answer AutomationBody (deactivate_automation ws i)))"


section \<open>Webhooks, Templates and sending\<close>

definition webhook_answer :: "webhook_error \<Rightarrow> api_answer" where
  "webhook_answer e =
     (case e of InvalidURL \<Rightarrow> ApiUnprocessable | AuditNeedsLicense \<Rightarrow> ApiUnprocessable | WebhookNotFound \<Rightarrow> ApiNotFound | _ \<Rightarrow> ApiError)"

text \<open>The signing secret is never part of a response.\<close>

definition endpoint_body :: "webhook_endpoint \<times> string \<Rightarrow> api_body" where
  "endpoint_body e = WebhookBody ((fst e)\<lparr>wh_secret := ''''\<rparr>)"

definition api_webhooks_create ::
  "'q api_env \<Rightarrow> string \<Rightarrow> string \<Rightarrow> string list \<Rightarrow> bool option \<Rightarrow> api_token \<Rightarrow> 'q api_state \<Rightarrow> 'q api_result" where
  "api_webhooks_create env secret url types enabled t =
     scoped_as ''webhooks:write'' t (\<lambda>ws. on_db webhook_answer endpoint_body
       (create_webhook (ap_parse_url env) (ap_seal env) (ap_unseal env) (ap_licensed env) secret ws url types enabled))"

definition api_webhooks_get :: "'q api_env \<Rightarrow> string \<Rightarrow> api_token \<Rightarrow> 'q api_state \<Rightarrow> 'q api_result" where
  "api_webhooks_get env raw t =
     scoped_as ''webhooks:read'' t (\<lambda>ws. with_id raw (\<lambda>i. reads webhook_answer endpoint_body
       (\<lambda>d. case find_where (endpoint_row ws i) (webhook_endpoints d) of None \<Rightarrow> Inl WebhookNotFound | Some e \<Rightarrow> open_endpoint (ap_unseal env) e)))"

definition api_webhooks_update ::
  "'q api_env \<Rightarrow> string \<Rightarrow> string option \<Rightarrow> string list option \<Rightarrow> bool option \<Rightarrow> api_token \<Rightarrow> 'q api_state \<Rightarrow> 'q api_result" where
  "api_webhooks_update env raw url types enabled t =
     scoped_as ''webhooks:write'' t (\<lambda>ws. with_id raw (\<lambda>i. on_db webhook_answer endpoint_body
       (update_webhook (ap_parse_url env) (ap_unseal env) (ap_licensed env) ws i url types enabled)))"

definition api_webhooks_delete :: "string \<Rightarrow> api_token \<Rightarrow> 'q api_state \<Rightarrow> 'q api_result" where
  "api_webhooks_delete raw t =
     scoped_as ''webhooks:write'' t (\<lambda>ws. with_id raw (\<lambda>i. on_db_unit webhook_answer (delete_webhook ws i)))"

definition template_answer :: "template_error \<Rightarrow> api_answer" where
  "template_answer e = (case e of TemplateNotFound \<Rightarrow> ApiNotFound | BlankName \<Rightarrow> ApiUnprocessable)"

definition api_templates_create :: "string \<Rightarrow> string option \<Rightarrow> string option \<Rightarrow> api_token \<Rightarrow> 'q api_state \<Rightarrow> 'q api_result" where
  "api_templates_create name subject body t =
     scoped_as ''templates:write'' t (\<lambda>ws st.
       case create_template ws name subject body (as_templates st) of
         Inl e \<Rightarrow> (template_answer e, st)
       | Inr (tpl, s) \<Rightarrow> (ApiOk (TemplateBody tpl), st\<lparr>as_templates := s\<rparr>))"

definition api_templates_get :: "string \<Rightarrow> api_token \<Rightarrow> 'q api_state \<Rightarrow> 'q api_result" where
  "api_templates_get raw t =
     scoped_as ''templates:read'' t (\<lambda>ws. with_id raw (\<lambda>i st.
       case get_template ws i (as_templates st) of None \<Rightarrow> (ApiNotFound, st) | Some tpl \<Rightarrow> (ApiOk (TemplateBody tpl), st)))"

definition api_templates_update ::
  "string \<Rightarrow> string option \<Rightarrow> string option \<Rightarrow> string option \<Rightarrow> api_token \<Rightarrow> 'q api_state \<Rightarrow> 'q api_result" where
  "api_templates_update raw name subject body t =
     scoped_as ''templates:write'' t (\<lambda>ws. with_id raw (\<lambda>i st.
       case update_template ws i name subject body (as_templates st) of
         Inl e \<Rightarrow> (template_answer e, st)
       | Inr (tpl, s) \<Rightarrow> (ApiOk (TemplateBody tpl), st\<lparr>as_templates := s\<rparr>)))"

definition api_templates_delete :: "string \<Rightarrow> api_token \<Rightarrow> 'q api_state \<Rightarrow> 'q api_result" where
  "api_templates_delete raw t =
     scoped_as ''templates:write'' t (\<lambda>ws. with_id raw (\<lambda>i st.
       case delete_template ws i (as_templates st) of
         Inl e \<Rightarrow> (template_answer e, st) | Inr s \<Rightarrow> (ApiOk NoBody, st\<lparr>as_templates := s\<rparr>)))"

record email_call =
  ec_destination :: string
  ec_template :: string
  ec_variables :: "properties option"
  ec_key :: "string option"
  ec_ulid :: string

text \<open>\<open>None\<close> are variables one of which is not JSON.\<close>

definition email_key :: "email_call \<Rightarrow> string" where
  "email_key c = (case ec_key c of None \<Rightarrow> ''transactional:auto:'' @ ec_ulid c
     | Some k \<Rightarrow> if k = '''' then ''transactional:auto:'' @ ec_ulid c else ''transactional:'' @ k)"

definition transactional_request :: "id \<Rightarrow> string \<Rightarrow> template \<Rightarrow> properties \<Rightarrow> string \<Rightarrow> db \<Rightarrow> request" where
  "transactional_request ws key tpl vars dest d =
     \<lparr>rq_kind = KindTransactional, rq_key = key, rq_destination = dest, rq_contact = None,
      rq_contact_id = resolve_id ws '''' (Some dest) None d, rq_source = '''', rq_subject = tpl_subject tpl,
      rq_body = tpl_body tpl, rq_variables = vars, rq_from_email = '''', rq_from_name = '''', rq_track = 0,
      rq_ref = no_ref\<lparr>rf_template := tpl_id tpl\<rparr>\<rparr>"

definition email_answer :: "string \<Rightarrow> outbound_error + result \<Rightarrow> api_answer" where
  "email_answer dest r =
     (case r of
        Inl InProgress \<Rightarrow> ApiConflict
      | Inl _ \<Rightarrow> ApiError
      | Inr res \<Rightarrow>
          (case res_outcome res of
             Sent \<Rightarrow> ApiOk (MessageBody (res_message res) Sent dest)
           | Skipped \<Rightarrow> ApiOk (MessageBody (res_message res) Skipped dest)
           | Failed \<Rightarrow> if res_replayed res then ApiConflict else ApiUnprocessable
           | _ \<Rightarrow> ApiUnprocessable))"

definition api_emails_send :: "outbound_env \<Rightarrow> time \<Rightarrow> email_call \<Rightarrow> api_token \<Rightarrow> 'q api_state \<Rightarrow> 'q api_result" where
  "api_emails_send env now c t =
     scoped_as ''emails:send'' t (\<lambda>ws st.
       let dest = normalize_destination (ec_destination c) in
       if dest = '''' then (ApiUnprocessable, st)
       else case Option.bind (parse_int64 (ec_template c)) (\<lambda>i. get_template ws i (as_templates st)) of
         None \<Rightarrow> (ApiNotFound, st)
       | Some tpl \<Rightarrow>
           (case ec_variables c of
              None \<Rightarrow> (ApiUnprocessable, st)
            | Some vars \<Rightarrow>
                (case send (env\<lparr>oe_template := (\<lambda>w i. get_template w i (as_templates st) \<noteq> None)\<rparr>) now ws
                        (transactional_request ws (email_key c) tpl vars dest (state_db st)) (as_world st) of
                   (r, wd) \<Rightarrow> (email_answer dest r, st\<lparr>as_world := wd\<rparr>))))"

section \<open>Integrations and Sending domains\<close>

definition integration_answer :: "integration_error \<Rightarrow> api_answer" where
  "integration_answer e =
     (if e = IntNotFound then ApiNotFound
      else if e \<in> {IntName, IntConfig, IntKindMismatch} then ApiUnprocessable
      else if e = DefaultConflict then ApiConflict else ApiError)"

text \<open>The rendered row carries the redacted configuration; a sealed one that does not open is an error after the write.\<close>

definition integration_body :: "vault \<Rightarrow> integration \<Rightarrow> api_answer" where
  "integration_body v row =
     (case redact v row of None \<Rightarrow> ApiError | Some _ \<Rightarrow> ApiOk (IntegrationBody (row\<lparr>int_config := ''''\<rparr>)))"

definition integration_written ::
  "vault \<Rightarrow> 'q api_state \<Rightarrow> integration_error + (integration \<times> id list \<times> db) \<Rightarrow> 'q api_result" where
  "integration_written v st r =
     (case r of
        Inl e \<Rightarrow> (integration_answer e, st)
      | Inr (row, jobs, d) \<Rightarrow> (integration_body v row, (with_db st d)\<lparr>as_quota := as_quota st @ jobs\<rparr>))"

definition api_integrations_create :: "vault \<Rightarrow> create_input \<Rightarrow> api_token \<Rightarrow> 'q api_state \<Rightarrow> 'q api_result" where
  "api_integrations_create v inp t =
     scoped_as ''integrations:write'' t (\<lambda>ws st. integration_written v st (create_integration v ws inp (state_db st)))"

definition api_integrations_get :: "vault \<Rightarrow> string \<Rightarrow> api_token \<Rightarrow> 'q api_state \<Rightarrow> 'q api_result" where
  "api_integrations_get v raw t =
     scoped_as ''integrations:read'' t (\<lambda>ws. with_id raw (\<lambda>i st.
       case get_integration ws i (state_db st) of None \<Rightarrow> (ApiNotFound, st) | Some row \<Rightarrow> (integration_body v row, st)))"

definition api_integrations_update :: "vault \<Rightarrow> string \<Rightarrow> update_input \<Rightarrow> api_token \<Rightarrow> 'q api_state \<Rightarrow> 'q api_result" where
  "api_integrations_update v raw inp t =
     scoped_as ''integrations:write'' t (\<lambda>ws. with_id raw (\<lambda>i st. integration_written v st (update_integration v ws i inp (state_db st))))"

definition api_integrations_delete :: "string \<Rightarrow> api_token \<Rightarrow> 'q api_state \<Rightarrow> 'q api_result" where
  "api_integrations_delete raw t =
     scoped_as ''integrations:write'' t (\<lambda>ws. with_id raw (\<lambda>i st.
       case delete_integration ws i (state_db st) of
         Inl e \<Rightarrow> (integration_answer e, st) | Inr d \<Rightarrow> (ApiOk NoBody, with_db st d)))"

definition domain_answer :: "domain_error \<Rightarrow> api_answer" where
  "domain_answer e =
     (case e of DomainNotFound \<Rightarrow> ApiNotFound | DomainInvalid \<Rightarrow> ApiUnprocessable | SelectorInvalid \<Rightarrow> ApiUnprocessable
      | DomainExists \<Rightarrow> ApiConflict | _ \<Rightarrow> ApiError)"

text \<open>The private key is not read for a response.\<close>

definition domain_body :: "domain_row \<Rightarrow> api_answer" where
  "domain_body r = ApiOk (DomainBody (r\<lparr>dr_private := ''''\<rparr>))"

definition api_sending_domains_create ::
  "'q api_env \<Rightarrow> string \<Rightarrow> string \<Rightarrow> string \<Rightarrow> string \<Rightarrow> api_token \<Rightarrow> 'q api_state \<Rightarrow> 'q api_result" where
  "api_sending_domains_create env dmn selector sealed pub t =
     scoped_as ''sending_domains:write'' t (\<lambda>ws st.
       case create_domain (ap_is_ip env) (ap_to_ascii env) ws dmn selector sealed pub (as_domains st) of
         Inl e \<Rightarrow> (domain_answer e, st)
       | Inr (r, s) \<Rightarrow> (domain_body r, st\<lparr>as_domains := s\<rparr>))"

definition api_sending_domains_get :: "string \<Rightarrow> api_token \<Rightarrow> 'q api_state \<Rightarrow> 'q api_result" where
  "api_sending_domains_get raw t =
     scoped_as ''sending_domains:read'' t (\<lambda>ws. with_id raw (\<lambda>i st.
       case find_where (domain_in ws i) (domain_rows (as_domains st)) of
         None \<Rightarrow> (ApiNotFound, st) | Some r \<Rightarrow> (domain_body r, st)))"

definition api_sending_domains_update :: "string \<Rightarrow> string option \<Rightarrow> api_token \<Rightarrow> 'q api_state \<Rightarrow> 'q api_result" where
  "api_sending_domains_update raw selector t =
     scoped_as ''sending_domains:write'' t (\<lambda>ws. with_id raw (\<lambda>i st.
       case update_domain ws i selector (as_domains st) of
         Inl e \<Rightarrow> (domain_answer e, st)
       | Inr (r, s) \<Rightarrow> (domain_body r, st\<lparr>as_domains := s\<rparr>)))"

definition api_sending_domains_delete :: "string \<Rightarrow> api_token \<Rightarrow> 'q api_state \<Rightarrow> 'q api_result" where
  "api_sending_domains_delete raw t =
     scoped_as ''sending_domains:write'' t (\<lambda>ws. with_id raw (\<lambda>i st.
       case delete_domain ws i (as_domains st) of
         Inl e \<Rightarrow> (domain_answer e, st) | Inr s \<Rightarrow> (ApiOk NoBody, st\<lparr>as_domains := s\<rparr>)))"

definition api_sending_domains_verify :: "string \<Rightarrow> api_token \<Rightarrow> 'q api_state \<Rightarrow> 'q api_result" where
  "api_sending_domains_verify raw t =
     scoped_as ''sending_domains:write'' t (\<lambda>ws. with_id raw (\<lambda>i st.
       case verify_domain ws i (as_domains st) of
         Inl e \<Rightarrow> (domain_answer e, st)
       | Inr job \<Rightarrow>
           (case find_where (domain_in ws i) (domain_rows (as_domains st)) of
              None \<Rightarrow> (ApiError, st\<lparr>as_checks := as_checks st @ [job]\<rparr>)
            | Some r \<Rightarrow> (domain_body r, st\<lparr>as_checks := as_checks st @ [job]\<rparr>))))"

section \<open>The surface\<close>

text \<open>Contacts, their Tags, consent and Events.\<close>

datatype people_call =
    ContactsCreate attributes | ContactsGet string | ContactsUpdate string attributes | ContactsDelete string
  | ContactsEraseBy "string option" "string option" | ContactsBatchUpsert bool "attributes list"
  | TagsListForContact string | TagsApply string string | TagsRemove string string | SuppressionsCreate string
  | UnsubscribesCreate string "string option" | EventsCreate "event_input list" | EventsBatchSubmit "event_input list"

primrec api_people :: "'q api_env \<Rightarrow> time \<Rightarrow> api_token \<Rightarrow> people_call \<Rightarrow> 'q api_state \<Rightarrow> 'q api_result" where
  "api_people env now t (ContactsCreate a) = api_contacts_create now a t"
| "api_people env now t (ContactsGet i) = api_contacts_get i t"
| "api_people env now t (ContactsUpdate i a) = api_contacts_update i a t"
| "api_people env now t (ContactsDelete i) = api_contacts_delete now i t"
| "api_people env now t (ContactsEraseBy e v) = api_contacts_erase_by now e v t"
| "api_people env now t (ContactsBatchUpsert ok items) = api_contacts_batch_upsert now ok items t"
| "api_people env now t (TagsListForContact i) = api_tags_list_for_contact i t"
| "api_people env now t (TagsApply i n) = api_tags_apply i n t"
| "api_people env now t (TagsRemove i n) = api_tags_remove i n t"
| "api_people env now t (SuppressionsCreate d) = api_suppressions_create d t"
| "api_people env now t (UnsubscribesCreate d s) = api_unsubscribes_create now d s t"
| "api_people env now t (EventsCreate es) = api_events_create now es t"
| "api_people env now t (EventsBatchSubmit es) = api_events_batch_submit now es t"

text \<open>Segments and Broadcasts.\<close>

datatype campaign_call =
    SegmentsCreate string json_text | SegmentsGet string | SegmentsUpdate string "string option" "json_text option"
  | SegmentsDelete string | SegmentsPreview json_text | BroadcastsCreate string draft_input | BroadcastsGet string
  | BroadcastsUpdate string draft_input | BroadcastsDelete string | BroadcastsSetAudience string "string option"
  | BroadcastsSchedule string time | BroadcastsUnschedule string | BroadcastsTestSend string string
  | BroadcastsReport string

primrec api_campaigns :: "'q api_env \<Rightarrow> time \<Rightarrow> api_token \<Rightarrow> campaign_call \<Rightarrow> 'q api_state \<Rightarrow> 'q api_result" where
  "api_campaigns env now t (SegmentsCreate n df) = api_segments_create now n df t"
| "api_campaigns env now t (SegmentsGet i) = api_segments_get i t"
| "api_campaigns env now t (SegmentsUpdate i n df) = api_segments_update now i n df t"
| "api_campaigns env now t (SegmentsDelete i) = api_segments_delete i t"
| "api_campaigns env now t (SegmentsPreview df) = api_segments_preview (ap_json env) now df t"
| "api_campaigns env now t (BroadcastsCreate n f) = api_broadcasts_create n f t"
| "api_campaigns env now t (BroadcastsGet i) = api_broadcasts_get i t"
| "api_campaigns env now t (BroadcastsUpdate i f) = api_broadcasts_update i f t"
| "api_campaigns env now t (BroadcastsDelete i) = api_broadcasts_delete i t"
| "api_campaigns env now t (BroadcastsSetAudience i s) = api_broadcasts_set_audience i s t"
| "api_campaigns env now t (BroadcastsSchedule i due) = api_broadcasts_schedule (ap_enqueue env) i due t"
| "api_campaigns env now t (BroadcastsUnschedule i) = api_broadcasts_unschedule i t"
| "api_campaigns env now t (BroadcastsTestSend i to) = api_broadcasts_test_send (ap_outbound env) i to t"
| "api_campaigns env now t (BroadcastsReport i) = api_broadcasts_report i t"

text \<open>Automations, Webhook endpoints, Templates and transactional sends.\<close>

datatype flow_call =
    AutomationsCreate automation_create_input | AutomationsGet string
  | AutomationsUpdate string automation_update_input | AutomationsDelete string | AutomationsActivate string
  | AutomationsDeactivate string | WebhooksCreate string string "string list" "bool option" | WebhooksGet string
  | WebhooksUpdate string "string option" "string list option" "bool option" | WebhooksDelete string
  | TemplatesCreate string "string option" "string option" | TemplatesGet string
  | TemplatesUpdate string "string option" "string option" "string option" | TemplatesDelete string
  | EmailsSend email_call

primrec api_flows :: "'q api_env \<Rightarrow> time \<Rightarrow> api_token \<Rightarrow> flow_call \<Rightarrow> 'q api_state \<Rightarrow> 'q api_result" where
  "api_flows env now t (AutomationsCreate a) = api_automations_create a t"
| "api_flows env now t (AutomationsGet i) = api_automations_get i t"
| "api_flows env now t (AutomationsUpdate i a) = api_automations_update i a t"
| "api_flows env now t (AutomationsDelete i) = api_automations_delete i t"
| "api_flows env now t (AutomationsActivate i) = api_automations_activate i t"
| "api_flows env now t (AutomationsDeactivate i) = api_automations_deactivate i t"
| "api_flows env now t (WebhooksCreate s u ts en) = api_webhooks_create env s u ts en t"
| "api_flows env now t (WebhooksGet i) = api_webhooks_get env i t"
| "api_flows env now t (WebhooksUpdate i u ts en) = api_webhooks_update env i u ts en t"
| "api_flows env now t (WebhooksDelete i) = api_webhooks_delete i t"
| "api_flows env now t (TemplatesCreate n s b) = api_templates_create n s b t"
| "api_flows env now t (TemplatesGet i) = api_templates_get i t"
| "api_flows env now t (TemplatesUpdate i n s b) = api_templates_update i n s b t"
| "api_flows env now t (TemplatesDelete i) = api_templates_delete i t"
| "api_flows env now t (EmailsSend c) = api_emails_send (ap_outbound env) now c t"

text \<open>Integrations and Sending domains.\<close>

datatype setup_call =
    IntegrationsCreate create_input | IntegrationsGet string | IntegrationsUpdate string update_input
  | IntegrationsDelete string | SendingDomainsCreate string string string string
  | SendingDomainsGet string
  | SendingDomainsUpdate string "string option" | SendingDomainsDelete string | SendingDomainsVerify string

primrec api_setup :: "'q api_env \<Rightarrow> time \<Rightarrow> api_token \<Rightarrow> setup_call \<Rightarrow> 'q api_state \<Rightarrow> 'q api_result" where
  "api_setup env now t (IntegrationsCreate c) = api_integrations_create (ap_vault env) c t"
| "api_setup env now t (IntegrationsGet i) = api_integrations_get (ap_vault env) i t"
| "api_setup env now t (IntegrationsUpdate i u) = api_integrations_update (ap_vault env) i u t"
| "api_setup env now t (IntegrationsDelete i) = api_integrations_delete i t"
| "api_setup env now t (SendingDomainsCreate d sel k p) = api_sending_domains_create env d sel k p t"
| "api_setup env now t (SendingDomainsGet i) = api_sending_domains_get i t"
| "api_setup env now t (SendingDomainsUpdate i sel) = api_sending_domains_update i sel t"
| "api_setup env now t (SendingDomainsDelete i) = api_sending_domains_delete i t"
| "api_setup env now t (SendingDomainsVerify i) = api_sending_domains_verify i t"

datatype api_call = People people_call | Campaigns campaign_call | Flows flow_call | Setup setup_call

primrec api_handle :: "'q api_env \<Rightarrow> time \<Rightarrow> api_token \<Rightarrow> api_call \<Rightarrow> 'q api_state \<Rightarrow> 'q api_result" where
  "api_handle env now t (People c) = api_people env now t c"
| "api_handle env now t (Campaigns c) = api_campaigns env now t c"
| "api_handle env now t (Flows c) = api_flows env now t c"
| "api_handle env now t (Setup c) = api_setup env now t c"

end
