(* ===== verification/ApiSafety.thy ===== *)
theory ApiSafety
  imports ExternalApi
begin

text \<open>
  What the external API promises of every call: the scope it asks for, and that it stays inside the Workspace of its
  token, whatever ids the request names.
\<close>

section \<open>Each module stays in its Workspace\<close>

lemma foreign_update_own:
  assumes "\<And>r. p r \<Longrightarrow> row_ws r = ws \<and> row_ws (f r) = ws"
  shows "foreign_rows row_ws ws (update_where p f rows) = foreign_rows row_ws ws rows"
  using assms by (induction rows) (auto simp: foreign_rows_def update_where_def)

lemma foreign_delete_own:
  assumes "\<And>r. r \<in> set rows \<Longrightarrow> p r \<Longrightarrow> row_ws r = ws"
  shows "foreign_rows row_ws ws (delete_where p rows) = foreign_rows row_ws ws rows"
  using assms by (induction rows) (auto simp: foreign_rows_def delete_where_def)

text \<open>A table may be written as long as the rows of the other Workspaces are the ones it had.\<close>

lemma foreign_tables:
  "foreign_view ws (d\<lparr>next_id := n\<rparr>) = foreign_view ws d"
  "foreign_view ws (d\<lparr>contact_tags := ct\<rparr>) = foreign_view ws d"
  "foreign_rows con_workspace ws x_con = foreign_rows con_workspace ws (contacts d) \<Longrightarrow> foreign_view ws (d\<lparr>contacts := x_con\<rparr>) = foreign_view ws d"
  "foreign_rows sup_workspace ws x_sup = foreign_rows sup_workspace ws (suppressions d) \<Longrightarrow> foreign_view ws (d\<lparr>suppressions := x_sup\<rparr>) = foreign_view ws d"
  "foreign_rows seg_workspace ws x_seg = foreign_rows seg_workspace ws (segments d) \<Longrightarrow> foreign_view ws (d\<lparr>segments := x_seg\<rparr>) = foreign_view ws d"
  "foreign_rows bc_workspace ws x_bc = foreign_rows bc_workspace ws (broadcasts d) \<Longrightarrow> foreign_view ws (d\<lparr>broadcasts := x_bc\<rparr>) = foreign_view ws d"
  "foreign_rows au_workspace ws x_au = foreign_rows au_workspace ws (automations d) \<Longrightarrow> foreign_view ws (d\<lparr>automations := x_au\<rparr>) = foreign_view ws d"
  "foreign_rows run_workspace ws x_run = foreign_rows run_workspace ws (runs d) \<Longrightarrow> foreign_view ws (d\<lparr>runs := x_run\<rparr>) = foreign_view ws d"
  "foreign_rows tag_workspace ws x_tag = foreign_rows tag_workspace ws (tags d) \<Longrightarrow> foreign_view ws (d\<lparr>tags := x_tag\<rparr>) = foreign_view ws d"
  "foreign_rows cf_workspace ws x_cf = foreign_rows cf_workspace ws (custom_fields d) \<Longrightarrow> foreign_view ws (d\<lparr>custom_fields := x_cf\<rparr>) = foreign_view ws d"
  "foreign_rows int_workspace ws x_int = foreign_rows int_workspace ws (integrations d) \<Longrightarrow> foreign_view ws (d\<lparr>integrations := x_int\<rparr>) = foreign_view ws d"
  "foreign_rows sl_workspace ws x_sl = foreign_rows sl_workspace ws (send_limiters d) \<Longrightarrow> foreign_view ws (d\<lparr>send_limiters := x_sl\<rparr>) = foreign_view ws d"
  "foreign_rows wh_workspace ws x_wh = foreign_rows wh_workspace ws (webhook_endpoints d) \<Longrightarrow> foreign_view ws (d\<lparr>webhook_endpoints := x_wh\<rparr>) = foreign_view ws d"
  by (simp_all add: foreign_view_def)

lemmas foreign_simps = foreign_tables foreign_insert foreign_delete foreign_update

lemma foreign_custom_field: "foreign_view ws (ensure_custom_field ws kv d) = foreign_view ws d"
  by (simp add: ensure_custom_field_def foreign_simps)

lemma foreign_custom_fields: "ensure_custom_fields ws kvs d = (typed, d1) \<Longrightarrow> foreign_view ws d1 = foreign_view ws d"
proof -
  have "foreign_view ws (fold (ensure_custom_field ws) l x) = foreign_view ws x" for l x
    by (induction l arbitrary: x) (simp_all add: foreign_custom_field)
  then show "ensure_custom_fields ws kvs d = (typed, d1) \<Longrightarrow> foreign_view ws d1 = foreign_view ws d"
    by (auto simp: ensure_custom_fields_def Let_def)
qed

lemma foreign_contact_row: "con_workspace c = ws \<Longrightarrow>
    foreign_view ws (d\<lparr>contacts := contacts d @ [c], next_id := n\<rparr>) = foreign_view ws d"
  by (simp add: foreign_simps)

lemma foreign_insert_contact: "foreign_view ws (snd (insert_contact now ws a typed d)) = foreign_view ws d"
  by (simp add: insert_contact_def Let_def foreign_contact_row split: option.split)

lemma foreign_save_contact:
  assumes "con_workspace c = ws" shows "foreign_view ws (snd (save_contact c d)) = foreign_view ws d"
proof -
  have "foreign_rows con_workspace ws (update_where (in_ws con_workspace ws (\<lambda>x. con_id x = con_id c)) (\<lambda>_. c) l) = foreign_rows con_workspace ws l" for l
    by (rule foreign_update_own) (simp add: in_ws_def assms)
  then show ?thesis by (simp add: save_contact_def assms foreign_tables split: option.split)
qed

lemma foreign_contact_tx:
  assumes "\<And>x. foreign_view ws (snd (body x)) = foreign_view ws x"
  shows "foreign_view ws (snd (contact_tx body d)) = foreign_view ws d"
  using assms [of d] by (auto simp: contact_tx_def split: prod.split sum.split)

lemma foreign_contact_create: "foreign_view ws (snd (contact_create now ws attrs d)) = foreign_view ws d"
  unfolding contact_create_def
  by (rule foreign_contact_tx) (auto simp: Let_def foreign_insert_contact split: prod.split dest: foreign_custom_fields)

lemma apply_attributes_workspace [simp]: "con_workspace (apply_attributes a typed c) = con_workspace c"
  by (simp add: apply_attributes_def Let_def)

lemma foreign_contact_update: "foreign_view ws (snd (contact_update ws cid attrs d)) = foreign_view ws d"
  unfolding contact_update_def
  by (rule foreign_contact_tx)
     (auto simp: Let_def foreign_save_contact split: prod.split option.split dest!: foreign_custom_fields get_contact_SomeD)

lemma resolve_contact_workspace: "resolve_contact ws s e p x = Some c \<Longrightarrow> con_workspace c = ws"
  by (auto simp: resolve_contact_def find_alias_def in_ws_def dest!: find_where_SomeD split: option.splits)

lemma enriched_workspace [simp]: "con_workspace (enriched a typed c) = con_workspace c"
  by (simp add: enriched_def)

lemma foreign_upsert_in: "foreign_view ws (snd (upsert_in now ws attrs d)) = foreign_view ws d"
proof (cases "at_subject (normalized attrs) = None \<and> attributes.at_email (normalized attrs) = None \<and> at_phone (normalized attrs) = None")
  case False
  obtain typed d1 where e: "ensure_custom_fields ws (at_fields (normalized attrs)) d = (typed, d1)" by fastforce
  let ?r = "resolve_contact ws (at_subject (normalized attrs)) (attributes.at_email (normalized attrs)) (at_phone (normalized attrs)) d1"
  show ?thesis
  proof (cases ?r)
    case None
    with False e foreign_custom_fields [OF e] foreign_insert_contact [of ws now "normalized attrs" typed d1] show ?thesis
      by (simp only: upsert_in_def Let_def) (auto split: prod.split sum.split)
  next
    case (Some c)
    with False e foreign_custom_fields [OF e] resolve_contact_workspace [OF Some] foreign_save_contact [of "enriched (normalized attrs) typed c" ws d1]
    show ?thesis
      by (simp only: upsert_in_def Let_def) (auto split: prod.split sum.split)
  qed
qed (simp add: upsert_in_def)

lemma foreign_upsert: "foreign_view ws (snd (upsert now ws attrs d)) = foreign_view ws d"
  unfolding upsert_def by (rule foreign_contact_tx) (rule foreign_upsert_in)

lemma foreign_upsert_rows: "foreign_view ws (snd (upsert_rows now ws items d)) = foreign_view ws d"
  by (induction items arbitrary: d) (auto simp: foreign_upsert case_prod_beta)

lemma foreign_record_audit: "ae_workspace e = ws \<Longrightarrow> foreign_view ws (record_audit now e d) = foreign_view ws d"
  by (simp add: record_audit_def audit_event_def)

lemma foreign_upsert_batch: "foreign_view ws (snd (upsert_batch now ws who ok items d)) = foreign_view ws d"
  using foreign_upsert_rows [of ws now items d]
  by (simp add: upsert_batch_def record_import_def foreign_record_audit case_prod_beta)

lemma foreign_create_tag: "foreign_view ws (create_tag ws name d) = foreign_view ws d"
  by (simp add: create_tag_def foreign_simps)

lemma foreign_add_tag: "foreign_view ws (add_tag cid tid d) = foreign_view ws d"
  by (simp add: add_tag_def foreign_simps)

lemma foreign_apply_tag: "foreign_view ws (snd (apply_tag ws cid raw d)) = foreign_view ws d"
  by (simp add: apply_tag_def Let_def foreign_create_tag foreign_add_tag split: option.split list.split)

lemma foreign_remove_tag: "foreign_view ws (snd (remove_tag ws cid raw d)) = foreign_view ws d"
  by (simp add: remove_tag_def remove_tag_link_def foreign_simps split: option.split list.split)

lemma foreign_suppress: "foreign_view ws (snd (suppress ws dest d)) = foreign_view ws d"
  by (simp add: suppress_def Let_def foreign_simps)

lemma foreign_unsubscribe_destination:
  "foreign_view ws (snd (unsubscribe_destination now ws dest source d)) = foreign_view ws d"
proof -
  have "record_unsubscribe now t d = (r, d') \<Longrightarrow> ut_workspace t = ws \<Longrightarrow> foreign_view ws d' = foreign_view ws d" for t r d'
    using foreign_record_unsubscribe [of t now d] by auto
  then show ?thesis by (simp add: unsubscribe_destination_def Let_def split: option.split prod.split)
qed

lemma foreign_ingest: "foreign_view ws (ingest now ws evs d) = foreign_view ws d"
  unfolding ingest_def by (induction evs arbitrary: d) (simp_all add: ingest_one_def ingested_def)

lemma foreign_ingest_each: "foreign_view ws (snd (ingest_each now ws evs d)) = foreign_view ws d"
  by (induction evs arbitrary: d) (simp_all add: foreign_ingest case_prod_beta)

lemma foreign_segments:
  "foreign_view ws (snd (create_segment ws now name df d)) = foreign_view ws d"
  "foreign_view ws (snd (update_segment ws now i nm df d)) = foreign_view ws d"
  "foreign_view ws (snd (delete_segment ws i d)) = foreign_view ws d"
  by (simp_all add: create_segment_def update_segment_def delete_segment_def set_segment_def Let_def foreign_simps split: option.split)

lemma foreign_set_broadcast:
  assumes "\<And>b. bc_workspace (f b) = bc_workspace b"
  shows "foreign_view ws (set_broadcast ws i p f d) = foreign_view ws d"
proof -
  have "foreign_rows bc_workspace ws (update_where (\<lambda>b. broadcast_row ws i b \<and> p b) f l) = foreign_rows bc_workspace ws l" for l
    by (rule foreign_update_own) (simp add: broadcast_row_def in_ws_def assms)
  then show ?thesis by (simp add: set_broadcast_def foreign_tables)
qed

lemma foreign_edit_draft:
  assumes "\<And>b. bc_workspace (f b) = bc_workspace b"
  shows "foreign_view ws (snd (edit_draft ws i f d)) = foreign_view ws d"
  by (simp add: edit_draft_def Let_def foreign_set_broadcast assms split: option.split)

lemma foreign_drafts:
  "foreign_view ws (snd (create_broadcast ws f d)) = foreign_view ws d"
  "foreign_view ws (snd (update_broadcast ws i f d)) = foreign_view ws d"
  "foreign_view ws (snd (set_audience ws i seg d)) = foreign_view ws d"
  "foreign_view ws (snd (broadcast_unschedule ws i d)) = foreign_view ws d"
  by (simp_all add: create_broadcast_def update_broadcast_def set_audience_def broadcast_unschedule_def unscheduled_def
      apply_fields_def Let_def foreign_edit_draft foreign_set_broadcast foreign_simps split: option.split)

lemma foreign_delete_draft: "foreign_view ws (snd (delete_draft ws i d)) = foreign_view ws d"
proof -
  have "foreign_rows bc_workspace ws (delete_where (\<lambda>b. broadcast_row ws i b \<and> is_draft b) l) = foreign_rows bc_workspace ws l" for l
    by (rule foreign_delete_own) (simp add: broadcast_row_def in_ws_def)
  then show ?thesis by (simp add: delete_draft_def Let_def foreign_tables)
qed

text \<open>The queue a Broadcast is handed to is a parameter of the module; the job table of river leaves every table alone.\<close>

definition confined_queue :: "'q enqueuer \<Rightarrow> bool" where
  "confined_queue q \<longleftrightarrow> (\<forall>ws i due d x. foreign_view ws (fst (snd (q i due (d, x)))) = foreign_view ws d)"

lemma river_queue_confined: "confined_queue (river_enqueue ok)"
  by (simp add: confined_queue_def river_enqueue_def)

lemma foreign_broadcast_schedule:
  assumes "confined_queue q"
  shows "foreign_view ws (fst (snd (broadcast_schedule q ws i due (d, x)))) = foreign_view ws d"
proof -
  have queued: "q b t (y, z) = (ok, y', z') \<Longrightarrow> foreign_view ws y' = foreign_view ws y" for b t y z ok y' z'
    using assms unfolding confined_queue_def by (metis fst_conv snd_conv)
  have "foreign_view ws (snd (claim_broadcast ws i (scheduled_for due) d)) = foreign_view ws d"
    by (simp add: claim_broadcast_def Let_def foreign_set_broadcast scheduled_for_def split: option.split)
  then show ?thesis
    by (auto simp: broadcast_schedule_def enqueue_claimed_def revert_broadcast_def foreign_set_broadcast
        split: prod.split sum.split bool.split dest!: queued)
qed

lemma send_test_db: "wd_db (snd (send_test env ws r wd)) = wd_db wd"
proof (cases "load_workspace ws (wd_db wd)")
  case (Some w)
  show ?thesis
  proof (cases "gate env ws w (tr_from_email r) (tr_from_name r) (wd_db wd)")
    case (Inr g)
    with Some show ?thesis
      by (cases g) (simp_all add: send_test_def Let_def split: sum.split provider_reply.split)
  qed (simp add: send_test_def Some)
qed (simp add: send_test_def)

lemma foreign_test_send: "wd_db (snd (send_broadcast_test env ws b addr wd)) = wd_db wd"
  using send_test_db [of env ws _ wd]
  by (simp add: send_broadcast_test_def case_prod_beta split: sum.split)

text \<open>The rows a database cascade removes belong to the Workspace of the row they hang on.\<close>

definition cascades_owned :: "db \<Rightarrow> bool" where
  "cascades_owned d \<longleftrightarrow>
     (\<forall>a\<in>set (automations d). \<forall>r\<in>set (runs d). run_automation r = au_id a \<longrightarrow> run_workspace r = au_workspace a) \<and>
     (\<forall>i\<in>set (integrations d). \<forall>s\<in>set (send_limiters d). sl_integration s = int_id i \<longrightarrow> sl_workspace s = int_workspace i)"

lemma foreign_automations:
  "foreign_view ws (snd (create_automation ws inp d)) = foreign_view ws d"
  "foreign_view ws (snd (update_automation ws i upd d)) = foreign_view ws d"
  "foreign_view ws (snd (activate_automation ws i d)) = foreign_view ws d"
  "foreign_view ws (snd (deactivate_automation ws i d)) = foreign_view ws d"
  by (simp_all add: create_automation_def update_automation_def activate_automation_def deactivate_automation_def
      set_automation_status_def set_automation_def Let_def foreign_simps split: option.split)

lemma foreign_delete_automation:
  assumes "cascades_owned d"
  shows "foreign_view ws (snd (delete_automation ws i d)) = foreign_view ws d"
proof (cases "get_automation ws i d")
  case (Some a)
  then have "a \<in> set (automations d)" "au_workspace a = ws" "au_id a = i"
    by (auto simp: get_automation_def in_ws_def dest!: find_where_SomeD)
  with assms have "foreign_rows run_workspace ws (delete_where (\<lambda>r. run_automation r = i) (runs d)) = foreign_rows run_workspace ws (runs d)"
    by (intro foreign_delete_own) (auto simp: cascades_owned_def)
  with Some show ?thesis by (simp add: delete_automation_def foreign_simps)
qed (simp add: delete_automation_def)

lemma foreign_webhooks:
  "foreign_view ws (snd (create_webhook pu seal unseal lic secret ws url types en d)) = foreign_view ws d"
  "foreign_view ws (snd (update_webhook pu unseal lic ws i u ts en d)) = foreign_view ws d"
  "foreign_view ws (snd (delete_webhook ws i d)) = foreign_view ws d"
  by (simp_all add: create_webhook_def update_webhook_def delete_webhook_def endpoint_row_def Let_def foreign_simps split: option.split)

lemma foreign_clear_default: "foreign_view ws (clear_default ws ch d) = foreign_view ws d"
  by (simp add: clear_default_def default_row_def foreign_simps)

lemma foreign_create_integration: "create_integration v ws inp d = Inr (row, jobs, d') \<Longrightarrow> foreign_view ws d' = foreign_view ws d"
  by (auto simp: create_integration_def Let_def foreign_clear_default foreign_simps split: option.splits sum.splits prod.splits if_splits)

lemma foreign_update_integration: "update_integration v ws i inp d = Inr (row, jobs, d') \<Longrightarrow> foreign_view ws d' = foreign_view ws d"
proof -
  have own: "int_workspace (edit_integration inp pr x) = int_workspace x" for pr x by (simp add: edit_integration_def)
  have upd: "foreign_rows int_workspace ws (update_where (in_ws int_workspace ws p) (\<lambda>_. x) l) = foreign_rows int_workspace ws l"
    if "int_workspace x = ws" for p x l
    by (rule foreign_update_own) (simp add: in_ws_def that)
  have rows: "int_workspace x = ws \<Longrightarrow>
      foreign_view ws (d\<lparr>integrations := update_where (in_ws int_workspace ws p) (\<lambda>_. x) (integrations d)\<rparr>) = foreign_view ws d" for p x d
    by (simp add: foreign_tables upd)
  have "get_integration ws j x = Some y \<Longrightarrow> int_workspace y = ws" for j x y
    by (auto simp: get_integration_def in_ws_def dest!: find_where_SomeD)
  then show "update_integration v ws i inp d = Inr (row, jobs, d') \<Longrightarrow> foreign_view ws d' = foreign_view ws d"
    by (auto simp: update_integration_def write_update_def Let_def rows own foreign_clear_default
        split: sum.splits if_splits option.splits)
qed

lemma foreign_delete_integration:
  assumes "cascades_owned d" and "delete_integration ws i d = Inr d'"
  shows "foreign_view ws d' = foreign_view ws d"
proof -
  from assms(2) obtain x where "get_integration ws i d = Some x" by (auto simp: delete_integration_def split: if_splits)
  then have "x \<in> set (integrations d)" "int_workspace x = ws" "int_id x = i"
    by (auto simp: get_integration_def in_ws_def dest!: find_where_SomeD)
  with assms(1) have "foreign_rows sl_workspace ws (delete_where (\<lambda>s. sl_integration s = i) (send_limiters d)) = foreign_rows sl_workspace ws (send_limiters d)"
    by (intro foreign_delete_own) (auto simp: cascades_owned_def)
  with assms(2) show ?thesis by (auto simp: delete_integration_def foreign_simps split: if_splits)
qed

section \<open>Every call stays in its Workspace\<close>

definition api_foreign :: "id \<Rightarrow> 'q api_state \<Rightarrow> db \<times> template list \<times> domain_row list" where
  "api_foreign ws st =
     (foreign_view ws (state_db st), foreign_rows tpl_workspace ws (tpl_rows (as_templates st)),
      foreign_rows sd_workspace ws (domain_rows (as_domains st)))"

lemma with_db_tables [simp]:
  "state_db (with_db st d) = d" "as_templates (with_db st d) = as_templates st" "as_domains (with_db st d) = as_domains st"
  by (simp_all add: state_db_def with_db_def)

lemma api_foreign_fields:
  "api_foreign ws (with_db st d) = api_foreign ws st \<longleftrightarrow> foreign_view ws d = foreign_view ws (state_db st)"
  "api_foreign ws (st\<lparr>as_jobs := js\<rparr>) = api_foreign ws st" "api_foreign ws (st\<lparr>as_queue := x\<rparr>) = api_foreign ws st"
  "api_foreign ws (st\<lparr>as_quota := ids\<rparr>) = api_foreign ws st" "api_foreign ws (st\<lparr>as_checks := ids\<rparr>) = api_foreign ws st"
  by (simp_all add: api_foreign_def with_db_def state_db_def)

lemma api_foreign_stores:
  "foreign_rows tpl_workspace ws (tpl_rows s) = foreign_rows tpl_workspace ws (tpl_rows (as_templates st)) \<Longrightarrow>
     api_foreign ws (st\<lparr>as_templates := s\<rparr>) = api_foreign ws st"
  "foreign_rows sd_workspace ws (domain_rows s') = foreign_rows sd_workspace ws (domain_rows (as_domains st)) \<Longrightarrow>
     api_foreign ws (st\<lparr>as_domains := s'\<rparr>) = api_foreign ws st"
  "foreign_view ws (wd_db wd) = foreign_view ws (state_db st) \<Longrightarrow> api_foreign ws (st\<lparr>as_world := wd\<rparr>) = api_foreign ws st"
  by (simp_all add: api_foreign_def state_db_def)

lemma scoped_stays:
  assumes "\<And>ws. api_foreign ws (snd (h ws st)) = api_foreign ws st"
  shows "api_foreign (tok_workspace t) (snd (scoped_as s t h st)) = api_foreign (tok_workspace t) st"
  by (simp add: scoped_as_def assms)

lemma with_id_stays:
  assumes "\<And>i. api_foreign ws (snd (h i st)) = api_foreign ws st"
  shows "api_foreign ws (snd (with_id raw h st)) = api_foreign ws st"
  by (simp add: with_id_def assms split: option.split)

lemma on_db_stays:
  assumes "foreign_view ws (snd (m (state_db st))) = foreign_view ws (state_db st)"
  shows "api_foreign ws (snd (on_db fail body m st)) = api_foreign ws st"
  using assms by (simp add: on_db_def case_prod_beta api_foreign_fields)

lemma on_db_unit_stays:
  assumes "foreign_view ws (snd (m (state_db st))) = foreign_view ws (state_db st)"
  shows "api_foreign ws (snd (on_db_unit fail m st)) = api_foreign ws st"
  using assms by (simp add: on_db_unit_def case_prod_beta api_foreign_fields)

lemma reads_stays: "snd (reads fail body m st) = st" "snd (found body' get st) = st"
  by (simp_all add: reads_def found_def split: sum.split option.split)

lemmas call_stays = scoped_stays with_id_stays on_db_stays on_db_unit_stays

text \<open>What each module writes, for the calls below.\<close>

lemmas module_stays =
  foreign_contact_create foreign_contact_update foreign_upsert_batch foreign_apply_tag foreign_remove_tag foreign_suppress
  foreign_unsubscribe_destination foreign_ingest foreign_ingest_each foreign_segments foreign_drafts foreign_delete_draft
  foreign_automations foreign_webhooks

lemma erase_stays: "api_foreign ws (snd (erase_as now t i ws st)) = api_foreign ws st"
  using erasure_confined [of ws now i "token_operator t" "state_db st" "as_jobs st"]
  by (simp add: erase_as_def case_prod_beta api_foreign_fields)

lemma people_stay: "api_foreign (tok_workspace t) (snd (api_people env now t c st)) = api_foreign (tok_workspace t) st"
proof (cases c)
  case (ContactsEraseBy e v)
  then show ?thesis by (cases e; cases v) (simp_all add: api_contacts_erase_by_def scoped_as_def erase_stays)
qed (simp_all add: api_contacts_create_def api_contacts_get_def api_contacts_update_def api_contacts_delete_def
    api_contacts_batch_upsert_def api_tags_list_for_contact_def api_tags_apply_def api_tags_remove_def
    api_suppressions_create_def api_unsubscribes_create_def api_events_create_def api_events_batch_submit_def
    call_stays module_stays reads_stays erase_stays case_prod_beta api_foreign_fields)

lemma schedule_stays:
  assumes "confined_queue q"
  shows "api_foreign ws (snd (case broadcast_schedule q ws i due (state_db st, as_queue st) of
      (r, d, x) \<Rightarrow> (f r, (with_db st d)\<lparr>as_queue := x\<rparr>))) = api_foreign ws st"
  using foreign_broadcast_schedule [OF assms, of ws i due "state_db st" "as_queue st"]
  by (simp add: case_prod_beta api_foreign_fields)

lemma campaigns_stay:
  assumes "confined_queue (ap_enqueue env)"
  shows "api_foreign (tok_workspace t) (snd (api_campaigns env now t c st)) = api_foreign (tok_workspace t) st"
proof (cases c)
  case (BroadcastsSchedule i due)
  then show ?thesis by (simp add: api_broadcasts_schedule_def call_stays schedule_stays [OF assms])
next
  case (BroadcastsTestSend i to)
  then show ?thesis
    by (simp add: api_broadcasts_test_send_def call_stays case_prod_beta api_foreign_stores foreign_test_send state_db_def split: option.split)
next
  case (BroadcastsSetAudience i s)
  then show ?thesis by (cases s) (simp_all add: api_broadcasts_set_audience_def call_stays module_stays split: option.split)
qed (simp_all add: api_segments_create_def api_segments_get_def api_segments_update_def api_segments_delete_def
    api_segments_preview_def api_broadcasts_create_def api_broadcasts_get_def api_broadcasts_update_def api_broadcasts_delete_def
    api_broadcasts_unschedule_def api_broadcasts_report_def call_stays module_stays reads_stays)

lemma template_stays:
  "create_template ws name subject body s = Inr (tpl, s') \<Longrightarrow>
     foreign_rows tpl_workspace ws (tpl_rows s') = foreign_rows tpl_workspace ws (tpl_rows s)"
  "update_template ws i nm sub bod s = Inr (tpl, s') \<Longrightarrow>
     foreign_rows tpl_workspace ws (tpl_rows s') = foreign_rows tpl_workspace ws (tpl_rows s)"
  "delete_template ws i s = Inr s' \<Longrightarrow>
     foreign_rows tpl_workspace ws (tpl_rows s') = foreign_rows tpl_workspace ws (tpl_rows s)"
  by (auto simp: create_template_def update_template_def delete_template_def set_template_def template_row_def Let_def
      foreign_insert foreign_update foreign_delete split: if_splits option.splits)

lemma domain_stays:
  "create_domain ip asc ws dmn sel key pub s = Inr (r, s') \<Longrightarrow>
     foreign_rows sd_workspace ws (domain_rows s') = foreign_rows sd_workspace ws (domain_rows s)"
  "update_domain ws i chg s = Inr (r, s') \<Longrightarrow>
     foreign_rows sd_workspace ws (domain_rows s') = foreign_rows sd_workspace ws (domain_rows s)"
  "delete_domain ws i s = Inr s' \<Longrightarrow>
     foreign_rows sd_workspace ws (domain_rows s') = foreign_rows sd_workspace ws (domain_rows s)"
proof -
  have own: "domain_in ws i x \<Longrightarrow> sd_workspace x = ws" for x by (simp add: domain_in_def)
  have upd: "foreign_rows sd_workspace ws (update_where (domain_in ws i) (\<lambda>x. x\<lparr>dr_selector := k, sd_verified := False\<rparr>) l) = foreign_rows sd_workspace ws l" for k l
    by (rule foreign_update_own) (simp add: own)
  have del: "foreign_rows sd_workspace ws (delete_where (domain_in ws i) l) = foreign_rows sd_workspace ws l" for l
    by (rule foreign_delete_own) (simp add: own)
  show "create_domain ip asc ws dmn sel key pub s = Inr (r, s') \<Longrightarrow>
     foreign_rows sd_workspace ws (domain_rows s') = foreign_rows sd_workspace ws (domain_rows s)"
    by (auto simp: create_domain_def Let_def foreign_insert split: if_splits option.splits)
  show "update_domain ws i chg s = Inr (r, s') \<Longrightarrow>
     foreign_rows sd_workspace ws (domain_rows s') = foreign_rows sd_workspace ws (domain_rows s)"
    by (auto simp: update_domain_def Let_def upd split: if_splits option.splits)
  show "delete_domain ws i s = Inr s' \<Longrightarrow>
     foreign_rows sd_workspace ws (domain_rows s') = foreign_rows sd_workspace ws (domain_rows s)"
    by (auto simp: delete_domain_def del split: if_splits)
qed

lemma emails_stay: "api_foreign (tok_workspace t) (snd (api_emails_send env now c t st)) = api_foreign (tok_workspace t) st"
proof -
  have "send e now ws r w = (x, w') \<Longrightarrow> foreign_view ws (wd_db w') = foreign_view ws (wd_db w)" for e ws r w x w'
    using foreign_send [of ws e now r w] by simp
  then show ?thesis
    unfolding api_emails_send_def
    by (intro scoped_stays) (simp add: Let_def case_prod_beta state_db_def api_foreign_stores foreign_send split: option.split)
qed

lemma flows_stay:
  assumes "cascades_owned (state_db st)"
  shows "api_foreign (tok_workspace t) (snd (api_flows env now t c st)) = api_foreign (tok_workspace t) st"
proof (cases c)
  case (TemplatesCreate n s b)
  show ?thesis unfolding TemplatesCreate api_flows.simps api_templates_create_def
    by (intro scoped_stays) (auto simp: api_foreign_stores template_stays split: sum.split)
next
  case (TemplatesUpdate i n s b)
  show ?thesis unfolding TemplatesUpdate api_flows.simps api_templates_update_def
    by (intro scoped_stays with_id_stays) (auto simp: api_foreign_stores template_stays split: sum.split)
next
  case (TemplatesDelete i)
  show ?thesis unfolding TemplatesDelete api_flows.simps api_templates_delete_def
    by (intro scoped_stays with_id_stays) (auto simp: api_foreign_stores template_stays split: sum.split)
next
  case (TemplatesGet i)
  then show ?thesis by (simp add: api_templates_get_def call_stays split: option.split)
qed (simp_all add: api_automations_create_def api_automations_get_def api_automations_update_def api_automations_delete_def
    api_automations_activate_def api_automations_deactivate_def api_webhooks_create_def api_webhooks_get_def
    api_webhooks_update_def api_webhooks_delete_def call_stays module_stays reads_stays emails_stay
    foreign_delete_automation [OF assms])

lemma integration_stays:
  assumes "\<And>row js d. r = Inr (row, js, d) \<Longrightarrow> foreign_view ws d = foreign_view ws (state_db st)"
  shows "api_foreign ws (snd (integration_written v st r)) = api_foreign ws st"
  using assms by (auto simp: integration_written_def api_foreign_fields split: sum.split)

lemma setup_stays:
  assumes "cascades_owned (state_db st)"
  shows "api_foreign (tok_workspace t) (snd (api_setup env now t c st)) = api_foreign (tok_workspace t) st"
proof (cases c)
  case (IntegrationsCreate x)
  show ?thesis unfolding IntegrationsCreate api_setup.simps api_integrations_create_def
    by (intro scoped_stays integration_stays) (rule foreign_create_integration)
next
  case (IntegrationsUpdate i x)
  show ?thesis unfolding IntegrationsUpdate api_setup.simps api_integrations_update_def
    by (intro scoped_stays with_id_stays integration_stays) (rule foreign_update_integration)
next
  case (IntegrationsDelete i)
  show ?thesis unfolding IntegrationsDelete api_setup.simps api_integrations_delete_def
    by (intro scoped_stays with_id_stays) (auto simp: api_foreign_fields foreign_delete_integration [OF assms] split: sum.split)
next
  case (IntegrationsGet i)
  then show ?thesis by (simp add: api_integrations_get_def call_stays split: option.split)
next
  case (SendingDomainsCreate d sel k p)
  show ?thesis unfolding SendingDomainsCreate api_setup.simps api_sending_domains_create_def
    by (intro scoped_stays) (auto simp: api_foreign_stores domain_stays split: sum.split)
next
  case (SendingDomainsGet i)
  then show ?thesis by (simp add: api_sending_domains_get_def call_stays split: option.split)
next
  case (SendingDomainsUpdate i sel)
  show ?thesis unfolding SendingDomainsUpdate api_setup.simps api_sending_domains_update_def
    by (intro scoped_stays with_id_stays) (auto simp: api_foreign_stores domain_stays split: sum.split)
next
  case (SendingDomainsDelete i)
  show ?thesis unfolding SendingDomainsDelete api_setup.simps api_sending_domains_delete_def
    by (intro scoped_stays with_id_stays) (auto simp: api_foreign_stores domain_stays split: sum.split)
next
  case (SendingDomainsVerify i)
  show ?thesis unfolding SendingDomainsVerify api_setup.simps api_sending_domains_verify_def
    by (intro scoped_stays with_id_stays) (simp add: api_foreign_fields split: sum.split option.split)
qed


section \<open>Every call asks for its scope\<close>

primrec people_scope :: "people_call \<Rightarrow> string" where
  "people_scope (ContactsCreate a) = ''contacts:write''"
| "people_scope (ContactsGet i) = ''contacts:read''"
| "people_scope (ContactsUpdate i a) = ''contacts:write''"
| "people_scope (ContactsDelete i) = ''contacts:erase''"
| "people_scope (ContactsEraseBy e v) = ''contacts:erase''"
| "people_scope (ContactsBatchUpsert ok items) = ''contacts:write''"
| "people_scope (TagsListForContact i) = ''contacts:read''"
| "people_scope (TagsApply i n) = ''contacts:write''"
| "people_scope (TagsRemove i n) = ''contacts:write''"
| "people_scope (SuppressionsCreate d) = ''contacts:write''"
| "people_scope (UnsubscribesCreate d s) = ''contacts:write''"
| "people_scope (EventsCreate es) = ''events:write''"
| "people_scope (EventsBatchSubmit es) = ''events:write''"

primrec campaign_scope :: "campaign_call \<Rightarrow> string" where
  "campaign_scope (SegmentsCreate n df) = ''segments:write''"
| "campaign_scope (SegmentsGet i) = ''segments:read''"
| "campaign_scope (SegmentsUpdate i n df) = ''segments:write''"
| "campaign_scope (SegmentsDelete i) = ''segments:write''"
| "campaign_scope (SegmentsPreview df) = ''segments:read''"
| "campaign_scope (BroadcastsCreate n f) = ''broadcasts:write''"
| "campaign_scope (BroadcastsGet i) = ''broadcasts:read''"
| "campaign_scope (BroadcastsUpdate i f) = ''broadcasts:write''"
| "campaign_scope (BroadcastsDelete i) = ''broadcasts:write''"
| "campaign_scope (BroadcastsSetAudience i s) = ''broadcasts:write''"
| "campaign_scope (BroadcastsSchedule i due) = ''broadcasts:send''"
| "campaign_scope (BroadcastsUnschedule i) = ''broadcasts:send''"
| "campaign_scope (BroadcastsTestSend i to) = ''broadcasts:write''"
| "campaign_scope (BroadcastsReport i) = ''broadcasts:read''"

primrec flow_scope :: "flow_call \<Rightarrow> string" where
  "flow_scope (AutomationsCreate a) = ''automations:write''"
| "flow_scope (AutomationsGet i) = ''automations:read''"
| "flow_scope (AutomationsUpdate i a) = ''automations:write''"
| "flow_scope (AutomationsDelete i) = ''automations:write''"
| "flow_scope (AutomationsActivate i) = ''automations:activate''"
| "flow_scope (AutomationsDeactivate i) = ''automations:activate''"
| "flow_scope (WebhooksCreate s u ts en) = ''webhooks:write''"
| "flow_scope (WebhooksGet i) = ''webhooks:read''"
| "flow_scope (WebhooksUpdate i u ts en) = ''webhooks:write''"
| "flow_scope (WebhooksDelete i) = ''webhooks:write''"
| "flow_scope (TemplatesCreate n s b) = ''templates:write''"
| "flow_scope (TemplatesGet i) = ''templates:read''"
| "flow_scope (TemplatesUpdate i n s b) = ''templates:write''"
| "flow_scope (TemplatesDelete i) = ''templates:write''"
| "flow_scope (EmailsSend c) = ''emails:send''"

primrec setup_scope :: "setup_call \<Rightarrow> string" where
  "setup_scope (IntegrationsCreate c) = ''integrations:write''"
| "setup_scope (IntegrationsGet i) = ''integrations:read''"
| "setup_scope (IntegrationsUpdate i u) = ''integrations:write''"
| "setup_scope (IntegrationsDelete i) = ''integrations:write''"
| "setup_scope (SendingDomainsCreate d sel k p) = ''sending_domains:write''"
| "setup_scope (SendingDomainsGet i) = ''sending_domains:read''"
| "setup_scope (SendingDomainsUpdate i sel) = ''sending_domains:write''"
| "setup_scope (SendingDomainsDelete i) = ''sending_domains:write''"
| "setup_scope (SendingDomainsVerify i) = ''sending_domains:write''"

primrec required_scope :: "api_call \<Rightarrow> string" where
  "required_scope (People c) = people_scope c"
| "required_scope (Campaigns c) = campaign_scope c"
| "required_scope (Flows c) = flow_scope c"
| "required_scope (Setup c) = setup_scope c"

lemma scoped_refused: "\<not> has_scope (Some t) s \<Longrightarrow> scoped_as s t h st = (ApiUnauthorized, st)"
  by (simp add: scoped_as_def)

lemma api_refused:
  assumes "\<not> has_scope (Some t) (required_scope c)"
  shows "api_handle env now t c st = (ApiUnauthorized, st)"
proof (cases c)
  case (People x)
  with assms show ?thesis
    by (cases x) (simp_all add: scoped_refused api_contacts_create_def api_contacts_get_def api_contacts_update_def
      api_contacts_delete_def api_contacts_erase_by_def api_contacts_batch_upsert_def api_tags_list_for_contact_def
      api_tags_apply_def api_tags_remove_def api_suppressions_create_def api_unsubscribes_create_def api_events_create_def
      api_events_batch_submit_def)
next
  case (Campaigns x)
  with assms show ?thesis
    by (cases x) (simp_all add: scoped_refused api_segments_create_def api_segments_get_def api_segments_update_def
      api_segments_delete_def api_segments_preview_def api_broadcasts_create_def api_broadcasts_get_def api_broadcasts_update_def
      api_broadcasts_delete_def api_broadcasts_set_audience_def api_broadcasts_schedule_def api_broadcasts_unschedule_def
      api_broadcasts_test_send_def api_broadcasts_report_def)
next
  case (Flows x)
  with assms show ?thesis
    by (cases x) (simp_all add: scoped_refused api_automations_create_def api_automations_get_def api_automations_update_def
      api_automations_delete_def api_automations_activate_def api_automations_deactivate_def api_webhooks_create_def
      api_webhooks_get_def api_webhooks_update_def api_webhooks_delete_def api_templates_create_def api_templates_get_def
      api_templates_update_def api_templates_delete_def api_emails_send_def)
next
  case (Setup x)
  with assms show ?thesis
    by (cases x) (simp_all add: scoped_refused api_integrations_create_def api_integrations_get_def api_integrations_update_def
      api_integrations_delete_def api_sending_domains_create_def api_sending_domains_get_def api_sending_domains_update_def
      api_sending_domains_delete_def api_sending_domains_verify_def)
qed

lemma scoped_served:
  assumes "has_scope (Some t) s" and "\<And>ws. fst (h ws st) \<noteq> ApiUnauthorized"
  shows "fst (scoped_as s t h st) \<noteq> ApiUnauthorized"
  using assms by (simp add: scoped_as_def)

lemma with_id_served: "(\<And>i. fst (h i st) \<noteq> ApiUnauthorized) \<Longrightarrow> fst (with_id raw h st) \<noteq> ApiUnauthorized"
  by (simp add: with_id_def split: option.split)

lemma module_served:
  "(\<And>e. fail e \<noteq> ApiUnauthorized) \<Longrightarrow> fst (on_db fail body m st) \<noteq> ApiUnauthorized"
  "(\<And>e. fail e \<noteq> ApiUnauthorized) \<Longrightarrow> fst (on_db_unit fail m' st) \<noteq> ApiUnauthorized"
  "(\<And>e. fail e \<noteq> ApiUnauthorized) \<Longrightarrow> fst (reads fail body m'' st) \<noteq> ApiUnauthorized"
  "fst (found body get st) \<noteq> ApiUnauthorized"
  by (simp_all add: on_db_def on_db_unit_def reads_def found_def split: prod.split sum.split option.split)

text \<open>No module error is told as a missing scope.\<close>

lemma answers_served:
  "contact_answer ce \<noteq> ApiUnauthorized" "tag_answer te \<noteq> ApiUnauthorized" "consent_answer oe \<noteq> ApiUnauthorized"
  "segment_answer se \<noteq> ApiUnauthorized" "broadcast_answer_of be \<noteq> ApiUnauthorized" "automation_answer ae \<noteq> ApiUnauthorized"
  "webhook_answer we \<noteq> ApiUnauthorized" "template_answer tpe \<noteq> ApiUnauthorized" "integration_answer ie \<noteq> ApiUnauthorized"
  "domain_answer de \<noteq> ApiUnauthorized" "email_answer dest er \<noteq> ApiUnauthorized" "domain_body dr \<noteq> ApiUnauthorized"
  "integration_body v row \<noteq> ApiUnauthorized"
  by (simp_all add: contact_answer_def tag_answer_def consent_answer_def segment_answer_def broadcast_answer_of_def
      automation_answer_def webhook_answer_def template_answer_def integration_answer_def domain_answer_def email_answer_def
      domain_body_def integration_body_def split: contact_error.split tag_error.split segment_module_error.split
      automation_error.split webhook_error.split template_error.split domain_error.split sum.split outbound_error.split
      outcome.split option.split)

lemma parts_served:
  "fst (erase_as now t i ws st) \<noteq> ApiUnauthorized" "fst (integration_written v st r) \<noteq> ApiUnauthorized"
  by (simp_all add: erase_as_def integration_written_def answers_served split: prod.split option.split erase_error.split sum.split)

lemmas served = scoped_served with_id_served module_served answers_served parts_served

lemma people_served: "has_scope (Some t) (people_scope c) \<Longrightarrow> fst (api_people env now t c st) \<noteq> ApiUnauthorized"
  by (cases c)
     (auto simp: api_contacts_create_def api_contacts_get_def api_contacts_update_def api_contacts_delete_def
      api_contacts_erase_by_def api_contacts_batch_upsert_def api_tags_list_for_contact_def api_tags_apply_def
      api_tags_remove_def api_suppressions_create_def api_unsubscribes_create_def api_events_create_def
      api_events_batch_submit_def case_prod_beta intro!: scoped_served with_id_served
      simp: served split: option.split)

lemma campaigns_served: "has_scope (Some t) (campaign_scope c) \<Longrightarrow> fst (api_campaigns env now t c st) \<noteq> ApiUnauthorized"
  by (cases c)
     (auto simp: api_segments_create_def api_segments_get_def api_segments_update_def api_segments_delete_def
      api_segments_preview_def api_broadcasts_create_def api_broadcasts_get_def api_broadcasts_update_def api_broadcasts_delete_def
      api_broadcasts_set_audience_def api_broadcasts_schedule_def api_broadcasts_unschedule_def api_broadcasts_test_send_def
      api_broadcasts_report_def case_prod_beta intro!: scoped_served with_id_served simp: served split: option.split sum.split)

lemma flows_served: "has_scope (Some t) (flow_scope c) \<Longrightarrow> fst (api_flows env now t c st) \<noteq> ApiUnauthorized"
  by (cases c)
     (auto simp: api_automations_create_def api_automations_get_def api_automations_update_def api_automations_delete_def
      api_automations_activate_def api_automations_deactivate_def api_webhooks_create_def api_webhooks_get_def
      api_webhooks_update_def api_webhooks_delete_def api_templates_create_def api_templates_get_def api_templates_update_def
      api_templates_delete_def api_emails_send_def Let_def case_prod_beta intro!: scoped_served with_id_served
      simp: served split: option.split sum.split)

lemma setup_served: "has_scope (Some t) (setup_scope c) \<Longrightarrow> fst (api_setup env now t c st) \<noteq> ApiUnauthorized"
  by (cases c)
     (auto simp: api_integrations_create_def api_integrations_get_def api_integrations_update_def api_integrations_delete_def
      api_sending_domains_create_def api_sending_domains_get_def api_sending_domains_update_def api_sending_domains_delete_def
      api_sending_domains_verify_def case_prod_beta intro!: scoped_served with_id_served simp: served split: option.split sum.split)

text \<open>A call answers \<open>insufficient scope\<close> exactly when the token lacks the scope of its operation, and then nothing has
  happened.\<close>

theorem scope_is_required:
  "if has_scope (Some t) (required_scope c) then fst (api_handle env now t c st) \<noteq> ApiUnauthorized
   else api_handle env now t c st = (ApiUnauthorized, st)"
proof (cases "has_scope (Some t) (required_scope c)")
  case True
  then have "fst (api_handle env now t c st) \<noteq> ApiUnauthorized"
    by (cases c) (simp_all add: people_served campaigns_served flows_served setup_served)
  with True show ?thesis by simp
qed (simp add: api_refused)

section \<open>Authoring never sends\<close>

text \<open>The Broadcasts that are on their way and the Automations that run.\<close>

definition launching :: "broadcast_status \<Rightarrow> bool" where
  "launching s \<longleftrightarrow> s = BcScheduled \<or> s = BcSending"

definition going_out :: "db \<Rightarrow> id set" where
  "going_out d = set (map bc_id (filter (\<lambda>b. launching (bc_status b)) (broadcasts d)))"

definition active_ids :: "db \<Rightarrow> id set" where
  "active_ids d = set (map au_id (filter (\<lambda>a. au_status a = AutoActive) (automations d)))"

definition no_launch :: "db \<Rightarrow> db \<Rightarrow> bool" where
  "no_launch d d' \<longleftrightarrow> going_out d' \<subseteq> going_out d \<and> active_ids d' \<subseteq> active_ids d"

definition flows_of :: "db \<Rightarrow> broadcast list \<times> automation list" where
  "flows_of d = (broadcasts d, automations d)"

lemma no_launch_same: "flows_of d' = flows_of d \<Longrightarrow> no_launch d d'"
  by (simp add: no_launch_def going_out_def active_ids_def flows_of_def)

lemma flows_of_tables [simp]:
  "flows_of (d\<lparr>next_id := n\<rparr>) = flows_of d" "flows_of (d\<lparr>contacts := x_con\<rparr>) = flows_of d"
  "flows_of (d\<lparr>suppressions := x_sup\<rparr>) = flows_of d" "flows_of (d\<lparr>unsubscribes := x_uns\<rparr>) = flows_of d"
  "flows_of (d\<lparr>segments := x_seg\<rparr>) = flows_of d" "flows_of (d\<lparr>tags := x_tag\<rparr>) = flows_of d"
  "flows_of (d\<lparr>contact_tags := x_lnk\<rparr>) = flows_of d" "flows_of (d\<lparr>custom_fields := x_cf\<rparr>) = flows_of d"
  "flows_of (d\<lparr>integrations := x_int\<rparr>) = flows_of d" "flows_of (d\<lparr>send_limiters := x_sl\<rparr>) = flows_of d"
  "flows_of (d\<lparr>webhook_endpoints := x_wh\<rparr>) = flows_of d" "flows_of (publish now ev d) = flows_of d"
  by (simp_all add: flows_of_def)

lemma flows_custom_fields: "ensure_custom_fields ws kvs d = (typed, d1) \<Longrightarrow> flows_of d1 = flows_of d"
proof -
  have "flows_of (fold (ensure_custom_field ws) l x) = flows_of x" for l x
    by (induction l arbitrary: x) (simp_all add: ensure_custom_field_def)
  then show "ensure_custom_fields ws kvs d = (typed, d1) \<Longrightarrow> flows_of d1 = flows_of d"
    by (auto simp: ensure_custom_fields_def Let_def)
qed

lemma flows_insert_contact: "flows_of (snd (insert_contact now ws a typed d)) = flows_of d"
  by (simp add: insert_contact_def Let_def split: option.split)

lemma flows_save_contact: "flows_of (snd (save_contact c d)) = flows_of d"
  by (simp add: save_contact_def split: option.split)

lemma flows_contact_tx:
  assumes "\<And>x. flows_of (snd (body x)) = flows_of x"
  shows "flows_of (snd (contact_tx body d)) = flows_of d"
  using assms [of d] by (auto simp: contact_tx_def split: prod.split sum.split)

lemma flows_contact_writes:
  "flows_of (snd (contact_create now ws attrs d)) = flows_of d"
  "flows_of (snd (contact_update ws cid attrs d)) = flows_of d"
  unfolding contact_create_def contact_update_def
  by (rule flows_contact_tx, auto simp: Let_def flows_insert_contact flows_save_contact
      split: prod.split option.split dest!: flows_custom_fields)+

lemma flows_upsert: "flows_of (snd (upsert now ws attrs d)) = flows_of d"
proof -
  have parts: "insert_contact now ws a typed x = (r, y) \<Longrightarrow> flows_of y = flows_of x"
    "save_contact c x = (r', y) \<Longrightarrow> flows_of y = flows_of x" for a typed x y c r r'
    using flows_insert_contact [of now ws a typed x] flows_save_contact [of c x] by simp_all
  have "flows_of (snd (upsert_in now ws attrs x)) = flows_of x" for x
    by (simp only: upsert_in_def Let_def)
       (auto split: prod.split sum.split option.split dest!: flows_custom_fields parts)
  then show ?thesis unfolding upsert_def by (rule flows_contact_tx)
qed

lemma flows_upsert_batch: "flows_of (snd (upsert_batch now ws who ok items d)) = flows_of d"
proof -
  have "flows_of (snd (upsert_rows now ws items d)) = flows_of d"
    by (induction items arbitrary: d) (auto simp: flows_upsert case_prod_beta)
  then show ?thesis by (simp add: upsert_batch_def record_import_def record_audit_def case_prod_beta split: option.split)
qed

lemma flows_people:
  "flows_of (snd (apply_tag ws cid raw d)) = flows_of d"
  "flows_of (snd (remove_tag ws cid raw d)) = flows_of d"
  "flows_of (snd (suppress ws dest d)) = flows_of d"
  "flows_of (ingest now ws evs d) = flows_of d"
  by (simp_all add: apply_tag_def create_tag_def add_tag_def remove_tag_def remove_tag_link_def suppress_def Let_def
      split: option.split list.split)
     (induction evs arbitrary: d, simp_all add: ingest_def ingest_one_def)

lemma flows_ingest_each: "flows_of (snd (ingest_each now ws evs d)) = flows_of d"
  by (induction evs arbitrary: d) (simp_all add: flows_people case_prod_beta)


lemma flows_unsubscribe_destination: "flows_of (snd (unsubscribe_destination now ws dest source d)) = flows_of d"
proof -
  have "flows_of (snd (unsubscribe_tx now t x d)) = flows_of d" if "ut_broadcast t = 0" for t x
    by (simp add: unsubscribe_tx_def drop_confirmation_def leave_automation_def exit_automation_def flows_of_def that Let_def
        split: option.split)
  then have "within_tx (unsubscribe_tx now t x) d = (e, d') \<Longrightarrow> ut_broadcast t = 0 \<Longrightarrow> flows_of d' = flows_of d" for t x e d'
    by (auto simp: within_tx_def split: prod.splits option.splits) (metis snd_conv)+
  then have "record_unsubscribe now t d = (e, d') \<Longrightarrow> ut_broadcast t = 0 \<Longrightarrow> flows_of d' = flows_of d" for t e d'
    by (auto simp: record_unsubscribe_def Let_def split: prod.splits if_splits)
  then show ?thesis by (auto simp: unsubscribe_destination_def Let_def split: option.split prod.split)
qed

lemma flows_segments:
  "flows_of (snd (create_segment ws now name df d)) = flows_of d"
  "flows_of (snd (update_segment ws now i nm df d)) = flows_of d"
  "flows_of (snd (delete_segment ws i d)) = flows_of d"
  by (simp_all add: create_segment_def update_segment_def delete_segment_def Let_def split: option.split)

lemma flows_webhooks:
  "flows_of (snd (create_webhook pu seal unseal lic secret ws url types en d)) = flows_of d"
  "flows_of (snd (update_webhook pu unseal lic ws i u ts en d)) = flows_of d"
  "flows_of (snd (delete_webhook ws i d)) = flows_of d"
  by (simp_all add: create_webhook_def update_webhook_def delete_webhook_def Let_def split: option.split)

lemma flows_integrations:
  "create_integration v ws inp d = Inr (row, jobs, d') \<Longrightarrow> flows_of d' = flows_of d"
  "update_integration v ws i upd d = Inr (row, jobs, d') \<Longrightarrow> flows_of d' = flows_of d"
  "delete_integration ws i d = Inr d' \<Longrightarrow> flows_of d' = flows_of d"
  by (auto simp: create_integration_def update_integration_def write_update_def delete_integration_def clear_default_def
      Let_def split: option.splits sum.splits prod.splits if_splits)

lemma no_launch_set_broadcast:
  assumes "\<And>b. p b \<Longrightarrow> bc_id (f b) = bc_id b \<and> (launching (bc_status (f b)) \<longrightarrow> launching (bc_status b))"
  shows "no_launch d (set_broadcast ws i p f d)"
proof -
  have "set (map bc_id (filter (\<lambda>b. launching (bc_status b)) (update_where q f l))) \<subseteq> set (map bc_id (filter (\<lambda>b. launching (bc_status b)) l))"
    if "\<And>b. q b \<Longrightarrow> p b" for q l
    using assms that by (induction l) (auto simp: update_where_def)
  from this [of "\<lambda>b. broadcast_row ws i b \<and> p b" "broadcasts d"]
  show ?thesis by (simp add: no_launch_def going_out_def active_ids_def set_broadcast_def)
qed

lemma no_launch_trans: "no_launch a b \<Longrightarrow> no_launch b c \<Longrightarrow> no_launch a c"
  by (auto simp: no_launch_def)

lemma no_launch_refl [simp]: "no_launch d d"
  by (simp add: no_launch_def)

lemma no_launch_edit:
  assumes "\<And>b. bc_id (f b) = bc_id b \<and> bc_status (f b) = bc_status b"
  shows "no_launch d (snd (edit_draft ws i f d))"
proof -
  have "no_launch d (set_broadcast ws i is_draft f d)" by (rule no_launch_set_broadcast) (simp add: assms)
  then show ?thesis by (simp add: edit_draft_def Let_def split: option.split)
qed

lemma no_launch_drafts:
  "no_launch d (snd (create_broadcast ws f d))" "no_launch d (snd (update_broadcast ws i f d))"
  "no_launch d (snd (set_audience ws i seg d))" "no_launch d (snd (delete_draft ws i d))"
proof -
  show "no_launch d (snd (create_broadcast ws f d))"
    by (auto simp: create_broadcast_def Let_def no_launch_def going_out_def active_ids_def launching_def split: option.split)
  show "no_launch d (snd (update_broadcast ws i f d))"
    by (simp add: update_broadcast_def no_launch_edit apply_fields_def split: option.split)
  show "no_launch d (snd (set_audience ws i seg d))"
    by (simp add: set_audience_def no_launch_edit)
  show "no_launch d (snd (delete_draft ws i d))"
    by (auto simp: delete_draft_def Let_def no_launch_def going_out_def active_ids_def delete_where_def)
qed

lemma no_launch_automations:
  "no_launch d (snd (create_automation ws inp d))" "no_launch d (snd (update_automation ws i upd d))"
  "no_launch d (snd (delete_automation ws i d))"
proof -
  show "no_launch d (snd (create_automation ws inp d))"
    by (auto simp: create_automation_def Let_def no_launch_def going_out_def active_ids_def split: option.split)
  have "set (map au_id (filter (\<lambda>a. au_status a = AutoActive) (update_where p (set_automation upd) l))) \<subseteq>
      set (map au_id (filter (\<lambda>a. au_status a = AutoActive) l))" for p l
    by (induction l) (auto simp: update_where_def set_automation_def)
  then show "no_launch d (snd (update_automation ws i upd d))"
    by (simp add: update_automation_def no_launch_def going_out_def active_ids_def split: option.split)
  show "no_launch d (snd (delete_automation ws i d))"
    by (auto simp: delete_automation_def no_launch_def going_out_def active_ids_def delete_where_def split: option.split)
qed

lemma no_launch_shrink: "no_launch d (shrink_and_settle ws now l b d)"
proof -
  have "no_launch d (set_broadcast ws b (\<lambda>_. True) (\<lambda>b. b\<lparr>bc_recipients_total := g b\<rparr>) d)" for g
    by (rule no_launch_set_broadcast) simp
  moreover have "no_launch x (finalize ws now b x)" for x
    by (auto simp: finalize_def launching_def intro!: no_launch_set_broadcast)
  ultimately show ?thesis unfolding shrink_and_settle_def by (rule no_launch_trans)
qed

lemma no_launch_erase: "no_launch d (fst (snd (erase now ws i op (d, jobs))))"
proof (cases "fst (erase now ws i op (d, jobs))")
  case (Some e)
  then have "snd (erase now ws i op (d, jobs)) = (d, jobs)" by (auto simp: erase_def split: sum.splits prod.splits)
  then show ?thesis by simp
next
  case None
  then obtain d' jobs' where er: "erase now ws i op (d, jobs) = (None, d', jobs')" by (cases "erase now ws i op (d, jobs)") auto
  obtain t d1 u where c: "cancel_in_flight now ws t (d, jobs) = (Inr (), d1, jobs')" and e: "erased_db now ws t op u d d1 d'"
    using erase_tables [OF er] by blast
  have folded: "no_launch x (fold (shrink_and_settle ws now l) bs x)" for l bs x
    by (induction bs arbitrary: x) (auto intro: no_launch_trans no_launch_shrink)
  let ?x = "(purge_outbox ws (tg_contact t) (tg_destinations t) d)\<lparr>recipients := without_unsent ws t d\<rparr>"
  have "no_launch d ?x" by (rule no_launch_same) (simp add: flows_of_def purge_outbox_def)
  then have "no_launch d d1" unfolding cancel_shape(2) [OF c] by (rule no_launch_trans) (rule folded)
  moreover have "broadcasts d' = broadcasts d1" "automations d' = automations d"
    using e by (simp_all add: erased_db_def)
  ultimately show ?thesis using er by (simp add: no_launch_def going_out_def active_ids_def)
qed


lemma no_launch_on_db:
  "no_launch (state_db st) (snd (m (state_db st))) \<Longrightarrow> no_launch (state_db st) (state_db (snd (on_db fail body m st)))"
  "no_launch (state_db st) (snd (m' (state_db st))) \<Longrightarrow> no_launch (state_db st) (state_db (snd (on_db_unit fail m' st)))"
  by (simp_all add: on_db_def on_db_unit_def case_prod_beta)

lemma queue_on_db [simp]:
  "as_queue (snd (on_db fail body m st)) = as_queue st" "as_queue (snd (on_db_unit fail m' st)) = as_queue st"
  "as_queue (with_db st d) = as_queue st"
  by (simp_all add: on_db_def on_db_unit_def with_db_def case_prod_beta)

text \<open>What a call may leave behind without one of the two launching scopes.\<close>

definition launches_nothing :: "'q api_state \<Rightarrow> 'q api_state \<Rightarrow> bool" where
  "launches_nothing st st' \<longleftrightarrow> no_launch (state_db st) (state_db st') \<and> as_queue st' = as_queue st"

lemma launches_refl [simp]: "launches_nothing st st"
  by (simp add: launches_nothing_def)

lemma launches_scoped: "(\<And>ws. launches_nothing st (snd (h ws st))) \<Longrightarrow> launches_nothing st (snd (scoped_as s t h st))"
  by (simp add: scoped_as_def)

lemma launches_with_id: "(\<And>i. launches_nothing st (snd (h i st))) \<Longrightarrow> launches_nothing st (snd (with_id raw h st))"
  by (simp add: with_id_def split: option.split)

lemma launches_on_db:
  "no_launch (state_db st) (snd (m (state_db st))) \<Longrightarrow> launches_nothing st (snd (on_db fail body m st))"
  "no_launch (state_db st) (snd (m' (state_db st))) \<Longrightarrow> launches_nothing st (snd (on_db_unit fail m' st))"
  "no_launch (state_db st) d \<Longrightarrow> launches_nothing st (with_db st d)"
  by (simp_all add: launches_nothing_def no_launch_on_db)

lemma launches_stores:
  "launches_nothing st (st\<lparr>as_templates := s\<rparr>)" "launches_nothing st (st\<lparr>as_domains := dm\<rparr>)"
  "launches_nothing st (st\<lparr>as_checks := ids\<rparr>)"
  "no_launch (state_db st) d \<Longrightarrow> launches_nothing st ((with_db st d)\<lparr>as_jobs := js\<rparr>)"
  "no_launch (state_db st) d \<Longrightarrow> launches_nothing st ((with_db st d)\<lparr>as_quota := ids\<rparr>)"
  "no_launch (state_db st) (wd_db w) \<Longrightarrow> launches_nothing st (st\<lparr>as_world := w\<rparr>)"
  by (simp_all add: launches_nothing_def state_db_def with_db_def)

lemmas launches = launches_scoped launches_with_id launches_on_db launches_stores reads_stays

lemmas launch_free = flows_contact_writes flows_upsert_batch flows_people flows_ingest_each flows_unsubscribe_destination
  flows_segments flows_webhooks

lemma launches_erase: "launches_nothing st (snd (erase_as now t i ws st))"
  using no_launch_erase [of "state_db st" now ws i "token_operator t" "as_jobs st"]
  by (simp add: erase_as_def case_prod_beta launches_stores)

lemma people_launch: "launches_nothing st (snd (api_people env now t c st))"
proof (cases c)
  case (ContactsEraseBy e v)
  then show ?thesis by (cases e; cases v) (simp_all add: api_contacts_erase_by_def scoped_as_def launches_erase)
qed (simp_all add: api_contacts_create_def api_contacts_get_def api_contacts_update_def api_contacts_delete_def
    api_contacts_batch_upsert_def api_tags_list_for_contact_def api_tags_apply_def api_tags_remove_def
    api_suppressions_create_def api_unsubscribes_create_def api_events_create_def api_events_batch_submit_def
    launches launches_erase no_launch_same launch_free case_prod_beta)

lemma campaigns_launch:
  assumes "\<not> has_scope (Some t) ''broadcasts:send''"
  shows "launches_nothing st (snd (api_campaigns env now t c st))"
proof (cases c)
  case (BroadcastsTestSend i to)
  then show ?thesis
    by (simp add: api_broadcasts_test_send_def launches case_prod_beta foreign_test_send state_db_def split: option.split)
next
  case (BroadcastsSetAudience i s)
  then show ?thesis by (cases s) (simp_all add: api_broadcasts_set_audience_def launches no_launch_drafts split: option.split)
qed (simp_all add: api_segments_create_def api_segments_get_def api_segments_update_def api_segments_delete_def
    api_segments_preview_def api_broadcasts_create_def api_broadcasts_get_def api_broadcasts_update_def api_broadcasts_delete_def
    api_broadcasts_schedule_def api_broadcasts_unschedule_def api_broadcasts_report_def launches no_launch_same launch_free
    no_launch_drafts scoped_refused [OF assms])

lemma no_launch_send: "no_launch (wd_db wd) (wd_db (snd (send env now ws req wd)))"
  using other_tables_fields(3,5) [OF tables_send [of env now ws req wd]]
  by (intro no_launch_same) (simp add: flows_of_def)

lemma flows_launch:
  assumes "\<not> has_scope (Some t) ''automations:activate''"
  shows "launches_nothing st (snd (api_flows env now t c st))"
proof (cases c)
  case (EmailsSend x)
  show ?thesis unfolding EmailsSend api_flows.simps api_emails_send_def
    by (intro launches_scoped) (simp add: Let_def case_prod_beta launches no_launch_send state_db_def split: option.split)
next
  case (TemplatesCreate n s b)
  show ?thesis unfolding TemplatesCreate api_flows.simps api_templates_create_def
    by (intro launches_scoped) (auto simp: launches_stores split: sum.split option.split)
next
  case (TemplatesUpdate i n s b)
  show ?thesis unfolding TemplatesUpdate api_flows.simps api_templates_update_def
    by (intro launches_scoped launches_with_id) (auto simp: launches_stores split: sum.split option.split)
next
  case (TemplatesDelete i)
  show ?thesis unfolding TemplatesDelete api_flows.simps api_templates_delete_def
    by (intro launches_scoped launches_with_id) (auto simp: launches_stores split: sum.split option.split)
next
  case (TemplatesGet i)
  show ?thesis unfolding TemplatesGet api_flows.simps api_templates_get_def
    by (intro launches_scoped launches_with_id) (auto simp: launches_stores split: sum.split option.split)
qed (simp_all add: api_automations_create_def api_automations_get_def api_automations_update_def api_automations_delete_def
    api_automations_activate_def api_automations_deactivate_def api_webhooks_create_def api_webhooks_get_def
    api_webhooks_update_def api_webhooks_delete_def launches no_launch_same launch_free no_launch_automations
    scoped_refused [OF assms])

lemma launches_integration:
  assumes "\<And>row js d. r = Inr (row, js, d) \<Longrightarrow> flows_of d = flows_of (state_db st)"
  shows "launches_nothing st (snd (integration_written v st r))"
  using assms by (auto simp: integration_written_def intro!: launches_stores no_launch_same split: sum.split)

lemma setup_launch: "launches_nothing st (snd (api_setup env now t c st))"
proof (cases c)
  case (IntegrationsCreate x)
  show ?thesis unfolding IntegrationsCreate api_setup.simps api_integrations_create_def
    by (intro launches_scoped launches_integration) (rule flows_integrations(1))
next
  case (IntegrationsUpdate i x)
  show ?thesis unfolding IntegrationsUpdate api_setup.simps api_integrations_update_def
    by (intro launches_scoped launches_with_id launches_integration) (rule flows_integrations(2))
next
  case (IntegrationsDelete i)
  show ?thesis unfolding IntegrationsDelete api_setup.simps api_integrations_delete_def
    by (intro launches_scoped launches_with_id)
       (auto intro!: launches_on_db no_launch_same dest: flows_integrations(3) split: sum.split)
qed (simp_all add: api_integrations_get_def api_sending_domains_create_def api_sending_domains_get_def api_sending_domains_update_def
    api_sending_domains_delete_def api_sending_domains_verify_def launches case_prod_beta split: sum.split option.split)

text \<open>C10: Authoring never sends: with a token that holds neither \<open>broadcasts:send\<close> nor \<open>automations:activate\<close> no call makes a
  Broadcast scheduled or sending, or an Automation active, that was not, and nothing is queued for the send job.\<close>

theorem authoring_never_sends:
  assumes "\<not> has_scope (Some t) ''broadcasts:send''" and "\<not> has_scope (Some t) ''automations:activate''"
  shows "launches_nothing st (snd (api_handle env now t c st))"
  by (cases c) (simp_all add: people_launch campaigns_launch flows_launch setup_launch assms)


section \<open>A concrete call\<close>

definition demo_flow :: "id \<Rightarrow> id \<Rightarrow> automation" where
  "demo_flow i ws = \<lparr>au_id = i, au_workspace = ws, au_name = ''welcome'', au_status = AutoDraft, au_trigger = ''signup'',
     au_definition = EmptyText\<rparr>"

definition demo_api_db :: db where
  "demo_api_db = empty_db\<lparr>workspaces := [sample_workspace 1, sample_workspace 2],
     automations := [demo_flow 8 1, demo_flow 9 2], next_id := 20\<rparr>"

definition demo_api_state :: "send_job list api_state" where
  "demo_api_state = \<lparr>as_world = \<lparr>wd_db = demo_api_db, wd_wire = []\<rparr>, as_jobs = [], as_queue = [], as_quota = [], as_checks = [],
     as_templates = \<lparr>tpl_rows = [], next_template = 1\<rparr>, as_domains = \<lparr>domain_rows = [], next_domain = 1\<rparr>\<rparr>"

definition demo_api_env :: "send_job list api_env" where
  "demo_api_env = \<lparr>ap_outbound = sample_env, ap_enqueue = river_enqueue True, ap_json = (\<lambda>_ _ _. None), ap_vault = demo_vault,
     ap_parse_url = (\<lambda>u. Some (''https'', u)), ap_seal = (\<lambda>s. s), ap_unseal = Some, ap_licensed = False,
     ap_is_ip = (\<lambda>_. False), ap_to_ascii = Some\<rparr>"

definition demo_api_token :: api_token where
  "demo_api_token = \<lparr>tok_id = 4, tok_workspace = 1, tok_name = ''ci'', tok_prefix = ''1m'', tok_secret_hash = ''h'',
     tok_scopes = [''automations:write''], tok_expires_at = None, tok_revoked_at = None\<rparr>"

definition demo_delete :: "string \<Rightarrow> api_answer \<times> send_job list api_state" where
  "demo_delete i = api_handle demo_api_env 0 demo_api_token (Flows (AutomationsDelete i)) demo_api_state"

lemma demo_delete_own: "map au_id (automations (state_db (snd (demo_delete ''8'')))) = [9]"
proof -
  have p: "parse_int64 ''8'' = Some 8" by code_simp
  show ?thesis
    by (simp add: demo_delete_def api_automations_delete_def scoped_as_def has_scope_def demo_api_token_def with_id_def p
        on_db_unit_def delete_automation_def get_automation_def state_db_def demo_api_state_def demo_api_db_def demo_flow_def
        with_db_def find_where_def in_ws_def delete_where_def)
qed

lemma demo_api_owned: "cascades_owned (state_db demo_api_state)"
  by (simp add: cascades_owned_def state_db_def demo_api_state_def demo_api_db_def)


theorem authoring_never_sends_witness:
  "launches_nothing demo_api_state (snd (demo_delete ''8'')) \<and> automations (state_db (snd (demo_delete ''8''))) \<noteq> automations demo_api_db"
proof -
  have "\<not> has_scope (Some demo_api_token) ''broadcasts:send''" "\<not> has_scope (Some demo_api_token) ''automations:activate''"
    by (simp_all add: has_scope_def demo_api_token_def)
  from authoring_never_sends [OF this, of demo_api_state demo_api_env 0 "Flows (AutomationsDelete ''8'')"]
  show ?thesis using demo_delete_own by (auto simp: demo_delete_def demo_api_db_def demo_flow_def)
qed

end
