(* ===== verification/SiteApi.thy ===== *)
theory SiteApi
  imports ApiSafety
begin

text \<open>
  The site API over the content of a Workspace (\<open>internal/api/site\<close>): the same modules as the external API, reached
  through the signed-in User's Membership in the Workspace the path names. A request is decoded already. The state and
  the answers are those of the external API; \<open>site_scope\<close> is what \<open>scopedFor\<close> answers.
\<close>

section \<open>The scope of a request\<close>

datatype scope_error = ScopeNotFound | ScopeWithheld | ScopeFailed

type_synonym site_scope = "scope_error + id \<times> role"

definition scope_for :: "time \<Rightarrow> id \<Rightarrow> string \<Rightarrow> accounts_db \<Rightarrow> site_scope" where
  "scope_for now uid slug a =
     (case membership_for now uid slug a of
        Inr (w, m) \<Rightarrow> Inr (ws_id w, mb_role m)
      | Inl AnsNotFound \<Rightarrow> Inl ScopeNotFound
      | Inl AnsSecondFactorRequired \<Rightarrow> Inl ScopeWithheld
      | Inl _ \<Rightarrow> Inl ScopeFailed)"

text \<open>What every handler but the two of the Automation lifecycle makes of a refused scope.\<close>

definition scope_answer :: "scope_error \<Rightarrow> api_answer" where
  "scope_answer e = (case e of ScopeNotFound \<Rightarrow> ApiNotFound | ScopeWithheld \<Rightarrow> ApiForbidden | ScopeFailed \<Rightarrow> ApiError)"

definition in_scope :: "site_scope \<Rightarrow> (id \<Rightarrow> 'q api_state \<Rightarrow> 'q api_result) \<Rightarrow> 'q api_state \<Rightarrow> 'q api_result" where
  "in_scope sc h st = (case sc of Inl e \<Rightarrow> (scope_answer e, st) | Inr (ws, _) \<Rightarrow> h ws st)"

section \<open>Contacts, Tags and Suppressions\<close>

definition site_contacts_create :: "time \<Rightarrow> attributes \<Rightarrow> site_scope \<Rightarrow> 'q api_state \<Rightarrow> 'q api_result" where
  "site_contacts_create now attrs sc = in_scope sc (\<lambda>ws. on_db contact_answer ContactBody (contact_create now ws attrs))"

definition site_contacts_get :: "string \<Rightarrow> site_scope \<Rightarrow> 'q api_state \<Rightarrow> 'q api_result" where
  "site_contacts_get raw sc = in_scope sc (\<lambda>ws. with_id raw (\<lambda>i. found ContactBody (get_contact ws i)))"

definition site_contacts_update :: "string \<Rightarrow> attributes \<Rightarrow> site_scope \<Rightarrow> 'q api_state \<Rightarrow> 'q api_result" where
  "site_contacts_update raw attrs sc =
     in_scope sc (\<lambda>ws. with_id raw (\<lambda>i. on_db contact_answer ContactBody (contact_update ws i attrs)))"

text \<open>The role is asked before the id is parsed.\<close>

definition site_contacts_delete :: "time \<Rightarrow> id \<Rightarrow> string \<Rightarrow> site_scope \<Rightarrow> 'q api_state \<Rightarrow> 'q api_result" where
  "site_contacts_delete now uid raw sc st =
     (case sc of
        Inl e \<Rightarrow> (scope_answer e, st)
      | Inr (ws, r) \<Rightarrow>
          if \<not> can_erase r then (ApiForbidden, st)
          else with_id raw (\<lambda>i st.
            case erase now ws (ByContactID i) \<lparr>op_kind = ''user'', op_id = uid\<rparr> (state_db st, as_jobs st) of
              (res, d, jobs) \<Rightarrow>
                (case res of None \<Rightarrow> ApiOk NoBody | Some EraseNotFound \<Rightarrow> ApiNotFound | Some _ \<Rightarrow> ApiError,
                 (with_db st d)\<lparr>as_jobs := jobs\<rparr>)) st)"

definition site_tags_list_for_contact :: "string \<Rightarrow> site_scope \<Rightarrow> 'q api_state \<Rightarrow> 'q api_result" where
  "site_tags_list_for_contact raw sc = in_scope sc (\<lambda>ws. with_id raw (\<lambda>i. reads tag_answer TagsBody (tags_for_contact ws i)))"

definition site_tags_apply :: "string \<Rightarrow> string \<Rightarrow> site_scope \<Rightarrow> 'q api_state \<Rightarrow> 'q api_result" where
  "site_tags_apply raw name sc = in_scope sc (\<lambda>ws. with_id raw (\<lambda>i. on_db tag_answer TagBody (apply_tag ws i name)))"

definition site_tags_remove :: "string \<Rightarrow> string \<Rightarrow> site_scope \<Rightarrow> 'q api_state \<Rightarrow> 'q api_result" where
  "site_tags_remove raw name sc = in_scope sc (\<lambda>ws. with_id raw (\<lambda>i. on_db_unit tag_answer (remove_tag ws i name)))"

definition site_suppressions_create :: "string \<Rightarrow> site_scope \<Rightarrow> 'q api_state \<Rightarrow> 'q api_result" where
  "site_suppressions_create dest sc = in_scope sc (\<lambda>ws. on_db consent_answer SuppressionBody (suppress ws dest))"

definition lift_suppression :: "id \<Rightarrow> id \<Rightarrow> db \<Rightarrow> bool option \<times> db" where
  "lift_suppression ws i d =
     (if exists_where (in_ws sup_workspace ws (\<lambda>s. sup_id s = i)) (suppressions d)
      then (None, d\<lparr>suppressions := delete_where (in_ws sup_workspace ws (\<lambda>s. sup_id s = i)) (suppressions d)\<rparr>)
      else (Some True, d))"

definition site_suppressions_delete :: "string \<Rightarrow> site_scope \<Rightarrow> 'q api_state \<Rightarrow> 'q api_result" where
  "site_suppressions_delete raw sc = in_scope sc (\<lambda>ws. with_id raw (\<lambda>i. on_db_unit (\<lambda>_. ApiNotFound) (lift_suppression ws i)))"

section \<open>Segments, Broadcasts and Automations\<close>

definition site_segments_create :: "time \<Rightarrow> string \<Rightarrow> json_text \<Rightarrow> site_scope \<Rightarrow> 'q api_state \<Rightarrow> 'q api_result" where
  "site_segments_create now name df sc =
     in_scope sc (\<lambda>ws. on_db segment_answer SegmentBody (create_segment ws now name (Some df)))"

definition site_segments_get :: "string \<Rightarrow> site_scope \<Rightarrow> 'q api_state \<Rightarrow> 'q api_result" where
  "site_segments_get raw sc = in_scope sc (\<lambda>ws. with_id raw (\<lambda>i. found SegmentBody (get_segment ws i)))"

definition site_segments_update :: "time \<Rightarrow> string \<Rightarrow> string option \<Rightarrow> json_text option \<Rightarrow> site_scope \<Rightarrow> 'q api_state \<Rightarrow> 'q api_result" where
  "site_segments_update now raw name df sc =
     in_scope sc (\<lambda>ws. with_id raw (\<lambda>i. on_db segment_answer SegmentBody (update_segment ws now i name df)))"

definition site_segments_delete :: "string \<Rightarrow> site_scope \<Rightarrow> 'q api_state \<Rightarrow> 'q api_result" where
  "site_segments_delete raw sc = in_scope sc (\<lambda>ws. with_id raw (\<lambda>i. on_db_unit segment_answer (delete_segment ws i)))"

definition site_segments_preview :: "sql_json \<Rightarrow> time \<Rightarrow> json_text \<Rightarrow> site_scope \<Rightarrow> 'q api_state \<Rightarrow> 'q api_result" where
  "site_segments_preview sj now df sc = in_scope sc (\<lambda>ws. reads segment_answer CountBody (preview_segment sj ws now df))"

text \<open>A Broadcast's form: references as the text the client sent; a field is cleared by an explicit null.\<close>

datatype 'a patched = Absent | Cleared | Given 'a

definition given :: "'a patched \<Rightarrow> 'a option" where
  "given p = (case p of Given v \<Rightarrow> Some v | _ \<Rightarrow> None)"

record site_draft =
  sf_name :: "string option"
  sf_subject :: "string option"
  sf_from_name :: "string patched"
  sf_from_email :: "string patched"
  sf_body :: "string option"
  sf_segment :: "string patched"
  sf_integration :: "string patched"

text \<open>\<open>optEntityID\<close>: \<open>None\<close> is a malformed id.\<close>

definition opt_entity_id :: "string patched \<Rightarrow> id option option" where
  "opt_entity_id p = (case given p of None \<Rightarrow> Some None | Some s \<Rightarrow> map_option Some (parse_int64 s))"

definition site_fields :: "site_draft \<Rightarrow> id option \<Rightarrow> id option \<Rightarrow> bool \<Rightarrow> broadcast_fields" where
  "site_fields f seg intg clears =
     \<lparr>bf_name = sf_name f, bf_subject = sf_subject f, bf_from_name = given (sf_from_name f),
      bf_from_email = given (sf_from_email f), bf_body = sf_body f, bf_segment = seg, bf_integration = intg,
      bf_clear_from_name = (clears \<and> sf_from_name f = Cleared), bf_clear_from_email = (clears \<and> sf_from_email f = Cleared),
      bf_clear_segment = (clears \<and> sf_segment f = Cleared), bf_clear_integration = (clears \<and> sf_integration f = Cleared)\<rparr>"

definition with_refs ::
  "site_draft \<Rightarrow> (id option \<Rightarrow> id option \<Rightarrow> 'q api_state \<Rightarrow> 'q api_result) \<Rightarrow> 'q api_state \<Rightarrow> 'q api_result" where
  "with_refs f h st =
     (case (opt_entity_id (sf_segment f), opt_entity_id (sf_integration f)) of
        (Some seg, Some intg) \<Rightarrow> h seg intg st
      | _ \<Rightarrow> (ApiUnprocessable, st))"

text \<open>Only a missing Broadcast and a wrong status are told apart; any other error is the server's.\<close>

definition site_broadcast_answer :: "broadcast_error \<Rightarrow> api_answer" where
  "site_broadcast_answer e =
     (case e of BroadcastNotFound \<Rightarrow> ApiNotFound | NotDraft \<Rightarrow> ApiUnprocessable | NotSendable \<Rightarrow> ApiUnprocessable | _ \<Rightarrow> ApiError)"

definition site_broadcasts_create :: "site_draft \<Rightarrow> site_scope \<Rightarrow> 'q api_state \<Rightarrow> 'q api_result" where
  "site_broadcasts_create f sc =
     in_scope sc (\<lambda>ws. with_refs f (\<lambda>seg intg. on_db (\<lambda>_. ApiError) BroadcastBody (create_broadcast ws (site_fields f seg intg False))))"

text \<open>The row of a single response carries its progress; failing to compute it is an error.\<close>

definition broadcast_body :: "id \<Rightarrow> time \<Rightarrow> 'q api_state \<Rightarrow> broadcast \<Rightarrow> api_answer" where
  "broadcast_body ws now st b =
     (case progress_of ws b now (state_db st) of Inl _ \<Rightarrow> ApiError | Inr _ \<Rightarrow> ApiOk (BroadcastBody b))"

definition site_broadcasts_get :: "time \<Rightarrow> string \<Rightarrow> site_scope \<Rightarrow> 'q api_state \<Rightarrow> 'q api_result" where
  "site_broadcasts_get now raw sc =
     in_scope sc (\<lambda>ws. with_id raw (\<lambda>i st.
       case get_broadcast ws i (state_db st) of None \<Rightarrow> (ApiNotFound, st) | Some b \<Rightarrow> (broadcast_body ws now st b, st)))"

definition site_broadcasts_update :: "string \<Rightarrow> site_draft \<Rightarrow> site_scope \<Rightarrow> 'q api_state \<Rightarrow> 'q api_result" where
  "site_broadcasts_update raw f sc =
     in_scope sc (\<lambda>ws. with_id raw (\<lambda>i. with_refs f (\<lambda>seg intg.
       on_db site_broadcast_answer BroadcastBody (update_broadcast ws i (site_fields f seg intg True)))))"

definition site_broadcasts_delete :: "string \<Rightarrow> site_scope \<Rightarrow> 'q api_state \<Rightarrow> 'q api_result" where
  "site_broadcasts_delete raw sc =
     in_scope sc (\<lambda>ws. with_id raw (\<lambda>i. on_db_unit site_broadcast_answer (delete_broadcast ws i)))"

definition site_broadcasts_send :: "'q enqueuer \<Rightarrow> time \<Rightarrow> string \<Rightarrow> site_scope \<Rightarrow> 'q api_state \<Rightarrow> 'q api_result" where
  "site_broadcasts_send q now raw sc =
     in_scope sc (\<lambda>ws. with_id raw (\<lambda>i st.
       case broadcast_send q ws i (state_db st, as_queue st) of
         (r, d, x) \<Rightarrow>
           (case r of Inl e \<Rightarrow> site_broadcast_answer e | Inr b \<Rightarrow> broadcast_body ws now (with_db st d) b,
            (with_db st d)\<lparr>as_queue := x\<rparr>)))"

definition site_broadcasts_schedule :: "'q enqueuer \<Rightarrow> string \<Rightarrow> time \<Rightarrow> site_scope \<Rightarrow> 'q api_state \<Rightarrow> 'q api_result" where
  "site_broadcasts_schedule q raw due sc =
     in_scope sc (\<lambda>ws. with_id raw (\<lambda>i st.
       case broadcast_schedule q ws i due (state_db st, as_queue st) of
         (r, d, x) \<Rightarrow>
           (case r of Inl e \<Rightarrow> site_broadcast_answer e | Inr b \<Rightarrow> ApiOk (BroadcastBody b), (with_db st d)\<lparr>as_queue := x\<rparr>)))"

definition site_broadcasts_test_send :: "outbound_env \<Rightarrow> string \<Rightarrow> string \<Rightarrow> site_scope \<Rightarrow> 'q api_state \<Rightarrow> 'q api_result" where
  "site_broadcasts_test_send env raw addr sc =
     in_scope sc (\<lambda>ws. with_id raw (\<lambda>i st.
       case get_broadcast ws i (state_db st) of
         None \<Rightarrow> (ApiNotFound, st)
       | Some b \<Rightarrow>
           (case send_broadcast_test env ws b addr (as_world st) of
              (detail, wd) \<Rightarrow> (if detail \<noteq> '''' then ApiUnprocessable else ApiOk NoBody, st\<lparr>as_world := wd\<rparr>))))"

definition site_automations_create :: "automation_create_input \<Rightarrow> site_scope \<Rightarrow> 'q api_state \<Rightarrow> 'q api_result" where
  "site_automations_create inp sc = in_scope sc (\<lambda>ws. on_db automation_answer AutomationBody (create_automation ws inp))"

definition site_automations_get :: "string \<Rightarrow> site_scope \<Rightarrow> 'q api_state \<Rightarrow> 'q api_result" where
  "site_automations_get raw sc = in_scope sc (\<lambda>ws. with_id raw (\<lambda>i. found AutomationBody (get_automation ws i)))"

definition site_automations_update :: "string \<Rightarrow> automation_update_input \<Rightarrow> site_scope \<Rightarrow> 'q api_state \<Rightarrow> 'q api_result" where
  "site_automations_update raw inp sc =
     in_scope sc (\<lambda>ws. with_id raw (\<lambda>i. on_db automation_answer AutomationBody (update_automation ws i inp)))"

definition site_automations_delete :: "string \<Rightarrow> site_scope \<Rightarrow> 'q api_state \<Rightarrow> 'q api_result" where
  "site_automations_delete raw sc = in_scope sc (\<lambda>ws. with_id raw (\<lambda>i. on_db_unit automation_answer (delete_automation ws i)))"

text \<open>\<open>setAutomationActive\<close>: the two lifecycle handlers read every error that is not a missing row as an invalid id, a
  refused scope included.\<close>

definition active_answer :: "automation_error \<Rightarrow> api_answer" where
  "active_answer e = (case e of AutomationNotFound \<Rightarrow> ApiNotFound | _ \<Rightarrow> ApiBadRequest)"

definition set_automation_active :: "bool \<Rightarrow> string \<Rightarrow> site_scope \<Rightarrow> 'q api_state \<Rightarrow> 'q api_result" where
  "set_automation_active active raw sc st =
     (case sc of
        Inl ScopeNotFound \<Rightarrow> (ApiNotFound, st)
      | Inl _ \<Rightarrow> (ApiBadRequest, st)
      | Inr (ws, _) \<Rightarrow>
          with_id raw (\<lambda>i. on_db active_answer AutomationBody
            (if active then activate_automation ws i else deactivate_automation ws i)) st)"

definition site_automations_activate :: "string \<Rightarrow> site_scope \<Rightarrow> 'q api_state \<Rightarrow> 'q api_result" where
  "site_automations_activate = set_automation_active True"

definition site_automations_deactivate :: "string \<Rightarrow> site_scope \<Rightarrow> 'q api_state \<Rightarrow> 'q api_result" where
  "site_automations_deactivate = set_automation_active False"

section \<open>Webhooks and Templates\<close>

text \<open>A member reads the signing secret.\<close>

definition site_endpoint_body :: "webhook_endpoint \<times> string \<Rightarrow> api_body" where
  "site_endpoint_body e = WebhookBody ((fst e)\<lparr>wh_secret := snd e\<rparr>)"

definition site_webhooks_create ::
  "'q api_env \<Rightarrow> string \<Rightarrow> string \<Rightarrow> string list \<Rightarrow> bool option \<Rightarrow> site_scope \<Rightarrow> 'q api_state \<Rightarrow> 'q api_result" where
  "site_webhooks_create env secret url types enabled sc =
     in_scope sc (\<lambda>ws. on_db webhook_answer site_endpoint_body
       (create_webhook (ap_parse_url env) (ap_seal env) (ap_unseal env) (ap_licensed env) secret ws url types enabled))"

definition site_webhooks_get :: "'q api_env \<Rightarrow> string \<Rightarrow> site_scope \<Rightarrow> 'q api_state \<Rightarrow> 'q api_result" where
  "site_webhooks_get env raw sc =
     in_scope sc (\<lambda>ws. with_id raw (\<lambda>i. reads webhook_answer site_endpoint_body
       (\<lambda>d. case find_where (endpoint_row ws i) (webhook_endpoints d) of None \<Rightarrow> Inl WebhookNotFound | Some e \<Rightarrow> open_endpoint (ap_unseal env) e)))"

definition site_webhooks_update ::
  "'q api_env \<Rightarrow> string \<Rightarrow> string option \<Rightarrow> string list option \<Rightarrow> bool option \<Rightarrow> site_scope \<Rightarrow> 'q api_state \<Rightarrow> 'q api_result" where
  "site_webhooks_update env raw url types enabled sc =
     in_scope sc (\<lambda>ws. with_id raw (\<lambda>i. on_db webhook_answer site_endpoint_body
       (update_webhook (ap_parse_url env) (ap_unseal env) (ap_licensed env) ws i url types enabled)))"

definition site_webhooks_delete :: "string \<Rightarrow> site_scope \<Rightarrow> 'q api_state \<Rightarrow> 'q api_result" where
  "site_webhooks_delete raw sc = in_scope sc (\<lambda>ws. with_id raw (\<lambda>i. on_db_unit webhook_answer (delete_webhook ws i)))"

definition site_templates_create :: "string \<Rightarrow> string option \<Rightarrow> string option \<Rightarrow> site_scope \<Rightarrow> 'q api_state \<Rightarrow> 'q api_result" where
  "site_templates_create name subject body sc =
     in_scope sc (\<lambda>ws st.
       case create_template ws name subject body (as_templates st) of
         Inl e \<Rightarrow> (template_answer e, st)
       | Inr (tpl, s) \<Rightarrow> (ApiOk (TemplateBody tpl), st\<lparr>as_templates := s\<rparr>))"

definition site_templates_get :: "string \<Rightarrow> site_scope \<Rightarrow> 'q api_state \<Rightarrow> 'q api_result" where
  "site_templates_get raw sc =
     in_scope sc (\<lambda>ws. with_id raw (\<lambda>i st.
       case get_template ws i (as_templates st) of None \<Rightarrow> (ApiNotFound, st) | Some tpl \<Rightarrow> (ApiOk (TemplateBody tpl), st)))"

definition site_templates_update ::
  "string \<Rightarrow> string option \<Rightarrow> string option \<Rightarrow> string option \<Rightarrow> site_scope \<Rightarrow> 'q api_state \<Rightarrow> 'q api_result" where
  "site_templates_update raw name subject body sc =
     in_scope sc (\<lambda>ws. with_id raw (\<lambda>i st.
       case update_template ws i name subject body (as_templates st) of
         Inl e \<Rightarrow> (template_answer e, st)
       | Inr (tpl, s) \<Rightarrow> (ApiOk (TemplateBody tpl), st\<lparr>as_templates := s\<rparr>)))"

definition site_templates_delete :: "string \<Rightarrow> site_scope \<Rightarrow> 'q api_state \<Rightarrow> 'q api_result" where
  "site_templates_delete raw sc =
     in_scope sc (\<lambda>ws. with_id raw (\<lambda>i st.
       case delete_template ws i (as_templates st) of
         Inl e \<Rightarrow> (template_answer e, st) | Inr s \<Rightarrow> (ApiOk NoBody, st\<lparr>as_templates := s\<rparr>)))"

section \<open>Integrations and Sending domains\<close>

definition site_integrations_create :: "vault \<Rightarrow> create_input \<Rightarrow> site_scope \<Rightarrow> 'q api_state \<Rightarrow> 'q api_result" where
  "site_integrations_create v inp sc =
     in_scope sc (\<lambda>ws st. integration_written v st (create_integration v ws inp (state_db st)))"

definition site_integrations_get :: "vault \<Rightarrow> string \<Rightarrow> site_scope \<Rightarrow> 'q api_state \<Rightarrow> 'q api_result" where
  "site_integrations_get v raw sc =
     in_scope sc (\<lambda>ws. with_id raw (\<lambda>i st.
       case get_integration ws i (state_db st) of None \<Rightarrow> (ApiNotFound, st) | Some row \<Rightarrow> (integration_body v row, st)))"

definition site_integrations_update :: "vault \<Rightarrow> string \<Rightarrow> update_input \<Rightarrow> site_scope \<Rightarrow> 'q api_state \<Rightarrow> 'q api_result" where
  "site_integrations_update v raw inp sc =
     in_scope sc (\<lambda>ws. with_id raw (\<lambda>i st. integration_written v st (update_integration v ws i inp (state_db st))))"

definition site_integrations_delete :: "string \<Rightarrow> site_scope \<Rightarrow> 'q api_state \<Rightarrow> 'q api_result" where
  "site_integrations_delete raw sc =
     in_scope sc (\<lambda>ws. with_id raw (\<lambda>i st.
       case delete_integration ws i (state_db st) of
         Inl e \<Rightarrow> (integration_answer e, st) | Inr d \<Rightarrow> (ApiOk NoBody, with_db st d)))"

definition site_sending_domains_create ::
  "'q api_env \<Rightarrow> string \<Rightarrow> string \<Rightarrow> string \<Rightarrow> string \<Rightarrow> site_scope \<Rightarrow> 'q api_state \<Rightarrow> 'q api_result" where
  "site_sending_domains_create env dmn selector sealed pub sc =
     in_scope sc (\<lambda>ws st.
       case create_domain (ap_is_ip env) (ap_to_ascii env) ws dmn selector sealed pub (as_domains st) of
         Inl e \<Rightarrow> (domain_answer e, st)
       | Inr (r, s) \<Rightarrow> (domain_body r, st\<lparr>as_domains := s\<rparr>))"

definition site_sending_domains_get :: "string \<Rightarrow> site_scope \<Rightarrow> 'q api_state \<Rightarrow> 'q api_result" where
  "site_sending_domains_get raw sc =
     in_scope sc (\<lambda>ws. with_id raw (\<lambda>i st.
       case find_where (domain_in ws i) (domain_rows (as_domains st)) of
         None \<Rightarrow> (ApiNotFound, st) | Some r \<Rightarrow> (domain_body r, st)))"

definition site_sending_domains_delete :: "string \<Rightarrow> site_scope \<Rightarrow> 'q api_state \<Rightarrow> 'q api_result" where
  "site_sending_domains_delete raw sc =
     in_scope sc (\<lambda>ws. with_id raw (\<lambda>i st.
       case delete_domain ws i (as_domains st) of
         Inl e \<Rightarrow> (domain_answer e, st) | Inr s \<Rightarrow> (ApiOk NoBody, st\<lparr>as_domains := s\<rparr>)))"

definition site_sending_domains_verify :: "string \<Rightarrow> site_scope \<Rightarrow> 'q api_state \<Rightarrow> 'q api_result" where
  "site_sending_domains_verify raw sc =
     in_scope sc (\<lambda>ws. with_id raw (\<lambda>i st.
       case verify_domain ws i (as_domains st) of
         Inl e \<Rightarrow> (domain_answer e, st) | Inr job \<Rightarrow> (ApiOk NoBody, st\<lparr>as_checks := as_checks st @ [job]\<rparr>)))"

section \<open>The public pages\<close>

text \<open>The buttons of the confirmation and the unsubscribe page.\<close>

definition site_confirmations_perform :: "tracker \<Rightarrow> time \<Rightarrow> string \<Rightarrow> string \<Rightarrow> 'q api_state \<Rightarrow> 'q api_result" where
  "site_confirmations_perform tk now token ip st =
     (case decode_confirm tk now token of
        Inl e \<Rightarrow> (if is_expired e then ApiGone else ApiBadRequest, st)
      | Inr t \<Rightarrow> (case record_confirmation now t ip (state_db st) of
                    (None, d) \<Rightarrow> (ApiOk NoBody, with_db st d) | (Some _, d) \<Rightarrow> (ApiError, with_db st d)))"

definition site_unsubscribes_perform :: "tracker \<Rightarrow> time \<Rightarrow> string \<Rightarrow> 'q api_state \<Rightarrow> 'q api_result" where
  "site_unsubscribes_perform tk now token st =
     (case decode_unsub tk now token of
        Inl _ \<Rightarrow> (ApiBadRequest, st)
      | Inr t \<Rightarrow> (case record_unsubscribe now t (state_db st) of
                    (None, d) \<Rightarrow> (ApiOk NoBody, with_db st d) | (Some _, d) \<Rightarrow> (ApiError, with_db st d)))"

section \<open>The surface\<close>

text \<open>The handlers behind a Membership, at any request.\<close>

inductive site_handler :: "'q api_env \<Rightarrow> time \<Rightarrow> id \<Rightarrow> (site_scope \<Rightarrow> 'q api_state \<Rightarrow> 'q api_result) \<Rightarrow> bool"
  for env now uid where
  "site_handler env now uid (site_contacts_create now x1)"
| "site_handler env now uid (site_contacts_get x1)"
| "site_handler env now uid (site_contacts_update x1 x2)"
| "site_handler env now uid (site_contacts_delete now uid x1)"
| "site_handler env now uid (site_tags_list_for_contact x1)"
| "site_handler env now uid (site_tags_apply x1 x2)"
| "site_handler env now uid (site_tags_remove x1 x2)"
| "site_handler env now uid (site_suppressions_create x1)"
| "site_handler env now uid (site_suppressions_delete x1)"
| "site_handler env now uid (site_segments_create now x1 x2)"
| "site_handler env now uid (site_segments_get x1)"
| "site_handler env now uid (site_segments_update now x1 x2 x3)"
| "site_handler env now uid (site_segments_delete x1)"
| "site_handler env now uid (site_segments_preview (ap_json env) now x1)"
| "site_handler env now uid (site_broadcasts_create x1)"
| "site_handler env now uid (site_broadcasts_get now x1)"
| "site_handler env now uid (site_broadcasts_update x1 x2)"
| "site_handler env now uid (site_broadcasts_delete x1)"
| "site_handler env now uid (site_broadcasts_send (ap_enqueue env) now x1)"
| "site_handler env now uid (site_broadcasts_schedule (ap_enqueue env) x1 x2)"
| "site_handler env now uid (site_broadcasts_test_send (ap_outbound env) x1 x2)"
| "site_handler env now uid (site_automations_create x1)"
| "site_handler env now uid (site_automations_get x1)"
| "site_handler env now uid (site_automations_update x1 x2)"
| "site_handler env now uid (site_automations_delete x1)"
| "site_handler env now uid (site_automations_activate x1)"
| "site_handler env now uid (site_automations_deactivate x1)"
| "site_handler env now uid (site_webhooks_create env x1 x2 x3 x4)"
| "site_handler env now uid (site_webhooks_get env x1)"
| "site_handler env now uid (site_webhooks_update env x1 x2 x3 x4)"
| "site_handler env now uid (site_webhooks_delete x1)"
| "site_handler env now uid (site_templates_create x1 x2 x3)"
| "site_handler env now uid (site_templates_get x1)"
| "site_handler env now uid (site_templates_update x1 x2 x3 x4)"
| "site_handler env now uid (site_templates_delete x1)"
| "site_handler env now uid (site_integrations_create (ap_vault env) x1)"
| "site_handler env now uid (site_integrations_get (ap_vault env) x1)"
| "site_handler env now uid (site_integrations_update (ap_vault env) x1 x2)"
| "site_handler env now uid (site_integrations_delete x1)"
| "site_handler env now uid (site_sending_domains_create env x1 x2 x3 x4)"
| "site_handler env now uid (site_sending_domains_get x1)"
| "site_handler env now uid (site_sending_domains_delete x1)"
| "site_handler env now uid (site_sending_domains_verify x1)"

section \<open>Every request stays in the Workspace of the Membership\<close>

lemma scope_stays:
  assumes "\<And>ws. api_foreign ws (snd (h ws st)) = api_foreign ws st"
  shows "case sc of Inl e \<Rightarrow> snd (in_scope sc h st) = st | Inr (ws, r) \<Rightarrow> api_foreign ws (snd (in_scope sc h st)) = api_foreign ws st"
  using assms by (simp add: in_scope_def split: sum.split prod.split)

lemma foreign_lift_suppression: "foreign_view ws (snd (lift_suppression ws i d)) = foreign_view ws d"
  by (simp add: lift_suppression_def foreign_simps)

lemma foreign_delete_broadcast: "foreign_view ws (snd (delete_broadcast ws i d)) = foreign_view ws d"
proof -
  have "foreign_view ws (x\<lparr>recipients := delete_where (in_ws rec_workspace ws p) (recipients x)\<rparr>) = foreign_view ws x" for p x
    by (simp add: foreign_view_def foreign_delete)
  then show ?thesis by (simp add: delete_broadcast_def Let_def broadcast_row_def foreign_simps)
qed

lemma foreign_broadcast_send:
  assumes "confined_queue q"
  shows "foreign_view ws (fst (snd (broadcast_send q ws i (d, x)))) = foreign_view ws d"
proof -
  have queued: "q b t (y, z) = (ok, y', z') \<Longrightarrow> foreign_view ws y' = foreign_view ws y" for b t y z ok y' z'
    using assms unfolding confined_queue_def by (metis fst_conv snd_conv)
  have "foreign_view ws (snd (claim_broadcast ws i send_now d)) = foreign_view ws d"
    by (simp add: claim_broadcast_def Let_def foreign_set_broadcast send_now_def split: option.split)
  then show ?thesis
    by (auto simp: broadcast_send_def enqueue_claimed_def revert_broadcast_def foreign_set_broadcast
        split: prod.split sum.split bool.split dest!: queued)
qed

lemma refs_stay:
  assumes "\<And>seg intg. api_foreign ws (snd (h seg intg st)) = api_foreign ws st"
  shows "api_foreign ws (snd (with_refs f h st)) = api_foreign ws st"
  using assms by (simp add: with_refs_def split: option.split)


definition confined_handler :: "(site_scope \<Rightarrow> 'q api_state \<Rightarrow> 'q api_result) \<Rightarrow> 'q api_state \<Rightarrow> bool" where
  "confined_handler h st \<longleftrightarrow>
     (\<forall>e. snd (h (Inl e) st) = st) \<and> (\<forall>ws r. api_foreign ws (snd (h (Inr (ws, r)) st)) = api_foreign ws st)"

lemma in_scope_simps [simp]:
  "in_scope (Inl e) h st = (scope_answer e, st)" "in_scope (Inr (ws, r)) h st = h ws st"
  by (simp_all add: in_scope_def)

lemma template_writes_stay:
  "api_foreign ws (snd (case create_template ws n sub bod (as_templates st) of Inl e \<Rightarrow> (f e, st)
     | Inr (tpl, s) \<Rightarrow> (g tpl, st\<lparr>as_templates := s\<rparr>))) = api_foreign ws st"
  "api_foreign ws (snd (case update_template ws i nm sub' bod' (as_templates st) of Inl e \<Rightarrow> (f' e, st)
     | Inr (tpl, s) \<Rightarrow> (g' tpl, st\<lparr>as_templates := s\<rparr>))) = api_foreign ws st"
  "api_foreign ws (snd (case delete_template ws i (as_templates st) of Inl e \<Rightarrow> (f'' e, st)
     | Inr s \<Rightarrow> (g'', st\<lparr>as_templates := s\<rparr>))) = api_foreign ws st"
  by (auto simp: api_foreign_stores template_stays split: sum.split)

lemma domain_writes_stay:
  "api_foreign ws (snd (case create_domain ip asc ws dmn sel key pub (as_domains st) of Inl e \<Rightarrow> (f e, st)
     | Inr (r, s) \<Rightarrow> (g r, st\<lparr>as_domains := s\<rparr>))) = api_foreign ws st"
  "api_foreign ws (snd (case delete_domain ws i (as_domains st) of Inl e \<Rightarrow> (f' e, st)
     | Inr s \<Rightarrow> (g', st\<lparr>as_domains := s\<rparr>))) = api_foreign ws st"
  "api_foreign ws (snd (case verify_domain ws i (as_domains st) of Inl e \<Rightarrow> (f'' e, st)
     | Inr job \<Rightarrow> (g'', st\<lparr>as_checks := as_checks st @ [job]\<rparr>))) = api_foreign ws st"
  by (auto simp: api_foreign_stores api_foreign_fields domain_stays split: sum.split)

lemma integration_writes_stay:
  assumes "cascades_owned (state_db st)"
  shows "api_foreign ws (snd (integration_written v st (create_integration v ws inp (state_db st)))) = api_foreign ws st"
    and "api_foreign ws (snd (integration_written v st (update_integration v ws i upd (state_db st)))) = api_foreign ws st"
    and "api_foreign ws (snd (case delete_integration ws i (state_db st) of Inl e \<Rightarrow> (f e, st) | Inr d \<Rightarrow> (g, with_db st d))) = api_foreign ws st"
proof -
  show "api_foreign ws (snd (integration_written v st (create_integration v ws inp (state_db st)))) = api_foreign ws st"
    by (rule integration_stays) (rule foreign_create_integration)
  show "api_foreign ws (snd (integration_written v st (update_integration v ws i upd (state_db st)))) = api_foreign ws st"
    by (rule integration_stays) (rule foreign_update_integration)
  show "api_foreign ws (snd (case delete_integration ws i (state_db st) of Inl e \<Rightarrow> (f e, st) | Inr d \<Rightarrow> (g, with_db st d))) = api_foreign ws st"
    by (auto simp: api_foreign_fields foreign_delete_integration [OF assms] split: sum.split)
qed

lemma contact_erasure_stays: "confined_handler (site_contacts_delete now uid raw) st"
proof -
  have erased: "api_foreign ws (snd (case erase now ws (ByContactID i) op (state_db st, as_jobs st) of
      (r, d, jobs) \<Rightarrow> (f r, (with_db st d)\<lparr>as_jobs := jobs\<rparr>))) = api_foreign ws st" for ws i op f
    using erasure_confined [of ws now "ByContactID i" op "state_db st" "as_jobs st"]
    by (simp add: case_prod_beta api_foreign_fields)
  show ?thesis
    by (simp add: confined_handler_def site_contacts_delete_def) (intro impI allI with_id_stays erased)
qed

lemma queue_writes_stay:
  assumes "confined_queue q"
  shows "api_foreign ws (snd (case broadcast_schedule q ws i due (state_db st, as_queue st) of
      (r, d, x) \<Rightarrow> (f r d, (with_db st d)\<lparr>as_queue := x\<rparr>))) = api_foreign ws st"
    and "api_foreign ws (snd (case broadcast_send q ws i (state_db st, as_queue st) of
      (r, d, x) \<Rightarrow> (g r d, (with_db st d)\<lparr>as_queue := x\<rparr>))) = api_foreign ws st"
  using foreign_broadcast_schedule [OF assms, of ws i due "state_db st" "as_queue st"]
    foreign_broadcast_send [OF assms, of ws i "state_db st" "as_queue st"]
  by (simp_all add: case_prod_beta api_foreign_fields)

lemma test_send_stays:
  "api_foreign ws (snd (case get_broadcast ws i (state_db st) of None \<Rightarrow> (ApiNotFound, st)
     | Some b \<Rightarrow> (case send_broadcast_test env ws b addr (as_world st) of (detail, wd) \<Rightarrow> (f detail, st\<lparr>as_world := wd\<rparr>)))) = api_foreign ws st"
  by (simp add: case_prod_beta api_foreign_stores foreign_test_send state_db_def split: option.split)

lemma read_answers [simp]: "snd (case x of None \<Rightarrow> (a, st) | Some y \<Rightarrow> (f y, st)) = st"
  by (simp split: option.split)

lemmas site_people = site_contacts_create_def site_contacts_get_def site_contacts_update_def site_tags_list_for_contact_def
  site_tags_apply_def site_tags_remove_def site_suppressions_create_def site_suppressions_delete_def

lemmas site_campaigns = site_segments_create_def site_segments_get_def site_segments_update_def site_segments_delete_def
  site_segments_preview_def site_broadcasts_create_def site_broadcasts_get_def site_broadcasts_update_def
  site_broadcasts_delete_def site_broadcasts_send_def site_broadcasts_schedule_def site_broadcasts_test_send_def

lemmas site_flows = site_automations_create_def site_automations_get_def site_automations_update_def site_automations_delete_def
  site_webhooks_create_def site_webhooks_get_def site_webhooks_update_def site_webhooks_delete_def site_templates_create_def
  site_templates_get_def site_templates_update_def site_templates_delete_def

lemmas site_setup = site_integrations_create_def site_integrations_get_def site_integrations_update_def
  site_integrations_delete_def site_sending_domains_create_def site_sending_domains_get_def site_sending_domains_delete_def
  site_sending_domains_verify_def

lemma lifecycle_stays:
  "confined_handler (site_automations_activate raw) st" "confined_handler (site_automations_deactivate raw) st"
  by (simp_all add: confined_handler_def site_automations_activate_def site_automations_deactivate_def set_automation_active_def
      with_id_stays on_db_stays module_stays split: scope_error.split)

lemma handler_stays:
  assumes "site_handler env now uid h" and "confined_queue (ap_enqueue env)" and "cascades_owned (state_db st)"
  shows "confined_handler h st"
  using assms(1)
  by cases
     (simp_all add: contact_erasure_stays lifecycle_stays,
      simp_all add: confined_handler_def site_people site_campaigns site_flows site_setup with_id_stays on_db_stays
        on_db_unit_stays refs_stay reads_stays module_stays foreign_lift_suppression foreign_delete_broadcast
        queue_writes_stay [OF assms(2)] test_send_stays template_writes_stay integration_writes_stay [OF assms(3)]
        domain_writes_stay foreign_delete_automation [OF assms(3)])

text \<open>Every request of a signed-in User to the content of a Workspace changes rows of that Workspace only; without a
  Membership, or withheld for want of a Second factor, it changes nothing at all.\<close>

theorem site_stays_in_membership:
  assumes "site_handler env now uid h" and "confined_queue (ap_enqueue env)" and "cascades_owned (state_db st)"
  shows "case membership_for now uid slug a of
      Inl _ \<Rightarrow> snd (h (scope_for now uid slug a) st) = st
    | Inr (w, m) \<Rightarrow> api_foreign (ws_id w) (snd (h (scope_for now uid slug a) st)) = api_foreign (ws_id w) st"
  using handler_stays [OF assms]
  by (simp add: scope_for_def confined_handler_def split: sum.split prod.split site_answer.split)

section \<open>Withheld members\<close>

text \<open>A member withheld for want of a Second factor is told so by every handler but two.\<close>

lemma scope_for_withheld:
  "membership_for now uid slug a = Inl AnsSecondFactorRequired \<Longrightarrow> scope_for now uid slug a = Inl ScopeWithheld"
  by (simp add: scope_for_def)

definition lifecycle_handler :: "(site_scope \<Rightarrow> 'q api_state \<Rightarrow> 'q api_result) \<Rightarrow> bool" where
  "lifecycle_handler h \<longleftrightarrow> (\<exists>raw. h = site_automations_activate raw \<or> h = site_automations_deactivate raw)"

lemma withheld_is_told:
  assumes "site_handler env now uid h" and "\<not> lifecycle_handler h"
  shows "h (Inl ScopeWithheld) st = (ApiForbidden, st)"
  using assms(1)
proof cases
  case (26 x1) with assms(2) show ?thesis by (auto simp: lifecycle_handler_def)
next
  case (27 x1) with assms(2) show ?thesis by (auto simp: lifecycle_handler_def)
qed (simp_all add: site_people site_campaigns site_flows site_setup site_contacts_delete_def scope_answer_def)

text \<open>Activating and deactivating an Automation answer it as an invalid id instead, whatever the id.\<close>

theorem withheld_activation_misread:
  assumes "membership_for now uid slug a = Inl AnsSecondFactorRequired"
  shows "site_automations_activate raw (scope_for now uid slug a) st = (ApiBadRequest, st) \<and>
    site_automations_deactivate raw (scope_for now uid slug a) st = (ApiBadRequest, st) \<and>
    site_automations_delete raw (scope_for now uid slug a) st = (ApiForbidden, st)"
  by (simp add: scope_for_withheld [OF assms] site_automations_activate_def site_automations_deactivate_def
      set_automation_active_def site_automations_delete_def scope_answer_def)

section \<open>A concrete request\<close>

definition demo_site_state :: "send_job list api_state" where
  "demo_site_state = with_db demo_api_state (demo_api_db\<lparr>automations := [demo_flow 8 10, demo_flow 9 2]\<rparr>)"

lemma demo_membership:
  "membership_for 5 1 ''w'' (demo_accounts None ''c@x'') = Inr (demo_tenant None, demo_member 20 1 RoleOwner)"
  "membership_for 5 7 ''w'' (demo_accounts None ''c@x'') = Inl AnsNotFound"
  "membership_for (8 * 24 * hour) 2 ''w'' (demo_accounts (Some 0) ''c@x'') = Inl AnsSecondFactorRequired"
  by (simp_all add: membership_for_def membership_even_if_withheld_def demo_defs scope_def tenant_by_slug_def get_user_def
      find_where_def withheld_def deadline_def active_factor_def grace_ends_def grace_period_def)

lemma demo_site_owned: "cascades_owned (state_db demo_site_state)"
  by (simp add: demo_site_state_def cascades_owned_def demo_api_db_def)

theorem site_stays_in_membership_witness:
  "api_foreign 10 (snd (site_automations_delete ''8'' (scope_for 5 1 ''w'' (demo_accounts None ''c@x'')) demo_site_state)) =
     api_foreign 10 demo_site_state \<and>
   snd (site_automations_delete ''8'' (scope_for 5 7 ''w'' (demo_accounts None ''c@x'')) demo_site_state) = demo_site_state"
proof -
  have q: "confined_queue (ap_enqueue demo_api_env)" by (simp add: demo_api_env_def river_queue_confined)
  have h: "site_handler demo_api_env 5 u (site_automations_delete ''8'')" for u by (rule site_handler.intros)
  have "ws_id (demo_tenant None) = 10" by (simp add: demo_tenant_def)
  then show ?thesis
    using site_stays_in_membership [where slug = "''w''" and a = "demo_accounts None ''c@x''", OF h [of 1] q demo_site_owned]
      site_stays_in_membership [where slug = "''w''" and a = "demo_accounts None ''c@x''", OF h [of 7] q demo_site_owned]
    by (simp add: demo_membership)
qed

lemma withheld_activation_misread_witness:
  "site_automations_activate ''8'' (scope_for (8 * 24 * hour) 2 ''w'' (demo_accounts (Some 0) ''c@x'')) demo_site_state =
     (ApiBadRequest, demo_site_state)"
  using withheld_activation_misread [OF demo_membership(3), of "''8''" demo_site_state] by simp

end
