(* ===== verification/CollectApi.thy ===== *)
theory CollectApi
  imports EventLog
begin

text \<open>
  The collect API (\<open>internal/api/collect\<close>) behind its body caps (\<open>bodyLimit\<close> and \<open>collectEventLimit\<close> of
  \<open>internal/server\<close>). A body is read twice: by the cap, with \<open>encoding/json\<close>, and by the generated decoder of
  \<open>gen/collect\<close>. Both see the members of its top-level object; \<open>parse\<close> gives them with the exact bytes of every
  element, as far as the body parses, and whether all of it did; it is \<open>None\<close> when the body does not open an object.
\<close>

section \<open>The caps\<close>

datatype raw_value = RawArray "string list" | RawOther

type_synonym raw_object = "(string \<times> raw_value) list"

record body_limits =
  bl_default :: int
  bl_collect :: int
  bl_event :: int

record http_post =
  hp_post :: bool
  hp_path :: string
  hp_body :: string

definition is_collect_path :: "string \<Rightarrow> bool" where
  "is_collect_path path \<longleftrightarrow> prefix ''/collect/'' path"

definition body_limit :: "body_limits \<Rightarrow> string \<Rightarrow> int" where
  "body_limit lm path =
     (if path = ''/collect/events'' then bl_collect lm else if is_collect_path path then bl_event lm else bl_default lm)"

definition over_cap :: "int \<Rightarrow> string \<Rightarrow> bool" where
  "over_cap cap raw \<longleftrightarrow> cap < int (length raw)"

text \<open>The first member \<open>events\<close> decides.\<close>

fun member_over_limit :: "int \<Rightarrow> raw_object \<Rightarrow> bool" where
  "member_over_limit cap [] = False"
| "member_over_limit cap ((k, v) # ms) =
     (if k \<noteq> ''events'' then member_over_limit cap ms
      else case v of RawOther \<Rightarrow> False | RawArray es \<Rightarrow> list_ex (over_cap cap) es)"

type_synonym body_parser = "string \<Rightarrow> (raw_object \<times> bool) option"

definition event_over_limit :: "body_parser \<Rightarrow> string \<Rightarrow> int \<Rightarrow> bool" where
  "event_over_limit parse body cap = (case parse body of None \<Rightarrow> False | Some (ms, _) \<Rightarrow> member_over_limit cap ms)"

text \<open>Whether a request is answered 413: at once by the event cap, or when the decoder reads a body over its cap.\<close>

definition too_large :: "body_parser \<Rightarrow> body_limits \<Rightarrow> http_post \<Rightarrow> bool" where
  "too_large parse lm r \<longleftrightarrow>
     body_limit lm (hp_path r) < int (length (hp_body r)) \<or>
     hp_post r \<and> hp_path r = ''/collect/events'' \<and> event_over_limit parse (hp_body r) (bl_event lm)"

section \<open>The handlers\<close>

record wire_event =
  we_visitor :: string
  we_action :: string
  we_properties :: "(string \<times> string) list option"
  we_occurred :: "time option"

text \<open>Every \<open>events\<close> member replaces what an earlier one left.\<close>

fun decode_members :: "(string \<Rightarrow> wire_event option) \<Rightarrow> raw_object \<Rightarrow> wire_event list option \<Rightarrow> wire_event list option option" where
  "decode_members dec [] acc' = Some acc'"
| "decode_members dec ((k, v) # ms) acc' =
     (if k \<noteq> ''events'' then decode_members dec ms acc'
      else case v of
        RawOther \<Rightarrow> None
      | RawArray es \<Rightarrow> (case those (map dec es) of None \<Rightarrow> None | Some evs \<Rightarrow> decode_members dec ms (Some evs)))"

definition decode_events :: "(string \<Rightarrow> wire_event option) \<Rightarrow> raw_object \<Rightarrow> wire_event list option" where
  "decode_events dec ms = Option.bind (decode_members dec ms None) (\<lambda>r. r)"

text \<open>A Go map as its entries, the keys distinct. One value that is not JSON drops them all.\<close>

definition raw_map :: "(string \<Rightarrow> json option) \<Rightarrow> (string \<times> string) list \<Rightarrow> (string \<times> json) list option" where
  "raw_map value m = those (map (\<lambda>(k, r). map_option (Pair k) (value r)) m)"

definition wire_input :: "(string \<Rightarrow> json option) \<Rightarrow> wire_event \<Rightarrow> collect_input" where
  "wire_input value e =
     \<lparr>ci_visitor = we_visitor e, ci_action = we_action e,
      ci_properties = (case Option.bind (we_properties e) (raw_map value) of None \<Rightarrow> Map.empty | Some kvs \<Rightarrow> map_of kvs),
      ci_occurred = we_occurred e\<rparr>"

record wire_identify =
  wi_visitor :: string
  wi_email :: "string option"
  wi_phone :: "string option"
  wi_subject :: "string option"
  wi_traits :: "(string \<times> string) list option"

definition identify_of :: "(string \<Rightarrow> json option) \<Rightarrow> wire_identify \<Rightarrow> identify_input" where
  "identify_of value w =
     \<lparr>ii_visitor = wi_visitor w, ii_email = wi_email w, ii_phone = wi_phone w, ii_subject = wi_subject w,
      ii_traits = Option.bind (wi_traits w) (raw_map value)\<rparr>"

datatype collect_answer = CollectDone | CollectTooLarge | CollectBadRequest | CollectError

definition collect_events_create ::
  "(string \<Rightarrow> json option) \<Rightarrow> time \<Rightarrow> id \<Rightarrow> wire_event list \<Rightarrow> db \<Rightarrow> collect_answer \<times> db" where
  "collect_events_create value now ws evs d =
     (case collect now ws (map (wire_input value) evs) d of
        (None, d1) \<Rightarrow> (CollectDone, d1) | (Some _, d1) \<Rightarrow> (CollectError, d1))"

definition collect_identify_create ::
  "(string \<Rightarrow> json option) \<Rightarrow> time \<Rightarrow> id \<Rightarrow> wire_identify \<Rightarrow> db \<Rightarrow> collect_answer \<times> db" where
  "collect_identify_create value now ws w d =
     (case identify now ws (identify_of value w) d of (Inl _, d1) \<Rightarrow> (CollectError, d1) | (Inr _, d1) \<Rightarrow> (CollectDone, d1))"

text \<open>A batch on its whole way in, its key resolved to \<open>ws\<close>.\<close>

definition collect_post ::
  "body_parser \<Rightarrow> (string \<Rightarrow> wire_event option) \<Rightarrow> (string \<Rightarrow> json option) \<Rightarrow> body_limits \<Rightarrow> time \<Rightarrow> id
     \<Rightarrow> http_post \<Rightarrow> db \<Rightarrow> collect_answer \<times> db" where
  "collect_post parse dec value lm now ws r d =
     (if too_large parse lm r then (CollectTooLarge, d)
      else case parse (hp_body r) of
        Some (ms, True) \<Rightarrow>
          (case decode_events dec ms of
             None \<Rightarrow> (CollectBadRequest, d) | Some evs \<Rightarrow> collect_events_create value now ws evs d)
      | _ \<Rightarrow> (CollectBadRequest, d))"

section \<open>What the event cap holds\<close>

lemma decode_without_events:
  "filter (\<lambda>m. fst m = ''events'') ms = [] \<Longrightarrow> decode_members dec ms acc' = Some acc'"
  by (induction ms) (auto split: if_splits)

text \<open>With at most one member \<open>events\<close>, every element the decoder reads was within the cap.\<close>

theorem single_member_capped:
  assumes "length (filter (\<lambda>m. fst m = ''events'') ms) \<le> 1" and "\<not> member_over_limit cap ms" and "decode_events dec ms = Some evs"
  shows "\<exists>es. those (map dec es) = Some evs \<and> list_all (\<lambda>e. \<not> over_cap cap e) es"
  using assms
proof (induction ms)
  case (Cons m ms)
  obtain k v where m: "m = (k, v)" by fastforce
  show ?case
  proof (cases "k = ''events''")
    case True
    with Cons.prems(1) m have rest: "filter (\<lambda>m. fst m = ''events'') ms = []" by simp
    with Cons.prems True m show ?thesis
      by (auto simp: decode_events_def decode_without_events list_all_iff list_ex_iff
          split: raw_value.splits option.splits)
  next
    case False
    with Cons m show ?thesis by (simp add: decode_events_def)
  qed
qed (simp add: decode_events_def)

text \<open>A second member \<open>events\<close> is what the decoder takes and the cap never looks at: its elements are bound by the cap of
  the whole batch only.\<close>

theorem second_member_uncapped:
  assumes "parse (hp_body r) = Some ([(''events'', RawArray []), (''events'', RawArray [raw])], True)"
    and "dec raw = Some ev" and "hp_path r = ''/collect/events''" and "int (length (hp_body r)) \<le> bl_collect lm"
  shows "collect_post parse dec value lm now ws r d = collect_events_create value now ws [ev] d"
  using assms
  by (simp add: collect_post_def too_large_def body_limit_def event_over_limit_def decode_events_def)

end
