(* ===== verification/Spec2Isabelle.thy ===== *)
theory Spec2Isabelle
  imports OutboundClaims AutomationJobs BroadcastJobs Contacts ErasureSafety Logins Connectors Domains Outbox Reporting DataExport AuditLog Integrations Notices Mcp SiteApi CollectApi
begin

text \<open>
  This development models sphericon (1mail), a self-hosted email marketing server written in Go: Workspaces collect
  Contacts and their Events, send Broadcasts, Automations and transactional mail to them through their own providers,
  and keep what recipients decided about that mail. The model covers the code under \<open>src/internal\<close> and \<open>src/ee\<close> that
  decides: what may be sent and is sent, who may do what, and what every request and job leaves in the database.

  \<^bold>\<open>How the program works, and where each part is.\<close> A request reaches a module through the site API (a session and a
  role), the external API or the MCP surface (an API token and its scopes), the collect API (a Workspace's public key)
  or a tracking link (a signed token). A module writes through a client confined to one Workspace, and publishes domain
  events into an outbox in the same transaction. Consumer groups read the outbox and store Events, suppress bouncing
  addresses, enroll Contacts into Automations, queue webhook deliveries and, with an Enterprise license, keep the Audit
  log. Jobs send: a Broadcast is planned into recipients, an Automation walks a run through its steps, and both, like the
  transactional call, hand one Request to the Outbound send, which claims it, passes it through every gate and gives it
  to the provider. Each theory stands for one part:

  \<^item> \<open>Prelude\<close>: Go's string and integer functions, tables kept as lists of rows with the relational operations on them,
    and the collections \<open>table_simps\<close> and \<open>string_simps\<close> the proofs share.
  \<^item> \<open>Events\<close> (\<open>internal/events\<close>): the typed domain events, their payloads, the Audit entries. \<open>Schema\<close> (\<open>ent/schema\<close>,
    \<open>ent/template/scoped.tmpl\<close>): one record per entity, the database \<open>db\<close>, the confinement of the scoped client
    (\<open>in_ws\<close>, \<open>foreign_view\<close>) and \<open>publish\<close>. \<open>AccountSchema\<close>: Users, Memberships, credentials, OAuth clients and
    codes in the store \<open>accounts_db\<close>.
  \<^item> \<open>Eligibility\<close> (\<open>internal/eligibility\<close>): the layered rule that decides about a destination. \<open>Consent\<close>
    (\<open>internal/consent\<close>): recording an Unsubscribe, a confirmation, a Suppression. \<open>Tracking\<close> (\<open>internal/tracking\<close>,
    \<open>internal/server/tracking.go\<close>): the signed links and the public endpoints.
  \<^item> \<open>Contacts\<close> (\<open>internal/contacts\<close>), \<open>Tags\<close> (\<open>internal/tags\<close>), \<open>Segments\<close> (\<open>internal/segments\<close>),
    \<open>EventLog\<close> (\<open>internal/visitors\<close>, \<open>internal/eventlog\<close>): people, what is known about them and how Events enter.
    \<open>DataExport\<close> (\<open>internal/contactexport\<close>) is the export of one Contact; \<open>Erasure\<close> and \<open>ErasureSafety\<close>
    (\<open>internal/erasure\<close>, \<open>internal/events/purge.go\<close>) are its deletion and what the deletion guarantees.
  \<^item> \<open>Messaging\<close> (\<open>internal/messaging\<close>): messages, the DKIM gate, the default Integration. \<open>Integrations\<close>
    (\<open>internal/integrations\<close>, the provider catalog): their configuration and secrets. \<open>SendLimit\<close>
    (\<open>internal/sendlimit\<close>): the two token buckets. \<open>Domains\<close> (\<open>internal/sending\<close>, \<open>internal/sendingdomains\<close>,
    \<open>internal/jobs/sending_domain.go\<close>): Sending domains and their checks.
  \<^item> \<open>Outbound\<close> (\<open>internal/outbound\<close>): \<open>send\<close>, one call. \<open>OutboundSafety\<close>: what one call guarantees. \<open>OutboundClaims\<close>:
    any number of attempts at one Request with their database statements interleaved. \<open>SendFrame\<close>: what the callers of
    \<open>send\<close> rely on. \<open>JobHold\<close> (\<open>internal/jobs/hold.go\<close>): how a held or deferred job waits.
  \<^item> \<open>Broadcasts\<close> (\<open>internal/broadcasts\<close>) and \<open>BroadcastJobs\<close> (\<open>internal/jobs/broadcast.go\<close>, \<open>inline.go\<close>, \<open>worker.go\<close>);
    \<open>Automations\<close> (\<open>internal/automations\<close>) and \<open>AutomationJobs\<close> (\<open>internal/jobs/automation.go\<close>).
  \<^item> \<open>EventConsumers\<close> (\<open>internal/events/subscriber.go\<close>, \<open>internal/webhooks\<close>, \<open>internal/jobs/webhook.go\<close>,
    \<open>internal/server/hooks_ses.go\<close>): the consumer groups, webhooks and SES notifications. \<open>Outbox\<close>
    (\<open>internal/events/prune.go\<close>, \<open>retention.go\<close>): what may be deleted, over a machine of producers, groups and prunes.
  \<^item> \<open>Members\<close>, \<open>MemberRequests\<close> (\<open>internal/accounts\<close> and its site handlers), \<open>Attempts\<close> (the login throttle),
    \<open>SecondFactors\<close> (\<open>internal/secondfactor\<close>), \<open>Logins\<close> (\<open>internal/authtoken\<close>, the sign-in handlers),
    \<open>Notices\<close> (\<open>internal/suspension\<close> and the platform mail): accounts.
  \<^item> \<open>ApiTokens\<close> (\<open>internal/credentials\<close>, \<open>internal/apitokens\<close>), \<open>OAuth\<close> (\<open>internal/oauthserver\<close>) and
    \<open>Connectors\<close>, the token endpoints as one machine; \<open>RateLimit\<close> (\<open>internal/ratelimit\<close>); \<open>Mcp\<close>
    (\<open>internal/mcpserver\<close>); \<open>ExternalApi\<close> (\<open>internal/api/external\<close>, \<open>internal/templates\<close>) and \<open>ApiSafety\<close>, what holds of
    each of its calls; \<open>SiteApi\<close> (\<open>internal/api/site\<close>, over Workspace content); \<open>CollectApi\<close>
    (\<open>internal/api/collect\<close> and the body caps of \<open>internal/server\<close>).
  \<^item> \<open>Paging\<close> (\<open>internal/pagination\<close>), \<open>Reporting\<close> (\<open>internal/analytics\<close>, \<open>internal/reputation\<close>), \<open>License\<close>
    (\<open>ee/licensekey\<close>), \<open>AuditLog\<close> (\<open>ee/audit\<close>, \<open>ee/retention\<close>, \<open>internal/auditapi\<close>).
\<close>

section \<open>What the lemmas show\<close>

text \<open>
  \<^item> Sending. A message leaves only through every gate; under every interleaving of attempts one
    Request is recorded once and no two attempts hold its claim; a recorded Broadcast recipient is never mailed again;
    an Unsubscribe, a bounce and an Erasure end the mail they must end; the limiter is never overspent.
  \<^item> Broadcasts and Automations. The Broadcast module implements an abstract state machine; a plan is exactly the
    eligible audience; the last attempt settles the Broadcast; a run only walks forward.
  \<^item> Personal data. An Erasure leaves no reference in the Workspace, keeps every refusal and touches no other Workspace;
    an export is the complete set of a Contact's rows; Contacts keep their keys unique.
  \<^item> Events. Persist writes each envelope once over redelivery, and pruning never deletes what a group has yet to read.
  \<^item> Accounts and tokens. A Workspace keeps an owner; requests are steps of an abstract roster; a revoked session and a
    spent challenge, code or TOTP step stay spent; guessing is throttled; no token escalates; a connector holds what was
    consented.
  \<^item> Surfaces. A call of the external API stays in the Workspace of its token, asks for its scope, and without the launching
    scopes launches nothing; MCP dispatches only what its caller may do and marks every untrusted value; the Audit log
    does not tell an operator from another.
  \<^item> Configuration. A verified domain was published at its present selector and every domain is rechecked; at most one
    default Integration per channel; blank secrets are kept.

  Some theorems state where the code falls short of what it means to do: a first Unsubscribe for a deleted Contact or
  through a deleted Broadcast is lost, and \<open>noncanonical_source_not_honoured\<close>, \<open>lost_wait\<close>, \<open>replan_reopens_sent\<close>,
  \<open>empty_action_stops_log\<close>, \<open>collected_complaint_suppresses\<close>, \<open>erased_device_resurfaces\<close>,
  \<open>contactless_events_remain\<close>, \<open>accepting_member_fails\<close>, \<open>stale_check_verifies\<close>, \<open>failing_lookups_starve\<close>,
  \<open>click_to_open_exceeds_one\<close> and \<open>stale_release_loses_reminder\<close>.
\<close>

section \<open>Conventions, bounds and fuel\<close>

text \<open>
  \<^item> State. An operation takes the database and returns it with its answer. A transaction that fails leaves the database
    as it was, which the definitions write out; a call reads the clock once. Ids come from one counter per store.
    Two databases appear: \<open>db\<close> for the content of Workspaces and \<open>accounts_db\<close> for people and credentials; a Workspace
    has a row in each, with the columns that side reads. Templates and Sending domains, with their keys, have stores of their own.
  \<^item> Time is in nanoseconds as \<open>int\<close>; stored times are cut to the microsecond where the code's outcome depends on it.
    The limiter's and the dashboards' floating point numbers are rationals. 64-bit integers are checked where the source
    can overflow (\<open>parse_int64\<close>, Deferral delays). Strings are lists of characters read as bytes; folding and trimming
    are the ASCII part of Go's.
  \<^item> Concurrency. Where the source runs several statements without one transaction, and the order of two callers can
    matter, the statements are separate steps of a relation or of a list of steps in any order: the attempts of one
    Request, the check of a Sending domain, the reminder sweep, the two steps of an Integration's update, the producers,
    groups and prunes of the outbox. Elsewhere an operation is one step.
  \<^item> Delivery. A queue is the list of inserted jobs; a consumer group that fails sees the same envelope again
    (\<open>drain\<close>), which is the at-least-once contract of the library.
  \<^item> Errors are values, one datatype per module with the sentinels of the source; a storage failure that no input of
    the model can cause is not a branch.
  \<^item> Fuel. Only the marking of MCP results (\<open>wrap\<close>) takes fuel, since response schemas may be recursive; fuel two above
    the rank of an acyclic schema always suffices, which is a theorem, and \<open>None\<close> stands for not returning. Every other
    loop is structural or has a measure.
  \<^item> Parameters. Code outside the repository is an argument of the definitions that use it, with its documented laws as
    hypotheses: JWT, HMAC, argon2, bcrypt, TOTP, Ed25519 and the Tink cipher, the provider libraries and the DNS resolver,
    the Liquid and MJML renderer, the HTML tokenizer, JSON encoding of configurations, IDNA, the job queue's readers and
    the sliding window of the request limiter. Random keys are arguments.
\<close>

section \<open>Interfaces\<close>

text \<open>
  \<open>token_bucket\<close> is the contract of one bucket of the limiter, interpreted for the second and the day bucket;
  \<open>layered_rule\<close> that of a list of refusing layers, interpreted for the eligibility rule; \<open>broadcast_queue\<close> what the
  Broadcast module asks of its queue, interpreted for the job table; \<open>workspace_confined\<close> what a scope promises,
  interpreted for the opt-out and for the Outbound send.
\<close>

section \<open>Not modelled\<close>

text \<open>
  The parsing of JSON; list pages that are one plain query; the mapping of rows to
  responses; HTTP routing, CORS and the embedded front end; the construction of the process,
  its configuration and its commands; the workers that only render one mail; telemetry, logs and metrics; the Audit
  entry the generated client records for a plain mutation; the generated code of ent and ogen; tests and fixtures.
\<close>

end
